(* ===== verification/Klio_Prelude.thy ===== *)
theory Klio_Prelude
  imports Main "HOL-Library.Word" "HOL-Library.Char_ord" "HOL-Library.List_Lexorder"
begin

text \<open>
  Shared vocabulary of the development: the machine types of the Go sources, the parts of the Go
  standard library the modelled code uses on strings and paths (package strings: HasSuffix,
  TrimSuffix, Split; package path: Ext, Clean, Join, Base), and the lemmas on them that the
  component theories share.  A Go string is a byte string, so it is a HOL \<open>string\<close>, and Go's string
  comparison (\<open><\<close>, strings.Compare, the built-in max) is the lexicographic order on bytes that
  List_Lexorder and Char_ord put on \<open>char list\<close>.  A Go uint64 is a \<open>64 word\<close>; a byte slice is a
  list of \<open>8 word\<close>.
\<close>

section \<open>Machine types and collections of facts\<close>

type_synonym byte = "8 word"
type_synonym bytes = "8 word list"
type_synonym uint64 = "64 word"

named_theorems go_string_simps \<open>facts on the string functions of the Go standard library\<close>
named_theorems path_simps \<open>facts on the functions of package path\<close>

section \<open>Errors\<close>

text \<open>
  Go's error values.  \<open>Wrap\<close> is fmt.Errorf with a \<open>%w\<close> verb, which errors.Is looks through;
  \<open>ErrorJoin\<close> is errors.Join; \<open>Status\<close> is a gRPC status error; \<open>Sentinel\<close> is a package-level
  errors.New value, told apart by its text.  A run-time panic is the value \<open>Panic\<close>, which no
  error test matches.
\<close>

datatype grpc_code =
    InvalidArgument | PermissionDenied | FailedPrecondition | NotFound | Internal | Unavailable

datatype go_error =
    EOF
  | ErrUnexpectedEOF
  | ErrNotExist
  | Sentinel string
  | Wrap string go_error
  | Status grpc_code string
  | ErrorJoin "go_error list"
  | Panic string

fun errors_Is :: "go_error \<Rightarrow> go_error \<Rightarrow> bool" where
  "errors_Is (Wrap m e) target \<longleftrightarrow> Wrap m e = target \<or> errors_Is e target"
| "errors_Is (ErrorJoin es) target \<longleftrightarrow> ErrorJoin es = target \<or> list_ex (\<lambda>e. errors_Is e target) es"
| "errors_Is e target \<longleftrightarrow> e = target"

definition errors_Join :: "go_error list \<Rightarrow> go_error option" where
  "errors_Join es = (if es = [] then None else Some (ErrorJoin es))"

section \<open>Package strings\<close>

definition HasSuffix :: "string \<Rightarrow> string \<Rightarrow> bool" where
  "HasSuffix s suf \<longleftrightarrow> length suf \<le> length s \<and> drop (length s - length suf) s = suf"

definition TrimSuffix :: "string \<Rightarrow> string \<Rightarrow> string" where
  "TrimSuffix s suf = (if HasSuffix s suf then take (length s - length suf) s else s)"

definition CutSuffix :: "string \<Rightarrow> string \<Rightarrow> string \<times> bool" where
  "CutSuffix s suf = (TrimSuffix s suf, HasSuffix s suf)"

fun split_on :: "char \<Rightarrow> string \<Rightarrow> string list" where
  "split_on c [] = [[]]"
| "split_on c (x # xs) =
     (if x = c then [] # split_on c xs
      else (case split_on c xs of [] \<Rightarrow> [[x]] | y # ys \<Rightarrow> (x # y) # ys))"

fun join_with :: "string \<Rightarrow> string list \<Rightarrow> string" where
  "join_with sep [] = []"
| "join_with sep [x] = x"
| "join_with sep (x # y # ys) = x @ sep @ join_with sep (y # ys)"

text \<open>strings.Cut: the text before and after the first separator.\<close>

fun Cut :: "string \<Rightarrow> char \<Rightarrow> string \<times> string \<times> bool" where
  "Cut [] c = ([], [], False)"
| "Cut (x # xs) c =
     (if x = c then ([], xs, True)
      else (let (b, a, found) = Cut xs c in (x # b, a, found)))"

section \<open>Package path\<close>

text \<open>path.Ext walks back from the end of the name, to the last dot of the last element.\<close>

fun ext_back :: "string \<Rightarrow> string \<Rightarrow> string" where
  "ext_back acc [] = []"
| "ext_back acc (c # cs) =
     (if c = CHR ''/'' then []
      else if c = CHR ''.'' then c # acc
      else ext_back (c # acc) cs)"

definition path_Ext :: "string \<Rightarrow> string" where
  "path_Ext p = ext_back [] (rev p)"

text \<open>
  path.Clean keeps a stack of elements: empty elements and dots vanish, a double dot removes the
  element before it (and stays, in a relative path, when there is none).
\<close>

fun clean_step :: "bool \<Rightarrow> string list \<Rightarrow> string \<Rightarrow> string list" where
  "clean_step rooted st c =
     (if c = '''' \<or> c = ''.'' then st
      else if c = ''..'' then
        (case st of
           [] \<Rightarrow> if rooted then [] else [''..'']
         | t # ts \<Rightarrow> if t = ''..'' then ''..'' # st else ts)
      else c # st)"

definition path_Clean :: "string \<Rightarrow> string" where
  "path_Clean p =
     (if p = '''' then ''.''
      else let rooted = (hd p = CHR ''/'');
               body = join_with ''/'' (rev (foldl (clean_step rooted) [] (split_on (CHR ''/'') p)))
           in if rooted then CHR ''/'' # body else if body = '''' then ''.'' else body)"

definition path_Join :: "string list \<Rightarrow> string" where
  "path_Join es =
     (let ne = filter (\<lambda>e. e \<noteq> '''') es
      in if ne = [] then '''' else path_Clean (join_with ''/'' ne))"

text \<open>path.Base: the last element, after trailing slashes are removed.\<close>

definition path_Base :: "string \<Rightarrow> string" where
  "path_Base p =
     (if p = '''' then ''.''
      else let q = rev (dropWhile (\<lambda>c. c = CHR ''/'') (rev p));
               b = rev (takeWhile (\<lambda>c. c \<noteq> CHR ''/'') (rev q))
           in if b = '''' then ''/'' else b)"

text \<open>A plain element: what a path component must be for Join to keep it as it is.\<close>

definition plain_elem :: "string \<Rightarrow> bool" where
  "plain_elem e \<longleftrightarrow> e \<noteq> '''' \<and> e \<noteq> ''.'' \<and> e \<noteq> ''..'' \<and> CHR ''/'' \<notin> set e"

section \<open>Hexadecimal digits\<close>

definition is_dec :: "char \<Rightarrow> bool" where
  "is_dec c \<longleftrightarrow> 48 \<le> (of_char c :: nat) \<and> (of_char c :: nat) \<le> 57"

definition is_hex :: "char \<Rightarrow> bool" where
  "is_hex c \<longleftrightarrow> is_dec c \<or> 65 \<le> (of_char c :: nat) \<and> (of_char c :: nat) \<le> 70
     \<or> 97 \<le> (of_char c :: nat) \<and> (of_char c :: nat) \<le> 102"

section \<open>Lemmas: suffixes\<close>

lemma HasSuffix_iff: "HasSuffix s suf \<longleftrightarrow> (\<exists>p. s = p @ suf)"
proof
  assume "HasSuffix s suf"
  then have "s = take (length s - length suf) s @ suf"
    unfolding HasSuffix_def by (metis append_take_drop_id)
  then show "\<exists>p. s = p @ suf" by blast
qed (auto simp: HasSuffix_def)

lemma HasSuffix_append [simp, go_string_simps]: "HasSuffix (p @ suf) suf"
  by (auto simp: HasSuffix_iff)

lemma TrimSuffix_append [simp, go_string_simps]: "TrimSuffix (p @ suf) suf = p"
  by (simp add: TrimSuffix_def)

lemma TrimSuffix_id [simp]: "\<not> HasSuffix s suf \<Longrightarrow> TrimSuffix s suf = s"
  by (simp add: TrimSuffix_def)

lemma TrimSuffix_back: "HasSuffix s suf \<Longrightarrow> TrimSuffix s suf @ suf = s"
  by (auto simp: HasSuffix_iff)

section \<open>Lemmas: splitting and joining\<close>

lemma split_on_nonempty [simp]: "split_on c s \<noteq> []"
  by (cases s) (auto split: list.splits)

lemma split_on_notin [go_string_simps]: "c \<notin> set a \<Longrightarrow> split_on c a = [a]"
  by (induction a) auto

lemma split_on_append [go_string_simps]:
  "c \<notin> set a \<Longrightarrow> split_on c (a @ c # b) = a # split_on c b"
  by (induction a) auto

lemma length_split_on: "length (split_on c s) = Suc (count_list s c)"
  by (induction s) (auto split: list.splits)

lemma split_on_parts: "x \<in> set (split_on c s) \<Longrightarrow> c \<notin> set x"
  by (induction c s arbitrary: x rule: split_on.induct)
     (auto split: if_splits list.splits)

lemma join_split_on: "join_with [c] (split_on c s) = s"
proof (induction c s rule: split_on.induct)
  case (2 c x xs)
  then show ?case
    by (cases "split_on c xs"; cases "tl (split_on c xs)") auto
qed simp

lemma Cut_append: "c \<notin> set u \<Longrightarrow> Cut (u @ c # v) c = (u, v, True)"
  by (induction u) auto

lemma Cut_Some: "Cut s c = (u, v, True) \<Longrightarrow> s = u @ c # v \<and> c \<notin> set u"
  by (induction s c arbitrary: u rule: Cut.induct) (auto simp: Let_def split: if_splits prod.splits)

lemma Cut_None: "c \<notin> set s \<Longrightarrow> Cut s c = (s, [], False)"
  by (induction s) auto

section \<open>Lemmas: paths\<close>

lemma plain_elem_split [path_simps]: "plain_elem e \<Longrightarrow> split_on (CHR ''/'') e = [e]"
  by (simp add: plain_elem_def split_on_notin)

lemma split_join_plain:
  assumes "es \<noteq> []" and "\<And>e. e \<in> set es \<Longrightarrow> plain_elem e"
  shows "split_on (CHR ''/'') (join_with ''/'' es) = es"
  using assms
proof (induction "''/''" es rule: join_with.induct)
  case (3 x y ys)
  then show ?case
    by (auto simp: plain_elem_def split_on_append)
qed (auto simp: plain_elem_def split_on_notin)

lemma foldl_clean_plain:
  assumes "\<And>e. e \<in> set es \<Longrightarrow> plain_elem e"
  shows "foldl (clean_step rooted) st es = rev es @ st"
  using assms by (induction es arbitrary: st) (auto simp: plain_elem_def)

lemma join_with_nonempty: "es \<noteq> [] \<Longrightarrow> hd es \<noteq> '''' \<Longrightarrow> join_with sep es \<noteq> ''''"
  by (cases "(sep, es)" rule: join_with.cases) auto

lemma hd_join_with: "es \<noteq> [] \<Longrightarrow> hd es \<noteq> '''' \<Longrightarrow> hd (join_with sep es) = hd (hd es)"
  by (cases "(sep, es)" rule: join_with.cases) auto

lemma path_Clean_plain:
  assumes "es \<noteq> []" and plain: "\<And>e. e \<in> set es \<Longrightarrow> plain_elem e"
  shows "path_Clean (join_with ''/'' es) = join_with ''/'' es"
proof -
  have hd_plain: "plain_elem (hd es)"
    using assms by simp
  then have hd_ne: "hd es \<noteq> ''''" and rel: "hd (hd es) \<noteq> CHR ''/''"
    by (auto simp: plain_elem_def neq_Nil_conv)
  show ?thesis
    using assms hd_ne rel
    by (simp add: path_Clean_def split_join_plain foldl_clean_plain join_with_nonempty hd_join_with)
qed

lemma path_Join_plain [path_simps]:
  assumes "es \<noteq> []" and plain: "\<And>e. e \<in> set es \<Longrightarrow> plain_elem e"
  shows "path_Join es = join_with ''/'' es"
proof -
  have "filter (\<lambda>e. e \<noteq> '''') es = es"
    using plain by (auto simp: plain_elem_def filter_id_conv)
  with path_Clean_plain [OF assms] assms(1) show ?thesis by (simp add: path_Join_def)
qed

lemma join_with_snoc: "ds \<noteq> [] \<Longrightarrow> join_with sep (ds @ [n]) = join_with sep ds @ sep @ n"
  by (induction sep ds rule: join_with.induct) auto

lemma path_Join_snoc:
  assumes "ds \<noteq> []" and "\<And>d. d \<in> set ds \<Longrightarrow> plain_elem d" and "plain_elem n"
  shows "path_Join [join_with ''/'' ds, n] = join_with ''/'' (ds @ [n])"
proof -
  have "hd ds \<noteq> ''''" using assms(1,2) by (metis hd_in_set plain_elem_def)
  then have "join_with ''/'' ds \<noteq> ''''" using assms(1) by (rule join_with_nonempty [rotated])
  moreover have "path_Clean (join_with ''/'' (ds @ [n])) = join_with ''/'' (ds @ [n])"
    by (rule path_Clean_plain) (use assms in auto)
  ultimately show ?thesis
    using assms(1,3) by (simp add: path_Join_def join_with_snoc plain_elem_def)
qed

lemma dropWhile_slash [path_simps]:
  "plain_elem e \<Longrightarrow> dropWhile (\<lambda>c. c = CHR ''/'') (rev e @ t) = rev e @ t"
proof -
  assume "plain_elem e"
  then have "hd (rev e) \<noteq> CHR ''/''" and "rev e \<noteq> []"
    by (auto simp: plain_elem_def hd_rev) (metis last_in_set)
  then show ?thesis
    by (simp add: dropWhile_eq_self_iff)
qed

lemma path_Base_slash [path_simps]: "plain_elem e \<Longrightarrow> path_Base (d @ CHR ''/'' # e) = e"
proof -
  assume e: "plain_elem e"
  then have "takeWhile (\<lambda>c. c \<noteq> CHR ''/'') (rev e @ CHR ''/'' # rev d) = rev e"
    by (subst takeWhile_append2) (auto simp: plain_elem_def)
  with e dropWhile_slash [OF e, of "CHR ''/'' # rev d"] show ?thesis
    by (simp add: path_Base_def plain_elem_def)
qed

lemma path_Base_plain [path_simps]: "plain_elem e \<Longrightarrow> path_Base e = e"
proof -
  assume e: "plain_elem e"
  then have "takeWhile (\<lambda>c. c \<noteq> CHR ''/'') (rev e) = rev e"
    unfolding plain_elem_def by (subst takeWhile_eq_all_conv) auto
  moreover have "dropWhile (\<lambda>c. c = CHR ''/'') (rev e) = rev e"
    using dropWhile_slash [OF e, of "[]"] by simp
  ultimately show ?thesis
    using e unfolding path_Base_def plain_elem_def Let_def by (simp del: takeWhile_eq_all_conv)
qed

section \<open>Lemmas: hexadecimal names\<close>

lemma is_hex_not_special [simp]: "\<not> is_hex (CHR ''.'')" "\<not> is_hex (CHR ''/'')"
  by (simp_all add: is_hex_def is_dec_def)

lemma ext_back_nodot: "CHR ''.'' \<notin> set s \<Longrightarrow> ext_back acc s = ''''"
  by (induction s arbitrary: acc) auto

lemma ext_back_dot:
  "CHR ''.'' \<notin> set s \<Longrightarrow> CHR ''/'' \<notin> set s \<Longrightarrow> ext_back acc (s @ CHR ''.'' # t) = CHR ''.'' # rev s @ acc"
  by (induction s arbitrary: acc) auto

lemma path_Ext_none [path_simps]: "CHR ''.'' \<notin> set s \<Longrightarrow> path_Ext s = ''''"
  by (simp add: path_Ext_def ext_back_nodot)

lemma path_Ext_dot [path_simps]:
  "CHR ''.'' \<notin> set e \<Longrightarrow> CHR ''/'' \<notin> set e \<Longrightarrow> path_Ext (s @ CHR ''.'' # e) = CHR ''.'' # e"
  by (simp add: path_Ext_def ext_back_dot)

lemma ext_back_slash: "CHR ''.'' \<notin> set s \<Longrightarrow> ext_back acc (s @ CHR ''/'' # t) = ''''"
  by (induction s arbitrary: acc) auto

lemma path_Ext_slash [path_simps]: "CHR ''.'' \<notin> set e \<Longrightarrow> path_Ext (d @ CHR ''/'' # e) = ''''"
  by (simp add: path_Ext_def ext_back_slash)

end
