(* ===== verification/Wal_Names.thy ===== *)
theory Wal_Names
  imports Klio_Prelude
begin

text \<open>
  Names of WAL files and where the repository keeps them: core/internal/wal/filename.go,
  core/internal/repository/validate.go and the layout half of core/internal/repository/wals.go.
  postgres.IsWALFile belongs to the CloudNativePG module, so it is an argument of the definitions
  that call it; \<open>wal_segment_test\<close> states what its documentation promises on a bare file name.  The
  tables of package unicode are an argument too; \<open>unicode_ascii\<close> fixes them on ASCII.
\<close>

section \<open>core/internal/wal/filename.go\<close>

definition PartialSuffix :: string where
  "PartialSuffix = ''.partial''"

definition IsPartialWALFile :: "(string \<Rightarrow> bool) \<Rightarrow> string \<Rightarrow> bool" where
  "IsPartialWALFile isWALFile name =
     (let (bareName, isPartial) = CutSuffix name PartialSuffix
      in isPartial \<and> isWALFile bareName)"

definition IsWALSegmentOrPartial :: "(string \<Rightarrow> bool) \<Rightarrow> string \<Rightarrow> bool" where
  "IsWALSegmentOrPartial isWALFile name \<longleftrightarrow> isWALFile name \<or> IsPartialWALFile isWALFile name"

definition TrimPartialSuffix :: "string \<Rightarrow> string" where
  "TrimPartialSuffix name = TrimSuffix name PartialSuffix"

definition WithPartialSuffix :: "string \<Rightarrow> string" where
  "WithPartialSuffix name = (if \<not> HasSuffix name PartialSuffix then name @ PartialSuffix else name)"

text \<open>The documented behaviour of postgres.IsWALFile on a bare file name.\<close>

definition wal_segment_test :: "(string \<Rightarrow> bool) \<Rightarrow> bool" where
  "wal_segment_test isWALFile \<longleftrightarrow>
     (\<forall>n. CHR ''/'' \<notin> set n \<longrightarrow> isWALFile n = (length n = 24 \<and> list_all is_hex n))"

section \<open>core/internal/repository/validate.go\<close>

datatype repo_error =
    InvalidRepositoryFileError string
  | IncorrectWALNameError string

record unicode_tables =
  IsLetter :: "nat \<Rightarrow> bool"
  IsNumber :: "nat \<Rightarrow> bool"

definition unicode_ascii :: "unicode_tables \<Rightarrow> bool" where
  "unicode_ascii uc \<longleftrightarrow>
     (\<forall>r<128. IsLetter uc r = (65 \<le> r \<and> r \<le> 90 \<or> 97 \<le> r \<and> r \<le> 122)) \<and>
     (\<forall>r<128. IsNumber uc r = (48 \<le> r \<and> r \<le> 57))"

definition ascii_tables :: unicode_tables where
  "ascii_tables = \<lparr>IsLetter = (\<lambda>r. 65 \<le> r \<and> r \<le> 90 \<or> 97 \<le> r \<and> r \<le> 122),
     IsNumber = (\<lambda>r. 48 \<le> r \<and> r \<le> 57)\<rparr>"

text \<open>The runes of a string, as a Go range loop decodes them: 65533 for a malformed byte.\<close>

definition cont_byte :: "nat \<Rightarrow> bool" where
  "cont_byte b \<longleftrightarrow> 128 \<le> b \<and> b \<le> 191"

fun decode_rune :: "nat \<Rightarrow> nat list \<Rightarrow> nat \<times> nat" where
  "decode_rune b0 r =
     (if b0 < 128 then (b0, 0)
      else case r of
        [] \<Rightarrow> (65533, 0)
      | b1 # r1 \<Rightarrow>
          if 194 \<le> b0 \<and> b0 \<le> 223 then
            (if cont_byte b1 then ((b0 mod 32) * 64 + b1 mod 64, 1) else (65533, 0))
          else case r1 of
            [] \<Rightarrow> (65533, 0)
          | b2 # r2 \<Rightarrow>
              if 224 \<le> b0 \<and> b0 \<le> 239 then
                (if (if b0 = 224 then 160 else 128) \<le> b1 \<and> b1 \<le> (if b0 = 237 then 159 else 191) \<and> cont_byte b2
                 then ((b0 mod 16) * 4096 + (b1 mod 64) * 64 + b2 mod 64, 2) else (65533, 0))
              else case r2 of
                [] \<Rightarrow> (65533, 0)
              | b3 # r3 \<Rightarrow>
                  if 240 \<le> b0 \<and> b0 \<le> 244 \<and>
                     (if b0 = 240 then 144 else 128) \<le> b1 \<and> b1 \<le> (if b0 = 244 then 143 else 191) \<and>
                     cont_byte b2 \<and> cont_byte b3
                  then ((b0 mod 8) * 262144 + (b1 mod 64) * 4096 + (b2 mod 64) * 64 + b3 mod 64, 3)
                  else (65533, 0))"

function runes :: "nat list \<Rightarrow> nat list" where
  "runes [] = []"
| "runes (b # bs) = (let (r, n) = decode_rune b bs in r # runes (drop n bs))"
  by pat_completeness auto
termination
  by (relation "measure length") auto

definition isInvalidCharacter :: "unicode_tables \<Rightarrow> nat \<Rightarrow> bool" where
  "isInvalidCharacter uc r =
     (if IsLetter uc r then False
      else if IsNumber uc r then False
      else if r = 95 then False
      else if r = 45 then False
      else if r = 46 then False
      else True)"

definition ValidatePathComponent :: "unicode_tables \<Rightarrow> string \<Rightarrow> repo_error option" where
  "ValidatePathComponent uc component =
     (if list_ex (isInvalidCharacter uc) (runes (map of_char component))
      then Some (InvalidRepositoryFileError component) else None)"

text \<open>
  The regular expression: a timeline of eight digits, then \<open>.history\<close>, or sixteen more digits and
  optionally \<open>.partial\<close> or the offset of a backup label.
\<close>

definition backup_label_suffix :: "string \<Rightarrow> bool" where
  "backup_label_suffix t \<longleftrightarrow>
     length t = 16 \<and> take 1 t = ''.'' \<and> list_all is_hex (take 8 (drop 1 t)) \<and> drop 9 t = ''.backup''"

definition walFileRE :: "string \<Rightarrow> bool" where
  "walFileRE s \<longleftrightarrow>
     8 \<le> length s \<and> list_all is_hex (take 8 s) \<and>
     (let r = drop 8 s in
        r = ''.history'' \<or>
        (16 \<le> length r \<and> list_all is_hex (take 16 r) \<and>
         (let t = drop 16 r in t = '''' \<or> backup_label_suffix t \<or> t = ''.partial'')))"

definition ValidateWalFileName :: "string \<Rightarrow> repo_error option" where
  "ValidateWalFileName name = (if \<not> walFileRE name then Some (IncorrectWALNameError name) else None)"

section \<open>core/internal/repository/wals.go: the layout\<close>

definition walSubdirectoryLength :: nat where
  "walSubdirectoryLength = 16"

definition expectedWalFileNameLength :: nat where
  "expectedWalFileNameLength = 24"

definition getWALArchivePath :: "string \<Rightarrow> string \<Rightarrow> string" where
  "getWALArchivePath clusterName walName =
     (let walNameWithoutExtension = TrimSuffix walName (path_Ext walName)
      in if length walNameWithoutExtension = expectedWalFileNameLength
         then path_Join [clusterName, take walSubdirectoryLength walName, walName]
         else path_Join [clusterName, walName])"

lemmas layout_defs = walSubdirectoryLength_def expectedWalFileNameLength_def getWALArchivePath_def

section \<open>Lemmas: the partial suffix\<close>

lemma Trim_WithPartialSuffix [simp]: "TrimPartialSuffix (WithPartialSuffix n) = TrimPartialSuffix n"
  by (simp add: TrimPartialSuffix_def WithPartialSuffix_def)

lemma With_TrimPartialSuffix:
  "\<not> HasSuffix (TrimPartialSuffix n) PartialSuffix \<Longrightarrow>
   WithPartialSuffix (TrimPartialSuffix n) = WithPartialSuffix n"
  by (auto simp: TrimPartialSuffix_def WithPartialSuffix_def TrimSuffix_back)

lemma hex24_no_partial: "length n = 24 \<Longrightarrow> list_all is_hex n \<Longrightarrow> \<not> HasSuffix n PartialSuffix"
  by (auto simp: HasSuffix_iff PartialSuffix_def)

lemma hex_chars: "list_all is_hex s \<Longrightarrow> CHR ''.'' \<notin> set s \<and> CHR ''/'' \<notin> set s"
  by (auto simp: list_all_iff)

section \<open>Lemmas: validated names\<close>

lemma take_drop_split3: "xs = take a xs @ take b (drop a xs) @ drop (a + b) xs"
  by (metis add.commute append_take_drop_id drop_drop)

lemma backup_label_suffix_shape:
  assumes "backup_label_suffix t"
  obtains u where "length u = 8" "list_all is_hex u" "t = ''.'' @ u @ ''.backup''"
proof
  let ?u = "take 8 (drop 1 t)"
  from assms show "length ?u = 8" "list_all is_hex ?u"
    by (auto simp: backup_label_suffix_def)
  from assms take_drop_split3 [of t 1 8] show "t = ''.'' @ ?u @ ''.backup''"
    by (simp add: backup_label_suffix_def)
qed

lemma walFileRE_shape:
  assumes "walFileRE s"
  obtains (history) t where "length t = 8" "list_all is_hex t" "s = t @ ''.history''"
    | (segment) "length s = 24" "list_all is_hex s"
    | (partial) t where "length t = 24" "list_all is_hex t" "s = t @ ''.partial''"
    | (label) t u where "length t = 24" "list_all is_hex t" "length u = 8" "list_all is_hex u"
        "s = t @ ''.'' @ u @ ''.backup''"
proof (cases "drop 8 s = ''.history''")
  case True
  with assms history [of "take 8 s"] append_take_drop_id [of 8 s] show ?thesis
    by (simp add: walFileRE_def)
next
  case False
  let ?t = "take 24 s" and ?r = "drop 24 s"
  have s: "s = ?t @ ?r" by simp
  have "list_all is_hex (take 8 s) \<Longrightarrow> list_all is_hex (take 16 (drop 8 s)) \<Longrightarrow> list_all is_hex ?t"
    using take_add [of 8 16 s] by simp
  with assms False have t: "length ?t = 24" "list_all is_hex ?t"
    and rest: "?r = '''' \<or> backup_label_suffix ?r \<or> ?r = ''.partial''"
    by (auto simp: walFileRE_def Let_def)
  from rest consider "?r = ''''" | "backup_label_suffix ?r" | "?r = ''.partial''" by blast
  then show ?thesis
  proof cases
    case 1
    with t segment show ?thesis by simp
  next
    case 2
    then obtain u where "length u = 8" "list_all is_hex u" "?r = ''.'' @ u @ ''.backup''"
      by (rule backup_label_suffix_shape)
    with t s label [of ?t u] show ?thesis by simp
  next
    case 3
    with t s partial [of ?t] show ?thesis by simp
  qed
qed

lemma walFileRE_length: "walFileRE s \<Longrightarrow> 16 \<le> length s"
  by (erule walFileRE_shape) auto

definition wal_name_char :: "char \<Rightarrow> bool" where
  "wal_name_char c \<longleftrightarrow> is_hex c \<or> c \<in> set ''.historypartialbackup''"

lemma walFileRE_chars: "walFileRE s \<Longrightarrow> list_all wal_name_char s"
  by (erule walFileRE_shape) (auto simp: wal_name_char_def list_all_iff)

lemma walFileRE_plain: "walFileRE s \<Longrightarrow> plain_elem s"
proof -
  assume re: "walFileRE s"
  then have "16 \<le> length s" and "list_all wal_name_char s"
    by (rule walFileRE_length, rule walFileRE_chars)
  then show "plain_elem s"
    by (auto simp: plain_elem_def list_all_iff wal_name_char_def)
qed

lemma wal_name_char_ascii:
  "wal_name_char c \<Longrightarrow> unicode_ascii uc \<Longrightarrow>
   (of_char c :: nat) < 128 \<and> \<not> isInvalidCharacter uc (of_char c)"
  by (auto simp: wal_name_char_def is_hex_def is_dec_def isInvalidCharacter_def unicode_ascii_def)

lemma ascii_tables_ascii [simp]: "unicode_ascii ascii_tables"
  by (simp add: unicode_ascii_def ascii_tables_def)

section \<open>Lemmas: runes and path components\<close>

lemma runes_ascii: "list_all (\<lambda>b. b < 128) bs \<Longrightarrow> runes bs = bs"
  by (induction bs) auto

lemma decode_rune_skips:
  "decode_rune b0 bs = (r, n) \<Longrightarrow> b \<in> set (take n bs) \<Longrightarrow> 128 \<le> b"
  by (auto simp: cont_byte_def split: if_splits list.splits)

lemma ascii_in_runes: "b \<in> set bs \<Longrightarrow> b < 128 \<Longrightarrow> b \<in> set (runes bs)"
proof (induction bs rule: runes.induct)
  case (2 b0 bs)
  obtain r n where rn: "decode_rune b0 bs = (r, n)" by (cases "decode_rune b0 bs")
  consider "b = b0" | "b \<in> set (take n bs)" | "b \<in> set (drop n bs)"
    using "2.prems"(1) append_take_drop_id [of n bs] by (metis Un_iff set_ConsD set_append)
  then show ?case
  proof cases
    case 1
    with "2.prems" rn have "r = b" by auto
    with rn show ?thesis by simp
  next
    case 2
    with rn decode_rune_skips "2.prems"(2) show ?thesis by fastforce
  next
    case 3
    with "2.IH" [OF rn [symmetric] refl] "2.prems"(2) rn show ?thesis by simp
  qed
qed simp

lemma ValidatePathComponent_no_slash:
  assumes uc: "unicode_ascii uc" and ok: "ValidatePathComponent uc s = None"
  shows "CHR ''/'' \<notin> set s"
proof
  assume "CHR ''/'' \<in> set s"
  then have "(47::nat) \<in> set (map of_char s)" by force
  then have "47 \<in> set (runes (map of_char s))" by (rule ascii_in_runes) simp
  moreover have "isInvalidCharacter uc 47"
    using uc by (simp add: isInvalidCharacter_def unicode_ascii_def)
  ultimately show False
    using ok by (auto simp: ValidatePathComponent_def list_ex_iff split: if_splits)
qed

lemma validated_component_plain:
  "unicode_ascii uc \<Longrightarrow> ValidatePathComponent uc s = None \<Longrightarrow> s \<notin> {'''', ''.'', ''..''} \<Longrightarrow> plain_elem s"
  by (simp add: plain_elem_def ValidatePathComponent_no_slash)

section \<open>Lemmas: the archive layout\<close>

lemma stem_of_valid:
  assumes "walFileRE n"
  shows "length (TrimSuffix n (path_Ext n)) = 24 \<longleftrightarrow>
         length n = 24 \<or> (\<exists>t. n = t @ ''.partial'')"
  using assms
proof (cases n rule: walFileRE_shape)
  case (history t)
  have "path_Ext n = ''.history''"
    using path_Ext_dot [of "''history''" t] history by simp
  then show ?thesis using history by (auto simp: append_eq_append_conv_if)
next
  case segment
  then have "path_Ext n = ''''" by (simp add: hex_chars path_Ext_none)
  then show ?thesis using segment by (simp add: TrimSuffix_def)
next
  case (partial t)
  have "path_Ext n = ''.partial''"
    using path_Ext_dot [of "''partial''" t] partial by simp
  then show ?thesis using partial by simp
next
  case (label t u)
  have "path_Ext n = ''.backup''"
    using path_Ext_dot [of "''backup''" "t @ ''.'' @ u"] label by simp
  then have stem: "TrimSuffix n (path_Ext n) = t @ ''.'' @ u"
    using TrimSuffix_append [of "t @ ''.'' @ u" "''.backup''"] label by simp
  have "\<nexists>v. n = v @ ''.partial''"
  proof
    assume "\<exists>v. n = v @ ''.partial''"
    then obtain v where "n = v @ ''.partial''" by blast
    then have "last n = CHR ''l''" by simp
    then show False using label by simp
  qed
  then show ?thesis using label stem by auto
qed

text \<open>A segment, complete or partial, lives in a subdirectory; every other file beside them.\<close>

definition archive_elems :: "string \<Rightarrow> string \<Rightarrow> string list" where
  "archive_elems c n =
     (if length (TrimSuffix n (path_Ext n)) = 24 then [c, take 16 n, n] else [c, n])"

lemma archive_elems_plain:
  assumes "plain_elem c" and "walFileRE n" and "e \<in> set (archive_elems c n)"
  shows "plain_elem e"
proof -
  from assms(2) have n: "plain_elem n" by (rule walFileRE_plain)
  have len: "length (take 16 n) = 16"
    using walFileRE_length [OF assms(2)] by simp
  then have "take 16 n \<noteq> ''''" "take 16 n \<noteq> ''.''" "take 16 n \<noteq> ''..''"
    by (metis length_greater_0_conv zero_less_numeral, fastforce, fastforce)
  with n have "plain_elem (take 16 n)"
    by (auto simp: plain_elem_def dest: in_set_takeD)
  with n assms show ?thesis by (auto simp: archive_elems_def split: if_splits)
qed

lemma getWALArchivePath_Join: "getWALArchivePath c n = path_Join (archive_elems c n)"
  by (simp add: layout_defs archive_elems_def)

lemma getWALArchivePath_elems:
  assumes "plain_elem c" and "walFileRE n"
  shows "getWALArchivePath c n = join_with ''/'' (archive_elems c n)"
proof -
  have "archive_elems c n \<noteq> []" by (simp add: archive_elems_def)
  from path_Join_plain [OF this archive_elems_plain [OF assms]] show ?thesis
    by (simp add: getWALArchivePath_Join)
qed

lemma getWALArchivePath_split:
  assumes "plain_elem c" and "walFileRE n"
  shows "split_on (CHR ''/'') (getWALArchivePath c n) = archive_elems c n"
proof -
  have "archive_elems c n \<noteq> []" by (simp add: archive_elems_def)
  with archive_elems_plain [OF assms] show ?thesis
    by (simp add: getWALArchivePath_elems [OF assms] split_join_plain)
qed

text \<open>Different WALs are kept at different paths.\<close>

lemma archive_path_inj:
  assumes "plain_elem c" and "plain_elem c'"
    and "ValidateWalFileName n = None" and "ValidateWalFileName n' = None"
    and "getWALArchivePath c n = getWALArchivePath c' n'"
  shows "c = c' \<and> n = n'"
proof -
  from assms(3,4) have re: "walFileRE n" "walFileRE n'"
    by (simp_all add: ValidateWalFileName_def split: if_splits)
  with assms have "archive_elems c n = archive_elems c' n'"
    by (metis getWALArchivePath_split)
  then show ?thesis by (auto simp: archive_elems_def split: if_splits)
qed

section \<open>Properties\<close>

text \<open>
  C39: a name that ValidateWalFileName accepts is also a valid path component, is never empty, a dot
  or a double dot, and has at least the sixteen characters that SetFirstRequiredOnCluster slices.
\<close>

theorem wal_file_name_is_safe:
  assumes "unicode_ascii uc" and "ValidateWalFileName n = None"
  shows "ValidatePathComponent uc n = None \<and> plain_elem n \<and> walSubdirectoryLength \<le> length n"
proof -
  from assms(2) have re: "walFileRE n" by (simp add: ValidateWalFileName_def split: if_splits)
  have ascii: "list_all (\<lambda>b. b < 128) (map of_char n :: nat list)"
    and valid: "list_all (\<lambda>c. \<not> isInvalidCharacter uc (of_char c)) n"
    using walFileRE_chars [OF re] wal_name_char_ascii [OF _ assms(1)] by (auto simp: list_all_iff)
  then have "ValidatePathComponent uc n = None"
    by (auto simp: ValidatePathComponent_def runes_ascii list_ex_iff list_all_iff)
  with re walFileRE_plain walFileRE_length show ?thesis
    by (auto simp: walSubdirectoryLength_def)
qed

theorem wal_file_name_is_safe_witness:
  "ValidatePathComponent ascii_tables ''00000001000000000000000A.partial'' = None"
proof -
  have "ValidateWalFileName ''00000001000000000000000A.partial'' = None" by code_simp
  from wal_file_name_is_safe [OF _ this] show ?thesis by simp
qed

text \<open>
  ValidatePathComponent lets the double dot through, and with it as the cluster name the archive
  path of any valid WAL name climbs out of the repository directory.
\<close>

lemma dotdot_component_escapes:
  assumes "ValidateWalFileName n = None"
  shows "ValidatePathComponent uc ''..'' = None \<and>
         take 3 (getWALArchivePath ''..'' n) = ''../''"
proof -
  from assms have re: "walFileRE n" by (simp add: ValidateWalFileName_def split: if_splits)
  let ?es = "tl (archive_elems ''..'' n)"
  have plain: "e \<in> set ?es \<Longrightarrow> plain_elem e" for e
    using archive_elems_plain [OF _ re, of "''a''" e]
    by (auto simp: archive_elems_def plain_elem_def split: if_splits)
  have es: "?es \<noteq> []" "archive_elems ''..'' n = ''..'' # ?es"
    by (simp_all add: archive_elems_def)
  have ne: "filter (\<lambda>e. e \<noteq> '''') ?es = ?es"
    using plain by (auto simp: plain_elem_def filter_id_conv)
  have join: "join_with ''/'' (''..'' # ?es) = ''..'' @ CHR ''/'' # join_with ''/'' ?es"
    using es(1) by (cases ?es) auto
  have "split_on (CHR ''/'') (join_with ''/'' (''..'' # ?es)) = ''..'' # ?es"
    using split_join_plain [OF es(1) plain] join by simp
  then have "path_Join (''..'' # ?es) = join_with ''/'' (''..'' # ?es)"
    using foldl_clean_plain [OF plain, of ?es False "[''..'']"] join
    by (simp add: path_Join_def ne path_Clean_def Let_def del: join_with.simps)
  then have "take 3 (getWALArchivePath ''..'' n) = ''../''"
    using es(2) join by (simp add: getWALArchivePath_Join)
  moreover have "ValidatePathComponent uc ''..'' = None"
    by (simp add: ValidatePathComponent_def isInvalidCharacter_def)
  ultimately show ?thesis by simp
qed

end
