(* ===== verification/Wal_Repository.thy ===== *)
theory Wal_Repository
  imports Wal_Names
begin

text \<open>
  The WAL repository (core/internal/repository): the block format with its wrapping (streams.go),
  the buffered writers (writer.go), the reader (reader.go), the queries on stored WALs (wals.go) and
  the deletion of WALs no backup needs (retention.go).

  The file system is afero's, the compression is s2's, the encryption is sio's and the framing
  helpers are those of the protobuf module: none of it is in this repository, so a record of
  operations stands for each (\<open>afero\<close>, \<open>codec\<close>) and is an argument of the definitions.  \<open>fs_laws\<close> and
  \<open>codec_laws\<close> name what the code relies on.  An operation on the file system takes the state of
  the file system and returns the new one with the error, if any.  An encrypting writer is the
  function from the bytes written to it to the bytes it produces.  Metrics are not modelled.
\<close>

section \<open>The file system and the codecs\<close>

record 'fs afero =
  MkdirAll :: "string \<Rightarrow> 'fs \<Rightarrow> go_error option \<times> 'fs"
  OpenTrunc :: "string \<Rightarrow> 'fs \<Rightarrow> go_error option \<times> 'fs"
  OpenCreate :: "string \<Rightarrow> 'fs \<Rightarrow> go_error option \<times> 'fs"
  FWrite :: "string \<Rightarrow> bytes \<Rightarrow> 'fs \<Rightarrow> go_error option \<times> 'fs"
  FSync :: "string \<Rightarrow> 'fs \<Rightarrow> go_error option \<times> 'fs"
  FClose :: "string \<Rightarrow> 'fs \<Rightarrow> go_error option \<times> 'fs"
  FRename :: "string \<Rightarrow> string \<Rightarrow> 'fs \<Rightarrow> go_error option \<times> 'fs"
  FRemove :: "string \<Rightarrow> 'fs \<Rightarrow> go_error option \<times> 'fs"
  OpenRead :: "string \<Rightarrow> 'fs \<Rightarrow> go_error + bytes"
  Stat :: "string \<Rightarrow> 'fs \<Rightarrow> go_error option"
  ReadDir :: "string \<Rightarrow> 'fs \<Rightarrow> go_error + (string \<times> bool) list"

record codec =
  EncryptWriter :: "bytes \<Rightarrow> go_error + (bytes \<Rightarrow> go_error + bytes)"
  DecryptReader :: "bytes \<Rightarrow> go_error + (bytes \<Rightarrow> go_error + bytes)"
  S2Writer :: "nat \<Rightarrow> bytes \<Rightarrow> go_error + bytes"
  S2Reader :: "bytes \<Rightarrow> go_error + bytes"
  MarshalHeader :: "uint64 \<Rightarrow> uint64 \<Rightarrow> bytes"
  UnmarshalHeader :: "bytes \<Rightarrow> go_error + (uint64 \<times> bytes)"
  AppendFixed64 :: "uint64 \<Rightarrow> bytes"
  ConsumeFixed64 :: "bytes \<Rightarrow> uint64"

text \<open>repository.Connection: the file system and the master key.\<close>

record 'fs connection =
  connFs :: "'fs afero"
  connCodec :: codec
  masterKey :: bytes

section \<open>core/internal/repository/streams.go\<close>

definition defaultChunkSize :: nat where
  "defaultChunkSize = 64 * 1024"

definition protectWriter :: "'fs connection \<Rightarrow> go_error + (bytes \<Rightarrow> go_error + bytes)" where
  "protectWriter c =
     (case EncryptWriter (connCodec c) (masterKey c) of
        Inl e \<Rightarrow> Inl (Wrap ''while creating protected writer'' e)
      | Inr w \<Rightarrow> Inr w)"

definition protectReader :: "'fs connection \<Rightarrow> go_error + (bytes \<Rightarrow> go_error + bytes)" where
  "protectReader c =
     (case DecryptReader (connCodec c) (masterKey c) of
        Inl e \<Rightarrow> Inl (Wrap ''while creating protected reader'' e)
      | Inr r \<Rightarrow> Inr r)"

definition WrapBlock :: "'fs connection \<Rightarrow> bytes \<Rightarrow> nat \<Rightarrow> go_error + bytes" where
  "WrapBlock c block blockSize =
     (case protectWriter c of
        Inl e \<Rightarrow> Inl (Wrap ''while creating encrypted block'' e)
      | Inr encryptingWriter \<Rightarrow>
          (case S2Writer (connCodec c) blockSize block of
             Inl e \<Rightarrow> Inl (Wrap ''while compressing and encrypting WAL block'' e)
           | Inr compressed \<Rightarrow>
               (case encryptingWriter compressed of
                  Inl e \<Rightarrow> Inl (Wrap ''while closing encrypted WAL block'' e)
                | Inr out \<Rightarrow> Inr out)))"

definition UnwrapBlock :: "'fs connection \<Rightarrow> bytes \<Rightarrow> go_error + bytes" where
  "UnwrapBlock c block =
     (case protectReader c of
        Inl e \<Rightarrow> Inl (Wrap ''while opening decrypting WAL block'' e)
      | Inr decryptingReader \<Rightarrow>
          (case decryptingReader block of
             Inl e \<Rightarrow> Inl (Wrap ''while reading compressed and encrypted WAL block'' e)
           | Inr compressed \<Rightarrow>
               (case S2Reader (connCodec c) compressed of
                  Inl e \<Rightarrow> Inl (Wrap ''while reading compressed and encrypted WAL block'' e)
                | Inr result \<Rightarrow> Inr result)))"

section \<open>The buffered file writer (bufio.Writer over an open file)\<close>

record DirectWriter =
  dwFile :: string
  dwClusterName :: string
  dwBuffered :: bytes
  dwBufferSize :: nat
  dwErr :: "go_error option"

definition bufio_direct ::
  "'fs connection \<Rightarrow> DirectWriter \<Rightarrow> bytes \<Rightarrow> 'fs \<Rightarrow> go_error option \<times> DirectWriter \<times> 'fs" where
  "bufio_direct c w data s =
     (case FWrite (connFs c) (dwFile w) data s of
        (Some e, s') \<Rightarrow> (Some e, w\<lparr>dwErr := Some e\<rparr>, s')
      | (None, s') \<Rightarrow> (None, w, s'))"

definition bufio_Flush ::
  "'fs connection \<Rightarrow> DirectWriter \<Rightarrow> 'fs \<Rightarrow> go_error option \<times> DirectWriter \<times> 'fs" where
  "bufio_Flush c w s =
     (if dwErr w \<noteq> None then (dwErr w, w, s)
      else if dwBuffered w = [] then (None, w, s)
      else (case FWrite (connFs c) (dwFile w) (dwBuffered w) s of
              (Some e, s') \<Rightarrow> (Some e, w\<lparr>dwErr := Some e\<rparr>, s')
            | (None, s') \<Rightarrow> (None, w\<lparr>dwBuffered := []\<rparr>, s')))"

definition bufio_Write ::
  "'fs connection \<Rightarrow> DirectWriter \<Rightarrow> bytes \<Rightarrow> 'fs \<Rightarrow> go_error option \<times> DirectWriter \<times> 'fs" where
  "bufio_Write c w data s =
     (let avail = dwBufferSize w - length (dwBuffered w) in
      if dwErr w \<noteq> None then (dwErr w, w, s)
      else if length data \<le> avail then (None, w\<lparr>dwBuffered := dwBuffered w @ data\<rparr>, s)
      else if dwBuffered w = [] then bufio_direct c w data s
      else (case bufio_Flush c (w\<lparr>dwBuffered := dwBuffered w @ take avail data\<rparr>) s of
              (Some e, w', s') \<Rightarrow> (Some e, w', s')
            | (None, w', s') \<Rightarrow>
                let rest = drop avail data in
                if length rest \<le> dwBufferSize w' then (None, w'\<lparr>dwBuffered := rest\<rparr>, s')
                else bufio_direct c w' rest s'))"

section \<open>core/internal/repository/writer.go\<close>

record WriterOptions =
  optClusterName :: string
  optWALName :: string
  optSegmentSize :: uint64
  optBufferSize :: nat

record Writer =
  walFilePath :: string
  inner :: DirectWriter

definition newDirectWriter ::
  "'fs connection \<Rightarrow> string \<Rightarrow> WriterOptions \<Rightarrow> 'fs \<Rightarrow> (go_error + DirectWriter) \<times> 'fs" where
  "newDirectWriter c file opts s =
     (let bufferSize = (if optBufferSize opts = 0 then defaultChunkSize else optBufferSize opts);
          w0 = \<lparr>dwFile = file, dwClusterName = optClusterName opts, dwBuffered = [],
                dwBufferSize = bufferSize, dwErr = None\<rparr>
      in case bufio_Write c w0 (MarshalHeader (connCodec c) 1 (optSegmentSize opts)) s of
           (Some e, _, s') \<Rightarrow> (Inl (Wrap ''while writing WAL file header'' e), s')
         | (None, w, s') \<Rightarrow> (Inr w, s'))"

definition path_Dir :: "string \<Rightarrow> string" where
  "path_Dir p = path_Clean (rev (dropWhile (\<lambda>ch. ch \<noteq> CHR ''/'') (rev p)))"

definition newDirectWriterAtPath ::
  "'fs connection \<Rightarrow> string \<Rightarrow> WriterOptions \<Rightarrow> 'fs \<Rightarrow> (go_error + DirectWriter) \<times> 'fs" where
  "newDirectWriterAtPath c filePath opts s =
     (case MkdirAll (connFs c) (path_Dir filePath) s of
        (Some e, s1) \<Rightarrow> (Inl (Wrap ''error while creating directory'' e), s1)
      | (None, s1) \<Rightarrow>
          (case OpenTrunc (connFs c) filePath s1 of
             (Some e, s2) \<Rightarrow> (Inl (Wrap ''error while opening file'' e), s2)
           | (None, s2) \<Rightarrow>
               (case newDirectWriter c filePath opts s2 of
                  (Inl e, s3) \<Rightarrow> (Inl e, snd (FClose (connFs c) filePath s3))
                | (Inr w, s3) \<Rightarrow> (Inr w, s3))))"

definition NewDirectWriter ::
  "'fs connection \<Rightarrow> WriterOptions \<Rightarrow> 'fs \<Rightarrow> (go_error + DirectWriter) \<times> 'fs" where
  "NewDirectWriter c opts s =
     newDirectWriterAtPath c (getWALArchivePath (optClusterName opts) (optWALName opts)) opts s"

definition NewWriter ::
  "'fs connection \<Rightarrow> WriterOptions \<Rightarrow> 'fs \<Rightarrow> (go_error + Writer) \<times> 'fs" where
  "NewWriter c opts s =
     (let path = WithPartialSuffix (getWALArchivePath (optClusterName opts) (optWALName opts))
      in case newDirectWriterAtPath c path opts s of
           (Inl e, s') \<Rightarrow> (Inl e, s')
         | (Inr w, s') \<Rightarrow> (Inr \<lparr>walFilePath = path, inner = w\<rparr>, s'))"

definition dw_Flush ::
  "'fs connection \<Rightarrow> DirectWriter \<Rightarrow> 'fs \<Rightarrow> go_error option \<times> DirectWriter \<times> 'fs" where
  "dw_Flush c w s =
     (case bufio_Flush c w s of
        (Some e, w', s') \<Rightarrow> (Some (Wrap ''flush: while writing buffer'' e), w', s')
      | (None, w', s') \<Rightarrow>
          (case FSync (connFs c) (dwFile w') s' of
             (Some e, s'') \<Rightarrow> (Some (Wrap ''flush: while syncing'' e), w', s'')
           | (None, s'') \<Rightarrow> (None, w', s'')))"

definition dw_Close ::
  "'fs connection \<Rightarrow> DirectWriter \<Rightarrow> 'fs \<Rightarrow> go_error option \<times> DirectWriter \<times> 'fs" where
  "dw_Close c w s =
     (case bufio_Flush c w s of
        (Some e, w', s') \<Rightarrow> (Some (Wrap ''close: while writing buffer'' e), w', s')
      | (None, w', s') \<Rightarrow>
          (case FClose (connFs c) (dwFile w') s' of
             (Some e, s'') \<Rightarrow> (Some (Wrap ''while closing the wal writer'' e), w', s'')
           | (None, s'') \<Rightarrow> (None, w', s'')))"

definition wrapBlock :: "'fs connection \<Rightarrow> bytes \<Rightarrow> go_error + bytes" where
  "wrapBlock c p =
     (case WrapBlock c p defaultChunkSize of
        Inl e \<Rightarrow> Inl (Wrap ''error while wrapping block'' e)
      | Inr wrappedBlock \<Rightarrow> Inr wrappedBlock)"

definition writeBlockData ::
  "'fs connection \<Rightarrow> DirectWriter \<Rightarrow> bytes \<Rightarrow> 'fs \<Rightarrow> go_error option \<times> DirectWriter \<times> 'fs" where
  "writeBlockData c w wrappedBlock s =
     (let prefix = AppendFixed64 (connCodec c) (of_nat (length wrappedBlock))
      in case bufio_Write c w prefix s of
           (Some e, w', s') \<Rightarrow> (Some (Wrap ''while writing prefix'' e), w', s')
         | (None, w', s') \<Rightarrow>
             (case bufio_Write c w' wrappedBlock s' of
                (Some e, w'', s'') \<Rightarrow> (Some (Wrap ''while writing WAL file block'' e), w'', s'')
              | (None, w'', s'') \<Rightarrow> (None, w'', s'')))"

definition walBlockSize :: nat where
  "walBlockSize = 1024 * 1024"

function WriteBlock_loop ::
  "'fs connection \<Rightarrow> bytes \<Rightarrow> nat \<Rightarrow> DirectWriter \<Rightarrow> 'fs \<Rightarrow> go_error option \<times> DirectWriter \<times> 'fs" where
  "WriteBlock_loop c data start w s =
     (if start < length data then
        (let stop = min (start + walBlockSize) (length data)
         in case wrapBlock c (take (stop - start) (drop start data)) of
              Inl e \<Rightarrow> (Some (Wrap ''while wrapping WAL block'' e), w, s)
            | Inr wrappedBlock \<Rightarrow>
                (case writeBlockData c w wrappedBlock s of
                   (Some e, w', s') \<Rightarrow> (Some (Wrap ''while writing WAL block data'' e), w', s')
                 | (None, w', s') \<Rightarrow> WriteBlock_loop c data (start + walBlockSize) w' s'))
      else (None, w, s))"
  by pat_completeness auto
termination
  by (relation "measure (\<lambda>(c, data, start, w, s). length data - start)") (auto simp: walBlockSize_def)

declare WriteBlock_loop.simps [simp del]

definition dw_WriteBlock ::
  "'fs connection \<Rightarrow> DirectWriter \<Rightarrow> bytes \<Rightarrow> 'fs \<Rightarrow> go_error option \<times> DirectWriter \<times> 'fs" where
  "dw_WriteBlock c w data s = (if data = [] then (None, w, s) else WriteBlock_loop c data 0 w s)"

definition CloseMarkDone ::
  "'fs connection \<Rightarrow> Writer \<Rightarrow> 'fs \<Rightarrow> go_error option \<times> Writer \<times> 'fs" where
  "CloseMarkDone c w s =
     (case dw_Close c (inner w) s of
        (Some e, i, s') \<Rightarrow> (Some (Wrap ''while closing partial file'' e), w\<lparr>inner := i\<rparr>, s')
      | (None, i, s') \<Rightarrow>
          let completedWalFilePath = TrimPartialSuffix (walFilePath w)
          in case FRename (connFs c) (walFilePath w) completedWalFilePath s' of
               (Some e, s'') \<Rightarrow> (Some (Wrap ''while renaming partial file'' e), w\<lparr>inner := i\<rparr>, s'')
             | (None, s'') \<Rightarrow> (None, w\<lparr>inner := i, walFilePath := completedWalFilePath\<rparr>, s''))"

definition w_Flush :: "'fs connection \<Rightarrow> Writer \<Rightarrow> 'fs \<Rightarrow> go_error option \<times> Writer \<times> 'fs" where
  "w_Flush c w s = (let (e, i, s') = dw_Flush c (inner w) s in (e, w\<lparr>inner := i\<rparr>, s'))"

definition w_Close :: "'fs connection \<Rightarrow> Writer \<Rightarrow> 'fs \<Rightarrow> go_error option \<times> Writer \<times> 'fs" where
  "w_Close c w s = (let (e, i, s') = dw_Close c (inner w) s in (e, w\<lparr>inner := i\<rparr>, s'))"

definition w_WriteBlock ::
  "'fs connection \<Rightarrow> Writer \<Rightarrow> bytes \<Rightarrow> 'fs \<Rightarrow> go_error option \<times> Writer \<times> 'fs" where
  "w_WriteBlock c w data s = (let (e, i, s') = dw_WriteBlock c (inner w) data s in (e, w\<lparr>inner := i\<rparr>, s'))"

section \<open>core/internal/repository/reader.go\<close>

record Reader =
  rRemaining :: bytes
  segmentLength :: uint64

definition NewReader ::
  "'fs connection \<Rightarrow> string \<Rightarrow> string \<Rightarrow> 'fs \<Rightarrow> go_error + Reader" where
  "NewReader c clusterName walName s =
     (case OpenRead (connFs c) (getWALArchivePath clusterName walName) s of
        Inl e \<Rightarrow> Inl (Wrap ''error while opening file'' e)
      | Inr content \<Rightarrow>
          (case UnmarshalHeader (connCodec c) content of
             Inl e \<Rightarrow>
               if errors_Is e EOF then Inl (Wrap ''empty WAL file'' ErrNotExist)
               else Inl (Wrap ''while reading WAL file header'' e)
           | Inr (fileLength, rest) \<Rightarrow> Inr \<lparr>rRemaining = rest, segmentLength = fileLength\<rparr>))"

text \<open>io.ReadFull: EOF only when nothing at all could be read.\<close>

definition io_ReadFull :: "bytes \<Rightarrow> nat \<Rightarrow> go_error + (bytes \<times> bytes)" where
  "io_ReadFull rest n =
     (if n \<le> length rest then Inr (take n rest, drop n rest)
      else if rest = [] then Inl EOF
      else Inl ErrUnexpectedEOF)"

definition readBlockData :: "'fs connection \<Rightarrow> Reader \<Rightarrow> go_error + (bytes \<times> Reader)" where
  "readBlockData c r =
     (case io_ReadFull (rRemaining r) 8 of
        Inl e \<Rightarrow> Inl (Wrap ''while reading WAL file block prefix'' e)
      | Inr (blockLenBytes, rest) \<Rightarrow>
          let blockLen = ConsumeFixed64 (connCodec c) blockLenBytes
          in if 2 ^ 63 \<le> unat blockLen then Inl (Panic ''makeslice: len out of range'')
             else (case io_ReadFull rest (unat blockLen) of
                     Inl e \<Rightarrow> Inl (Wrap ''while reading WAL file block'' e)
                   | Inr (block, rest') \<Rightarrow> Inr (block, r\<lparr>rRemaining := rest'\<rparr>)))"

definition unwrapBlockData :: "'fs connection \<Rightarrow> bytes \<Rightarrow> go_error + bytes" where
  "unwrapBlockData c block =
     (case UnwrapBlock c block of
        Inl e \<Rightarrow> Inl (Wrap ''while unwrapping WAL file block'' e)
      | Inr bytesRead \<Rightarrow> Inr bytesRead)"

definition ReadBlock :: "'fs connection \<Rightarrow> Reader \<Rightarrow> go_error + (bytes \<times> Reader)" where
  "ReadBlock c r =
     (case readBlockData c r of
        Inl e \<Rightarrow> Inl e
      | Inr (block, r') \<Rightarrow>
          (case unwrapBlockData c block of
             Inl e \<Rightarrow> Inl e
           | Inr unwrapped \<Rightarrow> Inr (unwrapped, r')))"

definition GetFileLength :: "Reader \<Rightarrow> uint64" where
  "GetFileLength r = segmentLength r"

section \<open>core/internal/repository/wals.go: queries\<close>

definition IsWALFileExisting :: "'fs connection \<Rightarrow> string \<Rightarrow> string \<Rightarrow> 'fs \<Rightarrow> go_error + bool" where
  "IsWALFileExisting c clusterName walName s =
     (case Stat (connFs c) (getWALArchivePath clusterName walName) s of
        Some e \<Rightarrow> if errors_Is e ErrNotExist then Inr False else Inl e
      | None \<Rightarrow> Inr True)"

definition greatest_name :: "(bool \<Rightarrow> bool) \<Rightarrow> (string \<times> bool) list \<Rightarrow> string" where
  "greatest_name wanted entries =
     foldl (\<lambda>best (name, isDir). if wanted isDir \<and> best < name then name else best) '''' entries"

definition GetLatestWALFileForCluster :: "'fs connection \<Rightarrow> string \<Rightarrow> 'fs \<Rightarrow> go_error + string" where
  "GetLatestWALFileForCluster c clusterName s =
     (case ReadDir (connFs c) clusterName s of
        Inl e \<Rightarrow>
          if errors_Is e ErrNotExist then Inr '''' else Inl (Wrap ''while reading cluster directory'' e)
      | Inr readClusterDir \<Rightarrow>
          let latestWalDirectoryName = greatest_name (\<lambda>isDir. isDir) readClusterDir
          in if latestWalDirectoryName = '''' then Inr ''''
             else (case ReadDir (connFs c) (path_Join [clusterName, latestWalDirectoryName]) s of
                     Inl e \<Rightarrow> Inl (Wrap ''while reading WAL directory'' e)
                   | Inr readWalDirectory \<Rightarrow> Inr (greatest_name (\<lambda>isDir. \<not> isDir) readWalDirectory)))"

section \<open>core/internal/repository/retention.go\<close>

text \<open>
  The decision on one directory entry, in the order of the loop body: directories and unknown files
  stay, so do history files and backup labels; a segment goes when its name without the partial
  suffix precedes the first required WAL.
\<close>

definition removes_entry :: "(string \<Rightarrow> bool) \<Rightarrow> string \<Rightarrow> string \<times> bool \<Rightarrow> bool" where
  "removes_entry isWALFile firstWAL entry =
     (let (name, isDir) = entry; baseName = path_Base name in
      if isDir then False
      else if ValidateWalFileName baseName \<noteq> None then False
      else if \<not> IsWALSegmentOrPartial isWALFile baseName then False
      else let compareName = (if IsPartialWALFile isWALFile baseName then TrimPartialSuffix baseName else baseName)
           in compareName < firstWAL)"

fun remove_old_files ::
  "(string \<Rightarrow> bool) \<Rightarrow> 'fs connection \<Rightarrow> string \<Rightarrow> string \<Rightarrow> (string \<times> bool) list \<Rightarrow> 'fs \<Rightarrow> 'fs" where
  "remove_old_files isWALFile c directory firstWAL [] s = s"
| "remove_old_files isWALFile c directory firstWAL (entry # entries) s =
     remove_old_files isWALFile c directory firstWAL entries
       (if removes_entry isWALFile firstWAL entry
        then snd (FRemove (connFs c) (path_Join [directory, path_Base (fst entry)]) s) else s)"

definition setFirstRequiredOnDirectory ::
  "(string \<Rightarrow> bool) \<Rightarrow> 'fs connection \<Rightarrow> string \<Rightarrow> string \<Rightarrow> 'fs \<Rightarrow> go_error option \<times> 'fs" where
  "setFirstRequiredOnDirectory isWALFile c directory firstWAL s =
     (case ReadDir (connFs c) directory s of
        Inl e \<Rightarrow> (Some (Wrap ''cannot read WAL directory'' e), s)
      | Inr entries \<Rightarrow>
          let s1 = remove_old_files isWALFile c directory firstWAL entries s
          in case ReadDir (connFs c) directory s1 of
               Inl e \<Rightarrow> (Some (Wrap ''cannot read WAL directory'' e), s1)
             | Inr entries' \<Rightarrow>
                 if entries' = [] then (None, snd (FRemove (connFs c) directory s1)) else (None, s1))"

fun retain_directories ::
  "(string \<Rightarrow> bool) \<Rightarrow> 'fs connection \<Rightarrow> string \<Rightarrow> string \<Rightarrow> string \<Rightarrow> (string \<times> bool) list \<Rightarrow> 'fs \<Rightarrow> 'fs" where
  "retain_directories isWALFile c clusterDirectory walPrefix firstWAL [] s = s"
| "retain_directories isWALFile c clusterDirectory walPrefix firstWAL ((name, isDir) # entries) s =
     (let baseName = path_Base name; fullPath = path_Join [clusterDirectory, baseName];
          s' = (if \<not> isDir then s
                else if length baseName \<noteq> walSubdirectoryLength then s
                else if baseName < walPrefix then snd (setFirstRequiredOnDirectory isWALFile c fullPath firstWAL s)
                else if baseName = walPrefix then snd (setFirstRequiredOnDirectory isWALFile c fullPath firstWAL s)
                else s)
      in retain_directories isWALFile c clusterDirectory walPrefix firstWAL entries s')"

definition SetFirstRequiredOnCluster ::
  "(string \<Rightarrow> bool) \<Rightarrow> 'fs connection \<Rightarrow> string \<Rightarrow> string \<Rightarrow> 'fs \<Rightarrow> go_error option \<times> 'fs" where
  "SetFirstRequiredOnCluster isWALFile c clusterDirectory firstWAL s =
     (case ReadDir (connFs c) clusterDirectory s of
        Inl e \<Rightarrow> (Some (Wrap ''cannot read WAL directory'' e), s)
      | Inr clusterPathEntries \<Rightarrow>
          if length firstWAL < walSubdirectoryLength
          then (Some (Panic ''slice bounds out of range''), s)
          else (None, retain_directories isWALFile c clusterDirectory
                        (take walSubdirectoryLength firstWAL) firstWAL clusterPathEntries s))"

section \<open>What the code relies on\<close>

text \<open>
  The file system, as seen through the contents of its regular files: each operation changes only
  the path it names, whether it fails or not, and a successful one has its documented effect.
  The entries of a directory have plain names.
\<close>

definition fs_frame :: "('fs \<Rightarrow> string \<rightharpoonup> bytes) \<Rightarrow> string set \<Rightarrow> 'fs \<Rightarrow> 'fs \<Rightarrow> bool" where
  "fs_frame files ps s s' \<longleftrightarrow> (\<forall>q. q \<notin> ps \<longrightarrow> files s' q = files s q)"

text \<open>Some of the files that satisfy a predicate are gone, and nothing else changed.\<close>

definition fs_removed :: "('fs \<Rightarrow> string \<rightharpoonup> bytes) \<Rightarrow> (string \<Rightarrow> bool) \<Rightarrow> 'fs \<Rightarrow> 'fs \<Rightarrow> bool" where
  "fs_removed files P s s' \<longleftrightarrow> (\<forall>q. files s' q = files s q \<or> P q \<and> files s' q = None)"

definition fs_laws :: "'fs afero \<Rightarrow> ('fs \<Rightarrow> string \<rightharpoonup> bytes) \<Rightarrow> bool" where
  "fs_laws A files \<longleftrightarrow>
     (\<forall>p s. fs_frame files {} s (snd (MkdirAll A p s))) \<and>
     (\<forall>p s. fs_frame files {p} s (snd (OpenTrunc A p s))) \<and>
     (\<forall>p s. fst (OpenTrunc A p s) = None \<longrightarrow> files (snd (OpenTrunc A p s)) p = Some []) \<and>
     (\<forall>p b s. fs_frame files {p} s (snd (FWrite A p b s))) \<and>
     (\<forall>p b s old. fst (FWrite A p b s) = None \<longrightarrow> files s p = Some old \<longrightarrow>
        files (snd (FWrite A p b s)) p = Some (old @ b)) \<and>
     (\<forall>p s. fs_frame files {} s (snd (FSync A p s))) \<and>
     (\<forall>p s. fs_frame files {} s (snd (FClose A p s))) \<and>
     (\<forall>p q s. fs_frame files {p, q} s (snd (FRename A p q s))) \<and>
     (\<forall>p q s old. fst (FRename A p q s) = None \<longrightarrow> files s p = Some old \<longrightarrow>
        files (snd (FRename A p q s)) q = Some old) \<and>
     (\<forall>p s. fs_frame files {p} s (snd (FRemove A p s))) \<and>
     (\<forall>p s. fst (FRemove A p s) = None \<longrightarrow> files (snd (FRemove A p s)) p = None) \<and>
     (\<forall>p s content. files s p = Some content \<longrightarrow> OpenRead A p s = Inr content) \<and>
     (\<forall>d s es. ReadDir A d s = Inr es \<longrightarrow> (\<forall>(n, isDir) \<in> set es. plain_elem n)) \<and>
     (\<forall>p q s. fst (FRename A p q s) \<noteq> None \<longrightarrow> fs_frame files {} s (snd (FRename A p q s))) \<and>
     (\<forall>p s. files (snd (FRemove A p s)) p \<in> {None, files s p}) \<and>
     (\<forall>d s es. ReadDir A d s = Inr es \<longrightarrow> files s d = None) \<and>
     (\<forall>ds n s es. ReadDir A (join_with ''/'' ds) s = Inr es \<longrightarrow> ds \<noteq> [] \<longrightarrow>
        (\<forall>d \<in> set ds. plain_elem d) \<longrightarrow> plain_elem n \<longrightarrow>
        files s (join_with ''/'' (ds @ [n])) \<noteq> None \<longrightarrow> (n, False) \<in> set es) \<and>
     (\<forall>p s. fs_frame files {p} s (snd (OpenCreate A p s))) \<and>
     (\<forall>p s. fst (OpenCreate A p s) = None \<longrightarrow> files s p = None \<longrightarrow> files (snd (OpenCreate A p s)) p = Some []) \<and>
     (\<forall>p s. Stat A p s = Some ErrNotExist \<longrightarrow> files s p = None)"

definition codec_laws :: "codec \<Rightarrow> bytes \<Rightarrow> bool" where
  "codec_laws cd key \<longleftrightarrow>
     (\<forall>v n rest. UnmarshalHeader cd (MarshalHeader cd v n @ rest) = Inr (n, rest)) \<and>
     (\<forall>v. length (AppendFixed64 cd v) = 8) \<and>
     (\<forall>v. ConsumeFixed64 cd (AppendFixed64 cd v) = v) \<and>
     (\<forall>k b z. S2Writer cd k b = Inr z \<longrightarrow> S2Reader cd z = Inr b) \<and>
     (\<forall>w z out. EncryptWriter cd key = Inr w \<longrightarrow> w z = Inr out \<longrightarrow>
        length out < 2 ^ 63 \<and> (\<exists>r. DecryptReader cd key = Inr r \<and> r out = Inr z))"

text \<open>The bytes of a sequence of wrapped chunks, as the file holds them.\<close>

fun chunk_bytes :: "codec \<Rightarrow> bytes list \<Rightarrow> bytes" where
  "chunk_bytes cd [] = []"
| "chunk_bytes cd (b # bs) = AppendFixed64 cd (of_nat (length b)) @ b @ chunk_bytes cd bs"

text \<open>\<open>wraps c ds bs\<close>: the chunks \<open>bs\<close> are the plain pieces \<open>ds\<close>, wrapped.\<close>

definition wraps :: "'fs connection \<Rightarrow> bytes list \<Rightarrow> bytes list \<Rightarrow> bool" where
  "wraps c ds bs \<longleftrightarrow> list_all2 (\<lambda>d b. WrapBlock c d defaultChunkSize = Inr b) ds bs"

text \<open>What a buffered writer has been given so far: what reached the file, then its buffer.\<close>

definition dw_stream :: "('fs \<Rightarrow> string \<rightharpoonup> bytes) \<Rightarrow> DirectWriter \<Rightarrow> 'fs \<Rightarrow> bytes option" where
  "dw_stream files w s = map_option (\<lambda>content. content @ dwBuffered w) (files s (dwFile w))"

text \<open>
  A session of a client on an open writer: it goes on after an error, and the flag says whether
  every operation succeeded.
\<close>

datatype writer_op = OpWrite bytes | OpFlush | OpClose

fun writer_step :: "'fs connection \<Rightarrow> writer_op \<Rightarrow> Writer \<Rightarrow> 'fs \<Rightarrow> go_error option \<times> Writer \<times> 'fs" where
  "writer_step c (OpWrite d) w s = w_WriteBlock c w d s"
| "writer_step c OpFlush w s = w_Flush c w s"
| "writer_step c OpClose w s = w_Close c w s"

fun writer_session :: "'fs connection \<Rightarrow> writer_op list \<Rightarrow> Writer \<Rightarrow> 'fs \<Rightarrow> bool \<times> Writer \<times> 'fs" where
  "writer_session c [] w s = (True, w, s)"
| "writer_session c (x # xs) w s =
     (let (e, w1, s1) = writer_step c x w s; (ok, w2, s2) = writer_session c xs w1 s1
      in (e = None \<and> ok, w2, s2))"

fun written :: "writer_op list \<Rightarrow> bytes" where
  "written [] = []"
| "written (OpWrite d # xs) = d @ written xs"
| "written (_ # xs) = written xs"

text \<open>All the blocks of a reader, up to the end of the file.\<close>

lemma ReadBlock_shrinks:
  "ReadBlock c r = Inr (d, r') \<Longrightarrow> length (rRemaining r') < length (rRemaining r)"
  by (auto simp: ReadBlock_def readBlockData_def io_ReadFull_def Let_def split: sum.splits if_splits)

function read_all :: "'fs connection \<Rightarrow> Reader \<Rightarrow> go_error + bytes list" where
  "read_all c r =
     (case ReadBlock c r of
        Inl e \<Rightarrow> if errors_Is e EOF then Inr [] else Inl e
      | Inr (d, r') \<Rightarrow> (case read_all c r' of Inl e \<Rightarrow> Inl e | Inr ds \<Rightarrow> Inr (d # ds)))"
  by pat_completeness auto
termination
  by (relation "measure (\<lambda>(c, r). length (rRemaining r))") (auto dest: ReadBlock_shrinks)

declare read_all.simps [simp del]

section \<open>A file system and a codec that satisfy the laws\<close>

text \<open>
  The smallest file system: an association list from paths to contents, whose directories are the
  prefixes of its paths; and a codec that neither compresses nor encrypts.
\<close>

type_synonym memfs = "(string \<times> bytes) list"

definition mem_del :: "string \<Rightarrow> memfs \<Rightarrow> memfs" where
  "mem_del p s = filter (\<lambda>(q, _). q \<noteq> p) s"

definition mem_files :: "memfs \<Rightarrow> string \<rightharpoonup> bytes" where
  "mem_files s = map_of s"

definition mem_below :: "string \<Rightarrow> string \<Rightarrow> string option" where
  "mem_below d p =
     (if take (length d + 1) p = d @ ''/'' then Some (drop (length d + 1) p) else None)"

definition mem_entry :: "string \<Rightarrow> string \<Rightarrow> (string \<times> bool) list" where
  "mem_entry d p =
     (case mem_below d p of
        None \<Rightarrow> []
      | Some r \<Rightarrow> (let (b, _, isDir) = Cut r (CHR ''/'') in if plain_elem b then [(b, isDir)] else []))"

definition mem_afero :: "memfs afero" where
  "mem_afero =
     \<lparr>MkdirAll = (\<lambda>p s. (None, s)),
      OpenTrunc = (\<lambda>p s. (None, (p, []) # mem_del p s)),
      OpenCreate = (\<lambda>p s. (None, if map_of s p = None then (p, []) # s else s)),
      FWrite = (\<lambda>p b s. (case map_of s p of
                  None \<Rightarrow> (Some ErrNotExist, s)
                | Some old \<Rightarrow> (None, (p, old @ b) # mem_del p s))),
      FSync = (\<lambda>p s. (None, s)),
      FClose = (\<lambda>p s. (None, s)),
      FRename = (\<lambda>p q s. (case map_of s p of
                  None \<Rightarrow> (Some ErrNotExist, s)
                | Some old \<Rightarrow> (None, (q, old) # mem_del q (mem_del p s)))),
      FRemove = (\<lambda>p s. (None, mem_del p s)),
      OpenRead = (\<lambda>p s. (case map_of s p of None \<Rightarrow> Inl ErrNotExist | Some b \<Rightarrow> Inr b)),
      Stat = (\<lambda>p s. (case map_of s p of None \<Rightarrow> Some ErrNotExist | Some _ \<Rightarrow> None)),
      ReadDir = (\<lambda>d s. if map_of s d \<noteq> None then Inl (Sentinel ''not a directory'')
                       else Inr (remdups (concat (map (\<lambda>(p, _). mem_entry d p) s))))\<rparr>"

definition le64 :: "uint64 \<Rightarrow> bytes" where
  "le64 v = map (\<lambda>i. word_of_nat (unat v div 256 ^ i)) [0..<8]"

fun le_value :: "bytes \<Rightarrow> nat" where
  "le_value [] = 0"
| "le_value (b # bs) = unat b + 256 * le_value bs"

definition plain_codec :: codec where
  "plain_codec =
     \<lparr>EncryptWriter = (\<lambda>k. Inr (\<lambda>b. if length b < 2 ^ 63 then Inr b else Inl (Sentinel ''too large''))),
      DecryptReader = (\<lambda>k. Inr Inr),
      S2Writer = (\<lambda>k. Inr),
      S2Reader = Inr,
      MarshalHeader = (\<lambda>v n. le64 n),
      UnmarshalHeader = (\<lambda>b. if b = [] then Inl EOF
                         else Inr (word_of_nat (le_value (take 8 b)), drop 8 b)),
      AppendFixed64 = le64,
      ConsumeFixed64 = (\<lambda>b. word_of_nat (le_value b))\<rparr>"

definition mem_connection :: "memfs connection" where
  "mem_connection = \<lparr>connFs = mem_afero, connCodec = plain_codec, masterKey = []\<rparr>"

definition example_opts :: WriterOptions where
  "example_opts = \<lparr>optClusterName = ''pg'', optWALName = ''00000001000000000000000A'',
     optSegmentSize = 16777216, optBufferSize = 4\<rparr>"

section \<open>Lemmas: the file system\<close>

lemma fs_frame_refl [simp]: "fs_frame files ps s s"
  by (simp add: fs_frame_def)

lemma fs_frame_trans [trans]:
  "fs_frame files ps s s' \<Longrightarrow> fs_frame files ps s' s'' \<Longrightarrow> fs_frame files ps s s''"
  by (simp add: fs_frame_def)

lemma fs_frame_mono: "fs_frame files ps s s' \<Longrightarrow> ps \<subseteq> qs \<Longrightarrow> fs_frame files qs s s'"
  by (auto simp: fs_frame_def)

lemma fs_lawsD:
  assumes "fs_laws A files"
  shows "MkdirAll A p s = (r, s') \<Longrightarrow> fs_frame files {} s s'"
    and "OpenTrunc A p s = (r, s') \<Longrightarrow> fs_frame files {p} s s'"
    and "OpenTrunc A p s = (None, s') \<Longrightarrow> files s' p = Some []"
    and "FWrite A p b s = (r, s') \<Longrightarrow> fs_frame files {p} s s'"
    and "FWrite A p b s = (None, s') \<Longrightarrow> files s p = Some old \<Longrightarrow> files s' p = Some (old @ b)"
    and "FSync A p s = (r, s') \<Longrightarrow> fs_frame files {} s s'"
    and "FClose A p s = (r, s') \<Longrightarrow> fs_frame files {} s s'"
    and "FRename A p q s = (r, s') \<Longrightarrow> fs_frame files {p, q} s s'"
    and "FRename A p q s = (None, s') \<Longrightarrow> files s p = Some old \<Longrightarrow> files s' q = Some old"
    and "FRemove A p s = (r, s') \<Longrightarrow> fs_frame files {p} s s'"
    and "FRemove A p s = (None, s') \<Longrightarrow> files s' p = None"
    and "files s p = Some content \<Longrightarrow> OpenRead A p s = Inr content"
    and "ReadDir A d s = Inr es \<Longrightarrow> (n, isDir) \<in> set es \<Longrightarrow> plain_elem n"
    and "FRename A p q s = (Some e, s') \<Longrightarrow> fs_frame files {} s s'"
    and "FRemove A p s = (r, s') \<Longrightarrow> files s' p = None \<or> files s' p = files s p"
    and "ReadDir A d s = Inr es \<Longrightarrow> files s d = None"
    and "ReadDir A (join_with ''/'' ds) s = Inr es \<Longrightarrow> ds \<noteq> [] \<Longrightarrow> (\<And>d. d \<in> set ds \<Longrightarrow> plain_elem d) \<Longrightarrow>
         plain_elem n \<Longrightarrow> files s (join_with ''/'' (ds @ [n])) \<noteq> None \<Longrightarrow> (n, False) \<in> set es"
    and "OpenCreate A p s = (r, s') \<Longrightarrow> fs_frame files {p} s s'"
    and "OpenCreate A p s = (None, s') \<Longrightarrow> files s p = None \<Longrightarrow> files s' p = Some []"
    and "Stat A p s = Some ErrNotExist \<Longrightarrow> files s p = None"
  using assms unfolding fs_laws_def by (metis fst_conv snd_conv, metis fst_conv snd_conv,
      metis fst_conv snd_conv, metis fst_conv snd_conv, metis fst_conv snd_conv, metis fst_conv snd_conv,
      metis fst_conv snd_conv, metis fst_conv snd_conv, metis fst_conv snd_conv, metis fst_conv snd_conv,
      metis fst_conv snd_conv, metis, fastforce, metis fst_conv option.distinct(1) snd_conv,
      metis insert_iff singletonD snd_conv, metis, metis, metis fst_conv snd_conv, metis fst_conv snd_conv, metis)

lemma codec_lawsD:
  assumes "codec_laws cd key"
  shows "UnmarshalHeader cd (MarshalHeader cd v n @ rest) = Inr (n, rest)"
    and "length (AppendFixed64 cd v) = 8"
    and "ConsumeFixed64 cd (AppendFixed64 cd v) = v"
    and "S2Writer cd k b = Inr z \<Longrightarrow> S2Reader cd z = Inr b"
    and "EncryptWriter cd key = Inr w \<Longrightarrow> w z = Inr out \<Longrightarrow> length out < 2 ^ 63"
    and "EncryptWriter cd key = Inr w \<Longrightarrow> w z = Inr out \<Longrightarrow> \<exists>r. DecryptReader cd key = Inr r \<and> r out = Inr z"
  using assms unfolding codec_laws_def by blast+

section \<open>Lemmas: the buffered writer\<close>

lemma bufio_direct_stream:
  assumes "fs_laws (connFs c) files" and "bufio_direct c w data s = (r, w', s')"
  shows "fs_frame files {dwFile w} s s'" and "dwFile w' = dwFile w"
    and "r = None \<Longrightarrow> dwBuffered w = [] \<Longrightarrow> dw_stream files w s = Some st \<Longrightarrow>
         dw_stream files w' s' = Some (st @ data)"
  using assms fs_lawsD(4,5) [OF assms(1)]
  by (auto simp: bufio_direct_def dw_stream_def split: prod.splits option.splits)

lemma bufio_Flush_stream:
  assumes "fs_laws (connFs c) files" and "bufio_Flush c w s = (r, w', s')"
  shows "fs_frame files {dwFile w} s s'" and "dwFile w' = dwFile w"
    and "r = None \<Longrightarrow> dwBuffered w' = []"
    and "r = None \<Longrightarrow> dw_stream files w s = Some st \<Longrightarrow> dw_stream files w' s' = Some st"
  using assms fs_lawsD(4,5) [OF assms(1)]
  by (auto simp: bufio_Flush_def dw_stream_def split: prod.splits option.splits if_splits)

lemma bufio_Write_frame:
  assumes "fs_laws (connFs c) files" and "bufio_Write c w data s = (r, w', s')"
  shows "fs_frame files {dwFile w} s s'" and "dwFile w' = dwFile w"
proof -
  have "fs_frame files {dwFile w} s s' \<and> dwFile w' = dwFile w"
  proof (cases "dwErr w = None \<and> dwBufferSize w - length (dwBuffered w) < length data \<and> dwBuffered w \<noteq> []")
    case False
    with assms(2) bufio_direct_stream(1,2) [OF assms(1)] show ?thesis
      by (fastforce simp: bufio_Write_def Let_def split: if_splits)
  next
    case True
    let ?wf = "w\<lparr>dwBuffered := dwBuffered w @ take (dwBufferSize w - length (dwBuffered w)) data\<rparr>"
    obtain r1 w1 s1 where fl: "bufio_Flush c ?wf s = (r1, w1, s1)" by (metis prod_cases3)
    have f1: "fs_frame files {dwFile w} s s1" "dwFile w1 = dwFile w"
      using bufio_Flush_stream(1,2) [OF assms(1) fl] by simp_all
    show ?thesis
    proof (cases r1)
      case (Some e)
      with True assms(2) fl f1 show ?thesis by (auto simp: bufio_Write_def Let_def)
    next
      case None
      with True assms(2) fl f1 bufio_direct_stream(1,2) [OF assms(1), of w1] show ?thesis
        by (fastforce simp: bufio_Write_def Let_def intro: fs_frame_trans split: if_splits)
    qed
  qed
  then show "fs_frame files {dwFile w} s s'" and "dwFile w' = dwFile w" by simp_all
qed

lemma bufio_Write_stream:
  assumes "fs_laws (connFs c) files" and "bufio_Write c w data s = (None, w', s')"
    and "dw_stream files w s = Some st"
  shows "dw_stream files w' s' = Some (st @ data)"
proof (cases "dwErr w = None \<and> dwBufferSize w - length (dwBuffered w) < length data \<and> dwBuffered w \<noteq> []")
  case False
  with assms bufio_direct_stream(3) [OF assms(1), of w data s None w' s' st] show ?thesis
    by (auto simp: bufio_Write_def Let_def dw_stream_def split: if_splits)
next
  case True
  let ?n = "dwBufferSize w - length (dwBuffered w)"
  let ?wf = "w\<lparr>dwBuffered := dwBuffered w @ take ?n data\<rparr>"
  obtain r1 w1 s1 where fl: "bufio_Flush c ?wf s = (r1, w1, s1)" by (metis prod_cases3)
  have r1: "r1 = None"
    using True assms(2) fl by (cases r1) (auto simp: bufio_Write_def Let_def)
  have "dw_stream files ?wf s = Some (st @ take ?n data)"
    using assms(3) by (auto simp: dw_stream_def)
  from bufio_Flush_stream(3,4) [OF assms(1) fl r1] this
  have w1: "dwBuffered w1 = []" "dw_stream files w1 s1 = Some (st @ take ?n data)" by auto
  show ?thesis
  proof (cases "length (drop ?n data) \<le> dwBufferSize w1")
    case small: True
    then have "w' = w1\<lparr>dwBuffered := drop ?n data\<rparr>" "s' = s1"
      using True assms(2) fl r1 by (auto simp: bufio_Write_def Let_def)
    with w1 show ?thesis
      by (auto simp: dw_stream_def)
  next
    case False
    then have "bufio_direct c w1 (drop ?n data) s1 = (None, w', s')"
      using True assms(2) fl r1 by (auto simp: bufio_Write_def Let_def)
    from bufio_direct_stream(3) [OF assms(1) this refl w1] show ?thesis
      by (metis append_assoc append_take_drop_id)
  qed
qed

section \<open>Lemmas: writing blocks\<close>

lemma writeBlockData_frame:
  assumes "fs_laws (connFs c) files" and "writeBlockData c w b s = (r, w', s')"
  shows "fs_frame files {dwFile w} s s'" and "dwFile w' = dwFile w"
proof -
  obtain r1 w1 s1 where 1: "bufio_Write c w (AppendFixed64 (connCodec c) (of_nat (length b))) s = (r1, w1, s1)"
    by (metis prod_cases3)
  note f1 = bufio_Write_frame [OF assms(1) 1]
  have "fs_frame files {dwFile w} s s' \<and> dwFile w' = dwFile w"
  proof (cases r1)
    case (Some e)
    with assms(2) 1 f1 show ?thesis by (auto simp: writeBlockData_def)
  next
    case None
    obtain r2 w2 s2 where 2: "bufio_Write c w1 b s1 = (r2, w2, s2)" by (metis prod_cases3)
    from None assms(2) 1 2 have "w' = w2" "s' = s2"
      by (auto simp: writeBlockData_def split: option.splits)
    with bufio_Write_frame [OF assms(1) 2] f1 show ?thesis by (metis fs_frame_trans)
  qed
  then show "fs_frame files {dwFile w} s s'" and "dwFile w' = dwFile w" by simp_all
qed

lemma writeBlockData_stream:
  assumes laws: "fs_laws (connFs c) files" and wr: "writeBlockData c w b s = (None, w', s')"
    and st: "dw_stream files w s = Some st"
  shows "dw_stream files w' s' = Some (st @ AppendFixed64 (connCodec c) (of_nat (length b)) @ b)"
proof -
  let ?p = "AppendFixed64 (connCodec c) (of_nat (length b))"
  obtain r1 w1 s1 where 1: "bufio_Write c w ?p s = (r1, w1, s1)" by (metis prod_cases3)
  with wr have r1: "r1 = None" by (cases r1) (auto simp: writeBlockData_def)
  obtain r2 w2 s2 where 2: "bufio_Write c w1 b s1 = (r2, w2, s2)" by (metis prod_cases3)
  from wr 1 2 r1 have "r2 = None" "w' = w2" "s' = s2"
    by (auto simp: writeBlockData_def split: option.splits)
  with bufio_Write_stream [OF laws _ bufio_Write_stream [OF laws _ st]] 1 2 r1 show ?thesis
    by auto
qed

lemma wrapBlock_iff: "wrapBlock c d = Inr b \<longleftrightarrow> WrapBlock c d defaultChunkSize = Inr b"
  by (auto simp: wrapBlock_def split: sum.splits)

lemma WriteBlock_loop_steps:
  "\<not> start < length data \<Longrightarrow> WriteBlock_loop c data start w s = (None, w, s)"
  "start < length data \<Longrightarrow> wrapBlock c (take walBlockSize (drop start data)) = Inl e \<Longrightarrow>
     WriteBlock_loop c data start w s = (Some (Wrap ''while wrapping WAL block'' e), w, s)"
  "start < length data \<Longrightarrow> wrapBlock c (take walBlockSize (drop start data)) = Inr b \<Longrightarrow>
     writeBlockData c w b s = (Some e, w1, s1) \<Longrightarrow>
     WriteBlock_loop c data start w s = (Some (Wrap ''while writing WAL block data'' e), w1, s1)"
  "start < length data \<Longrightarrow> wrapBlock c (take walBlockSize (drop start data)) = Inr b \<Longrightarrow>
     writeBlockData c w b s = (None, w1, s1) \<Longrightarrow>
     WriteBlock_loop c data start w s = WriteBlock_loop c data (start + walBlockSize) w1 s1"
proof -
  have chunk: "take (min (start + walBlockSize) (length data) - start) (drop start data) =
        take walBlockSize (drop start data)"
    by (simp add: take_all_iff min_def)
  show "\<not> start < length data \<Longrightarrow> WriteBlock_loop c data start w s = (None, w, s)"
    by (simp add: WriteBlock_loop.simps)
  show "start < length data \<Longrightarrow> wrapBlock c (take walBlockSize (drop start data)) = Inl e \<Longrightarrow>
     WriteBlock_loop c data start w s = (Some (Wrap ''while wrapping WAL block'' e), w, s)"
    by (subst WriteBlock_loop.simps) (simp only: if_True Let_def chunk sum.case)
  show "start < length data \<Longrightarrow> wrapBlock c (take walBlockSize (drop start data)) = Inr b \<Longrightarrow>
     writeBlockData c w b s = (Some e, w1, s1) \<Longrightarrow>
     WriteBlock_loop c data start w s = (Some (Wrap ''while writing WAL block data'' e), w1, s1)"
    by (subst WriteBlock_loop.simps) (simp only: if_True Let_def chunk sum.case prod.case option.case)
  show "start < length data \<Longrightarrow> wrapBlock c (take walBlockSize (drop start data)) = Inr b \<Longrightarrow>
     writeBlockData c w b s = (None, w1, s1) \<Longrightarrow>
     WriteBlock_loop c data start w s = WriteBlock_loop c data (start + walBlockSize) w1 s1"
    by (subst WriteBlock_loop.simps) (simp only: if_True Let_def chunk sum.case prod.case option.case)
qed

lemma walBlockSize_pos: "0 < walBlockSize"
  by (simp add: walBlockSize_def)

lemma WriteBlock_loop_frame:
  assumes "fs_laws (connFs c) files" and "WriteBlock_loop c data start w s = (r, w', s')"
  shows "fs_frame files {dwFile w} s s' \<and> dwFile w' = dwFile w"
  using assms(2)
proof (induction "length data - start" arbitrary: start w s rule: less_induct)
  case less
  show ?case
  proof (cases "start < length data")
    case False
    with less.prems show ?thesis by (simp add: WriteBlock_loop_steps(1))
  next
    case True
    show ?thesis
    proof (cases "wrapBlock c (take walBlockSize (drop start data))")
      case (Inl e)
      with True less.prems show ?thesis by (simp add: WriteBlock_loop_steps(2))
    next
      case (Inr b)
      obtain r1 w1 s1 where wr: "writeBlockData c w b s = (r1, w1, s1)" by (metis prod_cases3)
      note f1 = writeBlockData_frame [OF assms(1) wr]
      show ?thesis
      proof (cases r1)
        case (Some e)
        with True Inr wr f1 less.prems show ?thesis by (simp add: WriteBlock_loop_steps(3))
      next
        case None
        with True Inr wr less.prems
        have "WriteBlock_loop c data (start + walBlockSize) w1 s1 = (r, w', s')"
          by (simp add: WriteBlock_loop_steps(4))
        moreover have "length data - (start + walBlockSize) < length data - start"
          using True walBlockSize_pos by linarith
        ultimately show ?thesis using less.hyps f1 by (metis fs_frame_trans)
      qed
    qed
  qed
qed

lemma WriteBlock_loop_stream:
  assumes "fs_laws (connFs c) files" and "WriteBlock_loop c data start w s = (None, w', s')"
    and "dw_stream files w s = Some st"
  shows "\<exists>ds bs. concat ds = drop start data \<and> wraps c ds bs \<and> (\<forall>d \<in> set ds. d \<noteq> [] \<and> length d \<le> walBlockSize) \<and>
           dw_stream files w' s' = Some (st @ chunk_bytes (connCodec c) bs)"
  using assms(2,3)
proof (induction "length data - start" arbitrary: start w s st rule: less_induct)
  case less
  show ?case
  proof (cases "start < length data")
    case False
    with less.prems have "concat [] = drop start data \<and> wraps c [] [] \<and>
        dw_stream files w' s' = Some (st @ chunk_bytes (connCodec c) [])"
      by (simp add: WriteBlock_loop_steps(1) wraps_def)
    then show ?thesis by (metis empty_iff empty_set)
  next
    case True
    let ?d = "take walBlockSize (drop start data)"
    obtain b where b: "wrapBlock c ?d = Inr b"
      using True less.prems(1) by (cases "wrapBlock c ?d") (auto simp: WriteBlock_loop_steps(2))
    obtain r1 w1 s1 where wr: "writeBlockData c w b s = (r1, w1, s1)" by (metis prod_cases3)
    have r1: "r1 = None"
      using True b wr less.prems(1) by (cases r1) (auto simp: WriteBlock_loop_steps(3))
    have next_loop: "WriteBlock_loop c data (start + walBlockSize) w1 s1 = (None, w', s')"
      using True b wr r1 less.prems(1) by (simp add: WriteBlock_loop_steps(4))
    have smaller: "length data - (start + walBlockSize) < length data - start"
      using True walBlockSize_pos by linarith
    from less.hyps [OF smaller next_loop writeBlockData_stream [OF assms(1) wr [unfolded r1] less.prems(2)]]
    obtain ds bs where ih: "concat ds = drop (start + walBlockSize) data" "wraps c ds bs"
      "\<forall>d \<in> set ds. d \<noteq> [] \<and> length d \<le> walBlockSize"
      "dw_stream files w' s' = Some ((st @ AppendFixed64 (connCodec c) (of_nat (length b)) @ b) @ chunk_bytes (connCodec c) bs)"
      by blast
    have "concat (?d # ds) = drop start data"
      using ih(1) by (metis add.commute append_take_drop_id concat.simps(2) drop_drop)
    moreover have "wraps c (?d # ds) (b # bs)"
      using ih(2) b by (simp add: wraps_def wrapBlock_iff)
    moreover have "?d \<noteq> []" and "length ?d \<le> walBlockSize"
      using True walBlockSize_pos by auto
    moreover have "dw_stream files w' s' = Some (st @ chunk_bytes (connCodec c) (b # bs))"
      using ih(4) by simp
    ultimately show ?thesis using ih(3) by (metis set_ConsD)
  qed
qed

lemma dw_WriteBlock_frame:
  "fs_laws (connFs c) files \<Longrightarrow> dw_WriteBlock c w data s = (r, w', s') \<Longrightarrow>
   fs_frame files {dwFile w} s s' \<and> dwFile w' = dwFile w"
  using WriteBlock_loop_frame [of c files data 0 w s r w' s']
  by (auto simp: dw_WriteBlock_def split: if_splits)

lemma dw_WriteBlock_stream:
  assumes "fs_laws (connFs c) files" and "dw_WriteBlock c w data s = (None, w', s')"
    and "dw_stream files w s = Some st"
  obtains ds bs where "concat ds = data" "wraps c ds bs" "\<forall>d \<in> set ds. d \<noteq> [] \<and> length d \<le> walBlockSize"
    "dw_stream files w' s' = Some (st @ chunk_bytes (connCodec c) bs)"
proof (cases "data = []")
  case True
  with assms that [of "[]" "[]"] show ?thesis by (simp add: dw_WriteBlock_def wraps_def)
next
  case False
  with assms(2) have "WriteBlock_loop c data 0 w s = (None, w', s')" by (simp add: dw_WriteBlock_def)
  from WriteBlock_loop_stream [OF assms(1) this assms(3)] that show ?thesis by auto
qed

lemma dw_Flush_stream:
  assumes "fs_laws (connFs c) files" and "dw_Flush c w s = (r, w', s')"
  shows "fs_frame files {dwFile w} s s'" and "dwFile w' = dwFile w"
    and "r = None \<Longrightarrow> dw_stream files w s = Some st \<Longrightarrow>
         dwBuffered w' = [] \<and> files s' (dwFile w) = Some st"
proof -
  obtain r1 w1 s1 where 1: "bufio_Flush c w s = (r1, w1, s1)" by (metis prod_cases3)
  note f = bufio_Flush_stream [OF assms(1) 1]
  have sync: "r1 = None \<Longrightarrow> fs_frame files {} s1 s' \<and> w' = w1 \<and> (r1 \<noteq> None \<or> dwFile w' = dwFile w)"
    using assms(2) 1 f(2) fs_lawsD(6) [OF assms(1)]
    by (cases "FSync (connFs c) (dwFile w1) s1") (auto simp: dw_Flush_def split: option.splits)
  have err: "r1 \<noteq> None \<Longrightarrow> r \<noteq> None \<and> w' = w1 \<and> s' = s1"
    using assms(2) 1 by (auto simp: dw_Flush_def)
  show "fs_frame files {dwFile w} s s'"
    using f(1) sync err fs_frame_mono fs_frame_trans by (metis empty_subsetI)
  show "dwFile w' = dwFile w"
    using f(2) sync err by blast
  assume "r = None" and st: "dw_stream files w s = Some st"
  then have r1: "r1 = None" using err by blast
  with f(3) f(4) [OF r1 st] sync have "dwBuffered w1 = []" "files s1 (dwFile w) = Some st" "w' = w1"
    "fs_frame files {} s1 s'"
    by (auto simp: dw_stream_def f(2))
  then show "dwBuffered w' = [] \<and> files s' (dwFile w) = Some st"
    by (simp add: fs_frame_def)
qed

lemma dw_Close_stream:
  assumes "fs_laws (connFs c) files" and "dw_Close c w s = (r, w', s')"
  shows "fs_frame files {dwFile w} s s'" and "dwFile w' = dwFile w"
    and "r = None \<Longrightarrow> dw_stream files w s = Some st \<Longrightarrow> files s' (dwFile w) = Some st"
    and "r = None \<Longrightarrow> dwBuffered w' = []"
proof -
  obtain r1 w1 s1 where 1: "bufio_Flush c w s = (r1, w1, s1)" by (metis prod_cases3)
  note f = bufio_Flush_stream [OF assms(1) 1]
  have closed: "r1 = None \<Longrightarrow> fs_frame files {} s1 s' \<and> w' = w1"
    using assms(2) 1 fs_lawsD(7) [OF assms(1)]
    by (cases "FClose (connFs c) (dwFile w1) s1") (auto simp: dw_Close_def split: option.splits)
  have err: "r1 \<noteq> None \<Longrightarrow> r \<noteq> None \<and> w' = w1 \<and> s' = s1"
    using assms(2) 1 by (auto simp: dw_Close_def)
  show "fs_frame files {dwFile w} s s'"
    using f(1) closed err fs_frame_mono fs_frame_trans by (metis empty_subsetI)
  show "dwFile w' = dwFile w"
    using f(2) closed err by metis
  show "r = None \<Longrightarrow> dwBuffered w' = []"
    using f(3) closed err by blast
  assume "r = None" and st: "dw_stream files w s = Some st"
  then have r1: "r1 = None" using err by blast
  with f(3) f(4) [OF r1 st] closed have "files s1 (dwFile w) = Some st" "fs_frame files {} s1 s'"
    by (auto simp: dw_stream_def f(2))
  then show "files s' (dwFile w) = Some st"
    by (simp add: fs_frame_def)
qed

lemma newDirectWriterAtPath_stream:
  assumes laws: "fs_laws (connFs c) files" and new: "newDirectWriterAtPath c p opts s = (r, s')"
  shows "fs_frame files {p} s s'"
    and "r = Inr w \<Longrightarrow> dwFile w = p \<and>
         dw_stream files w s' = Some (MarshalHeader (connCodec c) 1 (optSegmentSize opts))"
proof -
  obtain r1 s1 where 1: "MkdirAll (connFs c) (path_Dir p) s = (r1, s1)" by force
  obtain r2 s2 where 2: "OpenTrunc (connFs c) p s1 = (r2, s2)" by force
  let ?w0 = "\<lparr>dwFile = p, dwClusterName = optClusterName opts, dwBuffered = [],
       dwBufferSize = (if optBufferSize opts = 0 then defaultChunkSize else optBufferSize opts), dwErr = None\<rparr>"
  let ?h = "MarshalHeader (connCodec c) 1 (optSegmentSize opts)"
  obtain r3 w3 s3 where 3: "bufio_Write c ?w0 ?h s2 = (r3, w3, s3)" by (metis prod_cases3)
  have f12: "fs_frame files {p} s s1" "fs_frame files {p} s s2"
    using fs_frame_mono [OF fs_lawsD(1) [OF laws 1], of "{p}"] fs_lawsD(2) [OF laws 2]
    by (auto intro: fs_frame_trans)
  have f3: "fs_frame files {p} s s3" "dwFile w3 = p"
    using bufio_Write_frame [OF laws 3] f12(2) by (auto intro: fs_frame_trans)
  have "fs_frame files {p} s (snd (FClose (connFs c) p s3))"
    using f3 fs_lawsD(7) [OF laws, of p s3] fs_frame_mono [of files "{}"]
    by (cases "FClose (connFs c) p s3") (auto intro: fs_frame_trans)
  with new 1 2 3 f12 f3 show "fs_frame files {p} s s'"
    by (auto simp: newDirectWriterAtPath_def newDirectWriter_def Let_def split: option.splits)
  assume "r = Inr w"
  with new 1 2 3 have ok: "r2 = None" "r3 = None" "w = w3" "s' = s3"
    by (auto simp: newDirectWriterAtPath_def newDirectWriter_def Let_def split: option.splits)
  have "dw_stream files ?w0 s2 = Some []"
    using fs_lawsD(3) [OF laws 2 [unfolded ok]] by (simp add: dw_stream_def)
  from bufio_Write_stream [OF laws 3 [unfolded ok] this] f3(2) ok
  show "dwFile w = p \<and> dw_stream files w s' = Some ?h" by simp
qed

section \<open>Lemmas: reading blocks\<close>

lemma Unwrap_WrapBlock:
  assumes "codec_laws (connCodec c) (masterKey c)" and "WrapBlock c d k = Inr b"
  shows "UnwrapBlock c b = Inr d" and "length b < 2 ^ 63"
proof -
  from assms(2) obtain w z where w: "EncryptWriter (connCodec c) (masterKey c) = Inr w"
    and z: "S2Writer (connCodec c) k d = Inr z" and b: "w z = Inr b"
    by (auto simp: WrapBlock_def protectWriter_def split: sum.splits)
  from codec_lawsD(6) [OF assms(1) w b] obtain r
    where "DecryptReader (connCodec c) (masterKey c) = Inr r" "r b = Inr z" by blast
  with codec_lawsD(4) [OF assms(1) z] show "UnwrapBlock c b = Inr d"
    by (simp add: UnwrapBlock_def protectReader_def)
  show "length b < 2 ^ 63" by (rule codec_lawsD(5) [OF assms(1) w b])
qed

lemma unat_of_nat_len: "n < 2 ^ 63 \<Longrightarrow> unat (of_nat n :: uint64) = n"
  by (simp add: unat_of_nat)

lemma readBlockData_chunk:
  assumes "codec_laws (connCodec c) key" and "length b < 2 ^ 63"
    and "rRemaining r = AppendFixed64 (connCodec c) (of_nat (length b)) @ b @ rest"
  shows "readBlockData c r = Inr (b, r\<lparr>rRemaining := rest\<rparr>)"
  using assms codec_lawsD(2,3) [OF assms(1)]
  by (simp add: readBlockData_def io_ReadFull_def unat_of_nat_len)

lemma ReadBlock_chunk:
  assumes "codec_laws (connCodec c) (masterKey c)" and "wraps c (d # ds) (b # bs)"
    and "rRemaining r = chunk_bytes (connCodec c) (b # bs) @ tail"
  shows "ReadBlock c r = Inr (d, r\<lparr>rRemaining := chunk_bytes (connCodec c) bs @ tail\<rparr>)"
proof -
  from assms(2) have b: "WrapBlock c d defaultChunkSize = Inr b" by (simp add: wraps_def)
  from readBlockData_chunk [OF assms(1) Unwrap_WrapBlock(2) [OF assms(1) b], of r] assms(3)
    Unwrap_WrapBlock(1) [OF assms(1) b]
  show ?thesis by (simp add: ReadBlock_def unwrapBlockData_def)
qed

lemma ReadBlock_end: "rRemaining r = [] \<Longrightarrow> ReadBlock c r = Inl (Wrap ''while reading WAL file block prefix'' EOF)"
  by (simp add: ReadBlock_def readBlockData_def io_ReadFull_def)

lemma NewReader_content:
  assumes "fs_laws (connFs c) files" and "codec_laws (connCodec c) key"
    and "files s (getWALArchivePath clusterName walName) = Some (MarshalHeader (connCodec c) v n @ rest)"
  shows "NewReader c clusterName walName s = Inr \<lparr>rRemaining = rest, segmentLength = n\<rparr>"
  using fs_lawsD(12) [OF assms(1,3)] codec_lawsD(1) [OF assms(2)]
  by (simp add: NewReader_def)

lemma chunk_bytes_append: "chunk_bytes cd (bs @ bs') = chunk_bytes cd bs @ chunk_bytes cd bs'"
  by (induction bs) auto

lemma wraps_append: "wraps c ds bs \<Longrightarrow> wraps c ds' bs' \<Longrightarrow> wraps c (ds @ ds') (bs @ bs')"
  by (simp add: wraps_def list_all2_appendI)

section \<open>Lemmas: the concrete instances\<close>

lemma map_of_mem_del: "map_of (mem_del p s) q = (if q = p then None else map_of s q)"
  by (induction s) (auto simp: mem_del_def)

lemma Cut_plain: "plain_elem n \<Longrightarrow> Cut n (CHR ''/'') = (n, [], False)"
  by (simp add: plain_elem_def Cut_None)

lemma mem_entry_self: "plain_elem n \<Longrightarrow> mem_entry d (d @ CHR ''/'' # n) = [(n, False)]"
  by (simp add: mem_entry_def mem_below_def Cut_plain)

lemma mem_entry_plain: "(n, b) \<in> set (mem_entry d p) \<Longrightarrow> plain_elem n"
  by (auto simp: mem_entry_def Let_def split: option.splits prod.splits if_splits)

lemma mem_fs_laws: "fs_laws mem_afero mem_files"
  unfolding fs_laws_def
proof (intro conjI allI impI, goal_cases)
  case (17 ds n s es)
  then obtain b where "(join_with ''/'' ds @ CHR ''/'' # n, b) \<in> set s"
    by (auto simp: mem_files_def join_with_snoc dest: map_of_SomeD)
  moreover from 17 have "es = remdups (concat (map (\<lambda>(p, _). mem_entry (join_with ''/'' ds) p) s))"
    by (auto simp: mem_afero_def split: if_splits)
  ultimately show ?case
    using mem_entry_self [OF 17(4), of "join_with ''/'' ds"] by force
qed (auto simp: mem_afero_def mem_files_def fs_frame_def map_of_mem_del mem_entry_plain
       split: option.splits if_splits)

lemma length_le64 [simp]: "length (le64 v) = 8"
  by (simp add: le64_def)

lemma le_value_digits:
  "le_value (map (\<lambda>i. word_of_nat (n div 256 ^ i)) [k..<k + m]) = (n div 256 ^ k) mod 256 ^ m"
proof (induction m arbitrary: k)
  case (Suc m)
  have "le_value (map (\<lambda>i. word_of_nat (n div 256 ^ i)) [k..<k + Suc m]) =
      (n div 256 ^ k) mod 256 + 256 * ((n div 256 ^ Suc k) mod 256 ^ m)"
    using Suc.IH [of "Suc k"] by (simp add: upt_conv_Cons [of k] unat_of_nat del: upt_Suc)
  also have "\<dots> = (n div 256 ^ k) mod 256 ^ Suc m"
    by (metis add.commute div_mult2_eq mod_mult2_eq power_Suc power_Suc2)
  finally show ?case .
qed simp

lemma le_value_le64 [simp]: "word_of_nat (le_value (le64 v)) = v"
proof -
  have "le_value (le64 v) = unat v mod 256 ^ 8"
    using le_value_digits [of "unat v" 0 8] by (simp add: le64_def)
  also have "\<dots> = unat v"
    using unsigned_less [of v, where ?'a = nat] by simp
  finally show ?thesis by simp
qed

lemma plain_codec_laws: "codec_laws plain_codec key"
proof -
  have "le64 v \<noteq> []" for v by (metis length_le64 list.size(3) zero_neq_numeral)
  then show ?thesis by (auto simp: codec_laws_def plain_codec_def split: if_splits)
qed

section \<open>Lemmas: writer sessions\<close>

lemma writer_step_stream:
  assumes laws: "fs_laws (connFs c) files" and step: "writer_step c x w s = (r, w', s')"
  shows "fs_frame files {dwFile (inner w)} s s' \<and> dwFile (inner w') = dwFile (inner w) \<and>
         walFilePath w' = walFilePath w"
    and "r = None \<Longrightarrow> dw_stream files (inner w) s = Some st \<Longrightarrow>
         \<exists>ds bs. concat ds = written [x] \<and> wraps c ds bs \<and>
           dw_stream files (inner w') s' = Some (st @ chunk_bytes (connCodec c) bs)"
proof -
  show "fs_frame files {dwFile (inner w)} s s' \<and> dwFile (inner w') = dwFile (inner w) \<and>
        walFilePath w' = walFilePath w"
    using step dw_WriteBlock_frame [OF laws] dw_Flush_stream(1,2) [OF laws] dw_Close_stream(1,2) [OF laws]
    by (cases x) (auto simp: w_WriteBlock_def w_Flush_def w_Close_def split: prod.splits)
  assume ok: "r = None" and st: "dw_stream files (inner w) s = Some st"
  show "\<exists>ds bs. concat ds = written [x] \<and> wraps c ds bs \<and>
      dw_stream files (inner w') s' = Some (st @ chunk_bytes (connCodec c) bs)"
  proof (cases x)
    case (OpWrite d)
    then have "dw_WriteBlock c (inner w) d s = (None, inner w', s')"
      using step ok by (auto simp: w_WriteBlock_def split: prod.splits)
    from dw_WriteBlock_stream [OF laws this st] OpWrite show ?thesis
      by (metis append_Nil2 written.simps(1,2))
  next
    case OpFlush
    then have "dw_Flush c (inner w) s = (None, inner w', s')"
      using step ok by (auto simp: w_Flush_def split: prod.splits)
    from dw_Flush_stream(2,3) [OF laws this] st OpFlush show ?thesis
      by (intro exI [of _ "[]"]) (simp add: wraps_def dw_stream_def)
  next
    case OpClose
    then have "dw_Close c (inner w) s = (None, inner w', s')"
      using step ok by (auto simp: w_Close_def split: prod.splits)
    from dw_Close_stream(2,3,4) [OF laws this] st OpClose show ?thesis
      by (intro exI [of _ "[]"]) (simp add: wraps_def dw_stream_def)
  qed
qed

lemma writer_session_frame:
  assumes laws: "fs_laws (connFs c) files" and run: "writer_session c xs w s = (ok, w', s')"
  shows "fs_frame files {dwFile (inner w)} s s' \<and> dwFile (inner w') = dwFile (inner w) \<and>
         walFilePath w' = walFilePath w"
  using run
proof (induction xs arbitrary: w s ok)
  case (Cons x xs)
  obtain r1 w1 s1 where 1: "writer_step c x w s = (r1, w1, s1)" by (metis prod_cases3)
  obtain ok2 where 2: "writer_session c xs w1 s1 = (ok2, w', s')"
    using Cons.prems 1 by (auto split: prod.splits)
  from Cons.IH [OF 2] writer_step_stream(1) [OF laws 1] show ?case by (auto intro: fs_frame_trans)
qed simp

lemma written_Cons: "written (x # xs) = written [x] @ written xs"
  by (cases x) auto

lemma writer_session_stream:
  assumes laws: "fs_laws (connFs c) files" and run: "writer_session c xs w s = (True, w', s')"
    and st: "dw_stream files (inner w) s = Some st"
  shows "\<exists>ds bs. concat ds = written xs \<and> wraps c ds bs \<and>
           dw_stream files (inner w') s' = Some (st @ chunk_bytes (connCodec c) bs)"
  using run st
proof (induction xs arbitrary: w s st)
  case Nil
  then show ?case by (intro exI [of _ "[]"]) (simp add: wraps_def)
next
  case (Cons x xs)
  obtain r1 w1 s1 where 1: "writer_step c x w s = (r1, w1, s1)" by (metis prod_cases3)
  have 2: "r1 = None" "writer_session c xs w1 s1 = (True, w', s')"
    using Cons.prems(1) 1 by (auto split: prod.splits)
  from writer_step_stream(2) [OF laws 1 2(1) Cons.prems(2)] obtain ds bs
    where d: "concat ds = written [x]" "wraps c ds bs"
      and st1: "dw_stream files (inner w1) s1 = Some (st @ chunk_bytes (connCodec c) bs)" by blast
  from Cons.IH [OF 2(2) st1] obtain ds' bs'
    where d': "concat ds' = written xs" "wraps c ds' bs'" "dw_stream files (inner w') s' =
      Some ((st @ chunk_bytes (connCodec c) bs) @ chunk_bytes (connCodec c) bs')" by blast
  from d d' have "concat (ds @ ds') = written (x # xs)" "wraps c (ds @ ds') (bs @ bs')"
    by (simp_all add: written_Cons [of x xs] wraps_append del: written.simps)
  with d'(3) show ?case by (metis append.assoc chunk_bytes_append)
qed

lemma read_all_tail:
  assumes "codec_laws (connCodec c) (masterKey c)" and "wraps c ds bs"
    and "rRemaining r = chunk_bytes (connCodec c) bs @ tail"
  shows "read_all c r =
    (case read_all c (r\<lparr>rRemaining := tail\<rparr>) of Inl e \<Rightarrow> Inl e | Inr es \<Rightarrow> Inr (ds @ es))"
  using assms(2,3)
proof (induction ds arbitrary: bs r)
  case Nil
  then have "r\<lparr>rRemaining := tail\<rparr> = r" by (simp add: wraps_def)
  then show ?case by (simp split: sum.splits)
next
  case (Cons d ds)
  then obtain b bs' where bs: "bs = b # bs'" "wraps c ds bs'"
    by (auto simp: wraps_def list_all2_Cons1)
  from ReadBlock_chunk [OF assms(1)] Cons bs show ?case
    by (simp add: read_all.simps [of c r] split: sum.splits)
qed

lemma read_all_chunks:
  assumes "codec_laws (connCodec c) (masterKey c)" and "wraps c ds bs"
    and "rRemaining r = chunk_bytes (connCodec c) bs"
  shows "read_all c r = Inr ds"
  using read_all_tail [OF assms(1,2), of r "[]"] assms(3)
  by (simp add: read_all.simps [of c "r\<lparr>rRemaining := []\<rparr>"] ReadBlock_end)

lemma io_ReadFull_short:
  "length rest < n \<Longrightarrow> io_ReadFull rest n = Inl (if rest = [] then EOF else ErrUnexpectedEOF)"
  by (simp add: io_ReadFull_def)

lemma ReadBlock_truncated:
  assumes laws: "codec_laws (connCodec c) key" and "length b < 2 ^ 63" and "0 < k" and "k < 8 + length b"
    and "rRemaining r = take k (AppendFixed64 (connCodec c) (of_nat (length b)) @ b)"
  shows "\<exists>m. ReadBlock c r = Inl (Wrap m (if k = 8 then EOF else ErrUnexpectedEOF))"
proof (cases "k < 8")
  case True
  with assms codec_lawsD(2) [OF laws, of "of_nat (length b)"]
  show ?thesis by (auto simp: ReadBlock_def readBlockData_def io_ReadFull_short)
next
  case False
  then have "rRemaining r = AppendFixed64 (connCodec c) (of_nat (length b)) @ take (k - 8) b"
    using assms codec_lawsD(2) [OF laws, of "of_nat (length b)"] by simp
  moreover have "io_ReadFull (take (k - 8) b) (length b) = Inl (if k = 8 then EOF else ErrUnexpectedEOF)"
    using False assms(4) by (subst io_ReadFull_short) auto
  moreover have "io_ReadFull (AppendFixed64 (connCodec c) (of_nat (length b)) @ take (k - 8) b) 8 =
      Inr (AppendFixed64 (connCodec c) (of_nat (length b)), take (k - 8) b)"
    using codec_lawsD(2) [OF laws] by (simp add: io_ReadFull_def)
  ultimately show ?thesis
    using assms(2) codec_lawsD(3) [OF laws] by (simp add: ReadBlock_def readBlockData_def unat_of_nat_len)
qed

lemma NewWriter_stream:
  assumes laws: "fs_laws (connFs c) files" and new: "NewWriter c opts s = (r, s')"
  defines "path \<equiv> WithPartialSuffix (getWALArchivePath (optClusterName opts) (optWALName opts))"
  shows "fs_frame files {path} s s'"
    and "r = Inr w \<Longrightarrow> walFilePath w = path \<and> dwFile (inner w) = path \<and>
         dw_stream files (inner w) s' = Some (MarshalHeader (connCodec c) 1 (optSegmentSize opts))"
proof -
  obtain r1 s1 where 1: "newDirectWriterAtPath c path opts s = (r1, s1)" by force
  have s1: "s' = s1"
    using new 1 by (auto simp: NewWriter_def path_def split: sum.splits)
  from newDirectWriterAtPath_stream(1) [OF laws 1] s1 show "fs_frame files {path} s s'" by simp
  assume "r = Inr w"
  with new 1 have "r1 = Inr (inner w)" "walFilePath w = path"
    by (auto simp: NewWriter_def path_def split: sum.splits)
  with newDirectWriterAtPath_stream(2) [OF laws 1] s1
  show "walFilePath w = path \<and> dwFile (inner w) = path \<and>
      dw_stream files (inner w) s' = Some (MarshalHeader (connCodec c) 1 (optSegmentSize opts))"
    by simp
qed

lemma CloseMarkDone_stream:
  assumes laws: "fs_laws (connFs c) files" and run: "CloseMarkDone c w s = (r, w', s')"
  shows "r \<noteq> None \<Longrightarrow> fs_frame files {dwFile (inner w)} s s'"
    and "fs_frame files {dwFile (inner w), walFilePath w, TrimPartialSuffix (walFilePath w)} s s'"
    and "r = None \<Longrightarrow> dwFile (inner w) = walFilePath w \<Longrightarrow> dw_stream files (inner w) s = Some st \<Longrightarrow>
         files s' (TrimPartialSuffix (walFilePath w)) = Some st"
proof -
  obtain r1 i s1 where 1: "dw_Close c (inner w) s = (r1, i, s1)" by (metis prod_cases3)
  obtain r2 s2 where 2: "FRename (connFs c) (walFilePath w) (TrimPartialSuffix (walFilePath w)) s1 = (r2, s2)"
    by force
  note f1 = dw_Close_stream [OF laws 1]
  have s': "s' = (if r1 = None then s2 else s1)" and r: "r = None \<longleftrightarrow> r1 = None \<and> r2 = None"
    using run 1 2 by (auto simp: CloseMarkDone_def Let_def split: option.splits prod.splits)
  have g1: "fs_frame files {dwFile (inner w), walFilePath w, TrimPartialSuffix (walFilePath w)} s s1"
    by (rule fs_frame_mono [OF f1(1)]) simp
  have g2: "fs_frame files {dwFile (inner w), walFilePath w, TrimPartialSuffix (walFilePath w)} s1 s2"
    by (rule fs_frame_mono [OF fs_lawsD(8) [OF laws 2]]) auto
  from fs_frame_trans [OF g1 g2] g1 s'
  show "fs_frame files {dwFile (inner w), walFilePath w, TrimPartialSuffix (walFilePath w)} s s'" by simp
  have "r2 \<noteq> None \<Longrightarrow> fs_frame files {dwFile (inner w)} s1 s2"
    using fs_lawsD(14) [OF laws] 2 fs_frame_mono by (metis empty_subsetI option.exhaust)
  with f1(1) s' r show "r \<noteq> None \<Longrightarrow> fs_frame files {dwFile (inner w)} s s'"
    by (auto intro: fs_frame_trans)
  assume "r = None" "dwFile (inner w) = walFilePath w" "dw_stream files (inner w) s = Some st"
  with f1(3) r s' fs_lawsD(9) [OF laws] 2
  show "files s' (TrimPartialSuffix (walFilePath w)) = Some st" by metis
qed

lemma archive_path_not_partial:
  assumes "plain_elem cl" and "walFileRE n" and "\<not> HasSuffix n PartialSuffix"
  shows "\<not> HasSuffix (getWALArchivePath cl n) PartialSuffix"
proof
  assume "HasSuffix (getWALArchivePath cl n) PartialSuffix"
  moreover obtain pre where "getWALArchivePath cl n = pre @ n"
    using getWALArchivePath_elems [OF assms(1,2)] by (auto simp: archive_elems_def split: if_splits)
  ultimately obtain u where u: "pre @ n = u @ PartialSuffix" by (auto simp: HasSuffix_iff)
  have "length PartialSuffix \<le> length n"
    using walFileRE_length [OF assms(2)] by (simp add: PartialSuffix_def)
  moreover from u have "length pre + length n = length u + length PartialSuffix"
    by (metis length_append)
  ultimately have "length u = length pre + (length n - length PartialSuffix)" by linarith
  then have "drop (length n - length PartialSuffix) n = drop (length u) (pre @ n)" by simp
  also have "\<dots> = PartialSuffix" using u by simp
  finally have "drop (length n - length PartialSuffix) n = PartialSuffix" .
  with assms(3) \<open>length PartialSuffix \<le> length n\<close> show False by (simp add: HasSuffix_def)
qed

lemma partial_path_neq: "\<not> HasSuffix p PartialSuffix \<Longrightarrow> WithPartialSuffix p \<noteq> p \<and> TrimPartialSuffix p = p"
  by (simp add: WithPartialSuffix_def TrimPartialSuffix_def PartialSuffix_def)

section \<open>Lemmas: retention\<close>

lemma fs_removed_refl [simp]: "fs_removed files P s s"
  by (simp add: fs_removed_def)

lemma fs_removed_trans:
  "fs_removed files P s s' \<Longrightarrow> fs_removed files P s' s'' \<Longrightarrow> fs_removed files P s s''"
  unfolding fs_removed_def by metis

lemma fs_removed_mono: "fs_removed files P s s' \<Longrightarrow> (\<And>q. P q \<Longrightarrow> Q q) \<Longrightarrow> fs_removed files Q s s'"
  unfolding fs_removed_def by blast

lemma fs_removed_None: "fs_removed files P s s' \<Longrightarrow> files s q = None \<Longrightarrow> files s' q = None"
  unfolding fs_removed_def by metis

lemma FRemove_removed:
  "fs_laws (connFs c) files \<Longrightarrow> fs_removed files (\<lambda>q. q = p) s (snd (FRemove (connFs c) p s))"
  using fs_lawsD(10,15) [of "connFs c" files p s]
  unfolding fs_removed_def fs_frame_def by (metis prod.collapse singletonD)

lemma remove_old_files_removed:
  assumes laws: "fs_laws (connFs c) files"
  shows "fs_removed files (\<lambda>q. \<exists>e \<in> set es. removes_entry isWALFile firstWAL e \<and>
           q = path_Join [d, path_Base (fst e)]) s (remove_old_files isWALFile c d firstWAL es s)"
proof (induction es arbitrary: s)
  case (Cons e es)
  let ?s1 = "if removes_entry isWALFile firstWAL e
     then snd (FRemove (connFs c) (path_Join [d, path_Base (fst e)]) s) else s"
  have "fs_removed files (\<lambda>q. \<exists>e \<in> set (e # es). removes_entry isWALFile firstWAL e \<and>
      q = path_Join [d, path_Base (fst e)]) s ?s1"
    using fs_removed_mono [OF FRemove_removed [OF laws, of "path_Join [d, path_Base (fst e)]" s]] by auto
  moreover have "fs_removed files (\<lambda>q. \<exists>e \<in> set (e # es). removes_entry isWALFile firstWAL e \<and>
      q = path_Join [d, path_Base (fst e)]) ?s1 (remove_old_files isWALFile c d firstWAL es ?s1)"
    by (rule fs_removed_mono [OF Cons.IH]) auto
  ultimately show ?case unfolding remove_old_files.simps by (rule fs_removed_trans)
qed simp

lemma remove_old_files_done:
  assumes laws: "fs_laws (connFs c) files" and "(n, False) \<in> set es" and "plain_elem n"
    and "removes_entry isWALFile firstWAL (n, False)"
    and ok: "\<And>t. fst (FRemove (connFs c) (path_Join [d, n]) t) = None"
  shows "files (remove_old_files isWALFile c d firstWAL es s) (path_Join [d, n]) = None"
  using assms(2)
proof (induction es arbitrary: s)
  case (Cons e es)
  show ?case
  proof (cases "e = (n, False)")
    case True
    have "files (snd (FRemove (connFs c) (path_Join [d, n]) s)) (path_Join [d, n]) = None"
      using fs_lawsD(11) [OF laws] ok by (metis prod.collapse)
    with True assms(3,4) fs_removed_None [OF remove_old_files_removed [OF laws]] show ?thesis
      by (simp add: path_Base_plain)
  next
    case False
    with Cons show ?thesis by simp
  qed
qed simp

text \<open>What retention may remove: a segment of a WAL subdirectory that precedes the first required one.\<close>

definition obsolete_in :: "(string \<Rightarrow> bool) \<Rightarrow> string \<Rightarrow> string \<Rightarrow> string \<Rightarrow> bool" where
  "obsolete_in isWALFile firstWAL d q \<longleftrightarrow>
     (\<exists>n. plain_elem n \<and> removes_entry isWALFile firstWAL (n, False) \<and> q = path_Join [d, n])"

lemma setFirstRequiredOnDirectory_removed:
  assumes laws: "fs_laws (connFs c) files"
  shows "fs_removed files (obsolete_in isWALFile firstWAL d) s
           (snd (setFirstRequiredOnDirectory isWALFile c d firstWAL s))"
proof (cases "ReadDir (connFs c) d s")
  case (Inl e)
  then show ?thesis by (simp add: setFirstRequiredOnDirectory_def)
next
  case (Inr es)
  let ?s1 = "remove_old_files isWALFile c d firstWAL es s"
  have 1: "fs_removed files (obsolete_in isWALFile firstWAL d) s ?s1"
  proof (rule fs_removed_mono [OF remove_old_files_removed [OF laws]])
    fix q
    assume "\<exists>e \<in> set es. removes_entry isWALFile firstWAL e \<and> q = path_Join [d, path_Base (fst e)]"
    then obtain n isDir where n: "(n, isDir) \<in> set es" "removes_entry isWALFile firstWAL (n, isDir)"
      "q = path_Join [d, path_Base n]" by auto
    from n(2) have "isDir = False" by (auto simp: removes_entry_def Let_def split: if_splits)
    with n fs_lawsD(13) [OF laws Inr n(1)] show "obsolete_in isWALFile firstWAL d q"
      by (auto simp: obsolete_in_def path_Base_plain)
  qed
  show ?thesis
  proof (cases "ReadDir (connFs c) d ?s1 = Inr []")
    case True
    have "fs_removed files (\<lambda>q. False) ?s1 (snd (FRemove (connFs c) d ?s1))"
      using FRemove_removed [OF laws, of d ?s1] fs_lawsD(16) [OF laws True]
      by (auto simp: fs_removed_def)
    then have "fs_removed files (obsolete_in isWALFile firstWAL d) ?s1 (snd (FRemove (connFs c) d ?s1))"
      by (rule fs_removed_mono) simp
    from fs_removed_trans [OF 1 this] True Inr show ?thesis
      by (simp add: setFirstRequiredOnDirectory_def Let_def)
  next
    case False
    with 1 Inr show ?thesis by (auto simp: setFirstRequiredOnDirectory_def Let_def split: sum.splits)
  qed
qed

lemma setFirstRequiredOnDirectory_done:
  assumes laws: "fs_laws (connFs c) files" and d: "d = join_with ''/'' ds" "ds \<noteq> []" "\<And>x. x \<in> set ds \<Longrightarrow> plain_elem x"
    and n: "plain_elem n" "removes_entry isWALFile firstWAL (n, False)"
    and dir: "files s (path_Join [d, n]) \<noteq> None \<Longrightarrow> \<exists>es. ReadDir (connFs c) d s = Inr es"
    and ok: "\<And>t. fst (FRemove (connFs c) (path_Join [d, n]) t) = None"
    and join: "path_Join [d, n] = join_with ''/'' (ds @ [n])"
  shows "files (snd (setFirstRequiredOnDirectory isWALFile c d firstWAL s)) (path_Join [d, n]) = None"
proof (cases "files s (path_Join [d, n]) = None")
  case True
  with fs_removed_None [OF setFirstRequiredOnDirectory_removed [OF laws]] show ?thesis by blast
next
  case False
  from dir [OF this] obtain es where es: "ReadDir (connFs c) d s = Inr es" by blast
  from fs_lawsD(17) [OF laws es [unfolded d(1)] d(2,3) n(1)] False join
  have "(n, False) \<in> set es" by simp
  from remove_old_files_done [OF laws this n ok]
  have 1: "files (remove_old_files isWALFile c d firstWAL es s) (path_Join [d, n]) = None" .
  with fs_removed_None [OF FRemove_removed [OF laws]] es show ?thesis
    by (auto simp: setFirstRequiredOnDirectory_def Let_def split: sum.splits)
qed

lemma retain_directories_removed:
  assumes laws: "fs_laws (connFs c) files" and "\<And>n b. (n, b) \<in> set es \<Longrightarrow> plain_elem n"
  shows "fs_removed files (\<lambda>q. \<exists>sub. plain_elem sub \<and> length sub = walSubdirectoryLength \<and>
           obsolete_in isWALFile firstWAL (path_Join [cl, sub]) q)
           s (retain_directories isWALFile c cl pre firstWAL es s)"
  using assms(2)
proof (induction es arbitrary: s)
  case (Cons e es)
  obtain n b where e: "e = (n, b)" by force
  then have n: "plain_elem n" using Cons.prems by (meson list.set_intros(1))
  let ?P = "\<lambda>q. \<exists>sub. plain_elem sub \<and> length sub = walSubdirectoryLength \<and>
     obsolete_in isWALFile firstWAL (path_Join [cl, sub]) q"
  have "length n = walSubdirectoryLength \<Longrightarrow>
      fs_removed files ?P s (snd (setFirstRequiredOnDirectory isWALFile c (path_Join [cl, n]) firstWAL s))"
    by (rule fs_removed_mono [OF setFirstRequiredOnDirectory_removed [OF laws]]) (use n in auto)
  with Cons.IH Cons.prems n e show ?case
    by (auto simp: path_Base_plain Let_def intro: fs_removed_trans)
qed simp

lemma retain_directories_done:
  assumes laws: "fs_laws (connFs c) files" and plain: "\<And>n b. (n, b) \<in> set es \<Longrightarrow> plain_elem n"
    and sub: "(sub, True) \<in> set es" "length sub = walSubdirectoryLength" "sub \<le> pre"
    and gone: "\<And>t. files t d = None \<Longrightarrow>
       files (snd (setFirstRequiredOnDirectory isWALFile c (path_Join [cl, sub]) firstWAL t)) q = None"
    and dir: "files s d = None"
  shows "files (retain_directories isWALFile c cl pre firstWAL es s) q = None"
  using plain sub(1) dir
proof (induction es arbitrary: s)
  case (Cons e es)
  show ?case
  proof (cases "e = (sub, True)")
    case True
    have "plain_elem sub" using Cons.prems by blast
    have rest: "\<And>n b. (n, b) \<in> set es \<Longrightarrow> plain_elem n" using Cons.prems(1) by auto
    have "files (retain_directories isWALFile c cl pre firstWAL es
        (snd (setFirstRequiredOnDirectory isWALFile c (path_Join [cl, sub]) firstWAL s))) q = None"
      by (rule fs_removed_None [OF retain_directories_removed [OF laws rest] gone [OF Cons.prems(3)]]) assumption
    with True sub(2,3) \<open>plain_elem sub\<close> show ?thesis by (auto simp: path_Base_plain Let_def)
  next
    case False
    obtain n b where e: "e = (n, b)" by force
    have "files (snd (setFirstRequiredOnDirectory isWALFile c x firstWAL s)) d = None" for x
      by (rule fs_removed_None [OF setFirstRequiredOnDirectory_removed [OF laws] Cons.prems(3)])
    moreover have "files (retain_directories isWALFile c cl pre firstWAL es t) q = None" if "files t d = None" for t
      by (rule Cons.IH) (use Cons.prems False that in auto)
    ultimately show ?thesis using e Cons.prems(3) by (simp add: Let_def)
  qed
qed simp

lemma SetFirstRequiredOnCluster_removed:
  assumes laws: "fs_laws (connFs c) files" and "SetFirstRequiredOnCluster isWALFile c cl firstWAL s = (r, s')"
  shows "fs_removed files (\<lambda>q. \<exists>sub. plain_elem sub \<and> length sub = walSubdirectoryLength \<and>
           obsolete_in isWALFile firstWAL (path_Join [cl, sub]) q) s s'"
proof (cases "ReadDir (connFs c) cl s")
  case (Inl e)
  with assms(2) show ?thesis by (simp add: SetFirstRequiredOnCluster_def)
next
  case (Inr es)
  with assms(2) retain_directories_removed [OF laws fs_lawsD(13) [OF laws Inr]] show ?thesis
    by (auto simp: SetFirstRequiredOnCluster_def split: if_splits)
qed

lemma removes_entry_segment:
  assumes "wal_segment_test isWALFile" and "plain_elem n"
  shows "removes_entry isWALFile firstWAL (n, False) \<longleftrightarrow>
    ValidateWalFileName n = None \<and> IsWALSegmentOrPartial isWALFile n \<and> TrimPartialSuffix n < firstWAL"
proof -
  have "isWALFile n \<Longrightarrow> TrimPartialSuffix n = n"
    using assms hex24_no_partial [of n]
    by (simp add: wal_segment_test_def plain_elem_def TrimPartialSuffix_def)
  then show ?thesis
    using assms(2) by (auto simp: removes_entry_def path_Base_plain IsWALSegmentOrPartial_def Let_def split: if_splits)
qed

lemma path_Join3:
  assumes "plain_elem a" and "plain_elem b" and "plain_elem n"
  shows "path_Join [path_Join [a, b], n] = join_with ''/'' [a, b, n]"
proof -
  have "\<And>e. e \<in> set [a, b] \<Longrightarrow> plain_elem e" using assms by auto
  with path_Join_plain [of "[a, b]"] path_Join_snoc [of "[a, b]" n] assms(3) show ?thesis by simp
qed

lemma segment_shape:
  assumes "wal_segment_test isWALFile" and "plain_elem w" and "IsWALSegmentOrPartial isWALFile w"
  obtains t where "length t = 24" "list_all is_hex t" "TrimPartialSuffix w = t" "w = t \<or> w = t @ ''.partial''"
proof (cases "isWALFile w")
  case True
  with assms(1,2) have "length w = 24" "list_all is_hex w"
    by (simp_all add: wal_segment_test_def plain_elem_def)
  with that [of w] hex24_no_partial [of w] show ?thesis by (simp add: TrimPartialSuffix_def)
next
  case False
  with assms(3) obtain t where t: "w = t @ PartialSuffix" "isWALFile t"
    by (auto simp: IsWALSegmentOrPartial_def IsPartialWALFile_def CutSuffix_def HasSuffix_iff)
  with assms(1,2) have "length t = 24" "list_all is_hex t"
    by (simp_all add: wal_segment_test_def plain_elem_def)
  with that [of t] t show ?thesis by (simp add: TrimPartialSuffix_def PartialSuffix_def)
qed

lemma take_mono_less: "s < t \<Longrightarrow> take k s \<le> take k (t :: string)"
proof (induction k arbitrary: s t)
  case (Suc k)
  then show ?case by (cases s; cases t) (auto simp: less_le)
qed simp

lemma greatest_fold:
  fixes acc :: string and wanted :: "bool \<Rightarrow> bool"
  defines "f \<equiv> \<lambda>best (name, isDir). if wanted isDir \<and> best < name then name else best"
  shows "acc \<le> foldl f acc es \<and> (\<forall>n b. (n, b) \<in> set es \<longrightarrow> wanted b \<longrightarrow> n \<le> foldl f acc es) \<and>
         (foldl f acc es = acc \<or> (\<exists>b. wanted b \<and> (foldl f acc es, b) \<in> set es))"
proof (induction es arbitrary: acc)
  case (Cons e es)
  obtain n b where e: "e = (n, b)" by force
  let ?acc = "f acc e"
  have "acc \<le> ?acc" "wanted b \<longrightarrow> n \<le> ?acc" "?acc = acc \<or> wanted b \<and> ?acc = n"
    by (auto simp: f_def e)
  with Cons.IH [of ?acc] show ?case by (auto simp: e)
qed simp

lemma greatest_name_max:
  "(n, b) \<in> set es \<Longrightarrow> wanted b \<Longrightarrow> n \<le> greatest_name wanted es"
  "greatest_name wanted es = '''' \<or> (\<exists>b. wanted b \<and> (greatest_name wanted es, b) \<in> set es)"
  using greatest_fold [where es = es and acc = "''''" and wanted = wanted] unfolding greatest_name_def by blast+

text \<open>One session on the concrete file system.\<close>

lemma example_paths:
  "getWALArchivePath ''pg'' ''00000001000000000000000A'' = ''pg/0000000100000000/00000001000000000000000A''"
  "WithPartialSuffix ''pg/0000000100000000/00000001000000000000000A'' =
     ''pg/0000000100000000/00000001000000000000000A.partial''"
  "TrimPartialSuffix ''pg/0000000100000000/00000001000000000000000A.partial'' =
     ''pg/0000000100000000/00000001000000000000000A''"
  by code_simp+

lemmas writer_defs = NewWriter_def newDirectWriterAtPath_def newDirectWriter_def bufio_Write_def
  bufio_Flush_def bufio_direct_def w_WriteBlock_def dw_WriteBlock_def wrapBlock_def WrapBlock_def protectWriter_def
  writeBlockData_def w_Flush_def dw_Flush_def CloseMarkDone_def dw_Close_def

lemma mem_ops [simp]:
  "MkdirAll (connFs mem_connection) p s = (None, s)"
  "OpenTrunc (connFs mem_connection) p s = (None, (p, []) # mem_del p s)"
  "OpenCreate (connFs mem_connection) p s = (None, if map_of s p = None then (p, []) # s else s)"
  "FWrite (connFs mem_connection) p b s = (case map_of s p of
     None \<Rightarrow> (Some ErrNotExist, s) | Some old \<Rightarrow> (None, (p, old @ b) # mem_del p s))"
  "FSync (connFs mem_connection) p s = (None, s)"
  "FClose (connFs mem_connection) p s = (None, s)"
  "FRename (connFs mem_connection) p q s = (case map_of s p of
     None \<Rightarrow> (Some ErrNotExist, s) | Some old \<Rightarrow> (None, (q, old) # mem_del q (mem_del p s)))"
  "FRemove (connFs mem_connection) p s = (None, mem_del p s)"
  "OpenRead (connFs mem_connection) p s = (case map_of s p of None \<Rightarrow> Inl ErrNotExist | Some b \<Rightarrow> Inr b)"
  "Stat (connFs mem_connection) p s = (case map_of s p of None \<Rightarrow> Some ErrNotExist | Some _ \<Rightarrow> None)"
  "ReadDir (connFs mem_connection) d s = (if map_of s d \<noteq> None then Inl (Sentinel ''not a directory'')
     else Inr (remdups (concat (map (\<lambda>(p, _). mem_entry d p) s))))"
  "EncryptWriter (connCodec mem_connection) k =
     Inr (\<lambda>b. if length b < 2 ^ 63 then Inr b else Inl (Sentinel ''too large''))"
  "S2Writer (connCodec mem_connection) n b = Inr b"
  "MarshalHeader (connCodec mem_connection) v m = le64 m"
  "AppendFixed64 (connCodec mem_connection) m = le64 m"
  by (simp_all add: mem_connection_def mem_afero_def plain_codec_def)

lemma mem_connection_laws [simp]:
  "fs_laws (connFs mem_connection) mem_files"
  "codec_laws (connCodec mem_connection) (masterKey mem_connection)"
  by (simp_all add: mem_connection_def mem_fs_laws plain_codec_laws)

lemma le64_examples:
  "le64 16777216 = [0, 0, 0, 1, 0, 0, 0, 0]" "le64 3 = [3, 0, 0, 0, 0, 0, 0, 0]"
  "le64 1 = [1, 0, 0, 0, 0, 0, 0, 0]"
proof -
  have "[0..<8] = [0, 1, 2, 3, 4, 5, 6, 7 :: nat]" by code_simp
  then show "le64 16777216 = [0, 0, 0, 1, 0, 0, 0, 0]" "le64 3 = [3, 0, 0, 0, 0, 0, 0, 0]"
    "le64 1 = [1, 0, 0, 0, 0, 0, 0, 0]"
    by (simp_all add: le64_def)
qed

lemmas mem_defs = mem_del_def defaultChunkSize_def walBlockSize_def le64_examples Let_def

lemma example_session:
  "\<exists>w1 s1 w2 s2 w3 s3. NewWriter mem_connection example_opts [] = (Inr w1, s1) \<and>
     writer_session mem_connection [OpWrite [1, 2, 3], OpFlush, OpWrite [4]] w1 s1 = (True, w2, s2) \<and>
     CloseMarkDone mem_connection w2 s2 = (None, w3, s3)"
  by (simp add: writer_defs mem_defs example_opts_def example_paths WriteBlock_loop.simps)

text \<open>What applying a first required WAL does to the archive.\<close>

lemma first_required_effect:
  assumes "fs_laws (connFs c) files" and "wal_segment_test isWALFile" and "plain_elem cl"
    and "SetFirstRequiredOnCluster isWALFile c cl firstWAL s = (r, s')"
  shows "(\<forall>q. files s' q \<noteq> files s q \<longrightarrow> files s' q = None \<and>
            (\<exists>sub w. q = join_with ''/'' [cl, sub, w] \<and> length sub = walSubdirectoryLength \<and>
               ValidateWalFileName w = None \<and> IsWALSegmentOrPartial isWALFile w \<and> TrimPartialSuffix w < firstWAL)) \<and>
         (\<forall>w. ValidateWalFileName w = None \<and> (IsWALSegmentOrPartial isWALFile w \<longrightarrow> firstWAL \<le> TrimPartialSuffix w) \<longrightarrow>
            files s' (getWALArchivePath cl w) = files s (getWALArchivePath cl w))"
proof -
  have changed: "files s' q = None \<and> (\<exists>sub w. q = join_with ''/'' [cl, sub, w] \<and> plain_elem sub \<and>
      length sub = walSubdirectoryLength \<and> ValidateWalFileName w = None \<and>
      IsWALSegmentOrPartial isWALFile w \<and> TrimPartialSuffix w < firstWAL)"
    if "files s' q \<noteq> files s q" for q
    using SetFirstRequiredOnCluster_removed [OF assms(1,4)] that assms(3)
    by (fastforce simp: fs_removed_def obsolete_in_def removes_entry_segment [OF assms(2)] path_Join3)
  moreover have "files s' (getWALArchivePath cl w) = files s (getWALArchivePath cl w)"
    if w: "ValidateWalFileName w = None" "IsWALSegmentOrPartial isWALFile w \<longrightarrow> firstWAL \<le> TrimPartialSuffix w" for w
  proof (rule ccontr)
    assume "\<not> ?thesis"
    from changed [OF this] obtain sub w' where w': "getWALArchivePath cl w = join_with ''/'' [cl, sub, w']"
      "plain_elem sub" "ValidateWalFileName w' = None" "IsWALSegmentOrPartial isWALFile w'" "TrimPartialSuffix w' < firstWAL"
      by blast
    have re: "walFileRE w" "walFileRE w'"
      using w(1) w'(3) by (simp_all add: ValidateWalFileName_def split: if_splits)
    have "split_on (CHR ''/'') (join_with ''/'' [cl, sub, w']) = [cl, sub, w']"
      by (rule split_join_plain) (use assms(3) w'(2) walFileRE_plain [OF re(2)] in auto)
    with getWALArchivePath_split [OF assms(3) re(1)] w'(1) have "w' = w"
      by (auto simp: archive_elems_def split: if_splits)
    with w(2) w'(4,5) show False by simp
  qed
  ultimately show ?thesis by blast
qed

lemma first_required_removes:
  assumes "fs_laws (connFs c) files" and "wal_segment_test isWALFile" and "plain_elem cl"
    and "ValidateWalFileName w = None" and "IsWALSegmentOrPartial isWALFile w"
    and "TrimPartialSuffix w < firstWAL" and "walSubdirectoryLength \<le> length firstWAL"
    and "ReadDir (connFs c) cl s = Inr es" and "(take walSubdirectoryLength w, True) \<in> set es"
    and "files s (path_Join [cl, take walSubdirectoryLength w]) = None"
    and "\<And>t. files t (path_Join [cl, take walSubdirectoryLength w]) = None \<Longrightarrow> files t (getWALArchivePath cl w) \<noteq> None \<Longrightarrow>
           \<exists>es. ReadDir (connFs c) (path_Join [cl, take walSubdirectoryLength w]) t = Inr es"
    and "\<And>t. fst (FRemove (connFs c) (getWALArchivePath cl w) t) = None"
  shows "files (snd (SetFirstRequiredOnCluster isWALFile c cl firstWAL s)) (getWALArchivePath cl w) = None"
proof -
  let ?sub = "take walSubdirectoryLength w"
  have re: "walFileRE w" using assms(4) by (simp add: ValidateWalFileName_def split: if_splits)
  then have w: "plain_elem w" by (rule walFileRE_plain)
  from segment_shape [OF assms(2) w assms(5)] obtain t where t: "length t = 24"
    "TrimPartialSuffix w = t" "w = t \<or> w = t @ ''.partial''" by metis
  then have elems: "archive_elems cl w = [cl, ?sub, w]"
    using stem_of_valid [OF re] by (auto simp: archive_elems_def walSubdirectoryLength_def)
  have sub: "plain_elem ?sub" "length ?sub = walSubdirectoryLength"
    using archive_elems_plain [OF assms(3) re, of ?sub] elems walFileRE_length [OF re]
    by (auto simp: walSubdirectoryLength_def)
  have path: "getWALArchivePath cl w = path_Join [path_Join [cl, ?sub], w]"
    using getWALArchivePath_elems [OF assms(3) re] elems path_Join3 [OF assms(3) sub(1) w] by simp
  have "take walSubdirectoryLength (TrimPartialSuffix w) = ?sub"
    using t(1,2) t(3) unfolding walSubdirectoryLength_def by (elim disjE) simp_all
  then have le: "?sub \<le> take walSubdirectoryLength firstWAL"
    using take_mono_less [OF assms(6), of walSubdirectoryLength] by simp
  have join: "path_Join [cl, ?sub] = join_with ''/'' [cl, ?sub]"
    by (rule path_Join_plain) (use assms(3) sub in auto)
  have gone: "files (snd (setFirstRequiredOnDirectory isWALFile c (path_Join [cl, ?sub]) firstWAL t))
      (path_Join [path_Join [cl, ?sub], w]) = None" if "files t (path_Join [cl, ?sub]) = None" for t
    by (rule setFirstRequiredOnDirectory_done [OF assms(1) join])
       (use that assms sub w path path_Join_snoc [of "[cl, ?sub]" w] removes_entry_segment [OF assms(2) w] join in auto)
  from retain_directories_done [OF assms(1) fs_lawsD(13) [OF assms(1,8)] assms(9) sub(2) le gone assms(10)]
  show ?thesis using assms(7,8) path by (simp add: SetFirstRequiredOnCluster_def)
qed

section \<open>Properties\<close>

text \<open>
  C7: whatever a client wrote through a Writer is what a Reader returns.  After NewWriter, any
  successful sequence of writes, flushes and closes, and CloseMarkDone, NewReader opens the WAL
  under its final name, reports the segment size of the header, and reading its blocks to the end
  of the file gives back the written bytes, in order and complete.
\<close>

theorem written_wal_reads_back:
  assumes "fs_laws (connFs c) files" and "codec_laws (connCodec c) (masterKey c)"
    and "plain_elem (optClusterName opts)" and "ValidateWalFileName (optWALName opts) = None"
    and "\<not> HasSuffix (optWALName opts) PartialSuffix"
    and "NewWriter c opts s0 = (Inr w1, s1)" and "writer_session c ops w1 s1 = (True, w2, s2)"
    and "CloseMarkDone c w2 s2 = (None, w3, s3)"
  shows "\<exists>r ds. NewReader c (optClusterName opts) (optWALName opts) s3 = Inr r \<and>
           GetFileLength r = optSegmentSize opts \<and> read_all c r = Inr ds \<and> concat ds = written ops"
proof -
  let ?path = "getWALArchivePath (optClusterName opts) (optWALName opts)"
  let ?h = "MarshalHeader (connCodec c) 1 (optSegmentSize opts)"
  have re: "walFileRE (optWALName opts)"
    using assms(4) by (simp add: ValidateWalFileName_def split: if_splits)
  have final: "TrimPartialSuffix (walFilePath w2) = ?path"
    and same: "dwFile (inner w2) = walFilePath w2"
    using NewWriter_stream(2) [OF assms(1,6) refl] writer_session_frame [OF assms(1,7)]
      partial_path_neq [OF archive_path_not_partial [OF assms(3) re assms(5)]] by auto
  from writer_session_stream [OF assms(1,7)] NewWriter_stream(2) [OF assms(1,6) refl]
  obtain ds bs where ds: "concat ds = written ops" "wraps c ds bs"
    and "dw_stream files (inner w2) s2 = Some (?h @ chunk_bytes (connCodec c) bs)" by blast
  with CloseMarkDone_stream(3) [OF assms(1,8) refl same] final
  have "files s3 ?path = Some (?h @ chunk_bytes (connCodec c) bs)" by simp
  from NewReader_content [OF assms(1,2) this] read_all_chunks [OF assms(2) ds(2)] ds(1)
  show ?thesis by (auto simp: GetFileLength_def)
qed

theorem written_wal_reads_back_witness:
  "\<exists>w1 s1 w2 s2 w3 s3 r ds.
     NewWriter mem_connection example_opts [] = (Inr w1, s1) \<and>
     writer_session mem_connection [OpWrite [1, 2, 3], OpFlush, OpWrite [4]] w1 s1 = (True, w2, s2) \<and>
     CloseMarkDone mem_connection w2 s2 = (None, w3, s3) \<and>
     NewReader mem_connection ''pg'' ''00000001000000000000000A'' s3 = Inr r \<and>
     GetFileLength r = 16777216 \<and> read_all mem_connection r = Inr ds \<and> concat ds = [1, 2, 3, 4]"
proof -
  obtain w1 s1 w2 s2 w3 s3 where run: "NewWriter mem_connection example_opts [] = (Inr w1, s1)"
    "writer_session mem_connection [OpWrite [1, 2, 3], OpFlush, OpWrite [4]] w1 s1 = (True, w2, s2)"
    "CloseMarkDone mem_connection w2 s2 = (None, w3, s3)"
    using example_session by blast
  have "plain_elem (optClusterName example_opts)" "ValidateWalFileName (optWALName example_opts) = None"
    "\<not> HasSuffix (optWALName example_opts) PartialSuffix" by code_simp+
  from written_wal_reads_back [OF _ _ this run, of mem_files] run show ?thesis
    by (fastforce simp: example_opts_def)
qed

text \<open>
  C38: a WAL appears under its final name atomically.  Until CloseMarkDone the final path keeps
  whatever it held, whichever operations of the session succeeded or failed and wherever it stopped;
  a CloseMarkDone that fails does not touch it either, and no other file of the repository changes
  but the partial one.
\<close>

theorem final_name_changes_only_on_mark_done:
  assumes "fs_laws (connFs c) files"
    and "plain_elem (optClusterName opts)" and "ValidateWalFileName (optWALName opts) = None"
    and "\<not> HasSuffix (optWALName opts) PartialSuffix"
    and "NewWriter c opts s0 = (Inr w1, s1)" and "writer_session c ops w1 s1 = (ok, w2, s2)"
    and "CloseMarkDone c w2 s2 = (r, w3, s3)"
  shows "let final = getWALArchivePath (optClusterName opts) (optWALName opts) in
         files s2 final = files s0 final \<and>
         (r \<noteq> None \<longrightarrow> files s3 final = files s0 final) \<and>
         (\<forall>q. q \<noteq> final \<and> q \<noteq> WithPartialSuffix final \<longrightarrow> files s3 q = files s0 q)"
proof -
  let ?path = "getWALArchivePath (optClusterName opts) (optWALName opts)"
  let ?part = "WithPartialSuffix ?path"
  have re: "walFileRE (optWALName opts)"
    using assms(3) by (simp add: ValidateWalFileName_def split: if_splits)
  note neq = partial_path_neq [OF archive_path_not_partial [OF assms(2) re assms(4)]]
  note nw = NewWriter_stream [OF assms(1,5)] and ws = writer_session_frame [OF assms(1,6)]
  have f2: "fs_frame files {?part} s0 s2"
    using nw(1) nw(2) [OF refl] ws by (auto intro: fs_frame_trans)
  have paths: "dwFile (inner w2) = ?part" "walFilePath w2 = ?part"
    using nw(2) [OF refl] ws by auto
  have "r \<noteq> None \<Longrightarrow> fs_frame files {?part} s0 s3"
    using CloseMarkDone_stream(1) [OF assms(1,7)] f2 paths by (auto intro: fs_frame_trans)
  moreover have "fs_frame files {?part, ?path} s0 s3"
    using CloseMarkDone_stream(2) [OF assms(1,7)] f2 paths neq
    by (auto simp: fs_frame_def)
  ultimately show ?thesis using f2 neq by (auto simp: fs_frame_def Let_def)
qed

theorem final_name_changes_only_on_mark_done_witness:
  "\<exists>w1 s1 w2 s2. NewWriter mem_connection example_opts [] = (Inr w1, s1) \<and>
     writer_session mem_connection [OpWrite [1, 2, 3], OpFlush, OpWrite [4]] w1 s1 = (True, w2, s2) \<and>
     mem_files s2 ''pg/0000000100000000/00000001000000000000000A'' = None"
proof -
  obtain w1 s1 w2 s2 w3 s3 where run: "NewWriter mem_connection example_opts [] = (Inr w1, s1)"
    "writer_session mem_connection [OpWrite [1, 2, 3], OpFlush, OpWrite [4]] w1 s1 = (True, w2, s2)"
    "CloseMarkDone mem_connection w2 s2 = (None, w3, s3)"
    using example_session by blast
  have "plain_elem (optClusterName example_opts)" "ValidateWalFileName (optWALName example_opts) = None"
    "\<not> HasSuffix (optWALName example_opts) PartialSuffix" by code_simp+
  from final_name_changes_only_on_mark_done [OF _ this run, of mem_files] run show ?thesis
    by (auto simp: Let_def mem_files_def example_opts_def example_paths)
qed

text \<open>
  C8: retention deletes nothing that is still needed.  Whatever the outcome of
  SetFirstRequiredOnCluster, a file that changed is gone and was, in a WAL subdirectory of that
  cluster, a segment or partial segment whose name precedes the first required WAL; so every
  history file, backup label and WAL from the first required one on is kept as it was.
\<close>

theorem retention_keeps_required_wals:
  assumes "fs_laws (connFs c) files" and "wal_segment_test isWALFile" and "plain_elem cl"
    and "SetFirstRequiredOnCluster isWALFile c cl firstWAL s = (r, s')"
  shows "(\<forall>q. files s' q \<noteq> files s q \<longrightarrow> files s' q = None \<and>
            (\<exists>sub w. q = join_with ''/'' [cl, sub, w] \<and> length sub = walSubdirectoryLength \<and>
               ValidateWalFileName w = None \<and> IsWALSegmentOrPartial isWALFile w \<and> TrimPartialSuffix w < firstWAL)) \<and>
         (\<forall>w. ValidateWalFileName w = None \<and> (IsWALSegmentOrPartial isWALFile w \<longrightarrow> firstWAL \<le> TrimPartialSuffix w) \<longrightarrow>
            files s' (getWALArchivePath cl w) = files s (getWALArchivePath cl w))"
  using assms by (rule first_required_effect)

definition hex24 :: "string \<Rightarrow> bool" where
  "hex24 n \<longleftrightarrow> length n = 24 \<and> list_all is_hex n"

lemma hex24_segment_test [simp]: "wal_segment_test hex24"
  by (simp add: wal_segment_test_def hex24_def)

theorem retention_keeps_required_wals_witness:
  "mem_files (snd (SetFirstRequiredOnCluster hex24 mem_connection ''pg'' ''00000001000000000000000B''
       [(''pg/0000000100000000/00000001000000000000000A'', [1]),
        (''pg/0000000100000000/00000001000000000000000B'', [2])]))
     (getWALArchivePath ''pg'' ''00000001000000000000000B'') = Some [2]"
proof -
  let ?s = "[(''pg/0000000100000000/00000001000000000000000A'', [1]),
        (''pg/0000000100000000/00000001000000000000000B'', [2])] :: memfs"
  have path: "getWALArchivePath ''pg'' ''00000001000000000000000B'' = ''pg/0000000100000000/00000001000000000000000B''"
    by code_simp
  moreover have "ValidateWalFileName ''00000001000000000000000B'' = None" "plain_elem ''pg''"
    "TrimPartialSuffix ''00000001000000000000000B'' = ''00000001000000000000000B''" by code_simp+
  ultimately have "mem_files (snd (SetFirstRequiredOnCluster hex24 mem_connection ''pg'' ''00000001000000000000000B'' ?s))
      ''pg/0000000100000000/00000001000000000000000B'' = mem_files ?s ''pg/0000000100000000/00000001000000000000000B''"
    using retention_keeps_required_wals [of mem_connection mem_files hex24 "''pg''"
      "''00000001000000000000000B''" ?s, OF _ _ _ prod.collapse [symmetric]]
    by (metis hex24_segment_test mem_connection_laws(1) order_refl)
  then show ?thesis using path by (simp add: mem_files_def)
qed

text \<open>
  Retention does remove what is obsolete.  When the file system removes files and lists
  directories without errors, every segment (complete or partial) of the cluster that precedes the
  first required WAL is gone after SetFirstRequiredOnCluster.
\<close>

lemma retention_removes_obsolete_wals:
  assumes "fs_laws (connFs c) files" and "wal_segment_test isWALFile" and "plain_elem cl"
    and "ValidateWalFileName w = None" and "IsWALSegmentOrPartial isWALFile w"
    and "TrimPartialSuffix w < firstWAL" and "walSubdirectoryLength \<le> length firstWAL"
    and "ReadDir (connFs c) cl s = Inr es" and "(take walSubdirectoryLength w, True) \<in> set es"
    and "files s (path_Join [cl, take walSubdirectoryLength w]) = None"
    and "\<And>t. files t (path_Join [cl, take walSubdirectoryLength w]) = None \<Longrightarrow> files t (getWALArchivePath cl w) \<noteq> None \<Longrightarrow>
           \<exists>es. ReadDir (connFs c) (path_Join [cl, take walSubdirectoryLength w]) t = Inr es"
    and "\<And>t. fst (FRemove (connFs c) (getWALArchivePath cl w) t) = None"
  shows "files (snd (SetFirstRequiredOnCluster isWALFile c cl firstWAL s)) (getWALArchivePath cl w) = None"
  using assms by (rule first_required_removes)

text \<open>
  What a reader makes of a file cut inside a block.  A cut at any byte of the block is reported
  as an unexpected end of file, but for one: a file that ends right after the eight bytes of the
  length prefix looks complete, and the reader returns the blocks before it without an error.
\<close>

lemma truncation_detected_except_after_prefix:
  assumes "codec_laws (connCodec c) (masterKey c)" and "wraps c ds bs" and "WrapBlock c d defaultChunkSize = Inr b"
    and "0 < k" and "k < 8 + length b"
    and "rRemaining r = chunk_bytes (connCodec c) bs @ take k (chunk_bytes (connCodec c) [b])"
  shows "if k = 8 then read_all c r = Inr ds
         else \<exists>e. read_all c r = Inl e \<and> errors_Is e ErrUnexpectedEOF \<and> \<not> errors_Is e EOF"
proof -
  let ?r = "r\<lparr>rRemaining := take k (chunk_bytes (connCodec c) [b])\<rparr>"
  from ReadBlock_truncated [OF assms(1) Unwrap_WrapBlock(2) [OF assms(1,3)] assms(4,5), of ?r]
  obtain m where "ReadBlock c ?r = Inl (Wrap m (if k = 8 then EOF else ErrUnexpectedEOF))" by auto
  then have "read_all c ?r = (if k = 8 then Inr [] else Inl (Wrap m ErrUnexpectedEOF))"
    by (subst read_all.simps) (simp only: sum.case errors_Is.simps split: if_split, simp)
  with read_all_tail [OF assms(1,2,6)] show ?thesis by auto
qed

text \<open>
  GetLatestWALFileForCluster returns the greatest file name of the greatest directory: no file of
  that directory is greater, and the answer is empty only when there is nothing to choose from.
\<close>

lemma latest_wal_is_greatest:
  assumes "ReadDir (connFs c) clusterName s = Inr dirs" and "(sub, True) \<in> set dirs"
    and "\<And>d. (d, True) \<in> set dirs \<Longrightarrow> d \<le> sub" and "sub \<noteq> ''''"
    and "ReadDir (connFs c) (path_Join [clusterName, sub]) s = Inr es"
  shows "\<exists>w. GetLatestWALFileForCluster c clusterName s = Inr w \<and>
           (\<forall>n. (n, False) \<in> set es \<longrightarrow> n \<le> w) \<and> (w = '''' \<or> (w, False) \<in> set es)"
proof -
  have "greatest_name (\<lambda>isDir. isDir) dirs = sub"
    using greatest_name_max(1) [of sub True dirs "\<lambda>isDir. isDir"] greatest_name_max(2) [of "\<lambda>isDir. isDir" dirs] assms(2-4)
    by (metis (full_types) antisym list.exhaust Nil_less_Cons not_less)
  with assms have "GetLatestWALFileForCluster c clusterName s = Inr (greatest_name (\<lambda>isDir. \<not> isDir) es)"
    by (simp add: GetLatestWALFileForCluster_def)
  with greatest_name_max(1) [of _ _ es "\<lambda>isDir. \<not> isDir"] greatest_name_max(2) [of "\<lambda>isDir. \<not> isDir" es] show ?thesis by fastforce
qed

end
