(* ===== verification/Repo_Keys.thy ===== *)
theory Repo_Keys
  imports Wal_Repository
begin

text \<open>
  Creating and opening a repository (core/internal/repository): the master key and its envelope
  (encryption.go), the configuration file (config.go, initialize.go) and Open (repository.go).

  PBKDF2, AES-GCM and the JSON encoding of the configuration are not this repository's code: they
  are the fields of \<open>crypto\<close>, and \<open>crypto_laws\<close> states that opening a sealed text with the same key
  and nonce gives it back and that decoding an encoded configuration gives it back.  What
  crypto/rand delivers is an argument of the functions that draw random bytes.  Package hex is
  spelt out.
\<close>

section \<open>Package hex\<close>

definition hex_digit :: "nat \<Rightarrow> char" where
  "hex_digit n = char_of (if n < 10 then 48 + n else 87 + n)"

definition hex_EncodeToString :: "bytes \<Rightarrow> string" where
  "hex_EncodeToString bs = concat (map (\<lambda>b. [hex_digit (unat b div 16), hex_digit (unat b mod 16)]) bs)"

definition fromHexChar :: "char \<Rightarrow> nat option" where
  "fromHexChar c =
     (let v = (of_char c :: nat) in
      if 48 \<le> v \<and> v \<le> 57 then Some (v - 48)
      else if 97 \<le> v \<and> v \<le> 102 then Some (v - 87)
      else if 65 \<le> v \<and> v \<le> 70 then Some (v - 55)
      else None)"

fun hex_DecodeString :: "string \<Rightarrow> go_error + bytes" where
  "hex_DecodeString [] = Inr []"
| "hex_DecodeString [c] = Inl (Sentinel ''encoding/hex: odd length hex string'')"
| "hex_DecodeString (c # d # cs) =
     (case (fromHexChar c, fromHexChar d) of
        (Some a, Some b) \<Rightarrow>
          (case hex_DecodeString cs of
             Inl e \<Rightarrow> Inl e
           | Inr bs \<Rightarrow> Inr (word_of_nat (16 * a + b) # bs))
      | _ \<Rightarrow> Inl (Sentinel ''encoding/hex: invalid byte''))"

section \<open>core/internal/repository/config.go: data\<close>

record KlioRepositoryKey =
  Nonce :: string
  CipherText :: string
  Salt :: string
  Iterations :: nat

record KlioRepositoryConfig =
  Kind :: string
  APIVersion :: string
  Keys :: "KlioRepositoryKey list"

record crypto =
  Pbkdf2Key :: "string \<Rightarrow> bytes \<Rightarrow> nat \<Rightarrow> nat \<Rightarrow> bytes"
  NewCipher :: "bytes \<Rightarrow> go_error option"
  NewGCM :: "bytes \<Rightarrow> go_error option"
  GcmSeal :: "bytes \<Rightarrow> bytes \<Rightarrow> bytes \<Rightarrow> bytes"
  GcmOpen :: "bytes \<Rightarrow> bytes \<Rightarrow> bytes \<Rightarrow> go_error + bytes"
  EncodeConfig :: "KlioRepositoryConfig \<Rightarrow> bytes"
  DecodeConfig :: "bytes \<Rightarrow> go_error + KlioRepositoryConfig"

record randomness =
  masterKeySalt :: "go_error + bytes"
  passwordSalt :: "go_error + bytes"
  nonceBytes :: "go_error + bytes"

section \<open>core/internal/repository/encryption.go\<close>

definition pbkdf2Iterations :: nat where "pbkdf2Iterations = 600000"
definition masterKeyLen :: nat where "masterKeyLen = 32"
definition envelopeEncryptionKeyLen :: nat where "envelopeEncryptionKeyLen = 32"
definition keySaltLen :: nat where "keySaltLen = 128"

definition ErrInvalidSaltFormat :: go_error where
  "ErrInvalidSaltFormat = Sentinel ''invalid key salt format''"
definition ErrInvalidNonceFormat :: go_error where
  "ErrInvalidNonceFormat = Sentinel ''invalid nonce format''"
definition ErrInvalidEncryptedKeyFormat :: go_error where
  "ErrInvalidEncryptedKeyFormat = Sentinel ''invalid encrypted key format''"
definition ErrInvalidPassword :: go_error where
  "ErrInvalidPassword = Sentinel ''invalid password''"

record envelopedMasterKey =
  emkNonce :: bytes
  emkCipherText :: bytes
  emkSalt :: bytes
  emkIterations :: nat

definition createNewMasterKey :: "crypto \<Rightarrow> randomness \<Rightarrow> string \<Rightarrow> go_error + bytes" where
  "createNewMasterKey cr rnd password =
     (case masterKeySalt rnd of
        Inl e \<Rightarrow> Inl (Wrap ''while generating random master key salt'' e)
      | Inr salt \<Rightarrow> Inr (Pbkdf2Key cr password salt pbkdf2Iterations masterKeyLen))"

definition envelopeMasterKey ::
  "crypto \<Rightarrow> randomness \<Rightarrow> bytes \<Rightarrow> string \<Rightarrow> go_error + envelopedMasterKey" where
  "envelopeMasterKey cr rnd key password =
     (case passwordSalt rnd of
        Inl e \<Rightarrow> Inl (Wrap ''while generating random master key salt'' e)
      | Inr salt \<Rightarrow>
          let encryptionKey = Pbkdf2Key cr password salt pbkdf2Iterations envelopeEncryptionKeyLen in
          (case NewCipher cr encryptionKey of
             Some e \<Rightarrow> Inl (Wrap ''while generating encryption block'' e)
           | None \<Rightarrow>
               (case nonceBytes rnd of
                  Inl e \<Rightarrow> Inl (Wrap ''while generating random nonce'' e)
                | Inr nonce \<Rightarrow>
                    (case NewGCM cr encryptionKey of
                       Some e \<Rightarrow> Inl (Panic ''cipher.NewGCM'')
                     | None \<Rightarrow>
                         Inr \<lparr>emkNonce = nonce, emkCipherText = GcmSeal cr encryptionKey nonce key,
                              emkSalt = salt, emkIterations = pbkdf2Iterations\<rparr>))))"

definition key_RecoverMasterKey :: "crypto \<Rightarrow> KlioRepositoryKey \<Rightarrow> string \<Rightarrow> go_error + bytes" where
  "key_RecoverMasterKey cr k password =
     (case hex_DecodeString (Salt k) of
        Inl _ \<Rightarrow> Inl ErrInvalidSaltFormat
      | Inr salt \<Rightarrow>
          (case hex_DecodeString (Nonce k) of
             Inl _ \<Rightarrow> Inl ErrInvalidNonceFormat
           | Inr nonce \<Rightarrow>
               (case hex_DecodeString (CipherText k) of
                  Inl _ \<Rightarrow> Inl ErrInvalidEncryptedKeyFormat
                | Inr cipherText \<Rightarrow>
                    let encryptionKey = Pbkdf2Key cr password salt pbkdf2Iterations masterKeyLen in
                    (case NewCipher cr encryptionKey of
                       Some e \<Rightarrow> Inl (Wrap ''while generating encryption block from recovered key'' e)
                     | None \<Rightarrow>
                         (case NewGCM cr encryptionKey of
                            Some e \<Rightarrow> Inl (Wrap ''while generating encryption block from recovered key'' e)
                          | None \<Rightarrow>
                              (case GcmOpen cr encryptionKey nonce cipherText of
                                 Inl _ \<Rightarrow> Inl ErrInvalidPassword
                               | Inr m \<Rightarrow> Inr m))))))"

text \<open>
  The keys are tried in order, and the errors are joined.  With no key at all the loop does not
  run, and the function returns neither a key nor an error: a nil slice, here \<open>[]\<close>.
\<close>

fun recover_loop :: "crypto \<Rightarrow> string \<Rightarrow> KlioRepositoryKey list \<Rightarrow> go_error option \<Rightarrow> go_error + bytes" where
  "recover_loop cr password [] err = (case err of None \<Rightarrow> Inr [] | Some e \<Rightarrow> Inl e)"
| "recover_loop cr password (k # ks) err =
     (case key_RecoverMasterKey cr k password of
        Inr m \<Rightarrow> Inr m
      | Inl keyErr \<Rightarrow>
          recover_loop cr password ks
            (errors_Join (case err of None \<Rightarrow> [keyErr] | Some e \<Rightarrow> [e, keyErr])))"

definition config_RecoverMasterKey :: "crypto \<Rightarrow> KlioRepositoryConfig \<Rightarrow> string \<Rightarrow> go_error + bytes" where
  "config_RecoverMasterKey cr c password = recover_loop cr password (Keys c) None"

definition createNewRepositoryConfiguration ::
  "crypto \<Rightarrow> randomness \<Rightarrow> string \<Rightarrow> go_error + KlioRepositoryConfig" where
  "createNewRepositoryConfiguration cr rnd password =
     (case createNewMasterKey cr rnd password of
        Inl e \<Rightarrow> Inl e
      | Inr key \<Rightarrow>
          (case envelopeMasterKey cr rnd key password of
             Inl e \<Rightarrow> Inl e
           | Inr ek \<Rightarrow>
               Inr \<lparr>Kind = ''KlioRepositoryConfig'', APIVersion = ''v1'',
                    Keys = [\<lparr>Nonce = hex_EncodeToString (emkNonce ek),
                             CipherText = hex_EncodeToString (emkCipherText ek),
                             Salt = hex_EncodeToString (emkSalt ek),
                             Iterations = emkIterations ek\<rparr>]\<rparr>))"

section \<open>core/internal/repository/initialize.go\<close>

definition repositoryConfigFileName :: string where
  "repositoryConfigFileName = ''repository.config''"

record 'fs Options =
  optFS :: "'fs afero"
  optPassword :: string

text \<open>os.IsNotExist looks at the error itself and not, as errors.Is does, through what it wraps.\<close>

definition os_IsNotExist :: "go_error \<Rightarrow> bool" where
  "os_IsNotExist e \<longleftrightarrow> e = ErrNotExist"

definition FileExists :: "'fs afero \<Rightarrow> string \<Rightarrow> 'fs \<Rightarrow> go_error + bool" where
  "FileExists fs fileName s =
     (case Stat fs fileName s of
        Some e \<Rightarrow> if os_IsNotExist e then Inr False else Inl e
      | None \<Rightarrow> Inr True)"

definition Initialize :: "crypto \<Rightarrow> randomness \<Rightarrow> 'fs Options \<Rightarrow> 'fs \<Rightarrow> go_error option \<times> 'fs" where
  "Initialize cr rnd options s =
     (let fs = optFS options in
      case MkdirAll fs ''.'' s of
        (Some e, s1) \<Rightarrow> (Some (Wrap ''while ensuring that the repository directory exists'' e), s1)
      | (None, s1) \<Rightarrow>
          (case FileExists fs repositoryConfigFileName s1 of
             Inl e \<Rightarrow> (Some (Wrap ''while checking config file existence'' e), s1)
           | Inr True \<Rightarrow> (None, s1)
           | Inr False \<Rightarrow>
               (case createNewRepositoryConfiguration cr rnd (optPassword options) of
                  Inl e \<Rightarrow> (Some (Wrap ''while creating repository configuration'' e), s1)
                | Inr config \<Rightarrow>
                    (case OpenCreate fs repositoryConfigFileName s1 of
                       (Some e, s2) \<Rightarrow> (Some (Wrap ''while creating config file'' e), s2)
                     | (None, s2) \<Rightarrow>
                         (case FWrite fs repositoryConfigFileName (EncodeConfig cr config) s2 of
                            (Some e, s3) \<Rightarrow>
                              (Some (Wrap ''while encoding JSON configuration'' e),
                               snd (FClose fs repositoryConfigFileName s3))
                          | (None, s3) \<Rightarrow> (None, snd (FClose fs repositoryConfigFileName s3)))))))"

section \<open>core/internal/repository/repository.go\<close>

definition Open :: "crypto \<Rightarrow> codec \<Rightarrow> 'fs Options \<Rightarrow> 'fs \<Rightarrow> go_error + 'fs connection" where
  "Open cr cd options s =
     (case OpenRead (optFS options) repositoryConfigFileName s of
        Inl e \<Rightarrow> Inl (Wrap ''while opening configuration file'' e)
      | Inr content \<Rightarrow>
          (case DecodeConfig cr content of
             Inl e \<Rightarrow> Inl (Wrap ''while decoding JSON from configuration file'' e)
           | Inr config \<Rightarrow>
               (case config_RecoverMasterKey cr config (optPassword options) of
                  Inl e \<Rightarrow> Inl (Wrap ''while recovering the master key'' e)
                | Inr key \<Rightarrow> Inr \<lparr>connFs = optFS options, connCodec = cd, masterKey = key\<rparr>)))"

section \<open>What the code relies on\<close>

definition crypto_laws :: "crypto \<Rightarrow> bool" where
  "crypto_laws cr \<longleftrightarrow>
     (\<forall>k n m. GcmOpen cr k n (GcmSeal cr k n m) = Inr m) \<and>
     (\<forall>c. DecodeConfig cr (EncodeConfig cr c) = Inr c)"

section \<open>A concrete instance\<close>

text \<open>
  A toy encryption, and an encoding of the configuration: its strings one after the other, each
  character marked with 1 and each end with 0.
\<close>

definition config_strings :: "KlioRepositoryConfig \<Rightarrow> string list" where
  "config_strings c = Kind c # APIVersion c #
     concat (map (\<lambda>k. [Nonce k, CipherText k, Salt k, replicate (Iterations k) (CHR ''i'')]) (Keys c))"

fun strings_keys :: "string list \<Rightarrow> KlioRepositoryKey list" where
  "strings_keys (n # c # t # i # rest) =
     \<lparr>Nonce = n, CipherText = c, Salt = t, Iterations = length i\<rparr> # strings_keys rest"
| "strings_keys _ = []"

fun strings_config :: "string list \<Rightarrow> go_error + KlioRepositoryConfig" where
  "strings_config (k # a # rest) = Inr \<lparr>Kind = k, APIVersion = a, Keys = strings_keys rest\<rparr>"
| "strings_config _ = Inl ErrUnexpectedEOF"

definition enc_strings :: "string list \<Rightarrow> bytes" where
  "enc_strings ss = concat (map (\<lambda>s. concat (map (\<lambda>c. [1, word_of_nat (of_char c)]) s) @ [0]) ss)"

fun dec_strings :: "string \<Rightarrow> bytes \<Rightarrow> string list" where
  "dec_strings acc [] = []"
| "dec_strings acc [b] = (if b = 0 then [rev acc] else [])"
| "dec_strings acc (b # d # bs) =
     (if b = 0 then rev acc # dec_strings [] (d # bs) else dec_strings (char_of (unat d) # acc) bs)"

definition plain_crypto :: crypto where
  "plain_crypto =
     \<lparr>Pbkdf2Key = (\<lambda>pw salt n len. salt), NewCipher = (\<lambda>k. None), NewGCM = (\<lambda>k. None),
      GcmSeal = (\<lambda>k n m. m), GcmOpen = (\<lambda>k n m. Inr m),
      EncodeConfig = (\<lambda>c. enc_strings (config_strings c)),
      DecodeConfig = (\<lambda>b. strings_config (dec_strings [] b))\<rparr>"

definition example_options :: "memfs Options" where
  "example_options = \<lparr>optFS = connFs mem_connection, optPassword = ''pw''\<rparr>"

definition example_random :: randomness where
  "example_random = \<lparr>masterKeySalt = Inr [7, 8], passwordSalt = Inr [9], nonceBytes = Inr [5]\<rparr>"

section \<open>Lemmas\<close>

lemma fromHexChar_hex_digit: "n < 16 \<Longrightarrow> fromHexChar (hex_digit n) = Some n"
  by (auto simp: fromHexChar_def hex_digit_def of_char_of Let_def)

lemma hex_Decode_Encode [simp]: "hex_DecodeString (hex_EncodeToString bs) = Inr bs"
proof (induction bs)
  case (Cons b bs)
  have "unat b < 256" using unsigned_less [of b, where ?'a = nat] by simp
  then have "fromHexChar (hex_digit (unat b div 16)) = Some (unat b div 16)"
    "fromHexChar (hex_digit (unat b mod 16)) = Some (unat b mod 16)"
    by (simp_all add: fromHexChar_hex_digit)
  moreover have "word_of_nat (16 * (unat b div 16) + unat b mod 16) = b"
    by simp
  ultimately show ?case using Cons.IH by (simp add: hex_EncodeToString_def)
qed (simp add: hex_EncodeToString_def)

lemma recover_created_key:
  assumes "crypto_laws cr" and "createNewRepositoryConfiguration cr rnd password = Inr config"
  obtains salt where "masterKeySalt rnd = Inr salt"
    "config_RecoverMasterKey cr config password = Inr (Pbkdf2Key cr password salt pbkdf2Iterations masterKeyLen)"
  using assms
  by (auto simp: createNewRepositoryConfiguration_def createNewMasterKey_def envelopeMasterKey_def Let_def
      config_RecoverMasterKey_def key_RecoverMasterKey_def crypto_laws_def masterKeyLen_def
      envelopeEncryptionKeyLen_def split: sum.splits option.splits)

lemma Initialize_created:
  assumes "fs_laws (optFS options) files" and "Initialize cr rnd options s = (None, s')"
    and new: "FileExists (optFS options) repositoryConfigFileName (snd (MkdirAll (optFS options) ''.'' s)) = Inr False"
  shows "\<exists>config. files s repositoryConfigFileName = None \<and>
      createNewRepositoryConfiguration cr rnd (optPassword options) = Inr config \<and>
      files s' repositoryConfigFileName = Some (EncodeConfig cr config)"
proof -
  let ?fs = "optFS options" and ?p = repositoryConfigFileName
  obtain r1 s1 where 1: "MkdirAll ?fs ''.'' s = (r1, s1)" by force
  note f1 = fs_lawsD(1) [OF assms(1) 1]
  from assms(2) 1 have r1: "r1 = None" by (cases r1) (auto simp: Initialize_def)
  note new = new [unfolded 1 snd_conv]
  obtain r2 s2 where 2: "OpenCreate ?fs ?p s1 = (r2, s2)" by force
  obtain config where config: "createNewRepositoryConfiguration cr rnd (optPassword options) = Inr config"
    using assms(2) 1 r1 new by (auto simp: Initialize_def Let_def split: sum.splits)
  obtain r3 s3 where 3: "FWrite ?fs ?p (EncodeConfig cr config) s2 = (r3, s3)" by force
  have ok: "r2 = None" "r3 = None" "s' = snd (FClose ?fs ?p s3)"
    using assms(2) 1 2 3 r1 new config by (auto simp: Initialize_def Let_def split: option.splits)
  have none: "files s1 ?p = None"
    using new fs_lawsD(20) [OF assms(1)]
    by (auto simp: FileExists_def os_IsNotExist_def split: option.splits if_splits)
  have "files s3 ?p = Some (EncodeConfig cr config)"
    using fs_lawsD(19) [OF assms(1) 2 [unfolded ok] none] fs_lawsD(5) [OF assms(1) 3 [unfolded ok]] by simp
  moreover have "fs_frame files {} s3 s'"
    using fs_lawsD(7) [OF assms(1), of ?p s3] ok(3) by (cases "FClose ?fs ?p s3") auto
  ultimately show ?thesis using none f1 config by (auto simp: fs_frame_def)
qed

lemma Initialize_steps:
  assumes "fs_laws (optFS options) files" and "Initialize cr rnd options s = (None, s')"
  shows "(\<exists>config. files s repositoryConfigFileName = None \<and>
            createNewRepositoryConfiguration cr rnd (optPassword options) = Inr config \<and>
            files s' repositoryConfigFileName = Some (EncodeConfig cr config)) \<or>
         fs_frame files {} s s'"
proof -
  let ?fs = "optFS options" and ?p = repositoryConfigFileName
  obtain r1 s1 where 1: "MkdirAll ?fs ''.'' s = (r1, s1)" by force
  note f1 = fs_lawsD(1) [OF assms(1) 1]
  from assms(2) 1 have r1: "r1 = None" by (cases r1) (auto simp: Initialize_def)
  show ?thesis
  proof (cases "FileExists ?fs ?p s1 = Inr False")
    case True
    with 1 Initialize_created [OF assms] show ?thesis by simp
  next
    case False
    then have "FileExists ?fs ?p s1 = Inr True \<or> (\<exists>e. FileExists ?fs ?p s1 = Inl e)"
      by (cases "FileExists ?fs ?p s1") auto
    with assms(2) 1 r1 f1 show ?thesis by (auto simp: Initialize_def Let_def)
  qed
qed

lemma created_repository_opens:
  assumes "fs_laws (optFS options) files" and "crypto_laws cr"
    and "createNewRepositoryConfiguration cr rnd (optPassword options) = Inr config"
    and "files s' repositoryConfigFileName = Some (EncodeConfig cr config)"
  shows "\<exists>salt. masterKeySalt rnd = Inr salt \<and>
           Open cr cd options s' = Inr \<lparr>connFs = optFS options, connCodec = cd,
             masterKey = Pbkdf2Key cr (optPassword options) salt pbkdf2Iterations masterKeyLen\<rparr>"
proof -
  obtain salt where "masterKeySalt rnd = Inr salt" "config_RecoverMasterKey cr config (optPassword options) =
      Inr (Pbkdf2Key cr (optPassword options) salt pbkdf2Iterations masterKeyLen)"
    by (rule recover_created_key [OF assms(2,3)])
  with fs_lawsD(12) [OF assms(1,4)] assms(2) show ?thesis
    by (simp add: Open_def crypto_laws_def)
qed

lemma dec_strings_string:
  "dec_strings acc (concat (map (\<lambda>c. [1, word_of_nat (of_char c)]) s) @ 0 # bs) = (rev acc @ s) # dec_strings [] bs"
proof (induction s arbitrary: acc)
  case Nil
  then show ?case by (cases bs) simp_all
next
  case (Cons c s)
  have "char_of (unat (word_of_nat (of_char c) :: byte)) = c"
    by (simp add: unat_of_nat)
  with Cons show ?case by simp
qed

lemma dec_enc_strings: "dec_strings [] (enc_strings ss) = ss"
  by (induction ss) (simp_all add: enc_strings_def dec_strings_string)

lemma strings_keys_config: "strings_keys
    (concat (map (\<lambda>k. [Nonce k, CipherText k, Salt k, replicate (Iterations k) (CHR ''i'')]) ks)) = ks"
  by (induction ks) simp_all

lemma plain_crypto_laws: "crypto_laws plain_crypto"
  by (simp add: crypto_laws_def plain_crypto_def dec_enc_strings)
     (simp add: config_strings_def strings_keys_config)

section \<open>Properties\<close>

text \<open>
  C37: a repository that Initialize created opens with the same password.  The connection holds the
  master key that was drawn at initialization; so the envelope, its hexadecimal encoding and the
  configuration file together lose nothing.
\<close>

theorem initialized_repository_opens:
  assumes "fs_laws (optFS options) files" and "crypto_laws cr"
    and "files s repositoryConfigFileName = None" and "files s' repositoryConfigFileName \<noteq> None"
    and "Initialize cr rnd options s = (None, s')"
  shows "\<exists>salt. masterKeySalt rnd = Inr salt \<and>
           Open cr cd options s' = Inr \<lparr>connFs = optFS options, connCodec = cd,
             masterKey = Pbkdf2Key cr (optPassword options) salt pbkdf2Iterations masterKeyLen\<rparr>"
proof -
  from Initialize_steps [OF assms(1,5)] assms(3,4)
  obtain config where config: "createNewRepositoryConfiguration cr rnd (optPassword options) = Inr config"
    and cfg_file: "files s' repositoryConfigFileName = Some (EncodeConfig cr config)"
    by (auto simp: fs_frame_def)
  from created_repository_opens [OF assms(1,2) this] show ?thesis .
qed

theorem initialized_repository_opens_witness:
  "\<exists>salt. masterKeySalt example_random = Inr salt \<and>
     Open plain_crypto plain_codec example_options (snd (Initialize plain_crypto example_random example_options [])) =
       Inr \<lparr>connFs = mem_afero, connCodec = plain_codec, masterKey = salt\<rparr>"
proof -
  let ?s = "snd (Initialize plain_crypto example_random example_options [])"
  have init: "Initialize plain_crypto example_random example_options [] = (None, ?s)"
    and ex: "mem_files ?s repositoryConfigFileName \<noteq> None"
    by (simp_all add: Initialize_def example_options_def FileExists_def os_IsNotExist_def Let_def example_random_def
        createNewRepositoryConfiguration_def createNewMasterKey_def envelopeMasterKey_def plain_crypto_def mem_files_def)
  have "fs_laws (optFS example_options) mem_files" by (simp add: example_options_def)
  from initialized_repository_opens [OF this plain_crypto_laws _ ex init] show ?thesis
    by (simp add: mem_files_def example_options_def plain_crypto_def mem_connection_def)
qed

text \<open>
  Initialize never replaces the keys of a repository: when the configuration file exists it
  leaves every file as it was.
\<close>

lemma initialize_keeps_existing_keys:
  assumes "fs_laws (optFS options) files" and "files s repositoryConfigFileName \<noteq> None"
    and "Initialize cr rnd options s = (r, s')"
  shows "files s' = files s"
proof -
  obtain r1 s1 where 1: "MkdirAll (optFS options) ''.'' s = (r1, s1)" by force
  note f1 = fs_lawsD(1) [OF assms(1) 1]
  then have "Stat (optFS options) repositoryConfigFileName s1 \<noteq> Some ErrNotExist"
    using fs_lawsD(20) [OF assms(1)] assms(2) unfolding fs_frame_def by (metis empty_iff)
  then have "s' = s1"
    using assms(3) 1
    by (auto simp: Initialize_def Let_def FileExists_def os_IsNotExist_def split: option.splits)
  with f1 show ?thesis by (auto simp: fs_frame_def)
qed

text \<open>
  A configuration whose list of keys is empty opens with any password, and the connection then
  encrypts with an empty master key: RecoverMasterKey returns neither a key nor an error.
\<close>

lemma empty_key_list_opens:
  assumes "OpenRead (optFS options) repositoryConfigFileName s = Inr content"
    and "DecodeConfig cr content = Inr config" and "Keys config = []"
  shows "Open cr cd options s = Inr \<lparr>connFs = optFS options, connCodec = cd, masterKey = []\<rparr>"
  using assms by (simp add: Open_def config_RecoverMasterKey_def)

end
