(* ===== verification/Task_Queue.thy ===== *)
theory Task_Queue
  imports Wal_Names "HOL-Library.Multiset"
begin

text \<open>
  The work queue between the WAL server and the consumers (core/internal/queue): subjects and
  message envelopes, the migration of the legacy stream and the consumer loop (queue.go), the
  dead-letter queue with its listing, retry and purge (manager.go), the WAL tasks (wal.go) and the
  backup tasks (backup.go).

  NATS JetStream and encoding/json are a record of operations, \<open>jetstream\<close>, and of one encoding per
  task type, \<open>task_codec\<close>.  The StreamManager keeps a cache of stream handles; its state is the record
  \<open>manager\<close>, with the state of the server beside the cache.  The answers of a pager, of Fetch and of
  msg.Ack are data the environment supplies.  slices.SortFunc does not promise a stable order, so the
  sorting function is an argument too, with \<open>newest_first\<close> as its contract.
\<close>

section \<open>Messages and the JetStream operations\<close>

type_synonym nats_header = "(string \<times> string list) list"

record nats_msg =
  msgSubject :: string
  msgData :: bytes
  msgHeader :: nats_header

datatype pager_item =
    PagerMsg "go_error + (uint64 \<times> int)" bytes
  | PagerErr go_error bool "go_error option"
  | PagerNil

datatype retention_policy = WorkQueuePolicy | LimitsPolicy

record StreamConfig =
  scName :: string
  scRetention :: retention_policy
  scSubjects :: "string list"
  scMaxMsgsPerSubject :: nat

record ConsumerConfig =
  ccName :: string
  ccMaxAckPending :: nat
  ccMaxDeliver :: nat
  ccBackOff :: "nat list"

record 'n jetstream =
  PublishMsg :: "nats_msg \<Rightarrow> 'n \<Rightarrow> go_error option \<times> 'n"
  LoadStream :: "string \<Rightarrow> 'n \<Rightarrow> go_error option"
  StreamState :: "string \<Rightarrow> 'n \<Rightarrow> go_error + uint64"
  StreamInfo :: "string \<Rightarrow> 'n \<Rightarrow> go_error + uint64 option"
  ReadMessage :: "string \<Rightarrow> uint64 \<Rightarrow> 'n \<Rightarrow> go_error + bytes option"
  ReadLastMessageForSubject :: "string \<Rightarrow> string \<Rightarrow> 'n \<Rightarrow> go_error + bytes option"
  DeleteMessageRequest :: "string \<Rightarrow> uint64 \<Rightarrow> 'n \<Rightarrow> go_error option \<times> 'n"
  PageContents :: "string \<Rightarrow> 'n \<Rightarrow> go_error + pager_item list"
  AdvisoryStreamSeq :: "bytes \<Rightarrow> go_error + uint64"
  CreateOrUpdateStream :: "StreamConfig \<Rightarrow> 'n \<Rightarrow> go_error option \<times> 'n"
  CreateOrUpdateConsumer :: "string \<Rightarrow> ConsumerConfig \<Rightarrow> 'n \<Rightarrow> go_error option \<times> 'n"
  DeleteStream :: "string \<Rightarrow> 'n \<Rightarrow> go_error option \<times> 'n"
  FetchNoWait :: "string \<Rightarrow> int \<Rightarrow> 'n \<Rightarrow> go_error + (string \<times> bytes) list \<times> go_error option"

record 't task_codec =
  taskMarshal :: "'t \<Rightarrow> go_error + bytes"
  taskUnmarshal :: "bytes \<Rightarrow> go_error + 't"

definition JSStreamNotFoundErr :: go_error where
  "JSStreamNotFoundErr = Sentinel ''stream not found (10059)''"
definition JSNoMessageFoundErr :: go_error where
  "JSNoMessageFoundErr = Sentinel ''no message found (10037)''"

section \<open>core/internal/queue/queue.go: names and subjects\<close>

definition klioBackupStreamName :: string where "klioBackupStreamName = ''klio-backup-stream''"
definition klioWalStreamName :: string where "klioWalStreamName = ''klio-wal-stream''"
definition klioLatestUploadedWalStreamName :: string where
  "klioLatestUploadedWalStreamName = ''klio-latest-uploaded-wal-per-cluster-stream''"
definition klioDLQBackupStreamName :: string where "klioDLQBackupStreamName = ''klio-dlq-backup-stream''"
definition klioDLQWalStreamName :: string where "klioDLQWalStreamName = ''klio-dlq-wal-stream''"
definition klioBackupConsumerName :: string where "klioBackupConsumerName = ''klio-backup-consumer''"
definition klioWalConsumerName :: string where "klioWalConsumerName = ''klio-wal-consumer''"
definition legacyKlioStreamName :: string where "legacyKlioStreamName = ''KLIO''"
definition JSAdvisoryConsumerMaxDeliveryExceedPre :: string where
  "JSAdvisoryConsumerMaxDeliveryExceedPre = ''$JS.EVENT.ADVISORY.CONSUMER.MAX_DELIVERIES''"

definition TaskOriginHeaderKey :: string where "TaskOriginHeaderKey = ''Klio-Task-Origin''"
definition TaskOriginDLQRetry :: string where "TaskOriginDLQRetry = ''dlq-retry''"

definition header_Get :: "nats_header \<Rightarrow> string \<Rightarrow> string" where
  "header_Get hs k = (case map_of hs k of Some (v # _) \<Rightarrow> v | _ \<Rightarrow> '''')"

definition isDLQRetry :: "nats_header \<Rightarrow> bool" where
  "isDLQRetry headers \<longleftrightarrow> header_Get headers TaskOriginHeaderKey = TaskOriginDLQRetry"

definition backupSubject :: "string \<Rightarrow> string" where
  "backupSubject clusterName = ''klio.backup.'' @ clusterName"
definition walSubject :: "string \<Rightarrow> string" where
  "walSubject clusterName = ''klio.wal.'' @ clusterName"
definition latestUploadedWalSubject :: "string \<Rightarrow> string" where
  "latestUploadedWalSubject clusterName = ''klio.latest-uploaded-wal.'' @ clusterName"

section \<open>core/internal/queue/wal.go and backup.go: the tasks\<close>

record WALTask =
  wtClusterName :: string
  wtWALName :: string

record CompressionPolicy =
  Algorithm :: string
  MinSize :: int
  MaxSize :: int

record BackupTask =
  btClusterName :: string
  SendToTier2 :: bool
  Tier2CompressionPolicy :: "CompressionPolicy option"

definition WALTask_Cluster :: "WALTask \<Rightarrow> string" where "WALTask_Cluster t = wtClusterName t"
definition BackupTask_Cluster :: "BackupTask \<Rightarrow> string" where "BackupTask_Cluster t = btClusterName t"

section \<open>core/internal/queue/manager.go: the stream manager\<close>

definition errIncompleteDLQListing :: go_error where
  "errIncompleteDLQListing = Sentinel ''incomplete DLQ listing''"
definition errAmbiguousSourceRead :: go_error where
  "errAmbiguousSourceRead = Sentinel ''ambiguous source stream read: no message and no error''"
definition errWALFilterUnsupported :: go_error where
  "errWALFilterUnsupported = Sentinel ''WAL name filtering is only supported for WAL tasks''"
definition errWALFilterRequiresCluster :: go_error where
  "errWALFilterRequiresCluster = Sentinel ''WAL name filtering requires a cluster name''"

record 't FailedTask =
  Sequence :: uint64
  Task :: 't
  Timestamp :: int

record optionConfig =
  cfgCluster :: string
  cfgWals :: "string list"

type_synonym queue_option = "optionConfig \<Rightarrow> optionConfig"

definition WithCluster :: "string \<Rightarrow> queue_option" where
  "WithCluster name = (\<lambda>c. c\<lparr>cfgCluster := name\<rparr>)"
definition WithWALs :: "string list \<Rightarrow> queue_option" where
  "WithWALs wals = (\<lambda>c. c\<lparr>cfgWals := wals\<rparr>)"

definition apply_options :: "queue_option list \<Rightarrow> optionConfig" where
  "apply_options opts = foldl (\<lambda>c opt. opt c) \<lparr>cfgCluster = '''', cfgWals = []\<rparr> opts"

record 'n manager =
  mgrStreams :: "string set"
  natsState :: 'n

definition notifyMessage ::
  "'n jetstream \<Rightarrow> 't task_codec \<Rightarrow> string \<Rightarrow> 't \<Rightarrow> nats_header \<Rightarrow> 'n manager \<Rightarrow> go_error option \<times> 'n manager" where
  "notifyMessage js tc subject task headers m =
     (case taskMarshal tc task of
        Inl e \<Rightarrow> (Some (Wrap ''while marshalling task to JSON'' e), m)
      | Inr rawContent \<Rightarrow>
          (case PublishMsg js \<lparr>msgSubject = subject, msgData = rawContent, msgHeader = headers\<rparr> (natsState m) of
             (Some e, n) \<Rightarrow> (Some (Wrap ''while pushing message to the queue'' e), m\<lparr>natsState := n\<rparr>)
           | (None, n) \<Rightarrow> (None, m\<lparr>natsState := n\<rparr>)))"

definition loadStreamOrNil ::
  "'n jetstream \<Rightarrow> string \<Rightarrow> 'n manager \<Rightarrow> (go_error + string option) \<times> 'n manager" where
  "loadStreamOrNil js name m =
     (if name \<in> mgrStreams m then (Inr (Some name), m)
      else (case LoadStream js name (natsState m) of
              Some e \<Rightarrow> if e = JSStreamNotFoundErr then (Inr None, m)
                        else (Inl (Wrap ''loading stream'' e), m)
            | None \<Rightarrow> (Inr (Some name), m\<lparr>mgrStreams := insert name (mgrStreams m)\<rparr>)))"

definition pendingMsgs :: "'n jetstream \<Rightarrow> string \<Rightarrow> 'n manager \<Rightarrow> (go_error + uint64) \<times> 'n manager" where
  "pendingMsgs js name m =
     (case loadStreamOrNil js name m of
        (Inl e, m') \<Rightarrow> (Inl e, m')
      | (Inr None, m') \<Rightarrow> (Inr 0, m')
      | (Inr (Some stream), m') \<Rightarrow>
          (case StreamInfo js stream (natsState m') of
             Inl e \<Rightarrow> (Inl (Wrap ''while getting stream info'' e), m')
           | Inr None \<Rightarrow> (Inl (Sentinel ''stream info is nil''), m')
           | Inr (Some msgs) \<Rightarrow> (Inr msgs, m')))"

record queue_status =
  PendingBackups :: uint64
  PendingWALs :: uint64

definition GetStatus :: "'n jetstream \<Rightarrow> 'n manager \<Rightarrow> (go_error + queue_status) \<times> 'n manager" where
  "GetStatus js m =
     (case pendingMsgs js klioWalStreamName m of
        (Inl e, m1) \<Rightarrow> (Inl e, m1)
      | (Inr walMsgs, m1) \<Rightarrow>
          (case pendingMsgs js klioBackupStreamName m1 of
             (Inl e, m2) \<Rightarrow> (Inl e, m2)
           | (Inr backupMsgs, m2) \<Rightarrow> (Inr \<lparr>PendingBackups = backupMsgs, PendingWALs = walMsgs\<rparr>, m2)))"

subsection \<open>Listing the dead-letter queue\<close>

record dlqAdvisory =
  dlqSequence :: uint64
  advTimestamp :: int
  sourceSeq :: uint64

fun drain_loop :: "'n jetstream \<Rightarrow> pager_item list \<Rightarrow> dlqAdvisory list \<Rightarrow> go_error + dlqAdvisory list" where
  "drain_loop js [] acc = Inr acc"
| "drain_loop js (PagerNil # rest) acc = Inr acc"
| "drain_loop js (PagerErr e isLast ctxErr # rest) acc =
     (case ctxErr of
        Some ce \<Rightarrow> Inl (Wrap ''while reading DLQ stream'' ce)
      | None \<Rightarrow> if \<not> isLast then Inl (Wrap ''failed to read DLQ stream message'' e) else Inr acc)"
| "drain_loop js (PagerMsg meta data # rest) acc =
     (case meta of
        Inl e \<Rightarrow> Inl (Wrap ''failed to parse DLQ stream message metadata'' e)
      | Inr (seq, ts) \<Rightarrow>
          (case AdvisoryStreamSeq js data of
             Inl e \<Rightarrow> Inl (Wrap ''failed to unmarshal DLQ stream message data'' e)
           | Inr src \<Rightarrow>
               drain_loop js rest (acc @ [\<lparr>dlqSequence = seq, advTimestamp = ts, sourceSeq = src\<rparr>])))"

definition drainDLQPager :: "'n jetstream \<Rightarrow> pager_item list \<Rightarrow> uint64 \<Rightarrow> go_error + dlqAdvisory list" where
  "drainDLQPager js pgr expected =
     (case drain_loop js pgr [] of
        Inl e \<Rightarrow> Inl e
      | Inr advisories \<Rightarrow>
          if (of_nat (length advisories) :: uint64) < expected then Inl (Wrap ''short read'' errIncompleteDLQListing)
          else Inr advisories)"

fun resolve_loop ::
  "'t task_codec \<Rightarrow> ('t \<Rightarrow> string) \<Rightarrow> (uint64 \<Rightarrow> go_error + bytes option) \<Rightarrow> optionConfig \<Rightarrow>
   dlqAdvisory list \<Rightarrow> 't FailedTask list \<Rightarrow> go_error + 't FailedTask list" where
  "resolve_loop tc cluster readMessage cfg [] tasks = Inr tasks"
| "resolve_loop tc cluster readMessage cfg (adv # advs) tasks =
     (case readMessage (sourceSeq adv) of
        Inl e \<Rightarrow> if e = JSNoMessageFoundErr then resolve_loop tc cluster readMessage cfg advs tasks
                 else Inl (Wrap ''failed to read original stream message'' e)
      | Inr None \<Rightarrow> Inl (Wrap ''streamSeq'' errAmbiguousSourceRead)
      | Inr (Some data) \<Rightarrow>
          (case taskUnmarshal tc data of
             Inl e \<Rightarrow> Inl (Wrap ''failed to unmarshal original stream message data'' e)
           | Inr task \<Rightarrow>
               if cfgCluster cfg \<noteq> '''' \<and> cluster task \<noteq> cfgCluster cfg
               then resolve_loop tc cluster readMessage cfg advs tasks
               else resolve_loop tc cluster readMessage cfg advs
                      (tasks @ [\<lparr>Sequence = dlqSequence adv, Task = task, Timestamp = advTimestamp adv\<rparr>])))"

definition listPager ::
  "'n jetstream \<Rightarrow> 't task_codec \<Rightarrow> ('t \<Rightarrow> string) \<Rightarrow> ('t FailedTask list \<Rightarrow> 't FailedTask list) \<Rightarrow>
   pager_item list \<Rightarrow> (uint64 \<Rightarrow> go_error + bytes option) \<Rightarrow> uint64 \<Rightarrow> optionConfig \<Rightarrow> go_error + 't FailedTask list" where
  "listPager js tc cluster srt pgr readMessage expected cfg =
     (case drainDLQPager js pgr expected of
        Inl e \<Rightarrow> Inl e
      | Inr advisories \<Rightarrow>
          (case resolve_loop tc cluster readMessage cfg advisories [] of
             Inl e \<Rightarrow> Inl e
           | Inr tasks \<Rightarrow> Inr (srt tasks)))"

definition listFailedTasks ::
  "'n jetstream \<Rightarrow> 't task_codec \<Rightarrow> ('t \<Rightarrow> string) \<Rightarrow> ('t FailedTask list \<Rightarrow> 't FailedTask list) \<Rightarrow>
   string \<Rightarrow> string \<Rightarrow> queue_option list \<Rightarrow> 'n \<Rightarrow> go_error + 't FailedTask list" where
  "listFailedTasks js tc cluster srt dlqStream taskStream opts n =
     (let cfg = apply_options opts in
      case StreamState js dlqStream n of
        Inl e \<Rightarrow> Inl (Wrap ''while getting DLQ stream state'' e)
      | Inr msgs \<Rightarrow>
          (case PageContents js dlqStream n of
             Inl e \<Rightarrow> Inl e
           | Inr pgr \<Rightarrow> listPager js tc cluster srt pgr (\<lambda>seq. ReadMessage js taskStream seq n) msgs cfg))"

definition ListFailedWALTasks ::
  "'n jetstream \<Rightarrow> WALTask task_codec \<Rightarrow> (WALTask FailedTask list \<Rightarrow> WALTask FailedTask list) \<Rightarrow>
   queue_option list \<Rightarrow> 'n manager \<Rightarrow> (go_error + WALTask FailedTask list) \<times> 'n manager" where
  "ListFailedWALTasks js tc srt opts m =
     (let cfg = apply_options opts in
      if cfgWals cfg \<noteq> [] \<and> cfgCluster cfg = '''' then (Inl errWALFilterRequiresCluster, m)
      else (case loadStreamOrNil js klioWalStreamName m of
              (Inl e, m1) \<Rightarrow> (Inl e, m1)
            | (Inr walStream, m1) \<Rightarrow>
                (case loadStreamOrNil js klioDLQWalStreamName m1 of
                   (Inl e, m2) \<Rightarrow> (Inl e, m2)
                 | (Inr dlqWALStream, m2) \<Rightarrow>
                     (case (walStream, dlqWALStream) of
                        (Some ws, Some ds) \<Rightarrow>
                          (case listFailedTasks js tc WALTask_Cluster srt ds ws opts (natsState m2) of
                             Inl e \<Rightarrow> (Inl e, m2)
                           | Inr tasks \<Rightarrow>
                               (Inr (if cfgWals cfg \<noteq> []
                                     then filter (\<lambda>t. wtWALName (Task t) \<in> set (cfgWals cfg)) tasks else tasks), m2))
                      | _ \<Rightarrow> (Inr [], m2)))))"

definition ListFailedBackupTasks ::
  "'n jetstream \<Rightarrow> BackupTask task_codec \<Rightarrow> (BackupTask FailedTask list \<Rightarrow> BackupTask FailedTask list) \<Rightarrow>
   queue_option list \<Rightarrow> 'n manager \<Rightarrow> (go_error + BackupTask FailedTask list) \<times> 'n manager" where
  "ListFailedBackupTasks js tc srt opts m =
     (let cfg = apply_options opts in
      if cfgWals cfg \<noteq> [] then (Inl errWALFilterUnsupported, m)
      else (case loadStreamOrNil js klioBackupStreamName m of
              (Inl e, m1) \<Rightarrow> (Inl e, m1)
            | (Inr backupStream, m1) \<Rightarrow>
                (case loadStreamOrNil js klioDLQBackupStreamName m1 of
                   (Inl e, m2) \<Rightarrow> (Inl e, m2)
                 | (Inr dlqBackupStream, m2) \<Rightarrow>
                     (case (backupStream, dlqBackupStream) of
                        (Some bs, Some ds) \<Rightarrow>
                          (listFailedTasks js tc BackupTask_Cluster srt ds bs opts (natsState m2), m2)
                      | _ \<Rightarrow> (Inr [], m2)))))"

subsection \<open>Purging the dead-letter queue\<close>

definition purgeDLQEntryBySequence ::
  "'n jetstream \<Rightarrow> string \<Rightarrow> string \<Rightarrow> uint64 \<Rightarrow> 'n \<Rightarrow> go_error option \<times> 'n" where
  "purgeDLQEntryBySequence js dlqStream sourceStream dlqSeq n =
     (case ReadMessage js dlqStream dlqSeq n of
        Inl e \<Rightarrow> if e = JSNoMessageFoundErr then (None, n)
                 else (Some (Wrap ''while fetching dead-letter queue entry'' e), n)
      | Inr None \<Rightarrow> (Some (Wrap ''while fetching dead-letter queue entry'' errAmbiguousSourceRead), n)
      | Inr (Some data) \<Rightarrow>
          (case AdvisoryStreamSeq js data of
             Inl e \<Rightarrow> (Some (Wrap ''while unmarshalling dead-letter queue advisory'' e), n)
           | Inr streamSeq \<Rightarrow>
               let (r, n1) =
                 (case ReadMessage js sourceStream streamSeq n of
                    Inl e \<Rightarrow> if e = JSNoMessageFoundErr then (None, n)
                             else (Some (Wrap ''while checking original message'' e), n)
                  | Inr _ \<Rightarrow>
                      (case DeleteMessageRequest js sourceStream streamSeq n of
                         (Some e, n') \<Rightarrow> (Some (Wrap ''while releasing original message'' e), n')
                       | (None, n') \<Rightarrow> (None, n')))
               in case r of
                    Some e \<Rightarrow> (Some e, n1)
                  | None \<Rightarrow>
                      (case DeleteMessageRequest js dlqStream dlqSeq n1 of
                         (Some e, n2) \<Rightarrow> (Some (Wrap ''while deleting dead-letter queue entry'' e), n2)
                       | (None, n2) \<Rightarrow> (None, n2))))"

fun purge_loop ::
  "'n jetstream \<Rightarrow> string \<Rightarrow> string \<Rightarrow> 't FailedTask list \<Rightarrow> uint64 \<Rightarrow> go_error list \<Rightarrow> 'n \<Rightarrow>
   uint64 \<times> go_error list \<times> 'n" where
  "purge_loop js dlq src [] purged errs n = (purged, errs, n)"
| "purge_loop js dlq src (t # ts) purged errs n =
     (case purgeDLQEntryBySequence js dlq src (Sequence t) n of
        (Some e, n') \<Rightarrow> purge_loop js dlq src ts purged (errs @ [e]) n'
      | (None, n') \<Rightarrow> purge_loop js dlq src ts (purged + 1) errs n')"

definition purgeDLQEntries ::
  "'n jetstream \<Rightarrow> string \<Rightarrow> string \<Rightarrow> 't FailedTask list \<Rightarrow> 'n manager \<Rightarrow>
   (uint64 \<times> go_error option) \<times> 'n manager" where
  "purgeDLQEntries js dlqName sourceName failed m =
     (if failed = [] then ((0, None), m)
      else (case loadStreamOrNil js dlqName m of
              (Inl e, m1) \<Rightarrow> ((0, Some e), m1)
            | (Inr dlqStream, m1) \<Rightarrow>
                (case loadStreamOrNil js sourceName m1 of
                   (Inl e, m2) \<Rightarrow> ((0, Some e), m2)
                 | (Inr sourceStream, m2) \<Rightarrow>
                     (case (dlqStream, sourceStream) of
                        (Some ds, Some ss) \<Rightarrow>
                          let (purged, errs, n) = purge_loop js ds ss failed 0 [] (natsState m2)
                          in ((purged, case errors_Join errs of
                                         None \<Rightarrow> None
                                       | Some e \<Rightarrow> Some (Wrap ''the rest could not be removed'' e)),
                              m2\<lparr>natsState := n\<rparr>)
                      | _ \<Rightarrow> ((0, None), m2)))))"

definition DiscardFailedWALTasks ::
  "'n jetstream \<Rightarrow> WALTask task_codec \<Rightarrow> (WALTask FailedTask list \<Rightarrow> WALTask FailedTask list) \<Rightarrow>
   queue_option list \<Rightarrow> 'n manager \<Rightarrow> (uint64 \<times> go_error option) \<times> 'n manager" where
  "DiscardFailedWALTasks js tc srt opts m =
     (case ListFailedWALTasks js tc srt opts m of
        (Inl e, m1) \<Rightarrow> ((0, Some (Wrap ''while listing failed WAL tasks'' e)), m1)
      | (Inr failed, m1) \<Rightarrow> purgeDLQEntries js klioDLQWalStreamName klioWalStreamName failed m1)"

definition DiscardFailedBackupTasks ::
  "'n jetstream \<Rightarrow> BackupTask task_codec \<Rightarrow> (BackupTask FailedTask list \<Rightarrow> BackupTask FailedTask list) \<Rightarrow>
   queue_option list \<Rightarrow> 'n manager \<Rightarrow> (uint64 \<times> go_error option) \<times> 'n manager" where
  "DiscardFailedBackupTasks js tc srt opts m =
     (case ListFailedBackupTasks js tc srt opts m of
        (Inl e, m1) \<Rightarrow> ((0, Some (Wrap ''while listing failed backup tasks'' e)), m1)
      | (Inr failed, m1) \<Rightarrow> purgeDLQEntries js klioDLQBackupStreamName klioBackupStreamName failed m1)"

definition purgeWALDLQEntries where
  "purgeWALDLQEntries js tc srt clusterName walName m =
     (let (r, m') = DiscardFailedWALTasks js tc srt [WithCluster clusterName, WithWALs [walName]] m
      in (snd r, m'))"

definition purgeBackupDLQEntries where
  "purgeBackupDLQEntries js tc srt clusterName m =
     (let (r, m') = DiscardFailedBackupTasks js tc srt [WithCluster clusterName] m in (snd r, m'))"

subsection \<open>Retrying failed tasks\<close>

definition retry_header :: nats_header where
  "retry_header = [(TaskOriginHeaderKey, [TaskOriginDLQRetry])]"

fun enqueue_wal_loop ::
  "'n jetstream \<Rightarrow> WALTask task_codec \<Rightarrow> WALTask FailedTask list \<Rightarrow> WALTask set \<Rightarrow> 'n manager \<Rightarrow>
   go_error option \<times> 'n manager" where
  "enqueue_wal_loop js tc [] attempted m = (None, m)"
| "enqueue_wal_loop js tc (t # ts) attempted m =
     (if Task t \<in> attempted then enqueue_wal_loop js tc ts attempted m
      else (case notifyMessage js tc (walSubject (WALTask_Cluster (Task t))) (Task t) retry_header m of
              (Some e, m') \<Rightarrow> (Some (Wrap ''while retrying failed WAL task'' e), m')
            | (None, m') \<Rightarrow> enqueue_wal_loop js tc ts (insert (Task t) attempted) m'))"

definition enqueueWALTasks where
  "enqueueWALTasks js tc tasks m = enqueue_wal_loop js tc tasks {} m"

definition mergePolicyField :: "'p option \<Rightarrow> bool \<Rightarrow> 'p option \<Rightarrow> 'p option \<times> bool" where
  "mergePolicyField current conflict candidate =
     (if conflict \<or> candidate = None then (current, conflict)
      else if current = None then (candidate, False)
      else if current \<noteq> candidate then (None, True)
      else (current, False))"

text \<open>The fold over the tasks of one cluster; tasks[0] panics on an empty list.\<close>

fun merge_loop :: "BackupTask list \<Rightarrow> BackupTask \<Rightarrow> bool \<Rightarrow> BackupTask" where
  "merge_loop [] merged conflict = merged"
| "merge_loop (t # ts) merged conflict =
     (let (p, c) = mergePolicyField (Tier2CompressionPolicy merged) conflict (Tier2CompressionPolicy t)
      in merge_loop ts (merged\<lparr>SendToTier2 := SendToTier2 merged \<or> SendToTier2 t, Tier2CompressionPolicy := p\<rparr>) c)"

definition mergeBackupTasks :: "BackupTask list \<Rightarrow> go_error + BackupTask" where
  "mergeBackupTasks tasks =
     (case tasks of
        [] \<Rightarrow> Inl (Panic ''index out of range'')
      | t # _ \<Rightarrow> Inr (merge_loop tasks
                        \<lparr>btClusterName = btClusterName t, SendToTier2 = False, Tier2CompressionPolicy = None\<rparr> False))"

fun group_loop ::
  "BackupTask FailedTask list \<Rightarrow> string list \<Rightarrow> (string \<rightharpoonup> BackupTask list) \<Rightarrow> string list \<times> (string \<rightharpoonup> BackupTask list)" where
  "group_loop [] clusters pending = (clusters, pending)"
| "group_loop (t # ts) clusters pending =
     (let c = btClusterName (Task t);
          clusters' = (if pending c = None then clusters @ [c] else clusters);
          old = (case pending c of None \<Rightarrow> [] | Some xs \<Rightarrow> xs)
      in group_loop ts clusters' (pending(c \<mapsto> old @ [Task t])))"

fun enqueue_backup_loop ::
  "'n jetstream \<Rightarrow> BackupTask task_codec \<Rightarrow> (string \<rightharpoonup> BackupTask list) \<Rightarrow> string list \<Rightarrow> 'n manager \<Rightarrow>
   go_error option \<times> 'n manager" where
  "enqueue_backup_loop js tc pending [] m = (None, m)"
| "enqueue_backup_loop js tc pending (c # cs) m =
     (case mergeBackupTasks (case pending c of None \<Rightarrow> [] | Some xs \<Rightarrow> xs) of
        Inl e \<Rightarrow> (Some e, m)
      | Inr merged \<Rightarrow>
          (case notifyMessage js tc (backupSubject c) merged retry_header m of
             (Some e, m') \<Rightarrow> (Some (Wrap ''while retrying failed backup task'' e), m')
           | (None, m') \<Rightarrow> enqueue_backup_loop js tc pending cs m'))"

definition enqueueBackupTasks where
  "enqueueBackupTasks js tc tasks m =
     (let (clusters, pending) = group_loop tasks [] (\<lambda>_. None) in enqueue_backup_loop js tc pending clusters m)"

definition RetryFailedWALTasks where
  "RetryFailedWALTasks js tc srt opts m =
     (case ListFailedWALTasks js tc srt opts m of
        (Inl e, m1) \<Rightarrow> (Some (Wrap ''while listing failed WAL tasks'' e), m1)
      | (Inr failedTasks, m1) \<Rightarrow> enqueueWALTasks js tc failedTasks m1)"

definition RetryFailedBackupTasks where
  "RetryFailedBackupTasks js tc srt opts m =
     (case ListFailedBackupTasks js tc srt opts m of
        (Inl e, m1) \<Rightarrow> (Some (Wrap ''while listing failed backup tasks'' e), m1)
      | (Inr failedTasks, m1) \<Rightarrow> enqueueBackupTasks js tc failedTasks m1)"

section \<open>core/internal/queue/queue.go: configuration and migration\<close>

definition stream_configs :: "StreamConfig list" where
  "stream_configs =
     [\<lparr>scName = klioWalStreamName, scRetention = WorkQueuePolicy, scSubjects = [walSubject ''*''],
       scMaxMsgsPerSubject = 0\<rparr>,
      \<lparr>scName = klioDLQWalStreamName, scRetention = LimitsPolicy,
       scSubjects = [join_with ''.'' [JSAdvisoryConsumerMaxDeliveryExceedPre, klioWalStreamName, klioWalConsumerName]],
       scMaxMsgsPerSubject = 0\<rparr>,
      \<lparr>scName = klioLatestUploadedWalStreamName, scRetention = LimitsPolicy,
       scSubjects = [latestUploadedWalSubject ''*''], scMaxMsgsPerSubject = 1\<rparr>,
      \<lparr>scName = klioBackupStreamName, scRetention = WorkQueuePolicy, scSubjects = [backupSubject ''*''],
       scMaxMsgsPerSubject = 0\<rparr>,
      \<lparr>scName = klioDLQBackupStreamName, scRetention = LimitsPolicy,
       scSubjects = [join_with ''.'' [JSAdvisoryConsumerMaxDeliveryExceedPre, klioBackupStreamName, klioBackupConsumerName]],
       scMaxMsgsPerSubject = 0\<rparr>]"

fun configure_streams_loop :: "'n jetstream \<Rightarrow> StreamConfig list \<Rightarrow> 'n \<Rightarrow> go_error option \<times> 'n" where
  "configure_streams_loop js [] n = (None, n)"
| "configure_streams_loop js (cfg # cfgs) n =
     (case CreateOrUpdateStream js cfg n of
        (Some e, n') \<Rightarrow> (Some (Wrap ''while creating or updating JetStream stream'' e), n')
      | (None, n') \<Rightarrow> configure_streams_loop js cfgs n')"

definition configureStreams :: "'n jetstream \<Rightarrow> 'n \<Rightarrow> go_error option \<times> 'n" where
  "configureStreams js n = configure_streams_loop js stream_configs n"

text \<open>Durations in seconds.\<close>

definition configureConsumers :: "'n jetstream \<Rightarrow> 'n \<Rightarrow> go_error option \<times> 'n" where
  "configureConsumers js n =
     (case CreateOrUpdateConsumer js klioWalStreamName
             \<lparr>ccName = klioWalConsumerName, ccMaxAckPending = 1, ccMaxDeliver = 10,
              ccBackOff = [30, 60, 120, 300]\<rparr> n of
        (Some e, n1) \<Rightarrow> (Some (Wrap ''while creating or updating JetStream WAL consumer'' e), n1)
      | (None, n1) \<Rightarrow>
          (case CreateOrUpdateConsumer js klioBackupStreamName
                  \<lparr>ccName = klioBackupConsumerName, ccMaxAckPending = 1, ccMaxDeliver = 5,
                   ccBackOff = [300, 600, 1800, 3600]\<rparr> n1 of
             (Some e, n2) \<Rightarrow> (Some (Wrap ''while creating or updating JetStream Base consumer'' e), n2)
           | (None, n2) \<Rightarrow> (None, n2)))"

type_synonym legacyMessage = "string \<times> bytes"

definition readLegacyMessages ::
  "'n jetstream \<Rightarrow> uint64 \<Rightarrow> 'n \<Rightarrow> (go_error + legacyMessage list) \<times> 'n" where
  "readLegacyMessages js numMsgs n =
     (case CreateOrUpdateConsumer js legacyKlioStreamName
             \<lparr>ccName = '''', ccMaxAckPending = 0, ccMaxDeliver = 0, ccBackOff = []\<rparr> n of
        (Some e, n1) \<Rightarrow> (Inl (Wrap ''while creating ephemeral consumer'' e), n1)
      | (None, n1) \<Rightarrow>
          if 2 ^ 63 \<le> unat numMsgs then (Inl (Wrap ''while converting message count'' (Sentinel ''out of range'')), n1)
          else (case FetchNoWait js legacyKlioStreamName (uint numMsgs) n1 of
                  Inl e \<Rightarrow> (Inl (Wrap ''while fetching legacy messages'' e), n1)
                | Inr (msgs, batchErr) \<Rightarrow>
                    (case batchErr of
                       Some e \<Rightarrow> if errors_Is e (Sentinel ''context deadline exceeded'') then (Inr msgs, n1)
                                 else (Inl (Wrap ''while iterating legacy messages'' e), n1)
                     | None \<Rightarrow> (Inr msgs, n1))))"

definition drainLegacyStream :: "'n jetstream \<Rightarrow> 'n \<Rightarrow> (go_error + legacyMessage list) \<times> 'n" where
  "drainLegacyStream js n =
     (case LoadStream js legacyKlioStreamName n of
        Some e \<Rightarrow> if errors_Is e JSStreamNotFoundErr then (Inr [], n)
                  else (Inl (Wrap ''while looking up legacy KLIO stream'' e), n)
      | None \<Rightarrow>
          (case StreamState js legacyKlioStreamName n of
             Inl e \<Rightarrow> (Inl (Wrap ''while getting legacy KLIO stream info'' e), n)
           | Inr msgs \<Rightarrow>
               (case (if 0 < msgs then readLegacyMessages js msgs n else (Inr [], n)) of
                  (Inl e, n1) \<Rightarrow> (Inl (Wrap ''while reading legacy KLIO stream'' e), n1)
                | (Inr pending, n1) \<Rightarrow>
                    (case DeleteStream js legacyKlioStreamName n1 of
                       (Some e, n2) \<Rightarrow> (Inl (Wrap ''while deleting legacy KLIO stream'' e), n2)
                     | (None, n2) \<Rightarrow> (Inr pending, n2)))))"

definition translateLegacySubject :: "string \<Rightarrow> go_error + string" where
  "translateLegacySubject subject =
     (let parts = split_on (CHR ''.'') subject in
      if length parts \<noteq> 3 \<or> parts ! 0 \<noteq> ''klio'' then Inl (Sentinel ''unrecognized legacy subject'')
      else if parts ! 2 = ''wal'' then Inr (walSubject (parts ! 1))
      else if parts ! 2 = ''backup'' then Inr (backupSubject (parts ! 1))
      else Inl (Sentinel ''unrecognized legacy subject kind''))"

fun republishLegacyMessages :: "'n jetstream \<Rightarrow> legacyMessage list \<Rightarrow> 'n \<Rightarrow> go_error option \<times> 'n" where
  "republishLegacyMessages js [] n = (None, n)"
| "republishLegacyMessages js ((subject, data) # pending) n =
     (case translateLegacySubject subject of
        Inl e \<Rightarrow> republishLegacyMessages js pending n
      | Inr newSubject \<Rightarrow>
          (case PublishMsg js \<lparr>msgSubject = newSubject, msgData = data, msgHeader = []\<rparr> n of
             (Some e, n') \<Rightarrow> (Some (Wrap ''while republishing legacy message'' e), n')
           | (None, n') \<Rightarrow> republishLegacyMessages js pending n'))"

definition queue_New :: "'n jetstream \<Rightarrow> go_error option \<Rightarrow> 'n \<Rightarrow> (go_error + 'n manager) \<times> 'n" where
  "queue_New js connErr n =
     (case connErr of
        Some e \<Rightarrow> (Inl (Wrap ''while creating stream manager'' e), n)
      | None \<Rightarrow>
          (case drainLegacyStream js n of
             (Inl e, n1) \<Rightarrow> (Inl e, n1)
           | (Inr pending, n1) \<Rightarrow>
               (case configureStreams js n1 of
                  (Some e, n2) \<Rightarrow> (Inl e, n2)
                | (None, n2) \<Rightarrow>
                    (case configureConsumers js n2 of
                       (Some e, n3) \<Rightarrow> (Inl e, n3)
                     | (None, n3) \<Rightarrow>
                         (case republishLegacyMessages js pending n3 of
                            (Some e, n4) \<Rightarrow> (Inl e, n4)
                          | (None, n4) \<Rightarrow> (Inr \<lparr>mgrStreams = {}, natsState = n4\<rparr>, n4))))))"

section \<open>core/internal/queue/queue.go: consuming messages\<close>

text \<open>
  What happens to one delivered message.  \<open>Terminated\<close> and \<open>Acked\<close> remove it from the work queue;
  \<open>LeftPending\<close> leaves it to the redelivery schedule of the server.  The answers of Term and Ack
  come with the message.
\<close>

record queue_message =
  qmData :: bytes
  qmMetadata :: "go_error + nat"
  qmHeaders :: nats_header
  qmTermErr :: "go_error option"
  qmAckErr :: "go_error option"

datatype disposition = Terminated | Acked | LeftPending

definition internalConsumer ::
  "'t task_codec \<Rightarrow> ('t \<Rightarrow> nats_header \<Rightarrow> 's \<Rightarrow> go_error option \<times> 's) \<Rightarrow> queue_message \<Rightarrow> 's \<Rightarrow> disposition \<times> 's" where
  "internalConsumer tc handler msg s =
     (case taskUnmarshal tc (qmData msg) of
        Inl e \<Rightarrow> (if qmTermErr msg = None then Terminated else LeftPending, s)
      | Inr task \<Rightarrow>
          (case qmMetadata msg of
             Inl e \<Rightarrow> (if qmTermErr msg = None then Terminated else LeftPending, s)
           | Inr numDelivered \<Rightarrow>
               (case handler task (qmHeaders msg) s of
                  (Some e, s') \<Rightarrow> (LeftPending, s')
                | (None, s') \<Rightarrow> (if qmAckErr msg = None then Acked else LeftPending, s'))))"

definition NotifyWALReceived where
  "NotifyWALReceived js tc task m = notifyMessage js tc (walSubject (wtClusterName task)) task [] m"

definition NotifyBackupReceived where
  "NotifyBackupReceived js tc task m = notifyMessage js tc (backupSubject (btClusterName task)) task [] m"

text \<open>The handler of ConsumeWALReceivedMessages around the one of the consumer.\<close>

definition wal_wrapped ::
  "(string \<Rightarrow> bool) \<Rightarrow> 'n jetstream \<Rightarrow> WALTask task_codec \<Rightarrow> (WALTask FailedTask list \<Rightarrow> WALTask FailedTask list) \<Rightarrow>
   (WALTask \<Rightarrow> 's \<Rightarrow> go_error option \<times> 's) \<Rightarrow> WALTask \<Rightarrow> nats_header \<Rightarrow> 's \<times> 'n manager \<Rightarrow>
   go_error option \<times> ('s \<times> 'n manager)" where
  "wal_wrapped isWALFile js tc srt handler t headers st =
     (let (s, m) = st in
      case handler t s of
        (Some e, s') \<Rightarrow> (Some e, (s', m))
      | (None, s') \<Rightarrow>
          let m1 = (if isDLQRetry headers
                    then snd (purgeWALDLQEntries js tc srt (wtClusterName t) (wtWALName t) m) else m)
          in if \<not> IsWALSegmentOrPartial isWALFile (wtWALName t) then (None, (s', m1))
             else (None, (s', snd (notifyMessage js tc (latestUploadedWalSubject (wtClusterName t)) t [] m1))))"

definition ConsumeWALReceivedMessages where
  "ConsumeWALReceivedMessages isWALFile js tc srt handler msg st =
     internalConsumer tc (wal_wrapped isWALFile js tc srt handler) msg st"

definition backup_wrapped ::
  "'n jetstream \<Rightarrow> BackupTask task_codec \<Rightarrow> (BackupTask FailedTask list \<Rightarrow> BackupTask FailedTask list) \<Rightarrow>
   (BackupTask \<Rightarrow> 's \<Rightarrow> go_error option \<times> 's) \<Rightarrow> BackupTask \<Rightarrow> nats_header \<Rightarrow> 's \<times> 'n manager \<Rightarrow>
   go_error option \<times> ('s \<times> 'n manager)" where
  "backup_wrapped js tc srt handler t headers st =
     (let (s, m) = st in
      case handler t s of
        (Some e, s') \<Rightarrow> (Some e, (s', m))
      | (None, s') \<Rightarrow> (None, (s', snd (purgeBackupDLQEntries js tc srt (btClusterName t) m))))"

definition ConsumeBackupReceivedMessages where
  "ConsumeBackupReceivedMessages js tc srt handler msg st =
     internalConsumer tc (backup_wrapped js tc srt handler) msg st"

definition GetLatestUploadedWAL ::
  "'n jetstream \<Rightarrow> WALTask task_codec \<Rightarrow> string \<Rightarrow> 'n manager \<Rightarrow> (go_error + string) \<times> 'n manager" where
  "GetLatestUploadedWAL js tc clusterName m =
     (case loadStreamOrNil js klioLatestUploadedWalStreamName m of
        (Inl e, m') \<Rightarrow> (Inl e, m')
      | (Inr None, m') \<Rightarrow> (Inr '''', m')
      | (Inr (Some stream), m') \<Rightarrow>
          (case ReadLastMessageForSubject js stream (latestUploadedWalSubject clusterName) (natsState m') of
             Inl e \<Rightarrow> if e = JSNoMessageFoundErr then (Inr '''', m')
                      else (Inl (Wrap ''while fetching latest uploaded WAL message'' e), m')
           | Inr None \<Rightarrow> (Inl (Wrap ''while fetching latest uploaded WAL message'' errAmbiguousSourceRead), m')
           | Inr (Some data) \<Rightarrow>
               (case taskUnmarshal tc data of
                  Inl e \<Rightarrow> (Inl (Wrap ''while unmarshalling latest uploaded WAL message'' e), m')
                | Inr task \<Rightarrow> (Inr (wtWALName task), m'))))"

section \<open>What the code relies on\<close>

text \<open>
  \<open>js_laws\<close>: the messages a server holds, by stream and sequence number, are what its read
  operations report; a delete changes only the message it names, and a successful one removes it.
\<close>

definition js_laws :: "'n jetstream \<Rightarrow> ('n \<Rightarrow> string \<Rightarrow> uint64 \<rightharpoonup> bytes) \<Rightarrow> bool" where
  "js_laws js msgs \<longleftrightarrow>
     (\<forall>st q n d. ReadMessage js st q n = Inr (Some d) \<longrightarrow> msgs n st q = Some d) \<and>
     (\<forall>st q n. ReadMessage js st q n = Inl JSNoMessageFoundErr \<longrightarrow> msgs n st q = None) \<and>
     (\<forall>st q n st' q'. (st', q') \<noteq> (st, q) \<longrightarrow> msgs (snd (DeleteMessageRequest js st q n)) st' q' = msgs n st' q') \<and>
     (\<forall>st q n. msgs (snd (DeleteMessageRequest js st q n)) st q \<in> {None, msgs n st q}) \<and>
     (\<forall>st q n. fst (DeleteMessageRequest js st q n) = None \<longrightarrow> msgs (snd (DeleteMessageRequest js st q n)) st q = None) \<and>
     (\<forall>st n pgr seq ts d. PageContents js st n = Inr pgr \<longrightarrow> PagerMsg (Inr (seq, ts)) d \<in> set pgr \<longrightarrow>
        msgs n st seq = Some d)"

definition newest_first :: "('t FailedTask list \<Rightarrow> 't FailedTask list) \<Rightarrow> bool" where
  "newest_first srt \<longleftrightarrow>
     (\<forall>ts. mset (srt ts) = mset ts \<and> sorted_wrt (\<lambda>a b. Timestamp b \<le> Timestamp a) (srt ts))"

text \<open>NATS subjects are tokens between dots; a star in a pattern matches exactly one token.\<close>

definition subject_matches :: "string \<Rightarrow> string \<Rightarrow> bool" where
  "subject_matches pat subject \<longleftrightarrow>
     list_all2 (\<lambda>p t. p = ''*'' \<or> p = t) (split_on (CHR ''.'') pat) (split_on (CHR ''.'') subject)"

definition streams_for :: "string \<Rightarrow> string list" where
  "streams_for subject =
     map scName (filter (\<lambda>cfg. list_ex (\<lambda>p. subject_matches p subject) (scSubjects cfg)) stream_configs)"

text \<open>Publishing a list of tasks, up to the first failure: the reference for a retry.\<close>

fun publish_each ::
  "'n jetstream \<Rightarrow> WALTask task_codec \<Rightarrow> WALTask list \<Rightarrow> 'n manager \<Rightarrow> go_error option \<times> 'n manager" where
  "publish_each js tc [] m = (None, m)"
| "publish_each js tc (t # ts) m =
     (case notifyMessage js tc (walSubject (wtClusterName t)) t retry_header m of
        (Some e, m') \<Rightarrow> (Some (Wrap ''while retrying failed WAL task'' e), m')
      | (None, m') \<Rightarrow> publish_each js tc ts m')"

section \<open>A server that satisfies the laws\<close>

text \<open>
  The messages of a server as an association list from stream and sequence number; an advisory is
  the number of the message in its first byte, and a backup task the name of its cluster.
\<close>

type_synonym mem_nats = "((string \<times> uint64) \<times> bytes) list"

definition mem_msgs :: "mem_nats \<Rightarrow> string \<Rightarrow> uint64 \<rightharpoonup> bytes" where
  "mem_msgs n st q = map_of n (st, q)"

definition mem_js :: "mem_nats jetstream" where
  "mem_js =
     \<lparr>PublishMsg = (\<lambda>msg n. (None, ((msgSubject msg, of_nat (length n)), msgData msg) # n)),
      LoadStream = (\<lambda>st n. None),
      StreamState = (\<lambda>st n. Inr (of_nat (length (filter (\<lambda>k. fst k = st) (remdups (map fst n)))))),
      StreamInfo = (\<lambda>st n. Inr (Some (of_nat (length (filter (\<lambda>k. fst k = st) (remdups (map fst n))))))),
      ReadMessage = (\<lambda>st q n. case map_of n (st, q) of None \<Rightarrow> Inl JSNoMessageFoundErr | Some d \<Rightarrow> Inr (Some d)),
      ReadLastMessageForSubject = (\<lambda>st sub n. Inl JSNoMessageFoundErr),
      DeleteMessageRequest = (\<lambda>st q n. (None, filter (\<lambda>(k, _). k \<noteq> (st, q)) n)),
      PageContents = (\<lambda>st n. Inr (map (\<lambda>k. PagerMsg (Inr (snd k, 0)) (the (map_of n k)))
                                   (filter (\<lambda>k. fst k = st) (remdups (map fst n))))),
      AdvisoryStreamSeq = (\<lambda>d. if d = [] then Inl EOF else Inr (word_of_nat (unat (hd d)))),
      CreateOrUpdateStream = (\<lambda>cfg n. (None, n)),
      CreateOrUpdateConsumer = (\<lambda>st cfg n. (None, n)),
      DeleteStream = (\<lambda>st n. (None, filter (\<lambda>(k, _). fst k \<noteq> st) n)),
      FetchNoWait = (\<lambda>st cnt n. Inr ([], None))\<rparr>"

definition name_bytes :: "string \<Rightarrow> bytes" where
  "name_bytes s = map (\<lambda>c. word_of_nat (of_char c)) s"

definition bytes_name :: "bytes \<Rightarrow> string" where
  "bytes_name b = map (\<lambda>x. char_of (unat x)) b"

definition mem_wal_codec :: "WALTask task_codec" where
  "mem_wal_codec =
     \<lparr>taskMarshal = (\<lambda>t. Inr (name_bytes (wtClusterName t @ ''/'' @ wtWALName t))),
      taskUnmarshal = (\<lambda>b. let (c, w, _) = Cut (bytes_name b) (CHR ''/'') in Inr \<lparr>wtClusterName = c, wtWALName = w\<rparr>)\<rparr>"

definition mem_backup_codec :: "BackupTask task_codec" where
  "mem_backup_codec =
     \<lparr>taskMarshal = (\<lambda>t. Inr (name_bytes (btClusterName t))),
      taskUnmarshal = (\<lambda>b. Inr \<lparr>btClusterName = bytes_name b, SendToTier2 = False, Tier2CompressionPolicy = None\<rparr>)\<rparr>"

definition by_time :: "'t FailedTask list \<Rightarrow> 't FailedTask list" where
  "by_time ts = sort_key (\<lambda>t. - Timestamp t) ts"

section \<open>Lemmas: streams and listings\<close>

lemma js_lawsD:
  assumes "js_laws js msgs"
  shows "ReadMessage js st q n = Inr (Some d) \<Longrightarrow> msgs n st q = Some d"
    and "ReadMessage js st q n = Inl JSNoMessageFoundErr \<Longrightarrow> msgs n st q = None"
    and "DeleteMessageRequest js st q n = (r, n') \<Longrightarrow> (st', q') \<noteq> (st, q) \<Longrightarrow> msgs n' st' q' = msgs n st' q'"
    and "DeleteMessageRequest js st q n = (r, n') \<Longrightarrow> msgs n' st q = None \<or> msgs n' st q = msgs n st q"
    and "DeleteMessageRequest js st q n = (None, n') \<Longrightarrow> msgs n' st q = None"
    and "PageContents js st n = Inr pgr \<Longrightarrow> PagerMsg (Inr (seq, ts)) d \<in> set pgr \<Longrightarrow> msgs n st seq = Some d"
  using assms unfolding js_laws_def
  by (metis, metis, metis snd_conv, metis insert_iff singletonD snd_conv, metis fst_conv snd_conv, metis)

lemma loadStreamOrNil_state:
  "loadStreamOrNil js name m = (r, m') \<Longrightarrow> natsState m' = natsState m"
  "loadStreamOrNil js name m = (Inr (Some st), m') \<Longrightarrow> st = name"
  by (auto simp: loadStreamOrNil_def split: if_splits option.splits)

lemma drain_loop_items:
  "drain_loop js pgr acc = Inr advs \<Longrightarrow> \<exists>new. advs = acc @ new \<and>
     (\<forall>a \<in> set new. \<exists>d. PagerMsg (Inr (dlqSequence a, advTimestamp a)) d \<in> set pgr \<and>
        AdvisoryStreamSeq js d = Inr (sourceSeq a))"
proof (induction js pgr acc rule: drain_loop.induct)
  case (4 js meta data rest acc)
  then obtain seq ts src where meta: "meta = Inr (seq, ts)" "AdvisoryStreamSeq js data = Inr src"
    by (auto split: sum.splits prod.splits)
  with "4.IH" [OF meta(1) refl meta(2)] "4.prems" show ?case by fastforce
qed (auto split: option.splits if_splits)

definition resolves ::
  "'t task_codec \<Rightarrow> ('t \<Rightarrow> string) \<Rightarrow> (uint64 \<Rightarrow> go_error + bytes option) \<Rightarrow> optionConfig \<Rightarrow> dlqAdvisory \<Rightarrow>
   't FailedTask \<Rightarrow> bool" where
  "resolves tc cluster rd cfg a t \<longleftrightarrow>
     (\<exists>d. rd (sourceSeq a) = Inr (Some d) \<and> taskUnmarshal tc d = Inr (Task t)) \<and>
     Sequence t = dlqSequence a \<and> (cfgCluster cfg \<noteq> '''' \<longrightarrow> cluster (Task t) = cfgCluster cfg)"

lemma resolve_loop_items:
  "resolve_loop tc cluster rd cfg advs acc = Inr ts \<Longrightarrow> t \<in> set ts \<Longrightarrow> t \<in> set acc \<or>
     (\<exists>a \<in> set advs. resolves tc cluster rd cfg a t)"
proof (induction advs arbitrary: acc)
  case (Cons a advs)
  from Cons.prems(1) consider (skip) "resolve_loop tc cluster rd cfg advs acc = Inr ts"
    | (add) d task where "rd (sourceSeq a) = Inr (Some d)" "taskUnmarshal tc d = Inr task"
        "cfgCluster cfg = '''' \<or> cluster task = cfgCluster cfg"
        "resolve_loop tc cluster rd cfg advs
           (acc @ [\<lparr>Sequence = dlqSequence a, Task = task, Timestamp = advTimestamp a\<rparr>]) = Inr ts"
    by (auto split: sum.splits option.splits if_splits)
  then show ?case
  proof cases
    case skip
    with Cons show ?thesis by auto
  next
    case add
    then have "resolves tc cluster rd cfg a \<lparr>Sequence = dlqSequence a, Task = task, Timestamp = advTimestamp a\<rparr>"
      by (auto simp: resolves_def)
    with Cons.IH [OF add(4) Cons.prems(2)] show ?thesis by auto
  qed
qed auto

text \<open>
  A listed task is real: its entry is in the dead-letter queue, the entry names a message of the
  source stream, and that message decodes to the task, of the cluster asked for.
\<close>

definition genuine ::
  "'n jetstream \<Rightarrow> ('n \<Rightarrow> string \<Rightarrow> uint64 \<rightharpoonup> bytes) \<Rightarrow> 't task_codec \<Rightarrow> string \<Rightarrow> string \<Rightarrow> 'n \<Rightarrow>
   uint64 \<Rightarrow> uint64 \<Rightarrow> 't \<Rightarrow> bool" where
  "genuine js msgs tc dlq src n seq k t \<longleftrightarrow>
     (\<exists>d d'. msgs n dlq seq = Some d \<and> AdvisoryStreamSeq js d = Inr k \<and>
        msgs n src k = Some d' \<and> taskUnmarshal tc d' = Inr t)"

lemma listFailedTasks_genuine:
  assumes "js_laws js msgs" and "newest_first srt"
    and "listFailedTasks js tc cluster srt dlq src opts n = Inr ts" and "t \<in> set ts"
  shows "\<exists>k. genuine js msgs tc dlq src n (Sequence t) k (Task t)"
    and "cfgCluster (apply_options opts) \<noteq> '''' \<Longrightarrow> cluster (Task t) = cfgCluster (apply_options opts)"
proof -
  obtain msgs_n pgr advs ts0 where 0: "StreamState js dlq n = Inr msgs_n" "PageContents js dlq n = Inr pgr"
    "drain_loop js pgr [] = Inr advs"
    "resolve_loop tc cluster (\<lambda>seq. ReadMessage js src seq n) (apply_options opts) advs [] = Inr ts0" "ts = srt ts0"
    using assms(3) by (auto simp: listFailedTasks_def listPager_def drainDLQPager_def Let_def
        split: sum.splits if_splits)
  have "t \<in> set ts0"
    using assms(2,4) 0(5) unfolding newest_first_def by (metis set_mset_mset)
  from resolve_loop_items [OF 0(4) this] obtain a d where a: "a \<in> set advs"
    "ReadMessage js src (sourceSeq a) n = Inr (Some d)" "taskUnmarshal tc d = Inr (Task t)"
    "Sequence t = dlqSequence a"
    and cl: "cfgCluster (apply_options opts) \<noteq> '''' \<longrightarrow> cluster (Task t) = cfgCluster (apply_options opts)"
    by (auto simp: resolves_def)
  from drain_loop_items [OF 0(3)] a(1) obtain d' where "PagerMsg (Inr (dlqSequence a, advTimestamp a)) d' \<in> set pgr"
    "AdvisoryStreamSeq js d' = Inr (sourceSeq a)" by auto
  with a js_lawsD(1,6) [OF assms(1)] 0(2) show "\<exists>k. genuine js msgs tc dlq src n (Sequence t) k (Task t)"
    unfolding genuine_def by metis
  show "cfgCluster (apply_options opts) \<noteq> '''' \<Longrightarrow> cluster (Task t) = cfgCluster (apply_options opts)"
    using cl by blast
qed

section \<open>Lemmas: purging\<close>

text \<open>The messages that changed are gone, and satisfy a predicate.\<close>

definition only_removed ::
  "('n \<Rightarrow> string \<Rightarrow> uint64 \<rightharpoonup> bytes) \<Rightarrow> (string \<Rightarrow> uint64 \<Rightarrow> bool) \<Rightarrow> 'n \<Rightarrow> 'n \<Rightarrow> bool" where
  "only_removed msgs P n n' \<longleftrightarrow>
     (\<forall>st q. msgs n' st q = msgs n st q \<or> P st q \<and> msgs n' st q = None)"

lemma only_removed_refl [simp]: "only_removed msgs P n n"
  by (simp add: only_removed_def)

lemma only_removed_trans:
  "only_removed msgs P n n' \<Longrightarrow> only_removed msgs P n' n'' \<Longrightarrow> only_removed msgs P n n''"
  unfolding only_removed_def by metis

lemma only_removed_mono:
  "only_removed msgs P n n' \<Longrightarrow> (\<And>st q. P st q \<Longrightarrow> Q st q) \<Longrightarrow> only_removed msgs Q n n'"
  unfolding only_removed_def by blast

lemma delete_only_removed:
  "js_laws js msgs \<Longrightarrow> DeleteMessageRequest js st q n = (r, n') \<Longrightarrow>
   only_removed msgs (\<lambda>st' q'. st' = st \<and> q' = q) n n'"
  unfolding only_removed_def using js_lawsD(3,4) by (metis prod.inject)

text \<open>The two halves of purgeDLQEntryBySequence: releasing the original, then dropping the entry.\<close>

lemma purgeDLQEntryBySequence_cases:
  assumes laws: "js_laws js msgs" and run: "purgeDLQEntryBySequence js dlq src seq n = (r, n')"
  obtains (absent) "r = None" "n' = n" "msgs n dlq seq = None"
  | (unread) e where "r = Some e" "n' = n"
  | (not_released) d k e where "msgs n dlq seq = Some d" "AdvisoryStreamSeq js d = Inr k" "r = Some e"
      "only_removed msgs (\<lambda>st q. st = src \<and> q = k) n n'"
  | (released) d k n1 where "msgs n dlq seq = Some d" "AdvisoryStreamSeq js d = Inr k"
      "only_removed msgs (\<lambda>st q. st = src \<and> q = k) n n1" "msgs n1 src k = None"
      "only_removed msgs (\<lambda>st q. st = dlq \<and> q = seq) n1 n'" "r = None \<longrightarrow> msgs n' dlq seq = None"
proof (cases "ReadMessage js dlq seq n")
  case (Inl e)
  show ?thesis
  proof (cases "e = JSNoMessageFoundErr")
    case True
    with run Inl js_lawsD(2) [OF laws] absent show ?thesis by (auto simp: purgeDLQEntryBySequence_def)
  next
    case False
    with run Inl unread show ?thesis by (auto simp: purgeDLQEntryBySequence_def)
  qed
next
  case (Inr x)
  show ?thesis
  proof (cases x)
    case None
    with run Inr unread show ?thesis by (auto simp: purgeDLQEntryBySequence_def)
  next
    case (Some d)
    then have d: "msgs n dlq seq = Some d" using Inr js_lawsD(1) [OF laws] by simp
    show ?thesis
    proof (cases "AdvisoryStreamSeq js d")
      case (Inl e)
      with run Inr Some unread show ?thesis by (auto simp: purgeDLQEntryBySequence_def)
    next
      case k: (Inr k)
      obtain rs n1 where rel: "(case ReadMessage js src k n of
                    Inl e \<Rightarrow> if e = JSNoMessageFoundErr then (None, n)
                             else (Some (Wrap ''while checking original message'' e), n)
                  | Inr _ \<Rightarrow>
                      (case DeleteMessageRequest js src k n of
                         (Some e, n') \<Rightarrow> (Some (Wrap ''while releasing original message'' e), n')
                       | (None, n') \<Rightarrow> (None, n'))) = (rs, n1)" by force
      have n1: "only_removed msgs (\<lambda>st q. st = src \<and> q = k) n n1" "rs = None \<Longrightarrow> msgs n1 src k = None"
        using rel delete_only_removed [OF laws] js_lawsD(2,5) [OF laws]
        by (auto split: sum.splits if_splits prod.splits option.splits)
      show ?thesis
      proof (cases rs)
        case (Some e)
        with run Inr \<open>x = Some d\<close> k rel have "r = Some e" "n' = n1"
          by (simp_all add: purgeDLQEntryBySequence_def)
        with not_released [OF d k] n1(1) show ?thesis by simp
      next
        case None
        obtain r2 n2 where del: "DeleteMessageRequest js dlq seq n1 = (r2, n2)" by force
        have "n' = n2" "r = None \<longrightarrow> r2 = None"
          using run Inr \<open>x = Some d\<close> k rel None del
          by (auto simp: purgeDLQEntryBySequence_def split: option.splits)
        with delete_only_removed [OF laws del] js_lawsD(5) [OF laws] del n1 None d k released
        show ?thesis by blast
      qed
    qed
  qed
qed

lemma purge_loop_removed:
  assumes laws: "js_laws js msgs"
    and entries: "\<And>t. t \<in> set ts \<Longrightarrow> \<exists>d k. msgs n0 dlq (Sequence t) = Some d \<and> AdvisoryStreamSeq js d = Inr k \<and>
       P dlq (Sequence t) \<and> P src k"
    and start: "only_removed msgs P n0 n" and run: "purge_loop js dlq src ts p errs n = (p', errs', n')"
  shows "only_removed msgs P n0 n'"
  using entries start run
proof (induction ts arbitrary: p errs n)
  case (Cons t ts)
  obtain r n1 where 1: "purgeDLQEntryBySequence js dlq src (Sequence t) n = (r, n1)" by force
  from Cons.prems(1) obtain d k where e: "msgs n0 dlq (Sequence t) = Some d" "AdvisoryStreamSeq js d = Inr k"
    "P dlq (Sequence t)" "P src k" by (meson list.set_intros(1))
  have same: "msgs n dlq (Sequence t) = Some d'' \<Longrightarrow> d'' = d" for d''
    using Cons.prems(2) e(1) unfolding only_removed_def by (metis option.distinct(1) option.inject)
  have "only_removed msgs P n n1"
    using laws 1
  proof (cases rule: purgeDLQEntryBySequence_cases)
    case (not_released d'' k'' ex)
    with same e show ?thesis by (auto intro: only_removed_mono)
  next
    case (released d'' k'' n2)
    with same e have "only_removed msgs P n n2" "only_removed msgs P n2 n1"
      by (auto intro: only_removed_mono)
    then show ?thesis by (rule only_removed_trans)
  qed simp_all
  with Cons.prems(2) have n1: "only_removed msgs P n0 n1" by (rule only_removed_trans)
  obtain p1 errs1 where "purge_loop js dlq src ts p1 errs1 n1 = (p', errs', n')"
    using Cons.prems(3) 1 by (auto split: option.splits)
  from Cons.IH [OF Cons.prems(1) n1 this] show ?case by simp
qed simp

lemma purgeDLQEntries_removed:
  assumes laws: "js_laws js msgs"
    and entries: "\<And>t. t \<in> set ts \<Longrightarrow> \<exists>d k. msgs (natsState m) dlq (Sequence t) = Some d \<and> AdvisoryStreamSeq js d = Inr k \<and>
       P dlq (Sequence t) \<and> P src k"
    and run: "purgeDLQEntries js dlq src ts m = (r, m')"
  shows "only_removed msgs P (natsState m) (natsState m')"
proof (cases "ts = []")
  case True
  with run show ?thesis by (simp add: purgeDLQEntries_def)
next
  case False
  obtain r1 m1 where 1: "loadStreamOrNil js dlq m = (r1, m1)" by force
  obtain r2 m2 where 2: "loadStreamOrNil js src m1 = (r2, m2)" by force
  note st = loadStreamOrNil_state(1) [OF 1] loadStreamOrNil_state(1) [OF 2]
  show ?thesis
  proof (cases "\<exists>a b. r1 = Inr (Some a) \<and> r2 = Inr (Some b)")
    case True
    then have r12: "r1 = Inr (Some dlq)" "r2 = Inr (Some src)"
      using loadStreamOrNil_state(2) 1 2 by blast+
    obtain p errs n where loop: "purge_loop js dlq src ts 0 [] (natsState m2) = (p, errs, n)" by (metis prod_cases3)
    then have "natsState m' = n"
      using run False 1 2 r12 by (auto simp: purgeDLQEntries_def)
    moreover have "only_removed msgs P (natsState m) n"
      by (rule purge_loop_removed [OF laws entries _ loop]) (simp_all add: st)
    ultimately show ?thesis by simp
  next
    case no: False
    then have "m' = m1 \<or> m' = m2"
      using run False 1 2 by (auto simp: purgeDLQEntries_def split: sum.splits option.splits)
    with st show ?thesis by auto
  qed
qed

section \<open>The interface of a dead-letter queue\<close>

text \<open>
  What WAL tasks and backup tasks share: a listing that reports genuine entries of the cluster asked
  for and leaves the server alone, and a discard that purges what the listing reports.
\<close>

locale failed_task_queue =
  fixes js :: "'n jetstream" and tc :: "'t task_codec" and srt :: "'t FailedTask list \<Rightarrow> 't FailedTask list"
    and cluster :: "'t \<Rightarrow> string" and dlq src :: string
    and list_failed :: "queue_option list \<Rightarrow> 'n manager \<Rightarrow> (go_error + 't FailedTask list) \<times> 'n manager"
    and discard_failed :: "queue_option list \<Rightarrow> 'n manager \<Rightarrow> (uint64 \<times> go_error option) \<times> 'n manager"
  assumes listing_genuine: "js_laws js msgs \<Longrightarrow> newest_first srt \<Longrightarrow> list_failed opts m = (Inr ts, m') \<Longrightarrow> t \<in> set ts \<Longrightarrow>
      (\<exists>k. genuine js msgs tc dlq src (natsState m) (Sequence t) k (Task t)) \<and>
      (cfgCluster (apply_options opts) \<noteq> '''' \<longrightarrow> cluster (Task t) = cfgCluster (apply_options opts))"
    and listing_pure: "list_failed opts m = (r, m') \<Longrightarrow> natsState m' = natsState m"
    and discard_listed: "list_failed opts m = (Inr ts, m1) \<Longrightarrow> discard_failed opts m = purgeDLQEntries js dlq src ts m1"
    and discard_error: "list_failed opts m = (Inl e, m1) \<Longrightarrow> snd (discard_failed opts m) = m1"
begin

text \<open>A discard removes only entries of that cluster, and the messages of that cluster they name.\<close>

lemma discard_scope:
  assumes "js_laws js msgs" and "newest_first srt" and "cfgCluster (apply_options opts) = c" and "c \<noteq> ''''"
    and "discard_failed opts m = (r, m')"
  shows "only_removed msgs (\<lambda>st q. \<exists>seq k t. genuine js msgs tc dlq src (natsState m) seq k t \<and> cluster t = c \<and>
           (st = dlq \<and> q = seq \<or> st = src \<and> q = k)) (natsState m) (natsState m')"
proof -
  obtain l m1 where l: "list_failed opts m = (l, m1)" by force
  note pure = listing_pure [OF l]
  show ?thesis
  proof (cases l)
    case (Inl e)
    with discard_error [of opts m e m1] l assms(5) have "m' = m1" by simp
    with pure show ?thesis by simp
  next
    case (Inr ts)
    let ?P = "\<lambda>st q. \<exists>seq k t. genuine js msgs tc dlq src (natsState m) seq k t \<and> cluster t = c \<and>
           (st = dlq \<and> q = seq \<or> st = src \<and> q = k)"
    have entries: "\<exists>d k. msgs (natsState m1) dlq (Sequence t) = Some d \<and> AdvisoryStreamSeq js d = Inr k \<and>
        ?P dlq (Sequence t) \<and> ?P src k" if t: "t \<in> set ts" for t
    proof -
      from listing_genuine [OF assms(1,2) l [unfolded Inr] t] assms(3,4) obtain k
        where g: "genuine js msgs tc dlq src (natsState m) (Sequence t) k (Task t)" "cluster (Task t) = c" by blast
      then have P: "?P dlq (Sequence t)" "?P src k" by blast+
      from g(1) pure obtain d where "msgs (natsState m1) dlq (Sequence t) = Some d" "AdvisoryStreamSeq js d = Inr k"
        by (auto simp: genuine_def)
      with P show ?thesis by blast
    qed
    have purge: "purgeDLQEntries js dlq src ts m1 = (r, m')"
      using discard_listed [OF l [unfolded Inr]] assms(5) by simp
    have "only_removed msgs ?P (natsState m1) (natsState m')"
      by (rule purgeDLQEntries_removed [OF assms(1) _ purge]) (rule entries)
    with pure show ?thesis by simp
  qed
qed

end

lemma loadStreamOrNil_twice:
  assumes "loadStreamOrNil js a m = (r1, m1)" and "loadStreamOrNil js b m1 = (r2, m2)"
  shows "natsState m1 = natsState m" and "natsState m2 = natsState m"
    and "r1 = Inr (Some x) \<Longrightarrow> x = a" and "r2 = Inr (Some y) \<Longrightarrow> y = b"
  using loadStreamOrNil_state(1) [OF assms(1)] loadStreamOrNil_state(1) [OF assms(2)]
    loadStreamOrNil_state(2) [of js a m x m1] loadStreamOrNil_state(2) [of js b m1 y m2] assms by auto

lemma ListFailedWALTasks_steps:
  assumes "ListFailedWALTasks js tc srt opts m = (r, m')"
  shows "natsState m' = natsState m"
    and "r = Inr ts \<Longrightarrow> t \<in> set ts \<Longrightarrow> \<exists>tasks. listFailedTasks js tc WALTask_Cluster srt
           klioDLQWalStreamName klioWalStreamName opts (natsState m) = Inr tasks \<and> t \<in> set tasks"
proof -
  obtain r1 m1 where 1: "loadStreamOrNil js klioWalStreamName m = (r1, m1)" by force
  obtain r2 m2 where 2: "loadStreamOrNil js klioDLQWalStreamName m1 = (r2, m2)" by force
  note st = loadStreamOrNil_twice [OF 1 2]
  show "natsState m' = natsState m"
    using assms 1 2 st(1,2)
    by (auto simp: ListFailedWALTasks_def Let_def split: if_splits sum.splits option.splits)
  show "r = Inr ts \<Longrightarrow> t \<in> set ts \<Longrightarrow> \<exists>tasks. listFailedTasks js tc WALTask_Cluster srt
           klioDLQWalStreamName klioWalStreamName opts (natsState m) = Inr tasks \<and> t \<in> set tasks"
    using assms 1 2 st(2-)
    by (auto simp: ListFailedWALTasks_def Let_def split: if_splits sum.splits option.splits)
qed

lemma ListFailedBackupTasks_steps:
  assumes "ListFailedBackupTasks js tc srt opts m = (r, m')"
  shows "natsState m' = natsState m"
    and "r = Inr ts \<Longrightarrow> t \<in> set ts \<Longrightarrow> listFailedTasks js tc BackupTask_Cluster srt
           klioDLQBackupStreamName klioBackupStreamName opts (natsState m) = Inr ts"
proof -
  obtain r1 m1 where 1: "loadStreamOrNil js klioBackupStreamName m = (r1, m1)" by force
  obtain r2 m2 where 2: "loadStreamOrNil js klioDLQBackupStreamName m1 = (r2, m2)" by force
  note st = loadStreamOrNil_twice [OF 1 2]
  show "natsState m' = natsState m"
    using assms 1 2 st(1,2)
    by (auto simp: ListFailedBackupTasks_def Let_def split: if_splits sum.splits option.splits)
  show "r = Inr ts \<Longrightarrow> t \<in> set ts \<Longrightarrow> listFailedTasks js tc BackupTask_Cluster srt
           klioDLQBackupStreamName klioBackupStreamName opts (natsState m) = Inr ts"
    using assms 1 2 st(2-)
    by (auto simp: ListFailedBackupTasks_def Let_def split: if_splits sum.splits option.splits)
qed

interpretation wal_dlq: failed_task_queue js tc srt WALTask_Cluster klioDLQWalStreamName klioWalStreamName
  "ListFailedWALTasks js tc srt" "DiscardFailedWALTasks js tc srt"
  for js :: "'n jetstream" and tc srt
proof
  fix msgs opts and m m' :: "'n manager" and ts t
  assume "js_laws js msgs" "newest_first srt" "ListFailedWALTasks js tc srt opts m = (Inr ts, m')" "t \<in> set ts"
  with ListFailedWALTasks_steps(2) [OF this(3) refl this(4)] listFailedTasks_genuine [OF this(1,2)]
  show "(\<exists>k. genuine js msgs tc klioDLQWalStreamName klioWalStreamName (natsState m) (Sequence t) k (Task t)) \<and>
    (cfgCluster (apply_options opts) \<noteq> '''' \<longrightarrow> WALTask_Cluster (Task t) = cfgCluster (apply_options opts))"
    by metis
qed (simp_all add: ListFailedWALTasks_steps(1) DiscardFailedWALTasks_def)

interpretation backup_dlq: failed_task_queue js tc srt BackupTask_Cluster klioDLQBackupStreamName klioBackupStreamName
  "ListFailedBackupTasks js tc srt" "DiscardFailedBackupTasks js tc srt"
  for js :: "'n jetstream" and tc srt
proof
  fix msgs opts and m m' :: "'n manager" and ts t
  assume "js_laws js msgs" "newest_first srt" "ListFailedBackupTasks js tc srt opts m = (Inr ts, m')" "t \<in> set ts"
  with ListFailedBackupTasks_steps(2) [OF this(3) refl this(4)] listFailedTasks_genuine [OF this(1,2)]
  show "(\<exists>k. genuine js msgs tc klioDLQBackupStreamName klioBackupStreamName (natsState m) (Sequence t) k (Task t)) \<and>
    (cfgCluster (apply_options opts) \<noteq> '''' \<longrightarrow> BackupTask_Cluster (Task t) = cfgCluster (apply_options opts))"
    by metis
qed (simp_all add: ListFailedBackupTasks_steps(1) DiscardFailedBackupTasks_def)

section \<open>Lemmas: merging and retrying\<close>

text \<open>What the fold knows after some candidates: the set of the values they set.\<close>

definition merge_inv :: "'p set \<Rightarrow> 'p option \<Rightarrow> bool \<Rightarrow> bool" where
  "merge_inv S cur conflict \<longleftrightarrow>
     (if conflict then cur = None \<and> (\<exists>a b. a \<noteq> b \<and> a \<in> S \<and> b \<in> S)
      else (cur = None \<and> S = {} \<or> (\<exists>p. cur = Some p \<and> S = {p})))"

lemma merge_inv_step:
  "merge_inv S cur conflict \<Longrightarrow> mergePolicyField cur conflict cand = (cur', conflict') \<Longrightarrow>
   merge_inv (S \<union> set_option cand) cur' conflict'"
  by (cases cand) (auto simp: merge_inv_def mergePolicyField_def split: if_splits)

lemma merge_inv_Some: "merge_inv S cur conflict \<Longrightarrow> cur = Some p \<longleftrightarrow> S = {p}"
  by (auto simp: merge_inv_def split: if_splits)

lemma merge_loop_result:
  "merge_inv S (Tier2CompressionPolicy acc) conflict \<Longrightarrow>
   \<exists>conflict'. merge_inv (S \<union> (\<Union>t \<in> set ts. set_option (Tier2CompressionPolicy t)))
       (Tier2CompressionPolicy (merge_loop ts acc conflict)) conflict' \<and>
     (SendToTier2 (merge_loop ts acc conflict) \<longleftrightarrow> SendToTier2 acc \<or> (\<exists>t \<in> set ts. SendToTier2 t)) \<and>
     btClusterName (merge_loop ts acc conflict) = btClusterName acc"
proof (induction ts arbitrary: S acc conflict)
  case (Cons t ts)
  obtain p c where pc: "mergePolicyField (Tier2CompressionPolicy acc) conflict (Tier2CompressionPolicy t) = (p, c)"
    by force
  let ?acc = "acc\<lparr>SendToTier2 := SendToTier2 acc \<or> SendToTier2 t, Tier2CompressionPolicy := p\<rparr>"
  from merge_inv_step [OF Cons.prems pc] have "merge_inv (S \<union> set_option (Tier2CompressionPolicy t)) (Tier2CompressionPolicy ?acc) c"
    by simp
  from Cons.IH [OF this] show ?case by (auto simp: pc Un_assoc)
qed auto

lemma enqueue_wal_loop_publish:
  "\<exists>ds. distinct ds \<and> set ds = Task ` set ts - attempted \<and>
     enqueue_wal_loop js tc ts attempted m = publish_each js tc ds m"
proof (induction ts arbitrary: attempted m)
  case Nil
  then show ?case by (intro exI [of _ "[]"]) simp
next
  case (Cons t ts)
  show ?case
  proof (cases "Task t \<in> attempted")
    case True
    with Cons.IH [of attempted m] show ?thesis by (auto simp: insert_Diff_if)
  next
    case False
    obtain r m1 where n: "notifyMessage js tc (walSubject (wtClusterName (Task t))) (Task t) retry_header m = (r, m1)"
      by force
    from Cons.IH [of "insert (Task t) attempted" m1] obtain ds where ds: "distinct ds"
      "set ds = Task ` set ts - insert (Task t) attempted"
      "enqueue_wal_loop js tc ts (insert (Task t) attempted) m1 = publish_each js tc ds m1" by blast
    with False n have "distinct (Task t # ds) \<and> set (Task t # ds) = Task ` set (t # ts) - attempted \<and>
        enqueue_wal_loop js tc (t # ts) attempted m = publish_each js tc (Task t # ds) m"
      by (auto simp: WALTask_Cluster_def split: option.splits)
    then show ?thesis by blast
  qed
qed

lemma drain_loop_complete:
  "drain_loop js pgr acc = Inr advs \<Longrightarrow>
   list_all2 (\<lambda>a x. \<exists>d. x = PagerMsg (Inr (dlqSequence a, advTimestamp a)) d \<and> AdvisoryStreamSeq js d = Inr (sourceSeq a))
     (drop (length acc) advs) (takeWhile (\<lambda>x. \<exists>m d. x = PagerMsg m d) pgr) \<and> take (length acc) advs = acc"
proof (induction js pgr acc rule: drain_loop.induct)
  case (4 js meta data rest acc)
  then obtain seq ts src where meta: "meta = Inr (seq, ts)" "AdvisoryStreamSeq js data = Inr src"
    by (auto split: sum.splits prod.splits)
  let ?a = "\<lparr>dlqSequence = seq, advTimestamp = ts, sourceSeq = src\<rparr>"
  from "4.IH" [OF meta(1) refl meta(2)] "4.prems" meta
  have ih: "list_all2 (\<lambda>a x. \<exists>d. x = PagerMsg (Inr (dlqSequence a, advTimestamp a)) d \<and> AdvisoryStreamSeq js d = Inr (sourceSeq a))
     (drop (length acc + 1) advs) (takeWhile (\<lambda>x. \<exists>m d. x = PagerMsg m d) rest)"
    "take (length acc + 1) advs = acc @ [?a]" by simp_all
  then have "drop (length acc) advs = ?a # drop (length acc + 1) advs" "take (length acc) advs = acc"
    by (metis Cons_eq_appendI append_Nil append_eq_conv_conj append_take_drop_id append.assoc,
        metis append_eq_conv_conj append_take_drop_id append.assoc)
  with ih meta show ?case by auto
qed (auto split: option.splits if_splits)

section \<open>Lemmas: subjects\<close>

lemma stream_patterns:
  "map (\<lambda>cfg. (scName cfg, map (split_on (CHR ''.'')) (scSubjects cfg))) stream_configs =
     [(klioWalStreamName, [[''klio'', ''wal'', ''*'']]),
      (klioDLQWalStreamName, [[''$JS'', ''EVENT'', ''ADVISORY'', ''CONSUMER'', ''MAX_DELIVERIES'', ''klio-wal-stream'', ''klio-wal-consumer'']]),
      (klioLatestUploadedWalStreamName, [[''klio'', ''latest-uploaded-wal'', ''*'']]),
      (klioBackupStreamName, [[''klio'', ''backup'', ''*'']]),
      (klioDLQBackupStreamName, [[''$JS'', ''EVENT'', ''ADVISORY'', ''CONSUMER'', ''MAX_DELIVERIES'', ''klio-backup-stream'', ''klio-backup-consumer'']])]"
  by code_simp

lemma streams_for_patterns:
  "streams_for subject = map fst (filter (\<lambda>(_, ps). list_ex (\<lambda>p.
     list_all2 (\<lambda>p t. p = ''*'' \<or> p = t) p (split_on (CHR ''.'') subject)) ps)
     (map (\<lambda>cfg. (scName cfg, map (split_on (CHR ''.'')) (scSubjects cfg))) stream_configs))"
  by (simp add: streams_for_def subject_matches_def filter_map list_ex_iff comp_def)

lemma subject_tokens:
  "split_on (CHR ''.'') (walSubject c) = ''klio'' # ''wal'' # split_on (CHR ''.'') c"
  "split_on (CHR ''.'') (backupSubject c) = ''klio'' # ''backup'' # split_on (CHR ''.'') c"
  by (simp_all add: walSubject_def backupSubject_def)

lemma streams_for_task_subjects:
  "streams_for (walSubject c) = (if CHR ''.'' \<in> set c then [] else [klioWalStreamName])"
  "streams_for (backupSubject c) = (if CHR ''.'' \<in> set c then [] else [klioBackupStreamName])"
proof -
  have "CHR ''.'' \<in> set c \<Longrightarrow> \<exists>x y r. split_on (CHR ''.'') c = x # y # r"
    using length_split_on [of "CHR ''.''" c] count_list_0_iff [of c "CHR ''.''"]
    by (cases "split_on (CHR ''.'') c"; cases "tl (split_on (CHR ''.'') c)") auto
  then show "streams_for (walSubject c) = (if CHR ''.'' \<in> set c then [] else [klioWalStreamName])"
    "streams_for (backupSubject c) = (if CHR ''.'' \<in> set c then [] else [klioBackupStreamName])"
    by (auto simp: streams_for_patterns stream_patterns subject_tokens split_on_notin)
qed

lemma legacy_tokens:
  "CHR ''.'' \<notin> set k \<Longrightarrow> CHR ''.'' \<notin> set c \<Longrightarrow>
   split_on (CHR ''.'') (''klio.'' @ c @ ''.'' @ k) = [''klio'', c, k]"
  by (simp add: split_on_append split_on_notin)

section \<open>Lemmas: the concrete server\<close>

lemma mem_js_laws: "js_laws mem_js mem_msgs"
proof -
  have map_of_del: "map_of (filter (\<lambda>(k, _). k \<noteq> k0) n) k = (if k = k0 then None else map_of n k)"
    for n :: mem_nats and k k0 by (induction n) auto
  have "map_of n k = Some (the (map_of n k))" if "k \<in> set (map fst n)" for n :: mem_nats and k
    using that by (cases "map_of n k") (auto simp: map_of_eq_None_iff)
  then show ?thesis
    by (auto simp: js_laws_def mem_js_def mem_msgs_def map_of_del JSNoMessageFoundErr_def
        split: option.splits) force
qed

lemma by_time_newest_first: "newest_first (by_time :: 't FailedTask list \<Rightarrow> _)"
proof -
  have "sorted_wrt (\<lambda>a b. Timestamp b \<le> Timestamp a) (sort_key (\<lambda>t. - Timestamp t) ts)" for ts :: "'t FailedTask list"
    using sorted_sort_key [of "\<lambda>t. - Timestamp t" ts] by (simp add: sorted_wrt_map)
  then show ?thesis by (simp add: newest_first_def by_time_def)
qed

section \<open>Properties\<close>

text \<open>
  Retrying backups merges the failed tasks of a cluster into one without losing or inventing a
  request: the merged task goes to tier 2 exactly when one of them did, and carries a compression
  policy exactly when the tasks that set one all set that one.
\<close>

lemma merged_backup_task_is_faithful:
  "\<exists>m. mergeBackupTasks (t # ts) = Inr m \<and> btClusterName m = btClusterName t \<and>
       (SendToTier2 m \<longleftrightarrow> (\<exists>x \<in> set (t # ts). SendToTier2 x)) \<and>
       (\<forall>p. Tier2CompressionPolicy m = Some p \<longleftrightarrow>
            {q. \<exists>x \<in> set (t # ts). Tier2CompressionPolicy x = Some q} = {p})"
proof -
  let ?acc = "\<lparr>btClusterName = btClusterName t, SendToTier2 = False, Tier2CompressionPolicy = None :: CompressionPolicy option\<rparr>"
  let ?m = "merge_loop (t # ts) ?acc False"
  have "merge_inv {} (Tier2CompressionPolicy ?acc) False" by (simp add: merge_inv_def)
  from merge_loop_result [OF this, of "t # ts"] obtain conflict' where
    inv: "merge_inv (\<Union>x \<in> set (t # ts). set_option (Tier2CompressionPolicy x)) (Tier2CompressionPolicy ?m) conflict'"
    and rest: "SendToTier2 ?m \<longleftrightarrow> (\<exists>x \<in> set (t # ts). SendToTier2 x)" "btClusterName ?m = btClusterName t"
    by auto
  have "(\<Union>x \<in> set (t # ts). set_option (Tier2CompressionPolicy x)) =
      {q. \<exists>x \<in> set (t # ts). Tier2CompressionPolicy x = Some q}"
    by (auto simp del: set_simps)
  with merge_inv_Some [OF inv] rest show ?thesis
    by (simp add: mergeBackupTasks_def del: set_simps merge_loop.simps)
qed

text \<open>
  C40: retrying WALs enqueues each failed task exactly once, with the retry marker: the effect is
  that of publishing, in some order without repetition, the set of the tasks listed.
\<close>

theorem wal_retry_publishes_each_once:
  "\<exists>ds. distinct ds \<and> set ds = Task ` set tasks \<and>
     enqueueWALTasks js tc tasks m = publish_each js tc ds m"
  using enqueue_wal_loop_publish [of tasks "{}" js tc m] by (simp add: enqueueWALTasks_def)

text \<open>
  The dead-letter listing is never silently truncated: when drainDLQPager returns, it has read
  at least as many entries as the stream reported, and its advisories are, one by one, all the
  messages the pager delivered before it ended.
\<close>

lemma dlq_listing_not_truncated:
  assumes "drainDLQPager js pgr expected = Inr advs"
  shows "expected \<le> of_nat (length advs) \<and>
         list_all2 (\<lambda>a x. \<exists>d. x = PagerMsg (Inr (dlqSequence a, advTimestamp a)) d \<and> AdvisoryStreamSeq js d = Inr (sourceSeq a))
           advs (takeWhile (\<lambda>x. \<exists>m d. x = PagerMsg m d) pgr)"
  using assms drain_loop_complete [of js pgr "[]" advs]
  by (auto simp: drainDLQPager_def split: sum.splits if_splits)

text \<open>
  Purging a dead-letter entry releases the original message first.  A purge that reports success
  has removed both; and whatever fails, once the entry is gone the message it names is gone too, so
  an interrupted purge can be repeated and never leaves a message that no entry names.
\<close>

lemma purge_releases_original_first:
  assumes "js_laws js msgs" and "dlq \<noteq> src"
    and "msgs n dlq seq = Some d" and "AdvisoryStreamSeq js d = Inr k"
    and "purgeDLQEntryBySequence js dlq src seq n = (r, n')"
  shows "(r = None \<longrightarrow> msgs n' src k = None \<and> msgs n' dlq seq = None) \<and>
         (msgs n' dlq seq = None \<longrightarrow> msgs n' src k = None)"
  using assms(1,5)
proof (cases rule: purgeDLQEntryBySequence_cases)
  case (not_released d' k' e)
  with assms have "msgs n' dlq seq = Some d" unfolding only_removed_def by metis
  with not_released show ?thesis by simp
next
  case (released d' k' n1)
  with assms have "msgs n' src k = None" unfolding only_removed_def by (metis sum.inject(2) option.inject)
  with released show ?thesis by simp
qed (use assms in auto)

text \<open>
  Discarding the failed tasks of one cluster stays within that cluster.  Every message that a
  discard of backups (or of WALs) for cluster c removes is a dead-letter entry of a task of c, or the
  original message of such a task.
\<close>

lemma discard_stays_in_cluster:
  assumes "js_laws js msgs" and "newest_first srt" and "newest_first srt'" and "c \<noteq> ''''"
    and "DiscardFailedBackupTasks js tc srt [WithCluster c] m = (r, m')"
    and "DiscardFailedWALTasks js wtc srt' [WithCluster c, WithWALs wals] m = (r', m'')"
  shows "only_removed msgs (\<lambda>st q. \<exists>seq k t.
             genuine js msgs tc klioDLQBackupStreamName klioBackupStreamName (natsState m) seq k t \<and> btClusterName t = c \<and>
             (st = klioDLQBackupStreamName \<and> q = seq \<or> st = klioBackupStreamName \<and> q = k)) (natsState m) (natsState m') \<and>
         only_removed msgs (\<lambda>st q. \<exists>seq k t.
             genuine js msgs wtc klioDLQWalStreamName klioWalStreamName (natsState m) seq k t \<and> wtClusterName t = c \<and>
             (st = klioDLQWalStreamName \<and> q = seq \<or> st = klioWalStreamName \<and> q = k)) (natsState m) (natsState m'')"
  using backup_dlq.discard_scope [OF assms(1,2) _ assms(4,5)] wal_dlq.discard_scope [OF assms(1,3) _ assms(4,6)]
  by (simp add: apply_options_def WithCluster_def WithWALs_def WALTask_Cluster_def BackupTask_Cluster_def)

text \<open>
  How cluster names meet the subjects.  The tasks of a cluster whose name has no dot go to exactly
  the stream made for them, and its legacy subjects translate to the new ones.  A name with a dot,
  which ValidatePathComponent accepts, matches no stream at all, and its legacy messages are rejected.
\<close>

lemma dotted_clusters_have_no_stream:
  assumes "c \<noteq> ''''"
  shows "if CHR ''.'' \<in> set c
         then streams_for (walSubject c) = [] \<and> streams_for (backupSubject c) = [] \<and>
              (\<exists>e. translateLegacySubject (''klio.'' @ c @ ''.wal'') = Inl e)
         else streams_for (walSubject c) = [klioWalStreamName] \<and> streams_for (backupSubject c) = [klioBackupStreamName] \<and>
              translateLegacySubject (''klio.'' @ c @ ''.wal'') = Inr (walSubject c) \<and>
              translateLegacySubject (''klio.'' @ c @ ''.backup'') = Inr (backupSubject c)"
proof (cases "CHR ''.'' \<in> set c")
  case True
  then have "length (split_on (CHR ''.'') (''klio.'' @ c @ ''.wal'')) \<noteq> 3"
    using count_list_0_iff [of c "CHR ''.''"] by (simp add: length_split_on del: split_on.simps)
  with True show ?thesis by (simp add: streams_for_task_subjects translateLegacySubject_def Let_def)
next
  case False
  with legacy_tokens [of "''wal''" c] legacy_tokens [of "''backup''" c] show ?thesis
    by (simp add: streams_for_task_subjects translateLegacySubject_def Let_def)
qed

end
