(* ===== verification/Wal_Auth.thy ===== *)
theory Wal_Auth
  imports Wal_Names
begin

text \<open>
  Authorisation of the calls of the WAL server (core/internal/server/walserver/auth.go).  The peer
  of a call is what gRPC puts in the context: for a TLS peer, the common names of the certificates
  of its verified chains.
\<close>

section \<open>core/internal/server/walserver/auth.go\<close>

datatype auth_info = TLSInfo "string list list" | OtherAuthInfo

type_synonym call_context = "auth_info option"

definition errNoPeerInfo :: go_error where "errNoPeerInfo = Sentinel ''no peer info in context''"
definition errNoTLSInfo :: go_error where "errNoTLSInfo = Sentinel ''peer auth info is not TLS''"
definition errNoVerifiedClientCert :: go_error where
  "errNoVerifiedClientCert = Sentinel ''no verified client certificate''"

definition peerClusterName :: "call_context \<Rightarrow> go_error + string" where
  "peerClusterName ctx =
     (case ctx of
        None \<Rightarrow> Inl errNoPeerInfo
      | Some OtherAuthInfo \<Rightarrow> Inl errNoTLSInfo
      | Some (TLSInfo vchains) \<Rightarrow>
          (case vchains of
             (commonName # _) # _ \<Rightarrow>
               let (_, clusterName, found) = Cut commonName (CHR ''@'') in
               if \<not> found \<or> clusterName = '''' then Inl (Sentinel ''commonName must be in the form userName@hostName'')
               else Inr clusterName
           | _ \<Rightarrow> Inl errNoVerifiedClientCert))"

definition authorizeClusterName :: "call_context \<Rightarrow> string \<Rightarrow> go_error option" where
  "authorizeClusterName ctx clusterName =
     (case peerClusterName ctx of
        Inl e \<Rightarrow> Some (Status PermissionDenied ''cannot verify client certificate'')
      | Inr peerName \<Rightarrow>
          if peerName \<noteq> clusterName then Some (Status PermissionDenied ''client certificate is not authorized for cluster'')
          else None)"

section \<open>Lemmas\<close>

lemma authorized_names:
  "authorizeClusterName ctx c = None \<longleftrightarrow>
   (\<exists>u certs vchains. ctx = Some (TLSInfo (((u @ ''@'' @ c) # certs) # vchains)) \<and> CHR ''@'' \<notin> set u \<and> c \<noteq> '''')"
proof
  assume "authorizeClusterName ctx c = None"
  then obtain cn certs vchains b where "ctx = Some (TLSInfo ((cn # certs) # vchains))" "Cut cn (CHR ''@'') = (b, c, True)" "c \<noteq> ''''"
    by (auto simp: authorizeClusterName_def peerClusterName_def Let_def
        split: sum.splits option.splits auth_info.splits list.splits prod.splits if_splits)
  with Cut_Some [of cn "CHR ''@''" b c]
  show "\<exists>u certs vchains. ctx = Some (TLSInfo (((u @ ''@'' @ c) # certs) # vchains)) \<and> CHR ''@'' \<notin> set u \<and> c \<noteq> ''''"
    by auto
qed (auto simp: authorizeClusterName_def peerClusterName_def Cut_append)

lemma authorized_unique:
  "authorizeClusterName ctx c = None \<Longrightarrow> authorizeClusterName ctx c' = None \<Longrightarrow> c' = c"
  by (auto simp: authorizeClusterName_def split: sum.splits if_splits)

end
