(* ===== verification/Wal_Put.thy ===== *)
theory Wal_Put
  imports Wal_Auth Repo_Keys Task_Queue
begin

text \<open>
  Receiving WALs: core/internal/server/walserver/upload.go.  A Put call is a stream of requests,
  which the block receiver hands over in batches; the handler validates every block, writes the
  payload of a batch at once, flushes it, and acknowledges the new positions.  The end of the stream
  finalises the WAL, complete or partial, and notifies tier 2.

  The state of a call is one record: the fields of putHandler with the file system, the queue, the
  positions handed to the feedback sender and the results sent to the client.  The batches and the
  error that ends them are an argument (Put_Concurrency shows which batches the receiver produces),
  and so is the answer of the final Send.  Log lines, spans and metrics are not modelled.
\<close>

section \<open>core/internal/server/walserver/klioserver.go and errors.go\<close>

record ('fs, 'n) Implementation =
  implConn :: "'fs connection"
  implUnicode :: unicode_tables
  isReadOnly :: bool
  implQueue :: "('n jetstream \<times> WALTask task_codec \<times> BackupTask task_codec) option"

definition errReadOnly :: go_error where "errReadOnly = Sentinel ''read only repository''"
definition errEmptyClusterName :: go_error where "errEmptyClusterName = Sentinel ''empty cluster name''"
definition errEmptyWALName :: go_error where "errEmptyWALName = Sentinel ''empty WAL name''"
definition errEmptySegmentSize :: go_error where "errEmptySegmentSize = Sentinel ''empty segment size''"

section \<open>core/internal/server/walserver/upload.go: block metadata\<close>

record PutRequest =
  reqClusterName :: string
  reqWalName :: string
  reqSegmentSize :: uint64
  reqWalStartLsn :: uint64
  reqSendToTier2 :: bool
  reqWalBlock :: bytes

record walUploadBlockMetadata =
  bmClusterName :: string
  bmWalFileName :: string
  bmSegmentSize :: uint64
  bmSendToTier2 :: bool
  bmWalStartLSN :: uint64

text \<open>setOrVerify at one type, with the zero value of the type as its first argument.\<close>

definition setOrVerify :: "'a \<Rightarrow> 'a \<Rightarrow> 'a \<Rightarrow> string \<Rightarrow> go_error + 'a" where
  "setOrVerify zero field incoming fieldName =
     (if field = zero then Inr incoming
      else if field \<noteq> incoming then Inl (Sentinel (''incoherent '' @ fieldName))
      else Inr field)"

definition handleRequest ::
  "walUploadBlockMetadata \<Rightarrow> PutRequest \<Rightarrow> go_error option \<times> walUploadBlockMetadata" where
  "handleRequest m request =
     (if reqClusterName request = '''' then (Some errEmptyClusterName, m)
      else if reqWalName request = '''' then (Some errEmptyWALName, m)
      else if reqSegmentSize request = 0 then (Some errEmptySegmentSize, m)
      else case setOrVerify '''' (bmClusterName m) (reqClusterName request) ''cluster name'' of
        Inl e \<Rightarrow> (Some e, m)
      | Inr c \<Rightarrow>
          let m1 = m\<lparr>bmClusterName := c\<rparr> in
          case setOrVerify '''' (bmWalFileName m1) (reqWalName request) ''wal name'' of
            Inl e \<Rightarrow> (Some e, m1)
          | Inr w \<Rightarrow>
              let m2 = m1\<lparr>bmWalFileName := w\<rparr> in
              case setOrVerify 0 (bmSegmentSize m2) (reqSegmentSize request) ''wal segment size'' of
                Inl e \<Rightarrow> (Some e, m2)
              | Inr n \<Rightarrow>
                  let m3 = m2\<lparr>bmSegmentSize := n\<rparr> in
                  case setOrVerify 0 (bmWalStartLSN m3) (reqWalStartLsn request) ''wal start lsn'' of
                    Inl e \<Rightarrow> (Some e, m3)
                  | Inr l \<Rightarrow> (None, m3\<lparr>bmWalStartLSN := l, bmSendToTier2 := reqSendToTier2 request\<rparr>))"

section \<open>core/internal/server/walserver/upload.go: the handler\<close>

record ('fs, 'n) putHandler =
  blockMeta :: walUploadBlockMetadata
  walBuffer :: "Writer option"
  writtenBytes :: uint64
  flushedBytes :: uint64
  phFs :: 'fs
  phQueue :: "'n manager"
  phFeedback :: "(uint64 \<times> uint64) list"
  phSent :: "(uint64 \<times> uint64) list"

definition new_handler :: "'fs \<Rightarrow> 'n manager \<Rightarrow> ('fs, 'n) putHandler" where
  "new_handler s q =
     \<lparr>blockMeta = \<lparr>bmClusterName = '''', bmWalFileName = '''', bmSegmentSize = 0, bmSendToTier2 = False,
                   bmWalStartLSN = 0\<rparr>,
      walBuffer = None, writtenBytes = 0, flushedBytes = 0, phFs = s, phQueue = q, phFeedback = [], phSent = []\<rparr>"

definition putWriteBufferSize :: nat where
  "putWriteBufferSize = 4 * 1024 * 1024"

definition validateRequest :: "('fs, 'n) Implementation \<Rightarrow> call_context \<Rightarrow> PutRequest \<Rightarrow> go_error option" where
  "validateRequest impl ctx request =
     (if ValidatePathComponent (implUnicode impl) (reqClusterName request) \<noteq> None
      then Some (Status InvalidArgument ''invalid cluster name'')
      else case authorizeClusterName ctx (reqClusterName request) of
        Some e \<Rightarrow> Some e
      | None \<Rightarrow>
          if ValidatePathComponent (implUnicode impl) (reqWalName request) \<noteq> None
          then Some (Status InvalidArgument ''invalid WAL name'')
          else if ValidateWalFileName (reqWalName request) \<noteq> None
          then Some (Status InvalidArgument ''invalid WAL name'')
          else None)"

definition openWriter ::
  "('fs, 'n) Implementation \<Rightarrow> ('fs, 'n) putHandler \<Rightarrow> go_error option \<times> ('fs, 'n) putHandler" where
  "openWriter impl h =
     (case walBuffer h of
        Some _ \<Rightarrow> (None, h)
      | None \<Rightarrow>
          (case NewWriter (implConn impl)
                  \<lparr>optClusterName = bmClusterName (blockMeta h), optWALName = bmWalFileName (blockMeta h),
                   optSegmentSize = bmSegmentSize (blockMeta h), optBufferSize = putWriteBufferSize\<rparr> (phFs h) of
             (Inl e, s) \<Rightarrow> (Some (Status Internal ''error while opening new WAL''), h\<lparr>phFs := s\<rparr>)
           | (Inr w, s) \<Rightarrow> (None, h\<lparr>walBuffer := Some w, phFs := s\<rparr>)))"

definition validateBlock ::
  "('fs, 'n) Implementation \<Rightarrow> call_context \<Rightarrow> PutRequest \<Rightarrow> ('fs, 'n) putHandler \<Rightarrow>
   go_error option \<times> ('fs, 'n) putHandler" where
  "validateBlock impl ctx request h =
     (case validateRequest impl ctx request of
        Some e \<Rightarrow> (Some e, h)
      | None \<Rightarrow>
          (case handleRequest (blockMeta h) request of
             (Some e, m) \<Rightarrow> (Some (Status InvalidArgument ''incoherent block''), h\<lparr>blockMeta := m\<rparr>)
           | (None, m) \<Rightarrow> openWriter impl (h\<lparr>blockMeta := m\<rparr>)))"

definition writeBlock ::
  "('fs, 'n) Implementation \<Rightarrow> bytes \<Rightarrow> ('fs, 'n) putHandler \<Rightarrow> go_error option \<times> ('fs, 'n) putHandler" where
  "writeBlock impl data h =
     (case walBuffer h of
        None \<Rightarrow> (Some (Panic ''nil pointer dereference''), h)
      | Some w \<Rightarrow>
          (case w_WriteBlock (implConn impl) w data (phFs h) of
             (Some e, w', s) \<Rightarrow> (Some (Status Internal ''error while writing WAL''), h\<lparr>walBuffer := Some w', phFs := s\<rparr>)
           | (None, w', s) \<Rightarrow> (None, h\<lparr>walBuffer := Some w', phFs := s\<rparr>)))"

definition flushBuffer ::
  "('fs, 'n) Implementation \<Rightarrow> ('fs, 'n) putHandler \<Rightarrow> go_error option \<times> ('fs, 'n) putHandler" where
  "flushBuffer impl h =
     (case walBuffer h of
        None \<Rightarrow> (Some (Panic ''nil pointer dereference''), h)
      | Some w \<Rightarrow>
          (case w_Flush (implConn impl) w (phFs h) of
             (Some e, w', s) \<Rightarrow> (Some (Status Internal ''error while flushing WAL''), h\<lparr>walBuffer := Some w', phFs := s\<rparr>)
           | (None, w', s) \<Rightarrow> (None, h\<lparr>walBuffer := Some w', phFs := s\<rparr>)))"

definition set_feedback :: "('fs, 'n) putHandler \<Rightarrow> ('fs, 'n) putHandler" where
  "set_feedback h =
     h\<lparr>phFeedback := phFeedback h @
        [(writtenBytes h + bmWalStartLSN (blockMeta h), flushedBytes h + bmWalStartLSN (blockMeta h))]\<rparr>"

fun validate_batch ::
  "('fs, 'n) Implementation \<Rightarrow> call_context \<Rightarrow> PutRequest list \<Rightarrow> bytes \<Rightarrow> ('fs, 'n) putHandler \<Rightarrow>
   (go_error + bytes) \<times> ('fs, 'n) putHandler" where
  "validate_batch impl ctx [] payload h = (Inr payload, h)"
| "validate_batch impl ctx (request # batch) payload h =
     (case validateBlock impl ctx request h of
        (Some e, h') \<Rightarrow> (Inl e, h')
      | (None, h') \<Rightarrow> validate_batch impl ctx batch (payload @ reqWalBlock request) h')"

definition processBatch ::
  "('fs, 'n) Implementation \<Rightarrow> call_context \<Rightarrow> PutRequest list \<Rightarrow> ('fs, 'n) putHandler \<Rightarrow>
   go_error option \<times> ('fs, 'n) putHandler" where
  "processBatch impl ctx batch h =
     (case validate_batch impl ctx batch [] h of
        (Inl e, h1) \<Rightarrow> (Some e, h1)
      | (Inr payload, h1) \<Rightarrow>
          (case writeBlock impl payload h1 of
             (Some e, h2) \<Rightarrow> (Some e, h2)
           | (None, h2) \<Rightarrow>
               let h3 = set_feedback (h2\<lparr>writtenBytes := writtenBytes h2 + of_nat (length payload)\<rparr>) in
               (case flushBuffer impl h3 of
                  (Some e, h4) \<Rightarrow> (Some e, h4)
                | (None, h4) \<Rightarrow>
                    (None, set_feedback (h4\<lparr>flushedBytes := flushedBytes h4 + of_nat (length payload)\<rparr>)))))"

definition isCompleted :: "('fs, 'n) putHandler \<Rightarrow> bool" where
  "isCompleted h \<longleftrightarrow> flushedBytes h = bmSegmentSize (blockMeta h)"

definition closePartial ::
  "('fs, 'n) Implementation \<Rightarrow> Writer \<Rightarrow> ('fs, 'n) putHandler \<Rightarrow> go_error option \<times> ('fs, 'n) putHandler" where
  "closePartial impl w h =
     (case w_Close (implConn impl) w (phFs h) of
        (Some e, w', s) \<Rightarrow> (Some (Status Internal ''error while closing (partial) WAL''), h\<lparr>walBuffer := Some w', phFs := s\<rparr>)
      | (None, w', s) \<Rightarrow> (None, h\<lparr>walBuffer := Some w', phFs := s\<rparr>))"

definition closeComplete ::
  "('fs, 'n) Implementation \<Rightarrow> Writer \<Rightarrow> ('fs, 'n) putHandler \<Rightarrow> go_error option \<times> ('fs, 'n) putHandler" where
  "closeComplete impl w h =
     (case CloseMarkDone (implConn impl) w (phFs h) of
        (Some e, w', s) \<Rightarrow> (Some (Status Internal ''error while closing (done) WAL''), h\<lparr>walBuffer := Some w', phFs := s\<rparr>)
      | (None, w', s) \<Rightarrow> (None, h\<lparr>walBuffer := Some w', phFs := s\<rparr>))"

definition closeBuffer ::
  "('fs, 'n) Implementation \<Rightarrow> Writer \<Rightarrow> ('fs, 'n) putHandler \<Rightarrow> go_error option \<times> ('fs, 'n) putHandler" where
  "closeBuffer impl w h = (if isCompleted h then closeComplete impl w h else closePartial impl w h)"

definition closeEmpty :: "go_error option \<Rightarrow> ('fs, 'n) putHandler \<Rightarrow> go_error option \<times> ('fs, 'n) putHandler" where
  "closeEmpty sendErr h =
     (case sendErr of
        Some e \<Rightarrow> (Some (Status Internal ''error while closing (partial) WAL''), h)
      | None \<Rightarrow> (None, h\<lparr>phSent := phSent h @ [(0, 0)]\<rparr>))"

definition notifyTier2 ::
  "('fs, 'n) Implementation \<Rightarrow> ('fs, 'n) putHandler \<Rightarrow> go_error option \<times> ('fs, 'n) putHandler" where
  "notifyTier2 impl h =
     (if \<not> bmSendToTier2 (blockMeta h) then (None, h)
      else case implQueue impl of
        None \<Rightarrow> (Some (Status Internal ''queue service is uninitialized''), h)
      | Some (js, tc, _) \<Rightarrow>
          (case walBuffer h of
             None \<Rightarrow> (Some (Panic ''nil pointer dereference''), h)
           | Some w \<Rightarrow>
               (case NotifyWALReceived js tc \<lparr>wtClusterName = bmClusterName (blockMeta h),
                        wtWALName = path_Base (walFilePath w)\<rparr> (phQueue h) of
                  (Some e, q) \<Rightarrow>
                    (Some (Status Internal ''error while putting WAL message into the queue, please retry''),
                     h\<lparr>phQueue := q\<rparr>)
                | (None, q) \<Rightarrow> (None, h\<lparr>phQueue := q\<rparr>))))"

text \<open>A PutResult carries the flushed position and the written one.\<close>

definition finalize ::
  "('fs, 'n) Implementation \<Rightarrow> go_error option \<Rightarrow> ('fs, 'n) putHandler \<Rightarrow> go_error option \<times> ('fs, 'n) putHandler" where
  "finalize impl sendErr h =
     (case walBuffer h of
        None \<Rightarrow> closeEmpty sendErr h
      | Some w \<Rightarrow>
          (case closeBuffer impl w h of
             (Some e, h1) \<Rightarrow> (Some e, h1)
           | (None, h1) \<Rightarrow>
               (case sendErr of
                  Some e \<Rightarrow> (Some (Status Internal ''error while sending response''), h1)
                | None \<Rightarrow>
                    notifyTier2 impl (h1\<lparr>phSent := phSent h1 @
                      [(flushedBytes h1 + bmWalStartLSN (blockMeta h1), writtenBytes h1 + bmWalStartLSN (blockMeta h1))]\<rparr>))))"

fun put_run ::
  "('fs, 'n) Implementation \<Rightarrow> call_context \<Rightarrow> PutRequest list list \<Rightarrow> go_error option \<Rightarrow> ('fs, 'n) putHandler \<Rightarrow>
   go_error option \<times> ('fs, 'n) putHandler" where
  "put_run impl ctx [] sendErr h = finalize impl sendErr h"
| "put_run impl ctx (batch # batches) sendErr h =
     (case processBatch impl ctx batch h of
        (Some e, h') \<Rightarrow> (Some e, h')
      | (None, h') \<Rightarrow> put_run impl ctx batches sendErr h')"

definition Put ::
  "('fs, 'n) Implementation \<Rightarrow> call_context \<Rightarrow> PutRequest list list \<Rightarrow> go_error option \<Rightarrow> 'fs \<Rightarrow> 'n manager \<Rightarrow>
   go_error option \<times> ('fs, 'n) putHandler" where
  "Put impl ctx batches sendErr s q =
     (if isReadOnly impl then (Some (Status FailedPrecondition ''read only repository''), new_handler s q)
      else put_run impl ctx batches sendErr (new_handler s q))"

section \<open>The state between two batches\<close>

text \<open>Where a call writes, and the header its file starts with.\<close>

definition put_path :: "('fs, 'n) putHandler \<Rightarrow> string" where
  "put_path h = getWALArchivePath (bmClusterName (blockMeta h)) (bmWalFileName (blockMeta h))"

definition put_header :: "'fs connection \<Rightarrow> ('fs, 'n) putHandler \<Rightarrow> bytes" where
  "put_header c h = MarshalHeader (connCodec c) 1 (bmSegmentSize (blockMeta h))"

text \<open>
  The writer of the call is open on the partial file, and what it was given is the header and the
  chunks of the bytes received.
\<close>

definition put_open ::
  "'fs connection \<Rightarrow> ('fs \<Rightarrow> string \<rightharpoonup> bytes) \<Rightarrow> bytes \<Rightarrow> ('fs, 'n) putHandler \<Rightarrow> Writer \<Rightarrow> bool" where
  "put_open c files got h w \<longleftrightarrow>
     walBuffer h = Some w \<and> walFilePath w = WithPartialSuffix (put_path h) \<and> dwFile (inner w) = walFilePath w \<and>
     (\<exists>ds bs. concat ds = got \<and> wraps c ds bs \<and>
        dw_stream files (inner w) (phFs h) = Some (put_header c h @ chunk_bytes (connCodec c) bs))"

definition put_valid :: "call_context \<Rightarrow> ('fs, 'n) putHandler \<Rightarrow> bool" where
  "put_valid ctx h \<longleftrightarrow>
     authorizeClusterName ctx (bmClusterName (blockMeta h)) = None \<and>
     ValidateWalFileName (bmWalFileName (blockMeta h)) = None \<and>
     bmClusterName (blockMeta h) \<noteq> '''' \<and> bmWalFileName (blockMeta h) \<noteq> '''' \<and> bmSegmentSize (blockMeta h) \<noteq> 0"

definition put_inv ::
  "'fs connection \<Rightarrow> call_context \<Rightarrow> ('fs \<Rightarrow> string \<rightharpoonup> bytes) \<Rightarrow> 'fs \<Rightarrow> bytes \<Rightarrow> ('fs, 'n) putHandler \<Rightarrow> bool" where
  "put_inv c ctx files s0 got h \<longleftrightarrow>
     walBuffer h = None \<and> got = [] \<and> phFs h = s0 \<or>
     (\<exists>w. put_open c files got h w) \<and> put_valid ctx h \<and>
     fs_frame files {WithPartialSuffix (put_path h)} s0 (phFs h)"

section \<open>A concrete server and call\<close>

definition example_impl :: "(memfs, mem_nats) Implementation" where
  "example_impl = \<lparr>implConn = mem_connection, implUnicode = ascii_tables, isReadOnly = False,
     implQueue = Some (mem_js, mem_wal_codec, mem_backup_codec)\<rparr>"

definition example_ctx :: call_context where
  "example_ctx = Some (TLSInfo [[''klio@pg'']])"

definition example_request :: "bytes \<Rightarrow> PutRequest" where
  "example_request b = \<lparr>reqClusterName = ''pg'', reqWalName = ''00000001000000000000000A'', reqSegmentSize = 3,
     reqWalStartLsn = 0, reqSendToTier2 = True, reqWalBlock = b\<rparr>"

definition example_queue :: "mem_nats manager" where
  "example_queue = \<lparr>mgrStreams = {}, natsState = []\<rparr>"

section \<open>Lemmas: validation\<close>

lemma handleRequest_ok:
  assumes "handleRequest m req = (None, m')"
  shows "bmClusterName m' = reqClusterName req" "bmWalFileName m' = reqWalName req"
    "bmSegmentSize m' = reqSegmentSize req" "bmWalStartLSN m' = reqWalStartLsn req"
    "bmSendToTier2 m' = reqSendToTier2 req"
    "reqClusterName req \<noteq> ''''" "reqWalName req \<noteq> ''''" "reqSegmentSize req \<noteq> 0"
    "bmClusterName m = '''' \<or> bmClusterName m = reqClusterName req"
    "bmWalFileName m = '''' \<or> bmWalFileName m = reqWalName req"
    "bmSegmentSize m = 0 \<or> bmSegmentSize m = reqSegmentSize req"
    "bmWalStartLSN m = 0 \<or> bmWalStartLSN m = reqWalStartLsn req"
  using assms by (auto simp: handleRequest_def setOrVerify_def Let_def split: if_splits)

lemma validateRequest_ok:
  assumes "validateRequest impl ctx req = None"
  shows "authorizeClusterName ctx (reqClusterName req) = None" "ValidateWalFileName (reqWalName req) = None"
    "ValidatePathComponent (implUnicode impl) (reqClusterName req) = None"
  using assms by (auto simp: validateRequest_def split: if_splits option.splits)

text \<open>A block that passes leaves the positions alone, and the invariant holds with the writer open.\<close>

lemma validateBlock_ok:
  assumes laws: "fs_laws (connFs (implConn impl)) files"
    and inv: "put_inv (implConn impl) ctx files s0 got h"
    and run: "validateBlock impl ctx req h = (None, h')"
  shows "put_inv (implConn impl) ctx files s0 got h'" and "walBuffer h' \<noteq> None"
    and "writtenBytes h' = writtenBytes h" "flushedBytes h' = flushedBytes h"
    and "phFeedback h' = phFeedback h" "phSent h' = phSent h" "phQueue h' = phQueue h"
    and "bmClusterName (blockMeta h') = reqClusterName req" "bmWalFileName (blockMeta h') = reqWalName req"
    and "bmSegmentSize (blockMeta h') = reqSegmentSize req" "bmWalStartLSN (blockMeta h') = reqWalStartLsn req"
proof -
  obtain m where v: "validateRequest impl ctx req = None" and m: "handleRequest (blockMeta h) req = (None, m)"
    and o: "openWriter impl (h\<lparr>blockMeta := m\<rparr>) = (None, h')"
    using run by (auto simp: validateBlock_def split: option.splits prod.splits)
  note hr = handleRequest_ok [OF m] and vr = validateRequest_ok [OF v]
  have same: "blockMeta h' = m \<and> writtenBytes h' = writtenBytes h \<and> flushedBytes h' = flushedBytes h \<and>
      phFeedback h' = phFeedback h \<and> phSent h' = phSent h \<and> phQueue h' = phQueue h \<and> walBuffer h' \<noteq> None"
    using o by (auto simp: openWriter_def split: option.splits sum.splits prod.splits)
  then show "walBuffer h' \<noteq> None" "writtenBytes h' = writtenBytes h" "flushedBytes h' = flushedBytes h"
    "phFeedback h' = phFeedback h" "phSent h' = phSent h" "phQueue h' = phQueue h"
    "bmClusterName (blockMeta h') = reqClusterName req" "bmWalFileName (blockMeta h') = reqWalName req"
    "bmSegmentSize (blockMeta h') = reqSegmentSize req" "bmWalStartLSN (blockMeta h') = reqWalStartLsn req"
    using hr by auto
  have valid: "put_valid ctx h'"
    using same hr vr by (simp add: put_valid_def)
  show "put_inv (implConn impl) ctx files s0 got h'"
  proof (cases "walBuffer h")
    case None
    then have gotN: "got = []" "phFs h = s0" using inv by (auto simp: put_inv_def put_open_def)
    let ?opts = "\<lparr>optClusterName = bmClusterName m, optWALName = bmWalFileName m,
                   optSegmentSize = bmSegmentSize m, optBufferSize = putWriteBufferSize\<rparr>"
    obtain w s where nw: "NewWriter (implConn impl) ?opts (phFs h) = (Inr w, s)" "h' = h\<lparr>blockMeta := m, walBuffer := Some w, phFs := s\<rparr>"
      using o None by (auto simp: openWriter_def split: sum.splits prod.splits)
    from NewWriter_stream [OF laws nw(1)] gotN have
      "put_open (implConn impl) files got h' w" "fs_frame files {WithPartialSuffix (put_path h')} s0 (phFs h')"
      by (auto simp: nw(2) put_open_def put_path_def put_header_def wraps_def intro!: exI [of _ "[]"])
    with valid show ?thesis by (auto simp: put_inv_def)
  next
    case (Some w)
    then have h': "h' = h\<lparr>blockMeta := m\<rparr>" using o by (simp add: openWriter_def)
    from Some inv obtain w where op: "put_open (implConn impl) files got h w" "put_valid ctx h"
      "fs_frame files {WithPartialSuffix (put_path h)} s0 (phFs h)" by (auto simp: put_inv_def)
    then have "bmClusterName m = bmClusterName (blockMeta h)" "bmWalFileName m = bmWalFileName (blockMeta h)"
      "bmSegmentSize m = bmSegmentSize (blockMeta h)"
      using hr by (auto simp: put_valid_def)
    then have "put_path h' = put_path h" "put_header (implConn impl) h' = put_header (implConn impl) h"
      by (simp_all add: put_path_def put_header_def h')
    with op valid h' show ?thesis by (auto simp: put_inv_def put_open_def)
  qed
qed

text \<open>Two handlers that agree on everything a batch of blocks must not change.\<close>

definition same_progress :: "('fs, 'n) putHandler \<Rightarrow> ('fs, 'n) putHandler \<Rightarrow> bool" where
  "same_progress h h' \<longleftrightarrow>
     writtenBytes h' = writtenBytes h \<and> flushedBytes h' = flushedBytes h \<and> phFeedback h' = phFeedback h \<and>
     phSent h' = phSent h \<and> phQueue h' = phQueue h"

definition same_identity :: "walUploadBlockMetadata \<Rightarrow> PutRequest \<Rightarrow> bool" where
  "same_identity m req \<longleftrightarrow>
     bmClusterName m = reqClusterName req \<and> bmWalFileName m = reqWalName req \<and> bmSegmentSize m = reqSegmentSize req"

lemma validateBlock_identity:
  assumes "put_inv c ctx files s0 got h" and "walBuffer h \<noteq> None" and "validateBlock impl ctx req h = (None, h')"
    and "same_identity (blockMeta h) req'"
  shows "same_identity (blockMeta h') req'"
proof -
  obtain m where m: "handleRequest (blockMeta h) req = (None, m)" and o: "openWriter impl (h\<lparr>blockMeta := m\<rparr>) = (None, h')"
    using assms(3) by (auto simp: validateBlock_def split: option.splits prod.splits)
  have "blockMeta h' = m" using o by (auto simp: openWriter_def split: option.splits sum.splits prod.splits)
  with handleRequest_ok [OF m] assms(1,2,4) show ?thesis
    by (auto simp: same_identity_def put_inv_def put_valid_def)
qed

lemma validate_batch_ok:
  assumes laws: "fs_laws (connFs (implConn impl)) files"
    and inv: "put_inv (implConn impl) ctx files s0 got h"
    and run: "validate_batch impl ctx batch acc h = (Inr payload, h')"
  shows "put_inv (implConn impl) ctx files s0 got h' \<and> same_progress h h' \<and>
     payload = acc @ concat (map reqWalBlock batch) \<and>
     (\<forall>req \<in> set batch. same_identity (blockMeta h') req) \<and>
     (walBuffer h \<noteq> None \<longrightarrow> (\<forall>req. same_identity (blockMeta h) req \<longrightarrow> same_identity (blockMeta h') req)) \<and>
     (walBuffer h \<noteq> None \<longrightarrow> walBuffer h' \<noteq> None)"
  using inv run
proof (induction batch arbitrary: acc h)
  case (Cons req batch)
  obtain h1 where 1: "validateBlock impl ctx req h = (None, h1)"
    and 2: "validate_batch impl ctx batch (acc @ reqWalBlock req) h1 = (Inr payload, h')"
    using Cons.prems(2) by (auto split: prod.splits option.splits)
  note v = validateBlock_ok [OF laws Cons.prems(1) 1]
  from v(8-10) have "same_identity (blockMeta h1) req" by (simp add: same_identity_def)
  moreover have "walBuffer h \<noteq> None \<Longrightarrow> same_identity (blockMeta h) req' \<Longrightarrow> same_identity (blockMeta h1) req'" for req'
    using validateBlock_identity [OF Cons.prems(1) _ 1] by blast
  moreover note Cons.IH [OF v(1) 2] v(2-7)
  ultimately show ?case by (auto simp: same_progress_def)
qed (auto simp: same_progress_def)

lemma writeBlock_ok:
  assumes laws: "fs_laws (connFs (implConn impl)) files"
    and inv: "put_inv (implConn impl) ctx files s0 got h" and run: "writeBlock impl data h = (None, h')"
  shows "put_inv (implConn impl) ctx files s0 (got @ data) h'" "same_progress h h'" "blockMeta h' = blockMeta h"
    "walBuffer h' \<noteq> None"
proof -
  let ?c = "implConn impl"
  obtain w where w: "walBuffer h = Some w" using run by (cases "walBuffer h") (auto simp: writeBlock_def)
  obtain w' s where wr: "w_WriteBlock ?c w data (phFs h) = (None, w', s)" and h': "h' = h\<lparr>walBuffer := Some w', phFs := s\<rparr>"
    using run w by (auto simp: writeBlock_def split: prod.splits option.splits)
  from inv w have op: "put_open ?c files got h w" and v: "put_valid ctx h"
    and fr: "fs_frame files {WithPartialSuffix (put_path h)} s0 (phFs h)"
    by (auto simp: put_inv_def put_open_def)
  from wr have step: "writer_step ?c (OpWrite data) w (phFs h) = (None, w', s)" by simp
  from op obtain ds bs where ds: "concat ds = got" "wraps ?c ds bs"
    "dw_stream files (inner w) (phFs h) = Some (put_header ?c h @ chunk_bytes (connCodec ?c) bs)"
    by (auto simp: put_open_def)
  note st = writer_step_stream [OF laws step]
  from st(2) [OF refl ds(3)] obtain ds' bs' where ds': "concat ds' = data" "wraps ?c ds' bs'"
    "dw_stream files (inner w') s = Some (put_header ?c h @ chunk_bytes (connCodec ?c) (bs @ bs'))"
    by (auto simp: chunk_bytes_append)
  have "concat (ds @ ds') = got @ data" using ds(1) ds'(1) by simp
  with wraps_append [OF ds(2) ds'(2)] ds'(3) have "\<exists>ds bs. concat ds = got @ data \<and> wraps ?c ds bs \<and>
      dw_stream files (inner w') s = Some (put_header ?c h @ chunk_bytes (connCodec ?c) bs)" by blast
  then have "put_open ?c files (got @ data) h' w'"
    using op st(1) by (simp add: put_open_def h' put_path_def put_header_def)
  moreover have "fs_frame files {WithPartialSuffix (put_path h')} s0 (phFs h')"
    using fr st(1) op by (auto simp: h' put_path_def put_open_def intro: fs_frame_trans)
  ultimately show "put_inv ?c ctx files s0 (got @ data) h'"
    using v by (auto simp: put_inv_def put_valid_def h')
  show "same_progress h h'" "blockMeta h' = blockMeta h" "walBuffer h' \<noteq> None"
    by (simp_all add: h' same_progress_def)
qed

lemma flushBuffer_ok:
  assumes laws: "fs_laws (connFs (implConn impl)) files"
    and inv: "put_inv (implConn impl) ctx files s0 got h" and run: "flushBuffer impl h = (None, h')"
  shows "put_inv (implConn impl) ctx files s0 got h'" "same_progress h h'" "blockMeta h' = blockMeta h"
    "\<exists>w ds bs. walBuffer h' = Some w \<and> dwBuffered (inner w) = [] \<and> concat ds = got \<and> wraps (implConn impl) ds bs \<and>
       files (phFs h') (WithPartialSuffix (put_path h')) =
         Some (put_header (implConn impl) h' @ chunk_bytes (connCodec (implConn impl)) bs)"
proof -
  let ?c = "implConn impl"
  obtain w where w: "walBuffer h = Some w" using run by (cases "walBuffer h") (auto simp: flushBuffer_def)
  obtain i s where fl: "dw_Flush ?c (inner w) (phFs h) = (None, i, s)" and h': "h' = h\<lparr>walBuffer := Some (w\<lparr>inner := i\<rparr>), phFs := s\<rparr>"
    using run w by (auto simp: flushBuffer_def w_Flush_def split: prod.splits option.splits)
  from inv w have op: "put_open ?c files got h w" and v: "put_valid ctx h"
    and fr: "fs_frame files {WithPartialSuffix (put_path h)} s0 (phFs h)"
    by (auto simp: put_inv_def put_open_def)
  from op obtain ds bs where ds: "concat ds = got" "wraps ?c ds bs"
    "dw_stream files (inner w) (phFs h) = Some (put_header ?c h @ chunk_bytes (connCodec ?c) bs)"
    by (auto simp: put_open_def)
  note st = dw_Flush_stream [OF laws fl]
  from st(3) [OF refl ds(3)] have d: "dwBuffered i = []"
    "files s (dwFile (inner w)) = Some (put_header ?c h @ chunk_bytes (connCodec ?c) bs)" by auto
  then show "\<exists>w ds bs. walBuffer h' = Some w \<and> dwBuffered (inner w) = [] \<and> concat ds = got \<and> wraps ?c ds bs \<and>
       files (phFs h') (WithPartialSuffix (put_path h')) = Some (put_header ?c h' @ chunk_bytes (connCodec ?c) bs)"
    using ds op by (auto simp: h' put_open_def put_path_def put_header_def)
  have "put_open ?c files got h' (w\<lparr>inner := i\<rparr>)"
    using op st(2) ds d unfolding put_open_def h' put_path_def put_header_def
    by (auto simp: dw_stream_def)
  moreover have "fs_frame files {WithPartialSuffix (put_path h')} s0 (phFs h')"
    using fr st(1) op by (auto simp: h' put_path_def put_open_def intro: fs_frame_trans)
  ultimately show "put_inv ?c ctx files s0 got h'"
    using v by (auto simp: put_inv_def put_valid_def h')
  show "same_progress h h'" "blockMeta h' = blockMeta h"
    by (simp_all add: h' same_progress_def)
qed

section \<open>Lemmas: batches\<close>

lemma put_inv_cong:
  "walBuffer h' = walBuffer h \<Longrightarrow> phFs h' = phFs h \<Longrightarrow> blockMeta h' = blockMeta h \<Longrightarrow>
   put_inv c ctx files s0 got h' = put_inv c ctx files s0 got h"
  by (simp add: put_inv_def put_open_def put_valid_def put_path_def put_header_def)

lemma put_path_cong: "blockMeta h' = blockMeta h \<Longrightarrow> put_path h' = put_path h \<and> put_header c h' = put_header c h"
  by (simp add: put_path_def put_header_def)

lemma set_feedback_fields [simp]:
  "walBuffer (set_feedback h) = walBuffer h" "phFs (set_feedback h) = phFs h" "blockMeta (set_feedback h) = blockMeta h"
  "writtenBytes (set_feedback h) = writtenBytes h" "flushedBytes (set_feedback h) = flushedBytes h"
  "phSent (set_feedback h) = phSent h" "phQueue (set_feedback h) = phQueue h"
  by (simp_all add: set_feedback_def)

text \<open>What is on disk, not only in a buffer, after a flush: the chunks of the bytes received.\<close>

definition put_durable :: "'fs connection \<Rightarrow> ('fs \<Rightarrow> string \<rightharpoonup> bytes) \<Rightarrow> bytes \<Rightarrow> ('fs, 'n) putHandler \<Rightarrow> bool" where
  "put_durable c files got h \<longleftrightarrow>
     (\<exists>w ds bs. walBuffer h = Some w \<and> dwBuffered (inner w) = [] \<and> concat ds = got \<and> wraps c ds bs \<and>
        files (phFs h) (WithPartialSuffix (put_path h)) = Some (put_header c h @ chunk_bytes (connCodec c) bs))"

lemma processBatch_ok:
  assumes laws: "fs_laws (connFs (implConn impl)) files"
    and inv: "put_inv (implConn impl) ctx files s0 got h" and run: "processBatch impl ctx batch h = (None, h')"
  defines "data \<equiv> concat (map reqWalBlock batch)"
  shows "put_inv (implConn impl) ctx files s0 (got @ data) h'" and "put_durable (implConn impl) files (got @ data) h'"
    and "writtenBytes h' = writtenBytes h + of_nat (length data)"
    and "flushedBytes h' = flushedBytes h + of_nat (length data)"
    and "phFeedback h' = phFeedback h @
           [(writtenBytes h' + bmWalStartLSN (blockMeta h'), flushedBytes h + bmWalStartLSN (blockMeta h')),
            (writtenBytes h' + bmWalStartLSN (blockMeta h'), flushedBytes h' + bmWalStartLSN (blockMeta h'))]"
    and "phSent h' = phSent h" "phQueue h' = phQueue h"
    and "\<forall>req \<in> set batch. same_identity (blockMeta h') req"
    and "walBuffer h \<noteq> None \<Longrightarrow> same_identity (blockMeta h) req \<Longrightarrow> same_identity (blockMeta h') req"
proof -
  let ?c = "implConn impl"
  obtain payload h1 where 1: "validate_batch impl ctx batch [] h = (Inr payload, h1)"
    using run by (auto simp: processBatch_def split: sum.splits prod.splits)
  obtain h2 where 2: "writeBlock impl payload h1 = (None, h2)"
    using run 1 by (auto simp: processBatch_def split: prod.splits option.splits)
  let ?h3 = "set_feedback (h2\<lparr>writtenBytes := writtenBytes h2 + of_nat (length payload)\<rparr>)"
  obtain h4 where 4: "flushBuffer impl ?h3 = (None, h4)"
    and h': "h' = set_feedback (h4\<lparr>flushedBytes := flushedBytes h4 + of_nat (length payload)\<rparr>)"
    using run 1 2 by (auto simp: processBatch_def Let_def split: prod.splits option.splits)
  note v = validate_batch_ok [OF laws inv 1]
  then have pl: "payload = data" by (simp add: data_def)
  note w = writeBlock_ok [OF laws conjunct1 [OF v] 2]
  have inv3: "put_inv ?c ctx files s0 (got @ payload) ?h3"
    using w(1) put_inv_cong [of ?h3 h2] by simp
  note f = flushBuffer_ok [OF laws inv3 4]
  have meta: "blockMeta h' = blockMeta h1" using w(3) f(3) by (simp add: h')
  show "put_inv ?c ctx files s0 (got @ data) h'"
    using f(1) put_inv_cong [of h' h4] by (simp add: h' pl)
  show "put_durable ?c files (got @ data) h'"
    using f(4) put_path_cong [of h' h4 ?c] unfolding put_durable_def by (simp add: h' pl)
  show "writtenBytes h' = writtenBytes h + of_nat (length data)" "flushedBytes h' = flushedBytes h + of_nat (length data)"
    "phSent h' = phSent h" "phQueue h' = phQueue h"
    using v w(2) f(2) by (simp_all add: h' same_progress_def pl)
  show "phFeedback h' = phFeedback h @
           [(writtenBytes h' + bmWalStartLSN (blockMeta h'), flushedBytes h + bmWalStartLSN (blockMeta h')),
            (writtenBytes h' + bmWalStartLSN (blockMeta h'), flushedBytes h' + bmWalStartLSN (blockMeta h'))]"
    using v w(2,3) f(2,3) by (simp add: h' same_progress_def set_feedback_def)
  show "\<forall>req \<in> set batch. same_identity (blockMeta h') req"
    "walBuffer h \<noteq> None \<Longrightarrow> same_identity (blockMeta h) req \<Longrightarrow> same_identity (blockMeta h') req"
    using v meta by auto
qed

text \<open>All the batches of a call, up to the end of its stream.\<close>

fun put_batches where
  "put_batches impl ctx [] h = (None, h)"
| "put_batches impl ctx (batch # batches) h =
     (case processBatch impl ctx batch h of
        (Some e, h') \<Rightarrow> (Some e, h')
      | (None, h') \<Rightarrow> put_batches impl ctx batches h')"

lemma put_run_batches:
  "put_run impl ctx batches sendErr h =
     (case put_batches impl ctx batches h of
        (Some e, h') \<Rightarrow> (Some e, h')
      | (None, h') \<Rightarrow> finalize impl sendErr h')"
  by (induction batches arbitrary: h) (simp_all split: prod.splits option.splits)

lemma put_batches_ok:
  assumes laws: "fs_laws (connFs (implConn impl)) files"
    and inv: "put_inv (implConn impl) ctx files s0 got h" and run: "put_batches impl ctx batches h = (None, h')"
  defines "data \<equiv> concat (map reqWalBlock (concat batches))"
  shows "put_inv (implConn impl) ctx files s0 (got @ data) h' \<and>
    writtenBytes h' = writtenBytes h + of_nat (length data) \<and> flushedBytes h' = flushedBytes h + of_nat (length data) \<and>
    phSent h' = phSent h \<and> phQueue h' = phQueue h \<and>
    (\<forall>req \<in> set (concat batches). same_identity (blockMeta h') req) \<and>
    (walBuffer h \<noteq> None \<longrightarrow> (\<forall>req. same_identity (blockMeta h) req \<longrightarrow> same_identity (blockMeta h') req)) \<and>
    (batches \<noteq> [] \<longrightarrow> put_durable (implConn impl) files (got @ data) h' \<and>
       (\<exists>fb. phFeedback h' = fb @ [(writtenBytes h' + bmWalStartLSN (blockMeta h'), flushedBytes h' + bmWalStartLSN (blockMeta h'))]))"
  using inv run unfolding data_def
proof (induction batches arbitrary: h got)
  case (Cons batch batches)
  obtain h1 where 1: "processBatch impl ctx batch h = (None, h1)" and 2: "put_batches impl ctx batches h1 = (None, h')"
    using Cons.prems(2) by (auto split: prod.splits option.splits)
  note b = processBatch_ok [OF laws Cons.prems(1) 1]
  note ih = Cons.IH [OF b(1) 2]
  have open1: "walBuffer h1 \<noteq> None" using b(2) by (auto simp: put_durable_def)
  show ?case
  proof (cases "batches = []")
    case True
    with 2 have "h1 = h'" by simp
    with True b show ?thesis by auto
  next
    case False
    with ih b open1 show ?thesis by auto
  qed
qed simp

section \<open>Lemmas: the end of a call\<close>

lemma notifyTier2_frame:
  "notifyTier2 impl h = (r, h') \<Longrightarrow> phFs h' = phFs h \<and> phSent h' = phSent h \<and> blockMeta h' = blockMeta h \<and>
     flushedBytes h' = flushedBytes h"
  by (auto simp: notifyTier2_def split: if_splits option.splits prod.splits)

lemma finalize_ok:
  assumes laws: "fs_laws (connFs (implConn impl)) files"
    and inv: "put_inv (implConn impl) ctx files s0 got h" and buf: "walBuffer h \<noteq> None"
    and run: "finalize impl sendErr h = (None, h')"
  defines "final \<equiv> (if isCompleted h then TrimPartialSuffix (WithPartialSuffix (put_path h)) else WithPartialSuffix (put_path h))"
  shows "\<exists>ds bs. concat ds = got \<and> wraps (implConn impl) ds bs \<and>
           files (phFs h') final = Some (put_header (implConn impl) h @ chunk_bytes (connCodec (implConn impl)) bs)"
    and "phSent h' = phSent h @ [(flushedBytes h + bmWalStartLSN (blockMeta h), writtenBytes h + bmWalStartLSN (blockMeta h))]"
    and "blockMeta h' = blockMeta h"
proof -
  let ?c = "implConn impl"
  obtain w where w: "walBuffer h = Some w" using buf by blast
  with inv have op: "put_open ?c files got h w" by (auto simp: put_inv_def put_open_def)
  then obtain ds bs where ds: "concat ds = got" "wraps ?c ds bs"
    "dw_stream files (inner w) (phFs h) = Some (put_header ?c h @ chunk_bytes (connCodec ?c) bs)"
    and path: "walFilePath w = WithPartialSuffix (put_path h)" "dwFile (inner w) = walFilePath w"
    by (auto simp: put_open_def)
  obtain h1 where 1: "closeBuffer impl w h = (None, h1)"
    and 2: "sendErr = None"
    and 3: "notifyTier2 impl (h1\<lparr>phSent := phSent h1 @
       [(flushedBytes h1 + bmWalStartLSN (blockMeta h1), writtenBytes h1 + bmWalStartLSN (blockMeta h1))]\<rparr>) = (None, h')"
    using run w by (auto simp: finalize_def split: prod.splits option.splits)
  have keep: "blockMeta h1 = blockMeta h" "flushedBytes h1 = flushedBytes h" "writtenBytes h1 = writtenBytes h"
    "phSent h1 = phSent h"
    using 1 by (auto simp: closeBuffer_def closeComplete_def closePartial_def split: if_splits prod.splits option.splits)
  have "files (phFs h1) final = Some (put_header ?c h @ chunk_bytes (connCodec ?c) bs)"
  proof (cases "isCompleted h")
    case True
    then obtain w' where "CloseMarkDone ?c w (phFs h) = (None, w', phFs h1)"
      using 1 by (auto simp: closeBuffer_def closeComplete_def split: prod.splits option.splits)
    from CloseMarkDone_stream(3) [OF laws this refl path(2) ds(3)] True path show ?thesis by (simp add: final_def)
  next
    case False
    then obtain i where "dw_Close ?c (inner w) (phFs h) = (None, i, phFs h1)"
      using 1 by (auto simp: closeBuffer_def closePartial_def w_Close_def split: prod.splits option.splits)
    from dw_Close_stream(3) [OF laws this refl ds(3)] False path show ?thesis by (simp add: final_def)
  qed
  with ds notifyTier2_frame [OF 3] show "\<exists>ds bs. concat ds = got \<and> wraps ?c ds bs \<and>
      files (phFs h') final = Some (put_header ?c h @ chunk_bytes (connCodec ?c) bs)" by auto
  show "phSent h' = phSent h @ [(flushedBytes h + bmWalStartLSN (blockMeta h), writtenBytes h + bmWalStartLSN (blockMeta h))]"
    "blockMeta h' = blockMeta h"
    using notifyTier2_frame [OF 3] keep by auto
qed

lemma put_inv_start: "put_inv c ctx files s [] (new_handler s q)"
  by (simp add: put_inv_def new_handler_def)

text \<open>A successful call: what it stored, where, and what it told the client.\<close>

lemma Put_ok:
  assumes laws: "fs_laws (connFs (implConn impl)) files"
    and run: "Put impl ctx batches sendErr s q = (None, h)" and some: "req \<in> set (concat batches)"
  defines "data \<equiv> concat (map reqWalBlock (concat batches))"
  defines "part \<equiv> WithPartialSuffix (getWALArchivePath (reqClusterName req) (reqWalName req))"
  shows "\<forall>req' \<in> set (concat batches). reqClusterName req' = reqClusterName req \<and> reqWalName req' = reqWalName req \<and>
           reqSegmentSize req' = reqSegmentSize req"
    and "\<exists>ds bs. concat ds = data \<and> wraps (implConn impl) ds bs \<and>
           files (phFs h) (if of_nat (length data) = reqSegmentSize req then TrimPartialSuffix part else part) =
           Some (MarshalHeader (connCodec (implConn impl)) 1 (reqSegmentSize req) @ chunk_bytes (connCodec (implConn impl)) bs)"
    and "authorizeClusterName ctx (reqClusterName req) = None" "ValidateWalFileName (reqWalName req) = None"
    and "phSent h = [(of_nat (length data) + bmWalStartLSN (blockMeta h), of_nat (length data) + bmWalStartLSN (blockMeta h))]"
proof -
  let ?c = "implConn impl"
  obtain h1 where 1: "put_batches impl ctx batches (new_handler s q) = (None, h1)" and 2: "finalize impl sendErr h1 = (None, h)"
    using run by (auto simp: Put_def put_run_batches split: if_splits prod.splits option.splits)
  note b = put_batches_ok [OF laws put_inv_start 1]
  have ne: "batches \<noteq> []" using some by auto
  have inv: "put_inv ?c ctx files s data h1" using b by (simp add: data_def)
  have buf: "walBuffer h1 \<noteq> None" using b ne by (auto simp: put_durable_def)
  have ident: "\<And>req'. req' \<in> set (concat batches) \<Longrightarrow> same_identity (blockMeta h1) req'" using b by blast
  from ident some show "\<forall>req' \<in> set (concat batches). reqClusterName req' = reqClusterName req \<and> reqWalName req' = reqWalName req \<and>
      reqSegmentSize req' = reqSegmentSize req" unfolding same_identity_def by metis
  have id1: "same_identity (blockMeta h1) req" using ident some by blast
  then have paths: "put_path h1 = getWALArchivePath (reqClusterName req) (reqWalName req)"
    "put_header ?c h1 = MarshalHeader (connCodec ?c) 1 (reqSegmentSize req)"
    by (simp_all add: put_path_def put_header_def same_identity_def)
  have bytes: "flushedBytes h1 = of_nat (length data)" "writtenBytes h1 = of_nat (length data)" "phSent h1 = []"
    using b by (simp_all add: new_handler_def data_def)
  have comp: "isCompleted h1 \<longleftrightarrow> of_nat (length data) = reqSegmentSize req"
    using id1 bytes by (simp add: isCompleted_def same_identity_def)
  note f = finalize_ok [OF laws inv buf 2]
  from f(1) show "\<exists>ds bs. concat ds = data \<and> wraps ?c ds bs \<and>
      files (phFs h) (if of_nat (length data) = reqSegmentSize req then TrimPartialSuffix part else part) =
      Some (MarshalHeader (connCodec ?c) 1 (reqSegmentSize req) @ chunk_bytes (connCodec ?c) bs)"
    unfolding comp paths part_def .
  from inv buf have "put_valid ctx h1" by (auto simp: put_inv_def)
  with id1 show "authorizeClusterName ctx (reqClusterName req) = None" "ValidateWalFileName (reqWalName req) = None"
    by (simp_all add: put_valid_def same_identity_def)
  from f(2,3) bytes show "phSent h = [(of_nat (length data) + bmWalStartLSN (blockMeta h), of_nat (length data) + bmWalStartLSN (blockMeta h))]"
    by simp
qed

text \<open>And what else it changed: nothing but the WAL, under its final name or its partial one.\<close>

lemma Put_frame:
  assumes laws: "fs_laws (connFs (implConn impl)) files"
    and run: "Put impl ctx batches sendErr s q = (None, h)" and some: "req \<in> set (concat batches)"
  defines "part \<equiv> WithPartialSuffix (getWALArchivePath (reqClusterName req) (reqWalName req))"
  shows "fs_frame files {part, TrimPartialSuffix part} s (phFs h)"
proof -
  obtain h1 where 1: "put_batches impl ctx batches (new_handler s q) = (None, h1)" and 2: "finalize impl sendErr h1 = (None, h)"
    using run by (auto simp: Put_def put_run_batches split: if_splits prod.splits option.splits)
  note b = put_batches_ok [OF laws put_inv_start 1]
  have ne: "batches \<noteq> []" using some by auto
  have id1: "same_identity (blockMeta h1) req" using b some by blast
  obtain w where w: "walBuffer h1 = Some w" and op: "put_open (implConn impl) files (concat (map reqWalBlock (concat batches))) h1 w"
    and fr: "fs_frame files {WithPartialSuffix (put_path h1)} s (phFs h1)"
    using b ne by (auto simp: put_durable_def put_inv_def put_open_def)
  have part: "WithPartialSuffix (put_path h1) = part" using id1 by (simp add: put_path_def part_def same_identity_def)
  have path: "walFilePath w = part" "dwFile (inner w) = part" using op part by (auto simp: put_open_def)
  obtain h2 where h2: "closeBuffer impl w h1 = (None, h2)" "phFs h = phFs h2"
    using 2 w by (auto simp: finalize_def dest!: notifyTier2_frame split: prod.splits option.splits)
  have "fs_frame files {part, TrimPartialSuffix part} (phFs h1) (phFs h2)"
  proof (cases "isCompleted h1")
    case True
    then obtain w' where "CloseMarkDone (implConn impl) w (phFs h1) = (None, w', phFs h2)"
      using h2 by (auto simp: closeBuffer_def closeComplete_def split: prod.splits option.splits)
    from CloseMarkDone_stream(2) [OF laws this] path show ?thesis by simp
  next
    case False
    then obtain i where "dw_Close (implConn impl) (inner w) (phFs h1) = (None, i, phFs h2)"
      using h2 by (auto simp: closeBuffer_def closePartial_def w_Close_def split: prod.splits option.splits)
    from dw_Close_stream(1) [OF laws this] path show ?thesis by (auto intro: fs_frame_mono)
  qed
  with fs_frame_mono [OF fr, of "{part, TrimPartialSuffix part}"] part h2(2) show ?thesis by (auto intro: fs_frame_trans)
qed

text \<open>A call without any request changes nothing.\<close>

lemma Put_empty: "Put impl ctx batches sendErr s q = (None, h) \<Longrightarrow> concat batches = [] \<Longrightarrow> phFs h = s"
  by (cases batches) (auto simp: Put_def finalize_def closeEmpty_def new_handler_def processBatch_def writeBlock_def
      split: if_splits option.splits)

section \<open>Lemmas: where a call writes\<close>

definition put_paths :: "string \<Rightarrow> string set" where
  "put_paths cl = {p. \<exists>n. ValidateWalFileName n = None \<and>
     (p = getWALArchivePath cl n \<or> p = WithPartialSuffix (getWALArchivePath cl n))}"

definition put_confined :: "string \<Rightarrow> ('fs, 'n) putHandler \<Rightarrow> bool" where
  "put_confined cl h \<longleftrightarrow>
     (\<forall>w. walBuffer h = Some w \<longrightarrow> (\<exists>n. ValidateWalFileName n = None \<and>
        walFilePath w = WithPartialSuffix (getWALArchivePath cl n) \<and> dwFile (inner w) = walFilePath w))"

lemma archive_path_trim:
  assumes "plain_elem cl" and "ValidateWalFileName n = None"
  shows "TrimPartialSuffix (getWALArchivePath cl n) \<in> put_paths cl"
proof -
  have re: "walFileRE n" using assms(2) by (simp add: ValidateWalFileName_def split: if_splits)
  show ?thesis
  proof (cases "HasSuffix n PartialSuffix")
    case False
    from archive_path_not_partial [OF assms(1) re False] assms(2) show ?thesis
      by (auto simp: put_paths_def TrimPartialSuffix_def)
  next
    case True
    from re have "\<exists>t. length t = 24 \<and> list_all is_hex t \<and> n = t @ ''.partial''"
    proof (cases rule: walFileRE_shape)
      case (history t)
      then have "last n = CHR ''y''" by simp
      with True show ?thesis by (auto simp: HasSuffix_iff PartialSuffix_def)
    next
      case segment
      with True hex24_no_partial show ?thesis by blast
    next
      case (label t u)
      then have "last n = CHR ''p''" by simp
      with True show ?thesis by (auto simp: HasSuffix_iff PartialSuffix_def)
    qed auto
    then obtain t where t: "length t = 24" "list_all is_hex t" "n = t @ ''.partial''" by blast
    have vt: "walFileRE t"
      using t(1,2) by (auto simp: walFileRE_def Let_def list_all_iff dest: in_set_takeD in_set_dropD)
    have "archive_elems cl n = [cl, take 16 t, n]" "archive_elems cl t = [cl, take 16 t, t]"
      using stem_of_valid [OF re] stem_of_valid [OF vt] t by (simp_all add: archive_elems_def)
    then have "getWALArchivePath cl n = getWALArchivePath cl t @ PartialSuffix"
      using getWALArchivePath_elems [OF assms(1) re] getWALArchivePath_elems [OF assms(1) vt] t(3)
      by (simp add: PartialSuffix_def)
    then have "TrimPartialSuffix (getWALArchivePath cl n) = getWALArchivePath cl t"
      by (simp add: TrimPartialSuffix_def)
    with vt show ?thesis by (auto simp: put_paths_def ValidateWalFileName_def)
  qed
qed

lemma validateBlock_confined:
  assumes laws: "fs_laws (connFs (implConn impl)) files" and auth: "authorizeClusterName ctx cl = None"
    and "put_confined cl h" and run: "validateBlock impl ctx req h = (r, h')"
  shows "put_confined cl h' \<and> fs_frame files (put_paths cl) (phFs h) (phFs h')"
proof (cases "validateRequest impl ctx req")
  case (Some e)
  with run assms(3) show ?thesis by (auto simp: validateBlock_def)
next
  case None
  note vr = validateRequest_ok [OF None]
  have cl: "reqClusterName req = cl" using authorized_unique [OF auth vr(1)] .
  obtain e m where m: "handleRequest (blockMeta h) req = (e, m)" by force
  show ?thesis
  proof (cases e)
    case (Some x)
    with run None m assms(3) show ?thesis by (auto simp: validateBlock_def put_confined_def)
  next
    case e: None
    note hr = handleRequest_ok [OF m [unfolded e]]
    have o: "openWriter impl (h\<lparr>blockMeta := m\<rparr>) = (r, h')" using run None m e by (simp add: validateBlock_def)
    show ?thesis
    proof (cases "walBuffer h")
      case (Some w)
      with o assms(3) show ?thesis by (auto simp: openWriter_def put_confined_def)
    next
      case buf: None
      let ?opts = "\<lparr>optClusterName = bmClusterName m, optWALName = bmWalFileName m,
                   optSegmentSize = bmSegmentSize m, optBufferSize = putWriteBufferSize\<rparr>"
      obtain x s where nw: "NewWriter (implConn impl) ?opts (phFs h) = (x, s)" by force
      note st = NewWriter_stream [OF laws nw]
      have s: "phFs h' = s" using o buf nw by (auto simp: openWriter_def split: sum.splits)
      have "WithPartialSuffix (getWALArchivePath cl (reqWalName req)) \<in> put_paths cl"
        using vr(2) by (auto simp: put_paths_def)
      with st(1) have "fs_frame files (put_paths cl) (phFs h) (phFs h')"
        using hr cl s by (auto intro: fs_frame_mono)
      moreover have "put_confined cl h'"
        using o buf nw st(2) vr(2) hr cl by (auto simp: openWriter_def put_confined_def split: sum.splits)
      ultimately show ?thesis by simp
    qed
  qed
qed

lemma put_confined_path:
  "put_confined cl h \<Longrightarrow> walBuffer h = Some w \<Longrightarrow> {dwFile (inner w)} \<subseteq> put_paths cl"
  by (auto simp: put_confined_def put_paths_def)

lemma validate_batch_confined:
  assumes laws: "fs_laws (connFs (implConn impl)) files" and auth: "authorizeClusterName ctx cl = None"
    and "put_confined cl h" and "validate_batch impl ctx batch acc h = (r, h')"
  shows "put_confined cl h' \<and> fs_frame files (put_paths cl) (phFs h) (phFs h')"
  using assms(3,4)
proof (induction batch arbitrary: acc h)
  case (Cons req batch)
  obtain e h1 where 1: "validateBlock impl ctx req h = (e, h1)" by force
  note c = validateBlock_confined [OF laws auth Cons.prems(1) 1]
  from Cons.prems(2) 1 consider "h' = h1" | acc' where "validate_batch impl ctx batch acc' h1 = (r, h')"
    by (auto split: option.splits)
  then show ?case using c Cons.IH by cases (auto intro: fs_frame_trans)
qed simp

lemma writer_op_confined:
  assumes laws: "fs_laws (connFs c) files" and conf: "put_confined cl h" and w: "walBuffer h = Some w"
    and step: "writer_step c x w (phFs h) = (r, w', s)"
  shows "put_confined cl (h\<lparr>walBuffer := Some w', phFs := s\<rparr>) \<and> fs_frame files (put_paths cl) (phFs h) s"
proof -
  note st = writer_step_stream(1) [OF laws step]
  from st fs_frame_mono [OF conjunct1 [OF st] put_confined_path [OF conf w]] conf w show ?thesis
    by (auto simp: put_confined_def)
qed

lemma put_confined_cong: "walBuffer h' = walBuffer h \<Longrightarrow> put_confined cl h' = put_confined cl h"
  by (simp add: put_confined_def)

lemma writeBlock_confined:
  assumes "fs_laws (connFs (implConn impl)) files" and "put_confined cl h" and "writeBlock impl data h = (r, h')"
  shows "put_confined cl h' \<and> fs_frame files (put_paths cl) (phFs h) (phFs h')"
proof (cases "walBuffer h")
  case None
  with assms show ?thesis by (simp add: writeBlock_def)
next
  case (Some w)
  obtain e w' s where 1: "writer_step (implConn impl) (OpWrite data) w (phFs h) = (e, w', s)" by (metis prod_cases3)
  with assms(3) Some have "h' = h\<lparr>walBuffer := Some w', phFs := s\<rparr>"
    by (auto simp: writeBlock_def split: option.splits)
  with writer_op_confined [OF assms(1,2) Some 1] show ?thesis by simp
qed

lemma flushBuffer_confined:
  assumes "fs_laws (connFs (implConn impl)) files" and "put_confined cl h" and "flushBuffer impl h = (r, h')"
  shows "put_confined cl h' \<and> fs_frame files (put_paths cl) (phFs h) (phFs h')"
proof (cases "walBuffer h")
  case None
  with assms show ?thesis by (simp add: flushBuffer_def)
next
  case (Some w)
  obtain e w' s where 1: "writer_step (implConn impl) OpFlush w (phFs h) = (e, w', s)" by (metis prod_cases3)
  with assms(3) Some have "h' = h\<lparr>walBuffer := Some w', phFs := s\<rparr>"
    by (auto simp: flushBuffer_def split: option.splits)
  with writer_op_confined [OF assms(1,2) Some 1] show ?thesis by simp
qed

lemma processBatch_confined:
  assumes laws: "fs_laws (connFs (implConn impl)) files" and auth: "authorizeClusterName ctx cl = None"
    and conf: "put_confined cl h" and run: "processBatch impl ctx batch h = (r, h')"
  shows "put_confined cl h' \<and> fs_frame files (put_paths cl) (phFs h) (phFs h')"
proof -
  obtain v h1 where 1: "validate_batch impl ctx batch [] h = (v, h1)" by force
  note c1 = validate_batch_confined [OF laws auth conf 1]
  show ?thesis
  proof (cases v)
    case (Inl e)
    with run 1 c1 show ?thesis by (simp add: processBatch_def)
  next
    case (Inr payload)
    obtain e2 h2 where 2: "writeBlock impl payload h1 = (e2, h2)" by force
    note c2 = writeBlock_confined [OF laws conjunct1 [OF c1] 2]
    let ?h3 = "set_feedback (h2\<lparr>writtenBytes := writtenBytes h2 + of_nat (length payload)\<rparr>)"
    obtain e4 h4 where 4: "flushBuffer impl ?h3 = (e4, h4)" by force
    have "put_confined cl ?h3" using c2 by (simp add: put_confined_def)
    from flushBuffer_confined [OF laws this 4] have c4: "put_confined cl h4" "fs_frame files (put_paths cl) (phFs h2) (phFs h4)"
      by simp_all
    show ?thesis
    proof (cases e2)
      case (Some x)
      with run 1 2 Inr c1 c2 show ?thesis by (auto simp: processBatch_def intro: fs_frame_trans)
    next
      case None
      then have "phFs h' = phFs h4 \<and> walBuffer h' = walBuffer h4"
        using run 1 2 4 Inr by (auto simp: processBatch_def Let_def split: option.splits)
      with c1 c2 c4 put_confined_cong [of h' h4 cl] show ?thesis by (auto intro: fs_frame_trans)
    qed
  qed
qed

lemma closeBuffer_confined:
  assumes laws: "fs_laws (connFs (implConn impl)) files" and plain: "plain_elem cl"
    and conf: "put_confined cl h" and w: "walBuffer h = Some w" and run: "closeBuffer impl w h = (r, h')"
  shows "fs_frame files (put_paths cl) (phFs h) (phFs h')"
proof (cases "isCompleted h")
  case True
  then obtain e w' where cm: "CloseMarkDone (implConn impl) w (phFs h) = (e, w', phFs h')"
    using run by (auto simp: closeBuffer_def closeComplete_def split: prod.splits option.splits)
  from conf w obtain n where n: "ValidateWalFileName n = None" "walFilePath w = WithPartialSuffix (getWALArchivePath cl n)"
    "dwFile (inner w) = walFilePath w" by (auto simp: put_confined_def)
  then have "{dwFile (inner w), walFilePath w, TrimPartialSuffix (walFilePath w)} \<subseteq> put_paths cl"
    using archive_path_trim [OF plain n(1)] by (auto simp: put_paths_def)
  with CloseMarkDone_stream(2) [OF laws cm] show ?thesis by (rule fs_frame_mono)
next
  case False
  then obtain e w' where "writer_step (implConn impl) OpClose w (phFs h) = (e, w', phFs h')"
    using run by (auto simp: closeBuffer_def closePartial_def split: prod.splits option.splits)
  from writer_op_confined [OF laws conf w this] show ?thesis by simp
qed

lemma finalize_confined:
  assumes laws: "fs_laws (connFs (implConn impl)) files" and plain: "plain_elem cl"
    and conf: "put_confined cl h" and run: "finalize impl sendErr h = (r, h')"
  shows "fs_frame files (put_paths cl) (phFs h) (phFs h')"
proof (cases "walBuffer h")
  case None
  with run show ?thesis by (auto simp: finalize_def closeEmpty_def split: option.splits)
next
  case (Some w)
  obtain e h1 where 1: "closeBuffer impl w h = (e, h1)" by force
  have "phFs h' = phFs h1"
    using run Some 1 by (auto simp: finalize_def dest: notifyTier2_frame split: option.splits)
  with closeBuffer_confined [OF laws plain conf Some 1] show ?thesis by simp
qed

lemma put_run_confined:
  assumes laws: "fs_laws (connFs (implConn impl)) files" and auth: "authorizeClusterName ctx cl = None" and "plain_elem cl"
    and "put_confined cl h" and "put_run impl ctx batches sendErr h = (r, h')"
  shows "fs_frame files (put_paths cl) (phFs h) (phFs h')"
  using assms(4,5)
proof (induction batches arbitrary: h)
  case Nil
  with finalize_confined [OF laws assms(3)] show ?case by simp
next
  case (Cons batch batches)
  obtain e h1 where 1: "processBatch impl ctx batch h = (e, h1)" by force
  note c = processBatch_confined [OF laws auth Cons.prems(1) 1]
  from Cons.prems(2) 1 consider "h' = h1" | "put_run impl ctx batches sendErr h1 = (r, h')"
    by (auto split: option.splits)
  then show ?case using c Cons.IH by cases (auto intro: fs_frame_trans)
qed

lemma example_validate: "validateRequest example_impl example_ctx (example_request b) = None"
proof -
  have "ValidatePathComponent ascii_tables ''pg'' = None" "authorizeClusterName example_ctx ''pg'' = None"
    "ValidatePathComponent ascii_tables ''00000001000000000000000A'' = None"
    "ValidateWalFileName ''00000001000000000000000A'' = None"
    by code_simp+
  then show ?thesis by (simp add: validateRequest_def example_impl_def example_request_def)
qed

lemmas put_defs = put_run.simps processBatch_def validate_batch.simps validateBlock_def example_validate handleRequest_def
  setOrVerify_def openWriter_def writeBlock_def flushBuffer_def set_feedback_def new_handler_def finalize_def
  closeBuffer_def isCompleted_def closeComplete_def closePartial_def notifyTier2_def NotifyWALReceived_def notifyMessage_def
  putWriteBufferSize_def

lemma example_fields [simp]:
  "implConn example_impl = mem_connection" "isReadOnly example_impl = False" "implUnicode example_impl = ascii_tables"
  "implQueue example_impl = Some (mem_js, mem_wal_codec, mem_backup_codec)"
  "reqClusterName (example_request b) = ''pg''" "reqWalName (example_request b) = ''00000001000000000000000A''"
  "reqSegmentSize (example_request b) = 3" "reqWalStartLsn (example_request b) = 0"
  "reqSendToTier2 (example_request b) = True" "reqWalBlock (example_request b) = b"
  "PublishMsg mem_js msg n = (None, ((msgSubject msg, of_nat (length n)), msgData msg) # n)"
  "taskMarshal mem_wal_codec t = Inr (name_bytes (wtClusterName t @ ''/'' @ wtWALName t))"
  by (simp_all add: example_impl_def example_request_def mem_js_def mem_wal_codec_def)

lemma example_put:
  "\<exists>h. Put example_impl example_ctx [[example_request [1], example_request [2]], [example_request [3]]] None [] example_queue = (None, h)"
  by (simp add: Put_def put_defs writer_defs mem_defs example_paths WriteBlock_loop.simps)

lemma example_batches:
  "\<exists>h. put_batches example_impl example_ctx [[example_request [1], example_request [2]]] (new_handler [] example_queue) = (None, h) \<and>
     bmWalStartLSN (blockMeta h) = 0"
  by (simp add: put_defs writer_defs mem_defs example_paths WriteBlock_loop.simps)

section \<open>Properties\<close>



text \<open>
  C11: a client writes only into the cluster of its certificate.  Whatever the requests ask for and
  whether the call succeeds, every file that a Put changes is the WAL file, or its partial form, of
  a valid WAL name in the cluster that the common name of the client certificate carries.
\<close>

theorem put_writes_only_certificate_cluster:
  assumes "fs_laws (connFs (implConn impl)) files" and "authorizeClusterName ctx cl = None" and "plain_elem cl"
    and "Put impl ctx batches sendErr s q = (r, h)"
  shows "\<forall>p. files (phFs h) p \<noteq> files s p \<longrightarrow>
           (\<exists>w. ValidateWalFileName w = None \<and>
              (p = getWALArchivePath cl w \<or> p = WithPartialSuffix (getWALArchivePath cl w)))"
proof -
  have "fs_frame files (put_paths cl) s (phFs h)"
    using assms(4) put_run_confined [OF assms(1-3), of "new_handler s q" batches sendErr r h]
    by (auto simp: Put_def new_handler_def put_confined_def split: if_splits)
  then show ?thesis unfolding fs_frame_def put_paths_def by blast
qed

theorem put_writes_only_certificate_cluster_witness:
  "\<exists>h. Put example_impl example_ctx [[example_request [1], example_request [2]], [example_request [3]]] None [] example_queue = (None, h) \<and>
     mem_files (phFs h) ''other/0000000100000000/00000001000000000000000A'' = None"
proof -
  obtain h where h: "Put example_impl example_ctx [[example_request [1], example_request [2]], [example_request [3]]] None [] example_queue = (None, h)"
    using example_put by blast
  have plain: "plain_elem ''pg''" and auth: "authorizeClusterName example_ctx ''pg'' = None" by code_simp+
  have laws: "fs_laws (connFs (implConn example_impl)) mem_files" by simp
  have start: "take 3 (getWALArchivePath ''pg'' w) = ''pg/''" if "ValidateWalFileName w = None" for w
  proof -
    have re: "walFileRE w" using that by (simp add: ValidateWalFileName_def split: if_splits)
    from getWALArchivePath_elems [OF plain re] show ?thesis by (simp add: archive_elems_def)
  qed
  have "''other/0000000100000000/00000001000000000000000A'' \<noteq> getWALArchivePath ''pg'' w \<and>
      ''other/0000000100000000/00000001000000000000000A'' \<noteq> WithPartialSuffix (getWALArchivePath ''pg'' w)"
    if "ValidateWalFileName w = None" for w
  proof -
    from start [OF that] have "take 1 (getWALArchivePath ''pg'' w) = ''p''" by (cases "getWALArchivePath ''pg'' w") auto
    then show ?thesis by (auto simp: WithPartialSuffix_def dest: arg_cong [of _ _ "take 1"])
  qed
  with put_writes_only_certificate_cluster [OF laws auth plain h] have
    "mem_files (phFs h) ''other/0000000100000000/00000001000000000000000A'' =
     mem_files [] ''other/0000000100000000/00000001000000000000000A''" by blast
  with h show ?thesis by (simp add: mem_files_def)
qed

text \<open>
  A stream cannot switch identity.  When a Put succeeds, all its requests named the same cluster,
  the same WAL file and the same segment size, the cluster is the one of the certificate and the name
  is valid; and the client was told exactly one result, with the flushed position equal to the
  written one.
\<close>

lemma put_stream_keeps_identity:
  assumes "fs_laws (connFs (implConn impl)) files"
    and "Put impl ctx batches sendErr s q = (None, h)" and "req \<in> set (concat batches)" and "req' \<in> set (concat batches)"
  shows "reqClusterName req' = reqClusterName req \<and> reqWalName req' = reqWalName req \<and>
         reqSegmentSize req' = reqSegmentSize req \<and> authorizeClusterName ctx (reqClusterName req) = None \<and>
         ValidateWalFileName (reqWalName req) = None \<and> (\<exists>lsn. phSent h = [(lsn, lsn)])"
  using Put_ok [OF assms(1-3)] assms(4) by blast

text \<open>
  The check on the start position is weaker than the comment on setOrVerify says: zero counts as
  not yet set, so after requests with start position 0 a later request may carry any other one, and
  all acknowledged positions move by it.
\<close>

lemma zero_start_lsn_can_change:
  assumes "handleRequest m req = (None, m')" and "reqWalStartLsn req = 0"
  shows "\<exists>m''. handleRequest m' (req\<lparr>reqWalStartLsn := l\<rparr>) = (None, m'') \<and> bmWalStartLSN m'' = l"
  using handleRequest_ok [OF assms(1)] assms(2)
  by (auto simp: handleRequest_def setOrVerify_def Let_def)

end
