(* ===== verification/Wal_Calls.thy ===== *)
theory Wal_Calls
  imports Wal_Put
begin

text \<open>
  The other calls of the WAL server (core/internal/server/walserver): reading a WAL (download.go),
  cluster metadata (metadata.go), negotiating and resetting the start of a stream (streaming.go),
  retention policies (retention.go) and closing a backup (backup.go).

  Protobuf is the record \<open>proto\<close> with the hypothesis \<open>proto_laws\<close>; the WAL arithmetic of the machinery
  module (LSNStartFromWALName, Parse, WALFileName) is the record \<open>lsn_math\<close>.  The clock is an
  argument.  The answers of the stream's Send are a function of the number of the block.
\<close>

section \<open>Messages\<close>

record WALGap =
  gapTs :: int
  gapStart :: string
  gapEnd :: string

record ClusterMetadata =
  SystemId :: string
  Gaps :: "WALGap list"

record TierRetentionPolicy =
  Latest :: int

record RetentionPolicy =
  Tier1Policy :: "TierRetentionPolicy option"
  Tier2Policy :: "TierRetentionPolicy option"

record proto =
  MarshalMetadata :: "ClusterMetadata \<Rightarrow> go_error + bytes"
  UnmarshalMetadata :: "bytes \<Rightarrow> go_error + ClusterMetadata"
  MarshalPolicy :: "RetentionPolicy \<Rightarrow> go_error + bytes"
  UnmarshalPolicy :: "bytes \<Rightarrow> go_error + RetentionPolicy"

record lsn_math =
  LSNStartFromWALName :: "string \<Rightarrow> uint64 \<Rightarrow> go_error + string"
  LSNParse :: "string \<Rightarrow> go_error + uint64"
  WALFileNameAt :: "uint64 \<Rightarrow> int \<Rightarrow> uint64 \<Rightarrow> go_error + string"

section \<open>core/internal/server/walserver/download.go\<close>

definition metadataFileName :: string where "metadataFileName = ''metadata''"

record GetRequest =
  getClusterName :: string
  getWalName :: string

type_synonym GetResult = "bytes \<times> uint64"

function get_loop ::
  "'fs connection \<Rightarrow> (nat \<Rightarrow> go_error option) \<Rightarrow> Reader \<Rightarrow> GetResult list \<Rightarrow> go_error option \<times> GetResult list" where
  "get_loop c sendErr r sent =
     (case ReadBlock c r of
        Inl readError \<Rightarrow>
          if \<not> errors_Is readError EOF then (Some (Status Internal ''error while reading WAL (reading into buffer)''), sent)
          else (case sendErr (length sent) of
                  Some e \<Rightarrow> (Some (Status Internal ''error while writing WAL block (sending to client GRPC)''), sent)
                | None \<Rightarrow> (None, sent @ [([], GetFileLength r)]))
      | Inr (readBytes, r') \<Rightarrow>
          (case sendErr (length sent) of
             Some e \<Rightarrow> (Some (Status Internal ''error while writing WAL block (sending to client GRPC)''), sent)
           | None \<Rightarrow> get_loop c sendErr r' (sent @ [(readBytes, GetFileLength r')])))"
  by pat_completeness auto
termination
  by (relation "measure (\<lambda>(c, sendErr, r, sent). length (rRemaining r))") (auto dest: ReadBlock_shrinks)

declare get_loop.simps [simp del]

definition getWAL ::
  "('fs, 'n) Implementation \<Rightarrow> call_context \<Rightarrow> (nat \<Rightarrow> go_error option) \<Rightarrow> GetRequest \<Rightarrow> 'fs \<Rightarrow>
   go_error option \<times> GetResult list" where
  "getWAL impl ctx sendErr req s =
     (if ValidatePathComponent (implUnicode impl) (getClusterName req) \<noteq> None
      then (Some (Status InvalidArgument ''invalid cluster name''), [])
      else case authorizeClusterName ctx (getClusterName req) of
        Some e \<Rightarrow> (Some e, [])
      | None \<Rightarrow>
          if ValidatePathComponent (implUnicode impl) (getWalName req) \<noteq> None
          then (Some (Status InvalidArgument ''invalid WAL name''), [])
          else if ValidateWalFileName (getWalName req) \<noteq> None
          then (Some (Status InvalidArgument ''invalid WAL name''), [])
          else (case NewReader (implConn impl) (getClusterName req) (getWalName req) s of
                  Inl e \<Rightarrow> if errors_Is e ErrNotExist then (Some (Status NotFound ''WAL not found''), [])
                           else (Some (Status Internal ''error while reading WAL (opening)''), [])
                | Inr walReader \<Rightarrow> get_loop (implConn impl) sendErr walReader []))"

section \<open>core/internal/server/walserver/metadata.go\<close>

definition ErrIncoherentMetadata :: go_error where
  "ErrIncoherentMetadata = Sentinel ''incoherent cluster metadata''"

definition getClusterMetadata ::
  "('fs, 'n) Implementation \<Rightarrow> proto \<Rightarrow> string \<Rightarrow> 'fs \<Rightarrow> go_error + ClusterMetadata" where
  "getClusterMetadata impl pb clusterName s =
     (case NewReader (implConn impl) clusterName metadataFileName s of
        Inl e \<Rightarrow> Inl e
      | Inr walReader \<Rightarrow>
          (case ReadBlock (implConn impl) walReader of
             Inl e \<Rightarrow> Inl e
           | Inr (data, _) \<Rightarrow>
               (case UnmarshalMetadata pb data of
                  Inl e \<Rightarrow> Inl ErrIncoherentMetadata
                | Inr metadata \<Rightarrow> Inr metadata)))"

text \<open>
  Writing a small file: the body of writeClusterMetadata and of SetRetentionPolicy after the
  marshalling.  CloseMarkDone runs deferred, and its error is only logged.
\<close>

definition write_small_file ::
  "'fs connection \<Rightarrow> (go_error \<Rightarrow> go_error) \<Rightarrow> (go_error \<Rightarrow> go_error) \<Rightarrow> string \<Rightarrow> string \<Rightarrow> bytes \<Rightarrow> 'fs \<Rightarrow>
   go_error option \<times> 'fs" where
  "write_small_file c wrapNew wrapWrite clusterName name data s =
     (case NewWriter c \<lparr>optClusterName = clusterName, optWALName = name,
              optSegmentSize = of_nat (length data), optBufferSize = 0\<rparr> s of
        (Inl e, s1) \<Rightarrow> (Some (wrapNew e), s1)
      | (Inr w, s1) \<Rightarrow>
          let (e, w2, s2) = w_WriteBlock c w data s1; (_, _, s3) = CloseMarkDone c w2 s2
          in (map_option wrapWrite e, s3))"

definition writeClusterMetadata ::
  "('fs, 'n) Implementation \<Rightarrow> proto \<Rightarrow> string \<Rightarrow> ClusterMetadata \<Rightarrow> 'fs \<Rightarrow> go_error option \<times> 'fs" where
  "writeClusterMetadata impl pb clusterName metadata s =
     (case MarshalMetadata pb metadata of
        Inl e \<Rightarrow> (Some (Wrap ''internal error while marshalling protobuf data'' e), s)
      | Inr data \<Rightarrow> write_small_file (implConn impl) (\<lambda>e. e) (\<lambda>e. e) clusterName metadataFileName data s)"

section \<open>core/internal/server/walserver/streaming.go\<close>

definition GetMetadata ::
  "('fs, 'n) Implementation \<Rightarrow> proto \<Rightarrow> call_context \<Rightarrow> string \<Rightarrow> 'fs \<Rightarrow> go_error + ClusterMetadata" where
  "GetMetadata impl pb ctx clusterName s =
     (if ValidatePathComponent (implUnicode impl) clusterName \<noteq> None
      then Inl (Status InvalidArgument ''invalid cluster name'')
      else case authorizeClusterName ctx clusterName of
        Some e \<Rightarrow> Inl e
      | None \<Rightarrow>
          (case getClusterMetadata impl pb clusterName s of
             Inl e \<Rightarrow> if errors_Is e ErrNotExist then Inl (Status NotFound ''not found'')
                      else Inl (Status Internal ''error while reading cluster metadata'')
           | Inr metadata \<Rightarrow> Inr metadata))"

record RequestWALStartRequest =
  rwClusterName :: string
  rwSystemId :: string
  rwCurrentWalName :: string

definition latest_gap_end :: "WALGap list \<Rightarrow> string" where
  "latest_gap_end gaps = foldl (\<lambda>best gap. if best < gapEnd gap then gapEnd gap else best) '''' gaps"

definition wal_start_answer ::
  "('fs, 'n) Implementation \<Rightarrow> RequestWALStartRequest \<Rightarrow> ClusterMetadata \<Rightarrow> 'fs \<Rightarrow> go_error + string" where
  "wal_start_answer impl req metadata s =
     (if SystemId metadata \<noteq> rwSystemId req then Inl (Status InvalidArgument ''invalid system ID'')
      else case GetLatestWALFileForCluster (implConn impl) (rwClusterName req) s of
        Inl e \<Rightarrow> Inl (Status Internal ''error while reading WAL directory'')
      | Inr latestStoredWAL \<Rightarrow>
          let serverSideWALFile = max latestStoredWAL (latest_gap_end (Gaps metadata))
          in Inr (if serverSideWALFile = '''' then rwCurrentWalName req else serverSideWALFile))"

definition RequestWALStart ::
  "('fs, 'n) Implementation \<Rightarrow> proto \<Rightarrow> call_context \<Rightarrow> RequestWALStartRequest \<Rightarrow> 'fs \<Rightarrow> (go_error + string) \<times> 'fs" where
  "RequestWALStart impl pb ctx req s =
     (if isReadOnly impl then (Inl (Status FailedPrecondition ''read only repository''), s)
      else if ValidatePathComponent (implUnicode impl) (rwClusterName req) \<noteq> None
      then (Inl (Status InvalidArgument ''invalid cluster name''), s)
      else case authorizeClusterName ctx (rwClusterName req) of
        Some e \<Rightarrow> (Inl e, s)
      | None \<Rightarrow>
          (case getClusterMetadata impl pb (rwClusterName req) s of
             Inr metadata \<Rightarrow> (wal_start_answer impl req metadata s, s)
           | Inl e \<Rightarrow>
               if \<not> errors_Is e ErrNotExist then (Inl (Status Internal ''error while reading cluster metadata''), s)
               else let metadata = \<lparr>SystemId = rwSystemId req, Gaps = []\<rparr> in
                    (case writeClusterMetadata impl pb (rwClusterName req) metadata s of
                       (Some e, s') \<Rightarrow> (Inl (Status Internal ''error while writing cluster metadata''), s')
                     | (None, s') \<Rightarrow> (wal_start_answer impl req metadata s', s'))))"

definition ResetWALStream ::
  "('fs, 'n) Implementation \<Rightarrow> proto \<Rightarrow> call_context \<Rightarrow> int \<Rightarrow> RequestWALStartRequest \<Rightarrow> 'fs \<Rightarrow> (go_error + string) \<times> 'fs" where
  "ResetWALStream impl pb ctx now req s =
     (if isReadOnly impl then (Inl (Status FailedPrecondition ''read only repository''), s)
      else if ValidatePathComponent (implUnicode impl) (rwClusterName req) \<noteq> None
      then (Inl (Status InvalidArgument ''invalid cluster name''), s)
      else case authorizeClusterName ctx (rwClusterName req) of
        Some e \<Rightarrow> (Inl e, s)
      | None \<Rightarrow>
          (case getClusterMetadata impl pb (rwClusterName req) s of
             Inl e \<Rightarrow> (Inl (Status Internal ''error while reading cluster metadata''), s)
           | Inr metadata \<Rightarrow>
               if SystemId metadata \<noteq> rwSystemId req then (Inl (Status InvalidArgument ''invalid system ID''), s)
               else (case GetLatestWALFileForCluster (implConn impl) (rwClusterName req) s of
                       Inl e \<Rightarrow> (Inl (Status Internal ''error while reading WAL directory''), s)
                     | Inr latestStoredWAL \<Rightarrow>
                         if latestStoredWAL = '''' then (Inl (Status InvalidArgument ''empty WAL archive''), s)
                         else if rwCurrentWalName req \<le> latestStoredWAL
                         then (Inl (Status InvalidArgument ''proposed WAL starting point too old (latest WAL archived)''), s)
                         else (case writeClusterMetadata impl pb (rwClusterName req)
                                      (metadata\<lparr>Gaps := Gaps metadata @
                                         [\<lparr>gapTs = now, gapStart = latestStoredWAL, gapEnd = rwCurrentWalName req\<rparr>]\<rparr>) s of
                                 (Some e, s') \<Rightarrow> (Inl (Status Internal ''error while writing cluster metadata''), s')
                               | (None, s') \<Rightarrow> (Inr (rwCurrentWalName req), s')))))"

section \<open>core/internal/server/walserver/retention.go\<close>

definition retentionPolicyFileName :: string where "retentionPolicyFileName = ''retention_policy''"

definition SetRetentionPolicy ::
  "('fs, 'n) Implementation \<Rightarrow> proto \<Rightarrow> call_context \<Rightarrow> string \<Rightarrow> RetentionPolicy \<Rightarrow> 'fs \<Rightarrow> go_error option \<times> 'fs" where
  "SetRetentionPolicy impl pb ctx clusterName policy s =
     (if ValidatePathComponent (implUnicode impl) clusterName \<noteq> None
      then (Some (Status InvalidArgument ''invalid cluster name''), s)
      else case authorizeClusterName ctx clusterName of
        Some e \<Rightarrow> (Some e, s)
      | None \<Rightarrow>
          (case MarshalPolicy pb policy of
             Inl e \<Rightarrow> (Some (Wrap ''internal error while marshalling protobuf data'' e), s)
           | Inr data \<Rightarrow>
               write_small_file (implConn impl) (Wrap ''internal error while creating WAL writer'')
                 (Wrap ''internal error while writing WAL block'') clusterName retentionPolicyFileName data s))"

definition GetClusterRetentionPolicy ::
  "'fs connection \<Rightarrow> proto \<Rightarrow> string \<Rightarrow> 'fs \<Rightarrow> go_error + RetentionPolicy" where
  "GetClusterRetentionPolicy c pb clusterName s =
     (case NewReader c clusterName retentionPolicyFileName s of
        Inl e \<Rightarrow> if errors_Is e ErrNotExist then Inr \<lparr>Tier1Policy = None, Tier2Policy = None\<rparr> else Inl e
      | Inr walReader \<Rightarrow>
          (case ReadBlock c walReader of
             Inl e \<Rightarrow> if errors_Is e EOF then Inr \<lparr>Tier1Policy = None, Tier2Policy = None\<rparr> else Inl e
           | Inr (data, _) \<Rightarrow>
               (case UnmarshalPolicy pb data of
                  Inl e \<Rightarrow> Inl ErrIncoherentMetadata
                | Inr policy \<Rightarrow> Inr policy)))"

definition GetRetentionPolicy ::
  "('fs, 'n) Implementation \<Rightarrow> proto \<Rightarrow> call_context \<Rightarrow> string \<Rightarrow> 'fs \<Rightarrow> go_error + RetentionPolicy" where
  "GetRetentionPolicy impl pb ctx clusterName s =
     (if ValidatePathComponent (implUnicode impl) clusterName \<noteq> None
      then Inl (Status InvalidArgument ''invalid cluster name'')
      else case authorizeClusterName ctx clusterName of
        Some e \<Rightarrow> Inl e
      | None \<Rightarrow>
          (case GetClusterRetentionPolicy (implConn impl) pb clusterName s of
             Inl e \<Rightarrow> Inl (Status Internal ''error while reading cluster retention policy'')
           | Inr policy \<Rightarrow> Inr policy))"

section \<open>core/internal/server/walserver/backup.go\<close>

record CloseBackupRequest =
  cbClusterName :: string
  cbTimeline :: int
  cbStartWal :: string
  cbEndWal :: string
  cbSegmentSize :: uint64
  cbSendToTier2 :: bool
  cbTier2CompressionPolicy :: string

record CloseBackupResult =
  Tier2Schedule :: bool
  MissingWalFiles :: "string list"

text \<open>
  The loop over the positions of a backup.  The position wraps around like any uint64, so the loop
  may not end: \<open>None\<close> is the result of a run that does not return.
\<close>

partial_function (option) check_loop ::
  "'fs connection \<Rightarrow> lsn_math \<Rightarrow> CloseBackupRequest \<Rightarrow> uint64 \<Rightarrow> 'fs \<Rightarrow> uint64 \<Rightarrow> string list \<Rightarrow>
   (go_error + string list) option" where
  "check_loop c lm request endPos s pos missing =
     (if pos \<le> endPos then
        (case WALFileNameAt lm pos (cbTimeline request) (cbSegmentSize request) of
           Inl e \<Rightarrow> Some (Inl (Status InvalidArgument ''Invalid WAL position''))
         | Inr name \<Rightarrow>
             (case IsWALFileExisting c (cbClusterName request) name s of
                Inl e \<Rightarrow> Some (Inl (Status Internal ''While checking existence of WAL file''))
              | Inr isThere \<Rightarrow>
                  check_loop c lm request endPos s (pos + cbSegmentSize request)
                    (if isThere then missing else missing @ [name])))
      else Some (Inr missing))"

definition checkWALFiles ::
  "('fs, 'n) Implementation \<Rightarrow> lsn_math \<Rightarrow> CloseBackupRequest \<Rightarrow> 'fs \<Rightarrow> (go_error + string list) option" where
  "checkWALFiles impl lm request s =
     (case LSNStartFromWALName lm (cbStartWal request) (cbSegmentSize request) of
        Inl e \<Rightarrow> Some (Inl (Status InvalidArgument ''Invalid start_wal''))
      | Inr startLSN \<Rightarrow>
          (case LSNParse lm startLSN of
             Inl e \<Rightarrow> Some (Inl (Status InvalidArgument ''Invalid start_wal''))
           | Inr startPos \<Rightarrow>
               (case LSNStartFromWALName lm (cbEndWal request) (cbSegmentSize request) of
                  Inl e \<Rightarrow> Some (Inl (Status InvalidArgument ''Invalid LSN start from end_wal''))
                | Inr endLSN \<Rightarrow>
                    (case LSNParse lm endLSN of
                       Inl e \<Rightarrow> Some (Inl (Status InvalidArgument ''Invalid end_wal''))
                     | Inr endPos \<Rightarrow> check_loop (implConn impl) lm request endPos s startPos []))))"

definition scheduleBackupRelay ::
  "('fs, 'n) Implementation \<Rightarrow> (string \<Rightarrow> go_error + CompressionPolicy) \<Rightarrow> CloseBackupRequest \<Rightarrow> 'n manager \<Rightarrow>
   go_error option \<times> 'n manager" where
  "scheduleBackupRelay impl parsePolicy request q =
     (case implQueue impl of
        None \<Rightarrow> (Some (Status Internal ''queue service is uninitialized''), q)
      | Some (js, _, btc) \<Rightarrow>
          let tier2Compression =
                (if cbTier2CompressionPolicy request = '''' then None
                 else case parsePolicy (cbTier2CompressionPolicy request) of Inl e \<Rightarrow> None | Inr p \<Rightarrow> Some p)
          in case NotifyBackupReceived js btc \<lparr>btClusterName = cbClusterName request,
                    SendToTier2 = cbSendToTier2 request, Tier2CompressionPolicy = tier2Compression\<rparr> q of
               (Some e, q') \<Rightarrow> (Some (Wrap ''while sending task to queue'' e), q')
             | (None, q') \<Rightarrow> (None, q'))"

definition CloseBackup ::
  "('fs, 'n) Implementation \<Rightarrow> lsn_math \<Rightarrow> (string \<Rightarrow> go_error + CompressionPolicy) \<Rightarrow> call_context \<Rightarrow>
   CloseBackupRequest \<Rightarrow> 'fs \<Rightarrow> 'n manager \<Rightarrow> ((go_error + CloseBackupResult) \<times> 'n manager) option" where
  "CloseBackup impl lm parsePolicy ctx request s q =
     (if ValidatePathComponent (implUnicode impl) (cbClusterName request) \<noteq> None
      then Some (Inl (Status InvalidArgument ''invalid cluster name''), q)
      else case authorizeClusterName ctx (cbClusterName request) of
        Some e \<Rightarrow> Some (Inl e, q)
      | None \<Rightarrow>
          (case checkWALFiles impl lm request s of
             None \<Rightarrow> None
           | Some (Inl e) \<Rightarrow> Some (Inl e, q)
           | Some (Inr missingWALFiles) \<Rightarrow>
               if missingWALFiles \<noteq> []
               then Some (Inr \<lparr>Tier2Schedule = False, MissingWalFiles = missingWALFiles\<rparr>, q)
               else let (r, q') = (if implQueue impl \<noteq> None then scheduleBackupRelay impl parsePolicy request q else (None, q))
                    in Some (case r of
                               Some e \<Rightarrow> Inl e
                             | None \<Rightarrow> Inr \<lparr>Tier2Schedule = (implQueue impl \<noteq> None \<and> cbSendToTier2 request),
                                            MissingWalFiles = []\<rparr>, q')))"

section \<open>What the code relies on\<close>

text \<open>
  Protobuf decodes what it encoded, and a message with every field at its default is encoded as
  no bytes at all.
\<close>

definition proto_laws :: "proto \<Rightarrow> bool" where
  "proto_laws pb \<longleftrightarrow>
     (\<forall>m b. MarshalMetadata pb m = Inr b \<longrightarrow> UnmarshalMetadata pb b = Inr m) \<and>
     (\<forall>p b. MarshalPolicy pb p = Inr b \<longrightarrow> UnmarshalPolicy pb b = Inr p) \<and>
     MarshalMetadata pb \<lparr>SystemId = '''', Gaps = []\<rparr> = Inr [] \<and>
     UnmarshalPolicy pb [] = Inr \<lparr>Tier1Policy = None, Tier2Policy = None\<rparr>"

text \<open>A file system on which the operations of a writer on an existing file do not fail.\<close>

definition fs_reliable :: "'fs afero \<Rightarrow> ('fs \<Rightarrow> string \<rightharpoonup> bytes) \<Rightarrow> bool" where
  "fs_reliable A files \<longleftrightarrow>
     (\<forall>p b s. files s p \<noteq> None \<longrightarrow> fst (FWrite A p b s) = None) \<and>
     (\<forall>p s. fst (FClose A p s) = None) \<and>
     (\<forall>p q s. files s p \<noteq> None \<longrightarrow> fst (FRename A p q s) = None)"

section \<open>Concrete encodings\<close>

definition enc_int :: "int \<Rightarrow> string list" where
  "enc_int i = [replicate (nat i) (CHR ''i''), replicate (nat (- i)) (CHR ''i'')]"

definition enc_policy :: "TierRetentionPolicy option \<Rightarrow> string list" where
  "enc_policy p = (case p of None \<Rightarrow> ['''', '''', ''''] | Some t \<Rightarrow> ''s'' # enc_int (Latest t))"

definition dec_policy :: "string \<Rightarrow> string \<Rightarrow> string \<Rightarrow> TierRetentionPolicy option" where
  "dec_policy f a b = (if f = '''' then None else Some \<lparr>Latest = int (length a) - int (length b)\<rparr>)"

fun dec_policies :: "string list \<Rightarrow> go_error + RetentionPolicy" where
  "dec_policies [f, a, b, g, c, d] = Inr \<lparr>Tier1Policy = dec_policy f a b, Tier2Policy = dec_policy g c d\<rparr>"
| "dec_policies [] = Inr \<lparr>Tier1Policy = None, Tier2Policy = None\<rparr>"
| "dec_policies _ = Inl ErrUnexpectedEOF"

fun dec_gaps :: "string list \<Rightarrow> WALGap list" where
  "dec_gaps (a # b # st # en # rest) =
     \<lparr>gapTs = int (length a) - int (length b), gapStart = st, gapEnd = en\<rparr> # dec_gaps rest"
| "dec_gaps _ = []"

definition plain_proto :: proto where
  "plain_proto =
     \<lparr>MarshalMetadata = (\<lambda>m. Inr (if m = \<lparr>SystemId = '''', Gaps = []\<rparr> then [] else
        enc_strings (SystemId m # concat (map (\<lambda>g. enc_int (gapTs g) @ [gapStart g, gapEnd g]) (Gaps m))))),
      UnmarshalMetadata = (\<lambda>b. case dec_strings [] b of
          [] \<Rightarrow> Inr \<lparr>SystemId = '''', Gaps = []\<rparr> | x # rest \<Rightarrow> Inr \<lparr>SystemId = x, Gaps = dec_gaps rest\<rparr>),
      MarshalPolicy = (\<lambda>p. Inr (enc_strings (enc_policy (Tier1Policy p) @ enc_policy (Tier2Policy p)))),
      UnmarshalPolicy = (\<lambda>b. dec_policies (dec_strings [] b))\<rparr>"

definition example_lsn :: lsn_math where
  "example_lsn = \<lparr>LSNStartFromWALName = (\<lambda>w n. Inr w), LSNParse = (\<lambda>l. Inr (of_nat (length l))),
     WALFileNameAt = (\<lambda>p tl n. Inr ''00000001000000000000000A'')\<rparr>"

definition example_close :: CloseBackupRequest where
  "example_close = \<lparr>cbClusterName = ''pg'', cbTimeline = 1, cbStartWal = '''', cbEndWal = ''x'', cbSegmentSize = 1,
     cbSendToTier2 = True, cbTier2CompressionPolicy = ''''\<rparr>"

definition example_start :: RequestWALStartRequest where
  "example_start = \<lparr>rwClusterName = ''pg'', rwSystemId = ''id'', rwCurrentWalName = ''00000001000000000000000F''\<rparr>"

definition example_policy :: RetentionPolicy where
  "example_policy = \<lparr>Tier1Policy = Some \<lparr>Latest = 2\<rparr>, Tier2Policy = None\<rparr>"

text \<open>An archive with one WAL, and what a small file with given bytes holds.\<close>

definition example_archive :: memfs where
  "example_archive = [(''pg/0000000100000000/00000001000000000000000B'', [2])]"

definition small_content :: "bytes \<Rightarrow> bytes" where
  "small_content data = le64 (of_nat (length data)) @ (if data = [] then [] else le64 (of_nat (length data)) @ data)"

section \<open>Lemmas: reading a WAL\<close>

lemma ReadBlock_length: "ReadBlock c r = Inr (d, r') \<Longrightarrow> segmentLength r' = segmentLength r"
  by (auto simp: ReadBlock_def readBlockData_def Let_def split: sum.splits if_splits)

lemma get_loop_read_all:
  "read_all c r = Inr ds \<Longrightarrow>
   get_loop c (\<lambda>_. None) r sent =
     (None, sent @ map (\<lambda>d. (d, segmentLength r)) ds @ [([], segmentLength r)])"
proof (induction c r arbitrary: ds sent rule: read_all.induct)
  case (1 c r)
  show ?case
  proof (cases "ReadBlock c r")
    case (Inl e)
    with "1.prems" show ?thesis
      by (simp add: read_all.simps [of c r] get_loop.simps [of c _ r] GetFileLength_def split: if_splits)
  next
    case (Inr p)
    obtain d r' where p: "p = (d, r')" by force
    from "1.prems" Inr p obtain ds' where ds: "read_all c r' = Inr ds'" "ds = d # ds'"
      by (auto simp: read_all.simps [of c r] split: sum.splits)
    from "1.IH" [OF Inr p [symmetric] ds(1)] Inr p ds(2) ReadBlock_length [OF Inr [unfolded p]] show ?thesis
      by (simp add: get_loop.simps [of c _ r] GetFileLength_def)
  qed
qed

lemma put_batches_validated:
  "put_batches impl ctx batches h = (None, h') \<Longrightarrow> req \<in> set (concat batches) \<Longrightarrow> validateRequest impl ctx req = None"
proof (induction batches arbitrary: h)
  case (Cons batch batches)
  have batch: "validate_batch impl ctx batch acc h0 = (Inr payload, h1) \<Longrightarrow> req \<in> set batch \<Longrightarrow>
      validateRequest impl ctx req = None" for acc h0 payload h1
    by (induction batch arbitrary: acc h0) (auto simp: validateBlock_def split: prod.splits option.splits)
  from Cons.prems(1) obtain h1 where 1: "processBatch impl ctx batch h = (None, h1)"
    and 2: "put_batches impl ctx batches h1 = (None, h')" by (auto split: prod.splits option.splits)
  from 1 obtain payload h2 where "validate_batch impl ctx batch [] h = (Inr payload, h2)"
    by (auto simp: processBatch_def split: prod.splits sum.splits)
  with batch Cons.IH [OF 2] Cons.prems(2) show ?case by auto
qed simp

section \<open>Lemmas: small files\<close>

lemma bufio_Write_err: "bufio_Write c w d s = (None, w', s') \<Longrightarrow> dwErr w' = None"
  by (auto simp: bufio_Write_def bufio_direct_def bufio_Flush_def Let_def split: if_splits prod.splits option.splits)

lemma dw_WriteBlock_single:
  assumes laws: "fs_laws (connFs c) files" and run: "dw_WriteBlock c w data s = (None, w', s')"
    and data: "data \<noteq> []" "length data \<le> walBlockSize" and st: "dw_stream files w s = Some st"
  obtains b where "WrapBlock c data defaultChunkSize = Inr b" "dwErr w' = None"
    "dw_stream files w' s' = Some (st @ chunk_bytes (connCodec c) [b])"
proof -
  have loop: "WriteBlock_loop c data 0 w s = (None, w', s')" using run data by (simp add: dw_WriteBlock_def)
  have pos: "0 < length data" and chunk: "take walBlockSize (drop 0 data) = data" using data by simp_all
  obtain b where b: "wrapBlock c data = Inr b"
    using WriteBlock_loop_steps(2) [OF pos, of c] loop chunk by (cases "wrapBlock c data") auto
  obtain r1 w1 s1 where wr: "writeBlockData c w b s = (r1, w1, s1)" by (metis prod_cases3)
  have r1: "r1 = None"
    using WriteBlock_loop_steps(3) [OF pos, of c] loop chunk b wr by (cases r1) auto
  have "WriteBlock_loop c data (0 + walBlockSize) w1 s1 = (None, w', s')"
    using WriteBlock_loop_steps(4) [OF pos, of c b w s w1 s1] loop chunk b wr r1 by simp
  then have w1: "w1 = w'" "s1 = s'" using data WriteBlock_loop_steps(1) [of walBlockSize data c w1 s1] by auto
  from writeBlockData_stream [OF laws wr [unfolded r1] st] have
    "dw_stream files w' s' = Some (st @ chunk_bytes (connCodec c) [b])" by (simp add: w1)
  moreover have "dwErr w' = None"
    using wr r1 w1 by (auto simp: writeBlockData_def Let_def dest: bufio_Write_err split: prod.splits option.splits)
  ultimately show thesis using that b by (simp add: wrapBlock_iff)
qed

lemma CloseMarkDone_reliable:
  assumes laws: "fs_laws (connFs c) files" and rel: "fs_reliable (connFs c) files"
    and st: "dw_stream files (inner w) s = Some st" and "dwErr (inner w) = None" and "dwFile (inner w) = walFilePath w"
  shows "\<exists>w' s'. CloseMarkDone c w s = (None, w', s')"
proof -
  obtain r1 i s1 where 1: "bufio_Flush c (inner w) s = (r1, i, s1)" by (metis prod_cases3)
  have "files s (dwFile (inner w)) \<noteq> None" using st by (auto simp: dw_stream_def)
  then have "fst (FWrite (connFs c) (dwFile (inner w)) (dwBuffered (inner w)) s) = None"
    using rel unfolding fs_reliable_def by blast
  then have r1: "r1 = None"
    using 1 assms(4) by (auto simp: bufio_Flush_def split: if_splits option.splits prod.splits)
  obtain e2 s2 where 2: "FClose (connFs c) (dwFile i) s1 = (e2, s2)" by force
  have e2: "e2 = None" using rel 2 unfolding fs_reliable_def by (metis fst_conv)
  have close: "dw_Close c (inner w) s = (None, i, s2)" using 1 r1 2 e2 by (simp add: dw_Close_def)
  from dw_Close_stream(3) [OF laws close refl st] have "files s2 (walFilePath w) \<noteq> None" using assms(5) by simp
  then have "fst (FRename (connFs c) (walFilePath w) (TrimPartialSuffix (walFilePath w)) s2) = None"
    using rel unfolding fs_reliable_def by blast
  then show ?thesis
    using close by (cases "FRename (connFs c) (walFilePath w) (TrimPartialSuffix (walFilePath w)) s2")
      (auto simp: CloseMarkDone_def Let_def)
qed

text \<open>The path of a small file, whose name has no extension and is not a segment name.\<close>

definition small_name :: "string \<Rightarrow> bool" where
  "small_name n \<longleftrightarrow> plain_elem n \<and> CHR ''.'' \<notin> set n \<and> length n \<noteq> 24"

lemma small_path:
  assumes "plain_elem cl" and "small_name n"
  shows "getWALArchivePath cl n = cl @ ''/'' @ n" and "\<not> HasSuffix (getWALArchivePath cl n) PartialSuffix"
proof -
  have n: "plain_elem n" "path_Ext n = ''''" "length n \<noteq> 24"
    using assms(2) by (auto simp: small_name_def path_Ext_none)
  then have "getWALArchivePath cl n = path_Join [cl, n]" by (simp add: layout_defs TrimSuffix_def)
  also have "\<dots> = join_with ''/'' [cl, n]" by (rule path_Join_plain) (use assms(1) n in auto)
  finally show p: "getWALArchivePath cl n = cl @ ''/'' @ n" by simp
  show "\<not> HasSuffix (getWALArchivePath cl n) PartialSuffix"
  proof
    assume "HasSuffix (getWALArchivePath cl n) PartialSuffix"
    then obtain u where u: "cl @ ''/'' @ n = u @ ''.partial''" by (auto simp: HasSuffix_iff PartialSuffix_def p)
    from path_Ext_dot [of "''partial''" u] u have "path_Ext (cl @ ''/'' @ n) = ''.partial''" by simp
    with path_Ext_slash [of n cl] assms(2) show False by (simp add: small_name_def)
  qed
qed

lemma small_names [simp]: "small_name metadataFileName" "small_name retentionPolicyFileName"
  by (simp_all add: small_name_def plain_elem_def metadataFileName_def retentionPolicyFileName_def)

lemma NewWriter_err: "NewWriter c opts s = (Inr w, s') \<Longrightarrow> dwErr (inner w) = None"
  by (auto simp: NewWriter_def newDirectWriterAtPath_def newDirectWriter_def Let_def dest: bufio_Write_err
      split: sum.splits prod.splits option.splits)

text \<open>A small file that was written is there, as its header and at most one block.\<close>

lemma write_small_file_stored:
  assumes laws: "fs_laws (connFs c) files" and rel: "fs_reliable (connFs c) files"
    and cl: "plain_elem cl" and n: "small_name n" and len: "length data \<le> walBlockSize"
    and run: "write_small_file c wn ww cl n data s = (None, s')"
  obtains bs where "if data = [] then bs = [] else (\<exists>b. bs = [b] \<and> WrapBlock c data defaultChunkSize = Inr b)"
    "files s' (getWALArchivePath cl n) = Some (MarshalHeader (connCodec c) 1 (of_nat (length data)) @ chunk_bytes (connCodec c) bs)"
proof -
  let ?opts = "\<lparr>optClusterName = cl, optWALName = n, optSegmentSize = of_nat (length data), optBufferSize = 0\<rparr>"
  let ?h = "MarshalHeader (connCodec c) 1 (of_nat (length data))"
  obtain w s1 where nw: "NewWriter c ?opts s = (Inr w, s1)"
    using run by (auto simp: write_small_file_def split: sum.splits prod.splits)
  obtain e i s2 where wr: "dw_WriteBlock c (inner w) data s1 = (e, i, s2)" by (metis prod_cases3)
  obtain ec w3 s3 where cm: "CloseMarkDone c (w\<lparr>inner := i\<rparr>) s2 = (ec, w3, s3)" by (metis prod_cases3)
  have e: "e = None" and s3: "s' = s3"
    using run nw wr cm by (auto simp: write_small_file_def w_WriteBlock_def)
  note ns = NewWriter_stream(2) [OF laws nw refl]
  have path: "walFilePath w = WithPartialSuffix (getWALArchivePath cl n)" "dwFile (inner w) = walFilePath w"
    "dw_stream files (inner w) s1 = Some ?h" using ns by auto
  have i: "dwFile i = walFilePath w" using dw_WriteBlock_frame [OF laws wr] path(2) by simp
  obtain bs where bs: "if data = [] then bs = [] else (\<exists>b. bs = [b] \<and> WrapBlock c data defaultChunkSize = Inr b)"
    and st: "dw_stream files i s2 = Some (?h @ chunk_bytes (connCodec c) bs)" and err: "dwErr i = None"
  proof (cases "data = []")
    case True
    with wr path(3) NewWriter_err [OF nw] that [of "[]"] show ?thesis by (simp add: dw_WriteBlock_def)
  next
    case False
    from dw_WriteBlock_single [OF laws wr [unfolded e] False len path(3)] obtain b
      where "WrapBlock c data defaultChunkSize = Inr b" "dwErr i = None"
        "dw_stream files i s2 = Some (?h @ chunk_bytes (connCodec c) [b])" by blast
    with False that [of "[b]"] show ?thesis by simp
  qed
  from CloseMarkDone_reliable [OF laws rel, of "w\<lparr>inner := i\<rparr>" s2] st err i cm have ec: "ec = None" by auto
  from CloseMarkDone_stream(3) [OF laws cm ec, of "?h @ chunk_bytes (connCodec c) bs"] i st s3 path(1)
    partial_path_neq [OF small_path(2) [OF cl n]]
  have "files s' (getWALArchivePath cl n) = Some (?h @ chunk_bytes (connCodec c) bs)" by simp
  with bs that show thesis by blast
qed

lemma read_small_file:
  assumes laws: "fs_laws (connFs c) files" and cd: "codec_laws (connCodec c) (masterKey c)"
    and bs: "if data = [] then bs = [] else (\<exists>b. bs = [b] \<and> WrapBlock c data defaultChunkSize = Inr b)"
    and f: "files s (getWALArchivePath cl n) = Some (MarshalHeader (connCodec c) 1 len @ chunk_bytes (connCodec c) bs)"
  obtains r where "NewReader c cl n s = Inr r"
    "if data = [] then ReadBlock c r = Inl (Wrap ''while reading WAL file block prefix'' EOF)
     else \<exists>r'. ReadBlock c r = Inr (data, r')"
proof -
  let ?r = "\<lparr>rRemaining = chunk_bytes (connCodec c) bs, segmentLength = len\<rparr>"
  have "NewReader c cl n s = Inr ?r" by (rule NewReader_content [OF laws cd f])
  moreover have "if data = [] then ReadBlock c ?r = Inl (Wrap ''while reading WAL file block prefix'' EOF)
     else \<exists>r'. ReadBlock c ?r = Inr (data, r')"
    using bs ReadBlock_end [of ?r c] ReadBlock_chunk [OF cd, of data "[]" _ "[]" ?r "[]"]
    by (auto simp: wraps_def split: if_splits)
  ultimately show thesis using that by blast
qed

section \<open>Lemmas: metadata and policies\<close>

lemma proto_lawsD:
  assumes "proto_laws pb"
  shows "MarshalMetadata pb m = Inr b \<Longrightarrow> UnmarshalMetadata pb b = Inr m"
    and "MarshalPolicy pb p = Inr b \<Longrightarrow> UnmarshalPolicy pb b = Inr p"
    and "MarshalMetadata pb \<lparr>SystemId = '''', Gaps = []\<rparr> = Inr []"
    and "UnmarshalPolicy pb [] = Inr \<lparr>Tier1Policy = None, Tier2Policy = None\<rparr>"
  using assms by (simp_all add: proto_laws_def)

lemma metadata_stored:
  assumes laws: "fs_laws (connFs (implConn impl)) files" "fs_reliable (connFs (implConn impl)) files"
      "codec_laws (connCodec (implConn impl)) (masterKey (implConn impl))" "proto_laws pb"
    and cl: "plain_elem cl" and data: "MarshalMetadata pb m = Inr data" "length data \<le> walBlockSize"
    and run: "writeClusterMetadata impl pb cl m s = (None, s')"
  shows "if data = [] then \<exists>e. getClusterMetadata impl pb cl s' = Inl e \<and> \<not> errors_Is e ErrNotExist
         else getClusterMetadata impl pb cl s' = Inr m"
proof -
  let ?c = "implConn impl"
  have "write_small_file ?c (\<lambda>e. e) (\<lambda>e. e) cl metadataFileName data s = (None, s')"
    using run data(1) by (simp add: writeClusterMetadata_def)
  from write_small_file_stored [OF laws(1,2) cl small_names(1) data(2) this] obtain bs where
    bs: "if data = [] then bs = [] else (\<exists>b. bs = [b] \<and> WrapBlock ?c data defaultChunkSize = Inr b)"
    "files s' (getWALArchivePath cl metadataFileName) =
       Some (MarshalHeader (connCodec ?c) 1 (of_nat (length data)) @ chunk_bytes (connCodec ?c) bs)" by blast
  from read_small_file [OF laws(1,3) bs] obtain r where r: "NewReader ?c cl metadataFileName s' = Inr r"
    "if data = [] then ReadBlock ?c r = Inl (Wrap ''while reading WAL file block prefix'' EOF)
     else \<exists>r'. ReadBlock ?c r = Inr (data, r')" by blast
  then show ?thesis
    using proto_lawsD(1) [OF laws(4) data(1)] by (auto simp: getClusterMetadata_def split: if_splits)
qed

lemma latest_gap_fold:
  fixes acc :: string
  defines "f \<equiv> \<lambda>best gap. if best < gapEnd gap then gapEnd gap else best"
  shows "acc \<le> foldl f acc gaps \<and> (\<forall>g \<in> set gaps. gapEnd g \<le> foldl f acc gaps) \<and>
         (foldl f acc gaps = acc \<or> (\<exists>g \<in> set gaps. foldl f acc gaps = gapEnd g))"
proof (induction gaps arbitrary: acc)
  case (Cons g gaps)
  have "acc \<le> f acc g" "gapEnd g \<le> f acc g" "f acc g = acc \<or> f acc g = gapEnd g"
    by (auto simp: f_def)
  with Cons.IH [of "f acc g"] show ?case by auto
qed simp

lemma latest_gap_end_max: "g \<in> set gaps \<Longrightarrow> gapEnd g \<le> latest_gap_end gaps"
  using latest_gap_fold [of "''''" gaps] by (simp add: latest_gap_end_def)

lemma latest_gap_end_origin: "latest_gap_end gaps = '''' \<or> (\<exists>g \<in> set gaps. latest_gap_end gaps = gapEnd g)"
  using latest_gap_fold [of "''''" gaps] by (simp add: latest_gap_end_def)

lemma string_le_Nil: "(s :: string) \<le> '''' \<longleftrightarrow> s = ''''"
  by (cases s) simp_all

lemma wal_start_answer_bounds:
  assumes "wal_start_answer impl req metadata s = Inr w"
  obtains latest where "SystemId metadata = rwSystemId req"
    "GetLatestWALFileForCluster (implConn impl) (rwClusterName req) s = Inr latest"
    "latest \<le> w" "\<And>g. g \<in> set (Gaps metadata) \<Longrightarrow> gapEnd g \<le> w"
    "w \<in> {latest, rwCurrentWalName req} \<union> gapEnd ` set (Gaps metadata)"
proof -
  from assms obtain latest where l: "SystemId metadata = rwSystemId req"
    "GetLatestWALFileForCluster (implConn impl) (rwClusterName req) s = Inr latest"
    and w: "w = (if max latest (latest_gap_end (Gaps metadata)) = '''' then rwCurrentWalName req
                 else max latest (latest_gap_end (Gaps metadata)))"
    by (auto simp: wal_start_answer_def Let_def split: if_splits sum.splits)
  have le: "latest \<le> max latest (latest_gap_end (Gaps metadata))"
    "g \<in> set (Gaps metadata) \<Longrightarrow> gapEnd g \<le> max latest (latest_gap_end (Gaps metadata))" for g
    using latest_gap_end_max [of g "Gaps metadata"] by (auto simp: le_max_iff_disj)
  show thesis
  proof (rule that [OF l])
    have w_le: "x \<le> w" if "x \<le> max latest (latest_gap_end (Gaps metadata))" for x
      using that w string_le_Nil [of x] by (cases "max latest (latest_gap_end (Gaps metadata)) = ''''") auto
    show "latest \<le> w" by (rule w_le [OF le(1)])
    show "gapEnd g \<le> w" if "g \<in> set (Gaps metadata)" for g by (rule w_le [OF le(2) [OF that]])
    show "w \<in> {latest, rwCurrentWalName req} \<union> gapEnd ` set (Gaps metadata)"
      using w latest_gap_end_origin [of "Gaps metadata"] by (auto simp: max_def split: if_splits)
  qed
qed

lemma policy_stored:
  assumes laws: "fs_laws (connFs (implConn impl)) files" "fs_reliable (connFs (implConn impl)) files"
      "codec_laws (connCodec (implConn impl)) (masterKey (implConn impl))" "proto_laws pb"
    and cl: "plain_elem cl" and data: "\<And>data. MarshalPolicy pb p = Inr data \<Longrightarrow> length data \<le> walBlockSize"
    and run: "SetRetentionPolicy impl pb ctx cl p s = (None, s')"
  shows "GetRetentionPolicy impl pb ctx cl s' = Inr p"
proof -
  let ?c = "implConn impl"
  from run obtain data where d: "MarshalPolicy pb p = Inr data"
    and wr: "write_small_file ?c (Wrap ''internal error while creating WAL writer'')
       (Wrap ''internal error while writing WAL block'') cl retentionPolicyFileName data s = (None, s')"
    and guards: "ValidatePathComponent (implUnicode impl) cl = None" "authorizeClusterName ctx cl = None"
    by (auto simp: SetRetentionPolicy_def split: if_splits option.splits sum.splits)
  from write_small_file_stored [OF laws(1,2) cl small_names(2) data [OF d] wr] obtain bs where
    bs: "if data = [] then bs = [] else (\<exists>b. bs = [b] \<and> WrapBlock ?c data defaultChunkSize = Inr b)"
    "files s' (getWALArchivePath cl retentionPolicyFileName) =
       Some (MarshalHeader (connCodec ?c) 1 (of_nat (length data)) @ chunk_bytes (connCodec ?c) bs)" by blast
  from read_small_file [OF laws(1,3) bs] obtain r where r: "NewReader ?c cl retentionPolicyFileName s' = Inr r"
    "if data = [] then ReadBlock ?c r = Inl (Wrap ''while reading WAL file block prefix'' EOF)
     else \<exists>r'. ReadBlock ?c r = Inr (data, r')" by blast
  then have "GetClusterRetentionPolicy ?c pb cl s' = Inr p"
    using proto_lawsD(2) [OF laws(4) d] proto_lawsD(4) [OF laws(4)]
    by (auto simp: GetClusterRetentionPolicy_def split: if_splits)
  with guards show ?thesis by (simp add: GetRetentionPolicy_def)
qed

section \<open>Lemmas: the WALs of a backup\<close>

lemma check_loop_result:
  assumes seg: "0 < cbSegmentSize req" and room: "unat endPos + unat (cbSegmentSize req) < 2 ^ 64"
  shows "\<exists>r. check_loop c lm req endPos s pos missing = Some r \<and>
     (\<forall>ms. r = Inr ms \<longrightarrow> (\<exists>new. ms = missing @ new \<and>
        (\<forall>k. unat pos + k * unat (cbSegmentSize req) \<le> unat endPos \<longrightarrow>
           (\<exists>name b. WALFileNameAt lm (pos + of_nat k * cbSegmentSize req) (cbTimeline req) (cbSegmentSize req) = Inr name \<and>
              IsWALFileExisting c (cbClusterName req) name s = Inr b \<and> (\<not> b \<longrightarrow> name \<in> set new)))))"
    (is "\<exists>r. _ = Some r \<and> ?P r pos missing")
proof (induction "unat endPos + 1 - unat pos" arbitrary: pos missing rule: less_induct)
  case less
  let ?seg = "cbSegmentSize req"
  have segpos: "0 < unat ?seg" using seg by (simp add: unat_gt_0 word_neq_0_conv)
  show ?case
  proof (cases "pos \<le> endPos")
    case False
    then have "check_loop c lm req endPos s pos missing = Some (Inr missing)" by (simp add: check_loop.simps)
    moreover have "\<not> unat pos + k * unat ?seg \<le> unat endPos" for k
      using False by (simp add: word_le_nat_alt)
    ultimately show ?thesis by auto
  next
    case True
    then have le: "unat pos \<le> unat endPos" by (simp add: word_le_nat_alt)
    have next_pos: "unat (pos + ?seg) = unat pos + unat ?seg"
      using le room by (subst unat_word_ariths(1)) simp
    show ?thesis
    proof (cases "WALFileNameAt lm pos (cbTimeline req) ?seg")
      case (Inl e)
      with True show ?thesis by (simp add: check_loop.simps)
    next
      case name: (Inr name)
      show ?thesis
      proof (cases "IsWALFileExisting c (cbClusterName req) name s")
        case (Inl e)
        with True name show ?thesis by (simp add: check_loop.simps)
      next
        case ex: (Inr b)
        let ?m = "if b then missing else missing @ [name]"
        have step: "check_loop c lm req endPos s pos missing = check_loop c lm req endPos s (pos + ?seg) ?m"
          using True name ex by (simp add: check_loop.simps [of c lm req endPos s pos])
        have "unat endPos + 1 - unat (pos + ?seg) < unat endPos + 1 - unat pos"
          using le segpos next_pos by linarith
        from less.hyps [OF this, of ?m] obtain r where
          r: "check_loop c lm req endPos s (pos + ?seg) ?m = Some r" "?P r (pos + ?seg) ?m" by blast
        have "?P r pos missing"
        proof (intro allI impI)
          fix ms
          assume "r = Inr ms"
          with r(2) obtain new where ms: "ms = ?m @ new" and all: "\<And>k. unat (pos + ?seg) + k * unat ?seg \<le> unat endPos \<Longrightarrow>
             \<exists>name b. WALFileNameAt lm (pos + ?seg + of_nat k * ?seg) (cbTimeline req) ?seg = Inr name \<and>
               IsWALFileExisting c (cbClusterName req) name s = Inr b \<and> (\<not> b \<longrightarrow> name \<in> set new)" by blast
          let ?new = "if b then new else name # new"
          have "\<exists>name' b'. WALFileNameAt lm (pos + of_nat k * ?seg) (cbTimeline req) ?seg = Inr name' \<and>
               IsWALFileExisting c (cbClusterName req) name' s = Inr b' \<and> (\<not> b' \<longrightarrow> name' \<in> set ?new)"
            if "unat pos + k * unat ?seg \<le> unat endPos" for k
          proof (cases k)
            case 0
            with name ex show ?thesis by simp
          next
            case (Suc j)
            with that all [of j] next_pos show ?thesis by (fastforce simp: algebra_simps)
          qed
          with ms show "\<exists>new. ms = missing @ new \<and> (\<forall>k. unat pos + k * unat ?seg \<le> unat endPos \<longrightarrow>
             (\<exists>name b. WALFileNameAt lm (pos + of_nat k * ?seg) (cbTimeline req) ?seg = Inr name \<and>
               IsWALFileExisting c (cbClusterName req) name s = Inr b \<and> (\<not> b \<longrightarrow> name \<in> set new)))"
            by (intro exI [of _ ?new]) auto
        qed
        with step r(1) show ?thesis by auto
      qed
    qed
  qed
qed

lemma check_loop_endless:
  assumes "check_loop c lm req endPos s pos missing = Some r"
    and "\<And>k. pos + of_nat k * cbSegmentSize req \<le> endPos"
    and "\<And>p. \<exists>name b. WALFileNameAt lm p (cbTimeline req) (cbSegmentSize req) = Inr name \<and>
           IsWALFileExisting c (cbClusterName req) name s = Inr b"
  shows False
  using assms
proof (induction c lm req endPos s pos missing r rule: check_loop.raw_induct [rotated, consumes 1, case_names step])
  case (step f c lm req endPos s pos missing r)
  from step.prems(2) [of pos] obtain name b where n: "WALFileNameAt lm pos (cbTimeline req) (cbSegmentSize req) = Inr name"
    "IsWALFileExisting c (cbClusterName req) name s = Inr b" by blast
  have "pos \<le> endPos" using step.prems(1) [of 0] by simp
  with n step.hyps have "f c lm req endPos s (pos + cbSegmentSize req) (if b then missing else missing @ [name]) = Some r"
    by simp
  moreover have "pos + cbSegmentSize req + of_nat k * cbSegmentSize req \<le> endPos" for k
    using step.prems(1) [of "Suc k"] by (simp add: algebra_simps)
  ultimately show ?case using step.IH step.prems(2) by blast
qed

lemma aligned_le_last:
  assumes "n < 64"
  shows "(of_nat a * 2 ^ n :: uint64) \<le> - (2 ^ n)"
proof -
  have lt: "(2 :: nat) ^ n < 2 ^ 64" using assms by (rule power_strict_increasing) simp
  have two: "unat (2 ^ n :: uint64) = 2 ^ n"
    using unat_of_nat [of "2 ^ n", where ?'a = 64] mod_less [OF lt] by simp
  have "unat (of_nat a * 2 ^ n :: uint64) = (a * 2 ^ n) mod 2 ^ 64"
    using unat_of_nat [of "a * 2 ^ n", where ?'a = 64] by simp
  moreover have "(a * 2 ^ n) mod 2 ^ 64 = (a mod 2 ^ (64 - n)) * 2 ^ n"
    using assms by (metis le_add_diff_inverse2 less_imp_le mult_mod_left power_add)
  moreover have "(a mod 2 ^ (64 - n)) * 2 ^ n \<le> (2 ^ (64 - n) - 1) * 2 ^ n"
    by (metis less_Suc_eq_le mult_le_mono1 Suc_diff_1 mod_less_divisor zero_less_numeral zero_less_power)
  moreover have "(2 ^ (64 - n) - 1) * 2 ^ n = (2 ^ 64 - 2 ^ n :: nat)"
    using assms by (simp add: diff_mult_distrib flip: power_add)
  moreover have "unat (- (2 ^ n) :: uint64) = 2 ^ 64 - 2 ^ n"
    using two lt unat_sub_if_size [of 0 "2 ^ n :: uint64"] by (simp add: word_size)
  ultimately show ?thesis by (simp only: word_le_nat_alt)
qed

section \<open>Lemmas: the concrete encodings\<close>

lemma enc_int_len: "int (length (replicate (nat i) x)) - int (length (replicate (nat (- i)) y)) = i"
  by simp

lemma dec_policy_enc: "enc_policy p = [f, a, b] \<Longrightarrow> dec_policy f a b = p"
  by (cases p) (auto simp: enc_policy_def enc_int_def dec_policy_def)

lemma enc_policy_three: "\<exists>f a b. enc_policy p = [f, a, b]"
  by (cases p) (auto simp: enc_policy_def enc_int_def)

lemma dec_gaps_enc: "dec_gaps (concat (map (\<lambda>g. enc_int (gapTs g) @ [gapStart g, gapEnd g]) gs)) = gs"
  by (induction gs) (simp_all add: enc_int_def)

lemma plain_proto_laws: "proto_laws plain_proto"
proof -
  have "dec_policies (enc_policy (Tier1Policy p) @ enc_policy (Tier2Policy p)) = Inr p" for p
    using enc_policy_three [of "Tier1Policy p"] enc_policy_three [of "Tier2Policy p"]
    by (auto simp: dec_policy_enc)
  then show ?thesis
    by (auto simp: proto_laws_def plain_proto_def dec_enc_strings dec_gaps_enc)
qed

lemma mem_reliable: "fs_reliable (connFs mem_connection) mem_files"
  by (auto simp: fs_reliable_def mem_files_def)

lemma example_metadata_paths:
  "getWALArchivePath ''pg'' metadataFileName = ''pg/metadata''"
  "WithPartialSuffix ''pg/metadata'' = ''pg/metadata.partial''"
  "TrimPartialSuffix ''pg/metadata.partial'' = ''pg/metadata''"
  "getWALArchivePath ''pg'' retentionPolicyFileName = ''pg/retention_policy''"
  "WithPartialSuffix ''pg/retention_policy'' = ''pg/retention_policy.partial''"
  "TrimPartialSuffix ''pg/retention_policy.partial'' = ''pg/retention_policy''"
  "path_Join [''pg'', ''0000000100000000''] = ''pg/0000000100000000''"
  by code_simp+

lemma example_cluster_checks [simp]:
  "ValidatePathComponent ascii_tables ''pg'' = None" "authorizeClusterName example_ctx ''pg'' = None"
  "plain_elem ''pg''"
  by code_simp+

lemma example_start_fields [simp]:
  "rwClusterName example_start = ''pg''" "rwSystemId example_start = ''id''"
  "rwCurrentWalName example_start = ''00000001000000000000000F''"
  by (simp_all add: example_start_def)

lemma mem_read_ops [simp]:
  "UnmarshalHeader (connCodec mem_connection) b =
     (if b = [] then Inl EOF else Inr (word_of_nat (le_value (take 8 b)), drop 8 b))"
  "ConsumeFixed64 (connCodec mem_connection) b = word_of_nat (le_value b)"
  by (simp_all add: mem_connection_def plain_codec_def)

text \<open>What writing a small file leaves on the in-memory file system.\<close>

lemma mem_del_facts [simp]:
  "mem_del p ((p, b) # s) = mem_del p s" "mem_del p (mem_del p s) = mem_del p s"
  "q \<noteq> p \<Longrightarrow> mem_del p ((q, b) # s) = (q, b) # mem_del p s" "mem_del p [] = []"
  by (simp_all add: mem_del_def)

lemma mem_buffered_write:
  "dwErr w = None \<Longrightarrow> length (dwBuffered w) + length d \<le> dwBufferSize w \<Longrightarrow>
   bufio_Write mem_connection w d s = (None, w\<lparr>dwBuffered := dwBuffered w @ d\<rparr>, s)"
  using le_diff_conv2 [of "length (dwBuffered w)" "dwBufferSize w" "length d"]
  by (simp add: bufio_Write_def Let_def add.commute)

lemma mem_buffered_block:
  assumes "dwErr w = None" and "length (dwBuffered w) + length d + 8 \<le> dwBufferSize w" and "length d < 60000"
  shows "dw_WriteBlock mem_connection w d s = (None, w\<lparr>dwBuffered := dwBuffered w @
     (if d = [] then [] else le64 (of_nat (length d)) @ d)\<rparr>, s)"
proof (cases "d = []")
  case False
  then have pos: "0 < length d" by simp
  have chunk: "take walBlockSize (drop 0 d) = d" using assms(3) by (simp add: walBlockSize_def)
  have b: "wrapBlock mem_connection d = Inr d"
    using assms(3) by (simp add: wrapBlock_def WrapBlock_def protectWriter_def)
  have wr: "writeBlockData mem_connection w d s =
      (None, w\<lparr>dwBuffered := dwBuffered w @ le64 (of_nat (length d)) @ d\<rparr>, s)"
    using assms by (simp add: writeBlockData_def Let_def mem_buffered_write)
  from WriteBlock_loop_steps(4) [OF pos, of mem_connection d w s] chunk b wr
    WriteBlock_loop_steps(1) [of walBlockSize d mem_connection] assms(3) False
  show ?thesis by (simp add: dw_WriteBlock_def walBlockSize_def)
qed (simp add: dw_WriteBlock_def)

lemma mem_small_write:
  assumes "length data < 60000"
  shows "write_small_file mem_connection wn ww cl n data s =
     (let pp = WithPartialSuffix (getWALArchivePath cl n); p = TrimPartialSuffix pp
      in (None, (p, le64 (of_nat (length data)) @ (if data = [] then [] else le64 (of_nat (length data)) @ data)) #
                mem_del p (mem_del pp s)))"
proof -
  let ?pp = "WithPartialSuffix (getWALArchivePath cl n)" and ?h = "le64 (of_nat (length data))"
  let ?opts = "\<lparr>optClusterName = cl, optWALName = n, optSegmentSize = of_nat (length data), optBufferSize = 0\<rparr>"
  let ?w = "\<lambda>b. \<lparr>walFilePath = ?pp, inner = \<lparr>dwFile = ?pp, dwClusterName = cl, dwBuffered = b,
      dwBufferSize = defaultChunkSize, dwErr = None\<rparr>\<rparr>"
  have "NewWriter mem_connection ?opts s = (Inr (?w ?h), (?pp, []) # mem_del ?pp s)"
    by (simp add: NewWriter_def newDirectWriterAtPath_def newDirectWriter_def Let_def mem_buffered_write defaultChunkSize_def)
  moreover have "dw_WriteBlock mem_connection (inner (?w ?h)) data t =
      (None, inner (?w (?h @ (if data = [] then [] else ?h @ data))), t)" for t
    using assms by (simp add: mem_buffered_block defaultChunkSize_def)
  moreover have "?h \<noteq> []" by (metis length_le64 list.size(3) zero_neq_numeral)
  ultimately show ?thesis
    by (simp add: write_small_file_def w_WriteBlock_def CloseMarkDone_def dw_Close_def bufio_Flush_def Let_def)
qed

lemma example_latest:
  "GetLatestWALFileForCluster mem_connection ''pg'' ((''pg/metadata'', b) # example_archive) = Inr ''00000001000000000000000B''"
proof -
  have "mem_entry ''pg'' ''pg/metadata'' = [(''metadata'', False)]"
    "mem_entry ''pg'' ''pg/0000000100000000/00000001000000000000000B'' = [(''0000000100000000'', True)]"
    "mem_entry ''pg/0000000100000000'' ''pg/metadata'' = []"
    "mem_entry ''pg/0000000100000000'' ''pg/0000000100000000/00000001000000000000000B'' = [(''00000001000000000000000B'', False)]"
    by code_simp+
  then show ?thesis
    by (simp add: GetLatestWALFileForCluster_def greatest_name_def example_metadata_paths example_archive_def)
qed

lemma example_write:
  assumes "MarshalMetadata plain_proto m = Inr data" and "length data < 60000"
    and "s = example_archive \<or> s = (''pg/metadata'', b) # example_archive"
  shows "writeClusterMetadata example_impl plain_proto ''pg'' m s = (None, (''pg/metadata'', small_content data) # example_archive)"
  using assms
  by (auto simp: writeClusterMetadata_def mem_small_write example_metadata_paths small_content_def example_archive_def Let_def)

lemma example_unregistered:
  "getClusterMetadata example_impl plain_proto ''pg'' example_archive = Inl (Wrap ''error while opening file'' ErrNotExist)"
  by (simp add: getClusterMetadata_def NewReader_def example_metadata_paths example_archive_def)

lemma example_request_start:
  assumes "MarshalMetadata plain_proto \<lparr>SystemId = rwSystemId req, Gaps = []\<rparr> = Inr data" and "length data < 60000"
    and "rwClusterName req = ''pg''"
  shows "RequestWALStart example_impl plain_proto example_ctx req example_archive =
     (Inr ''00000001000000000000000B'', (''pg/metadata'', small_content data) # example_archive)"
  using assms example_write [OF assms(1,2), of example_archive]
  by (simp add: RequestWALStart_def example_unregistered wal_start_answer_def example_latest latest_gap_end_def Let_def
      max_def)

definition example_registration :: bytes where
  "example_registration = enc_strings [''id'']"

definition example_gap_bytes :: bytes where
  "example_gap_bytes = enc_strings [''id'', ''iiiii'', '''', ''00000001000000000000000B'', ''00000001000000000000000F'']"

lemma example_encodings:
  "MarshalMetadata plain_proto \<lparr>SystemId = rwSystemId example_start, Gaps = []\<rparr> = Inr example_registration"
  "length example_registration < 60000"
  "MarshalMetadata plain_proto (\<lparr>SystemId = ''id'', Gaps = []\<rparr>\<lparr>Gaps := Gaps \<lparr>SystemId = ''id'', Gaps = []\<rparr> @
     [\<lparr>gapTs = 5, gapStart = ''00000001000000000000000B'', gapEnd = ''00000001000000000000000F''\<rparr>]\<rparr>) = Inr example_gap_bytes"
  "length example_gap_bytes < 60000" "example_gap_bytes \<noteq> []" "example_registration \<noteq> []"
proof -
  have "replicate 5 (CHR ''i'') = ''iiiii''" by code_simp
  then show "MarshalMetadata plain_proto (\<lparr>SystemId = ''id'', Gaps = []\<rparr>\<lparr>Gaps := Gaps \<lparr>SystemId = ''id'', Gaps = []\<rparr> @
     [\<lparr>gapTs = 5, gapStart = ''00000001000000000000000B'', gapEnd = ''00000001000000000000000F''\<rparr>]\<rparr>) = Inr example_gap_bytes"
    by (simp add: plain_proto_def example_gap_bytes_def enc_int_def)
qed (simp_all add: plain_proto_def example_registration_def example_gap_bytes_def enc_strings_def)

lemma example_registered:
  "getClusterMetadata example_impl plain_proto ''pg'' ((''pg/metadata'', small_content example_registration) # example_archive) =
     Inr \<lparr>SystemId = ''id'', Gaps = []\<rparr>"
proof -
  note w = example_write [OF example_encodings(1,2), of example_archive]
  have "length example_registration \<le> walBlockSize" using example_encodings(2) by (simp add: walBlockSize_def)
  with metadata_stored [of example_impl mem_files, OF _ _ _ plain_proto_laws _ example_encodings(1)] w example_encodings(6)
  show ?thesis by (simp add: mem_reliable)
qed

lemma example_policy_bytes:
  "MarshalPolicy plain_proto example_policy = Inr (enc_strings [''s'', ''ii'', '''', '''', '''', ''''])"
proof -
  have "replicate 2 (CHR ''i'') = ''ii''" by code_simp
  then show ?thesis by (simp add: plain_proto_def example_policy_def enc_policy_def enc_int_def)
qed

lemma example_policy_size:
  "MarshalPolicy plain_proto example_policy = Inr data \<Longrightarrow> length data \<le> walBlockSize"
  by (auto simp: example_policy_bytes enc_strings_def walBlockSize_def)

lemma example_set_policy:
  "implConn impl = mem_connection \<Longrightarrow> implUnicode impl = ascii_tables \<Longrightarrow>
   \<exists>s'. SetRetentionPolicy impl plain_proto example_ctx ''pg'' example_policy [] = (None, s')"
  by (simp add: SetRetentionPolicy_def example_policy_bytes mem_small_write enc_strings_def Let_def)

text \<open>What a client gets of a WAL that is stored as blocks.\<close>

lemma stored_wal_get:
  assumes "fs_laws (connFs (implConn impl)) files" and "codec_laws (connCodec (implConn impl)) (masterKey (implConn impl))"
    and "wraps (implConn impl) ds bs" and "validateRequest impl ctx req = None"
    and "files s (getWALArchivePath (reqClusterName req) (reqWalName req)) =
       Some (MarshalHeader (connCodec (implConn impl)) 1 (reqSegmentSize req) @ chunk_bytes (connCodec (implConn impl)) bs)"
  shows "getWAL impl ctx (\<lambda>_. None) \<lparr>getClusterName = reqClusterName req, getWalName = reqWalName req\<rparr> s =
           (None, map (\<lambda>d. (d, reqSegmentSize req)) ds @ [([], reqSegmentSize req)])"
proof -
  let ?c = "implConn impl"
  let ?r = "\<lparr>rRemaining = chunk_bytes (connCodec ?c) bs, segmentLength = reqSegmentSize req\<rparr>"
  have rd: "NewReader ?c (reqClusterName req) (reqWalName req) s = Inr ?r"
    by (rule NewReader_content [OF assms(1,2,5)])
  have "read_all ?c ?r = Inr ds" by (rule read_all_chunks [OF assms(2,3)]) simp
  from get_loop_read_all [OF this, of "[]"] have
    "get_loop ?c (\<lambda>_. None) ?r [] = (None, map (\<lambda>d. (d, reqSegmentSize req)) ds @ [([], reqSegmentSize req)])" by simp
  with assms(4) show ?thesis
    by (simp add: getWAL_def validateRequest_def rd split: if_splits option.splits)
qed

lemma Put_validated:
  "Put impl ctx batches sendErr s q = (None, h) \<Longrightarrow> req \<in> set (concat batches) \<Longrightarrow> validateRequest impl ctx req = None"
  using put_batches_validated [of impl ctx batches "new_handler s q" _ req]
  by (simp add: Put_def put_run_batches split: if_splits prod.splits option.splits)

text \<open>What a client gets after a Put that received the whole segment.\<close>

lemma put_then_get:
  assumes "fs_laws (connFs (implConn impl)) files" and "codec_laws (connCodec (implConn impl)) (masterKey (implConn impl))"
    and "Put impl ctx batches sendErr s q = (None, h)" and "req \<in> set (concat batches)"
    and "of_nat (length (concat (map reqWalBlock (concat batches)))) = reqSegmentSize req"
    and "plain_elem (reqClusterName req)" and "\<not> HasSuffix (reqWalName req) PartialSuffix"
  shows "\<exists>ds. getWAL impl ctx (\<lambda>_. None) \<lparr>getClusterName = reqClusterName req, getWalName = reqWalName req\<rparr> (phFs h) =
           (None, map (\<lambda>d. (d, reqSegmentSize req)) ds @ [([], reqSegmentSize req)]) \<and>
           concat ds = concat (map reqWalBlock (concat batches))"
proof -
  note ok = Put_ok [OF assms(1,3,4)]
  have re: "walFileRE (reqWalName req)" using ok(4) by (simp add: ValidateWalFileName_def split: if_splits)
  note np = partial_path_neq [OF archive_path_not_partial [OF assms(6) re assms(7)]]
  from ok(2) assms(5) np obtain ds bs where ds: "concat ds = concat (map reqWalBlock (concat batches))" "wraps (implConn impl) ds bs"
    "files (phFs h) (getWALArchivePath (reqClusterName req) (reqWalName req)) =
       Some (MarshalHeader (connCodec (implConn impl)) 1 (reqSegmentSize req) @ chunk_bytes (connCodec (implConn impl)) bs)" by auto
  from stored_wal_get [OF assms(1,2) ds(2) Put_validated [OF assms(3,4)] ds(3)] ds(1) show ?thesis by blast
qed

section \<open>Properties\<close>

text \<open>
  C2: a WAL that was put is what a client gets.  After a Put that succeeded with as many bytes as the
  segment has, a Get for the same cluster and WAL streams, whatever the batches of the upload were,
  blocks that together are exactly the bytes uploaded, each with the size of the segment, and then
  the empty block that ends the stream.
\<close>

theorem get_returns_what_was_put:
  assumes "fs_laws (connFs (implConn impl)) files" and "codec_laws (connCodec (implConn impl)) (masterKey (implConn impl))"
    and "Put impl ctx batches sendErr s q = (None, h)" and "req \<in> set (concat batches)"
    and "of_nat (length (concat (map reqWalBlock (concat batches)))) = reqSegmentSize req"
    and "plain_elem (reqClusterName req)" and "\<not> HasSuffix (reqWalName req) PartialSuffix"
  shows "\<exists>ds. getWAL impl ctx (\<lambda>_. None) \<lparr>getClusterName = reqClusterName req, getWalName = reqWalName req\<rparr> (phFs h) =
           (None, map (\<lambda>d. (d, reqSegmentSize req)) ds @ [([], reqSegmentSize req)]) \<and>
           concat ds = concat (map reqWalBlock (concat batches))"
  using assms by (rule put_then_get)

theorem get_returns_what_was_put_witness:
  "\<exists>h ds. Put example_impl example_ctx [[example_request [1], example_request [2]], [example_request [3]]] None [] example_queue = (None, h) \<and>
     getWAL example_impl example_ctx (\<lambda>_. None) \<lparr>getClusterName = ''pg'', getWalName = ''00000001000000000000000A''\<rparr> (phFs h) =
       (None, map (\<lambda>d. (d, 3)) ds @ [([], 3)]) \<and> concat ds = [1, 2, 3]"
proof -
  obtain h where h: "Put example_impl example_ctx [[example_request [1], example_request [2]], [example_request [3]]] None [] example_queue = (None, h)"
    using example_put by blast
  have "plain_elem ''pg''" "\<not> HasSuffix ''00000001000000000000000A'' PartialSuffix" by code_simp+
  with get_returns_what_was_put [of example_impl mem_files, OF _ _ h, of "example_request [1]"] h show ?thesis by fastforce
qed

text \<open>
  The negotiated start never skips nor repeats what the server knows.  When RequestWALStart
  answers, the system identifier agrees with the stored one (or was just stored), and the answer is
  not before the latest WAL archived nor before the end of any declared gap: it is one of them, or
  the client's own position.
\<close>

lemma wal_start_covers_archive_and_gaps:
  assumes "RequestWALStart impl pb ctx req s = (Inr w, s')"
  shows "\<exists>metadata latest. SystemId metadata = rwSystemId req \<and>
           (getClusterMetadata impl pb (rwClusterName req) s = Inr metadata \<and> s' = s \<or> Gaps metadata = []) \<and>
           GetLatestWALFileForCluster (implConn impl) (rwClusterName req) s' = Inr latest \<and> latest \<le> w \<and>
           (\<forall>g \<in> set (Gaps metadata). gapEnd g \<le> w) \<and>
           w \<in> {latest, rwCurrentWalName req} \<union> gapEnd ` set (Gaps metadata)"
proof -
  from assms obtain metadata where m: "wal_start_answer impl req metadata s' = Inr w"
    "getClusterMetadata impl pb (rwClusterName req) s = Inr metadata \<and> s' = s \<or> Gaps metadata = []"
    by (auto simp: RequestWALStart_def Let_def split: if_splits option.splits sum.splits prod.splits)
  from wal_start_answer_bounds [OF m(1)] m(2) show ?thesis by metis
qed

text \<open>
  A reset takes effect.  When ResetWALStream accepts a new position, that position is beyond
  every WAL archived; and on a file system whose writes do not fail, every later RequestWALStart of
  that cluster answers with that position or one after it.
\<close>

lemma reset_moves_the_start:
  assumes "fs_laws (connFs (implConn impl)) files" and "fs_reliable (connFs (implConn impl)) files"
    and "codec_laws (connCodec (implConn impl)) (masterKey (implConn impl))" and "proto_laws pb"
    and "plain_elem (rwClusterName req)"
    and "getClusterMetadata impl pb (rwClusterName req) s = Inr metadata"
    and "GetLatestWALFileForCluster (implConn impl) (rwClusterName req) s = Inr latest"
    and "MarshalMetadata pb (metadata\<lparr>Gaps := Gaps metadata @
           [\<lparr>gapTs = now, gapStart = latest, gapEnd = rwCurrentWalName req\<rparr>]\<rparr>) = Inr data"
    and "data \<noteq> []" and "length data \<le> walBlockSize"
    and "ResetWALStream impl pb ctx now req s = (Inr w, s')"
  shows "w = rwCurrentWalName req \<and> latest < w \<and>
         (\<forall>req' v s''. rwClusterName req' = rwClusterName req \<longrightarrow>
            RequestWALStart impl pb ctx req' s' = (Inr v, s'') \<longrightarrow> w \<le> v)"
proof -
  let ?m = "metadata\<lparr>Gaps := Gaps metadata @ [\<lparr>gapTs = now, gapStart = latest, gapEnd = rwCurrentWalName req\<rparr>]\<rparr>"
  have w: "w = rwCurrentWalName req" "latest < rwCurrentWalName req"
    and wr: "writeClusterMetadata impl pb (rwClusterName req) ?m s = (None, s')"
    using assms(6,7,11) by (auto simp: ResetWALStream_def split: if_splits option.splits prod.splits)
  from metadata_stored [OF assms(1-5,8,10) wr] assms(9)
  have stored: "getClusterMetadata impl pb (rwClusterName req) s' = Inr ?m" by simp
  have "w \<le> v" if "rwClusterName req' = rwClusterName req" "RequestWALStart impl pb ctx req' s' = (Inr v, s'')" for req' v s''
  proof -
    from that stored have "wal_start_answer impl req' ?m s' = Inr v"
      by (auto simp: RequestWALStart_def split: if_splits option.splits)
    then have "gapEnd g \<le> v" if "g \<in> set (Gaps ?m)" for g using that by (elim wal_start_answer_bounds) blast
    from this [of "\<lparr>gapTs = now, gapStart = latest, gapEnd = rwCurrentWalName req\<rparr>"] w(1) show ?thesis by simp
  qed
  with w show ?thesis by blast
qed

text \<open>
  A cluster that announces itself with an empty system identifier locks itself out.  The first
  RequestWALStart stores metadata whose encoding is empty, for which no block is written, and every
  later read of the metadata fails with an error that is not "not found": each further
  RequestWALStart is answered with an internal error.
\<close>

lemma empty_system_id_locks_cluster:
  assumes "fs_laws (connFs (implConn impl)) files" and "fs_reliable (connFs (implConn impl)) files"
    and "codec_laws (connCodec (implConn impl)) (masterKey (implConn impl))" and "proto_laws pb"
    and "plain_elem (rwClusterName req)" and "rwSystemId req = ''''"
    and "getClusterMetadata impl pb (rwClusterName req) s = Inl e" and "errors_Is e ErrNotExist"
    and "RequestWALStart impl pb ctx req s = (Inr w, s')"
  shows "\<exists>m. RequestWALStart impl pb ctx req s' = (Inl (Status Internal m), s')"
proof -
  have wr: "writeClusterMetadata impl pb (rwClusterName req) \<lparr>SystemId = '''', Gaps = []\<rparr> s = (None, s')"
    and checks: "\<not> isReadOnly impl" "ValidatePathComponent (implUnicode impl) (rwClusterName req) = None"
      "authorizeClusterName ctx (rwClusterName req) = None"
    using assms(6-9) by (auto simp: RequestWALStart_def Let_def split: if_splits option.splits prod.splits sum.splits)
  from metadata_stored [OF assms(1-5) proto_lawsD(3) [OF assms(4)] _ wr]
  obtain e' where "getClusterMetadata impl pb (rwClusterName req) s' = Inl e'" "\<not> errors_Is e' ErrNotExist" by auto
  with checks show ?thesis by (simp add: RequestWALStart_def)
qed

text \<open>What an answer of CloseBackup says of the archive.\<close>

lemma CloseBackup_checked:
  assumes "LSNStartFromWALName lm (cbStartWal req) (cbSegmentSize req) = Inr startLSN" and "LSNParse lm startLSN = Inr startPos"
    and "LSNStartFromWALName lm (cbEndWal req) (cbSegmentSize req) = Inr endLSN" and "LSNParse lm endLSN = Inr endPos"
    and "0 < cbSegmentSize req" and "unat endPos + unat (cbSegmentSize req) < 2 ^ 64"
  shows "\<exists>r q'. CloseBackup impl lm parsePolicy ctx req s q = Some (r, q') \<and>
     (\<forall>res. r = Inr res \<longrightarrow>
        (if MissingWalFiles res = []
         then \<forall>k. unat startPos + k * unat (cbSegmentSize req) \<le> unat endPos \<longrightarrow>
                (\<exists>name. WALFileNameAt lm (startPos + of_nat k * cbSegmentSize req) (cbTimeline req) (cbSegmentSize req) = Inr name \<and>
                        IsWALFileExisting (implConn impl) (cbClusterName req) name s = Inr True)
         else q' = q \<and> \<not> Tier2Schedule res))"
proof -
  let ?name = "\<lambda>k. WALFileNameAt lm (startPos + of_nat k * cbSegmentSize req) (cbTimeline req) (cbSegmentSize req)"
  let ?in = "\<lambda>k. unat startPos + k * unat (cbSegmentSize req) \<le> unat endPos"
  from check_loop_result [OF assms(5,6), of "implConn impl" lm s startPos "[]"] obtain r where
    r: "check_loop (implConn impl) lm req endPos s startPos [] = Some r"
    and all: "\<And>ms k. r = Inr ms \<Longrightarrow> ?in k \<Longrightarrow> \<exists>name b. ?name k = Inr name \<and>
        IsWALFileExisting (implConn impl) (cbClusterName req) name s = Inr b \<and> (\<not> b \<longrightarrow> name \<in> set ms)" by auto
  have c: "checkWALFiles impl lm req s = Some r" using assms(1-4) r by (simp add: checkWALFiles_def)
  have none: "\<exists>name. ?name k = Inr name \<and> IsWALFileExisting (implConn impl) (cbClusterName req) name s = Inr True"
    if "r = Inr []" "?in k" for k using all [OF that] by fastforce
  show ?thesis
  proof (cases r)
    case (Inl e)
    with c show ?thesis by (auto simp: CloseBackup_def split: option.splits)
  next
    case (Inr ms)
    show ?thesis
    proof (cases "ms = []")
      case True
      with Inr c none show ?thesis by (auto simp: CloseBackup_def split: option.splits prod.splits)
    next
      case False
      with Inr c show ?thesis by (auto simp: CloseBackup_def split: option.splits)
    qed
  qed
qed



text \<open>
  A retention policy that was set is the one read back.  On a file system whose writes do not
  fail, after SetRetentionPolicy succeeded, GetRetentionPolicy returns the same policy, the empty
  policy included, whose encoding has no bytes and leaves a file with no block.
\<close>

lemma retention_policy_round_trip:
  assumes "fs_laws (connFs (implConn impl)) files" and "fs_reliable (connFs (implConn impl)) files"
    and "codec_laws (connCodec (implConn impl)) (masterKey (implConn impl))" and "proto_laws pb"
    and "plain_elem clusterName" and "\<And>data. MarshalPolicy pb policy = Inr data \<Longrightarrow> length data \<le> walBlockSize"
    and "SetRetentionPolicy impl pb ctx clusterName policy s = (None, s')"
  shows "GetRetentionPolicy impl pb ctx clusterName s' = Inr policy"
  using assms by (rule policy_stored)

text \<open>
  What read-only means.  A server started read-only refuses Put, RequestWALStart and
  ResetWALStream before anything is read or written, and still accepts SetRetentionPolicy, which
  stores the policy it is given.
\<close>

lemma read_only_server_stores_policies:
  assumes "isReadOnly impl" and "fs_laws (connFs (implConn impl)) files" and "fs_reliable (connFs (implConn impl)) files"
    and "codec_laws (connCodec (implConn impl)) (masterKey (implConn impl))" and "proto_laws pb"
    and "plain_elem clusterName" and "\<And>data. MarshalPolicy pb policy = Inr data \<Longrightarrow> length data \<le> walBlockSize"
    and "SetRetentionPolicy impl pb ctx clusterName policy s = (None, s')"
  shows "fst (Put impl ctx batches sendErr s q) = Some (Status FailedPrecondition ''read only repository'') \<and>
         phFs (snd (Put impl ctx batches sendErr s q)) = s \<and>
         RequestWALStart impl pb ctx req s = (Inl (Status FailedPrecondition ''read only repository''), s) \<and>
         ResetWALStream impl pb ctx now req s = (Inl (Status FailedPrecondition ''read only repository''), s) \<and>
         GetRetentionPolicy impl pb ctx clusterName s' = Inr policy"
  using policy_stored [OF assms(2-8)] assms(1)
  by (simp add: Put_def RequestWALStart_def ResetWALStream_def new_handler_def)

text \<open>
  The check of a backup can run for ever.  With a segment size that is a power of two and an end
  position in the last segment of the 64-bit space, the position wraps around to zero behind the
  end: whatever the start, as long as every position has a name and its file can be looked up,
  CloseBackup does not return.
\<close>

lemma last_segment_check_never_ends:
  assumes "ValidatePathComponent (implUnicode impl) (cbClusterName req) = None"
    and "authorizeClusterName ctx (cbClusterName req) = None"
    and "LSNStartFromWALName lm (cbStartWal req) (cbSegmentSize req) = Inr startLSN" and "LSNParse lm startLSN = Inr (of_nat a * 2 ^ n)"
    and "LSNStartFromWALName lm (cbEndWal req) (cbSegmentSize req) = Inr endLSN" and "LSNParse lm endLSN = Inr (- (2 ^ n))"
    and "cbSegmentSize req = 2 ^ n" and "n < 64"
    and "\<And>p. \<exists>name b. WALFileNameAt lm p (cbTimeline req) (cbSegmentSize req) = Inr name \<and>
           IsWALFileExisting (implConn impl) (cbClusterName req) name s = Inr b"
  shows "CloseBackup impl lm parsePolicy ctx req s q = None"
proof -
  have le: "of_nat a * 2 ^ n + of_nat k * cbSegmentSize req \<le> - (2 ^ n)" for k
    using aligned_le_last [OF assms(8), of "a + k"] assms(7) by (simp add: algebra_simps)
  have "check_loop (implConn impl) lm req (- (2 ^ n)) s (of_nat a * 2 ^ n) [] = None"
    using check_loop_endless [OF _ le assms(9)] by (metis option.exhaust)
  then have "checkWALFiles impl lm req s = None" using assms(3-6) by (simp add: checkWALFiles_def)
  with assms(1,2) show ?thesis by (simp add: CloseBackup_def)
qed

end
