(* ===== verification/Backup_Retention.thy ===== *)
theory Backup_Retention
  imports Wal_Calls "HOL-Library.AList"
begin

text \<open>
  Backups and their retention: the snapshots of Kopia and the backups they make up (kopia/data.go,
  client/klioclient and client/klioclient/kopia), the policy that decides what to keep
  (policy/policy.go) and the sweeper that applies it on both tiers (retention).

  The Kopia command line, which package kopia runs, is the record \<open>kopia_client\<close> with the hypothesis
  \<open>kopia_laws\<close>; every call may fail and may change the state, so that failures come and go.  sort.Slice
  is an argument with the contract \<open>oldest_first\<close>, the order in which a Go map is traversed an argument
  with the contract \<open>map_order\<close>, and the number of attempts that wait.Backoff allows an argument too.
\<close>

section \<open>core/internal/kopia/data.go\<close>

definition userTagPrefix :: string where "userTagPrefix = ''tag:''"

record SourceInfo =
  Host :: string
  UserName :: string
  SourcePath :: string

text \<open>Of the root entry of a snapshot only its object identifier is used.\<close>

record Manifest =
  ID :: string
  Source :: SourceInfo
  RootEntry :: "string option"
  StartTime :: int
  EndTime :: int
  Tags :: "string \<rightharpoonup> string"

definition Tag :: "Manifest \<Rightarrow> string \<Rightarrow> string" where
  "Tag m name = (case Tags m (userTagPrefix @ name) of None \<Rightarrow> '''' | Some v \<Rightarrow> v)"

definition SourceInfo_String :: "SourceInfo \<Rightarrow> string" where
  "SourceInfo_String ssi =
     (if Host ssi = '''' \<and> SourcePath ssi = '''' \<and> UserName ssi = '''' then ''(global)''
      else if SourcePath ssi = '''' then UserName ssi @ ''@'' @ Host ssi
      else UserName ssi @ ''@'' @ Host ssi @ '':'' @ SourcePath ssi)"

section \<open>core/internal/client/klioclient/consts.go and data.go\<close>

definition BackupNameTagName :: string where "BackupNameTagName = ''klio.io/tag''"
definition BackupContentTagName :: string where "BackupContentTagName = ''klio.io/content''"

record TablespaceLayout =
  tblName :: string
  tblOid :: string
  tblPath :: string

record BackupMetadata =
  bkName :: string
  bkClusterName :: string
  StartLSN :: uint64
  EndLSN :: uint64
  StartWAL :: string
  EndWAL :: string
  bkTimeline :: int
  bkSegmentSize :: uint64
  BackupLabel :: string
  TablespaceMap :: string
  PgData :: string
  Tablespaces :: "TablespaceLayout list"
  Annotations :: "(string \<rightharpoonup> string) option"
  StartedAt :: int
  StoppedAt :: int

type_synonym BackupList = "BackupMetadata list"

definition SetAnnotation :: "string \<Rightarrow> string \<Rightarrow> BackupMetadata \<Rightarrow> BackupMetadata" where
  "SetAnnotation n v m =
     (let a = (case Annotations m of None \<Rightarrow> Map.empty | Some a \<Rightarrow> a) in m\<lparr>Annotations := Some (a(n \<mapsto> v))\<rparr>)"

section \<open>core/internal/client/klioclient/restore.go: lists of backups\<close>

type_synonym backup_sort = "BackupList \<Rightarrow> BackupList"

definition SortByAscendingTime :: "backup_sort \<Rightarrow> BackupList \<Rightarrow> BackupList" where
  "SortByAscendingTime srt l = (if l = [] then l else srt l)"

definition GetLatestBackup :: "backup_sort \<Rightarrow> BackupList \<Rightarrow> BackupMetadata option" where
  "GetLatestBackup srt l =
     (if l = [] then None else let s = SortByAscendingTime srt l in Some (s ! (length s - 1)))"

definition FindClosestBackup :: "backup_sort \<Rightarrow> BackupList \<Rightarrow> int \<Rightarrow> BackupMetadata option" where
  "FindClosestBackup srt l t =
     (if l = [] then None else find (\<lambda>v. StoppedAt v \<le> t) (rev (SortByAscendingTime srt l)))"

section \<open>core/internal/policy/policy.go\<close>

record LatestPolicy =
  Count :: nat

definition latest_Evaluate :: "backup_sort \<Rightarrow> LatestPolicy \<Rightarrow> BackupList \<Rightarrow> BackupList" where
  "latest_Evaluate srt p backupList =
     (if Count p = 0 then backupList
      else let l = SortByAscendingTime srt backupList
           in if Count p < length l then drop (length l - Count p) l else l)"

section \<open>The Kopia command line\<close>

record 'k kopia_client =
  ListSnapshots :: "(string \<times> string) list \<Rightarrow> 'k \<Rightarrow> (go_error + Manifest list) \<times> 'k"
  DeleteSnapshot :: "string \<Rightarrow> 'k \<Rightarrow> go_error option \<times> 'k"
  RestoreSingleFile :: "string \<Rightarrow> string \<Rightarrow> 'k \<Rightarrow> (go_error + bytes) \<times> 'k"
  RefreshServer :: "'k \<Rightarrow> go_error option \<times> 'k"
  UnmarshalBackup :: "bytes \<Rightarrow> go_error + BackupMetadata"

section \<open>core/internal/client/klioclient/kopia/delete.go\<close>

definition ErrBackupNotFound :: go_error where "ErrBackupNotFound = Sentinel ''backup not found''"
definition ErrWaitTimeout :: go_error where "ErrWaitTimeout = Sentinel ''timed out waiting for the condition''"

fun deleteSnapshots ::
  "'k kopia_client \<Rightarrow> Manifest list \<Rightarrow> go_error option \<Rightarrow> 'k \<Rightarrow> go_error option \<times> 'k" where
  "deleteSnapshots store [] err k = (err, k)"
| "deleteSnapshots store (entry # entries) err k =
     (case DeleteSnapshot store (ID entry) k of
        (Some e, k') \<Rightarrow>
          deleteSnapshots store entries (Some (ErrorJoin ((case err of None \<Rightarrow> [] | Some x \<Rightarrow> [x]) @ [e]))) k'
      | (None, k') \<Rightarrow> deleteSnapshots store entries err k')"

text \<open>The attempts of wait.ExponentialBackoffWithContext: an error ends them, and so does success.\<close>

fun delete_attempts :: "nat \<Rightarrow> 'k kopia_client \<Rightarrow> string \<Rightarrow> string \<Rightarrow> 'k \<Rightarrow> go_error option \<times> 'k" where
  "delete_attempts 0 store hostname name k = (Some ErrWaitTimeout, k)"
| "delete_attempts (Suc n) store hostname name k =
     (case ListSnapshots store [(BackupNameTagName, name)] k of
        (Inl e, k1) \<Rightarrow> (Some (Wrap ''while listing snapshots'' e), k1)
      | (Inr entries, k1) \<Rightarrow>
          let mine = filter (\<lambda>e. \<not> (Host (Source e) \<noteq> hostname)) entries
          in if mine = [] then (Some (Wrap name ErrBackupNotFound), k1)
             else (case deleteSnapshots store mine None k1 of
                     (None, k2) \<Rightarrow> (None, k2)
                   | (Some e, k2) \<Rightarrow> delete_attempts n store hostname name k2))"

definition DeleteBackup :: "nat \<Rightarrow> 'k kopia_client \<Rightarrow> string \<Rightarrow> string \<Rightarrow> 'k \<Rightarrow> go_error option \<times> 'k" where
  "DeleteBackup attempts store hostname name k = delete_attempts attempts store hostname name k"

section \<open>core/internal/client/klioclient/kopia/list.go\<close>

definition restoreMetadata :: "'k kopia_client \<Rightarrow> string \<Rightarrow> 'k \<Rightarrow> (go_error + BackupMetadata) \<times> 'k" where
  "restoreMetadata store snapshotID k =
     (case RestoreSingleFile store snapshotID ''metadata.json'' k of
        (Inl e, k1) \<Rightarrow> (Inl (Wrap ''restoring backup metadata'' e), k1)
      | (Inr manifestContent, k1) \<Rightarrow>
          (case UnmarshalBackup store manifestContent of
             Inl e \<Rightarrow> (Inl (Wrap ''cannot decode JSON backup metadata'' e), k1)
           | Inr m \<Rightarrow> (Inr m, k1)))"

definition kopia_GetMetadata ::
  "'k kopia_client \<Rightarrow> string \<Rightarrow> string \<Rightarrow> 'k \<Rightarrow> (go_error + BackupMetadata) \<times> 'k" where
  "kopia_GetMetadata store hostname name k =
     (case ListSnapshots store [(BackupNameTagName, name), (BackupContentTagName, ''metadata'')] k of
        (Inl e, k1) \<Rightarrow> (Inl (Wrap ''while executing Kopia command'' e), k1)
      | (Inr entries, k1) \<Rightarrow>
          (case find (\<lambda>entry. Host (Source entry) = hostname) entries of
             Some entry \<Rightarrow> restoreMetadata store (ID entry) k1
           | None \<Rightarrow> (Inl (Sentinel ''no backup found''), k1)))"

fun list_backup_loop ::
  "'k kopia_client \<Rightarrow> string \<Rightarrow> Manifest list \<Rightarrow> BackupList \<Rightarrow> 'k \<Rightarrow> BackupList \<times> 'k" where
  "list_backup_loop store hostname [] acc k = (acc, k)"
| "list_backup_loop store hostname (entry # entries) acc k =
     (if hostname \<noteq> '''' \<and> Host (Source entry) \<noteq> hostname then list_backup_loop store hostname entries acc k
      else (case restoreMetadata store (ID entry) k of
              (Inl e, k1) \<Rightarrow> list_backup_loop store hostname entries acc k1
            | (Inr m, k1) \<Rightarrow> list_backup_loop store hostname entries (acc @ [m]) k1))"

definition ListBackups :: "'k kopia_client \<Rightarrow> string \<Rightarrow> 'k \<Rightarrow> (go_error + BackupList) \<times> 'k" where
  "ListBackups store hostname k =
     (case ListSnapshots store [(BackupContentTagName, ''metadata'')] k of
        (Inl e, k1) \<Rightarrow> (Inl (Wrap ''while executing Kopia command'' e), k1)
      | (Inr entries, k1) \<Rightarrow> let (bs, k2) = list_backup_loop store hostname entries [] k1 in (Inr bs, k2))"

section \<open>core/internal/retention/sweeper.go\<close>

datatype tier = Tier1 | Tier2

record ('k, 'fs) sweep_state =
  ssKopia1 :: 'k
  ssKopia2 :: 'k
  ssWal1 :: 'fs
  ssWal2 :: 'fs

record ('k, 'fs) Sweeper =
  swTier1 :: "'k kopia_client"
  swTier2 :: "'k kopia_client option"
  swWal1 :: "'fs connection"
  swWal2 :: "'fs connection option"

text \<open>What the sweep takes from its environment.\<close>

record sweep_env =
  envSort :: backup_sort
  envOrder :: "((string \<times> string) \<times> (bool \<times> int)) list \<Rightarrow> ((string \<times> string) \<times> (bool \<times> int)) list"
  envAttempts :: nat
  envIsWALFile :: "string \<Rightarrow> bool"
  envProto :: proto

definition kopia_of :: "tier \<Rightarrow> ('k, 'fs) sweep_state \<Rightarrow> 'k" where
  "kopia_of t st = (case t of Tier1 \<Rightarrow> ssKopia1 st | Tier2 \<Rightarrow> ssKopia2 st)"

definition put_kopia :: "tier \<Rightarrow> 'k \<Rightarrow> ('k, 'fs) sweep_state \<Rightarrow> ('k, 'fs) sweep_state" where
  "put_kopia t k st = (case t of Tier1 \<Rightarrow> st\<lparr>ssKopia1 := k\<rparr> | Tier2 \<Rightarrow> st\<lparr>ssKopia2 := k\<rparr>)"

definition wal_of :: "tier \<Rightarrow> ('k, 'fs) sweep_state \<Rightarrow> 'fs" where
  "wal_of t st = (case t of Tier1 \<Rightarrow> ssWal1 st | Tier2 \<Rightarrow> ssWal2 st)"

definition put_wal :: "tier \<Rightarrow> 'fs \<Rightarrow> ('k, 'fs) sweep_state \<Rightarrow> ('k, 'fs) sweep_state" where
  "put_wal t s st = (case t of Tier1 \<Rightarrow> st\<lparr>ssWal1 := s\<rparr> | Tier2 \<Rightarrow> st\<lparr>ssWal2 := s\<rparr>)"

section \<open>core/internal/retention/sweep.go\<close>

definition ErrInvalidRetentionLatest :: go_error where
  "ErrInvalidRetentionLatest = Sentinel ''invalid retention policy: latest must be greater than or equal to 0''"

record ('k, 'fs) tierConfig =
  tcName :: string
  tcTier :: tier
  tcKopia :: "'k kopia_client"
  tcSelectPolicy :: "RetentionPolicy \<Rightarrow> TierRetentionPolicy option"
  tcWalRepository :: "'fs connection option"
  tcSyncGuard :: "'k kopia_client option"

text \<open>A target of a deletion: hostBackupName as the pair of host and name.\<close>

type_synonym hostBackupName = "string \<times> string"

fun delete_backups_loop ::
  "(string \<Rightarrow> string \<Rightarrow> 'k \<Rightarrow> go_error option \<times> 'k) \<Rightarrow> hostBackupName list \<Rightarrow> nat \<Rightarrow> go_error list \<Rightarrow> 'k \<Rightarrow>
   (nat \<times> go_error list) \<times> 'k" where
  "delete_backups_loop del [] deleted errs k = ((deleted, errs), k)"
| "delete_backups_loop del ((host, name) # targets) deleted errs k =
     (case del host name k of
        (Some e, k') \<Rightarrow> delete_backups_loop del targets deleted (errs @ [Wrap ''while deleting backup'' e]) k'
      | (None, k') \<Rightarrow> delete_backups_loop del targets (deleted + 1) errs k')"

definition deleteBackups ::
  "(string \<Rightarrow> string \<Rightarrow> 'k \<Rightarrow> go_error option \<times> 'k) \<Rightarrow> hostBackupName list \<Rightarrow> 'k \<Rightarrow> (nat \<times> go_error option) \<times> 'k" where
  "deleteBackups del targets k =
     (let ((deleted, errs), k') = delete_backups_loop del targets 0 [] k in ((deleted, errors_Join errs), k'))"

definition diffByName :: "BackupList \<Rightarrow> BackupList \<Rightarrow> BackupList" where
  "diffByName all_backups keep = filter (\<lambda>b. bkName b \<notin> bkName ` set keep) all_backups"

definition policyFromProto :: "TierRetentionPolicy \<Rightarrow> go_error + LatestPolicy" where
  "policyFromProto p =
     (if Latest p < 0 then Inl (Wrap ''invalid'' ErrInvalidRetentionLatest) else Inr \<lparr>Count = nat (Latest p)\<rparr>)"

definition protectUnsyncedToTier2 ::
  "(string \<Rightarrow> 'k \<Rightarrow> (go_error + BackupList) \<times> 'k) \<Rightarrow> string \<Rightarrow> BackupList \<Rightarrow> 'k \<Rightarrow> (go_error + BackupList) \<times> 'k" where
  "protectUnsyncedToTier2 lst clusterName candidates k =
     (case lst clusterName k of
        (Inl e, k1) \<Rightarrow> (Inl (Wrap ''while listing tier2 backups'' e), k1)
      | (Inr tier2Backups, k1) \<Rightarrow> (Inr (filter (\<lambda>b. bkName b \<in> bkName ` set tier2Backups) candidates), k1))"

definition deletionCandidates ::
  "(BackupList \<Rightarrow> BackupList) \<Rightarrow> string \<Rightarrow> ('k, 'fs) tierConfig \<Rightarrow> RetentionPolicy \<Rightarrow> BackupList \<Rightarrow>
   ('k, 'fs) sweep_state \<Rightarrow> (go_error + BackupList) \<times> ('k, 'fs) sweep_state" where
  "deletionCandidates evaluate clusterName tc retentionPolicy backups st =
     (let toDelete = diffByName backups (evaluate backups) in
      case tcSyncGuard tc of
        None \<Rightarrow> (Inr toDelete, st)
      | Some guard \<Rightarrow>
          if Tier2Policy retentionPolicy = None then (Inr toDelete, st)
          else (case protectUnsyncedToTier2 (ListBackups guard) clusterName toDelete (kopia_of Tier2 st) of
                  (Inl e, k) \<Rightarrow> (Inl (Wrap ''while checking tier2 sync status'' e), put_kopia Tier2 k st)
                | (Inr guarded, k) \<Rightarrow> (Inr guarded, put_kopia Tier2 k st)))"

definition sweepCluster ::
  "sweep_env \<Rightarrow> ('k, 'fs) Sweeper \<Rightarrow> string \<Rightarrow> ('k, 'fs) tierConfig \<Rightarrow> ('k, 'fs) sweep_state \<Rightarrow>
   (nat \<times> go_error option) \<times> ('k, 'fs) sweep_state" where
  "sweepCluster env sw clusterName tc st =
     (case GetClusterRetentionPolicy (swWal1 sw) (envProto env) clusterName (ssWal1 st) of
        Inl e \<Rightarrow> ((0, Some (Wrap ''while reading retention policy'' e)), st)
      | Inr retentionPolicy \<Rightarrow>
          (case tcSelectPolicy tc retentionPolicy of
             None \<Rightarrow> ((0, None), st)
           | Some tierPolicy \<Rightarrow>
               (case policyFromProto tierPolicy of
                  Inl e \<Rightarrow> ((0, Some e), st)
                | Inr evaluator \<Rightarrow>
                    (case ListBackups (tcKopia tc) clusterName (kopia_of (tcTier tc) st) of
                       (Inl e, k) \<Rightarrow> ((0, Some (Wrap ''while listing backups'' e)), put_kopia (tcTier tc) k st)
                     | (Inr backups, k) \<Rightarrow>
                         let st1 = put_kopia (tcTier tc) k st in
                         if backups = [] then ((0, None), st1)
                         else (case deletionCandidates (latest_Evaluate (envSort env) evaluator) clusterName tc
                                      retentionPolicy backups st1 of
                                 (Inl e, st2) \<Rightarrow> ((0, Some e), st2)
                               | (Inr toDelete, st2) \<Rightarrow>
                                   if toDelete = [] then ((0, None), st2)
                                   else let (r, k') = deleteBackups (DeleteBackup (envAttempts env) (tcKopia tc))
                                                        (map (\<lambda>b. (clusterName, bkName b)) toDelete)
                                                        (kopia_of (tcTier tc) st2)
                                        in (r, put_kopia (tcTier tc) k' st2))))))"

definition groupHostnames :: "Manifest list \<Rightarrow> string list" where
  "groupHostnames entries =
     foldl (\<lambda>hostnames entry. if Host (Source entry) \<in> set hostnames then hostnames
                              else hostnames @ [Host (Source entry)]) [] entries"

definition listClusterHostnames :: "'k kopia_client \<Rightarrow> 'k \<Rightarrow> (go_error + string list) \<times> 'k" where
  "listClusterHostnames client k =
     (case ListSnapshots client [(BackupContentTagName, ''metadata'')] k of
        (Inl e, k1) \<Rightarrow> (Inl (Wrap ''while executing Kopia command'' e), k1)
      | (Inr entries, k1) \<Rightarrow> (Inr (groupHostnames entries), k1))"

section \<open>core/internal/retention/walretention.go\<close>

definition findOldestWAL :: "BackupList \<Rightarrow> string" where
  "findOldestWAL backups =
     foldl (\<lambda>oldest b. if StartWAL b = '''' then oldest
                       else if oldest = '''' \<or> StartWAL b < oldest then StartWAL b else oldest) '''' backups"

definition applyWALRetention ::
  "sweep_env \<Rightarrow> string \<Rightarrow> ('k, 'fs) tierConfig \<Rightarrow> ('k, 'fs) sweep_state \<Rightarrow> go_error option \<times> ('k, 'fs) sweep_state" where
  "applyWALRetention env clusterName tc st =
     (case tcWalRepository tc of
        None \<Rightarrow> (None, st)
      | Some walRepository \<Rightarrow>
          (case ListBackups (tcKopia tc) clusterName (kopia_of (tcTier tc) st) of
             (Inl e, k) \<Rightarrow> (Some (Wrap ''while listing backups'' e), put_kopia (tcTier tc) k st)
           | (Inr backups, k) \<Rightarrow>
               let st1 = put_kopia (tcTier tc) k st in
               if backups = [] then (None, st1)
               else let oldestWAL = findOldestWAL backups in
                    if oldestWAL = '''' then (None, st1)
                    else if ValidateWalFileName oldestWAL \<noteq> None
                    then (Some (Wrap ''computed first required WAL is invalid'' (Sentinel ''invalid WAL name'')), st1)
                    else let (e, s) = SetFirstRequiredOnCluster (envIsWALFile env) walRepository clusterName oldestWAL
                                        (wal_of (tcTier tc) st1)
                         in (e, put_wal (tcTier tc) s st1)))"

section \<open>core/internal/retention/orphans.go\<close>

text \<open>
  A backupGroup is the pair of hasMetadata and startTime; the map of the groups is an association
  list in the order in which the keys appear, traversed in the order that the environment chooses.
\<close>

type_synonym backupGroup = "bool \<times> int"

definition add_to_group :: "Manifest \<Rightarrow> backupGroup option \<Rightarrow> backupGroup" where
  "add_to_group entry g0 =
     (let (hasMetadata, startTime) = (case g0 of Some g \<Rightarrow> g | None \<Rightarrow> (False, StartTime entry));
          hasMetadata' = (if Tag entry BackupContentTagName = ''metadata'' then True else hasMetadata)
      in (hasMetadata', if startTime = 0 \<or> StartTime entry < startTime then StartTime entry else startTime))"

definition group_entry ::
  "string list \<Rightarrow> (hostBackupName \<times> backupGroup) list \<Rightarrow> Manifest \<Rightarrow> (hostBackupName \<times> backupGroup) list" where
  "group_entry allowedHosts groups entry =
     (let host = Host (Source entry); name = Tag entry BackupNameTagName in
      if host \<notin> set allowedHosts then groups
      else if name = '''' then groups
      else AList.update (host, name) (add_to_group entry (map_of groups (host, name))) groups)"

definition groupBackupsByHostName ::
  "Manifest list \<Rightarrow> string list \<Rightarrow> (hostBackupName \<times> backupGroup) list" where
  "groupBackupsByHostName entries allowedHosts = foldl (group_entry allowedHosts) [] entries"

definition latestCompletedStartTimePerHost :: "(hostBackupName \<times> backupGroup) list \<Rightarrow> string \<rightharpoonup> int" where
  "latestCompletedStartTimePerHost groups =
     foldl (\<lambda>latest ((host, name), (hasMetadata, startTime)).
              if \<not> hasMetadata then latest
              else if latest host = None \<or> the (latest host) < startTime then latest(host \<mapsto> startTime) else latest)
       Map.empty groups"

definition orphanBackupNames ::
  "((hostBackupName \<times> backupGroup) list \<Rightarrow> (hostBackupName \<times> backupGroup) list) \<Rightarrow>
   Manifest list \<Rightarrow> string list \<Rightarrow> hostBackupName list" where
  "orphanBackupNames order entries allowedHosts =
     (let groups = groupBackupsByHostName entries allowedHosts;
          latestCompleted = latestCompletedStartTimePerHost (order groups)
      in map fst (filter (\<lambda>((host, name), (hasMetadata, startTime)).
           \<not> hasMetadata \<and>
           (case latestCompleted host of None \<Rightarrow> False | Some completedAfter \<Rightarrow> startTime < completedAfter)) (order groups)))"

definition sweepOrphans ::
  "sweep_env \<Rightarrow> ('k, 'fs) tierConfig \<Rightarrow> string list \<Rightarrow> 'k \<Rightarrow> (nat \<times> go_error option) \<times> 'k" where
  "sweepOrphans env tc hostnames k =
     (case ListSnapshots (tcKopia tc) [] k of
        (Inl e, k1) \<Rightarrow> ((0, Some (Wrap ''while executing Kopia command'' e)), k1)
      | (Inr entries, k1) \<Rightarrow>
          let orphans = orphanBackupNames (envOrder env) entries hostnames in
          if orphans = [] then ((0, None), k1)
          else deleteBackups (DeleteBackup (envAttempts env) (tcKopia tc)) orphans k1)"

section \<open>core/internal/retention/sweep.go: a tier and the whole sweep\<close>

fun sweep_clusters ::
  "sweep_env \<Rightarrow> ('k, 'fs) Sweeper \<Rightarrow> ('k, 'fs) tierConfig \<Rightarrow> string list \<Rightarrow> bool \<Rightarrow> go_error list \<Rightarrow>
   ('k, 'fs) sweep_state \<Rightarrow> (bool \<times> go_error list) \<times> ('k, 'fs) sweep_state" where
  "sweep_clusters env sw tc [] deletedAny errs st = ((deletedAny, errs), st)"
| "sweep_clusters env sw tc (hostname # hostnames) deletedAny errs st =
     (let ((deleted, retentionErr), st1) = sweepCluster env sw hostname tc st;
          errs1 = (case retentionErr of None \<Rightarrow> errs | Some e \<Rightarrow> errs @ [Wrap ''cluster'' e]);
          (walErr, st2) = applyWALRetention env hostname tc st1;
          errs2 = (case walErr of None \<Rightarrow> errs1 | Some e \<Rightarrow> errs1 @ [Wrap ''cluster WAL retention'' e])
      in sweep_clusters env sw tc hostnames (deletedAny \<or> deleted > 0) errs2 st2)"

definition sweepTier ::
  "sweep_env \<Rightarrow> ('k, 'fs) Sweeper \<Rightarrow> ('k, 'fs) tierConfig \<Rightarrow> ('k, 'fs) sweep_state \<Rightarrow>
   go_error option \<times> ('k, 'fs) sweep_state" where
  "sweepTier env sw tc st =
     (case listClusterHostnames (tcKopia tc) (kopia_of (tcTier tc) st) of
        (Inl e, k) \<Rightarrow> (Some (Wrap ''while listing clusters'' e), put_kopia (tcTier tc) k st)
      | (Inr hostnames, k) \<Rightarrow>
          let ((deletedAny, errs), st1) = sweep_clusters env sw tc hostnames False [] (put_kopia (tcTier tc) k st);
              ((orphansDeleted, oerr), k2) = sweepOrphans env tc hostnames (kopia_of (tcTier tc) st1);
              errs2 = (case oerr of None \<Rightarrow> errs | Some e \<Rightarrow> errs @ [Wrap ''orphan snapshots'' e]);
              st2 = put_kopia (tcTier tc) k2 st1
          in if deletedAny \<or> orphansDeleted > 0
             then (case RefreshServer (tcKopia tc) (kopia_of (tcTier tc) st2) of
                     (Some e, k3) \<Rightarrow> (errors_Join (errs2 @ [Wrap ''while refreshing the Kopia server'' e]), put_kopia (tcTier tc) k3 st2)
                   | (None, k3) \<Rightarrow> (errors_Join errs2, put_kopia (tcTier tc) k3 st2))
             else (errors_Join errs2, st2))"

definition tier1_config :: "('k, 'fs) Sweeper \<Rightarrow> ('k, 'fs) tierConfig" where
  "tier1_config sw = \<lparr>tcName = ''tier1'', tcTier = Tier1, tcKopia = swTier1 sw, tcSelectPolicy = Tier1Policy,
     tcWalRepository = Some (swWal1 sw), tcSyncGuard = swTier2 sw\<rparr>"

definition tier2_config :: "'k kopia_client \<Rightarrow> ('k, 'fs) Sweeper \<Rightarrow> ('k, 'fs) tierConfig" where
  "tier2_config client sw = \<lparr>tcName = ''tier2'', tcTier = Tier2, tcKopia = client, tcSelectPolicy = Tier2Policy,
     tcWalRepository = swWal2 sw, tcSyncGuard = None\<rparr>"

definition Sweep ::
  "sweep_env \<Rightarrow> ('k, 'fs) Sweeper \<Rightarrow> ('k, 'fs) sweep_state \<Rightarrow> go_error option \<times> ('k, 'fs) sweep_state" where
  "Sweep env sw st =
     (let (e1, st1) = sweepTier env sw (tier1_config sw) st;
          errs1 = (case e1 of None \<Rightarrow> [] | Some e \<Rightarrow> [Wrap ''while sweeping tier1 retention'' e]) in
      case swTier2 sw of
        None \<Rightarrow> (errors_Join errs1, st1)
      | Some client \<Rightarrow>
          let (e2, st2) = sweepTier env sw (tier2_config client sw) st1
          in (errors_Join (errs1 @ (case e2 of None \<Rightarrow> [] | Some e \<Rightarrow> [Wrap ''while sweeping tier2 retention'' e])), st2))"

section \<open>What the code relies on\<close>

text \<open>
  Kopia: a listing shows the snapshots with the given tags (a tag name has no colon), a deletion removes the snapshot with that
  identifier or, when it fails, possibly nothing; identifiers are unique.
\<close>

definition has_tags :: "(string \<times> string) list \<Rightarrow> Manifest \<Rightarrow> bool" where
  "has_tags tags m \<longleftrightarrow> list_all (\<lambda>(t, v). Tags m (userTagPrefix @ t) = Some v) tags"

definition tag_names :: "(string \<times> string) list \<Rightarrow> bool" where
  "tag_names tags \<longleftrightarrow> list_all (\<lambda>(t, _). CHR '':'' \<notin> set t) tags"

definition kopia_laws :: "'k kopia_client \<Rightarrow> ('k \<Rightarrow> Manifest list) \<Rightarrow> bool" where
  "kopia_laws K snaps \<longleftrightarrow>
     (\<forall>tags k r k'. ListSnapshots K tags k = (r, k') \<longrightarrow> snaps k' = snaps k \<and>
        (\<forall>es. r = Inr es \<longrightarrow> tag_names tags \<longrightarrow> es = filter (has_tags tags) (snaps k))) \<and>
     (\<forall>i f k r k'. RestoreSingleFile K i f k = (r, k') \<longrightarrow> snaps k' = snaps k) \<and>
     (\<forall>i k r k'. DeleteSnapshot K i k = (r, k') \<longrightarrow>
        snaps k' = filter (\<lambda>m. ID m \<noteq> i) (snaps k) \<or> r \<noteq> None \<and> snaps k' = snaps k) \<and>
     (\<forall>k r k'. RefreshServer K k = (r, k') \<longrightarrow> snaps k' = snaps k) \<and>
     (\<forall>k. distinct (map ID (snaps k)))"

definition oldest_first :: "backup_sort \<Rightarrow> bool" where
  "oldest_first srt \<longleftrightarrow>
     (\<forall>l. mset (srt l) = mset l \<and> sorted_wrt (\<lambda>a b. StartedAt a \<le> StartedAt b) (srt l))"

definition map_order :: "('a list \<Rightarrow> 'a list) \<Rightarrow> bool" where
  "map_order order \<longleftrightarrow> (\<forall>l. mset (order l) = mset l)"

text \<open>The snapshots of one backup, by host and name.\<close>

definition snapshot_of :: "hostBackupName \<Rightarrow> Manifest \<Rightarrow> bool" where
  "snapshot_of t m \<longleftrightarrow> Host (Source m) = fst t \<and> Tags m (userTagPrefix @ BackupNameTagName) = Some (snd t)"

section \<open>A concrete Kopia\<close>

text \<open>
  A repository in memory: the snapshots with the content of their metadata file, and the identifiers
  whose next read fails.
\<close>

type_synonym mem_kopia = "(Manifest \<times> bytes) list \<times> string list"

definition mem_snaps :: "mem_kopia \<Rightarrow> Manifest list" where
  "mem_snaps k = (if distinct (map (ID \<circ> fst) (fst k)) then map fst (fst k) else [])"

definition mem_backup :: "string \<Rightarrow> string \<Rightarrow> nat \<Rightarrow> BackupMetadata" where
  "mem_backup name wal started = \<lparr>bkName = name, bkClusterName = ''pg'', StartLSN = 0, EndLSN = 0, StartWAL = wal,
     EndWAL = wal, bkTimeline = 1, bkSegmentSize = 16777216, BackupLabel = '''', TablespaceMap = '''', PgData = '''',
     Tablespaces = [], Annotations = None, StartedAt = int started, StoppedAt = int started\<rparr>"

definition mem_store :: "mem_kopia kopia_client" where
  "mem_store =
     \<lparr>ListSnapshots = (\<lambda>tags k. (Inr (filter (has_tags tags) (mem_snaps k)), k)),
      DeleteSnapshot = (\<lambda>i (l, bad). if distinct (map (ID \<circ> fst) l) then (None, (filter (\<lambda>e. ID (fst e) \<noteq> i) l, bad))
                                     else (Some (Sentinel ''damaged repository''), (l, bad))),
      RestoreSingleFile = (\<lambda>i f (l, bad). if i \<in> set bad then (Inl (Sentinel ''connection reset''), (l, remove1 i bad))
                             else (case find (\<lambda>e. ID (fst e) = i) l of
                                     None \<Rightarrow> (Inl ErrNotExist, (l, bad)) | Some e \<Rightarrow> (Inr (snd e), (l, bad)))),
      RefreshServer = (\<lambda>k. (None, k)),
      UnmarshalBackup = (\<lambda>b. case dec_strings [] b of [n, w, t] \<Rightarrow> Inr (mem_backup n w (length t)) | _ \<Rightarrow> Inl ErrUnexpectedEOF)\<rparr>"

definition mem_manifest :: "string \<Rightarrow> string \<Rightarrow> string \<Rightarrow> int \<Rightarrow> Manifest" where
  "mem_manifest i name content start = \<lparr>ID = i, Source = \<lparr>Host = ''pg'', UserName = ''klio'', SourcePath = ''''\<rparr>,
     RootEntry = Some i, StartTime = start, EndTime = start,
     Tags = [userTagPrefix @ BackupNameTagName \<mapsto> name, userTagPrefix @ BackupContentTagName \<mapsto> content]\<rparr>"

text \<open>Two backups, of which the first needs an older WAL.\<close>

definition example_kopia :: mem_kopia where
  "example_kopia =
     ([(mem_manifest ''d1'' ''b1'' ''pgdata'' 1, []),
       (mem_manifest ''m1'' ''b1'' ''metadata'' 1, enc_strings [''b1'', ''00000001000000000000000A'', ''t'']),
       (mem_manifest ''m2'' ''b2'' ''metadata'' 2, enc_strings [''b2'', ''00000001000000000000000B'', ''tt''])], [])"

definition example_policies :: RetentionPolicy where
  "example_policies = \<lparr>Tier1Policy = Some \<lparr>Latest = 1\<rparr>, Tier2Policy = Some \<lparr>Latest = 1\<rparr>\<rparr>"

definition example_env :: sweep_env where
  "example_env = \<lparr>envSort = sort_key StartedAt, envOrder = id, envAttempts = 2, envIsWALFile = hex24, envProto = plain_proto\<rparr>"

definition example_sweeper :: "(mem_kopia, memfs) Sweeper" where
  "example_sweeper = \<lparr>swTier1 = mem_store, swTier2 = Some mem_store, swWal1 = mem_connection, swWal2 = None\<rparr>"

definition example_wals :: memfs where
  "example_wals = [(''pg/0000000100000000/00000001000000000000000A'', [1]), (''pg/0000000100000000/00000001000000000000000B'', [2])]"

section \<open>Interface: policy.Policy\<close>

locale retention_policy =
  fixes srt :: backup_sort and evaluate :: "BackupList \<Rightarrow> BackupList"
  assumes evaluate_subset: "oldest_first srt \<Longrightarrow> set (evaluate l) \<subseteq> set l"
begin

lemma kept_names: "oldest_first srt \<Longrightarrow> b \<in> set (evaluate l) \<Longrightarrow> b \<in> set l \<and> bkName b \<notin> bkName ` set (diffByName l (evaluate l))"
  using evaluate_subset [of l] by (auto simp: diffByName_def dest: sym)

lemma candidates_dropped:
  "deletionCandidates evaluate cl tc pol l st = (Inr ds, st') \<Longrightarrow> b \<in> set ds \<Longrightarrow>
   b \<in> set l \<and> bkName b \<notin> bkName ` set (evaluate l)"
  by (auto simp: deletionCandidates_def protectUnsyncedToTier2_def diffByName_def Let_def
      split: option.splits if_splits sum.splits prod.splits)

end

section \<open>Interface: backupDeleter\<close>

locale backup_deleter =
  fixes store :: "'k kopia_client" and snaps :: "'k \<Rightarrow> Manifest list"
    and list_backups :: "string \<Rightarrow> 'k \<Rightarrow> (go_error + BackupList) \<times> 'k"
    and delete_backup :: "string \<Rightarrow> string \<Rightarrow> 'k \<Rightarrow> go_error option \<times> 'k"
  assumes list_pure: "kopia_laws store snaps \<Longrightarrow> list_backups h k = (l, k') \<Longrightarrow> snaps k' = snaps k"
    and delete_scope: "kopia_laws store snaps \<Longrightarrow> delete_backup h n k = (r, k') \<Longrightarrow>
      set (snaps k') \<subseteq> set (snaps k) \<and> (\<forall>m \<in> set (snaps k). \<not> snapshot_of (h, n) m \<longrightarrow> m \<in> set (snaps k'))"
    and delete_done: "kopia_laws store snaps \<Longrightarrow> delete_backup h n k = (None, k') \<Longrightarrow>
      m \<in> set (snaps k') \<Longrightarrow> \<not> snapshot_of (h, n) m"
begin

lemma delete_loop_scope:
  assumes "kopia_laws store snaps" and "delete_backups_loop delete_backup ts d es k = (r, k')"
  shows "set (snaps k') \<subseteq> set (snaps k) \<and>
         (\<forall>m \<in> set (snaps k). (\<forall>t \<in> set ts. \<not> snapshot_of t m) \<longrightarrow> m \<in> set (snaps k'))"
  using assms(2)
proof (induction ts arbitrary: d es k)
  case (Cons t ts)
  obtain h n where t: "t = (h, n)" by force
  obtain e k1 where 1: "delete_backup h n k = (e, k1)" by force
  from Cons.prems t 1 obtain d' es' where 2: "delete_backups_loop delete_backup ts d' es' k1 = (r, k')"
    by (cases e) auto
  from delete_scope [OF assms(1) 1] Cons.IH [OF 2] t show ?case by (meson list.set_intros subset_eq)
qed simp

lemma deleteBackups_scope:
  assumes "kopia_laws store snaps" and "deleteBackups delete_backup ts k = (r, k')"
  shows "set (snaps k') \<subseteq> set (snaps k)"
    and "m \<in> set (snaps k) \<Longrightarrow> m \<notin> set (snaps k') \<Longrightarrow> \<exists>t \<in> set ts. snapshot_of t m"
  using delete_loop_scope [OF assms(1)] assms(2) by (fastforce simp: deleteBackups_def split: prod.splits)+

lemma delete_loop_done:
  assumes "kopia_laws store snaps" and "delete_backups_loop delete_backup ts d es k = ((d', []), k')" and "t \<in> set ts"
    and "m \<in> set (snaps k')"
  shows "\<not> snapshot_of t m"
  using assms(2,3)
proof (induction ts arbitrary: d es k)
  case (Cons x ts)
  obtain h n where x: "x = (h, n)" by force
  obtain e k1 where 1: "delete_backup h n k = (e, k1)" by force
  have errs: "delete_backups_loop delete_backup us c fs j = ((c', []), j') \<Longrightarrow> fs = []" for us c fs j c' j'
    by (induction us arbitrary: c fs j) (fastforce split: prod.splits option.splits)+
  from Cons.prems(1) x 1 have e: "e = None" by (cases e) (auto dest: errs)
  with Cons.prems(1) x 1 have 2: "delete_backups_loop delete_backup ts (d + 1) es k1 = ((d', []), k')" by simp
  from delete_loop_scope [OF assms(1) 2] assms(4) have "m \<in> set (snaps k1)" by blast
  with delete_done [OF assms(1) 1 [unfolded e]] Cons.IH [OF 2] Cons.prems(2) x show ?case by auto
qed simp

lemma deleteBackups_done:
  assumes "kopia_laws store snaps" and "deleteBackups delete_backup ts k = ((d, None), k')" and "t \<in> set ts" and "m \<in> set (snaps k')"
  shows "\<not> snapshot_of t m"
  using delete_loop_done [OF assms(1) _ assms(3,4)] assms(2)
  by (auto simp: deleteBackups_def errors_Join_def split: prod.splits if_splits)

end

section \<open>Lemmas: Kopia and the backups\<close>

lemma kopia_lawsD:
  assumes "kopia_laws K snaps"
  shows "ListSnapshots K tags k = (r, k') \<Longrightarrow> snaps k' = snaps k"
    and "ListSnapshots K tags k = (Inr es, k') \<Longrightarrow> tag_names tags \<Longrightarrow> es = filter (has_tags tags) (snaps k)"
    and "RestoreSingleFile K i f k = (rb, k') \<Longrightarrow> snaps k' = snaps k"
    and "DeleteSnapshot K i k = (e, k') \<Longrightarrow> snaps k' = filter (\<lambda>m. ID m \<noteq> i) (snaps k) \<or> e \<noteq> None \<and> snaps k' = snaps k"
    and "RefreshServer K k = (e, k') \<Longrightarrow> snaps k' = snaps k"
    and "distinct (map ID (snaps k))"
  using assms unfolding kopia_laws_def by blast+

lemma restoreMetadata_pure: "kopia_laws K snaps \<Longrightarrow> restoreMetadata K i k = (r, k') \<Longrightarrow> snaps k' = snaps k"
  by (auto simp: restoreMetadata_def dest: kopia_lawsD(3) split: sum.splits prod.splits)

lemma list_backup_loop_pure:
  "kopia_laws K snaps \<Longrightarrow> list_backup_loop K h es acc k = (bs, k') \<Longrightarrow> snaps k' = snaps k"
proof (induction es arbitrary: acc k)
  case (Cons e es)
  then show ?case
    by (auto dest: restoreMetadata_pure split: if_splits prod.splits sum.splits)
qed simp

lemma ListBackups_pure: "kopia_laws K snaps \<Longrightarrow> ListBackups K h k = (r, k') \<Longrightarrow> snaps k' = snaps k"
  using kopia_lawsD(1) [of K snaps "[(BackupContentTagName, ''metadata'')]" k] list_backup_loop_pure [of K snaps h]
  by (fastforce simp: ListBackups_def split: sum.splits prod.splits)

lemma deleteSnapshots_effect:
  assumes "kopia_laws K snaps"
  shows "deleteSnapshots K es err k = (r, k') \<Longrightarrow> set (snaps k') \<subseteq> set (snaps k) \<and>
     (\<forall>m \<in> set (snaps k). ID m \<notin> ID ` set es \<longrightarrow> m \<in> set (snaps k')) \<and>
     (r = None \<longrightarrow> err = None \<and> (\<forall>m \<in> set (snaps k'). ID m \<notin> ID ` set es))"
proof (induction es arbitrary: err k)
  case (Cons e es)
  obtain d k1 where 1: "DeleteSnapshot K (ID e) k = (d, k1)" by force
  from Cons.prems 1 obtain err' where 2: "deleteSnapshots K es err' k1 = (r, k')" "d \<noteq> None \<longrightarrow> err' \<noteq> None" "d = None \<longrightarrow> err' = err"
    by (cases d) auto
  from kopia_lawsD(4) [OF assms 1] Cons.IH [OF 2(1)] 2(2,3) show ?case by (cases d) auto
qed simp

lemma has_name_tag: "has_tags [(BackupNameTagName, n)] m \<and> Host (Source m) = h \<longleftrightarrow> snapshot_of (h, n) m"
  by (auto simp: has_tags_def snapshot_of_def)

lemma delete_attempts_effect:
  assumes "kopia_laws K snaps"
  shows "delete_attempts a K h n k = (r, k') \<Longrightarrow> set (snaps k') \<subseteq> set (snaps k) \<and>
     (\<forall>m \<in> set (snaps k). \<not> snapshot_of (h, n) m \<longrightarrow> m \<in> set (snaps k')) \<and>
     (r = None \<longrightarrow> (\<forall>m \<in> set (snaps k'). \<not> snapshot_of (h, n) m))"
proof (induction a arbitrary: k)
  case (Suc a)
  obtain l k1 where 1: "ListSnapshots K [(BackupNameTagName, n)] k = (l, k1)" by force
  note pure = kopia_lawsD(1) [OF assms 1]
  show ?case
  proof (cases l)
    case (Inl e)
    with Suc.prems 1 pure show ?thesis by auto
  next
    case (Inr es)
    let ?mine = "filter (\<lambda>e. Host (Source e) = h) es"
    have es: "es = filter (has_tags [(BackupNameTagName, n)]) (snaps k)"
      using kopia_lawsD(2) [OF assms, of "[(BackupNameTagName, n)]"] 1 Inr by (simp add: tag_names_def BackupNameTagName_def)
    then have mine: "set ?mine = {m \<in> set (snaps k). snapshot_of (h, n) m}" by (auto simp flip: has_name_tag)
    obtain d k2 where 2: "deleteSnapshots K ?mine None k1 = (d, k2)" by force
    note eff = deleteSnapshots_effect [OF assms 2]
    have keep: "m \<in> set (snaps k2)" if "m \<in> set (snaps k)" "\<not> snapshot_of (h, n) m" for m
    proof -
      have "ID m \<notin> ID ` set ?mine"
        using that mine kopia_lawsD(6) [OF assms, of k] by (auto simp: distinct_map inj_on_def)
      with eff that(1) pure show ?thesis by auto
    qed
    show ?thesis
    proof (cases "?mine = []")
      case True
      with Suc.prems 1 Inr pure show ?thesis by auto
    next
      case ne: False
      show ?thesis
      proof (cases d)
        case None
        then have "r = None" "k' = k2" using Suc.prems 1 Inr 2 ne by (auto simp: Let_def)
        moreover have "\<not> snapshot_of (h, n) m" if "m \<in> set (snaps k2)" for m
        proof
          assume "snapshot_of (h, n) m"
          moreover have "m \<in> set (snaps k)" using eff that pure by (metis subsetD)
          ultimately have "m \<in> set ?mine" unfolding mine by simp
          then have "ID m \<in> ID ` set ?mine" by (rule imageI)
          with eff None that show False by blast
        qed
        ultimately show ?thesis using eff pure keep by auto
      next
        case (Some e)
        then have "delete_attempts a K h n k2 = (r, k')" using Suc.prems 1 Inr 2 ne by (auto simp: Let_def)
        from Suc.IH [OF this] eff pure keep show ?thesis by auto
      qed
    qed
  qed
qed auto

interpretation kopia_conn: backup_deleter store snaps "ListBackups store" "DeleteBackup attempts store"
  for store :: "'k kopia_client" and snaps attempts
  by unfold_locales (auto simp: DeleteBackup_def dest: ListBackups_pure delete_attempts_effect)

lemma SortByAscendingTime_set: "oldest_first srt \<Longrightarrow> set (SortByAscendingTime srt l) = set l"
  by (metis SortByAscendingTime_def oldest_first_def set_mset_mset)

lemma SortByAscendingTime_sorted:
  "oldest_first srt \<Longrightarrow> mset (SortByAscendingTime srt l) = mset l \<and>
   sorted_wrt (\<lambda>a b. StartedAt a \<le> StartedAt b) (SortByAscendingTime srt l)"
  by (simp add: SortByAscendingTime_def oldest_first_def)

interpretation latest_policy: retention_policy srt "latest_Evaluate srt p" for srt p
  by unfold_locales (auto simp: latest_Evaluate_def Let_def SortByAscendingTime_set dest: in_set_dropD split: if_splits)

lemma latest_kept:
  assumes srt: "oldest_first srt" and b: "b \<in> set l"
    and few: "length (filter (\<lambda>x. StartedAt b \<le> StartedAt x) l) \<le> Count p"
  shows "b \<in> set (latest_Evaluate srt p l)"
proof -
  let ?s = "SortByAscendingTime srt l" and ?P = "\<lambda>x. StartedAt b \<le> StartedAt x"
  note s = SortByAscendingTime_sorted [OF srt, of l]
  have len: "length (filter ?P ?s) = length (filter ?P l)"
    using s by (metis mset_filter size_mset)
  have bs: "b \<in> set ?s" using b by (simp add: SortByAscendingTime_set [OF srt])
  show ?thesis
  proof (cases "Count p < length ?s")
    case False
    with b bs show ?thesis by (simp add: latest_Evaluate_def Let_def)
  next
    case True
    let ?n = "length ?s - Count p"
    have split: "?s = take ?n ?s @ drop ?n ?s" by simp
    have "b \<in> set (drop ?n ?s)"
    proof (rule ccontr)
      assume "b \<notin> set (drop ?n ?s)"
      with bs split have early: "b \<in> set (take ?n ?s)" by (metis Un_iff set_append)
      have "\<forall>x \<in> set (take ?n ?s). \<forall>y \<in> set (drop ?n ?s). StartedAt x \<le> StartedAt y"
        using s split by (metis sorted_wrt_append)
      with early have "filter ?P (drop ?n ?s) = drop ?n ?s" by (simp add: filter_id_conv)
      moreover have "filter ?P (take ?n ?s) \<noteq> []" using early by (auto simp: filter_empty_conv)
      ultimately have "Count p < length (filter ?P ?s)"
        using True by (subst split) (simp only: filter_append length_append, auto)
      with len few show False by simp
    qed
    with True show ?thesis using b by (simp add: latest_Evaluate_def Let_def)
  qed
qed

section \<open>Lemmas: the sweep of a cluster\<close>

lemma tier_state [simp]:
  "kopia_of t (put_kopia t k st) = k" "t \<noteq> t' \<Longrightarrow> kopia_of t (put_kopia t' k st) = kopia_of t st"
  "kopia_of t (put_wal t' s st) = kopia_of t st" "wal_of t (put_wal t s st) = s" "wal_of t (put_kopia t' k st) = wal_of t st"
  "t \<noteq> t' \<Longrightarrow> wal_of t (put_wal t' s st) = wal_of t st"
  by (cases t; cases t'; simp add: kopia_of_def put_kopia_def wal_of_def put_wal_def)+

definition proper_tier :: "('k, 'fs) tierConfig \<Rightarrow> bool" where
  "proper_tier tc \<longleftrightarrow> tcSyncGuard tc = None \<or> tcTier tc = Tier1"

lemma proper_configs [simp]: "proper_tier (tier1_config sw)" "proper_tier (tier2_config c sw)"
  by (simp_all add: proper_tier_def tier1_config_def tier2_config_def)

lemma deletionCandidates_state:
  assumes "deletionCandidates ev cl tc pol l st = (r, st')" and "proper_tier tc"
  shows "kopia_of (tcTier tc) st' = kopia_of (tcTier tc) st"
  using assms by (auto simp: deletionCandidates_def proper_tier_def Let_def split: option.splits if_splits sum.splits prod.splits)

lemma deletionCandidates_synced:
  assumes "deletionCandidates ev cl tc pol l st = (Inr ds, st')" and "tcSyncGuard tc = Some g" and "Tier2Policy pol \<noteq> None"
    and "b \<in> set ds"
  shows "\<exists>bs k. ListBackups g cl (kopia_of Tier2 st) = (Inr bs, k) \<and> bkName b \<in> bkName ` set bs"
  using assms by (auto simp: deletionCandidates_def protectUnsyncedToTier2_def Let_def split: option.splits if_splits sum.splits prod.splits)

lemma sweepCluster_removes:
  assumes laws: "kopia_laws (tcKopia tc) snaps" and srt: "oldest_first (envSort env)" and tc: "proper_tier tc"
    and run: "sweepCluster env sw cl tc st = (r, st')"
    and m: "m \<in> set (snaps (kopia_of (tcTier tc) st))" "m \<notin> set (snaps (kopia_of (tcTier tc) st'))"
  shows "\<exists>pol tp backups k1 (b :: BackupMetadata).
     GetClusterRetentionPolicy (swWal1 sw) (envProto env) cl (ssWal1 st) = Inr pol \<and> tcSelectPolicy tc pol = Some tp \<and>
     ListBackups (tcKopia tc) cl (kopia_of (tcTier tc) st) = (Inr backups, k1) \<and> snapshot_of (cl, bkName b) m \<and>
     bkName b \<notin> bkName ` set (latest_Evaluate (envSort env) \<lparr>Count = nat (Latest tp)\<rparr> backups) \<and>
     (\<forall>g. tcSyncGuard tc = Some g \<longrightarrow> Tier2Policy pol \<noteq> None \<longrightarrow>
        (\<exists>bs k. ListBackups g cl (kopia_of Tier2 st) = (Inr bs, k) \<and> bkName b \<in> bkName ` set bs))"
proof -
  let ?t = "tcTier tc"
  obtain l k1 where lst: "ListBackups (tcKopia tc) cl (kopia_of ?t st) = (l, k1)" by force
  note pure = ListBackups_pure [OF laws lst]
  obtain pol tp where pol: "GetClusterRetentionPolicy (swWal1 sw) (envProto env) cl (ssWal1 st) = Inr pol"
    "tcSelectPolicy tc pol = Some tp" "0 \<le> Latest tp"
    using run m by (auto simp: sweepCluster_def policyFromProto_def split: sum.splits option.splits if_splits)
  have ev: "policyFromProto tp = Inr \<lparr>Count = nat (Latest tp)\<rparr>" using pol(3) by (simp add: policyFromProto_def)
  obtain backups where l: "l = Inr backups" "backups \<noteq> []"
    using run m lst pure pol ev by (auto simp: sweepCluster_def Let_def split: sum.splits if_splits)
  let ?ev = "latest_Evaluate (envSort env) \<lparr>Count = nat (Latest tp)\<rparr>"
  obtain ds st2 where c: "deletionCandidates ?ev cl tc pol backups (put_kopia ?t k1 st) = (ds, st2)" by force
  have k2: "kopia_of ?t st2 = k1" using deletionCandidates_state [OF c tc] by simp
  obtain ds' where ds: "ds = Inr ds'" "ds' \<noteq> []"
    using run m lst pure pol ev l c k2 by (auto simp: sweepCluster_def Let_def split: sum.splits if_splits)
  obtain d k3 where d: "deleteBackups (DeleteBackup (envAttempts env) (tcKopia tc)) (map (\<lambda>b. (cl, bkName b)) ds') k1 = (d, k3)" by (metis surj_pair)
  have "st' = put_kopia ?t k3 st2"
    using run lst pol ev l c ds d k2 by (simp add: sweepCluster_def)
  with m pure kopia_conn.deleteBackups_scope(2) [OF laws d] obtain b where b: "b \<in> set ds'" "snapshot_of (cl, bkName b) m"
    by auto
  note cand = latest_policy.candidates_dropped [OF c [unfolded ds(1)] b(1)]
  have "\<exists>bs k. ListBackups g cl (kopia_of Tier2 st) = (Inr bs, k) \<and> bkName b \<in> bkName ` set bs"
    if "tcSyncGuard tc = Some g" "Tier2Policy pol \<noteq> None" for g
    using deletionCandidates_synced [OF c [unfolded ds(1)] that b(1)] tc that(1) by (simp add: proper_tier_def)
  with pol lst l cand b(2) show ?thesis
    by (intro exI [of _ pol] exI [of _ tp] exI [of _ backups] exI [of _ k1] exI [of _ b] conjI) simp_all
qed

section \<open>Lemmas: orphans\<close>

definition members :: "Manifest list \<Rightarrow> hostBackupName \<Rightarrow> Manifest set" where
  "members entries t = {m \<in> set entries. Host (Source m) = fst t \<and> Tag m BackupNameTagName = snd t}"

definition completed :: "Manifest list \<Rightarrow> hostBackupName \<Rightarrow> bool" where
  "completed entries t \<longleftrightarrow> (\<exists>m \<in> members entries t. Tag m BackupContentTagName = ''metadata'')"

definition started :: "Manifest list \<Rightarrow> hostBackupName \<Rightarrow> int" where
  "started entries t = Min (StartTime ` members entries t)"

definition grouped :: "string list \<Rightarrow> Manifest list \<Rightarrow> hostBackupName \<Rightarrow> bool" where
  "grouped hosts entries t \<longleftrightarrow> fst t \<in> set hosts \<and> snd t \<noteq> '''' \<and> members entries t \<noteq> {}"

lemma members_finite [simp]: "finite (members entries t)"
  by (simp add: members_def)

lemma members_snoc:
  "members (entries @ [m]) t =
     (if Host (Source m) = fst t \<and> Tag m BackupNameTagName = snd t then insert m (members entries t) else members entries t)"
  by (auto simp: members_def)

lemma add_to_group_spec:
  assumes "StartTime m \<noteq> 0" and "\<And>x. x \<in> members entries t \<Longrightarrow> StartTime x \<noteq> 0"
    and "Host (Source m) = fst t" and "Tag m BackupNameTagName = snd t"
  shows "add_to_group m (if members entries t = {} then None else Some (completed entries t, started entries t)) =
     (completed (entries @ [m]) t, started (entries @ [m]) t)"
proof (cases "members entries t = {}")
  case True
  with assms(3,4) show ?thesis by (simp add: add_to_group_def completed_def started_def members_snoc)
next
  case False
  then have "started entries t \<in> StartTime ` members entries t" by (simp add: started_def)
  with assms(2) have "started entries t \<noteq> 0" by auto
  moreover have "started (entries @ [m]) t = min (StartTime m) (started entries t)"
    using False assms(3,4) by (simp add: started_def members_snoc)
  moreover have "completed (entries @ [m]) t \<longleftrightarrow> Tag m BackupContentTagName = ''metadata'' \<or> completed entries t"
    using assms(3,4) by (auto simp: completed_def members_snoc)
  ultimately show ?thesis using False by (auto simp: add_to_group_def min_def)
qed

lemma groups_spec:
  assumes "\<And>m. m \<in> set entries \<Longrightarrow> StartTime m \<noteq> 0"
  shows "distinct (map fst (groupBackupsByHostName entries hosts)) \<and>
     map_of (groupBackupsByHostName entries hosts) t =
       (if grouped hosts entries t then Some (completed entries t, started entries t) else None)"
  using assms
proof (induction entries arbitrary: t rule: rev_induct)
  case Nil
  show ?case by (simp add: groupBackupsByHostName_def grouped_def members_def)
next
  case (snoc m entries)
  let ?g = "groupBackupsByHostName entries hosts" and ?t = "(Host (Source m), Tag m BackupNameTagName)"
  have step: "groupBackupsByHostName (entries @ [m]) hosts = group_entry hosts ?g m"
    by (simp add: groupBackupsByHostName_def)
  have IH: "distinct (map fst ?g)" "map_of ?g u = (if grouped hosts entries u then Some (completed entries u, started entries u) else None)" for u
    using snoc by auto
  show ?case
  proof (cases "fst ?t \<in> set hosts \<and> snd ?t \<noteq> ''''")
    case False
    then have "group_entry hosts ?g m = ?g" by (auto simp: group_entry_def Let_def)
    moreover have "grouped hosts (entries @ [m]) t = grouped hosts entries t"
      "grouped hosts entries t \<Longrightarrow> members (entries @ [m]) t = members entries t"
      using False by (auto simp: grouped_def members_snoc)
    ultimately show ?thesis using step IH by (simp add: completed_def started_def)
  next
    case True
    have "members entries ?t = {} \<longleftrightarrow> \<not> grouped hosts entries ?t" using True by (simp add: grouped_def)
    then have g: "map_of ?g ?t = (if members entries ?t = {} then None else Some (completed entries ?t, started entries ?t))"
      using IH(2) [of ?t] by simp
    have "add_to_group m (map_of ?g ?t) = (completed (entries @ [m]) ?t, started (entries @ [m]) ?t)"
      unfolding g by (rule add_to_group_spec) (use snoc.prems in \<open>auto simp: members_def\<close>)
    then have e: "group_entry hosts ?g m = AList.update ?t (completed (entries @ [m]) ?t, started (entries @ [m]) ?t) ?g"
      using True by (simp add: group_entry_def Let_def)
    have other: "t \<noteq> ?t \<Longrightarrow> members (entries @ [m]) t = members entries t" by (auto simp: members_snoc prod_eq_iff)
    have mine: "grouped hosts (entries @ [m]) ?t" using True by (simp add: grouped_def members_snoc)
    show ?thesis
      using IH mine other by (auto simp: step e distinct_update update_conv' grouped_def completed_def started_def)
  qed
qed

lemma latestCompleted_spec:
  "case latestCompletedStartTimePerHost gs h of
     None \<Rightarrow> \<forall>n s. ((h, n), (True, s)) \<notin> set gs
   | Some t \<Rightarrow> (\<exists>n. ((h, n), (True, t)) \<in> set gs) \<and> (\<forall>n s. ((h, n), (True, s)) \<in> set gs \<longrightarrow> s \<le> t)"
proof (induction gs rule: rev_induct)
  case (snoc g gs)
  obtain h' n' c s where g: "g = ((h', n'), (c, s))" by (metis surj_pair)
  let ?L = "latestCompletedStartTimePerHost gs"
  have "latestCompletedStartTimePerHost (gs @ [g]) =
      (if \<not> c then ?L else if ?L h' = None \<or> the (?L h') < s then ?L(h' \<mapsto> s) else ?L)"
    by (simp add: latestCompletedStartTimePerHost_def g)
  with snoc g show ?case by (cases "?L h"; cases "h' = h") (force split: if_splits)+
qed (simp add: latestCompletedStartTimePerHost_def)

lemma orphan_iff:
  assumes "\<And>m. m \<in> set entries \<Longrightarrow> StartTime m \<noteq> 0" and order: "map_order order"
  shows "(h, n) \<in> set (orphanBackupNames order entries hosts) \<longleftrightarrow>
     grouped hosts entries (h, n) \<and> \<not> completed entries (h, n) \<and>
     (\<exists>n'. grouped hosts entries (h, n') \<and> completed entries (h, n') \<and> started entries (h, n) < started entries (h, n'))"
proof -
  let ?g = "groupBackupsByHostName entries hosts"
  let ?L = "latestCompletedStartTimePerHost (order ?g)"
  have set: "set (order ?g) = set ?g" using order unfolding map_order_def by (metis set_mset_mset)
  have mem: "(t, c, s) \<in> set ?g \<longleftrightarrow> grouped hosts entries t \<and> c = completed entries t \<and> s = started entries t" for t c s
    using groups_spec [of entries hosts t] assms(1) by (auto simp flip: map_of_eq_Some_iff split: if_splits)
  have "(h, n) \<in> set (orphanBackupNames order entries hosts) \<longleftrightarrow>
      (\<exists>s t. ((h, n), (False, s)) \<in> set ?g \<and> ?L h = Some t \<and> s < t)"
    by (force simp: orphanBackupNames_def Let_def set split: option.splits)
  also have "\<dots> \<longleftrightarrow> (\<exists>s n' t. ((h, n), (False, s)) \<in> set ?g \<and> ((h, n'), (True, t)) \<in> set ?g \<and> s < t)"
    using latestCompleted_spec [where gs = "order ?g" and h = h] by (cases "?L h") (force simp: set)+
  also have "\<dots> \<longleftrightarrow> grouped hosts entries (h, n) \<and> \<not> completed entries (h, n) \<and>
     (\<exists>n'. grouped hosts entries (h, n') \<and> completed entries (h, n') \<and> started entries (h, n) < started entries (h, n'))"
    by (auto simp: mem)
  finally show ?thesis .
qed

section \<open>Lemmas: WAL retention\<close>

lemma findOldestWAL_min:
  assumes "b \<in> set backups" and "StartWAL b \<noteq> ''''"
  shows "findOldestWAL backups \<noteq> '''' \<and> findOldestWAL backups \<le> StartWAL b"
proof -
  have "(oldest \<noteq> '''' \<longrightarrow> r \<noteq> '''' \<and> r \<le> oldest) \<and> (\<forall>b \<in> set bs. StartWAL b \<noteq> '''' \<longrightarrow> r \<noteq> '''' \<and> r \<le> StartWAL b)"
    if "r = foldl (\<lambda>oldest b. if StartWAL b = '''' then oldest
            else if oldest = '''' \<or> StartWAL b < oldest then StartWAL b else oldest) oldest bs" for r oldest bs
    using that
  proof (induction bs arbitrary: oldest)
    case (Cons x bs)
    let ?o = "if StartWAL x = '''' then oldest else if oldest = '''' \<or> StartWAL x < oldest then StartWAL x else oldest"
    from Cons.IH [of ?o] Cons.prems have "(?o \<noteq> '''' \<longrightarrow> r \<noteq> '''' \<and> r \<le> ?o) \<and>
        (\<forall>b \<in> set bs. StartWAL b \<noteq> '''' \<longrightarrow> r \<noteq> '''' \<and> r \<le> StartWAL b)" by simp
    moreover have "oldest \<noteq> '''' \<Longrightarrow> ?o \<noteq> '''' \<and> ?o \<le> oldest" "StartWAL x \<noteq> '''' \<Longrightarrow> ?o \<noteq> '''' \<and> ?o \<le> StartWAL x" by auto
    ultimately show ?case by (auto intro: order_trans simp del: less_list_code)
  qed simp
  from this [OF refl, of "''''" backups] assms show ?thesis by (auto simp: findOldestWAL_def)
qed

lemma applyWALRetention_wal:
  assumes "applyWALRetention env cl tc st = (e, st')" and "tcWalRepository tc = Some repo"
    and "ListBackups (tcKopia tc) cl (kopia_of (tcTier tc) st) = (Inr backups, k1)"
  shows "wal_of (tcTier tc) st' = wal_of (tcTier tc) st \<or>
         findOldestWAL backups \<noteq> '''' \<and> (\<exists>r. SetFirstRequiredOnCluster (envIsWALFile env) repo cl (findOldestWAL backups)
            (wal_of (tcTier tc) st) = (r, wal_of (tcTier tc) st'))"
  using assms by (auto simp: applyWALRetention_def Let_def split: if_splits prod.splits)

section \<open>Lemmas: the concrete Kopia\<close>

lemma mem_manifest_facts [simp]:
  "snapshot_of (h, n) (mem_manifest i name content start) \<longleftrightarrow> h = ''pg'' \<and> n = name"
  "ID (mem_manifest i name content start) = i" "StartTime (mem_manifest i name content start) = start"
  by (auto simp: snapshot_of_def mem_manifest_def userTagPrefix_def BackupNameTagName_def BackupContentTagName_def)

lemma mem_backup_facts [simp]:
  "bkName (mem_backup n w t) = n" "StartWAL (mem_backup n w t) = w" "StartedAt (mem_backup n w t) = int t"
  "StoppedAt (mem_backup n w t) = int t"
  by (simp_all add: mem_backup_def)

lemma example_snaps:
  "mem_snaps example_kopia = [mem_manifest ''d1'' ''b1'' ''pgdata'' 1, mem_manifest ''m1'' ''b1'' ''metadata'' 1,
     mem_manifest ''m2'' ''b2'' ''metadata'' 2]"
  by (simp add: mem_snaps_def example_kopia_def)

lemma example_sweeper_fields [simp]:
  "swTier1 example_sweeper = mem_store" "swTier2 example_sweeper = Some mem_store" "swWal1 example_sweeper = mem_connection"
  "envSort example_env = sort_key StartedAt" "envProto example_env = plain_proto" "envIsWALFile example_env = hex24"
  "tcTier (tier1_config sw) = Tier1" "tcKopia (tier1_config sw) = swTier1 sw" "tcSelectPolicy (tier1_config sw) = Tier1Policy"
  "tcWalRepository (tier1_config sw) = Some (swWal1 sw)"
  by (simp_all add: example_sweeper_def example_env_def tier1_config_def)

lemma mem_store_laws: "kopia_laws mem_store mem_snaps"
proof -
  have "mem_snaps (filter (\<lambda>e. ID (fst e) \<noteq> i) l, bad) = filter (\<lambda>m. ID m \<noteq> i) (mem_snaps (l, bad))"
    if "distinct (map (ID \<circ> fst) l)" for i l bad
    using that by (simp add: mem_snaps_def filter_map comp_def distinct_map_filter)
  moreover have "distinct (map ID (mem_snaps k))" for k by (simp add: mem_snaps_def)
  ultimately show ?thesis
    by (auto simp: kopia_laws_def mem_store_def mem_snaps_def split: if_splits option.splits prod.splits)
qed

lemma sort_key_oldest_first: "oldest_first (sort_key StartedAt)"
  using sorted_sort_key [of "StartedAt :: BackupMetadata \<Rightarrow> int"] by (simp add: oldest_first_def sorted_map)

lemma example_backups:
  "ListBackups mem_store ''pg'' example_kopia =
     (Inr [mem_backup ''b1'' ''00000001000000000000000A'' 1, mem_backup ''b2'' ''00000001000000000000000B'' 2], example_kopia)"
  by (simp add: ListBackups_def mem_store_def mem_snaps_def example_kopia_def has_tags_def mem_manifest_def restoreMetadata_def
      dec_enc_strings userTagPrefix_def BackupNameTagName_def BackupContentTagName_def numeral_2_eq_2)

lemma example_policies_stored:
  obtains s where "GetClusterRetentionPolicy mem_connection plain_proto ''pg'' s = Inr example_policies"
proof -
  have data: "MarshalPolicy plain_proto example_policies = Inr (enc_strings [''s'', ''i'', '''', ''s'', ''i'', ''''])"
    by (simp add: plain_proto_def example_policies_def enc_policy_def enc_int_def)
  then obtain s where "SetRetentionPolicy example_impl plain_proto example_ctx ''pg'' example_policies [] = (None, s)"
    by (simp add: SetRetentionPolicy_def mem_small_write enc_strings_def Let_def)
  from policy_stored [of example_impl mem_files, OF _ _ _ plain_proto_laws _ _ this] data
  have "GetRetentionPolicy example_impl plain_proto example_ctx ''pg'' s = Inr example_policies"
    by (simp add: mem_reliable enc_strings_def walBlockSize_def)
  with that show thesis by (auto simp: GetRetentionPolicy_def split: sum.splits)
qed

text \<open>
  A read of backup metadata that fails once.  ListBackups skips the backup, the oldest WAL is taken
  from the others, and the WAL that the skipped backup starts from is deleted; afterwards the backup is
  listed again, and can no longer be restored.
\<close>

lemma flaky_read_loses_wals:
  defines "st \<equiv> \<lparr>ssKopia1 = (fst example_kopia, [''m1'']), ssKopia2 = ([], []), ssWal1 = example_wals, ssWal2 = []\<rparr>"
  defines "st' \<equiv> snd (applyWALRetention example_env ''pg'' (tier1_config example_sweeper) st)"
  shows "\<exists>b bs. ListBackups mem_store ''pg'' (ssKopia1 st') = (Inr (b # bs), ssKopia1 st') \<and>
           mem_files (ssWal1 st) (getWALArchivePath ''pg'' (StartWAL b)) = Some [1] \<and>
           mem_files (ssWal1 st') (getWALArchivePath ''pg'' (StartWAL b)) = None"
proof -
  let ?b2 = "mem_backup ''b2'' ''00000001000000000000000B'' 2"
  let ?r = "SetFirstRequiredOnCluster hex24 mem_connection ''pg'' ''00000001000000000000000B'' example_wals"
  have l: "ListBackups mem_store ''pg'' (fst example_kopia, [''m1'']) = (Inr [?b2], example_kopia)"
    by (simp add: ListBackups_def mem_store_def mem_snaps_def example_kopia_def has_tags_def mem_manifest_def restoreMetadata_def
        dec_enc_strings userTagPrefix_def BackupNameTagName_def BackupContentTagName_def numeral_2_eq_2)
  have facts: "plain_elem ''pg''" "ValidateWalFileName ''00000001000000000000000A'' = None"
    "IsWALSegmentOrPartial hex24 ''00000001000000000000000A''"
    "TrimPartialSuffix ''00000001000000000000000A'' < ''00000001000000000000000B''"
    "walSubdirectoryLength \<le> length ''00000001000000000000000B''"
    and valid: "ValidateWalFileName ''00000001000000000000000B'' = None"
    and path: "getWALArchivePath ''pg'' ''00000001000000000000000A'' = ''pg/0000000100000000/00000001000000000000000A''"
    by code_simp+
  have "path_Join [''pg'', ''0000000100000000''] = ''pg/0000000100000000''" "plain_elem ''0000000100000000''" by code_simp+
  then have dirs: "ReadDir (connFs mem_connection) ''pg'' example_wals = Inr [(''0000000100000000'', True)]"
    "mem_files example_wals (path_Join [''pg'', take walSubdirectoryLength ''00000001000000000000000A'']) = None"
    by (simp_all add: example_wals_def mem_entry_def mem_below_def mem_files_def walSubdirectoryLength_def)
  have gone: "mem_files (snd ?r) (getWALArchivePath ''pg'' ''00000001000000000000000A'') = None"
    using dirs by (intro first_required_removes [OF mem_connection_laws(1) hex24_segment_test facts])
      (auto simp: walSubdirectoryLength_def mem_files_def)
  have "applyWALRetention example_env ''pg'' (tier1_config example_sweeper) st =
      (fst ?r, put_wal Tier1 (snd ?r) (put_kopia Tier1 example_kopia st))"
  proof -
    have "kopia_of Tier1 st = (fst example_kopia, [''m1''])" "wal_of Tier1 st = example_wals"
      by (simp_all add: st_def kopia_of_def wal_of_def)
    moreover have "findOldestWAL [?b2] = ''00000001000000000000000B''" by (simp add: findOldestWAL_def)
    ultimately show ?thesis using l valid by (simp add: applyWALRetention_def Let_def case_prod_unfold)
  qed
  then have st': "ssKopia1 st' = example_kopia" "ssWal1 st' = snd ?r"
    by (simp_all add: st'_def put_wal_def put_kopia_def)
  moreover have "mem_files (ssWal1 st) (getWALArchivePath ''pg'' ''00000001000000000000000A'') = Some [1]"
    by (simp add: st_def path example_wals_def mem_files_def)
  ultimately show ?thesis
    using gone example_backups by (intro exI [of _ "mem_backup ''b1'' ''00000001000000000000000A'' 1"] exI [of _ "[?b2]"]) simp
qed

section \<open>Properties\<close>

text \<open>
  C12: retention keeps the latest backups.  When the stored policy of a tier asks for the latest n
  backups, no snapshot of a listed backup is removed by sweepCluster as long as at most n of the
  listed backups, itself included, started at its time or later; and with n = 0 none is removed at
  all.
\<close>

theorem retention_keeps_latest_backups:
  assumes "kopia_laws (tcKopia tc) snaps" and "oldest_first (envSort env)" and "proper_tier tc"
    and "GetClusterRetentionPolicy (swWal1 sw) (envProto env) cl (ssWal1 st) = Inr pol" and "tcSelectPolicy tc pol = Some tp"
    and "ListBackups (tcKopia tc) cl (kopia_of (tcTier tc) st) = (Inr backups, k1)" and "b \<in> set backups"
    and "Latest tp = 0 \<or> int (length (filter (\<lambda>x. StartedAt b \<le> StartedAt x) backups)) \<le> Latest tp"
    and "sweepCluster env sw cl tc st = (r, st')"
    and "m \<in> set (snaps (kopia_of (tcTier tc) st))" and "snapshot_of (cl, bkName b) m"
  shows "m \<in> set (snaps (kopia_of (tcTier tc) st'))"
proof (rule ccontr)
  assume "m \<notin> set (snaps (kopia_of (tcTier tc) st'))"
  from sweepCluster_removes [OF assms(1-3,9,10) this] obtain pol' tp' backups' k1' and b' :: BackupMetadata where
    "GetClusterRetentionPolicy (swWal1 sw) (envProto env) cl (ssWal1 st) = Inr pol'" "tcSelectPolicy tc pol' = Some tp'"
    "ListBackups (tcKopia tc) cl (kopia_of (tcTier tc) st) = (Inr backups', k1')" "snapshot_of (cl, bkName b') m"
    "bkName b' \<notin> bkName ` set (latest_Evaluate (envSort env) \<lparr>Count = nat (Latest tp')\<rparr> backups')" by blast
  with assms(4-6,11) have name: "bkName b \<notin> bkName ` set (latest_Evaluate (envSort env) \<lparr>Count = nat (Latest tp)\<rparr> backups)"
    by (simp add: snapshot_of_def)
  have "b \<in> set (latest_Evaluate (envSort env) \<lparr>Count = nat (Latest tp)\<rparr> backups)"
  proof (cases "Latest tp = 0")
    case True
    with assms(7) show ?thesis by (simp add: latest_Evaluate_def)
  next
    case False
    with assms(8) show ?thesis by (intro latest_kept [OF assms(2,7)]) simp
  qed
  with name show False by blast
qed

theorem retention_keeps_latest_backups_witness:
  "\<exists>s. mem_manifest ''m2'' ''b2'' ''metadata'' 2 \<in> set (mem_snaps (ssKopia1 (snd (sweepCluster example_env example_sweeper ''pg''
     (tier1_config example_sweeper) \<lparr>ssKopia1 = example_kopia, ssKopia2 = example_kopia, ssWal1 = s, ssWal2 = []\<rparr>))))"
proof -
  obtain s where s: "GetClusterRetentionPolicy mem_connection plain_proto ''pg'' s = Inr example_policies"
    by (rule example_policies_stored)
  let ?st = "\<lparr>ssKopia1 = example_kopia, ssKopia2 = example_kopia, ssWal1 = s, ssWal2 = []\<rparr>"
  have "mem_manifest ''m2'' ''b2'' ''metadata'' 2 \<in> set (mem_snaps (kopia_of (tcTier (tier1_config example_sweeper))
      (snd (sweepCluster example_env example_sweeper ''pg'' (tier1_config example_sweeper) ?st))))"
    by (rule retention_keeps_latest_backups [where snaps = mem_snaps and sw = example_sweeper and env = example_env and st = ?st and cl = "''pg''"
          and pol = example_policies and tp = "\<lparr>Latest = 1\<rparr>"
          and backups = "[mem_backup ''b1'' ''00000001000000000000000A'' 1, mem_backup ''b2'' ''00000001000000000000000B'' 2]" and b = "mem_backup ''b2'' ''00000001000000000000000B'' 2",
          OF _ _ _ _ _ _ _ _ prod.collapse [symmetric]])
       (use s example_backups in \<open>simp_all add: mem_store_laws sort_key_oldest_first kopia_of_def example_policies_def example_snaps\<close>)
  then show ?thesis by (auto simp: kopia_of_def)
qed

text \<open>
  C14: tier 1 keeps what tier 2 does not have.  When tier 2 is enabled and the cluster has a tier 2
  policy, a snapshot on tier 1 whose backup does not appear in the listing of tier 2 stays on tier 1,
  and so does every snapshot when that listing fails.
\<close>

theorem tier1_keeps_unsynced_backups:
  assumes "kopia_laws (swTier1 sw) snaps" and "oldest_first (envSort env)" and "swTier2 sw = Some upper"
    and "GetClusterRetentionPolicy (swWal1 sw) (envProto env) cl (ssWal1 st) = Inr pol" and "Tier2Policy pol \<noteq> None"
    and "ListBackups upper cl (ssKopia2 st) = (on_tier2, k2)"
    and "sweepCluster env sw cl (tier1_config sw) st = (r, st')"
  shows "\<forall>m \<in> set (snaps (ssKopia1 st)).
     (\<forall>bs. on_tier2 = Inr bs \<longrightarrow> (\<forall>b \<in> set bs. \<not> snapshot_of (cl, bkName b) m)) \<longrightarrow> m \<in> set (snaps (ssKopia1 st'))"
proof (intro ballI impI, rule ccontr)
  let ?tc = "tier1_config sw"
  fix m
  assume m: "m \<in> set (snaps (ssKopia1 st))" and absent: "\<forall>bs. on_tier2 = Inr bs \<longrightarrow> (\<forall>b \<in> set bs. \<not> snapshot_of (cl, bkName b) m)"
    and gone: "m \<notin> set (snaps (ssKopia1 st'))"
  have tc: "kopia_laws (tcKopia ?tc) snaps" "m \<in> set (snaps (kopia_of (tcTier ?tc) st))"
    "m \<notin> set (snaps (kopia_of (tcTier ?tc) st'))" "tcSyncGuard ?tc = Some upper"
    using assms(1,3) m gone by (simp_all add: tier1_config_def kopia_of_def)
  from sweepCluster_removes [OF tc(1) assms(2) proper_configs(1) assms(7) tc(2,3)] obtain pol' and b :: BackupMetadata where
    "GetClusterRetentionPolicy (swWal1 sw) (envProto env) cl (ssWal1 st) = Inr pol'" and b: "snapshot_of (cl, bkName b) m"
    and g: "\<forall>g. tcSyncGuard ?tc = Some g \<longrightarrow> Tier2Policy pol' \<noteq> None \<longrightarrow>
        (\<exists>bs k. ListBackups g cl (kopia_of Tier2 st) = (Inr bs, k) \<and> bkName b \<in> bkName ` set bs)" by blast
  with assms(4,5) tc(4) have "\<exists>bs k. ListBackups upper cl (kopia_of Tier2 st) = (Inr bs, k) \<and> bkName b \<in> bkName ` set bs" by simp
  with b absent assms(6) show False by (auto simp: kopia_of_def snapshot_of_def)
qed

theorem tier1_keeps_unsynced_backups_witness:
  "\<exists>s. set (mem_snaps example_kopia) \<subseteq> set (mem_snaps (ssKopia1 (snd (sweepCluster example_env example_sweeper ''pg''
     (tier1_config example_sweeper) \<lparr>ssKopia1 = example_kopia, ssKopia2 = ([], []), ssWal1 = s, ssWal2 = []\<rparr>))))"
proof -
  obtain s where s: "GetClusterRetentionPolicy mem_connection plain_proto ''pg'' s = Inr example_policies"
    by (rule example_policies_stored)
  let ?st = "\<lparr>ssKopia1 = example_kopia, ssKopia2 = ([], []), ssWal1 = s, ssWal2 = []\<rparr>"
  have "ListBackups mem_store ''pg'' ([], []) = (Inr [], ([], []))"
    by (simp add: ListBackups_def mem_store_def mem_snaps_def)
  then have "\<forall>m \<in> set (mem_snaps (ssKopia1 ?st)). (\<forall>bs. (Inr [] :: go_error + BackupList) = Inr bs \<longrightarrow> (\<forall>b \<in> set bs. \<not> snapshot_of (''pg'', bkName b) m)) \<longrightarrow>
      m \<in> set (mem_snaps (ssKopia1 (snd (sweepCluster example_env example_sweeper ''pg'' (tier1_config example_sweeper) ?st))))"
    by (intro tier1_keeps_unsynced_backups [where pol = example_policies and upper = mem_store, OF _ _ _ _ _ _ prod.collapse [symmetric]])
       (use s in \<open>simp_all add: mem_store_laws sort_key_oldest_first example_policies_def\<close>)
  then show ?thesis by (intro exI [of _ s]) auto
qed

text \<open>
  What counts as an orphan.  Whatever the order in which the groups are visited, and as long as
  no snapshot has the zero start time, orphanBackupNames returns a backup of a known cluster exactly
  when it has snapshots, none of them is its metadata, and a completed backup of the same cluster
  started after it: completed backups, and attempts with no completed successor, are never returned.
\<close>

lemma orphans_are_abandoned_attempts:
  assumes "\<And>m. m \<in> set entries \<Longrightarrow> StartTime m \<noteq> 0" and "map_order order"
  shows "(h, n) \<in> set (orphanBackupNames order entries hosts) \<longleftrightarrow>
     grouped hosts entries (h, n) \<and> \<not> completed entries (h, n) \<and>
     (\<exists>n'. grouped hosts entries (h, n') \<and> completed entries (h, n') \<and> started entries (h, n) < started entries (h, n'))"
  using assms by (rule orphan_iff)

text \<open>
  C16: WAL retention keeps what a listed backup needs.  After applyWALRetention on a tier, every WAL
  file from the start of a listed backup on, complete or partial, and every history file and backup
  label of the cluster is in the archive of that tier as it was before.
\<close>

theorem wal_retention_keeps_backup_wals:
  assumes "fs_laws (connFs repo) files" and "wal_segment_test (envIsWALFile env)" and "plain_elem cl"
    and "tcWalRepository tc = Some repo"
    and "ListBackups (tcKopia tc) cl (kopia_of (tcTier tc) st) = (Inr backups, k1)"
    and "b \<in> set backups" and "StartWAL b \<noteq> ''''" and "ValidateWalFileName w = None"
    and "IsWALSegmentOrPartial (envIsWALFile env) w \<longrightarrow> StartWAL b \<le> TrimPartialSuffix w"
    and "applyWALRetention env cl tc st = (e, st')"
  shows "files (wal_of (tcTier tc) st') (getWALArchivePath cl w) = files (wal_of (tcTier tc) st) (getWALArchivePath cl w)"
proof -
  have "findOldestWAL backups \<le> StartWAL b" using findOldestWAL_min [OF assms(6,7)] by simp
  with assms(9) have w: "IsWALSegmentOrPartial (envIsWALFile env) w \<longrightarrow> findOldestWAL backups \<le> TrimPartialSuffix w"
    by (blast intro: order_trans)
  from applyWALRetention_wal [OF assms(10,4,5)] show ?thesis
    using first_required_effect [OF assms(1-3)] assms(8) w by metis
qed

theorem wal_retention_keeps_backup_wals_witness:
  "mem_files (ssWal1 (snd (applyWALRetention example_env ''pg'' (tier1_config example_sweeper)
      \<lparr>ssKopia1 = example_kopia, ssKopia2 = ([], []), ssWal1 = example_wals, ssWal2 = []\<rparr>)))
     (getWALArchivePath ''pg'' ''00000001000000000000000A'') = Some [1]"
proof -
  let ?st = "\<lparr>ssKopia1 = example_kopia, ssKopia2 = ([], []), ssWal1 = example_wals, ssWal2 = []\<rparr>"
  have facts: "ValidateWalFileName ''00000001000000000000000A'' = None" "plain_elem ''pg''"
    "TrimPartialSuffix ''00000001000000000000000A'' = ''00000001000000000000000A''"
    "getWALArchivePath ''pg'' ''00000001000000000000000A'' = ''pg/0000000100000000/00000001000000000000000A''" by code_simp+
  have "mem_files (wal_of (tcTier (tier1_config example_sweeper)) (snd (applyWALRetention example_env ''pg'' (tier1_config example_sweeper) ?st)))
      (getWALArchivePath ''pg'' ''00000001000000000000000A'') =
     mem_files (wal_of (tcTier (tier1_config example_sweeper)) ?st) (getWALArchivePath ''pg'' ''00000001000000000000000A'')"
    by (rule wal_retention_keeps_backup_wals [where repo = mem_connection
          and backups = "[mem_backup ''b1'' ''00000001000000000000000A'' 1, mem_backup ''b2'' ''00000001000000000000000B'' 2]" and b = "mem_backup ''b1'' ''00000001000000000000000A'' 1",
          OF _ _ _ _ _ _ _ _ _ prod.collapse [symmetric]])
       (use facts example_backups in \<open>simp_all add: kopia_of_def\<close>)
  then show ?thesis by (simp add: wal_of_def facts example_wals_def mem_files_def)
qed

text \<open>
  The backup to restore for a point in time.  FindClosestBackup returns a backup of the list that
  had stopped by then and that no other such backup started after, and it returns none only when no
  backup had stopped by then.
\<close>

lemma closest_backup_is_the_latest_before:
  assumes "oldest_first srt"
  shows "case FindClosestBackup srt l t of
           None \<Rightarrow> \<forall>b \<in> set l. t < StoppedAt b
         | Some b \<Rightarrow> b \<in> set l \<and> StoppedAt b \<le> t \<and> (\<forall>x \<in> set l. StoppedAt x \<le> t \<longrightarrow> StartedAt x \<le> StartedAt b)"
proof (cases "find (\<lambda>v. StoppedAt v \<le> t) (rev (SortByAscendingTime srt l))")
  case None
  then have "\<forall>b \<in> set l. t < StoppedAt b"
    by (auto simp: find_None_iff SortByAscendingTime_set [OF assms] not_le)
  with None show ?thesis by (simp add: FindClosestBackup_def)
next
  case (Some b)
  let ?s = "rev (SortByAscendingTime srt l)"
  from Some obtain i where i: "i < length ?s" "b = ?s ! i" "StoppedAt b \<le> t" "\<forall>j < i. \<not> StoppedAt (?s ! j) \<le> t"
    by (auto simp: find_Some_iff)
  have sorted: "sorted_wrt (\<lambda>x y. StartedAt y \<le> StartedAt x) ?s"
    using SortByAscendingTime_sorted [OF assms, of l] by (simp add: sorted_wrt_rev)
  have later: "StartedAt x \<le> StartedAt b" if "x \<in> set l" "StoppedAt x \<le> t" for x
  proof -
    from that(1) obtain j where j: "j < length ?s" "x = ?s ! j"
      using SortByAscendingTime_set [OF assms, of l] by (metis in_set_conv_nth set_rev)
    with i(4) that(2) have "i \<le> j" by (meson not_less)
    with sorted i j show ?thesis by (cases "i = j") (auto simp: sorted_wrt_iff_nth_less)
  qed
  have "b \<in> set l" using i(1,2) SortByAscendingTime_set [OF assms, of l] by (metis nth_mem set_rev)
  with later i(3) Some show ?thesis by (auto simp: FindClosestBackup_def)
qed

end
