(* ===== verification/Tier_Consumers.thy ===== *)
theory Tier_Consumers
  imports Backup_Retention
begin

text \<open>
  The consumers of the task queue (core/internal/consumer): copying a WAL file from tier 1 to tier 2
  (wal.go), and verifying the backups of a cluster and relaying them to tier 2 (backup.go, with the
  verification of client/klioclient/kopia/verify.go).

  The Kopia commands of the relay are the record \<open>relay_kopia\<close>.  The sorted list of a string set
  (machinery module) is an argument.  Metrics are not modelled, except for the one call that claims a
  WAL was archived.
\<close>

section \<open>core/internal/consumer/wal.go\<close>

definition tier2BufferSize :: nat where
  "tier2BufferSize = 4 * 1024 * 1024"

definition relay_read_error :: go_error where "relay_read_error = Sentinel ''error while reading WAL''"
definition relay_write_error :: go_error where "relay_write_error = Sentinel ''error while writing WAL block''"

text \<open>The copy loop, with the bytes written so far.\<close>

function relay_loop ::
  "'a connection \<Rightarrow> 'b connection \<Rightarrow> Reader \<Rightarrow> DirectWriter \<Rightarrow> uint64 \<Rightarrow> 'b \<Rightarrow>
   go_error option \<times> uint64 \<times> DirectWriter \<times> 'b" where
  "relay_loop c1 c2 reader writer writtenSize s =
     (case ReadBlock c1 reader of
        Inl readError \<Rightarrow>
          if \<not> errors_Is readError EOF then (Some relay_read_error, writtenSize, writer, s)
          else (case dw_WriteBlock c2 writer [] s of
                  (Some e, w', s') \<Rightarrow> (Some relay_write_error, writtenSize, w', s')
                | (None, w', s') \<Rightarrow> (None, writtenSize, w', s'))
      | Inr (block, reader') \<Rightarrow>
          (case dw_WriteBlock c2 writer block s of
             (Some e, w', s') \<Rightarrow> (Some relay_write_error, writtenSize, w', s')
           | (None, w', s') \<Rightarrow> relay_loop c1 c2 reader' w' (writtenSize + of_nat (length block)) s'))"
  by pat_completeness auto
termination
  by (relation "measure (\<lambda>(c1, c2, r, w, n, s). length (rRemaining r))") (auto dest: ReadBlock_shrinks)

declare relay_loop.simps [simp del]

text \<open>
  The handler of a task.  Its second result are the calls of recordArchivedWALMetrics (segment size
  and bytes written), which a deferred function makes once the writer is closed.
\<close>

definition walHandler ::
  "'a connection \<Rightarrow> 'b connection \<Rightarrow> WALTask \<Rightarrow> 'a \<Rightarrow> 'b \<Rightarrow>
   (go_error option \<times> (uint64 \<times> uint64) list) \<times> 'b" where
  "walHandler tier1 tier2 task s1 s2 =
     (case NewReader tier1 (wtClusterName task) (wtWALName task) s1 of
        Inl e \<Rightarrow> ((Some (Wrap ''while creating a new WAL reader'' e), []), s2)
      | Inr reader \<Rightarrow>
          (case NewDirectWriter tier2
                  \<lparr>optClusterName = wtClusterName task, optWALName = wtWALName task,
                   optSegmentSize = GetFileLength reader, optBufferSize = tier2BufferSize\<rparr> s2 of
             (Inl e, s) \<Rightarrow> ((Some (Wrap ''while creating a new WAL writer for Tier 2'' e), []), s)
           | (Inr writer, s) \<Rightarrow>
               let (returnErr, writtenSize, w', s') = relay_loop tier1 tier2 reader writer 0 s
               in case dw_Close tier2 w' s' of
                    (Some closeErr, _, s'') \<Rightarrow>
                      ((case returnErr of None \<Rightarrow> Some (Wrap ''while closing Tier 2 WAL'' closeErr) | Some e \<Rightarrow> Some e, []), s'')
                  | (None, _, s'') \<Rightarrow> ((returnErr, [(GetFileLength reader, writtenSize)]), s'')))"

definition latestWrittenLSN :: "lsn_math \<Rightarrow> string \<Rightarrow> uint64 \<Rightarrow> uint64 \<Rightarrow> go_error + uint64" where
  "latestWrittenLSN lm walName segmentSize writtenSize =
     (case LSNStartFromWALName lm walName segmentSize of
        Inl e \<Rightarrow> Inl (Wrap ''while computing start LSN'' e)
      | Inr startLSN \<Rightarrow>
          (case LSNParse lm startLSN of
             Inl e \<Rightarrow> Inl (Wrap ''while parsing start LSN'' e)
           | Inr startPos \<Rightarrow> Inr (startPos + writtenSize - 1)))"

text \<open>The LSN that recordArchivedWALMetrics reports, if any.\<close>

definition recordArchivedWALMetrics ::
  "(string \<Rightarrow> bool) \<Rightarrow> lsn_math \<Rightarrow> WALTask \<Rightarrow> uint64 \<Rightarrow> uint64 \<Rightarrow> uint64 option" where
  "recordArchivedWALMetrics isWALFile lm task segmentSize writtenSize =
     (if \<not> IsWALSegmentOrPartial isWALFile (wtWALName task) then None
      else if 0 < writtenSize
      then (case latestWrittenLSN lm (TrimPartialSuffix (wtWALName task)) segmentSize writtenSize of
              Inl e \<Rightarrow> None | Inr lsn \<Rightarrow> Some lsn)
      else None)"

text \<open>The handler as Run passes it to the queue: the state is the one of tier 2.\<close>

definition wal_consumer ::
  "'a connection \<Rightarrow> 'b connection \<Rightarrow> 'a \<Rightarrow> WALTask \<Rightarrow> 'b \<Rightarrow> go_error option \<times> 'b" where
  "wal_consumer tier1 tier2 s1 task s2 = (let ((e, _), s) = walHandler tier1 tier2 task s1 s2 in (e, s))"

section \<open>core/internal/client/klioclient/kopia/verify.go\<close>

text \<open>An error of the verification: corruption is the type BackupVerificationError, the rest is infrastructure.\<close>

datatype verify_error = BackupVerificationError nat go_error | Infrastructure go_error

record 'k verify_kopia =
  VerifySnapshots :: "string list \<Rightarrow> 'k \<Rightarrow> (nat \<times> go_error option) \<times> 'k"

record 'k relay_kopia = "'k verify_kopia" +
  MigrateSnapshots :: "string list \<Rightarrow> string list \<Rightarrow> 'k \<Rightarrow> 'k \<Rightarrow> go_error option \<times> 'k"
  SetKopiaCompressionPolicy :: "string \<Rightarrow> CompressionPolicy \<Rightarrow> 'k \<Rightarrow> go_error option \<times> 'k"

record VerifyOpts =
  voHostname :: string
  voBackupNames :: "string list"
  voAll :: bool

definition ErrNoSnapshotsForBackup :: go_error where
  "ErrNoSnapshotsForBackup = Sentinel ''no snapshots found for backup''"

definition classifyVerifyError :: "nat \<Rightarrow> go_error \<Rightarrow> verify_error" where
  "classifyVerifyError errorCount err =
     (if 0 < errorCount then BackupVerificationError errorCount err
      else Infrastructure (Wrap ''backup verification encountered an infrastructure error'' err))"

definition verify_ids :: "('k, 'm) verify_kopia_scheme \<Rightarrow> string list \<Rightarrow> 'k \<Rightarrow> verify_error option \<times> 'k" where
  "verify_ids rk ids k =
     (case VerifySnapshots rk ids k of
        ((_, None), k') \<Rightarrow> (None, k')
      | ((errorCount, Some err), k') \<Rightarrow> (Some (classifyVerifyError errorCount err), k'))"

definition verifyAllBackups :: "('k, 'm) verify_kopia_scheme \<Rightarrow> string \<Rightarrow> 'k \<Rightarrow> verify_error option \<times> 'k" where
  "verifyAllBackups rk hostname k = verify_ids rk [] k"

definition getBackupRootObjIDs ::
  "'k kopia_client \<Rightarrow> string \<Rightarrow> string \<Rightarrow> 'k \<Rightarrow> (go_error + string list) \<times> 'k" where
  "getBackupRootObjIDs store hostname backupName k =
     (case ListSnapshots store [(BackupNameTagName, backupName)] k of
        (Inl e, k') \<Rightarrow> (Inl e, k')
      | (Inr entries, k') \<Rightarrow>
          let ids = List.map_filter (\<lambda>e. if Host (Source e) \<noteq> hostname then None
                      else case RootEntry e of None \<Rightarrow> None | Some i \<Rightarrow> if i = '''' then None else Some i) entries
          in (if ids = [] then Inl (Wrap backupName ErrNoSnapshotsForBackup) else Inr ids, k'))"

fun collect_root_ids ::
  "'k kopia_client \<Rightarrow> string \<Rightarrow> string list \<Rightarrow> string list \<Rightarrow> 'k \<Rightarrow> (go_error + string list) \<times> 'k" where
  "collect_root_ids store hostname [] acc k = (Inr acc, k)"
| "collect_root_ids store hostname (name # names) acc k =
     (case getBackupRootObjIDs store hostname name k of
        (Inl e, k') \<Rightarrow> (Inl (Wrap ''backup'' e), k')
      | (Inr ids, k') \<Rightarrow> collect_root_ids store hostname names (acc @ ids) k')"

definition verifySpecificBackups ::
  "'k kopia_client \<Rightarrow> ('k, 'm) verify_kopia_scheme \<Rightarrow> string \<Rightarrow> string list \<Rightarrow> 'k \<Rightarrow> verify_error option \<times> 'k" where
  "verifySpecificBackups store rk hostname backupNames k =
     (if backupNames = [] then (None, k)
      else case collect_root_ids store hostname backupNames [] k of
             (Inl e, k') \<Rightarrow> (Some (Infrastructure e), k')
           | (Inr ids, k') \<Rightarrow> verify_ids rk ids k')"

definition VerifyBackups ::
  "'k kopia_client \<Rightarrow> ('k, 'm) verify_kopia_scheme \<Rightarrow> VerifyOpts \<Rightarrow> 'k \<Rightarrow> verify_error option \<times> 'k" where
  "VerifyBackups store rk opts k =
     (if voAll opts then verifyAllBackups rk (voHostname opts) k
      else verifySpecificBackups store rk (voHostname opts) (voBackupNames opts) k)"

section \<open>core/internal/consumer/backup.go\<close>

definition errTier2NotConfigured :: go_error where
  "errTier2NotConfigured = Sentinel ''backup requested tier2 relay but the server has no tier2 configured''"

text \<open>The interface backupSteps over a state of its implementation.\<close>

record 's backupSteps =
  listManifests :: "string \<Rightarrow> 's \<Rightarrow> (go_error + Manifest list) \<times> 's"
  verifyTier1 :: "string \<Rightarrow> 's \<Rightarrow> go_error option \<times> 's"
  relayTier2 :: "BackupTask \<Rightarrow> Manifest list \<Rightarrow> 's \<Rightarrow> go_error option \<times> 's"
  refreshTier2 :: "'s \<Rightarrow> go_error option \<times> 's"

definition relayToTier2IfRequested ::
  "'s backupSteps \<Rightarrow> bool \<Rightarrow> BackupTask \<Rightarrow> Manifest list \<Rightarrow> 's \<Rightarrow> go_error option \<times> 's" where
  "relayToTier2IfRequested steps tier2Enabled task entries s =
     (if SendToTier2 task \<and> \<not> tier2Enabled then (Some errTier2NotConfigured, s)
      else if \<not> SendToTier2 task then (None, s)
      else (case relayTier2 steps task entries s of
              (Some e, s') \<Rightarrow> (Some e, s')
            | (None, s') \<Rightarrow> let (_, s'') = refreshTier2 steps s' in (None, s'')))"

definition processBackup :: "'s backupSteps \<Rightarrow> bool \<Rightarrow> BackupTask \<Rightarrow> 's \<Rightarrow> go_error option \<times> 's" where
  "processBackup steps tier2Enabled task s =
     (case listManifests steps (btClusterName task) s of
        (Inl e, s1) \<Rightarrow> (Some e, s1)
      | (Inr entries, s1) \<Rightarrow>
          if entries = [] then (None, s1)
          else (case verifyTier1 steps (btClusterName task) s1 of
                  (Some e, s2) \<Rightarrow> (Some e, s2)
                | (None, s2) \<Rightarrow> relayToTier2IfRequested steps tier2Enabled task entries s2))"

text \<open>The consumer itself: the Kopia clients of the two tiers, with the pair of their states.\<close>

record 'k Backup =
  bTier1Kopia :: "'k kopia_client"
  bTier2Kopia :: "'k kopia_client"
  bRelay1 :: "'k relay_kopia"
  bRelay2 :: "'k relay_kopia"
  bTier2Enabled :: bool
  bSortedList :: "string set \<Rightarrow> string list"

definition relay_tags :: "string list" where
  "relay_tags = [''klio.io/tablespaceName'', BackupContentTagName, BackupNameTagName]"

definition b_listManifests :: "'k Backup \<Rightarrow> string \<Rightarrow> 'k \<times> 'k \<Rightarrow> (go_error + Manifest list) \<times> ('k \<times> 'k)" where
  "b_listManifests d cluster s =
     (case ListSnapshots (bTier1Kopia d) [] (fst s) of
        (Inl e, k) \<Rightarrow> (Inl (Wrap ''while executing Kopia command'' e), (k, snd s))
      | (Inr entries, k) \<Rightarrow> (Inr (filter (\<lambda>e. \<not> Host (Source e) \<noteq> cluster) entries), (k, snd s)))"

definition manifestListToDescriptors :: "(string set \<Rightarrow> string list) \<Rightarrow> Manifest list \<Rightarrow> string list" where
  "manifestListToDescriptors toSortedList entries =
     toSortedList ((\<lambda>e. SourceInfo_String (Source e)) ` set entries)"

definition b_verifyTier1 :: "'k Backup \<Rightarrow> string \<Rightarrow> 'k \<times> 'k \<Rightarrow> go_error option \<times> ('k \<times> 'k)" where
  "b_verifyTier1 d clusterName s =
     (case VerifyBackups (bTier1Kopia d) (bRelay1 d) \<lparr>voHostname = clusterName, voBackupNames = [], voAll = True\<rparr> (fst s) of
        (None, k) \<Rightarrow> (None, (k, snd s))
      | (Some (BackupVerificationError n e), k) \<Rightarrow> (Some (Wrap ''tier1 verification detected corruption'' e), (k, snd s))
      | (Some (Infrastructure e), k) \<Rightarrow> (Some e, (k, snd s)))"

definition verifyTier2Backups :: "'k Backup \<Rightarrow> string \<Rightarrow> 'k \<times> 'k \<Rightarrow> go_error option \<times> ('k \<times> 'k)" where
  "verifyTier2Backups d clusterName s =
     (case VerifyBackups (bTier2Kopia d) (bRelay2 d) \<lparr>voHostname = clusterName, voBackupNames = [], voAll = True\<rparr> (snd s) of
        (None, k) \<Rightarrow> (None, (fst s, k))
      | (Some (BackupVerificationError n e), k) \<Rightarrow> (Some (Wrap ''tier2 verification detected corruption'' e), (fst s, k))
      | (Some (Infrastructure e), k) \<Rightarrow> (None, (fst s, k)))"

definition b_relayTier2 :: "'k Backup \<Rightarrow> BackupTask \<Rightarrow> Manifest list \<Rightarrow> 'k \<times> 'k \<Rightarrow> go_error option \<times> ('k \<times> 'k)" where
  "b_relayTier2 d task entries s =
     (let sources = manifestListToDescriptors (bSortedList d) entries;
          (policyErr, k1) =
            (case Tier2CompressionPolicy task of
               None \<Rightarrow> (None, snd s)
             | Some p \<Rightarrow>
                 if entries = [] then (None, snd s)
                 else SetKopiaCompressionPolicy (bRelay2 d) (UserName (Source (hd entries)) @ ''@'' @ btClusterName task) p (snd s))
      in case policyErr of
           Some e \<Rightarrow> (Some (Wrap ''while setting the tier2 compression policy'' e), (fst s, k1))
         | None \<Rightarrow>
             (case MigrateSnapshots (bRelay2 d) sources relay_tags (fst s) k1 of
                (Some e, k2) \<Rightarrow> (Some e, (fst s, k2))
              | (None, k2) \<Rightarrow> verifyTier2Backups d (btClusterName task) (fst s, k2)))"

definition b_refreshTier2 :: "'k Backup \<Rightarrow> 'k \<times> 'k \<Rightarrow> go_error option \<times> ('k \<times> 'k)" where
  "b_refreshTier2 d s = (let (e, k) = RefreshServer (bTier2Kopia d) (snd s) in (e, (fst s, k)))"

definition backup_steps_of :: "'k Backup \<Rightarrow> ('k \<times> 'k) backupSteps" where
  "backup_steps_of d = \<lparr>listManifests = b_listManifests d, verifyTier1 = b_verifyTier1 d,
     relayTier2 = b_relayTier2 d, refreshTier2 = b_refreshTier2 d\<rparr>"

section \<open>What the code relies on\<close>

text \<open>
  The relay: a migration that succeeds leaves on tier 2 a snapshot with the source and the given tags
  of every snapshot of the listed sources, and no command of the relay removes a snapshot.
\<close>

definition same_backup :: "Manifest \<Rightarrow> Manifest \<Rightarrow> bool" where
  "same_backup m m' \<longleftrightarrow> Source m' = Source m \<and> Tag m' BackupNameTagName = Tag m BackupNameTagName \<and>
     Tag m' BackupContentTagName = Tag m BackupContentTagName"

definition relay_laws :: "'k Backup \<Rightarrow> ('k \<Rightarrow> Manifest list) \<Rightarrow> bool" where
  "relay_laws d snaps \<longleftrightarrow>
     kopia_laws (bTier1Kopia d) snaps \<and> kopia_laws (bTier2Kopia d) snaps \<and>
     (\<forall>S. finite S \<longrightarrow> set (bSortedList d S) = S) \<and>
     (\<forall>ids k r k'. VerifySnapshots (bRelay1 d) ids k = (r, k') \<longrightarrow> snaps k' = snaps k) \<and>
     (\<forall>ids k r k'. VerifySnapshots (bRelay2 d) ids k = (r, k') \<longrightarrow> snaps k' = snaps k) \<and>
     (\<forall>sources k1 k k'. MigrateSnapshots (bRelay2 d) sources relay_tags k1 k = (None, k') \<longrightarrow>
        (\<forall>m \<in> set (snaps k1). SourceInfo_String (Source m) \<in> set sources \<longrightarrow> (\<exists>m' \<in> set (snaps k'). same_backup m m')))"

section \<open>Concrete instances\<close>

text \<open>A relay that mirrors tier 1, a message for each queue, and a WAL of one block on tier 1.\<close>

definition mem_relay :: "mem_kopia relay_kopia" where
  "mem_relay = \<lparr>VerifySnapshots = (\<lambda>ids k. ((0, None), k)), MigrateSnapshots = (\<lambda>sources tags k1 k. (None, k1)),
     SetKopiaCompressionPolicy = (\<lambda>target p k. (None, k))\<rparr>"

definition example_consumer :: "mem_kopia Backup" where
  "example_consumer = \<lparr>bTier1Kopia = mem_store, bTier2Kopia = mem_store, bRelay1 = mem_relay, bRelay2 = mem_relay,
     bTier2Enabled = True, bSortedList = sorted_list_of_set\<rparr>"

definition example_codec :: "'t \<Rightarrow> 't task_codec" where
  "example_codec t = \<lparr>taskMarshal = (\<lambda>_. Inr []), taskUnmarshal = (\<lambda>_. Inr t)\<rparr>"

definition example_message :: queue_message where
  "example_message = \<lparr>qmData = [], qmMetadata = Inr 1, qmHeaders = [], qmTermErr = None, qmAckErr = None\<rparr>"

definition example_wal_task :: WALTask where
  "example_wal_task = \<lparr>wtClusterName = ''pg'', wtWALName = ''00000001000000000000000A''\<rparr>"

definition example_backup_task :: BackupTask where
  "example_backup_task = \<lparr>btClusterName = ''pg'', SendToTier2 = True, Tier2CompressionPolicy = None\<rparr>"

definition example_tier1 :: memfs where
  "example_tier1 = [(''pg/0000000100000000/00000001000000000000000A'',
     MarshalHeader (connCodec mem_connection) 1 2 @ chunk_bytes (connCodec mem_connection) [[7, 8]])]"

section \<open>Interface: backupSteps\<close>

locale backup_steps =
  fixes steps :: "'s backupSteps" and tier1 tier2 :: "'s \<Rightarrow> Manifest list" and lawful :: bool
  assumes list_exact: "lawful \<Longrightarrow> listManifests steps c s = (l, s') \<Longrightarrow> tier1 s' = tier1 s \<and>
      (\<forall>es. l = Inr es \<longrightarrow> set es = {m \<in> set (tier1 s). Host (Source m) = c})"
    and verify_keeps: "lawful \<Longrightarrow> verifyTier1 steps c s = (r, s') \<Longrightarrow> tier1 s' = tier1 s"
    and relay_copies: "lawful \<Longrightarrow> relayTier2 steps task es s = (None, s') \<Longrightarrow> set es \<subseteq> set (tier1 s) \<Longrightarrow> m \<in> set es \<Longrightarrow>
      \<exists>m' \<in> set (tier2 s'). same_backup m m'"
    and refresh_keeps: "lawful \<Longrightarrow> refreshTier2 steps s = (r, s') \<Longrightarrow> tier2 s' = tier2 s"
begin

lemma processed_backups_relayed:
  assumes "lawful" and "SendToTier2 task" and "processBackup steps enabled task s = (None, s')"
    and "m \<in> set (tier1 s)" and "Host (Source m) = btClusterName task"
  shows "\<exists>m' \<in> set (tier2 s'). same_backup m m'"
proof -
  obtain l s1 where 1: "listManifests steps (btClusterName task) s = (l, s1)" by force
  note listed = list_exact [OF assms(1) 1]
  obtain es where l: "l = Inr es" using assms(3) 1 by (cases l) (auto simp: processBackup_def)
  have m: "m \<in> set es" using listed l assms(4,5) by auto
  obtain r2 s2 where 2: "verifyTier1 steps (btClusterName task) s1 = (r2, s2)" by force
  have r2: "r2 = None" using assms(3) 1 l 2 m by (cases r2) (auto simp: processBackup_def split: if_splits)
  obtain r3 s3 where 3: "relayTier2 steps task es s2 = (r3, s3)" by force
  obtain r4 s4 where 4: "refreshTier2 steps s3 = (r4, s4)" by force
  have "r3 = None" "s' = s4"
    using assms(2,3) 1 l 2 r2 3 4 m
    by (auto simp: processBackup_def relayToTier2IfRequested_def split: if_splits option.splits)
  with relay_copies [OF assms(1), of task es s2 s3 m] 3 m refresh_keeps [OF assms(1) 4] listed l verify_keeps [OF assms(1) 2]
  show ?thesis by auto
qed

end

section \<open>Lemmas: copying a WAL\<close>

lemma relay_loop_stream:
  "fs_laws (connFs c2) files \<Longrightarrow> relay_loop c1 c2 r w n s = (e, n', w', s') \<Longrightarrow> dw_stream files w s = Some st \<Longrightarrow> e \<noteq> Some relay_write_error \<Longrightarrow>
     \<exists>ds ds2 bs. (e = None \<longrightarrow> read_all c1 r = Inr ds) \<and> concat ds2 = concat ds \<and> wraps c2 ds2 bs \<and>
       n' = n + of_nat (length (concat ds)) \<and> dwFile w' = dwFile w \<and> dw_stream files w' s' = Some (st @ chunk_bytes (connCodec c2) bs)"
proof (induction c1 c2 r w n s arbitrary: st rule: relay_loop.induct)
  case (1 c1 c2 r w n s)
  show ?case
  proof (cases "ReadBlock c1 r")
    case (Inl re)
    have "w' = w \<and> s' = s \<and> n' = n \<and> (e = None \<longrightarrow> read_all c1 r = Inr [])"
      using "1.prems"(2) Inl by (auto simp: relay_loop.simps [of c1 c2 r] dw_WriteBlock_def read_all.simps [of c1 r] split: if_splits)
    with "1.prems"(3) show ?thesis
      by (intro exI [of _ "[]"]) (simp add: wraps_def)
  next
    case (Inr p)
    obtain d r' where p: "p = (d, r')" by force
    obtain e1 w1 s1 where 1: "dw_WriteBlock c2 w d s = (e1, w1, s1)" by (metis prod_cases3)
    have e1: "e1 = None"
      using "1.prems"(2,4) Inr p 1 by (cases e1) (auto simp: relay_loop.simps [of c1 c2 r])
    have run: "relay_loop c1 c2 r' w1 (n + of_nat (length d)) s1 = (e, n', w', s')"
      using "1.prems"(2) Inr p 1 e1 by (simp add: relay_loop.simps [of c1 c2 r])
    from dw_WriteBlock_stream [OF "1.prems"(1) 1 [unfolded e1] "1.prems"(3)] obtain xs ys where
      x: "concat xs = d" "wraps c2 xs ys" "dw_stream files w1 s1 = Some (st @ chunk_bytes (connCodec c2) ys)" by blast
    have f: "dwFile w1 = dwFile w" using dw_WriteBlock_frame [OF "1.prems"(1) 1] by simp
    from "1.IH" [OF Inr p [symmetric] 1 [symmetric, unfolded e1] refl refl "1.prems"(1) run x(3) "1.prems"(4)] obtain ds ds2 bs where
      y: "e = None \<longrightarrow> read_all c1 r' = Inr ds" "concat ds2 = concat ds" "wraps c2 ds2 bs"
        "n' = n + of_nat (length d) + of_nat (length (concat ds))" "dwFile w' = dwFile w1"
        "dw_stream files w' s' = Some (st @ chunk_bytes (connCodec c2) ys @ chunk_bytes (connCodec c2) bs)" by auto
    show ?thesis
      using x y f wraps_append [OF x(2) y(3)] Inr p
      by (intro exI [of _ "d # ds"] exI [of _ "xs @ ds2"] exI [of _ "ys @ bs"])
         (auto simp: chunk_bytes_append read_all.simps [of c1 r])
  qed
qed

text \<open>What is on tier 2 once the writer was closed, whether the copy went to the end or not.\<close>

lemma walHandler_copied:
  assumes laws: "fs_laws (connFs c2) files" and cd: "codec_laws (connCodec c2) (masterKey c2)"
    and run: "walHandler c1 c2 task s1 s2 = ((e, calls), s2')" and e: "e = None \<or> calls \<noteq> [] \<and> e = Some relay_read_error"
  shows "\<exists>r ds ds2. NewReader c1 (wtClusterName task) (wtWALName task) s1 = Inr r \<and> (e = None \<longrightarrow> read_all c1 r = Inr ds) \<and>
     calls = [(segmentLength r, of_nat (length (concat ds)))] \<and>
     (\<exists>r2. NewReader c2 (wtClusterName task) (wtWALName task) s2' = Inr r2 \<and> segmentLength r2 = segmentLength r \<and>
        read_all c2 r2 = Inr ds2 \<and> concat ds2 = concat ds)"
proof -
  let ?cl = "wtClusterName task" and ?w = "wtWALName task"
  obtain r where r: "NewReader c1 ?cl ?w s1 = Inr r"
    using run e by (cases "NewReader c1 ?cl ?w s1") (auto simp: walHandler_def relay_read_error_def)
  let ?opts = "\<lparr>optClusterName = ?cl, optWALName = ?w, optSegmentSize = GetFileLength r, optBufferSize = tier2BufferSize\<rparr>"
  obtain l s where nw: "NewDirectWriter c2 ?opts s2 = (l, s)" by force
  obtain w where l: "l = Inr w" using run r nw e by (cases l) (auto simp: walHandler_def relay_read_error_def)
  obtain e' n w' s' where loop: "relay_loop c1 c2 r w 0 s = (e', n, w', s')" by (metis prod_cases4)
  obtain ce w'' s'' where cl: "dw_Close c2 w' s' = (ce, w'', s'')" by (metis prod_cases3)
  have ce: "ce = None" "e' = e" "calls = [(segmentLength r, n)]" "s2' = s''"
    using run r nw l loop cl e by (auto simp: walHandler_def GetFileLength_def split: option.splits)
  let ?p = "getWALArchivePath ?cl ?w" and ?h = "MarshalHeader (connCodec c2) 1 (segmentLength r)"
  have open_w: "dwFile w = ?p" "dw_stream files w s = Some ?h"
    using newDirectWriterAtPath_stream(2) [OF laws] nw l by (auto simp: NewDirectWriter_def GetFileLength_def)
  have "e' \<noteq> Some relay_write_error" using e ce(2) by (auto simp: relay_read_error_def relay_write_error_def)
  from relay_loop_stream [OF laws loop open_w(2) this] obtain ds ds2 bs where
    x: "e' = None \<longrightarrow> read_all c1 r = Inr ds" "concat ds2 = concat ds" "wraps c2 ds2 bs" "n = of_nat (length (concat ds))"
      "dwFile w' = dwFile w" "dw_stream files w' s' = Some (?h @ chunk_bytes (connCodec c2) bs)" by auto
  have "files s2' ?p = Some (?h @ chunk_bytes (connCodec c2) bs)"
    using dw_Close_stream(3) [OF laws cl ce(1) x(6)] x(5) open_w(1) ce(4) by simp
  from NewReader_content [OF laws cd this] have
    "NewReader c2 ?cl ?w s2' = Inr \<lparr>rRemaining = chunk_bytes (connCodec c2) bs, segmentLength = segmentLength r\<rparr>" .
  moreover from read_all_chunks [OF cd x(3)] have
    "read_all c2 \<lparr>rRemaining = chunk_bytes (connCodec c2) bs, segmentLength = segmentLength r\<rparr> = Inr ds2" by simp
  ultimately show ?thesis using r x(1,2,4) ce by (intro exI [of _ r] exI [of _ ds] exI [of _ ds2]) simp
qed

section \<open>Lemmas: relaying backups\<close>

lemma relay_lawsD:
  assumes "relay_laws d snaps"
  shows "kopia_laws (bTier1Kopia d) snaps" "kopia_laws (bTier2Kopia d) snaps" "finite S \<Longrightarrow> set (bSortedList d S) = S"
    "VerifySnapshots (bRelay1 d) ids k = (r, k') \<Longrightarrow> snaps k' = snaps k"
    "VerifySnapshots (bRelay2 d) ids k = (r, k') \<Longrightarrow> snaps k' = snaps k"
    "MigrateSnapshots (bRelay2 d) sources relay_tags k1 k = (None, k') \<Longrightarrow> m \<in> set (snaps k1) \<Longrightarrow>
       SourceInfo_String (Source m) \<in> set sources \<Longrightarrow> \<exists>m' \<in> set (snaps k'). same_backup m m'"
  using assms unfolding relay_laws_def by blast+

lemma VerifyAll_pure:
  "relay_laws d snaps \<Longrightarrow> VerifyBackups st (bRelay1 d) \<lparr>voHostname = h, voBackupNames = ns, voAll = True\<rparr> k = (r, k') \<Longrightarrow> snaps k' = snaps k"
  "relay_laws d snaps \<Longrightarrow> VerifyBackups st (bRelay2 d) \<lparr>voHostname = h, voBackupNames = ns, voAll = True\<rparr> k = (r, k') \<Longrightarrow> snaps k' = snaps k"
  by (auto simp: VerifyBackups_def verifyAllBackups_def verify_ids_def dest: relay_lawsD(4,5) split: prod.splits option.splits)

lemma b_relayTier2_copies:
  assumes laws: "relay_laws d snaps" and run: "b_relayTier2 d task es s = (None, s')" and sub: "set es \<subseteq> set (snaps (fst s))"
    and m: "m \<in> set es"
  shows "\<exists>m' \<in> set (snaps (snd s')). same_backup m m'"
proof -
  let ?sources = "manifestListToDescriptors (bSortedList d) es"
  from run obtain k1 k2 where mig: "MigrateSnapshots (bRelay2 d) ?sources relay_tags (fst s) k1 = (None, k2)"
    and ver: "verifyTier2Backups d (btClusterName task) (fst s, k2) = (None, s')"
    by (auto simp: b_relayTier2_def Let_def split: prod.splits option.splits)
  have "SourceInfo_String (Source m) \<in> set ?sources"
    using relay_lawsD(3) [OF laws, of "(\<lambda>e. SourceInfo_String (Source e)) ` set es"] m by (simp add: manifestListToDescriptors_def)
  with relay_lawsD(6) [OF laws mig] sub m have "\<exists>m' \<in> set (snaps k2). same_backup m m'" by auto
  moreover have "snaps (snd s') = snaps k2"
    using ver by (auto simp: verifyTier2Backups_def dest: VerifyAll_pure(2) [OF laws] split: prod.splits option.splits verify_error.splits)
  ultimately show ?thesis by simp
qed

interpretation relay: backup_steps "backup_steps_of d" "\<lambda>s. snaps (fst s)" "\<lambda>s. snaps (snd s)" "relay_laws d snaps"
  for d :: "'k Backup" and snaps
proof (unfold_locales, goal_cases)
  case (1 c s l s')
  obtain l' k where 2: "ListSnapshots (bTier1Kopia d) [] (fst s) = (l', k)" by force
  have "snaps k = snaps (fst s)" by (rule kopia_lawsD(1) [OF relay_lawsD(1) [OF 1(1)] 2])
  moreover have "l' = Inr es \<Longrightarrow> es = snaps (fst s)" for es
    using kopia_lawsD(2) [OF relay_lawsD(1) [OF 1(1)], of "[]" "fst s" es k] 2 by (simp add: has_tags_def tag_names_def)
  ultimately show ?case using 1(2) 2 by (cases l') (auto simp: backup_steps_of_def b_listManifests_def)
next
  case (2 c s r s')
  then show ?case
    by (auto simp: backup_steps_of_def b_verifyTier1_def dest: VerifyAll_pure(1)
        split: prod.splits option.splits verify_error.splits)
next
  case (3 task es s s' m)
  then show ?case by (auto simp: backup_steps_of_def intro: b_relayTier2_copies)
next
  case (4 s r s')
  then show ?case
    by (auto simp: backup_steps_of_def b_refreshTier2_def dest: kopia_lawsD(5) [OF relay_lawsD(2)] split: prod.splits)
qed

section \<open>Lemmas: the concrete instances\<close>

lemma example_walHandler:
  "\<exists>s. walHandler mem_connection mem_connection example_wal_task example_tier1 [] = ((None, [(2, 2)]), s)"
proof -
  let ?p = "''pg/0000000100000000/00000001000000000000000A''" and ?r = "\<lambda>rest. \<lparr>rRemaining = rest, segmentLength = 2\<rparr>"
  have path: "getWALArchivePath ''pg'' ''00000001000000000000000A'' = ?p" by code_simp
  have "mem_files example_tier1 (getWALArchivePath ''pg'' ''00000001000000000000000A'') =
      Some (MarshalHeader (connCodec mem_connection) 1 2 @ chunk_bytes (connCodec mem_connection) [[7, 8]])"
    by (simp add: path example_tier1_def mem_files_def)
  from NewReader_content [OF mem_connection_laws this]
  have rd: "NewReader mem_connection ''pg'' ''00000001000000000000000A'' example_tier1 =
      Inr (?r (chunk_bytes (connCodec mem_connection) [[7, 8]]))" .
  have wr: "wraps mem_connection [[7, 8]] [[7, 8]]" by (simp add: wraps_def WrapBlock_def protectWriter_def)
  have b: "ReadBlock mem_connection (?r (chunk_bytes (connCodec mem_connection) [[7, 8]])) = Inr ([7, 8], ?r [])"
    using ReadBlock_chunk [OF mem_connection_laws(2) wr, of "?r (chunk_bytes (connCodec mem_connection) [[7, 8]])" "[]"] by simp
  have eof: "ReadBlock mem_connection (?r []) = Inl (Wrap ''while reading WAL file block prefix'' EOF)" by (simp add: ReadBlock_end)
  let ?w = "\<lambda>buf. \<lparr>dwFile = ?p, dwClusterName = ''pg'', dwBuffered = buf, dwBufferSize = tier2BufferSize, dwErr = None\<rparr>"
  have nw: "NewDirectWriter mem_connection \<lparr>optClusterName = ''pg'', optWALName = ''00000001000000000000000A'',
      optSegmentSize = 2, optBufferSize = tier2BufferSize\<rparr> [] = (Inr (?w (le64 2)), [(?p, [])])"
    by (simp add: NewDirectWriter_def newDirectWriterAtPath_def newDirectWriter_def path Let_def mem_buffered_write tier2BufferSize_def)
  have "dw_WriteBlock mem_connection (?w (le64 2)) [7, 8] s = (None, ?w (le64 2 @ le64 2 @ [7, 8]), s)" for s
    by (simp add: mem_buffered_block tier2BufferSize_def)
  then have "relay_loop mem_connection mem_connection (?r (chunk_bytes (connCodec mem_connection) [[7, 8]])) (?w (le64 2)) 0 s =
      (None, 2, ?w (le64 2 @ le64 2 @ [7, 8]), s)" for s
    using b eof
    by (simp add: relay_loop.simps [of _ _ "?r (chunk_bytes (connCodec mem_connection) [[7, 8]])"] relay_loop.simps [of _ _ "?r []"] dw_WriteBlock_def
        del: chunk_bytes.simps)
  then show ?thesis
    using rd nw by (simp add: walHandler_def example_wal_task_def GetFileLength_def dw_Close_def bufio_Flush_def del: chunk_bytes.simps)
qed

lemma example_relay_laws: "relay_laws example_consumer mem_snaps"
  by (auto simp: relay_laws_def example_consumer_def mem_store_laws mem_relay_def same_backup_def)

section \<open>Properties\<close>

text \<open>
  C17: an acknowledged WAL task is on tier 2.  When the message of a WAL task was acknowledged, the WAL
  of tier 1 was read to its end without an error, and a reader of tier 2 opens the WAL under the same
  name with the same segment size and reads the same bytes.
\<close>

theorem acked_wal_is_on_tier2:
  assumes "fs_laws (connFs tier2) files" and "codec_laws (connCodec tier2) (masterKey tier2)"
    and "taskUnmarshal tc (qmData msg) = Inr task"
    and "ConsumeWALReceivedMessages isWALFile js tc srt (wal_consumer tier1 tier2 s1) msg (s2, m) = (Acked, (s2', m'))"
  shows "\<exists>r1 ds1 r2 ds2. NewReader tier1 (wtClusterName task) (wtWALName task) s1 = Inr r1 \<and> read_all tier1 r1 = Inr ds1 \<and>
           NewReader tier2 (wtClusterName task) (wtWALName task) s2' = Inr r2 \<and> read_all tier2 r2 = Inr ds2 \<and>
           segmentLength r2 = segmentLength r1 \<and> concat ds2 = concat ds1"
proof -
  obtain e calls s where h: "walHandler tier1 tier2 task s1 s2 = ((e, calls), s)" by (metis surj_pair)
  have "e = None" "s2' = s"
    using assms(3,4) h by (auto simp: ConsumeWALReceivedMessages_def internalConsumer_def wal_wrapped_def wal_consumer_def Let_def
        split: sum.splits option.splits if_splits)
  with walHandler_copied [OF assms(1,2) h] show ?thesis by blast
qed

theorem acked_wal_is_on_tier2_witness:
  "\<exists>s2 m r ds. ConsumeWALReceivedMessages hex24 mem_js (example_codec example_wal_task) by_time
       (wal_consumer mem_connection mem_connection example_tier1) example_message ([], example_queue) = (Acked, (s2, m)) \<and>
     NewReader mem_connection ''pg'' ''00000001000000000000000A'' s2 = Inr r \<and> read_all mem_connection r = Inr ds"
proof -
  obtain s where "walHandler mem_connection mem_connection example_wal_task example_tier1 [] = ((None, [(2, 2)]), s)"
    using example_walHandler by blast
  then obtain m where run: "ConsumeWALReceivedMessages hex24 mem_js (example_codec example_wal_task) by_time
       (wal_consumer mem_connection mem_connection example_tier1) example_message ([], example_queue) = (Acked, (s, m))"
    by (cases "IsWALSegmentOrPartial hex24 (wtWALName example_wal_task)")
       (simp_all add: ConsumeWALReceivedMessages_def internalConsumer_def wal_wrapped_def wal_consumer_def example_codec_def example_message_def Let_def)
  have "taskUnmarshal (example_codec example_wal_task) (qmData example_message) = Inr example_wal_task"
    by (simp add: example_codec_def)
  from acked_wal_is_on_tier2 [OF mem_connection_laws this run] run show ?thesis
    by (auto simp: example_wal_task_def)
qed



end
