(* ===== verification/Put_Streams.thy ===== *)
theory Put_Streams
  imports Wal_Calls
begin

text \<open>
  The goroutines around a Put call (core/internal/server/walserver): the receiver that queues the
  blocks of the client and hands them out in batches (block_receiver.go), and the sender that reports
  progress (feedback_sender.go).  Both are step relations in which every interleaving of the goroutine
  with the handler is a sequence of steps; the two atomic variables of the sender are written and read
  one at a time.

  The handler itself is \<open>put_run\<close> of theory \<open>Wal_Put\<close>, whose argument are the batches that Drain returned.
\<close>

section \<open>core/internal/server/walserver/block_receiver.go\<close>

definition blockReceiverBufferSize :: nat where "blockReceiverBufferSize = 500"

definition Canceled :: go_error where "Canceled = Sentinel ''context canceled''"

text \<open>
  The requests the client has still to send, the one that Recv returned and that is not queued yet,
  the channel, the error and the cancellation of the receiver; and on the side of the handler the batch
  that Drain is collecting, the batches it returned and the error it ended with.
\<close>

record blockReceiver =
  brInbox :: "PutRequest list"
  brHeld :: "PutRequest option"
  brChan :: "PutRequest list"
  brErr :: "go_error option"
  brCancelled :: bool
  brBatch :: "PutRequest list option"
  brDelivered :: "PutRequest list list"
  brResult :: "go_error option"

definition br_start :: "PutRequest list \<Rightarrow> blockReceiver" where
  "br_start requests = \<lparr>brInbox = requests, brHeld = None, brChan = [], brErr = None, brCancelled = False,
     brBatch = None, brDelivered = [], brResult = None\<rparr>"

text \<open>
  \<open>fin\<close> is the error with which the stream of the client ends, io.EOF or another one.  The first
  five rules are the goroutine run, the next five Drain, and the last two Cancel after a batch that
  failed and the end of the context of the call.  The channel is closed exactly when the error is set.
\<close>

inductive br_step :: "go_error \<Rightarrow> blockReceiver \<Rightarrow> blockReceiver \<Rightarrow> bool" for fin where
  recv: "brErr s = None \<Longrightarrow> brHeld s = None \<Longrightarrow> brInbox s = x # xs \<Longrightarrow>
    br_step fin s (s\<lparr>brInbox := xs, brHeld := Some x\<rparr>)"
| recv_end: "brErr s = None \<Longrightarrow> brHeld s = None \<Longrightarrow> brInbox s = [] \<Longrightarrow> br_step fin s (s\<lparr>brErr := Some fin\<rparr>)"
| recv_cancelled: "brErr s = None \<Longrightarrow> brHeld s = None \<Longrightarrow> brCancelled s \<Longrightarrow> br_step fin s (s\<lparr>brErr := Some Canceled\<rparr>)"
| publish: "brErr s = None \<Longrightarrow> brHeld s = Some x \<Longrightarrow> length (brChan s) < blockReceiverBufferSize \<Longrightarrow>
    br_step fin s (s\<lparr>brHeld := None, brChan := brChan s @ [x]\<rparr>)"
| abandon: "brErr s = None \<Longrightarrow> brHeld s = Some x \<Longrightarrow> brCancelled s \<Longrightarrow>
    br_step fin s (s\<lparr>brHeld := None, brErr := Some Canceled\<rparr>)"
| drain_first: "brResult s = None \<Longrightarrow> brBatch s = None \<Longrightarrow> brChan s = x # xs \<Longrightarrow>
    br_step fin s (s\<lparr>brChan := xs, brBatch := Some [x]\<rparr>)"
| drain_more: "brResult s = None \<Longrightarrow> brBatch s = Some b \<Longrightarrow> brChan s = x # xs \<Longrightarrow>
    br_step fin s (s\<lparr>brChan := xs, brBatch := Some (b @ [x])\<rparr>)"
| drain_return: "brResult s = None \<Longrightarrow> brBatch s = Some b \<Longrightarrow> brChan s = [] \<Longrightarrow>
    br_step fin s (s\<lparr>brBatch := None, brDelivered := brDelivered s @ [b]\<rparr>)"
| drain_closed: "brResult s = None \<Longrightarrow> brBatch s = None \<Longrightarrow> brChan s = [] \<Longrightarrow> brErr s = Some e \<Longrightarrow>
    br_step fin s (s\<lparr>brResult := Some e\<rparr>)"
| drain_context: "brResult s = None \<Longrightarrow> brBatch s = None \<Longrightarrow> brCancelled s \<Longrightarrow> br_step fin s (s\<lparr>brResult := Some Canceled\<rparr>)"
| batch_failed: "brResult s = None \<Longrightarrow> brBatch s = None \<Longrightarrow> brDelivered s \<noteq> [] \<Longrightarrow>
    br_step fin s (s\<lparr>brResult := Some e, brCancelled := True\<rparr>)"
| context_done: "\<not> brCancelled s \<Longrightarrow> br_step fin s (s\<lparr>brCancelled := True\<rparr>)"

inductive_cases br_stepE: "br_step fin s s'"

section \<open>core/internal/server/walserver/feedback_sender.go\<close>

text \<open>
  Where a call of SetFeedback is: outside, between the two stores (with the second value), or before
  the non-blocking send on the channel; and where the goroutine is: waiting, about to load the first
  value, about to load the second one and send, or gone.  The flag tells the last send, after Stop.
\<close>

datatype setter = Outside | StoredWrite uint64 | BeforeWake
datatype sender = Waiting | LoadWrite bool | LoadFlush bool uint64 | Gone

record feedbackSender =
  writeLSN :: uint64
  flushLSN :: uint64
  fbWake :: bool
  fbStop :: bool
  fbSetter :: setter
  fbSender :: sender
  fbTodo :: "(uint64 \<times> uint64) list"
  fbMade :: "(uint64 \<times> uint64) list"
  fbSent :: "(uint64 \<times> uint64) list"

definition fb_start :: "(uint64 \<times> uint64) list \<Rightarrow> feedbackSender" where
  "fb_start calls = \<lparr>writeLSN = 0, flushLSN = 0, fbWake = False, fbStop = False, fbSetter = Outside, fbSender = Waiting,
     fbTodo = calls, fbMade = [], fbSent = []\<rparr>"

inductive fb_step :: "feedbackSender \<Rightarrow> feedbackSender \<Rightarrow> bool" where
  set_nothing: "fbSetter s = Outside \<Longrightarrow> \<not> fbStop s \<Longrightarrow> fbTodo s = (w, f) # calls \<Longrightarrow> w = 0 \<or> f = 0 \<Longrightarrow>
    fb_step s (s\<lparr>fbTodo := calls, fbMade := fbMade s @ [(w, f)]\<rparr>)"
| store_write: "fbSetter s = Outside \<Longrightarrow> \<not> fbStop s \<Longrightarrow> fbTodo s = (w, f) # calls \<Longrightarrow> w \<noteq> 0 \<Longrightarrow> f \<noteq> 0 \<Longrightarrow>
    fb_step s (s\<lparr>fbTodo := calls, fbMade := fbMade s @ [(w, f)], writeLSN := w, fbSetter := StoredWrite f\<rparr>)"
| store_flush: "fbSetter s = StoredWrite f \<Longrightarrow> fb_step s (s\<lparr>flushLSN := f, fbSetter := BeforeWake\<rparr>)"
| wake: "fbSetter s = BeforeWake \<Longrightarrow> fb_step s (s\<lparr>fbWake := True, fbSetter := Outside\<rparr>)"
| stop: "fbSetter s = Outside \<Longrightarrow> \<not> fbStop s \<Longrightarrow> fb_step s (s\<lparr>fbStop := True\<rparr>)"
| woken: "fbSender s = Waiting \<Longrightarrow> fbWake s \<Longrightarrow> fb_step s (s\<lparr>fbWake := False, fbSender := LoadWrite False\<rparr>)"
| stopped: "fbSender s = Waiting \<Longrightarrow> fbStop s \<Longrightarrow> fb_step s (s\<lparr>fbSender := LoadWrite True\<rparr>)"
| load_write: "fbSender s = LoadWrite b \<Longrightarrow> fb_step s (s\<lparr>fbSender := LoadFlush b (writeLSN s)\<rparr>)"
| send: "fbSender s = LoadFlush b w \<Longrightarrow>
    fb_step s (s\<lparr>fbSent := fbSent s @ [(w, flushLSN s)], fbSender := (if b then Gone else Waiting)\<rparr>)"

inductive_cases fb_stepE: "fb_step s s'"

section \<open>Lemmas: the receiver\<close>

definition br_inv :: "go_error \<Rightarrow> PutRequest list \<Rightarrow> blockReceiver \<Rightarrow> bool" where
  "br_inv fin requests s \<longleftrightarrow>
     (\<exists>lost. requests = concat (brDelivered s) @ (case brBatch s of None \<Rightarrow> [] | Some b \<Rightarrow> b) @ brChan s @
          (case brHeld s of None \<Rightarrow> [] | Some x \<Rightarrow> [x]) @ lost @ brInbox s \<and> (lost \<noteq> [] \<longrightarrow> brCancelled s \<and> brErr s \<noteq> None)) \<and>
     [] \<notin> set (brDelivered s) \<and> brBatch s \<noteq> Some [] \<and> length (brChan s) \<le> blockReceiverBufferSize \<and>
     (brErr s \<noteq> None \<longrightarrow> brHeld s = None) \<and>
     (\<not> brCancelled s \<longrightarrow> brErr s \<in> {None, Some fin} \<and> (brErr s = Some fin \<longrightarrow> brInbox s = [])) \<and>
     (brResult s \<noteq> None \<longrightarrow> brBatch s = None \<and> (\<not> brCancelled s \<longrightarrow> brChan s = [] \<and> brErr s = Some fin \<and> brResult s = Some fin))"

lemma br_inv_start: "br_inv fin requests (br_start requests)"
  by (simp add: br_inv_def br_start_def)

lemma br_inv_step: "br_step fin s s' \<Longrightarrow> br_inv fin requests s \<Longrightarrow> br_inv fin requests s'"
proof (induction rule: br_step.induct)
  case (abandon s x)
  then obtain lost where "requests = concat (brDelivered s) @ (case brBatch s of None \<Rightarrow> [] | Some b \<Rightarrow> b) @ brChan s @
      [x] @ lost @ brInbox s" by (auto simp: br_inv_def)
  with abandon show ?case by (auto simp: br_inv_def intro!: exI [of _ "x # lost"])
qed (auto simp: br_inv_def)

lemma br_inv_run: "(br_step fin)\<^sup>*\<^sup>* (br_start requests) s \<Longrightarrow> br_inv fin requests s"
  by (induction rule: rtranclp_induct) (auto intro: br_inv_start br_inv_step)

definition br_size :: "blockReceiver \<Rightarrow> nat" where
  "br_size s = 4 * length (brInbox s) + (if brHeld s = None then 0 else 3) + 2 * length (brChan s) +
     (if brBatch s = None then 0 else 1) + (if brErr s = None then 1 else 0) + (if brCancelled s then 0 else 1) +
     (if brResult s = None then 1 else 0)"

lemma br_size_step: "br_step fin s s' \<Longrightarrow> br_size s' < br_size s"
  by (induction rule: br_step.induct) (auto simp: br_size_def)

lemma br_size_run: "(br_step fin ^^ n) s s' \<Longrightarrow> br_size s' + n \<le> br_size s"
proof (induction n arbitrary: s')
  case (Suc n)
  then obtain t where t: "(br_step fin ^^ n) s t" "br_step fin t s'" by auto
  from Suc.IH [OF t(1)] br_size_step [OF t(2)] show ?case by simp
qed simp

text \<open>The handler is never stuck waiting: as long as Drain has no result, some step is possible.\<close>

lemma br_progress:
  assumes "brResult s = None"
  shows "\<exists>s'. br_step fin s s'"
proof (cases "brChan s")
  case (Cons x xs)
  with assms show ?thesis by (cases "brBatch s") (auto intro: br_step.intros)
next
  case Nil
  then have room: "length (brChan s) < blockReceiverBufferSize" by (simp add: blockReceiverBufferSize_def)
  show ?thesis
  proof (cases "brBatch s")
    case (Some b)
    with assms Nil show ?thesis by (auto intro: br_step.intros)
  next
    case None
    show ?thesis
    proof (cases "brErr s")
      case (Some e)
      with assms Nil None show ?thesis by (auto intro: br_step.intros)
    next
      case err: None
      then show ?thesis
      proof (cases "brHeld s")
        case (Some x)
        with err room show ?thesis by (auto intro: br_step.intros)
      next
        case held: None
        with err show ?thesis by (cases "brInbox s") (auto intro: br_step.intros)
      qed
    qed
  qed
qed

section \<open>Lemmas: the sender\<close>

text \<open>What has been reported never exceeds what is stored, which never exceeds what is still to come.\<close>

definition fb_inv :: "feedbackSender \<Rightarrow> bool" where
  "fb_inv s \<longleftrightarrow>
     sorted (map fst (fbSent s)) \<and> sorted (map snd (fbSent s)) \<and>
     (\<forall>(w, f) \<in> set (fbSent s). w \<le> writeLSN s \<and> f \<le> flushLSN s \<and> w \<in> insert 0 (fst ` set (fbMade s)) \<and> f \<in> insert 0 (snd ` set (fbMade s))) \<and>
     sorted (writeLSN s # map fst (filter (\<lambda>(w, f). w \<noteq> 0 \<and> f \<noteq> 0) (fbTodo s))) \<and>
     sorted (flushLSN s # (case fbSetter s of StoredWrite f \<Rightarrow> [f] | _ \<Rightarrow> []) @
        map snd (filter (\<lambda>(w, f). w \<noteq> 0 \<and> f \<noteq> 0) (fbTodo s))) \<and>
     writeLSN s \<in> insert 0 (fst ` set (fbMade s)) \<and> flushLSN s \<in> insert 0 (snd ` set (fbMade s)) \<and>
     (\<forall>f. fbSetter s = StoredWrite f \<longrightarrow> f \<in> snd ` set (fbMade s)) \<and>
     (fbStop s \<longrightarrow> fbSetter s = Outside) \<and>
     (\<forall>b w. fbSender s = LoadFlush b w \<longrightarrow> w \<le> writeLSN s \<and> w \<in> insert 0 (fst ` set (fbMade s)) \<and> (\<forall>x \<in> set (fbSent s). fst x \<le> w)) \<and>
     (\<forall>w. fbSender s = LoadFlush True w \<longrightarrow> fbStop s \<and> w = writeLSN s) \<and> (fbSender s = LoadWrite True \<longrightarrow> fbStop s) \<and>
     (fbSender s = Gone \<longrightarrow> fbStop s \<and> fbSent s \<noteq> [] \<and> last (fbSent s) = (writeLSN s, flushLSN s))"

lemma fb_inv_start:
  assumes "sorted (map fst (filter (\<lambda>(w, f). w \<noteq> 0 \<and> f \<noteq> 0) calls))" and "sorted (map snd (filter (\<lambda>(w, f). w \<noteq> 0 \<and> f \<noteq> 0) calls))"
  shows "fb_inv (fb_start calls)"
  using assms by (simp add: fb_inv_def fb_start_def)

lemma fb_inv_step: "fb_step s s' \<Longrightarrow> fb_inv s \<Longrightarrow> fb_inv s'"
proof (induction rule: fb_step.induct)
  case (set_nothing s w f calls)
  then have "\<not> (w \<noteq> 0 \<and> f \<noteq> 0)" by blast
  with set_nothing(1-3,5) show ?case by (auto simp: fb_inv_def)
next
  case (store_write s w f calls)
  then have le: "writeLSN s \<le> w" and nostop: "\<not> fbStop s" by (simp_all add: fb_inv_def)
  have trans: "x \<le> w" if "x \<le> writeLSN s" for x using that le by (rule order_trans)
  from store_write nostop show ?case
    by (auto simp: fb_inv_def intro: trans)
next
  case (store_flush s f)
  then have le: "flushLSN s \<le> f" by (simp add: fb_inv_def)
  have trans: "x \<le> f" if "x \<le> flushLSN s" for x using that le by (rule order_trans)
  from store_flush show ?case by (auto simp: fb_inv_def intro: trans)
next
  case (wake s)
  then show ?case by (auto simp: fb_inv_def)
next
  case (stop s)
  then show ?case by (auto simp: fb_inv_def)
next
  case (woken s)
  then show ?case by (auto simp: fb_inv_def)
next
  case (stopped s)
  then show ?case by (auto simp: fb_inv_def)
next
  case (load_write s b)
  then show ?case by (fastforce simp: fb_inv_def)
next
  case (send s b w)
  then show ?case by (fastforce simp: fb_inv_def sorted_append)
qed

lemma fb_inv_run:
  assumes "fb_step\<^sup>*\<^sup>* (fb_start calls) s"
    and "sorted (map fst (filter (\<lambda>(w, f). w \<noteq> 0 \<and> f \<noteq> 0) calls))" and "sorted (map snd (filter (\<lambda>(w, f). w \<noteq> 0 \<and> f \<noteq> 0) calls))"
  shows "fb_inv s"
  using assms(1) by (induction rule: rtranclp_induct) (auto intro: fb_inv_start [OF assms(2,3)] fb_inv_step)

section \<open>Lemmas: runs of the receiver\<close>

text \<open>The states between two batches, and the runs that hand out given batches.\<close>

abbreviation br_between :: "PutRequest list \<Rightarrow> PutRequest list \<Rightarrow> PutRequest list option \<Rightarrow> PutRequest list list \<Rightarrow> blockReceiver" where
  "br_between inbox chan batch delivered \<equiv> \<lparr>brInbox = inbox, brHeld = None, brChan = chan, brErr = None, brCancelled = False,
     brBatch = batch, brDelivered = delivered, brResult = None\<rparr>"

lemma br_queue:
  "length chan + length xs \<le> blockReceiverBufferSize \<Longrightarrow>
   (br_step fin)\<^sup>*\<^sup>* (br_between (xs @ ys) chan b d) (br_between ys (chan @ xs) b d)"
proof (induction xs arbitrary: chan)
  case (Cons x xs)
  let ?held = "\<lparr>brInbox = xs @ ys, brHeld = Some x, brChan = chan, brErr = None, brCancelled = False,
     brBatch = b, brDelivered = d, brResult = None\<rparr>"
  have "br_step fin (br_between ((x # xs) @ ys) chan b d) ?held"
    using br_step.recv [of "br_between ((x # xs) @ ys) chan b d" x "xs @ ys" fin] by simp
  moreover have "br_step fin ?held (br_between (xs @ ys) (chan @ [x]) b d)"
    using br_step.publish [of ?held x fin] Cons.prems by simp
  moreover have "(br_step fin)\<^sup>*\<^sup>* (br_between (xs @ ys) (chan @ [x]) b d) (br_between ys ((chan @ [x]) @ xs) b d)"
    by (rule Cons.IH) (use Cons.prems in simp)
  ultimately show ?case by (simp add: converse_rtranclp_into_rtranclp)
qed simp

lemma br_collect: "(br_step fin)\<^sup>*\<^sup>* (br_between ys xs (Some b) d) (br_between ys [] (Some (b @ xs)) d)"
proof (induction xs arbitrary: b)
  case (Cons x xs)
  have "br_step fin (br_between ys (x # xs) (Some b) d) (br_between ys xs (Some (b @ [x])) d)"
    using br_step.drain_more [of "br_between ys (x # xs) (Some b) d" b x xs fin] by simp
  with Cons.IH [of "b @ [x]"] show ?case by (simp add: converse_rtranclp_into_rtranclp)
qed simp

lemma br_batch:
  assumes "b \<noteq> []" and "length b \<le> blockReceiverBufferSize"
  shows "(br_step fin)\<^sup>*\<^sup>* (br_between (b @ ys) [] None d) (br_between ys [] None (d @ [b]))"
proof -
  from assms(1) obtain x xs where b: "b = x # xs" by (cases b) auto
  have "(br_step fin)\<^sup>*\<^sup>* (br_between (b @ ys) [] None d) (br_between ys b None d)"
    using br_queue [of "[]" b] assms(2) by simp
  also have "br_step fin (br_between ys b None d) (br_between ys xs (Some [x]) d)"
    using br_step.drain_first [of "br_between ys b None d" x xs fin] b by simp
  also have "(br_step fin)\<^sup>*\<^sup>* (br_between ys xs (Some [x]) d) (br_between ys [] (Some b) d)"
    using br_collect [of fin ys xs "[x]" d] b by simp
  also have "br_step fin (br_between ys [] (Some b) d) (br_between ys [] None (d @ [b]))"
    using br_step.drain_return [of "br_between ys [] (Some b) d" b fin] by simp
  finally show ?thesis .
qed

lemma br_batches:
  "(\<forall>b \<in> set batches. b \<noteq> [] \<and> length b \<le> blockReceiverBufferSize) \<Longrightarrow>
   (br_step fin)\<^sup>*\<^sup>* (br_between (concat batches) [] None d) (br_between [] [] None (d @ batches))"
proof (induction batches arbitrary: d)
  case (Cons b batches)
  have "(br_step fin)\<^sup>*\<^sup>* (br_between (b @ concat batches) [] None d) (br_between (concat batches) [] None (d @ [b]))"
    by (rule br_batch) (use Cons.prems in auto)
  with Cons.IH [of "d @ [b]"] Cons.prems show ?case by (auto intro: rtranclp_trans)
qed simp

lemma br_delivers:
  assumes "\<forall>b \<in> set batches. b \<noteq> [] \<and> length b \<le> blockReceiverBufferSize"
  shows "\<exists>s. (br_step fin)\<^sup>*\<^sup>* (br_start (concat batches)) s \<and> brDelivered s = batches \<and> brResult s = Some fin \<and> \<not> brCancelled s"
proof -
  let ?s = "br_between [] [] None batches"
  let ?done = "?s\<lparr>brErr := Some fin\<rparr>"
  have "(br_step fin)\<^sup>*\<^sup>* (br_start (concat batches)) ?s"
    using br_batches [OF assms, of fin "[]"] by (simp add: br_start_def)
  also have "br_step fin ?s ?done" by (rule br_step.recv_end) simp_all
  also have "br_step fin ?done (?done\<lparr>brResult := Some fin\<rparr>)" by (rule br_step.drain_closed) simp_all
  finally show ?thesis by (intro exI [of _ "?done\<lparr>brResult := Some fin\<rparr>"]) simp
qed

lemma br_complete:
  assumes "(br_step fin)\<^sup>*\<^sup>* (br_start requests) s" and "brResult s \<noteq> None" and "\<not> brCancelled s"
  shows "concat (brDelivered s) = requests" and "[] \<notin> set (brDelivered s)" and "brResult s = Some fin"
  using br_inv_run [OF assms(1)] assms(2,3) by (auto simp: br_inv_def)

section \<open>Properties\<close>



text \<open>
  C25: a Put over a stream refines receiving one whole segment.  However the receiving goroutine and the
  handler interleave, when the stream of requests ended and the handler succeeded on the batches it was
  given, a Get of the same WAL returns the bytes of the requests in the order the client sent them; and
  for every way to cut the requests into batches that fit the channel there is an interleaving that
  hands out those batches.
\<close>

theorem streamed_put_refines_segment_upload:
  assumes "fs_laws (connFs (implConn impl)) files" and "codec_laws (connCodec (implConn impl)) (masterKey (implConn impl))"
    and "(br_step fin)\<^sup>*\<^sup>* (br_start requests) s" and "brResult s \<noteq> None" and "\<not> brCancelled s"
    and "Put impl ctx (brDelivered s) sendErr fs q = (None, h)" and "req \<in> set requests"
    and "of_nat (length (concat (map reqWalBlock requests))) = reqSegmentSize req"
    and "plain_elem (reqClusterName req)" and "\<not> HasSuffix (reqWalName req) PartialSuffix"
  shows "(\<exists>ds. getWAL impl ctx (\<lambda>_. None) \<lparr>getClusterName = reqClusterName req, getWalName = reqWalName req\<rparr> (phFs h) =
            (None, map (\<lambda>d. (d, reqSegmentSize req)) ds @ [([], reqSegmentSize req)]) \<and>
            concat ds = concat (map reqWalBlock requests)) \<and>
         (\<forall>batches. concat batches = requests \<and> (\<forall>b \<in> set batches. b \<noteq> [] \<and> length b \<le> blockReceiverBufferSize) \<longrightarrow>
            (\<exists>t. (br_step fin)\<^sup>*\<^sup>* (br_start requests) t \<and> brDelivered t = batches \<and> brResult t = Some fin))"
proof -
  have all: "concat (brDelivered s) = requests" by (rule br_complete(1) [OF assms(3-5)])
  have get: "\<exists>ds. getWAL impl ctx (\<lambda>_. None) \<lparr>getClusterName = reqClusterName req, getWalName = reqWalName req\<rparr> (phFs h) =
            (None, map (\<lambda>d. (d, reqSegmentSize req)) ds @ [([], reqSegmentSize req)]) \<and>
            concat ds = concat (map reqWalBlock requests)"
    using put_then_get [OF assms(1,2,6), of req, unfolded all] assms(7-10) by blast
  have "\<exists>t. (br_step fin)\<^sup>*\<^sup>* (br_start requests) t \<and> brDelivered t = batches \<and> brResult t = Some fin"
    if "concat batches = requests" "\<forall>b \<in> set batches. b \<noteq> [] \<and> length b \<le> blockReceiverBufferSize" for batches
    using br_delivers [OF that(2), of fin] that(1) by blast
  with get show ?thesis by blast
qed

theorem streamed_put_refines_segment_upload_witness:
  "\<exists>s h ds. (br_step EOF)\<^sup>*\<^sup>* (br_start [example_request [1], example_request [2], example_request [3]]) s \<and>
     Put example_impl example_ctx (brDelivered s) None [] example_queue = (None, h) \<and>
     getWAL example_impl example_ctx (\<lambda>_. None) \<lparr>getClusterName = ''pg'', getWalName = ''00000001000000000000000A''\<rparr> (phFs h) =
       (None, map (\<lambda>d. (d, 3)) ds @ [([], 3)]) \<and> concat ds = [1, 2, 3]"
proof -
  let ?batches = "[[example_request [1], example_request [2]], [example_request [3]]]"
  have "\<forall>b \<in> set ?batches. b \<noteq> [] \<and> length b \<le> blockReceiverBufferSize" by (simp add: blockReceiverBufferSize_def)
  from br_delivers [OF this, of EOF] obtain s where s: "(br_step EOF)\<^sup>*\<^sup>* (br_start (concat ?batches)) s"
    "brDelivered s = ?batches" "brResult s \<noteq> None" "\<not> brCancelled s" by auto
  obtain h where h: "Put example_impl example_ctx (brDelivered s) None [] example_queue = (None, h)"
    using example_put s(2) by auto
  have "plain_elem ''pg''" "\<not> HasSuffix ''00000001000000000000000A'' PartialSuffix" by code_simp+
  with streamed_put_refines_segment_upload [of example_impl mem_files EOF _ s, OF _ _ s(1,3,4) h, of "example_request [1]"] s h
  show ?thesis by fastforce
qed



end
