(* ===== verification/Send_Wal.thy ===== *)
theory Send_Wal
  imports Put_Streams
begin

text \<open>
  The WAL sender beside PostgreSQL: core/internal/client/sendwal with its packages buffer and
  infrastructure, and the uploading half of core/internal/client/klioclient/grpcclient.  The sender
  negotiates a start position, receives the WAL stream of PostgreSQL, cuts it at the segment
  boundaries and uploads each segment with one Put stream.

  PostgreSQL and the module pglogrepl are the records \<open>pg_api\<close> and \<open>pglogrepl\<close>, the position arithmetic
  of the machinery module is \<open>wal_math\<close>, and the gRPC transport is \<open>grpc_net\<close>; their documented behaviour
  is stated by \<open>put_transport\<close> and \<open>wal_name_laws\<close>.  The interface WALHandler is the record \<open>WALHandler\<close>, and
  the locale \<open>wal_handler\<close> states its contract.  Logging, spans and metrics are not modelled.
\<close>

unbundle bit_operations_syntax

section \<open>Errors and numbers\<close>

text \<open>A panic is not an error value: nothing wraps it.\<close>

definition wrapf :: "string \<Rightarrow> go_error \<Rightarrow> go_error" where
  "wrapf m e = (case e of Panic p \<Rightarrow> Panic p | _ \<Rightarrow> Wrap m e)"

definition ErrSyntax :: go_error where "ErrSyntax = Sentinel ''invalid syntax''"
definition ErrRange :: go_error where "ErrRange = Sentinel ''value out of range''"

text \<open>strconv.ParseUint in base ten, for a type of \<open>bits\<close> bits.\<close>

definition dec_digit :: "char \<Rightarrow> nat" where
  "dec_digit c = of_char c - 48"

fun parse_uint_loop :: "nat \<Rightarrow> string \<Rightarrow> nat \<Rightarrow> go_error + nat" where
  "parse_uint_loop bits [] n = Inr n"
| "parse_uint_loop bits (c # cs) n =
     (if \<not> is_dec c then Inl ErrSyntax
      else if 2 ^ bits \<le> n * 10 + dec_digit c then Inl ErrRange
      else parse_uint_loop bits cs (n * 10 + dec_digit c))"

definition ParseUint :: "nat \<Rightarrow> string \<Rightarrow> go_error + nat" where
  "ParseUint bits s = (if s = [] then Inl ErrSyntax else parse_uint_loop bits s 0)"

definition ParseInt32 :: "string \<Rightarrow> go_error + int" where
  "ParseInt32 s =
     (let neg = (s \<noteq> [] \<and> hd s = CHR ''-''); digits = (if s \<noteq> [] \<and> hd s \<in> {CHR ''-'', CHR ''+''} then tl s else s) in
      case ParseUint 32 digits of
        Inl e \<Rightarrow> Inl e
      | Inr n \<Rightarrow> if \<not> neg \<and> 2 ^ 31 \<le> n \<or> neg \<and> 2 ^ 31 < n then Inl ErrRange
                 else Inr (if neg then - int n else int n))"

section \<open>core/internal/client/sendwal/infrastructure/segment_size.go\<close>

text \<open>What a query returns: its result sets, their rows and the columns of a row.\<close>

type_synonym pg_results = "string list list list"

definition parseWithMultiplier :: "string \<Rightarrow> uint64 \<Rightarrow> go_error + uint64" where
  "parseWithMultiplier sz multiplier =
     (case ParseUint 64 sz of
        Inl e \<Rightarrow> Inl (Wrap ''while parsing size'' e)
      | Inr v \<Rightarrow> Inr (of_nat v * multiplier))"

definition parseWALSegmentSize :: "string \<Rightarrow> go_error + uint64" where
  "parseWALSegmentSize sz =
     (let multiplier = 1024; body = take (length sz - 2) sz in
      if HasSuffix sz ''KB'' then parseWithMultiplier body multiplier
      else if HasSuffix sz ''MB'' then parseWithMultiplier body (multiplier * multiplier)
      else if HasSuffix sz ''GB'' then parseWithMultiplier body (multiplier * multiplier * multiplier)
      else parseWithMultiplier sz 1)"

definition GetWalSegmentSize :: "go_error option \<Rightarrow> go_error + pg_results \<Rightarrow> go_error + uint64" where
  "GetWalSegmentSize connectErr answer =
     (case connectErr of
        Some e \<Rightarrow> Inl (Wrap ''while parsing DSN'' e)
      | None \<Rightarrow>
          (case answer of
             Inl e \<Rightarrow> Inl (Wrap ''could not read wal_segment_size'' e)
           | Inr results \<Rightarrow>
               if length results \<noteq> 1 then Inl (Sentinel ''expected 1 result set'')
               else if length (hd results) \<noteq> 1 then Inl (Sentinel ''expected 1 result row'')
               else if length (hd (hd results)) \<noteq> 1 then Inl (Sentinel ''expected 1 result column'')
               else parseWALSegmentSize (hd (hd (hd results)))))"

section \<open>core/internal/client/sendwal/replslot.go\<close>

record ReadReplicationSlotResult =
  SlotType :: string
  RestartLSN :: uint64
  RestartTLI :: int

definition ParseReadReplicationSlot ::
  "(string \<Rightarrow> go_error + uint64) \<Rightarrow> go_error + pg_results \<Rightarrow> go_error + ReadReplicationSlotResult" where
  "ParseReadReplicationSlot parseLSN answer =
     (case answer of
        Inl e \<Rightarrow> Inl e
      | Inr results \<Rightarrow>
          if length results \<noteq> 1 then Inl (Sentinel ''expected 1 result set'')
          else if length (hd results) \<noteq> 1 then Inl (Sentinel ''expected 1 result row'')
          else let row = hd (hd results) in
          if length row \<noteq> 3 then Inl (Sentinel ''expected 3 result columns'')
          else (case (if row ! 1 = [] then Inr 0 else parseLSN (row ! 1)) of
                  Inl e \<Rightarrow> Inl (Sentinel ''failed to parse timeline'')
                | Inr lsn \<Rightarrow>
                    (case (if row ! 2 = [] then Inr 0 else ParseInt32 (row ! 2)) of
                       Inl e \<Rightarrow> Inl (Sentinel ''failed to parse timeline'')
                     | Inr tli \<Rightarrow> Inr \<lparr>SlotType = row ! 0, RestartLSN = lsn, RestartTLI = tli\<rparr>)))"

section \<open>core/internal/client/sendwal/buffer/handler.go and errors.go\<close>

record 'h WALHandler =
  HasWALFileOpened :: "'h \<Rightarrow> bool"
  OpenWAL :: "uint64 \<Rightarrow> 'h \<Rightarrow> go_error option \<times> 'h"
  CloseWAL :: "'h \<Rightarrow> go_error option \<times> 'h"
  WriteWAL :: "bytes \<Rightarrow> 'h \<Rightarrow> (nat \<times> go_error option) \<times> 'h"

definition UnopenedFileForWALError :: go_error where
  "UnopenedFileForWALError = Sentinel ''received write-ahead log record with no file open''"

definition UnexpectedWalDataOffsetError :: go_error where
  "UnexpectedWalDataOffsetError = Sentinel ''Unexpected WAL data offset''"

section \<open>core/internal/client/sendwal/buffer/buffer.go\<close>

text \<open>
  The buffer holds bytes only: replacing it by a smaller one when it has grown changes nothing that a
  caller sees.
\<close>

record Data =
  bdSegmentSize :: uint64
  bdTli :: int
  localWriteLSN :: uint64
  bdBuffer :: bytes

definition new_Data :: "int \<Rightarrow> uint64 \<Rightarrow> Data" where
  "new_Data tli walSegmentSize = \<lparr>bdSegmentSize = walSegmentSize, bdTli = tli, localWriteLSN = 0, bdBuffer = []\<rparr>"

definition bd_Flush :: "'h WALHandler \<Rightarrow> Data \<Rightarrow> 'h \<Rightarrow> go_error option \<times> Data \<times> 'h" where
  "bd_Flush H d h =
     (if \<not> HasWALFileOpened H h \<or> bdBuffer d = [] then (None, d, h)
      else case WriteWAL H (bdBuffer d) h of
        ((_, Some e), h') \<Rightarrow> (Some (wrapf ''while writing to WAL handler'' e), d, h')
      | ((_, None), h') \<Rightarrow> (None, d\<lparr>bdBuffer := []\<rparr>, h'))"

definition CloseCurrentWAL :: "'h WALHandler \<Rightarrow> Data \<Rightarrow> 'h \<Rightarrow> go_error option \<times> Data \<times> 'h" where
  "CloseCurrentWAL H d h =
     (if \<not> HasWALFileOpened H h then (None, d, h)
      else case bd_Flush H d h of
        (Some e, d1, h1) \<Rightarrow> (Some (wrapf ''while flushing WAL handler'' e), d1, h1)
      | (None, d1, h1) \<Rightarrow>
          (case CloseWAL H h1 of
             (Some e, h2) \<Rightarrow> (Some (wrapf ''while closing current WAL file'' e), d1, h2)
           | (None, h2) \<Rightarrow> (None, d1, h2)))"

definition openWALPos :: "'h WALHandler \<Rightarrow> uint64 \<Rightarrow> Data \<Rightarrow> 'h \<Rightarrow> go_error option \<times> Data \<times> 'h" where
  "openWALPos H blockpos d h =
     (case OpenWAL H blockpos h of
        (Some e, h') \<Rightarrow> (Some e, d, h')
      | (None, h') \<Rightarrow> (None, d\<lparr>localWriteLSN := blockpos\<rparr>, h'))"

definition writeToWALFile :: "bytes \<Rightarrow> Data \<Rightarrow> Data" where
  "writeToWALFile data d = d\<lparr>bdBuffer := bdBuffer d @ data, localWriteLSN := localWriteLSN d + of_nat (length data)\<rparr>"

text \<open>
  The loop of ProcessWALData.  Nothing in its text bounds it for every handler, so it is a partial
  function; \<open>None\<close> is a call that does not return.
\<close>

partial_function (option) process_loop ::
  "'h WALHandler \<Rightarrow> bytes \<Rightarrow> uint64 \<Rightarrow> uint64 \<Rightarrow> uint64 \<Rightarrow> uint64 \<Rightarrow> Data \<Rightarrow> 'h \<Rightarrow> (go_error option \<times> Data \<times> 'h) option" where
  "process_loop H data bytesWritten bytesLeft blockpos xlogoff d h =
     (if bytesLeft = 0 then Some (None, d, h)
      else let bytesToWrite = (if xlogoff + bytesLeft > bdSegmentSize d then bdSegmentSize d - xlogoff else bytesLeft) in
        case (if \<not> HasWALFileOpened H h then openWALPos H blockpos d h else (None, d, h)) of
          (Some e, d1, h1) \<Rightarrow> Some (Some e, d1, h1)
        | (None, d1, h1) \<Rightarrow>
            if bytesToWrite > bytesLeft then Some (Some (Panic ''slice bounds out of range''), d1, h1)
            else let d2 = writeToWALFile (take (unat bytesToWrite) (drop (unat bytesWritten) data)) d1 in
              if localWriteLSN d2 mod bdSegmentSize d2 = 0 then
                (case CloseCurrentWAL H d2 h1 of
                   (Some e, d3, h3) \<Rightarrow> Some (Some e, d3, h3)
                 | (None, d3, h3) \<Rightarrow>
                     process_loop H data (bytesWritten + bytesToWrite) (bytesLeft - bytesToWrite)
                       (blockpos + bytesToWrite) 0 d3 h3)
              else process_loop H data (bytesWritten + bytesToWrite) (bytesLeft - bytesToWrite)
                     (blockpos + bytesToWrite) (xlogoff + bytesToWrite) d2 h1)"

definition ProcessWALData ::
  "'h WALHandler \<Rightarrow> bytes \<Rightarrow> uint64 \<Rightarrow> Data \<Rightarrow> 'h \<Rightarrow> (go_error option \<times> Data \<times> 'h) option" where
  "ProcessWALData H data blockpos d h =
     (if bdSegmentSize d = 0 then Some (Some (Panic ''integer divide by zero''), d, h)
      else let xlogoff = blockpos mod bdSegmentSize d in
      if \<not> HasWALFileOpened H h \<and> xlogoff \<noteq> 0 then Some (Some UnopenedFileForWALError, d, h)
      else if HasWALFileOpened H h \<and> localWriteLSN d mod bdSegmentSize d \<noteq> xlogoff
      then Some (Some UnexpectedWalDataOffsetError, d, h)
      else process_loop H data 0 (of_nat (length data)) blockpos xlogoff d h)"

section \<open>core/internal/client/klioclient/grpcclient: waluploader.go and connection.go\<close>

text \<open>
  The gRPC transport of one connection: opening a Put stream, sending on it, closing it for sending,
  what Recv returns until the stream ends, whether the reader has seen that end already, and the state
  once it has.
\<close>

record 'net grpc_net =
  net_Put :: "'net \<Rightarrow> go_error option \<times> 'net"
  net_Send :: "PutRequest \<Rightarrow> 'net \<Rightarrow> go_error option \<times> 'net"
  net_CloseSend :: "'net \<Rightarrow> go_error option \<times> 'net"
  net_Results :: "'net \<Rightarrow> (uint64 \<times> uint64) list \<times> go_error"
  net_Ended :: "'net \<Rightarrow> bool"
  net_End :: "'net \<Rightarrow> 'net"

record Feedback =
  FlushLSN :: uint64
  WriteLSN :: uint64
  ReplayLSN :: uint64

record grpcWALStream =
  gsSegmentSize :: uint64
  gsClusterName :: string
  sentBytes :: uint64
  gsWalName :: string
  gsWalStartLSN :: uint64
  gsSendToTier2 :: bool

text \<open>The goroutine that reads the acknowledgements, each a written and a flushed position.\<close>

definition feedbackReader :: "(uint64 \<times> uint64) list \<times> go_error \<Rightarrow> Feedback list \<times> go_error option" where
  "feedbackReader received =
     (map (\<lambda>(w, f). \<lparr>FlushLSN = f, WriteLSN = w, ReplayLSN = f\<rparr>) (fst received),
      if errors_Is (snd received) EOF then None else Some (Wrap ''error while receiving WAL block ack'' (snd received)))"

definition ackedErr :: "'net grpc_net \<Rightarrow> 'net \<Rightarrow> go_error option" where
  "ackedErr N net = (if net_Ended N net then snd (feedbackReader (net_Results N net)) else None)"

definition block_request :: "grpcWALStream \<Rightarrow> bytes \<Rightarrow> PutRequest" where
  "block_request g block =
     \<lparr>reqClusterName = gsClusterName g, reqWalName = gsWalName g, reqSegmentSize = gsSegmentSize g,
      reqWalStartLsn = gsWalStartLSN g, reqSendToTier2 = gsSendToTier2 g, reqWalBlock = block\<rparr>"

definition SendBlock ::
  "'net grpc_net \<Rightarrow> bytes \<Rightarrow> grpcWALStream \<Rightarrow> 'net \<Rightarrow> go_error option \<times> grpcWALStream \<times> 'net" where
  "SendBlock N block g net =
     (case ackedErr N net of
        Some e \<Rightarrow> (Some e, g, net)
      | None \<Rightarrow>
          (case net_Send N (block_request g block) net of
             (Some e, net') \<Rightarrow> (Some (Wrap ''error while sending WAL block'' e), g, net')
           | (None, net') \<Rightarrow> (None, g\<lparr>sentBytes := sentBytes g + of_nat (length block)\<rparr>, net')))"

definition gs_Close :: "'net grpc_net \<Rightarrow> 'net \<Rightarrow> (go_error option \<times> Feedback list) \<times> 'net" where
  "gs_Close N net =
     (case net_CloseSend N net of
        (Some e, net') \<Rightarrow> ((Some e, []), net')
      | (None, net') \<Rightarrow>
          let (fb, ackErr) = feedbackReader (net_Results N net') in ((ackErr, fb), net_End N net'))"

definition StoreWALStreaming ::
  "'net grpc_net \<Rightarrow> string \<Rightarrow> string \<Rightarrow> uint64 \<Rightarrow> bool \<Rightarrow> uint64 \<Rightarrow> 'net \<Rightarrow> (go_error + grpcWALStream) \<times> 'net" where
  "StoreWALStreaming N clusterName name segmentSize sendToTier2 walStartLSN net =
     (case net_Put N net of
        (Some e, net') \<Rightarrow> (Inl (Wrap ''while starting uploading a WAL file'' e), net')
      | (None, net') \<Rightarrow>
          (Inr \<lparr>gsSegmentSize = segmentSize, gsClusterName = clusterName, sentBytes = 0, gsWalName = name,
                gsWalStartLSN = walStartLSN, gsSendToTier2 = sendToTier2\<rparr>, net'))"

section \<open>core/internal/client/sendwal/buffer/grpc.go\<close>

text \<open>
  What the reading goroutine reports while a WAL is open is put on the channel no later than Close
  returns, and nothing else is in between: the model appends it there.
\<close>

record 'net KlioClientTimelineHandler =
  khStream :: "grpcWALStream option"
  feedbackChannel :: "Feedback list"
  khCluster :: string
  khSendToTier2 :: bool
  khTli :: int
  khSegmentSize :: uint64
  currentWALFile :: string
  khNet :: 'net

definition new_KlioClientTimelineHandler ::
  "int \<Rightarrow> uint64 \<Rightarrow> string \<Rightarrow> bool \<Rightarrow> 'net \<Rightarrow> 'net KlioClientTimelineHandler" where
  "new_KlioClientTimelineHandler tli segmentSize cluster sendToTier2 net =
     \<lparr>khStream = None, feedbackChannel = [], khCluster = cluster, khSendToTier2 = sendToTier2, khTli = tli,
      khSegmentSize = segmentSize, currentWALFile = '''', khNet = net\<rparr>"

definition kh_OpenWAL ::
  "lsn_math \<Rightarrow> 'net grpc_net \<Rightarrow> uint64 \<Rightarrow> 'net KlioClientTimelineHandler \<Rightarrow>
   go_error option \<times> 'net KlioClientTimelineHandler" where
  "kh_OpenWAL lm N blockpos h =
     (case WALFileNameAt lm blockpos (khTli h) (khSegmentSize h) of
        Inl e \<Rightarrow> (Some (Wrap ''while creating WAL file name'' e), h)
      | Inr name \<Rightarrow>
          let h1 = h\<lparr>currentWALFile := name, feedbackChannel := feedbackChannel h @
                       [\<lparr>FlushLSN = blockpos, WriteLSN = blockpos, ReplayLSN = blockpos\<rparr>]\<rparr> in
          (case StoreWALStreaming N (khCluster h) name (khSegmentSize h) (khSendToTier2 h) blockpos (khNet h) of
             (Inl e, net) \<Rightarrow> (Some (Wrap ''while starting WAL file streaming'' e), h1\<lparr>khNet := net\<rparr>)
           | (Inr g, net) \<Rightarrow> (None, h1\<lparr>khStream := Some g, khNet := net\<rparr>)))"

definition kh_HasWALFileOpened :: "'net KlioClientTimelineHandler \<Rightarrow> bool" where
  "kh_HasWALFileOpened h \<longleftrightarrow> currentWALFile h \<noteq> ''''"

definition kh_CloseWAL ::
  "'net grpc_net \<Rightarrow> 'net KlioClientTimelineHandler \<Rightarrow> go_error option \<times> 'net KlioClientTimelineHandler" where
  "kh_CloseWAL N h =
     (case khStream h of
        None \<Rightarrow> (Some (Panic ''nil pointer dereference''), h)
      | Some g \<Rightarrow>
          (case gs_Close N (khNet h) of
             ((Some e, fb), net) \<Rightarrow> (Some e, h\<lparr>khNet := net, feedbackChannel := feedbackChannel h @ fb\<rparr>)
           | ((None, fb), net) \<Rightarrow>
               (None, h\<lparr>currentWALFile := '''', khStream := None, khNet := net, feedbackChannel := feedbackChannel h @ fb\<rparr>)))"

definition maxWriteChunkBytes :: nat where
  "maxWriteChunkBytes = 4 * 1024 * 1024"

function write_chunks ::
  "'net grpc_net \<Rightarrow> bytes \<Rightarrow> nat \<Rightarrow> grpcWALStream \<Rightarrow> 'net \<Rightarrow> (nat \<times> go_error option) \<times> grpcWALStream \<times> 'net" where
  "write_chunks N block sent g net =
     (if block = [] then ((sent, None), g, net)
      else let chunk = (if length block > maxWriteChunkBytes then take maxWriteChunkBytes block else block) in
        case SendBlock N chunk g net of
          (Some e, g', net') \<Rightarrow> ((sent, Some e), g', net')
        | (None, g', net') \<Rightarrow> write_chunks N (drop (length chunk) block) (sent + length chunk) g' net')"
  by pat_completeness auto
termination
  by (relation "measure (\<lambda>(N, block, w, g, net). length block)") (auto simp: maxWriteChunkBytes_def)

declare write_chunks.simps [simp del]

definition kh_Write ::
  "'net grpc_net \<Rightarrow> bytes \<Rightarrow> 'net KlioClientTimelineHandler \<Rightarrow> (nat \<times> go_error option) \<times> 'net KlioClientTimelineHandler" where
  "kh_Write N block h =
     (case khStream h of
        None \<Rightarrow> ((0, if block = [] then None else Some (Panic ''nil pointer dereference'')), h)
      | Some g \<Rightarrow>
          (case write_chunks N block 0 g (khNet h) of
             (r, g', net) \<Rightarrow> (r, h\<lparr>khStream := Some g', khNet := net\<rparr>)))"

definition klio_handler :: "lsn_math \<Rightarrow> 'net grpc_net \<Rightarrow> 'net KlioClientTimelineHandler WALHandler" where
  "klio_handler lm N =
     \<lparr>HasWALFileOpened = kh_HasWALFileOpened, OpenWAL = kh_OpenWAL lm N, CloseWAL = kh_CloseWAL N, WriteWAL = kh_Write N\<rparr>"

section \<open>core/internal/client/sendwal/receiver.go\<close>

text \<open>A message of the replication protocol; the parsers of pglogrepl and its two message types.\<close>

datatype BackendMessage = CopyData bytes | CommandComplete | CopyDone | OtherMessage

record pglogrepl =
  PrimaryKeepaliveMessageByteID :: byte
  XLogDataByteID :: byte
  ParsePrimaryKeepaliveMessage :: "bytes \<Rightarrow> go_error + bool"
  ParseXLogData :: "bytes \<Rightarrow> go_error + uint64 \<times> bytes"

record wal_math = lsn_math +
  WALFileStart :: "uint64 \<Rightarrow> uint64 \<Rightarrow> go_error + string"
  SegmentTli :: "string \<Rightarrow> go_error + int"

record IdentifySystemResult =
  SystemID :: string
  Timeline :: int
  XLogPos :: uint64

text \<open>
  PostgreSQL as the sender uses it.  \<open>pgStream\<close> are the batches that ReceiveAvailable returns while
  replication runs, before it returns an error.
\<close>

record 'pg pg_api =
  pgConnect :: "'pg \<Rightarrow> go_error option \<times> 'pg"
  pgSegmentSize :: "'pg \<Rightarrow> go_error + pg_results"
  pgIdentifySystem :: "'pg \<Rightarrow> go_error + IdentifySystemResult"
  pgReadSlot :: "string \<Rightarrow> 'pg \<Rightarrow> go_error + pg_results"
  pgCreateSlot :: "string \<Rightarrow> 'pg \<Rightarrow> go_error option \<times> 'pg"
  pgDropSlot :: "string \<Rightarrow> 'pg \<Rightarrow> go_error option \<times> 'pg"
  pgTimelineHistory :: "int \<Rightarrow> 'pg \<Rightarrow> go_error + string \<times> bytes"
  pgStartReplication :: "string \<Rightarrow> uint64 \<Rightarrow> int \<Rightarrow> 'pg \<Rightarrow> go_error option \<times> 'pg"
  pgStream :: "'pg \<Rightarrow> BackendMessage list list"
  pgCopyDone :: "'pg \<Rightarrow> (go_error + int \<times> uint64) \<times> 'pg"
  pgParseLSN :: "string \<Rightarrow> go_error + uint64"

text \<open>The calls of the Klio server other than Put that the sender makes.\<close>

record 'net wal_client =
  wcRequestWALStart :: "RequestWALStartRequest \<Rightarrow> 'net \<Rightarrow> (go_error + string) \<times> 'net"
  wcResetWALStream :: "RequestWALStartRequest \<Rightarrow> 'net \<Rightarrow> (go_error + string) \<times> 'net"
  wcUploadFile :: "string \<Rightarrow> bytes \<Rightarrow> bool \<Rightarrow> 'net \<Rightarrow> go_error option \<times> 'net"

record Process =
  cfgClusterName :: string
  cfgSlot :: string
  procSendToTier2 :: bool

definition getStartWALLSN :: "uint64 \<Rightarrow> uint64 \<Rightarrow> uint64" where
  "getStartWALLSN xlogFlushPos segmentSize = xlogFlushPos AND NOT (segmentSize - 1)"

definition ReadReplicationSlot :: "'pg pg_api \<Rightarrow> string \<Rightarrow> 'pg \<Rightarrow> go_error + ReadReplicationSlotResult" where
  "ReadReplicationSlot P slotName pg = ParseReadReplicationSlot (pgParseLSN P) (pgReadSlot P slotName pg)"

definition getReplicationStartPointFromClient ::
  "'pg pg_api \<Rightarrow> Process \<Rightarrow> uint64 \<Rightarrow> uint64 \<Rightarrow> 'pg \<Rightarrow> go_error + uint64" where
  "getReplicationStartPointFromClient P s xlogFlushPos segmentSize pg =
     (case ReadReplicationSlot P (cfgSlot s) pg of
        Inl e \<Rightarrow> Inl (Wrap ''while reading replication slot'' e)
      | Inr slotResult \<Rightarrow>
          if RestartLSN slotResult \<noteq> 0 then Inr (RestartLSN slotResult)
          else Inr (getStartWALLSN xlogFlushPos segmentSize))"

definition getReplicationStartFromWALFileName :: "wal_math \<Rightarrow> string \<Rightarrow> uint64 \<Rightarrow> go_error + uint64" where
  "getReplicationStartFromWALFileName wm walFileName segmentSize =
     (let name = fst (CutSuffix walFileName ''.partial'') in
      case LSNStartFromWALName wm name segmentSize of
        Inl e \<Rightarrow> Inl (Wrap ''while parsing WAL file name'' e)
      | Inr fileName \<Rightarrow>
          (case LSNParse wm fileName of
             Inl e \<Rightarrow> Inl (Wrap ''while parsing WAL file name'' e)
           | Inr lsn \<Rightarrow> Inr lsn))"

record walCoordinate =
  wcTimeline :: int
  wcLsn :: uint64

definition getReplicationStartPoint ::
  "wal_math \<Rightarrow> 'pg pg_api \<Rightarrow> 'net wal_client \<Rightarrow> Process \<Rightarrow> IdentifySystemResult \<Rightarrow> uint64 \<Rightarrow> 'pg \<Rightarrow> 'net \<Rightarrow>
   (go_error + walCoordinate) \<times> 'net" where
  "getReplicationStartPoint wm P C s data segmentSize pg net =
     (case getReplicationStartPointFromClient P s (XLogPos data) segmentSize pg of
        Inl e \<Rightarrow> (Inl e, net)
      | Inr clientStartLSN \<Rightarrow>
          (case WALFileNameAt wm clientStartLSN (Timeline data) segmentSize of
             Inl e \<Rightarrow> (Inl (Wrap ''while converting LSN to WAL file name'' e), net)
           | Inr clientWALFileName \<Rightarrow>
               (case wcRequestWALStart C \<lparr>rwClusterName = cfgClusterName s, rwSystemId = SystemID data,
                       rwCurrentWalName = clientWALFileName\<rparr> net of
                  (Inl e, net') \<Rightarrow> (Inl (Wrap ''during server-side replication point validation'' e), net')
                | (Inr serverWALFileName, net') \<Rightarrow>
                    (case SegmentTli wm (TrimSuffix serverWALFileName (path_Ext serverWALFileName)) of
                       Inl e \<Rightarrow> (Inl (Wrap ''while extracting segment from WAL file name'' e), net')
                     | Inr tli \<Rightarrow>
                         (case getReplicationStartFromWALFileName wm serverWALFileName segmentSize of
                            Inl e \<Rightarrow> (Inl e, net')
                          | Inr lsn \<Rightarrow> (Inr \<lparr>wcTimeline = tli, wcLsn = lsn\<rparr>, net'))))))"

definition ensureReplicationSlotExists :: "'pg pg_api \<Rightarrow> Process \<Rightarrow> 'pg \<Rightarrow> go_error option \<times> 'pg" where
  "ensureReplicationSlotExists P s pg =
     (case ReadReplicationSlot P (cfgSlot s) pg of
        Inl e \<Rightarrow> (Some (Wrap ''while reading replication slot'' e), pg)
      | Inr slotResult \<Rightarrow>
          if SlotType slotResult \<noteq> '''' then (None, pg)
          else (case pgCreateSlot P (cfgSlot s) pg of
                  (Some e, pg') \<Rightarrow> (Some (Wrap ''while creating replication slot'' e), pg')
                | (None, pg') \<Rightarrow>
                    (case ReadReplicationSlot P (cfgSlot s) pg' of
                       Inl e \<Rightarrow> (Some (Wrap ''while reading replication slot after creation'' e), pg')
                     | Inr _ \<Rightarrow> (None, pg'))))"

function history_loop ::
  "'pg pg_api \<Rightarrow> 'net wal_client \<Rightarrow> bool \<Rightarrow> int \<Rightarrow> go_error list \<Rightarrow> 'pg \<Rightarrow> 'net \<Rightarrow> go_error list \<times> 'net" where
  "history_loop P C sendToTier2 tli errorList pg net =
     (if tli \<le> 1 then (errorList, net)
      else case pgTimelineHistory P tli pg of
        Inl e \<Rightarrow> history_loop P C sendToTier2 (tli - 1) (errorList @ [e]) pg net
      | Inr (fileName, content) \<Rightarrow>
          (case wcUploadFile C fileName content sendToTier2 net of
             (Some e, net') \<Rightarrow> history_loop P C sendToTier2 (tli - 1) (errorList @ [e]) pg net'
           | (None, net') \<Rightarrow> history_loop P C sendToTier2 (tli - 1) errorList pg net'))"
  by pat_completeness auto
termination
  by (relation "measure (\<lambda>(P, C, b, tli, es, pg, net). nat tli)") auto

declare history_loop.simps [simp del]

definition downloadHistoryFiles ::
  "'pg pg_api \<Rightarrow> 'net wal_client \<Rightarrow> Process \<Rightarrow> int \<Rightarrow> 'pg \<Rightarrow> 'net \<Rightarrow> go_error option \<times> 'net" where
  "downloadHistoryFiles P C s currentTli pg net =
     (case history_loop P C (procSendToTier2 s) currentTli [] pg net of (es, net') \<Rightarrow> (errors_Join es, net'))"

text \<open>How one batch of messages ends: the next batch, or the end of the loop with its reason.\<close>

datatype loop_exit = NextBatch | ReceiveFailed | StreamEnded | Broken go_error | Returned go_error

definition break_with :: "go_error \<Rightarrow> loop_exit" where
  "break_with e = (case e of Panic m \<Rightarrow> Returned (Panic m) | _ \<Rightarrow> Broken e)"

fun message_loop ::
  "pglogrepl \<Rightarrow> 'h WALHandler \<Rightarrow> BackendMessage list \<Rightarrow> Data \<Rightarrow> 'h \<Rightarrow> (loop_exit \<times> Data \<times> 'h) option" where
  "message_loop L H [] d h = Some (NextBatch, d, h)"
| "message_loop L H (CopyData [] # messages) d h = Some (Returned (Panic ''index out of range''), d, h)"
| "message_loop L H (CopyData (b # body) # messages) d h =
     (if b = PrimaryKeepaliveMessageByteID L then message_loop L H messages d h
      else if b = XLogDataByteID L then
        (case ParseXLogData L body of
           Inl e \<Rightarrow> message_loop L H messages d h
         | Inr (walStart, walData) \<Rightarrow>
             (case ProcessWALData H walData walStart d h of
                None \<Rightarrow> None
              | Some (Some e, d', h') \<Rightarrow> Some (break_with e, d', h')
              | Some (None, d', h') \<Rightarrow> message_loop L H messages d' h'))
      else Some (Broken (Sentinel ''unexpected copydata message''), d, h))"
| "message_loop L H (CommandComplete # messages) d h = Some (StreamEnded, d, h)"
| "message_loop L H (CopyDone # messages) d h = Some (StreamEnded, d, h)"
| "message_loop L H (OtherMessage # messages) d h = Some (Returned (Sentinel ''unexpected message''), d, h)"

fun receive_loop ::
  "pglogrepl \<Rightarrow> 'h WALHandler \<Rightarrow> BackendMessage list list \<Rightarrow> Data \<Rightarrow> 'h \<Rightarrow> (loop_exit \<times> Data \<times> 'h) option" where
  "receive_loop L H [] d h = Some (ReceiveFailed, d, h)"
| "receive_loop L H (messages # batches) d h =
     (case message_loop L H messages d h of
        None \<Rightarrow> None
      | Some (NextBatch, d1, h1) \<Rightarrow>
          (case bd_Flush H d1 h1 of
             (Some e, d2, h2) \<Rightarrow> Some (break_with e, d2, h2)
           | (None, d2, h2) \<Rightarrow> receive_loop L H batches d2 h2)
      | Some (exit, d1, h1) \<Rightarrow> Some (exit, d1, h1))"

definition manageWALStream ::
  "pglogrepl \<Rightarrow> 'pg pg_api \<Rightarrow> 'h WALHandler \<Rightarrow> Data \<Rightarrow> 'h \<Rightarrow> 'pg \<Rightarrow>
   ((go_error + int \<times> uint64) \<times> Data \<times> 'h \<times> 'pg) option" where
  "manageWALStream L P H d h pg =
     (case receive_loop L H (pgStream P pg) d h of
        None \<Rightarrow> None
      | Some (Returned e, d1, h1) \<Rightarrow> Some (Inl e, d1, h1, pg)
      | Some (_, d1, h1) \<Rightarrow>
          (case CloseCurrentWAL H d1 h1 of
             (Some e, d2, h2) \<Rightarrow> Some (Inl (wrapf ''cannot close WAL sender to Klio server'' e), d2, h2, pg)
           | (None, d2, h2) \<Rightarrow>
               (case pgCopyDone P pg of
                  (Inl e, pg') \<Rightarrow> Some (Inl (Wrap ''failed to send CopyDone message'' e), d2, h2, pg')
                | (Inr r, pg') \<Rightarrow> Some (Inr r, d2, h2, pg'))))"

text \<open>
  The loop over the timelines.  PostgreSQL decides how often it runs, so it is a partial function.
\<close>

partial_function (option) startReplication ::
  "wal_math \<Rightarrow> pglogrepl \<Rightarrow> 'pg pg_api \<Rightarrow> 'net grpc_net \<Rightarrow> Process \<Rightarrow> int \<Rightarrow> uint64 \<Rightarrow> uint64 \<Rightarrow> 'pg \<Rightarrow> 'net \<Rightarrow>
   (go_error option \<times> 'pg \<times> 'net) option" where
  "startReplication wm L P N s timeline startXlog walSegmentSize pg net =
     (case WALFileStart wm startXlog walSegmentSize of
        Inl e \<Rightarrow> Some (Some (Wrap ''while computing the LSN of the WAL start - shift'' e), pg, net)
      | Inr startWalLSNString \<Rightarrow>
          (case LSNParse wm startWalLSNString of
             Inl e \<Rightarrow> Some (Some (Wrap ''while computing the LSN of the WAL start - parse'' e), pg, net)
           | Inr startWalLSN \<Rightarrow>
               (case pgStartReplication P (cfgSlot s) startWalLSN timeline pg of
                  (Some e, pg1) \<Rightarrow> Some (Some (Wrap ''while running start_replication'' e), pg1, net)
                | (None, pg1) \<Rightarrow>
                    Option.bind
                      (manageWALStream L P (klio_handler (lsn_math.truncate wm) N) (new_Data timeline walSegmentSize)
                         (new_KlioClientTimelineHandler timeline walSegmentSize (cfgClusterName s) (procSendToTier2 s) net) pg1)
                      (\<lambda>(r, d, h, pg2).
                         case r of
                           Inl e \<Rightarrow> Some (Some e, pg2, khNet h)
                         | Inr (tli, lsn) \<Rightarrow>
                             if tli \<noteq> timeline then startReplication wm L P N s tli lsn walSegmentSize pg2 (khNet h)
                             else Some (None, pg2, khNet h)))))"

definition Start ::
  "wal_math \<Rightarrow> pglogrepl \<Rightarrow> 'pg pg_api \<Rightarrow> 'net grpc_net \<Rightarrow> 'net wal_client \<Rightarrow> Process \<Rightarrow> 'pg \<Rightarrow> 'net \<Rightarrow>
   (go_error option \<times> 'pg \<times> 'net) option" where
  "Start wm L P N C s pg net =
     (case pgConnect P pg of
        (Some e, pg1) \<Rightarrow> Some (Some (Wrap ''while parsing DSN'' e), pg1, net)
      | (None, pg1) \<Rightarrow>
          (case GetWalSegmentSize (fst (pgConnect P pg1)) (pgSegmentSize P pg1) of
             Inl e \<Rightarrow> Some (Some (Wrap ''while setting up replication'' e), pg1, net)
           | Inr walSegmentSize \<Rightarrow>
               (case pgIdentifySystem P pg1 of
                  Inl e \<Rightarrow> Some (Some (Wrap ''while executing identify_system'' e), pg1, net)
                | Inr identifyData \<Rightarrow>
                    (case ensureReplicationSlotExists P s pg1 of
                       (Some e, pg2) \<Rightarrow> Some (Some e, pg2, net)
                     | (None, pg2) \<Rightarrow>
                         (case getReplicationStartPoint wm P C s identifyData walSegmentSize pg2 net of
                            (Inl e, net2) \<Rightarrow> Some (Some e, pg2, net2)
                          | (Inr point, net2) \<Rightarrow>
                              (case downloadHistoryFiles P C s (max (Timeline identifyData) (wcTimeline point)) pg2 net2 of
                                 (_, net3) \<Rightarrow> startReplication wm L P N s (wcTimeline point) (wcLsn point) walSegmentSize pg2 net3))))))"

definition ResetReplicationStatus ::
  "wal_math \<Rightarrow> 'pg pg_api \<Rightarrow> 'net wal_client \<Rightarrow> Process \<Rightarrow> 'pg \<Rightarrow> 'net \<Rightarrow> go_error option \<times> 'pg \<times> 'net" where
  "ResetReplicationStatus wm P C s pg net =
     (case pgConnect P pg of
        (Some e, pg1) \<Rightarrow> (Some (Wrap ''while parsing DSN'' e), pg1, net)
      | (None, pg1) \<Rightarrow>
          (case pgIdentifySystem P pg1 of
             Inl e \<Rightarrow> (Some (Wrap ''while invoking IDENTIFY_SYSTEM'' e), pg1, net)
           | Inr identifyData \<Rightarrow>
               (case GetWalSegmentSize (fst (pgConnect P pg1)) (pgSegmentSize P pg1) of
                  Inl e \<Rightarrow> (Some (Wrap ''while setting up replication'' e), pg1, net)
                | Inr walSegmentSize \<Rightarrow>
                    (case WALFileNameAt wm (XLogPos identifyData) (Timeline identifyData) walSegmentSize of
                       Inl e \<Rightarrow> (Some (Wrap ''while converting LSN to WAL file name'' e), pg1, net)
                     | Inr clientWALFileName \<Rightarrow>
                         (case wcResetWALStream C \<lparr>rwClusterName = cfgClusterName s, rwSystemId = SystemID identifyData,
                                 rwCurrentWalName = clientWALFileName\<rparr> net of
                            (Inl e, net1) \<Rightarrow> (Some (Wrap ''while invoking server-side replication reset'' e), pg1, net1)
                          | (Inr _, net1) \<Rightarrow>
                              (case pgDropSlot P (cfgSlot s) pg1 of
                                 (Some e, pg2) \<Rightarrow> (Some (Wrap ''while dropping replication slot'' e), pg2, net1)
                               | (None, pg2) \<Rightarrow> (None, pg2, net1)))))))"

section \<open>The reference: a stream cut into segments\<close>

text \<open>The whole segments of a stream that starts at position \<open>P\<close>, each with its position.\<close>

definition cut_segments :: "uint64 \<Rightarrow> nat \<Rightarrow> bytes \<Rightarrow> (uint64 \<times> bytes) list" where
  "cut_segments P m got = map (\<lambda>i. (P + of_nat (i * m), take m (drop (i * m) got))) [0..<length got div m]"

definition cut_rest :: "nat \<Rightarrow> bytes \<Rightarrow> bytes" where
  "cut_rest m got = drop (length got div m * m) got"

lemma cut_rest_length: "0 < m \<Longrightarrow> length (cut_rest m got) = length got mod m"
  by (simp add: cut_rest_def minus_div_mult_eq_mod)

lemma div_below: "0 < (m::nat) \<Longrightarrow> a mod m + x < m \<Longrightarrow> (a + x) div m = a div m"
proof -
  assume m: "0 < m" and x: "a mod m + x < m"
  have "(a + x) div m = ((a mod m + x) + a div m * m) div m" by simp
  also have "\<dots> = a div m + (a mod m + x) div m" by (rule div_mult_self1) (use m in simp)
  also have "(a mod m + x) div m = 0" using x by simp
  finally show "(a + x) div m = a div m" by simp
qed

lemma div_reach: "0 < (m::nat) \<Longrightarrow> a mod m + x = m \<Longrightarrow> (a + x) div m = Suc (a div m) \<and> (a + x) mod m = 0"
proof -
  assume m: "0 < m" and "a mod m + x = m"
  moreover have "a = a div m * m + a mod m" by simp
  ultimately have "a + x = Suc (a div m) * m" by (metis add.assoc add.commute mult_Suc)
  with m show "(a + x) div m = Suc (a div m) \<and> (a + x) mod m = 0" by simp
qed

lemma cut_same:
  assumes "0 < m" and "length got mod m + length x < m"
  shows "cut_segments P m (got @ x) = cut_segments P m got" and "cut_rest m (got @ x) = cut_rest m got @ x"
proof -
  note d = div_below [OF assms]
  have "take m (drop (i * m) (got @ x)) = take m (drop (i * m) got)" if "i < length got div m" for i
  proof -
    have "Suc i * m \<le> length got" using that assms(1) by (metis Suc_leI div_times_less_eq_dividend le_trans mult_le_mono1)
    then show ?thesis by simp
  qed
  with d show "cut_segments P m (got @ x) = cut_segments P m got" by (simp add: cut_segments_def)
  from d show "cut_rest m (got @ x) = cut_rest m got @ x" by (simp add: cut_rest_def)
qed

lemma cut_next:
  assumes "0 < m" and "length got mod m + length x = m"
  shows "cut_segments P m (got @ x) = cut_segments P m got @ [(P + of_nat (length got div m * m), cut_rest m got @ x)]"
    and "cut_rest m (got @ x) = []"
proof -
  note d = div_reach [OF assms]
  have early: "take m (drop (i * m) (got @ x)) = take m (drop (i * m) got)" if "i < length got div m" for i
  proof -
    have "Suc i * m \<le> length got" using that assms(1) by (metis Suc_leI div_times_less_eq_dividend le_trans mult_le_mono1)
    then show ?thesis by simp
  qed
  have "length (cut_rest m got @ x) = m" using assms by (simp add: cut_rest_length)
  moreover have "drop (length got div m * m) (got @ x) = cut_rest m got @ x"
    by (simp add: cut_rest_def)
  ultimately have last: "take m (drop (length got div m * m) (got @ x)) = cut_rest m got @ x" by simp
  from early last d show "cut_segments P m (got @ x) = cut_segments P m got @ [(P + of_nat (length got div m * m), cut_rest m got @ x)]"
    by (simp add: cut_segments_def)
  from d show "cut_rest m (got @ x) = []" using cut_rest_length [OF assms(1), of "got @ x"] by simp
qed

section \<open>Positions below the end of the 64-bit space\<close>

lemma word_nat_less: "a < 2 ^ 64 \<Longrightarrow> b < 2 ^ 64 \<Longrightarrow> ((of_nat a :: uint64) < of_nat b) = (a < b)"
  by (simp add: word_less_nat_alt unat_of_nat)

lemma word_nat_mod: "a < 2 ^ 64 \<Longrightarrow> b < 2 ^ 64 \<Longrightarrow> (of_nat a :: uint64) mod of_nat b = of_nat (a mod b)"
proof -
  assume "a < 2 ^ 64" "b < 2 ^ 64"
  moreover from this have "a mod b < 2 ^ 64" by (metis mod_less_eq_dividend order_le_less_trans)
  ultimately show "(of_nat a :: uint64) mod of_nat b = of_nat (a mod b)"
    unfolding word_unat_eq_iff by (simp add: unat_mod unat_of_nat)
qed

lemma word_nat_zero: "a < 2 ^ 64 \<Longrightarrow> ((of_nat a :: uint64) = 0) = (a = 0)"
  using word_nat_less [of 0 a] by (auto simp: word_gt_0)

lemma word_nat_eq: "a < 2 ^ 64 \<Longrightarrow> b < 2 ^ 64 \<Longrightarrow> ((of_nat a :: uint64) = of_nat b) = (a = b)"
  by (simp add: word_unat_eq_iff unat_of_nat)

lemma word_nat_diff: "b \<le> a \<Longrightarrow> (of_nat a :: uint64) - of_nat b = of_nat (a - b)"
  by (simp add: of_nat_diff)

lemma position_mod:
  assumes "m dvd unat (P :: uint64)" and "unat P + a < 2 ^ 64" and "m < 2 ^ 64"
  shows "(P + of_nat a) mod of_nat m = of_nat (a mod m)"
proof -
  have "P + of_nat a = of_nat (unat P + a)" by simp
  moreover have "(unat P + a) mod m = a mod m" using assms(1) by (auto simp: dvd_def)
  ultimately show ?thesis using word_nat_mod [OF assms(2,3)] by simp
qed

text \<open>One turn of the loop of ProcessWALData, once the WAL is open.\<close>

lemma process_loop_turn:
  assumes "bl \<noteq> 0" and "(if xo + bl > bdSegmentSize d then bdSegmentSize d - xo else bl) = t" and "\<not> t > bl"
    and "(if \<not> HasWALFileOpened H h then openWALPos H bp d h else (None, d, h)) = (None, d1, h1)"
    and "writeToWALFile (take (unat t) (drop (unat bw) data)) d1 = d2"
  shows "process_loop H data bw bl bp xo d h =
    (if localWriteLSN d2 mod bdSegmentSize d2 = 0 then
       (case CloseCurrentWAL H d2 h1 of
          (Some e, d3, h3) \<Rightarrow> Some (Some e, d3, h3)
        | (None, d3, h3) \<Rightarrow> process_loop H data (bw + t) (bl - t) (bp + t) 0 d3 h3)
     else process_loop H data (bw + t) (bl - t) (bp + t) (xo + t) d2 h1)"
  by (subst process_loop.simps) (simp only: assms Let_def if_False option.case prod.case)

lemma process_loop_open_error:
  assumes "bl \<noteq> 0" and "(if \<not> HasWALFileOpened H h then openWALPos H bp d h else (None, d, h)) = (Some e, d1, h1)"
  shows "process_loop H data bw bl bp xo d h = Some (Some e, d1, h1)"
  by (subst process_loop.simps) (simp only: assms Let_def if_False option.case prod.case)

section \<open>The interface WALHandler and what the buffer relies on\<close>

text \<open>
  The contract of a handler: \<open>cur\<close> is the WAL being written, with its position, and \<open>stored\<close> the ones that
  were closed.  A WAL that nothing was written to need not be stored.
\<close>

locale wal_handler =
  fixes H :: "'h WALHandler"
    and good :: "'h \<Rightarrow> bool"
    and cur :: "'h \<Rightarrow> (uint64 \<times> bytes) option"
    and stored :: "'h \<Rightarrow> (uint64 \<times> bytes) list"
  assumes opened: "good h \<Longrightarrow> HasWALFileOpened H h = (cur h \<noteq> None)"
    and open_ok: "good h \<Longrightarrow> cur h = None \<Longrightarrow> OpenWAL H p h = (None, h') \<Longrightarrow>
      good h' \<and> cur h' = Some (p, []) \<and> stored h' = stored h"
    and write_ok: "good h \<Longrightarrow> cur h = Some (p, c) \<Longrightarrow> WriteWAL H b h = ((n, None), h') \<Longrightarrow>
      good h' \<and> cur h' = Some (p, c @ b) \<and> stored h' = stored h"
    and close_ok: "good h \<Longrightarrow> cur h = Some (p, c) \<Longrightarrow> c \<noteq> [] \<Longrightarrow> CloseWAL H h = (None, h') \<Longrightarrow>
      good h' \<and> cur h' = None \<and> stored h' = stored h @ [(p, c)]"
begin

text \<open>After the bytes \<open>got\<close> of a stream that starts at \<open>P\<close>.\<close>

definition bd_inv :: "(uint64 \<times> bytes) list \<Rightarrow> uint64 \<Rightarrow> nat \<Rightarrow> bytes \<Rightarrow> Data \<Rightarrow> 'h \<Rightarrow> bool" where
  "bd_inv base P m got d h \<longleftrightarrow>
     good h \<and> bdSegmentSize d = of_nat m \<and> stored h = base @ cut_segments P m got \<and>
     (case cur h of
        None \<Rightarrow> bdBuffer d = [] \<and> length got mod m = 0
      | Some (p, c) \<Rightarrow> p = P + of_nat (length got div m * m) \<and> c @ bdBuffer d = cut_rest m got \<and>
          length got mod m \<noteq> 0 \<and> localWriteLSN d = P + of_nat (length got))"

lemma bd_Flush_inv:
  assumes "bd_inv base P m got d h" and "bd_Flush H d h = (None, d', h')"
  shows "bd_inv base P m got d' h'" and "cur h \<noteq> None \<Longrightarrow> bdBuffer d' = [] \<and> cur h' \<noteq> None"
proof -
  have good: "good h" using assms(1) by (simp add: bd_inv_def)
  show "bd_inv base P m got d' h'" "cur h \<noteq> None \<Longrightarrow> bdBuffer d' = [] \<and> cur h' \<noteq> None"
  proof (atomize (full), cases "cur h = None \<or> bdBuffer d = []")
    case True
    with assms good show "bd_inv base P m got d' h' \<and> (cur h \<noteq> None \<longrightarrow> bdBuffer d' = [] \<and> cur h' \<noteq> None)"
      by (auto simp: bd_Flush_def opened)
  next
    case False
    then obtain p c n where c: "cur h = Some (p, c)" and w: "WriteWAL H (bdBuffer d) h = ((n, None), h')" and d': "d' = d\<lparr>bdBuffer := []\<rparr>"
      using assms(2) good by (auto simp: bd_Flush_def opened split: prod.splits option.splits)
    from write_ok [OF good c w] c assms(1) d' show "bd_inv base P m got d' h' \<and> (cur h \<noteq> None \<longrightarrow> bdBuffer d' = [] \<and> cur h' \<noteq> None)"
      by (simp add: bd_inv_def)
  qed
qed

text \<open>Writing bytes that do not reach the end of the segment.\<close>

lemma write_below:
  assumes inv: "bd_inv base P m got d h" and m: "0 < m" "length got mod m + length x < m" "x \<noteq> []" and c: "cur h \<noteq> None"
  shows "bd_inv base P m (got @ x) (writeToWALFile x d) h"
proof -
  have "length (got @ x) mod m = length got mod m + length x"
    using cut_rest_length [OF m(1), of got] cut_rest_length [OF m(1), of "got @ x"] cut_same(2) [OF m(1,2)] by simp
  with inv c cut_same [OF m(1,2)] div_below [OF m(1,2)] m(3) show ?thesis
    by (auto simp: bd_inv_def writeToWALFile_def algebra_simps)
qed

text \<open>Closing a segment that is full.\<close>

lemma close_full:
  assumes good: "good h" and c: "cur h = Some (p, c)" and x: "c @ bdBuffer d \<noteq> []"
    and run: "CloseCurrentWAL H d h = (None, d', h')"
  shows "good h' \<and> cur h' = None \<and> stored h' = stored h @ [(p, c @ bdBuffer d)] \<and> bdBuffer d' = [] \<and> bdSegmentSize d' = bdSegmentSize d"
proof (cases "bdBuffer d = []")
  case True
  then have "CloseWAL H h = (None, h')" "d' = d"
    using run c good by (auto simp: CloseCurrentWAL_def bd_Flush_def opened split: option.splits prod.splits)
  with close_ok [OF good c] x True show ?thesis by simp
next
  case False
  then obtain h1 n where w: "WriteWAL H (bdBuffer d) h = ((n, None), h1)" and d': "d' = d\<lparr>bdBuffer := []\<rparr>"
    and cl: "CloseWAL H h1 = (None, h')"
    using run c good by (auto simp: CloseCurrentWAL_def bd_Flush_def opened split: option.splits prod.splits)
  note w1 = write_ok [OF good c w]
  from w1 close_ok [OF conjunct1 [OF w1] _ x cl] d' show ?thesis by simp
qed

text \<open>One turn of the loop, up to the test for the end of the segment.\<close>

lemma loop_write:
  assumes inv: "bd_inv base P m got d h" and m: "0 < m" "length got mod m + length x \<le> m" "x \<noteq> []"
    and opn: "(if \<not> HasWALFileOpened H h then openWALPos H (P + of_nat (length got)) d h else (None, d, h)) = (None, d1, h1)"
  shows "good h1 \<and> bdSegmentSize d1 = of_nat m \<and> stored h1 = base @ cut_segments P m got \<and>
         (\<exists>c. cur h1 = Some (P + of_nat (length got div m * m), c) \<and> c @ bdBuffer d1 = cut_rest m got \<and>
              localWriteLSN d1 = P + of_nat (length got))"
proof (cases "cur h")
  case None
  with inv have good: "good h" and o: "length got mod m = 0" and b: "bdBuffer d = []" by (auto simp: bd_inv_def)
  have len: "length got div m * m = length got" using o by (metis add.right_neutral div_mult_mod_eq)
  obtain w: "OpenWAL H (P + of_nat (length got)) h = (None, h1)" and d1: "d1 = d\<lparr>localWriteLSN := P + of_nat (length got)\<rparr>"
    using opn None opened [OF good] by (auto simp: openWALPos_def split: prod.splits option.splits)
  have "cut_rest m got = []" using cut_rest_length [OF m(1), of got] o by simp
  with open_ok [OF good None w] inv len b d1 show ?thesis by (simp add: bd_inv_def)
next
  case (Some pc)
  with opn inv show ?thesis by (auto simp: bd_inv_def opened)
qed

lemma process_loop_inv:
  assumes m: "0 < m" "m < 2 ^ 63" "m dvd unat P" and room: "length data < 2 ^ 63" "unat P + length got + length data < 2 ^ 64"
    and "k \<le> length data" and "bd_inv base P m (got @ take k data) d h"
  shows "\<exists>r d' h'. process_loop H data (of_nat k) (of_nat (length data - k)) (P + of_nat (length got + k))
           (of_nat ((length got + k) mod m)) d h = Some (r, d', h') \<and> (r = None \<longrightarrow> bd_inv base P m (got @ data) d' h')"
  using assms(6,7)
proof (induction "length data - k" arbitrary: k d h rule: less_induct)
  case less
  define L where "L = length data - k"
  define o' where "o' = (length got + k) mod m"
  define t where "t = (if o' + L > m then m - o' else L)"
  let ?got = "got @ take k data"
  let ?x = "take t (drop k data)"
  let ?loop = "process_loop H data"
  have len: "length ?got = length got + k" using less.prems(1) by simp
  have L: "L < 2 ^ 63" "L \<le> length data" using room(1) by (auto simp: L_def)
  have o: "o' < m" using m(1) by (simp add: o'_def)
  note inv = less.prems(2)
  have size: "bdSegmentSize d = of_nat m" using inv by (simp add: bd_inv_def)
  show ?case
  proof (cases "L = 0")
    case True
    then have "k = length data" using less.prems(1) by (simp add: L_def)
    with inv show ?thesis by (simp add: process_loop.simps [of H data "of_nat (length data)"])
  next
    case False
    have t: "0 < t" "t \<le> L" "o' + t \<le> m" "t < 2 ^ 63" using False o m(2) L by (auto simp: t_def)
    have x: "length ?x = t" "?x \<noteq> []" using t L(2) by (auto simp: L_def)
    have nz: "(of_nat L :: uint64) \<noteq> 0" using word_nat_zero [of L] False L(1) by simp
    have "(of_nat o' + of_nat L > (of_nat m :: uint64)) = (o' + L > m)"
      using word_nat_less [of m "o' + L"] o m(2) L(1) by simp
    then have btw: "(if of_nat o' + of_nat L > bdSegmentSize d then bdSegmentSize d - of_nat o' else of_nat L) = (of_nat t :: uint64)"
      using o size by (simp add: t_def)
    have fits: "\<not> of_nat t > (of_nat L :: uint64)" using word_nat_less [of L t] t L by simp
    have ut: "unat (of_nat t :: uint64) = t" "unat (of_nat k :: uint64) = k"
      using t(4) less.prems(1) room(1) by (simp_all add: unat_of_nat)
    obtain e d1 h1 where opn: "(if \<not> HasWALFileOpened H h then openWALPos H (P + of_nat (length got + k)) d h else (None, d, h)) = (e, d1, h1)"
      by (metis surj_pair)
    show ?thesis
    proof (cases e)
      case (Some err)
      have "?loop (of_nat k) (of_nat L) (P + of_nat (length got + k)) (of_nat o') d h = Some (Some err, d1, h1)"
        by (rule process_loop_open_error [OF nz opn [unfolded Some]])
      then show ?thesis unfolding L_def o'_def by blast
    next
      case None
      have le: "length ?got mod m + length ?x \<le> m" unfolding len x(1) using t(3) by (simp add: o'_def)
      have opn': "(if \<not> HasWALFileOpened H h then openWALPos H (P + of_nat (length ?got)) d h else (None, d, h)) = (None, d1, h1)"
        using opn unfolding None len .
      from loop_write [OF inv m(1) le x(2) opn'] obtain c where
        1: "good h1" "bdSegmentSize d1 = of_nat m" "stored h1 = base @ cut_segments P m ?got"
           "cur h1 = Some (P + of_nat (length ?got div m * m), c)" "c @ bdBuffer d1 = cut_rest m ?got"
           "localWriteLSN d1 = P + of_nat (length ?got)" by blast
      define d2 where "d2 = writeToWALFile ?x d1"
      have got': "got @ take (k + t) data = ?got @ ?x" by (simp add: take_add)
      have lw: "localWriteLSN d2 = P + of_nat (length got + (k + t))"
        using 1(6) x(1) len by (simp add: d2_def writeToWALFile_def)
      have md: "localWriteLSN d2 mod bdSegmentSize d2 = of_nat ((length got + (k + t)) mod m)"
        unfolding lw using 1(2) position_mod [OF m(3), of "length got + (k + t)"] room(2) less.prems(1) t(2) m(2)
        by (simp add: d2_def writeToWALFile_def L_def)
      have test: "(localWriteLSN d2 mod bdSegmentSize d2 = 0) = (o' + t = m)"
      proof -
        have "(length got + (k + t)) mod m = (if o' + t = m then 0 else o' + t)"
        proof (cases "o' + t = m")
          case True
          with div_reach [OF m(1), of "length got + k" t] show ?thesis by (simp add: o'_def add.assoc)
        next
          case False
          then have "(o' + t) mod m = o' + t" using t(3) by simp
          with False show ?thesis by (metis add.assoc mod_add_left_eq o'_def)
        qed
        with md t(1) word_nat_zero [of "o' + t"] m(2) t(3) show ?thesis by auto
      qed
      have wr: "writeToWALFile (take (unat (of_nat t :: uint64)) (drop (unat (of_nat k :: uint64)) data)) d1 = d2"
        by (simp only: ut d2_def)
      have eqs: "of_nat k + of_nat t = (of_nat (k + t) :: uint64)" "of_nat L - of_nat t = (of_nat (L - t) :: uint64)"
        "of_nat o' + of_nat t = (of_nat (o' + t) :: uint64)"
        "P + of_nat (length got + k) + of_nat t = P + (of_nat (length got + (k + t)) :: uint64)"
        using word_nat_diff [OF t(2)] by simp_all
      have step: "?loop (of_nat k) (of_nat L) (P + of_nat (length got + k)) (of_nat o') d h =
        (if o' + t = m then
           (case CloseCurrentWAL H d2 h1 of
              (Some e, d3, h3) \<Rightarrow> Some (Some e, d3, h3)
            | (None, d3, h3) \<Rightarrow> ?loop (of_nat (k + t)) (of_nat (L - t)) (P + of_nat (length got + (k + t))) 0 d3 h3)
         else ?loop (of_nat (k + t)) (of_nat (L - t)) (P + of_nat (length got + (k + t))) (of_nat (o' + t)) d2 h1)"
        using process_loop_turn [OF nz btw fits opn [unfolded None] wr] unfolding test eqs .
      have dec: "length data - (k + t) < length data - k" "k + t \<le> length data" "L - t = length data - (k + t)"
        using t L_def by auto
      note ih = less.hyps [OF dec(1,2)]
      show ?thesis
      proof (cases "o' + t = m")
        case True
        obtain e3 d3 h3 where cl: "CloseCurrentWAL H d2 h1 = (e3, d3, h3)" by (metis surj_pair)
        show ?thesis
        proof (cases e3)
          case (Some err)
          with step True cl show ?thesis unfolding L_def o'_def by auto
        next
          case None
          have full: "c @ bdBuffer d2 = cut_rest m ?got @ ?x" using 1(5) by (simp add: d2_def writeToWALFile_def)
          have reach: "length ?got mod m + length ?x = m" using True x(1) len by (simp add: o'_def)
          note nx = cut_next(1) [OF m(1) reach, of P] cut_next(2) [OF m(1) reach]
          have z: "(length got + (k + t)) mod m = 0" using div_reach [OF m(1), of "length got + k" t] True by (simp add: o'_def add.assoc)
          have "bd_inv base P m (got @ take (k + t) data) d3 h3"
            using close_full [OF 1(1,4) _ cl [unfolded None]] full x(2) 1(2,3) nx z dec(2) unfolding got' bd_inv_def
            by (simp add: d2_def writeToWALFile_def)
          from ih [OF this] step True cl None dec(3) z show ?thesis unfolding L_def o'_def by auto
        qed
      next
        case False
        have below: "length ?got mod m + length ?x < m" using False t(3) x(1) len by (simp add: o'_def)
        note sm = cut_same(1) [OF m(1) below, of P] cut_same(2) [OF m(1) below]
        have z: "(length got + (k + t)) mod m = o' + t"
          using below len x(1) by (metis add.assoc mod_add_left_eq mod_less o'_def)
        have "bd_inv base P m (got @ take (k + t) data) d2 h1"
          using 1 sm z t(1) dec(2) lw div_below [OF m(1) below] x(1) len unfolding got' bd_inv_def
          by (simp add: d2_def writeToWALFile_def add.assoc)
        from ih [OF this] step False dec(3) z show ?thesis unfolding L_def o'_def by auto
      qed
    qed
  qed
qed

text \<open>A message of the stream that comes next is taken whole, or reported as an error.\<close>

lemma ProcessWALData_inv:
  assumes m: "0 < m" "m < 2 ^ 63" "m dvd unat P" and room: "length data < 2 ^ 63" "unat P + length got + length data < 2 ^ 64"
    and inv: "bd_inv base P m got d h"
  shows "\<exists>r d' h'. ProcessWALData H data (P + of_nat (length got)) d h = Some (r, d', h') \<and>
           (r = None \<longrightarrow> bd_inv base P m (got @ data) d' h')"
proof -
  have size: "bdSegmentSize d = of_nat m" "bdSegmentSize d \<noteq> 0"
    using inv m word_nat_zero [of m] by (auto simp: bd_inv_def)
  have off: "(P + of_nat (length got)) mod bdSegmentSize d = of_nat (length got mod m)"
    using position_mod [OF m(3), of "length got"] room(2) m(2) size by simp
  have "HasWALFileOpened H h \<Longrightarrow> localWriteLSN d = P + of_nat (length got)" "\<not> HasWALFileOpened H h \<Longrightarrow> length got mod m = 0"
    using inv opened [of h] by (auto simp: bd_inv_def split: option.splits)
  then have "ProcessWALData H data (P + of_nat (length got)) d h =
      process_loop H data 0 (of_nat (length data)) (P + of_nat (length got)) (of_nat (length got mod m)) d h"
    using size off by (auto simp: ProcessWALData_def Let_def)
  with process_loop_inv [OF m room, of 0 base d h] inv show ?thesis by simp
qed

end

section \<open>The stream of messages\<close>

text \<open>The WAL data in a list of messages, up to the one that ends the stream.\<close>

fun stream_data :: "pglogrepl \<Rightarrow> BackendMessage list \<Rightarrow> (uint64 \<times> bytes) list" where
  "stream_data L [] = []"
| "stream_data L (CopyData [] # messages) = []"
| "stream_data L (CopyData (b # body) # messages) =
     (if b = PrimaryKeepaliveMessageByteID L then []
      else if b = XLogDataByteID L then (case ParseXLogData L body of Inl e \<Rightarrow> [] | Inr x \<Rightarrow> [x])
      else []) @ stream_data L messages"
| "stream_data L (CommandComplete # messages) = []"
| "stream_data L (CopyDone # messages) = []"
| "stream_data L (OtherMessage # messages) = []"

text \<open>PostgreSQL sends the WAL without gaps and without repeating any of it.\<close>

fun contiguous :: "uint64 \<Rightarrow> (uint64 \<times> bytes) list \<Rightarrow> bool" where
  "contiguous P [] \<longleftrightarrow> True"
| "contiguous P ((p, b) # rest) \<longleftrightarrow> p = P \<and> contiguous (P + of_nat (length b)) rest"

definition wal_bytes :: "(uint64 \<times> bytes) list \<Rightarrow> bytes" where
  "wal_bytes xs = concat (map snd xs)"

lemma wal_bytes_simps [simp]: "wal_bytes [] = []" "wal_bytes (x # xs) = snd x @ wal_bytes xs" "wal_bytes (xs @ ys) = wal_bytes xs @ wal_bytes ys"
  by (simp_all add: wal_bytes_def)

lemma contiguous_append:
  "contiguous P (xs @ ys) \<longleftrightarrow> contiguous P xs \<and> contiguous (P + of_nat (length (wal_bytes xs))) ys"
  by (induction P xs rule: contiguous.induct) (auto simp: add.assoc)

lemma break_with_exit [simp]: "break_with e \<noteq> NextBatch" "break_with e \<noteq> StreamEnded" "break_with e \<noteq> ReceiveFailed"
  by (simp_all add: break_with_def split: go_error.splits)

context wal_handler
begin

lemma message_loop_inv:
  assumes "0 < m" "m < 2 ^ 63" "m dvd unat P"
    and "contiguous (P + of_nat (length got)) (stream_data L messages)"
    and "unat P + length got + length (wal_bytes (stream_data L messages)) < 2 ^ 64"
    and "\<forall>(p, b) \<in> set (stream_data L messages). length b < 2 ^ 63"
    and "bd_inv base P m got d h"
  shows "\<exists>exit d' h'. message_loop L H messages d h = Some (exit, d', h') \<and> exit \<noteq> ReceiveFailed \<and>
    (exit \<in> {NextBatch, StreamEnded} \<longrightarrow> bd_inv base P m (got @ wal_bytes (stream_data L messages)) d' h') \<and>
    (exit = NextBatch \<longrightarrow> (\<forall>rest. stream_data L (messages @ rest) = stream_data L messages @ stream_data L rest)) \<and>
    (exit = StreamEnded \<longrightarrow> (\<forall>rest. stream_data L (messages @ rest) = stream_data L messages))"
  using assms(4-7)
proof (induction messages arbitrary: got d h)
  case (Cons msg messages)
  show ?case
  proof (cases "\<exists>b body. msg = CopyData (b # body)")
    case False
    then consider "msg = CopyData []" | "msg = CommandComplete" | "msg = CopyDone" | "msg = OtherMessage"
      by (metis BackendMessage.exhaust neq_Nil_conv)
    then show ?thesis using Cons.prems(4) by cases simp_all
  next
    case True
    then obtain b body where msg: "msg = CopyData (b # body)" by blast
    let ?keep = "b = PrimaryKeepaliveMessageByteID L"
    let ?data = "\<not> ?keep \<and> b = XLogDataByteID L"
    consider (skip) "?keep \<or> ?data \<and> isl (ParseXLogData L body)" | (other) "\<not> ?keep" "b \<noteq> XLogDataByteID L"
      | (data) p x where "?data" "ParseXLogData L body = Inr (p, x)"
      by (metis isl_def sum.exhaust surj_pair)
    then show ?thesis
    proof cases
      case skip
      then have same: "message_loop L H (msg # messages) d h = message_loop L H messages d h"
        "stream_data L (msg # rest) = stream_data L rest" for rest
        by (auto simp: msg isl_def)
      show ?thesis using Cons.IH [OF Cons.prems [unfolded same]] by (simp only: same append_Cons)
    next
      case other
      then show ?thesis by (simp add: msg)
    next
      case (data p x)
      have sd: "stream_data L (msg # rest) = (p, x) # stream_data L rest" for rest using data by (auto simp: msg)
      have p: "p = P + of_nat (length got)" and room: "length x < 2 ^ 63" "unat P + length got + length x < 2 ^ 64"
        and rest: "contiguous (P + of_nat (length (got @ x))) (stream_data L messages)"
          "unat P + length (got @ x) + length (wal_bytes (stream_data L messages)) < 2 ^ 64"
          "\<forall>(p, b) \<in> set (stream_data L messages). length b < 2 ^ 63"
        using Cons.prems(1-3) by (auto simp: sd add.assoc)
      from ProcessWALData_inv [OF assms(1-3) room Cons.prems(4)] obtain r d' h' where
        run: "ProcessWALData H x p d h = Some (r, d', h')" and inv: "r = None \<Longrightarrow> bd_inv base P m (got @ x) d' h'"
        unfolding p by blast
      have loop: "message_loop L H (msg # messages) d h =
          (case r of Some e \<Rightarrow> Some (break_with e, d', h') | None \<Rightarrow> message_loop L H messages d' h')"
        using data run by (auto simp: msg split: option.splits)
      show ?thesis
      proof (cases r)
        case (Some e)
        then show ?thesis unfolding loop by simp
      next
        case None
        from Cons.IH [OF rest inv [OF None]] show ?thesis unfolding loop None by (simp add: sd)
      qed
    qed
  qed
qed simp

lemma receive_loop_inv:
  assumes "0 < m" "m < 2 ^ 63" "m dvd unat P"
    and "contiguous (P + of_nat (length got)) (stream_data L (concat batches))"
    and "unat P + length got + length (wal_bytes (stream_data L (concat batches))) < 2 ^ 64"
    and "\<forall>(p, b) \<in> set (stream_data L (concat batches)). length b < 2 ^ 63"
    and "bd_inv base P m got d h"
  shows "\<exists>exit d' h'. receive_loop L H batches d h = Some (exit, d', h') \<and>
    (exit \<in> {ReceiveFailed, StreamEnded} \<longrightarrow> bd_inv base P m (got @ wal_bytes (stream_data L (concat batches))) d' h')"
  using assms(4-7)
proof (induction batches arbitrary: got d h)
  case (Cons messages batches)
  have split: "stream_data L (messages @ rest) = stream_data L messages @ stream_data L rest \<or>
      stream_data L (messages @ rest) = stream_data L messages" for rest
    by (induction L messages rule: stream_data.induct) auto
  have first: "contiguous (P + of_nat (length got)) (stream_data L messages)"
    "unat P + length got + length (wal_bytes (stream_data L messages)) < 2 ^ 64"
    "\<forall>(p, b) \<in> set (stream_data L messages). length b < 2 ^ 63"
    using Cons.prems(1-3) split [of "concat batches"] by (auto simp: contiguous_append)
  from message_loop_inv [OF assms(1-3) first Cons.prems(4)] obtain exit d1 h1 where
    run: "message_loop L H messages d h = Some (exit, d1, h1)" "exit \<noteq> ReceiveFailed"
    and inv: "exit \<in> {NextBatch, StreamEnded} \<Longrightarrow> bd_inv base P m (got @ wal_bytes (stream_data L messages)) d1 h1"
    and next': "exit = NextBatch \<Longrightarrow> stream_data L (messages @ concat batches) = stream_data L messages @ stream_data L (concat batches)"
    and ended: "exit = StreamEnded \<Longrightarrow> stream_data L (messages @ concat batches) = stream_data L messages"
    by blast
  show ?case
  proof (cases "exit = NextBatch")
    case True
    let ?got = "got @ wal_bytes (stream_data L messages)"
    obtain e d2 h2 where fl: "bd_Flush H d1 h1 = (e, d2, h2)" by (metis surj_pair)
    show ?thesis
    proof (cases e)
      case (Some err)
      with run True fl show ?thesis by simp
    next
      case None
      have i2: "bd_inv base P m ?got d2 h2" using bd_Flush_inv(1) [OF inv fl [unfolded None]] True by simp
      have "contiguous (P + of_nat (length ?got)) (stream_data L (concat batches))"
        "unat P + length ?got + length (wal_bytes (stream_data L (concat batches))) < 2 ^ 64"
        "\<forall>(p, b) \<in> set (stream_data L (concat batches)). length b < 2 ^ 63"
        using Cons.prems(1-3) next' [OF True] by (auto simp: contiguous_append add.assoc)
      from Cons.IH [OF this i2] run True fl None next' [OF True] show ?thesis by simp
    qed
  next
    case False
    then have "receive_loop L H (messages # batches) d h = Some (exit, d1, h1)"
      using run by (cases exit) auto
    with inv ended run(2) show ?thesis by auto
  qed
qed simp

end

context wal_handler
begin

lemma close_last:
  assumes m: "0 < m" and inv: "bd_inv base P m got d h" and run: "CloseCurrentWAL H d h = (None, d', h')"
  shows "good h' \<and> stored h' = base @ cut_segments P m got @
           (if length got mod m = 0 then [] else [(P + of_nat (length got div m * m), cut_rest m got)])"
proof (cases "cur h")
  case None
  with inv run show ?thesis by (auto simp: bd_inv_def CloseCurrentWAL_def opened)
next
  case (Some pc)
  then obtain c where c: "cur h = Some (P + of_nat (length got div m * m), c)" "c @ bdBuffer d = cut_rest m got"
    "length got mod m \<noteq> 0" "good h" "stored h = base @ cut_segments P m got"
    using inv by (cases pc) (auto simp: bd_inv_def)
  have "c @ bdBuffer d \<noteq> []" using c(2,3) cut_rest_length [OF m, of got] by auto
  from close_full [OF c(4,1) this run] c show ?thesis by simp
qed

lemma session_returns:
  assumes "0 < m" "m < 2 ^ 63" "m dvd unat P" and "good h" "cur h = None"
    and "contiguous P (stream_data L (concat batches))"
    and "unat P + length (wal_bytes (stream_data L (concat batches))) < 2 ^ 64"
    and "\<forall>(p, b) \<in> set (stream_data L (concat batches)). length b < 2 ^ 63"
  shows "\<exists>r. receive_loop L H batches (new_Data tli (of_nat m)) h = Some r"
proof -
  have "bd_inv (stored h) P m [] (new_Data tli (of_nat m)) h" using assms(4,5) by (simp add: bd_inv_def new_Data_def cut_segments_def)
  from receive_loop_inv [OF assms(1-3) _ _ assms(8) this] assms(6,7) show ?thesis by auto
qed

text \<open>A whole session: what was received is stored, cut at the segment boundaries.\<close>

lemma session_stored:
  assumes "0 < m" "m < 2 ^ 63" "m dvd unat P" and "good h" "cur h = None" and "d = new_Data tli (of_nat m)"
    and "contiguous P (stream_data L (concat batches))"
    and "unat P + length (wal_bytes (stream_data L (concat batches))) < 2 ^ 64"
    and "\<forall>(p, b) \<in> set (stream_data L (concat batches)). length b < 2 ^ 63"
    and "receive_loop L H batches d h = Some (exit, d1, h1)" and "exit \<in> {ReceiveFailed, StreamEnded}"
    and "CloseCurrentWAL H d1 h1 = (None, d2, h2)"
  defines "got \<equiv> wal_bytes (stream_data L (concat batches))"
  shows "good h2 \<and> stored h2 = stored h @ cut_segments P m got @
           (if length got mod m = 0 then [] else [(P + of_nat (length got div m * m), cut_rest m got)])"
proof -
  have "bd_inv (stored h) P m [] d h" using assms(4-6) by (simp add: bd_inv_def new_Data_def cut_segments_def)
  from receive_loop_inv [OF assms(1-3) _ _ assms(9) this] assms(7,8,10,11)
  have "bd_inv (stored h) P m got d1 h1" by (auto simp: got_def)
  from close_last [OF assms(1) this assms(12)] show ?thesis .
qed

end

section \<open>The transport and the handler that uploads to Klio\<close>

definition block_bytes :: "PutRequest list \<Rightarrow> bytes" where
  "block_bytes rs = concat (map reqWalBlock rs)"

text \<open>
  What gRPC promises of a Put stream: the requests that Send accepted reach the server in order, and
  when Recv ends with io.EOF the handler of the server got all of them and returned no error.
  \<open>inflight\<close> are the requests of the open stream, \<open>served\<close> those of the streams that ended well, and
  \<open>netFs\<close> is the file system of the server after those.
\<close>

definition put_transport ::
  "'net grpc_net \<Rightarrow> ('fs, 'n) Implementation \<Rightarrow> call_context \<Rightarrow> ('net \<Rightarrow> PutRequest list) \<Rightarrow>
   ('net \<Rightarrow> PutRequest list list) \<Rightarrow> ('net \<Rightarrow> 'fs) \<Rightarrow> bool" where
  "put_transport N impl ctx inflight served netFs \<longleftrightarrow>
     (\<forall>n n'. net_Put N n = (None, n') \<longrightarrow> inflight n' = [] \<and> served n' = served n \<and> netFs n' = netFs n) \<and>
     (\<forall>r n n'. net_Send N r n = (None, n') \<longrightarrow>
        inflight n' = inflight n @ [r] \<and> served n' = served n \<and> netFs n' = netFs n) \<and>
     (\<forall>n n'. net_CloseSend N n = (None, n') \<longrightarrow> inflight n' = inflight n \<and> served n' = served n \<and> netFs n' = netFs n) \<and>
     (\<forall>n. errors_Is (snd (net_Results N n)) EOF \<longrightarrow>
        served (net_End N n) = served n @ [inflight n] \<and>
        (\<exists>batches q h. concat batches = inflight n \<and> Put impl ctx batches None (netFs n) q = (None, h) \<and>
           netFs (net_End N n) = phFs h))"

text \<open>What the machinery module promises of WAL file names.\<close>

definition wal_name_laws :: "lsn_math \<Rightarrow> int \<Rightarrow> uint64 \<Rightarrow> bool" where
  "wal_name_laws lm tli seg \<longleftrightarrow>
     (\<forall>p name. WALFileNameAt lm p tli seg = Inr name \<longrightarrow> length name = 24 \<and> list_all is_hex name) \<and>
     (\<forall>p q name. p mod seg = 0 \<longrightarrow> q mod seg = 0 \<longrightarrow> WALFileNameAt lm p tli seg = Inr name \<longrightarrow>
        WALFileNameAt lm q tli seg = Inr name \<longrightarrow> p = q)"

text \<open>The requests of one upload, and a WAL as the server has it.\<close>

definition uploads :: "lsn_math \<Rightarrow> 'net KlioClientTimelineHandler \<Rightarrow> uint64 \<Rightarrow> PutRequest list \<Rightarrow> bool" where
  "uploads lm h p rs \<longleftrightarrow> (\<forall>r \<in> set rs. reqClusterName r = khCluster h \<and> reqSegmentSize r = khSegmentSize h \<and>
     reqWalStartLsn r = p \<and> reqWalBlock r \<noteq> [] \<and> WALFileNameAt lm p (khTli h) (khSegmentSize h) = Inr (reqWalName r))"

definition wal_archived ::
  "('fs, 'n) Implementation \<Rightarrow> call_context \<Rightarrow> ('fs \<Rightarrow> string \<rightharpoonup> bytes) \<Rightarrow> 'fs \<Rightarrow> PutRequest list \<Rightarrow> bool" where
  "wal_archived impl ctx files s rs \<longleftrightarrow> validateRequest impl ctx (hd rs) = None \<and>
     (\<exists>ds bs. concat ds = block_bytes rs \<and> wraps (implConn impl) ds bs \<and>
        files s (getWALArchivePath (reqClusterName (hd rs)) (reqWalName (hd rs))) =
          Some (MarshalHeader (connCodec (implConn impl)) 1 (reqSegmentSize (hd rs)) @ chunk_bytes (connCodec (implConn impl)) bs))"

definition kh_cur :: "('net \<Rightarrow> PutRequest list) \<Rightarrow> 'net KlioClientTimelineHandler \<Rightarrow> (uint64 \<times> bytes) option" where
  "kh_cur inflight h = map_option (\<lambda>g. (gsWalStartLSN g, block_bytes (inflight (khNet h)))) (khStream h)"

definition kh_stored :: "('net \<Rightarrow> PutRequest list list) \<Rightarrow> 'net KlioClientTimelineHandler \<Rightarrow> (uint64 \<times> bytes) list" where
  "kh_stored served h = map (\<lambda>rs. (reqWalStartLsn (hd rs), block_bytes rs)) (filter (\<lambda>rs. rs \<noteq> []) (served (khNet h)))"

text \<open>
  The state of the handler between two calls: the server has every whole segment that was not
  uploaded again later.
\<close>

definition kh_archive where
  "kh_archive impl ctx files (h :: 'net KlioClientTimelineHandler) served s \<longleftrightarrow>
     (\<forall>xs rs ys. served = xs @ rs # ys \<longrightarrow> rs \<noteq> [] \<longrightarrow> of_nat (length (block_bytes rs)) = khSegmentSize h \<longrightarrow>
        (\<forall>rs' \<in> set ys. rs' \<noteq> [] \<longrightarrow> reqWalName (hd rs') \<noteq> reqWalName (hd rs)) \<longrightarrow> wal_archived impl ctx files s rs)"

definition kh_good where
  "kh_good cfg lm N impl ctx files inflight served netFs h \<longleftrightarrow>
     (khCluster h, khTli h, khSegmentSize h) = cfg \<and> put_transport N impl ctx inflight served netFs \<and> wal_name_laws lm (khTli h) (khSegmentSize h) \<and>
     fs_laws (connFs (implConn impl)) files \<and> plain_elem (khCluster h) \<and>
     (currentWALFile h \<noteq> '''' \<longleftrightarrow> khStream h \<noteq> None) \<and>
     (\<forall>g. khStream h = Some g \<longrightarrow> gsClusterName g = khCluster h \<and> gsSegmentSize g = khSegmentSize h \<and>
        WALFileNameAt lm (gsWalStartLSN g) (khTli h) (khSegmentSize h) = Inr (gsWalName g) \<and>
        uploads lm h (gsWalStartLSN g) (inflight (khNet h))) \<and>
     (\<forall>rs \<in> set (served (khNet h)). \<exists>p. uploads lm h p rs) \<and>
     kh_archive impl ctx files h (served (khNet h)) (netFs (khNet h))"

lemma block_bytes_simps [simp]: "block_bytes [] = []" "block_bytes (xs @ ys) = block_bytes xs @ block_bytes ys"
  "block_bytes (map (block_request g) bs) = concat bs"
  by (simp_all add: block_bytes_def block_request_def comp_def)

lemma block_request_sent [simp]: "block_request (g\<lparr>sentBytes := n\<rparr>) = block_request g"
  by (simp add: block_request_def fun_eq_iff)

lemma block_request_uploads:
  "gsClusterName g = khCluster h \<Longrightarrow> gsSegmentSize g = khSegmentSize h \<Longrightarrow>
   WALFileNameAt lm (gsWalStartLSN g) (khTli h) (khSegmentSize h) = Inr (gsWalName g) \<Longrightarrow> [] \<notin> set bs \<Longrightarrow>
   uploads lm h (gsWalStartLSN g) (map (block_request g) bs)"
  by (auto simp: uploads_def block_request_def)

lemma uploads_append: "uploads lm h p (xs @ ys) \<longleftrightarrow> uploads lm h p xs \<and> uploads lm h p ys"
  by (auto simp: uploads_def)

lemma uploads_bytes: "uploads lm h p rs \<Longrightarrow> block_bytes rs = [] \<longleftrightarrow> rs = []"
  by (cases rs) (auto simp: uploads_def block_bytes_def)

lemma snoc_split: "s @ [c] = xs @ r # ys @ [y] \<longleftrightarrow> s = xs @ r # ys \<and> c = y"
  by (metis append.assoc append_Cons append1_eq_conv)

lemma transportD:
  assumes "put_transport N impl ctx inflight served netFs"
  shows "net_Put N n = (None, n') \<Longrightarrow> inflight n' = [] \<and> served n' = served n \<and> netFs n' = netFs n"
    and "net_Send N r n = (None, n') \<Longrightarrow> inflight n' = inflight n @ [r] \<and> served n' = served n \<and> netFs n' = netFs n"
    and "net_CloseSend N n = (None, n') \<Longrightarrow> inflight n' = inflight n \<and> served n' = served n \<and> netFs n' = netFs n"
    and "errors_Is (snd (net_Results N n)) EOF \<Longrightarrow> served (net_End N n) = served n @ [inflight n] \<and>
      (\<exists>batches q h. concat batches = inflight n \<and> Put impl ctx batches None (netFs n) q = (None, h) \<and> netFs (net_End N n) = phFs h)"
  using assms by (auto simp: put_transport_def)

lemma write_chunks_ok:
  assumes "put_transport N impl ctx inflight served netFs"
  shows "write_chunks N block sent g net = ((n, None), g', net') \<Longrightarrow>
    (\<exists>bs k. concat bs = block \<and> [] \<notin> set bs \<and> inflight net' = inflight net @ map (block_request g) bs \<and>
       served net' = served net \<and> netFs net' = netFs net \<and> g' = g\<lparr>sentBytes := k\<rparr>)"
proof (induction block arbitrary: sent g net rule: measure_induct_rule [of length])
  case (less block)
  show ?case
  proof (cases "block = []")
    case True
    with less.prems have "net' = net" "g' = g" by (simp_all add: write_chunks.simps [of N "[]"])
    then show ?thesis using True by (intro exI [of _ "[]"] exI [of _ "sentBytes g"]) simp
  next
    case False
    define chunk where "chunk = (if length block > maxWriteChunkBytes then take maxWriteChunkBytes block else block)"
    obtain net1 where send: "net_Send N (block_request g chunk) net = (None, net1)"
      and s: "SendBlock N chunk g net = (None, g\<lparr>sentBytes := sentBytes g + of_nat (length chunk)\<rparr>, net1)"
      and run: "write_chunks N (drop (length chunk) block) (sent + length chunk)
        (g\<lparr>sentBytes := sentBytes g + of_nat (length chunk)\<rparr>) net1 = ((n, None), g', net')"
      using less.prems False
      by (auto simp: write_chunks.simps [of N block] chunk_def [symmetric] Let_def SendBlock_def split: option.splits prod.splits)
    have ne: "chunk \<noteq> []" and cut: "chunk @ drop (length chunk) block = block"
      using False by (auto simp: chunk_def maxWriteChunkBytes_def)
    have "length (drop (length chunk) block) < length block" using False ne by (simp add: diff_less)
    from less.IH [OF this run] obtain bs k where
      bs: "concat bs = drop (length chunk) block" "[] \<notin> set bs" "inflight net' = inflight net1 @ map (block_request g) bs"
      "served net' = served net1" "netFs net' = netFs net1" "g' = g\<lparr>sentBytes := k\<rparr>" by auto
    with ne cut transportD(2) [OF assms send] show ?thesis
      by (intro exI [of _ "chunk # bs"] exI [of _ k]) simp
  qed
qed

text \<open>A stream that ended well: its WAL is archived when it was whole, and the others are as they were.\<close>

lemma archive_step:
  assumes laws: "fs_laws (connFs (implConn impl)) files" and names: "wal_name_laws lm (khTli h) (khSegmentSize h)"
    and plain: "plain_elem (khCluster h)" and old: "kh_archive impl ctx files h served s" "\<forall>rs \<in> set served. \<exists>p. uploads lm h p rs"
    and put: "Put impl ctx batches None s q = (None, ph)" "uploads lm h p (concat batches)"
  shows "kh_archive impl ctx files h (served @ [concat batches]) (phFs ph)"
proof (cases "concat batches = []")
  case True
  have "wal_archived impl ctx files (phFs ph) rs"
    if sp: "served @ [concat batches] = xs @ rs # ys" "rs \<noteq> []" "of_nat (length (block_bytes rs)) = khSegmentSize h"
      "\<forall>rs' \<in> set ys. rs' \<noteq> [] \<longrightarrow> reqWalName (hd rs') \<noteq> reqWalName (hd rs)" for xs rs ys
  proof -
    have "ys \<noteq> []" using sp(1,2) True by (cases ys rule: rev_cases) auto
    then obtain zs where "ys = zs @ [concat batches]" "served = xs @ rs # zs"
      using sp(1) by (cases ys rule: rev_cases) (auto simp: snoc_split)
    with old(1) sp show ?thesis using Put_empty [OF put(1) True] by (auto simp: kh_archive_def)
  qed
  then show ?thesis unfolding kh_archive_def by blast
next
  case False
  let ?r0 = "hd (concat batches)"
  have r0: "?r0 \<in> set (concat batches)" using False by (rule hd_in_set)
  have u0: "reqClusterName ?r0 = khCluster h" "reqSegmentSize ?r0 = khSegmentSize h"
    "WALFileNameAt lm p (khTli h) (khSegmentSize h) = Inr (reqWalName ?r0)" using put(2) r0 by (auto simp: uploads_def)
  have valid: "walFileRE w \<and> \<not> HasSuffix w PartialSuffix \<and> ValidateWalFileName w = None"
    if "WALFileNameAt lm p' (khTli h) (khSegmentSize h) = Inr w" for p' w
  proof -
    have hex: "length w = 24" "list_all is_hex w" using names that by (auto simp: wal_name_laws_def)
    then have "walFileRE w" by (auto simp: walFileRE_def Let_def list_all_iff dest: in_set_takeD in_set_dropD)
    with hex24_no_partial [OF hex] show ?thesis by (simp add: ValidateWalFileName_def)
  qed
  have np: "\<not> HasSuffix (getWALArchivePath (khCluster h) w) PartialSuffix"
    if "WALFileNameAt lm p' (khTli h) (khSegmentSize h) = Inr w" for p' w
    using archive_path_not_partial [OF plain] valid [OF that] by blast
  note fr = Put_frame [OF laws put(1) r0, unfolded u0(1)]
  note ok = Put_ok [OF laws put(1) r0, unfolded u0(1,2)]
  have "wal_archived impl ctx files (phFs ph) rs"
    if sp: "served @ [concat batches] = xs @ rs # ys" "rs \<noteq> []" "of_nat (length (block_bytes rs)) = khSegmentSize h"
      "\<forall>rs' \<in> set ys. rs' \<noteq> [] \<longrightarrow> reqWalName (hd rs') \<noteq> reqWalName (hd rs)" for xs rs ys
  proof (cases ys rule: rev_cases)
    case Nil
    then have rs: "rs = concat batches" using sp(1) by simp
    from ok(2) sp(3) obtain ds bs where "concat ds = block_bytes rs" "wraps (implConn impl) ds bs"
      "files (phFs ph) (getWALArchivePath (khCluster h) (reqWalName ?r0)) =
         Some (MarshalHeader (connCodec (implConn impl)) 1 (khSegmentSize h) @ chunk_bytes (connCodec (implConn impl)) bs)"
      using partial_path_neq [OF np [OF u0(3)]] by (auto simp: rs block_bytes_def)
    with Put_validated [OF put(1) r0] u0 show ?thesis unfolding wal_archived_def rs by auto
  next
    case (snoc zs last)
    then have srv: "served = xs @ rs # zs" and last: "last = concat batches" using sp(1) by (auto simp: snoc_split)
    then have arch: "wal_archived impl ctx files s rs" using old(1) sp snoc by (auto simp: kh_archive_def)
    have "rs \<in> set served" using srv by simp
    then obtain p' where "uploads lm h p' rs" using old(2) by blast
    with sp(2) have u: "reqClusterName (hd rs) = khCluster h"
      "WALFileNameAt lm p' (khTli h) (khSegmentSize h) = Inr (reqWalName (hd rs))" by (auto simp: uploads_def)
    have "reqWalName (hd rs) \<noteq> reqWalName ?r0" using sp(4) snoc last False by auto
    with archive_path_inj [OF plain plain, of "reqWalName (hd rs)" "reqWalName ?r0"] valid [OF u(2)] valid [OF u0(3)]
    have "getWALArchivePath (khCluster h) (reqWalName (hd rs)) \<noteq> getWALArchivePath (khCluster h) (reqWalName ?r0)" by metis
    moreover have "getWALArchivePath (khCluster h) (reqWalName (hd rs)) \<noteq> WithPartialSuffix (getWALArchivePath (khCluster h) (reqWalName ?r0))"
      using np [OF u(2)] np [OF u0(3)] by (metis HasSuffix_append WithPartialSuffix_def)
    ultimately have "files (phFs ph) (getWALArchivePath (khCluster h) (reqWalName (hd rs))) =
        files s (getWALArchivePath (khCluster h) (reqWalName (hd rs)))"
      using fr partial_path_neq [OF np [OF u0(3)]] by (auto simp: fs_frame_def)
    with arch u(1) show ?thesis by (auto simp: wal_archived_def)
  qed
  then show ?thesis unfolding kh_archive_def by blast
qed

lemma kh_open_ok:
  assumes good: "kh_good cfg lm N impl ctx files inflight served netFs h" and cur: "kh_cur inflight h = None"
    and run: "kh_OpenWAL lm N p h = (None, h')"
  shows "kh_good cfg lm N impl ctx files inflight served netFs h' \<and> kh_cur inflight h' = Some (p, []) \<and> kh_stored served h' = kh_stored served h"
proof -
  obtain name net where n: "WALFileNameAt lm p (khTli h) (khSegmentSize h) = Inr name" "net_Put N (khNet h) = (None, net)"
    and h': "h' = h\<lparr>currentWALFile := name, feedbackChannel := feedbackChannel h @ [\<lparr>FlushLSN = p, WriteLSN = p, ReplayLSN = p\<rparr>],
      khStream := Some \<lparr>gsSegmentSize = khSegmentSize h, gsClusterName = khCluster h, sentBytes = 0, gsWalName = name,
        gsWalStartLSN = p, gsSendToTier2 = khSendToTier2 h\<rparr>, khNet := net\<rparr>"
    using run by (auto simp: kh_OpenWAL_def StoreWALStreaming_def Let_def split: sum.splits prod.splits option.splits)
  have "put_transport N impl ctx inflight served netFs" using good by (simp add: kh_good_def)
  note t = transportD(1) [OF this n(2)]
  have "length name = 24" using good n(1) by (auto simp: kh_good_def wal_name_laws_def)
  then have ne: "name \<noteq> ''''" by auto
  have "uploads lm h' q rs = uploads lm h q rs" "kh_archive impl ctx files h' srv s = kh_archive impl ctx files h srv s" for q rs srv s
    by (simp_all add: h' uploads_def kh_archive_def)
  then show ?thesis using good t ne n(1) unfolding kh_good_def by (simp add: h' kh_cur_def kh_stored_def) (simp add: uploads_def)
qed

lemma kh_write_ok:
  assumes good: "kh_good cfg lm N impl ctx files inflight served netFs h" and cur: "kh_cur inflight h = Some (p, c)"
    and run: "kh_Write N b h = ((n, None), h')"
  shows "kh_good cfg lm N impl ctx files inflight served netFs h' \<and> kh_cur inflight h' = Some (p, c @ b) \<and> kh_stored served h' = kh_stored served h"
proof -
  obtain g g' net where g: "khStream h = Some g" "write_chunks N b 0 g (khNet h) = ((n, None), g', net)"
    and h': "h' = h\<lparr>khStream := Some g', khNet := net\<rparr>"
    using run cur by (auto simp: kh_Write_def kh_cur_def split: option.splits prod.splits)
  have tr: "put_transport N impl ctx inflight served netFs" using good by (simp add: kh_good_def)
  from write_chunks_ok [OF tr g(2)] obtain bs k where bs: "concat bs = b" "[] \<notin> set bs"
    "inflight net = inflight (khNet h) @ map (block_request g) bs" "served net = served (khNet h)" "netFs net = netFs (khNet h)"
    "g' = g\<lparr>sentBytes := k\<rparr>" by blast
  have cl: "gsClusterName g = khCluster h" "gsSegmentSize g = khSegmentSize h"
    "WALFileNameAt lm (gsWalStartLSN g) (khTli h) (khSegmentSize h) = Inr (gsWalName g)"
    using good g(1) by (auto simp: kh_good_def)
  have "uploads lm h (gsWalStartLSN g) (map (block_request g) bs)" by (rule block_request_uploads [OF cl bs(2)])
  then have "uploads lm h' (gsWalStartLSN g') (inflight net)"
    using good g(1) bs(3,6) by (auto simp: kh_good_def uploads_append h' uploads_def)
  moreover have "uploads lm h' q rs = uploads lm h q rs" "kh_archive impl ctx files h' srv s = kh_archive impl ctx files h srv s" for q rs srv s
    by (simp_all add: h' uploads_def kh_archive_def)
  ultimately show ?thesis using good g(1) cl bs cur unfolding kh_good_def by (simp add: h' kh_cur_def kh_stored_def)
qed

lemma kh_close_ok:
  assumes good: "kh_good cfg lm N impl ctx files inflight served netFs h" and cur: "kh_cur inflight h = Some (p, c)" "c \<noteq> []"
    and run: "kh_CloseWAL N h = (None, h')"
  shows "kh_good cfg lm N impl ctx files inflight served netFs h' \<and> kh_cur inflight h' = None \<and> kh_stored served h' = kh_stored served h @ [(p, c)]"
proof -
  obtain g where g: "khStream h = Some g" "gsWalStartLSN g = p" "block_bytes (inflight (khNet h)) = c"
    using cur(1) by (auto simp: kh_cur_def)
  obtain net where net: "net_CloseSend N (khNet h) = (None, net)" "errors_Is (snd (net_Results N net)) EOF"
    and h': "h' = h\<lparr>currentWALFile := '''', khStream := None, khNet := net_End N net,
      feedbackChannel := feedbackChannel h @ fst (feedbackReader (net_Results N net))\<rparr>"
    using run g(1) by (auto simp: kh_CloseWAL_def gs_Close_def feedbackReader_def Let_def split: prod.splits option.splits if_splits)
  have tr: "put_transport N impl ctx inflight served netFs" using good by (simp add: kh_good_def)
  note t = transportD(3) [OF tr net(1)] transportD(4) [OF tr net(2)]
  from t(2) obtain batches q ph where put: "concat batches = inflight net" "Put impl ctx batches None (netFs net) q = (None, ph)"
    "netFs (net_End N net) = phFs ph" "served (net_End N net) = served net @ [inflight net]" by blast
  have laws: "fs_laws (connFs (implConn impl)) files" "wal_name_laws lm (khTli h) (khSegmentSize h)" "plain_elem (khCluster h)"
    "kh_archive impl ctx files h (served (khNet h)) (netFs (khNet h))" "\<forall>rs \<in> set (served (khNet h)). \<exists>p. uploads lm h p rs"
    using good by (auto simp: kh_good_def)
  have up: "uploads lm h p (concat batches)" using good g put(1) t(1) by (auto simp: kh_good_def)
  have ne: "inflight (khNet h) \<noteq> []" using g(3) cur(2) by auto
  have "hd (inflight (khNet h)) \<in> set (concat batches)" using hd_in_set [OF ne] put(1) t(1) by simp
  then have start: "reqWalStartLsn (hd (inflight (khNet h))) = p" using up unfolding uploads_def by blast
  have "kh_archive impl ctx files h (served (khNet h) @ [concat batches]) (phFs ph)"
    by (rule archive_step [OF laws]) (use put(2) t(1) up in auto)
  moreover have "uploads lm h' q rs = uploads lm h q rs" "kh_archive impl ctx files h' srv s = kh_archive impl ctx files h srv s" for q rs srv s
    by (simp_all add: h' uploads_def kh_archive_def)
  ultimately show ?thesis using good put t(1) up start ne g unfolding kh_good_def
    by (auto simp: h' kh_cur_def kh_stored_def)
qed

interpretation klio: wal_handler "klio_handler lm N" "kh_good cfg lm N impl ctx files inflight served netFs" "kh_cur inflight" "kh_stored served"
  for cfg lm N impl ctx files inflight served netFs
proof unfold_locales
  fix h :: "'a KlioClientTimelineHandler" and p c b n h'
  assume good: "kh_good cfg lm N impl ctx files inflight served netFs h"
  show "HasWALFileOpened (klio_handler lm N) h = (kh_cur inflight h \<noteq> None)"
    using good by (simp add: klio_handler_def kh_HasWALFileOpened_def kh_good_def kh_cur_def)
  show "kh_good cfg lm N impl ctx files inflight served netFs h' \<and> kh_cur inflight h' = Some (p, []) \<and> kh_stored served h' = kh_stored served h"
    if "kh_cur inflight h = None" "OpenWAL (klio_handler lm N) p h = (None, h')"
    using kh_open_ok [OF good] that by (simp add: klio_handler_def)
  show "kh_good cfg lm N impl ctx files inflight served netFs h' \<and> kh_cur inflight h' = Some (p, c @ b) \<and> kh_stored served h' = kh_stored served h"
    if "kh_cur inflight h = Some (p, c)" "WriteWAL (klio_handler lm N) b h = ((n, None), h')"
    using kh_write_ok [OF good] that by (simp add: klio_handler_def)
  show "kh_good cfg lm N impl ctx files inflight served netFs h' \<and> kh_cur inflight h' = None \<and> kh_stored served h' = kh_stored served h @ [(p, c)]"
    if "kh_cur inflight h = Some (p, c)" "c \<noteq> []" "CloseWAL (klio_handler lm N) h = (None, h')"
    using kh_close_ok [OF good] that by (simp add: klio_handler_def)
qed

section \<open>The repository's own server behind a lossless transport\<close>

record ('fs, 'n) wire =
  wireFs :: 'fs
  wireQueue :: "'n manager"
  wireSent :: "PutRequest list"
  wireServed :: "PutRequest list list"

definition server_net :: "('fs, 'n) Implementation \<Rightarrow> call_context \<Rightarrow> ('fs, 'n) wire grpc_net" where
  "server_net impl ctx =
     \<lparr>net_Put = (\<lambda>n. (None, n\<lparr>wireSent := []\<rparr>)),
      net_Send = (\<lambda>r n. (None, n\<lparr>wireSent := wireSent n @ [r]\<rparr>)),
      net_CloseSend = (\<lambda>n. (None, n)),
      net_Results = (\<lambda>n. ([], case Put impl ctx (map (\<lambda>r. [r]) (wireSent n)) None (wireFs n) (wireQueue n) of
         (None, h) \<Rightarrow> EOF | (Some e, h) \<Rightarrow> Sentinel ''rpc error'')),
      net_Ended = (\<lambda>n. False),
      net_End = (\<lambda>n. case Put impl ctx (map (\<lambda>r. [r]) (wireSent n)) None (wireFs n) (wireQueue n) of
         (e, h) \<Rightarrow> n\<lparr>wireFs := phFs h, wireQueue := phQueue h, wireServed := wireServed n @ [wireSent n]\<rparr>)\<rparr>"

lemma server_net_transport: "put_transport (server_net impl ctx) impl ctx wireSent wireServed wireFs"
proof -
  have flat: "concat (map (\<lambda>r. [r]) xs) = xs" for xs :: "PutRequest list" by (induction xs) auto
  have "\<exists>batches q h. concat batches = wireSent n \<and>
      Put impl ctx batches None (wireFs n) q = (None, h) \<and> wireFs (net_End (server_net impl ctx) n) = phFs h"
    if "errors_Is (snd (net_Results (server_net impl ctx) n)) EOF" for n
  proof -
    obtain e h where put: "Put impl ctx (map (\<lambda>r. [r]) (wireSent n)) None (wireFs n) (wireQueue n) = (e, h)" by force
    with that have "e = None" by (cases e) (simp_all add: server_net_def)
    with put flat show ?thesis
      by (intro exI [of _ "map (\<lambda>r. [r]) (wireSent n)"] exI [of _ "wireQueue n"] exI [of _ h]) (simp_all add: server_net_def)
  qed
  moreover have "wireServed (net_End (server_net impl ctx) n) = wireServed n @ [wireSent n]" for n
    by (simp add: server_net_def split: prod.splits)
  ultimately show ?thesis
    by (simp add: put_transport_def) (auto simp: server_net_def)
qed

section \<open>A concrete session\<close>

definition sender_lsn :: lsn_math where
  "sender_lsn = \<lparr>LSNStartFromWALName = (\<lambda>w n. Inr w), LSNParse = (\<lambda>l. Inr 0),
     WALFileNameAt = (\<lambda>p tli n. if p = 0 then Inr ''00000001000000000000000A'' else Inl EOF)\<rparr>"

definition sender_messages :: pglogrepl where
  "sender_messages = \<lparr>PrimaryKeepaliveMessageByteID = 107, XLogDataByteID = 119,
     ParsePrimaryKeepaliveMessage = (\<lambda>b. Inr False), ParseXLogData = (\<lambda>b. Inr (0, b))\<rparr>"

definition sender_wire :: "(memfs, mem_nats) wire" where
  "sender_wire = \<lparr>wireFs = [], wireQueue = example_queue, wireSent = [], wireServed = []\<rparr>"

definition sender_start :: "(memfs, mem_nats) wire KlioClientTimelineHandler" where
  "sender_start = new_KlioClientTimelineHandler 1 3 ''pg'' True sender_wire"

definition sender_pg :: "unit pg_api" where
  "sender_pg = \<lparr>pgConnect = (\<lambda>pg. (None, pg)), pgSegmentSize = (\<lambda>pg. Inr [[[''3'']]]),
     pgIdentifySystem = (\<lambda>pg. Inr \<lparr>SystemID = ''id'', Timeline = 1, XLogPos = 0\<rparr>), pgReadSlot = (\<lambda>s pg. Inr [[[[], [], []]]]),
     pgCreateSlot = (\<lambda>s pg. (None, pg)), pgDropSlot = (\<lambda>s pg. (None, pg)), pgTimelineHistory = (\<lambda>t pg. Inl EOF),
     pgStartReplication = (\<lambda>s p t pg. (None, pg)), pgStream = (\<lambda>pg. [[CopyData [119, 1, 2, 3]]]),
     pgCopyDone = (\<lambda>pg. (Inr (1, 3), pg)), pgParseLSN = (\<lambda>l. Inr 0)\<rparr>"

lemma sender_names: "wal_name_laws sender_lsn 1 3"
  by (auto simp: wal_name_laws_def sender_lsn_def is_hex_def is_dec_def split: if_splits)

lemma sender_put:
  "\<exists>h. Put example_impl example_ctx [[example_request [1, 2, 3]]] None [] example_queue = (None, h)"
  by (simp add: Put_def put_defs writer_defs mem_defs example_paths WriteBlock_loop.simps)

lemma sender_session:
  "\<exists>d h. receive_loop sender_messages (klio_handler sender_lsn (server_net example_impl example_ctx))
     [[CopyData [107]], [CopyData [119, 1, 2, 3]]] (new_Data 1 3) sender_start = Some (ReceiveFailed, d, h) \<and>
     CloseCurrentWAL (klio_handler sender_lsn (server_net example_impl example_ctx)) d h = (None, d, h)"
proof -
  obtain h where "Put example_impl example_ctx [[example_request [1, 2, 3]]] None [] example_queue = (None, h)"
    using sender_put by blast
  then have put: "Put example_impl example_ctx [[\<lparr>reqClusterName = ''pg'', reqWalName = ''00000001000000000000000A'', reqSegmentSize = 3,
     reqWalStartLsn = 0, reqSendToTier2 = True, reqWalBlock = [1, 2, 3]\<rparr>]] None [] example_queue = (None, h)"
    by (simp only: example_request_def)
  show ?thesis
    by (simp add: sender_messages_def klio_handler_def sender_start_def new_KlioClientTimelineHandler_def new_Data_def
      bd_Flush_def kh_HasWALFileOpened_def ProcessWALData_def process_loop.simps openWALPos_def kh_OpenWAL_def sender_lsn_def
      StoreWALStreaming_def server_net_def sender_wire_def writeToWALFile_def CloseCurrentWAL_def kh_Write_def
      write_chunks.simps maxWriteChunkBytes_def SendBlock_def ackedErr_def block_request_def kh_CloseWAL_def gs_Close_def
      feedbackReader_def put)
qed

section \<open>Lemmas: where the segments are\<close>

lemma cut_segments_length: "0 < m \<Longrightarrow> (p, b) \<in> set (cut_segments P m got) \<Longrightarrow> length b = m"
proof -
  assume m: "0 < m" and "(p, b) \<in> set (cut_segments P m got)"
  then obtain i where i: "i < length got div m" "b = take m (drop (i * m) got)" by (auto simp: cut_segments_def)
  have "Suc i * m \<le> length got" using i(1) by (metis Suc_leI div_times_less_eq_dividend le_trans mult_le_mono1)
  with i(2) show "length b = m" by simp
qed

lemma segment_positions:
  assumes m: "0 < m" "m < 2 ^ 63" "m dvd unat P" and room: "unat P + length got < 2 ^ 64"
  defines "xs \<equiv> cut_segments P m got @ (if length got mod m = 0 then [] else [(P + of_nat (length got div m * m), cut_rest m got)])"
  shows "distinct (map fst xs)" and "x \<in> set xs \<Longrightarrow> fst x mod of_nat m = 0"
proof -
  define k where "k = (if length got mod m = 0 then length got div m else Suc (length got div m))"
  have pos: "map fst xs = map (\<lambda>i. P + of_nat (i * m)) [0..<k]"
    by (simp add: xs_def k_def cut_segments_def comp_def)
  have below: "unat P + i * m < 2 ^ 64" if "i < k" for i
  proof -
    have "i \<le> length got div m" using that by (auto simp: k_def split: if_splits)
    then have "i * m \<le> length got" by (metis div_times_less_eq_dividend le_trans mult_le_mono1)
    with room show ?thesis by simp
  qed
  have "inj_on (\<lambda>i. P + of_nat (i * m)) {0..<k}"
  proof (rule inj_onI)
    fix i j assume ij: "i \<in> {0..<k}" "j \<in> {0..<k}" "P + of_nat (i * m) = (P + of_nat (j * m) :: uint64)"
    then have "(of_nat (i * m) :: uint64) = of_nat (j * m)" by simp
    then have "i * m = j * m" using word_nat_eq [of "i * m" "j * m"] below [of i] below [of j] ij(1,2) by simp
    with m(1) show "i = j" by simp
  qed
  then show "distinct (map fst xs)" unfolding pos by (simp add: distinct_map)
  assume "x \<in> set xs"
  then obtain i where "i < k" "fst x = P + of_nat (i * m)" using pos by (metis (mono_tags, lifting) atLeastLessThan_iff image_iff list.set_map set_upt)
  with position_mod [OF m(3), of "i * m"] below [of i] m(2) show "fst x mod of_nat m = 0" by simp
qed

lemma new_handler_good:
  assumes "put_transport N impl ctx inflight served netFs" "wal_name_laws lm tli seg" "fs_laws (connFs (implConn impl)) files"
    "plain_elem cluster" "served net = []"
  shows "kh_good (cluster, tli, seg) lm N impl ctx files inflight served netFs (new_KlioClientTimelineHandler tli seg cluster relayed net)"
  using assms by (simp add: kh_good_def new_KlioClientTimelineHandler_def kh_archive_def)

text \<open>Every whole segment that a good handler stored can be read back from the server.\<close>

lemma kh_stored_get:
  assumes good: "kh_good cfg lm N impl ctx files inflight served netFs h" and codec: "codec_laws (connCodec (implConn impl)) (masterKey (implConn impl))"
    and st: "(p, b) \<in> set (kh_stored served h)" "of_nat (length b) = khSegmentSize h"
    and pos: "distinct (map fst (kh_stored served h))" "\<forall>x \<in> set (kh_stored served h). fst x mod khSegmentSize h = 0"
  shows "\<exists>name ds. WALFileNameAt lm p (khTli h) (khSegmentSize h) = Inr name \<and>
    getWAL impl ctx (\<lambda>_. None) \<lparr>getClusterName = khCluster h, getWalName = name\<rparr> (netFs (khNet h)) =
      (None, map (\<lambda>d. (d, khSegmentSize h)) ds @ [([], khSegmentSize h)]) \<and> concat ds = b"
proof -
  let ?f = "\<lambda>rs. (reqWalStartLsn (hd rs), block_bytes rs)"
  obtain rs where rs: "rs \<in> set (served (khNet h))" "rs \<noteq> []" "p = reqWalStartLsn (hd rs)" "b = block_bytes rs"
    using st(1) by (auto simp: kh_stored_def)
  then obtain xs ys where sp: "served (khNet h) = xs @ rs # ys" by (meson split_list)
  have ups: "\<exists>q. uploads lm h q rs'" if "rs' \<in> set (served (khNet h))" for rs' using good that by (simp add: kh_good_def)
  have named: "WALFileNameAt lm (reqWalStartLsn (hd rs')) (khTli h) (khSegmentSize h) = Inr (reqWalName (hd rs')) \<and>
      reqClusterName (hd rs') = khCluster h \<and> reqSegmentSize (hd rs') = khSegmentSize h"
    if "rs' \<in> set (served (khNet h))" "rs' \<noteq> []" for rs'
    using ups [OF that(1)] hd_in_set [OF that(2)] by (auto simp: uploads_def)
  have other: "reqWalName (hd rs') \<noteq> reqWalName (hd rs)" if "rs' \<in> set ys" "rs' \<noteq> []" for rs'
  proof
    assume eq: "reqWalName (hd rs') = reqWalName (hd rs)"
    have in': "rs' \<in> set (served (khNet h))" using that(1) sp by simp
    have al: "reqWalStartLsn (hd rs') mod khSegmentSize h = 0" "reqWalStartLsn (hd rs) mod khSegmentSize h = 0"
      using pos(2) in' that(2) rs(1,2) by (auto simp: kh_stored_def)
    have "wal_name_laws lm (khTli h) (khSegmentSize h)" using good by (simp add: kh_good_def)
    with al eq named [OF in' that(2)] named [OF rs(1,2)] have "reqWalStartLsn (hd rs') = reqWalStartLsn (hd rs)"
      unfolding wal_name_laws_def by metis
    moreover have "reqWalStartLsn (hd rs) \<notin> fst ` ?f ` set (filter (\<lambda>rs. rs \<noteq> []) ys)"
      using pos(1) rs(2) by (simp add: kh_stored_def sp image_image comp_def)
    ultimately show False using that by (auto simp: image_iff)
  qed
  have fs: "fs_laws (connFs (implConn impl)) files" using good by (simp add: kh_good_def)
  have "wal_archived impl ctx files (netFs (khNet h)) rs"
    using good sp rs(2,4) st(2) other by (auto simp: kh_good_def kh_archive_def)
  then obtain ds bs where v: "validateRequest impl ctx (hd rs) = None" and ds: "concat ds = b" "wraps (implConn impl) ds bs"
    and f: "files (netFs (khNet h)) (getWALArchivePath (reqClusterName (hd rs)) (reqWalName (hd rs))) =
      Some (MarshalHeader (connCodec (implConn impl)) 1 (reqSegmentSize (hd rs)) @ chunk_bytes (connCodec (implConn impl)) bs)"
    using rs(4) by (auto simp: wal_archived_def)
  from stored_wal_get [OF fs codec ds(2) v f] named [OF rs(1,2)] ds(1) rs(3) show ?thesis by auto
qed

text \<open>A whole session, seen from the archive.\<close>

lemma session_archived:
  assumes "fs_laws (connFs (implConn impl)) files" and "codec_laws (connCodec (implConn impl)) (masterKey (implConn impl))"
    and "put_transport N impl ctx inflight served netFs" and "served net = []"
    and "wal_name_laws lm tli (of_nat m)" and "plain_elem cluster"
    and "0 < m" and "m < 2 ^ 63" and "m dvd unat P"
    and "contiguous P (stream_data L (concat batches))"
    and "unat P + length (wal_bytes (stream_data L (concat batches))) < 2 ^ 64"
    and "\<forall>(p, b) \<in> set (stream_data L (concat batches)). length b < 2 ^ 63"
    and "receive_loop L (klio_handler lm N) batches (new_Data tli (of_nat m))
           (new_KlioClientTimelineHandler tli (of_nat m) cluster relayed net) = Some (exit, d1, h1)"
    and "exit \<in> {ReceiveFailed, StreamEnded}" and "CloseCurrentWAL (klio_handler lm N) d1 h1 = (None, d2, h2)"
    and "(p, b) \<in> set (cut_segments P m (wal_bytes (stream_data L (concat batches))))"
  shows "\<exists>name ds. WALFileNameAt lm p tli (of_nat m) = Inr name \<and>
    getWAL impl ctx (\<lambda>_. None) \<lparr>getClusterName = cluster, getWalName = name\<rparr> (netFs (khNet h2)) =
      (None, map (\<lambda>d. (d, of_nat m)) ds @ [([], of_nat m)]) \<and> concat ds = b"
proof -
  let ?got = "wal_bytes (stream_data L (concat batches))"
  let ?h = "new_KlioClientTimelineHandler tli (of_nat m) cluster relayed net"
  let ?rest = "if length ?got mod m = 0 then [] else [(P + of_nat (length ?got div m * m), cut_rest m ?got)]"
  have start: "kh_good (cluster, tli, of_nat m) lm N impl ctx files inflight served netFs ?h" "kh_cur inflight ?h = None"
    using new_handler_good [OF assms(3,5,1,6,4)] by (simp_all add: kh_cur_def new_KlioClientTimelineHandler_def)
  from klio.session_stored [OF assms(7-9) start refl assms(10-15)]
  have good: "kh_good (cluster, tli, of_nat m) lm N impl ctx files inflight served netFs h2"
    and st: "kh_stored served h2 = cut_segments P m ?got @ ?rest"
    using assms(4) by (simp_all add: kh_stored_def new_KlioClientTimelineHandler_def)
  have cfg: "khCluster h2 = cluster" "khTli h2 = tli" "khSegmentSize h2 = of_nat m" using good by (auto simp: kh_good_def)
  have len: "length b = m" using assms(16) by (rule cut_segments_length [OF assms(7)])
  from kh_stored_get [OF good assms(2), of p b] show ?thesis
    unfolding cfg st using assms(16) len segment_positions [OF assms(7-9,11)] by auto
qed

section \<open>Properties\<close>

text \<open>
  C4: the WAL stream of PostgreSQL ends up in the archive.  When PostgreSQL sends WAL without gaps from
  the start of a segment, and a session of the sender took all messages and closed its last WAL without
  an error, then every whole segment of the bytes received is on the server: its name is the one of its
  position, and a Get returns exactly its bytes, however PostgreSQL cut the stream into messages and the
  messages were batched.
\<close>

theorem streamed_wal_is_archived:
  assumes "fs_laws (connFs (implConn impl)) files" and "codec_laws (connCodec (implConn impl)) (masterKey (implConn impl))"
    and "put_transport N impl ctx inflight served netFs" and "served net = []"
    and "wal_name_laws lm tli (of_nat m)" and "plain_elem cluster"
    and "0 < m" and "m < 2 ^ 63" and "m dvd unat P"
    and "contiguous P (stream_data L (concat batches))"
    and "unat P + length (wal_bytes (stream_data L (concat batches))) < 2 ^ 64"
    and "\<forall>(p, b) \<in> set (stream_data L (concat batches)). length b < 2 ^ 63"
    and "receive_loop L (klio_handler lm N) batches (new_Data tli (of_nat m))
           (new_KlioClientTimelineHandler tli (of_nat m) cluster relayed net) = Some (exit, d1, h1)"
    and "exit \<in> {ReceiveFailed, StreamEnded}" and "CloseCurrentWAL (klio_handler lm N) d1 h1 = (None, d2, h2)"
    and "(p, b) \<in> set (cut_segments P m (wal_bytes (stream_data L (concat batches))))"
  shows "\<exists>name ds. WALFileNameAt lm p tli (of_nat m) = Inr name \<and>
    getWAL impl ctx (\<lambda>_. None) \<lparr>getClusterName = cluster, getWalName = name\<rparr> (netFs (khNet h2)) =
      (None, map (\<lambda>d. (d, of_nat m)) ds @ [([], of_nat m)]) \<and> concat ds = b"
  using assms by (rule session_archived)

theorem streamed_wal_is_archived_witness:
  "\<exists>d h ds. receive_loop sender_messages (klio_handler sender_lsn (server_net example_impl example_ctx))
       [[CopyData [107]], [CopyData [119, 1, 2, 3]]] (new_Data 1 3) sender_start = Some (ReceiveFailed, d, h) \<and>
     getWAL example_impl example_ctx (\<lambda>_. None) \<lparr>getClusterName = ''pg'', getWalName = ''00000001000000000000000A''\<rparr> (wireFs (khNet h)) =
       (None, map (\<lambda>d. (d, 3)) ds @ [([], 3)]) \<and> concat ds = [1, 2, 3]"
proof -
  let ?batches = "[[CopyData [107]], [CopyData [119, 1, 2, 3]]] :: BackendMessage list list"
  have data: "stream_data sender_messages (concat ?batches) = [(0, [1, 2, 3])]" by (simp add: sender_messages_def)
  obtain d h where run: "receive_loop sender_messages (klio_handler sender_lsn (server_net example_impl example_ctx))
       ?batches (new_Data 1 3) sender_start = Some (ReceiveFailed, d, h)"
    and cl: "CloseCurrentWAL (klio_handler sender_lsn (server_net example_impl example_ctx)) d h = (None, d, h)"
    using sender_session by blast
  have plain: "plain_elem ''pg''" by code_simp
  from streamed_wal_is_archived [where impl = example_impl and files = mem_files and N = "server_net example_impl example_ctx" and ctx = example_ctx
      and net = sender_wire and m = 3 and P = 0 and L = sender_messages and batches = ?batches and lm = sender_lsn and tli = 1
      and cluster = "''pg''" and ?h1.0 = h and ?d1.0 = d and relayed = True and p = 0 and b = "[1, 2, 3]",
      OF _ _ server_net_transport _ _ plain _ _ _ _ _ _ _ _ cl] run sender_names
  show ?thesis
    unfolding data by (auto simp: sender_wire_def sender_start_def cut_segments_def sender_lsn_def)
qed

text \<open>
  C28: a session of the sender always comes to an end.  Although the loop of ProcessWALData has no bound
  of its own, for every WAL stream without gaps from the start of a segment, and whatever the transport
  and PostgreSQL answer, manageWALStream returns once ReceiveAvailable has failed or the stream has
  ended.
\<close>

theorem wal_session_returns:
  assumes "fs_laws (connFs (implConn impl)) files" and "put_transport N impl ctx inflight served netFs" and "served net = []"
    and "wal_name_laws lm tli (of_nat m)" and "plain_elem cluster"
    and "0 < m" and "m < 2 ^ 63" and "m dvd unat P"
    and "contiguous P (stream_data L (concat (pgStream Q pg)))"
    and "unat P + length (wal_bytes (stream_data L (concat (pgStream Q pg)))) < 2 ^ 64"
    and "\<forall>(p, b) \<in> set (stream_data L (concat (pgStream Q pg))). length b < 2 ^ 63"
  shows "\<exists>result. manageWALStream L Q (klio_handler lm N) (new_Data tli (of_nat m))
           (new_KlioClientTimelineHandler tli (of_nat m) cluster relayed net) pg = Some result"
proof -
  let ?h = "new_KlioClientTimelineHandler tli (of_nat m) cluster relayed net"
  let ?d = "new_Data tli (of_nat m)"
  have "kh_good (cluster, tli, of_nat m) lm N impl ctx files inflight served netFs ?h" "kh_cur inflight ?h = None"
    using new_handler_good [OF assms(2,4,1,5,3)] by (simp_all add: kh_cur_def new_KlioClientTimelineHandler_def)
  from klio.session_returns [OF assms(6-8) this assms(9-11)] obtain exit d1 h1 where
    run: "receive_loop L (klio_handler lm N) (pgStream Q pg) ?d ?h = Some (exit, d1, h1)" by (metis surj_pair)
  show ?thesis
    by (cases exit) (simp_all add: manageWALStream_def run split: prod.splits option.splits sum.splits)
qed

theorem wal_session_returns_witness:
  "\<exists>result. manageWALStream sender_messages sender_pg (klio_handler sender_lsn (server_net example_impl example_ctx)) (new_Data 1 3)
     (new_KlioClientTimelineHandler 1 3 ''pg'' True sender_wire) () = Some result"
proof -
  have data: "stream_data sender_messages (concat (pgStream sender_pg ())) = [(0, [1, 2, 3])]" by (simp add: sender_messages_def sender_pg_def)
  have plain: "plain_elem ''pg''" by code_simp
  from wal_session_returns [where impl = example_impl and files = mem_files and N = "server_net example_impl example_ctx" and ctx = example_ctx
      and net = sender_wire and m = 3 and P = 0 and L = sender_messages and Q = sender_pg and pg = "()" and lm = sender_lsn and tli = 1
      and cluster = "''pg''" and relayed = True, OF _ server_net_transport _ _ plain] sender_names
  show ?thesis unfolding data by (simp add: sender_wire_def)
qed

text \<open>
  C29: the computed start of a segment.  For a segment size that is a power of two, getStartWALLSN gives the
  position where the segment of the flush position starts: a multiple of the size, not after the flush
  position and less than one segment before it, also at the very end of the 64-bit space.
\<close>

theorem start_lsn_is_segment_start:
  assumes "n < 64"
  shows "2 ^ n dvd unat (getStartWALLSN pos (2 ^ n)) \<and> unat (getStartWALLSN pos (2 ^ n)) \<le> unat pos \<and>
         unat pos < unat (getStartWALLSN pos (2 ^ n)) + 2 ^ n"
proof -
  have "getStartWALLSN pos (2 ^ n) = pos AND NOT (mask n)" by (simp add: getStartWALLSN_def mask_eq_exp_minus_1)
  also have "\<dots> = push_bit n (drop_bit n pos)" by (rule bit_eqI) (auto simp: bit_simps)
  finally have eq: "getStartWALLSN pos (2 ^ n) = push_bit n (drop_bit n pos)" .
  have "unat (push_bit n (drop_bit n pos)) = push_bit n (drop_bit n (unat pos))"
    by (rule bit_eqI) (auto simp: bit_simps dest: bit_imp_le_length)
  then have "unat (getStartWALLSN pos (2 ^ n)) = unat pos div 2 ^ n * 2 ^ n"
    unfolding eq by (simp add: push_bit_eq_mult drop_bit_eq_div)
  moreover have "unat pos < unat pos div 2 ^ n * 2 ^ n + 2 ^ n"
    by (metis add.commute add_less_cancel_left div_mult_mod_eq mod_less_divisor zero_less_numeral zero_less_power)
  ultimately show ?thesis by (simp add: div_times_less_eq_dividend)
qed

theorem start_lsn_is_segment_start_witness:
  "unat (getStartWALLSN 5 (2 ^ 2)) \<le> 5 \<and> 5 < unat (getStartWALLSN 5 (2 ^ 2)) + 4"
  using start_lsn_is_segment_start [of 2 5] by simp

text \<open>
  A WAL that cannot be opened takes the sender down.  OpenWAL stores the name of the WAL before it
  opens the stream, so when opening fails the WAL counts as open without a stream; the session then
  closes it and dereferences a nil pointer instead of returning the error.
\<close>

lemma failed_open_panics:
  assumes "WALFileNameAt lm p tli seg = Inr name" and "name \<noteq> ''''" and "net_Put N net = (Some e, net')"
    and "seg \<noteq> 0" and "p mod seg = 0" and "data \<noteq> []" and "length data < 2 ^ 64"
    and "pgStream Q pg = (CopyData (XLogDataByteID L # body) # messages) # batches"
    and "XLogDataByteID L \<noteq> PrimaryKeepaliveMessageByteID L" and "ParseXLogData L body = Inr (p, data)"
  shows "\<exists>d h. manageWALStream L Q (klio_handler lm N) (new_Data tli seg)
           (new_KlioClientTimelineHandler tli seg cluster relayed net) pg = Some (Inl (Panic ''nil pointer dereference''), d, h, pg)"
proof -
  have nz: "(of_nat (length data) :: uint64) \<noteq> 0" using word_nat_zero [OF assms(7)] assms(6) by simp
  let ?h = "new_KlioClientTimelineHandler tli seg cluster relayed net"
  let ?h1 = "?h\<lparr>currentWALFile := name, feedbackChannel := [\<lparr>FlushLSN = p, WriteLSN = p, ReplayLSN = p\<rparr>], khNet := net'\<rparr>"
  let ?e = "Wrap ''while starting WAL file streaming'' (Wrap ''while starting uploading a WAL file'' e)"
  have "openWALPos (klio_handler lm N) p (new_Data tli seg) ?h = (Some ?e, new_Data tli seg, ?h1)"
    using assms(1-3) by (simp add: openWALPos_def klio_handler_def kh_OpenWAL_def StoreWALStreaming_def new_KlioClientTimelineHandler_def)
  then have "process_loop (klio_handler lm N) data 0 (of_nat (length data)) p 0 (new_Data tli seg) ?h = Some (Some ?e, new_Data tli seg, ?h1)"
    by (intro process_loop_open_error nz) (simp add: klio_handler_def kh_HasWALFileOpened_def new_KlioClientTimelineHandler_def)
  then have "ProcessWALData (klio_handler lm N) data p (new_Data tli seg) ?h = Some (Some ?e, new_Data tli seg, ?h1)"
    using assms(4,5) by (simp add: ProcessWALData_def klio_handler_def kh_HasWALFileOpened_def new_KlioClientTimelineHandler_def new_Data_def)
  moreover have "CloseCurrentWAL (klio_handler lm N) (new_Data tli seg) ?h1 = (Some (Panic ''nil pointer dereference''), new_Data tli seg, ?h1)"
    using assms(2) by (simp add: CloseCurrentWAL_def bd_Flush_def klio_handler_def kh_HasWALFileOpened_def kh_CloseWAL_def wrapf_def
      new_KlioClientTimelineHandler_def new_Data_def)
  ultimately show ?thesis
    using assms(8-10) by (simp add: manageWALStream_def break_with_def wrapf_def)
qed

end
