(* ===== verification/Wal_Restore.thy ===== *)
theory Wal_Restore
  imports Send_Wal
begin

text \<open>
  Restoring WALs beside PostgreSQL: the download of a WAL
  (core/internal/client/klioclient/grpcclient/waldownloader.go), the prefetcher that keeps the next WALs
  in a spool directory (core/internal/cnpgi/prefetcher.go), and the plugin call that chooses the
  repository and the tier (core/internal/cnpgi/wal.go).

  The file system of the node is a record of the type \<open>afero\<close>, which has the operations of package os with
  the same contract.  What a server sends for a WAL is the argument \<open>srv\<close>, one per call, so that it may
  change from call to call.  A download in the background is a step of its own between two requests.
  Timeouts and cancellation are the error of a download or the flag \<open>cancelled\<close>; logging and metrics are
  not modelled.
\<close>

section \<open>core/internal/client/klioclient: errors.go and grpcclient/waldownloader.go\<close>

definition ErrMissingWALFile :: go_error where "ErrMissingWALFile = Sentinel ''non existing WAL file''"

text \<open>status.Code(err) == codes.NotFound.\<close>

fun is_NotFound :: "go_error \<Rightarrow> bool" where
  "is_NotFound (Status c m) \<longleftrightarrow> c = NotFound"
| "is_NotFound (Wrap m e) \<longleftrightarrow> is_NotFound e"
| "is_NotFound _ \<longleftrightarrow> False"

text \<open>The answer to a Get: an error, or the messages of the stream and the error that ends it.\<close>

type_synonym get_stream = "go_error + GetResult list \<times> go_error"

fun recv_blocks ::
  "'fs afero \<Rightarrow> string \<Rightarrow> go_error \<Rightarrow> GetResult list \<Rightarrow> nat \<Rightarrow> nat \<Rightarrow> 'fs \<Rightarrow> (go_error + nat \<times> nat) \<times> 'fs" where
  "recv_blocks A out fin [] expectedSize received s =
     (if errors_Is fin EOF then (Inr (expectedSize, received), s)
      else if is_NotFound fin then (Inl ErrMissingWALFile, s)
      else if received > 0 then (Inl (Wrap ''incomplete WAL file received'' fin), s)
      else (Inl (Wrap ''while receiving a WAL file block'' fin), s))"
| "recv_blocks A out fin ((block, segSize) # results) expectedSize received s =
     (if expectedSize = 0 \<and> 2 ^ 63 \<le> unat segSize then (Inl (Sentinel ''while converting segment size''), s)
      else case FWrite A out block s of
        (Some e, s') \<Rightarrow> (Inl (Wrap ''while writing WAL file'' e), s')
      | (None, s') \<Rightarrow> recv_blocks A out fin results (if expectedSize = 0 then unat segSize else expectedSize)
                         (received + length block) s')"

definition zeroBlockSize :: nat where "zeroBlockSize = 1024 * 1024"

function padWithZeros :: "'fs afero \<Rightarrow> string \<Rightarrow> nat \<Rightarrow> nat \<Rightarrow> 'fs \<Rightarrow> go_error option \<times> 'fs" where
  "padWithZeros A out zeroBytesToWrite totalWritten s =
     (if \<not> totalWritten < zeroBytesToWrite then (None, s)
      else let toWrite = min zeroBlockSize (zeroBytesToWrite - totalWritten) in
        case FWrite A out (replicate toWrite 0) s of
          (Some e, s') \<Rightarrow> (Some (Wrap ''while padding WAL file'' e), s')
        | (None, s') \<Rightarrow> padWithZeros A out zeroBytesToWrite (totalWritten + toWrite) s')"
  by pat_completeness auto
termination
  by (relation "measure (\<lambda>(A, out, z, t, s). z - t)") (auto simp: zeroBlockSize_def)

declare padWithZeros.simps [simp del]

definition GetWALStreaming :: "'fs afero \<Rightarrow> get_stream \<Rightarrow> string \<Rightarrow> string \<Rightarrow> 'fs \<Rightarrow> go_error option \<times> 'fs" where
  "GetWALStreaming A stream walName out s =
     (case stream of
        Inl e \<Rightarrow> (Some (if is_NotFound e then ErrMissingWALFile else Wrap ''while starting downloading a WAL file'' e), s)
      | Inr (results, fin) \<Rightarrow>
          (case recv_blocks A out fin results 0 0 s of
             (Inl e, s1) \<Rightarrow> (Some e, s1)
           | (Inr (expectedSize, received), s1) \<Rightarrow>
               if HasSuffix walName ''.partial'' \<and> expectedSize > received
               then padWithZeros A out (expectedSize - received) 0 s1
               else (None, s1)))"

section \<open>core/internal/cnpgi/prefetcher.go\<close>

definition errWALNotFound :: go_error where "errWALNotFound = Sentinel ''wal not found''"

definition defaultPrefetchCount :: nat where "defaultPrefetchCount = 2"
definition maxWALBytesPerLog :: nat where "maxWALBytesPerLog = 0x100000000"

datatype walState = walStateDownloading | walStateReady | walStateFailed

record walEntry =
  weState :: walState
  spoolPath :: string
  weErr :: "go_error option"
  isPrefetch :: bool

definition isReadyPrefetch :: "walEntry \<Rightarrow> bool" where
  "isReadyPrefetch e \<longleftrightarrow> isPrefetch e \<and> weState e = walStateReady"

record walPrefetcher =
  pfEntries :: "string \<rightharpoonup> walEntry"
  spoolDir :: string
  prefetchCount :: nat
  pfSegmentSize :: nat
  segmentsPerLog :: nat

definition newWALPrefetcher :: "string \<Rightarrow> int \<Rightarrow> walPrefetcher" where
  "newWALPrefetcher dir n =
     \<lparr>pfEntries = Map.empty, spoolDir = dir, prefetchCount = (if n \<le> 0 then defaultPrefetchCount else nat n),
      pfSegmentSize = 0, segmentsPerLog = 0\<rparr>"

definition canHavePartial :: "string \<Rightarrow> bool" where
  "canHavePartial walName \<longleftrightarrow> path_Ext walName = ''''"

definition isCompleteWALName :: "string \<Rightarrow> bool" where
  "isCompleteWALName name \<longleftrightarrow> length name = 24"

definition downloadWALToFile ::
  "'fs afero \<Rightarrow> (string \<Rightarrow> get_stream) \<Rightarrow> string \<Rightarrow> string \<Rightarrow> 'fs \<Rightarrow> go_error option \<times> 'fs" where
  "downloadWALToFile A srv walName destPath s =
     (case OpenTrunc A destPath s of
        (Some e, s1) \<Rightarrow> (Some (Wrap ''opening file'' e), s1)
      | (None, s1) \<Rightarrow>
          (case GetWALStreaming A (srv walName) walName destPath s1 of
             (err, s2) \<Rightarrow>
               (case FClose A destPath s2 of
                  (closeErr, s3) \<Rightarrow>
                    (case err of
                       Some e \<Rightarrow>
                         (Some (if errors_Is e ErrMissingWALFile then errWALNotFound else Wrap ''downloading WAL'' e),
                          snd (FRemove A destPath s3))
                     | None \<Rightarrow>
                         (case closeErr of
                            Some e \<Rightarrow> (Some (Wrap ''closing file'' e), snd (FRemove A destPath s3))
                          | None \<Rightarrow> (None, s3))))))"

definition downloadDirect ::
  "'fs afero \<Rightarrow> (string \<Rightarrow> get_stream) \<Rightarrow> string \<Rightarrow> string \<Rightarrow> 'fs \<Rightarrow> go_error option \<times> 'fs" where
  "downloadDirect A srv walName targetPath s = downloadWALToFile A srv walName targetPath s"

definition getPartialWAL ::
  "'fs afero \<Rightarrow> (string \<Rightarrow> get_stream) \<Rightarrow> string \<Rightarrow> string \<Rightarrow> 'fs \<Rightarrow> go_error option \<times> 'fs" where
  "getPartialWAL A srv walName targetPath s = downloadWALToFile A srv (walName @ ''.partial'') targetPath s"

definition startDirectDownloadLocked :: "string \<Rightarrow> walPrefetcher \<Rightarrow> walEntry \<times> walPrefetcher" where
  "startDirectDownloadLocked walName p =
     (let entry = \<lparr>weState = walStateDownloading, spoolPath = path_Join [spoolDir p, walName], weErr = None, isPrefetch = False\<rparr>
      in (entry, p\<lparr>pfEntries := (pfEntries p)(walName \<mapsto> entry)\<rparr>))"

definition startPrefetchDownloadLocked :: "string \<Rightarrow> walPrefetcher \<Rightarrow> walPrefetcher" where
  "startPrefetchDownloadLocked walName p =
     (let entry = \<lparr>weState = walStateDownloading, spoolPath = path_Join [spoolDir p, walName], weErr = None, isPrefetch = True\<rparr>
      in p\<lparr>pfEntries := (pfEntries p)(walName \<mapsto> entry)\<rparr>)"

text \<open>The size of a regular file is the number of its bytes.\<close>

definition learnSegmentSize :: "'fs afero \<Rightarrow> string \<Rightarrow> 'fs \<Rightarrow> walPrefetcher \<Rightarrow> walPrefetcher" where
  "learnSegmentSize A path s p =
     (case OpenRead A path s of
        Inl e \<Rightarrow> p
      | Inr content \<Rightarrow>
          if length content = 0 then p
          else if pfSegmentSize p = 0
          then p\<lparr>pfSegmentSize := length content, segmentsPerLog := maxWALBytesPerLog div length content\<rparr>
          else p)"

definition downloadToSpool ::
  "'fs afero \<Rightarrow> (string \<Rightarrow> get_stream) \<Rightarrow> string \<Rightarrow> walEntry \<Rightarrow> walPrefetcher \<Rightarrow> 'fs \<Rightarrow> walEntry \<times> walPrefetcher \<times> 'fs" where
  "downloadToSpool A srv walName entry p s =
     (case downloadWALToFile A srv walName (spoolPath entry) s of
        (Some e, s1) \<Rightarrow>
          let entry' = entry\<lparr>weErr := Some e, weState := walStateFailed\<rparr>
          in (entry', p\<lparr>pfEntries := (pfEntries p)(walName \<mapsto> entry')\<rparr>, s1)
      | (None, s1) \<Rightarrow>
          let p1 = (if isCompleteWALName walName then learnSegmentSize A (spoolPath entry) s1 p else p);
              entry' = entry\<lparr>weState := walStateReady\<rparr>
          in (entry', p1\<lparr>pfEntries := (pfEntries p1)(walName \<mapsto> entry')\<rparr>, s1))"

definition cleanupEntry :: "string \<Rightarrow> walPrefetcher \<Rightarrow> walPrefetcher" where
  "cleanupEntry walName p = p\<lparr>pfEntries := (pfEntries p)(walName := None)\<rparr>"

text \<open>
  \<open>cancelled\<close> tells that the wait ended with the context of the request.  Waiting for a download that
  runs is the step that finishes it.
\<close>

definition getCompleteWAL ::
  "'fs afero \<Rightarrow> (string \<Rightarrow> get_stream) \<Rightarrow> bool \<Rightarrow> string \<Rightarrow> string \<Rightarrow> walPrefetcher \<Rightarrow> 'fs \<Rightarrow> (go_error + bool) \<times> walPrefetcher \<times> 'fs" where
  "getCompleteWAL A srv cancelled walName targetPath p s =
     (let found = (case pfEntries p walName of
                     Some e \<Rightarrow> if weState e = walStateFailed then None else Some e
                   | None \<Rightarrow> None);
          prefetchHit = (case found of Some e \<Rightarrow> isReadyPrefetch e | None \<Rightarrow> False);
          (entry, p1) = (case found of Some e \<Rightarrow> (e, p) | None \<Rightarrow> startDirectDownloadLocked walName p)
      in if cancelled then (Inl Canceled, p1, s)
         else case (if weState entry = walStateDownloading then downloadToSpool A srv walName entry p1 s else (entry, p1, s)) of
           (entry2, p2, s2) \<Rightarrow>
             (case weErr entry2 of
                Some e \<Rightarrow> (Inl e, p2, s2)
              | None \<Rightarrow>
                  (case FRename A (spoolPath entry2) targetPath s2 of
                     (Some e, s3) \<Rightarrow>
                       (case downloadDirect A srv walName targetPath (snd (FRemove A (spoolPath entry2) s3)) of
                          (Some e, s4) \<Rightarrow> (Inl e, cleanupEntry walName p2, s4)
                        | (None, s4) \<Rightarrow> (Inr False, cleanupEntry walName p2, s4))
                   | (None, s3) \<Rightarrow> (Inr prefetchHit, cleanupEntry walName p2, s3))))"

text \<open>strconv.ParseUint in base sixteen, and the verb %08X.\<close>

definition hex_value :: "char \<Rightarrow> nat" where
  "hex_value c = (let n = of_char c in if n \<le> 57 then n - 48 else if n \<le> 70 then n - 55 else n - 87)"

fun parse_hex_loop :: "nat \<Rightarrow> string \<Rightarrow> nat \<Rightarrow> go_error + nat" where
  "parse_hex_loop bits [] n = Inr n"
| "parse_hex_loop bits (c # cs) n =
     (if \<not> is_hex c then Inl ErrSyntax
      else if 2 ^ bits \<le> n * 16 + hex_value c then Inl ErrRange
      else parse_hex_loop bits cs (n * 16 + hex_value c))"

definition ParseHex32 :: "string \<Rightarrow> go_error + nat" where
  "ParseHex32 s = (if s = [] then Inl ErrSyntax else parse_hex_loop 32 s 0)"

definition hex_char :: "nat \<Rightarrow> char" where
  "hex_char n = char_of (if n < 10 then 48 + n else 55 + n)"

fun hex_upper :: "nat \<Rightarrow> string" where
  "hex_upper n = (if n < 16 then [hex_char n] else hex_upper (n div 16) @ [hex_char (n mod 16)])"

declare hex_upper.simps [simp del]

definition fmt08X :: "nat \<Rightarrow> string" where
  "fmt08X n = replicate (8 - length (hex_upper n)) (CHR ''0'') @ hex_upper n"

definition nextWALNameLocked :: "nat \<Rightarrow> string \<Rightarrow> go_error + string" where
  "nextWALNameLocked perLog walName =
     (if length walName \<noteq> 24 then Inl (Sentinel ''invalid WAL name length'')
      else case ParseHex32 (take 8 walName) of
        Inl e \<Rightarrow> Inl (Wrap ''parsing timeline'' e)
      | Inr timeline \<Rightarrow>
          (case ParseHex32 (take 8 (drop 8 walName)) of
             Inl e \<Rightarrow> Inl (Wrap ''parsing log number'' e)
           | Inr logNum \<Rightarrow>
               (case ParseHex32 (take 8 (drop 16 walName)) of
                  Inl e \<Rightarrow> Inl (Wrap ''parsing segment number'' e)
                | Inr segNum \<Rightarrow>
                    let (logNum', segNum') = (if segNum + 1 \<ge> perLog then (logNum + 1, 0) else (logNum, segNum + 1))
                    in Inr (fmt08X timeline @ fmt08X logNum' @ fmt08X segNum'))))"

fun prefetch_loop :: "nat \<Rightarrow> string \<Rightarrow> walPrefetcher \<Rightarrow> walPrefetcher" where
  "prefetch_loop 0 walName p = p"
| "prefetch_loop (Suc n) walName p =
     (case nextWALNameLocked (segmentsPerLog p) walName of
        Inl e \<Rightarrow> p
      | Inr next \<Rightarrow>
          prefetch_loop n next (if pfEntries p next = None then startPrefetchDownloadLocked next p else p))"

definition triggerPrefetch :: "string \<Rightarrow> walPrefetcher \<Rightarrow> walPrefetcher" where
  "triggerPrefetch currentWAL p =
     (if segmentsPerLog p = 0 then p else prefetch_loop (prefetchCount p) currentWAL p)"

definition pf_Request ::
  "'fs afero \<Rightarrow> (string \<Rightarrow> get_stream) \<Rightarrow> bool \<Rightarrow> string \<Rightarrow> string \<Rightarrow> walPrefetcher \<Rightarrow> 'fs \<Rightarrow> (go_error + bool) \<times> walPrefetcher \<times> 'fs" where
  "pf_Request A srv cancelled walName targetPath p s =
     (case getCompleteWAL A srv cancelled walName targetPath p s of
        (Inr cacheHit, p1, s1) \<Rightarrow>
          (Inr cacheHit, if pfSegmentSize p1 > 0 then triggerPrefetch walName p1 else p1, s1)
      | (Inl err, p1, s1) \<Rightarrow>
          if \<not> errors_Is err errWALNotFound then (Inl err, p1, s1)
          else if \<not> canHavePartial walName then (Inl err, p1, s1)
          else (case getPartialWAL A srv walName targetPath s1 of
                  (Some e, s2) \<Rightarrow> (Inl e, p1, s2)
                | (None, s2) \<Rightarrow> (Inr False, p1, s2)))"

text \<open>
  The life of a prefetcher: a running download finishes, or PostgreSQL asks for a WAL.  PostgreSQL asks
  for one WAL at a time, by its bare name, and never into the spool.  \<open>honest\<close> tells which answers the server gives.
\<close>

definition spool_path :: "walPrefetcher \<Rightarrow> string \<Rightarrow> bool" where
  "spool_path p path \<longleftrightarrow> (\<exists>n. plain_elem n \<and> path = path_Join [spoolDir p, n])"

inductive pf_step ::
  "'fs afero \<Rightarrow> ((string \<Rightarrow> get_stream) \<Rightarrow> bool) \<Rightarrow> walPrefetcher \<times> 'fs \<Rightarrow> walPrefetcher \<times> 'fs \<Rightarrow> bool" for A honest where
  finish: "honest srv \<Longrightarrow> pfEntries p n = Some e \<Longrightarrow> weState e = walStateDownloading \<Longrightarrow>
    downloadToSpool A srv n e p s = (e', p', s') \<Longrightarrow> pf_step A honest (p, s) (p', s')"
| request: "honest srv \<Longrightarrow> plain_elem n \<Longrightarrow> \<not> HasSuffix n ''.partial'' \<Longrightarrow> \<not> spool_path p target \<Longrightarrow>
    pf_Request A srv cancelled n target p s = (r, p', s') \<Longrightarrow> pf_step A honest (p, s) (p', s')"

section \<open>core/internal/cnpgi/wal.go: the repository of a cluster\<close>

definition KlioConfigDir :: string where "KlioConfigDir = ''/var/lib/postgresql/klio''"
definition ArchiveConfigKey :: string where "ArchiveConfigKey = ''klio-archive''"

text \<open>The parts of a cluster resource that are read; IsReplica is a method of the CloudNativePG module.\<close>

record replica_cluster =
  PromotionToken :: string
  rcSource :: string

record cluster_resource =
  clName :: string
  ReplicaCluster :: "replica_cluster option"
  LastPromotionToken :: string
  CurrentPrimary :: string
  IsReplica :: bool
  BootstrapRecoverySource :: "string option option"

definition backupRepositoryConfigPath :: string where
  "backupRepositoryConfigPath = path_Join [KlioConfigDir, ArchiveConfigKey]"

definition getSourceRepositoryConfigPath :: "cluster_resource \<Rightarrow> go_error + string" where
  "getSourceRepositoryConfigPath cl =
     (case ReplicaCluster cl of
        None \<Rightarrow> Inl (Sentinel ''not a replica cluster'')
      | Some rc \<Rightarrow> Inr (path_Clean (path_Join [KlioConfigDir, rcSource rc])))"

definition getBootstrapRepositoryConfigPath :: "cluster_resource \<Rightarrow> go_error + string" where
  "getBootstrapRepositoryConfigPath cl =
     (case BootstrapRecoverySource cl of
        None \<Rightarrow> Inl (Sentinel ''no bootstrap configured'')
      | Some None \<Rightarrow> Inl (Sentinel ''no bootstrap recovery configured'')
      | Some (Some source) \<Rightarrow>
          if source = '''' then Inl (Sentinel ''no bootstrap recovery source configured'')
          else Inr (path_Clean (path_Join [KlioConfigDir, source])))"

definition getWalRepositoryConfigurationPath :: "cluster_resource \<Rightarrow> string \<Rightarrow> go_error + string" where
  "getWalRepositoryConfigurationPath cl instanceName =
     (let promotionToken = (case ReplicaCluster cl of None \<Rightarrow> '''' | Some rc \<Rightarrow> PromotionToken rc) in
      if promotionToken \<noteq> '''' \<and> LastPromotionToken cl \<noteq> promotionToken then getSourceRepositoryConfigPath cl
      else if IsReplica cl \<and> CurrentPrimary cl = instanceName then getSourceRepositoryConfigPath cl
      else if CurrentPrimary cl = '''' then getBootstrapRepositoryConfigPath cl
      else Inr backupRepositoryConfigPath)"

section \<open>core/internal/cnpgi/wal.go: tiers and clients\<close>

datatype tier = tier1 | tier2

definition tier_name :: "tier \<Rightarrow> string" where
  "tier_name t = (case t of tier1 \<Rightarrow> ''tier1'' | tier2 \<Rightarrow> ''tier2'')"

record wal_config =
  WalAddress :: string
  WalTier2Address :: string
  Tier2RecoveryEnabled :: bool
  WALPrefetchCount :: int

definition availableTiers :: "wal_config \<Rightarrow> tier list" where
  "availableTiers cfg =
     (if WalAddress cfg \<noteq> '''' then [tier1] else []) @
     (if Tier2RecoveryEnabled cfg \<and> WalTier2Address cfg \<noteq> '''' then [tier2] else [])"

record walRestoreOptions =
  configFile :: string
  targetTier :: tier

text \<open>
  What the plugin sees of the node: its file system, with RemoveAll, the configuration files, the
  connections, the PGDATA variable, and the first digits of a SHA-256 sum.
\<close>

record 'fs node =
  nodeFs :: "'fs afero"
  nodeRemoveAll :: "string \<Rightarrow> 'fs \<Rightarrow> go_error option \<times> 'fs"
  nodeConfig :: "string \<Rightarrow> go_error + wal_config"
  nodeConnect :: "string \<Rightarrow> go_error option"
  nodePGDATA :: string
  nodeSha :: "string \<Rightarrow> string"

definition spoolSubdir :: "'fs node \<Rightarrow> walRestoreOptions \<Rightarrow> string" where
  "spoolSubdir nd opts =
     tier_name (targetTier opts) @ ''-'' @ path_Base (configFile opts) @ ''-'' @ nodeSha nd (configFile opts)"

fun remove_entries :: "'fs node \<Rightarrow> string \<Rightarrow> (string \<times> bool) list \<Rightarrow> 'fs \<Rightarrow> go_error option \<times> 'fs" where
  "remove_entries nd dir [] s = (None, s)"
| "remove_entries nd dir ((name, isDir) # entries) s =
     (case nodeRemoveAll nd (path_Join [dir, name]) s of
        (Some e, s') \<Rightarrow> (Some (Wrap ''removing'' e), s')
      | (None, s') \<Rightarrow> remove_entries nd dir entries s')"

definition cleanupSpoolDir :: "'fs node \<Rightarrow> string \<Rightarrow> 'fs \<Rightarrow> go_error option \<times> 'fs" where
  "cleanupSpoolDir nd dir s =
     (case ReadDir (nodeFs nd) dir s of
        Inl e \<Rightarrow> if errors_Is e ErrNotExist then (None, s) else (Some (Wrap ''reading spool directory'' e), s)
      | Inr entries \<Rightarrow> remove_entries nd dir entries s)"

definition setupSpoolDir :: "'fs node \<Rightarrow> walRestoreOptions \<Rightarrow> 'fs \<Rightarrow> (go_error + string) \<times> 'fs" where
  "setupSpoolDir nd opts s =
     (if nodePGDATA nd = '''' then (Inl (Sentinel ''PGDATA environment variable is not set''), s)
      else let dir = path_Join [path_Join [nodePGDATA nd, ''pg_wal'', ''.klio-spool''], spoolSubdir nd opts] in
        case MkdirAll (nodeFs nd) dir s of
          (Some e, s1) \<Rightarrow> (Inl (Wrap ''creating spool directory'' e), s1)
        | (None, s1) \<Rightarrow> (Inr dir, snd (cleanupSpoolDir nd dir s1)))"

type_synonym grpcClientManager = "walRestoreOptions \<rightharpoonup> walPrefetcher"

definition getClient ::
  "'fs node \<Rightarrow> walRestoreOptions \<Rightarrow> grpcClientManager \<Rightarrow> 'fs \<Rightarrow> (go_error + walPrefetcher) \<times> grpcClientManager \<times> 'fs" where
  "getClient nd opts clients s =
     (case clients opts of
        Some c \<Rightarrow> (Inr c, clients, s)
      | None \<Rightarrow>
          (case nodeConfig nd (configFile opts) of
             Inl e \<Rightarrow> (Inl (Wrap ''while loading configuration from file'' e), clients, s)
           | Inr cfg \<Rightarrow>
               let address = (case targetTier opts of tier1 \<Rightarrow> WalAddress cfg | tier2 \<Rightarrow> WalTier2Address cfg) in
               if address = '''' then (Inl (Sentinel ''missing address for tier''), clients, s)
               else (case nodeConnect nd address of
                       Some e \<Rightarrow> (Inl (Wrap ''while connecting to the Klio server'' e), clients, s)
                     | None \<Rightarrow>
                         (case setupSpoolDir nd opts s of
                            (Inl e, s1) \<Rightarrow> (Inl (Wrap ''while setting up spool directory'' e), clients, s1)
                          | (Inr dir, s1) \<Rightarrow>
                              let c = newWALPrefetcher dir (WALPrefetchCount cfg) in (Inr c, clients(opts \<mapsto> c), s1)))))"

text \<open>The prefetcher is a pointer: what a request changes of it, the manager has too.\<close>

definition mgr_restoreWAL ::
  "'fs node \<Rightarrow> (tier \<Rightarrow> string \<Rightarrow> get_stream) \<Rightarrow> bool \<Rightarrow> walRestoreOptions \<Rightarrow> string \<Rightarrow> string \<Rightarrow> grpcClientManager \<Rightarrow> 'fs \<Rightarrow>
   (go_error + bool) \<times> grpcClientManager \<times> 'fs" where
  "mgr_restoreWAL nd srvs cancelled opts walName targetFileName clients s =
     (case getClient nd opts clients s of
        (Inl e, clients1, s1) \<Rightarrow> (Inl e, clients1, s1)
      | (Inr c, clients1, s1) \<Rightarrow>
          (case pf_Request (nodeFs nd) (srvs (targetTier opts)) cancelled walName targetFileName c s1 of
             (r, c', s2) \<Rightarrow> (r, clients1(opts \<mapsto> c'), s2)))"

record walService =
  currentTier :: tier
  wsClients :: grpcClientManager

text \<open>The tiers in the order they are tried, and the loop over them.\<close>

definition tier_order :: "tier \<Rightarrow> tier list \<Rightarrow> tier list" where
  "tier_order current tiers = (case tiers of [a, b] \<Rightarrow> if a \<noteq> current then [b, a] else [a, b] | _ \<Rightarrow> tiers)"

fun tier_loop ::
  "'fs node \<Rightarrow> (tier \<Rightarrow> string \<Rightarrow> get_stream) \<Rightarrow> bool \<Rightarrow> string \<Rightarrow> string \<Rightarrow> string \<Rightarrow> tier list \<Rightarrow> walService \<Rightarrow> 'fs \<Rightarrow>
   (go_error + tier \<times> bool) \<times> walService \<times> 'fs" where
  "tier_loop nd srvs cancelled walName destinationPath configPath [] w s = (Inl errWALNotFound, w, s)"
| "tier_loop nd srvs cancelled walName destinationPath configPath (t # tiers) w s =
     (case mgr_restoreWAL nd srvs cancelled \<lparr>configFile = configPath, targetTier = t\<rparr> walName destinationPath (wsClients w) s of
        (Inr cacheHit, clients, s1) \<Rightarrow> (Inr (t, cacheHit), w\<lparr>wsClients := clients, currentTier := t\<rparr>, s1)
      | (Inl e, clients, s1) \<Rightarrow>
          if \<not> errors_Is e errWALNotFound then (Inl e, w\<lparr>wsClients := clients\<rparr>, s1)
          else tier_loop nd srvs cancelled walName destinationPath configPath tiers (w\<lparr>wsClients := clients\<rparr>) s1)"

definition ws_restoreWAL ::
  "'fs node \<Rightarrow> (tier \<Rightarrow> string \<Rightarrow> get_stream) \<Rightarrow> bool \<Rightarrow> string \<Rightarrow> string \<Rightarrow> string \<Rightarrow> walService \<Rightarrow> 'fs \<Rightarrow>
   (go_error + tier \<times> bool) \<times> walService \<times> 'fs" where
  "ws_restoreWAL nd srvs cancelled walName destinationPath configPath w s =
     (case nodeConfig nd configPath of
        Inl e \<Rightarrow> (Inl (Wrap ''while loading configuration from file'' e), w, s)
      | Inr cfg \<Rightarrow>
          if availableTiers cfg = [] then (Inl (Sentinel ''no WAL tier configured''), w, s)
          else tier_loop nd srvs cancelled walName destinationPath configPath
                 (tier_order (currentTier w) (availableTiers cfg)) w s)"

datatype restore_outcome = OutcomeSuccess | OutcomeNotFound | OutcomeFailure

definition restoreResult :: "go_error option \<Rightarrow> restore_outcome" where
  "restoreResult err = (case err of None \<Rightarrow> OutcomeSuccess
     | Some e \<Rightarrow> if errors_Is e errWALNotFound then OutcomeNotFound else OutcomeFailure)"

record WALRestoreRequest =
  SourceWalName :: string
  DestinationFileName :: string
  ClusterDefinition :: "go_error + cluster_resource"

definition ws_Restore ::
  "'fs node \<Rightarrow> (tier \<Rightarrow> string \<Rightarrow> get_stream) \<Rightarrow> bool \<Rightarrow> string option \<Rightarrow> WALRestoreRequest \<Rightarrow> walService \<Rightarrow> 'fs \<Rightarrow>
   go_error option \<times> walService \<times> 'fs" where
  "ws_Restore nd srvs cancelled podName request w s =
     (if SourceWalName request = '''' \<or> DestinationFileName request = ''''
      then (Some (Sentinel ''source WAL name and destination file name must be provided''), w, s)
      else case ClusterDefinition request of
        Inl e \<Rightarrow> (Some (Wrap ''failed to unmarshal cluster definition'' e), w, s)
      | Inr cl \<Rightarrow>
          (case podName of
             None \<Rightarrow> (Some (Sentinel ''POD_NAME environment variable is not set''), w, s)
           | Some pod \<Rightarrow>
               (case getWalRepositoryConfigurationPath cl pod of
                  Inl e \<Rightarrow> (Some (Wrap ''failed to get WAL repository'' e), w, s)
                | Inr confPath \<Rightarrow>
                    if confPath = '''' then (Some (Sentinel ''no WAL repository found for the cluster''), w, s)
                    else (case ws_restoreWAL nd srvs cancelled (SourceWalName request) (DestinationFileName request) confPath w s of
                            (r, w1, s1) \<Rightarrow>
                              (let err = (case r of Inl e \<Rightarrow> Some e | Inr _ \<Rightarrow> None) in
                               if restoreResult err = OutcomeNotFound
                               then (Some (Status NotFound ''WAL file not found''), w1, s1)
                               else (err, w1, s1))))))"

section \<open>Lemmas: names in the spool\<close>

lemma split_on_sep: "split_on c (d @ c # n) = split_on c d @ split_on c n"
  by (induction d) (auto split: list.splits)

lemma path_Join_base:
  assumes "plain_elem n"
  shows "path_Base (path_Join [d, n]) = n"
proof (cases "d = ''''")
  case True
  then show ?thesis using assms path_Join_plain [of "[n]"] by (simp add: path_Join_def path_Base_plain plain_elem_def)
next
  case False
  define body where "body r = join_with ''/'' (rev (foldl (clean_step r) [] (split_on (CHR ''/'') d)) @ [n])" for r
  have n: "n \<noteq> ''''" "n \<noteq> ''.''" "n \<noteq> ''..''" using assms by (auto simp: plain_elem_def)
  have "split_on (CHR ''/'') (d @ CHR ''/'' # n) = split_on (CHR ''/'') d @ [n]"
    using split_on_sep [of "CHR ''/''" d n] plain_elem_split [OF assms] by simp
  then have fold: "join_with ''/'' (rev (foldl (clean_step r) [] (split_on (CHR ''/'') (d @ CHR ''/'' # n)))) = body r" for r
    using n by (simp add: body_def)
  have body: "body r = n \<or> (\<exists>x. body r = x @ CHR ''/'' # n)" for r
    unfolding body_def by (cases "rev (foldl (clean_step r) [] (split_on (CHR ''/'') d)) = []") (auto simp: join_with_snoc)
  then have ne: "body r \<noteq> ''''" for r using n(1) by (metis append_is_Nil_conv list.discI)
  have "path_Join [d, n] = path_Clean (d @ CHR ''/'' # n)" using False n by (simp add: path_Join_def)
  also have "\<dots> = (if hd d = CHR ''/'' then CHR ''/'' # body True else body False)"
    using False ne by (simp add: path_Clean_def Let_def fold)
  finally have join: "path_Join [d, n] = (if hd d = CHR ''/'' then CHR ''/'' # body True else body False)" .
  have "path_Base (CHR ''/'' # body r) = n" for r
    using body [of r] path_Base_slash [OF assms, of "''''"] path_Base_slash [OF assms, of "CHR ''/'' # _"] by auto
  moreover have "path_Base (body r) = n" for r
    using body [of r] path_Base_slash [OF assms] path_Base_plain [OF assms] by auto
  ultimately show ?thesis by (simp add: join)
qed

lemma spool_path_inj: "plain_elem n \<Longrightarrow> plain_elem n' \<Longrightarrow> path_Join [d, n] = path_Join [d, n'] \<Longrightarrow> n = n'"
  by (metis path_Join_base)

section \<open>Lemmas: downloads\<close>

fun expected_size :: "nat \<Rightarrow> GetResult list \<Rightarrow> nat" where
  "expected_size n [] = n"
| "expected_size n ((b, sz) # rs) = expected_size (if n = 0 then unat sz else n) rs"

text \<open>What a stream of a WAL gives: its blocks, and for a partial WAL the zeros up to its size.\<close>

definition stream_content :: "string \<Rightarrow> GetResult list \<Rightarrow> bytes" where
  "stream_content n rs = concat (map fst rs) @
     (if HasSuffix n ''.partial'' then replicate (expected_size 0 rs - length (concat (map fst rs))) 0 else [])"

lemma recv_blocks_step:
  assumes "fs_laws A files" and "recv_blocks A out fin rs ex rc s = (r, s')"
  shows "fs_frame files {out} s s'"
    and "r = Inr (ex', rc') \<Longrightarrow> files s out = Some old \<Longrightarrow> errors_Is fin EOF \<and> ex' = expected_size ex rs \<and>
      rc' = rc + length (concat (map fst rs)) \<and> files s' out = Some (old @ concat (map fst rs))"
proof -
  have "fs_frame files {out} s s' \<and> (\<forall>ex' rc' old. r = Inr (ex', rc') \<longrightarrow> files s out = Some old \<longrightarrow> errors_Is fin EOF \<and>
      ex' = expected_size ex rs \<and> rc' = rc + length (concat (map fst rs)) \<and> files s' out = Some (old @ concat (map fst rs)))"
    using assms(2)
  proof (induction rs arbitrary: ex rc s)
    case (Cons x rs)
    obtain b sz where x: "x = (b, sz)" by force
    obtain e s1 where w: "FWrite A out b s = (e, s1)" by force
    note f1 = fs_lawsD(4) [OF assms(1) w]
    consider "s' = s" "isl r" | "s' = s1" "isl r"
      | "e = None" "recv_blocks A out fin rs (if ex = 0 then unat sz else ex) (rc + length b) s1 = (r, s')"
      using Cons.prems w by (auto simp: x split: if_splits option.splits)
    then show ?case
    proof cases
      case 3
      note ih = Cons.IH [OF 3(2)]
      have "files s1 out = Some (old @ b)" if "files s out = Some old" for old
        using fs_lawsD(5) [OF assms(1)] w 3(1) that by blast
      with ih f1 show ?thesis by (auto simp: x intro: fs_frame_trans)
    qed (use f1 in auto)
  qed (auto split: if_splits)
  then show "fs_frame files {out} s s'" and "r = Inr (ex', rc') \<Longrightarrow> files s out = Some old \<Longrightarrow> errors_Is fin EOF \<and>
      ex' = expected_size ex rs \<and> rc' = rc + length (concat (map fst rs)) \<and> files s' out = Some (old @ concat (map fst rs))"
    by auto
qed

lemma padWithZeros_step:
  assumes "fs_laws A files" and "padWithZeros A out z t s = (r, s')"
  shows "fs_frame files {out} s s'" and "r = None \<Longrightarrow> files s out = Some old \<Longrightarrow> files s' out = Some (old @ replicate (z - t) 0)"
proof -
  have "fs_frame files {out} s s' \<and> (\<forall>old. r = None \<longrightarrow> files s out = Some old \<longrightarrow> files s' out = Some (old @ replicate (z - t) 0))"
    using assms(2)
  proof (induction "z - t" arbitrary: t s rule: less_induct)
    case less
    show ?case
    proof (cases "t < z")
      case False
      with less.prems show ?thesis by (simp add: padWithZeros.simps [of A out z t])
    next
      case True
      define n where "n = min zeroBlockSize (z - t)"
      have n: "0 < n" "n \<le> z - t" using True by (auto simp: n_def zeroBlockSize_def)
      obtain e s1 where w: "FWrite A out (replicate n 0) s = (e, s1)" by force
      note f1 = fs_lawsD(4) [OF assms(1) w]
      have run: "(case e of Some x \<Rightarrow> (Some (Wrap ''while padding WAL file'' x), s1) | None \<Rightarrow> padWithZeros A out z (t + n) s1) = (r, s')"
        using less.prems True w by (simp add: padWithZeros.simps [of A out z t] n_def [symmetric] Let_def split: option.splits)
      show ?thesis
      proof (cases e)
        case (Some x)
        with run f1 show ?thesis by auto
      next
        case None
        then have "padWithZeros A out z (t + n) s1 = (r, s')" using run by simp
        note ih = less.hyps [OF _ this]
        have old: "files s1 out = Some (old @ replicate n 0)" if "files s out = Some old" for old
          using fs_lawsD(5) [OF assms(1)] w None that by blast
        have "replicate n 0 @ replicate (z - (t + n)) 0 = (replicate (z - t) 0 :: bytes)"
          using n by (metis add.commute diff_diff_add le_add_diff_inverse2 replicate_add)
        with ih n old f1 show ?thesis by (auto intro: fs_frame_trans)
      qed
    qed
  qed
  then show "fs_frame files {out} s s'" and "r = None \<Longrightarrow> files s out = Some old \<Longrightarrow> files s' out = Some (old @ replicate (z - t) 0)"
    by auto
qed

lemma GetWALStreaming_step:
  assumes "fs_laws A files" and "GetWALStreaming A stream n out s = (r, s')"
  shows "fs_frame files {out} s s'"
    and "r = None \<Longrightarrow> files s out = Some old \<Longrightarrow>
      \<exists>rs fin. stream = Inr (rs, fin) \<and> errors_Is fin EOF \<and> files s' out = Some (old @ stream_content n rs)"
proof -
  have "fs_frame files {out} s s' \<and> (r = None \<longrightarrow> files s out = Some old \<longrightarrow>
      (\<exists>rs fin. stream = Inr (rs, fin) \<and> errors_Is fin EOF \<and> files s' out = Some (old @ stream_content n rs)))"
  proof (cases stream)
    case (Inl e)
    with assms(2) show ?thesis by (auto simp: GetWALStreaming_def)
  next
    case (Inr x)
    obtain rs fin where x: "x = (rs, fin)" by force
    obtain rr s1 where run: "recv_blocks A out fin rs 0 0 s = (rr, s1)" by force
    note st = recv_blocks_step [OF assms(1) run]
    show ?thesis
    proof (cases rr)
      case (Inl e)
      with st(1) run assms(2) Inr x show ?thesis by (auto simp: GetWALStreaming_def)
    next
      case rr: (Inr y)
      obtain ex rc where y: "y = (ex, rc)" by force
      show ?thesis
      proof (cases "HasSuffix n ''.partial'' \<and> ex > rc")
        case False
        then have "s' = s1" "r = None" using assms(2) Inr x run rr y by (auto simp: GetWALStreaming_def)
        with st rr y False Inr x show ?thesis by (auto simp: stream_content_def)
      next
        case True
        then have p: "padWithZeros A out (ex - rc) 0 s1 = (r, s')" using assms(2) Inr x run rr y by (simp add: GetWALStreaming_def)
        note pd = padWithZeros_step [OF assms(1) p]
        from pd st rr y True Inr x show ?thesis by (auto simp: stream_content_def intro: fs_frame_trans)
      qed
    qed
  qed
  then show "fs_frame files {out} s s'" and "r = None \<Longrightarrow> files s out = Some old \<Longrightarrow>
      \<exists>rs fin. stream = Inr (rs, fin) \<and> errors_Is fin EOF \<and> files s' out = Some (old @ stream_content n rs)" by auto
qed

lemma downloadWALToFile_step:
  assumes "fs_laws A files" and "downloadWALToFile A srv n dest s = (r, s')"
  shows "fs_frame files {dest} s s'"
    and "r = None \<Longrightarrow> \<exists>rs fin. srv n = Inr (rs, fin) \<and> errors_Is fin EOF \<and> files s' dest = Some (stream_content n rs)"
proof -
  obtain e1 s1 where 1: "OpenTrunc A dest s = (e1, s1)" by force
  obtain e2 s2 where 2: "GetWALStreaming A (srv n) n dest s1 = (e2, s2)" by force
  obtain e3 s3 where 3: "FClose A dest s2 = (e3, s3)" by force
  obtain e4 s4 where 4: "FRemove A dest s3 = (e4, s4)" by force
  note f = fs_lawsD(2) [OF assms(1) 1] GetWALStreaming_step(1) [OF assms(1) 2]
    fs_frame_mono [OF fs_lawsD(7) [OF assms(1) 3], of "{dest}"] fs_lawsD(10) [OF assms(1) 4]
  have s': "s' = (if e1 \<noteq> None then s1 else if e2 \<noteq> None \<or> e3 \<noteq> None then s4 else s3)"
    and r: "r = None \<longleftrightarrow> e1 = None \<and> e2 = None \<and> e3 = None"
    using assms(2) 1 2 3 4 by (auto simp: downloadWALToFile_def split: option.splits)
  from f s' show "fs_frame files {dest} s s'" by (auto intro: fs_frame_trans)
  assume "r = None"
  then have ok: "e1 = None" "e2 = None" "s' = s3" using r s' by auto
  have "files s1 dest = Some []" using fs_lawsD(3) [OF assms(1)] 1 ok(1) by blast
  from GetWALStreaming_step(2) [OF assms(1) 2 ok(2) this] fs_lawsD(7) [OF assms(1) 3] ok(3)
  show "\<exists>rs fin. srv n = Inr (rs, fin) \<and> errors_Is fin EOF \<and> files s' dest = Some (stream_content n rs)"
    by (auto simp: fs_frame_def)
qed

section \<open>Lemmas: the names of the WALs that are prefetched\<close>

lemma hex_char_hex: "n < 16 \<Longrightarrow> is_hex (hex_char n)"
  by (auto simp: hex_char_def is_hex_def is_dec_def)

lemma hex_upper_hex: "list_all is_hex (hex_upper n)"
proof (induction n rule: hex_upper.induct)
  case (1 n)
  then show ?case by (subst hex_upper.simps) (simp add: hex_char_hex)
qed

lemma fmt08X_hex: "list_all is_hex (fmt08X n)"
proof -
  have "is_hex (CHR ''0'')" by (simp add: is_hex_def is_dec_def)
  then show ?thesis using hex_upper_hex [of n] by (auto simp: fmt08X_def list_all_iff)
qed

lemma hex_name_plain:
  assumes "list_all is_hex n" "n \<noteq> ''''"
  shows "plain_elem n" and "\<not> HasSuffix n ''.partial''"
  using assms hex_chars [OF assms(1)] by (auto simp: plain_elem_def HasSuffix_iff)

lemma fmt08X_nonempty: "fmt08X n \<noteq> ''''"
  by (subst fmt08X_def, subst hex_upper.simps) simp

lemma nextWALName_plain:
  assumes "nextWALNameLocked k w = Inr next"
  shows "plain_elem next \<and> \<not> HasSuffix next ''.partial''"
proof -
  obtain a b c where "next = fmt08X a @ fmt08X b @ fmt08X c"
    using assms by (auto simp: nextWALNameLocked_def Let_def split: if_splits sum.splits)
  then have "list_all is_hex next" "next \<noteq> ''''" using fmt08X_hex fmt08X_nonempty by auto
  then show ?thesis using hex_name_plain by blast
qed

section \<open>Lemmas: the prefetcher\<close>

text \<open>The server never sends anything but the content of a complete WAL, as far as a stream ends well.\<close>

definition honest :: "(string \<Rightarrow> bytes) \<Rightarrow> (string \<Rightarrow> get_stream) \<Rightarrow> bool" where
  "honest content srv \<longleftrightarrow> (\<forall>n rs fin. \<not> HasSuffix n ''.partial'' \<longrightarrow> srv n = Inr (rs, fin) \<longrightarrow> errors_Is fin EOF \<longrightarrow>
     concat (map fst rs) = content n)"

definition entry_ok where
  "entry_ok files content p s n e \<longleftrightarrow> plain_elem n \<and> \<not> HasSuffix n ''.partial'' \<and> spoolPath e = path_Join [spoolDir p, n] \<and>
     (weErr e = None \<longleftrightarrow> weState e \<noteq> walStateFailed) \<and>
     (weState e = walStateReady \<longrightarrow> files s (path_Join [spoolDir p, n]) = Some (content n))"

definition pf_inv where
  "pf_inv files content p s \<longleftrightarrow> (\<forall>n e. pfEntries p n = Some e \<longrightarrow> entry_ok files content p s n e)"

lemma download_honest:
  assumes "fs_laws A files" "honest content srv" "\<not> HasSuffix n ''.partial''" "downloadWALToFile A srv n dest s = (None, s')"
  shows "files s' dest = Some (content n)"
  using downloadWALToFile_step(2) [OF assms(1,4) refl] assms(2,3) by (auto simp: honest_def stream_content_def)

lemma learnSegmentSize_keeps [simp]:
  "pfEntries (learnSegmentSize A path s p) = pfEntries p" "spoolDir (learnSegmentSize A path s p) = spoolDir p"
  by (simp_all add: learnSegmentSize_def split: sum.splits)

lemma downloadToSpool_inv:
  assumes laws: "fs_laws A files" and hon: "honest content srv" and inv: "pf_inv files content p s"
    and e: "pfEntries p n = Some e" "weState e = walStateDownloading" and run: "downloadToSpool A srv n e p s = (e', p', s')"
  shows "pf_inv files content p' s'" and "pfEntries p' n = Some e'" and "spoolPath e' = path_Join [spoolDir p, n]" "spoolDir p' = spoolDir p"
    and "fs_frame files {path_Join [spoolDir p, n]} s s'" and "weState e' \<noteq> walStateDownloading"
    and "m \<noteq> n \<Longrightarrow> pfEntries p' m = pfEntries p m"
proof -
  have ok: "entry_ok files content p s n e" using inv e(1) by (simp add: pf_inv_def)
  obtain r s1 where d: "downloadWALToFile A srv n (spoolPath e) s = (r, s1)" by force
  note st = downloadWALToFile_step [OF laws d]
  have path: "spoolPath e = path_Join [spoolDir p, n]" "plain_elem n" "\<not> HasSuffix n ''.partial''" using ok by (auto simp: entry_ok_def)
  have s': "s' = s1" and pe: "pfEntries p' = (pfEntries p)(n \<mapsto> e')" and dir: "spoolDir p' = spoolDir p"
    and e': "e' = (case r of Some x \<Rightarrow> e\<lparr>weErr := Some x, weState := walStateFailed\<rparr> | None \<Rightarrow> e\<lparr>weState := walStateReady\<rparr>)"
    using run d by (auto simp: downloadToSpool_def Let_def split: option.splits if_splits)
  show "pfEntries p' n = Some e'" "spoolPath e' = path_Join [spoolDir p, n]" "spoolDir p' = spoolDir p"
    "weState e' \<noteq> walStateDownloading" "m \<noteq> n \<Longrightarrow> pfEntries p' m = pfEntries p m"
    using pe dir e' path by (auto split: option.splits)
  show fr: "fs_frame files {path_Join [spoolDir p, n]} s s'" using st(1) path s' by simp
  have "entry_ok files content p' s' m x" if m: "pfEntries p' m = Some x" for m x
  proof (cases "m = n")
    case True
    then have "x = e'" using m pe by simp
    with True ok e' e(2) path dir s' download_honest [OF laws hon path(3)] d show ?thesis
      by (auto simp: entry_ok_def split: option.splits)
  next
    case False
    then have "pfEntries p m = Some x" using m pe by simp
    then have old: "entry_ok files content p s m x" using inv by (simp add: pf_inv_def)
    then have "path_Join [spoolDir p, m] \<noteq> path_Join [spoolDir p, n]" using False path(2) spool_path_inj by (auto simp: entry_ok_def)
    with old fr dir show ?thesis by (simp add: entry_ok_def fs_frame_def)
  qed
  then show "pf_inv files content p' s'" by (simp add: pf_inv_def)
qed

lemma pf_inv_start_download:
  assumes "pf_inv files content p s" "plain_elem n" "\<not> HasSuffix n ''.partial''" "weState e = walStateDownloading" "weErr e = None"
    "spoolPath e = path_Join [spoolDir p, n]"
  shows "pf_inv files content (p\<lparr>pfEntries := (pfEntries p)(n \<mapsto> e)\<rparr>) s"
  using assms by (auto simp: pf_inv_def entry_ok_def)

lemma getCompleteWAL_inv:
  assumes laws: "fs_laws A files" and hon: "honest content srv" and inv: "pf_inv files content p s"
    and n: "plain_elem n" "\<not> HasSuffix n ''.partial''" and target: "\<not> spool_path p target"
    and run: "getCompleteWAL A srv cancelled n target p s = (r, p', s')"
  shows "pf_inv files content p' s'" and "spoolDir p' = spoolDir p" and "r = Inr hit \<Longrightarrow> files s' target = Some (content n)"
proof -
  let ?path = "path_Join [spoolDir p, n]"
  obtain e p1 where start: "(case (case pfEntries p n of Some e \<Rightarrow> if weState e = walStateFailed then None else Some e | None \<Rightarrow> None) of
      Some e \<Rightarrow> (e, p) | None \<Rightarrow> startDirectDownloadLocked n p) = (e, p1)" by (metis surj_pair)
  have new: "pf_inv files content (snd (startDirectDownloadLocked n p)) s"
    by (simp add: startDirectDownloadLocked_def Let_def pf_inv_start_download [OF inv n])
  have 1: "pf_inv files content p1 s \<and> pfEntries p1 n = Some e \<and> spoolDir p1 = spoolDir p \<and> weState e \<noteq> walStateFailed"
  proof (cases "\<exists>x. pfEntries p n = Some x \<and> weState x \<noteq> walStateFailed")
    case True
    with start inv show ?thesis by auto
  next
    case False
    then have "startDirectDownloadLocked n p = (e, p1)" using start by (auto split: option.splits if_splits)
    with new show ?thesis by (auto simp: startDirectDownloadLocked_def Let_def)
  qed
  note 1 = conjunct1 [OF 1] conjunct1 [OF conjunct2 [OF 1]] conjunct1 [OF conjunct2 [OF conjunct2 [OF 1]]]
  show "pf_inv files content p' s'" "spoolDir p' = spoolDir p" "r = Inr hit \<Longrightarrow> files s' target = Some (content n)"
  proof (atomize (full), cases cancelled)
    case True
    with run start have "r = Inl Canceled" "p' = p1" "s' = s" by (simp_all add: getCompleteWAL_def Let_def)
    with 1 show "pf_inv files content p' s' \<and> spoolDir p' = spoolDir p \<and> (r = Inr hit \<longrightarrow> files s' target = Some (content n))" by simp
  next
    case False
    obtain e2 p2 s2 where wait: "(if weState e = walStateDownloading then downloadToSpool A srv n e p1 s else (e, p1, s)) = (e2, p2, s2)"
      by (metis prod_cases3)
    have "pf_inv files content p2 s2 \<and> pfEntries p2 n = Some e2 \<and> spoolDir p2 = spoolDir p \<and> weState e2 \<noteq> walStateDownloading"
    proof (cases "weState e = walStateDownloading")
      case True
      then have "downloadToSpool A srv n e p1 s = (e2, p2, s2)" using wait by simp
      from downloadToSpool_inv(1,2,4,6) [OF laws hon 1(1,2) True this] 1(3) show ?thesis by simp
    next
      case False
      then have "e2 = e" "p2 = p1" "s2 = s" using wait by auto
      with 1 False show ?thesis by simp
    qed
    then have 2: "pf_inv files content p2 s2" "pfEntries p2 n = Some e2" "spoolDir p2 = spoolDir p" "weState e2 \<noteq> walStateDownloading"
      by auto
    have ok: "entry_ok files content p2 s2 n e2" using 2(1,2) by (simp add: pf_inv_def)
    have path: "spoolPath e2 = ?path" using ok 2(3) by (simp add: entry_ok_def)
    have other: "pf_inv files content (cleanupEntry n p2) s4"
      if fr: "fs_frame files {?path, target} s2 s4" for s4
      unfolding pf_inv_def
    proof (intro allI impI)
      fix m x assume "pfEntries (cleanupEntry n p2) m = Some x"
      then have m: "m \<noteq> n" "pfEntries p2 m = Some x" by (auto simp: cleanupEntry_def split: if_splits)
      then have ok: "entry_ok files content p2 s2 m x" using 2(1) by (simp add: pf_inv_def)
      then have "path_Join [spoolDir p, m] \<notin> {?path, target}"
        using m(1) n(1) target spool_path_inj by (auto simp: entry_ok_def spool_path_def)
      with ok fr 2(3) show "entry_ok files content (cleanupEntry n p2) s4 m x"
        by (simp add: entry_ok_def cleanupEntry_def fs_frame_def)
    qed
    show "pf_inv files content p' s' \<and> spoolDir p' = spoolDir p \<and> (r = Inr hit \<longrightarrow> files s' target = Some (content n))"
    proof (cases "weErr e2")
      case (Some x)
      with run start wait False have "r = Inl x" "p' = p2" "s' = s2" by (simp_all add: getCompleteWAL_def Let_def)
      with 2 show ?thesis by simp
    next
      case None
      have ready: "weState e2 = walStateReady" using ok None 2(4) by (auto simp: entry_ok_def intro: walState.exhaust)
      have content: "files s2 ?path = Some (content n)" using ok ready path by (simp add: entry_ok_def)
      obtain f s3 where ren: "FRename A ?path target s2 = (f, s3)" by force
      show ?thesis
      proof (cases f)
        case f: None
        then have res: "p' = cleanupEntry n p2" "s' = s3" using run start wait False None ren path by (auto simp: getCompleteWAL_def Let_def)
        have "files s3 target = Some (content n)" using fs_lawsD(9) [OF laws] ren f content by blast
        with res other fs_lawsD(8) [OF laws ren] 2(3) show ?thesis by (simp add: cleanupEntry_def)
      next
        case (Some x)
        obtain g s4 where rm: "FRemove A ?path s3 = (g, s4)" by force
        obtain q s5 where dl: "downloadWALToFile A srv n target s4 = (q, s5)" by force
        have res: "p' = cleanupEntry n p2" "s' = s5" "r = Inr hit \<longrightarrow> q = None"
          using run start wait False None ren path Some rm dl by (auto simp: getCompleteWAL_def Let_def downloadDirect_def split: option.splits)
        have "fs_frame files {?path, target} s2 s5"
          using fs_lawsD(8) [OF laws ren] fs_frame_mono [OF fs_lawsD(10) [OF laws rm], of "{?path, target}"]
            fs_frame_mono [OF downloadWALToFile_step(1) [OF laws dl], of "{?path, target}"] by (auto intro: fs_frame_trans)
        with res other 2(3) download_honest [OF laws hon n(2)] dl show ?thesis by (auto simp: cleanupEntry_def)
      qed
    qed
  qed
qed

lemma prefetch_loop_inv:
  "pf_inv files content p s \<Longrightarrow> pf_inv files content (prefetch_loop k w p) s \<and> spoolDir (prefetch_loop k w p) = spoolDir p"
proof (induction k w p rule: prefetch_loop.induct)
  case (2 k w p)
  show ?case
  proof (cases "nextWALNameLocked (segmentsPerLog p) w")
    case (Inl e)
    with 2 show ?thesis by simp
  next
    case (Inr nx)
    have "pf_inv files content (if pfEntries p nx = None then startPrefetchDownloadLocked nx p else p) s"
      using "2.prems" nextWALName_plain [OF Inr] by (auto simp: startPrefetchDownloadLocked_def Let_def intro: pf_inv_start_download)
    from "2.IH" [OF Inr this] show ?thesis using Inr by (auto simp: startPrefetchDownloadLocked_def Let_def)
  qed
qed simp

lemma triggerPrefetch_inv:
  "pf_inv files content p s \<Longrightarrow> pf_inv files content (triggerPrefetch w p) s \<and> spoolDir (triggerPrefetch w p) = spoolDir p"
  by (simp add: triggerPrefetch_def prefetch_loop_inv)

lemma pf_inv_target:
  assumes inv: "pf_inv files content p s" and fr: "fs_frame files {target} s s'" and target: "\<not> spool_path p target"
  shows "pf_inv files content p s'"
  unfolding pf_inv_def
proof (intro allI impI)
  fix m x assume "pfEntries p m = Some x"
  then have ok: "entry_ok files content p s m x" using inv by (simp add: pf_inv_def)
  then have "path_Join [spoolDir p, m] \<noteq> target" using target by (auto simp: entry_ok_def spool_path_def)
  with ok fr show "entry_ok files content p s' m x" by (simp add: entry_ok_def fs_frame_def)
qed

lemma pf_Request_inv:
  assumes laws: "fs_laws A files" and hon: "honest content srv" and inv: "pf_inv files content p s"
    and n: "plain_elem n" "\<not> HasSuffix n ''.partial''" and target: "\<not> spool_path p target"
    and run: "pf_Request A srv cancelled n target p s = (r, p', s')"
  shows "pf_inv files content p' s' \<and> spoolDir p' = spoolDir p"
    and "r = Inr hit \<Longrightarrow> files s' target = Some (content n) \<or>
      canHavePartial n \<and> (\<exists>rs fin. srv (n @ ''.partial'') = Inr (rs, fin) \<and> errors_Is fin EOF \<and>
        files s' target = Some (stream_content (n @ ''.partial'') rs))"
proof -
  obtain r1 p1 s1 where get: "getCompleteWAL A srv cancelled n target p s = (r1, p1, s1)" by (metis prod_cases3)
  note g = getCompleteWAL_inv [OF laws hon inv n target get]
  show "pf_inv files content p' s' \<and> spoolDir p' = spoolDir p"
    "r = Inr hit \<Longrightarrow> files s' target = Some (content n) \<or>
      canHavePartial n \<and> (\<exists>rs fin. srv (n @ ''.partial'') = Inr (rs, fin) \<and> errors_Is fin EOF \<and>
        files s' target = Some (stream_content (n @ ''.partial'') rs))"
  proof (atomize (full), cases r1)
    case (Inr h)
    then have "s' = s1" "p' = p1 \<or> p' = triggerPrefetch n p1" using run get by (auto simp: pf_Request_def split: if_splits)
    with g(1,2) g(3) [OF Inr] triggerPrefetch_inv [OF g(1), of n] show "(pf_inv files content p' s' \<and> spoolDir p' = spoolDir p) \<and>
      (r = Inr hit \<longrightarrow> files s' target = Some (content n) \<or>
      canHavePartial n \<and> (\<exists>rs fin. srv (n @ ''.partial'') = Inr (rs, fin) \<and> errors_Is fin EOF \<and>
        files s' target = Some (stream_content (n @ ''.partial'') rs)))" by auto
  next
    case (Inl e)
    show "(pf_inv files content p' s' \<and> spoolDir p' = spoolDir p) \<and>
      (r = Inr hit \<longrightarrow> files s' target = Some (content n) \<or>
      canHavePartial n \<and> (\<exists>rs fin. srv (n @ ''.partial'') = Inr (rs, fin) \<and> errors_Is fin EOF \<and>
        files s' target = Some (stream_content (n @ ''.partial'') rs)))"
    proof (cases "errors_Is e errWALNotFound \<and> canHavePartial n")
      case False
      then have "p' = p1" "s' = s1" "r = Inl e" using run get Inl by (auto simp: pf_Request_def split: if_splits)
      with g show ?thesis by simp
    next
      case True
      obtain q s2 where d: "downloadWALToFile A srv (n @ ''.partial'') target s1 = (q, s2)" by force
      have res: "p' = p1" "s' = s2" "r = Inr hit \<longrightarrow> q = None"
        using run get Inl True d by (auto simp: pf_Request_def getPartialWAL_def split: option.splits)
      note st = downloadWALToFile_step [OF laws d]
      have "pf_inv files content p1 s2"
        by (rule pf_inv_target [OF g(1) st(1)]) (use target g(2) in \<open>simp add: spool_path_def\<close>)
      with res g(2) st(2) True show ?thesis by blast
    qed
  qed
qed

lemma pf_step_inv:
  assumes laws: "fs_laws A files" and step: "pf_step A (honest content) st st'" and inv: "pf_inv files content (fst st) (snd st)"
  shows "pf_inv files content (fst st') (snd st') \<and> spoolDir (fst st') = spoolDir (fst st)"
  using step inv
proof cases
  case (finish srv p n e s e' p' s')
  with downloadToSpool_inv(1,4) [OF laws _ _ finish(4,5,6)] inv show ?thesis by simp
next
  case (request srv n p target cancelled s r p' s')
  with pf_Request_inv(1) [OF laws request(3) _ request(4,5,6,7)] inv show ?thesis by simp
qed

lemma pf_run_inv:
  assumes "fs_laws A files" and "(pf_step A (honest content))\<^sup>*\<^sup>* (newWALPrefetcher dir k, s0) (p, s)"
  shows "pf_inv files content p s \<and> spoolDir p = dir"
  using assms(2)
proof (induction "(p, s)" arbitrary: p s rule: rtranclp_induct)
  case base
  then show ?case by (simp add: newWALPrefetcher_def pf_inv_def)
next
  case (step y)
  then show ?case using pf_step_inv [OF assms(1) step.hyps(2)] step.hyps(3) [of "fst y" "snd y"] by simp
qed

section \<open>Lemmas: a WAL that the server has is found\<close>

text \<open>The errors of the file system are not the sentinels of the plugin.\<close>

definition os_errors :: "'fs afero \<Rightarrow> bool" where
  "os_errors A \<longleftrightarrow> (\<forall>p b s e. fst (OpenTrunc A p s) = Some e \<or> fst (FWrite A p b s) = Some e \<or> fst (FClose A p s) = Some e \<longrightarrow>
     \<not> errors_Is e errWALNotFound \<and> \<not> errors_Is e ErrMissingWALFile)"

lemma os_errorsD:
  assumes "os_errors A"
  shows "OpenTrunc A p s = (Some e, s') \<Longrightarrow> \<not> errors_Is e errWALNotFound \<and> \<not> errors_Is e ErrMissingWALFile"
    and "FWrite A p b s = (Some e, s') \<Longrightarrow> \<not> errors_Is e errWALNotFound \<and> \<not> errors_Is e ErrMissingWALFile"
    and "FClose A p s = (Some e, s') \<Longrightarrow> \<not> errors_Is e errWALNotFound \<and> \<not> errors_Is e ErrMissingWALFile"
  using assms unfolding os_errors_def by (metis fst_conv)+

lemma recv_blocks_found:
  assumes "os_errors A" "errors_Is fin EOF"
  shows "recv_blocks A out fin rs ex rc s = (Inl e, s') \<Longrightarrow> \<not> errors_Is e errWALNotFound \<and> \<not> errors_Is e ErrMissingWALFile"
proof (induction rs arbitrary: ex rc s)
  case (Cons x rs)
  obtain b sz where x: "x = (b, sz)" by force
  obtain f s1 where w: "FWrite A out b s = (f, s1)" by force
  show ?case
  proof (cases f)
    case (Some err)
    with Cons.prems w os_errorsD(2) [OF assms(1)] show ?thesis
      by (auto simp: x errWALNotFound_def ErrMissingWALFile_def split: if_splits)
  next
    case None
    with Cons w show ?thesis by (auto simp: x errWALNotFound_def ErrMissingWALFile_def split: if_splits)
  qed
qed (use assms(2) in simp)

lemma download_found:
  assumes os: "os_errors A" and srv: "srv n = Inr (rs, fin)" "errors_Is fin EOF" and n: "\<not> HasSuffix n ''.partial''"
    and run: "downloadWALToFile A srv n dest s = (Some e, s')"
  shows "\<not> errors_Is e errWALNotFound"
proof -
  obtain e1 s1 where 1: "OpenTrunc A dest s = (e1, s1)" by force
  obtain e2 s2 where 2: "GetWALStreaming A (srv n) n dest s1 = (e2, s2)" by force
  obtain e3 s3 where 3: "FClose A dest s2 = (e3, s3)" by force
  have get: "e2 = Some x \<Longrightarrow> \<not> errors_Is x errWALNotFound \<and> \<not> errors_Is x ErrMissingWALFile" for x
    using 2 srv n recv_blocks_found [OF os srv(2)] by (auto simp: GetWALStreaming_def split: sum.splits prod.splits)
  show ?thesis
  proof (cases e1)
    case (Some x)
    with run 1 os_errorsD(1) [OF os] show ?thesis by (auto simp: downloadWALToFile_def errWALNotFound_def)
  next
    case o: None
    show ?thesis
    proof (cases e2)
      case (Some x)
      with run 1 2 3 o get [OF Some] have "e = Wrap ''downloading WAL'' x" by (simp add: downloadWALToFile_def)
      with get [OF Some] show ?thesis by (simp add: errWALNotFound_def)
    next
      case None
      with run 1 2 3 o os_errorsD(3) [OF os] show ?thesis
        by (auto simp: downloadWALToFile_def errWALNotFound_def split: option.splits)
    qed
  qed
qed

lemma request_found:
  assumes os: "os_errors A" and srv: "srv n = Inr (rs, fin)" "errors_Is fin EOF" and n: "\<not> HasSuffix n ''.partial''"
    and fresh: "pfEntries p n = None" and run: "getCompleteWAL A srv cancelled n target p s = (Inl e, p', s')"
  shows "\<not> errors_Is e errWALNotFound"
proof (cases cancelled)
  case True
  with run fresh show ?thesis
    by (auto simp: getCompleteWAL_def startDirectDownloadLocked_def Let_def Canceled_def errWALNotFound_def)
next
  case False
  let ?path = "path_Join [spoolDir p, n]"
  obtain r s1 where d: "downloadWALToFile A srv n ?path s = (r, s1)" by force
  show ?thesis
  proof (cases r)
    case (Some x)
    with run fresh False d download_found [where srv = srv and n = n, OF os srv n] show ?thesis
      by (auto simp: getCompleteWAL_def startDirectDownloadLocked_def Let_def downloadToSpool_def)
  next
    case None
    with run fresh False d download_found [where srv = srv and n = n, OF os srv n] show ?thesis
      by (auto simp: getCompleteWAL_def startDirectDownloadLocked_def Let_def downloadToSpool_def downloadDirect_def
        split: prod.splits option.splits)
  qed
qed

text \<open>The repository's own server as the source of the WALs.\<close>

definition server_get :: "('fs, 'n) Implementation \<Rightarrow> call_context \<Rightarrow> string \<Rightarrow> 'fs \<Rightarrow> string \<Rightarrow> get_stream" where
  "server_get impl ctx cluster s n =
     (case getWAL impl ctx (\<lambda>_. None) \<lparr>getClusterName = cluster, getWalName = n\<rparr> s of
        (None, rs) \<Rightarrow> Inr (rs, EOF)
      | (Some e, rs) \<Rightarrow> Inr (rs, e))"

text \<open>A fresh prefetcher that gets a WAL from a server that has it: the target is what the server sent.\<close>

lemma fresh_request:
  assumes "fs_laws A files" and "os_errors A" and "srv n = Inr (rs, EOF)"
    and n: "plain_elem n" "\<not> HasSuffix n ''.partial''" and target: "\<forall>m. plain_elem m \<longrightarrow> target \<noteq> path_Join [dir, m]"
    and run: "pf_Request A srv cancelled n target (newWALPrefetcher dir k) s = (Inr hit, p', s')"
  shows "files s' target = Some (concat (map fst rs))"
proof -
  let ?p = "newWALPrefetcher dir k"
  define content where "content m = (case srv m of Inr (rs, fin) \<Rightarrow> concat (map fst rs) | Inl e \<Rightarrow> [])" for m
  have hon: "honest content srv" by (auto simp: honest_def content_def)
  have inv: "pf_inv files content ?p s" "\<not> spool_path ?p target" "pfEntries ?p n = None"
    using target by (auto simp: pf_inv_def newWALPrefetcher_def spool_path_def)
  obtain r1 p1 s1 where get: "getCompleteWAL A srv cancelled n target ?p s = (r1, p1, s1)" by (metis prod_cases3)
  note g = getCompleteWAL_inv(3) [OF assms(1) hon inv(1) n inv(2) get]
  show ?thesis
  proof (cases r1)
    case (Inr h)
    then have "s' = s1" using run get by (auto simp: pf_Request_def)
    with g [OF Inr] assms(3) show ?thesis by (simp add: content_def)
  next
    case (Inl e)
    have "\<not> errors_Is e errWALNotFound"
      using request_found [where srv = srv and n = n and p = ?p, OF assms(2,3) _ n(2) inv(3)] get Inl by simp
    with run get Inl show ?thesis by (simp add: pf_Request_def)
  qed
qed

section \<open>Lemmas: WAL names as numbers\<close>

lemma hex_value_char: "n < 16 \<Longrightarrow> hex_value (hex_char n) = n"
  by (auto simp: hex_value_def hex_char_def Let_def)

lemma parse_hex_append:
  "parse_hex_loop bits (xs @ ys) n = (case parse_hex_loop bits xs n of Inl e \<Rightarrow> Inl e | Inr k \<Rightarrow> parse_hex_loop bits ys k)"
  by (induction xs arbitrary: n) auto

lemma parse_hex_upper: "n < 2 ^ 32 \<Longrightarrow> parse_hex_loop 32 (hex_upper n) 0 = Inr n"
proof (induction n rule: hex_upper.induct)
  case (1 n)
  show ?case
  proof (cases "n < 16")
    case True
    with "1.prems" show ?thesis by (subst hex_upper.simps) (simp add: hex_char_hex hex_value_char)
  next
    case False
    then have "parse_hex_loop 32 (hex_upper (n div 16)) 0 = Inr (n div 16)" using 1 by simp
    with False "1.prems" show ?thesis by (subst hex_upper.simps) (simp add: parse_hex_append hex_char_hex hex_value_char)
  qed
qed

lemma parse_fmt08X: "n < 2 ^ 32 \<Longrightarrow> ParseHex32 (fmt08X n) = Inr n"
proof -
  assume n: "n < 2 ^ 32"
  have "is_hex (CHR ''0'')" "hex_value (CHR ''0'') = 0" by (simp_all add: is_hex_def is_dec_def hex_value_def)
  then have "parse_hex_loop 32 (replicate k (CHR ''0'')) 0 = Inr 0" for k by (induction k) auto
  then show ?thesis using parse_hex_upper [OF n] fmt08X_nonempty [of n] by (simp add: ParseHex32_def) (simp add: fmt08X_def parse_hex_append)
qed

lemma hex_upper_length: "0 < k \<Longrightarrow> length (hex_upper n) \<le> k \<longleftrightarrow> n < 16 ^ k"
proof (induction n arbitrary: k rule: hex_upper.induct)
  case (1 n)
  show ?case
  proof (cases "n < 16")
    case True
    moreover have "(16::nat) \<le> 16 ^ k" using "1.prems" by (metis One_nat_def Suc_leI power_increasing power_one_right one_le_numeral)
    ultimately show ?thesis using "1.prems" by (subst hex_upper.simps) simp
  next
    case False
    show ?thesis
    proof (cases "k = 1")
      case True
      have "0 < length (hex_upper (n div 16))" by (subst hex_upper.simps) simp
      with True False show ?thesis by (subst hex_upper.simps) simp
    next
      case k: False
      then obtain j where j: "k = Suc j" "0 < j" using "1.prems" by (metis One_nat_def Suc_pred not_gr_zero)
      have "n < 16 ^ k \<longleftrightarrow> n div 16 < 16 ^ j" by (simp add: j(1) less_mult_imp_div_less div_less_iff_less_mult mult.commute)
      with 1(1) [OF False j(2)] False j(1) show ?thesis by (subst hex_upper.simps) simp
    qed
  qed
qed

lemma fmt08X_length: "length (fmt08X n) = 8 \<longleftrightarrow> n < 2 ^ 32"
  using hex_upper_length [of 8 n] by (simp add: fmt08X_def) linarith

section \<open>A concrete server\<close>

definition restore_name :: string where "restore_name = ''00000002.history''"

definition restore_srv :: "string \<Rightarrow> get_stream" where
  "restore_srv n = (if n = restore_name then Inr ([([1, 2], 3), ([3], 3), ([], 3)], EOF) else Inl (Status NotFound ''WAL not found''))"

text \<open>In memory nothing fails: a request for a WAL that the server sends succeeds.\<close>

lemma mem_os_errors: "os_errors (connFs mem_connection)"
  by (auto simp: os_errors_def mem_defs errWALNotFound_def ErrMissingWALFile_def split: option.splits)

lemma mem_recv_blocks:
  assumes "\<forall>(b, sz) \<in> set rs. unat sz < 2 ^ 63" and "map_of s out \<noteq> None"
  shows "\<exists>x s'. recv_blocks (connFs mem_connection) out EOF rs ex rc s = (Inr x, s') \<and> map_of s' out \<noteq> None"
  using assms
proof (induction rs arbitrary: ex rc s)
  case (Cons x rs)
  obtain b sz where x: "x = (b, sz)" by force
  obtain old where old: "map_of s out = Some old" using Cons.prems(2) by blast
  have w: "FWrite (connFs mem_connection) out b s = (None, (out, old @ b) # mem_del out s)" using old by (simp add: mem_defs)
  from Cons.IH [of "(out, old @ b) # mem_del out s"] Cons.prems(1) w show ?case by (simp add: x) 
qed simp

lemma mem_request:
  assumes srv: "srv n = Inr (rs, EOF)" and rs: "\<forall>(b, sz) \<in> set rs. unat sz < 2 ^ 63" and n: "\<not> HasSuffix n ''.partial''"
  shows "\<exists>p s. pf_Request (connFs mem_connection) srv False n target (newWALPrefetcher dir k) [] = (Inr False, p, s)"
proof -
  let ?path = "path_Join [dir, n]"
  obtain x s1 where r: "recv_blocks (connFs mem_connection) ?path EOF rs 0 0 [(?path, [])] = (Inr x, s1)" "map_of s1 ?path \<noteq> None"
    using mem_recv_blocks [OF rs, of "[(?path, [])]" ?path 0 0] by auto
  have d: "downloadWALToFile (connFs mem_connection) srv n ?path [] = (None, s1)"
    using r(1) n by (cases x) (simp add: downloadWALToFile_def GetWALStreaming_def srv mem_defs)
  obtain content where c: "map_of s1 ?path = Some content" using r(2) by blast
  have "\<exists>p s. getCompleteWAL (connFs mem_connection) srv False n target (newWALPrefetcher dir k) [] = (Inr False, p, s)"
    by (simp add: getCompleteWAL_def newWALPrefetcher_def startDirectDownloadLocked_def downloadToSpool_def d isReadyPrefetch_def mem_defs c)
  then show ?thesis by (auto simp: pf_Request_def)
qed

definition restore_node :: "memfs node" where
  "restore_node = \<lparr>nodeFs = mem_afero, nodeRemoveAll = (\<lambda>p s. (None, mem_del p s)),
     nodeConfig = (\<lambda>f. Inr \<lparr>WalAddress = ''a'', WalTier2Address = ''b'', Tier2RecoveryEnabled = True, WALPrefetchCount = 0\<rparr>),
     nodeConnect = (\<lambda>a. None), nodePGDATA = [], nodeSha = (\<lambda>f. ''00'')\<rparr>"

section \<open>Properties\<close>

text \<open>
  C30: what PostgreSQL restores is the archived WAL.  After any history of requests and of downloads that
  finished in the background, with a server that never ends a stream well without having sent the content
  of the WAL: a request that succeeds, served from the spool, by a download of its own, or by the fallback
  when the rename fails, leaves exactly the content of that WAL in the target file; or, for a bare segment
  name only, the server's partial WAL, padded with zeros to its segment size.
\<close>

theorem restored_wal_is_the_archived_one:
  assumes "fs_laws A files" and "honest content srv"
    and "(pf_step A (honest content))\<^sup>*\<^sup>* (newWALPrefetcher dir k, s0) (p, s)"
    and "plain_elem n" and "\<not> HasSuffix n ''.partial''" and "\<forall>m. plain_elem m \<longrightarrow> target \<noteq> path_Join [dir, m]"
    and "pf_Request A srv cancelled n target p s = (Inr hit, p', s')"
  shows "files s' target = Some (content n) \<or>
    canHavePartial n \<and> (\<exists>rs fin. srv (n @ ''.partial'') = Inr (rs, fin) \<and> errors_Is fin EOF \<and>
      files s' target = Some (stream_content (n @ ''.partial'') rs))"
proof -
  have "pf_inv files content p s" "\<not> spool_path p target"
    using pf_run_inv [OF assms(1,3)] assms(6) by (auto simp: spool_path_def)
  from pf_Request_inv(2) [OF assms(1,2) this(1) assms(4,5) this(2) assms(7) refl] show ?thesis .
qed

theorem restored_wal_is_the_archived_one_witness:
  "\<exists>p s. pf_Request (connFs mem_connection) restore_srv False restore_name ''target'' (newWALPrefetcher ''spool'' 0) [] = (Inr False, p, s) \<and>
     mem_files s ''target'' = Some [1, 2, 3]"
proof -
  have path: "path_Join [''spool'', restore_name] = ''spool/00000002.history''" by code_simp
  have "\<exists>p s. pf_Request (connFs mem_connection) restore_srv False restore_name ''target'' (newWALPrefetcher ''spool'' 0) [] = (Inr False, p, s)"
    by (simp add: pf_Request_def getCompleteWAL_def newWALPrefetcher_def startDirectDownloadLocked_def downloadToSpool_def path
      downloadWALToFile_def restore_srv_def GetWALStreaming_def isCompleteWALName_def cleanupEntry_def isReadyPrefetch_def mem_defs)
  then obtain p s where run: "pf_Request (connFs mem_connection) restore_srv False restore_name ''target'' (newWALPrefetcher ''spool'' 0) [] = (Inr False, p, s)"
    by blast
  have name: "plain_elem restore_name" "\<not> HasSuffix restore_name ''.partial''" by code_simp+
  have base: "path_Base ''target'' = ''target''" "path_Join [''spool'', ''target''] \<noteq> ''target''" by code_simp+
  then have spool: "''target'' \<noteq> path_Join [''spool'', m]" if "plain_elem m" for m
    using path_Join_base [OF that, of "''spool''"] by metis
  have "honest (\<lambda>n. if n = restore_name then [1, 2, 3] else []) restore_srv"
    by (auto simp: honest_def restore_srv_def split: if_splits)
  from restored_wal_is_the_archived_one [OF _ this rtranclp.rtrancl_refl name _ run, where files = mem_files] spool run
  show ?thesis by (auto simp: restore_srv_def restore_name_def)
qed

text \<open>
  The prefetcher asks for the WALs that come next.  For the name that the verbs %08X print of a timeline,
  a log and a segment number, nextWALNameLocked gives the name of the following segment: the position in
  segments grows by one, the timeline stays, and the name keeps its 24 digits unless the log number
  leaves 32 bits.
\<close>

lemma next_wal_name_is_successor:
  assumes "t < 2 ^ 32" and "l < 2 ^ 32" and "g < perLog" and "perLog \<le> maxWALBytesPerLog"
  shows "\<exists>l' g'. nextWALNameLocked perLog (fmt08X t @ fmt08X l @ fmt08X g) = Inr (fmt08X t @ fmt08X l' @ fmt08X g') \<and>
    l' * perLog + g' = l * perLog + g + 1 \<and> g' < perLog \<and>
    (length (fmt08X t @ fmt08X l' @ fmt08X g') = 24 \<longleftrightarrow> l' < 2 ^ 32)"
proof -
  have g: "g < 2 ^ 32" "perLog \<le> 2 ^ 32" using assms(3,4) by (simp_all add: maxWALBytesPerLog_def)
  let ?l = "if g + 1 \<ge> perLog then l + 1 else l" and ?g = "if g + 1 \<ge> perLog then 0 else g + 1"
  have len: "length (fmt08X t) = 8" "length (fmt08X l) = 8" "length (fmt08X g) = 8" using assms g fmt08X_length by auto
  have "nextWALNameLocked perLog (fmt08X t @ fmt08X l @ fmt08X g) = Inr (fmt08X t @ fmt08X ?l @ fmt08X ?g)"
    using len parse_fmt08X assms(1,2) g by (simp add: nextWALNameLocked_def)
  moreover have "?l * perLog + ?g = l * perLog + g + 1 \<and> ?g < perLog" using assms(3) by auto
  moreover have "?g < 2 ^ 32" using assms(3) g by auto
  then have "length (fmt08X t @ fmt08X ?l @ fmt08X ?g) = 24 \<longleftrightarrow> ?l < 2 ^ 32"
    using len(1) fmt08X_length [of ?l] fmt08X_length [of ?g] by simp
  ultimately show ?thesis by blast
qed



end
