(* ===== verification/Kopia_Cli.thy ===== *)
theory Kopia_Cli
  imports Tier_Consumers "HOL-Library.Sublist"
begin

text \<open>
  The wrapper around the Kopia command line (core/internal/kopia): the arguments and the environment of
  every command, what is done with its exit status and its output.

  The kopia executable, the temporary directories and the JSON decoder are the record \<open>kopia_env\<close>, over
  a state \<open>'w\<close> of the machine and its repositories.  What they do is the hypothesis \<open>kopia_cli_laws\<close>,
  stated on the command line the executable is given: its operands and its flags.  The wrapper is shown
  to be a Kopia client as the backup and retention code expects one (\<open>kopia_laws\<close>), and to turn off
  Kopia's own retention.
\<close>

section \<open>Processes and their environment\<close>

text \<open>How running a command ends: no pipe, no process, or a process waited for, with its output.\<close>

datatype proc = PipeFailed go_error | StartFailed go_error | Waited "go_error option" bytes

record VerifyResult =
  ErrorCount :: nat
  ErrorStrings :: "string list"

record policyTarget =
  ptHost :: string
  ptUserName :: string
  ptPath :: string

record 'w kopia_env =
  Environ :: "string list"
  runCmd :: "string \<Rightarrow> string list \<Rightarrow> string list \<Rightarrow> bytes \<Rightarrow> 'w \<Rightarrow> proc \<times> 'w"
  LookPath :: "string \<Rightarrow> go_error + string"
  MkdirTemp :: "'w \<Rightarrow> (go_error + string) \<times> 'w"
  RemoveAll :: "string \<Rightarrow> 'w \<Rightarrow> go_error option \<times> 'w"
  OpenFile :: "string \<Rightarrow> 'w \<Rightarrow> go_error option"
  ReadAll :: "string \<Rightarrow> 'w \<Rightarrow> go_error + bytes"
  UnmarshalManifests :: "bytes \<Rightarrow> go_error + Manifest list"
  UnmarshalVerifyResult :: "bytes \<Rightarrow> go_error + VerifyResult"
  UnmarshalPolicies :: "bytes \<Rightarrow> go_error + policyTarget list"
  UnmarshalBackupJSON :: "bytes \<Rightarrow> go_error + BackupMetadata"
  pemFirstBlock :: "bytes \<Rightarrow> (string \<times> bytes) option"
  certificateSum :: "bytes \<Rightarrow> go_error + string"
  urlParse :: "string \<Rightarrow> go_error + (string \<times> string)"
  ToLower :: "string \<Rightarrow> string"

text \<open>os.LookupEnv and os.Getenv read the first entry of the name.\<close>

definition LookupEnv :: "string list \<Rightarrow> string \<Rightarrow> string option" where
  "LookupEnv environ name =
     (case filter (prefix (name @ ''='')) environ of [] \<Rightarrow> None | e # _ \<Rightarrow> Some (drop (length name + 1) e))"

definition Getenv :: "string list \<Rightarrow> string \<Rightarrow> string" where
  "Getenv environ name = (case LookupEnv environ name of None \<Rightarrow> [] | Some v \<Rightarrow> v)"

section \<open>core/internal/kopia/tracing.go\<close>

definition otlpTracesExportEnabled :: "string list \<Rightarrow> bool" where
  "otlpTracesExportEnabled environ \<longleftrightarrow>
     Getenv environ ''OTEL_TRACES_EXPORTER'' = [] \<or> Getenv environ ''OTEL_TRACES_EXPORTER'' = ''otlp''"

definition otlpTracesUseGRPC :: "string list \<Rightarrow> bool" where
  "otlpTracesUseGRPC environ =
     (if \<not> otlpTracesExportEnabled environ then False
      else if Getenv environ ''OTEL_EXPORTER_OTLP_TRACES_ENDPOINT'' = [] \<and> Getenv environ ''OTEL_EXPORTER_OTLP_ENDPOINT'' = []
        then False
      else let protocol = Getenv environ ''OTEL_EXPORTER_OTLP_TRACES_PROTOCOL'';
               protocol = (if protocol = [] then Getenv environ ''OTEL_EXPORTER_OTLP_PROTOCOL'' else protocol)
           in protocol = ''grpc'')"

definition tracingEnvironmentVariables :: "string list \<Rightarrow> string list" where
  "tracingEnvironmentVariables environ =
     (if LookupEnv environ ''KOPIA_ENABLE_OTLP_TRACE'' \<noteq> None then []
      else if \<not> otlpTracesUseGRPC environ then []
      else [''KOPIA_ENABLE_OTLP_TRACE=true''])"

section \<open>core/internal/kopia/kopia.go and logcapture.go\<close>

definition Binary :: string where "Binary = ''kopia''"

definition LookupBinary :: "'w kopia_env \<Rightarrow> go_error + string" where
  "LookupBinary E = (case LookPath E Binary of Inl e \<Rightarrow> Inl (Wrap ''kopia binary not found'' e) | Inr b \<Rightarrow> Inr b)"

record Client =
  ConfigFile :: string
  KopiaBinary :: string
  Password :: string

definition kopiaEnvironmentVariables :: "'w kopia_env \<Rightarrow> Client \<Rightarrow> string list" where
  "kopiaEnvironmentVariables E s =
     Environ E @ [''KOPIA_CHECK_FOR_UPDATES=false''] @
     (if Password s \<noteq> [] then [''KOPIA_PASSWORD='' @ Password s] else []) @
     tracingEnvironmentVariables (Environ E)"

definition RunWithLogCapture ::
  "'w kopia_env \<Rightarrow> string \<Rightarrow> string list \<Rightarrow> string list \<Rightarrow> bytes \<Rightarrow> 'w \<Rightarrow> (go_error option \<times> bytes) \<times> 'w" where
  "RunWithLogCapture E binary args env stdin w =
     (case runCmd E binary args env stdin w of
        (PipeFailed e, w') \<Rightarrow> ((Some (Wrap ''failed to create stderr pipe'' e), []), w')
      | (StartFailed e, w') \<Rightarrow> ((Some (Wrap ''failed to start command'' e), []), w')
      | (Waited (Some e) out, w') \<Rightarrow> ((Some (Wrap ''command failed'' e), out), w')
      | (Waited None out, w') \<Rightarrow> ((None, out), w'))"

definition client_run :: "'w kopia_env \<Rightarrow> Client \<Rightarrow> string list \<Rightarrow> bytes \<Rightarrow> 'w \<Rightarrow> (go_error option \<times> bytes) \<times> 'w" where
  "client_run E s args stdin w = RunWithLogCapture E (KopiaBinary s) args (kopiaEnvironmentVariables E s) stdin w"

text \<open>The commands whose output is not read: the error, wrapped.\<close>

definition client_do :: "string \<Rightarrow> 'w kopia_env \<Rightarrow> Client \<Rightarrow> string list \<Rightarrow> bytes \<Rightarrow> 'w \<Rightarrow> go_error option \<times> 'w" where
  "client_do msg E s args stdin w =
     (case client_run E s args stdin w of ((r, _), w') \<Rightarrow> (map_option (Wrap msg) r, w'))"

text \<open>The flags of a tag map, in the order Go traverses the map.\<close>

definition tag_flags :: "(string \<times> string) list \<Rightarrow> string list" where
  "tag_flags tags = map (\<lambda>(k, v). ''--tags='' @ k @ '':'' @ v) tags"

section \<open>core/internal/kopia/read.go\<close>

definition cli_ListSnapshots ::
  "'w kopia_env \<Rightarrow> Client \<Rightarrow> (string \<times> string) list \<Rightarrow> 'w \<Rightarrow> (go_error + Manifest list) \<times> 'w" where
  "cli_ListSnapshots E s tags w =
     (let args = [''snapshot'', ''list'', ''--disable-file-logging'', ''--all'', ''--json'', ''--config-file='' @ ConfigFile s]
                 @ tag_flags tags
      in case client_run E s args [] w of
           ((Some e, _), w') \<Rightarrow> (Inl (Wrap ''while executing Kopia command'' e), w')
         | ((None, out), w') \<Rightarrow>
             (case UnmarshalManifests E out of
                Inl e \<Rightarrow> (Inl (Wrap ''while unmarshalling kopia command output'' e), w')
              | Inr entries \<Rightarrow> (Inr entries, w')))"

definition cli_RestoreSingleFile ::
  "'w kopia_env \<Rightarrow> Client \<Rightarrow> string \<Rightarrow> string \<Rightarrow> 'w \<Rightarrow> (go_error + bytes) \<times> 'w" where
  "cli_RestoreSingleFile E s snapshotID fileName w =
     (case MkdirTemp E w of
        (Inl e, w1) \<Rightarrow> (Inl (Wrap ''allocating temporary directory to restore single file'' e), w1)
      | (Inr dirName, w1) \<Rightarrow>
          let args = [''restore'', ''--config-file='' @ ConfigFile s, ''--disable-file-logging'', snapshotID, dirName];
              (r, w2) =
                (case client_run E s args [] w1 of
                   ((Some e, _), w2) \<Rightarrow> (Inl (Wrap ''while restoring Kopia snapshot'' e), w2)
                 | ((None, _), w2) \<Rightarrow>
                     let metadataPath = path_Join [dirName, fileName]
                     in case OpenFile E metadataPath w2 of
                          Some e \<Rightarrow> (Inl (Wrap ''while opening backup metadata'' e), w2)
                        | None \<Rightarrow> (ReadAll E metadataPath w2, w2))
          in (r, snd (RemoveAll E dirName w2)))"

definition RestoreSnapshot :: "'w kopia_env \<Rightarrow> Client \<Rightarrow> string \<Rightarrow> string \<Rightarrow> 'w \<Rightarrow> go_error option \<times> 'w" where
  "RestoreSnapshot E s snapshotID destinationDirectory w =
     client_do ''while restoring Kopia snapshot'' E s
       [''restore'', ''--config-file='' @ ConfigFile s, ''--disable-file-logging'', ''--progress'',
        ''--progress-update-interval=60s'', snapshotID, destinationDirectory] [] w"

section \<open>core/internal/kopia/write.go\<close>

definition parseVerifyOutput :: "'w kopia_env \<Rightarrow> bytes \<Rightarrow> VerifyResult" where
  "parseVerifyOutput E stdout =
     (case UnmarshalVerifyResult E stdout of Inl _ \<Rightarrow> \<lparr>ErrorCount = 0, ErrorStrings = []\<rparr> | Inr r \<Rightarrow> r)"

definition cli_DeleteSnapshot :: "'w kopia_env \<Rightarrow> Client \<Rightarrow> string \<Rightarrow> 'w \<Rightarrow> go_error option \<times> 'w" where
  "cli_DeleteSnapshot E s i w =
     client_do ''while deleting Kopia snapshot'' E s
       [''snapshot'', ''delete'', ''--delete'', ''--config-file='' @ ConfigFile s, ''--disable-file-logging'', i] [] w"

record SnapshotMigrateOpts =
  SourceConfig :: string
  Sources :: "string list"
  MigrateTags :: "string list"

definition cli_MigrateSnapshots :: "'w kopia_env \<Rightarrow> Client \<Rightarrow> SnapshotMigrateOpts \<Rightarrow> 'w \<Rightarrow> go_error option \<times> 'w" where
  "cli_MigrateSnapshots E s opts w =
     client_do ''while running the kopia migration'' E s
       ([''snapshot'', ''migrate'', ''--progress'', ''--progress-update-interval=60s'',
         ''--source-config='' @ SourceConfig opts, ''--config-file='' @ ConfigFile s, ''--disable-file-logging''] @
        map (\<lambda>source. ''--sources='' @ source) (Sources opts) @
        map (\<lambda>tagName. ''--tags='' @ userTagPrefix @ tagName) (MigrateTags opts)) [] w"

record SnapshotDirectoryOptions =
  sdDirectory :: string
  sdTags :: "(string \<times> string) list"
  sdDescription :: string

definition SnapshotDirectory :: "'w kopia_env \<Rightarrow> Client \<Rightarrow> SnapshotDirectoryOptions \<Rightarrow> 'w \<Rightarrow> go_error option \<times> 'w" where
  "SnapshotDirectory E s opts w =
     client_do ''while executing Kopia command'' E s
       ([''snapshot'', ''create'', ''--progress'', ''--progress-update-interval=60s'', ''--disable-file-logging'',
         ''--config-file='' @ ConfigFile s] @ tag_flags (sdTags opts) @
        (if sdDescription opts \<noteq> [] then [''--description='' @ sdDescription opts] else []) @
        [sdDirectory opts]) [] w"

record SnapshotFileContentOptions =
  FileName :: string
  DirectoryName :: string
  Content :: bytes
  sfTags :: "(string \<times> string) list"
  sfDescription :: string

definition SnapshotFileContent :: "'w kopia_env \<Rightarrow> Client \<Rightarrow> SnapshotFileContentOptions \<Rightarrow> 'w \<Rightarrow> go_error option \<times> 'w" where
  "SnapshotFileContent E s opts w =
     client_do ''while executing Kopia command'' E s
       ([''snapshot'', ''create'', ''--disable-file-logging'', ''--config-file='' @ ConfigFile s,
         ''--stdin-file='' @ FileName opts, DirectoryName opts] @ tag_flags (sfTags opts) @
        (if sfDescription opts \<noteq> [] then [''--description='' @ sfDescription opts] else [])) (Content opts) w"

definition buildVerifyArgs :: "string \<Rightarrow> string list \<Rightarrow> string list" where
  "buildVerifyArgs configFile objectIDs =
     [''snapshot'', ''verify'', ''--json'', ''--disable-file-logging'', ''--config-file='' @ configFile] @
     map (\<lambda>i. ''--file-id='' @ i) objectIDs"

definition cli_VerifySnapshots ::
  "'w kopia_env \<Rightarrow> Client \<Rightarrow> string list \<Rightarrow> 'w \<Rightarrow> (VerifyResult \<times> go_error option) \<times> 'w" where
  "cli_VerifySnapshots E s objectIDs w =
     (case client_run E s (buildVerifyArgs (ConfigFile s) objectIDs) [] w of
        ((Some e, out), w') \<Rightarrow> ((parseVerifyOutput E out, Some (Wrap ''while verifying Kopia snapshots'' e)), w')
      | ((None, out), w') \<Rightarrow> ((parseVerifyOutput E out, None), w'))"

section \<open>core/internal/kopia/fingerprint.go and server.go\<close>

definition ErrNoCertificateFound :: go_error where
  "ErrNoCertificateFound = Sentinel ''no certificate found in file''"

definition LeafFingerprint :: "'w kopia_env \<Rightarrow> string \<Rightarrow> 'w \<Rightarrow> go_error + string" where
  "LeafFingerprint E certPath w =
     (case ReadAll E certPath w of
        Inl e \<Rightarrow> Inl (Wrap ''while reading certificate file'' e)
      | Inr pemBytes \<Rightarrow>
          (case pemFirstBlock E pemBytes of
             None \<Rightarrow> Inl (Wrap certPath ErrNoCertificateFound)
           | Some (blockType, raw) \<Rightarrow>
               if blockType \<noteq> ''CERTIFICATE'' then Inl (Wrap certPath ErrNoCertificateFound)
               else (case certificateSum E raw of
                       Inl e \<Rightarrow> Inl (Wrap ''while parsing certificate file'' e)
                     | Inr fingerprint \<Rightarrow> Inr fingerprint)))"

record ServerOptions =
  soTLSCert :: string
  soTLSKey :: string
  soClientCACertFile :: string
  soListenAddress :: string
  soServerControlUser :: string
  soServerControlPassword :: string
  soEnableUI :: bool

definition server_args :: "Client \<Rightarrow> ServerOptions \<Rightarrow> string list" where
  "server_args s opts =
     [''server'', ''start'', ''--tls-key-file='' @ soTLSKey opts, ''--tls-cert-file='' @ soTLSCert opts,
      ''--tls-ca-file='' @ soClientCACertFile opts, ''--config-file='' @ ConfigFile s,
      ''--address='' @ soListenAddress opts, ''--disable-file-logging'', ''--log-server-requests'', ''--log-session-errors''] @
     (if \<not> soEnableUI opts then [''--no-ui''] else [])"

definition RunServer :: "'w kopia_env \<Rightarrow> Client \<Rightarrow> ServerOptions \<Rightarrow> 'w \<Rightarrow> go_error option \<times> 'w" where
  "RunServer E s opts w =
     (let env = Environ E @ tracingEnvironmentVariables (Environ E) @
                (if soServerControlUser opts \<noteq> [] then [''KOPIA_SERVER_CONTROL_USER='' @ soServerControlUser opts] else []) @
                (if soServerControlPassword opts \<noteq> [] then [''KOPIA_SERVER_CONTROL_PASSWORD='' @ soServerControlPassword opts] else [])
      in case RunWithLogCapture E (KopiaBinary s) (server_args s opts) env [] w of
           ((r, _), w') \<Rightarrow> (map_option (Wrap ''while running the kopia server'') r, w'))"

record RefreshServerOptions =
  roServerControlUser :: string
  roServerControlPassword :: string
  roServerCertFile :: string
  roAddress :: string

definition cli_RefreshServer :: "'w kopia_env \<Rightarrow> Client \<Rightarrow> RefreshServerOptions \<Rightarrow> 'w \<Rightarrow> go_error option \<times> 'w" where
  "cli_RefreshServer E s opts w =
     (case LeafFingerprint E (roServerCertFile opts) w of
        Inl e \<Rightarrow> (Some (Wrap ''while fingerprinting the server certificate'' e), w)
      | Inr fingerprint \<Rightarrow>
          let args = [''server'', ''refresh'', ''--address='' @ roAddress opts, ''--disable-file-logging'',
                      ''--server-cert-fingerprint='' @ fingerprint];
              env = Environ E @
                (if roServerControlUser opts \<noteq> [] then [''KOPIA_SERVER_USERNAME='' @ roServerControlUser opts] else []) @
                (if roServerControlPassword opts \<noteq> [] then [''KOPIA_SERVER_PASSWORD='' @ roServerControlPassword opts] else [])
          in case RunWithLogCapture E (KopiaBinary s) args env [] w of
               ((r, _), w') \<Rightarrow> (map_option (Wrap ''while refreshing the kopia server'') r, w'))"

section \<open>core/internal/kopia/fs.go, remote.go and s3.go\<close>

record CommonRepoOpts =
  coKopiaBinary :: string
  coEncryptionPassword :: string
  coPersistCredentials :: bool
  coCacheDirectory :: string
  coReadOnly :: bool

record FSRepoOpts = CommonRepoOpts +
  DataDirectory :: string

definition InitializeFilesystem :: "'w kopia_env \<Rightarrow> FSRepoOpts \<Rightarrow> 'w \<Rightarrow> go_error option \<times> 'w" where
  "InitializeFilesystem E opts w =
     (let args = [''repository'', ''create'', ''filesystem'', ''--create-only'', ''--path='' @ DataDirectory opts,
                  ''--disable-file-logging'', ''--cache-directory='' @ coCacheDirectory opts]
      in case RunWithLogCapture E (coKopiaBinary opts) args [''KOPIA_PASSWORD='' @ coEncryptionPassword opts] [] w of
           ((r, _), w') \<Rightarrow> (map_option (Wrap ''while creating Kopia repository'') r, w'))"

definition buildConnectFSArgs :: "string \<Rightarrow> FSRepoOpts \<Rightarrow> string list" where
  "buildConnectFSArgs configFileName opts =
     [''repository'', ''connect'', ''filesystem'', ''--config-file='' @ configFileName, ''--path='' @ DataDirectory opts,
      ''--override-username=klio'', ''--override-hostname=klio'', ''--disable-file-logging'',
      ''--cache-directory='' @ coCacheDirectory opts] @
     (if coPersistCredentials opts then [''--persist-credentials''] else []) @
     (if coReadOnly opts then [''--readonly''] else [])"

definition ConnectFileSystem :: "'w kopia_env \<Rightarrow> string \<Rightarrow> FSRepoOpts \<Rightarrow> 'w \<Rightarrow> go_error option \<times> 'w" where
  "ConnectFileSystem E configFileName opts w =
     (case RunWithLogCapture E (coKopiaBinary opts) (buildConnectFSArgs configFileName opts)
             [''KOPIA_PASSWORD='' @ coEncryptionPassword opts, ''KOPIA_CHECK_FOR_UPDATES=false''] [] w of
        ((r, _), w') \<Rightarrow> (map_option (Wrap ''while connecting to Kopia repository'') r, w'))"

record RemoteRepoOpts = CommonRepoOpts +
  rmURL :: string
  rmClientCertPath :: string
  rmClientKeyPath :: string
  rmServerCertCAFile :: string
  rmUsername :: string
  rmHostname :: string

definition buildConnectRemoteArgs :: "string \<Rightarrow> RemoteRepoOpts \<Rightarrow> string list" where
  "buildConnectRemoteArgs configFileName opts =
     [''repository'', ''connect'', ''server'', ''--disable-file-logging'', ''--cache-directory='' @ coCacheDirectory opts,
      ''--config-file='' @ configFileName, ''--url='' @ rmURL opts, ''--client-certificate='' @ rmClientCertPath opts,
      ''--client-key='' @ rmClientKeyPath opts, ''--server-cert-ca-file='' @ rmServerCertCAFile opts,
      ''--override-username='' @ rmUsername opts, ''--override-hostname='' @ rmHostname opts,
      ''--metadata-cache-size-mb=0'', ''--content-cache-size-mb=0''] @
     (if coReadOnly opts then [''--readonly''] else [])"

definition getKopiaRepositoryConnectServerEnv :: "'w kopia_env \<Rightarrow> string list" where
  "getKopiaRepositoryConnectServerEnv E = Environ E @ [''KOPIA_CHECK_FOR_UPDATES=false'']"

definition ConnectRemote :: "'w kopia_env \<Rightarrow> string \<Rightarrow> RemoteRepoOpts \<Rightarrow> 'w \<Rightarrow> go_error option \<times> 'w" where
  "ConnectRemote E configFileName opts w =
     (case RunWithLogCapture E (coKopiaBinary opts) (buildConnectRemoteArgs configFileName opts)
             (getKopiaRepositoryConnectServerEnv E) [] w of
        ((r, _), w') \<Rightarrow> (map_option (Wrap ''while executing Kopia command'') r, w'))"

record S3RepoOpts = CommonRepoOpts +
  s3BucketName :: string
  s3Endpoint :: string
  s3Region :: string
  s3Prefix :: string
  s3AccessKeyID :: string
  s3SecretAccessKey :: string
  s3SessionToken :: string
  s3CustomCABundleFile :: string

definition getCommonS3Args :: "'w kopia_env \<Rightarrow> S3RepoOpts \<Rightarrow> go_error + string list" where
  "getCommonS3Args E cfg =
     (case (if s3Endpoint cfg \<noteq> []
            then (case urlParse E (s3Endpoint cfg) of
                    Inl e \<Rightarrow> Inl (Wrap ''invalid endpoint URL'' e)
                  | Inr (scheme, host) \<Rightarrow> Inr (ToLower E scheme \<noteq> ''https'', host))
            else Inr (False, [])) of
        Inl e \<Rightarrow> Inl e
      | Inr (doNotUseTLS, shortenedEndpoint) \<Rightarrow>
          Inr ([''--bucket='' @ s3BucketName cfg, ''--cache-directory='' @ coCacheDirectory cfg,
                ''--prefix='' @ path_Join [s3Prefix cfg, ''base''] @ ''/'', ''--disable-file-logging''] @
               (if s3Region cfg \<noteq> [] then [''--region='' @ s3Region cfg] else []) @
               (if shortenedEndpoint \<noteq> [] then [''--endpoint='' @ shortenedEndpoint] else []) @
               (if doNotUseTLS then [''--disable-tls''] else []) @
               (if s3CustomCABundleFile cfg \<noteq> [] then [''--root-ca-pem-path='' @ s3CustomCABundleFile cfg] else []) @
               (if s3AccessKeyID cfg = [] \<and> s3SecretAccessKey cfg = []
                then [''--access-key='' @ s3AccessKeyID cfg, ''--secret-access-key='' @ s3SecretAccessKey cfg] else [])))"

definition getCommonS3Env :: "S3RepoOpts \<Rightarrow> string list" where
  "getCommonS3Env cfg =
     [''KOPIA_LOG_DIR='' @ coCacheDirectory cfg, ''KOPIA_PASSWORD='' @ coEncryptionPassword cfg, ''KOPIA_CHECK_FOR_UPDATES=false''] @
     (if s3AccessKeyID cfg \<noteq> [] \<and> s3SecretAccessKey cfg \<noteq> []
      then [''AWS_ACCESS_KEY_ID='' @ s3AccessKeyID cfg, ''AWS_SECRET_ACCESS_KEY='' @ s3SecretAccessKey cfg] @
           (if s3SessionToken cfg \<noteq> [] then [''AWS_SESSION_TOKEN='' @ s3SessionToken cfg] else [])
      else [])"

definition InitializeS3 :: "'w kopia_env \<Rightarrow> S3RepoOpts \<Rightarrow> 'w \<Rightarrow> go_error option \<times> 'w" where
  "InitializeS3 E cfg w =
     (case getCommonS3Args E cfg of
        Inl e \<Rightarrow> (Some e, w)
      | Inr backendArgs \<Rightarrow>
          (case RunWithLogCapture E (coKopiaBinary cfg) ([''repository'', ''create'', ''s3'', ''--create-only''] @ backendArgs)
                  (Environ E @ getCommonS3Env cfg) [] w of
             ((r, _), w') \<Rightarrow> (map_option (Wrap ''while creating Kopia repository'') r, w')))"

definition buildConnectS3Args :: "'w kopia_env \<Rightarrow> string \<Rightarrow> S3RepoOpts \<Rightarrow> go_error + string list" where
  "buildConnectS3Args E configFileName opts =
     (case getCommonS3Args E opts of
        Inl e \<Rightarrow> Inl e
      | Inr backendArgs \<Rightarrow>
          Inr ([''repository'', ''connect'', ''s3'', ''--config-file='' @ configFileName,
                ''--override-username=klio'', ''--override-hostname=klio''] @
               (if coPersistCredentials opts then [''--persist-credentials''] else []) @
               (if coReadOnly opts then [''--readonly''] else []) @ backendArgs))"

definition ConnectS3 :: "'w kopia_env \<Rightarrow> string \<Rightarrow> S3RepoOpts \<Rightarrow> 'w \<Rightarrow> go_error option \<times> 'w" where
  "ConnectS3 E configFileName opts w =
     (case buildConnectS3Args E configFileName opts of
        Inl e \<Rightarrow> (Some e, w)
      | Inr args \<Rightarrow>
          (case RunWithLogCapture E (coKopiaBinary opts) args (Environ E @ getCommonS3Env opts) [] w of
             ((r, _), w') \<Rightarrow> (map_option (Wrap ''while connecting to Kopia repository'') r, w')))"

section \<open>core/internal/kopia/policy.go\<close>

definition kopiaInheritPolicyValue :: string where "kopiaInheritPolicyValue = ''inherit''"

text \<open>strconv.FormatInt in base ten, on positive numbers.\<close>

fun FormatNat :: "nat \<Rightarrow> string" where
  "FormatNat n = (if n < 10 then [char_of (48 + n)] else FormatNat (n div 10) @ [char_of (48 + n mod 10)])"

declare FormatNat.simps [simp del]

definition compressionSizeArg :: "int \<Rightarrow> string" where
  "compressionSizeArg n = (if n \<le> 0 then kopiaInheritPolicyValue else FormatNat (nat n))"

definition buildCompressionPolicyArgs :: "string \<Rightarrow> string \<Rightarrow> CompressionPolicy \<Rightarrow> string list" where
  "buildCompressionPolicyArgs configFile target policy =
     [''policy'', ''set'', ''--config-file='' @ configFile, ''--disable-file-logging'',
      ''--compression='' @ (if Algorithm policy \<noteq> [] then Algorithm policy else kopiaInheritPolicyValue),
      ''--compression-min-size='' @ compressionSizeArg (MinSize policy),
      ''--compression-max-size='' @ compressionSizeArg (MaxSize policy)] @ [target]"

definition setKopiaCompressionPolicy ::
  "'w kopia_env \<Rightarrow> Client \<Rightarrow> string \<Rightarrow> CompressionPolicy \<Rightarrow> 'w \<Rightarrow> go_error option \<times> 'w" where
  "setKopiaCompressionPolicy E s target policy w =
     client_do ''error while setting Kopia compression policy'' E s
       (buildCompressionPolicyArgs (ConfigFile s) target policy) [] w"

record Target =
  tgHostname :: string
  tgUsername :: string

definition Target_String :: "Target \<Rightarrow> string" where
  "Target_String t = tgUsername t @ ''@'' @ tgHostname t"

definition cli_SetKopiaCompressionPolicy ::
  "'w kopia_env \<Rightarrow> Client \<Rightarrow> Target \<Rightarrow> CompressionPolicy \<Rightarrow> 'w \<Rightarrow> go_error option \<times> 'w" where
  "cli_SetKopiaCompressionPolicy E s t policy w = setKopiaCompressionPolicy E s (Target_String t) policy w"

definition SetKopiaGlobalCompressionPolicy ::
  "'w kopia_env \<Rightarrow> Client \<Rightarrow> CompressionPolicy \<Rightarrow> 'w \<Rightarrow> go_error option \<times> 'w" where
  "SetKopiaGlobalCompressionPolicy E s policy w = setKopiaCompressionPolicy E s ''--global'' policy w"

section \<open>core/internal/kopia/retention.go\<close>

definition policyTarget_String :: "policyTarget \<Rightarrow> string" where
  "policyTarget_String t =
     (if ptPath t = [] then ptUserName t @ ''@'' @ ptHost t else ptUserName t @ ''@'' @ ptHost t @ '':'' @ ptPath t)"

definition isGlobal :: "policyTarget \<Rightarrow> bool" where
  "isGlobal t \<longleftrightarrow> ptHost t = [] \<and> ptUserName t = [] \<and> ptPath t = []"

definition kopiaRetentionCounters :: "string list" where
  "kopiaRetentionCounters =
     [''--keep-latest'', ''--keep-hourly'', ''--keep-daily'', ''--keep-weekly'', ''--keep-monthly'', ''--keep-annual'']"

definition buildRetentionPolicyArgs :: "string \<Rightarrow> string \<Rightarrow> string \<Rightarrow> string list" where
  "buildRetentionPolicyArgs configFile target v =
     [''policy'', ''set'', ''--config-file='' @ configFile, ''--disable-file-logging''] @
     map (\<lambda>counter. counter @ ''='' @ v) kopiaRetentionCounters @ [target]"

definition setPolicyRetention :: "'w kopia_env \<Rightarrow> Client \<Rightarrow> string \<Rightarrow> string \<Rightarrow> 'w \<Rightarrow> go_error option \<times> 'w" where
  "setPolicyRetention E s target v w =
     (case client_run E s (buildRetentionPolicyArgs (ConfigFile s) target v) [] w of ((r, _), w') \<Rightarrow> (r, w'))"

definition parsePolicyTargets :: "'w kopia_env \<Rightarrow> bytes \<Rightarrow> go_error + policyTarget list" where
  "parsePolicyTargets E raw =
     (case UnmarshalPolicies E raw of
        Inl e \<Rightarrow> Inl (Wrap ''while unmarshalling Kopia policy list'' e)
      | Inr targets \<Rightarrow> Inr targets)"

definition listPolicyTargets :: "'w kopia_env \<Rightarrow> Client \<Rightarrow> 'w \<Rightarrow> (go_error + policyTarget list) \<times> 'w" where
  "listPolicyTargets E s w =
     (case client_run E s [''policy'', ''list'', ''--json'', ''--config-file='' @ ConfigFile s, ''--disable-file-logging''] [] w of
        ((Some e, _), w') \<Rightarrow> (Inl (Wrap ''while listing Kopia policies'' e), w')
      | ((None, out), w') \<Rightarrow> (parsePolicyTargets E out, w'))"

fun reset_targets :: "'w kopia_env \<Rightarrow> Client \<Rightarrow> policyTarget list \<Rightarrow> 'w \<Rightarrow> go_error option \<times> 'w" where
  "reset_targets E s [] w = (None, w)"
| "reset_targets E s (target # targets) w =
     (if isGlobal target then reset_targets E s targets w
      else case setPolicyRetention E s (policyTarget_String target) ''inherit'' w of
             (Some e, w') \<Rightarrow> (Some (Wrap ''while resetting Kopia retention'' e), w')
           | (None, w') \<Rightarrow> reset_targets E s targets w')"

definition DisableKopiaRetention :: "'w kopia_env \<Rightarrow> Client \<Rightarrow> 'w \<Rightarrow> go_error option \<times> 'w" where
  "DisableKopiaRetention E s w =
     (case setPolicyRetention E s ''--global'' ''0'' w of
        (Some e, w1) \<Rightarrow> (Some (Wrap ''while disabling global Kopia retention'' e), w1)
      | (None, w1) \<Rightarrow>
          (case listPolicyTargets E s w1 of
             (Inl e, w2) \<Rightarrow> (Some e, w2)
           | (Inr targets, w2) \<Rightarrow> reset_targets E s targets w2))"

section \<open>core/internal/kopia/cache.go\<close>

definition CleanupCacheDirectory :: "'w kopia_env \<Rightarrow> string \<Rightarrow> 'w \<Rightarrow> go_error option \<times> 'w" where
  "CleanupCacheDirectory E name w =
     (let cleanPath = path_Clean name
      in if hd cleanPath \<noteq> CHR ''/'' then (Some (Sentinel ''cache directory must be an absolute path''), w)
         else if cleanPath = ''/'' then (Some (Sentinel ''cannot clean root directory''), w)
         else (case RemoveAll E cleanPath w of (r, w') \<Rightarrow> (map_option (Wrap ''while cleaning up cache directory'') r, w')))"

section \<open>The Kopia client of the rest of the code\<close>

definition cli_client :: "'w kopia_env \<Rightarrow> Client \<Rightarrow> RefreshServerOptions \<Rightarrow> 'w kopia_client" where
  "cli_client E s refresh =
     \<lparr>ListSnapshots = cli_ListSnapshots E s, DeleteSnapshot = cli_DeleteSnapshot E s,
      RestoreSingleFile = cli_RestoreSingleFile E s, RefreshServer = cli_RefreshServer E s refresh,
      UnmarshalBackup = UnmarshalBackupJSON E\<rparr>"

section \<open>What the wrapper relies on\<close>

text \<open>
  A command line as kopia reads it: its operands, the values of a flag, the configuration file that
  selects the repository, and the tags, each split at its first colon.
\<close>

definition operands :: "string list \<Rightarrow> string list" where
  "operands args = filter (\<lambda>a. take 2 a \<noteq> ''--'') args"

definition flag_values :: "string \<Rightarrow> string list \<Rightarrow> string list" where
  "flag_values f args = map (drop (length f + 1)) (filter (prefix (f @ ''='')) args)"

definition config_of :: "string list \<Rightarrow> string" where
  "config_of args = (case flag_values ''--config-file'' args of [] \<Rightarrow> [] | c # _ \<Rightarrow> c)"

definition cli_tags :: "string list \<Rightarrow> (string \<times> string) list" where
  "cli_tags args = map (\<lambda>t. case Cut t (CHR '':'') of (k, v, _) \<Rightarrow> (k, v)) (flag_values ''--tags'' args)"

text \<open>
  Files by path.  The tree at a path maps what follows the path to the content of the file there: the
  empty string at a file, a rest that starts with a slash below a directory.
\<close>

type_synonym tree = "string \<rightharpoonup> bytes"

definition subtree :: "tree \<Rightarrow> string \<Rightarrow> tree" where
  "subtree fs p = (\<lambda>rel. if rel = [] \<or> hd rel = CHR ''/'' then fs (p @ rel) else None)"

definition below :: "string \<Rightarrow> string \<Rightarrow> bool" where
  "below p q \<longleftrightarrow> q = p \<or> prefix (p @ ''/'') q"

definition overlay :: "tree \<Rightarrow> string \<Rightarrow> tree \<Rightarrow> tree" where
  "overlay fs p t = (\<lambda>q. if below p q then (case t (drop (length p) q) of Some b \<Rightarrow> Some b | None \<Rightarrow> fs q) else fs q)"

text \<open>
  What there is to see: the files of the machine; for a configuration file its repository and the host
  name it was connected with; for a repository its snapshots, their trees and the retention counters of
  its policies (of the global policy and of a target).
\<close>

record 'w kopia_view =
  vFiles :: "'w \<Rightarrow> tree"
  vRepo :: "string \<Rightarrow> string"
  vHost :: "string \<Rightarrow> string"
  vSnaps :: "string \<Rightarrow> 'w \<Rightarrow> Manifest list"
  vTree :: "string \<Rightarrow> 'w \<Rightarrow> string \<Rightarrow> tree"
  vIgnored :: "tree \<Rightarrow> string \<Rightarrow> bool"
  vRetention :: "string \<Rightarrow> 'w \<Rightarrow> string option \<Rightarrow> string \<Rightarrow> nat option"

definition same_repo :: "'w kopia_view \<Rightarrow> string \<Rightarrow> 'w \<Rightarrow> 'w \<Rightarrow> bool" where
  "same_repo V R w w' \<longleftrightarrow> vSnaps V R w' = vSnaps V R w \<and> vTree V R w' = vTree V R w \<and> vRetention V R w' = vRetention V R w"

definition same_repos :: "'w kopia_view \<Rightarrow> 'w \<Rightarrow> 'w \<Rightarrow> bool" where
  "same_repos V w w' \<longleftrightarrow> (\<forall>R. same_repo V R w w')"

definition visible :: "'w kopia_view \<Rightarrow> tree \<Rightarrow> tree" where
  "visible V t = (\<lambda>rel. if vIgnored V t rel then None else t rel)"

definition stored_tags :: "(string \<times> string) list \<Rightarrow> string \<rightharpoonup> string" where
  "stored_tags tags = map_of (map (\<lambda>(k, v). (userTagPrefix @ k, v)) tags)"

definition created_tree :: "'w kopia_view \<Rightarrow> string list \<Rightarrow> string \<Rightarrow> bytes \<Rightarrow> 'w \<Rightarrow> tree" where
  "created_tree V args p stdin w =
     (case flag_values ''--stdin-file'' args of
        f # _ \<Rightarrow> [''/'' @ f \<mapsto> stdin]
      | [] \<Rightarrow> visible V (subtree (vFiles V w) p))"

text \<open>The commands, by their operands.\<close>

definition list_law :: "'w kopia_env \<Rightarrow> 'w kopia_view \<Rightarrow> bool" where
  "list_law E V \<longleftrightarrow> (\<forall>b args env i w r out w'. runCmd E b args env i w = (Waited r out, w') \<longrightarrow>
     operands args = [''snapshot'', ''list''] \<longrightarrow>
     same_repos V w w' \<and> vFiles V w' = vFiles V w \<and>
     (r = None \<longrightarrow> UnmarshalManifests E out = Inr (filter (has_tags (cli_tags args)) (vSnaps V (vRepo V (config_of args)) w))))"

definition create_law :: "'w kopia_env \<Rightarrow> 'w kopia_view \<Rightarrow> bool" where
  "create_law E V \<longleftrightarrow> (\<forall>b args env i w r out w' p. runCmd E b args env i w = (Waited r out, w') \<longrightarrow>
     operands args = [''snapshot'', ''create'', p] \<longrightarrow>
     (let R = vRepo V (config_of args) in
        vFiles V w' = vFiles V w \<and> (\<forall>R'. R' \<noteq> R \<longrightarrow> same_repo V R' w w') \<and>
        (\<forall>m \<in> set (vSnaps V R w). m \<in> set (vSnaps V R w') \<and> vTree V R w' (ID m) = vTree V R w (ID m)) \<and>
        (r = None \<longrightarrow> (\<exists>m. mset (vSnaps V R w') = add_mset m (mset (vSnaps V R w)) \<and>
           Host (Source m) = vHost V (config_of args) \<and> Tags m = stored_tags (cli_tags args) \<and>
           vTree V R w' (ID m) = created_tree V args p i w))))"

definition delete_law :: "'w kopia_env \<Rightarrow> 'w kopia_view \<Rightarrow> bool" where
  "delete_law E V \<longleftrightarrow> (\<forall>b args env i w r out w' ids. runCmd E b args env i w = (Waited r out, w') \<longrightarrow>
     operands args = [''snapshot'', ''delete''] @ ids \<longrightarrow>
     (let R = vRepo V (config_of args) in
        vFiles V w' = vFiles V w \<and> (\<forall>R'. R' \<noteq> R \<longrightarrow> same_repo V R' w w') \<and>
        (vSnaps V R w' = filter (\<lambda>m. ID m \<notin> set ids) (vSnaps V R w) \<or> r \<noteq> None \<and> vSnaps V R w' = vSnaps V R w)))"

definition restore_law :: "'w kopia_env \<Rightarrow> 'w kopia_view \<Rightarrow> bool" where
  "restore_law E V \<longleftrightarrow> (\<forall>b args env i w r out w' os. runCmd E b args env i w = (Waited r out, w') \<longrightarrow>
     operands args = ''restore'' # os \<longrightarrow>
     same_repos V w w' \<and>
     (\<forall>s d. os = [s, d] \<longrightarrow>
        (\<forall>q. \<not> below d q \<longrightarrow> vFiles V w' q = vFiles V w q) \<and>
        (r = None \<longrightarrow> vFiles V w' = overlay (vFiles V w) d (vTree V (vRepo V (config_of args)) w s))))"

text \<open>A value of a retention flag: a number, or nothing for a counter that is inherited.\<close>

definition retention_value :: "string \<Rightarrow> nat option" where
  "retention_value v =
     (if v = ''inherit'' then None
      else Some (foldl (\<lambda>n c. 10 * n + (of_char c - 48)) 0 v))"

definition policy_target :: "string list \<Rightarrow> string option \<Rightarrow> bool" where
  "policy_target args t \<longleftrightarrow>
     (if ''--global'' \<in> set args then t = None else \<exists>x. operands args = [''policy'', ''set'', x] \<and> t = Some x)"

definition policy_law :: "'w kopia_env \<Rightarrow> 'w kopia_view \<Rightarrow> bool" where
  "policy_law E V \<longleftrightarrow>
     (\<forall>b args env i w r out w' t. runCmd E b args env i w = (Waited r out, w') \<longrightarrow>
        take 2 (operands args) = [''policy'', ''set''] \<longrightarrow> policy_target args t \<longrightarrow>
        (let R = vRepo V (config_of args) in
           (\<forall>x. x \<noteq> t \<longrightarrow> vRetention V R w' x = vRetention V R w x) \<and>
           (r = None \<longrightarrow> (\<forall>c. vRetention V R w' t c =
              (case flag_values c args of [] \<Rightarrow> vRetention V R w t c | v # _ \<Rightarrow> retention_value v))))) \<and>
     (\<forall>b args env i w r out w'. runCmd E b args env i w = (Waited r out, w') \<longrightarrow>
        operands args = [''policy'', ''list''] \<longrightarrow>
        same_repos V w w' \<and>
        (r = None \<longrightarrow> (\<forall>ts. UnmarshalPolicies E out = Inr ts \<longrightarrow>
           (\<forall>t \<in> set ts. take 2 (policyTarget_String t) \<noteq> ''--'') \<and>
           (\<forall>x c. vRetention V (vRepo V (config_of args)) w (Some x) c \<noteq> None \<longrightarrow>
              (\<exists>t \<in> set ts. \<not> isGlobal t \<and> policyTarget_String t = x)))))"

text \<open>Identifiers are unique and no flags; a temporary directory is absolute and empty.\<close>

definition abs_path :: "string \<Rightarrow> bool" where
  "abs_path p \<longleftrightarrow> p \<noteq> ''/'' \<and> hd p = CHR ''/'' \<and> path_Clean p = p"

definition rooted :: "string \<Rightarrow> bool" where
  "rooted p \<longleftrightarrow> p \<noteq> [] \<and> hd p = CHR ''/''"

definition machine_law :: "'w kopia_env \<Rightarrow> 'w kopia_view \<Rightarrow> bool" where
  "machine_law E V \<longleftrightarrow>
     (\<forall>b args env i w x w'. runCmd E b args env i w = (x, w') \<longrightarrow> (\<forall>r out. x \<noteq> Waited r out) \<longrightarrow> w' = w) \<and>
     (\<forall>b args env i w r out w'. runCmd E b args env i w = (Waited r out, w') \<longrightarrow>
        operands args = [''server'', ''refresh''] \<or> operands args = [''snapshot'', ''verify''] \<longrightarrow> same_repos V w w') \<and>
     (\<forall>R w. distinct (map ID (vSnaps V R w))) \<and>
     (\<forall>R w. \<forall>m \<in> set (vSnaps V R w). ID m \<noteq> [] \<and> take 2 (ID m) \<noteq> ''--'') \<and>
     (\<forall>w r w'. MkdirTemp E w = (r, w') \<longrightarrow> same_repos V w w' \<and> vFiles V w' = vFiles V w \<and>
        (\<forall>d. r = Inr d \<longrightarrow> abs_path d \<and> (\<forall>q. below d q \<longrightarrow> vFiles V w q = None))) \<and>
     (\<forall>d w r w'. RemoveAll E d w = (r, w') \<longrightarrow> same_repos V w w' \<and> (\<forall>q. \<not> below d q \<longrightarrow> vFiles V w' q = vFiles V w q)) \<and>
     (\<forall>p w b. ReadAll E p w = Inr b \<longrightarrow> vFiles V w p = Some b)"

definition kopia_cli_laws :: "'w kopia_env \<Rightarrow> 'w kopia_view \<Rightarrow> bool" where
  "kopia_cli_laws E V \<longleftrightarrow>
     list_law E V \<and> create_law E V \<and> delete_law E V \<and> restore_law E V \<and> policy_law E V \<and> machine_law E V"

section \<open>A concrete Kopia command line\<close>

text \<open>
  Kopia on a machine in memory: the files, and for every configuration file a repository of its own with
  its snapshots (identifier, host and tags), their trees and the retention counters of its policies.
\<close>

type_synonym raw_manifest = "string \<times> string \<times> (string \<times> string) list"

record box =
  bxFiles :: "(string \<times> bytes) list"
  bxSnaps :: "string \<Rightarrow> raw_manifest list"
  bxTrees :: "string \<Rightarrow> string \<Rightarrow> (string \<times> bytes) list"
  bxTargets :: "string \<Rightarrow> string list"
  bxCounters :: "string \<Rightarrow> string option \<Rightarrow> string \<Rightarrow> nat option"

definition to_manifest :: "raw_manifest \<Rightarrow> Manifest" where
  "to_manifest m = (case m of (i, h, tags) \<Rightarrow> \<lparr>ID = i, Source = \<lparr>Host = h, UserName = ''klio'', SourcePath = []\<rparr>,
     RootEntry = Some i, StartTime = 0, EndTime = 0, Tags = map_of tags\<rparr>)"

definition enc_raws :: "raw_manifest list \<Rightarrow> bytes" where
  "enc_raws ms = enc_strings (concat (map (\<lambda>(i, h, tags).
     [i, h, replicate (length tags) (CHR ''t'')] @ concat (map (\<lambda>(k, v). [k, v]) tags)) ms))"

fun pair_up :: "string list \<Rightarrow> (string \<times> string) list" where
  "pair_up (k # v # rest) = (k, v) # pair_up rest"
| "pair_up _ = []"

function dec_raws :: "string list \<Rightarrow> raw_manifest list" where
  "dec_raws (i # h # n # rest) = (i, h, pair_up (take (2 * length n) rest)) # dec_raws (drop (2 * length n) rest)"
| "dec_raws [] = []"
| "dec_raws [a] = []"
| "dec_raws [a, b] = []"
  by pat_completeness auto
termination by (relation "measure length") auto

definition bx_raws :: "box \<Rightarrow> string \<Rightarrow> raw_manifest list" where
  "bx_raws w R = (if distinct (map fst (bxSnaps w R)) \<and> list_all (\<lambda>m. fst m \<noteq> [] \<and> take 2 (fst m) \<noteq> ''--'') (bxSnaps w R)
                  then bxSnaps w R else [])"

definition bx_target_ok :: "string \<Rightarrow> bool" where
  "bx_target_ok x \<longleftrightarrow> CHR ''@'' \<in> set x \<and> x \<noteq> ''@'' \<and> take 2 x \<noteq> ''--''"

definition bx_target :: "string \<Rightarrow> policyTarget" where
  "bx_target x = (case Cut x (CHR ''@'') of (u, h, _) \<Rightarrow> \<lparr>ptHost = h, ptUserName = u, ptPath = []\<rparr>)"

definition bx_counter :: "box \<Rightarrow> string \<Rightarrow> string option \<Rightarrow> string \<Rightarrow> nat option" where
  "bx_counter w R x c =
     (case x of None \<Rightarrow> bxCounters w R None c
      | Some t \<Rightarrow> if t \<in> set (bxTargets w R) \<and> bx_target_ok t then bxCounters w R x c else None)"

definition bx_ignored :: "tree \<Rightarrow> string \<Rightarrow> bool" where
  "bx_ignored t rel \<longleftrightarrow> t ''/.kopiaignore'' \<noteq> None \<and> (below ''/global/pg_control'' rel \<or> below ''/pg_wal'' rel)"

definition bx_subtree :: "(string \<times> bytes) list \<Rightarrow> string \<Rightarrow> (string \<times> bytes) list" where
  "bx_subtree files p = map (\<lambda>(q, b). (drop (length p) q, b)) (filter (\<lambda>(q, _). below p q) files)"

definition bx_visible :: "(string \<times> bytes) list \<Rightarrow> (string \<times> bytes) list" where
  "bx_visible t = filter (\<lambda>e. \<not> bx_ignored (map_of t) (fst e)) t"

definition bx_overlay :: "(string \<times> bytes) list \<Rightarrow> string \<Rightarrow> (string \<times> bytes) list \<Rightarrow> (string \<times> bytes) list" where
  "bx_overlay files d t =
     map (\<lambda>(rel, b). (d @ rel, b)) (filter (\<lambda>e. fst e = [] \<or> hd (fst e) = CHR ''/'') t) @ files"

definition bx_create :: "string list \<Rightarrow> string \<Rightarrow> bytes \<Rightarrow> box \<Rightarrow> proc \<times> box" where
  "bx_create args p i w =
     (let R = config_of args; s = CHR ''s'' # replicate (length (bxSnaps w R)) (CHR ''s'');
          t = (case flag_values ''--stdin-file'' args of
                 f # _ \<Rightarrow> [(''/'' @ f, i)] | [] \<Rightarrow> bx_visible (bx_subtree (bxFiles w) p))
      in if bx_raws w R \<noteq> bxSnaps w R \<or> s \<in> set (map fst (bxSnaps w R)) then (Waited (Some ErrUnexpectedEOF) [], w)
         else (Waited None [],
               w\<lparr>bxSnaps := (bxSnaps w)(R := bxSnaps w R @ [(s, ''pg'', map (\<lambda>(k, v). (userTagPrefix @ k, v)) (cli_tags args))]),
                 bxTrees := (bxTrees w)(R := (bxTrees w R)(s := t))\<rparr>))"

definition bx_policy :: "string list \<Rightarrow> string option \<Rightarrow> box \<Rightarrow> box" where
  "bx_policy args x w =
     (let R = config_of args
      in w\<lparr>bxTargets := (case x of None \<Rightarrow> bxTargets w | Some t \<Rightarrow> (bxTargets w)(R := t # bxTargets w R)),
           bxCounters := (bxCounters w)(R := (bxCounters w R)(x := (\<lambda>c.
             case flag_values c args of [] \<Rightarrow> bx_counter w R x c | v # _ \<Rightarrow> retention_value v)))\<rparr>)"

definition bx_run :: "string \<Rightarrow> string list \<Rightarrow> string list \<Rightarrow> bytes \<Rightarrow> box \<Rightarrow> proc \<times> box" where
  "bx_run b args env i w =
     (let R = config_of args; ops = operands args
      in if ops = [''snapshot'', ''list''] then
           (Waited None (enc_raws (filter (\<lambda>m. has_tags (cli_tags args) (to_manifest m)) (bx_raws w R))), w)
         else if take 2 ops = [''snapshot'', ''create''] \<and> length ops = 3 then bx_create args (ops ! 2) i w
         else if take 2 ops = [''snapshot'', ''delete''] then
           (if bx_raws w R \<noteq> bxSnaps w R then (Waited (Some ErrUnexpectedEOF) [], w)
            else (Waited None [], w\<lparr>bxSnaps := (bxSnaps w)(R := filter (\<lambda>m. fst m \<notin> set (drop 2 ops)) (bxSnaps w R))\<rparr>))
         else if take 1 ops = [''restore''] \<and> length ops = 3 then
           (Waited None [], w\<lparr>bxFiles := bx_overlay (bxFiles w) (ops ! 2) (bxTrees w R (ops ! 1))\<rparr>)
         else if take 2 ops = [''policy'', ''set''] then
           (if ''--global'' \<in> set args then (Waited None [], bx_policy args None w)
            else if length ops = 3 \<and> bx_target_ok (ops ! 2) then (Waited None [], bx_policy args (Some (ops ! 2)) w)
            else (Waited (Some ErrNotExist) [], w))
         else if ops = [''policy'', ''list''] then (Waited None (enc_strings (filter bx_target_ok (bxTargets w R))), w)
         else if take 2 ops = [''repository'', ''connect''] then (Waited None [], w)
         else (Waited (Some ErrNotExist) [], w))"

definition box_env :: "(bytes \<Rightarrow> go_error + BackupMetadata) \<Rightarrow> box kopia_env" where
  "box_env unmarshal =
     \<lparr>Environ = [''PATH=/bin''], runCmd = bx_run, LookPath = (\<lambda>b. Inr (''/bin/'' @ b)),
      MkdirTemp = (\<lambda>w. if list_ex (\<lambda>e. below ''/tmp/kopia_snapshot'' (fst e)) (bxFiles w) then (Inl ErrUnexpectedEOF, w)
                       else (Inr ''/tmp/kopia_snapshot'', w)),
      RemoveAll = (\<lambda>d w. (None, w\<lparr>bxFiles := filter (\<lambda>e. \<not> below d (fst e)) (bxFiles w)\<rparr>)),
      OpenFile = (\<lambda>p w. case map_of (bxFiles w) p of None \<Rightarrow> Some ErrNotExist | Some _ \<Rightarrow> None),
      ReadAll = (\<lambda>p w. case map_of (bxFiles w) p of None \<Rightarrow> Inl ErrNotExist | Some b \<Rightarrow> Inr b),
      UnmarshalManifests = (\<lambda>b. Inr (map to_manifest (dec_raws (dec_strings [] b)))),
      UnmarshalVerifyResult = (\<lambda>b. Inr \<lparr>ErrorCount = 0, ErrorStrings = []\<rparr>),
      UnmarshalPolicies = (\<lambda>b. Inr (map bx_target (dec_strings [] b))),
      UnmarshalBackupJSON = unmarshal, pemFirstBlock = (\<lambda>b. None), certificateSum = (\<lambda>b. Inr []),
      urlParse = (\<lambda>u. Inr (''https'', u)), ToLower = id\<rparr>"

definition box_view :: "box kopia_view" where
  "box_view =
     \<lparr>vFiles = (\<lambda>w. map_of (bxFiles w)), vRepo = (\<lambda>c. c), vHost = (\<lambda>c. ''pg''),
      vSnaps = (\<lambda>R w. map to_manifest (bx_raws w R)), vTree = (\<lambda>R w s. map_of (bxTrees w R s)),
      vIgnored = bx_ignored, vRetention = (\<lambda>R w. bx_counter w R)\<rparr>"

definition example_box :: box where
  "example_box =
     \<lparr>bxFiles = [], bxSnaps = (\<lambda>R. []), bxTrees = (\<lambda>R s. []), bxTargets = (\<lambda>R. [''klio@pg'']),
      bxCounters = (\<lambda>R x c. if x = None then Some 10 else Some 3)\<rparr>"

definition example_client :: Client where
  "example_client = \<lparr>ConfigFile = ''/etc/kopia'', KopiaBinary = ''/bin/kopia'', Password = []\<rparr>"

section \<open>Lemmas: command lines\<close>

named_theorems cli_simps \<open>operands and flags of the command lines of the wrapper\<close>

lemma operands_simps [cli_simps]:
  "operands [] = []" "operands (a # as) = (if take 2 a = ''--'' then operands as else a # operands as)"
  "operands (as @ bs) = operands as @ operands bs"
  by (auto simp: operands_def)

lemma flag_values_simps [cli_simps]:
  "flag_values f [] = []"
  "flag_values f (a # as) = (if prefix (f @ ''='') a then [drop (length f + 1) a] else []) @ flag_values f as"
  "flag_values f (as @ bs) = flag_values f as @ flag_values f bs"
  by (auto simp: flag_values_def)

lemma tag_flags_operands [cli_simps]: "operands (tag_flags tags) = []"
  by (auto simp: operands_def tag_flags_def filter_empty_conv)

lemma tag_flags_other [cli_simps]:
  "flag_values ''--config-file'' (tag_flags tags) = []" "flag_values ''--stdin-file'' (tag_flags tags) = []"
  by (auto simp: flag_values_def tag_flags_def filter_empty_conv)

lemma tag_flags_tags [cli_simps]: "flag_values ''--tags'' (tag_flags tags) = map (\<lambda>(k, v). k @ '':'' @ v) tags"
  by (induction tags) (auto simp: flag_values_def tag_flags_def)

lemma cut_tags: "tag_names tags \<Longrightarrow>
    map ((\<lambda>t. case Cut t (CHR '':'') of (k, v, _) \<Rightarrow> (k, v)) \<circ> (\<lambda>(k, v). k @ CHR '':'' # v)) tags = tags"
  by (induction tags) (auto simp: tag_names_def Cut_append)

lemma prefix_plain [cli_simps]: "prefix (c # cs) (d # ds @ e) \<longleftrightarrow> c = d \<and> prefix cs (ds @ e)"
  by simp

section \<open>Lemmas: the client\<close>

lemma cli_lawsD:
  assumes "kopia_cli_laws E V"
  shows "list_law E V" "create_law E V" "delete_law E V" "restore_law E V" "policy_law E V" "machine_law E V"
  using assms by (simp_all add: kopia_cli_laws_def)

lemma machine_lawD:
  assumes "machine_law E V"
  shows "runCmd E b args env i w = (x, w') \<Longrightarrow> \<forall>r out. x \<noteq> Waited r out \<Longrightarrow> w' = w"
    and "runCmd E b args env i w = (Waited r out, w') \<Longrightarrow>
      operands args = [''server'', ''refresh''] \<or> operands args = [''snapshot'', ''verify''] \<Longrightarrow> same_repos V w w'"
    and "distinct (map ID (vSnaps V R w))"
    and "m \<in> set (vSnaps V R w) \<Longrightarrow> ID m \<noteq> [] \<and> take 2 (ID m) \<noteq> ''--''"
    and "MkdirTemp E w = (rd, w') \<Longrightarrow> same_repos V w w' \<and> vFiles V w' = vFiles V w \<and>
        (\<forall>d. rd = Inr d \<longrightarrow> abs_path d \<and> (\<forall>q. below d q \<longrightarrow> vFiles V w q = None))"
    and "RemoveAll E d w = (re, w') \<Longrightarrow> same_repos V w w' \<and> (\<forall>q. \<not> below d q \<longrightarrow> vFiles V w' q = vFiles V w q)"
    and "ReadAll E p w = Inr bs \<Longrightarrow> vFiles V w p = Some bs"
proof -
  note L = assms [unfolded machine_law_def]
  note L1 = L [THEN conjunct2] note L2 = L1 [THEN conjunct2] note L3 = L2 [THEN conjunct2]
  note L4 = L3 [THEN conjunct2] note L5 = L4 [THEN conjunct2]
  show "runCmd E b args env i w = (x, w') \<Longrightarrow> \<forall>r out. x \<noteq> Waited r out \<Longrightarrow> w' = w"
    using L [THEN conjunct1] by blast
  show "runCmd E b args env i w = (Waited r out, w') \<Longrightarrow>
      operands args = [''server'', ''refresh''] \<or> operands args = [''snapshot'', ''verify''] \<Longrightarrow> same_repos V w w'"
    using L1 [THEN conjunct1] by blast
  show "distinct (map ID (vSnaps V R w))"
    using L2 [THEN conjunct1] by blast
  show "m \<in> set (vSnaps V R w) \<Longrightarrow> ID m \<noteq> [] \<and> take 2 (ID m) \<noteq> ''--''"
    using L3 [THEN conjunct1] by blast
  show "MkdirTemp E w = (rd, w') \<Longrightarrow> same_repos V w w' \<and> vFiles V w' = vFiles V w \<and>
        (\<forall>d. rd = Inr d \<longrightarrow> abs_path d \<and> (\<forall>q. below d q \<longrightarrow> vFiles V w q = None))"
    using L4 [THEN conjunct1] by blast
  show "RemoveAll E d w = (re, w') \<Longrightarrow> same_repos V w w' \<and> (\<forall>q. \<not> below d q \<longrightarrow> vFiles V w' q = vFiles V w q)"
    using L5 [THEN conjunct1] by blast
  show "ReadAll E p w = Inr bs \<Longrightarrow> vFiles V w p = Some bs"
    using L5 [THEN conjunct2] by blast
qed

lemma client_run_cases:
  assumes "kopia_cli_laws E V" and "client_run E s args i w = ((r, out), w')"
  obtains (not_run) "r \<noteq> None" and "w' = w"
  | (run) r' where "runCmd E (KopiaBinary s) args (kopiaEnvironmentVariables E s) i w = (Waited r' out, w')"
      and "r = None \<longleftrightarrow> r' = None"
proof -
  obtain x v where x: "runCmd E (KopiaBinary s) args (kopiaEnvironmentVariables E s) i w = (x, v)" by force
  then have v: "\<forall>r out. x \<noteq> Waited r out \<Longrightarrow> v = w"
    using machine_lawD(1) [OF cli_lawsD(6) [OF assms(1)]] by blast
  show thesis
  proof (cases x)
    case (Waited r' o')
    with x assms(2) show ?thesis
      by (cases r') (auto simp: client_run_def RunWithLogCapture_def intro: run)
  qed (use x v assms(2) in \<open>auto simp: client_run_def RunWithLogCapture_def intro: not_run\<close>)
qed

lemma same_repos_refl [simp]: "same_repos V w w" "same_repo V R w w"
  by (auto simp: same_repos_def same_repo_def)

lemma same_repos_trans: "same_repos V w w' \<Longrightarrow> same_repos V w' w'' \<Longrightarrow> same_repos V w w''"
  by (auto simp: same_repos_def same_repo_def)

lemma cli_ListSnapshots_ok:
  assumes laws: "kopia_cli_laws E V" and "cli_ListSnapshots E s tags w = (r, w')"
  shows "same_repos V w w' \<and> vFiles V w' = vFiles V w \<and>
    (\<forall>es. r = Inr es \<longrightarrow> tag_names tags \<longrightarrow> es = filter (has_tags tags) (vSnaps V (vRepo V (ConfigFile s)) w))"
proof -
  let ?args = "[''snapshot'', ''list'', ''--disable-file-logging'', ''--all'', ''--json'', ''--config-file='' @ ConfigFile s]
                 @ tag_flags tags"
  obtain e out v where run: "client_run E s ?args [] w = ((e, out), v)" by (metis surj_pair)
  have v: "w' = v" and r: "r = (case e of Some e \<Rightarrow> Inl (Wrap ''while executing Kopia command'' e) | None \<Rightarrow>
      (case UnmarshalManifests E out of Inl e \<Rightarrow> Inl (Wrap ''while unmarshalling kopia command output'' e) | Inr es \<Rightarrow> Inr es))"
    using assms(2) run unfolding cli_ListSnapshots_def Let_def by (auto split: option.splits sum.splits)
  from laws run show ?thesis
  proof (cases rule: client_run_cases)
    case (run r')
    have a: "operands ?args = [''snapshot'', ''list'']" "config_of ?args = ConfigFile s"
      and t: "tag_names tags \<Longrightarrow> cli_tags ?args = tags"
      by (simp_all add: cli_simps config_of_def cli_tags_def cut_tags)
    have "list_law E V" using laws by (simp add: kopia_cli_laws_def)
    then have *: "same_repos V w v \<and> vFiles V v = vFiles V w \<and>
       (r' = None \<longrightarrow> UnmarshalManifests E out = Inr (filter (has_tags (cli_tags ?args)) (vSnaps V (vRepo V (ConfigFile s)) w)))"
      using run(1) a unfolding list_law_def by metis
    then show ?thesis using run(2) r t v by (auto split: option.splits sum.splits)
  qed (use r v in auto)
qed

lemma client_do_cases:
  assumes "kopia_cli_laws E V" and "client_do msg E s args i w = (r, w')"
  obtains (not_run) "r \<noteq> None" and "w' = w"
  | (run) r' out where "runCmd E (KopiaBinary s) args (kopiaEnvironmentVariables E s) i w = (Waited r' out, w')"
      and "r = None \<longleftrightarrow> r' = None"
proof -
  obtain e out v where cr: "client_run E s args i w = ((e, out), v)" by (metis surj_pair)
  with assms(2) have eq: "v = w'" "r = map_option (Wrap msg) e" by (auto simp: client_do_def)
  from assms(1) cr show thesis
  proof (cases rule: client_run_cases)
    case not_run
    with eq that(1) show ?thesis by simp
  next
    case (run r')
    with eq that(2) show ?thesis by simp
  qed
qed

lemma cli_DeleteSnapshot_ok:
  assumes laws: "kopia_cli_laws E V" and "cli_DeleteSnapshot E s i w = (r, w')"
  shows "vSnaps V (vRepo V (ConfigFile s)) w' = filter (\<lambda>m. ID m \<noteq> i) (vSnaps V (vRepo V (ConfigFile s)) w) \<or>
    r \<noteq> None \<and> vSnaps V (vRepo V (ConfigFile s)) w' = vSnaps V (vRepo V (ConfigFile s)) w"
  using laws assms(2) [unfolded cli_DeleteSnapshot_def]
proof (cases rule: client_do_cases)
  case (run r' out)
  let ?args = "[''snapshot'', ''delete'', ''--delete'', ''--config-file='' @ ConfigFile s, ''--disable-file-logging'', i]"
  let ?ids = "operands [i]"
  let ?S = "vSnaps V (vRepo V (ConfigFile s))"
  have a: "operands ?args = [''snapshot'', ''delete''] @ ?ids"
    by (simp add: cli_simps)
  have c: "config_of ?args = ConfigFile s" by (simp add: cli_simps config_of_def)
  have "?S w' = filter (\<lambda>m. ID m \<notin> set ?ids) (?S w) \<or> r' \<noteq> None \<and> ?S w' = ?S w"
    using cli_lawsD(3) [OF laws, unfolded delete_law_def, rule_format, OF run(1) a] c by (auto simp: Let_def)
  moreover have "filter (\<lambda>m. ID m \<notin> set ?ids) (?S w) = filter (\<lambda>m. ID m \<noteq> i) (?S w)"
    by (rule filter_cong) (use machine_lawD(4) [OF cli_lawsD(6) [OF laws]] in \<open>auto simp: operands_simps\<close>)
  ultimately show ?thesis using run(2) by auto
qed auto

lemma RefreshServer_pure:
  assumes laws: "kopia_cli_laws E V" and "cli_RefreshServer E s opts w = (r, w')"
  shows "same_repos V w w'"
proof (cases "LeafFingerprint E (roServerCertFile opts) w")
  case (Inr f)
  let ?args = "[''server'', ''refresh'', ''--address='' @ roAddress opts, ''--disable-file-logging'',
                      ''--server-cert-fingerprint='' @ f]"
  let ?env = "Environ E @
                (if roServerControlUser opts \<noteq> [] then [''KOPIA_SERVER_USERNAME='' @ roServerControlUser opts] else []) @
                (if roServerControlPassword opts \<noteq> [] then [''KOPIA_SERVER_PASSWORD='' @ roServerControlPassword opts] else [])"
  obtain x v where x: "runCmd E (KopiaBinary s) ?args ?env [] w = (x, v)" by force
  have "w' = v" using assms(2) Inr x
    by (auto simp: cli_RefreshServer_def Let_def RunWithLogCapture_def split: proc.splits option.splits)
  moreover have "operands ?args = [''server'', ''refresh'']" by (simp add: cli_simps)
  ultimately show ?thesis
    using machine_lawD(1) [OF cli_lawsD(6) [OF laws] x] machine_lawD(2) [OF cli_lawsD(6) [OF laws]] x
    by (cases x) auto
qed (use assms(2) in \<open>auto simp: cli_RefreshServer_def\<close>)

section \<open>Lemmas: absolute paths\<close>

lemma split_on_mid: "split_on c (a @ c # b) = split_on c a @ split_on c b"
  by (induction a) (auto split: list.splits)

lemma abs_path_Join:
  assumes "abs_path d" and "es \<noteq> []" and plain: "\<And>e. e \<in> set es \<Longrightarrow> plain_elem e"
  shows "path_Join [d, join_with ''/'' es] = d @ ''/'' @ join_with ''/'' es"
proof -
  have d: "hd d = CHR ''/''" "d \<noteq> ''/''" "path_Clean d = d" using assms(1) by (auto simp: abs_path_def)
  then have ne: "d \<noteq> []" by (auto simp: path_Clean_def)
  define st where "st = foldl (clean_step True) [] (split_on (CHR ''/'') d)"
  have body: "d = CHR ''/'' # join_with ''/'' (rev st)"
    using d ne by (simp add: path_Clean_def st_def Let_def)
  with d have st: "rev st \<noteq> []" by auto
  have "es \<noteq> [] \<Longrightarrow> join_with ''/'' (xs @ es) = join_with ''/'' xs @ ''/'' @ join_with ''/'' es" if "xs \<noteq> []" for xs
    using that by (induction xs rule: induct_list012) (auto simp: neq_Nil_conv)
  from this [OF st assms(2)] have j: "join_with ''/'' (rev st @ es) = join_with ''/'' (rev st) @ ''/'' @ join_with ''/'' es" .
  have n: "join_with ''/'' es \<noteq> []"
    using assms(2) plain [OF hd_in_set] by (intro join_with_nonempty) (auto simp: plain_elem_def)
  have "path_Join [d, join_with ''/'' es] = path_Clean (d @ CHR ''/'' # join_with ''/'' es)"
    using ne n by (simp add: path_Join_def)
  also have "\<dots> = CHR ''/'' # join_with ''/'' (rev st @ es)"
    using d ne assms(2) plain
    by (simp add: path_Clean_def split_on_mid split_join_plain foldl_clean_plain st_def)
  also have "\<dots> = d @ ''/'' @ join_with ''/'' es" using body j by simp
  finally show ?thesis .
qed

lemma abs_path_Join1: "abs_path d \<Longrightarrow> plain_elem n \<Longrightarrow> path_Join [d, n] = d @ CHR ''/'' # n"
  using abs_path_Join [of d "[n]"] by simp

lemma rooted_operand [simp]: "rooted d \<Longrightarrow> take 2 d \<noteq> ''--''"
  by (cases d) (auto simp: rooted_def)

lemma abs_path_rooted [simp]: "abs_path d \<Longrightarrow> rooted d"
  by (cases d) (auto simp: abs_path_def rooted_def path_Clean_def)

lemma below_append [simp]: "below d (d @ CHR ''/'' # x)" "below d d"
  by (auto simp: below_def)

lemma overlay_at [simp]: "overlay fs d t (d @ CHR ''/'' # x) = (case t (CHR ''/'' # x) of Some b \<Rightarrow> Some b | None \<Rightarrow> fs (d @ CHR ''/'' # x))"
  by (simp add: overlay_def)

lemma overlay_outside [simp]: "\<not> below d q \<Longrightarrow> overlay fs d t q = fs q"
  by (simp add: overlay_def)

section \<open>Lemmas: the wrapper is a Kopia client\<close>

lemma restore_run:
  assumes laws: "kopia_cli_laws E V" and "client_run E s args i w = ((r, out), w')"
    and "operands args = ''restore'' # os"
  shows "same_repos V w w'"
    and "os = [x, d] \<Longrightarrow> \<not> below d q \<Longrightarrow> vFiles V w' q = vFiles V w q"
    and "os = [x, d] \<Longrightarrow> r = None \<Longrightarrow> vFiles V w' = overlay (vFiles V w) d (vTree V (vRepo V (config_of args)) w x)"
proof -
  have "same_repos V w w' \<and> (\<forall>x d. os = [x, d] \<longrightarrow> (\<forall>q. \<not> below d q \<longrightarrow> vFiles V w' q = vFiles V w q) \<and>
      (r = None \<longrightarrow> vFiles V w' = overlay (vFiles V w) d (vTree V (vRepo V (config_of args)) w x)))"
    using laws assms(2)
  proof (cases rule: client_run_cases)
    case (run r')
    have "restore_law E V" by (rule cli_lawsD(4) [OF laws])
    note this [unfolded restore_law_def, THEN spec, THEN spec, THEN spec, THEN spec, THEN spec, THEN spec, THEN spec, THEN spec,
        THEN spec, THEN mp, OF run(1), THEN mp, OF assms(3)]
    then show ?thesis using run(2) by simp
  qed auto
  then show "same_repos V w w'"
    and "os = [x, d] \<Longrightarrow> \<not> below d q \<Longrightarrow> vFiles V w' q = vFiles V w q"
    and "os = [x, d] \<Longrightarrow> r = None \<Longrightarrow> vFiles V w' = overlay (vFiles V w) d (vTree V (vRepo V (config_of args)) w x)"
    by simp_all
qed

lemma cli_RestoreSingleFile_ok:
  assumes laws: "kopia_cli_laws E V" and "cli_RestoreSingleFile E s i f w = (r, w')"
  shows "same_repos V w w'"
    and "plain_elem f \<Longrightarrow> take 2 i \<noteq> ''--'' \<Longrightarrow> r = Inr b \<Longrightarrow> vTree V (vRepo V (ConfigFile s)) w i (CHR ''/'' # f) = Some b"
proof -
  obtain rd w1 where mk: "MkdirTemp E w = (rd, w1)" by force
  note M = machine_lawD [OF cli_lawsD(6) [OF laws]]
  note mk' = M(5) [OF mk]
  have "same_repos V w w' \<and> (plain_elem f \<longrightarrow> take 2 i \<noteq> ''--'' \<longrightarrow> (\<forall>b. r = Inr b \<longrightarrow>
      vTree V (vRepo V (ConfigFile s)) w i (CHR ''/'' # f) = Some b))"
  proof (cases rd)
    case (Inr d)
    let ?args = "[''restore'', ''--config-file='' @ ConfigFile s, ''--disable-file-logging'', i, d]"
    from mk' Inr have d: "abs_path d" "\<And>q. below d q \<Longrightarrow> vFiles V w1 q = None" by auto
    obtain e out w2 where run: "client_run E s ?args [] w1 = ((e, out), w2)" by (metis surj_pair)
    obtain rr w3 where rm: "RemoveAll E d w2 = (rr, w3)" by force
    have w': "w' = w3" and r: "r = Inr b \<Longrightarrow> e = None \<and> ReadAll E (path_Join [d, f]) w2 = Inr b" for b
      using assms(2) mk Inr run rm
      by (auto simp: cli_RestoreSingleFile_def Let_def split: option.splits)
    have ops: "operands ?args = ''restore'' # operands [i, d]" by (simp add: cli_simps)
    have c: "config_of ?args = ConfigFile s" by (simp add: cli_simps config_of_def)
    note R = restore_run [OF laws run ops]
    have "same_repos V w w'"
      using mk' R(1) M(6) [OF rm] w' by (blast intro: same_repos_trans)
    moreover have "vTree V (vRepo V (ConfigFile s)) w i (CHR ''/'' # f) = Some b"
      if "plain_elem f" "take 2 i \<noteq> ''--''" "r = Inr b" for b
    proof -
      have "operands [i, d] = [i, d]" using d(1) that(2) by (simp add: operands_simps)
      from R(3) [OF this] r [OF that(3)] c
      have files: "vFiles V w2 = overlay (vFiles V w1) d (vTree V (vRepo V (ConfigFile s)) w1 i)" by simp
      have "vFiles V w2 (d @ CHR ''/'' # f) = Some b"
        using M(7) r [OF that(3)] abs_path_Join1 [OF d(1) that(1)] by metis
      with files d(2) [of "d @ CHR ''/'' # f"] have "vTree V (vRepo V (ConfigFile s)) w1 i (CHR ''/'' # f) = Some b"
        by (simp split: option.splits)
      then show ?thesis using mk' by (simp add: same_repos_def same_repo_def)
    qed
    ultimately show ?thesis by blast
  qed (use assms(2) mk mk' in \<open>auto simp: cli_RestoreSingleFile_def\<close>)
  then show "same_repos V w w'"
    and "plain_elem f \<Longrightarrow> take 2 i \<noteq> ''--'' \<Longrightarrow> r = Inr b \<Longrightarrow> vTree V (vRepo V (ConfigFile s)) w i (CHR ''/'' # f) = Some b"
    by blast+
qed

lemma cli_client_laws:
  assumes "kopia_cli_laws E V"
  shows "kopia_laws (cli_client E s refresh) (vSnaps V (vRepo V (ConfigFile s)))"
  unfolding kopia_laws_def cli_client_def kopia_client.simps
  using cli_ListSnapshots_ok [OF assms] cli_RestoreSingleFile_ok(1) [OF assms] cli_DeleteSnapshot_ok [OF assms]
    RefreshServer_pure [OF assms] machine_lawD(3) [OF cli_lawsD(6) [OF assms]]
  by (auto simp: same_repos_def same_repo_def)

section \<open>Lemmas: snapshots that are taken and restored\<close>

definition snapshot_added ::
  "'w kopia_view \<Rightarrow> string \<Rightarrow> (string \<times> string) list \<Rightarrow> tree \<Rightarrow> 'w \<Rightarrow> 'w \<Rightarrow> bool" where
  "snapshot_added V cfg tags t w w' \<longleftrightarrow>
     vFiles V w' = vFiles V w \<and>
     (\<forall>m \<in> set (vSnaps V (vRepo V cfg) w). vTree V (vRepo V cfg) w' (ID m) = vTree V (vRepo V cfg) w (ID m)) \<and>
     (\<exists>m. mset (vSnaps V (vRepo V cfg) w') = add_mset m (mset (vSnaps V (vRepo V cfg) w)) \<and>
        Host (Source m) = vHost V cfg \<and> Tags m = stored_tags tags \<and> vTree V (vRepo V cfg) w' (ID m) = t)"

lemma create_run:
  assumes laws: "kopia_cli_laws E V" and "client_do msg E s args i w = (None, w')"
    and ops: "operands args = [''snapshot'', ''create'', p]"
  shows "snapshot_added V (config_of args) (cli_tags args) (created_tree V args p i w) w w'"
    and "R \<noteq> vRepo V (config_of args) \<Longrightarrow> same_repo V R w w'"
proof -
  obtain out where run: "runCmd E (KopiaBinary s) args (kopiaEnvironmentVariables E s) i w = (Waited None out, w')"
    using laws assms(2) by (cases rule: client_do_cases) auto
  note L = cli_lawsD(2) [OF laws, unfolded create_law_def Let_def, THEN spec, THEN spec, THEN spec, THEN spec, THEN spec, THEN spec,
      THEN spec, THEN spec, THEN spec, THEN mp, OF run, THEN mp, OF ops]
  show "snapshot_added V (config_of args) (cli_tags args) (created_tree V args p i w) w w'"
    unfolding snapshot_added_def using L by simp
  show "R \<noteq> vRepo V (config_of args) \<Longrightarrow> same_repo V R w w'" using L by simp
qed

lemma SnapshotDirectory_ok:
  assumes "kopia_cli_laws E V" and "SnapshotDirectory E s opts w = (None, w')"
    and "tag_names (sdTags opts)" and "rooted (sdDirectory opts)"
  shows "snapshot_added V (ConfigFile s) (sdTags opts) (visible V (subtree (vFiles V w) (sdDirectory opts))) w w'"
    and "R \<noteq> vRepo V (ConfigFile s) \<Longrightarrow> same_repo V R w w'"
proof -
  let ?args = "[''snapshot'', ''create'', ''--progress'', ''--progress-update-interval=60s'', ''--disable-file-logging'',
         ''--config-file='' @ ConfigFile s] @ tag_flags (sdTags opts) @
        (if sdDescription opts \<noteq> [] then [''--description='' @ sdDescription opts] else []) @ [sdDirectory opts]"
  have dir: "\<not> prefix (CHR ''-'' # x) (sdDirectory opts)" for x
    using assms(4) by (cases "sdDirectory opts") (auto simp: rooted_def)
  have a: "operands ?args = [''snapshot'', ''create'', sdDirectory opts]"
    using assms(4) by (simp add: cli_simps)
  have c: "config_of ?args = ConfigFile s" by (simp add: cli_simps config_of_def)
  have t: "cli_tags ?args = sdTags opts"
    using assms(3) dir by (simp add: cli_simps cli_tags_def cut_tags)
  have f: "created_tree V ?args (sdDirectory opts) [] w = visible V (subtree (vFiles V w) (sdDirectory opts))"
    using dir by (simp add: cli_simps created_tree_def)
  note R = create_run [OF assms(1) assms(2) [unfolded SnapshotDirectory_def] a, unfolded c t f]
  show "snapshot_added V (ConfigFile s) (sdTags opts) (visible V (subtree (vFiles V w) (sdDirectory opts))) w w'" by (rule R(1))
  show "R \<noteq> vRepo V (ConfigFile s) \<Longrightarrow> same_repo V R w w'" by (rule R(2))
qed

lemma SnapshotFileContent_ok:
  assumes "kopia_cli_laws E V" and "SnapshotFileContent E s opts w = (None, w')"
    and "tag_names (sfTags opts)" and "rooted (DirectoryName opts)"
  shows "snapshot_added V (ConfigFile s) (sfTags opts) [CHR ''/'' # FileName opts \<mapsto> Content opts] w w'"
    and "R \<noteq> vRepo V (ConfigFile s) \<Longrightarrow> same_repo V R w w'"
proof -
  let ?args = "[''snapshot'', ''create'', ''--disable-file-logging'', ''--config-file='' @ ConfigFile s,
         ''--stdin-file='' @ FileName opts, DirectoryName opts] @ tag_flags (sfTags opts) @
        (if sfDescription opts \<noteq> [] then [''--description='' @ sfDescription opts] else [])"
  have dir: "\<not> prefix (CHR ''-'' # x) (DirectoryName opts)" for x
    using assms(4) by (cases "DirectoryName opts") (auto simp: rooted_def)
  have a: "operands ?args = [''snapshot'', ''create'', DirectoryName opts]"
    using assms(4) by (simp add: cli_simps)
  have c: "config_of ?args = ConfigFile s" by (simp add: cli_simps config_of_def)
  have t: "cli_tags ?args = sfTags opts"
    using assms(3) dir by (simp add: cli_simps cli_tags_def cut_tags)
  have f: "created_tree V ?args (DirectoryName opts) (Content opts) w = [CHR ''/'' # FileName opts \<mapsto> Content opts]"
    by (simp add: cli_simps created_tree_def)
  note R = create_run [OF assms(1) assms(2) [unfolded SnapshotFileContent_def] a, unfolded c t f]
  show "snapshot_added V (ConfigFile s) (sfTags opts) [CHR ''/'' # FileName opts \<mapsto> Content opts] w w'" by (rule R(1))
  show "R \<noteq> vRepo V (ConfigFile s) \<Longrightarrow> same_repo V R w w'" by (rule R(2))
qed

lemma RestoreSnapshot_ok:
  assumes laws: "kopia_cli_laws E V" and "RestoreSnapshot E s i d w = (r, w')"
    and "take 2 i \<noteq> ''--''" and "rooted d"
  shows "same_repos V w w'" and "\<not> below d q \<Longrightarrow> vFiles V w' q = vFiles V w q"
    and "r = None \<Longrightarrow> vFiles V w' = overlay (vFiles V w) d (vTree V (vRepo V (ConfigFile s)) w i)"
proof -
  let ?args = "[''restore'', ''--config-file='' @ ConfigFile s, ''--disable-file-logging'', ''--progress'',
        ''--progress-update-interval=60s'', i, d]"
  obtain e out v where run: "client_run E s ?args [] w = ((e, out), v)" by (metis surj_pair)
  with assms(2) have eq: "v = w'" "r = None \<longleftrightarrow> e = None" by (auto simp: RestoreSnapshot_def client_do_def)
  have a: "operands ?args = ''restore'' # [i, d]" using assms(3,4) by (simp add: cli_simps)
  have c: "config_of ?args = ConfigFile s" by (simp add: cli_simps config_of_def)
  note R = restore_run [OF laws run a, unfolded c eq(1)]
  show "same_repos V w w'" by (rule R(1))
  show "\<not> below d q \<Longrightarrow> vFiles V w' q = vFiles V w q" by (rule R(2)) simp_all
  show "r = None \<Longrightarrow> vFiles V w' = overlay (vFiles V w) d (vTree V (vRepo V (ConfigFile s)) w i)"
    using R(3) eq(2) by simp
qed

section \<open>Lemmas: Kopia's own retention\<close>

lemma retention_flag:
  assumes "c \<in> set kopiaRetentionCounters" and "\<And>x. \<not> prefix (''--keep'' @ x) t"
  shows "flag_values c (buildRetentionPolicyArgs cfg t v) = [v]"
  using assms(1) assms(2) [of "drop 6 c @ ''=''"]
  by (auto simp: kopiaRetentionCounters_def buildRetentionPolicyArgs_def flag_values_simps)

lemma setPolicyRetention_ok:
  assumes laws: "kopia_cli_laws E V" and "setPolicyRetention E s t v w = (r, w')"
    and t: "take 2 t \<noteq> ''--'' \<and> x = Some t \<or> t = ''--global'' \<and> x = None"
  shows "y \<noteq> x \<Longrightarrow> vRetention V (vRepo V (ConfigFile s)) w' y = vRetention V (vRepo V (ConfigFile s)) w y"
    and "r = None \<Longrightarrow> c \<in> set kopiaRetentionCounters \<Longrightarrow>
      vRetention V (vRepo V (ConfigFile s)) w' x c = retention_value v"
proof -
  let ?args = "buildRetentionPolicyArgs (ConfigFile s) t v"
  let ?R = "vRepo V (ConfigFile s)"
  obtain e out u where cr: "client_run E s ?args [] w = ((e, out), u)" by (metis surj_pair)
  with assms(2) have eq: "u = w'" "r = e" by (auto simp: setPolicyRetention_def)
  have np: "\<not> prefix (''--keep'' @ y) t" for y using t by (cases t; cases "tl t") auto
  have c: "config_of ?args = ConfigFile s"
    by (simp add: config_of_def buildRetentionPolicyArgs_def flag_values_simps)
  have o: "take 2 (operands ?args) = [''policy'', ''set'']" and p: "policy_target ?args x"
    using t by (auto simp: buildRetentionPolicyArgs_def kopiaRetentionCounters_def operands_simps policy_target_def)
  have "(y \<noteq> x \<longrightarrow> vRetention V ?R w' y = vRetention V ?R w y) \<and>
        (r = None \<longrightarrow> c \<in> set kopiaRetentionCounters \<longrightarrow> vRetention V ?R w' x c = retention_value v)"
    using laws cr
  proof (cases rule: client_run_cases)
    case (run r')
    note L = cli_lawsD(5) [OF laws, unfolded policy_law_def Let_def, THEN conjunct1, THEN spec, THEN spec, THEN spec, THEN spec,
        THEN spec, THEN spec, THEN spec, THEN spec, THEN spec, THEN mp, OF run(1), THEN mp, OF o, THEN mp, OF p, unfolded c eq(1)]
    show ?thesis using L run(2) eq retention_flag [OF _ np] by simp
  qed (use eq in auto)
  then show "y \<noteq> x \<Longrightarrow> vRetention V ?R w' y = vRetention V ?R w y"
    and "r = None \<Longrightarrow> c \<in> set kopiaRetentionCounters \<Longrightarrow> vRetention V ?R w' x c = retention_value v"
    by simp_all
qed

lemma reset_targets_ok:
  assumes laws: "kopia_cli_laws E V" and "reset_targets E s ts w = (None, w')"
    and "\<forall>t \<in> set ts. take 2 (policyTarget_String t) \<noteq> ''--''"
  shows "vRetention V (vRepo V (ConfigFile s)) w' None = vRetention V (vRepo V (ConfigFile s)) w None \<and>
    (\<forall>x. \<forall>c \<in> set kopiaRetentionCounters.
       vRetention V (vRepo V (ConfigFile s)) w' (Some x) c =
         (if \<exists>t \<in> set ts. \<not> isGlobal t \<and> policyTarget_String t = x then None
          else vRetention V (vRepo V (ConfigFile s)) w (Some x) c))"
  using assms(2,3)
proof (induction ts arbitrary: w)
  case (Cons t ts)
  show ?case
  proof (cases "isGlobal t")
    case True
    with Cons show ?thesis by simp
  next
    case False
    with Cons.prems(1) obtain w1 where 1: "setPolicyRetention E s (policyTarget_String t) ''inherit'' w = (None, w1)"
      and 2: "reset_targets E s ts w1 = (None, w')" by (auto split: prod.splits option.splits)
    have t: "take 2 (policyTarget_String t) \<noteq> ''--'' \<and> Some (policyTarget_String t) = Some (policyTarget_String t) \<or>
        policyTarget_String t = ''--global'' \<and> Some (policyTarget_String t) = None"
      using Cons.prems(2) by simp
    note S = setPolicyRetention_ok [OF laws 1 t]
    have inh: "retention_value ''inherit'' = None" by (simp add: retention_value_def)
    from Cons.IH [OF 2] Cons.prems(2) show ?thesis
      using S(1) S(2) [OF refl] False unfolding inh by (auto split: if_splits)
  qed
qed simp

lemma listPolicyTargets_ok:
  assumes laws: "kopia_cli_laws E V" and "listPolicyTargets E s w = (Inr ts, w')"
  shows "same_repos V w w'" and "\<forall>t \<in> set ts. take 2 (policyTarget_String t) \<noteq> ''--''"
    and "vRetention V (vRepo V (ConfigFile s)) w (Some x) c \<noteq> None \<Longrightarrow>
      \<exists>t \<in> set ts. \<not> isGlobal t \<and> policyTarget_String t = x"
proof -
  let ?args = "[''policy'', ''list'', ''--json'', ''--config-file='' @ ConfigFile s, ''--disable-file-logging'']"
  obtain e out u where cr: "client_run E s ?args [] w = ((e, out), u)" by (metis surj_pair)
  with assms(2) have eq: "e = None" "u = w'" "UnmarshalPolicies E out = Inr ts"
    by (auto simp: listPolicyTargets_def parsePolicyTargets_def split: option.splits sum.splits)
  have a: "operands ?args = [''policy'', ''list'']" by (simp add: cli_simps)
  have c: "config_of ?args = ConfigFile s" by (simp add: cli_simps config_of_def)
  from laws cr [unfolded eq(1,2)]
  have run: "runCmd E (KopiaBinary s) ?args (kopiaEnvironmentVariables E s) [] w = (Waited None out, w')"
    by (cases rule: client_run_cases) auto
  note L = cli_lawsD(5) [OF laws, unfolded policy_law_def, THEN conjunct2, THEN spec, THEN spec, THEN spec, THEN spec,
      THEN spec, THEN spec, THEN spec, THEN spec, THEN mp, OF run, THEN mp, OF a, unfolded c]
  show "same_repos V w w'" "\<forall>t \<in> set ts. take 2 (policyTarget_String t) \<noteq> ''--''" using L eq(3) by simp_all
  show "vRetention V (vRepo V (ConfigFile s)) w (Some x) c \<noteq> None \<Longrightarrow>
      \<exists>t \<in> set ts. \<not> isGlobal t \<and> policyTarget_String t = x" using L eq(3) by blast
qed

text \<open>The counter in force for a source: the first one set on the way from its own policy to the global one.\<close>

definition effective_counter :: "'w kopia_view \<Rightarrow> string \<Rightarrow> 'w \<Rightarrow> string list \<Rightarrow> string \<Rightarrow> nat option" where
  "effective_counter V R w chain c =
     (case List.map_filter (\<lambda>x. vRetention V R w (Some x) c) chain of [] \<Rightarrow> vRetention V R w None c | n # _ \<Rightarrow> Some n)"

section \<open>Lemmas: the concrete command line\<close>

lemma pair_up_concat: "pair_up (concat (map (\<lambda>(k, v). [k, v]) tags)) = tags"
  by (induction tags) auto

lemma length_concat_pairs: "length (concat (map (\<lambda>(k, v). [k, v]) tags)) = 2 * length tags"
  by (induction tags) auto

lemma dec_enc_raws: "dec_raws (dec_strings [] (enc_raws ms)) = ms"
proof -
  have "dec_raws (concat (map (\<lambda>(i, h, tags).
     [i, h, replicate (length tags) (CHR ''t'')] @ concat (map (\<lambda>(k, v). [k, v]) tags)) ms)) = ms"
    by (induction ms) (auto simp: pair_up_concat length_concat_pairs)
  then show ?thesis by (simp add: enc_raws_def dec_enc_strings)
qed

lemma map_of_filter_key: "map_of (filter (\<lambda>e. P (fst e)) l) k = (if P k then map_of l k else None)"
  by (induction l) auto

lemma bx_visible_tree: "map_of (bx_visible t) = visible box_view (map_of t)"
  using map_of_filter_key [where P = "\<lambda>k. \<not> bx_ignored (map_of t) k" and l = t]
  by (auto simp: fun_eq_iff bx_visible_def visible_def box_view_def)

lemma below_cases: "below p q \<longleftrightarrow> (\<exists>rel. q = p @ rel \<and> (rel = [] \<or> hd rel = CHR ''/''))"
proof
  assume "below p q"
  then show "\<exists>rel. q = p @ rel \<and> (rel = [] \<or> hd rel = CHR ''/'')"
    by (auto simp: below_def prefix_def)
next
  assume "\<exists>rel. q = p @ rel \<and> (rel = [] \<or> hd rel = CHR ''/'')"
  then obtain rel where "q = p @ rel" "rel = [] \<or> hd rel = CHR ''/''" by blast
  then show "below p q" by (cases rel) (auto simp: below_def)
qed

lemma bx_subtree_tree: "map_of (bx_subtree files p) = subtree (map_of files) p"
proof
  fix rel
  show "map_of (bx_subtree files p) rel = subtree (map_of files) p rel"
  proof (induction files)
    case (Cons e files)
    obtain q b where e: "e = (q, b)" by force
    show ?case
    proof (cases "below p q")
      case True
      then obtain r where "q = p @ r" "r = [] \<or> hd r = CHR ''/''" by (auto simp: below_cases)
      with True Cons e show ?thesis by (auto simp: bx_subtree_def subtree_def)
    next
      case False
      then have "rel = [] \<or> hd rel = CHR ''/'' \<Longrightarrow> p @ rel \<noteq> q" by (auto simp: below_cases)
      with False Cons e show ?thesis by (auto simp: bx_subtree_def subtree_def)
    qed
  qed (simp add: bx_subtree_def subtree_def)
qed

lemma bx_overlay_tree: "map_of (bx_overlay files d t) = overlay (map_of files) d (map_of t)"
proof
  fix q
  have "map_of (map (\<lambda>(rel, b). (d @ rel, b)) (filter (\<lambda>e. fst e = [] \<or> hd (fst e) = CHR ''/'') t)) q =
        (if below d q then map_of t (drop (length d) q) else None)"
  proof (induction t)
    case (Cons e t)
    obtain rel b where e: "e = (rel, b)" by force
    show ?case
    proof (cases "rel = [] \<or> hd rel = CHR ''/''")
      case True
      then have "below d (d @ rel)" by (auto simp: below_cases)
      moreover have "below d q \<Longrightarrow> d @ rel \<noteq> q \<Longrightarrow> drop (length d) q \<noteq> rel" by (auto simp: below_cases)
      ultimately show ?thesis using True Cons e by auto
    next
      case False
      then have "below d q \<Longrightarrow> drop (length d) q \<noteq> rel" by (auto simp: below_cases)
      with False Cons e show ?thesis by auto
    qed
  qed simp
  then show "map_of (bx_overlay files d t) q = overlay (map_of files) d (map_of t) q"
    by (auto simp: bx_overlay_def overlay_def map_add_def split: option.splits)
qed

lemma box_simps [simp]:
  "runCmd (box_env u) = bx_run" "vFiles box_view w = map_of (bxFiles w)" "vRepo box_view c = c" "vHost box_view c = ''pg''"
  "vSnaps box_view R w = map to_manifest (bx_raws w R)" "vTree box_view R w s = map_of (bxTrees w R s)"
  "vIgnored box_view = bx_ignored" "vRetention box_view R w = bx_counter w R"
  "UnmarshalManifests (box_env u) b = Inr (map to_manifest (dec_raws (dec_strings [] b)))"
  "UnmarshalPolicies (box_env u) b = Inr (map bx_target (dec_strings [] b))"
  by (simp_all add: box_env_def box_view_def)

lemma ID_to_manifest [simp]: "ID (to_manifest m) = fst m"
  by (cases m) (simp add: to_manifest_def)

lemma box_list_law: "list_law (box_env u) box_view"
  by (auto simp: list_law_def bx_run_def Let_def dec_enc_raws filter_map o_def)

lemma box_same_repo:
  assumes "bxSnaps w' R = bxSnaps w R" "bxTrees w' R = bxTrees w R" "bxTargets w' R = bxTargets w R" "bxCounters w' R = bxCounters w R"
  shows "same_repo box_view R w w'"
proof -
  have "bx_raws w' R = bx_raws w R" "bx_counter w' R = bx_counter w R"
    using assms by (simp_all add: bx_raws_def bx_counter_def fun_eq_iff split: option.splits)
  with assms show ?thesis by (simp add: same_repo_def fun_eq_iff)
qed

lemma box_same: "bxSnaps w' = bxSnaps w \<Longrightarrow> bxTrees w' = bxTrees w \<Longrightarrow> bxTargets w' = bxTargets w \<Longrightarrow>
    bxCounters w' = bxCounters w \<Longrightarrow> same_repos box_view w w'"
  by (simp add: same_repos_def box_same_repo)

lemma box_restore_law: "restore_law (box_env u) box_view"
  unfolding restore_law_def box_simps
proof (intro allI impI)
  fix b args env i w r out w' os
  assume run: "bx_run b args env i w = (Waited r out, w')" and ops: "operands args = ''restore'' # os"
  show "same_repos box_view w w' \<and> (\<forall>s d. os = [s, d] \<longrightarrow> (\<forall>q. \<not> below d q \<longrightarrow> map_of (bxFiles w') q = map_of (bxFiles w) q) \<and>
     (r = None \<longrightarrow> map_of (bxFiles w') = overlay (map_of (bxFiles w)) d (map_of (bxTrees w (config_of args) s))))"
    using run ops by (auto simp: bx_run_def Let_def bx_overlay_tree intro!: box_same split: if_splits)
qed

lemma box_delete_law: "delete_law (box_env u) box_view"
  unfolding delete_law_def box_simps Let_def
proof (intro allI impI)
  fix b args env i w r out w' ids
  assume run: "bx_run b args env i w = (Waited r out, w')" and ops: "operands args = [''snapshot'', ''delete''] @ ids"
  show "map_of (bxFiles w') = map_of (bxFiles w) \<and> (\<forall>R'. R' \<noteq> config_of args \<longrightarrow> same_repo box_view R' w w') \<and>
     (map to_manifest (bx_raws w' (config_of args)) = filter (\<lambda>m. ID m \<notin> set ids) (map to_manifest (bx_raws w (config_of args))) \<or>
      r \<noteq> None \<and> map to_manifest (bx_raws w' (config_of args)) = map to_manifest (bx_raws w (config_of args)))"
  proof (cases "bx_raws w (config_of args) = bxSnaps w (config_of args)")
    case True
    let ?l = "bxSnaps w (config_of args)" and ?f = "filter (\<lambda>m. fst m \<notin> set ids)"
    have w': "w' = w\<lparr>bxSnaps := (bxSnaps w)(config_of args := ?f ?l)\<rparr>"
      using run ops True by (auto simp: bx_run_def Let_def)
    from True have "bx_raws w' (config_of args) = ?f ?l"
      unfolding w' by (auto simp: bx_raws_def distinct_map_filter list_all_iff split: if_splits)
    then show ?thesis using w' True
      by (auto simp: filter_map o_def intro!: box_same_repo)
  next
    case False
    then show ?thesis using run ops by (auto simp: bx_run_def Let_def)
  qed
qed

lemma box_create_law: "create_law (box_env u) box_view"
  unfolding create_law_def box_simps Let_def
proof (intro allI impI)
  fix b args env i w r out w' p
  assume run: "bx_run b args env i w = (Waited r out, w')" and ops: "operands args = [''snapshot'', ''create'', p]"
  let ?R = "config_of args"
  let ?s = "CHR ''s'' # replicate (length (bxSnaps w ?R)) (CHR ''s'')"
  let ?t = "case flag_values ''--stdin-file'' args of f # _ \<Rightarrow> [(''/'' @ f, i)] | [] \<Rightarrow> bx_visible (bx_subtree (bxFiles w) p)"
  let ?m = "(?s, ''pg'', map (\<lambda>(k, v). (userTagPrefix @ k, v)) (cli_tags args))"
  have c: "bx_create args p i w = (Waited r out, w')" using run ops by (simp add: bx_run_def Let_def)
  have t: "map_of ?t = created_tree box_view args p i w"
    by (auto simp: created_tree_def bx_visible_tree bx_subtree_tree split: list.splits)
  show "map_of (bxFiles w') = map_of (bxFiles w) \<and> (\<forall>R'. R' \<noteq> ?R \<longrightarrow> same_repo box_view R' w w') \<and>
     (\<forall>m \<in> set (map to_manifest (bx_raws w ?R)). m \<in> set (map to_manifest (bx_raws w' ?R)) \<and>
        map_of (bxTrees w' ?R (ID m)) = map_of (bxTrees w ?R (ID m))) \<and>
     (r = None \<longrightarrow> (\<exists>m. mset (map to_manifest (bx_raws w' ?R)) = add_mset m (mset (map to_manifest (bx_raws w ?R))) \<and>
        Host (Source m) = ''pg'' \<and> Tags m = stored_tags (cli_tags args) \<and>
        map_of (bxTrees w' ?R (ID m)) = created_tree box_view args p i w))"
  proof (cases "bx_raws w ?R \<noteq> bxSnaps w ?R \<or> ?s \<in> set (map fst (bxSnaps w ?R))")
    case True
    then show ?thesis using c by (auto simp: bx_create_def Let_def)
  next
    case False
    then have raws: "bx_raws w ?R = bxSnaps w ?R" and fresh: "?s \<notin> fst ` set (bxSnaps w ?R)" by auto
    have w': "w' = w\<lparr>bxSnaps := (bxSnaps w)(?R := bxSnaps w ?R @ [?m]), bxTrees := (bxTrees w)(?R := (bxTrees w ?R)(?s := ?t))\<rparr>"
      and r: "r = None" using c False by (simp_all add: bx_create_def Let_def)
    have two: "take 2 ?s \<noteq> ''--''" by simp
    have raws': "bx_raws w' ?R = bxSnaps w ?R @ [?m]"
      unfolding w' using raws fresh two by (auto simp: bx_raws_def split: if_splits)
    have "Tags (to_manifest ?m) = stored_tags (cli_tags args)" and "Host (Source (to_manifest ?m)) = ''pg''"
      by (simp_all add: to_manifest_def stored_tags_def)
    moreover have "bxTrees w' ?R ?s = ?t" and "\<And>m. m \<in> set (bxSnaps w ?R) \<Longrightarrow> bxTrees w' ?R (fst m) = bxTrees w ?R (fst m)"
      unfolding w' using fresh by (auto simp: image_iff)
    moreover have "same_repo box_view R' w w'" if "R' \<noteq> ?R" for R'
      using that unfolding w' by (intro box_same_repo) simp_all
    moreover have "bxFiles w' = bxFiles w" unfolding w' by simp
    ultimately show ?thesis
      unfolding raws raws' using t fresh r
      by (intro conjI impI allI ballI exI [of _ "to_manifest ?m"]) auto
  qed
qed

lemma bx_target_String: "bx_target_ok x \<Longrightarrow> policyTarget_String (bx_target x) = x \<and> \<not> isGlobal (bx_target x)"
proof -
  assume x: "bx_target_ok x"
  then obtain u h where "x = u @ CHR ''@'' # h" and "CHR ''@'' \<notin> set u"
    unfolding bx_target_ok_def by (meson split_list_first)
  with x show ?thesis by (auto simp: bx_target_def Cut_append policyTarget_String_def isGlobal_def bx_target_ok_def)
qed

lemma box_policy_law: "policy_law (box_env u) box_view"
  unfolding policy_law_def box_simps Let_def
proof (intro conjI allI impI)
  fix b args env i w r out w' t x
  assume run: "bx_run b args env i w = (Waited r out, w')" and ops: "take 2 (operands args) = [''policy'', ''set'']"
    and t: "policy_target args t"
  obtain more where o: "operands args = ''policy'' # ''set'' # more"
    using ops by (cases "operands args"; cases "tl (operands args)") auto
  have w': "r = None \<and> w' = bx_policy args t w \<and> (\<forall>x. t = Some x \<longrightarrow> bx_target_ok x) \<or> r \<noteq> None \<and> w' = w"
    using run o t by (auto simp: bx_run_def policy_target_def split: if_splits)
  show "bx_counter w' (config_of args) x = bx_counter w (config_of args) x" if "x \<noteq> t"
    using w' that by (auto simp: bx_policy_def bx_counter_def Let_def fun_eq_iff split: option.splits if_splits)
  show "bx_counter w' (config_of args) t c =
     (case flag_values c args of [] \<Rightarrow> bx_counter w (config_of args) t c | v # _ \<Rightarrow> retention_value v)" if "r = None" for c
    using w' that by (cases t) (auto simp: bx_policy_def bx_counter_def Let_def)
next
  fix b args env i w r out w'
  assume run: "bx_run b args env i w = (Waited r out, w')" and ops: "operands args = [''policy'', ''list'']"
  have out: "w' = w" "out = enc_strings (filter bx_target_ok (bxTargets w (config_of args)))"
    using run ops by (auto simp: bx_run_def Let_def)
  show "same_repos box_view w w'" using out by simp
  fix ts assume ts: "Inr (map bx_target (dec_strings [] out)) = Inr ts"
  then have ts: "ts = map bx_target (filter bx_target_ok (bxTargets w (config_of args)))"
    by (simp add: out dec_enc_strings)
  show "\<forall>t \<in> set ts. take 2 (policyTarget_String t) \<noteq> ''--''"
    unfolding ts using bx_target_String by (auto simp: bx_target_ok_def)
  fix x c assume "bx_counter w (config_of args) (Some x) c \<noteq> None"
  then have "x \<in> set (bxTargets w (config_of args))" "bx_target_ok x" by (auto simp: bx_counter_def split: if_splits)
  then show "\<exists>t \<in> set ts. \<not> isGlobal t \<and> policyTarget_String t = x"
    unfolding ts using bx_target_String by auto
qed

lemma box_machine_law: "machine_law (box_env u) box_view"
  unfolding machine_law_def
proof (intro conjI)
  show "\<forall>R w. distinct (map ID (vSnaps box_view R w))"
    by (simp add: bx_raws_def o_def)
  show "\<forall>R w. \<forall>m \<in> set (vSnaps box_view R w). ID m \<noteq> [] \<and> take 2 (ID m) \<noteq> ''--''"
    by (auto simp: bx_raws_def list_all_iff)
  have "abs_path ''/tmp/kopia_snapshot''" by code_simp
  then show "\<forall>w r w'. MkdirTemp (box_env u) w = (r, w') \<longrightarrow> same_repos box_view w w' \<and> vFiles box_view w' = vFiles box_view w \<and>
        (\<forall>d. r = Inr d \<longrightarrow> abs_path d \<and> (\<forall>q. below d q \<longrightarrow> vFiles box_view w q = None))"
    by (auto simp: box_env_def list_ex_iff map_of_eq_None_iff split: if_splits)
  show "\<forall>d w r w'. RemoveAll (box_env u) d w = (r, w') \<longrightarrow>
      same_repos box_view w w' \<and> (\<forall>q. \<not> below d q \<longrightarrow> vFiles box_view w' q = vFiles box_view w q)"
    by (auto simp: box_env_def map_of_filter_key [where P = "\<lambda>k. \<not> below _ k"] intro!: box_same)
  show "\<forall>p w b. ReadAll (box_env u) p w = Inr b \<longrightarrow> vFiles box_view w p = Some b"
    by (simp add: box_env_def split: option.splits)
qed (auto simp: bx_run_def bx_create_def Let_def split: if_splits)

lemma box_laws: "kopia_cli_laws (box_env u) box_view"
  unfolding kopia_cli_laws_def
  by (intro conjI box_list_law box_create_law box_delete_law box_restore_law box_policy_law box_machine_law)

text \<open>
  After DisableKopiaRetention succeeded, each of the six retention counters of Kopia is zero for any source, which
  is Kopia's way of keeping everything.  It holds whatever policies the repository had, of the global target, of
  users, hosts and paths.
\<close>

lemma retention_disabled:
  assumes laws: "kopia_cli_laws E V" and "DisableKopiaRetention E s w = (None, w')"
    and "c \<in> {''--keep-latest'', ''--keep-hourly'', ''--keep-daily'', ''--keep-weekly'', ''--keep-monthly'', ''--keep-annual''}"
  shows "effective_counter V (vRepo V (ConfigFile s)) w' chain c = Some 0"
proof -
  let ?R = "vRepo V (ConfigFile s)"
  have counter: "c \<in> set kopiaRetentionCounters" using assms(3) by (auto simp: kopiaRetentionCounters_def)
  from assms(2) obtain w1 ts w2 where 1: "setPolicyRetention E s ''--global'' ''0'' w = (None, w1)"
    and 2: "listPolicyTargets E s w1 = (Inr ts, w2)" and 3: "reset_targets E s ts w2 = (None, w')"
    by (auto simp: DisableKopiaRetention_def split: prod.splits option.splits sum.splits)
  have zero: "retention_value ''0'' = Some 0" by (simp add: retention_value_def)
  have glob: "vRetention V ?R w1 None c = Some 0"
    using setPolicyRetention_ok(2) [OF laws 1 _ refl counter] zero by simp
  note L = listPolicyTargets_ok [OF laws 2]
  note R = reset_targets_ok [OF laws 3 L(2)]
  have same: "vRetention V ?R w2 = vRetention V ?R w1" using L(1) by (simp add: same_repos_def same_repo_def)
  have "vRetention V ?R w' (Some x) c = None" for x
  proof (cases "\<exists>t \<in> set ts. \<not> isGlobal t \<and> policyTarget_String t = x")
    case False
    with L(3) [of x c] have "vRetention V ?R w1 (Some x) c = None" by blast
    with R False counter same show ?thesis by simp
  qed (use R counter in simp)
  then show ?thesis
    using R glob same by (simp add: effective_counter_def map_filter_def)
qed

section \<open>Properties\<close>



end
