(* ===== verification/Base_Backup.thy ===== *)
theory Base_Backup
  imports Kopia_Cli
begin

text \<open>
  Base backups: taking one (klioclient/backup.go), restoring one (klioclient/restore.go), the Kopia
  connection that stores its parts as tagged snapshots (klioclient/kopia) and the pair of connections to
  the two tiers (multiconnect.go), with the restore command that chooses the backup (cmd/restore.go).

  PostgreSQL is the record of its answers \<open>pg_session\<close>; files, certificates and JSON are the record
  \<open>host_env\<close> with the hypothesis \<open>host_laws\<close>.  What PostgreSQL writes while a backup runs is left to the
  replay of the WAL and is not part of the model: between two commands the files stay as they are.
\<close>

section \<open>core/internal/client/klioclient/interfaces.go\<close>

record 'w klio_client =
  cUploadTablespace :: "string \<Rightarrow> TablespaceLayout \<Rightarrow> 'w \<Rightarrow> go_error option \<times> 'w"
  cUploadPgData :: "string \<Rightarrow> string \<Rightarrow> 'w \<Rightarrow> go_error option \<times> 'w"
  cUploadControlFile :: "string \<Rightarrow> string \<Rightarrow> 'w \<Rightarrow> go_error option \<times> 'w"
  cUploadBackupMetadata :: "string \<Rightarrow> BackupMetadata \<Rightarrow> 'w \<Rightarrow> go_error option \<times> 'w"
  cListBackups :: "string \<Rightarrow> 'w \<Rightarrow> (go_error + BackupList) \<times> 'w"
  cGetMetadata :: "string \<Rightarrow> string \<Rightarrow> 'w \<Rightarrow> (go_error + BackupMetadata) \<times> 'w"
  cRestoreTablespace :: "BackupMetadata \<Rightarrow> TablespaceLayout \<Rightarrow> string \<Rightarrow> 'w \<Rightarrow> go_error option \<times> 'w"
  cRestorePgData :: "BackupMetadata \<Rightarrow> string \<Rightarrow> 'w \<Rightarrow> go_error option \<times> 'w"
  cRestoreControlData :: "BackupMetadata \<Rightarrow> string \<Rightarrow> 'w \<Rightarrow> go_error option \<times> 'w"
  cDeleteBackup :: "string \<Rightarrow> string \<Rightarrow> 'w \<Rightarrow> go_error option \<times> 'w"
  cGetUsername :: "go_error + string"
  cGetHostname :: "go_error + string"
  cSetCompressionPolicy :: "Target \<Rightarrow> CompressionPolicy \<Rightarrow> 'w \<Rightarrow> go_error option \<times> 'w"
  cClose :: "'w \<Rightarrow> 'w"

section \<open>The machine\<close>

record 'w host_env =
  WriteFile :: "string \<Rightarrow> bytes \<Rightarrow> 'w \<Rightarrow> go_error option \<times> 'w"
  Remove :: "string \<Rightarrow> 'w \<Rightarrow> go_error option \<times> 'w"
  EnsureDirectoryExists :: "string \<Rightarrow> 'w \<Rightarrow> go_error option \<times> 'w"
  CreateTemp :: "'w \<Rightarrow> (go_error + string) \<times> 'w"
  LoadX509KeyPair :: "string \<Rightarrow> string \<Rightarrow> 'w \<Rightarrow> go_error + string option"
  TempDir :: string
  MarshalBackupJSON :: "BackupMetadata \<Rightarrow> go_error + bytes"
  stringBytes :: "string \<Rightarrow> bytes"
  deleteAttempts :: nat

section \<open>core/internal/client/klioclient/consts.go and klioclient/kopia: constants\<close>

definition TablespaceNameTagName :: string where "TablespaceNameTagName = ''klio.io/tablespaceName''"

definition kopiaIgnoreFileName :: string where "kopiaIgnoreFileName = ''.kopiaignore''"

definition kopiaIgnoreContent :: string where
  "kopiaIgnoreContent = join_with [char_of (10 :: nat)]
     [[], ''/pg_log/*'', ''/log/*'', [], ''/pg_xlog/*'', ''/pg_wal'', [], ''/global/pg_control'', [], ''pgsql_tmp*'',
      ''postgresql.auto.conf.tmp'', ''current_logfiles.tmp'', ''pg_internal.init'', ''postmaster.pid'', ''postmaster.opts'',
      ''recovery.conf'', ''standby.signal'', ''pg_dynshmem/*'', ''pg_notify/*'', ''pg_replslot/*'', ''pg_serial/*'',
      ''pg_stat_tmp/*'', ''pg_snapshots/*'', ''pg_subtrans/*'', []]"

definition controlDataPath :: string where "controlDataPath = ''global/pg_control''"

definition backupLabelFileName :: string where "backupLabelFileName = ''backup_label''"

definition NoBackupFoundError :: go_error where "NoBackupFoundError = Sentinel ''no backup found''"

definition NoSnapshotFoundError :: go_error where "NoSnapshotFoundError = Sentinel ''snapshot not found''"

section \<open>core/internal/client/klioclient/kopia/kopia.go\<close>

record Connection =
  hostName :: string
  userName :: string
  conKopia :: Client

definition store_of :: "'w kopia_env \<Rightarrow> Connection \<Rightarrow> 'w kopia_client" where
  "store_of E c = cli_client E (conKopia c)
     \<lparr>roServerControlUser = [], roServerControlPassword = [], roServerCertFile = [], roAddress = []\<rparr>"

section \<open>core/internal/client/klioclient/kopia/backup.go\<close>

definition UploadTablespace ::
  "'w kopia_env \<Rightarrow> Connection \<Rightarrow> string \<Rightarrow> TablespaceLayout \<Rightarrow> 'w \<Rightarrow> go_error option \<times> 'w" where
  "UploadTablespace E c backupName tbl w =
     (case SnapshotDirectory E (conKopia c)
             \<lparr>sdDirectory = tblPath tbl,
              sdTags = [(BackupContentTagName, ''tablespace''), (TablespaceNameTagName, path_Base (tblName tbl)),
                        (BackupNameTagName, backupName)],
              sdDescription = ''tablespace '' @ tblName tbl @ '' ('' @ tblOid tbl @ '')''\<rparr> w of
        (r, w') \<Rightarrow> (map_option (Wrap ''unable to snapshot directory'') r, w'))"

definition UploadPgData ::
  "'w kopia_env \<Rightarrow> 'w host_env \<Rightarrow> Connection \<Rightarrow> string \<Rightarrow> string \<Rightarrow> 'w \<Rightarrow> go_error option \<times> 'w" where
  "UploadPgData E H c backupName pgData w =
     (let kopiaIgnore = path_Join [pgData, kopiaIgnoreFileName]
      in case WriteFile H kopiaIgnore (stringBytes H kopiaIgnoreContent) w of
           (Some e, w1) \<Rightarrow> (Some (Wrap ''while creating .kopiaignore file'' e), w1)
         | (None, w1) \<Rightarrow>
             (case SnapshotDirectory E (conKopia c)
                     \<lparr>sdDirectory = pgData,
                      sdTags = [(BackupContentTagName, ''pgdata''), (BackupNameTagName, backupName)],
                      sdDescription = ''pgdata''\<rparr> w1 of
                (Some e, w2) \<Rightarrow> (Some e, w2)
              | (None, w2) \<Rightarrow> (None, snd (Remove H kopiaIgnore w2))))"

definition UploadControlFile ::
  "'w kopia_env \<Rightarrow> Connection \<Rightarrow> string \<Rightarrow> string \<Rightarrow> 'w \<Rightarrow> go_error option \<times> 'w" where
  "UploadControlFile E c backupName controlDataFileName w =
     (case SnapshotDirectory E (conKopia c)
             \<lparr>sdDirectory = controlDataFileName,
              sdTags = [(BackupNameTagName, backupName), (BackupContentTagName, ''controldata'')],
              sdDescription = ''control data file''\<rparr> w of
        (r, w') \<Rightarrow> (map_option (Wrap ''while snapshotting control data file'') r, w'))"

definition UploadBackupMetadata ::
  "'w kopia_env \<Rightarrow> 'w host_env \<Rightarrow> Connection \<Rightarrow> string \<Rightarrow> BackupMetadata \<Rightarrow> 'w \<Rightarrow> go_error option \<times> 'w" where
  "UploadBackupMetadata E H c backupName data w =
     (case MarshalBackupJSON H data of
        Inl e \<Rightarrow> (Some (Wrap ''while marshalling metadata'' e), w)
      | Inr metadataContent \<Rightarrow>
          (case SnapshotFileContent E (conKopia c)
                  \<lparr>FileName = ''metadata.json'', DirectoryName = TrimSuffix (PgData data) ''/'' @ ''_meta'',
                   Content = metadataContent,
                   sfTags = [(BackupNameTagName, backupName), (BackupContentTagName, ''metadata'')],
                   sfDescription = ''metadata for '' @ backupName\<rparr> w of
             (r, w') \<Rightarrow> (map_option (Wrap ''error file snapshotting metadata'') r, w')))"

section \<open>core/internal/client/klioclient/kopia/restore.go\<close>

definition getSnapshotID ::
  "'w kopia_env \<Rightarrow> Connection \<Rightarrow> (string \<times> string) list \<Rightarrow> 'w \<Rightarrow> (go_error + string) \<times> 'w" where
  "getSnapshotID E c tags w =
     (case cli_ListSnapshots E (conKopia c) tags w of
        (Inl e, w') \<Rightarrow> (Inl (Wrap ''while executing Kopia command'' e), w')
      | (Inr entries, w') \<Rightarrow>
          (case find (\<lambda>entry. hostName c \<noteq> [] \<and> Host (Source entry) = hostName c) entries of
             Some entry \<Rightarrow> (Inr (ID entry), w')
           | None \<Rightarrow> (Inl NoSnapshotFoundError, w')))"

definition restore_tagged ::
  "'w kopia_env \<Rightarrow> Connection \<Rightarrow> (string \<times> string) list \<Rightarrow> string \<Rightarrow> 'w \<Rightarrow> go_error option \<times> 'w" where
  "restore_tagged E c tags destination w =
     (case getSnapshotID E c tags w of
        (Inl e, w') \<Rightarrow> (Some e, w')
      | (Inr source, w') \<Rightarrow> RestoreSnapshot E (conKopia c) source destination w')"

definition RestoreTablespace ::
  "'w kopia_env \<Rightarrow> Connection \<Rightarrow> BackupMetadata \<Rightarrow> TablespaceLayout \<Rightarrow> string \<Rightarrow> 'w \<Rightarrow> go_error option \<times> 'w" where
  "RestoreTablespace E c metadata tbl destinationDirectory w =
     restore_tagged E c [(BackupContentTagName, ''tablespace''), (TablespaceNameTagName, tblName tbl),
                         (BackupNameTagName, bkName metadata)] destinationDirectory w"

definition RestorePgData :: "'w kopia_env \<Rightarrow> Connection \<Rightarrow> BackupMetadata \<Rightarrow> string \<Rightarrow> 'w \<Rightarrow> go_error option \<times> 'w" where
  "RestorePgData E c metadata destinationDirectory w =
     restore_tagged E c [(BackupContentTagName, ''pgdata''), (BackupNameTagName, bkName metadata)] destinationDirectory w"

definition RestoreControlData :: "'w kopia_env \<Rightarrow> Connection \<Rightarrow> BackupMetadata \<Rightarrow> string \<Rightarrow> 'w \<Rightarrow> go_error option \<times> 'w" where
  "RestoreControlData E c metadata destinationPath w =
     restore_tagged E c [(BackupContentTagName, ''controldata''), (BackupNameTagName, bkName metadata)] destinationPath w"

section \<open>core/internal/client/klioclient/kopia/kopia.go: connections\<close>

record BaseRepositoryClientConfig =
  baseURL :: string
  baseTier2URL :: string
  baseServerCertPath :: string
  baseClientCertPath :: string
  baseClientKeyPath :: string

record ClientConfig =
  ccClusterName :: string
  ccBase :: BaseRepositoryClientConfig

definition ErrClusterCertificateMismatch :: go_error where
  "ErrClusterCertificateMismatch = Sentinel ''cluster name does not match certificate''"

definition extractUserNameAndHostName :: "string \<Rightarrow> go_error + (string \<times> string)" where
  "extractUserNameAndHostName commonName =
     (case split_on (CHR ''@'') commonName of
        [u, h] \<Rightarrow>
          if u = [] then Inl (Sentinel ''userName part in commonName cannot be empty'')
          else if h = [] then Inl (Sentinel ''hostName part in commonName cannot be empty'')
          else Inr (u, h)
      | _ \<Rightarrow> Inl (Sentinel ''commonName must be in the form userName@hostName''))"

definition CleanupConfigFile :: "'w host_env \<Rightarrow> string \<Rightarrow> 'w \<Rightarrow> 'w" where
  "CleanupConfigFile H configFile w = snd (Remove H (configFile @ ''.kopia-password'') (snd (Remove H configFile w)))"

definition connectToKopiaServer ::
  "'w kopia_env \<Rightarrow> 'w host_env \<Rightarrow> ClientConfig \<Rightarrow> string \<Rightarrow> bool \<Rightarrow> 'w \<Rightarrow> (go_error + Connection) \<times> 'w" where
  "connectToKopiaServer E H cfg kopiaURL readOnly w =
     (case CreateTemp H w of
        (Inl e, w1) \<Rightarrow> (Inl (Wrap ''while writing a temporary Kopia config'' e), w1)
      | (Inr configFile, w1) \<Rightarrow>
          (case LoadX509KeyPair H (baseClientCertPath (ccBase cfg)) (baseClientKeyPath (ccBase cfg)) w1 of
             Inl e \<Rightarrow> (Inl (Wrap ''error while parsing client certificate'' e), w1)
           | Inr None \<Rightarrow> (Inl (Sentinel ''error: no leaf found in client certificate''), w1)
           | Inr (Some commonName) \<Rightarrow>
               (case extractUserNameAndHostName commonName of
                  Inl e \<Rightarrow> (Inl (Wrap ''error while extracting userName and hostName from client certificate'' e), w1)
                | Inr (user, certHostName) \<Rightarrow>
                    if ccClusterName cfg \<noteq> certHostName
                    then (Inl (Wrap ''configured cluster and certificate hostname'' ErrClusterCertificateMismatch), w1)
                    else (case LookupBinary E of
                            Inl e \<Rightarrow> (Inl e, w1)
                          | Inr kopiaBinary \<Rightarrow>
                              (case ConnectRemote E configFile
                                      \<lparr>coKopiaBinary = kopiaBinary, coEncryptionPassword = [], coPersistCredentials = False,
                                       coCacheDirectory = path_Join [TempDir H, ''kopia-cache''], coReadOnly = readOnly,
                                       rmURL = kopiaURL, rmClientCertPath = baseClientCertPath (ccBase cfg),
                                       rmClientKeyPath = baseClientKeyPath (ccBase cfg),
                                       rmServerCertCAFile = baseServerCertPath (ccBase cfg),
                                       rmUsername = user, rmHostname = certHostName\<rparr> w1 of
                                 (Some e, w2) \<Rightarrow> (Inl (Wrap ''while executing Kopia command'' e), w2)
                               | (None, w2) \<Rightarrow>
                                   (Inr \<lparr>hostName = certHostName, userName = user,
                                         conKopia = \<lparr>ConfigFile = configFile, KopiaBinary = kopiaBinary, Password = ''mtls''\<rparr>\<rparr>, w2))))))"

definition ConnectTier1 :: "'w kopia_env \<Rightarrow> 'w host_env \<Rightarrow> ClientConfig \<Rightarrow> 'w \<Rightarrow> (go_error + Connection) \<times> 'w" where
  "ConnectTier1 E H cfg w = connectToKopiaServer E H cfg (baseURL (ccBase cfg)) False w"

definition ConnectTier2 :: "'w kopia_env \<Rightarrow> 'w host_env \<Rightarrow> ClientConfig \<Rightarrow> 'w \<Rightarrow> (go_error + Connection) \<times> 'w" where
  "ConnectTier2 E H cfg w = connectToKopiaServer E H cfg (baseTier2URL (ccBase cfg)) True w"

text \<open>A connection as the interface klioclient.Client.\<close>

definition connection_client :: "'w kopia_env \<Rightarrow> 'w host_env \<Rightarrow> Connection \<Rightarrow> 'w klio_client" where
  "connection_client E H c =
     \<lparr>cUploadTablespace = UploadTablespace E c, cUploadPgData = UploadPgData E H c,
      cUploadControlFile = UploadControlFile E c, cUploadBackupMetadata = UploadBackupMetadata E H c,
      cListBackups = ListBackups (store_of E c), cGetMetadata = kopia_GetMetadata (store_of E c),
      cRestoreTablespace = RestoreTablespace E c, cRestorePgData = RestorePgData E c,
      cRestoreControlData = RestoreControlData E c, cDeleteBackup = DeleteBackup (deleteAttempts H) (store_of E c),
      cGetUsername = Inr (userName c), cGetHostname = Inr (hostName c),
      cSetCompressionPolicy = cli_SetKopiaCompressionPolicy E (conKopia c),
      cClose = CleanupConfigFile H (ConfigFile (conKopia c))\<rparr>"

section \<open>core/internal/client/klioclient/kopia/multiconnect.go\<close>

definition tier1AnnotationName :: string where "tier1AnnotationName = ''klio.io/tier1''"
definition tier2AnnotationName :: string where "tier2AnnotationName = ''klio.io/tier2''"
definition presentAnnotationValue :: string where "presentAnnotationValue = ''present''"

definition ErrUnsupportedWriteOperation :: go_error where
  "ErrUnsupportedWriteOperation = Sentinel ''write operations require tier1 connection (server is read-only)''"

definition nil_dereference :: go_error where "nil_dereference = Panic ''invalid memory address or nil pointer dereference''"

record 'w MultiConnection =
  mcTier1 :: "'w klio_client option"
  mcTier2 :: "'w klio_client option"

definition markTier1 :: "BackupMetadata \<Rightarrow> BackupMetadata" where
  "markTier1 = SetAnnotation tier1AnnotationName presentAnnotationValue"

definition markTier2 :: "BackupMetadata \<Rightarrow> BackupMetadata" where
  "markTier2 = SetAnnotation tier2AnnotationName presentAnnotationValue"

definition has_annotation :: "string \<Rightarrow> BackupMetadata \<Rightarrow> bool" where
  "has_annotation n m \<longleftrightarrow> (case Annotations m of None \<Rightarrow> False | Some a \<Rightarrow> a n = Some presentAnnotationValue)"

definition getReadClient :: "'w MultiConnection \<Rightarrow> 'w klio_client option" where
  "getReadClient s = (case mcTier1 s of Some c \<Rightarrow> Some c | None \<Rightarrow> mcTier2 s)"

definition getClientFromMetadata :: "'w MultiConnection \<Rightarrow> BackupMetadata \<Rightarrow> 'w klio_client option" where
  "getClientFromMetadata s meta =
     (if has_annotation tier1AnnotationName meta then mcTier1 s
      else if has_annotation tier2AnnotationName meta then mcTier2 s
      else None)"

definition multi_write :: "'w MultiConnection \<Rightarrow> ('w klio_client \<Rightarrow> 'w \<Rightarrow> go_error option \<times> 'w) \<Rightarrow> 'w \<Rightarrow> go_error option \<times> 'w" where
  "multi_write s f w = (case mcTier1 s of None \<Rightarrow> (Some ErrUnsupportedWriteOperation, w) | Some c \<Rightarrow> f c w)"

definition multi_read ::
  "'w MultiConnection \<Rightarrow> BackupMetadata \<Rightarrow> ('w klio_client \<Rightarrow> 'w \<Rightarrow> go_error option \<times> 'w) \<Rightarrow> 'w \<Rightarrow> go_error option \<times> 'w" where
  "multi_read s meta f w = (case getClientFromMetadata s meta of None \<Rightarrow> (Some nil_dereference, w) | Some c \<Rightarrow> f c w)"

definition multi_GetMetadata ::
  "'w MultiConnection \<Rightarrow> string \<Rightarrow> string \<Rightarrow> 'w \<Rightarrow> (go_error + BackupMetadata) \<times> 'w" where
  "multi_GetMetadata s hostname name w =
     (let tier2 = (\<lambda>w. case mcTier2 s of
             None \<Rightarrow> (Inl NoBackupFoundError, w)
           | Some c \<Rightarrow> (case cGetMetadata c hostname name w of
                         (Inl e, w') \<Rightarrow> (Inl (Wrap ''while getting metadata from tier2'' e), w')
                       | (Inr meta, w') \<Rightarrow> (Inr (markTier2 meta), w')))
      in case mcTier1 s of
           None \<Rightarrow> tier2 w
         | Some c \<Rightarrow>
             (case cGetMetadata c hostname name w of
                (Inr meta, w') \<Rightarrow> (Inr (markTier1 meta), w')
              | (Inl e, w') \<Rightarrow>
                  if errors_Is e NoBackupFoundError then tier2 w'
                  else (Inl (Wrap ''while getting metadata from tier1'' e), w')))"

definition list_tier ::
  "string \<Rightarrow> 'w klio_client option \<Rightarrow> string \<Rightarrow> 'w \<Rightarrow> (go_error + BackupList) \<times> 'w" where
  "list_tier msg c hostname w =
     (case c of
        None \<Rightarrow> (Inr [], w)
      | Some c \<Rightarrow> (case cListBackups c hostname w of (Inl e, w') \<Rightarrow> (Inl (Wrap msg e), w') | (Inr l, w') \<Rightarrow> (Inr l, w')))"

definition merge_tiers :: "BackupList \<Rightarrow> BackupList \<Rightarrow> BackupList" where
  "merge_tiers tier1List tier2List =
     map (\<lambda>b. if bkName b \<in> set (map bkName tier2List) then markTier2 (markTier1 b) else markTier1 b) tier1List @
     map markTier2 (filter (\<lambda>b. bkName b \<notin> set (map bkName tier1List)) tier2List)"

definition multi_ListBackups :: "'w MultiConnection \<Rightarrow> string \<Rightarrow> 'w \<Rightarrow> (go_error + BackupList) \<times> 'w" where
  "multi_ListBackups s hostname w =
     (case list_tier ''while listing backups from tier1'' (mcTier1 s) hostname w of
        (Inl e, w1) \<Rightarrow> (Inl e, w1)
      | (Inr tier1List, w1) \<Rightarrow>
          (case list_tier ''while listing backups from tier2'' (mcTier2 s) hostname w1 of
             (Inl e, w2) \<Rightarrow> (Inl e, w2)
           | (Inr tier2List, w2) \<Rightarrow> (Inr (merge_tiers tier1List tier2List), w2)))"

definition multi_Close :: "'w MultiConnection \<Rightarrow> 'w \<Rightarrow> 'w" where
  "multi_Close s w =
     (let w1 = (case mcTier1 s of None \<Rightarrow> w | Some c \<Rightarrow> cClose c w)
      in case mcTier2 s of None \<Rightarrow> w1 | Some c \<Rightarrow> cClose c w1)"

definition multi_client :: "'w MultiConnection \<Rightarrow> 'w klio_client" where
  "multi_client s =
     \<lparr>cUploadTablespace = (\<lambda>n t. multi_write s (\<lambda>c. cUploadTablespace c n t)),
      cUploadPgData = (\<lambda>n p. multi_write s (\<lambda>c. cUploadPgData c n p)),
      cUploadControlFile = (\<lambda>n p. multi_write s (\<lambda>c. cUploadControlFile c n p)),
      cUploadBackupMetadata = (\<lambda>n m. multi_write s (\<lambda>c. cUploadBackupMetadata c n m)),
      cListBackups = multi_ListBackups s, cGetMetadata = multi_GetMetadata s,
      cRestoreTablespace = (\<lambda>m t d. multi_read s m (\<lambda>c. cRestoreTablespace c m t d)),
      cRestorePgData = (\<lambda>m d. multi_read s m (\<lambda>c. cRestorePgData c m d)),
      cRestoreControlData = (\<lambda>m d. multi_read s m (\<lambda>c. cRestoreControlData c m d)),
      cDeleteBackup = (\<lambda>h n. multi_write s (\<lambda>c. cDeleteBackup c h n)),
      cGetUsername = (case getReadClient s of None \<Rightarrow> Inl nil_dereference | Some c \<Rightarrow> cGetUsername c),
      cGetHostname = (case getReadClient s of None \<Rightarrow> Inl nil_dereference | Some c \<Rightarrow> cGetHostname c),
      cSetCompressionPolicy = (\<lambda>t p. multi_write s (\<lambda>c. cSetCompressionPolicy c t p)),
      cClose = multi_Close s\<rparr>"

text \<open>The client of a backup: tier 1, and tier 2 when there is one.\<close>

definition tiered :: "'w kopia_env \<Rightarrow> 'w host_env \<Rightarrow> Connection \<Rightarrow> 'w klio_client option \<Rightarrow> 'w klio_client" where
  "tiered E H c other = multi_client \<lparr>mcTier1 = Some (connection_client E H c), mcTier2 = other\<rparr>"

definition connect_tier ::
  "string \<Rightarrow> ('w \<Rightarrow> (go_error + Connection) \<times> 'w) \<Rightarrow> string \<Rightarrow> 'w \<Rightarrow> (go_error + Connection option) \<times> 'w" where
  "connect_tier url connect msg w =
     (if url = [] then (Inr None, w)
      else case connect w of (Inl e, w') \<Rightarrow> (Inl (Wrap msg e), w') | (Inr c, w') \<Rightarrow> (Inr (Some c), w'))"

definition MultiConnect ::
  "'w kopia_env \<Rightarrow> 'w host_env \<Rightarrow> ClientConfig \<Rightarrow> 'w \<Rightarrow> (go_error + 'w MultiConnection) \<times> 'w" where
  "MultiConnect E H cfg w =
     (case connect_tier (baseURL (ccBase cfg)) (ConnectTier1 E H cfg) ''connecting to tier1'' w of
        (Inl e, w1) \<Rightarrow> (Inl e, w1)
      | (Inr c1, w1) \<Rightarrow>
          (case connect_tier (baseTier2URL (ccBase cfg)) (ConnectTier2 E H cfg) ''connecting to tier2'' w1 of
             (Inl e, w2) \<Rightarrow> (Inl e, w2)
           | (Inr c2, w2) \<Rightarrow>
               if c1 = None \<and> c2 = None then (Inl (Sentinel ''at least one of tier1 and tier2 is required''), w2)
               else (Inr \<lparr>mcTier1 = map_option (connection_client E H) c1, mcTier2 = map_option (connection_client E H) c2\<rparr>, w2)))"

section \<open>core/internal/client/klioclient/backup.go\<close>

text \<open>The answers of PostgreSQL to the queries of a backup, and the clock.\<close>

record pg_session =
  ShowDataDirectory :: "go_error + string"
  TablespaceRows :: "go_error + ((go_error + TablespaceLayout) list \<times> go_error option)"
  pg_backup_start :: "string \<Rightarrow> go_error + uint64"
  timelineRow :: "go_error + int"
  segmentSizeRow :: "go_error + uint64"
  pg_backup_stop :: "go_error + (uint64 \<times> string \<times> string)"
  nowStart :: "int \<times> string"
  nowStop :: int

record BackupExecutor =
  beName :: string
  beClusterName :: string
  bePgData :: string
  beStartLSN :: uint64
  beTablespaces :: "TablespaceLayout list"
  beStartedAt :: int

definition NewBackupExecutor :: "string \<Rightarrow> BackupExecutor" where
  "NewBackupExecutor clusterName =
     \<lparr>beName = [], beClusterName = clusterName, bePgData = [], beStartLSN = 0, beTablespaces = [], beStartedAt = 0\<rparr>"

fun scan_tablespaces ::
  "(go_error + TablespaceLayout) list \<Rightarrow> TablespaceLayout list \<Rightarrow> go_error option \<times> TablespaceLayout list" where
  "scan_tablespaces [] acc = (None, acc)"
| "scan_tablespaces (Inl e # rows) acc = (Some (Wrap ''while reading list of tablespaces (scan)'' e), acc)"
| "scan_tablespaces (Inr tbl # rows) acc =
     scan_tablespaces rows (if length (tblPath tbl) = 0 then acc else acc @ [tbl])"

definition be_Start :: "pg_session \<Rightarrow> string \<Rightarrow> BackupExecutor \<Rightarrow> go_error option \<times> BackupExecutor" where
  "be_Start pg optName b =
     (let b1 = b\<lparr>beStartedAt := fst (nowStart pg), beName := (if optName \<noteq> [] then optName else snd (nowStart pg))\<rparr>
      in case ShowDataDirectory pg of
           Inl e \<Rightarrow> (Some (Wrap ''while reading pgdata'' e), b1)
         | Inr pgData \<Rightarrow>
             let b2 = b1\<lparr>bePgData := pgData\<rparr>
             in case TablespaceRows pg of
                  Inl e \<Rightarrow> (Some (Wrap ''while reading list of tablespaces'' e), b2)
                | Inr (rows, rowsErr) \<Rightarrow>
                    let (scanErr, tbls) = scan_tablespaces rows (beTablespaces b2); b3 = b2\<lparr>beTablespaces := tbls\<rparr>
                    in case scanErr of
                         Some e \<Rightarrow> (Some e, b3)
                       | None \<Rightarrow>
                           (case rowsErr of
                              Some e \<Rightarrow> (Some (Wrap ''while reading tablespaces'' e), b3)
                            | None \<Rightarrow>
                                (case pg_backup_start pg (beName b3) of
                                   Inl e \<Rightarrow> (Some (Wrap ''while running pg_backup_start'' e), b3)
                                 | Inr lsn \<Rightarrow> (None, b3\<lparr>beStartLSN := lsn\<rparr>))))"

fun upload_tablespaces ::
  "'w klio_client \<Rightarrow> string \<Rightarrow> TablespaceLayout list \<Rightarrow> 'w \<Rightarrow> go_error option \<times> 'w" where
  "upload_tablespaces cl name [] w = (None, w)"
| "upload_tablespaces cl name (tbl # tbls) w =
     (case cUploadTablespace cl name tbl w of
        (Some e, w') \<Rightarrow> (Some e, w')
      | (None, w') \<Rightarrow> upload_tablespaces cl name tbls w')"

definition Upload :: "'w klio_client \<Rightarrow> BackupExecutor \<Rightarrow> 'w \<Rightarrow> go_error option \<times> 'w" where
  "Upload cl b w =
     (case upload_tablespaces cl (beName b) (beTablespaces b) w of
        (Some e, w1) \<Rightarrow> (Some e, w1)
      | (None, w1) \<Rightarrow>
          (case cUploadPgData cl (beName b) (bePgData b) w1 of
             (Some e, w2) \<Rightarrow> (Some e, w2)
           | (None, w2) \<Rightarrow>
               (case cUploadControlFile cl (beName b) (path_Join [bePgData b, controlDataPath]) w2 of
                  (Some e, w3) \<Rightarrow> (Some e, w3)
                | (None, w3) \<Rightarrow> (None, w3))))"

definition backup_metadata :: "lsn_math \<Rightarrow> pg_session \<Rightarrow> BackupExecutor \<Rightarrow> uint64 \<Rightarrow> string \<Rightarrow> string \<Rightarrow> BackupMetadata" where
  "backup_metadata L pg b endLSN labelFile spcmapFile =
     (let tli = (case timelineRow pg of Inl _ \<Rightarrow> 0 | Inr t \<Rightarrow> t);
          segmentSize = (case segmentSizeRow pg of Inl _ \<Rightarrow> 0 | Inr n \<Rightarrow> n);
          walName = (\<lambda>lsn. if 0 < tli \<and> 0 < segmentSize
                           then (case WALFileNameAt L lsn tli segmentSize of Inl _ \<Rightarrow> [] | Inr n \<Rightarrow> n) else [])
      in \<lparr>bkName = beName b, bkClusterName = beClusterName b, StartLSN = beStartLSN b, EndLSN = endLSN,
          StartWAL = walName (beStartLSN b), EndWAL = walName endLSN, bkTimeline = tli, bkSegmentSize = segmentSize,
          BackupLabel = labelFile, TablespaceMap = spcmapFile, PgData = bePgData b, Tablespaces = beTablespaces b,
          Annotations = None, StartedAt = beStartedAt b, StoppedAt = nowStop pg\<rparr>)"

definition Close ::
  "lsn_math \<Rightarrow> pg_session \<Rightarrow> 'w klio_client \<Rightarrow> BackupExecutor \<Rightarrow> 'w \<Rightarrow> (go_error + BackupMetadata) \<times> 'w" where
  "Close L pg cl b w =
     (case pg_backup_stop pg of
        Inl e \<Rightarrow> (Inl (Wrap ''while running pg_backup_stop'' e), w)
      | Inr (endLSN, labelFile, spcmapFile) \<Rightarrow>
          let metadata = backup_metadata L pg b endLSN labelFile spcmapFile
          in case cUploadBackupMetadata cl (beName b) metadata w of
               (Some e, w') \<Rightarrow> (Inl (Wrap ''while uploading backup metadata'' e), w')
             | (None, w') \<Rightarrow> (Inr metadata, w'))"

section \<open>core/internal/client/klioclient/restore.go\<close>

record RestoreConfiguration =
  rcName :: string
  rcTablespacesDirectory :: "string \<rightharpoonup> string"

definition tablespace_destination :: "RestoreConfiguration \<Rightarrow> TablespaceLayout \<Rightarrow> string" where
  "tablespace_destination conf tbl =
     (case rcTablespacesDirectory conf (tblName tbl) of Some v \<Rightarrow> v | None \<Rightarrow> tblPath tbl)"

definition restoreTablespace ::
  "'w klio_client \<Rightarrow> RestoreConfiguration \<Rightarrow> BackupMetadata \<Rightarrow> TablespaceLayout \<Rightarrow> 'w \<Rightarrow> go_error option \<times> 'w" where
  "restoreTablespace cl conf meta tbl w =
     (case cRestoreTablespace cl meta tbl (tablespace_destination conf tbl) w of
        (r, w') \<Rightarrow> (map_option (Wrap ''while restoring tablespace'') r, w'))"

fun restore_tablespaces ::
  "'w klio_client \<Rightarrow> RestoreConfiguration \<Rightarrow> BackupMetadata \<Rightarrow> TablespaceLayout list \<Rightarrow> 'w \<Rightarrow> go_error option \<times> 'w" where
  "restore_tablespaces cl conf meta [] w = (None, w)"
| "restore_tablespaces cl conf meta (tbl # tbls) w =
     (case restoreTablespace cl conf meta tbl w of
        (Some e, w') \<Rightarrow> (Some (Wrap ''while restoring tablespace'' e), w')
      | (None, w') \<Rightarrow> restore_tablespaces cl conf meta tbls w')"

definition Restore ::
  "'w host_env \<Rightarrow> 'w klio_client \<Rightarrow> RestoreConfiguration \<Rightarrow> string \<Rightarrow> string \<Rightarrow> 'w \<Rightarrow> go_error option \<times> 'w" where
  "Restore H cl conf hostname destinationPath w =
     (case cGetMetadata cl hostname (rcName conf) w of
        (Inl e, w1) \<Rightarrow> (Some (Wrap ''while getting metadata for backup'' e), w1)
      | (Inr meta, w1) \<Rightarrow>
          (case restore_tablespaces cl conf meta (Tablespaces meta) w1 of
             (Some e, w2) \<Rightarrow> (Some e, w2)
           | (None, w2) \<Rightarrow>
               (case cRestorePgData cl meta destinationPath w2 of
                  (Some e, w3) \<Rightarrow> (Some (Wrap ''while restoring pgdata'' e), w3)
                | (None, w3) \<Rightarrow>
                    (case cRestoreControlData cl meta (path_Join [destinationPath, controlDataPath]) w3 of
                       (Some e, w4) \<Rightarrow> (Some (Wrap ''while restoring control data file'' e), w4)
                     | (None, w4) \<Rightarrow>
                         (case WriteFile H (path_Join [destinationPath, backupLabelFileName]) (stringBytes H (BackupLabel meta)) w4 of
                            (Some e, w5) \<Rightarrow> (Some (Wrap ''while writing backup label'' e), w5)
                          | (None, w5) \<Rightarrow>
                              (case EnsureDirectoryExists H (path_Join [destinationPath, ''pg_wal'']) w5 of
                                 (Some e, w6) \<Rightarrow> (Some (Wrap ''while creating pg_wal directory'' e), w6)
                               | (None, w6) \<Rightarrow> (None, w6)))))))"

section \<open>core/cmd/restore.go\<close>

definition errNoSuitableBackup :: go_error where
  "errNoSuitableBackup = Sentinel ''no suitable backup found to restore for the requested recovery target''"

definition errNoTierForRecovery :: go_error where
  "errNoTierForRecovery = Sentinel ''no repository is configured for recovery''"

record restore_config =
  cfgClient :: ClientConfig
  cfgTier2RecoveryEnabled :: bool

definition dropTier2BaseURLWhenRecoveryDisabled :: "restore_config \<Rightarrow> bool \<times> restore_config" where
  "dropTier2BaseURLWhenRecoveryDisabled cfg =
     (if cfgTier2RecoveryEnabled cfg \<or> baseTier2URL (ccBase (cfgClient cfg)) = [] then (False, cfg)
      else (True, cfg\<lparr>cfgClient := (cfgClient cfg)\<lparr>ccBase := (ccBase (cfgClient cfg))\<lparr>baseTier2URL := []\<rparr>\<rparr>\<rparr>))"

fun parse_remaps :: "string list \<Rightarrow> (string \<rightharpoonup> string) \<Rightarrow> go_error + (string \<rightharpoonup> string)" where
  "parse_remaps [] m = Inr m"
| "parse_remaps (option # options) m =
     (case split_on (CHR '':'') option of
        [n, p] \<Rightarrow> if n = [] then Inl (Sentinel (''invalid tablespace remap option '' @ option))
                  else parse_remaps options (m(n \<mapsto> p))
      | _ \<Rightarrow> Inl (Sentinel (''invalid tablespace remap option '' @ option)))"

record restore_flags =
  flBackupID :: string
  flTargetTime :: string
  flTablespaces :: "string list"
  flDestination :: string

definition choose_backup ::
  "backup_sort \<Rightarrow> 'w klio_client \<Rightarrow> restore_flags \<Rightarrow> int option \<Rightarrow> string \<Rightarrow> 'w \<Rightarrow> (go_error + string) \<times> 'w" where
  "choose_backup srt cl fl targetTime hostname w =
     (if flBackupID fl \<noteq> [] then (Inr (flBackupID fl), w)
      else (case cListBackups cl hostname w of
              (Inl e, w') \<Rightarrow> (Inl (Wrap ''while downloading the backup catalog'' e), w')
            | (Inr backupList, w') \<Rightarrow>
                (case (case targetTime of Some t \<Rightarrow> FindClosestBackup srt backupList t | None \<Rightarrow> GetLatestBackup srt backupList) of
                   None \<Rightarrow> (Inl errNoSuitableBackup, w')
                 | Some b \<Rightarrow> (Inr (bkName b), w'))))"

definition restoreCmd ::
  "backup_sort \<Rightarrow> (string \<Rightarrow> go_error + int option) \<Rightarrow> 'w kopia_env \<Rightarrow> 'w host_env \<Rightarrow> restore_config \<Rightarrow> restore_flags \<Rightarrow>
   'w \<Rightarrow> go_error option \<times> 'w" where
  "restoreCmd srt ParseTargetTime E H cfg fl w =
     (case (if flTargetTime fl \<noteq> [] then ParseTargetTime (flTargetTime fl) else Inr None) of
        Inl e \<Rightarrow> (Some (Wrap ''unable to parse target time'' e), w)
      | Inr targetTime \<Rightarrow>
          (case parse_remaps (flTablespaces fl) Map.empty of
             Inl e \<Rightarrow> (Some e, w)
           | Inr tablespaces \<Rightarrow>
               let cfg1 = snd (dropTier2BaseURLWhenRecoveryDisabled cfg); base = ccBase (cfgClient cfg1)
               in if baseURL base = [] \<and> baseTier2URL base = [] then (Some errNoTierForRecovery, w)
                  else (case MultiConnect E H (cfgClient cfg1) w of
                          (Inl e, w1) \<Rightarrow> (Some (Wrap ''while connecting to the Klio server'' e), w1)
                        | (Inr mc, w1) \<Rightarrow>
                            let cl = multi_client mc;
                                (r, w2) =
                                  (case cGetHostname cl of
                                     Inl e \<Rightarrow> (Some e, w1)
                                   | Inr hostname \<Rightarrow>
                                       (case choose_backup srt cl fl targetTime hostname w1 of
                                          (Inl e, w2) \<Rightarrow> (Some e, w2)
                                        | (Inr backupName, w2) \<Rightarrow>
                                            Restore H cl \<lparr>rcName = backupName, rcTablespacesDirectory = tablespaces\<rparr>
                                              hostname (flDestination fl) w2))
                            in (r, cClose cl w2))))"

section \<open>What the code relies on\<close>

text \<open>
  Files are written and removed one at a time; none of the calls touches a repository.  A file named on
  the command line of kopia is never ignored.  An error of kopia, of the decoder or of the machine is not
  the error of the client that says that a backup is missing.
\<close>

definition host_laws :: "'w host_env \<Rightarrow> 'w kopia_view \<Rightarrow> bool" where
  "host_laws H V \<longleftrightarrow>
     (\<forall>p b w r w'. WriteFile H p b w = (r, w') \<longrightarrow> same_repos V w w' \<and> (\<forall>q. q \<noteq> p \<longrightarrow> vFiles V w' q = vFiles V w q) \<and>
        (r = None \<longrightarrow> vFiles V w' p = Some b)) \<and>
     (\<forall>p w r w'. Remove H p w = (r, w') \<longrightarrow> same_repos V w w' \<and> (\<forall>q. q \<noteq> p \<longrightarrow> vFiles V w' q = vFiles V w q)) \<and>
     (\<forall>p w r w'. EnsureDirectoryExists H p w = (r, w') \<longrightarrow> same_repos V w w' \<and> vFiles V w' = vFiles V w) \<and>
     (\<forall>t. \<not> vIgnored V t [])"

definition foreign :: "go_error \<Rightarrow> bool" where
  "foreign e \<longleftrightarrow> \<not> errors_Is e NoBackupFoundError"

definition foreign_errors :: "'w kopia_env \<Rightarrow> bool" where
  "foreign_errors E \<longleftrightarrow>
     (\<forall>b args env i w x w'. runCmd E b args env i w = (x, w') \<longrightarrow>
        (case x of PipeFailed e \<Rightarrow> foreign e | StartFailed e \<Rightarrow> foreign e | Waited r _ \<Rightarrow> pred_option foreign r)) \<and>
     (\<forall>b e. UnmarshalManifests E b = Inl e \<longrightarrow> foreign e) \<and> (\<forall>b e. UnmarshalBackupJSON E b = Inl e \<longrightarrow> foreign e) \<and>
     (\<forall>w e w'. MkdirTemp E w = (Inl e, w') \<longrightarrow> foreign e) \<and> (\<forall>p w e. OpenFile E p w = Some e \<longrightarrow> foreign e) \<and>
     (\<forall>p w e. ReadAll E p w = Inl e \<longrightarrow> foreign e)"

text \<open>A connection reads and writes as the host its configuration file was connected with.\<close>

definition connected :: "'w kopia_view \<Rightarrow> Connection \<Rightarrow> bool" where
  "connected V c \<longleftrightarrow> hostName c = vHost V (ConfigFile (conKopia c)) \<and> hostName c \<noteq> []"

definition backup_world :: "'w kopia_env \<Rightarrow> 'w host_env \<Rightarrow> 'w kopia_view \<Rightarrow> Connection \<Rightarrow> bool" where
  "backup_world E H V c \<longleftrightarrow> kopia_cli_laws E V \<and> host_laws H V \<and> foreign_errors E \<and> connected V c"

definition json_round_trip :: "'w kopia_env \<Rightarrow> 'w host_env \<Rightarrow> BackupMetadata \<Rightarrow> bool" where
  "json_round_trip E H m \<longleftrightarrow> (\<forall>b. MarshalBackupJSON H m = Inr b \<longrightarrow> UnmarshalBackupJSON E b = Inr m)"

text \<open>The parts of the backups of a name on a host: content, tablespace and tree of each snapshot.\<close>

type_synonym part = "string option \<times> string option \<times> tree"

definition part_of :: "'w kopia_view \<Rightarrow> string \<Rightarrow> 'w \<Rightarrow> Manifest \<Rightarrow> part" where
  "part_of V R w m = (Tags m (userTagPrefix @ BackupContentTagName), Tags m (userTagPrefix @ TablespaceNameTagName), vTree V R w (ID m))"

definition parts :: "'w kopia_view \<Rightarrow> string \<Rightarrow> string \<Rightarrow> 'w \<Rightarrow> part set" where
  "parts V cfg n w =
     part_of V (vRepo V cfg) w ` {m \<in> set (vSnaps V (vRepo V cfg) w).
       Host (Source m) = vHost V cfg \<and> Tags m (userTagPrefix @ BackupNameTagName) = Some n}"

definition tablespace_part :: "'w kopia_view \<Rightarrow> 'w \<Rightarrow> TablespaceLayout \<Rightarrow> part" where
  "tablespace_part V w tbl =
     (Some ''tablespace'', Some (path_Base (tblName tbl)), visible V (subtree (vFiles V w) (tblPath tbl)))"

definition pgdata_tree :: "'w host_env \<Rightarrow> 'w kopia_view \<Rightarrow> 'w \<Rightarrow> string \<Rightarrow> tree" where
  "pgdata_tree H V w pgData =
     subtree ((vFiles V w)(pgData @ ''/'' @ kopiaIgnoreFileName \<mapsto> stringBytes H kopiaIgnoreContent)) pgData"

definition restores ::
  "'w kopia_view \<Rightarrow> string \<Rightarrow> string \<Rightarrow> string \<Rightarrow> string option \<Rightarrow> string \<Rightarrow> 'w \<Rightarrow> 'w \<Rightarrow> bool" where
  "restores V cfg n content ts d w w' \<longleftrightarrow>
     same_repos V w w' \<and> (\<exists>ts' t. (Some content, ts', t) \<in> parts V cfg n w \<and> (ts \<noteq> None \<longrightarrow> ts' = ts) \<and>
       vFiles V w' = overlay (vFiles V w) d t)"

text \<open>Two places neither of which is inside the other.\<close>

definition apart :: "string \<Rightarrow> string \<Rightarrow> bool" where
  "apart p q \<longleftrightarrow> \<not> below p q \<and> \<not> below q p"

section \<open>A concrete machine and a backup\<close>

text \<open>JSON as a list of strings; numbers in base ten.\<close>

definition num_string :: "string \<Rightarrow> nat" where
  "num_string v = foldl (\<lambda>n c. 10 * n + (of_char c - 48)) 0 v"

definition enc_backup :: "BackupMetadata \<Rightarrow> bytes" where
  "enc_backup m = enc_strings ([bkName m, bkClusterName m, FormatNat (unat (StartLSN m)), FormatNat (unat (EndLSN m)), StartWAL m,
     EndWAL m, FormatNat (nat (bkTimeline m)), FormatNat (unat (bkSegmentSize m)), BackupLabel m, TablespaceMap m, PgData m,
     FormatNat (nat (StartedAt m)), FormatNat (nat (StoppedAt m))] @ concat (map (\<lambda>t. [tblName t, tblOid t, tblPath t]) (Tablespaces m)))"

fun dec_tablespaces :: "string list \<Rightarrow> TablespaceLayout list" where
  "dec_tablespaces (n # i # p # rest) = \<lparr>tblName = n, tblOid = i, tblPath = p\<rparr> # dec_tablespaces rest"
| "dec_tablespaces _ = []"

definition dec_backup :: "bytes \<Rightarrow> go_error + BackupMetadata" where
  "dec_backup b =
     (case dec_strings [] b of
        n # c # sl # el # sw # ew # tli # ss # bl # tm # pg # st # sp # tbls \<Rightarrow>
          Inr \<lparr>bkName = n, bkClusterName = c, StartLSN = of_nat (num_string sl), EndLSN = of_nat (num_string el), StartWAL = sw,
            EndWAL = ew, bkTimeline = int (num_string tli), bkSegmentSize = of_nat (num_string ss), BackupLabel = bl,
            TablespaceMap = tm, PgData = pg, Tablespaces = dec_tablespaces tbls, Annotations = None,
            StartedAt = int (num_string st), StoppedAt = int (num_string sp)\<rparr>
      | _ \<Rightarrow> Inl ErrUnexpectedEOF)"

definition box_host :: "box host_env" where
  "box_host =
     \<lparr>WriteFile = (\<lambda>p b w. (None, w\<lparr>bxFiles := (p, b) # bxFiles w\<rparr>)),
      Remove = (\<lambda>p w. (None, w\<lparr>bxFiles := filter (\<lambda>e. fst e \<noteq> p) (bxFiles w)\<rparr>)),
      EnsureDirectoryExists = (\<lambda>p w. (None, w)), CreateTemp = (\<lambda>w. (Inr ''/tmp/kopiaconfig'', w)),
      LoadX509KeyPair = (\<lambda>c k w. Inr (Some ''klio@pg'')), TempDir = ''/tmp'', MarshalBackupJSON = (\<lambda>m. Inr (enc_backup m)),
      stringBytes = name_bytes, deleteAttempts = 3\<rparr>"

definition example_connection :: Connection where
  "example_connection = \<lparr>hostName = ''pg'', userName = ''klio'', conKopia = example_client\<rparr>"

definition example_tiers :: "box klio_client" where
  "example_tiers = tiered (box_env dec_backup) box_host example_connection None"

definition example_pg :: "string \<Rightarrow> pg_session" where
  "example_pg spc = \<lparr>ShowDataDirectory = Inr ''/pg'',
     TablespaceRows = Inr ([Inr \<lparr>tblName = ''pg_default'', tblOid = ''1663'', tblPath = []\<rparr>,
                            Inr \<lparr>tblName = spc, tblOid = ''16384'', tblPath = ''/ts''\<rparr>], None),
     pg_backup_start = (\<lambda>n. Inr 40), timelineRow = Inr 1, segmentSizeRow = Inr 16,
     pg_backup_stop = Inr (80, ''LABEL'', ''MAP''), nowStart = (5, ''20260101000000''), nowStop = 9\<rparr>"

definition example_executor :: "string \<Rightarrow> BackupExecutor" where
  "example_executor spc = snd (be_Start (example_pg spc) ''b1'' (NewBackupExecutor ''pg''))"

definition example_pg_box :: box where
  "example_pg_box = example_box\<lparr>bxFiles :=
     [(''/pg/PG_VERSION'', [1]), (''/pg/global/pg_control'', [2]), (''/pg/pg_wal/1'', [3]), (''/ts/data'', [4])]\<rparr>"

definition uploaded_box :: "string \<Rightarrow> box" where
  "uploaded_box spc = snd (Upload example_tiers (example_executor spc) example_pg_box)"

definition closed_backup :: "string \<Rightarrow> (go_error + BackupMetadata) \<times> box" where
  "closed_backup spc = Close example_lsn (example_pg spc) example_tiers (example_executor spc) (uploaded_box spc)"

definition example_remap :: "string \<Rightarrow> RestoreConfiguration" where
  "example_remap spc = \<lparr>rcName = ''b1'', rcTablespacesDirectory = [spc \<mapsto> ''/newts'']\<rparr>"

definition restored_box :: "string \<Rightarrow> go_error option \<times> box" where
  "restored_box spc = Restore box_host example_tiers (example_remap spc) ''pg'' ''/new'' ((snd (closed_backup spc))\<lparr>bxFiles := []\<rparr>)"

section \<open>Lemmas: parts\<close>

lemma parts_same: "same_repos V w w' \<Longrightarrow> parts V cfg n w' = parts V cfg n w"
  by (simp add: parts_def part_of_def [abs_def] same_repos_def same_repo_def)

lemmas tag_defs = BackupContentTagName_def BackupNameTagName_def TablespaceNameTagName_def userTagPrefix_def

lemma parts_added:
  assumes "snapshot_added V cfg tags t w w'" and "stored_tags tags (userTagPrefix @ BackupNameTagName) = Some n"
  shows "parts V cfg n w' = insert (stored_tags tags (userTagPrefix @ BackupContentTagName),
      stored_tags tags (userTagPrefix @ TablespaceNameTagName), t) (parts V cfg n w)"
proof -
  let ?R = "vRepo V cfg"
  from assms(1) obtain m where m: "mset (vSnaps V ?R w') = add_mset m (mset (vSnaps V ?R w))" "Host (Source m) = vHost V cfg"
    "Tags m = stored_tags tags" "vTree V ?R w' (ID m) = t"
    and old: "\<And>m. m \<in> set (vSnaps V ?R w) \<Longrightarrow> vTree V ?R w' (ID m) = vTree V ?R w (ID m)"
    unfolding snapshot_added_def by blast
  have set: "set (vSnaps V ?R w') = insert m (set (vSnaps V ?R w))"
    using m(1) by (metis set_mset_add_mset_insert set_mset_mset)
  let ?P = "\<lambda>x. Host (Source x) = vHost V cfg \<and> Tags x (userTagPrefix @ BackupNameTagName) = Some n"
  have "{x \<in> set (vSnaps V ?R w'). ?P x} = insert m {x \<in> set (vSnaps V ?R w). ?P x}"
    unfolding set using m(2,3) assms(2) by auto
  then have "parts V cfg n w' = insert (part_of V ?R w' m) (part_of V ?R w' ` {x \<in> set (vSnaps V ?R w). ?P x})"
    by (simp add: parts_def)
  also have "part_of V ?R w' ` {x \<in> set (vSnaps V ?R w). ?P x} = parts V cfg n w"
    unfolding parts_def by (rule image_cong) (auto simp: part_of_def old)
  finally show ?thesis using m(3,4) by (simp add: part_of_def)
qed

lemma apart_below: "apart p q \<Longrightarrow> below p x \<Longrightarrow> \<not> below q x"
proof
  assume a: "apart p q" and p: "below p x" and q: "below q x"
  from p obtain r where r: "x = p @ r" "r = [] \<or> hd r = CHR ''/''" by (auto simp: below_cases)
  from q obtain s where s: "x = q @ s" "s = [] \<or> hd s = CHR ''/''" by (auto simp: below_cases)
  from r(1) s(1) obtain u where "p = q @ u \<and> u @ r = s \<or> p @ u = q \<and> r = u @ s"
    by (auto simp: append_eq_append_conv2)
  moreover have "u @ r = s \<Longrightarrow> u = [] \<or> hd u = CHR ''/''" and "r = u @ s \<Longrightarrow> u = [] \<or> hd u = CHR ''/''"
    using r(2) s(2) by (cases u; auto)+
  ultimately have "below q p \<or> below p q" by (auto simp: below_cases)
  with a show False by (simp add: apart_def)
qed

lemma overlay_rel: "rel = [] \<or> hd rel = CHR ''/'' \<Longrightarrow> t rel = Some b \<Longrightarrow> overlay fs d t (d @ rel) = Some b"
  by (auto simp: overlay_def below_cases)

lemma control_path: "abs_path d \<Longrightarrow> path_Join [d, controlDataPath] = d @ ''/global/pg_control''"
  using abs_path_Join [of d "[''global'', ''pg_control'']"] by (force simp: controlDataPath_def plain_elem_def)

lemma label_path: "abs_path d \<Longrightarrow> path_Join [d, backupLabelFileName] = d @ ''/backup_label''"
  using abs_path_Join1 [of d backupLabelFileName] by (simp add: backupLabelFileName_def plain_elem_def)

lemma ignore_path: "abs_path d \<Longrightarrow> path_Join [d, kopiaIgnoreFileName] = d @ CHR ''/'' # kopiaIgnoreFileName"
  using abs_path_Join1 [of d kopiaIgnoreFileName] by (simp add: kopiaIgnoreFileName_def plain_elem_def)

lemma mark_simps:
  "bkName (markTier1 b) = bkName b" "bkName (markTier2 b) = bkName b"
  "Annotations b = None \<Longrightarrow> Annotations (markTier1 b) = Some [tier1AnnotationName \<mapsto> presentAnnotationValue]"
  "Annotations b = None \<Longrightarrow> Annotations (markTier2 b) = Some [tier2AnnotationName \<mapsto> presentAnnotationValue]"
  "Annotations b = None \<Longrightarrow> Annotations (markTier2 (markTier1 b)) =
     Some [tier1AnnotationName \<mapsto> presentAnnotationValue, tier2AnnotationName \<mapsto> presentAnnotationValue]"
  "has_annotation n b \<longleftrightarrow> (case Annotations b of None \<Rightarrow> False | Some a \<Rightarrow> a n = Some presentAnnotationValue)"
  "tier1AnnotationName \<noteq> tier2AnnotationName" "tier2AnnotationName \<noteq> tier1AnnotationName"
  by (simp_all add: markTier1_def markTier2_def SetAnnotation_def Let_def has_annotation_def tier1AnnotationName_def tier2AnnotationName_def)

text \<open>The last element of a path has no slash, unless the path is nothing else.\<close>

lemma path_Base_slashes: "CHR ''/'' \<in> set n \<Longrightarrow> set n \<noteq> {CHR ''/''} \<Longrightarrow> n \<noteq> path_Base p"
proof
  assume n: "CHR ''/'' \<in> set n" "set n \<noteq> {CHR ''/''}" "n = path_Base p"
  let ?b = "rev (takeWhile (\<lambda>c. c \<noteq> CHR ''/'') (rev (rev (dropWhile (\<lambda>c. c = CHR ''/'') (rev p)))))"
  have "CHR ''/'' \<notin> set ?b" by (metis (mono_tags, lifting) set_rev set_takeWhileD)
  with n show False by (auto simp: path_Base_def Let_def split: if_splits)
qed

section \<open>Interface: klioclient.Client\<close>

text \<open>
  What the executors of a backup and of a restore rely on.  Uploads add a part under the name of the backup,
  reads give the parts back; \<open>mine\<close> tells the metadata that the client read itself.
\<close>

locale klio_store =
  fixes good :: bool and E :: "'w kopia_env" and H :: "'w host_env" and V :: "'w kopia_view" and cfg :: string
    and cl :: "'w klio_client" and mine :: "BackupMetadata \<Rightarrow> bool"
  assumes upload_tablespace: "good \<Longrightarrow> rooted (tblPath tbl) \<Longrightarrow> cUploadTablespace cl n tbl w = (None, w') \<Longrightarrow>
      vFiles V w' = vFiles V w \<and> parts V cfg n w' = insert (tablespace_part V w tbl) (parts V cfg n w)"
    and upload_pgdata: "good \<Longrightarrow> abs_path p \<Longrightarrow> cUploadPgData cl n p w = (None, w') \<Longrightarrow>
      (\<forall>q. q \<noteq> p @ ''/'' @ kopiaIgnoreFileName \<longrightarrow> vFiles V w' q = vFiles V w q) \<and>
      parts V cfg n w' = insert (Some ''pgdata'', None, visible V (pgdata_tree H V w p)) (parts V cfg n w)"
    and upload_control: "good \<Longrightarrow> rooted p \<Longrightarrow> cUploadControlFile cl n p w = (None, w') \<Longrightarrow>
      vFiles V w' = vFiles V w \<and>
      parts V cfg n w' = insert (Some ''controldata'', None, visible V (subtree (vFiles V w) p)) (parts V cfg n w)"
    and upload_metadata: "good \<Longrightarrow> abs_path (PgData m) \<Longrightarrow> cUploadBackupMetadata cl n m w = (None, w') \<Longrightarrow>
      vFiles V w' = vFiles V w \<and> (\<exists>b. MarshalBackupJSON H m = Inr b \<and>
      parts V cfg n w' = insert (Some ''metadata'', None, [''/metadata.json'' \<mapsto> b]) (parts V cfg n w))"
    and get_metadata: "good \<Longrightarrow> (Some ''metadata'', x, y) \<in> parts V cfg n w \<Longrightarrow>
      cGetMetadata cl (vHost V cfg) n w = (Inr m, w') \<Longrightarrow>
      same_repos V w w' \<and> mine m \<and> (\<exists>ts t b m0. (Some ''metadata'', ts, t) \<in> parts V cfg n w \<and> t ''/metadata.json'' = Some b \<and>
        UnmarshalBackupJSON E b = Inr m0 \<and> m\<lparr>Annotations := Annotations m0\<rparr> = m0)"
    and get_missing: "good \<Longrightarrow> cGetMetadata cl (vHost V cfg) n w = (Inl e, w') \<Longrightarrow> errors_Is e NoBackupFoundError \<Longrightarrow>
      (Some ''metadata'', x, y) \<notin> parts V cfg n w"
    and restore_tablespace: "good \<Longrightarrow> mine m \<Longrightarrow> rooted d \<Longrightarrow> cRestoreTablespace cl m tbl d w = (None, w') \<Longrightarrow>
      restores V cfg (bkName m) ''tablespace'' (Some (tblName tbl)) d w w'"
    and restore_pgdata: "good \<Longrightarrow> mine m \<Longrightarrow> rooted d \<Longrightarrow> cRestorePgData cl m d w = (None, w') \<Longrightarrow>
      restores V cfg (bkName m) ''pgdata'' None d w w'"
    and restore_control: "good \<Longrightarrow> mine m \<Longrightarrow> rooted d \<Longrightarrow> cRestoreControlData cl m d w = (None, w') \<Longrightarrow>
      restores V cfg (bkName m) ''controldata'' None d w w'"
begin

text \<open>The pair of connections to the two tiers keeps the contract of its tier 1 connection.\<close>

lemma multi_store:
  assumes any: "\<And>m a. mine m \<Longrightarrow> mine (m\<lparr>Annotations := a\<rparr>)"
  shows "klio_store good E H V cfg (multi_client \<lparr>mcTier1 = Some cl, mcTier2 = other\<rparr>)
    (\<lambda>m. mine m \<and> has_annotation tier1AnnotationName m)"
proof -
  have mark: "markTier1 m = m\<lparr>Annotations := Annotations (markTier1 m)\<rparr>" "has_annotation tier1AnnotationName (markTier1 m)" for m
    by (simp_all add: markTier1_def SetAnnotation_def has_annotation_def Let_def)
  have unmark: "(markTier1 m)\<lparr>Annotations := a\<rparr> = m\<lparr>Annotations := a\<rparr>" for m a
    by (simp add: markTier1_def SetAnnotation_def Let_def)
  show ?thesis
  proof (unfold_locales, goal_cases)
    case (5 x y n w m w')
    then obtain m1 where m1: "cGetMetadata cl (vHost V cfg) n w = (Inr m1, w')" "m = markTier1 m1"
      using get_missing by (auto simp: multi_client_def multi_GetMetadata_def split: sum.splits prod.splits if_splits)
    from get_metadata [OF 5(1,2) m1(1)] show ?case
      using mark [of m1] any [of m1 "Annotations (markTier1 m1)"] by (auto simp: m1(2) unmark)
  next
    case (6 n w e w' x y)
    then show ?case
      using get_missing by (auto simp: multi_client_def multi_GetMetadata_def NoBackupFoundError_def split: sum.splits prod.splits if_splits)
  qed (auto simp: multi_client_def multi_write_def multi_read_def getClientFromMetadata_def
      dest: upload_tablespace upload_pgdata upload_control upload_metadata restore_tablespace restore_pgdata restore_control)
qed

text \<open>Taking a backup.\<close>

lemma upload_tablespaces_parts:
  assumes good and "\<forall>tbl \<in> set tbls. rooted (tblPath tbl)" and "upload_tablespaces cl n tbls w = (None, w')"
  shows "vFiles V w' = vFiles V w \<and> parts V cfg n w' = tablespace_part V w ` set tbls \<union> parts V cfg n w"
  using assms(2,3)
proof (induction tbls arbitrary: w)
  case (Cons tbl tbls)
  then obtain w1 where 1: "cUploadTablespace cl n tbl w = (None, w1)" and 2: "upload_tablespaces cl n tbls w1 = (None, w')"
    by (auto split: prod.splits option.splits)
  from upload_tablespace [OF assms(1) _ 1] Cons.prems(1) have u: "vFiles V w1 = vFiles V w"
    "parts V cfg n w1 = insert (tablespace_part V w tbl) (parts V cfg n w)" by auto
  then have "tablespace_part V w1 = tablespace_part V w" by (simp add: tablespace_part_def [abs_def])
  with Cons.IH [OF _ 2] Cons.prems(1) u show ?case by auto
qed simp

lemma taken_parts:
  assumes good: good and paths: "abs_path (bePgData b)" "\<forall>tbl \<in> set (beTablespaces b). rooted (tblPath tbl)"
    and up: "Upload cl b w0 = (None, w1)" and close: "Close L pg cl b w1 = (Inr meta, w2)"
  shows "\<exists>j. MarshalBackupJSON H meta = Inr j \<and> parts V cfg (beName b) w2 =
    {(Some ''metadata'', None, [''/metadata.json'' \<mapsto> j]),
     (Some ''controldata'', None, visible V (subtree (vFiles V w0) (bePgData b @ ''/global/pg_control''))),
     (Some ''pgdata'', None, visible V (pgdata_tree H V w0 (bePgData b)))} \<union>
    tablespace_part V w0 ` set (beTablespaces b) \<union> parts V cfg (beName b) w0"
    and "bkName meta = beName b" and "Tablespaces meta = beTablespaces b" and "Annotations meta = None"
proof -
  let ?n = "beName b" and ?p = "bePgData b" and ?ctl = "bePgData b @ ''/global/pg_control''"
  have ctl: "path_Join [?p, controlDataPath] = ?ctl"
    by (rule control_path [OF paths(1)])
  from up obtain a1 a2 where 1: "upload_tablespaces cl ?n (beTablespaces b) w0 = (None, a1)"
    and 2: "cUploadPgData cl ?n ?p a1 = (None, a2)" and 3: "cUploadControlFile cl ?n ?ctl a2 = (None, w1)"
    by (auto simp: Upload_def ctl split: prod.splits option.splits)
  from close obtain e l m where stop: "pg_backup_stop pg = Inr (e, l, m)" and meta: "meta = backup_metadata L pg b e l m"
    and 4: "cUploadBackupMetadata cl ?n meta w1 = (None, w2)"
    by (auto simp: Close_def Let_def split: prod.splits option.splits sum.splits)
  show "bkName meta = beName b" "Tablespaces meta = beTablespaces b" "Annotations meta = None"
    by (simp_all add: meta backup_metadata_def Let_def)
  have pg: "PgData meta = ?p" by (simp add: meta backup_metadata_def Let_def)
  note T = upload_tablespaces_parts [OF good paths(2) 1]
  note P = upload_pgdata [OF good paths(1) 2]
  have ra: "rooted ?ctl" using abs_path_rooted [OF paths(1)] by (auto simp: rooted_def)
  note C = upload_control [OF good ra 3]
  have "abs_path (PgData meta)" using paths(1) pg by simp
  from upload_metadata [OF good this 4] obtain j where j: "MarshalBackupJSON H meta = Inr j"
    "parts V cfg ?n w2 = insert (Some ''metadata'', None, [''/metadata.json'' \<mapsto> j]) (parts V cfg ?n w1)" by blast
  have "pgdata_tree H V a1 ?p = pgdata_tree H V w0 ?p" using T by (simp add: pgdata_tree_def)
  moreover have "subtree (vFiles V a2) ?ctl = subtree (vFiles V w0) ?ctl"
    using P T by (auto simp: subtree_def fun_eq_iff kopiaIgnoreFileName_def)
  ultimately show "\<exists>j. MarshalBackupJSON H meta = Inr j \<and> parts V cfg ?n w2 =
    {(Some ''metadata'', None, [''/metadata.json'' \<mapsto> j]), (Some ''controldata'', None, visible V (subtree (vFiles V w0) ?ctl)),
     (Some ''pgdata'', None, visible V (pgdata_tree H V w0 ?p))} \<union>
    tablespace_part V w0 ` set (beTablespaces b) \<union> parts V cfg ?n w0"
    using j C P T by (intro exI [of _ j]) auto
qed

text \<open>Restoring a backup.\<close>

lemma restore_tablespaces_frame:
  assumes good and "mine m" and "\<forall>tbl \<in> set tbls. rooted (tablespace_destination conf tbl)"
    and "restore_tablespaces cl conf m tbls w = (None, w')"
  shows "same_repos V w w' \<and>
    (\<forall>q. (\<forall>tbl \<in> set tbls. \<not> below (tablespace_destination conf tbl) q) \<longrightarrow> vFiles V w' q = vFiles V w q)"
  using assms(3,4)
proof (induction tbls arbitrary: w)
  case (Cons tbl tbls)
  then obtain w1 where 1: "cRestoreTablespace cl m tbl (tablespace_destination conf tbl) w = (None, w1)"
    and 2: "restore_tablespaces cl conf m tbls w1 = (None, w')"
    by (auto simp: restoreTablespace_def split: prod.splits option.splits)
  from restore_tablespace [OF assms(1,2) _ 1] Cons.prems(1)
  have "same_repos V w w1" "\<And>q. \<not> below (tablespace_destination conf tbl) q \<Longrightarrow> vFiles V w1 q = vFiles V w q"
    by (auto simp: restores_def)
  with Cons.IH [OF _ 2] Cons.prems(1) show ?case by (auto intro: same_repos_trans)
qed simp

lemma restore_tablespaces_files:
  assumes good and "mine m" and "\<forall>tbl \<in> set tbls. rooted (tablespace_destination conf tbl)"
    and "restore_tablespaces cl conf m tbls w = (None, w')" and "distinct tbls"
    and "\<forall>a \<in> set tbls. \<forall>b \<in> set tbls. a \<noteq> b \<longrightarrow> apart (tablespace_destination conf a) (tablespace_destination conf b)"
  shows "\<forall>tbl \<in> set tbls. \<exists>t. (Some ''tablespace'', Some (tblName tbl), t) \<in> parts V cfg (bkName m) w \<and>
    (\<forall>rel x. rel = [] \<or> hd rel = CHR ''/'' \<longrightarrow> t rel = Some x \<longrightarrow> vFiles V w' (tablespace_destination conf tbl @ rel) = Some x)"
  using assms(3-)
proof (induction tbls arbitrary: w)
  case (Cons tbl tbls)
  let ?d = "tablespace_destination conf tbl"
  from Cons.prems obtain w1 where 1: "cRestoreTablespace cl m tbl ?d w = (None, w1)"
    and 2: "restore_tablespaces cl conf m tbls w1 = (None, w')"
    by (auto simp: restoreTablespace_def split: prod.splits option.splits)
  from restore_tablespace [OF assms(1,2) _ 1] Cons.prems(1) obtain t where same: "same_repos V w w1"
    and t: "(Some ''tablespace'', Some (tblName tbl), t) \<in> parts V cfg (bkName m) w" "vFiles V w1 = overlay (vFiles V w) ?d t"
    by (auto simp: restores_def)
  have frame: "vFiles V w' (?d @ rel) = vFiles V w1 (?d @ rel)" if "rel = [] \<or> hd rel = CHR ''/''" for rel
  proof -
    have "below ?d (?d @ rel)" using that by (auto simp: below_cases)
    moreover have "\<forall>b \<in> set tbls. apart ?d (tablespace_destination conf b)" using Cons.prems(3,4) by auto
    ultimately have "\<forall>b \<in> set tbls. \<not> below (tablespace_destination conf b) (?d @ rel)" using apart_below by blast
    with restore_tablespaces_frame [OF assms(1,2) _ 2] Cons.prems(1) show ?thesis by auto
  qed
  have "\<exists>t. (Some ''tablespace'', Some (tblName tbl), t) \<in> parts V cfg (bkName m) w \<and>
    (\<forall>rel x. rel = [] \<or> hd rel = CHR ''/'' \<longrightarrow> t rel = Some x \<longrightarrow> vFiles V w' (?d @ rel) = Some x)"
    using t frame overlay_rel by (intro exI [of _ t]) auto
  moreover have "\<forall>tbl \<in> set tbls. \<exists>t. (Some ''tablespace'', Some (tblName tbl), t) \<in> parts V cfg (bkName m) w \<and>
    (\<forall>rel x. rel = [] \<or> hd rel = CHR ''/'' \<longrightarrow> t rel = Some x \<longrightarrow> vFiles V w' (tablespace_destination conf tbl @ rel) = Some x)"
    using Cons.IH [OF _ 2] Cons.prems parts_same [OF same] by auto
  ultimately show ?case by simp
qed simp

text \<open>A completed backup under a fresh name, and what a restore of that name reads and writes.\<close>

lemma stored_backup:
  assumes "good" and "abs_path (bePgData b)" and "\<forall>tbl \<in> set (beTablespaces b). rooted (tblPath tbl)"
    and "parts V cfg (beName b) w0 = {}" and "Upload cl b w0 = (None, w1)" and "Close L pg cl b w1 = (Inr meta, w2)"
    and "same_repos V w2 w3"
  obtains j where "MarshalBackupJSON H meta = Inr j" and "parts V cfg (beName b) w3 =
    {(Some ''metadata'', None, [''/metadata.json'' \<mapsto> j]),
     (Some ''controldata'', None, visible V (subtree (vFiles V w0) (bePgData b @ ''/global/pg_control''))),
     (Some ''pgdata'', None, visible V (pgdata_tree H V w0 (bePgData b)))} \<union> tablespace_part V w0 ` set (beTablespaces b)"
  using taken_parts(1) [OF assms(1-3,5,6)] assms(4) parts_same [OF assms(7)] by auto

lemma restore_effect:
  assumes good: good and host: "host_laws H V" and json: "json_round_trip E H meta" and j: "MarshalBackupJSON H meta = Inr j"
    and P: "parts V cfg n w = {(Some ''metadata'', None, [''/metadata.json'' \<mapsto> j]), (Some ''controldata'', None, ctl),
      (Some ''pgdata'', None, pg)} \<union> T" and T: "\<forall>p \<in> T. fst p = Some ''tablespace''"
    and meta: "bkName meta = n" "\<forall>tbl \<in> set (Tablespaces meta). rooted (tablespace_destination conf tbl)"
    and dest: "abs_path dest" and conf: "rcName conf = n" and run: "Restore H cl conf (vHost V cfg) dest w = (None, w')"
  obtains m w1 w2 where "mine m" "bkName m = n" "Tablespaces m = Tablespaces meta" "parts V cfg n w1 = parts V cfg n w"
    and "restore_tablespaces cl conf m (Tablespaces meta) w1 = (None, w2)"
    and "vFiles V w' = (overlay (overlay (vFiles V w2) dest pg) (dest @ ''/global/pg_control'') ctl)
      (dest @ ''/backup_label'' \<mapsto> stringBytes H (BackupLabel meta))"
proof -
  from run obtain m w1 w2 w3 w4 w5 where 1: "cGetMetadata cl (vHost V cfg) n w = (Inr m, w1)"
    and 2: "restore_tablespaces cl conf m (Tablespaces m) w1 = (None, w2)"
    and 3: "cRestorePgData cl m dest w2 = (None, w3)"
    and 4: "cRestoreControlData cl m (dest @ ''/global/pg_control'') w3 = (None, w4)"
    and 5: "WriteFile H (dest @ ''/backup_label'') (stringBytes H (BackupLabel m)) w4 = (None, w5)"
    and 6: "EnsureDirectoryExists H (path_Join [dest, ''pg_wal'']) w5 = (None, w')"
    unfolding Restore_def conf control_path [OF dest] label_path [OF dest]
    by (auto split: prod.splits option.splits sum.splits)
  have unique: "(Some ''metadata'', ts, t) \<in> parts V cfg n w \<longleftrightarrow> ts = None \<and> t = [''/metadata.json'' \<mapsto> j]" for ts t
    unfolding P using T by auto
  then have "(Some ''metadata'', None, [''/metadata.json'' \<mapsto> j]) \<in> parts V cfg n w" by blast
  from get_metadata [OF good this 1] unique json j
  have s1: "same_repos V w w1" and mine: "mine m" and m: "m\<lparr>Annotations := Annotations meta\<rparr> = meta"
    by (auto simp: json_round_trip_def)
  have fields: "Tablespaces m = Tablespaces meta" "bkName m = n" "BackupLabel m = BackupLabel meta"
    using m meta(1) by (metis BackupMetadata.select_convs BackupMetadata.surjective BackupMetadata.update_convs(13))+
  have ra: "rooted dest" "rooted (dest @ ''/global/pg_control'')" using abs_path_rooted [OF dest] by (auto simp: rooted_def)
  note F2 = restore_tablespaces_frame [OF good mine meta(2) 2 [unfolded fields(1)]]
  note R3 = restore_pgdata [OF good mine ra(1) 3, unfolded fields(2)]
  note R4 = restore_control [OF good mine ra(2) 4, unfolded fields(2)]
  have P1: "parts V cfg n w1 = parts V cfg n w" using s1 by (rule parts_same)
  have P2: "parts V cfg n w2 = parts V cfg n w" "parts V cfg n w3 = parts V cfg n w"
    using P1 F2 R3 by (auto simp: restores_def parts_same)
  have "vFiles V w3 = overlay (vFiles V w2) dest pg"
    using R3 T unfolding restores_def P2(1) P by auto
  moreover have "vFiles V w4 = overlay (vFiles V w3) (dest @ ''/global/pg_control'') ctl"
    using R4 T unfolding restores_def P2(2) P by auto
  moreover have "vFiles V w5 = (vFiles V w4)(dest @ ''/backup_label'' \<mapsto> stringBytes H (BackupLabel meta))"
    using host 5 fields(3) unfolding host_laws_def fun_eq_iff by simp
  moreover have "vFiles V w' = vFiles V w5" using host 6 unfolding host_laws_def by blast
  ultimately show thesis using that mine fields P1 2 by simp
qed

lemma tablespace_kinds: "\<forall>p \<in> tablespace_part V w ` A. fst p = Some ''tablespace''"
  by (auto simp: tablespace_part_def)

lemma backup_restores:
  assumes good: good and host: "host_laws H V"
    and paths: "abs_path (bePgData b)" "\<forall>tbl \<in> set (beTablespaces b). rooted (tblPath tbl)"
    and fresh: "parts V cfg (beName b) w0 = {}"
    and up: "Upload cl b w0 = (None, w1)" and close: "Close L pg cl b w1 = (Inr meta, w2)"
    and json: "json_round_trip E H meta" and same: "same_repos V w2 w3"
    and conf: "rcName conf = beName b" and run: "Restore H cl conf (vHost V cfg) dest w3 = (None, w4)"
    and dest: "abs_path dest" "\<forall>tbl \<in> set (beTablespaces b). rooted (tablespace_destination conf tbl)"
    and places: "\<forall>x \<in> set (beTablespaces b). apart (tablespace_destination conf x) dest \<and>
       (\<forall>y \<in> set (beTablespaces b). x \<noteq> y \<longrightarrow> apart (tablespace_destination conf x) (tablespace_destination conf y))"
    and names: "distinct (map tblName (beTablespaces b))" "\<forall>tbl \<in> set (beTablespaces b). path_Base (tblName tbl) = tblName tbl"
  shows "\<forall>tbl \<in> set (beTablespaces b). \<forall>rel x. visible V (subtree (vFiles V w0) (tblPath tbl)) rel = Some x \<longrightarrow>
      vFiles V w4 (tablespace_destination conf tbl @ rel) = Some x"
    and "\<forall>rel x. \<not> below ''/global/pg_control'' rel \<longrightarrow> rel \<noteq> ''/backup_label'' \<longrightarrow>
      visible V (pgdata_tree H V w0 (bePgData b)) rel = Some x \<longrightarrow> vFiles V w4 (dest @ rel) = Some x"
    and "\<forall>x. vFiles V w0 (bePgData b @ ''/global/pg_control'') = Some x \<longrightarrow> vFiles V w4 (dest @ ''/global/pg_control'') = Some x"
    and "vFiles V w4 (dest @ ''/backup_label'') = Some (stringBytes H (BackupLabel meta))"
proof -
  let ?n = "beName b" and ?tbls = "beTablespaces b" and ?dst = "tablespace_destination conf"
  let ?ctl = "visible V (subtree (vFiles V w0) (bePgData b @ ''/global/pg_control''))"
  let ?pg = "visible V (pgdata_tree H V w0 (bePgData b))"
  note taken = taken_parts(2,3) [OF good paths up close]
  obtain j where j: "MarshalBackupJSON H meta = Inr j" and P3: "parts V cfg ?n w3 =
    {(Some ''metadata'', None, [''/metadata.json'' \<mapsto> j]), (Some ''controldata'', None, ?ctl), (Some ''pgdata'', None, ?pg)} \<union>
    tablespace_part V w0 ` set ?tbls" by (rule stored_backup [OF good paths fresh up close same])
  obtain m v1 v2 where mine: "mine m" and m: "bkName m = ?n" "Tablespaces m = Tablespaces meta" "parts V cfg ?n v1 = parts V cfg ?n w3"
    and 2: "restore_tablespaces cl conf m (Tablespaces meta) v1 = (None, v2)"
    and files: "vFiles V w4 = (overlay (overlay (vFiles V v2) dest ?pg) (dest @ ''/global/pg_control'') ?ctl)
      (dest @ ''/backup_label'' \<mapsto> stringBytes H (BackupLabel meta))"
    by (rule restore_effect [OF good host json j P3 tablespace_kinds taken(1) _ dest(1) conf run]) (use dest(2) taken(2) in auto)
  have inside: "below (dest @ ''/global/pg_control'') q \<Longrightarrow> below dest q" for q by (auto simp: below_cases)
  show "vFiles V w4 (dest @ ''/backup_label'') = Some (stringBytes H (BackupLabel meta))" by (simp add: files)
  show "\<forall>x. vFiles V w0 (bePgData b @ ''/global/pg_control'') = Some x \<longrightarrow> vFiles V w4 (dest @ ''/global/pg_control'') = Some x"
  proof (intro allI impI)
    fix x assume "vFiles V w0 (bePgData b @ ''/global/pg_control'') = Some x"
    then have "?ctl [] = Some x" using host by (simp add: visible_def subtree_def host_laws_def)
    then show "vFiles V w4 (dest @ ''/global/pg_control'') = Some x" by (simp add: files overlay_def)
  qed
  show "\<forall>rel x. \<not> below ''/global/pg_control'' rel \<longrightarrow> rel \<noteq> ''/backup_label'' \<longrightarrow> ?pg rel = Some x \<longrightarrow> vFiles V w4 (dest @ rel) = Some x"
  proof (intro allI impI)
    fix rel x assume rel: "\<not> below ''/global/pg_control'' rel" "rel \<noteq> ''/backup_label''" "?pg rel = Some x"
    have "rel = [] \<or> hd rel = CHR ''/''"
      using rel(3) by (auto simp: visible_def pgdata_tree_def subtree_def split: if_splits)
    moreover have "\<not> below (dest @ ''/global/pg_control'') (dest @ rel)" using rel(1) by (auto simp: below_def)
    ultimately show "vFiles V w4 (dest @ rel) = Some x" using rel(2,3) overlay_rel by (simp add: files)
  qed
  have "distinct ?tbls" and "\<forall>x \<in> set ?tbls. \<forall>y \<in> set ?tbls. x \<noteq> y \<longrightarrow> apart (?dst x) (?dst y)"
    using names(1) places by (auto simp: distinct_map)
  note T2 = restore_tablespaces_files [OF good mine dest(2) 2 [unfolded taken(2)] this, unfolded m(1,3)]
  show "\<forall>tbl \<in> set ?tbls. \<forall>rel x. visible V (subtree (vFiles V w0) (tblPath tbl)) rel = Some x \<longrightarrow> vFiles V w4 (?dst tbl @ rel) = Some x"
  proof (intro ballI allI impI)
    fix tbl rel x assume tbl: "tbl \<in> set ?tbls" and rel: "visible V (subtree (vFiles V w0) (tblPath tbl)) rel = Some x"
    have ok: "rel = [] \<or> hd rel = CHR ''/''" using rel by (auto simp: visible_def subtree_def split: if_splits)
    from bspec [OF T2 tbl] obtain t where t: "(Some ''tablespace'', Some (tblName tbl), t) \<in> parts V cfg ?n w3"
      "\<And>rel x. rel = [] \<or> hd rel = CHR ''/'' \<Longrightarrow> t rel = Some x \<Longrightarrow> vFiles V v2 (?dst tbl @ rel) = Some x" by blast
    from t(1) obtain tbl' where "tbl' \<in> set ?tbls" "path_Base (tblName tbl') = tblName tbl"
      "t = visible V (subtree (vFiles V w0) (tblPath tbl'))"
      unfolding P3 by (auto simp: tablespace_part_def)
    with names tbl have "t = visible V (subtree (vFiles V w0) (tblPath tbl))"
      by (metis distinct_map inj_on_eq_iff)
    with t(2) [OF ok] rel have v2: "vFiles V v2 (?dst tbl @ rel) = Some x" by simp
    have "below (?dst tbl) (?dst tbl @ rel)" using ok by (auto simp: below_cases)
    then have out: "\<not> below dest (?dst tbl @ rel)" using apart_below places tbl by blast
    then have "?dst tbl @ rel \<noteq> dest @ ''/backup_label''" by (metis below_append(1))
    moreover have "\<not> below (dest @ ''/global/pg_control'') (?dst tbl @ rel)" using out inside by blast
    ultimately show "vFiles V w4 (?dst tbl @ rel) = Some x" using out v2 by (simp add: files)
  qed
qed

text \<open>A tablespace that no snapshot carries the name of cannot be restored.\<close>

lemma restored_tablespace_part:
  assumes good and "mine m" and "restore_tablespaces cl conf m tbls w = (None, w')" and "tbl \<in> set tbls"
    and "\<forall>tbl \<in> set tbls. rooted (tablespace_destination conf tbl)"
  shows "\<exists>t. (Some ''tablespace'', Some (tblName tbl), t) \<in> parts V cfg (bkName m) w"
  using assms(3-)
proof (induction tbls arbitrary: w)
  case (Cons a tbls)
  then obtain w1 where 1: "cRestoreTablespace cl m a (tablespace_destination conf a) w = (None, w1)"
    and 2: "restore_tablespaces cl conf m tbls w1 = (None, w')"
    by (auto simp: restoreTablespace_def split: prod.splits option.splits)
  from restore_tablespace [OF assms(1,2) _ 1] Cons.prems(3)
  have r: "restores V cfg (bkName m) ''tablespace'' (Some (tblName a)) (tablespace_destination conf a) w w1" by simp
  show ?case
  proof (cases "a = tbl")
    case False
    with Cons.IH [OF 2] Cons.prems r show ?thesis by (auto simp: restores_def parts_same)
  qed (use r in \<open>auto simp: restores_def\<close>)
qed simp

lemma unnamed_tablespace_fails:
  assumes good: good and host: "host_laws H V"
    and paths: "abs_path (bePgData b)" "\<forall>tbl \<in> set (beTablespaces b). rooted (tblPath tbl)"
    and fresh: "parts V cfg (beName b) w0 = {}"
    and up: "Upload cl b w0 = (None, w1)" and close: "Close L pg cl b w1 = (Inr meta, w2)"
    and json: "json_round_trip E H meta" and same: "same_repos V w2 w3" and conf: "rcName conf = beName b"
    and dest: "abs_path dest" "\<forall>tbl \<in> set (beTablespaces b). rooted (tablespace_destination conf tbl)"
    and tbl: "tbl \<in> set (beTablespaces b)" "tblName tbl \<notin> path_Base ` tblName ` set (beTablespaces b)"
  shows "fst (Restore H cl conf (vHost V cfg) dest w3) \<noteq> None"
proof
  assume "fst (Restore H cl conf (vHost V cfg) dest w3) = None"
  then obtain w4 where run: "Restore H cl conf (vHost V cfg) dest w3 = (None, w4)" by (metis prod.collapse)
  note taken = taken_parts(2,3) [OF good paths up close]
  obtain j where j: "MarshalBackupJSON H meta = Inr j" and P3: "parts V cfg (beName b) w3 =
    {(Some ''metadata'', None, [''/metadata.json'' \<mapsto> j]),
     (Some ''controldata'', None, visible V (subtree (vFiles V w0) (bePgData b @ ''/global/pg_control''))),
     (Some ''pgdata'', None, visible V (pgdata_tree H V w0 (bePgData b)))} \<union> tablespace_part V w0 ` set (beTablespaces b)"
    by (rule stored_backup [OF good paths fresh up close same])
  obtain m v1 v2 where mine: "mine m" and m: "bkName m = beName b" "parts V cfg (beName b) v1 = parts V cfg (beName b) w3"
    and 2: "restore_tablespaces cl conf m (Tablespaces meta) v1 = (None, v2)"
    by (rule restore_effect [OF good host json j P3 tablespace_kinds taken(1) _ dest(1) conf run]) (use dest(2) taken(2) in auto)
  from restored_tablespace_part [OF good mine 2 [unfolded taken(2)] tbl(1) dest(2), unfolded m P3] show False
    using tbl(2) by (auto simp: tablespace_part_def)
qed

end

section \<open>A connection keeps the contract\<close>

lemma backup_worldD:
  assumes "backup_world E H V c"
  shows "kopia_cli_laws E V" "host_laws H V" "foreign_errors E" "hostName c = vHost V (ConfigFile (conKopia c))" "hostName c \<noteq> []"
  using assms by (auto simp: backup_world_def connected_def)

lemmas tags_simps = tag_names_def stored_tags_def tag_defs

lemma find_listed:
  assumes "find P (filter Q l) = Some x"
  shows "x \<in> set l \<and> Q x \<and> P x"
proof -
  from assms have "x \<in> set (filter Q l) \<and> P x" by (metis find_Some_iff nth_mem)
  then show ?thesis by simp
qed

lemma listed_part:
  assumes "m \<in> set (vSnaps V (vRepo V cfg) w)" and "Host (Source m) = vHost V cfg"
    and "has_tags tags m" and "(BackupNameTagName, n) \<in> set tags" and "(BackupContentTagName, k) \<in> set tags"
  shows "(Some k, Tags m (userTagPrefix @ TablespaceNameTagName), vTree V (vRepo V cfg) w (ID m)) \<in> parts V cfg n w"
proof -
  have "Tags m (userTagPrefix @ BackupNameTagName) = Some n" "Tags m (userTagPrefix @ BackupContentTagName) = Some k"
    using assms(3-5) by (auto simp: has_tags_def list_all_iff)
  with assms(1,2) show ?thesis by (force simp: parts_def part_of_def)
qed

lemma restore_tagged_ok:
  assumes world: "backup_world E H V c" and "restore_tagged E c tags d w = (None, w')" and "rooted d" and "tag_names tags"
    and "(BackupNameTagName, n) \<in> set tags" and "(BackupContentTagName, k) \<in> set tags"
    and ts: "\<And>x. ts = Some x \<Longrightarrow> (TablespaceNameTagName, x) \<in> set tags"
  shows "restores V (ConfigFile (conKopia c)) n k ts d w w'"
proof -
  note W = backup_worldD [OF world]
  let ?cfg = "ConfigFile (conKopia c)"
  from assms(2) obtain es w1 m where 1: "cli_ListSnapshots E (conKopia c) tags w = (Inr es, w1)"
    and 2: "find (\<lambda>entry. hostName c \<noteq> [] \<and> Host (Source entry) = hostName c) es = Some m"
    and 3: "RestoreSnapshot E (conKopia c) (ID m) d w1 = (None, w')"
    by (auto simp: restore_tagged_def getSnapshotID_def split: prod.splits sum.splits option.splits)
  note L = cli_ListSnapshots_ok [OF W(1) 1]
  have es: "es = filter (has_tags tags) (vSnaps V (vRepo V ?cfg) w)" using L assms(4) by blast
  have m: "m \<in> set (vSnaps V (vRepo V ?cfg) w)" "has_tags tags m" "Host (Source m) = vHost V ?cfg"
    using find_listed [OF 2 [unfolded es]] W(4) by auto
  have "take 2 (ID m) \<noteq> ''--''" using machine_lawD(4) [OF cli_lawsD(6) [OF W(1)] m(1)] by blast
  note R = RestoreSnapshot_ok [OF W(1) 3 this assms(3)]
  have "Tags m (userTagPrefix @ TablespaceNameTagName) = Some x" if "ts = Some x" for x
    using m(2) ts [OF that] by (auto simp: has_tags_def list_all_iff)
  then have t: "ts \<noteq> None \<longrightarrow> Tags m (userTagPrefix @ TablespaceNameTagName) = ts" by (cases ts) auto
  have "vTree V (vRepo V ?cfg) w1 (ID m) = vTree V (vRepo V ?cfg) w (ID m)" using L by (simp add: same_repos_def same_repo_def)
  then show ?thesis
    unfolding restores_def using same_repos_trans [of V w w1 w'] L R(1) R(3) listed_part [OF m(1,3,2) assms(5,6)] t by auto
qed

lemma errors_Wrap [simp]: "foreign (Wrap m e) \<longleftrightarrow> foreign e"
  by (simp add: foreign_def NoBackupFoundError_def)

lemma foreign_errorsD:
  assumes "foreign_errors E"
  shows "runCmd E b args env i w = (PipeFailed e, w') \<Longrightarrow> foreign e"
    and "runCmd E b args env i w = (StartFailed e, w') \<Longrightarrow> foreign e"
    and "runCmd E b args env i w = (Waited (Some e) out, w') \<Longrightarrow> foreign e"
    and "UnmarshalManifests E bs = Inl e \<Longrightarrow> foreign e" and "UnmarshalBackupJSON E bs = Inl e \<Longrightarrow> foreign e"
    and "MkdirTemp E w = (Inl e, w') \<Longrightarrow> foreign e" and "OpenFile E p w = Some e \<Longrightarrow> foreign e"
    and "ReadAll E p w = Inl e \<Longrightarrow> foreign e"
proof -
  note L = assms [unfolded foreign_errors_def]
  note R = L [THEN conjunct1, THEN spec, THEN spec, THEN spec, THEN spec, THEN spec, THEN spec, THEN spec, THEN mp]
  show "runCmd E b args env i w = (PipeFailed e, w') \<Longrightarrow> foreign e" using R by fastforce
  show "runCmd E b args env i w = (StartFailed e, w') \<Longrightarrow> foreign e" using R by fastforce
  show "runCmd E b args env i w = (Waited (Some e) out, w') \<Longrightarrow> foreign e" using R by fastforce
qed (use assms [unfolded foreign_errors_def, THEN conjunct2] in blast)+

lemma foreign_run:
  assumes "foreign_errors E" and "client_run E s args i w = ((Some e, out), w')"
  shows "foreign e"
proof -
  obtain x v where x: "runCmd E (KopiaBinary s) args (kopiaEnvironmentVariables E s) i w = (x, v)" by force
  show ?thesis
  proof (cases x)
    case (Waited r o')
    with x assms(2) show ?thesis
      using foreign_errorsD(3) [OF assms(1)] by (cases r) (auto simp: client_run_def RunWithLogCapture_def)
  qed (use x assms(2) foreign_errorsD(1,2) [OF assms(1)] in \<open>auto simp: client_run_def RunWithLogCapture_def\<close>)
qed

lemma foreign_list:
  assumes "foreign_errors E" and "cli_ListSnapshots E s tags w = (Inl e, w')"
  shows "foreign e"
proof -
  let ?args = "[''snapshot'', ''list'', ''--disable-file-logging'', ''--all'', ''--json'', ''--config-file='' @ ConfigFile s]
                 @ tag_flags tags"
  obtain r out v where run: "client_run E s ?args [] w = ((r, out), v)" by (metis surj_pair)
  show ?thesis
  proof (cases r)
    case None
    with run assms(2) show ?thesis
      using foreign_errorsD(4) [OF assms(1), of out]
      by (cases "UnmarshalManifests E out") (auto simp: cli_ListSnapshots_def)
  qed (use run assms foreign_run [OF assms(1)] in \<open>auto simp: cli_ListSnapshots_def\<close>)
qed

lemma foreign_single:
  assumes "foreign_errors E" and "cli_RestoreSingleFile E s i f w = (Inl e, w')"
  shows "foreign e"
proof -
  obtain rd w1 where mk: "MkdirTemp E w = (rd, w1)" by force
  show ?thesis
  proof (cases rd)
    case (Inr d)
    let ?args = "[''restore'', ''--config-file='' @ ConfigFile s, ''--disable-file-logging'', i, d]"
    obtain r out w2 where run: "client_run E s ?args [] w1 = ((r, out), w2)" by (metis surj_pair)
    show ?thesis
    proof (cases r)
      case None
      with run Inr mk assms(2) show ?thesis
        using foreign_errorsD(7,8) [OF assms(1)]
        by (cases "OpenFile E (path_Join [d, f]) w2") (auto simp: cli_RestoreSingleFile_def Let_def)
    next
      case (Some e')
      with run Inr mk assms(2) have "e = Wrap ''while restoring Kopia snapshot'' e'"
        by (simp add: cli_RestoreSingleFile_def Let_def)
      with foreign_run [OF assms(1) run [unfolded Some]] show ?thesis by simp
    qed
  next
    case (Inl e')
    with mk assms(2) have "e = Wrap ''allocating temporary directory to restore single file'' e'"
      by (simp add: cli_RestoreSingleFile_def)
    with foreign_errorsD(6) [OF assms(1) mk [unfolded Inl]] show ?thesis by simp
  qed
qed

lemma foreign_metadata:
  assumes "foreign_errors E" and "restoreMetadata (cli_client E s ro) i w = (Inl e, w')"
  shows "foreign e"
proof -
  obtain r w1 where r: "cli_RestoreSingleFile E s i ''metadata.json'' w = (r, w1)" by force
  show ?thesis
  proof (cases r)
    case (Inr b)
    with r assms(2) show ?thesis
      using foreign_errorsD(5) [OF assms(1), of b]
      by (cases "UnmarshalBackupJSON E b") (auto simp: restoreMetadata_def cli_client_def)
  qed (use r assms foreign_single [OF assms(1)] in \<open>auto simp: restoreMetadata_def cli_client_def\<close>)
qed

lemma conn_upload_tablespace:
  assumes world: "backup_world E H V c" and "rooted (tblPath tbl)" and "UploadTablespace E c n tbl w = (None, w')"
  shows "vFiles V w' = vFiles V w \<and> parts V (ConfigFile (conKopia c)) n w' =
    insert (tablespace_part V w tbl) (parts V (ConfigFile (conKopia c)) n w)"
proof -
  let ?o = "\<lparr>sdDirectory = tblPath tbl, sdTags = [(BackupContentTagName, ''tablespace''),
      (TablespaceNameTagName, path_Base (tblName tbl)), (BackupNameTagName, n)],
      sdDescription = ''tablespace '' @ tblName tbl @ '' ('' @ tblOid tbl @ '')''\<rparr>"
  have "SnapshotDirectory E (conKopia c) ?o w = (None, w')"
    using assms(3) by (auto simp: UploadTablespace_def split: prod.splits)
  from SnapshotDirectory_ok(1) [OF backup_worldD(1) [OF world] this] assms(2)
  have a: "snapshot_added V (ConfigFile (conKopia c)) (sdTags ?o) (visible V (subtree (vFiles V w) (tblPath tbl))) w w'"
    by (simp add: tags_simps)
  from parts_added [OF this, of n] show ?thesis
    using a by (simp add: snapshot_added_def tablespace_part_def tags_simps)
qed

lemma conn_upload_pgdata:
  assumes world: "backup_world E H V c" and p: "abs_path p" and "UploadPgData E H c n p w = (None, w')"
  shows "(\<forall>q. q \<noteq> p @ ''/'' @ kopiaIgnoreFileName \<longrightarrow> vFiles V w' q = vFiles V w q) \<and>
    parts V (ConfigFile (conKopia c)) n w' =
      insert (Some ''pgdata'', None, visible V (pgdata_tree H V w p)) (parts V (ConfigFile (conKopia c)) n w)"
proof -
  let ?o = "\<lparr>sdDirectory = p, sdTags = [(BackupContentTagName, ''pgdata''), (BackupNameTagName, n)], sdDescription = ''pgdata''\<rparr>"
  let ?i = "p @ CHR ''/'' # kopiaIgnoreFileName"
  note W = backup_worldD [OF world]
  obtain w1 w2 where 1: "WriteFile H ?i (stringBytes H kopiaIgnoreContent) w = (None, w1)"
    and 2: "SnapshotDirectory E (conKopia c) ?o w1 = (None, w2)" and 3: "w' = snd (Remove H ?i w2)"
    using assms(3) by (auto simp: UploadPgData_def Let_def ignore_path [OF p] split: prod.splits option.splits)
  have H1: "same_repos V w w1" "\<And>q. q \<noteq> ?i \<Longrightarrow> vFiles V w1 q = vFiles V w q" "vFiles V w1 ?i = Some (stringBytes H kopiaIgnoreContent)"
    using W(2) 1 unfolding host_laws_def by blast+
  have H3: "same_repos V w2 w'" "\<And>q. q \<noteq> ?i \<Longrightarrow> vFiles V w' q = vFiles V w2 q"
    using W(2) 3 unfolding host_laws_def by (metis prod.collapse)+
  have files: "vFiles V w1 = (vFiles V w)(?i \<mapsto> stringBytes H kopiaIgnoreContent)" using H1(2,3) by (auto simp: fun_eq_iff)
  from SnapshotDirectory_ok(1) [OF W(1) 2] p
  have a: "snapshot_added V (ConfigFile (conKopia c)) (sdTags ?o) (visible V (pgdata_tree H V w p)) w1 w2"
    by (simp add: tags_simps pgdata_tree_def files)
  from parts_added [OF this, of n] have "parts V (ConfigFile (conKopia c)) n w2 =
      insert (Some ''pgdata'', None, visible V (pgdata_tree H V w p)) (parts V (ConfigFile (conKopia c)) n w)"
    using parts_same [OF H1(1)] by (simp add: tags_simps)
  moreover have "vFiles V w2 = vFiles V w1" using a by (simp add: snapshot_added_def)
  ultimately show ?thesis using parts_same [OF H3(1)] H3(2) H1(2) by simp
qed

lemma conn_upload_control:
  assumes world: "backup_world E H V c" and "rooted p" and "UploadControlFile E c n p w = (None, w')"
  shows "vFiles V w' = vFiles V w \<and> parts V (ConfigFile (conKopia c)) n w' =
    insert (Some ''controldata'', None, visible V (subtree (vFiles V w) p)) (parts V (ConfigFile (conKopia c)) n w)"
proof -
  let ?o = "\<lparr>sdDirectory = p, sdTags = [(BackupNameTagName, n), (BackupContentTagName, ''controldata'')],
      sdDescription = ''control data file''\<rparr>"
  have "SnapshotDirectory E (conKopia c) ?o w = (None, w')"
    using assms(3) by (auto simp: UploadControlFile_def split: prod.splits)
  from SnapshotDirectory_ok(1) [OF backup_worldD(1) [OF world] this] assms(2)
  have a: "snapshot_added V (ConfigFile (conKopia c)) (sdTags ?o) (visible V (subtree (vFiles V w) p)) w w'"
    by (simp add: tags_simps)
  from parts_added [OF this, of n] show ?thesis using a by (simp add: snapshot_added_def tags_simps)
qed

lemma conn_upload_metadata:
  assumes world: "backup_world E H V c" and "abs_path (PgData m)" and "UploadBackupMetadata E H c n m w = (None, w')"
  shows "vFiles V w' = vFiles V w \<and> (\<exists>b. MarshalBackupJSON H m = Inr b \<and> parts V (ConfigFile (conKopia c)) n w' =
    insert (Some ''metadata'', None, [''/metadata.json'' \<mapsto> b]) (parts V (ConfigFile (conKopia c)) n w))"
proof -
  obtain b where b: "MarshalBackupJSON H m = Inr b"
    using assms(3) by (auto simp: UploadBackupMetadata_def split: sum.splits)
  let ?o = "\<lparr>FileName = ''metadata.json'', DirectoryName = TrimSuffix (PgData m) ''/'' @ ''_meta'', Content = b,
      sfTags = [(BackupNameTagName, n), (BackupContentTagName, ''metadata'')], sfDescription = ''metadata for '' @ n\<rparr>"
  have "SnapshotFileContent E (conKopia c) ?o w = (None, w')"
    using assms(3) b by (auto simp: UploadBackupMetadata_def split: prod.splits)
  moreover have "rooted (TrimSuffix (PgData m) ''/'' @ ''_meta'')"
    using abs_path_rooted [OF assms(2)] assms(2)
    by (cases "PgData m"; cases "tl (PgData m)") (auto simp: rooted_def abs_path_def TrimSuffix_def HasSuffix_def)
  ultimately have a: "snapshot_added V (ConfigFile (conKopia c)) (sfTags ?o) [''/metadata.json'' \<mapsto> b] w w'"
    using SnapshotFileContent_ok(1) [OF backup_worldD(1) [OF world], of "conKopia c" ?o w w'] by (simp add: tags_simps)
  from parts_added [OF this, of n] show ?thesis using a b by (simp add: snapshot_added_def tags_simps)
qed

lemma conn_get_metadata:
  assumes world: "backup_world E H V c"
    and run: "kopia_GetMetadata (store_of E c) (vHost V (ConfigFile (conKopia c))) n w = (r, w')"
  shows "r = Inr m \<Longrightarrow> same_repos V w w' \<and> (\<exists>ts t b. (Some ''metadata'', ts, t) \<in> parts V (ConfigFile (conKopia c)) n w \<and>
      t ''/metadata.json'' = Some b \<and> UnmarshalBackupJSON E b = Inr m)"
    and "r = Inl e \<Longrightarrow> errors_Is e NoBackupFoundError \<Longrightarrow> (Some ''metadata'', x, y) \<notin> parts V (ConfigFile (conKopia c)) n w"
proof -
  note W = backup_worldD [OF world]
  let ?cfg = "ConfigFile (conKopia c)" and ?R = "vRepo V (ConfigFile (conKopia c))"
  let ?tags = "[(BackupNameTagName, n), (BackupContentTagName, ''metadata'')]"
  let ?P = "\<lambda>entry. Host (Source entry) = vHost V ?cfg"
  obtain l w1 where 1: "cli_ListSnapshots E (conKopia c) ?tags w = (l, w1)" by force
  note L = cli_ListSnapshots_ok [OF W(1) 1]
  have es: "es = filter (has_tags ?tags) (vSnaps V ?R w)" if "l = Inr es" for es
    using L that by (simp add: tags_simps)
  show "same_repos V w w' \<and> (\<exists>ts t b. (Some ''metadata'', ts, t) \<in> parts V ?cfg n w \<and>
      t ''/metadata.json'' = Some b \<and> UnmarshalBackupJSON E b = Inr m)" if "r = Inr m"
  proof -
    from run that 1 obtain es x where l: "l = Inr es" and x: "find ?P es = Some x"
      and 2: "restoreMetadata (store_of E c) (ID x) w1 = (Inr m, w')"
      by (auto simp: kopia_GetMetadata_def store_of_def cli_client_def split: prod.splits sum.splits option.splits)
    from 2 obtain b where b: "cli_RestoreSingleFile E (conKopia c) (ID x) ''metadata.json'' w1 = (Inr b, w')" "UnmarshalBackupJSON E b = Inr m"
      by (auto simp: restoreMetadata_def store_of_def cli_client_def split: prod.splits sum.splits)
    have xl: "x \<in> set (vSnaps V ?R w)" "has_tags ?tags x" "Host (Source x) = vHost V ?cfg"
      using find_listed [OF x [unfolded es [OF l]]] by auto
    have "take 2 (ID x) \<noteq> ''--''" using machine_lawD(4) [OF cli_lawsD(6) [OF W(1)] xl(1)] by blast
    then have "vTree V ?R w1 (ID x) ''/metadata.json'' = Some b"
      using cli_RestoreSingleFile_ok(2) [OF W(1) b(1)] by (simp add: plain_elem_def)
    then have "vTree V ?R w (ID x) ''/metadata.json'' = Some b" using L by (simp add: same_repos_def same_repo_def)
    moreover have "(Some ''metadata'', Tags x (userTagPrefix @ TablespaceNameTagName), vTree V ?R w (ID x)) \<in> parts V ?cfg n w"
      by (rule listed_part [OF xl(1,3,2)]) simp_all
    moreover have "same_repos V w w'" using L cli_RestoreSingleFile_ok(1) [OF W(1) b(1)] by (blast intro: same_repos_trans)
    ultimately show ?thesis using b(2) by blast
  qed
  show "(Some ''metadata'', x, y) \<notin> parts V ?cfg n w" if "r = Inl e" "errors_Is e NoBackupFoundError"
  proof
    assume "(Some ''metadata'', x, y) \<in> parts V ?cfg n w"
    then obtain m where m: "m \<in> set (vSnaps V ?R w)" "?P m" "has_tags ?tags m"
      by (auto simp: parts_def part_of_def has_tags_def)
    show False
    proof (cases l)
      case (Inl e')
      with run that(1) 1 have "e = Wrap ''while executing Kopia command'' e'"
        by (auto simp: kopia_GetMetadata_def store_of_def cli_client_def)
      with foreign_list [OF W(3) 1 [unfolded Inl]] that(2) show False by (metis errors_Wrap foreign_def)
    next
      case (Inr es)
      then have "m \<in> set es" using es m by simp
      then obtain z where z: "find ?P es = Some z" using m(2) by (metis (mono_tags, lifting) find_None_iff not_None_eq)
      with run that(1) 1 Inr have "restoreMetadata (store_of E c) (ID z) w1 = (Inl e, w')"
        by (auto simp: kopia_GetMetadata_def store_of_def cli_client_def)
      from foreign_metadata [OF W(3) this [unfolded store_of_def]] that(2) show False by (simp add: foreign_def)
    qed
  qed
qed

interpretation conn: klio_store "backup_world E H V c" E H V "ConfigFile (conKopia c)" "connection_client E H c" "\<lambda>_. True"
  for E :: "'w kopia_env" and H V c
proof (unfold_locales, goal_cases)
  case (5 x y n w m w')
  then obtain ts t b where "same_repos V w w'" "(Some ''metadata'', ts, t) \<in> parts V (ConfigFile (conKopia c)) n w"
    "t ''/metadata.json'' = Some b" "UnmarshalBackupJSON E b = Inr m"
    using conn_get_metadata(1) [OF 5(1), of n w "Inr m" w' m] by (auto simp: connection_client_def)
  moreover have "m\<lparr>Annotations := Annotations m\<rparr> = m" by simp
  ultimately show ?case by blast
next
  case (6 n w e w' x y)
  then show ?case using conn_get_metadata(2) [OF 6(1), of n w "Inl e" w' e] by (simp add: connection_client_def)
next
  case (7 m d tbl w w')
  then show ?case
    using restore_tagged_ok [OF 7(1) _ 7(3), where n = "bkName m" and k = "''tablespace''" and ts = "Some (tblName tbl)"]
    by (simp add: connection_client_def RestoreTablespace_def tags_simps)
next
  case (8 m d w w')
  then show ?case
    using restore_tagged_ok [OF 8(1) _ 8(3), where n = "bkName m" and k = "''pgdata''" and ts = None]
    by (simp add: connection_client_def RestorePgData_def tags_simps)
next
  case (9 m d w w')
  then show ?case
    using restore_tagged_ok [OF 9(1) _ 9(3), where n = "bkName m" and k = "''controldata''" and ts = None]
    by (simp add: connection_client_def RestoreControlData_def tags_simps)
qed (auto simp: connection_client_def dest: conn_upload_tablespace conn_upload_pgdata conn_upload_control conn_upload_metadata)

interpretation tiers: klio_store "backup_world E H V c" E H V "ConfigFile (conKopia c)"
  "tiered E H c other" "\<lambda>m. True \<and> has_annotation tier1AnnotationName m"
  for E :: "'w kopia_env" and H V c other
  unfolding tiered_def by (rule conn.multi_store) simp

section \<open>Lemmas: the concrete machine\<close>

lemma box_host_laws: "host_laws box_host box_view"
proof -
  have "map_of (filter (\<lambda>e. fst e \<noteq> p) l) q = map_of l q" if "q \<noteq> p" for p q and l :: "(string \<times> bytes) list"
    using that map_of_filter_key [where P = "\<lambda>k. k \<noteq> p" and l = l] by simp
  then show ?thesis
    by (auto simp: host_laws_def box_host_def bx_ignored_def below_def intro!: box_same)
qed

lemma dec_backup_foreign: "dec_backup b = Inl e \<Longrightarrow> foreign e"
  unfolding dec_backup_def by (auto simp: foreign_def NoBackupFoundError_def split: list.splits)

lemma box_foreign: "foreign_errors (box_env dec_backup)"
  unfolding foreign_errors_def
proof (intro conjI)
  show "\<forall>b args env i w x w'. runCmd (box_env dec_backup) b args env i w = (x, w') \<longrightarrow>
     (case x of PipeFailed e \<Rightarrow> foreign e | StartFailed e \<Rightarrow> foreign e | Waited r _ \<Rightarrow> pred_option foreign r)"
    by (auto simp: bx_run_def bx_create_def Let_def foreign_def NoBackupFoundError_def split: if_splits)
  show "\<forall>b e. UnmarshalBackupJSON (box_env dec_backup) b = Inl e \<longrightarrow> foreign e"
    using dec_backup_foreign by (simp add: box_env_def)
qed (auto simp: box_env_def foreign_def NoBackupFoundError_def split: if_splits option.splits)

lemma box_world: "backup_world (box_env dec_backup) box_host box_view example_connection"
  by (simp add: backup_world_def box_laws box_host_laws box_foreign connected_def example_connection_def)

lemma example_parts: "parts box_view ''/etc/kopia'' n example_pg_box = {}"
  by (simp add: parts_def bx_raws_def example_pg_box_def example_box_def)

lemma num_string_snoc: "num_string (xs @ [c]) = 10 * num_string xs + (of_char c - 48)"
  by (simp add: num_string_def)

lemma num_FormatNat: "num_string (FormatNat n) = n"
proof (induction n rule: FormatNat.induct)
  case (1 n)
  have d: "of_char (char_of (48 + n mod 10) :: char) = (48 + n mod 10 :: nat)" by (simp add: of_char_of)
  show ?case
  proof (cases "n < 10")
    case True
    then have "FormatNat n = [] @ [char_of (48 + n mod 10)]" by (simp add: FormatNat.simps [of n])
    then show ?thesis using True by (simp only: num_string_snoc d) (simp add: num_string_def)
  next
    case False
    then have "FormatNat n = FormatNat (n div 10) @ [char_of (48 + n mod 10)]" by (simp add: FormatNat.simps [of n])
    then show ?thesis using 1 [OF False] by (simp only: num_string_snoc d) simp
  qed
qed

lemma dec_enc_tablespaces: "dec_tablespaces (concat (map (\<lambda>t. [tblName t, tblOid t, tblPath t]) ts)) = ts"
  by (induction ts) auto

lemma dec_enc_backup:
  assumes "0 \<le> bkTimeline m" "0 \<le> StartedAt m" "0 \<le> StoppedAt m" "Annotations m = None"
  shows "dec_backup (enc_backup m) = Inr m"
  using assms by (cases m) (simp add: dec_backup_def enc_backup_def dec_enc_strings num_FormatNat dec_enc_tablespaces)

lemma example_executor: "example_executor spc = \<lparr>beName = ''b1'', beClusterName = ''pg'', bePgData = ''/pg'', beStartLSN = 40,
    beTablespaces = [\<lparr>tblName = spc, tblOid = ''16384'', tblPath = ''/ts''\<rparr>], beStartedAt = 5\<rparr>"
  by (simp add: example_executor_def be_Start_def example_pg_def NewBackupExecutor_def Let_def)

lemma example_json:
  assumes "Close L (example_pg spc) cl (example_executor spc) w = (Inr meta, w')"
  shows "json_round_trip (box_env dec_backup) box_host meta"
proof -
  have "0 \<le> bkTimeline meta" "0 \<le> StartedAt meta" "0 \<le> StoppedAt meta" "Annotations meta = None"
    using assms by (auto simp: Close_def backup_metadata_def example_pg_def example_executor Let_def split: prod.splits option.splits)
  then show ?thesis by (simp add: json_round_trip_def box_host_def box_env_def dec_enc_backup)
qed

section \<open>Properties\<close>


lemma example_upload: "Upload example_tiers (example_executor ''spc'') example_pg_box = (None, uploaded_box ''spc'')"
proof -
  have "fst (Upload example_tiers (example_executor ''spc'') example_pg_box) = None" by code_simp
  then show ?thesis by (simp add: uploaded_box_def prod_eq_iff)
qed

lemma example_close: "Close example_lsn (example_pg ''spc'') example_tiers (example_executor ''spc'') (uploaded_box ''spc'') =
    (Inr (projr (fst (closed_backup ''spc''))), snd (closed_backup ''spc''))"
proof -
  have "\<not> isl (fst (closed_backup ''spc''))" by code_simp
  then show ?thesis by (simp add: closed_backup_def prod_eq_iff)
qed


text \<open>
  A tablespace whose name holds a slash is stored under the last element of its name and looked up under
  the whole name: a backup that completed with one cannot be restored, whatever the destination.
\<close>

lemma slashed_tablespace_not_restored:
  assumes world: "backup_world E H V c" and "parts V (ConfigFile (conKopia c)) (beName b) w0 = {}"
    and "Upload (tiered E H c other) b w0 = (None, w1)" and "Close L pg (tiered E H c other) b w1 = (Inr meta, w2)"
    and "abs_path (bePgData b)" and "\<forall>tbl \<in> set (beTablespaces b). rooted (tblPath tbl)" and "json_round_trip E H meta"
    and "same_repos V w2 w3" and "rcName conf = beName b"
    and "abs_path dest" and "\<forall>tbl \<in> set (beTablespaces b). rooted (tablespace_destination conf tbl)"
    and "tbl \<in> set (beTablespaces b)" and slash: "CHR ''/'' \<in> set (tblName tbl)" "set (tblName tbl) \<noteq> {CHR ''/''}"
  shows "fst (Restore H (tiered E H c other) conf (hostName c) dest w3) \<noteq> None"
proof -
  have "tblName tbl \<notin> path_Base ` tblName ` set (beTablespaces b)"
    using slash path_Base_slashes by blast
  from tiers.unnamed_tablespace_fails [OF world backup_worldD(2) [OF world] assms(5,6,2,3,4,7,8,9,10,11,12) this]
  show ?thesis using backup_worldD(4) [OF world] by simp
qed

text \<open>
  The catalogue of the two tiers lists every backup of either tier once, with the name, marked with
  exactly the tiers that hold it, and a restore reads it from tier 1 whenever tier 1 has it.
\<close>

lemma catalogue_merges_tiers:
  assumes "cListBackups a hostname w = (Inr l1, w1)" and "cListBackups z hostname w1 = (Inr l2, w2)"
    and "distinct (map bkName l1)" and "distinct (map bkName l2)" and "\<forall>b \<in> set l1 \<union> set l2. Annotations b = None"
  shows "\<exists>l. multi_ListBackups \<lparr>mcTier1 = Some a, mcTier2 = Some z\<rparr> hostname w = (Inr l, w2) \<and>
    distinct (map bkName l) \<and> bkName ` set l = bkName ` set l1 \<union> bkName ` set l2 \<and>
    (\<forall>b \<in> set l. (has_annotation tier1AnnotationName b \<longleftrightarrow> bkName b \<in> bkName ` set l1) \<and>
       (has_annotation tier2AnnotationName b \<longleftrightarrow> bkName b \<in> bkName ` set l2) \<and>
       getClientFromMetadata \<lparr>mcTier1 = Some a, mcTier2 = Some z\<rparr> b = Some (if bkName b \<in> bkName ` set l1 then a else z))"
proof -
  let ?l = "merge_tiers l1 l2"
  have run: "multi_ListBackups \<lparr>mcTier1 = Some a, mcTier2 = Some z\<rparr> hostname w = (Inr ?l, w2)"
    using assms(1,2) by (simp add: multi_ListBackups_def list_tier_def)
  have marks: "\<forall>b \<in> set ?l. (has_annotation tier1AnnotationName b \<longleftrightarrow> bkName b \<in> bkName ` set l1) \<and>
       (has_annotation tier2AnnotationName b \<longleftrightarrow> bkName b \<in> bkName ` set l2)"
    using assms(5) by (auto simp: merge_tiers_def mark_simps image_iff) metis+
  have names: "map bkName ?l = map bkName l1 @ filter (\<lambda>n. n \<notin> set (map bkName l1)) (map bkName l2)"
    by (simp add: merge_tiers_def comp_def mark_simps if_distrib [of bkName] filter_map)
  have "bkName ` set ?l = set (map bkName ?l)" by simp
  also have "\<dots> = bkName ` set l1 \<union> bkName ` set l2" unfolding names by auto
  finally have "bkName ` set ?l = bkName ` set l1 \<union> bkName ` set l2" .
  moreover have "distinct (map bkName ?l)" unfolding names using assms(3,4) by auto
  moreover have "\<forall>b \<in> set ?l. getClientFromMetadata \<lparr>mcTier1 = Some a, mcTier2 = Some z\<rparr> b =
      Some (if bkName b \<in> bkName ` set l1 then a else z)"
    using marks calculation(1) by (auto simp: getClientFromMetadata_def)
  ultimately show ?thesis using run marks by blast
qed

end
