(* ===== verification/Supervisor.thy ===== *)
theory Supervisor
  imports Klio_Prelude
begin

text \<open>
  The supervisor of the WAL sender process (core/internal/supervisor) and the controller that starts and stops it
  with the role of the instance (core/internal/cnpgi/send-wal.go).

  The operations are functions on the record \<open>Service\<close>.  Three parties run at the same time: the loop of the
  supervisor, callers of StartProcess and StopProcess, and a goroutine per process.  Their interleaving is
  the step relation \<open>sv_step\<close>: what the code does under its mutex is one step, what it does without is split where
  another party may come in between (a caller between the test of StartProcess and its send to the channel, the
  loop between the receive and internalStartProcess, and between the tests of a tick and the restart).  A time is an
  integer and 0 is the zero time; the reader of the clock is the field \<open>clock\<close>, which never runs backwards.
\<close>

section \<open>core/internal/supervisor/definition.go and errors.go\<close>

record Definition =
  defExec :: string
  defArgs :: "string list"
  AutoRestart :: bool
  RestartWaitPeriod :: int

definition ErrProcessNotStarted :: go_error where
  "ErrProcessNotStarted = Sentinel ''process not started''"

definition ErrProcessAlreadyStarted :: go_error where
  "ErrProcessAlreadyStarted = Sentinel ''process already started''"

section \<open>core/internal/supervisor/supervisor.go\<close>

text \<open>The stored cancel function is the number of the process whose context it cancels; the channel of start
  requests holds at most one, so its content is a flag.\<close>

record Service =
  svDefinition :: Definition
  tickInterval :: int
  StopTime :: int
  StopRequestTime :: int
  StartTime :: int
  LastAutomaticRestart :: int
  svError :: "go_error option"
  processCancelFunc :: "nat option"
  startRequests :: bool

definition NewService :: "Definition \<Rightarrow> Service" where
  "NewService d =
     \<lparr>svDefinition = d, tickInterval = 10000000000, StopTime = 0, StopRequestTime = 0, StartTime = 0,
      LastAutomaticRestart = 0, svError = None, processCancelFunc = None, startRequests = False\<rparr>"

definition IsProcessRunning :: "Service \<Rightarrow> bool" where
  "IsProcessRunning s \<longleftrightarrow> processCancelFunc s \<noteq> None"

definition enqueue_start :: "Service \<Rightarrow> Service" where
  "enqueue_start s = s\<lparr>startRequests := True\<rparr>"

definition StartProcess :: "Service \<Rightarrow> go_error option \<times> Service" where
  "StartProcess s =
     (if processCancelFunc s \<noteq> None then (Some ErrProcessAlreadyStarted, s) else (None, enqueue_start s))"

text \<open>The second component is the process whose context is cancelled, with the cause.\<close>

definition StopProcess :: "int \<Rightarrow> go_error \<Rightarrow> Service \<Rightarrow> (go_error option \<times> (nat \<times> go_error) option) \<times> Service" where
  "StopProcess now reason s =
     (case processCancelFunc s of
        None \<Rightarrow> ((Some ErrProcessNotStarted, None), s)
      | Some p \<Rightarrow> ((None, Some (p, reason)), s\<lparr>StopRequestTime := now\<rparr>))"

definition internalStartProcess :: "int \<Rightarrow> nat \<Rightarrow> Service \<Rightarrow> Service" where
  "internalStartProcess now pid s =
     s\<lparr>StartTime := now, StopTime := 0, StopRequestTime := 0, processCancelFunc := Some pid, svError := None\<rparr>"

definition process_finished :: "int \<Rightarrow> go_error option \<Rightarrow> Service \<Rightarrow> Service" where
  "process_finished now processError s = s\<lparr>StopTime := now, svError := processError, processCancelFunc := None\<rparr>"

definition maxDuration :: int where "maxDuration = 2 ^ 63 - 1"

definition time_Since :: "int \<Rightarrow> int \<Rightarrow> int" where
  "time_Since now t = (if t = 0 then maxDuration else min maxDuration (now - t))"

definition restart_needed :: "int \<Rightarrow> Service \<Rightarrow> bool" where
  "restart_needed now s \<longleftrightarrow>
     AutoRestart (svDefinition s) \<and> StopRequestTime s = 0 \<and> StartTime s \<noteq> 0 \<and> StopTime s \<noteq> 0 \<and>
     \<not> time_Since now (LastAutomaticRestart s) < RestartWaitPeriod (svDefinition s)"

definition triggerRestartWhenNeeded :: "int \<Rightarrow> Service \<Rightarrow> go_error option \<times> Service" where
  "triggerRestartWhenNeeded now s =
     (if restart_needed now s then StartProcess (s\<lparr>LastAutomaticRestart := now\<rparr>) else (None, s))"

section \<open>core/internal/supervisor/utils.go\<close>

definition EnsureProcessStarted :: "Service \<Rightarrow> go_error option \<times> Service" where
  "EnsureProcessStarted s =
     (case StartProcess s of
        (Some e, s') \<Rightarrow> if errors_Is e ErrProcessAlreadyStarted then (None, s') else (Some e, s')
      | (None, s') \<Rightarrow> (None, s'))"

definition EnsureProcessStopped ::
  "int \<Rightarrow> go_error \<Rightarrow> Service \<Rightarrow> (go_error option \<times> (nat \<times> go_error) option) \<times> Service" where
  "EnsureProcessStopped now reason s =
     (case StopProcess now reason s of
        ((Some e, c), s') \<Rightarrow> if errors_Is e ErrProcessNotStarted then ((None, c), s') else ((Some e, c), s')
      | ((None, c), s') \<Rightarrow> ((None, c), s'))"

section \<open>core/internal/cnpgi/send-wal.go\<close>

definition ErrInstanceIsReplica :: go_error where
  "ErrInstanceIsReplica = Sentinel ''instance is a replica''"

definition sendwal_definition :: "string \<Rightarrow> Definition" where
  "sendwal_definition klioConfigFile =
     \<lparr>defExec = ''klio'',
      defArgs = [''send-wal''] @ (if klioConfigFile = [] then [] else [''--primary=false'', ''--config'', klioConfigFile]),
      AutoRestart = True, RestartWaitPeriod = 15000000000\<rparr>"

text \<open>What reading the cluster resource gives.\<close>

datatype cluster_read = ClusterMissing | ClusterFailed go_error | ClusterRead (currentPrimary: string) (targetPrimary: string)

definition Reconcile ::
  "string \<Rightarrow> bool \<Rightarrow> cluster_read \<Rightarrow> int \<Rightarrow> Service \<Rightarrow> (go_error option \<times> (nat \<times> go_error) option) \<times> Service" where
  "Reconcile podName cancelled got now s =
     (let sendWALRunning = IsProcessRunning s
      in if cancelled then ((None, None), s)
         else case got of
           ClusterMissing \<Rightarrow>
             if sendWALRunning
             then (case EnsureProcessStopped now (Sentinel ''cluster not found'') s of ((_, c), s') \<Rightarrow> ((None, c), s'))
             else ((None, None), s)
         | ClusterFailed e \<Rightarrow> ((Some e, None), s)
         | ClusterRead current target \<Rightarrow>
             if current \<noteq> target then ((None, None), s)
             else let isPrimary = (podName = current)
                  in if isPrimary \<and> \<not> sendWALRunning
                     then (case EnsureProcessStarted s of (r, s') \<Rightarrow> ((r, None), s'))
                     else if \<not> isPrimary \<and> sendWALRunning then EnsureProcessStopped now ErrInstanceIsReplica s
                     else ((None, None), s))"

section \<open>The parties together\<close>

text \<open>Where the loop of Start is: waiting, about to run internalStartProcess, past the tests of a tick, past the
  recording of the restart time, past the test of StartProcess.\<close>

datatype loop_state = Selecting | Starting | Restarting | Calling | Enqueuing

record supervised =
  svc :: Service
  clock :: int
  loop :: loop_state
  callers :: nat
  procs :: "(nat \<times> go_error option) list"
  exited :: "(nat \<times> go_error option) list"
  nextPid :: nat
  restarts :: "int list"

datatype sv_action =
  CallStart | Enqueue | CallStop go_error | Take | Spawn | Exit nat "go_error option" | Record nat
  | Tick | Restarted | TickCall | TickEnqueue | Pass int

text \<open>Cancelling a context for the second time keeps the first cause.\<close>

definition cancel :: "(nat \<times> go_error) option \<Rightarrow> (nat \<times> go_error option) list \<Rightarrow> (nat \<times> go_error option) list" where
  "cancel c ps =
     (case c of None \<Rightarrow> ps
      | Some (p, reason) \<Rightarrow> map (\<lambda>(q, cause). (q, if q = p \<and> cause = None then Some reason else cause)) ps)"

inductive sv_step :: "sv_action \<Rightarrow> supervised \<Rightarrow> supervised \<Rightarrow> bool" where
  refused: "processCancelFunc (svc u) \<noteq> None \<Longrightarrow> sv_step CallStart u u"
| call: "processCancelFunc (svc u) = None \<Longrightarrow> sv_step CallStart u (u\<lparr>callers := Suc (callers u)\<rparr>)"
| enqueue: "callers u = Suc n \<Longrightarrow> sv_step Enqueue u (u\<lparr>callers := n, svc := enqueue_start (svc u)\<rparr>)"
| stop: "StopProcess (clock u) reason (svc u) = ((r, c), s) \<Longrightarrow>
    sv_step (CallStop reason) u (u\<lparr>svc := s, procs := cancel c (procs u)\<rparr>)"
| take_request: "loop u = Selecting \<Longrightarrow> startRequests (svc u) \<Longrightarrow>
    sv_step Take u (u\<lparr>loop := Starting, svc := (svc u)\<lparr>startRequests := False\<rparr>\<rparr>)"
| spawn: "loop u = Starting \<Longrightarrow>
    sv_step Spawn u (u\<lparr>loop := Selecting, svc := internalStartProcess (clock u) (nextPid u) (svc u),
      procs := (nextPid u, None) # procs u, nextPid := Suc (nextPid u)\<rparr>)"
| exits: "(p, cause) \<in> set (procs u) \<Longrightarrow>
    sv_step (Exit p e) u (u\<lparr>procs := filter (\<lambda>q. fst q \<noteq> p) (procs u), exited := (p, e) # exited u\<rparr>)"
| records: "(p, e) \<in> set (exited u) \<Longrightarrow>
    sv_step (Record p) u (u\<lparr>exited := filter (\<lambda>q. fst q \<noteq> p) (exited u), svc := process_finished (clock u) e (svc u)\<rparr>)"
| tick_skip: "loop u = Selecting \<Longrightarrow> \<not> restart_needed (clock u) (svc u) \<Longrightarrow> sv_step Tick u u"
| tick: "loop u = Selecting \<Longrightarrow> restart_needed (clock u) (svc u) \<Longrightarrow> sv_step Tick u (u\<lparr>loop := Restarting\<rparr>)"
| restarted: "loop u = Restarting \<Longrightarrow>
    sv_step Restarted u (u\<lparr>loop := Calling, svc := (svc u)\<lparr>LastAutomaticRestart := clock u\<rparr>, restarts := clock u # restarts u\<rparr>)"
| tick_refused: "loop u = Calling \<Longrightarrow> processCancelFunc (svc u) \<noteq> None \<Longrightarrow> sv_step TickCall u (u\<lparr>loop := Selecting\<rparr>)"
| tick_call: "loop u = Calling \<Longrightarrow> processCancelFunc (svc u) = None \<Longrightarrow> sv_step TickCall u (u\<lparr>loop := Enqueuing\<rparr>)"
| tick_enqueue: "loop u = Enqueuing \<Longrightarrow> sv_step TickEnqueue u (u\<lparr>loop := Selecting, svc := enqueue_start (svc u)\<rparr>)"
| pass: "clock u \<le> t \<Longrightarrow> sv_step (Pass t) u (u\<lparr>clock := t\<rparr>)"

inductive sv_run :: "supervised \<Rightarrow> sv_action list \<Rightarrow> supervised \<Rightarrow> bool" where
  run_nil: "sv_run u [] u"
| run_cons: "sv_step a u v \<Longrightarrow> sv_run v as w \<Longrightarrow> sv_run u (a # as) w"

definition sv_init :: "Definition \<Rightarrow> int \<Rightarrow> supervised" where
  "sv_init d t = \<lparr>svc = NewService d, clock = t, loop = Selecting, callers = 0, procs = [], exited = [], nextPid = 0,
     restarts = []\<rparr>"

inductive_cases call_stopE: "sv_step (CallStop reason) u v"

text \<open>The relation as a function, to run a schedule.\<close>

fun sv_exec :: "sv_action \<Rightarrow> supervised \<Rightarrow> supervised option" where
  "sv_exec CallStart u =
     Some (if processCancelFunc (svc u) \<noteq> None then u else u\<lparr>callers := Suc (callers u)\<rparr>)"
| "sv_exec Enqueue u =
     (case callers u of 0 \<Rightarrow> None | Suc n \<Rightarrow> Some (u\<lparr>callers := n, svc := enqueue_start (svc u)\<rparr>))"
| "sv_exec (CallStop reason) u =
     (case StopProcess (clock u) reason (svc u) of ((r, c), s) \<Rightarrow> Some (u\<lparr>svc := s, procs := cancel c (procs u)\<rparr>))"
| "sv_exec Take u =
     (if loop u = Selecting \<and> startRequests (svc u)
      then Some (u\<lparr>loop := Starting, svc := (svc u)\<lparr>startRequests := False\<rparr>\<rparr>) else None)"
| "sv_exec Spawn u =
     (if loop u = Starting
      then Some (u\<lparr>loop := Selecting, svc := internalStartProcess (clock u) (nextPid u) (svc u),
             procs := (nextPid u, None) # procs u, nextPid := Suc (nextPid u)\<rparr>) else None)"
| "sv_exec (Exit p e) u =
     (if p \<in> fst ` set (procs u)
      then Some (u\<lparr>procs := filter (\<lambda>q. fst q \<noteq> p) (procs u), exited := (p, e) # exited u\<rparr>) else None)"
| "sv_exec (Record p) u =
     (case map_of (exited u) p of
        None \<Rightarrow> None
      | Some e \<Rightarrow> Some (u\<lparr>exited := filter (\<lambda>q. fst q \<noteq> p) (exited u), svc := process_finished (clock u) e (svc u)\<rparr>))"
| "sv_exec Tick u =
     (if loop u = Selecting
      then Some (if restart_needed (clock u) (svc u) then u\<lparr>loop := Restarting\<rparr> else u) else None)"
| "sv_exec Restarted u =
     (if loop u = Restarting
      then Some (u\<lparr>loop := Calling, svc := (svc u)\<lparr>LastAutomaticRestart := clock u\<rparr>, restarts := clock u # restarts u\<rparr>)
      else None)"
| "sv_exec TickCall u =
     (if loop u = Calling
      then Some (u\<lparr>loop := if processCancelFunc (svc u) \<noteq> None then Selecting else Enqueuing\<rparr>) else None)"
| "sv_exec TickEnqueue u =
     (if loop u = Enqueuing then Some (u\<lparr>loop := Selecting, svc := enqueue_start (svc u)\<rparr>) else None)"
| "sv_exec (Pass t) u = (if clock u \<le> t then Some (u\<lparr>clock := t\<rparr>) else None)"

fun sv_execs :: "sv_action list \<Rightarrow> supervised \<Rightarrow> supervised option" where
  "sv_execs [] u = Some u"
| "sv_execs (a # as) u = (case sv_exec a u of None \<Rightarrow> None | Some v \<Rightarrow> sv_execs as v)"

text \<open>No request is on its way: the loop waits, no caller is inside StartProcess and the channel is empty.\<close>

definition quiet :: "supervised \<Rightarrow> bool" where
  "quiet u \<longleftrightarrow> loop u = Selecting \<and> callers u = 0 \<and> \<not> startRequests (svc u)"

lemmas sv_defs = enqueue_start_def StopProcess_def internalStartProcess_def process_finished_def

section \<open>Library\<close>

lemma sv_run_invariant:
  assumes "sv_run u as w" and "P u"
    and "\<And>a u v. sv_step a u v \<Longrightarrow> a \<in> set as \<Longrightarrow> P u \<Longrightarrow> P v"
  shows "P w"
  using assms by (induction rule: sv_run.induct) auto

lemma sv_exec_step: "sv_exec a u = Some v \<Longrightarrow> sv_step a u v"
  by (cases a) (auto split: if_splits nat.splits option.splits prod.splits dest!: map_of_SomeD intro: sv_step.intros)

lemma sv_execs_run: "sv_execs as u = Some w \<Longrightarrow> sv_run u as w"
  by (induction as arbitrary: u) (auto intro: sv_run.intros sv_exec_step split: option.splits)

lemma fst_cancel [simp]: "fst ` set (cancel c ps) = fst ` set ps"
  by (force simp: cancel_def split: option.splits prod.splits)

lemma cancel_cancels:
  assumes "p \<in> fst ` set ps"
  shows "\<exists>cause. (p, Some cause) \<in> set (cancel (Some (p, reason)) ps)"
proof -
  from assms obtain c where "(p, c) \<in> set ps" by auto
  then have "(p, if c = None then Some reason else c) \<in> set (cancel (Some (p, reason)) ps)"
    by (force simp: cancel_def)
  then show ?thesis by (cases c) auto
qed

subsection \<open>A tick without interruption\<close>

text \<open>The four steps of a tick, with nothing in between, are triggerRestartWhenNeeded.\<close>

lemma tick_is_trigger:
  assumes "loop u = Selecting"
  shows "\<exists>as v. sv_run u as v \<and> svc v = snd (triggerRestartWhenNeeded (clock u) (svc u)) \<and> loop v = Selecting \<and>
    set as \<subseteq> {Tick, Restarted, TickCall, TickEnqueue}"
proof (cases "restart_needed (clock u) (svc u)")
  case False
  then have "sv_run u [Tick] u" using assms by (auto intro!: sv_run.intros sv_step.tick_skip)
  with False assms show ?thesis by (fastforce simp: triggerRestartWhenNeeded_def)
next
  case True
  let ?u1 = "u\<lparr>loop := Restarting\<rparr>"
  let ?u2 = "?u1\<lparr>loop := Calling, svc := (svc ?u1)\<lparr>LastAutomaticRestart := clock ?u1\<rparr>, restarts := clock ?u1 # restarts ?u1\<rparr>"
  have 1: "sv_step Tick u ?u1" using True assms by (rule sv_step.tick [rotated])
  have 2: "sv_step Restarted ?u1 ?u2" by (rule sv_step.restarted) simp
  show ?thesis
  proof (cases "processCancelFunc (svc u) = None")
    case False
    have 3: "sv_step TickCall ?u2 (?u2\<lparr>loop := Selecting\<rparr>)" by (rule sv_step.tick_refused) (use False in simp_all)
    from 1 2 3 have "sv_run u [Tick, Restarted, TickCall] (?u2\<lparr>loop := Selecting\<rparr>)" by (meson sv_run.intros)
    with True False show ?thesis by (fastforce simp: triggerRestartWhenNeeded_def StartProcess_def)
  next
    case None: True
    let ?u3 = "?u2\<lparr>loop := Enqueuing\<rparr>"
    have 3: "sv_step TickCall ?u2 ?u3" by (rule sv_step.tick_call) (use None in simp_all)
    have 4: "sv_step TickEnqueue ?u3 (?u3\<lparr>loop := Selecting, svc := enqueue_start (svc ?u3)\<rparr>)"
      by (rule sv_step.tick_enqueue) simp
    from 1 2 3 4 have "sv_run u [Tick, Restarted, TickCall, TickEnqueue] (?u3\<lparr>loop := Selecting, svc := enqueue_start (svc ?u3)\<rparr>)"
      by (meson sv_run.intros)
    with True None show ?thesis by (fastforce simp: triggerRestartWhenNeeded_def StartProcess_def)
  qed
qed

subsection \<open>The stored cancel function\<close>

text \<open>It belongs to a process that runs, or whose end is not recorded yet; numbers of processes are not used twice.\<close>

definition cancel_inv :: "supervised \<Rightarrow> bool" where
  "cancel_inv u \<longleftrightarrow>
     (\<forall>p. processCancelFunc (svc u) = Some p \<longrightarrow> p \<in> fst ` set (procs u) \<union> fst ` set (exited u)) \<and>
     (\<forall>p \<in> fst ` set (procs u) \<union> fst ` set (exited u). p < nextPid u)"

lemma cancel_inv_step: "sv_step a u v \<Longrightarrow> cancel_inv u \<Longrightarrow> cancel_inv v"
proof (induction rule: sv_step.induct)
  case (stop u reason r c s)
  then show ?case by (clarsimp simp: cancel_inv_def StopProcess_def split: option.splits)
next
  case (exits p cause u e)
  then show ?case by (force simp: cancel_inv_def)
next
  case (records p e u)
  then show ?case by (force simp: cancel_inv_def process_finished_def)
qed (auto simp: cancel_inv_def sv_defs less_Suc_eq)

lemma sv_step_clock: "sv_step a u v \<Longrightarrow> clock u \<le> clock v"
  by (induction rule: sv_step.induct) auto

lemma reached:
  assumes "sv_run (sv_init d t) as u" and "0 < t"
  shows "cancel_inv u" and "0 < clock u"
proof -
  have "cancel_inv (sv_init d t) \<and> 0 < clock (sv_init d t)"
    using assms(2) by (simp add: cancel_inv_def sv_init_def NewService_def)
  then have "cancel_inv u \<and> 0 < clock u"
    by (rule sv_run_invariant [where P = "\<lambda>u. cancel_inv u \<and> 0 < clock u", OF assms(1)])
      (meson cancel_inv_step sv_step_clock less_le_trans)
  then show "cancel_inv u" and "0 < clock u" by simp_all
qed

subsection \<open>Restart times\<close>

definition restart_inv :: "int \<Rightarrow> supervised \<Rightarrow> bool" where
  "restart_inv period u \<longleftrightarrow>
     0 < clock u \<and> RestartWaitPeriod (svDefinition (svc u)) = period \<and>
     LastAutomaticRestart (svc u) = (case restarts u of [] \<Rightarrow> 0 | r # _ \<Rightarrow> r) \<and>
     (\<forall>r \<in> set (restarts u). 0 < r \<and> r \<le> clock u) \<and>
     (loop u = Restarting \<longrightarrow> restarts u \<noteq> [] \<longrightarrow> period \<le> clock u - hd (restarts u)) \<and>
     sorted_wrt (\<lambda>later earlier. period \<le> later - earlier) (restarts u)"

lemma sv_step_definition: "sv_step a u v \<Longrightarrow> svDefinition (svc v) = svDefinition (svc u)"
  by (induction rule: sv_step.induct) (auto simp: sv_defs split: option.splits)

lemma restart_inv_step:
  assumes "sv_step a u v" and "restart_inv period u" and "0 \<le> period" "period \<le> maxDuration"
  shows "restart_inv period v"
  using assms
proof (induction rule: sv_step.induct)
  case (stop u reason r c s)
  then show ?case by (auto simp: restart_inv_def StopProcess_def split: option.splits)
next
  case (tick u)
  then show ?case
    by (auto simp: restart_inv_def restart_needed_def time_Since_def neq_Nil_conv split: if_splits)
next
  case (restarted u)
  from restarted.prems restarted.hyps have "period \<le> clock u - r" if "r \<in> set (restarts u)" for r
    using that by (cases "restarts u") (force simp: restart_inv_def)+
  with restarted show ?case by (force simp: restart_inv_def)
next
  case (pass u t)
  then show ?case by (force simp: restart_inv_def)
qed (auto simp: restart_inv_def sv_defs)

subsection \<open>After a stop\<close>

definition stopped_inv :: "nat \<Rightarrow> supervised \<Rightarrow> bool" where
  "stopped_inv n u \<longleftrightarrow> quiet u \<and> StopRequestTime (svc u) \<noteq> 0 \<and> 0 < clock u \<and> nextPid u = n"

lemma stopped_inv_step:
  assumes "sv_step a u v" and "a \<noteq> CallStart" and "stopped_inv n u"
  shows "stopped_inv n v"
  using assms
proof (induction rule: sv_step.induct)
  case (stop u reason r c s)
  then show ?case by (auto simp: stopped_inv_def quiet_def StopProcess_def split: option.splits)
qed (auto simp: stopped_inv_def quiet_def restart_needed_def sv_defs)

section \<open>Properties\<close>


definition example_supervised :: supervised where
  "example_supervised = the (sv_execs [CallStart, Enqueue, Take, Spawn] (sv_init (sendwal_definition []) 1))"


text \<open>The process ends twice; the second end is too early for a restart at the first tick after it.\<close>

definition crash_twice :: "sv_action list" where
  "crash_twice =
     (let restart = [Tick, Restarted, TickCall, TickEnqueue, Take, Spawn]
      in [CallStart, Enqueue, Take, Spawn, Exit 0 (Some EOF), Record 0] @ restart @
         [Exit 1 (Some EOF), Record 1, Tick, Pass 15000000001] @ restart)"

text \<open>
  C34: automatic restarts are never closer than the waiting period of the definition, in any interleaving of the
  supervisor, its callers and its processes: the times at which the supervisor recorded one, latest first, are
  pairwise that far apart.
\<close>

theorem automatic_restarts_are_spaced:
  assumes "sv_run (sv_init d t) as u" and "0 < t" and "0 \<le> RestartWaitPeriod d" "RestartWaitPeriod d \<le> maxDuration"
  shows "sorted_wrt (\<lambda>later earlier. RestartWaitPeriod d \<le> later - earlier) (restarts u)"
proof -
  have "restart_inv (RestartWaitPeriod d) (sv_init d t)"
    using assms(2) by (simp add: restart_inv_def sv_init_def NewService_def)
  then have "restart_inv (RestartWaitPeriod d) u"
    using sv_run_invariant [OF assms(1)] restart_inv_step assms(3,4) by blast
  then show ?thesis by (simp add: restart_inv_def)
qed

theorem automatic_restarts_are_spaced_witness:
  "\<exists>u. sv_run (sv_init (sendwal_definition []) 1) crash_twice u \<and> length (restarts u) = 2 \<and>
     sorted_wrt (\<lambda>later earlier. 15000000000 \<le> later - earlier) (restarts u)"
proof -
  let ?d = "sendwal_definition []"
  have "map_option (length \<circ> restarts) (sv_execs crash_twice (sv_init ?d 1)) = Some 2" by code_simp
  then obtain u where u: "sv_execs crash_twice (sv_init ?d 1) = Some u" and len: "length (restarts u) = 2" by auto
  have d: "RestartWaitPeriod ?d = 15000000000" by (simp add: sendwal_definition_def)
  from automatic_restarts_are_spaced [OF sv_execs_run [OF u]] len sv_execs_run [OF u] show ?thesis
    unfolding d by (auto simp: maxDuration_def)
qed

text \<open>
  The supervisor does not keep its one process single.  internalStartProcess never looks whether a process
  runs, and StartProcess tests that without the mutex: a call that comes while the loop is between receiving a
  request and starting its process puts a second request in the channel, and two processes run.  When the
  first one ends, the stored cancel function is gone, so the other one runs on, uncancelled, while IsProcessRunning
  denies it and EnsureProcessStopped reports success.
\<close>

lemma two_senders_can_run:
  "\<exists>as u. sv_run (sv_init d t) as u \<and> length (procs u) = 2 \<and>
     (\<exists>v. sv_run u [Exit 0 None, Record 0] v \<and> procs v = [(1, None)] \<and> \<not> IsProcessRunning (svc v) \<and>
       EnsureProcessStopped now reason (svc v) = ((None, None), svc v))"
proof -
  let ?race = "[CallStart, Enqueue, Take, CallStart, Enqueue, Spawn, Take, Spawn]"
  let ?s = "(NewService d)\<lparr>StartTime := t, processCancelFunc := Some 1\<rparr>"
  let ?u = "(sv_init d t)\<lparr>svc := ?s, procs := [(1, None), (0, None)], nextPid := 2\<rparr>"
  let ?s' = "process_finished t None ?s"
  let ?v = "?u\<lparr>svc := ?s', procs := [(1, None)]\<rparr>"
  have 1: "sv_execs ?race (sv_init d t) = Some ?u"
    by (simp add: sv_init_def NewService_def enqueue_start_def internalStartProcess_def)
  have 2: "sv_execs [Exit 0 None, Record 0] ?u = Some ?v" by (simp add: sv_init_def)
  have "EnsureProcessStopped now reason ?s' = ((None, None), ?s')" "\<not> IsProcessRunning ?s'"
    by (simp_all add: EnsureProcessStopped_def StopProcess_def process_finished_def IsProcessRunning_def ErrProcessNotStarted_def)
  then show ?thesis
    using sv_execs_run [OF 1] sv_execs_run [OF 2] by (intro exI [of _ ?race] exI [of _ ?u] conjI exI [of _ ?v]) simp_all
qed

text \<open>
  Reconcile follows the role of the instance.  With the cluster read and no switchover under way: on the
  primary with no sender, a start request is pending afterwards, and the loop's next two steps run the sender; on a
  replica with a sender, its context is cancelled because the instance is a replica, and no tick restarts it; in every
  other case, a switchover included, nothing changes.
\<close>

lemma reconcile_follows_the_primary:
  assumes "Reconcile podName False (ClusterRead current target) now s = ((r, c), s')" and "0 < now"
  shows "r = None \<and>
    (if current = target \<and> podName = current \<and> \<not> IsProcessRunning s
     then c = None \<and> startRequests s' \<and> (\<forall>u. svc u = s' \<longrightarrow> loop u = Selecting \<longrightarrow>
            (\<exists>v. sv_run u [Take, Spawn] v \<and> IsProcessRunning (svc v) \<and> procs v = (nextPid u, None) # procs u))
     else if current = target \<and> podName \<noteq> current \<and> IsProcessRunning s
     then (\<exists>p. processCancelFunc s = Some p \<and> c = Some (p, ErrInstanceIsReplica)) \<and>
          (\<forall>later t e. \<not> restart_needed later s' \<and> \<not> restart_needed later (process_finished t e s'))
     else c = None \<and> s' = s)"
proof -
  have serve: "\<exists>v. sv_run u [Take, Spawn] v \<and> (\<exists>p. processCancelFunc (svc v) = Some p) \<and> procs v = (nextPid u, None) # procs u"
    if "startRequests (svc u)" and "loop u = Selecting" for u
  proof -
    from that obtain v where v: "sv_execs [Take, Spawn] u = Some v"
        and "(\<exists>p. processCancelFunc (svc v) = Some p) \<and> procs v = (nextPid u, None) # procs u"
      by (simp add: internalStartProcess_def)
    with sv_execs_run [OF v] show ?thesis by blast
  qed
  from assms show ?thesis
    by (auto simp: Reconcile_def Let_def IsProcessRunning_def EnsureProcessStarted_def EnsureProcessStopped_def
        StartProcess_def StopProcess_def enqueue_start_def restart_needed_def process_finished_def intro!: serve
        split: if_splits)
qed

end
