(* ===== verification/Klio_Config.thy ===== *)
theory Klio_Config
  imports Base_Backup
begin

text \<open>
  The configuration of clients and servers (core/pkg/config): defaults, validation, compression settings and the
  loading of the encryption keys.

  A validation collects every violation with errors.Join; the model lists the tests in the order of the code and
  \<open>validate_all\<close> joins what they report.  The age library is the record \<open>age_env\<close>; the working
  directory of the process is an argument.  YAML decoding (go-viper and yaml) is not modelled: a configuration is the
  decoded value.
\<close>

section \<open>Collecting errors\<close>

definition add_error :: "go_error option \<Rightarrow> go_error option \<Rightarrow> go_error option" where
  "add_error errs e =
     (case e of None \<Rightarrow> errs | Some x \<Rightarrow> errors_Join ((case errs of None \<Rightarrow> [] | Some y \<Rightarrow> [y]) @ [x]))"

definition validate_all :: "go_error option list \<Rightarrow> go_error option" where
  "validate_all es = foldl add_error None es"

definition check :: "bool \<Rightarrow> string \<Rightarrow> go_error option" where
  "check bad msg = (if bad then Some (Sentinel msg) else None)"

section \<open>core/pkg/config/compression.go\<close>

definition ErrInvalidCompressionAlgorithm :: go_error where
  "ErrInvalidCompressionAlgorithm = Sentinel ''invalid compression algorithm''"

definition ErrInvalidCompressionSizeRange :: go_error where
  "ErrInvalidCompressionSizeRange = Sentinel ''invalid compression size range''"

definition IsValidCompressionAlgorithm :: "string \<Rightarrow> bool" where
  "IsValidCompressionAlgorithm algorithm \<longleftrightarrow>
     algorithm \<in> set [''none'', ''deflate-best-compression'', ''deflate-best-speed'', ''deflate-default'', ''gzip'',
       ''gzip-best-compression'', ''gzip-best-speed'', ''pgzip'', ''pgzip-best-compression'', ''pgzip-best-speed'',
       ''s2-better'', ''s2-default'', ''s2-parallel-4'', ''s2-parallel-8'', ''zstd'', ''zstd-better-compression'',
       ''zstd-fastest'']"

definition ValidateCompressionSettings :: "string \<Rightarrow> int \<Rightarrow> int \<Rightarrow> go_error option" where
  "ValidateCompressionSettings algorithm minSize maxSize =
     (if algorithm \<noteq> [] \<and> \<not> IsValidCompressionAlgorithm algorithm
      then Some (Wrap algorithm ErrInvalidCompressionAlgorithm)
      else if 0 < maxSize \<and> maxSize < minSize then Some (Wrap ''min_size is greater than max_size'' ErrInvalidCompressionSizeRange)
      else None)"

definition CompressionPolicy_Validate :: "CompressionPolicy option \<Rightarrow> go_error option" where
  "CompressionPolicy_Validate c =
     (case c of None \<Rightarrow> None | Some p \<Rightarrow> ValidateCompressionSettings (Algorithm p) (MinSize p) (MaxSize p))"

section \<open>core/pkg/config/client.go\<close>

record SourceConfig =
  scDSN :: string
  scStandardDSN :: string
  scSlot :: string
  scBufferSize :: int

record WalRepositoryClientConfig =
  wrAddress :: string
  wrTier2Address :: string
  wrServerCertPath :: string
  wrClientCertPath :: string
  wrClientKeyPath :: string

record ClientConfigFull = ClientConfig +
  ccWal :: WalRepositoryClientConfig

record ConfigRetentionPolicy =
  crLatest :: "int option"

record WALPrefetchConfig =
  wpCount :: int
  wpMaxConcurrentDownloads :: int

record Data =
  dSource :: SourceConfig
  dClient :: ClientConfigFull
  dTier1RetentionPolicy :: "ConfigRetentionPolicy option"
  dTier2RetentionPolicy :: "ConfigRetentionPolicy option"
  dTier1CompressionPolicy :: "CompressionPolicy option"
  dTier2CompressionPolicy :: "CompressionPolicy option"
  dTier1Enabled :: bool
  dTier2BackupEnabled :: bool
  dTier2RecoveryEnabled :: bool
  dWALPrefetch :: WALPrefetchConfig

definition no_source :: SourceConfig where
  "no_source = \<lparr>scDSN = [], scStandardDSN = [], scSlot = [], scBufferSize = 0\<rparr>"

definition no_base :: BaseRepositoryClientConfig where
  "no_base = \<lparr>baseURL = [], baseTier2URL = [], baseServerCertPath = [], baseClientCertPath = [], baseClientKeyPath = []\<rparr>"

definition no_wal :: WalRepositoryClientConfig where
  "no_wal = \<lparr>wrAddress = [], wrTier2Address = [], wrServerCertPath = [], wrClientCertPath = [], wrClientKeyPath = []\<rparr>"

definition SourceConfig_SetDefaults :: "SourceConfig \<Rightarrow> SourceConfig" where
  "SourceConfig_SetDefaults s = s\<lparr>scBufferSize := 4 * 1024 * 1024\<rparr>"

definition Data_SetDefaults :: "Data \<Rightarrow> Data" where
  "Data_SetDefaults d = (if dSource d \<noteq> no_source then d\<lparr>dSource := SourceConfig_SetDefaults (dSource d)\<rparr> else d)"

section \<open>core/pkg/config/client_validate.go\<close>

text \<open>The regular expression \<open>^[a-z0-9_]+$\<close>.\<close>

definition slot_char :: "char \<Rightarrow> bool" where
  "slot_char c \<longleftrightarrow> (let v = (of_char c :: nat) in 97 \<le> v \<and> v \<le> 122 \<or> 48 \<le> v \<and> v \<le> 57 \<or> v = 95)"

definition SourceConfig_Validate :: "SourceConfig \<Rightarrow> go_error option" where
  "SourceConfig_Validate s = validate_all
     [check (scDSN s = []) ''invalid source config: dsn is empty'',
      check (scStandardDSN s = []) ''invalid source config: standard_dsn is empty'',
      check (scSlot s = []) ''invalid source config: slot is empty'',
      check (\<not> (scSlot s \<noteq> [] \<and> list_all slot_char (scSlot s)))
        ''invalid source config: slot name can only contain lower-case letters, numbers, and underscores'',
      check (scBufferSize s < 1) ''invalid source config: buffer_size must be at least 1'']"

definition BaseRepositoryClientConfig_Validate :: "BaseRepositoryClientConfig \<Rightarrow> go_error option" where
  "BaseRepositoryClientConfig_Validate c = validate_all
     [check (baseURL c = [] \<and> baseTier2URL c = [])
        ''invalid base repository client config: at least one of url or tier2_url must be specified'',
      check (baseServerCertPath c = []) ''invalid base repository client config: server_cert_path is empty'',
      check (baseClientCertPath c = []) ''invalid base repository client config: client_cert_path is empty'',
      check (baseClientKeyPath c = []) ''invalid base repository client config: client_key_path is empty'']"

definition WalRepositoryClientConfig_Validate :: "WalRepositoryClientConfig \<Rightarrow> go_error option" where
  "WalRepositoryClientConfig_Validate c = validate_all
     [check (wrAddress c = [] \<and> wrTier2Address c = [])
        ''invalid wal repository client config: at least one of address or tier2_address must be specified'',
      check (wrServerCertPath c = []) ''invalid wal repository client config: server_cert_path is empty'',
      check (wrClientCertPath c = []) ''invalid wal repository client config: client_cert_path is empty'',
      check (wrClientKeyPath c = []) ''invalid wal repository client config: client_key_path is empty'']"

definition ClientConfig_Validate :: "ClientConfigFull \<Rightarrow> go_error option" where
  "ClientConfig_Validate c = validate_all
     [check (ccClusterName c = []) ''invalid client config: cluster_name is empty'',
      if ccBase c \<noteq> no_base then BaseRepositoryClientConfig_Validate (ccBase c) else None,
      if ccWal c \<noteq> no_wal then WalRepositoryClientConfig_Validate (ccWal c) else None]"

definition Data_Validate :: "Data \<Rightarrow> go_error option" where
  "Data_Validate d = validate_all
     [if dSource d \<noteq> no_source then SourceConfig_Validate (dSource d) else None,
      ClientConfig_Validate (dClient d),
      CompressionPolicy_Validate (dTier1CompressionPolicy d),
      CompressionPolicy_Validate (dTier2CompressionPolicy d)]"

section \<open>core/pkg/config/server.go\<close>

record TLSConfig =
  TLSCert :: string
  TLSKey :: string
  ClientCACertFile :: string

record BaseServerConfig =
  bsCacheDirectory :: string
  bsRepositoryDirectory :: string
  bsListenAddress :: string

record WalServerConfig =
  wsListenAddress :: string
  wsWALPath :: string

record S3Configuration =
  s3cEnabled :: bool
  s3cBucketName :: string
  s3cEndpoint :: string
  s3cRegion :: string
  s3cPrefix :: string
  s3cAccessKeyID :: string
  s3cSecretAccessKey :: string
  s3cSessionToken :: string
  s3cCustomCABundleFile :: string

record Tier1Config =
  t1EncryptionKeyFile :: string
  t1IdentityFile :: string
  t1EncryptionKey :: string
  t1Base :: BaseServerConfig
  t1Wal :: WalServerConfig
  t1Compression :: CompressionPolicy

record Tier2Config =
  t2EncryptionKeyFile :: string
  t2IdentityFile :: string
  t2EncryptionKey :: string
  t2BaseListenAddress :: string
  t2WALListenAddress :: string
  t2CacheDirectory :: string
  t2Compression :: CompressionPolicy
  t2S3 :: S3Configuration

record ServerConfig =
  svTLS :: TLSConfig
  svTier1 :: Tier1Config
  svTier2 :: Tier2Config
  svQueueDirectory :: string

section \<open>core/pkg/config/server_validate.go\<close>

definition ErrMissingTier2Configuration :: go_error where
  "ErrMissingTier2Configuration = Sentinel ''tier2 is disabled, s3 configuration is missing''"

definition TLSConfig_Validate :: "TLSConfig \<Rightarrow> go_error option" where
  "TLSConfig_Validate c = validate_all
     [check (TLSCert c = []) ''invalid TLS config: tls_cert is empty'',
      check (TLSKey c = []) ''invalid TLS config: tls_key is empty'',
      check (ClientCACertFile c = []) ''invalid TLS config: client_ca_cert is empty'']"

definition BaseServerConfig_Validate :: "BaseServerConfig \<Rightarrow> go_error option" where
  "BaseServerConfig_Validate c = validate_all
     [check (bsCacheDirectory c = []) ''invalid base server config: cache is empty'',
      check (bsRepositoryDirectory c = []) ''invalid base server config: repository is empty'',
      check (bsListenAddress c = []) ''invalid base server config: listen_address is empty'']"

definition WalServerConfig_Validate :: "WalServerConfig \<Rightarrow> go_error option" where
  "WalServerConfig_Validate c = validate_all
     [check (wsListenAddress c = []) ''invalid wal server config: listen_address is empty'',
      check (wsWALPath c = []) ''invalid wal server config: path is empty'']"

definition validateAWSCredentials :: "S3Configuration \<Rightarrow> go_error option" where
  "validateAWSCredentials c =
     (if s3cAccessKeyID c \<noteq> [] \<and> s3cSecretAccessKey c \<noteq> [] then None
      else if s3cAccessKeyID c = [] \<and> s3cSecretAccessKey c = [] then None
      else Some (Sentinel ''invalid s3 config: when using AWS credentials both access_key_id and secret_access_key must be provided''))"

definition S3Configuration_Validate :: "S3Configuration \<Rightarrow> go_error option" where
  "S3Configuration_Validate c =
     (if \<not> s3cEnabled c then None
      else let errs = validate_all
             [check (s3cBucketName c = []) ''invalid s3 config: bucket_name is empty'',
              check (s3cRegion c = []) ''invalid s3 config: region is empty'']
           in errors_Join ((case errs of None \<Rightarrow> [] | Some x \<Rightarrow> [x]) @
                           (case validateAWSCredentials c of None \<Rightarrow> [] | Some y \<Rightarrow> [y])))"

definition settings_error :: "string \<Rightarrow> CompressionPolicy \<Rightarrow> go_error option" where
  "settings_error msg p = map_option (Wrap msg) (ValidateCompressionSettings (Algorithm p) (MinSize p) (MaxSize p))"

definition Tier1Config_Validate :: "Tier1Config \<Rightarrow> go_error option" where
  "Tier1Config_Validate c = validate_all
     [check (t1EncryptionKeyFile c = []) ''invalid tier1 config: encryption_key_file is empty'',
      BaseServerConfig_Validate (t1Base c), WalServerConfig_Validate (t1Wal c),
      settings_error ''invalid tier1 config'' (t1Compression c)]"

definition Tier2Config_Validate :: "Tier2Config \<Rightarrow> go_error option" where
  "Tier2Config_Validate c = validate_all
     ((if s3cEnabled (t2S3 c)
       then [check (t2EncryptionKeyFile c = []) ''invalid tier2 config: encryption_key_file is empty'',
             check (t2BaseListenAddress c = []) ''invalid tier2 config: base_listen_address is empty'',
             check (t2WALListenAddress c = []) ''invalid tier2 config: wal_listen_address is empty'',
             check (t2CacheDirectory c = []) ''invalid tier2 config: cache is empty'']
       else []) @
      [S3Configuration_Validate (t2S3 c), settings_error ''invalid tier2 config'' (t2Compression c)])"

definition ServerConfig_Validate :: "ServerConfig \<Rightarrow> go_error option" where
  "ServerConfig_Validate c = validate_all
     [TLSConfig_Validate (svTLS c), Tier1Config_Validate (svTier1 c), Tier2Config_Validate (svTier2 c)]"

definition RequireTier1 :: "ServerConfig \<Rightarrow> go_error option" where
  "RequireTier1 c = validate_all [TLSConfig_Validate (svTLS c), Tier1Config_Validate (svTier1 c)]"

text \<open>filepath.Abs, over the answer of os.Getwd.\<close>

definition filepath_Abs :: "go_error + string \<Rightarrow> string \<Rightarrow> go_error + string" where
  "filepath_Abs cwd p =
     (if p \<noteq> [] \<and> hd p = CHR ''/'' then Inr (path_Clean p)
      else case cwd of Inl e \<Rightarrow> Inl e | Inr wd \<Rightarrow> Inr (path_Join [wd, p]))"

definition RequireTier2 :: "go_error + string \<Rightarrow> ServerConfig \<Rightarrow> go_error option" where
  "RequireTier2 cwd c =
     (let dir1 = filepath_Abs cwd (path_Clean (bsCacheDirectory (t1Base (svTier1 c))));
          dir2 = filepath_Abs cwd (path_Clean (t2CacheDirectory (svTier2 c)));
          err = (\<lambda>d. case d of Inl e \<Rightarrow> Some e | Inr _ \<Rightarrow> None);
          clean = (\<lambda>d. case d of Inl _ \<Rightarrow> [] | Inr p \<Rightarrow> p)
      in validate_all
        [TLSConfig_Validate (svTLS c), Tier2Config_Validate (svTier2 c),
         (if \<not> s3cEnabled (t2S3 (svTier2 c)) then Some ErrMissingTier2Configuration else None),
         err dir1, err dir2,
         check (clean dir1 = clean dir2) ''tier1 and tier2 cannot use the same cache directory''])"

section \<open>core/pkg/config/encryption.go\<close>

definition EmptyDecodedEncryptionKeyError :: go_error where
  "EmptyDecodedEncryptionKeyError = Sentinel ''decoded encryption key file is empty''"

text \<open>Files, and the age library: parsing identities, decrypting the binary or the armored form.  A decrypting
  reader gives its content or the error that reading it ends with.\<close>

record age_env =
  ageFile :: "string \<Rightarrow> go_error + bytes"
  ageSeek :: "go_error option"
  ParseIdentities :: "bytes \<Rightarrow> go_error + string list"
  AgeDecrypt :: "bool \<Rightarrow> bytes \<Rightarrow> string list \<Rightarrow> go_error + (go_error + string)"

definition os_Open :: "age_env \<Rightarrow> string \<Rightarrow> go_error + bytes" where
  "os_Open A path = (if path = [] then Inl ErrNotExist else ageFile A path)"

text \<open>unicode.IsSpace on ASCII.\<close>

definition is_space :: "char \<Rightarrow> bool" where
  "is_space c \<longleftrightarrow> (let v = (of_char c :: nat) in v = 32 \<or> 9 \<le> v \<and> v \<le> 13)"

definition TrimSpace :: "string \<Rightarrow> string" where
  "TrimSpace s = rev (dropWhile is_space (rev (dropWhile is_space s)))"

definition DecryptEncryptionKeyFile :: "age_env \<Rightarrow> string \<Rightarrow> string \<Rightarrow> go_error + string" where
  "DecryptEncryptionKeyFile A encryptionKeyFile identityFile =
     (case os_Open A identityFile of
        Inl e \<Rightarrow> Inl (Wrap ''opening identity file'' e)
      | Inr idFile \<Rightarrow>
          (case ParseIdentities A idFile of
             Inl e \<Rightarrow> Inl (Wrap ''parsing identity file'' e)
           | Inr identities \<Rightarrow>
               (case os_Open A encryptionKeyFile of
                  Inl e \<Rightarrow> Inl (Wrap ''opening encryption key file'' e)
                | Inr encFile \<Rightarrow>
                    (case (case AgeDecrypt A False encFile identities of
                             Inr reader \<Rightarrow> Inr reader
                           | Inl _ \<Rightarrow>
                               (case ageSeek A of
                                  Some e \<Rightarrow> Inl (Wrap ''seeking encryption key file'' e)
                                | None \<Rightarrow>
                                    (case AgeDecrypt A True encFile identities of
                                       Inl e \<Rightarrow> Inl (Wrap ''decrypting encryption key file'' e)
                                     | Inr reader \<Rightarrow> Inr reader))) of
                       Inl e \<Rightarrow> Inl e
                     | Inr (Inl e) \<Rightarrow> Inl (Wrap ''reading decrypted encryption key'' e)
                     | Inr (Inr decrypted) \<Rightarrow>
                         let key = TrimSpace decrypted
                         in if key = [] then Inl EmptyDecodedEncryptionKeyError else Inr key))))"

definition Tier1_LoadEncryptionKey :: "age_env \<Rightarrow> Tier1Config \<Rightarrow> go_error option \<times> Tier1Config" where
  "Tier1_LoadEncryptionKey A c =
     (case DecryptEncryptionKeyFile A (t1EncryptionKeyFile c) (t1IdentityFile c) of
        Inl e \<Rightarrow> (Some e, c)
      | Inr key \<Rightarrow> (None, c\<lparr>t1EncryptionKey := key\<rparr>))"

definition Tier2_LoadEncryptionKey :: "age_env \<Rightarrow> Tier2Config \<Rightarrow> go_error option \<times> Tier2Config" where
  "Tier2_LoadEncryptionKey A c =
     (case DecryptEncryptionKeyFile A (t2EncryptionKeyFile c) (t2IdentityFile c) of
        Inl e \<Rightarrow> (Some e, c)
      | Inr key \<Rightarrow> (None, c\<lparr>t2EncryptionKey := key\<rparr>))"

section \<open>Lemmas\<close>

lemma foldl_add_error: "foldl add_error e es = None \<longleftrightarrow> e = None \<and> list_all (\<lambda>x. x = None) es"
  by (induction es arbitrary: e) (auto simp: add_error_def errors_Join_def split: option.splits)

lemma validate_all_None [simp]: "validate_all es = None \<longleftrightarrow> list_all (\<lambda>x. x = None) es"
  by (simp add: validate_all_def foldl_add_error)

lemma check_None [simp]: "check bad msg = None \<longleftrightarrow> \<not> bad"
  by (simp add: check_def)

definition compression_ok :: "CompressionPolicy \<Rightarrow> bool" where
  "compression_ok p \<longleftrightarrow>
     (Algorithm p = [] \<or> IsValidCompressionAlgorithm (Algorithm p)) \<and> (0 < MaxSize p \<longrightarrow> MinSize p \<le> MaxSize p)"

lemma ValidateCompressionSettings_None:
  "ValidateCompressionSettings (Algorithm p) (MinSize p) (MaxSize p) = None \<longleftrightarrow> compression_ok p"
  by (auto simp: ValidateCompressionSettings_def compression_ok_def)

lemma settings_error_None [simp]: "settings_error msg p = None \<longleftrightarrow> compression_ok p"
  by (simp add: settings_error_def ValidateCompressionSettings_None)

lemma CompressionPolicy_Validate_None [simp]:
  "CompressionPolicy_Validate c = None \<longleftrightarrow> (\<forall>p. c = Some p \<longrightarrow> compression_ok p)"
  by (auto simp: CompressionPolicy_Validate_def ValidateCompressionSettings_None split: option.splits)

lemma join_both_None [simp]:
  "errors_Join ((case a of None \<Rightarrow> [] | Some x \<Rightarrow> [x]) @ (case b of None \<Rightarrow> [] | Some y \<Rightarrow> [y])) = None \<longleftrightarrow>
     a = None \<and> b = None"
  by (auto simp: errors_Join_def split: option.splits)

lemma S3Configuration_Validate_None [simp]:
  "S3Configuration_Validate c = None \<longleftrightarrow>
     (s3cEnabled c \<longrightarrow> s3cBucketName c \<noteq> [] \<and> s3cRegion c \<noteq> [] \<and> (s3cAccessKeyID c = [] \<longleftrightarrow> s3cSecretAccessKey c = []))"
  by (auto simp: S3Configuration_Validate_def validateAWSCredentials_def Let_def)

lemmas validate_defs = TLSConfig_Validate_def BaseServerConfig_Validate_def WalServerConfig_Validate_def
  Tier1Config_Validate_def Tier2Config_Validate_def RequireTier1_def RequireTier2_def SourceConfig_Validate_def
  BaseRepositoryClientConfig_Validate_def WalRepositoryClientConfig_Validate_def ClientConfig_Validate_def
  Data_Validate_def

lemma filepath_Abs_Inr: "\<exists>d. filepath_Abs (Inr wd) p = Inr d"
  by (simp add: filepath_Abs_def)

subsection \<open>Defaults and keys\<close>

text \<open>The buffer size of the configuration file has no effect, neither on the defaults nor on the validation.\<close>

lemma buffer_size_is_ignored:
  assumes "dSource d \<noteq> no_source" and "(dSource d)\<lparr>scBufferSize := n\<rparr> \<noteq> no_source"
  shows "Data_SetDefaults (d\<lparr>dSource := (dSource d)\<lparr>scBufferSize := n\<rparr>\<rparr>) = Data_SetDefaults d"
  using assms by (simp add: Data_SetDefaults_def SourceConfig_SetDefaults_def)

lemma dropWhile_hd: "dropWhile P xs \<noteq> [] \<Longrightarrow> \<not> P (hd (dropWhile P xs))"
  by (rule hd_dropWhile) (metis dropWhile_eq_Nil_conv)

text \<open>A loaded key is not empty and has no white space around it; it is only loaded with an identity file, although the
  documentation of the field says that without one the key file is read as plain text, and the validation of
  the tiers does not ask for one.\<close>

lemma loaded_key:
  assumes "DecryptEncryptionKeyFile A keyFile identityFile = Inr key"
  shows "identityFile \<noteq> [] \<and> keyFile \<noteq> [] \<and> key \<noteq> [] \<and> TrimSpace key = key"
proof -
  from assms obtain s where k: "key = TrimSpace s" and ne: "key \<noteq> []" and files: "identityFile \<noteq> []" "keyFile \<noteq> []"
    by (auto simp: DecryptEncryptionKeyFile_def os_Open_def Let_def split: sum.splits option.splits if_splits)
  let ?d = "dropWhile is_space s"
  have 1: "\<not> is_space (last key)"
    using ne dropWhile_hd [of is_space "rev ?d"] by (simp add: k TrimSpace_def last_rev)
  have d: "?d = key @ rev (takeWhile is_space (rev ?d))"
    unfolding k TrimSpace_def by (metis rev_append rev_rev_ident takeWhile_dropWhile_id)
  then have "?d \<noteq> []" "hd ?d = hd key" using ne by (metis Nil_is_append_conv, metis hd_append2)
  then have 2: "\<not> is_space (hd key)" using dropWhile_hd [of is_space s] by simp
  have "dropWhile is_space key = key" using 2 ne by (cases key) auto
  moreover have "dropWhile is_space (rev key) = rev key" using 1 ne by (cases key rule: rev_cases) auto
  ultimately have "TrimSpace key = key" by (simp add: TrimSpace_def)
  with ne files show ?thesis by blast
qed

lemma no_key_without_identity_file:
  "fst (Tier1_LoadEncryptionKey A (c\<lparr>t1IdentityFile := []\<rparr>)) \<noteq> None"
  "Tier1Config_Validate (c\<lparr>t1IdentityFile := []\<rparr>) = Tier1Config_Validate c"
  by (auto simp: Tier1_LoadEncryptionKey_def Tier1Config_Validate_def dest!: loaded_key split: sum.splits)

section \<open>Properties\<close>


end
