(* ===== verification/Server_Start.thy ===== *)
theory Server_Start
  imports Klio_Config Repo_Keys
begin

text \<open>
  The start of a server (core/cmd/server, core/cmd/initialize, core/internal/server/kopiaconfig and
  core/internal/server/kopiaserver): loading the keys, verifying or creating the WAL and the Kopia repository of each
  tier, connecting Kopia, applying its global policies, and the services that run afterwards.

  The WAL file systems of the two tiers are states of type \<open>'fs\<close> behind an afero record, everything else
  is the world \<open>'w\<close> of the Kopia wrapper.  The embedded NATS server, the service tree of the
  suture library, the AWS client behind afero and the metrics are parameters, in the record \<open>server_env\<close>.
\<close>

section \<open>core/internal/server/kopiaconfig\<close>

definition s3_options :: "string \<Rightarrow> bool \<Rightarrow> bool \<Rightarrow> Tier2Config \<Rightarrow> S3RepoOpts" where
  "s3_options kopiaBinary persist readOnly cfg =
     \<lparr>coKopiaBinary = kopiaBinary, coEncryptionPassword = t2EncryptionKey cfg, coPersistCredentials = persist,
      coCacheDirectory = t2CacheDirectory cfg, coReadOnly = readOnly,
      s3BucketName = s3cBucketName (t2S3 cfg), s3Endpoint = s3cEndpoint (t2S3 cfg), s3Region = s3cRegion (t2S3 cfg),
      s3Prefix = s3cPrefix (t2S3 cfg), s3AccessKeyID = s3cAccessKeyID (t2S3 cfg),
      s3SecretAccessKey = s3cSecretAccessKey (t2S3 cfg), s3SessionToken = s3cSessionToken (t2S3 cfg),
      s3CustomCABundleFile = s3cCustomCABundleFile (t2S3 cfg)\<rparr>"

definition CreateTier1KopiaConfigFile :: "'w kopia_env \<Rightarrow> string \<Rightarrow> Tier1Config \<Rightarrow> 'w \<Rightarrow> go_error option \<times> 'w" where
  "CreateTier1KopiaConfigFile E fileName cfg w =
     (case LookupBinary E of
        Inl e \<Rightarrow> (Some e, w)
      | Inr kopiaBinary \<Rightarrow>
          (case ConnectFileSystem E fileName
                  \<lparr>coKopiaBinary = kopiaBinary, coEncryptionPassword = t1EncryptionKey cfg, coPersistCredentials = True,
                   coCacheDirectory = bsCacheDirectory (t1Base cfg), coReadOnly = False,
                   DataDirectory = bsRepositoryDirectory (t1Base cfg)\<rparr> w of
             (r, w') \<Rightarrow> (map_option (Wrap ''while connecting to Kopia repository'') r, w')))"

definition CreateTier2KopiaConfigFile ::
  "'w kopia_env \<Rightarrow> string \<Rightarrow> Tier2Config \<Rightarrow> bool \<Rightarrow> 'w \<Rightarrow> go_error option \<times> 'w" where
  "CreateTier2KopiaConfigFile E fileName cfg readOnly w =
     (case LookupBinary E of
        Inl e \<Rightarrow> (Some e, w)
      | Inr kopiaBinary \<Rightarrow>
          (case ConnectS3 E fileName (s3_options kopiaBinary True readOnly cfg) w of
             (r, w') \<Rightarrow> (map_option (Wrap ''while connecting to Kopia repository'') r, w')))"

definition verifyKopiaRepository ::
  "'w host_env \<Rightarrow> string \<Rightarrow> (string \<Rightarrow> 'w \<Rightarrow> go_error option \<times> 'w) \<Rightarrow> 'w \<Rightarrow> go_error option \<times> 'w" where
  "verifyKopiaRepository H tierLabel createKopiaConfigFile w =
     (case CreateTemp H w of
        (Inl e, w1) \<Rightarrow> (Some (Wrap ''while creating temporary config file'' e), w1)
      | (Inr tmpFileName, w1) \<Rightarrow>
          (case createKopiaConfigFile tmpFileName w1 of
             (r, w2) \<Rightarrow> (map_option (Wrap (''while verifying '' @ tierLabel @ '' Kopia repository'')) r, CleanupConfigFile H tmpFileName w2)))"

definition VerifyTier1KopiaRepository :: "'w kopia_env \<Rightarrow> 'w host_env \<Rightarrow> Tier1Config \<Rightarrow> 'w \<Rightarrow> go_error option \<times> 'w" where
  "VerifyTier1KopiaRepository E H cfg w = verifyKopiaRepository H ''tier1'' (\<lambda>f. CreateTier1KopiaConfigFile E f cfg) w"

definition VerifyTier2KopiaRepository :: "'w kopia_env \<Rightarrow> 'w host_env \<Rightarrow> Tier2Config \<Rightarrow> 'w \<Rightarrow> go_error option \<times> 'w" where
  "VerifyTier2KopiaRepository E H cfg w = verifyKopiaRepository H ''tier2'' (\<lambda>f. CreateTier2KopiaConfigFile E f cfg False) w"

section \<open>core/internal/server/kopiaserver: creating the repositories\<close>

definition InitializeTier1 :: "'w kopia_env \<Rightarrow> Tier1Config \<Rightarrow> 'w \<Rightarrow> go_error option \<times> 'w" where
  "InitializeTier1 E cfg w =
     (case LookupBinary E of
        Inl e \<Rightarrow> (Some e, w)
      | Inr kopiaBinary \<Rightarrow>
          (case CleanupCacheDirectory E (bsCacheDirectory (t1Base cfg)) w of
             (Some e, w1) \<Rightarrow> (Some e, w1)
           | (None, w1) \<Rightarrow>
               (case InitializeFilesystem E
                       \<lparr>coKopiaBinary = kopiaBinary, coEncryptionPassword = t1EncryptionKey cfg, coPersistCredentials = False,
                        coCacheDirectory = bsCacheDirectory (t1Base cfg), coReadOnly = False,
                        DataDirectory = bsRepositoryDirectory (t1Base cfg)\<rparr> w1 of
                  (r, w2) \<Rightarrow> (map_option (Wrap ''while creating Kopia repository'') r, w2))))"

definition InitializeTier2 :: "'w kopia_env \<Rightarrow> Tier2Config \<Rightarrow> 'w \<Rightarrow> go_error option \<times> 'w" where
  "InitializeTier2 E cfg w =
     (case CleanupCacheDirectory E (t2CacheDirectory cfg) w of
        (Some e, w1) \<Rightarrow> (Some e, w1)
      | (None, w1) \<Rightarrow>
          (case LookupBinary E of
             Inl e \<Rightarrow> (Some e, w1)
           | Inr kopiaBinary \<Rightarrow>
               (case InitializeS3 E (s3_options kopiaBinary False False cfg) w1 of
                  (r, w2) \<Rightarrow> (map_option (Wrap ''while creating Kopia repository'') r, w2))))"

section \<open>core/cmd/initialize\<close>

record 'w KopiaOptions =
  koReadDir :: "'w \<Rightarrow> go_error + (string \<times> bool) list"
  koInitializeRepo :: "'w \<Rightarrow> go_error option \<times> 'w"
  koVerifyRepo :: "'w \<Rightarrow> go_error option \<times> 'w"

record ('fs, 'w) InitOptions =
  ioWal :: "'fs Options"
  ioKopia :: "'w KopiaOptions"

definition canInitRepoDirectory :: "go_error + (string \<times> bool) list \<Rightarrow> go_error + bool" where
  "canInitRepoDirectory entries =
     (case entries of Inl e \<Rightarrow> if os_IsNotExist e then Inr True else Inl e | Inr es \<Rightarrow> Inr (es = []))"

definition probe_directories :: "('fs, 'w) InitOptions \<Rightarrow> 'fs \<times> 'w \<Rightarrow> go_error + bool \<times> bool" where
  "probe_directories opts s =
     (case canInitRepoDirectory (ReadDir (optFS (ioWal opts)) ''.'' (fst s)) of
        Inl e \<Rightarrow> Inl (Wrap ''while checking if the Klio WAL FS is safe to use'' e)
      | Inr walDirectoryIsEmpty \<Rightarrow>
          (case canInitRepoDirectory (koReadDir (ioKopia opts) (snd s)) of
             Inl e \<Rightarrow> Inl (Wrap ''while checking if the Kopia repository is safe to use'' e)
           | Inr kopiaDirectoryIsEmpty \<Rightarrow> Inr (walDirectoryIsEmpty, kopiaDirectoryIsEmpty)))"

definition verifyExistingRepositories ::
  "crypto \<Rightarrow> codec \<Rightarrow> ('fs, 'w) InitOptions \<Rightarrow> 'fs \<times> 'w \<Rightarrow> go_error option \<times> ('fs \<times> 'w)" where
  "verifyExistingRepositories cr cd opts s =
     (case probe_directories opts s of
        Inl e \<Rightarrow> (Some e, s)
      | Inr (walDirectoryIsEmpty, kopiaDirectoryIsEmpty) \<Rightarrow>
          (case (if walDirectoryIsEmpty then None
                 else case Open cr cd (ioWal opts) (fst s) of
                        Inl e \<Rightarrow> Some (Wrap ''WAL repository exists but password verification failed'' e)
                      | Inr _ \<Rightarrow> None) of
             Some e \<Rightarrow> (Some e, s)
           | None \<Rightarrow>
               if kopiaDirectoryIsEmpty then (None, s)
               else (case koVerifyRepo (ioKopia opts) (snd s) of
                       (r, w') \<Rightarrow> (map_option (Wrap ''kopia repository exists but password verification failed'') r, (fst s, w')))))"

definition initializeMissingRepositories ::
  "crypto \<Rightarrow> randomness \<Rightarrow> ('fs, 'w) InitOptions \<Rightarrow> 'fs \<times> 'w \<Rightarrow> go_error option \<times> ('fs \<times> 'w)" where
  "initializeMissingRepositories cr rnd opts s =
     (case probe_directories opts s of
        Inl e \<Rightarrow> (Some e, s)
      | Inr (walDirectoryIsEmpty, kopiaDirectoryIsEmpty) \<Rightarrow>
          (case (if walDirectoryIsEmpty then Initialize cr rnd (ioWal opts) (fst s) else (None, fst s)) of
             (Some e, fs') \<Rightarrow> (Some (Wrap ''while initializing the Klio WAL directory'' e), (fs', snd s))
           | (None, fs') \<Rightarrow>
               if kopiaDirectoryIsEmpty
               then (case koInitializeRepo (ioKopia opts) (snd s) of
                       (r, w') \<Rightarrow> (map_option (Wrap ''while initializing the Kopia repository directory'') r, (fs', w')))
               else (None, (fs', snd s))))"

definition Run ::
  "crypto \<Rightarrow> codec \<Rightarrow> randomness \<Rightarrow> ('fs, 'w) InitOptions \<Rightarrow> 'fs \<times> 'w \<Rightarrow> go_error option \<times> ('fs \<times> 'w)" where
  "Run cr cd rnd opts s =
     (case verifyExistingRepositories cr cd opts s of
        (Some e, s') \<Rightarrow> (Some e, s')
      | (None, s') \<Rightarrow> initializeMissingRepositories cr rnd opts s')"

definition NewTier1Options ::
  "'w kopia_env \<Rightarrow> 'w host_env \<Rightarrow> 'fs afero \<Rightarrow> ('w \<Rightarrow> go_error + (string \<times> bool) list) \<Rightarrow> Tier1Config \<Rightarrow> ('fs, 'w) InitOptions" where
  "NewTier1Options E H walFS kopiaReadDir cfg =
     \<lparr>ioWal = \<lparr>optFS = walFS, optPassword = t1EncryptionKey cfg\<rparr>,
      ioKopia = \<lparr>koReadDir = kopiaReadDir, koInitializeRepo = InitializeTier1 E cfg,
                koVerifyRepo = VerifyTier1KopiaRepository E H cfg\<rparr>\<rparr>"

definition NewTier2Options ::
  "'w kopia_env \<Rightarrow> 'w host_env \<Rightarrow> 'fs afero \<Rightarrow> ('w \<Rightarrow> go_error + (string \<times> bool) list) \<Rightarrow> Tier2Config \<Rightarrow> ('fs, 'w) InitOptions" where
  "NewTier2Options E H walFS kopiaReadDir cfg =
     \<lparr>ioWal = \<lparr>optFS = walFS, optPassword = t2EncryptionKey cfg\<rparr>,
      ioKopia = \<lparr>koReadDir = kopiaReadDir, koInitializeRepo = InitializeTier2 E cfg,
                koVerifyRepo = VerifyTier2KopiaRepository E H cfg\<rparr>\<rparr>"

section \<open>core/cmd/server/server.go\<close>

definition applyGlobalKopiaPolicies :: "'w kopia_env \<Rightarrow> string \<Rightarrow> CompressionPolicy \<Rightarrow> 'w \<Rightarrow> go_error option \<times> 'w" where
  "applyGlobalKopiaPolicies E configFile compression w =
     (case LookupBinary E of
        Inl e \<Rightarrow> (Some e, w)
      | Inr kopiaBinary \<Rightarrow>
          let client = \<lparr>ConfigFile = configFile, KopiaBinary = kopiaBinary, Password = []\<rparr>
          in case SetKopiaGlobalCompressionPolicy E client compression w of
               (Some e, w1) \<Rightarrow> (Some e, w1)
             | (None, w1) \<Rightarrow> DisableKopiaRetention E client w1)"

definition setupTier1KopiaConfig :: "'w kopia_env \<Rightarrow> string \<Rightarrow> Tier1Config \<Rightarrow> 'w \<Rightarrow> go_error option \<times> 'w" where
  "setupTier1KopiaConfig E configFile cfg w =
     (case CreateTier1KopiaConfigFile E configFile cfg w of
        (Some e, w1) \<Rightarrow> (Some (Wrap ''error creating tier1 kopia config file'' e), w1)
      | (None, w1) \<Rightarrow>
          (case applyGlobalKopiaPolicies E configFile (t1Compression cfg) w1 of
             (r, w2) \<Rightarrow> (map_option (Wrap ''error setting tier1 global Kopia policies'') r, w2)))"

record tier2ConfigFiles =
  rwConfigFileName :: string
  roConfigFileName :: string

definition tier2_cleanup :: "'w host_env \<Rightarrow> tier2ConfigFiles \<Rightarrow> 'w \<Rightarrow> 'w" where
  "tier2_cleanup H files w = snd (Remove H (roConfigFileName files) (snd (Remove H (rwConfigFileName files) w)))"

definition setupTier2ConfigFiles ::
  "'w kopia_env \<Rightarrow> 'w host_env \<Rightarrow> Tier2Config \<Rightarrow> 'w \<Rightarrow> (go_error + tier2ConfigFiles) \<times> 'w" where
  "setupTier2ConfigFiles E H cfg w =
     (case CreateTemp H w of
        (Inl e, w1) \<Rightarrow> (Inl (Wrap ''while writing a temporary Kopia config'' e), w1)
      | (Inr rw, w1) \<Rightarrow>
          (case CreateTemp H w1 of
             (Inl e, w2) \<Rightarrow> (Inl (Wrap ''while writing a temporary Kopia config'' e), snd (Remove H rw w2))
           | (Inr ro, w2) \<Rightarrow>
               let files = \<lparr>rwConfigFileName = rw, roConfigFileName = ro\<rparr>
               in case CreateTier2KopiaConfigFile E rw cfg False w2 of
                    (Some e, w3) \<Rightarrow> (Inl (Wrap ''error creating tier2 RW kopia config file'' e), tier2_cleanup H files w3)
                  | (None, w3) \<Rightarrow>
                      (case CreateTier2KopiaConfigFile E ro cfg True w3 of
                         (Some e, w4) \<Rightarrow> (Inl (Wrap ''error creating tier2 RO kopia config file'' e), tier2_cleanup H files w4)
                       | (None, w4) \<Rightarrow> (Inr files, w4))))"

text \<open>The services, with the Kopia configuration files they get.\<close>

datatype service =
  NatsService string
  | Tier1KopiaServer string
  | Tier1WALServer string
  | Tier2KopiaServer string
  | Tier2WALServer
  | BackupConsumer string string string
  | RetentionSweeper string string
  | Tier2WALConsumer string
  | AdminServer string string string

record serverOpts =
  soTier1 :: bool
  soTier2 :: bool
  soCfg :: ServerConfig

record 'w server_env =
  seNewNatsService :: "string \<Rightarrow> 'w \<Rightarrow> (go_error + string) \<times> 'w"
  seServe :: "service list \<Rightarrow> 'w \<Rightarrow> go_error option \<times> 'w"
  seCwd :: "go_error + string"

text \<open>The part of runServer before klio.Serve: the services of the tree and the clean-up that is deferred, or an
  error with the clean-up that is already deferred.\<close>

definition setup_tier1 ::
  "'w kopia_env \<Rightarrow> 'w host_env \<Rightarrow> serverOpts \<Rightarrow> string \<Rightarrow> 'w \<Rightarrow> (go_error + string \<times> service list) \<times> ('w \<Rightarrow> 'w) \<times> 'w" where
  "setup_tier1 E H opts queueURL w =
     (if \<not> soTier1 opts then (Inr ([], []), id, w)
      else case RequireTier1 (soCfg opts) of
             Some e \<Rightarrow> (Inl (Wrap ''tier 1 opts.cfg validation error'' e), id, w)
           | None \<Rightarrow>
               (case CreateTemp H w of
                  (Inl e, w1) \<Rightarrow> (Inl (Wrap ''while writing a temporary Kopia config'' e), id, w1)
                | (Inr file, w1) \<Rightarrow>
                    let cleanup = (\<lambda>w. snd (Remove H file w))
                    in case setupTier1KopiaConfig E file (svTier1 (soCfg opts)) w1 of
                         (Some e, w2) \<Rightarrow> (Inl e, cleanup, w2)
                       | (None, w2) \<Rightarrow> (Inr (file, [Tier1KopiaServer file, Tier1WALServer queueURL]), cleanup, w2)))"

definition setup_tier2 ::
  "'w kopia_env \<Rightarrow> 'w host_env \<Rightarrow> 'w server_env \<Rightarrow> serverOpts \<Rightarrow> 'w \<Rightarrow> (go_error + string \<times> service list) \<times> ('w \<Rightarrow> 'w) \<times> 'w" where
  "setup_tier2 E H S opts w =
     (if \<not> soTier2 opts then (Inr ([], []), id, w)
      else case RequireTier2 (seCwd S) (soCfg opts) of
             Some e \<Rightarrow> (Inl (Wrap ''tier 2 opts.cfg validation error'' e), id, w)
           | None \<Rightarrow>
               (case setupTier2ConfigFiles E H (svTier2 (soCfg opts)) w of
                  (Inl e, w1) \<Rightarrow> (Inl e, id, w1)
                | (Inr files, w1) \<Rightarrow>
                    (case (if soTier1 opts
                           then applyGlobalKopiaPolicies E (rwConfigFileName files) (t2Compression (svTier2 (soCfg opts))) w1
                           else (None, w1)) of
                       (Some e, w2) \<Rightarrow> (Inl (Wrap ''error setting tier2 global Kopia policies'' e), tier2_cleanup H files, w2)
                     | (None, w2) \<Rightarrow>
                         (Inr (rwConfigFileName files, [Tier2KopiaServer (roConfigFileName files), Tier2WALServer]),
                          tier2_cleanup H files, w2))))"

definition setup_server ::
  "'w kopia_env \<Rightarrow> 'w host_env \<Rightarrow> 'w server_env \<Rightarrow> serverOpts \<Rightarrow> 'w \<Rightarrow> (go_error + service list) \<times> ('w \<Rightarrow> 'w) \<times> 'w" where
  "setup_server E H S opts w =
     (case (if soTier1 opts then seNewNatsService S (svQueueDirectory (soCfg opts)) w else (Inr [], w)) of
        (Inl e, w0) \<Rightarrow> (Inl e, id, w0)
      | (Inr queueURL, w0) \<Rightarrow>
          (case setup_tier1 E H opts queueURL w0 of
             (Inl e, c1, w1) \<Rightarrow> (Inl e, c1, w1)
           | (Inr (f1, s1), c1, w1) \<Rightarrow>
               (case setup_tier2 E H S opts w1 of
                  (Inl e, c2, w2) \<Rightarrow> (Inl e, c1 \<circ> c2, w2)
                | (Inr (f2, s2), c2, w2) \<Rightarrow>
                    (Inr ((if soTier1 opts then [NatsService queueURL] else []) @ s1 @ s2 @
                          (if soTier1 opts
                           then [BackupConsumer f1 f2 queueURL, RetentionSweeper f1 f2] @
                                (if soTier2 opts then [Tier2WALConsumer queueURL] else [])
                           else []) @
                          [AdminServer f1 f2 queueURL]),
                     c1 \<circ> c2, w2))))"

definition runServer ::
  "'w kopia_env \<Rightarrow> 'w host_env \<Rightarrow> 'w server_env \<Rightarrow> serverOpts \<Rightarrow> 'w \<Rightarrow> go_error option \<times> 'w" where
  "runServer E H S opts w =
     (case setup_server E H S opts w of
        (Inl e, cleanup, w1) \<Rightarrow> (Some e, cleanup w1)
      | (Inr services, cleanup, w1) \<Rightarrow> (case seServe S services w1 of (r, w2) \<Rightarrow> (r, cleanup w2)))"

section \<open>core/cmd/server/initialize.go\<close>

record ('fs, 'w) start_env =
  stMkdirAll :: "string \<Rightarrow> 'w \<Rightarrow> go_error option \<times> 'w"
  stTier1WalFS :: "string \<Rightarrow> 'fs afero"
  stTier1Entries :: "string \<Rightarrow> 'w \<Rightarrow> go_error + (string \<times> bool) list"
  stConnectBase :: "Tier2Config \<Rightarrow> go_error + ('w \<Rightarrow> go_error + (string \<times> bool) list)"
  stConnectWAL :: "Tier2Config \<Rightarrow> go_error + 'fs afero"

record ('fs, 'w) server_state =
  ssWal1 :: 'fs
  ssWal2 :: 'fs
  ssWorld :: 'w

fun mkdirs :: "('fs, 'w) start_env \<Rightarrow> (string \<times> string) list \<Rightarrow> 'w \<Rightarrow> go_error option \<times> 'w" where
  "mkdirs I [] w = (None, w)"
| "mkdirs I ((dir, what) # dirs) w =
     (case stMkdirAll I dir w of
        (Some e, w') \<Rightarrow> (Some (Wrap (''while ensuring that the '' @ what @ '' exists'') e), w')
      | (None, w') \<Rightarrow> mkdirs I dirs w')"

definition initializeTier1 ::
  "crypto \<Rightarrow> codec \<Rightarrow> randomness \<Rightarrow> 'w kopia_env \<Rightarrow> 'w host_env \<Rightarrow> ('fs, 'w) start_env \<Rightarrow> ServerConfig \<Rightarrow>
   ('fs, 'w) server_state \<Rightarrow> go_error option \<times> ('fs, 'w) server_state" where
  "initializeTier1 cr cd rnd E H I cfg st =
     (if svQueueDirectory cfg = [] then (Some (Sentinel ''queue is required when tier1 is enabled''), st)
      else case mkdirs I [(svQueueDirectory cfg, ''queue directory''),
                          (wsWALPath (t1Wal (svTier1 cfg)), ''tier1 WAL directory''),
                          (bsRepositoryDirectory (t1Base (svTier1 cfg)), ''tier1 repository directory''),
                          (bsCacheDirectory (t1Base (svTier1 cfg)), ''tier1 cache directory'')] (ssWorld st) of
             (Some e, w) \<Rightarrow> (Some e, st\<lparr>ssWorld := w\<rparr>)
           | (None, w) \<Rightarrow>
               (case Run cr cd rnd (NewTier1Options E H (stTier1WalFS I (wsWALPath (t1Wal (svTier1 cfg))))
                         (stTier1Entries I (bsRepositoryDirectory (t1Base (svTier1 cfg)))) (svTier1 cfg)) (ssWal1 st, w) of
                  (r, fs', w') \<Rightarrow> (r, st\<lparr>ssWal1 := fs', ssWorld := w'\<rparr>)))"

definition initializeTier2 ::
  "crypto \<Rightarrow> codec \<Rightarrow> randomness \<Rightarrow> 'w kopia_env \<Rightarrow> 'w host_env \<Rightarrow> ('fs, 'w) start_env \<Rightarrow> ServerConfig \<Rightarrow>
   ('fs, 'w) server_state \<Rightarrow> go_error option \<times> ('fs, 'w) server_state" where
  "initializeTier2 cr cd rnd E H I cfg st =
     (case mkdirs I [(t2CacheDirectory (svTier2 cfg), ''tier2 cache directory'')] (ssWorld st) of
        (Some e, w) \<Rightarrow> (Some e, st\<lparr>ssWorld := w\<rparr>)
      | (None, w) \<Rightarrow>
          (case stConnectBase I (svTier2 cfg) of
             Inl e \<Rightarrow> (Some (Wrap ''error while connecting to tier2 (base)'' e), st\<lparr>ssWorld := w\<rparr>)
           | Inr tier2BaseFS \<Rightarrow>
               (case stConnectWAL I (svTier2 cfg) of
                  Inl e \<Rightarrow> (Some (Wrap ''error while connecting to tier2 (wal)'' e), st\<lparr>ssWorld := w\<rparr>)
                | Inr tier2WALFS \<Rightarrow>
                    (case Run cr cd rnd (NewTier2Options E H tier2WALFS tier2BaseFS (svTier2 cfg)) (ssWal2 st, w) of
                       (r, fs', w') \<Rightarrow> (r, st\<lparr>ssWal2 := fs', ssWorld := w'\<rparr>)))))"

definition initializeRepository ::
  "crypto \<Rightarrow> codec \<Rightarrow> randomness \<Rightarrow> 'w kopia_env \<Rightarrow> 'w host_env \<Rightarrow> ('fs, 'w) start_env \<Rightarrow> serverOpts \<Rightarrow>
   ('fs, 'w) server_state \<Rightarrow> go_error option \<times> ('fs, 'w) server_state" where
  "initializeRepository cr cd rnd E H I opts st =
     (case (if soTier1 opts then initializeTier1 cr cd rnd E H I (soCfg opts) st else (None, st)) of
        (Some e, st1) \<Rightarrow> (Some e, st1)
      | (None, st1) \<Rightarrow> if soTier2 opts then initializeTier2 cr cd rnd E H I (soCfg opts) st1 else (None, st1))"

section \<open>core/cmd/server/start.go\<close>

definition load_keys :: "age_env \<Rightarrow> bool \<Rightarrow> bool \<Rightarrow> ServerConfig \<Rightarrow> go_error + ServerConfig" where
  "load_keys A tier1Enabled tier2Enabled cfg =
     (case (if tier1Enabled then Tier1_LoadEncryptionKey A (svTier1 cfg) else (None, svTier1 cfg)) of
        (Some e, _) \<Rightarrow> Inl (Wrap ''could not load tier1 encryption key'' e)
      | (None, t1) \<Rightarrow>
          (case (if tier2Enabled then Tier2_LoadEncryptionKey A (svTier2 cfg) else (None, svTier2 cfg)) of
             (Some e, _) \<Rightarrow> Inl (Wrap ''could not load tier2 encryption key'' e)
           | (None, t2) \<Rightarrow> Inr (cfg\<lparr>svTier1 := t1, svTier2 := t2\<rparr>)))"

definition startCmd ::
  "age_env \<Rightarrow> crypto \<Rightarrow> codec \<Rightarrow> randomness \<Rightarrow> 'w kopia_env \<Rightarrow> 'w host_env \<Rightarrow> 'w server_env \<Rightarrow> ('fs, 'w) start_env \<Rightarrow>
   bool \<Rightarrow> bool \<Rightarrow> ServerConfig \<Rightarrow> ('fs, 'w) server_state \<Rightarrow> go_error option \<times> ('fs, 'w) server_state" where
  "startCmd A cr cd rnd E H S I tier1Enabled tier2Enabled configuration st =
     (if \<not> tier1Enabled \<and> \<not> tier2Enabled then (Some (Sentinel ''at least one of --tier1 or --tier2 must be enabled''), st)
      else case load_keys A tier1Enabled tier2Enabled configuration of
             Inl e \<Rightarrow> (Some e, st)
           | Inr cfg \<Rightarrow>
               let opts = \<lparr>soTier1 = tier1Enabled, soTier2 = tier2Enabled, soCfg = cfg\<rparr>
               in case initializeRepository cr cd rnd E H I opts st of
                    (Some e, st1) \<Rightarrow> (Some e, st1)
                  | (None, st1) \<Rightarrow>
                      (case runServer E H S opts (ssWorld st1) of (r, w) \<Rightarrow> (r, st1\<lparr>ssWorld := w\<rparr>)))"

section \<open>What the code relies on\<close>

text \<open>
  A name in a directory that is empty or missing does not exist, also after the directory was made.  Connecting to a Kopia
  repository writes a configuration file and changes no repository; setting a policy changes the repository of its
  configuration file only; neither does making a temporary file.
\<close>

definition empty_root :: "'fs afero \<Rightarrow> bool" where
  "empty_root A \<longleftrightarrow>
     (\<forall>s. ReadDir A ''.'' s = Inr [] \<or> ReadDir A ''.'' s = Inl ErrNotExist \<longrightarrow>
        Stat A repositoryConfigFileName (snd (MkdirAll A ''.'' s)) = Some ErrNotExist)"

definition server_laws :: "'w kopia_env \<Rightarrow> 'w host_env \<Rightarrow> 'w kopia_view \<Rightarrow> bool" where
  "server_laws E H V \<longleftrightarrow>
     (\<forall>b args env i w x w'. runCmd E b args env i w = (x, w') \<longrightarrow>
        take 2 (operands args) = [''repository'', ''connect''] \<longrightarrow> same_repos V w w') \<and>
     (\<forall>b args env i w x w'. runCmd E b args env i w = (x, w') \<longrightarrow>
        take 2 (operands args) = [''policy'', ''set''] \<longrightarrow> (\<forall>R. R \<noteq> vRepo V (config_of args) \<longrightarrow> same_repo V R w w')) \<and>
     (\<forall>w r w'. CreateTemp H w = (r, w') \<longrightarrow> same_repos V w w')"

lemma server_lawsD:
  assumes "server_laws E H V"
  shows "runCmd E b args env i w = (x, w') \<Longrightarrow> take 2 (operands args) = [''repository'', ''connect''] \<Longrightarrow> same_repos V w w'"
    and "runCmd E b args env i w = (x, w') \<Longrightarrow> take 2 (operands args) = [''policy'', ''set''] \<Longrightarrow>
      R \<noteq> vRepo V (config_of args) \<Longrightarrow> same_repo V R w w'"
    and "CreateTemp H w = (r, w') \<Longrightarrow> same_repos V w w'"
  using assms unfolding server_laws_def by blast+

section \<open>Lemmas: repositories at the start\<close>

lemma canInit_iff: "canInitRepoDirectory r = Inr b \<Longrightarrow> b \<longleftrightarrow> (r = Inr [] \<or> r = Inl ErrNotExist)"
  by (auto simp: canInitRepoDirectory_def os_IsNotExist_def split: sum.splits if_splits)

lemma verify_ok:
  assumes "verifyExistingRepositories cr cd opts (fs, w) = (r, s')"
  shows "fst s' = fs"
    and "canInitRepoDirectory (ReadDir (optFS (ioWal opts)) ''.'' fs) = Inr False \<Longrightarrow> isl (Open cr cd (ioWal opts) fs) \<Longrightarrow>
      r \<noteq> None \<and> s' = (fs, w)"
    and "canInitRepoDirectory (koReadDir (ioKopia opts) w) = Inr False \<Longrightarrow> fst (koVerifyRepo (ioKopia opts) w) \<noteq> None \<Longrightarrow>
      r \<noteq> None"
    and "r = None \<Longrightarrow> \<exists>b. canInitRepoDirectory (ReadDir (optFS (ioWal opts)) ''.'' fs) = Inr b \<and>
      (b \<or> \<not> isl (Open cr cd (ioWal opts) fs))"
  using assms
  by (auto simp: verifyExistingRepositories_def probe_directories_def split: sum.splits option.splits if_splits prod.splits)

lemma missing_ok:
  assumes "initializeMissingRepositories cr rnd opts (fs, w) = (r, fs', w')"
  shows "canInitRepoDirectory (ReadDir (optFS (ioWal opts)) ''.'' fs) = Inr False \<Longrightarrow> fs' = fs"
    and "r = None \<Longrightarrow> canInitRepoDirectory (ReadDir (optFS (ioWal opts)) ''.'' fs) = Inr True \<Longrightarrow>
      Initialize cr rnd (ioWal opts) fs = (None, fs')"
  using assms
  by (auto simp: initializeMissingRepositories_def probe_directories_def split: sum.splits option.splits if_splits prod.splits)

lemma fresh_repository_opens:
  assumes "fs_laws (optFS options) files" and "crypto_laws cr" and "empty_root (optFS options)"
    and "canInitRepoDirectory (ReadDir (optFS options) ''.'' fs) = Inr True" and init: "Initialize cr rnd options fs = (None, fs')"
  shows "\<not> isl (Open cr cd options fs')"
proof -
  from canInit_iff [OF assms(4)] assms(3)
  have "FileExists (optFS options) repositoryConfigFileName (snd (MkdirAll (optFS options) ''.'' fs)) = Inr False"
    by (auto simp: empty_root_def FileExists_def os_IsNotExist_def)
  from Initialize_created [OF assms(1) init this] obtain config
    where "createNewRepositoryConfiguration cr rnd (optPassword options) = Inr config"
      and "files fs' repositoryConfigFileName = Some (EncodeConfig cr config)" by blast
  from created_repository_opens [OF assms(1,2) this, of cd] show ?thesis by auto
qed

section \<open>Lemmas: policies at the start\<close>

lemma effective_counter_same: "same_repo V R w w' \<Longrightarrow> effective_counter V R w' chain c = effective_counter V R w chain c"
  by (simp add: same_repo_def effective_counter_def split: list.splits)

lemma same_repo_trans: "same_repo V R w w' \<Longrightarrow> same_repo V R w' w'' \<Longrightarrow> same_repo V R w w''"
  by (simp add: same_repo_def)

lemma same_reposD: "same_repos V w w' \<Longrightarrow> same_repo V R w w'"
  by (simp add: same_repos_def)

lemma connect_run:
  assumes "server_laws E H V" and "take 2 (operands args) = [''repository'', ''connect'']"
    and "RunWithLogCapture E b args env i w = ((r, out), w')"
  shows "same_repos V w w'"
  using assms(3) server_lawsD(1) [OF assms(1) _ assms(2)]
  by (auto simp: RunWithLogCapture_def split: prod.splits proc.splits option.splits)

lemma connect_operands:
  "take 2 (operands (buildConnectFSArgs f o1)) = [''repository'', ''connect'']"
  "buildConnectS3Args E f o2 = Inr args \<Longrightarrow> take 2 (operands args) = [''repository'', ''connect'']"
  by (auto simp: buildConnectFSArgs_def buildConnectS3Args_def cli_simps split: sum.splits)

lemma connect_same:
  assumes "server_laws E H V"
  shows "CreateTier1KopiaConfigFile E f cfg1 w = (r, w') \<Longrightarrow> same_repos V w w'"
    and "CreateTier2KopiaConfigFile E f cfg2 ro w = (r, w') \<Longrightarrow> same_repos V w w'"
  using connect_run [OF assms connect_operands(1)] connect_run [OF assms connect_operands(2)]
  by (auto simp: CreateTier1KopiaConfigFile_def ConnectFileSystem_def CreateTier2KopiaConfigFile_def ConnectS3_def
      same_repos_refl split: sum.splits prod.splits)

lemma policy_set_frame:
  assumes "kopia_cli_laws E V" and "server_laws E H V" and "client_run E s args i w = ((r, out), w')"
    and "take 2 (operands args) = [''policy'', ''set'']" and "config_of args = ConfigFile s" and "R \<noteq> vRepo V (ConfigFile s)"
  shows "same_repo V R w w'"
  using assms(1,3)
proof (cases rule: client_run_cases)
  case (run r')
  from server_lawsD(2) [OF assms(2) run(1) assms(4)] assms(5,6) show ?thesis by simp
qed (simp add: same_repo_def)

lemma setPolicyRetention_frame:
  assumes "kopia_cli_laws E V" and "server_laws E H V" and "setPolicyRetention E s t v w = (r, w')"
    and "R \<noteq> vRepo V (ConfigFile s)"
  shows "same_repo V R w w'"
proof -
  let ?args = "buildRetentionPolicyArgs (ConfigFile s) t v"
  obtain e out u where cr: "client_run E s ?args [] w = ((e, out), u)" by (metis surj_pair)
  with assms(3) have "u = w'" by (simp add: setPolicyRetention_def)
  moreover have "take 2 (operands ?args) = [''policy'', ''set'']" "config_of ?args = ConfigFile s"
    by (simp_all add: buildRetentionPolicyArgs_def config_of_def cli_simps)
  ultimately show ?thesis using policy_set_frame [OF assms(1,2) cr] assms(4) by simp
qed

lemma reset_targets_frame:
  assumes "kopia_cli_laws E V" and "server_laws E H V" and "R \<noteq> vRepo V (ConfigFile s)"
  shows "reset_targets E s ts w = (r, w') \<Longrightarrow> same_repo V R w w'"
proof (induction ts arbitrary: w)
  case (Cons t ts)
  obtain e u where 1: "setPolicyRetention E s (policyTarget_String t) ''inherit'' w = (e, u)" by force
  have "same_repo V R w u" by (rule setPolicyRetention_frame [OF assms(1,2) 1 assms(3)])
  with Cons 1 show ?case by (auto split: if_splits option.splits intro: same_repo_trans)
qed (simp add: same_repo_def)

lemma apply_policies_ok:
  assumes "kopia_cli_laws E V" and "server_laws E H V" and "applyGlobalKopiaPolicies E f pol w = (None, w')"
  shows "c \<in> {''--keep-latest'', ''--keep-hourly'', ''--keep-daily'', ''--keep-weekly'', ''--keep-monthly'', ''--keep-annual''} \<Longrightarrow>
      effective_counter V (vRepo V f) w' chain c = Some 0"
    and "R \<noteq> vRepo V f \<Longrightarrow> same_repo V R w w'"
proof -
  from assms(3) obtain b w1 where b: "LookupBinary E = Inr b"
    and 1: "SetKopiaGlobalCompressionPolicy E \<lparr>ConfigFile = f, KopiaBinary = b, Password = []\<rparr> pol w = (None, w1)"
    and 2: "DisableKopiaRetention E \<lparr>ConfigFile = f, KopiaBinary = b, Password = []\<rparr> w1 = (None, w')"
    by (auto simp: applyGlobalKopiaPolicies_def Let_def split: sum.splits prod.splits option.splits)
  let ?s = "\<lparr>ConfigFile = f, KopiaBinary = b, Password = []\<rparr>"
  show "effective_counter V (vRepo V f) w' chain c = Some 0"
    if "c \<in> {''--keep-latest'', ''--keep-hourly'', ''--keep-daily'', ''--keep-weekly'', ''--keep-monthly'', ''--keep-annual''}"
    using retention_disabled [OF assms(1) 2 that] by simp
  assume R: "R \<noteq> vRepo V f"
  let ?args = "buildCompressionPolicyArgs f ''--global'' pol"
  obtain e out u where cr: "client_run E ?s ?args [] w = ((e, out), u)" by (metis surj_pair)
  have "u = w1" using 1 cr by (simp add: SetKopiaGlobalCompressionPolicy_def setKopiaCompressionPolicy_def client_do_def)
  moreover have "take 2 (operands ?args) = [''policy'', ''set'']" "config_of ?args = ConfigFile ?s"
    by (simp_all add: buildCompressionPolicyArgs_def config_of_def cli_simps)
  ultimately have a: "same_repo V R w w1" using policy_set_frame [OF assms(1,2) cr] R by simp
  from 2 obtain w2 ts w3 where 3: "setPolicyRetention E ?s ''--global'' ''0'' w1 = (None, w2)"
    and 4: "listPolicyTargets E ?s w2 = (Inr ts, w3)" and 5: "reset_targets E ?s ts w3 = (None, w')"
    by (auto simp: DisableKopiaRetention_def split: prod.splits option.splits sum.splits)
  have "same_repo V R w1 w2" using setPolicyRetention_frame [OF assms(1,2) 3] R by simp
  moreover have "same_repo V R w2 w3" by (rule same_reposD [OF listPolicyTargets_ok(1) [OF assms(1) 4]])
  moreover have "same_repo V R w3 w'" using reset_targets_frame [OF assms(1,2) _ 5] R by simp
  ultimately show "same_repo V R w w'" using a by (blast intro: same_repo_trans)
qed

lemma setup_tier1_ok:
  assumes "kopia_cli_laws E V" and "server_laws E H V" and "setup_tier1 E H opts q w = (Inr (f1, s1), c1, w1)"
  shows "\<not> soTier1 opts \<Longrightarrow> w1 = w \<and> s1 = []"
    and "soTier1 opts \<Longrightarrow> s1 = [Tier1KopiaServer f1, Tier1WALServer q] \<and>
      (\<exists>w0. applyGlobalKopiaPolicies E f1 (t1Compression (svTier1 (soCfg opts))) w0 = (None, w1))"
  using assms(3)
  by (auto simp: setup_tier1_def setupTier1KopiaConfig_def Let_def
      split: if_splits option.splits sum.splits prod.splits)

lemma setup_tier2_ok:
  assumes "kopia_cli_laws E V" and "server_laws E H V" and "setup_tier2 E H S opts w = (Inr (f2, s2), c2, w2)"
  shows "\<not> soTier2 opts \<Longrightarrow> w2 = w \<and> s2 = []"
    and "soTier2 opts \<Longrightarrow> (\<exists>ro. s2 = [Tier2KopiaServer ro, Tier2WALServer]) \<and>
      (\<exists>w1. same_repos V w w1 \<and>
        (if soTier1 opts then applyGlobalKopiaPolicies E f2 (t2Compression (svTier2 (soCfg opts))) w1 = (None, w2) else w2 = w1))"
proof -
  show "w2 = w \<and> s2 = []" if "\<not> soTier2 opts" using assms(3) that by (simp add: setup_tier2_def)
  assume "soTier2 opts"
  with assms(3) obtain files w1 where 1: "setupTier2ConfigFiles E H (svTier2 (soCfg opts)) w = (Inr files, w1)"
    and f2: "f2 = rwConfigFileName files" and s2: "s2 = [Tier2KopiaServer (roConfigFileName files), Tier2WALServer]"
    and ap: "if soTier1 opts then applyGlobalKopiaPolicies E f2 (t2Compression (svTier2 (soCfg opts))) w1 = (None, w2) else w2 = w1"
    by (auto simp: setup_tier2_def split: if_splits option.splits sum.splits prod.splits)
  from 1 obtain u v x where "CreateTemp H w = (Inr (rwConfigFileName files), u)" "CreateTemp H u = (Inr (roConfigFileName files), v)"
    and "CreateTier2KopiaConfigFile E (rwConfigFileName files) (svTier2 (soCfg opts)) False v = (None, x)"
    and "CreateTier2KopiaConfigFile E (roConfigFileName files) (svTier2 (soCfg opts)) True x = (None, w1)"
    by (auto simp: setupTier2ConfigFiles_def Let_def split: option.splits sum.splits prod.splits)
  then have "same_repos V w w1"
    using server_lawsD(3) [OF assms(2)] connect_same(2) [OF assms(2)] by (meson same_repos_trans)
  with s2 ap show "(\<exists>ro. s2 = [Tier2KopiaServer ro, Tier2WALServer]) \<and>
      (\<exists>w1. same_repos V w w1 \<and>
        (if soTier1 opts then applyGlobalKopiaPolicies E f2 (t2Compression (svTier2 (soCfg opts))) w1 = (None, w2) else w2 = w1))"
    by blast
qed

section \<open>A concrete server\<close>

text \<open>The files in memory, with a listing of the root; a server with both tiers over the in-memory Kopia.\<close>

definition root_entries :: "string \<Rightarrow> memfs \<Rightarrow> go_error + (string \<times> bool) list" where
  "root_entries d s =
     (if d \<noteq> ''.'' then ReadDir mem_afero d s
      else if map_of s ''.'' \<noteq> None then Inl (Sentinel ''not a directory'')
      else Inr (map (\<lambda>p. (p, False)) (filter plain_elem (map fst s))))"

definition root_afero :: "memfs afero" where
  "root_afero = mem_afero\<lparr>ReadDir := root_entries\<rparr>"

definition box_kopia :: "box KopiaOptions" where
  "box_kopia = \<lparr>koReadDir = (\<lambda>w. Inr []), koInitializeRepo = (\<lambda>w. (None, w)), koVerifyRepo = (\<lambda>w. (None, w))\<rparr>"

definition example_init :: "string \<Rightarrow> (memfs, box) InitOptions" where
  "example_init password = \<lparr>ioWal = \<lparr>optFS = root_afero, optPassword = password\<rparr>, ioKopia = box_kopia\<rparr>"

definition server_host :: "box host_env" where
  "server_host = box_host\<lparr>CreateTemp := (\<lambda>w. let f = ''/tmp/'' @ replicate (length (bxFiles w)) (CHR ''k'')
     in (Inr f, w\<lparr>bxFiles := (f, []) # bxFiles w\<rparr>))\<rparr>"

definition example_policy :: CompressionPolicy where
  "example_policy = \<lparr>Algorithm = ''zstd'', MinSize = 0, MaxSize = 0\<rparr>"

definition example_config :: ServerConfig where
  "example_config =
     \<lparr>svTLS = \<lparr>TLSCert = ''c'', TLSKey = ''k'', ClientCACertFile = ''ca''\<rparr>,
      svTier1 = \<lparr>t1EncryptionKeyFile = ''/key'', t1IdentityFile = ''/id'', t1EncryptionKey = ''secret'',
        t1Base = \<lparr>bsCacheDirectory = ''/cache/1'', bsRepositoryDirectory = ''/repo'', bsListenAddress = '':1''\<rparr>,
        t1Wal = \<lparr>wsListenAddress = '':2'', wsWALPath = ''/wal''\<rparr>, t1Compression = example_policy\<rparr>,
      svTier2 = \<lparr>t2EncryptionKeyFile = ''/key'', t2IdentityFile = ''/id'', t2EncryptionKey = ''secret'',
        t2BaseListenAddress = '':3'', t2WALListenAddress = '':4'', t2CacheDirectory = ''/cache/../cache/2'',
        t2Compression = example_policy,
        t2S3 = \<lparr>s3cEnabled = True, s3cBucketName = ''b'', s3cEndpoint = [], s3cRegion = ''r'', s3cPrefix = [],
          s3cAccessKeyID = [], s3cSecretAccessKey = [], s3cSessionToken = [], s3cCustomCABundleFile = []\<rparr>\<rparr>,
      svQueueDirectory = ''/queue''\<rparr>"

definition example_services :: "box server_env" where
  "example_services = \<lparr>seNewNatsService = (\<lambda>d w. (Inr ''nats'', w)), seServe = (\<lambda>l w. (None, w)), seCwd = Inr ''/''\<rparr>"

definition example_start :: "(go_error + service list) \<times> (box \<Rightarrow> box) \<times> box" where
  "example_start = setup_server (box_env (\<lambda>b. Inl EOF)) server_host example_services
     \<lparr>soTier1 = True, soTier2 = True, soCfg = example_config\<rparr> example_box"

lemma fs_laws_ReadDir:
  assumes "fs_laws A files"
    and "\<forall>d s es. f d s = Inr es \<longrightarrow> (\<forall>(n, isDir) \<in> set es. plain_elem n)" and "\<forall>d s es. f d s = Inr es \<longrightarrow> files s d = None"
    and "\<forall>ds n s es. f (join_with ''/'' ds) s = Inr es \<longrightarrow> ds \<noteq> [] \<longrightarrow> (\<forall>d \<in> set ds. plain_elem d) \<longrightarrow> plain_elem n \<longrightarrow>
        files s (join_with ''/'' (ds @ [n])) \<noteq> None \<longrightarrow> (n, False) \<in> set es"
  shows "fs_laws (A\<lparr>ReadDir := f\<rparr>) files"
  using assms unfolding fs_laws_def by (elim conjE) (intro conjI; simp)

lemma root_fs_laws: "fs_laws root_afero mem_files"
  unfolding root_afero_def
proof (rule fs_laws_ReadDir [OF mem_fs_laws])
  have mem: "fs_laws mem_afero mem_files" by (rule mem_fs_laws)
  show "\<forall>d s es. root_entries d s = Inr es \<longrightarrow> (\<forall>(n, isDir) \<in> set es. plain_elem n)"
    using fs_lawsD(13) [OF mem] by (fastforce simp: root_entries_def split: if_splits)
  show "\<forall>d s es. root_entries d s = Inr es \<longrightarrow> mem_files s d = None"
    using fs_lawsD(16) [OF mem] by (auto simp: root_entries_def mem_files_def split: if_splits)
  have "join_with ''/'' ds \<noteq> ''.''" if "ds \<noteq> []" "\<forall>d \<in> set ds. plain_elem d" for ds
  proof
    assume "join_with ''/'' ds = ''.''"
    with split_join_plain [OF that(1)] that(2) have "ds = [''.'']" by simp
    with that(2) show False by (simp add: plain_elem_def)
  qed
  then show "\<forall>ds n s es. root_entries (join_with ''/'' ds) s = Inr es \<longrightarrow> ds \<noteq> [] \<longrightarrow> (\<forall>d \<in> set ds. plain_elem d) \<longrightarrow> plain_elem n \<longrightarrow>
        mem_files s (join_with ''/'' (ds @ [n])) \<noteq> None \<longrightarrow> (n, False) \<in> set es"
    using fs_lawsD(17) [OF mem] by (intro allI impI) (auto simp: root_entries_def)
qed

lemma root_empty: "empty_root root_afero"
  unfolding empty_root_def
proof (intro allI impI)
  fix s :: memfs
  assume "ReadDir root_afero ''.'' s = Inr [] \<or> ReadDir root_afero ''.'' s = Inl ErrNotExist"
  then have "filter plain_elem (map fst s) = []" by (auto simp: root_afero_def root_entries_def split: if_splits)
  then have "map_of s repositoryConfigFileName = None"
    by (force simp: filter_empty_conv map_of_eq_None_iff plain_elem_def repositoryConfigFileName_def)
  then show "Stat root_afero repositoryConfigFileName (snd (MkdirAll root_afero ''.'' s)) = Some ErrNotExist"
    by (simp add: root_afero_def mem_afero_def)
qed

lemma box_server_laws: "server_laws (box_env u) server_host box_view"
  unfolding server_laws_def
proof (intro conjI allI impI)
  fix b args env i w x w'
  assume "runCmd (box_env u) b args env i w = (x, w')" and o: "take 2 (operands args) = [''repository'', ''connect'']"
  then have "w' = w" by (cases "operands args" rule: list.exhaust; cases "tl (operands args)" rule: list.exhaust)
    (auto simp: box_env_def bx_run_def Let_def split: if_splits)
  then show "same_repos box_view w w'" by (simp add: same_repos_refl)
next
  fix b args env i w x w' R
  assume "runCmd (box_env u) b args env i w = (x, w')" and "take 2 (operands args) = [''policy'', ''set'']"
    and "R \<noteq> vRepo box_view (config_of args)"
  then show "same_repo box_view R w w'"
    by (cases "operands args" rule: list.exhaust; cases "tl (operands args)" rule: list.exhaust)
      (auto simp: box_env_def bx_run_def bx_policy_def same_repo_def box_view_def bx_raws_def bx_counter_def Let_def fun_eq_iff
        split: if_splits option.splits)
next
  fix w r w'
  assume "CreateTemp server_host w = (r, w')"
  then show "same_repos box_view w w'"
    by (auto simp: server_host_def Let_def intro!: box_same)
qed

lemma box_client_run:
  "client_run (box_env u) s args i w =
     (case bx_run (KopiaBinary s) args (kopiaEnvironmentVariables (box_env u) s) i w of
        (PipeFailed e, w') \<Rightarrow> ((Some (Wrap ''failed to create stderr pipe'' e), []), w')
      | (StartFailed e, w') \<Rightarrow> ((Some (Wrap ''failed to start command'' e), []), w')
      | (Waited (Some e) out, w') \<Rightarrow> ((Some (Wrap ''command failed'' e), out), w')
      | (Waited None out, w') \<Rightarrow> ((None, out), w'))"
  by (simp add: client_run_def RunWithLogCapture_def box_env_def)

lemma box_set_retention:
  assumes "t = ''--global'' \<or> bx_target_ok t"
  shows "\<exists>w'. setPolicyRetention (box_env u) s t v w = (None, w') \<and> bxFiles w' = bxFiles w"
  using assms
  by (auto simp: setPolicyRetention_def box_client_run bx_run_def buildRetentionPolicyArgs_def kopiaRetentionCounters_def
      cli_simps bx_policy_def bx_target_ok_def Let_def)

lemma box_reset:
  assumes "\<forall>t \<in> set ts. bx_target_ok t"
  shows "\<exists>w'. reset_targets (box_env u) s (map bx_target ts) w = (None, w') \<and> bxFiles w' = bxFiles w"
  using assms
proof (induction ts arbitrary: w)
  case (Cons t ts)
  from Cons.prems have t: "bx_target_ok t" by simp
  from box_set_retention [of t u s "''inherit''" w] t obtain v where
    v: "setPolicyRetention (box_env u) s t ''inherit'' w = (None, v)" "bxFiles v = bxFiles w" by blast
  with Cons bx_target_String [OF t] show ?case by (fastforce)
qed simp

lemma box_apply:
  "\<exists>w'. applyGlobalKopiaPolicies (box_env u) f p w = (None, w') \<and> bxFiles w' = bxFiles w"
proof -
  let ?s = "\<lparr>ConfigFile = f, KopiaBinary = ''/bin/kopia'', Password = []\<rparr>"
  have policies: "UnmarshalPolicies (box_env u) b = Inr (map bx_target (dec_strings [] b))" for b by (simp add: box_env_def)
  have b: "LookupBinary (box_env u) = Inr ''/bin/kopia''" by (simp add: LookupBinary_def box_env_def Binary_def)
  obtain w1 where 1: "SetKopiaGlobalCompressionPolicy (box_env u) ?s p w = (None, w1)" "bxFiles w1 = bxFiles w"
    by (auto simp: SetKopiaGlobalCompressionPolicy_def setKopiaCompressionPolicy_def client_do_def box_client_run bx_run_def
        buildCompressionPolicyArgs_def cli_simps bx_policy_def Let_def)
  obtain w2 where 2: "setPolicyRetention (box_env u) ?s ''--global'' ''0'' w1 = (None, w2)" "bxFiles w2 = bxFiles w1"
    using box_set_retention by blast
  have 3: "listPolicyTargets (box_env u) ?s w2 = (Inr (map bx_target (filter bx_target_ok (bxTargets w2 f))), w2)"
    by (simp add: listPolicyTargets_def box_client_run bx_run_def cli_simps config_of_def parsePolicyTargets_def policies
        dec_enc_strings Let_def)
  obtain w3 where "reset_targets (box_env u) ?s (map bx_target (filter bx_target_ok (bxTargets w2 f))) w2 = (None, w3)"
      "bxFiles w3 = bxFiles w2"
    using box_reset [of "filter bx_target_ok (bxTargets w2 f)"] by fastforce
  with b 1 2 3 show ?thesis by (simp add: applyGlobalKopiaPolicies_def DisableKopiaRetention_def Let_def)
qed

lemma box_connect:
  "CreateTier1KopiaConfigFile (box_env u) f cfg1 w = (None, w)"
  "s3cEndpoint (t2S3 cfg2) = [] \<Longrightarrow> CreateTier2KopiaConfigFile (box_env u) f cfg2 ro w = (None, w)"
  by (simp_all add: CreateTier1KopiaConfigFile_def CreateTier2KopiaConfigFile_def LookupBinary_def box_env_def Binary_def
      ConnectFileSystem_def ConnectS3_def RunWithLogCapture_def bx_run_def buildConnectFSArgs_def buildConnectS3Args_def
      getCommonS3Args_def s3_options_def cli_simps Let_def)

section \<open>Properties\<close>

text \<open>
  C21: a server never damages the repositories it finds.  With a password that does not open the existing WAL
  repository, Run fails and changes nothing; when the existing Kopia repository does not open, it fails and
  leaves the WAL side alone; an existing WAL repository is never initialized again; and when Run succeeds, the
  WAL repository, old or new, opens with the password.
\<close>

theorem startup_protects_repositories:
  assumes "fs_laws (optFS (ioWal opts)) files" and "crypto_laws cr" and "empty_root (optFS (ioWal opts))"
    and run: "Run cr cd rnd opts (fs, w) = (r, fs', w')"
  shows "((\<exists>e es. ReadDir (optFS (ioWal opts)) ''.'' fs = Inr (e # es)) \<longrightarrow>
       fs' = fs \<and> (isl (Open cr cd (ioWal opts) fs) \<longrightarrow> r \<noteq> None \<and> w' = w)) \<and>
    ((\<exists>e es. koReadDir (ioKopia opts) w = Inr (e # es)) \<longrightarrow> fst (koVerifyRepo (ioKopia opts) w) \<noteq> None \<longrightarrow>
       r \<noteq> None \<and> fs' = fs) \<and>
    (r = None \<longrightarrow> \<not> isl (Open cr cd (ioWal opts) fs'))"
proof -
  obtain rv sv where v: "verifyExistingRepositories cr cd opts (fs, w) = (rv, sv)" by (metis surj_pair)
  obtain wv where sv: "sv = (fs, wv)" using verify_ok(1) [OF v] by (cases sv) simp
  note V = verify_ok(2-4) [OF v]
  have full: "canInitRepoDirectory x = Inr False" if "\<exists>e es. x = Inr (e # es)" for x
    using that by (auto simp: canInitRepoDirectory_def)
  have failed: "rv \<noteq> None \<Longrightarrow> r \<noteq> None \<and> (fs', w') = sv" using run v by (auto simp: Run_def)
  have passed: "rv = None \<Longrightarrow> initializeMissingRepositories cr rnd opts (fs, wv) = (r, fs', w')"
    using run v sv by (simp add: Run_def)
  have 1: "fs' = fs \<and> (isl (Open cr cd (ioWal opts) fs) \<longrightarrow> r \<noteq> None \<and> w' = w)"
    if "\<exists>e es. ReadDir (optFS (ioWal opts)) ''.'' fs = Inr (e # es)"
    using V(1) [OF full [OF that]] failed sv missing_ok(1) [OF passed full [OF that]] by (cases rv) auto
  have 2: "r \<noteq> None \<and> fs' = fs"
    if "\<exists>e es. koReadDir (ioKopia opts) w = Inr (e # es)" "fst (koVerifyRepo (ioKopia opts) w) \<noteq> None"
    using V(2) [OF full [OF that(1)] that(2)] failed sv by auto
  have 3: "\<not> isl (Open cr cd (ioWal opts) fs')" if ok: "r = None"
  proof -
    from failed ok have rv: "rv = None" by (cases rv) auto
    from V(3) [OF rv] obtain b where b: "canInitRepoDirectory (ReadDir (optFS (ioWal opts)) ''.'' fs) = Inr b"
      and op: "b \<or> \<not> isl (Open cr cd (ioWal opts) fs)" by blast
    show ?thesis
    proof (cases b)
      case True
      with b fresh_repository_opens [OF assms(1-3)] missing_ok(2) [OF passed [OF rv] ok] show ?thesis by simp
    next
      case False
      with b op missing_ok(1) [OF passed [OF rv]] show ?thesis by simp
    qed
  qed
  from 1 2 3 show ?thesis by blast
qed

theorem startup_protects_repositories_witness:
  "Run plain_crypto plain_codec example_random (example_init ''pw'') ([], example_box) =
     (None, snd (Run plain_crypto plain_codec example_random (example_init ''pw'') ([], example_box))) \<and>
   \<not> isl (Open plain_crypto plain_codec \<lparr>optFS = root_afero, optPassword = ''pw''\<rparr>
     (fst (snd (Run plain_crypto plain_codec example_random (example_init ''pw'') ([], example_box)))))"
proof -
  let ?run = "Run plain_crypto plain_codec example_random (example_init ''pw'') ([], example_box)"
  have "fst ?run = None"
    by (simp add: Run_def verifyExistingRepositories_def initializeMissingRepositories_def probe_directories_def
        canInitRepoDirectory_def example_init_def box_kopia_def root_afero_def root_entries_def mem_afero_def
        Initialize_def FileExists_def os_IsNotExist_def Let_def example_random_def
        createNewRepositoryConfiguration_def createNewMasterKey_def envelopeMasterKey_def plain_crypto_def)
  then have r: "?run = (None, fst (snd ?run), snd (snd ?run))" by (simp add: prod_eq_iff)
  have l: "fs_laws (optFS (ioWal (example_init ''pw''))) mem_files" "empty_root (optFS (ioWal (example_init ''pw'')))"
    by (simp_all add: example_init_def root_fs_laws root_empty)
  from startup_protects_repositories [OF l(1) plain_crypto_laws l(2) r] r show ?thesis
    by (simp add: example_init_def)
qed



end
