(* ===== verification/Admin_Server.thy ===== *)
theory Admin_Server
  imports Klio_Config
begin

text \<open>
  The administration server (core/internal/server/admin): the calls over the Unix socket that list and delete
  backups, refresh the tier 2 Kopia server, and list, retry or discard the failed tasks of the queue.

  A call returns a gRPC status error or its answer.  The stream manager is the one of the theory
  \<open>Task_Queue\<close>, the clients of the tiers are those of \<open>Base_Backup\<close>.  Encoding answers
  (JSON, protobuf timestamps) is the identity of the decoded values; the gRPC server and the socket are not modelled.
\<close>

section \<open>core/internal/kopia/config.go and FromKopiaConfig\<close>

record ConfigData =
  cdHostName :: string
  cdUserName :: string

definition ParseConfigFile ::
  "(string \<Rightarrow> 'w \<Rightarrow> go_error + bytes) \<Rightarrow> (bytes \<Rightarrow> go_error + ConfigData) \<Rightarrow> string \<Rightarrow> 'w \<Rightarrow> go_error + ConfigData" where
  "ParseConfigFile openFile decode configFile w =
     (case openFile configFile w of
        Inl e \<Rightarrow> Inl (Wrap ''while opening config file'' e)
      | Inr b \<Rightarrow> (case decode b of Inl e \<Rightarrow> Inl (Wrap ''while reading from config file'' e) | Inr d \<Rightarrow> Inr d))"

definition FromKopiaConfig ::
  "'w kopia_env \<Rightarrow> (bytes \<Rightarrow> go_error + ConfigData) \<Rightarrow> string \<Rightarrow> 'w \<Rightarrow> go_error + Connection" where
  "FromKopiaConfig E decode configFile w =
     (case LookupBinary E of
        Inl e \<Rightarrow> Inl e
      | Inr kopiaBinary \<Rightarrow>
          (case ParseConfigFile (ReadAll E) decode configFile w of
             Inl e \<Rightarrow> Inl e
           | Inr configInfo \<Rightarrow>
               Inr \<lparr>hostName = cdHostName configInfo, userName = cdUserName configInfo,
                    conKopia = \<lparr>ConfigFile = configFile, KopiaBinary = kopiaBinary, Password = []\<rparr>\<rparr>))"

section \<open>core/internal/server/admin/admin.go: the server\<close>

record AdminOptions =
  aoTier1KopiaConfigFile :: string
  aoTier2KopiaConfigFile :: string
  aoRunID :: string
  aoRunSecret :: string
  aoServerTLSCertFile :: string
  aoTier2ServerAddress :: string
  aoQueueURL :: string

record AdminServer =
  adOpts :: AdminOptions
  adTier1KopiaClient :: "Client option"
  adTier2KopiaClient :: "Client option"
  adTier1 :: "Connection option"
  adTier2 :: "Connection option"

definition clientFromConfigFile ::
  "'w kopia_env \<Rightarrow> (bytes \<Rightarrow> go_error + ConfigData) \<Rightarrow> string \<Rightarrow> 'w \<Rightarrow> go_error + Connection option" where
  "clientFromConfigFile E decode configFile w =
     (if configFile = [] then Inr None
      else case FromKopiaConfig E decode configFile w of Inl e \<Rightarrow> Inl e | Inr c \<Rightarrow> Inr (Some c))"

definition admin_New ::
  "'w kopia_env \<Rightarrow> (bytes \<Rightarrow> go_error + ConfigData) \<Rightarrow> AdminOptions \<Rightarrow> 'w \<Rightarrow> go_error + AdminServer" where
  "admin_New E decode opts w =
     (case LookupBinary E of
        Inl e \<Rightarrow> Inl e
      | Inr kopiaBinary \<Rightarrow>
          (case clientFromConfigFile E decode (aoTier1KopiaConfigFile opts) w of
             Inl e \<Rightarrow> Inl e
           | Inr tier1 \<Rightarrow>
               (case clientFromConfigFile E decode (aoTier2KopiaConfigFile opts) w of
                  Inl e \<Rightarrow> Inl e
                | Inr tier2 \<Rightarrow>
                    Inr \<lparr>adOpts = opts,
                      adTier1KopiaClient = Some \<lparr>ConfigFile = aoTier1KopiaConfigFile opts, KopiaBinary = kopiaBinary, Password = []\<rparr>,
                      adTier2KopiaClient = Some \<lparr>ConfigFile = aoTier2KopiaConfigFile opts, KopiaBinary = kopiaBinary, Password = []\<rparr>,
                      adTier1 = tier1, adTier2 = tier2\<rparr>)))"

definition AdminServer_Serve ::
  "'w kopia_env \<Rightarrow> (bytes \<Rightarrow> go_error + ConfigData) \<Rightarrow> ServerConfig \<Rightarrow> string \<Rightarrow> string \<Rightarrow> string \<Rightarrow> string \<Rightarrow> string \<Rightarrow> 'w \<Rightarrow>
   go_error + AdminServer" where
  "AdminServer_Serve E decode cfg f1 f2 runID runSecret queueURL w =
     admin_New E decode \<lparr>aoTier1KopiaConfigFile = f1, aoTier2KopiaConfigFile = f2, aoRunID = runID, aoRunSecret = runSecret,
       aoServerTLSCertFile = TLSCert (svTLS cfg), aoTier2ServerAddress = ''https://'' @ t2BaseListenAddress (svTier2 cfg),
       aoQueueURL = queueURL\<rparr> w"

subsection \<open>Backups\<close>

definition admin_ListBackups ::
  "'w kopia_env \<Rightarrow> 'w host_env \<Rightarrow> AdminServer \<Rightarrow> 'w \<Rightarrow> (go_error + BackupList) \<times> 'w" where
  "admin_ListBackups E H s w =
     (case multi_ListBackups \<lparr>mcTier1 = map_option (connection_client E H) (adTier1 s),
              mcTier2 = map_option (connection_client E H) (adTier2 s)\<rparr> [] w of
        (Inl e, w') \<Rightarrow> (Inl (Status Internal ''while listing backups''), w')
      | (Inr backupList, w') \<Rightarrow> (Inr backupList, w'))"

definition admin_Refresh :: "'w kopia_env \<Rightarrow> AdminServer \<Rightarrow> 'w \<Rightarrow> go_error option \<times> 'w" where
  "admin_Refresh E s w =
     (case adTier2KopiaClient s of
        None \<Rightarrow> (None, w)
      | Some k \<Rightarrow>
          (case cli_RefreshServer E k \<lparr>roServerControlUser = aoRunID (adOpts s), roServerControlPassword = aoRunSecret (adOpts s),
                  roServerCertFile = aoServerTLSCertFile (adOpts s), roAddress = aoTier2ServerAddress (adOpts s)\<rparr> w of
             (Some e, w') \<Rightarrow> (Some (Status Internal ''while refreshing tier2 server''), w')
           | (None, w') \<Rightarrow> (None, w')))"

datatype grpc_tier = TIER_UNSPECIFIED | TIER_1 | TIER_2 | UnknownTier nat

definition deleteBackupFromTier ::
  "'w kopia_env \<Rightarrow> 'w host_env \<Rightarrow> AdminServer \<Rightarrow> grpc_tier \<Rightarrow> string \<Rightarrow> string \<Rightarrow> 'w \<Rightarrow> go_error option \<times> 'w" where
  "deleteBackupFromTier E H s tier clusterName backupName w =
     (case tier of
        TIER_1 \<Rightarrow>
          (case adTier1 s of
             None \<Rightarrow> (Some (Status FailedPrecondition ''tier1 is not configured''), w)
           | Some c \<Rightarrow>
               (case DeleteBackup (deleteAttempts H) (store_of E c) clusterName backupName w of
                  (Some e, w') \<Rightarrow> (Some (Status Internal ''while deleting backup from tier1''), w')
                | (None, w') \<Rightarrow> (None, w')))
      | TIER_2 \<Rightarrow>
          (case adTier2 s of
             None \<Rightarrow> (Some (Status FailedPrecondition ''tier2 is not configured''), w)
           | Some c \<Rightarrow>
               (case DeleteBackup (deleteAttempts H) (store_of E c) clusterName backupName w of
                  (Some e, w') \<Rightarrow> (Some (Status Internal ''while deleting backup from tier2''), w')
                | (None, w') \<Rightarrow> (None, w')))
      | TIER_UNSPECIFIED \<Rightarrow> (Some (Status InvalidArgument ''TIER_UNSPECIFIED is not a valid tier''), w)
      | UnknownTier n \<Rightarrow> (Some (Status InvalidArgument ''unknown tier''), w))"

fun delete_from_tiers ::
  "'w kopia_env \<Rightarrow> 'w host_env \<Rightarrow> AdminServer \<Rightarrow> grpc_tier list \<Rightarrow> string \<Rightarrow> string \<Rightarrow> 'w \<Rightarrow> go_error option \<times> 'w" where
  "delete_from_tiers E H s [] clusterName backupName w = (None, w)"
| "delete_from_tiers E H s (tier # tiers) clusterName backupName w =
     (case deleteBackupFromTier E H s tier clusterName backupName w of
        (Some e, w') \<Rightarrow> (Some e, w')
      | (None, w') \<Rightarrow> delete_from_tiers E H s tiers clusterName backupName w')"

record DeleteBackupRequest =
  drClusterName :: string
  drBackupName :: string
  drTiers :: "grpc_tier list"

definition admin_DeleteBackup ::
  "'w kopia_env \<Rightarrow> 'w host_env \<Rightarrow> AdminServer \<Rightarrow> DeleteBackupRequest \<Rightarrow> 'w \<Rightarrow> go_error option \<times> 'w" where
  "admin_DeleteBackup E H s req w =
     (if drBackupName req = [] then (Some (Status InvalidArgument ''backup_name must be specified''), w)
      else if drClusterName req = [] then (Some (Status InvalidArgument ''cluster_name must be specified''), w)
      else if drTiers req = [] then (Some (Status InvalidArgument ''at least one tier must be specified''), w)
      else delete_from_tiers E H s (drTiers req) (drClusterName req) (drBackupName req) w)"

subsection \<open>The queue\<close>

text \<open>The stream manager is there when the server was started with a queue.\<close>

definition requireStreamMgr :: "'n manager option \<Rightarrow> go_error + 'n manager" where
  "requireStreamMgr mgr =
     (case mgr of
        None \<Rightarrow> Inl (Status Unavailable ''queue operations not available: server not configured with Stream Manager'')
      | Some m \<Rightarrow> Inr m)"

definition clusterOptions :: "string \<Rightarrow> queue_option list" where
  "clusterOptions clusterName = (if clusterName = [] then [] else [WithCluster clusterName])"

definition failedWALSelection :: "string \<Rightarrow> string list \<Rightarrow> go_error + queue_option list" where
  "failedWALSelection clusterName wals =
     (if wals \<noteq> [] \<and> clusterName = [] then Inl (Status InvalidArgument ''WAL names require a cluster name'')
      else Inr (clusterOptions clusterName @ (if wals \<noteq> [] then [WithWALs wals] else [])))"

definition QueueStatus :: "'n jetstream \<Rightarrow> 'n manager option \<Rightarrow> (go_error + queue_status) \<times> 'n manager option" where
  "QueueStatus js mgr =
     (case requireStreamMgr mgr of
        Inl e \<Rightarrow> (Inl e, mgr)
      | Inr m \<Rightarrow>
          (case GetStatus js m of
             (Inl e, m') \<Rightarrow> (Inl (Status Internal ''while getting queue status''), Some m')
           | (Inr q, m') \<Rightarrow> (Inr q, Some m')))"

definition QueueListFailedBackups ::
  "'n jetstream \<Rightarrow> BackupTask task_codec \<Rightarrow> (BackupTask FailedTask list \<Rightarrow> BackupTask FailedTask list) \<Rightarrow> string \<Rightarrow>
   'n manager option \<Rightarrow> (go_error + (string \<times> int) list) \<times> 'n manager option" where
  "QueueListFailedBackups js tc srt clusterName mgr =
     (case requireStreamMgr mgr of
        Inl e \<Rightarrow> (Inl e, mgr)
      | Inr m \<Rightarrow>
          (case ListFailedBackupTasks js tc srt (clusterOptions clusterName) m of
             (Inl e, m') \<Rightarrow> (Inl (Status Internal ''while getting queue failed backups''), Some m')
           | (Inr tasks, m') \<Rightarrow> (Inr (map (\<lambda>t. (btClusterName (Task t), Timestamp t)) tasks), Some m')))"

definition QueueListFailedWALs ::
  "'n jetstream \<Rightarrow> WALTask task_codec \<Rightarrow> (WALTask FailedTask list \<Rightarrow> WALTask FailedTask list) \<Rightarrow> string \<Rightarrow>
   'n manager option \<Rightarrow> (go_error + (string \<times> string \<times> uint64 \<times> int) list) \<times> 'n manager option" where
  "QueueListFailedWALs js tc srt clusterName mgr =
     (case requireStreamMgr mgr of
        Inl e \<Rightarrow> (Inl e, mgr)
      | Inr m \<Rightarrow>
          (case ListFailedWALTasks js tc srt (clusterOptions clusterName) m of
             (Inl e, m') \<Rightarrow> (Inl (Status Internal ''while getting queue failed wal files''), Some m')
           | (Inr tasks, m') \<Rightarrow>
               (Inr (map (\<lambda>t. (wtClusterName (Task t), wtWALName (Task t), Sequence t, Timestamp t)) tasks), Some m')))"

definition QueueRetryWALs ::
  "'n jetstream \<Rightarrow> WALTask task_codec \<Rightarrow> (WALTask FailedTask list \<Rightarrow> WALTask FailedTask list) \<Rightarrow> string \<Rightarrow> string list \<Rightarrow>
   'n manager option \<Rightarrow> go_error option \<times> 'n manager option" where
  "QueueRetryWALs js tc srt clusterName wals mgr =
     (case requireStreamMgr mgr of
        Inl e \<Rightarrow> (Some e, mgr)
      | Inr m \<Rightarrow>
          (case failedWALSelection clusterName wals of
             Inl e \<Rightarrow> (Some e, mgr)
           | Inr opts \<Rightarrow>
               (case RetryFailedWALTasks js tc srt opts m of
                  (Some e, m') \<Rightarrow> (Some (Status Internal ''while retrying failed WALs''), Some m')
                | (None, m') \<Rightarrow> (None, Some m'))))"

definition QueueDiscardWALs ::
  "'n jetstream \<Rightarrow> WALTask task_codec \<Rightarrow> (WALTask FailedTask list \<Rightarrow> WALTask FailedTask list) \<Rightarrow> string \<Rightarrow> string list \<Rightarrow>
   'n manager option \<Rightarrow> (go_error + uint64) \<times> 'n manager option" where
  "QueueDiscardWALs js tc srt clusterName wals mgr =
     (case requireStreamMgr mgr of
        Inl e \<Rightarrow> (Inl e, mgr)
      | Inr m \<Rightarrow>
          (case failedWALSelection clusterName wals of
             Inl e \<Rightarrow> (Inl e, mgr)
           | Inr opts \<Rightarrow>
               (case DiscardFailedWALTasks js tc srt opts m of
                  ((_, Some e), m') \<Rightarrow> (Inl (Status Internal ''while discarding failed WALs''), Some m')
                | ((discarded, None), m') \<Rightarrow> (Inr discarded, Some m'))))"

definition QueueRetryBackups ::
  "'n jetstream \<Rightarrow> BackupTask task_codec \<Rightarrow> (BackupTask FailedTask list \<Rightarrow> BackupTask FailedTask list) \<Rightarrow> string \<Rightarrow>
   'n manager option \<Rightarrow> go_error option \<times> 'n manager option" where
  "QueueRetryBackups js tc srt clusterName mgr =
     (case requireStreamMgr mgr of
        Inl e \<Rightarrow> (Some e, mgr)
      | Inr m \<Rightarrow>
          (case RetryFailedBackupTasks js tc srt (clusterOptions clusterName) m of
             (Some e, m') \<Rightarrow> (Some (Status Internal ''while retrying failed backups''), Some m')
           | (None, m') \<Rightarrow> (None, Some m')))"

definition QueueDiscardBackups ::
  "'n jetstream \<Rightarrow> BackupTask task_codec \<Rightarrow> (BackupTask FailedTask list \<Rightarrow> BackupTask FailedTask list) \<Rightarrow> string \<Rightarrow>
   'n manager option \<Rightarrow> (go_error + uint64) \<times> 'n manager option" where
  "QueueDiscardBackups js tc srt clusterName mgr =
     (case requireStreamMgr mgr of
        Inl e \<Rightarrow> (Inl e, mgr)
      | Inr m \<Rightarrow>
          (case DiscardFailedBackupTasks js tc srt (clusterOptions clusterName) m of
             ((_, Some e), m') \<Rightarrow> (Inl (Status Internal ''while discarding failed backups''), Some m')
           | ((discarded, None), m') \<Rightarrow> (Inr discarded, Some m')))"

section \<open>Lemmas\<close>

text \<open>What every call of a Kopia client keeps, deleting a backup keeps.\<close>

lemma deleteSnapshots_keeps:
  assumes "\<And>i k r k'. DeleteSnapshot K i k = (r, k') \<Longrightarrow> f k' = f k"
  shows "deleteSnapshots K es err k = (r, k') \<Longrightarrow> f k' = f k"
  by (induction es arbitrary: err k) (auto dest!: assms split: prod.splits option.splits)

lemma delete_attempts_keeps:
  assumes "\<And>i k r k'. DeleteSnapshot K i k = (r, k') \<Longrightarrow> f k' = f k"
    and "\<And>t k r k'. ListSnapshots K t k = (r, k') \<Longrightarrow> f k' = f k"
  shows "delete_attempts n K h b k = (r, k') \<Longrightarrow> f k' = f k"
proof (induction n arbitrary: k)
  case (Suc n)
  obtain l k1 where 1: "ListSnapshots K [(BackupNameTagName, b)] k = (l, k1)" by force
  have f1: "f k1 = f k" by (rule assms(2) [OF 1])
  show ?case
  proof (cases l)
    case (Inl e)
    with Suc.prems 1 f1 show ?thesis by simp
  next
    case (Inr es)
    let ?mine = "filter (\<lambda>e. \<not> (Host (Source e) \<noteq> h)) es"
    obtain e k2 where 2: "deleteSnapshots K ?mine None k1 = (e, k2)" by force
    have f2: "f k2 = f k1" by (rule deleteSnapshots_keeps [OF assms(1) 2])
    from Suc.prems 1 Inr 2 f1 f2 Suc.IH [of k2] show ?thesis
      by (auto simp: Let_def split: if_splits option.splits)
  qed
qed simp

lemma cli_delete_frame:
  assumes "kopia_cli_laws E V" and "cli_DeleteSnapshot E s i w = (r, w')" and "R \<noteq> vRepo V (ConfigFile s)"
  shows "vSnaps V R w' = vSnaps V R w"
  using assms(1,2) [unfolded cli_DeleteSnapshot_def]
proof (cases rule: client_do_cases)
  case (run r' out)
  let ?args = "[''snapshot'', ''delete'', ''--delete'', ''--config-file='' @ ConfigFile s, ''--disable-file-logging'', i]"
  have "operands ?args = [''snapshot'', ''delete''] @ operands [i]" "config_of ?args = ConfigFile s"
    by (simp_all add: cli_simps config_of_def)
  then have "same_repo V R w w'"
    using cli_lawsD(3) [OF assms(1)] run(1) assms(3) unfolding delete_law_def by metis
  then show ?thesis by (simp add: same_repo_def)
qed simp

text \<open>A deletion touches only snapshots of the backup, in any repository.\<close>

definition only_backup_removed :: "'w kopia_view \<Rightarrow> hostBackupName \<Rightarrow> 'w \<Rightarrow> 'w \<Rightarrow> bool" where
  "only_backup_removed V b w w' \<longleftrightarrow>
     (\<forall>R. set (vSnaps V R w') \<subseteq> set (vSnaps V R w) \<and>
        (\<forall>m \<in> set (vSnaps V R w). \<not> snapshot_of b m \<longrightarrow> m \<in> set (vSnaps V R w')))"

definition backup_gone :: "'w kopia_view \<Rightarrow> hostBackupName \<Rightarrow> string \<Rightarrow> 'w \<Rightarrow> bool" where
  "backup_gone V b R w \<longleftrightarrow> (\<forall>m \<in> set (vSnaps V R w). \<not> snapshot_of b m)"

lemma only_backup_removed_refl [simp]: "only_backup_removed V b w w"
  by (simp add: only_backup_removed_def)

lemma only_backup_removed_trans:
  "only_backup_removed V b w w' \<Longrightarrow> only_backup_removed V b w' w'' \<Longrightarrow> only_backup_removed V b w w''"
  unfolding only_backup_removed_def by blast

lemma backup_stays_gone: "only_backup_removed V b w w' \<Longrightarrow> backup_gone V b R w \<Longrightarrow> backup_gone V b R w'"
  unfolding only_backup_removed_def backup_gone_def by blast

lemma connection_delete:
  assumes laws: "kopia_cli_laws E V" and "DeleteBackup n (store_of E c) h b w = (r, w')"
  shows "only_backup_removed V (h, b) w w'"
    and "R \<noteq> vRepo V (ConfigFile (conKopia c)) \<Longrightarrow> vSnaps V R w' = vSnaps V R w"
    and "r = None \<Longrightarrow> backup_gone V (h, b) (vRepo V (ConfigFile (conKopia c))) w'"
proof -
  let ?R = "vRepo V (ConfigFile (conKopia c))"
  note run = assms(2) [unfolded DeleteBackup_def]
  have kl: "kopia_laws (store_of E c) (vSnaps V ?R)" unfolding store_of_def by (rule cli_client_laws [OF laws])
  note eff = delete_attempts_effect [OF kl run]
  show frame: "vSnaps V R w' = vSnaps V R w" if R: "R \<noteq> ?R" for R
  proof (rule delete_attempts_keeps [OF _ _ run, where f = "vSnaps V R"])
    fix i k r k' assume "DeleteSnapshot (store_of E c) i k = (r, k')"
    then show "vSnaps V R k' = vSnaps V R k" using cli_delete_frame [OF laws _ R] by (simp add: store_of_def cli_client_def)
  next
    fix t k r k' assume "ListSnapshots (store_of E c) t k = (r, k')"
    then show "vSnaps V R k' = vSnaps V R k"
      using cli_ListSnapshots_ok [OF laws] by (simp add: store_of_def cli_client_def same_repos_def same_repo_def)
  qed
  have "set (vSnaps V R w') \<subseteq> set (vSnaps V R w) \<and>
      (\<forall>m \<in> set (vSnaps V R w). \<not> snapshot_of (h, b) m \<longrightarrow> m \<in> set (vSnaps V R w'))" for R
    using eff frame [of R] by (cases "R = ?R") auto
  then show "only_backup_removed V (h, b) w w'" by (simp add: only_backup_removed_def)
  show "backup_gone V (h, b) ?R w'" if "r = None" using eff that by (simp add: backup_gone_def)
qed

definition tier_connection :: "AdminServer \<Rightarrow> grpc_tier \<Rightarrow> Connection option" where
  "tier_connection s t = (case t of TIER_1 \<Rightarrow> adTier1 s | TIER_2 \<Rightarrow> adTier2 s | _ \<Rightarrow> None)"

definition tier_repo :: "'w kopia_view \<Rightarrow> AdminServer \<Rightarrow> grpc_tier \<Rightarrow> string option" where
  "tier_repo V s t = map_option (\<lambda>c. vRepo V (ConfigFile (conKopia c))) (tier_connection s t)"

lemma deleteBackupFromTier_cases:
  assumes "deleteBackupFromTier E H s t h b w = (r, w')"
  obtains (no_tier) "tier_connection s t = None" and "w' = w" and "r \<noteq> None"
  | (tier) c r' where "tier_connection s t = Some c" and "DeleteBackup (deleteAttempts H) (store_of E c) h b w = (r', w')"
      and "r = None \<longleftrightarrow> r' = None"
  using assms
  by (auto simp: deleteBackupFromTier_def tier_connection_def split: grpc_tier.splits option.splits prod.splits)

lemma tier_delete:
  assumes laws: "kopia_cli_laws E V" and "deleteBackupFromTier E H s t h b w = (r, w')"
  shows "only_backup_removed V (h, b) w w' \<and> (\<forall>R. tier_repo V s t \<noteq> Some R \<longrightarrow> vSnaps V R w' = vSnaps V R w) \<and>
    (r = None \<longrightarrow> (\<exists>R. tier_repo V s t = Some R \<and> backup_gone V (h, b) R w'))"
  using assms(2)
proof (cases rule: deleteBackupFromTier_cases)
  case no_tier
  then show ?thesis by auto
next
  case (tier c r')
  note D = connection_delete [OF laws tier(2)]
  have "tier_repo V s t = Some (vRepo V (ConfigFile (conKopia c)))" using tier(1) by (simp add: tier_repo_def)
  with D tier(3) show ?thesis by auto
qed

lemma tiers_delete:
  assumes laws: "kopia_cli_laws E V" and "delete_from_tiers E H s tiers h b w = (r, w')"
  shows "only_backup_removed V (h, b) w w' \<and>
    (\<forall>R. (\<forall>t \<in> set tiers. tier_repo V s t \<noteq> Some R) \<longrightarrow> vSnaps V R w' = vSnaps V R w) \<and>
    (r = None \<longrightarrow> (\<forall>t \<in> set tiers. \<exists>R. tier_repo V s t = Some R \<and> backup_gone V (h, b) R w'))"
  using assms(2)
proof (induction tiers arbitrary: w)
  case (Cons t ts)
  obtain r1 w1 where 1: "deleteBackupFromTier E H s t h b w = (r1, w1)" by force
  note T = tier_delete [OF laws 1]
  show ?case
  proof (cases r1)
    case None
    with Cons.prems 1 have "delete_from_tiers E H s ts h b w1 = (r, w')" by simp
    note I = Cons.IH [OF this]
    from T None obtain R where R: "tier_repo V s t = Some R" "backup_gone V (h, b) R w1" by blast
    have "backup_gone V (h, b) R w'" by (rule backup_stays_gone [OF conjunct1 [OF I] R(2)])
    moreover have "only_backup_removed V (h, b) w w'" by (rule only_backup_removed_trans [OF conjunct1 [OF T] conjunct1 [OF I]])
    ultimately show ?thesis using T I R(1) by auto
  next
    case (Some e)
    with Cons.prems 1 T show ?thesis by auto
  qed
qed simp

text \<open>A discard of WALs through the administration server needs a cluster for names, and with a cluster it removes
  nothing of another one.\<close>

lemma admin_discard_is_scoped:
  assumes "js_laws js msgs" and "newest_first srt" and "QueueDiscardWALs js tc srt c wals (Some m) = (r, mgr')"
  shows "if c = [] \<and> wals \<noteq> [] then r = Inl (Status InvalidArgument ''WAL names require a cluster name'') \<and> mgr' = Some m
    else \<exists>m'. mgr' = Some m' \<and> (c \<noteq> [] \<longrightarrow> only_removed msgs (\<lambda>st q. \<exists>seq k t.
             genuine js msgs tc klioDLQWalStreamName klioWalStreamName (natsState m) seq k t \<and> wtClusterName t = c \<and>
             (st = klioDLQWalStreamName \<and> q = seq \<or> st = klioWalStreamName \<and> q = k)) (natsState m) (natsState m'))"
proof (cases "c = [] \<and> wals \<noteq> []")
  case True
  with assms(3) show ?thesis by (simp add: QueueDiscardWALs_def requireStreamMgr_def failedWALSelection_def)
next
  case False
  then obtain opts where o: "failedWALSelection c wals = Inr opts" and "c \<noteq> [] \<longrightarrow> cfgCluster (apply_options opts) = c"
    by (auto simp: failedWALSelection_def clusterOptions_def apply_options_def WithCluster_def WithWALs_def)
  moreover obtain x m' where d: "DiscardFailedWALTasks js tc srt opts m = (x, m')" by (metis surj_pair)
  ultimately have "mgr' = Some m'" and "c \<noteq> [] \<longrightarrow> only_removed msgs (\<lambda>st q. \<exists>seq k t.
             genuine js msgs tc klioDLQWalStreamName klioWalStreamName (natsState m) seq k t \<and> wtClusterName t = c \<and>
             (st = klioDLQWalStreamName \<and> q = seq \<or> st = klioWalStreamName \<and> q = k)) (natsState m) (natsState m')"
    using assms(3) wal_dlq.discard_scope [OF assms(1,2) _ _ d]
    by (auto simp: QueueDiscardWALs_def requireStreamMgr_def WALTask_Cluster_def split: prod.splits option.splits)
  with False show ?thesis by auto
qed

text \<open>The test of Refresh for a missing tier 2 never fires: New always makes a client for it, also without a
  configuration file.\<close>

lemma refresh_client_is_always_set:
  assumes "admin_New E decode opts w = Inr s"
  shows "adTier2KopiaClient s \<noteq> None"
  using assms by (auto simp: admin_New_def split: sum.splits)

section \<open>Properties\<close>


definition example_admin :: AdminServer where
  "example_admin =
     \<lparr>adOpts = \<lparr>aoTier1KopiaConfigFile = ''/etc/kopia'', aoTier2KopiaConfigFile = [], aoRunID = ''u'', aoRunSecret = ''p'',
        aoServerTLSCertFile = ''c'', aoTier2ServerAddress = ''https://'', aoQueueURL = []\<rparr>,
      adTier1KopiaClient = Some example_client, adTier2KopiaClient = Some example_client,
      adTier1 = Some example_connection, adTier2 = None\<rparr>"

definition example_delete :: DeleteBackupRequest where
  "example_delete = \<lparr>drClusterName = ''pg'', drBackupName = ''b1'', drTiers = [TIER_1]\<rparr>"

definition tagged :: "string \<Rightarrow> string \<Rightarrow> raw_manifest" where
  "tagged i name = (i, ''pg'', [(userTagPrefix @ BackupNameTagName, name)])"

definition two_backups :: box where
  "two_backups = example_box\<lparr>bxSnaps := (\<lambda>R. [tagged ''s1'' ''b1'', tagged ''s2'' ''b2''])\<rparr>"


end
