(* ===== verification/Backup_Run.thy ===== *)
theory Backup_Run
  imports Wal_Restore Klio_Config
begin

text \<open>
  The commands of a backup and the plugin call that runs them: \<open>klio backup run\<close>, \<open>verify\<close>,
  \<open>get-metadata\<close>, \<open>list\<close> and \<open>delete\<close> (core/cmd/backup), \<open>klio retention set\<close> and \<open>get\<close>
  (core/cmd/retention), the exit codes (core/internal/cli, core/internal/backupfailure), and the Backup call of
  the CloudNativePG plugin (core/internal/cnpgi/backup.go), which starts these commands as processes.

  The connections of a command are the record \<open>run_env\<close>, the processes and the clock of the plugin the
  record \<open>plugin_env\<close>.  Logging, traces and the time stamps of the metrics are not modelled.
\<close>

section \<open>core/internal/backupfailure/category.go\<close>

record Category =
  catName :: string
  catExitCode :: int

definition RepositoryError :: Category where "RepositoryError = \<lparr>catName = ''repository_error'', catExitCode = 69\<rparr>"
definition SourceError :: Category where "SourceError = \<lparr>catName = ''source_error'', catExitCode = 68\<rparr>"
definition Verification :: Category where "Verification = \<lparr>catName = ''verification'', catExitCode = 65\<rparr>"
definition Timeout :: Category where "Timeout = \<lparr>catName = ''timeout'', catExitCode = 0\<rparr>"
definition Canceled :: Category where "Canceled = \<lparr>catName = ''canceled'', catExitCode = 0\<rparr>"
definition Unknown :: Category where "Unknown = \<lparr>catName = ''unknown'', catExitCode = 0\<rparr>"

definition categories :: "Category list" where
  "categories = [RepositoryError, SourceError, Verification, Timeout, Canceled, Unknown]"

definition ByExitCode :: "int \<Rightarrow> Category option" where
  "ByExitCode code = List.find (\<lambda>c. catExitCode c \<noteq> 0 \<and> catExitCode c = code) categories"

definition Names :: "string list" where "Names = map catName categories"

section \<open>core/internal/cli\<close>

definition ErrClientSectionIsRequired :: go_error where
  "ErrClientSectionIsRequired = Sentinel ''client section required''"
definition ErrKopiaClientSectionIsRequired :: go_error where
  "ErrKopiaClientSectionIsRequired = Sentinel ''client.kopia section required''"
definition ErrKlioClientSectionIsRequired :: go_error where
  "ErrKlioClientSectionIsRequired = Sentinel ''client.wal section required''"
definition ErrSourceSectionIsRequired :: go_error where
  "ErrSourceSectionIsRequired = Sentinel ''source section required''"

text \<open>How a command ends: an error, an error with an exit code, or a panic.\<close>

datatype cmd_error = Plain go_error | CodedError go_error int | Crash go_error

definition NewCodedError :: "go_error \<Rightarrow> Category \<Rightarrow> cmd_error" where
  "NewCodedError err c = CodedError err (catExitCode c)"

text \<open>RunEWithExitCode, Execute of core/cmd/root.go, and the runtime for a panic.\<close>

definition exit_status :: "cmd_error + 'a \<Rightarrow> int" where
  "exit_status r = (case r of Inr _ \<Rightarrow> 0 | Inl (CodedError _ code) \<Rightarrow> code | Inl (Plain _) \<Rightarrow> 1 | Inl (Crash _) \<Rightarrow> 2)"

section \<open>core/cmd/backup\<close>

record 'w run_env =
  rKopia :: "'w kopia_env"
  rHost :: "'w host_env"
  rLsn :: lsn_math
  Unmarshal :: "go_error + Data"
  pgxConnect :: "string \<Rightarrow> 'w \<Rightarrow> go_error + pg_session"
  grpcConnect :: "ClientConfigFull \<Rightarrow> string \<Rightarrow> 'w \<Rightarrow> go_error option"
  rpcCloseBackup :: "CloseBackupRequest \<Rightarrow> 'w \<Rightarrow> (go_error + CloseBackupResult) \<times> 'w"
  rpcSetRetentionPolicy :: "string \<Rightarrow> RetentionPolicy \<Rightarrow> 'w \<Rightarrow> go_error option \<times> 'w"
  rpcGetRetentionPolicy :: "string \<Rightarrow> 'w \<Rightarrow> (go_error + RetentionPolicy) \<times> 'w"
  MarshalCompression :: "CompressionPolicy \<Rightarrow> go_error + string"
  Sleep :: "'w \<Rightarrow> 'w"
  PrintJSON :: "'w \<Rightarrow> go_error option"

definition no_client :: "ClientConfigFull \<Rightarrow> bool" where
  "no_client c \<longleftrightarrow> ccClusterName c = [] \<and> ccBase c = no_base \<and> ccWal c = no_wal"

text \<open>The start of every command: read the configuration, set the defaults, require sections, validate.\<close>

definition load_config :: "bool \<Rightarrow> bool \<Rightarrow> bool \<Rightarrow> go_error + Data \<Rightarrow> go_error + Data" where
  "load_config base wal src conf =
     (case conf of
        Inl e \<Rightarrow> Inl (Wrap ''could not unmarshal configuration'' e)
      | Inr d0 \<Rightarrow>
          let d = Data_SetDefaults d0
          in if no_client (dClient d) then Inl ErrClientSectionIsRequired
             else if base \<and> ccBase (dClient d) = no_base then Inl ErrKopiaClientSectionIsRequired
             else if wal \<and> ccWal (dClient d) = no_wal then Inl ErrKlioClientSectionIsRequired
             else if src \<and> dSource d = no_source then Inl ErrSourceSectionIsRequired
             else (case Data_Validate d of
                     Some e \<Rightarrow> Inl (Wrap ''configuration validation error'' e)
                   | None \<Rightarrow> Inr d))"

subsection \<open>run.go\<close>

definition toKopiaCompressionPolicy :: "CompressionPolicy option \<Rightarrow> CompressionPolicy" where
  "toKopiaCompressionPolicy p = (case p of None \<Rightarrow> \<lparr>Algorithm = [], MinSize = 0, MaxSize = 0\<rparr> | Some q \<Rightarrow> q)"

definition marshalTier2CompressionPolicy :: "'w run_env \<Rightarrow> Data \<Rightarrow> string" where
  "marshalTier2CompressionPolicy R d =
     (case MarshalCompression R (toKopiaCompressionPolicy (dTier2CompressionPolicy d)) of Inl e \<Rightarrow> [] | Inr s \<Rightarrow> s)"

definition setTier1CompressionPolicy :: "'w klio_client \<Rightarrow> string \<Rightarrow> string \<Rightarrow> Data \<Rightarrow> 'w \<Rightarrow> go_error option \<times> 'w" where
  "setTier1CompressionPolicy cl username hostname d w =
     cSetCompressionPolicy cl \<lparr>tgHostname = hostname, tgUsername = username\<rparr>
       (toKopiaCompressionPolicy (dTier1CompressionPolicy d)) w"

record run_flags =
  rfName :: string
  rfWaitWALs :: bool
  rfTier2 :: bool

definition close_request :: "'w run_env \<Rightarrow> Data \<Rightarrow> run_flags \<Rightarrow> string \<Rightarrow> BackupMetadata \<Rightarrow> CloseBackupRequest" where
  "close_request R d fl hostname m =
     \<lparr>cbClusterName = hostname, cbTimeline = sint (word_of_int (bkTimeline m) :: 32 word), cbStartWal = StartWAL m,
      cbEndWal = EndWAL m, cbSegmentSize = bkSegmentSize m, cbSendToTier2 = rfTier2 fl,
      cbTier2CompressionPolicy = marshalTier2CompressionPolicy R d\<rparr>"

text \<open>The loop of runBackup: it asks again while WALs are missing, so it may never end.\<close>

partial_function (option) close_loop ::
  "'w run_env \<Rightarrow> bool \<Rightarrow> CloseBackupRequest \<Rightarrow> 'w \<Rightarrow> ((go_error + CloseBackupResult) \<times> 'w) option" where
  "close_loop R waitWALs req w =
     (case rpcCloseBackup R req w of
        (Inl e, w') \<Rightarrow> Some (Inl e, w')
      | (Inr result, w') \<Rightarrow>
          if waitWALs \<and> MissingWalFiles result \<noteq> [] then close_loop R waitWALs req (Sleep R w')
          else Some (Inr result, w'))"

definition report_backup ::
  "'w run_env \<Rightarrow> Data \<Rightarrow> run_flags \<Rightarrow> string \<Rightarrow> BackupMetadata \<Rightarrow> 'w \<Rightarrow> ((cmd_error + BackupMetadata) \<times> 'w) option" where
  "report_backup R d fl hostname metadata w =
     (case grpcConnect R (dClient d) (wrAddress (ccWal (dClient d))) w of
        Some e \<Rightarrow> Some (Inl (NewCodedError (Wrap ''while connecting to the Klio server'' e) RepositoryError), w)
      | None \<Rightarrow>
          (case close_loop R (rfWaitWALs fl) (close_request R d fl hostname metadata) w of
             None \<Rightarrow> None
           | Some (Inl e, w') \<Rightarrow> Some (Inl (NewCodedError (Wrap ''while closing the backup'' e) RepositoryError), w')
           | Some (Inr result, w') \<Rightarrow>
               (case PrintJSON R w' of
                  Some e \<Rightarrow> Some (Inl (Plain (Wrap ''failed to marshal metadata to JSON'' e)), w')
                | None \<Rightarrow> Some (Inr metadata, w'))))"

definition execute_backup ::
  "'w run_env \<Rightarrow> Data \<Rightarrow> run_flags \<Rightarrow> 'w klio_client \<Rightarrow> pg_session \<Rightarrow> string \<Rightarrow> 'w \<Rightarrow>
   ((cmd_error + BackupMetadata) \<times> 'w) option" where
  "execute_backup R d fl cl pg hostname w =
     (case be_Start pg (rfName fl) (NewBackupExecutor hostname) of
        (Some e, b) \<Rightarrow> Some (Inl (NewCodedError (Wrap ''while starting the backup'' e) RepositoryError), w)
      | (None, b) \<Rightarrow>
          (case Upload cl b w of
             (Some e, w1) \<Rightarrow> Some (Inl (NewCodedError (Wrap ''while uploading data'' e) RepositoryError), w1)
           | (None, w1) \<Rightarrow>
               (case Close (rLsn R) pg cl b w1 of
                  (Inl e, w2) \<Rightarrow> Some (Inl (NewCodedError (Wrap ''while closing the backup'' e) RepositoryError), w2)
                | (Inr metadata, w2) \<Rightarrow> report_backup R d fl hostname metadata w2)))"

definition connected_backup ::
  "'w run_env \<Rightarrow> Data \<Rightarrow> run_flags \<Rightarrow> 'w klio_client \<Rightarrow> 'w \<Rightarrow> ((cmd_error + BackupMetadata) \<times> 'w) option" where
  "connected_backup R d fl cl w =
     (case (cGetUsername cl, cGetHostname cl) of
        (Inr username, Inr hostname) \<Rightarrow>
          (case setTier1CompressionPolicy cl username hostname d w of
             (Some e, w1) \<Rightarrow> Some (Inl (NewCodedError (Wrap ''while setting the tier1 compression policy'' e) RepositoryError), w1)
           | (None, w1) \<Rightarrow>
               (case pgxConnect R (scStandardDSN (dSource d)) w1 of
                  Inl e \<Rightarrow> Some (Inl (NewCodedError (Wrap ''while connecting to PostgreSQL'' e) SourceError), w1)
                | Inr pg \<Rightarrow> execute_backup R d fl cl pg hostname w1))
      | (Inl e, _) \<Rightarrow> Some (Inl (Crash e), w)
      | (_, Inl e) \<Rightarrow> Some (Inl (Crash e), w))"

definition runBackup :: "'w run_env \<Rightarrow> run_flags \<Rightarrow> 'w \<Rightarrow> ((cmd_error + BackupMetadata) \<times> 'w) option" where
  "runBackup R fl w =
     (case load_config True True True (Unmarshal R) of
        Inl e \<Rightarrow> Some (Inl (Plain e), w)
      | Inr d \<Rightarrow>
          (case MultiConnect (rKopia R) (rHost R) (ClientConfig.truncate (dClient d)) w of
             (Inl e, w1) \<Rightarrow> Some (Inl (NewCodedError (Wrap ''while connecting to the Klio server'' e) RepositoryError), w1)
           | (Inr mc, w1) \<Rightarrow>
               map_option (\<lambda>(r, w2). (r, cClose (multi_client mc) w2)) (connected_backup R d fl (multi_client mc) w1)))"

subsection \<open>get-metadata.go, list.go and delete.go\<close>

text \<open>The three commands share everything but the call and whether their errors have an exit code.\<close>

definition with_clients ::
  "'w run_env \<Rightarrow> (go_error \<Rightarrow> cmd_error) \<Rightarrow> ('w klio_client \<Rightarrow> string \<Rightarrow> 'w \<Rightarrow> (cmd_error + 'a) \<times> 'w) \<Rightarrow> 'w \<Rightarrow> (cmd_error + 'a) \<times> 'w" where
  "with_clients R code call w =
     (case load_config True False True (Unmarshal R) of
        Inl e \<Rightarrow> (Inl (Plain e), w)
      | Inr d \<Rightarrow>
          (case MultiConnect (rKopia R) (rHost R) (ClientConfig.truncate (dClient d)) w of
             (Inl e, w1) \<Rightarrow> (Inl (code (Wrap ''while connecting to the Klio server'' e)), w1)
           | (Inr mc, w1) \<Rightarrow>
               (case (case cGetHostname (multi_client mc) of
                        Inl e \<Rightarrow> (Inl (Crash e), w1)
                      | Inr hostname \<Rightarrow> call (multi_client mc) hostname w1) of
                  (r, w2) \<Rightarrow> (r, cClose (multi_client mc) w2))))"

definition print_result :: "'w run_env \<Rightarrow> 'a \<Rightarrow> 'w \<Rightarrow> (cmd_error + 'a) \<times> 'w" where
  "print_result R x w =
     (case PrintJSON R w of Some e \<Rightarrow> (Inl (Plain (Wrap ''failed to write JSON output'' e)), w) | None \<Rightarrow> (Inr x, w))"

definition runGetMetadata :: "'w run_env \<Rightarrow> string \<Rightarrow> 'w \<Rightarrow> (cmd_error + BackupMetadata) \<times> 'w" where
  "runGetMetadata R backupName =
     with_clients R (\<lambda>e. NewCodedError e RepositoryError) (\<lambda>cl hostname w.
       case cGetMetadata cl hostname backupName w of
         (Inl e, w') \<Rightarrow> (Inl (NewCodedError (Wrap ''while getting metadata for backup'' e) RepositoryError), w')
       | (Inr m, w') \<Rightarrow> print_result R m w')"

definition listCmd :: "'w run_env \<Rightarrow> 'w \<Rightarrow> (cmd_error + BackupList) \<times> 'w" where
  "listCmd R =
     with_clients R Plain (\<lambda>cl hostname w.
       case cListBackups cl hostname w of
         (Inl e, w') \<Rightarrow> (Inl (Plain (Wrap ''while extracting backups'' e)), w')
       | (Inr l, w') \<Rightarrow> print_result R l w')"

definition deleteCmd :: "'w run_env \<Rightarrow> string \<Rightarrow> 'w \<Rightarrow> (cmd_error + unit) \<times> 'w" where
  "deleteCmd R backupName =
     with_clients R Plain (\<lambda>cl hostname w.
       case cDeleteBackup cl hostname backupName w of
         (Some e, w') \<Rightarrow> (Inl (Plain (Wrap ''while deleting backup'' e)), w')
       | (None, w') \<Rightarrow> (Inr (), w'))"

subsection \<open>verify.go\<close>

record tierSelection =
  selTier1 :: bool
  selTier2 :: bool

definition parseTiers :: "string \<Rightarrow> tierSelection" where
  "parseTiers tiersFlag =
     fold (\<lambda>tier result. if TrimSpace tier = ''tier1'' then result\<lparr>selTier1 := True\<rparr>
                         else if TrimSpace tier = ''tier2'' then result\<lparr>selTier2 := True\<rparr> else result)
       (split_on (CHR '','') tiersFlag) \<lparr>selTier1 = False, selTier2 = False\<rparr>"

definition verify_args :: "bool \<Rightarrow> string list \<Rightarrow> go_error option" where
  "verify_args all args =
     (if \<not> all \<and> args = [] then Some (Sentinel ''requires at least one backup name, or use --all'')
      else if all \<and> args \<noteq> [] then Some (Sentinel ''cannot specify both --all and backup names'')
      else None)"

definition conn_verifier :: "'w kopia_env \<Rightarrow> Connection \<Rightarrow> 'w verify_kopia" where
  "conn_verifier E c =
     \<lparr>VerifySnapshots = (\<lambda>ids w. case cli_VerifySnapshots E (conKopia c) ids w of ((res, e), w') \<Rightarrow> ((ErrorCount res, e), w'))\<rparr>"

definition verifyTier ::
  "'w kopia_env \<Rightarrow> Connection \<Rightarrow> VerifyOpts \<Rightarrow> string \<Rightarrow> 'w \<Rightarrow> (cmd_error + unit) \<times> 'w" where
  "verifyTier E client opts tierName w =
     (case VerifyBackups (store_of E client) (conn_verifier E client) opts w of
        (None, w') \<Rightarrow> (Inr (), w')
      | (Some (BackupVerificationError n e), w') \<Rightarrow> (Inl (NewCodedError e Verification), w')
      | (Some (Infrastructure e), w') \<Rightarrow> (Inl (Plain (Wrap (tierName @ '' backup verification failed'') e)), w'))"

definition verify_tier2 ::
  "'w run_env \<Rightarrow> Data \<Rightarrow> VerifyOpts \<Rightarrow> 'w \<Rightarrow> (cmd_error + unit) \<times> 'w" where
  "verify_tier2 R d opts w =
     (case ConnectTier2 (rKopia R) (rHost R) (ClientConfig.truncate (dClient d)) w of
        (Inl e, w1) \<Rightarrow> (Inl (Plain (Wrap ''while connecting to tier2'' e)), w1)
      | (Inr tier2Client, w1) \<Rightarrow>
          (case verifyTier (rKopia R) tier2Client opts ''tier2'' w1 of
             (r, w2) \<Rightarrow> (r, cClose (connection_client (rKopia R) (rHost R) tier2Client) w2)))"

definition verifyCmd :: "'w run_env \<Rightarrow> bool \<Rightarrow> string \<Rightarrow> string list \<Rightarrow> 'w \<Rightarrow> (cmd_error + unit) \<times> 'w" where
  "verifyCmd R all tiersFlag args w =
     (case verify_args all args of
        Some e \<Rightarrow> (Inl (Plain e), w)
      | None \<Rightarrow>
          (case load_config True False False (Unmarshal R) of
             Inl e \<Rightarrow> (Inl (Plain e), w)
           | Inr d \<Rightarrow>
               let tiers = parseTiers tiersFlag
               in case ConnectTier1 (rKopia R) (rHost R) (ClientConfig.truncate (dClient d)) w of
                    (Inl e, w1) \<Rightarrow> (Inl (Plain (Wrap ''while connecting to tier1'' e)), w1)
                  | (Inr tier1Client, w1) \<Rightarrow>
                      let opts = \<lparr>voHostname = hostName tier1Client, voBackupNames = args, voAll = all\<rparr>;
                          (r, w3) =
                            (case (if selTier1 tiers then verifyTier (rKopia R) tier1Client opts ''tier1'' w1 else (Inr (), w1)) of
                               (Inl e, w2) \<Rightarrow> (Inl e, w2)
                             | (Inr _, w2) \<Rightarrow>
                                 if selTier2 tiers \<and> baseTier2URL (ccBase (dClient d)) \<noteq> [] then verify_tier2 R d opts w2
                                 else (Inr (), w2))
                      in (r, cClose (connection_client (rKopia R) (rHost R) tier1Client) w3)))"

section \<open>core/cmd/retention\<close>

definition toGRPCTierRetentionPolicy :: "ConfigRetentionPolicy option \<Rightarrow> TierRetentionPolicy option" where
  "toGRPCTierRetentionPolicy policy =
     (case policy of
        None \<Rightarrow> None
      | Some p \<Rightarrow> Some \<lparr>Latest = (case crLatest p of None \<Rightarrow> 0 | Some n \<Rightarrow> n)\<rparr>)"

definition toGRPCRetentionPolicy :: "Data \<Rightarrow> RetentionPolicy" where
  "toGRPCRetentionPolicy d =
     \<lparr>Tier1Policy = toGRPCTierRetentionPolicy (dTier1RetentionPolicy d),
      Tier2Policy = toGRPCTierRetentionPolicy (dTier2RetentionPolicy d)\<rparr>"

definition with_wal_server ::
  "'w run_env \<Rightarrow> (Data \<Rightarrow> 'w \<Rightarrow> (cmd_error + 'a) \<times> 'w) \<Rightarrow> 'w \<Rightarrow> (cmd_error + 'a) \<times> 'w" where
  "with_wal_server R call w =
     (case load_config False True False (Unmarshal R) of
        Inl e \<Rightarrow> (Inl (Plain e), w)
      | Inr d \<Rightarrow>
          (case grpcConnect R (dClient d) (wrAddress (ccWal (dClient d))) w of
             Some e \<Rightarrow> (Inl (Plain (Wrap ''while connecting to the Klio server'' e)), w)
           | None \<Rightarrow> call d w))"

definition retention_setCmd :: "'w run_env \<Rightarrow> 'w \<Rightarrow> (cmd_error + unit) \<times> 'w" where
  "retention_setCmd R =
     with_wal_server R (\<lambda>d w.
       case rpcSetRetentionPolicy R (ccClusterName (dClient d)) (toGRPCRetentionPolicy d) w of
         (Some e, w') \<Rightarrow> (Inl (Plain (Wrap ''while setting the current retention policy'' e)), w')
       | (None, w') \<Rightarrow> (Inr (), w'))"

definition retention_getCmd :: "'w run_env \<Rightarrow> 'w \<Rightarrow> (cmd_error + RetentionPolicy) \<times> 'w" where
  "retention_getCmd R =
     with_wal_server R (\<lambda>d w.
       case rpcGetRetentionPolicy R (ccClusterName (dClient d)) w of
         (Inl e, w') \<Rightarrow> (Inl (Plain (Wrap ''while getting the current retention policy'' e)), w')
       | (Inr p, w') \<Rightarrow> (Inr p, w'))"


section \<open>core/internal/cnpgi/backup.go\<close>

text \<open>The error of a process: it ended with a status that is not zero, or it did not run to its end.\<close>

datatype exec_error = ExitError int | ExecError go_error

datatype backup_error =
    ClusterError go_error
  | NoExecutable go_error
  | RunFailed string exec_error
  | ParseFailed go_error
  | ErrVerificationCorruption exec_error

datatype ctx_error = DeadlineExceeded | ContextCanceled

record 'w plugin_env =
  UnmarshalCluster :: "bytes \<Rightarrow> go_error + (string \<times> string)"
  CompactNow :: "'w \<Rightarrow> string"
  Executable :: "go_error + string"
  Environ :: "string list"
  RunKlio :: "string \<Rightarrow> string list \<Rightarrow> string list \<Rightarrow> 'w \<Rightarrow> (exec_error option \<times> bytes) \<times> 'w"
  UnmarshalMetadata :: "bytes \<Rightarrow> go_error + BackupMetadata"
  ctxErr :: "'w \<Rightarrow> ctx_error option"
  ExponentialBackoffWithContext :: "nat \<Rightarrow> ('w \<Rightarrow> (backup_error + bool) \<times> 'w) \<Rightarrow> 'w \<Rightarrow> backup_error option option \<times> 'w"
  LSNString :: "uint64 \<Rightarrow> string"

record backupServiceImplementation =
  InstanceName :: string
  implTier2 :: bool

definition exit_code_of :: "backup_error \<Rightarrow> int option" where
  "exit_code_of err =
     (case err of RunFailed _ (ExitError c) \<Rightarrow> Some c | ErrVerificationCorruption (ExitError c) \<Rightarrow> Some c | _ \<Rightarrow> None)"

definition classifyRunBackupError :: "ctx_error option \<Rightarrow> backup_error \<Rightarrow> Category" where
  "classifyRunBackupError ctxError err =
     (case Option.bind (exit_code_of err) ByExitCode of
        Some category \<Rightarrow> category
      | None \<Rightarrow>
          (case ctxError of
             Some DeadlineExceeded \<Rightarrow> Timeout
           | Some ContextCanceled \<Rightarrow> Canceled
           | None \<Rightarrow> Unknown))"

definition filterOTelEnv :: "string list \<Rightarrow> string list" where
  "filterOTelEnv env = filter (\<lambda>e. take 5 e \<noteq> ''OTEL_'') env"

definition run_args :: "string \<Rightarrow> bool \<Rightarrow> string list" where
  "run_args backupName toTier2 =
     [''backup'', ''run'', ''--config'', backupRepositoryConfigPath, ''-n'', backupName] @
     (if toTier2 then [''--enable-tier2-backup''] else [])"

definition metadata_args :: "string \<Rightarrow> string list" where
  "metadata_args backupName = [''backup'', ''get-metadata'', ''--config'', backupRepositoryConfigPath, backupName]"

definition plugin_verify_args :: "string \<Rightarrow> string list" where
  "plugin_verify_args backupName =
     [''backup'', ''verify'', backupName, ''--tiers=tier1'', ''--config'', backupRepositoryConfigPath]"

definition plugin_runBackup ::
  "'w plugin_env \<Rightarrow> backupServiceImplementation \<Rightarrow> string \<Rightarrow> 'w \<Rightarrow> (backup_error + BackupMetadata) \<times> 'w" where
  "plugin_runBackup P b backupName w =
     (case Executable P of
        Inl e \<Rightarrow> (Inl (NoExecutable e), w)
      | Inr klioPath \<Rightarrow>
          (case RunKlio P klioPath (Environ P) (run_args backupName (implTier2 b)) w of
             ((Some e, _), w1) \<Rightarrow> (Inl (RunFailed ''failed to execute klio backup run command'' e), w1)
           | ((None, _), w1) \<Rightarrow>
               (case RunKlio P klioPath (filterOTelEnv (Environ P)) (metadata_args backupName) w1 of
                  ((Some e, _), w2) \<Rightarrow> (Inl (RunFailed ''failed to execute klio backup get-metadata command'' e), w2)
                | ((None, stdout), w2) \<Rightarrow>
                    (case UnmarshalMetadata P stdout of
                       Inl e \<Rightarrow> (Inl (ParseFailed e), w2)
                     | Inr metadata \<Rightarrow> (Inr metadata, w2)))))"

definition verifySteps :: nat where "verifySteps = 3"

text \<open>One attempt of the verification, as the condition of the backoff.\<close>

definition verify_attempt ::
  "'w plugin_env \<Rightarrow> string \<Rightarrow> string \<Rightarrow> 'w \<Rightarrow> (backup_error + bool) \<times> 'w" where
  "verify_attempt P klioPath backupName w =
     (case RunKlio P klioPath (Environ P) (plugin_verify_args backupName) w of
        ((None, _), w') \<Rightarrow> (Inr True, w')
      | ((Some e, _), w') \<Rightarrow>
          (if e = ExitError (catExitCode Verification) then Inl (ErrVerificationCorruption e) else Inr False, w'))"

definition plugin_runVerify :: "'w plugin_env \<Rightarrow> string \<Rightarrow> 'w \<Rightarrow> backup_error option \<times> 'w" where
  "plugin_runVerify P backupName w =
     (case Executable P of
        Inl e \<Rightarrow> (None, w)
      | Inr klioPath \<Rightarrow>
          (case ExponentialBackoffWithContext P verifySteps (verify_attempt P klioPath backupName) w of
             (Some (Some (ErrVerificationCorruption e)), w') \<Rightarrow> (Some (ErrVerificationCorruption e), w')
           | (_, w') \<Rightarrow> (None, w')))"

definition setRetentionPolicy :: "'w plugin_env \<Rightarrow> 'w \<Rightarrow> backup_error option \<times> 'w" where
  "setRetentionPolicy P w =
     (case Executable P of
        Inl e \<Rightarrow> (Some (NoExecutable e), w)
      | Inr klioPath \<Rightarrow>
          (case RunKlio P klioPath (Environ P) [''retention'', ''set'', ''--config'', backupRepositoryConfigPath] w of
             ((Some e, _), w1) \<Rightarrow> (Some (RunFailed ''failed to execute 'klio retention set' command'' e), w1)
           | ((None, _), w1) \<Rightarrow>
               (case RunKlio P klioPath (Environ P) [''retention'', ''get'', ''--config'', backupRepositoryConfigPath] w1 of
                  ((Some e, _), w2) \<Rightarrow> (Some (RunFailed ''failed to execute 'klio retention get' command'' e), w2)
                | ((None, _), w2) \<Rightarrow> (None, w2))))"

text \<open>What the metrics record of a backup of a cluster.\<close>

datatype metric = Started string | Finished string | Succeeded string | Failed string string

record BackupResult =
  resBackupName :: string
  resStartedAt :: int
  resStoppedAt :: int
  resBackupLabelFile :: string
  resTablespaceMapFile :: string
  resMetadata :: "(string \<rightharpoonup> string) option"
  resBeginLsn :: string
  resEndLsn :: string
  resBackupId :: string
  resInstanceId :: string
  resBeginWal :: string
  resEndWal :: string
  resOnline :: bool

definition recordBackupFailure :: "'w plugin_env \<Rightarrow> string \<Rightarrow> backup_error \<Rightarrow> 'w \<Rightarrow> metric" where
  "recordBackupFailure P cluster err w = Failed cluster (catName (classifyRunBackupError (ctxErr P w) err))"

definition backup_result :: "'w plugin_env \<Rightarrow> backupServiceImplementation \<Rightarrow> string \<Rightarrow> BackupMetadata \<Rightarrow> BackupResult" where
  "backup_result P b backupName metadata =
     \<lparr>resBackupName = backupName, resStartedAt = StartedAt metadata, resStoppedAt = StoppedAt metadata,
      resBackupLabelFile = BackupLabel metadata, resTablespaceMapFile = TablespaceMap metadata,
      resMetadata = Annotations metadata, resBeginLsn = LSNString P (StartLSN metadata),
      resEndLsn = LSNString P (EndLSN metadata), resBackupId = backupName, resInstanceId = InstanceName b,
      resBeginWal = StartWAL metadata, resEndWal = EndWAL metadata, resOnline = True\<rparr>"

definition plugin_Backup ::
  "'w plugin_env \<Rightarrow> backupServiceImplementation \<Rightarrow> bytes \<Rightarrow> 'w \<Rightarrow> (backup_error + BackupResult) \<times> metric list \<times> 'w" where
  "plugin_Backup P b clusterDefinition w =
     (case UnmarshalCluster P clusterDefinition of
        Inl e \<Rightarrow> (Inl (ClusterError e), [], w)
      | Inr (cluster, _) \<Rightarrow>
          let (_, w1) = setRetentionPolicy P w;
              backupName = ''backup-'' @ CompactNow P w1
          in case plugin_runBackup P b backupName w1 of
               (Inl err, w2) \<Rightarrow> (Inl err, [Started cluster, recordBackupFailure P cluster err w2, Finished cluster], w2)
             | (Inr metadata, w2) \<Rightarrow>
                 (case plugin_runVerify P backupName w2 of
                    (Some err, w3) \<Rightarrow> (Inl err, [Started cluster, recordBackupFailure P cluster err w3, Finished cluster], w3)
                  | (None, w3) \<Rightarrow> (Inr (backup_result P b backupName metadata), [Started cluster, Succeeded cluster, Finished cluster], w3)))"

section \<open>What the code relies on\<close>

text \<open>PostgreSQL names places by absolute paths.\<close>

definition pg_paths :: "pg_session \<Rightarrow> bool" where
  "pg_paths pg \<longleftrightarrow> (\<forall>p. ShowDataDirectory pg = Inr p \<longrightarrow> abs_path p) \<and>
     (\<forall>rows e t. TablespaceRows pg = Inr (rows, e) \<longrightarrow> Inr t \<in> set rows \<longrightarrow> tblPath t \<noteq> [] \<longrightarrow> rooted (tblPath t))"

text \<open>
  A connection that was made reads and writes as its host; an answer of CloseBackup is the one of the WAL
  server, on the archive as it is then.
\<close>

definition run_laws ::
  "'w run_env \<Rightarrow> 'w kopia_view \<Rightarrow> ('fs, 'n) Implementation \<Rightarrow> ('w \<Rightarrow> 'fs) \<Rightarrow> bool" where
  "run_laws R V impl archive \<longleftrightarrow>
     kopia_cli_laws (rKopia R) V \<and> host_laws (rHost R) V \<and> foreign_errors (rKopia R) \<and>
     (\<forall>cfg w c w'. ConnectTier1 (rKopia R) (rHost R) cfg w = (Inr c, w') \<longrightarrow> connected V c) \<and>
     (\<forall>dsn w pg. pgxConnect R dsn w = Inr pg \<longrightarrow> pg_paths pg) \<and>
     (\<forall>req w res w'. rpcCloseBackup R req w = (Inr res, w') \<longrightarrow>
        (\<exists>parsePolicy ctx q q'. CloseBackup impl (rLsn R) parsePolicy ctx req (archive w) q = Some (Inr res, q')))"

text \<open>
  A process of klio ends as its command does, unless it is killed (a negative status) or cannot run.
\<close>

definition ends_as :: "exec_error option \<Rightarrow> 'w \<Rightarrow> ((cmd_error + 'a) \<times> 'w) option \<Rightarrow> bool" where
  "ends_as r w' res \<longleftrightarrow>
     (r = None \<longrightarrow> (\<exists>x. res = Some (Inr x, w'))) \<and>
     (\<forall>c. r = Some (ExitError c) \<and> 0 \<le> c \<longrightarrow> (\<exists>e. res = Some (Inl e, w') \<and> c = exit_status (Inl e :: cmd_error + 'a)))"

definition runs_klio :: "'w plugin_env \<Rightarrow> 'w run_env \<Rightarrow> bool" where
  "runs_klio P R \<longleftrightarrow>
     (\<forall>path env name toTier2 w r out w'. RunKlio P path env (run_args name toTier2) w = ((r, out), w') \<longrightarrow>
        ends_as r w' (runBackup R \<lparr>rfName = name, rfWaitWALs = True, rfTier2 = toTier2\<rparr> w)) \<and>
     (\<forall>path env name w r out w'. RunKlio P path env (plugin_verify_args name) w = ((r, out), w') \<longrightarrow>
        ends_as r w' (Some (verifyCmd R False ''tier1'' [name] w))) \<and>
     (\<forall>path env name w r out w'. RunKlio P path env (metadata_args name) w = ((r, out), w') \<longrightarrow>
        ends_as r w' (Some (runGetMetadata R name w)))"

text \<open>
  The backoff of Kubernetes tries a condition at most so many times, until it holds or fails; the end of the
  context stops it.
\<close>

inductive backoff_runs :: "('w \<Rightarrow> ('e + bool) \<times> 'w) \<Rightarrow> nat \<Rightarrow> 'w \<Rightarrow> 'e option option \<Rightarrow> 'w \<Rightarrow> bool"
  for cond where
  succeeded: "cond w = (Inr True, w') \<Longrightarrow> backoff_runs cond (Suc n) w None w'"
| failed: "cond w = (Inl e, w') \<Longrightarrow> backoff_runs cond (Suc n) w (Some (Some e)) w'"
| again: "cond w = (Inr False, w1) \<Longrightarrow> backoff_runs cond n w1 r w' \<Longrightarrow> backoff_runs cond (Suc n) w r w'"
| gave_up: "backoff_runs cond n w (Some None) w"

definition backoff_laws :: "'w plugin_env \<Rightarrow> bool" where
  "backoff_laws P \<longleftrightarrow>
     (\<forall>n cond w r w'. ExponentialBackoffWithContext P n cond w = (r, w') \<longrightarrow> backoff_runs cond n w r w')"

section \<open>What a completed backup is\<close>

definition backup_stored ::
  "'w host_env \<Rightarrow> 'w kopia_view \<Rightarrow> string \<Rightarrow> BackupMetadata \<Rightarrow> 'w \<Rightarrow> 'w \<Rightarrow> bool" where
  "backup_stored H V cfg m w0 w \<longleftrightarrow> (\<exists>j. MarshalBackupJSON H m = Inr j \<and>
     {(Some ''metadata'', None, [''/metadata.json'' \<mapsto> j]),
      (Some ''controldata'', None, visible V (subtree (vFiles V w0) (PgData m @ ''/global/pg_control''))),
      (Some ''pgdata'', None, visible V (pgdata_tree H V w0 (PgData m)))} \<union>
     tablespace_part V w0 ` set (Tablespaces m) \<subseteq> parts V cfg (bkName m) w)"

definition wals_archived ::
  "('fs, 'n) Implementation \<Rightarrow> lsn_math \<Rightarrow> string \<Rightarrow> BackupMetadata \<Rightarrow> 'fs \<Rightarrow> bool" where
  "wals_archived impl L cluster m s \<longleftrightarrow>
     (\<exists>startLSN startPos endLSN endPos.
        LSNStartFromWALName L (StartWAL m) (bkSegmentSize m) = Inr startLSN \<and> LSNParse L startLSN = Inr startPos \<and>
        LSNStartFromWALName L (EndWAL m) (bkSegmentSize m) = Inr endLSN \<and> LSNParse L endLSN = Inr endPos \<and>
        (0 < bkSegmentSize m \<longrightarrow> unat endPos + unat (bkSegmentSize m) < 2 ^ 64 \<longrightarrow>
         (\<forall>k. unat startPos + k * unat (bkSegmentSize m) \<le> unat endPos \<longrightarrow>
            (\<exists>name. WALFileNameAt L (startPos + of_nat k * bkSegmentSize m) (sint (word_of_int (bkTimeline m) :: 32 word))
                      (bkSegmentSize m) = Inr name \<and>
                    IsWALFileExisting (implConn impl) cluster name s = Inr True))))"

section \<open>A concrete backup run\<close>

definition example_data :: Data where
  "example_data =
     \<lparr>dSource = \<lparr>scDSN = ''dsn'', scStandardDSN = ''dsn'', scSlot = ''klio'', scBufferSize = 1\<rparr>,
      dClient = \<lparr>ccClusterName = ''pg'', ccBase = \<lparr>baseURL = ''https://klio'', baseTier2URL = [], baseServerCertPath = ''ca'',
          baseClientCertPath = ''crt'', baseClientKeyPath = ''key''\<rparr>,
        ccWal = \<lparr>wrAddress = ''klio:52000'', wrTier2Address = [], wrServerCertPath = ''ca'', wrClientCertPath = ''crt'',
          wrClientKeyPath = ''key''\<rparr>\<rparr>,
      dTier1RetentionPolicy = None, dTier2RetentionPolicy = None, dTier1CompressionPolicy = None, dTier2CompressionPolicy = None,
      dTier1Enabled = True, dTier2BackupEnabled = False, dTier2RecoveryEnabled = False,
      dWALPrefetch = \<lparr>wpCount = 0, wpMaxConcurrentDownloads = 0\<rparr>\<rparr>"

definition run_archive :: memfs where
  "run_archive = [(''pg/0000000100000000/00000001000000000000000A'', [2])]"

definition run_impl :: "(memfs, mem_nats) Implementation" where
  "run_impl = example_impl\<lparr>implQueue := None\<rparr>"

definition run_request :: CloseBackupRequest where
  "run_request = \<lparr>cbClusterName = ''pg'', cbTimeline = 1, cbStartWal = ''00000001000000000000000A'',
     cbEndWal = ''00000001000000000000000A'', cbSegmentSize = 16, cbSendToTier2 = False, cbTier2CompressionPolicy = []\<rparr>"

definition example_run :: "(go_error + pg_session) \<Rightarrow> box run_env" where
  "example_run pg =
     \<lparr>rKopia = box_env dec_backup, rHost = box_host, rLsn = example_lsn, Unmarshal = Inr example_data,
      pgxConnect = (\<lambda>dsn w. pg), grpcConnect = (\<lambda>c a w. None),
      rpcCloseBackup = (\<lambda>req w. if req = run_request then (Inr \<lparr>Tier2Schedule = False, MissingWalFiles = []\<rparr>, w) else (Inl EOF, w)),
      rpcSetRetentionPolicy = (\<lambda>c p w. (None, w)), rpcGetRetentionPolicy = (\<lambda>c w. (Inr \<lparr>Tier1Policy = None, Tier2Policy = None\<rparr>, w)),
      MarshalCompression = (\<lambda>p. Inr []), Sleep = id, PrintJSON = (\<lambda>w. None)\<rparr>"

text \<open>The processes of the plugin, run in place.\<close>

definition proc_end :: "'w \<Rightarrow> ('a \<Rightarrow> bytes) \<Rightarrow> ((cmd_error + 'a) \<times> 'w) option \<Rightarrow> (exec_error option \<times> bytes) \<times> 'w" where
  "proc_end w print res =
     (case res of
        None \<Rightarrow> ((Some (ExecError EOF), []), w)
      | Some (Inr x, w') \<Rightarrow> ((None, print x), w')
      | Some (Inl e, w') \<Rightarrow> ((Some (ExitError (exit_status (Inl e :: cmd_error + 'a))), []), w'))"

definition klio_proc :: "'w run_env \<Rightarrow> string list \<Rightarrow> 'w \<Rightarrow> (exec_error option \<times> bytes) \<times> 'w" where
  "klio_proc R args w =
     (if take 2 args = [''backup'', ''run'']
      then proc_end w (\<lambda>_. []) (runBackup R \<lparr>rfName = args ! 5, rfWaitWALs = True, rfTier2 = (length args = 7)\<rparr> w)
      else if take 2 args = [''backup'', ''get-metadata''] then proc_end w enc_backup (Some (runGetMetadata R (args ! 4) w))
      else if take 2 args = [''backup'', ''verify'']
      then proc_end w (\<lambda>_. []) (Some (verifyCmd R False (drop 8 (args ! 3)) [args ! 2] w))
      else if args ! 1 = ''set'' then proc_end w (\<lambda>_. []) (Some (retention_setCmd R w))
      else proc_end w (\<lambda>_. []) (Some (retention_getCmd R w)))"

fun backoff_fun :: "nat \<Rightarrow> ('w \<Rightarrow> ('e + bool) \<times> 'w) \<Rightarrow> 'w \<Rightarrow> 'e option option \<times> 'w" where
  "backoff_fun 0 cond w = (Some None, w)"
| "backoff_fun (Suc n) cond w =
     (case cond w of
        (Inl e, w') \<Rightarrow> (Some (Some e), w')
      | (Inr ok, w') \<Rightarrow> if ok then (None, w') else backoff_fun n cond w')"

definition example_plugin :: "(go_error + pg_session) \<Rightarrow> box plugin_env" where
  "example_plugin pg =
     \<lparr>UnmarshalCluster = (\<lambda>b. Inr (''pg'', ''pg-1'')), CompactNow = (\<lambda>w. ''20260101000000''), Executable = Inr ''/klio'',
      Environ = [''PATH=/bin''], RunKlio = (\<lambda>path env. klio_proc (example_run pg)), UnmarshalMetadata = dec_backup,
      ctxErr = (\<lambda>w. None), ExponentialBackoffWithContext = backoff_fun, LSNString = (\<lambda>l. [])\<rparr>"

text \<open>The run, step by step.\<close>

definition run_tiers :: "box MultiConnection" where
  "run_tiers = \<lparr>mcTier1 = Some (connection_client (box_env dec_backup) box_host \<lparr>hostName = ''pg'', userName = ''klio'',
       conKopia = \<lparr>ConfigFile = ''/tmp/kopiaconfig'', KopiaBinary = ''/bin/kopia'', Password = ''mtls''\<rparr>\<rparr>), mcTier2 = None\<rparr>"

definition run_client :: "box klio_client" where "run_client = multi_client run_tiers"

definition run_executor :: BackupExecutor where
  "run_executor = (example_executor ''spc'')\<lparr>beName := ''backup-20260101000000''\<rparr>"

definition policy_box :: "go_error option \<times> box" where
  "policy_box = setTier1CompressionPolicy run_client ''klio'' ''pg'' example_data example_pg_box"

definition run_uploaded :: "go_error option \<times> box" where
  "run_uploaded = Upload run_client run_executor (snd policy_box)"

definition run_closed :: "(go_error + BackupMetadata) \<times> box" where
  "run_closed = Close example_lsn (example_pg ''spc'') run_client run_executor (snd run_uploaded)"

definition run_box :: box where
  "run_box = cClose run_client (snd run_closed)"

definition example_instance :: backupServiceImplementation where
  "example_instance = \<lparr>InstanceName = ''pg-1'', implTier2 = False\<rparr>"

section \<open>Lemmas\<close>

lemma run_lawsD:
  assumes "run_laws R V impl archive"
  shows "ConnectTier1 (rKopia R) (rHost R) cfg w = (Inr c, w') \<Longrightarrow> backup_world (rKopia R) (rHost R) V c"
    and "pgxConnect R dsn w = Inr pg \<Longrightarrow> pg_paths pg"
    and "rpcCloseBackup R req w = (Inr res, w') \<Longrightarrow>
        \<exists>parsePolicy ctx q q'. CloseBackup impl (rLsn R) parsePolicy ctx req (archive w) q = Some (Inr res, q')"
  using assms unfolding run_laws_def backup_world_def by blast+

lemma close_loop_answer:
  assumes "close_loop R waitWALs req w = Some y" and "y = (Inr res, w')"
  shows "\<exists>w0. rpcCloseBackup R req w0 = (Inr res, w') \<and> (waitWALs \<longrightarrow> MissingWalFiles res = [])"
  using assms
proof (induction R waitWALs req w y rule: close_loop.raw_induct [rotated, consumes 1, case_names step])
  case (step f R waitWALs req w y)
  then show ?case by (auto split: prod.splits sum.splits if_splits)
qed

text \<open>The loop ends once the server answers with no WAL missing, or with an error.\<close>

lemma close_loop_returns:
  assumes "\<And>res w'. rpcCloseBackup R req (((\<lambda>w. Sleep R (snd (rpcCloseBackup R req w))) ^^ n) w) = (Inr res, w') \<Longrightarrow> MissingWalFiles res = []"
  shows "\<exists>y. close_loop R waitWALs req w = Some y"
  using assms
proof (induction n arbitrary: w)
  case 0
  then show ?case
    by (subst close_loop.simps) (auto split: prod.splits sum.splits)
next
  case (Suc n)
  obtain r w1 where r: "rpcCloseBackup R req w = (r, w1)" by force
  have "\<exists>y. close_loop R waitWALs req (Sleep R w1) = Some y"
    by (rule Suc.IH) (use Suc.prems [unfolded funpow_Suc_right o_apply r snd_conv] in blast)
  with r show ?case by (subst close_loop.simps) (auto split: sum.splits)
qed

lemma answered_wals:
  assumes "CloseBackup impl L pp ctx (close_request R d fl h m) s q = Some (Inr res, q')" and "MissingWalFiles res = []"
  shows "wals_archived impl L h m s"
proof -
  let ?req = "close_request R d fl h m"
  from assms(1) obtain ms where ck: "checkWALFiles impl L ?req s = Some (Inr ms)"
    by (auto simp: CloseBackup_def split: if_splits option.splits sum.splits prod.splits)
  then obtain a b x y where pos: "LSNStartFromWALName L (cbStartWal ?req) (cbSegmentSize ?req) = Inr a" "LSNParse L a = Inr x"
    "LSNStartFromWALName L (cbEndWal ?req) (cbSegmentSize ?req) = Inr b" "LSNParse L b = Inr y"
    by (auto simp: checkWALFiles_def split: sum.splits)
  have pos': "LSNStartFromWALName L (StartWAL m) (bkSegmentSize m) = Inr a" "LSNStartFromWALName L (EndWAL m) (bkSegmentSize m) = Inr b"
    using pos by (simp_all add: close_request_def)
  have "\<exists>name. WALFileNameAt L (x + of_nat k * bkSegmentSize m) (sint (word_of_int (bkTimeline m) :: 32 word))
        (bkSegmentSize m) = Inr name \<and> IsWALFileExisting (implConn impl) h name s = Inr True"
    if s: "0 < bkSegmentSize m" "unat y + unat (bkSegmentSize m) < 2 ^ 64"
      and k: "unat x + k * unat (bkSegmentSize m) \<le> unat y" for k
  proof -
    have s': "0 < cbSegmentSize ?req" "unat y + unat (cbSegmentSize ?req) < 2 ^ 64"
      using s by (simp_all add: close_request_def)
    from CloseBackup_checked [OF pos s', of impl pp ctx s q] assms(1,2) k show ?thesis
      by (simp add: close_request_def)
  qed
  with pos' pos(2,4) show ?thesis unfolding wals_archived_def by blast
qed

lemma scan_tablespaces_rooted:
  assumes "scan_tablespaces rows acc = (e, tbls)" and "\<forall>t. Inr t \<in> set rows \<longrightarrow> tblPath t \<noteq> [] \<longrightarrow> rooted (tblPath t)"
    and "\<forall>t \<in> set acc. rooted (tblPath t)"
  shows "\<forall>t \<in> set tbls. rooted (tblPath t)"
  using assms
proof (induction rows acc rule: scan_tablespaces.induct)
  case (3 tbl rows acc)
  show ?case by (rule "3.IH") (use "3.prems" in \<open>auto split: if_splits\<close>)
qed auto

lemma be_Start_ok:
  assumes "pg_paths pg" and "be_Start pg n (NewBackupExecutor h) = (None, b)"
  shows "abs_path (bePgData b)" and "\<forall>t \<in> set (beTablespaces b). rooted (tblPath t)" and "n \<noteq> [] \<Longrightarrow> beName b = n"
proof -
  from assms(2) obtain p rows e tbls where s: "ShowDataDirectory pg = Inr p" "TablespaceRows pg = Inr (rows, e)"
    "scan_tablespaces rows [] = (None, tbls)" "bePgData b = p" "beTablespaces b = tbls" "n \<noteq> [] \<longrightarrow> beName b = n"
    by (auto simp: be_Start_def NewBackupExecutor_def Let_def split: sum.splits prod.splits option.splits)
  then show "abs_path (bePgData b)" "n \<noteq> [] \<Longrightarrow> beName b = n" using assms(1) by (auto simp: pg_paths_def)
  show "\<forall>t \<in> set (beTablespaces b). rooted (tblPath t)"
    using scan_tablespaces_rooted [OF s(3)] assms(1) s(2,5) unfolding pg_paths_def by (metis empty_iff list.set(1))
qed

lemma MultiConnect_tier1:
  assumes "MultiConnect E H cfg w = (Inr mc, w1)" and "baseURL (ccBase cfg) \<noteq> []"
  obtains c w0 where "ConnectTier1 E H cfg w = (Inr c, w0)" and "multi_client mc = tiered E H c (mcTier2 mc)"
    and "cGetHostname (multi_client mc) = Inr (hostName c)"
proof -
  from assms obtain c w0 where 1: "ConnectTier1 E H cfg w = (Inr c, w0)" and 2: "mcTier1 mc = Some (connection_client E H c)"
    by (auto simp: MultiConnect_def connect_tier_def split: if_splits prod.splits sum.splits option.splits)
  then have "multi_client mc = tiered E H c (mcTier2 mc)" by (cases mc) (simp add: tiered_def)
  moreover have "cGetHostname (multi_client mc) = Inr (hostName c)"
    using 2 by (simp add: multi_client_def getReadClient_def connection_client_def)
  ultimately show ?thesis using 1 that by blast
qed

lemma runBackup_ok:
  assumes "runBackup R fl w = Some (Inr m, w')"
  obtains d mc w1 h pg wp b w2 w3 w4 res w5 where
    "load_config True True True (Unmarshal R) = Inr d"
    "MultiConnect (rKopia R) (rHost R) (ClientConfig.truncate (dClient d)) w = (Inr mc, w1)"
    "cGetHostname (multi_client mc) = Inr h" "pgxConnect R (scStandardDSN (dSource d)) wp = Inr pg"
    "be_Start pg (rfName fl) (NewBackupExecutor h) = (None, b)" "Upload (multi_client mc) b w2 = (None, w3)"
    "Close (rLsn R) pg (multi_client mc) b w3 = (Inr m, w4)"
    "close_loop R (rfWaitWALs fl) (close_request R d fl h m) w4 = Some (Inr res, w5)"
  using assms unfolding runBackup_def connected_backup_def execute_backup_def report_backup_def
  by (auto split: sum.splits prod.splits option.splits)

lemma load_config_client: "load_config b k s (Inr d0) = Inr d \<Longrightarrow> dClient d = dClient d0"
  by (auto simp: load_config_def Data_SetDefaults_def Let_def split: if_splits option.splits)

lemma connect_cluster: "connectToKopiaServer E H cfg url ro w = (Inr c, w') \<Longrightarrow> hostName c = ccClusterName cfg"
  by (auto simp: connectToKopiaServer_def split: prod.splits sum.splits option.splits if_splits)

text \<open>A backup run that succeeded has stored every part, and every WAL from its start to its end was archived.\<close>

lemma run_is_complete:
  assumes laws: "run_laws R V impl archive" and conf: "Unmarshal R = Inr d" "baseURL (ccBase (dClient d)) \<noteq> []"
    and run: "runBackup R fl w = Some (Inr m, w')" and wait: "rfWaitWALs fl"
  shows "\<exists>c w0 w1 w2. hostName c = ccClusterName (dClient d) \<and> connected V c \<and>
    backup_stored (rHost R) V (ConfigFile (conKopia c)) m w0 w1 \<and>
    wals_archived impl (rLsn R) (hostName c) m (archive w2) \<and> (rfName fl \<noteq> [] \<longrightarrow> bkName m = rfName fl)"
proof -
  from run obtain d' mc v1 h pg wp b w0 v3 w1 res v5 where
    d: "load_config True True True (Unmarshal R) = Inr d'" and
    mc: "MultiConnect (rKopia R) (rHost R) (ClientConfig.truncate (dClient d')) w = (Inr mc, v1)" and
    h: "cGetHostname (multi_client mc) = Inr h" and pg: "pgxConnect R (scStandardDSN (dSource d')) wp = Inr pg" and
    b: "be_Start pg (rfName fl) (NewBackupExecutor h) = (None, b)" and
    up: "Upload (multi_client mc) b w0 = (None, v3)" and cl: "Close (rLsn R) pg (multi_client mc) b v3 = (Inr m, w1)" and
    loop: "close_loop R (rfWaitWALs fl) (close_request R d' fl h m) w1 = Some (Inr res, v5)"
    by (rule runBackup_ok)
  from conf(1) d have client: "dClient d' = dClient d" by (simp add: load_config_client)
  with conf(2) have "baseURL (ccBase (ClientConfig.truncate (dClient d'))) \<noteq> []" by (simp add: ClientConfig.defs)
  from MultiConnect_tier1 [OF mc this] obtain c v0 where
    c: "ConnectTier1 (rKopia R) (rHost R) (ClientConfig.truncate (dClient d')) w = (Inr c, v0)"
    "multi_client mc = tiered (rKopia R) (rHost R) c (mcTier2 mc)" "cGetHostname (multi_client mc) = Inr (hostName c)" .
  have world: "backup_world (rKopia R) (rHost R) V c" by (rule run_lawsD(1) [OF laws c(1)])
  note paths = be_Start_ok [OF run_lawsD(2) [OF laws pg] b]
  note taken = tiers.taken_parts [OF world paths(1,2) up [unfolded c(2)] cl [unfolded c(2)]]
  have "PgData m = bePgData b"
    using cl by (auto simp: Close_def Let_def backup_metadata_def split: sum.splits prod.splits option.splits)
  with taken have "backup_stored (rHost R) V (ConfigFile (conKopia c)) m w0 w1" by (auto simp: backup_stored_def)
  moreover
  from close_loop_answer [OF loop refl] wait obtain w2 where
    w2: "rpcCloseBackup R (close_request R d' fl h m) w2 = (Inr res, v5)" "MissingWalFiles res = []" by auto
  from run_lawsD(3) [OF laws w2(1)] obtain pp ctx q q' where
    "CloseBackup impl (rLsn R) pp ctx (close_request R d' fl h m) (archive w2) q = Some (Inr res, q')" by blast
  from answered_wals [OF this w2(2)] have "wals_archived impl (rLsn R) h m (archive w2)" .
  moreover have "h = hostName c" using h c(3) by simp
  moreover have "hostName c = ccClusterName (dClient d)"
    using connect_cluster [OF c(1) [unfolded ConnectTier1_def]] client by (simp add: ClientConfig.defs)
  moreover have "connected V c" using world by (simp add: backup_world_def)
  ultimately show ?thesis using taken(2) paths(3) by metis
qed

lemmas code_defs = NewCodedError_def RepositoryError_def SourceError_def Verification_def Timeout_def Canceled_def Unknown_def

lemma ByExitCode_Some:
  "ByExitCode c = Some cat \<longleftrightarrow> cat = RepositoryError \<and> c = 69 \<or> cat = SourceError \<and> c = 68 \<or> cat = Verification \<and> c = 65"
  by (auto simp: ByExitCode_def categories_def code_defs)

lemma runBackup_codes:
  assumes "runBackup R fl w = Some (Inl e, w')"
  shows "(\<forall>x c. e = CodedError x c \<longrightarrow> c = 69 \<or> c = 68 \<and> (\<exists>y. x = Wrap ''while connecting to PostgreSQL'' y))"
  using assms unfolding runBackup_def connected_backup_def execute_backup_def report_backup_def
  by (auto simp: code_defs split: sum.splits prod.splits option.splits)

lemma runGetMetadata_codes:
  assumes "runGetMetadata R n w = (Inl (CodedError x c), w')"
  shows "c = 69"
  using assms unfolding runGetMetadata_def with_clients_def print_result_def
  by (auto simp: code_defs split: sum.splits prod.splits option.splits)

lemma verifyCmd_codes:
  assumes "verifyCmd R a t ns w = (Inl (CodedError x c), w')"
  shows "c = 65"
  using assms unfolding verifyCmd_def verify_tier2_def verifyTier_def
  by (auto simp: code_defs Let_def split: sum.splits prod.splits option.splits verify_error.splits if_splits)

lemma runs_klioD:
  assumes "runs_klio P R"
  shows "RunKlio P path env (run_args name toTier2) w = ((r, out), w') \<Longrightarrow>
      ends_as r w' (runBackup R \<lparr>rfName = name, rfWaitWALs = True, rfTier2 = toTier2\<rparr> w)"
    and "RunKlio P path env (plugin_verify_args name) w = ((r, out), w') \<Longrightarrow>
      ends_as r w' (Some (verifyCmd R False ''tier1'' [name] w))"
    and "RunKlio P path env (metadata_args name) w = ((r, out), w') \<Longrightarrow> ends_as r w' (Some (runGetMetadata R name w))"
  by (rule assms [unfolded runs_klio_def, THEN conjunct1, rule_format], assumption)
    (rule assms [unfolded runs_klio_def, THEN conjunct2, THEN conjunct1, rule_format], assumption,
     rule assms [unfolded runs_klio_def, THEN conjunct2, THEN conjunct2, rule_format], assumption)

text \<open>The category the parent reads off the exit status is the one the command meant.\<close>

lemma coded_exit:
  assumes "ends_as (Some (ExitError c)) w' res" and "ByExitCode c = Some cat"
  shows "\<exists>x. res = Some (Inl (NewCodedError x cat), w')"
proof -
  have "0 \<le> c" using assms(2) by (auto simp: ByExitCode_Some)
  with assms(1) obtain e where e: "res = Some (Inl e, w')" "c = exit_status (Inl e :: cmd_error + 'b)"
    by (auto simp: ends_as_def)
  with assms(2) show ?thesis
    by (cases e) (auto simp: exit_status_def ByExitCode_Some code_defs)
qed

lemma classify_cases:
  obtains (child) c where "exit_code_of err = Some c" and "ByExitCode c = Some (classifyRunBackupError ctx err)"
  | (call) "\<And>c. exit_code_of err = Some c \<Longrightarrow> ByExitCode c = None"
      and "classifyRunBackupError ctx err = (case ctx of Some DeadlineExceeded \<Rightarrow> Timeout | Some ContextCanceled \<Rightarrow> Canceled | None \<Rightarrow> Unknown)"
  by (cases "exit_code_of err"; cases "Option.bind (exit_code_of err) ByExitCode") (auto simp: classifyRunBackupError_def)

lemma backoff_failed:
  "backoff_runs cond n w r w' \<Longrightarrow> r = Some (Some e) \<Longrightarrow> \<exists>w1. cond w1 = (Inl e, w')"
  by (induction rule: backoff_runs.induct) auto

lemma plugin_runVerify_failed:
  assumes "backoff_laws P" and "plugin_runVerify P name w = (Some err, w')"
  obtains path w1 out where "err = ErrVerificationCorruption (ExitError 65)"
    and "RunKlio P path (Environ P) (plugin_verify_args name) w1 = ((Some (ExitError 65), out), w')"
proof -
  from assms(2) obtain path e where p: "Executable P = Inr path" "err = ErrVerificationCorruption e"
    "ExponentialBackoffWithContext P verifySteps (verify_attempt P path name) w = (Some (Some err), w')"
    by (auto simp: plugin_runVerify_def split: sum.splits prod.splits option.splits backup_error.splits)
  from assms(1) p(3) have "backoff_runs (verify_attempt P path name) verifySteps w (Some (Some err)) w'"
    unfolding backoff_laws_def by blast
  from backoff_failed [OF this refl] obtain w1 where "verify_attempt P path name w1 = (Inl err, w')" ..
  with p(2) that show ?thesis
    by (auto simp: verify_attempt_def Verification_def split: prod.splits option.splits if_splits)
qed

lemma plugin_Backup_failed:
  assumes "backoff_laws P" and "UnmarshalCluster P cd = Inr (cluster, primary)" and "plugin_Backup P b cd w = (Inl err, metrics, w')"
  shows "metrics = [Started cluster, recordBackupFailure P cluster err w', Finished cluster]"
    and "exit_code_of err = Some c \<Longrightarrow> \<exists>path name w1 out env.
       RunKlio P path env (run_args name (implTier2 b)) w1 = ((Some (ExitError c), out), w') \<or>
       RunKlio P path env (metadata_args name) w1 = ((Some (ExitError c), out), w') \<or>
       c = 65 \<and> RunKlio P path env (plugin_verify_args name) w1 = ((Some (ExitError c), out), w')"
proof -
  let ?n = "''backup-'' @ CompactNow P (snd (setRetentionPolicy P w))"
  from assms(2,3) consider
    (run) "plugin_runBackup P b ?n (snd (setRetentionPolicy P w)) = (Inl err, w')"
      "metrics = [Started cluster, recordBackupFailure P cluster err w', Finished cluster]"
  | (verify) w2 where "plugin_runVerify P ?n w2 = (Some err, w')"
      "metrics = [Started cluster, recordBackupFailure P cluster err w', Finished cluster]"
    by (auto simp: plugin_Backup_def Let_def split: prod.splits sum.splits option.splits)
  note origin = this
  show "metrics = [Started cluster, recordBackupFailure P cluster err w', Finished cluster]" by (cases rule: origin)
  assume c: "exit_code_of err = Some c"
  show "\<exists>path name w1 out env.
       RunKlio P path env (run_args name (implTier2 b)) w1 = ((Some (ExitError c), out), w') \<or>
       RunKlio P path env (metadata_args name) w1 = ((Some (ExitError c), out), w') \<or>
       c = 65 \<and> RunKlio P path env (plugin_verify_args name) w1 = ((Some (ExitError c), out), w')"
  proof (cases rule: origin)
    case run
    with c show ?thesis
      by (auto simp: plugin_runBackup_def exit_code_of_def split: sum.splits prod.splits option.splits exec_error.splits) blast+
  next
    case verify
    with c show ?thesis by (elim plugin_runVerify_failed [OF assms(1)]) (simp add: exit_code_of_def, blast)
  qed
qed

lemma backoff_fun_runs: "backoff_fun n cond w = (r, w') \<Longrightarrow> backoff_runs cond n w r w'"
  by (induction n cond w rule: backoff_fun.induct)
    (auto split: prod.splits sum.splits if_splits intro: backoff_runs.intros)

lemma proc_end_ends: "proc_end w p res = ((r, out), w') \<Longrightarrow> ends_as r w' res"
  by (auto simp: proc_end_def ends_as_def split: option.splits sum.splits)

lemma example_plugin_laws: "runs_klio (example_plugin pg) (example_run pg)" "backoff_laws (example_plugin pg)"
proof -
  have "klio_proc R (run_args n t) w = proc_end w (\<lambda>_. []) (runBackup R \<lparr>rfName = n, rfWaitWALs = True, rfTier2 = t\<rparr> w)"
    "klio_proc R (plugin_verify_args n) w = proc_end w (\<lambda>_. []) (Some (verifyCmd R False ''tier1'' [n] w))"
    "klio_proc R (metadata_args n) w = proc_end w enc_backup (Some (runGetMetadata R n w))" for R :: "box run_env" and n t w
    by (simp_all add: klio_proc_def run_args_def plugin_verify_args_def metadata_args_def)
  then show "runs_klio (example_plugin pg) (example_run pg)"
    by (auto simp: runs_klio_def example_plugin_def dest: proc_end_ends)
  show "backoff_laws (example_plugin pg)"
    by (auto simp: backoff_laws_def example_plugin_def intro: backoff_fun_runs)
qed

lemma box_connected: "connectToKopiaServer (box_env u) box_host cfg url ro w = (Inr c, w') \<Longrightarrow> connected box_view c"
proof -
  have "extractUserNameAndHostName ''klio@pg'' = Inr (''klio'', ''pg'')" by code_simp
  then show "connectToKopiaServer (box_env u) box_host cfg url ro w = (Inr c, w') \<Longrightarrow> connected box_view c"
    by (auto simp: connectToKopiaServer_def connected_def box_host_def split: prod.splits sum.splits option.splits if_splits)
qed

lemma run_request_answer:
  "CloseBackup run_impl example_lsn pp example_ctx run_request run_archive q =
     Some (Inr \<lparr>Tier2Schedule = False, MissingWalFiles = []\<rparr>, q)"
proof -
  have "getWALArchivePath ''pg'' ''00000001000000000000000A'' = ''pg/0000000100000000/00000001000000000000000A''" by code_simp
  then have ex: "IsWALFileExisting mem_connection ''pg'' ''00000001000000000000000A'' run_archive = Inr True"
    by (simp add: IsWALFileExisting_def mem_connection_def mem_afero_def run_archive_def)
  have ok: "ValidatePathComponent ascii_tables ''pg'' = None" "authorizeClusterName example_ctx ''pg'' = None" by code_simp+
  have "check_loop mem_connection example_lsn run_request 24 run_archive 40 [] = Some (Inr [])"
    by (subst check_loop.simps) simp
  then have "check_loop mem_connection example_lsn run_request 24 run_archive 24 [] = Some (Inr [])"
    using ex by (subst check_loop.simps) (simp add: example_lsn_def run_request_def)
  then have "checkWALFiles run_impl example_lsn run_request run_archive = Some (Inr [])"
    by (simp add: checkWALFiles_def run_impl_def example_impl_def example_lsn_def run_request_def)
  with ok show ?thesis by (simp add: CloseBackup_def run_impl_def example_impl_def run_request_def)
qed

lemma example_run_laws:
  assumes "\<And>s. pg = Inr s \<Longrightarrow> pg_paths s"
  shows "run_laws (example_run pg) box_view run_impl (\<lambda>w. run_archive)"
  using assms box_laws box_host_laws box_foreign box_connected run_request_answer
  by (auto simp: run_laws_def example_run_def ConnectTier1_def split: if_splits) blast

lemma example_config:
  "load_config True True True (Inr example_data) = Inr (Data_SetDefaults example_data)"
  "load_config False True False (Inr example_data) = Inr (Data_SetDefaults example_data)"
  "dClient (Data_SetDefaults example_data) = dClient example_data"
  by code_simp+

lemma run_connects:
  "MultiConnect (box_env dec_backup) box_host (ClientConfig.truncate (dClient example_data)) w = (Inr run_tiers, w)"
proof -
  have "extractUserNameAndHostName ''klio@pg'' = Inr (''klio'', ''pg'')" by code_simp
  then show ?thesis
    by (simp add: MultiConnect_def connect_tier_def ConnectTier1_def connectToKopiaServer_def box_host_def box_env_def example_data_def
        ClientConfig.defs LookupBinary_def Binary_def ConnectRemote_def RunWithLogCapture_def bx_run_def buildConnectRemoteArgs_def
        run_tiers_def cli_simps Let_def)
qed

lemma run_steps: "fst policy_box = None" "fst run_uploaded = None" "\<not> isl (fst run_closed)"
  by code_simp+

lemma run_metadata_read:
  "\<not> isl (fst (runGetMetadata (example_run (Inr (example_pg ''spc''))) ''backup-20260101000000'' run_box))"
  by code_simp

lemma retention_run: "setRetentionPolicy (example_plugin pg) w = (None, w)"
  by (simp add: setRetentionPolicy_def example_plugin_def klio_proc_def retention_setCmd_def retention_getCmd_def
      with_wal_server_def example_run_def example_config proc_end_def)

lemma example_request: "close_request (example_run pg) d \<lparr>rfName = n, rfWaitWALs = True, rfTier2 = False\<rparr> ''pg'' (projr (fst run_closed)) =
    run_request"
proof -
  obtain m w where c: "run_closed = (Inr m, w)" using run_steps(3) by (metis isl_def prod.collapse sum.exhaust)
  then have "projr (fst run_closed) = backup_metadata example_lsn (example_pg ''spc'') run_executor 80 ''LABEL'' ''MAP''"
    by (auto simp: run_closed_def Close_def example_pg_def Let_def split: prod.splits option.splits)
  then show ?thesis
    by (simp add: close_request_def run_request_def backup_metadata_def example_pg_def example_lsn_def example_run_def
        marshalTier2CompressionPolicy_def Let_def)
qed

lemma backup_runs:
  "runBackup (example_run (Inr (example_pg ''spc''))) \<lparr>rfName = ''backup-20260101000000'', rfWaitWALs = True, rfTier2 = False\<rparr> example_pg_box =
     Some (Inr (projr (fst run_closed)), run_box)"
proof -
  let ?R = "example_run (Inr (example_pg ''spc''))" and ?d = "Data_SetDefaults example_data"
  have names: "cGetUsername run_client = Inr ''klio''" "cGetHostname run_client = Inr ''pg''"
    by (simp_all add: run_client_def run_tiers_def multi_client_def getReadClient_def connection_client_def)
  have start: "be_Start (example_pg ''spc'') ''backup-20260101000000'' (NewBackupExecutor ''pg'') = (None, run_executor)"
    by (simp add: run_executor_def example_executor be_Start_def example_pg_def NewBackupExecutor_def Let_def)
  have policy: "setTier1CompressionPolicy run_client ''klio'' ''pg'' ?d example_pg_box = (None, snd policy_box)"
    using run_steps(1) by (simp add: policy_box_def prod_eq_iff setTier1CompressionPolicy_def Data_SetDefaults_def)
  have up: "Upload run_client run_executor (snd policy_box) = (None, snd run_uploaded)"
    using run_steps(2) by (simp add: run_uploaded_def prod_eq_iff)
  have close: "Close example_lsn (example_pg ''spc'') run_client run_executor (snd run_uploaded) = (Inr (projr (fst run_closed)), snd run_closed)"
    using run_steps(3) by (simp add: run_closed_def prod_eq_iff)
  have loop: "close_loop ?R True run_request w = Some (Inr \<lparr>Tier2Schedule = False, MissingWalFiles = []\<rparr>, w)" for w
    by (subst close_loop.simps) (simp add: example_run_def)
  have fields: "rKopia ?R = box_env dec_backup" "rHost ?R = box_host" "Unmarshal ?R = Inr example_data" "rLsn ?R = example_lsn"
    "pgxConnect ?R dsn w = Inr (example_pg ''spc'')" "grpcConnect ?R c a w = None" "PrintJSON ?R w = None" for dsn w c a
    by (simp_all add: example_run_def)
  show ?thesis
    by (simp add: runBackup_def connected_backup_def execute_backup_def report_backup_def fields example_config run_connects
        run_client_def [symmetric] names policy start up close example_request loop run_box_def)
qed

lemma box_finds_no_corruption: "verifyTier (box_env u) c opts n w = (Inl e, w') \<Longrightarrow> \<exists>x. e = Plain x"
proof -
  have "ErrorCount (parseVerifyOutput (box_env u) b) = 0" for b by (simp add: parseVerifyOutput_def box_env_def)
  then have zero: "VerifySnapshots (conn_verifier (box_env u) c) ids k = ((n, r), k') \<Longrightarrow> n = 0" for ids k n r k'
    by (auto simp: conn_verifier_def cli_VerifySnapshots_def split: prod.splits option.splits)
  show "verifyTier (box_env u) c opts n w = (Inl e, w') \<Longrightarrow> \<exists>x. e = Plain x"
    by (auto simp: verifyTier_def VerifyBackups_def verifyAllBackups_def verifySpecificBackups_def verify_ids_def classifyVerifyError_def
        dest!: zero split: prod.splits option.splits sum.splits if_splits verify_error.splits)
qed

lemma verification_passes: "\<exists>w'. plugin_runVerify (example_plugin pg) n w = (None, w')"
proof -
  have "verifyCmd (example_run pg) False t ns w = (Inl (CodedError x c), w') \<Longrightarrow> False" for t ns w x c w'
    by (auto simp: verifyCmd_def verify_tier2_def example_run_def Let_def dest: box_finds_no_corruption
        split: prod.splits option.splits sum.splits if_splits)
  then have "verify_attempt (example_plugin pg) k n w1 \<noteq> (Inl e, w')" for k w1 e w'
    by (auto simp: verify_attempt_def example_plugin_def klio_proc_def plugin_verify_args_def proc_end_def exit_status_def Verification_def
        split: prod.splits option.splits sum.splits if_splits cmd_error.splits)
  then show ?thesis
    using backoff_failed [OF backoff_fun_runs]
    by (fastforce simp: plugin_runVerify_def example_plugin_def split: prod.splits option.splits backup_error.splits)
qed

lemma example_backup: "\<exists>res ms w'. plugin_Backup (example_plugin (Inr (example_pg ''spc''))) example_instance [] example_pg_box = (Inr res, ms, w') \<and>
    resBackupName res = ''backup-20260101000000''"
proof -
  let ?n = "''backup-20260101000000''" and ?P = "example_plugin (Inr (example_pg ''spc''))"
  obtain m w1 where meta: "runGetMetadata (example_run (Inr (example_pg ''spc''))) ?n run_box = (Inr m, w1)"
    using run_metadata_read by (metis isl_def prod.collapse sum.exhaust)
  obtain m' where "dec_backup (enc_backup m) = Inr m'"
    by (simp add: dec_backup_def enc_backup_def dec_enc_strings)
  with meta backup_runs have run: "plugin_runBackup ?P example_instance ?n example_pg_box = (Inr m', w1)"
    by (simp add: plugin_runBackup_def example_plugin_def example_instance_def klio_proc_def run_args_def metadata_args_def proc_end_def)
  obtain w2 where verify: "plugin_runVerify ?P ?n w1 = (None, w2)" using verification_passes by blast
  have "UnmarshalCluster ?P [] = Inr (''pg'', ''pg-1'')" "CompactNow ?P w = ''20260101000000''" for w
    by (simp_all add: example_plugin_def)
  with run verify show ?thesis by (simp add: plugin_Backup_def retention_run backup_result_def Let_def)
qed

section \<open>Properties\<close>



text \<open>
  The failure category in the metrics names what went wrong.  A failed backup is counted once, under one of
  the six categories: as a source error only when the command could not connect to PostgreSQL, as a verification
  error only when the verification found corrupt objects, as a repository error only when the run or the reading of the
  metadata ended with that code, and as timeout, canceled or unknown by the state of the call.
\<close>

lemma failure_category_is_the_cause:
  assumes "runs_klio P R" and "backoff_laws P" and "UnmarshalCluster P clusterDefinition = Inr (cluster, primary)"
    and "plugin_Backup P b clusterDefinition w = (Inl err, metrics, w')"
  shows "\<exists>cat name w1. cat \<in> set categories \<and> metrics = [Started cluster, Failed cluster (catName cat), Finished cluster] \<and>
    (cat = SourceError \<longrightarrow> (\<exists>e. runBackup R \<lparr>rfName = name, rfWaitWALs = True, rfTier2 = implTier2 b\<rparr> w1 =
       Some (Inl (NewCodedError (Wrap ''while connecting to PostgreSQL'' e) SourceError), w'))) \<and>
    (cat = Verification \<longrightarrow> (\<exists>e. verifyCmd R False ''tier1'' [name] w1 = (Inl (NewCodedError e Verification), w'))) \<and>
    (cat = RepositoryError \<longrightarrow> (\<exists>e. runBackup R \<lparr>rfName = name, rfWaitWALs = True, rfTier2 = implTier2 b\<rparr> w1 =
         Some (Inl (NewCodedError e RepositoryError), w') \<or>
       runGetMetadata R name w1 = (Inl (NewCodedError e RepositoryError), w'))) \<and>
    (cat = Timeout \<longrightarrow> ctxErr P w' = Some DeadlineExceeded) \<and> (cat = Canceled \<longrightarrow> ctxErr P w' = Some ContextCanceled) \<and>
    (cat = Unknown \<longrightarrow> ctxErr P w' = None)"
proof -
  note F = plugin_Backup_failed [OF assms(2-4)]
  let ?cat = "classifyRunBackupError (ctxErr P w') err"
  have m: "metrics = [Started cluster, Failed cluster (catName ?cat), Finished cluster]"
    using F(1) by (simp add: recordBackupFailure_def)
  show ?thesis
  proof (cases rule: classify_cases [of err "ctxErr P w'"])
    case (child c)
    from F(2) [OF child(1)] obtain path name w1 out env where
      "RunKlio P path env (run_args name (implTier2 b)) w1 = ((Some (ExitError c), out), w') \<or>
       RunKlio P path env (metadata_args name) w1 = ((Some (ExitError c), out), w') \<or>
       c = 65 \<and> RunKlio P path env (plugin_verify_args name) w1 = ((Some (ExitError c), out), w')" by blast
    then show ?thesis
    proof (elim disjE conjE)
      assume "RunKlio P path env (run_args name (implTier2 b)) w1 = ((Some (ExitError c), out), w')"
      from coded_exit [OF runs_klioD(1) [OF assms(1) this] child(2)] obtain x where
        "runBackup R \<lparr>rfName = name, rfWaitWALs = True, rfTier2 = implTier2 b\<rparr> w1 = Some (Inl (NewCodedError x ?cat), w')" ..
      with m runBackup_codes [OF this] show ?thesis
        by (intro exI [of _ ?cat] exI [of _ name] exI [of _ w1]) (use child(2) in \<open>auto simp: ByExitCode_Some categories_def code_defs\<close>)
    next
      assume "RunKlio P path env (metadata_args name) w1 = ((Some (ExitError c), out), w')"
      from coded_exit [OF runs_klioD(3) [OF assms(1) this] child(2)] obtain x where
        "runGetMetadata R name w1 = (Inl (NewCodedError x ?cat), w')" by auto
      with m runGetMetadata_codes [OF this [unfolded NewCodedError_def]] show ?thesis
        by (intro exI [of _ ?cat] exI [of _ name] exI [of _ w1]) (use child(2) in \<open>auto simp: ByExitCode_Some categories_def code_defs\<close>)
    next
      assume "c = 65" and "RunKlio P path env (plugin_verify_args name) w1 = ((Some (ExitError c), out), w')"
      from this(1) coded_exit [OF runs_klioD(2) [OF assms(1) this(2)] child(2)] obtain x where
        "verifyCmd R False ''tier1'' [name] w1 = (Inl (NewCodedError x ?cat), w')" by auto
      with m show ?thesis
        by (intro exI [of _ ?cat] exI [of _ name] exI [of _ w1])
          (use child(2) \<open>c = 65\<close> in \<open>auto simp: ByExitCode_Some categories_def code_defs\<close>)
    qed
  next
    case call
    with m show ?thesis
      by (intro exI [of _ ?cat] exI [of _ "[]"] exI [of _ w])
        (auto simp: categories_def code_defs split: option.splits ctx_error.splits)
  qed
qed

end
