(* ===== verification/Operator_Plugin.thy ===== *)
theory Operator_Plugin
  imports Klio_Config "HOL-Library.AList"
begin

text \<open>
  The operator's side of the PostgreSQL plugin: the PluginConfiguration resource (operator/api/v1alpha1), the
  configuration generated from it (operator/internal/klioconfig), its controller, the reconciler hooks and the
  lifecycle hook that puts the Klio sidecar into the pods of a cluster (operator/internal/cnpgi).

  The Kubernetes API and the types of CloudNativePG are not part of the repository.  Objects are records of
  the fields that the code reads or writes; what the code calls on them are the records \<open>cnpg_api\<close>,
  \<open>kube_resource\<close> and \<open>op_env\<close>.  Go maps are association lists in the order of their iteration.  A hook
  returns the mutated object; the JSON patch against the original is not modelled.
\<close>

section \<open>Kubernetes objects\<close>

datatype projection = SecretProjection string "(string \<times> string) list" | OtherProjection string

record file_source =
  fsName :: string
  fsDefaultMode :: "int option"

record projected_source =
  pjSources :: "projection list"
  pjDefaultMode :: "int option"

record VolumeSource =
  vsSecret :: "file_source option"
  vsConfigMap :: "file_source option"
  vsProjected :: "projected_source option"
  vsCSI :: "string option"
  vsEmptyDir :: bool

record Volume =
  volName :: string
  volSource :: VolumeSource

record VolumeMount =
  vmName :: string
  vmMountPath :: string
  vmReadOnly :: bool

datatype env_source = FieldRef string | SecretKeyRef string string

record EnvVar =
  evName :: string
  evValue :: string
  evFrom :: "env_source option"

text \<open>The field \<open>cRest\<close> stands for the fields of a container that are only carried along.\<close>

record Container =
  cName :: string
  cImage :: string
  cArgs :: "string list"
  cEnv :: "EnvVar list"
  cVolumeMounts :: "VolumeMount list"
  cImagePullPolicy :: string
  cRestartPolicy :: "string option"
  cSecurityContext :: "(int \<times> int) option"
  cRest :: string

record PodSpec =
  psContainers :: "Container list"
  psInitContainers :: "Container list"
  psVolumes :: "Volume list"

definition empty_container :: "string \<Rightarrow> Container" where
  "empty_container n = \<lparr>cName = n, cImage = [], cArgs = [], cEnv = [], cVolumeMounts = [], cImagePullPolicy = [],
     cRestartPolicy = None, cSecurityContext = None, cRest = []\<rparr>"

definition no_volume_source :: VolumeSource where
  "no_volume_source = \<lparr>vsSecret = None, vsConfigMap = None, vsProjected = None, vsCSI = None, vsEmptyDir = False\<rparr>"

section \<open>operator/api/v1alpha1\<close>

datatype ServerMode = ModeStandard | ModeReadOnly

text \<open>The volume sources that the resources admit have no emptyDir.\<close>

definition ToCoreV1 :: "VolumeSource \<Rightarrow> VolumeSource" where
  "ToCoreV1 s = no_volume_source\<lparr>vsSecret := vsSecret s, vsConfigMap := vsConfigMap s, vsProjected := vsProjected s, vsCSI := vsCSI s\<rparr>"

record VolumeFileReference =
  vfVolume :: VolumeSource
  vfPath :: string

record TLSIdentity =
  tiVolume :: VolumeSource
  tiCertPath :: string
  tiKeyPath :: string

record PluginTLSConfiguration =
  ptClientIdentity :: TLSIdentity
  ptServerCA :: VolumeFileReference

record Tier1PluginConfiguration =
  p1Retention :: "ConfigRetentionPolicy option"
  p1Compression :: "CompressionPolicy option"

record Tier2PluginConfiguration =
  p2EnableBackup :: bool
  p2EnableRecovery :: bool
  p2Retention :: "ConfigRetentionPolicy option"
  p2Compression :: "CompressionPolicy option"

record PluginConfigurationSpec =
  pcServerAddress :: string
  pcTier1 :: "Tier1PluginConfiguration option"
  pcTier2 :: "Tier2PluginConfiguration option"
  pcWALPrefetch :: "WALPrefetchConfig option"
  pcTLS :: PluginTLSConfiguration
  pcClusterName :: string
  pcPprof :: bool
  pcMode :: ServerMode
  pcContainers :: "Container list"

record PluginConfiguration =
  pcName :: string
  pcNamespace :: string
  pcSpec :: PluginConfigurationSpec

definition GetWALPrefetch :: "PluginConfigurationSpec \<Rightarrow> WALPrefetchConfig" where
  "GetWALPrefetch s =
     (case pcWALPrefetch s of
        None \<Rightarrow> \<lparr>wpCount = 2, wpMaxConcurrentDownloads = 4\<rparr>
      | Some result \<Rightarrow> if wpMaxConcurrentDownloads result = 0 then result\<lparr>wpMaxConcurrentDownloads := 4\<rparr> else result)"

text \<open>
  What the validation rules on these types make the API server check.  A path is relative and has no double dot;
  the sizes are of type int64.
\<close>

definition relative_path :: "string \<Rightarrow> bool" where
  "relative_path p \<longleftrightarrow> p \<noteq> [] \<and> hd p \<noteq> CHR ''/'' \<and> ''..'' \<notin> set (split_on (CHR ''/'') p)"

definition crdCompressionAlgorithms :: "string list" where
  "crdCompressionAlgorithms = [''none'', ''deflate-best-compression'', ''deflate-best-speed'', ''deflate-default'', ''gzip'',
     ''gzip-best-compression'', ''gzip-best-speed'', ''pgzip'', ''pgzip-best-compression'', ''pgzip-best-speed'', ''s2-better'',
     ''s2-default'', ''s2-parallel-4'', ''s2-parallel-8'', ''zstd'', ''zstd-better-compression'', ''zstd-fastest'']"

definition compression_admitted :: "CompressionPolicy option \<Rightarrow> bool" where
  "compression_admitted c \<longleftrightarrow>
     (case c of None \<Rightarrow> True
      | Some p \<Rightarrow> Algorithm p \<in> set crdCompressionAlgorithms \<and> 0 \<le> MinSize p \<and> MinSize p < 2 ^ 63 \<and> 0 \<le> MaxSize p \<and> MaxSize p < 2 ^ 63 \<and>
          (MaxSize p = 0 \<or> MinSize p \<le> MaxSize p))"

definition plugin_admitted :: "PluginConfigurationSpec \<Rightarrow> bool" where
  "plugin_admitted s \<longleftrightarrow>
     pcServerAddress s \<noteq> [] \<and> pcClusterName s \<noteq> [] \<and>
     relative_path (tiCertPath (ptClientIdentity (pcTLS s))) \<and> relative_path (tiKeyPath (ptClientIdentity (pcTLS s))) \<and>
     relative_path (vfPath (ptServerCA (pcTLS s))) \<and>
     (case pcTier1 s of None \<Rightarrow> True | Some t \<Rightarrow> compression_admitted (p1Compression t)) \<and>
     (case pcTier2 s of None \<Rightarrow> True | Some t \<Rightarrow> compression_admitted (p2Compression t) \<and> (p2EnableBackup t \<or> p2EnableRecovery t)) \<and>
     (pcMode s = ModeReadOnly \<longrightarrow>
        (case pcTier2 s of None \<Rightarrow> False | Some t \<Rightarrow> \<not> p2EnableBackup t \<and> p2EnableRecovery t \<and> p2Compression t = None) \<and>
        pcTier1 s = None) \<and>
     (case pcWALPrefetch s of None \<Rightarrow> True | Some w \<Rightarrow> 0 \<le> wpCount w \<and> wpCount w \<le> 64 \<and> 1 \<le> wpMaxConcurrentDownloads w \<and> wpMaxConcurrentDownloads w \<le> 64) \<and>
     length (pcContainers s) \<le> 1 \<and> list_all (\<lambda>c. cName c = ''klio-plugin'') (pcContainers s)"

section \<open>operator/internal/klioconfig/config.go\<close>

definition PluginName :: string where "PluginName = ''klio.cnpg.io''"
definition op_ArchiveConfigKey :: string where "op_ArchiveConfigKey = ''klio-archive''"
definition op_KlioConfigDir :: string where "op_KlioConfigDir = ''/var/lib/postgresql/klio''"
definition PluginConfigurationRefParam :: string where "PluginConfigurationRefParam = ''pluginConfigurationRef''"
definition ConfigDataKey :: string where "ConfigDataKey = ''config.yaml''"
definition TypeLabelKey :: string where "TypeLabelKey = ''klio.cnpg.io/type''"
definition TypeLabelValue :: string where "TypeLabelValue = ''klio-config''"
definition KlioTier1HTTPPort :: string where "KlioTier1HTTPPort = ''11515''"
definition KlioTier2HTTPPort :: string where "KlioTier2HTTPPort = ''11516''"
definition KlioTier1GRPCPort :: string where "KlioTier1GRPCPort = ''12000''"
definition KlioTier2GRPCPort :: string where "KlioTier2GRPCPort = ''12001''"

definition GetServerSecretVolumeMountPath :: "string \<Rightarrow> string" where
  "GetServerSecretVolumeMountPath host = ''/server-certs/'' @ host"

definition GetClientSecretVolumeMountPath :: "string \<Rightarrow> string" where
  "GetClientSecretVolumeMountPath host = ''/client-certs/'' @ host"

text \<open>net.JoinHostPort puts a host with a colon or a percent sign into brackets.\<close>

definition JoinHostPort :: "string \<Rightarrow> string \<Rightarrow> string" where
  "JoinHostPort host port =
     (if CHR '':'' \<in> set host \<or> CHR ''%'' \<in> set host then ''['' @ host @ '']:'' @ port else host @ '':'' @ port)"

definition convertRetentionPolicy :: "ConfigRetentionPolicy option \<Rightarrow> ConfigRetentionPolicy option" where
  "convertRetentionPolicy p = map_option (\<lambda>r. \<lparr>crLatest = crLatest r\<rparr>) p"

definition convertTier1RetentionPolicy :: "Tier1PluginConfiguration option \<Rightarrow> ConfigRetentionPolicy option" where
  "convertTier1RetentionPolicy tier1 = Option.bind tier1 (\<lambda>t. convertRetentionPolicy (p1Retention t))"

definition convertTier2RetentionPolicy :: "Tier2PluginConfiguration option \<Rightarrow> ConfigRetentionPolicy option" where
  "convertTier2RetentionPolicy tier2 = Option.bind tier2 (\<lambda>t. convertRetentionPolicy (p2Retention t))"

definition convertCompressionPolicy :: "CompressionPolicy option \<Rightarrow> CompressionPolicy option" where
  "convertCompressionPolicy p = map_option (\<lambda>c. \<lparr>Algorithm = Algorithm c, MinSize = MinSize c, MaxSize = MaxSize c\<rparr>) p"

definition convertTier1CompressionPolicy :: "Tier1PluginConfiguration option \<Rightarrow> CompressionPolicy option" where
  "convertTier1CompressionPolicy tier1 = Option.bind tier1 (\<lambda>t. convertCompressionPolicy (p1Compression t))"

definition convertTier2CompressionPolicy :: "Tier2PluginConfiguration option \<Rightarrow> CompressionPolicy option" where
  "convertTier2CompressionPolicy tier2 = Option.bind tier2 (\<lambda>t. convertCompressionPolicy (p2Compression t))"

definition GenerateConfig :: "PluginConfigurationSpec \<Rightarrow> string \<Rightarrow> Data" where
  "GenerateConfig spec configKey =
     (let serverCertPath = path_Join [GetServerSecretVolumeMountPath configKey, vfPath (ptServerCA (pcTLS spec))];
          clientIdentityMount = GetClientSecretVolumeMountPath configKey;
          clientCertPath = path_Join [clientIdentityMount, tiCertPath (ptClientIdentity (pcTLS spec))];
          clientKeyPath = path_Join [clientIdentityMount, tiKeyPath (ptClientIdentity (pcTLS spec))];
          tier1 = (pcMode spec \<noteq> ModeReadOnly);
          tier2 = (case pcTier2 spec of None \<Rightarrow> False | Some t \<Rightarrow> p2EnableBackup t \<or> p2EnableRecovery t);
          address = pcServerAddress spec
      in \<lparr>dSource = \<lparr>scDSN = ''user=postgres replication=yes application_name=klio'',
            scStandardDSN = ''user=postgres application_name=klio'', scSlot = ''klio'', scBufferSize = 0\<rparr>,
          dClient = \<lparr>ccClusterName = pcClusterName spec,
            ccBase = \<lparr>baseURL = (if tier1 then ''https://'' @ JoinHostPort address KlioTier1HTTPPort else []),
              baseTier2URL = (if tier2 then ''https://'' @ JoinHostPort address KlioTier2HTTPPort else []),
              baseServerCertPath = serverCertPath, baseClientCertPath = clientCertPath, baseClientKeyPath = clientKeyPath\<rparr>,
            ccWal = \<lparr>wrAddress = (if tier1 then JoinHostPort address KlioTier1GRPCPort else []),
              wrTier2Address = (if tier2 then JoinHostPort address KlioTier2GRPCPort else []),
              wrServerCertPath = serverCertPath, wrClientCertPath = clientCertPath, wrClientKeyPath = clientKeyPath\<rparr>\<rparr>,
          dTier1RetentionPolicy = convertTier1RetentionPolicy (pcTier1 spec),
          dTier2RetentionPolicy = convertTier2RetentionPolicy (pcTier2 spec),
          dTier1CompressionPolicy = convertTier1CompressionPolicy (pcTier1 spec),
          dTier2CompressionPolicy = convertTier2CompressionPolicy (pcTier2 spec),
          dTier1Enabled = tier1,
          dTier2BackupEnabled = (case pcTier2 spec of None \<Rightarrow> False | Some t \<Rightarrow> p2EnableBackup t),
          dTier2RecoveryEnabled = (case pcTier2 spec of None \<Rightarrow> False | Some t \<Rightarrow> p2EnableRecovery t),
          dWALPrefetch = \<lparr>wpCount = wpCount (GetWALPrefetch spec),
            wpMaxConcurrentDownloads = wpMaxConcurrentDownloads (GetWALPrefetch spec)\<rparr>\<rparr>)"

subsection \<open>The plugins of a cluster\<close>

record CnpgPlugin =
  cpName :: string
  cpEnabled :: "bool option"
  cpParameters :: "(string \<times> string) list"

record CnpgExternalCluster =
  ecName :: string
  ecPlugin :: "CnpgPlugin option"

record CnpgCluster =
  clName :: string
  clNamespace :: string
  clGroup :: string
  clVersion :: string
  clImagePullPolicy :: string
  clPlugins :: "CnpgPlugin list"
  clExternalClusters :: "CnpgExternalCluster list"
  clRecoverySource :: "string option"
  clReplicaSource :: "string option"
  clCurrentPrimary :: string
  clTargetPrimary :: string

record cnpg_api =
  IsEnabled :: "CnpgPlugin \<Rightarrow> bool"
  GetServerName :: "CnpgExternalCluster \<Rightarrow> string"
  GetRecoverySourcePlugin :: "CnpgCluster \<Rightarrow> CnpgPlugin option"
  ExternalCluster :: "CnpgCluster \<Rightarrow> string \<Rightarrow> CnpgExternalCluster"
  IsReplica :: "CnpgCluster \<Rightarrow> bool"
  defaultGroup :: string
  defaultVersion :: string

datatype api_error = ApiNotFound | ApiError go_error

datatype op_error = PluginConfigurationNotFoundError string | OpWrap string op_error | OpError go_error

fun IsPluginConfigurationNotFound :: "op_error \<Rightarrow> bool" where
  "IsPluginConfigurationNotFound (PluginConfigurationNotFoundError n) = True"
| "IsPluginConfigurationNotFound (OpWrap m e) = IsPluginConfigurationNotFound e"
| "IsPluginConfigurationNotFound (OpError e) = False"

record configuration =
  cnpgPluginConfiguration :: "CnpgPlugin option"
  klioPluginConfiguration :: "PluginConfiguration option"

type_synonym get_pc = "string \<Rightarrow> string \<Rightarrow> api_error + PluginConfiguration"

text \<open>A parameter that is missing or empty reads as the empty string.\<close>

definition cnpg_parameter :: "CnpgPlugin \<Rightarrow> string \<Rightarrow> string" where
  "cnpg_parameter p n = (case map_of (cpParameters p) n of None \<Rightarrow> [] | Some v \<Rightarrow> v)"

definition getParameter :: "CnpgPlugin \<Rightarrow> string \<Rightarrow> op_error + string" where
  "getParameter cfg n =
     (if cnpg_parameter cfg n = [] then Inl (OpError (Sentinel ''plugin configuration does not contain the parameter''))
      else Inr (cnpg_parameter cfg n))"

definition getArchivePluginConfiguration :: "CnpgCluster \<Rightarrow> CnpgPlugin option" where
  "getArchivePluginConfiguration cluster = List.find (\<lambda>p. cpName p = PluginName) (clPlugins cluster)"

definition get_referenced :: "get_pc \<Rightarrow> CnpgCluster \<Rightarrow> string \<Rightarrow> op_error + PluginConfiguration" where
  "get_referenced get cluster ref =
     (case get (clNamespace cluster) ref of
        Inl ApiNotFound \<Rightarrow> Inl (PluginConfigurationNotFoundError ref)
      | Inl (ApiError e) \<Rightarrow> Inl (OpError (Wrap ''failed to get configuration'' e))
      | Inr pc \<Rightarrow> Inr pc)"

definition getArchivePluginConfigurations ::
  "get_pc \<Rightarrow> CnpgCluster \<Rightarrow> op_error + (string \<times> configuration) list" where
  "getArchivePluginConfigurations get cluster =
     (case getArchivePluginConfiguration cluster of
        None \<Rightarrow> Inr []
      | Some p \<Rightarrow>
          (case getParameter p PluginConfigurationRefParam of
             Inl e \<Rightarrow> Inl (OpError (Sentinel ''ref parameter is not specified in the plugin configuration''))
           | Inr ref \<Rightarrow>
               (case get_referenced get cluster ref of
                  Inl e \<Rightarrow> Inl e
                | Inr pc \<Rightarrow> Inr [(op_ArchiveConfigKey, \<lparr>cnpgPluginConfiguration = Some p, klioPluginConfiguration = Some pc\<rparr>)])))"

definition addExternalClusterConfiguration ::
  "cnpg_api \<Rightarrow> get_pc \<Rightarrow> CnpgCluster \<Rightarrow> CnpgExternalCluster \<Rightarrow> (string \<times> configuration) list \<Rightarrow>
   op_error + (string \<times> configuration) list" where
  "addExternalClusterConfiguration A get cluster ext configurations =
     (case ecPlugin ext of
        None \<Rightarrow> Inr configurations
      | Some p \<Rightarrow>
          if cpName p \<noteq> PluginName \<or> \<not> IsEnabled A p then Inr configurations
          else let ref = cnpg_parameter p PluginConfigurationRefParam
               in if ref = []
                  then Inr (AList.update (GetServerName A ext)
                         \<lparr>cnpgPluginConfiguration = Some p, klioPluginConfiguration = None\<rparr> configurations)
                  else (case get_referenced get cluster ref of
                          Inl e \<Rightarrow> Inl e
                        | Inr pc \<Rightarrow> Inr (AList.update (GetServerName A ext)
                            \<lparr>cnpgPluginConfiguration = Some p, klioPluginConfiguration = Some pc\<rparr> configurations)))"

fun add_external_clusters ::
  "cnpg_api \<Rightarrow> get_pc \<Rightarrow> CnpgCluster \<Rightarrow> CnpgExternalCluster list \<Rightarrow> (string \<times> configuration) list \<Rightarrow>
   op_error + (string \<times> configuration) list" where
  "add_external_clusters A get cluster [] configurations = Inr configurations"
| "add_external_clusters A get cluster (ext # exts) configurations =
     (case addExternalClusterConfiguration A get cluster ext configurations of
        Inl e \<Rightarrow> Inl e
      | Inr configurations' \<Rightarrow> add_external_clusters A get cluster exts configurations')"

definition getConfigurations ::
  "cnpg_api \<Rightarrow> get_pc \<Rightarrow> CnpgCluster \<Rightarrow> op_error + (string \<times> configuration) list" where
  "getConfigurations A get cluster =
     (case getArchivePluginConfigurations get cluster of
        Inl e \<Rightarrow> Inl (OpWrap ''failed to get archive plugin configurations'' e)
      | Inr configurations \<Rightarrow> add_external_clusters A get cluster (clExternalClusters cluster) configurations)"

type_synonym ClusterPlugins = "(string \<times> PluginConfiguration) list"

definition plugin_of :: "cnpg_api \<Rightarrow> configuration \<Rightarrow> PluginConfiguration option" where
  "plugin_of A conf =
     (case cnpgPluginConfiguration conf of
        None \<Rightarrow> None
      | Some p \<Rightarrow> if cpName p \<noteq> PluginName \<or> \<not> IsEnabled A p then None else klioPluginConfiguration conf)"

definition ResolveClusterPlugins :: "cnpg_api \<Rightarrow> get_pc \<Rightarrow> CnpgCluster \<Rightarrow> op_error + ClusterPlugins" where
  "ResolveClusterPlugins A get cluster =
     (case getConfigurations A get cluster of
        Inl e \<Rightarrow> Inl (OpWrap ''failed to get plugin configurations'' e)
      | Inr configurations \<Rightarrow>
          Inr (List.map_filter (\<lambda>(key, conf). map_option (Pair key) (plugin_of A conf)) configurations))"

definition ArchivePluginConfiguration :: "ClusterPlugins \<Rightarrow> PluginConfiguration option" where
  "ArchivePluginConfiguration cp = map_of cp op_ArchiveConfigKey"

section \<open>operator/internal/cnpgi/reconciler.go\<close>

datatype hook_result = BehaviorContinue | BehaviorRequeue int

definition defaultRequeueAfterSeconds :: int where "defaultRequeueAfterSeconds = 5"

definition Pre :: "cnpg_api \<Rightarrow> get_pc \<Rightarrow> (bytes \<Rightarrow> go_error + CnpgCluster) \<Rightarrow> bytes option \<Rightarrow> op_error + hook_result" where
  "Pre A get decode clusterDefinition =
     (case clusterDefinition of
        None \<Rightarrow> Inr BehaviorContinue
      | Some b \<Rightarrow>
          (case decode b of
             Inl e \<Rightarrow> Inl (OpError e)
           | Inr cluster \<Rightarrow>
               (case ResolveClusterPlugins A get cluster of
                  Inl e \<Rightarrow> if IsPluginConfigurationNotFound e then Inr (BehaviorRequeue defaultRequeueAfterSeconds) else Inl e
                | Inr _ \<Rightarrow> Inr BehaviorContinue)))"

definition Post :: "op_error + hook_result" where "Post = Inr BehaviorContinue"

definition reconciler_GetCapabilities :: "string list" where
  "reconciler_GetCapabilities = [''KIND_CLUSTER'', ''KIND_BACKUP'']"

section \<open>operator/internal/cnpgi/lifecycle.go\<close>

text \<open>The group, the kind and the operations of the objects that the hook asks for.\<close>

definition lifecycle_GetCapabilities :: "(string \<times> string \<times> string list) list" where
  "lifecycle_GetCapabilities = [([], ''Pod'', [''TYPE_CREATE'', ''TYPE_EVALUATE'']), (''batch'', ''Job'', [''TYPE_CREATE''])]"

definition KlioPluginContainerName :: string where "KlioPluginContainerName = ''klio-plugin''"

definition op_pgdata :: string where "op_pgdata = ''/var/lib/postgresql/data/pgdata''"

definition cnpgGroupVersion :: "cnpg_api \<Rightarrow> CnpgCluster \<Rightarrow> string \<times> string" where
  "cnpgGroupVersion A cluster =
     (if clGroup cluster = [] then defaultGroup A else clGroup cluster,
      if clVersion cluster = [] then defaultVersion A else clVersion cluster)"

definition errRecoveryPluginConfigurationMissing :: op_error where
  "errRecoveryPluginConfigurationMissing = OpError (Sentinel ''recovery plugin configuration missing pluginConfigurationRef parameter'')"

definition klioRecoverySource :: "cnpg_api \<Rightarrow> CnpgCluster \<Rightarrow> string option" where
  "klioRecoverySource A cluster =
     (case GetRecoverySourcePlugin A cluster of
        None \<Rightarrow> None
      | Some p \<Rightarrow>
          if cpName p \<noteq> PluginName \<or> \<not> IsEnabled A p then None
          else Some (GetServerName A (ExternalCluster A cluster (case clRecoverySource cluster of None \<Rightarrow> [] | Some src \<Rightarrow> src))))"

definition selectPluginConfiguration ::
  "cnpg_api \<Rightarrow> CnpgCluster \<Rightarrow> string \<Rightarrow> ClusterPlugins \<Rightarrow> op_error + PluginConfiguration option" where
  "selectPluginConfiguration A cluster podName plugins =
     (case (if clCurrentPrimary cluster = []
            then (case klioRecoverySource A cluster of
                    None \<Rightarrow> Inr None
                  | Some key \<Rightarrow> (case map_of plugins key of
                                  None \<Rightarrow> Inl errRecoveryPluginConfigurationMissing
                                | Some pc \<Rightarrow> Inr (Some pc)))
            else Inr None) of
        Inl e \<Rightarrow> Inl e
      | Inr recoveryPC \<Rightarrow>
          (case ArchivePluginConfiguration plugins of
             Some pc \<Rightarrow> Inr (Some pc)
           | None \<Rightarrow>
               (case recoveryPC of
                  Some pc \<Rightarrow> Inr (Some pc)
                | None \<Rightarrow>
                    if \<not> IsReplica A cluster \<or> clTargetPrimary cluster \<noteq> podName then Inr None
                    else Inr (map_of plugins (GetServerName A (ExternalCluster A cluster
                           (case clReplicaSource cluster of None \<Rightarrow> [] | Some src \<Rightarrow> src)))))))"

subsection \<open>Lists of variables, mounts and volumes\<close>

text \<open>Replace the first element with the key of the new one, or append.\<close>

fun replace_first :: "('a \<Rightarrow> 'k) \<Rightarrow> 'a \<Rightarrow> 'a list \<Rightarrow> 'a list" where
  "replace_first key x [] = [x]"
| "replace_first key x (y # ys) = (if key y = key x then x # ys else y # replace_first key x ys)"

text \<open>Append the elements whose key is not there yet.\<close>

definition merge_new :: "('a \<Rightarrow> 'k) \<Rightarrow> 'a list \<Rightarrow> 'a list \<Rightarrow> 'a list" where
  "merge_new key giver receiver =
     foldl (\<lambda>acc x. if key x \<in> key ` set acc then acc else acc @ [x]) receiver giver"

definition mergeEnvironmentVariables :: "Container \<Rightarrow> Container \<Rightarrow> Container" where
  "mergeEnvironmentVariables giver receiver = receiver\<lparr>cEnv := merge_new evName (cEnv giver) (cEnv receiver)\<rparr>"

definition mergeVolumeMounts :: "Container \<Rightarrow> Container \<Rightarrow> Container" where
  "mergeVolumeMounts giver receiver = receiver\<lparr>cVolumeMounts := merge_new vmName (cVolumeMounts giver) (cVolumeMounts receiver)\<rparr>"

definition findUserContainer :: "string \<Rightarrow> Container list \<Rightarrow> Container" where
  "findUserContainer n customContainers =
     (case List.find (\<lambda>c. cName c = n) customContainers of Some c \<Rightarrow> c | None \<Rightarrow> empty_container n)"

definition ensureEnvVar :: "EnvVar list \<Rightarrow> EnvVar \<Rightarrow> EnvVar list" where
  "ensureEnvVar envVars envVar = replace_first evName envVar envVars"

definition ensureVolume :: "Volume list \<Rightarrow> Volume \<Rightarrow> Volume list" where
  "ensureVolume volumes volume =
     (if volName volume \<in> volName ` set volumes
      then map (\<lambda>v. if volName v = volName volume then volume else v) volumes
      else volumes @ [volume])"

definition ensureVolumeMount :: "VolumeMount list \<Rightarrow> VolumeMount list \<Rightarrow> VolumeMount list" where
  "ensureVolumeMount mounts volumeMounts = foldl (\<lambda>ms m. replace_first vmName m ms) mounts volumeMounts"

definition getServerSecretVolumeName :: "string \<Rightarrow> string" where
  "getServerSecretVolumeName host = host @ ''-server-certs''"

definition getClientSecretVolumeName :: "string \<Rightarrow> string" where
  "getClientSecretVolumeName host = host @ ''-client-certs''"

text \<open>The keys of the plugins, in sorted order.\<close>

definition plugin_keys :: "ClusterPlugins \<Rightarrow> string list" where
  "plugin_keys plugins = sort (remdups (map fst plugins))"

definition plugins_sorted :: "ClusterPlugins \<Rightarrow> ClusterPlugins" where
  "plugins_sorted plugins = List.map_filter (\<lambda>k. map_option (Pair k) (map_of plugins k)) (plugin_keys plugins)"

definition getTLSVolumesAndMounts :: "ClusterPlugins \<Rightarrow> (Volume \<times> VolumeMount) list" where
  "getTLSVolumesAndMounts plugins =
     concat (map (\<lambda>(key, pc).
       [(\<lparr>volName = getServerSecretVolumeName (pcName pc), volSource = ToCoreV1 (vfVolume (ptServerCA (pcTLS (pcSpec pc))))\<rparr>,
         \<lparr>vmName = getServerSecretVolumeName (pcName pc), vmMountPath = GetServerSecretVolumeMountPath (pcName pc), vmReadOnly = True\<rparr>),
        (\<lparr>volName = getClientSecretVolumeName (pcName pc), volSource = ToCoreV1 (tiVolume (ptClientIdentity (pcTLS (pcSpec pc))))\<rparr>,
         \<lparr>vmName = getClientSecretVolumeName (pcName pc), vmMountPath = GetClientSecretVolumeMountPath (pcName pc), vmReadOnly = True\<rparr>)])
       (plugins_sorted plugins))"

subsection \<open>The sidecar\<close>

definition buildInstanceSidecarTemplate ::
  "string \<Rightarrow> CnpgCluster \<Rightarrow> PluginConfiguration option \<Rightarrow> bool \<Rightarrow> Container" where
  "buildInstanceSidecarTemplate podName cluster clusterPC archives =
     (let args = [''cnpgi'', ''instance''] @ (if podName \<noteq> [] then [''--pod-name'', podName] else []) @
            [''--cluster-name'', clName cluster, ''--cluster-namespace'', clNamespace cluster] @
            (if archives then [''--config'', path_Join [op_KlioConfigDir, op_ArchiveConfigKey]] else []);
          sidecar = (case clusterPC of
                       None \<Rightarrow> empty_container KlioPluginContainerName
                     | Some pc \<Rightarrow> findUserContainer KlioPluginContainerName (pcContainers (pcSpec pc)))
      in sidecar\<lparr>cArgs := args,
           cEnv := ensureEnvVar (cEnv sidecar) \<lparr>evName = ''CONTAINER_NAME'', evValue = KlioPluginContainerName, evFrom = None\<rparr>\<rparr>)"

definition sidecarImage :: "(string \<Rightarrow> string) \<Rightarrow> string" where
  "sidecarImage getenv = (if getenv ''RELATED_IMAGE_SIDECAR'' \<noteq> [] then getenv ''RELATED_IMAGE_SIDECAR'' else getenv ''SIDECAR_IMAGE'')"

definition sidecarSecurityContext :: "bool \<Rightarrow> (int \<times> int) option" where
  "sidecarSecurityContext haveSCC = (if haveSCC then None else Some (26, 26))"

record reconcilePodSpecConfiguration =
  sidecarsToEnrich :: "Container list"
  rpPlugins :: ClusterPlugins
  rpCnpgGroup :: string
  rpCnpgVersion :: string
  haveSCC :: bool

definition config_volume :: "ClusterPlugins \<Rightarrow> Volume" where
  "config_volume plugins =
     \<lparr>volName = ''klio-config'', volSource = no_volume_source\<lparr>vsProjected := Some
        \<lparr>pjSources = map (\<lambda>(configKey, pc). SecretProjection (pcName pc) [(ConfigDataKey, configKey)]) (plugins_sorted plugins),
         pjDefaultMode = None\<rparr>\<rparr>\<rparr>"

definition sidecar_volumes :: "ClusterPlugins \<Rightarrow> Volume list" where
  "sidecar_volumes plugins = config_volume plugins # map fst (getTLSVolumesAndMounts plugins)"

definition sidecar_mounts :: "ClusterPlugins \<Rightarrow> VolumeMount list" where
  "sidecar_mounts plugins =
     ensureVolumeMount
       [\<lparr>vmName = ''pgdata'', vmMountPath = ''/var/lib/postgresql/data'', vmReadOnly = False\<rparr>,
        \<lparr>vmName = ''scratch-data'', vmMountPath = ''/controller'', vmReadOnly = False\<rparr>]
       (\<lparr>vmName = ''klio-config'', vmMountPath = op_KlioConfigDir, vmReadOnly = False\<rparr> # map snd (getTLSVolumesAndMounts plugins))"

definition sidecar_template :: "(string \<Rightarrow> string) \<Rightarrow> CnpgCluster \<Rightarrow> reconcilePodSpecConfiguration \<Rightarrow> Container" where
  "sidecar_template getenv cluster cfg =
     \<lparr>cName = [], cImage = sidecarImage getenv, cArgs = [],
      cEnv = [\<lparr>evName = ''PGDATA'', evValue = op_pgdata, evFrom = None\<rparr>, \<lparr>evName = ''PGHOST'', evValue = ''/controller/run'', evFrom = None\<rparr>,
        \<lparr>evName = ''PGPORT'', evValue = ''5432'', evFrom = None\<rparr>, \<lparr>evName = ''POD_NAME'', evValue = [], evFrom = Some (FieldRef ''metadata.name'')\<rparr>,
        \<lparr>evName = ''NAMESPACE_NAME'', evValue = [], evFrom = Some (FieldRef ''metadata.namespace'')\<rparr>,
        \<lparr>evName = ''CUSTOM_CNPG_GROUP'', evValue = rpCnpgGroup cfg, evFrom = None\<rparr>,
        \<lparr>evName = ''CUSTOM_CNPG_VERSION'', evValue = rpCnpgVersion cfg, evFrom = None\<rparr>],
      cVolumeMounts = sidecar_mounts (rpPlugins cfg), cImagePullPolicy = clImagePullPolicy cluster, cRestartPolicy = Some ''Always'',
      cSecurityContext = sidecarSecurityContext (haveSCC cfg), cRest = []\<rparr>"

definition enrich_sidecar :: "Container \<Rightarrow> bool \<Rightarrow> nat \<Rightarrow> Container \<Rightarrow> Container" where
  "enrich_sidecar template enablePPROF idx base =
     (let s1 = (if enablePPROF then base\<lparr>cArgs := cArgs base @ [''--pprof-server=:609'' @ FormatNat idx]\<rparr> else base);
          s2 = (if cImage s1 = [] then s1\<lparr>cImage := cImage template\<rparr> else s1);
          s3 = (if cImagePullPolicy s2 = [] then s2\<lparr>cImagePullPolicy := cImagePullPolicy template\<rparr> else s2);
          s4 = (if cRestartPolicy s3 = None then s3\<lparr>cRestartPolicy := cRestartPolicy template\<rparr> else s3);
          s5 = (if cSecurityContext s4 = None then s4\<lparr>cSecurityContext := cSecurityContext template\<rparr> else s4)
      in mergeVolumeMounts template (mergeEnvironmentVariables template s5))"

definition plugin_mount :: VolumeMount where
  "plugin_mount = \<lparr>vmName = ''plugins'', vmMountPath = ''/plugins'', vmReadOnly = False\<rparr>"

definition InjectPluginVolumePodSpec :: "string \<Rightarrow> PodSpec \<Rightarrow> PodSpec" where
  "InjectPluginVolumePodSpec mainContainerName spec =
     (if ''plugins'' \<in> volName ` set (psVolumes spec) then spec
      else spec\<lparr>psVolumes := ensureVolume (psVolumes spec) \<lparr>volName = ''plugins'', volSource = no_volume_source\<lparr>vsEmptyDir := True\<rparr>\<rparr>,
             psContainers := map (\<lambda>c. if cName c = mainContainerName
                then c\<lparr>cVolumeMounts := ensureVolumeMount (cVolumeMounts c) [plugin_mount]\<rparr> else c) (psContainers spec)\<rparr>)"

definition put_init_container :: "Container \<Rightarrow> Container list \<Rightarrow> Container list" where
  "put_init_container sidecar cs =
     (if cName sidecar \<in> cName ` set cs then map (\<lambda>c. if cName c = cName sidecar then sidecar else c) cs else cs @ [sidecar])"

definition injectPluginSidecarPodSpec :: "Container \<Rightarrow> string \<Rightarrow> PodSpec \<Rightarrow> go_error + PodSpec" where
  "injectPluginSidecarPodSpec sidecar mainContainerName spec =
     (let spec1 = InjectPluginVolumePodSpec mainContainerName spec;
          mains = filter (\<lambda>c. cName c = mainContainerName) (psContainers spec1)
      in if mains = [] then Inl (Sentinel ''main container not found'')
         else let sidecar' = sidecar\<lparr>cVolumeMounts := foldl (\<lambda>ms c. ensureVolumeMount ms (cVolumeMounts c)) (cVolumeMounts sidecar) mains\<rparr>
              in Inr (spec1\<lparr>psInitContainers := put_init_container sidecar' (psInitContainers spec1)\<rparr>))"

fun inject_sidecars ::
  "Container \<Rightarrow> bool \<Rightarrow> string \<Rightarrow> nat \<Rightarrow> Container list \<Rightarrow> PodSpec \<Rightarrow> go_error + PodSpec" where
  "inject_sidecars template enablePPROF mainContainerName idx [] spec = Inr spec"
| "inject_sidecars template enablePPROF mainContainerName idx (base # bases) spec =
     (if cName base = [] then inject_sidecars template enablePPROF mainContainerName (Suc idx) bases spec
      else (case injectPluginSidecarPodSpec (enrich_sidecar template enablePPROF idx base) mainContainerName spec of
              Inl e \<Rightarrow> Inl (Wrap ''failed to inject sidecar'' e)
            | Inr spec' \<Rightarrow> inject_sidecars template enablePPROF mainContainerName (Suc idx) bases spec'))"

definition reconcilePodSpec ::
  "(string \<Rightarrow> string) \<Rightarrow> CnpgCluster \<Rightarrow> string \<Rightarrow> reconcilePodSpecConfiguration \<Rightarrow> PodSpec \<Rightarrow> go_error + PodSpec" where
  "reconcilePodSpec getenv cluster mainContainerName cfg spec =
     (let spec1 = spec\<lparr>psVolumes := foldl ensureVolume (psVolumes spec) (sidecar_volumes (rpPlugins cfg))\<rparr>
      in case List.find (\<lambda>c. cName c = mainContainerName) (psContainers spec1) of
           None \<Rightarrow> Inl (Sentinel ''main container not found in pod spec'')
         | Some mainContainer \<Rightarrow>
             inject_sidecars (mergeEnvironmentVariables mainContainer (sidecar_template getenv cluster cfg))
               (list_ex (\<lambda>(k, pc). pcPprof (pcSpec pc)) (rpPlugins cfg)) mainContainerName 0 (sidecarsToEnrich cfg) spec1)"

subsection \<open>The hook\<close>

record Pod =
  podName :: string
  podSpec :: PodSpec

record Job =
  jobName :: string
  jobTemplateLabels :: "(string \<times> string) list"
  jobPodSpec :: PodSpec

definition getCNPGJobRole :: "Job \<Rightarrow> string" where
  "getCNPGJobRole job = (case List.find (\<lambda>(k, v). HasSuffix k ''/jobRole'') (jobTemplateLabels job) of Some (k, v) \<Rightarrow> v | None \<Rightarrow> [])"

record op_env =
  oeCnpg :: cnpg_api
  oeGet :: get_pc
  oeGetenv :: "string \<Rightarrow> string"
  oeHaveSCC :: bool

definition podspec_config ::
  "op_env \<Rightarrow> CnpgCluster \<Rightarrow> ClusterPlugins \<Rightarrow> Container \<Rightarrow> reconcilePodSpecConfiguration" where
  "podspec_config E cluster plugins sidecar =
     \<lparr>sidecarsToEnrich = [sidecar], rpPlugins = plugins, rpCnpgGroup = fst (cnpgGroupVersion (oeCnpg E) cluster),
      rpCnpgVersion = snd (cnpgGroupVersion (oeCnpg E) cluster), haveSCC = oeHaveSCC E\<rparr>"

definition injectPodSidecars :: "op_env \<Rightarrow> CnpgCluster \<Rightarrow> Pod \<Rightarrow> ClusterPlugins \<Rightarrow> Container \<Rightarrow> op_error + Pod option" where
  "injectPodSidecars E cluster pod plugins sidecar =
     (case reconcilePodSpec (oeGetenv E) cluster ''postgres'' (podspec_config E cluster plugins sidecar) (podSpec pod) of
        Inl e \<Rightarrow> Inl (OpWrap ''failed to reconcile pod spec'' (OpError e))
      | Inr spec \<Rightarrow> Inr (Some (pod\<lparr>podSpec := spec\<rparr>)))"

definition reconcilePod :: "op_env \<Rightarrow> CnpgCluster \<Rightarrow> go_error + Pod \<Rightarrow> op_error + Pod option" where
  "reconcilePod E cluster decoded =
     (case ResolveClusterPlugins (oeCnpg E) (oeGet E) cluster of
        Inl e \<Rightarrow> Inl e
      | Inr plugins \<Rightarrow>
          (case decoded of
             Inl e \<Rightarrow> Inl (OpError e)
           | Inr pod \<Rightarrow>
               (case selectPluginConfiguration (oeCnpg E) cluster (podName pod) plugins of
                  Inl e \<Rightarrow> Inl e
                | Inr None \<Rightarrow> Inr None
                | Inr (Some targetPC) \<Rightarrow>
                    injectPodSidecars E cluster pod plugins
                      (buildInstanceSidecarTemplate (podName pod) cluster (Some targetPC) (ArchivePluginConfiguration plugins \<noteq> None)))))"

definition reconcileJob :: "op_env \<Rightarrow> CnpgCluster \<Rightarrow> go_error + Job \<Rightarrow> op_error + Job option" where
  "reconcileJob E cluster decoded =
     (case ResolveClusterPlugins (oeCnpg E) (oeGet E) cluster of
        Inl e \<Rightarrow> Inl e
      | Inr plugins \<Rightarrow>
          if klioRecoverySource (oeCnpg E) cluster = None then Inr None
          else (case decoded of
                  Inl e \<Rightarrow> Inl (OpError e)
                | Inr job \<Rightarrow>
                    if getCNPGJobRole job \<noteq> ''full-recovery'' \<and> getCNPGJobRole job \<noteq> ''snapshot-recovery'' then Inr None
                    else (case selectPluginConfiguration (oeCnpg E) cluster [] plugins of
                            Inl e \<Rightarrow> Inl e
                          | Inr None \<Rightarrow> Inr None
                          | Inr (Some targetPC) \<Rightarrow>
                              (case reconcilePodSpec (oeGetenv E) cluster (getCNPGJobRole job)
                                      (podspec_config E cluster plugins
                                        (buildInstanceSidecarTemplate [] cluster (Some targetPC) (ArchivePluginConfiguration plugins \<noteq> None)))
                                      (jobPodSpec job) of
                                 Inl e \<Rightarrow> Inl (OpWrap ''while reconciling pod spec for job'' (OpError e))
                               | Inr spec \<Rightarrow> Inr (Some (job\<lparr>jobPodSpec := spec\<rparr>))))))"

datatype hook_object = PodObject "go_error + Pod" | JobObject "go_error + Job" | OtherObject string

definition LifecycleHook ::
  "op_env \<Rightarrow> bool \<Rightarrow> go_error + CnpgCluster \<Rightarrow> go_error + hook_object \<Rightarrow> op_error + (Pod + Job) option" where
  "LifecycleHook E hasOperation cluster object =
     (if \<not> hasOperation then Inl (OpError (Sentinel ''no operation set''))
      else case cluster of
        Inl e \<Rightarrow> Inl (OpError e)
      | Inr cl \<Rightarrow>
          (case object of
             Inl e \<Rightarrow> Inl (OpError e)
           | Inr (PodObject pod) \<Rightarrow> map_sum id (map_option Inl) (reconcilePod E cl pod)
           | Inr (JobObject job) \<Rightarrow> map_sum id (map_option Inr) (reconcileJob E cl job)
           | Inr (OtherObject kind) \<Rightarrow> Inl (OpError (Sentinel (''unsupported kind: '' @ kind)))))"

section \<open>operator/internal/controller/pluginconfiguration_controller.go\<close>

record Secret =
  secCreated :: bool
  secController :: "string option"
  secLabels :: "(string \<times> string) list"
  secData :: "(string \<times> bytes) list"

datatype op_result = ResultNone | ResultCreated | ResultUpdated

text \<open>
  controllerutil.CreateOrUpdate: read the object, or start from a blank one; apply the mutation; create or update it.
  Beside the result it leaves the object in the variable of the caller.
\<close>

record ('o, 'k) kube_resource =
  krGet :: "string \<times> string \<Rightarrow> 'k \<Rightarrow> 'o option"
  krCreateOrUpdate :: "string \<times> string \<Rightarrow> 'o \<Rightarrow> ('o \<Rightarrow> go_error + 'o) \<Rightarrow> 'k \<Rightarrow> (go_error + op_result) \<times> 'o \<times> 'k"

text \<open>controllerutil.SetControllerReference fails on an object that another controller owns.\<close>

definition SetControllerReference :: "string \<Rightarrow> string option \<Rightarrow> go_error + string option" where
  "SetControllerReference owner controller =
     (case controller of
        None \<Rightarrow> Inr (Some owner)
      | Some c \<Rightarrow> if c = owner then Inr (Some owner) else Inl (Sentinel ''already owned by another controller''))"

definition mutate_secret :: "string \<Rightarrow> bytes \<Rightarrow> Secret \<Rightarrow> go_error + Secret" where
  "mutate_secret owner yamlData secret =
     (case SetControllerReference owner (secController secret) of
        Inl e \<Rightarrow> Inl e
      | Inr c \<Rightarrow> Inr (secret\<lparr>secController := c, secLabels := AList.update TypeLabelKey TypeLabelValue (secLabels secret),
                         secData := [(ConfigDataKey, yamlData)]\<rparr>))"

definition blank_secret :: Secret where
  "blank_secret = \<lparr>secCreated = False, secController = None, secLabels = [], secData = []\<rparr>"

record 'k pc_env =
  peGet :: "string \<times> string \<Rightarrow> 'k \<Rightarrow> api_error + PluginConfiguration"
  peUID :: "PluginConfiguration \<Rightarrow> string"
  peMarshal :: "Data \<Rightarrow> go_error + bytes"
  peSecrets :: "(Secret, 'k) kube_resource"
  peUpdateStatus :: "PluginConfiguration \<Rightarrow> op_result \<Rightarrow> 'k \<Rightarrow> go_error option \<times> 'k"

definition pc_Reconcile :: "'k pc_env \<Rightarrow> string \<times> string \<Rightarrow> 'k \<Rightarrow> go_error option \<times> 'k" where
  "pc_Reconcile E req k =
     (case peGet E req k of
        Inl ApiNotFound \<Rightarrow> (None, k)
      | Inl (ApiError e) \<Rightarrow> (Some (Wrap ''while getting PluginConfiguration'' e), k)
      | Inr pc \<Rightarrow>
          (case peMarshal E (GenerateConfig (pcSpec pc) (pcName pc)) of
             Inl e \<Rightarrow> (Some (Wrap ''while marshalling config'' e), k)
           | Inr yamlData \<Rightarrow>
               (case krCreateOrUpdate (peSecrets E) (pcNamespace pc, pcName pc) blank_secret (mutate_secret (peUID E pc) yamlData) k of
                  (Inl e, _, k1) \<Rightarrow> (Some (Wrap ''while creating/updating secret'' e), k1)
                | (Inr ResultNone, _, k1) \<Rightarrow> (None, k1)
                | (Inr r, _, k1) \<Rightarrow>
                    (case peUpdateStatus E pc r k1 of
                       (Some e, k2) \<Rightarrow> (Some (Wrap ''while updating status'' e), k2)
                     | (None, k2) \<Rightarrow> (None, k2)))))"

section \<open>Lemmas: the generated configuration\<close>

definition within :: "string \<Rightarrow> string \<Rightarrow> bool" where
  "within m p \<longleftrightarrow> p = m \<or> prefix (m @ ''/'') p"

lemma clean_step_keeps: "c \<noteq> ''..'' \<Longrightarrow> \<exists>ys. clean_step r st c = ys @ st"
  by auto

lemma foldl_clean_keeps: "''..'' \<notin> set cs \<Longrightarrow> \<exists>ys. foldl (clean_step r) st cs = ys @ st"
proof (induction cs arbitrary: st)
  case (Cons c cs)
  then obtain ys zs where "clean_step r st c = ys @ st" and "foldl (clean_step r) (ys @ st) cs = zs @ ys @ st"
    using clean_step_keeps [of c r st] by (metis list.set_intros(1,2))
  then have "foldl (clean_step r) st (c # cs) = (zs @ ys) @ st" by (simp del: clean_step.simps)
  then show ?case by blast
qed simp

lemma join_with_append:
  "xs \<noteq> [] \<Longrightarrow> ys \<noteq> [] \<Longrightarrow> join_with sep (xs @ ys) = join_with sep xs @ sep @ join_with sep ys"
  by (induction sep xs rule: join_with.induct) (auto simp: neq_Nil_conv)

lemma relative_path_within:
  assumes "relative_path p" and "plain_elem a" and "plain_elem b"
  shows "within (CHR ''/'' # a @ CHR ''/'' # b) (path_Join [CHR ''/'' # a @ CHR ''/'' # b, p])"
proof -
  let ?d = "CHR ''/'' # a @ CHR ''/'' # b"
  have p: "p \<noteq> []" "''..'' \<notin> set (split_on (CHR ''/'') p)" using assms(1) by (auto simp: relative_path_def)
  have "foldl (clean_step True) [] (split_on (CHR ''/'') (?d @ CHR ''/'' # p)) =
    foldl (clean_step True) [b, a] (split_on (CHR ''/'') p)"
    using assms(2,3) split_on_mid [of "CHR ''/''" a "b @ CHR ''/'' # p"]
    by (simp add: split_on_mid plain_elem_split) (auto simp: plain_elem_def)
  moreover obtain ys where "foldl (clean_step True) [b, a] (split_on (CHR ''/'') p) = ys @ [b, a]"
    using foldl_clean_keeps [OF p(2)] by blast
  ultimately have "path_Join [?d, p] = CHR ''/'' # join_with ''/'' ([a, b] @ rev ys)"
    using p(1) by (simp add: path_Join_def path_Clean_def Let_def)
  then show ?thesis
    using join_with_append [of "[b]" "rev ys" "''/''"] by (cases "ys = []") (auto simp: within_def prefix_def)
qed

lemma admitted_compression_ok: "compression_admitted c \<Longrightarrow> CompressionPolicy_Validate (convertCompressionPolicy c) = None"
  by (cases c) (auto simp: compression_admitted_def convertCompressionPolicy_def compression_ok_def
    IsValidCompressionAlgorithm_def crdCompressionAlgorithms_def)

lemma JoinHostPort_nonempty [simp]: "JoinHostPort h p \<noteq> []"
  by (simp add: JoinHostPort_def)

lemma within_nonempty: "within (CHR ''/'' # d) p \<Longrightarrow> p \<noteq> []"
  by (auto simp: within_def)

lemma cert_mounts:
  assumes "relative_path p" and "plain_elem key"
  shows "within (GetServerSecretVolumeMountPath key) (path_Join [GetServerSecretVolumeMountPath key, p])"
    and "within (GetClientSecretVolumeMountPath key) (path_Join [GetClientSecretVolumeMountPath key, p])"
    and "path_Join [GetServerSecretVolumeMountPath key, p] \<noteq> []" and "path_Join [GetClientSecretVolumeMountPath key, p] \<noteq> []"
  using relative_path_within [OF assms(1) _ assms(2), of "''server-certs''"]
    relative_path_within [OF assms(1) _ assms(2), of "''client-certs''"]
  by (auto simp: GetServerSecretVolumeMountPath_def GetClientSecretVolumeMountPath_def plain_elem_def dest: within_nonempty)

lemma generated_config_validates:
  assumes admitted: "plugin_admitted s" and key: "plain_elem key"
  shows "Data_Validate (Data_SetDefaults (GenerateConfig s key)) = None"
proof -
  note a = admitted [unfolded plugin_admitted_def]
  let ?g = "GenerateConfig s key" and ?d = "Data_SetDefaults (GenerateConfig s key)"
  have src: "dSource ?d = SourceConfig_SetDefaults (dSource ?g)" "dClient ?d = dClient ?g"
    "dTier1CompressionPolicy ?d = convertTier1CompressionPolicy (pcTier1 s)"
    "dTier2CompressionPolicy ?d = convertTier2CompressionPolicy (pcTier2 s)"
    by (simp_all add: Data_SetDefaults_def GenerateConfig_def Let_def no_source_def)
  have "SourceConfig_Validate (dSource ?d) = None"
    unfolding src by (simp add: GenerateConfig_def Let_def SourceConfig_Validate_def SourceConfig_SetDefaults_def slot_char_def)
  moreover have "CompressionPolicy_Validate (dTier1CompressionPolicy ?d) = None"
    unfolding src convertTier1CompressionPolicy_def using a
    by (cases "pcTier1 s") (simp_all add: admitted_compression_ok del: CompressionPolicy_Validate_None, simp)
  moreover have "CompressionPolicy_Validate (dTier2CompressionPolicy ?d) = None"
    unfolding src convertTier2CompressionPolicy_def using a
    by (cases "pcTier2 s") (simp_all add: admitted_compression_ok del: CompressionPolicy_Validate_None, simp)
  moreover have "ClientConfig_Validate (dClient ?d) = None"
    unfolding src using a cert_mounts(3,4) [OF _ key]
    by (auto simp: GenerateConfig_def Let_def ClientConfig_Validate_def BaseRepositoryClientConfig_Validate_def
      WalRepositoryClientConfig_Validate_def split: option.splits)
  ultimately show ?thesis by (simp add: Data_Validate_def del: CompressionPolicy_Validate_None)
qed


section \<open>Lemmas: volumes, mounts and variables\<close>

definition by_name :: "Volume list \<Rightarrow> string \<Rightarrow> Volume option" where
  "by_name vs n = map_of (map (\<lambda>v. (volName v, v)) (rev vs)) n"

lemma by_name_simps [simp]:
  "by_name [] n = None"
  "by_name (vs @ [v]) n = (if n = volName v then Some v else by_name vs n)"
  by (auto simp: by_name_def)

lemma by_name_Some: "by_name vs n = Some v \<Longrightarrow> v \<in> set vs \<and> volName v = n"
  unfolding by_name_def by (drule map_of_SomeD) auto

lemma by_name_None: "by_name vs n = None \<longleftrightarrow> n \<notin> volName ` set vs"
  unfolding by_name_def by (auto simp: map_of_eq_None_iff image_iff)

lemma ensureVolume_names [simp]: "volName ` set (ensureVolume vols v) = insert (volName v) (volName ` set vols)"
  by (auto simp: ensureVolume_def image_iff split: if_splits)

lemma ensure_all_names [simp]:
  "volName ` set (foldl ensureVolume vols vs) = volName ` set vols \<union> volName ` set vs"
  by (induction vs rule: rev_induct) auto

text \<open>After the volumes of a list are put, each name of the list has the last volume of that name.\<close>

lemma ensure_all_last:
  "w \<in> set (foldl ensureVolume vols vs) \<Longrightarrow>
     (case by_name vs (volName w) of None \<Rightarrow> w \<in> set vols | Some v \<Rightarrow> w = v)"
  by (induction vs rule: rev_induct) (auto simp: ensureVolume_def split: if_splits option.splits, (metis imageI by_name_Some)+)

lemma ensureVolume_present:
  "volName v \<in> volName ` set vols \<Longrightarrow> ensureVolume vols v = map (\<lambda>w. if volName w = volName v then v else w) vols"
  by (simp add: ensureVolume_def)

lemma ensure_all_present:
  assumes "volName ` set vs \<subseteq> volName ` set vols"
  shows "foldl ensureVolume vols vs = map (\<lambda>w. case by_name vs (volName w) of None \<Rightarrow> w | Some v \<Rightarrow> v) vols"
  using assms
proof (induction vs rule: rev_induct)
  case (snoc v vs)
  then have IH: "foldl ensureVolume vols vs = map (\<lambda>w. case by_name vs (volName w) of None \<Rightarrow> w | Some v \<Rightarrow> v) vols"
    by auto
  have v: "volName v \<in> volName ` set (foldl ensureVolume vols vs)" using snoc.prems unfolding ensure_all_names by auto
  have n: "volName (case by_name vs (volName w) of None \<Rightarrow> w | Some v \<Rightarrow> v) = volName w" for w
    by (auto split: option.splits dest: by_name_Some)
  show ?case using ensureVolume_present [OF v] by (auto simp: IH n)
qed (simp add: map_idI)

lemma ensure_all_settled:
  assumes "\<And>w. w \<in> set vols \<Longrightarrow> by_name vs (volName w) \<in> {None, Some w}" and "volName ` set vs \<subseteq> volName ` set vols"
  shows "foldl ensureVolume vols vs = vols"
  unfolding ensure_all_present [OF assms(2)] by (rule map_idI) (use assms(1) in \<open>force split: option.splits\<close>)

lemma ensure_all_idem:
  "foldl ensureVolume (foldl ensureVolume vols vs) vs = foldl ensureVolume vols vs"
proof (rule ensure_all_settled)
  show "by_name vs (volName w) \<in> {None, Some w}" if "w \<in> set (foldl ensureVolume vols vs)" for w
    using ensure_all_last [OF that] by (auto split: option.splits)
qed auto

section \<open>Lemmas: the injection is idempotent\<close>

lemma InjectPluginVolume_idem: "InjectPluginVolumePodSpec m (InjectPluginVolumePodSpec m spec) = InjectPluginVolumePodSpec m spec"
  by (simp add: InjectPluginVolumePodSpec_def)

lemma put_init_container_idem: "put_init_container c (put_init_container c cs) = put_init_container c cs"
  by (auto simp: put_init_container_def image_iff intro!: map_idI)

lemma cEnv_injected:
  "map_option cEnv (List.find (\<lambda>c. cName c = m) (psContainers (InjectPluginVolumePodSpec m spec))) =
     map_option cEnv (List.find (\<lambda>c. cName c = m) (psContainers spec))"
proof -
  have "map_option cEnv (List.find (\<lambda>c. cName c = m) (map (\<lambda>c. if cName c = m then c\<lparr>cVolumeMounts := f c\<rparr> else c) cs)) =
    map_option cEnv (List.find (\<lambda>c. cName c = m) cs)" for f and cs :: "Container list"
    by (induction cs) auto
  from this [of "\<lambda>c. ensureVolumeMount (cVolumeMounts c) [plugin_mount]"] show ?thesis
    by (simp add: InjectPluginVolumePodSpec_def)
qed

lemma InjectPluginVolume_initContainers [simp]:
  "InjectPluginVolumePodSpec m (spec\<lparr>psInitContainers := cs\<rparr>) = (InjectPluginVolumePodSpec m spec)\<lparr>psInitContainers := cs\<rparr>"
  "psInitContainers (InjectPluginVolumePodSpec m spec) = psInitContainers spec"
  by (auto simp: InjectPluginVolumePodSpec_def)

lemma injectPluginSidecar_idem:
  "injectPluginSidecarPodSpec c m spec = Inr spec' \<Longrightarrow> injectPluginSidecarPodSpec c m spec' = Inr spec'"
  by (auto simp: injectPluginSidecarPodSpec_def Let_def InjectPluginVolume_idem put_init_container_idem split: if_splits)

lemma mergeEnvironmentVariables_env:
  "cEnv a = cEnv b \<Longrightarrow> mergeEnvironmentVariables a r = mergeEnvironmentVariables b r"
  by (simp add: mergeEnvironmentVariables_def)

lemma InjectPluginVolume_volumes:
  "psVolumes (InjectPluginVolumePodSpec m spec) =
     (if ''plugins'' \<in> volName ` set (psVolumes spec) then psVolumes spec
      else psVolumes spec @ [\<lparr>volName = ''plugins'', volSource = no_volume_source\<lparr>vsEmptyDir := True\<rparr>\<rparr>])"
  by (simp add: InjectPluginVolumePodSpec_def ensureVolume_def)

lemma volumes_settled:
  assumes "psVolumes spec = foldl ensureVolume vols vs"
  shows "foldl ensureVolume (psVolumes (InjectPluginVolumePodSpec m spec)) vs = psVolumes (InjectPluginVolumePodSpec m spec)"
proof (rule ensure_all_settled)
  show "by_name vs (volName w) \<in> {None, Some w}" if "w \<in> set (psVolumes (InjectPluginVolumePodSpec m spec))" for w
    using that ensure_all_last [of w vols vs] assms
    by (auto simp: InjectPluginVolume_volumes by_name_None split: option.splits if_splits)
qed (use assms in \<open>auto simp: InjectPluginVolume_volumes\<close>)

lemma injected_parts:
  assumes "injectPluginSidecarPodSpec c m spec = Inr spec'"
  shows "psVolumes spec' = psVolumes (InjectPluginVolumePodSpec m spec)"
    and "psContainers spec' = psContainers (InjectPluginVolumePodSpec m spec)"
  using assms by (auto simp: injectPluginSidecarPodSpec_def Let_def split: if_splits)

text \<open>A single sidecar, as the hooks inject it.\<close>

lemma reconcilePodSpec_single:
  assumes "sidecarsToEnrich cfg = [b]"
  shows "reconcilePodSpec getenv cl m cfg spec = Inr spec' \<longleftrightarrow>
    (\<exists>main. List.find (\<lambda>c. cName c = m) (psContainers spec) = Some main \<and>
      (let spec1 = spec\<lparr>psVolumes := foldl ensureVolume (psVolumes spec) (sidecar_volumes (rpPlugins cfg))\<rparr>
       in if cName b = [] then spec' = spec1
          else injectPluginSidecarPodSpec
            (enrich_sidecar (mergeEnvironmentVariables main (sidecar_template getenv cl cfg))
              (list_ex (\<lambda>(k, pc). pcPprof (pcSpec pc)) (rpPlugins cfg)) 0 b) m spec1 = Inr spec'))"
  using assms by (auto simp: reconcilePodSpec_def Let_def split: option.splits sum.splits)

lemma reconcilePodSpec_idem:
  assumes "sidecarsToEnrich cfg = [b]" and run: "reconcilePodSpec getenv cl m cfg spec = Inr spec'"
  shows "reconcilePodSpec getenv cl m cfg spec' = Inr spec'"
proof -
  let ?vs = "sidecar_volumes (rpPlugins cfg)" and ?pp = "list_ex (\<lambda>(k, pc). pcPprof (pcSpec pc)) (rpPlugins cfg)"
  let ?side = "\<lambda>main. enrich_sidecar (mergeEnvironmentVariables main (sidecar_template getenv cl cfg)) ?pp 0 b"
  define spec1 where "spec1 = spec\<lparr>psVolumes := foldl ensureVolume (psVolumes spec) ?vs\<rparr>"
  from run [unfolded reconcilePodSpec_single [OF assms(1)], folded spec1_def] obtain main where
    main: "List.find (\<lambda>c. cName c = m) (psContainers spec) = Some main" and
    res: "if cName b = [] then spec' = spec1 else injectPluginSidecarPodSpec (?side main) m spec1 = Inr spec'"
    by (auto simp: Let_def spec1_def)
  show ?thesis
  proof (cases "cName b = []")
    case True
    with res main show ?thesis
      by (simp add: reconcilePodSpec_single [OF assms(1)] Let_def spec1_def ensure_all_idem)
  next
    case False
    with res have inj: "injectPluginSidecarPodSpec (?side main) m spec1 = Inr spec'" by simp
    have "map_option cEnv (List.find (\<lambda>c. cName c = m) (psContainers spec')) = Some (cEnv main)"
      unfolding injected_parts(2) [OF inj] cEnv_injected using main by (simp add: spec1_def)
    then obtain main' where m': "List.find (\<lambda>c. cName c = m) (psContainers spec') = Some main'" "cEnv main' = cEnv main"
      by auto
    have "foldl ensureVolume (psVolumes spec') ?vs = psVolumes spec'"
      unfolding injected_parts(1) [OF inj] by (rule volumes_settled) (simp add: spec1_def)
    then have "spec'\<lparr>psVolumes := foldl ensureVolume (psVolumes spec') ?vs\<rparr> = spec'" by simp
    with False m' injectPluginSidecar_idem [OF inj] mergeEnvironmentVariables_env [OF m'(2)] show ?thesis
      by (simp add: reconcilePodSpec_single [OF assms(1)])
  qed
qed

lemma podspec_config_sel [simp]:
  "sidecarsToEnrich (podspec_config E cl ps b) = [b]" "rpPlugins (podspec_config E cl ps b) = ps"
  by (simp_all add: podspec_config_def)

lemma reconcilePod_Some:
  "reconcilePod E cl (Inr pod) = Inr (Some pod') \<longleftrightarrow>
    (\<exists>plugins pc spec. ResolveClusterPlugins (oeCnpg E) (oeGet E) cl = Inr plugins \<and>
      selectPluginConfiguration (oeCnpg E) cl (podName pod) plugins = Inr (Some pc) \<and>
      reconcilePodSpec (oeGetenv E) cl ''postgres'' (podspec_config E cl plugins
        (buildInstanceSidecarTemplate (podName pod) cl (Some pc) (ArchivePluginConfiguration plugins \<noteq> None))) (podSpec pod) = Inr spec \<and>
      pod' = pod\<lparr>podSpec := spec\<rparr>)"
  by (auto simp: reconcilePod_def injectPodSidecars_def split: sum.splits option.splits)

lemma reconcileJob_Some:
  "reconcileJob E cl (Inr job) = Inr (Some job') \<longleftrightarrow>
    (\<exists>plugins pc spec. ResolveClusterPlugins (oeCnpg E) (oeGet E) cl = Inr plugins \<and> klioRecoverySource (oeCnpg E) cl \<noteq> None \<and>
      getCNPGJobRole job \<in> {''full-recovery'', ''snapshot-recovery''} \<and>
      selectPluginConfiguration (oeCnpg E) cl [] plugins = Inr (Some pc) \<and>
      reconcilePodSpec (oeGetenv E) cl (getCNPGJobRole job) (podspec_config E cl plugins
        (buildInstanceSidecarTemplate [] cl (Some pc) (ArchivePluginConfiguration plugins \<noteq> None))) (jobPodSpec job) = Inr spec \<and>
      job' = job\<lparr>jobPodSpec := spec\<rparr>)"
  by (auto simp: reconcileJob_def split: sum.splits option.splits)

lemma LifecycleHook_Some:
  "LifecycleHook E op (Inr cl) (Inr (PodObject p)) = Inr (Some (Inl pod')) \<longleftrightarrow> op \<and> reconcilePod E cl p = Inr (Some pod')"
  "LifecycleHook E op (Inr cl) (Inr (JobObject j)) = Inr (Some (Inr job')) \<longleftrightarrow> op \<and> reconcileJob E cl j = Inr (Some job')"
  by (cases "reconcilePod E cl p"; auto simp: LifecycleHook_def) (cases "reconcileJob E cl j"; auto simp: LifecycleHook_def)

text \<open>
  C15: The lifecycle hook is idempotent: called again, with the same cluster, on the pod or the job that it returned, it
  returns that object unchanged, so an evaluation after the creation never asks for a new pod.
\<close>

theorem lifecycle_hook_is_idempotent:
  "(LifecycleHook E op (Inr cl) (Inr (PodObject (Inr pod))) = Inr (Some (Inl pod')) \<longrightarrow>
      LifecycleHook E op (Inr cl) (Inr (PodObject (Inr pod'))) = Inr (Some (Inl pod'))) \<and>
   (LifecycleHook E op (Inr cl) (Inr (JobObject (Inr job))) = Inr (Some (Inr job')) \<longrightarrow>
      LifecycleHook E op (Inr cl) (Inr (JobObject (Inr job'))) = Inr (Some (Inr job')))"
proof -
  have pod: "reconcilePod E cl (Inr pod') = Inr (Some pod')" if "reconcilePod E cl (Inr pod) = Inr (Some pod')"
    using that unfolding reconcilePod_Some by (auto dest: reconcilePodSpec_idem [OF podspec_config_sel(1)])
  have role: "getCNPGJobRole (j\<lparr>jobPodSpec := sp\<rparr>) = getCNPGJobRole j" for j sp by (simp add: getCNPGJobRole_def)
  have job: "reconcileJob E cl (Inr job') = Inr (Some job')" if "reconcileJob E cl (Inr job) = Inr (Some job')"
    using that unfolding reconcileJob_Some by (elim exE conjE) (simp add: role reconcilePodSpec_idem [OF podspec_config_sel(1)])
  show ?thesis unfolding LifecycleHook_Some using pod job by blast
qed

section \<open>Lemmas: the files of the sidecar\<close>

definition same_key_same :: "('a \<Rightarrow> 'k) \<Rightarrow> 'a list \<Rightarrow> bool" where
  "same_key_same key xs \<longleftrightarrow> (\<forall>x\<in>set xs. \<forall>y\<in>set xs. key x = key y \<longrightarrow> x = y)"

lemma replace_first_new: "x \<in> set (replace_first key x xs)"
  by (induction xs) auto

lemma replace_first_keeps: "y \<in> set xs \<Longrightarrow> key y \<noteq> key x \<Longrightarrow> y \<in> set (replace_first key x xs)"
  by (induction xs) auto

lemma replace_first_subset: "set (replace_first key x xs) \<subseteq> insert x (set xs)"
  by (induction xs) auto

lemma ensureVolumeMount_subset: "set (ensureVolumeMount ms new) \<subseteq> set ms \<union> set new"
  by (induction new rule: rev_induct) (use replace_first_subset in \<open>fastforce simp: ensureVolumeMount_def\<close>)+

lemma ensureVolumeMount_keeps:
  "m \<in> set ms \<Longrightarrow> vmName m \<notin> vmName ` set new \<Longrightarrow> m \<in> set (ensureVolumeMount ms new)"
  by (induction new rule: rev_induct) (auto simp: ensureVolumeMount_def intro: replace_first_keeps)

lemma ensureVolumeMount_new:
  "m \<in> set new \<Longrightarrow> same_key_same vmName new \<Longrightarrow> m \<in> set (ensureVolumeMount ms new)"
proof (induction new rule: rev_induct)
  case (snoc x new)
  have step: "ensureVolumeMount ms (new @ [x]) = replace_first vmName x (ensureVolumeMount ms new)"
    by (simp add: ensureVolumeMount_def)
  show ?case
  proof (cases "m = x")
    case False
    with snoc show ?thesis unfolding step same_key_same_def by (intro replace_first_keeps) auto
  qed (simp add: step replace_first_new)
qed simp

lemma merge_new_keeps: "x \<in> set receiver \<Longrightarrow> x \<in> set (merge_new key giver receiver)"
  by (induction giver rule: rev_induct) (auto simp: merge_new_def)

lemma merge_new_subset: "set (merge_new key giver receiver) \<subseteq> set giver \<union> set receiver"
  by (induction giver rule: rev_induct) (auto simp: merge_new_def)

lemma merge_new_adds:
  assumes "x \<in> set giver" and "\<And>y. y \<in> set giver \<Longrightarrow> key y = key x \<Longrightarrow> y = x" and "key x \<notin> key ` set receiver"
  shows "x \<in> set (merge_new key giver receiver)"
  using assms
proof (induction giver rule: rev_induct)
  case (snoc g giver)
  have step: "merge_new key (giver @ [g]) receiver =
    (if key g \<in> key ` set (merge_new key giver receiver) then merge_new key giver receiver else merge_new key giver receiver @ [g])"
    by (simp add: merge_new_def)
  show ?case
  proof (cases "x \<in> set giver")
    case True
    then show ?thesis using snoc by (simp add: step)
  next
    case False
    then have "x = g" using snoc.prems(1) by simp
    moreover have "key g \<notin> key ` set (merge_new key giver receiver)"
      using False snoc.prems(2,3) \<open>x = g\<close> merge_new_subset [of key giver receiver] by fastforce
    ultimately show ?thesis by (simp add: step)
  qed
qed simp

lemma in_map_filter: "y \<in> set (List.map_filter f xs) \<longleftrightarrow> (\<exists>x\<in>set xs. f x = Some y)"
  by (induction xs) (auto simp: map_filter_simps split: option.splits)

lemma set_plugins_sorted: "set (plugins_sorted plugins) = {(k, pc). map_of plugins k = Some pc}"
proof (rule set_eqI)
  fix x :: "string \<times> PluginConfiguration"
  have "fst x \<in> fst ` set plugins" if "map_of plugins (fst x) = Some (snd x)"
    using map_of_SomeD [OF that] by force
  moreover have "x \<in> set (plugins_sorted plugins) \<longleftrightarrow>
      (\<exists>k. k \<in> fst ` set plugins \<and> map_option (Pair k) (map_of plugins k) = Some x)"
    by (auto simp: plugins_sorted_def plugin_keys_def in_map_filter)
  ultimately show "x \<in> set (plugins_sorted plugins) \<longleftrightarrow> x \<in> {(k, pc). map_of plugins k = Some pc}"
    by (cases x) auto
qed

definition klio_mounts :: "ClusterPlugins \<Rightarrow> VolumeMount list" where
  "klio_mounts plugins = \<lparr>vmName = ''klio-config'', vmMountPath = op_KlioConfigDir, vmReadOnly = False\<rparr> # map snd (getTLSVolumesAndMounts plugins)"

definition consistent :: "ClusterPlugins \<Rightarrow> bool" where
  "consistent plugins \<longleftrightarrow>
     (\<forall>k k' pc pc'. map_of plugins k = Some pc \<longrightarrow> map_of plugins k' = Some pc' \<longrightarrow> pcName pc = pcName pc' \<longrightarrow> pc = pc')"

lemma secret_names [simp]:
  "getServerSecretVolumeName a = getServerSecretVolumeName b \<longleftrightarrow> a = b"
  "getClientSecretVolumeName a = getClientSecretVolumeName b \<longleftrightarrow> a = b"
  "getServerSecretVolumeName a \<noteq> getClientSecretVolumeName b" "getClientSecretVolumeName b \<noteq> getServerSecretVolumeName a"
  by (simp_all add: getServerSecretVolumeName_def getClientSecretVolumeName_def append_eq_append_conv)

lemma secret_names_long:
  "length n \<le> 12 \<Longrightarrow> getServerSecretVolumeName a \<noteq> n" "length n \<le> 12 \<Longrightarrow> getClientSecretVolumeName a \<noteq> n"
  by (auto simp: getServerSecretVolumeName_def getClientSecretVolumeName_def)

lemma secret_names_fresh [simp]:
  assumes "n \<in> {''klio-config'', ''plugins'', ''pgdata'', ''scratch-data''}"
  shows "getServerSecretVolumeName a \<noteq> n" "getClientSecretVolumeName a \<noteq> n"
    "n \<noteq> getServerSecretVolumeName a" "n \<noteq> getClientSecretVolumeName a"
  using assms secret_names_long [of n a] by auto

lemma consistentD:
  "consistent plugins \<Longrightarrow> map_of plugins k = Some pc \<Longrightarrow> map_of plugins k' = Some pc' \<Longrightarrow> pcName pc = pcName pc' \<Longrightarrow> pc = pc'"
  unfolding consistent_def by blast

lemma klio_mounts_functional: "consistent plugins \<Longrightarrow> same_key_same vmName (klio_mounts plugins)"
  by (auto simp: same_key_same_def klio_mounts_def getTLSVolumesAndMounts_def set_plugins_sorted)

lemma sidecar_volumes_functional: "consistent plugins \<Longrightarrow> same_key_same volName (sidecar_volumes plugins)"
  by (auto simp: same_key_same_def sidecar_volumes_def config_volume_def getTLSVolumesAndMounts_def set_plugins_sorted
    dest: consistentD)

text \<open>The mounts that survive in the injected container.\<close>

lemma sidecar_mount_injected:
  assumes m: "m \<in> set (klio_mounts plugins)" and c: "consistent plugins"
    and user: "vmName m \<notin> vmName ` set (cVolumeMounts b)" and cfg: "rpPlugins cfg = plugins"
  shows "m \<in> set (cVolumeMounts (enrich_sidecar (mergeEnvironmentVariables main (sidecar_template getenv cl cfg)) pp i b))"
proof -
  let ?base = "[\<lparr>vmName = ''pgdata'', vmMountPath = ''/var/lib/postgresql/data'', vmReadOnly = False\<rparr>,
    \<lparr>vmName = ''scratch-data'', vmMountPath = ''/controller'', vmReadOnly = False\<rparr>]"
  have sm: "sidecar_mounts plugins = ensureVolumeMount ?base (klio_mounts plugins)"
    by (simp add: sidecar_mounts_def klio_mounts_def)
  have "m \<in> set (sidecar_mounts plugins)"
    unfolding sm by (rule ensureVolumeMount_new [OF m klio_mounts_functional [OF c]])
  moreover have "y = m" if "y \<in> set (sidecar_mounts plugins)" "vmName y = vmName m" for y
  proof -
    have "y \<in> set ?base \<union> set (klio_mounts plugins)" using that(1) ensureVolumeMount_subset unfolding sm by blast
    moreover have "vmName m \<notin> {''pgdata'', ''scratch-data''}"
      using m by (auto simp: klio_mounts_def getTLSVolumesAndMounts_def)
    ultimately show ?thesis using that(2) m klio_mounts_functional [OF c] by (auto simp: same_key_same_def)
  qed
  ultimately have "m \<in> set (merge_new vmName (sidecar_mounts plugins) (cVolumeMounts b))"
    using user by (intro merge_new_adds) auto
  then show ?thesis
    by (simp add: enrich_sidecar_def Let_def mergeVolumeMounts_def mergeEnvironmentVariables_def sidecar_template_def cfg)
qed

lemma injected_init_container:
  assumes "injectPluginSidecarPodSpec c m spec = Inr spec'"
  shows "\<exists>c'\<in>set (psInitContainers spec'). cName c' = cName c \<and> cArgs c' = cArgs c \<and>
    (\<forall>v. v \<in> set (cVolumeMounts c) \<longrightarrow> vmName v \<noteq> ''plugins'' \<longrightarrow>
       (\<forall>d\<in>set (psContainers spec). vmName v \<notin> vmName ` set (cVolumeMounts d)) \<longrightarrow> v \<in> set (cVolumeMounts c')) \<and>
    (\<forall>d\<in>set (psInitContainers spec'). cName d = cName c \<longrightarrow> d = c')"
proof -
  define mains where "mains = filter (\<lambda>d. cName d = m) (psContainers (InjectPluginVolumePodSpec m spec))"
  define c' where "c' = c\<lparr>cVolumeMounts := foldl (\<lambda>ms d. ensureVolumeMount ms (cVolumeMounts d)) (cVolumeMounts c) mains\<rparr>"
  have s': "psInitContainers spec' = put_init_container c' (psInitContainers spec)"
    using assms by (auto simp: injectPluginSidecarPodSpec_def Let_def c'_def mains_def split: if_splits)
  have stay: "v \<in> set (foldl (\<lambda>ms d. ensureVolumeMount ms (cVolumeMounts d)) ms ds)"
    if "v \<in> set ms" "\<And>d. d \<in> set ds \<Longrightarrow> vmName v \<notin> vmName ` set (cVolumeMounts d)" for v ms and ds :: "Container list"
    using that by (induction ds arbitrary: ms) (auto intro: ensureVolumeMount_keeps)
  have names: "vmName ` set (cVolumeMounts d) \<subseteq> insert ''plugins'' (\<Union>e\<in>set (psContainers spec). vmName ` set (cVolumeMounts e))"
    if "d \<in> set mains" for d
  proof -
    from that obtain e where e: "e \<in> set (psContainers spec)"
      "d = e \<or> d = e\<lparr>cVolumeMounts := ensureVolumeMount (cVolumeMounts e) [plugin_mount]\<rparr>"
      by (auto simp: mains_def InjectPluginVolumePodSpec_def split: if_splits)
    have "vmName ` set (ensureVolumeMount (cVolumeMounts e) [plugin_mount]) \<subseteq> insert ''plugins'' (vmName ` set (cVolumeMounts e))"
      using image_mono [OF ensureVolumeMount_subset [of "cVolumeMounts e" "[plugin_mount]"], of vmName] by (simp add: plugin_mount_def)
    with e(2) have "vmName ` set (cVolumeMounts d) \<subseteq> insert ''plugins'' (vmName ` set (cVolumeMounts e))" by (elim disjE) (simp_all add: subset_insertI)
    with e(1) show ?thesis by blast
  qed
  have "v \<in> set (cVolumeMounts c')" if "v \<in> set (cVolumeMounts c)" "vmName v \<noteq> ''plugins''"
    "\<forall>d\<in>set (psContainers spec). vmName v \<notin> vmName ` set (cVolumeMounts d)" for v
  proof -
    have "vmName v \<notin> vmName ` set (cVolumeMounts d)" if "d \<in> set mains" for d
      using names [OF that] \<open>vmName v \<noteq> ''plugins''\<close> that(1) \<open>\<forall>d\<in>set (psContainers spec). vmName v \<notin> vmName ` set (cVolumeMounts d)\<close>
      by blast
    from stay [OF that(1) this] show ?thesis by (simp add: c'_def)
  qed
  then show ?thesis
    unfolding s' by (intro bexI [of _ c']) (auto simp: put_init_container_def c'_def image_iff split: if_splits)
qed

text \<open>Every resolved PluginConfiguration was read from the API under a name.\<close>

lemma set_AList_update: "set (AList.update k v al) \<subseteq> insert (k, v) (set al)"
  by (induction al) auto

definition read_from :: "get_pc \<Rightarrow> CnpgCluster \<Rightarrow> (string \<times> configuration) list \<Rightarrow> bool" where
  "read_from get cl confs \<longleftrightarrow>
     (\<forall>k conf pc. (k, conf) \<in> set confs \<longrightarrow> klioPluginConfiguration conf = Some pc \<longrightarrow>
        (\<exists>ref. get (clNamespace cl) ref = Inr pc))"

lemma get_referenced_Inr: "get_referenced get cl ref = Inr pc \<Longrightarrow> get (clNamespace cl) ref = Inr pc"
  by (auto simp: get_referenced_def split: sum.splits api_error.splits)

lemma read_from_update:
  "read_from get cl confs \<Longrightarrow> (\<And>pc. klioPluginConfiguration conf = Some pc \<Longrightarrow> \<exists>ref. get (clNamespace cl) ref = Inr pc) \<Longrightarrow>
    read_from get cl (AList.update k conf confs)"
  unfolding read_from_def using set_AList_update [of k conf confs] by (metis (no_types, lifting) insertE prod.inject subsetD)

lemma addExternalCluster_read:
  "addExternalClusterConfiguration A get cl ext confs = Inr confs' \<Longrightarrow> read_from get cl confs \<Longrightarrow> read_from get cl confs'"
  by (auto simp: addExternalClusterConfiguration_def Let_def split: option.splits if_splits sum.splits
    intro!: read_from_update) (blast dest: get_referenced_Inr)

lemma add_external_clusters_read:
  "add_external_clusters A get cl exts confs = Inr confs' \<Longrightarrow> read_from get cl confs \<Longrightarrow> read_from get cl confs'"
  by (induction exts arbitrary: confs) (auto split: sum.splits dest: addExternalCluster_read)

lemma resolved_plugin_read:
  assumes "ResolveClusterPlugins A get cl = Inr plugins" and "(k, pc) \<in> set plugins"
  shows "\<exists>ref. get (clNamespace cl) ref = Inr pc"
proof -
  obtain confs where c: "getConfigurations A get cl = Inr confs"
    and p: "plugins = List.map_filter (\<lambda>(key, conf). map_option (Pair key) (plugin_of A conf)) confs"
    using assms(1) by (auto simp: ResolveClusterPlugins_def split: sum.splits)
  obtain confs0 where c0: "getArchivePluginConfigurations get cl = Inr confs0"
    "add_external_clusters A get cl (clExternalClusters cl) confs0 = Inr confs"
    using c by (auto simp: getConfigurations_def split: sum.splits)
  have "read_from get cl confs0"
    using c0(1) by (auto simp: getArchivePluginConfigurations_def read_from_def split: sum.splits option.splits) (blast dest: get_referenced_Inr)
  then have "read_from get cl confs" by (rule add_external_clusters_read [OF c0(2)])
  moreover obtain conf where "(k, conf) \<in> set confs" "plugin_of A conf = Some pc"
    using assms(2) unfolding p in_map_filter by auto
  ultimately show ?thesis
    by (fastforce simp: read_from_def plugin_of_def split: option.splits if_splits)
qed

lemma resolved_plugins_consistent:
  assumes "ResolveClusterPlugins A get cl = Inr plugins" and "\<And>n pc. get (clNamespace cl) n = Inr pc \<Longrightarrow> pcName pc = n"
  shows "consistent plugins"
  unfolding consistent_def using resolved_plugin_read [OF assms(1)] assms(2) by (metis Inr_inject map_of_SomeD)

text \<open>A mounted file: a mount of the container above the path, and the volume of that name in the pod.\<close>

definition mounted :: "Container \<Rightarrow> Volume list \<Rightarrow> VolumeSource \<Rightarrow> string \<Rightarrow> bool" where
  "mounted c vols src p \<longleftrightarrow>
     (\<exists>m\<in>set (cVolumeMounts c). \<exists>v\<in>set vols. volName v = vmName m \<and> volSource v = src \<and> within (vmMountPath m) p)"

lemma sidecar_volume_in_pod:
  assumes "consistent (rpPlugins cfg)" and "v \<in> set (sidecar_volumes (rpPlugins cfg))"
    and "psVolumes spec = foldl ensureVolume vols (sidecar_volumes (rpPlugins cfg))"
  shows "v \<in> set (psVolumes (InjectPluginVolumePodSpec m spec))"
proof -
  let ?vs = "sidecar_volumes (rpPlugins cfg)"
  obtain w where w: "w \<in> set (psVolumes spec)" "volName w = volName v"
    using assms(2) ensure_all_names [of vols ?vs] unfolding assms(3) by (metis UnI2 image_iff)
  moreover obtain u where u: "by_name ?vs (volName v) = Some u"
    using assms(2) by_name_None [of ?vs "volName v"] by fastforce
  ultimately have "w = u" using ensure_all_last [of w vols ?vs] by (simp add: assms(3))
  moreover have "u = v"
    using by_name_Some [OF u] assms(2) sidecar_volumes_functional [OF assms(1)] by (auto simp: same_key_same_def)
  ultimately show ?thesis using w by (auto simp: InjectPluginVolume_volumes)
qed

lemma buildInstanceSidecar_name [simp]: "cName (buildInstanceSidecarTemplate p cl pc a) = KlioPluginContainerName"
  by (auto simp: buildInstanceSidecarTemplate_def Let_def findUserContainer_def empty_container_def find_Some_iff split: option.splits)

lemma buildInstanceSidecar_mounts:
  "m \<in> set (cVolumeMounts (buildInstanceSidecarTemplate p cl (Some pc) a)) \<Longrightarrow>
     \<exists>c\<in>set (pcContainers (pcSpec pc)). m \<in> set (cVolumeMounts c)"
  by (auto simp: buildInstanceSidecarTemplate_def Let_def findUserContainer_def empty_container_def find_Some_iff
    split: option.splits intro: nth_mem)

lemma selected_is_resolved: "selectPluginConfiguration A cl p plugins = Inr (Some pc) \<Longrightarrow> \<exists>k. map_of plugins k = Some pc"
  by (auto simp: selectPluginConfiguration_def ArchivePluginConfiguration_def split: option.splits sum.splits if_splits)

definition names_free :: "ClusterPlugins \<Rightarrow> Container list \<Rightarrow> bool" where
  "names_free plugins cs \<longleftrightarrow> (\<forall>c\<in>set cs. vmName ` set (cVolumeMounts c) \<inter> vmName ` set (klio_mounts plugins) = {})"

definition projects :: "Volume \<Rightarrow> string \<Rightarrow> string \<Rightarrow> string \<Rightarrow> bool" where
  "projects v secret key path \<longleftrightarrow>
     (case vsProjected (volSource v) of None \<Rightarrow> False | Some ps \<Rightarrow> SecretProjection secret [(key, path)] \<in> set (pjSources ps))"

lemma config_volume_projects:
  "map_of plugins key = Some pc \<Longrightarrow> projects (config_volume plugins) (pcName pc) ConfigDataKey key"
  by (force simp: projects_def config_volume_def set_plugins_sorted)

lemma enrich_sidecar_name [simp]: "cName (enrich_sidecar t pp i b) = cName b"
  by (simp add: enrich_sidecar_def Let_def mergeVolumeMounts_def mergeEnvironmentVariables_def)

lemma enrich_sidecar_args: "\<exists>as. cArgs (enrich_sidecar t pp i b) = cArgs b @ as"
  by (simp add: enrich_sidecar_def Let_def mergeVolumeMounts_def mergeEnvironmentVariables_def)

lemma archive_args:
  "\<exists>as. cArgs (buildInstanceSidecarTemplate p cl pc True) = as @ [''--config'', path_Join [op_KlioConfigDir, op_ArchiveConfigKey]]"
  by (simp add: buildInstanceSidecarTemplate_def Let_def)

text \<open>What one run of the hook puts into the pod.\<close>

lemma hook_run:
  assumes hook: "LifecycleHook E op (Inr cl) (Inr (PodObject (Inr pod))) = Inr (Some (Inl pod'))"
    and resolved: "ResolveClusterPlugins (oeCnpg E) (oeGet E) cl = Inr plugins" and cons: "consistent plugins"
    and free: "names_free plugins (psContainers (podSpec pod))"
      "\<forall>k pc. map_of plugins k = Some pc \<longrightarrow> names_free plugins (pcContainers (pcSpec pc))"
  shows "set (sidecar_volumes plugins) \<subseteq> set (psVolumes (podSpec pod'))"
    and "\<exists>c\<in>set (psInitContainers (podSpec pod')). cName c = KlioPluginContainerName \<and> set (klio_mounts plugins) \<subseteq> set (cVolumeMounts c) \<and>
      (ArchivePluginConfiguration plugins \<noteq> None \<longrightarrow>
         sublist [''--config'', path_Join [op_KlioConfigDir, op_ArchiveConfigKey]] (cArgs c)) \<and>
      (\<forall>d\<in>set (psInitContainers (podSpec pod')). cName d = KlioPluginContainerName \<longrightarrow> d = c)"
proof -
  let ?arch = "ArchivePluginConfiguration plugins \<noteq> None"
  let ?b = "\<lambda>pc. buildInstanceSidecarTemplate (podName pod) cl (Some pc) ?arch"
  let ?cfg = "\<lambda>pc. podspec_config E cl plugins (?b pc)"
  define spec1 where "spec1 = (podSpec pod)\<lparr>psVolumes := foldl ensureVolume (psVolumes (podSpec pod)) (sidecar_volumes plugins)\<rparr>"
  obtain tpc spec where sel: "selectPluginConfiguration (oeCnpg E) cl (podName pod) plugins = Inr (Some tpc)"
    and run: "reconcilePodSpec (oeGetenv E) cl ''postgres'' (?cfg tpc) (podSpec pod) = Inr spec" and pod': "podSpec pod' = spec"
    using hook resolved unfolding LifecycleHook_Some reconcilePod_Some by auto
  obtain k where k: "map_of plugins k = Some tpc" using selected_is_resolved [OF sel] by blast
  let ?pp = "list_ex (\<lambda>(k, pc). pcPprof (pcSpec pc)) plugins"
  obtain side where side_def: "\<exists>main. side = enrich_sidecar (mergeEnvironmentVariables main (sidecar_template (oeGetenv E) cl (?cfg tpc))) ?pp 0 (?b tpc)"
    and inj: "injectPluginSidecarPodSpec side ''postgres'' spec1 = Inr spec"
    using run unfolding reconcilePodSpec_single [OF podspec_config_sel(1)] by (auto simp: spec1_def Let_def KlioPluginContainerName_def)
  show "set (sidecar_volumes plugins) \<subseteq> set (psVolumes (podSpec pod'))"
    using sidecar_volume_in_pod [of "?cfg tpc" _ spec1 "psVolumes (podSpec pod)"] cons
    unfolding pod' injected_parts(1) [OF inj] by (auto simp: spec1_def)
  have names: "vmName m \<notin> vmName ` set (cVolumeMounts (?b tpc))" if "m \<in> set (klio_mounts plugins)" for m
    using that free(2) [rule_format, OF k] buildInstanceSidecar_mounts unfolding names_free_def by (fastforce simp: image_iff)
  have side: "cName side = KlioPluginContainerName" using side_def by auto
  have kept: "m \<in> set (cVolumeMounts side)" if "m \<in> set (klio_mounts plugins)" for m
    using sidecar_mount_injected [OF that cons names [OF that] podspec_config_sel(2)] side_def by blast
  have "vmName m \<noteq> ''plugins''" if "m \<in> set (klio_mounts plugins)" for m
    using that by (auto simp: klio_mounts_def getTLSVolumesAndMounts_def)
  moreover have "\<forall>d\<in>set (psContainers spec1). vmName m \<notin> vmName ` set (cVolumeMounts d)" if "m \<in> set (klio_mounts plugins)" for m
    using free(1) that by (auto simp: names_free_def spec1_def)
  moreover have "sublist [''--config'', path_Join [op_KlioConfigDir, op_ArchiveConfigKey]] (cArgs side)" if ?arch
  proof -
    note arch = eqTrueI [OF that]
    obtain bs where "cArgs side = cArgs (?b tpc) @ bs" using side_def enrich_sidecar_args by metis
    moreover obtain as where "cArgs (?b tpc) = as @ [''--config'', path_Join [op_KlioConfigDir, op_ArchiveConfigKey]]"
      using archive_args [of "podName pod" cl "Some tpc"] unfolding arch by blast
    ultimately have "cArgs side = as @ [''--config'', path_Join [op_KlioConfigDir, op_ArchiveConfigKey]] @ bs" by simp
    then show ?thesis unfolding sublist_def by blast
  qed
  ultimately show "\<exists>c\<in>set (psInitContainers (podSpec pod')). cName c = KlioPluginContainerName \<and> set (klio_mounts plugins) \<subseteq> set (cVolumeMounts c) \<and>
      (?arch \<longrightarrow> sublist [''--config'', path_Join [op_KlioConfigDir, op_ArchiveConfigKey]] (cArgs c)) \<and>
      (\<forall>d\<in>set (psInitContainers (podSpec pod')). cName d = KlioPluginContainerName \<longrightarrow> d = c)"
    using injected_init_container [OF inj] kept unfolding pod' side by (metis (no_types, lifting) subsetI)
qed

lemma mountedI:
  "m \<in> set (cVolumeMounts c) \<Longrightarrow> v \<in> set vols \<Longrightarrow> volName v = vmName m \<Longrightarrow> volSource v = src \<Longrightarrow> within (vmMountPath m) p \<Longrightarrow>
    mounted c vols src p"
  unfolding mounted_def by blast

lemma cert_files_mounted:
  assumes "map_of plugins key = Some pc" and "plugin_admitted (pcSpec pc)" and "plain_elem (pcName pc)"
    and "set (klio_mounts plugins) \<subseteq> set (cVolumeMounts c)" and "set (sidecar_volumes plugins) \<subseteq> set vols"
  shows "mounted c vols (ToCoreV1 (vfVolume (ptServerCA (pcTLS (pcSpec pc)))))
      (wrServerCertPath (ccWal (dClient (GenerateConfig (pcSpec pc) (pcName pc)))))"
    and "p \<in> {wrClientCertPath, wrClientKeyPath} \<Longrightarrow> mounted c vols (ToCoreV1 (tiVolume (ptClientIdentity (pcTLS (pcSpec pc)))))
      (p (ccWal (dClient (GenerateConfig (pcSpec pc) (pcName pc)))))"
proof -
  note certs = cert_mounts(1,2) [OF _ assms(3)]
  have rel: "relative_path (tiCertPath (ptClientIdentity (pcTLS (pcSpec pc))))" "relative_path (tiKeyPath (ptClientIdentity (pcTLS (pcSpec pc))))"
    "relative_path (vfPath (ptServerCA (pcTLS (pcSpec pc))))" using assms(2) by (auto simp: plugin_admitted_def)
  define ms where "ms = \<lparr>vmName = getServerSecretVolumeName (pcName pc), vmMountPath = GetServerSecretVolumeMountPath (pcName pc), vmReadOnly = True\<rparr>"
  define mc where "mc = \<lparr>vmName = getClientSecretVolumeName (pcName pc), vmMountPath = GetClientSecretVolumeMountPath (pcName pc), vmReadOnly = True\<rparr>"
  define sv where "sv = \<lparr>volName = getServerSecretVolumeName (pcName pc), volSource = ToCoreV1 (vfVolume (ptServerCA (pcTLS (pcSpec pc))))\<rparr>"
  define cv where "cv = \<lparr>volName = getClientSecretVolumeName (pcName pc), volSource = ToCoreV1 (tiVolume (ptClientIdentity (pcTLS (pcSpec pc))))\<rparr>"
  have "(key, pc) \<in> set (plugins_sorted plugins)" using assms(1) by (simp add: set_plugins_sorted)
  then have "(sv, ms) \<in> set (getTLSVolumesAndMounts plugins)" "(cv, mc) \<in> set (getTLSVolumesAndMounts plugins)"
    unfolding getTLSVolumesAndMounts_def sv_def cv_def ms_def mc_def by force+
  then have here: "ms \<in> set (cVolumeMounts c)" "sv \<in> set vols" "mc \<in> set (cVolumeMounts c)" "cv \<in> set vols"
    using assms(4,5) by (force simp: klio_mounts_def sidecar_volumes_def)+
  show "mounted c vols (ToCoreV1 (vfVolume (ptServerCA (pcTLS (pcSpec pc))))) (wrServerCertPath (ccWal (dClient (GenerateConfig (pcSpec pc) (pcName pc)))))"
    by (rule mountedI [OF here(1,2)]) (use certs(1) [OF rel(3)] in \<open>simp_all add: sv_def ms_def GenerateConfig_def Let_def\<close>)
  show "p \<in> {wrClientCertPath, wrClientKeyPath} \<Longrightarrow> mounted c vols (ToCoreV1 (tiVolume (ptClientIdentity (pcTLS (pcSpec pc)))))
      (p (ccWal (dClient (GenerateConfig (pcSpec pc) (pcName pc)))))"
    by (rule mountedI [OF here(3,4)]) (use certs(2) [OF rel(1)] certs(2) [OF rel(2)] in \<open>auto simp: cv_def mc_def GenerateConfig_def Let_def\<close>)
qed


section \<open>Witnesses\<close>

definition demo_volume :: VolumeSource where
  "demo_volume = no_volume_source\<lparr>vsSecret := Some \<lparr>fsName = ''tls'', fsDefaultMode = None\<rparr>\<rparr>"

definition demo_pc :: PluginConfiguration where
  "demo_pc = \<lparr>pcName = ''main'', pcNamespace = ''db'', pcSpec =
     \<lparr>pcServerAddress = ''klio.db'', pcTier1 = None,
      pcTier2 = Some \<lparr>p2EnableBackup = True, p2EnableRecovery = True, p2Retention = None,
        p2Compression = Some \<lparr>Algorithm = ''zstd'', MinSize = 0, MaxSize = 0\<rparr>\<rparr>,
      pcWALPrefetch = None,
      pcTLS = \<lparr>ptClientIdentity = \<lparr>tiVolume = demo_volume, tiCertPath = ''tls.crt'', tiKeyPath = ''tls.key''\<rparr>,
        ptServerCA = \<lparr>vfVolume = demo_volume, vfPath = ''ca/ca.crt''\<rparr>\<rparr>,
      pcClusterName = ''cluster'', pcPprof = False, pcMode = ModeStandard,
      pcContainers = [(empty_container ''klio-plugin'')\<lparr>cVolumeMounts := [\<lparr>vmName = ''extra'', vmMountPath = ''/extra'', vmReadOnly = True\<rparr>]\<rparr>]\<rparr>\<rparr>"

definition demo_cluster :: CnpgCluster where
  "demo_cluster = \<lparr>clName = ''cluster'', clNamespace = ''db'', clGroup = [], clVersion = [], clImagePullPolicy = [],
     clPlugins = [\<lparr>cpName = ''klio.cnpg.io'', cpEnabled = None, cpParameters = [(''pluginConfigurationRef'', ''main'')]\<rparr>],
     clExternalClusters = [], clRecoverySource = None, clReplicaSource = None, clCurrentPrimary = ''cluster-1'', clTargetPrimary = ''cluster-1''\<rparr>"

definition demo_cnpg :: cnpg_api where
  "demo_cnpg = \<lparr>IsEnabled = (\<lambda>p. cpEnabled p \<noteq> Some False), GetServerName = ecName, GetRecoverySourcePlugin = (\<lambda>_. None),
     ExternalCluster = (\<lambda>_ n. \<lparr>ecName = n, ecPlugin = None\<rparr>), IsReplica = (\<lambda>_. False),
     defaultGroup = ''postgresql.cnpg.io'', defaultVersion = ''v1''\<rparr>"

definition demo_op :: op_env where
  "demo_op = \<lparr>oeCnpg = demo_cnpg, oeGet = (\<lambda>ns n. if n = ''main'' then Inr demo_pc else Inl ApiNotFound),
     oeGetenv = (\<lambda>_. ''klio:latest''), oeHaveSCC = False\<rparr>"

definition demo_pod :: Pod where
  "demo_pod = \<lparr>podName = ''cluster-1'', podSpec = \<lparr>psContainers = [(empty_container ''postgres'')\<lparr>cVolumeMounts :=
       [\<lparr>vmName = ''pgdata'', vmMountPath = ''/var/lib/postgresql/data'', vmReadOnly = False\<rparr>,
        \<lparr>vmName = ''scratch-data'', vmMountPath = ''/run'', vmReadOnly = False\<rparr>]\<rparr>],
     psInitContainers = [empty_container ''bootstrap-controller''], psVolumes = []\<rparr>\<rparr>"

definition demo_hooked :: Pod where
  "demo_hooked = (case LifecycleHook demo_op True (Inr demo_cluster) (Inr (PodObject (Inr demo_pod))) of
     Inr (Some (Inl p)) \<Rightarrow> p | _ \<Rightarrow> demo_pod)"

lemma demo_admitted: "plugin_admitted (pcSpec demo_pc)" "plain_elem (pcName demo_pc)" "plain_elem ''main''" "pcName demo_pc = ''main''"
  by code_simp+

lemma demo_hook: "LifecycleHook demo_op True (Inr demo_cluster) (Inr (PodObject (Inr demo_pod))) = Inr (Some (Inl demo_hooked))"
  by code_simp

lemma demo_resolved: "ResolveClusterPlugins (oeCnpg demo_op) (oeGet demo_op) demo_cluster = Inr [(op_ArchiveConfigKey, demo_pc)]"
  by code_simp

lemma demo_names_free:
  "names_free [(op_ArchiveConfigKey, demo_pc)] (psContainers (podSpec demo_pod))"
  "names_free [(op_ArchiveConfigKey, demo_pc)] (pcContainers (pcSpec demo_pc))"
  by code_simp+


theorem lifecycle_hook_is_idempotent_witness:
  "demo_hooked \<noteq> demo_pod \<and>
   LifecycleHook demo_op True (Inr demo_cluster) (Inr (PodObject (Inr demo_hooked))) = Inr (Some (Inl demo_hooked))"
proof
  show "demo_hooked \<noteq> demo_pod" by code_simp
  show "LifecycleHook demo_op True (Inr demo_cluster) (Inr (PodObject (Inr demo_hooked))) = Inr (Some (Inl demo_hooked))"
    using lifecycle_hook_is_idempotent [of demo_op True demo_cluster demo_pod demo_hooked] demo_hook by blast
qed


section \<open>Lemmas: resolution and the secret\<close>

text \<open>An external cluster whose server name is the archive's key replaces the archive's configuration.\<close>

lemma external_cluster_replaces_archive:
  assumes "ecPlugin ext = Some p" and "cpName p = PluginName" and "IsEnabled A p" and "GetServerName A ext = op_ArchiveConfigKey"
    and "cnpg_parameter p PluginConfigurationRefParam = ref" and "ref \<noteq> []" and "get (clNamespace cl) ref = Inr pc"
    and "addExternalClusterConfiguration A get cl ext confs = Inr confs'"
  shows "map_of confs' op_ArchiveConfigKey = Some \<lparr>cnpgPluginConfiguration = Some p, klioPluginConfiguration = Some pc\<rparr>"
  using assms by (auto simp: addExternalClusterConfiguration_def get_referenced_def Let_def update_conv)

text \<open>A disabled archive plugin is still resolved: a missing PluginConfiguration makes the cluster wait.\<close>

lemma disabled_archive_still_gates:
  assumes "decode b = Inr cl" and "getArchivePluginConfiguration cl = Some p" and "\<not> IsEnabled A p"
    and "cnpg_parameter p PluginConfigurationRefParam = ref" and "ref \<noteq> []" and "get (clNamespace cl) ref = Inl ApiNotFound"
  shows "Pre A get decode (Some b) = Inr (BehaviorRequeue 5)"
  using assms by (simp add: Pre_def ResolveClusterPlugins_def getConfigurations_def getArchivePluginConfigurations_def
    getParameter_def get_referenced_def defaultRequeueAfterSeconds_def)

text \<open>A secret without a controller is taken over, and its data is replaced.\<close>

lemma unowned_secret_is_taken_over:
  "secController s = None \<Longrightarrow>
    \<exists>s'. mutate_secret owner y s = Inr s' \<and> secData s' = [(ConfigDataKey, y)] \<and> secController s' = Some owner"
  by (simp add: mutate_secret_def SetControllerReference_def)

lemma foreign_secret_is_left:
  "secController s = Some c \<Longrightarrow> c \<noteq> owner \<Longrightarrow> \<exists>e. mutate_secret owner y s = Inl e"
  by (simp add: mutate_secret_def SetControllerReference_def)

end
