(* ===== verification/Operator_Server.thy ===== *)
theory Operator_Server
  imports Operator_Plugin
begin

text \<open>
  The operator's side of the Klio server: the Server resource (operator/api/v1alpha1/server_types.go) and its
  controller (operator/internal/controller): the environment, volumes and mounts of the server container, the
  StatefulSet and the Service, and the resizing of the volume claim.  The configuration that the server reads from
  its environment (core/cmd/root.go and the tags of core/pkg/config/server.go) ties it to the validation of Klio_Config.

  The Kubernetes API is the record \<open>srv_env\<close>; quantities are integers.  JSON, the strategic merge patch, the
  printer behind the hash and the safe encoding are parameters.  Events and log lines are not modelled.
\<close>

section \<open>operator/api/v1alpha1/server_types.go\<close>

record TLSConfiguration =
  tlServerIdentity :: TLSIdentity
  tlClientCA :: VolumeFileReference

record EncryptionFiles =
  efVolume :: VolumeSource
  efKeyPath :: string
  efIdentityPath :: string

record Tier1Configuration =
  o1Encryption :: EncryptionFiles
  o1Compression :: "CompressionPolicy option"

type_synonym SecretKeySelector = "string \<times> string"

record op_S3Configuration =
  o3BucketName :: string
  o3Prefix :: string
  o3Endpoint :: string
  o3Region :: string
  o3AccessKeyID :: "SecretKeySelector option"
  o3SecretAccessKey :: "SecretKeySelector option"
  o3SessionToken :: "SecretKeySelector option"
  o3CredentialsFile :: "VolumeFileReference option"
  o3Profile :: string
  o3CustomCABundle :: "VolumeFileReference option"

record Tier2Configuration =
  o2S3 :: "op_S3Configuration option"
  o2Encryption :: EncryptionFiles
  o2Compression :: "CompressionPolicy option"

record ServerContainer = Container +
  cPorts :: "(string \<times> int) list"

record PodSecurityContext =
  pxFSGroup :: int
  pxRunAsGroup :: int
  pxRunAsNonRoot :: bool
  pxRunAsUser :: int
  pxSeccompProfile :: string

record ServerPodSpec =
  spImagePullSecrets :: "string list"
  spSecurityContext :: "PodSecurityContext option"
  spContainers :: "ServerContainer list"
  spInitContainers :: "ServerContainer list"
  spVolumes :: "Volume list"

record PodTemplateSpec =
  tpLabels :: "(string \<times> string) list"
  tpAnnotations :: "(string \<times> string) list"
  tpSpec :: ServerPodSpec

text \<open>A claim template: the requested storage, when there is such a request, and the fields that are only carried along.\<close>

record PvcSpec =
  pvStorage :: "int option"
  pvRest :: string

record ServerSpec =
  srImage :: string
  srImagePullPolicy :: string
  srImagePullSecrets :: "string list"
  srTLS :: TLSConfiguration
  srMode :: ServerMode
  srTier1 :: "Tier1Configuration option"
  srTier2 :: "Tier2Configuration option"
  srStorage :: PvcSpec
  srTemplate :: "PodTemplateSpec option"

record Server =
  sName :: string
  sNamespace :: string
  sUID :: string
  sAnnotations :: "(string \<times> string) list"
  sDeleting :: bool
  sSpec :: ServerSpec

definition GetStatefulSetName :: "Server \<Rightarrow> string" where
  "GetStatefulSetName s = sName s @ ''-klio''"

definition GetServiceName :: "Server \<Rightarrow> string" where
  "GetServiceName s = sName s"

text \<open>What the validation rules on these types make the API server check.\<close>

definition encryption_admitted :: "EncryptionFiles \<Rightarrow> bool" where
  "encryption_admitted f \<longleftrightarrow> relative_path (efKeyPath f) \<and> relative_path (efIdentityPath f)"

definition s3_admitted :: "op_S3Configuration \<Rightarrow> bool" where
  "s3_admitted s \<longleftrightarrow>
     (o3CredentialsFile s = None \<or> o3AccessKeyID s = None \<and> o3SecretAccessKey s = None \<and> o3SessionToken s = None) \<and>
     (o3Profile s = [] \<or> o3CredentialsFile s \<noteq> None) \<and>
     (o3AccessKeyID s \<noteq> None) = (o3SecretAccessKey s \<noteq> None) \<and>
     (o3SessionToken s = None \<or> o3AccessKeyID s \<noteq> None \<and> o3SecretAccessKey s \<noteq> None) \<and>
     (case o3CredentialsFile s of None \<Rightarrow> True | Some f \<Rightarrow> relative_path (vfPath f)) \<and>
     (case o3CustomCABundle s of None \<Rightarrow> True | Some f \<Rightarrow> relative_path (vfPath f))"

definition server_admitted :: "ServerSpec \<Rightarrow> bool" where
  "server_admitted s \<longleftrightarrow>
     (srMode s = ModeReadOnly \<or> srTier1 s \<noteq> None) \<and> (srMode s \<noteq> ModeReadOnly \<or> srTier2 s \<noteq> None) \<and>
     \<not> (srMode s = ModeReadOnly \<and> srTier1 s \<noteq> None) \<and>
     (case srTier2 s of None \<Rightarrow> True
      | Some t \<Rightarrow> \<not> (srMode s = ModeReadOnly \<and> o2Compression t \<noteq> None) \<and> encryption_admitted (o2Encryption t) \<and>
          compression_admitted (o2Compression t) \<and> (case o2S3 t of None \<Rightarrow> False | Some s3 \<Rightarrow> s3_admitted s3)) \<and>
     (case srTier1 s of None \<Rightarrow> True | Some t \<Rightarrow> encryption_admitted (o1Encryption t) \<and> compression_admitted (o1Compression t)) \<and>
     relative_path (tiCertPath (tlServerIdentity (srTLS s))) \<and> relative_path (tiKeyPath (tlServerIdentity (srTLS s))) \<and>
     relative_path (vfPath (tlClientCA (srTLS s)))"

section \<open>operator/internal/controller/server_envbuilder.go\<close>

definition kopiaCacheSubdirectory :: string where "kopiaCacheSubdirectory = ''kopia-cache''"
definition klioMountPath :: string where "klioMountPath = ''/klio''"
definition fileBasePath :: string where "fileBasePath = ''/files''"
definition tier1EncryptionVolName :: string where "tier1EncryptionVolName = ''tier1-encryption''"
definition tier2EncryptionVolName :: string where "tier2EncryptionVolName = ''tier2-encryption''"
definition tier2S3CredentialsVolName :: string where "tier2S3CredentialsVolName = ''tier2-s3-credentials''"
definition tier2S3CABundleVolName :: string where "tier2S3CABundleVolName = ''tier2-s3-ca-bundle''"
definition serverIdentityVolName :: string where "serverIdentityVolName = ''server-identity''"
definition clientCAVolName :: string where "clientCAVolName = ''client-ca''"
definition pvcTypeKlio :: string where "pvcTypeKlio = ''klio''"
definition klioServerLabel :: string where "klioServerLabel = ''klio.cnpg.io/klio-server''"
definition serverContainerName :: string where "serverContainerName = ''server''"
definition hashAnnotation :: string where "hashAnnotation = ''klio.cnpg.io/klio-server-hash''"

definition env :: "string \<Rightarrow> string \<Rightarrow> EnvVar" where
  "env n v = \<lparr>evName = n, evValue = v, evFrom = None\<rparr>"

definition secretKeySelectorToEnvVarSource :: "SecretKeySelector option \<Rightarrow> env_source option" where
  "secretKeySelectorToEnvVarSource src = map_option (\<lambda>(n, k). SecretKeyRef n k) src"

definition fileRefPath :: "string \<Rightarrow> VolumeFileReference \<Rightarrow> string" where
  "fileRefPath vol src = path_Join [fileBasePath, vol, vfPath src]"

definition appendEnvIfNotEmpty :: "EnvVar list \<Rightarrow> string \<Rightarrow> string \<Rightarrow> EnvVar list" where
  "appendEnvIfNotEmpty envs n v = (if v \<noteq> [] then envs @ [env n v] else envs)"

definition appendCompressionEnvs :: "EnvVar list \<Rightarrow> string \<Rightarrow> CompressionPolicy option \<Rightarrow> EnvVar list" where
  "appendCompressionEnvs envs pre compression =
     (case compression of
        None \<Rightarrow> envs
      | Some c \<Rightarrow>
          let e1 = appendEnvIfNotEmpty envs (pre @ ''_COMPRESSION_ALGORITHM'') (Algorithm c);
              e2 = (if 0 < MinSize c then e1 @ [env (pre @ ''_COMPRESSION_MIN_SIZE'') (FormatNat (nat (MinSize c)))] else e1)
          in if 0 < MaxSize c then e2 @ [env (pre @ ''_COMPRESSION_MAX_SIZE'') (FormatNat (nat (MaxSize c)))] else e2)"

definition getKubernetesDownwardAPIEnvVars :: "EnvVar list" where
  "getKubernetesDownwardAPIEnvVars =
     [\<lparr>evName = ''POD_NAME'', evValue = [], evFrom = Some (FieldRef ''metadata.name'')\<rparr>,
      \<lparr>evName = ''NAMESPACE_NAME'', evValue = [], evFrom = Some (FieldRef ''metadata.namespace'')\<rparr>]"

definition tier1_env :: "Tier1Configuration \<Rightarrow> EnvVar list" where
  "tier1_env t = appendCompressionEnvs
     [env ''TIER1_BASE_CACHE'' (path_Join [klioMountPath, ''cache_tier1'', kopiaCacheSubdirectory]),
      env ''TIER1_BASE_REPOSITORY'' (path_Join [klioMountPath, ''data'', ''base'']),
      env ''TIER1_BASE_LISTEN_ADDRESS'' ''0.0.0.0:11515'',
      env ''TIER1_WAL_LISTEN_ADDRESS'' ''0.0.0.0:12000'',
      env ''TIER1_WAL_PATH'' (path_Join [klioMountPath, ''data'', ''wal'']),
      env ''TIER1_ENCRYPTION_KEY_FILE'' (path_Join [fileBasePath, tier1EncryptionVolName, efKeyPath (o1Encryption t)]),
      env ''TIER1_IDENTITY_FILE'' (path_Join [fileBasePath, tier1EncryptionVolName, efIdentityPath (o1Encryption t)]),
      env ''QUEUE_DIRECTORY'' (path_Join [klioMountPath, ''queue''])]
     ''TIER1'' (o1Compression t)"

definition getCoreEnvVars :: "ServerSpec \<Rightarrow> EnvVar list" where
  "getCoreEnvVars s =
     [env ''TLS_CERT'' (path_Join [fileBasePath, serverIdentityVolName, tiCertPath (tlServerIdentity (srTLS s))]),
      env ''TLS_KEY'' (path_Join [fileBasePath, serverIdentityVolName, tiKeyPath (tlServerIdentity (srTLS s))]),
      env ''TLS_CLIENT_CA_CERT'' (fileRefPath clientCAVolName (tlClientCA (srTLS s)))] @
     (case srTier1 s of None \<Rightarrow> [] | Some t \<Rightarrow> tier1_env t)"

definition secret_env :: "string \<Rightarrow> SecretKeySelector option \<Rightarrow> EnvVar list" where
  "secret_env n sel =
     (case sel of None \<Rightarrow> [] | Some x \<Rightarrow> [\<lparr>evName = n, evValue = [], evFrom = secretKeySelectorToEnvVarSource sel\<rparr>])"

definition getTier2EnvVars :: "ServerSpec \<Rightarrow> EnvVar list" where
  "getTier2EnvVars s =
     (case srTier2 s of
        None \<Rightarrow> []
      | Some t \<Rightarrow>
          (case o2S3 t of
             None \<Rightarrow> []
           | Some s3 \<Rightarrow>
               let r1 = [env ''TIER2_S3_ENABLED'' ''true'', env ''TIER2_S3_BUCKET_NAME'' (o3BucketName s3),
                      env ''TIER2_CACHE'' (path_Join [klioMountPath, ''cache_tier2'', kopiaCacheSubdirectory]),
                      env ''TIER2_BASE_LISTEN_ADDRESS'' ''0.0.0.0:11516'', env ''TIER2_WAL_LISTEN_ADDRESS'' ''0.0.0.0:12001'',
                      env ''TIER2_ENCRYPTION_KEY_FILE'' (path_Join [fileBasePath, tier2EncryptionVolName, efKeyPath (o2Encryption t)]),
                      env ''TIER2_IDENTITY_FILE'' (path_Join [fileBasePath, tier2EncryptionVolName, efIdentityPath (o2Encryption t)])] @
                      secret_env ''TIER2_S3_ACCESS_KEY_ID'' (o3AccessKeyID s3) @
                      secret_env ''TIER2_S3_SECRET_ACCESS_KEY'' (o3SecretAccessKey s3) @
                      secret_env ''TIER2_S3_SESSION_TOKEN'' (o3SessionToken s3) @
                      (case o3CredentialsFile s3 of None \<Rightarrow> []
                       | Some f \<Rightarrow> [env ''AWS_SHARED_CREDENTIALS_FILE'' (fileRefPath tier2S3CredentialsVolName f)]) @
                      (case o3CustomCABundle s3 of None \<Rightarrow> []
                       | Some f \<Rightarrow> [env ''TIER2_S3_CUSTOM_CA_BUNDLE_FILE'' (fileRefPath tier2S3CABundleVolName f)]);
                   r2 = appendEnvIfNotEmpty r1 ''TIER2_S3_ENDPOINT'' (o3Endpoint s3);
                   r3 = appendEnvIfNotEmpty r2 ''TIER2_S3_PREFIX'' (o3Prefix s3);
                   r4 = appendEnvIfNotEmpty r3 ''TIER2_S3_REGION'' (o3Region s3);
                   r5 = appendEnvIfNotEmpty r4 ''AWS_PROFILE'' (o3Profile s3)
               in appendCompressionEnvs r5 ''TIER2'' (o2Compression t)))"

definition addCommonEnvs :: "ServerSpec \<Rightarrow> EnvVar list \<Rightarrow> EnvVar list" where
  "addCommonEnvs s built = built @ getCoreEnvVars s @ getKubernetesDownwardAPIEnvVars @ getTier2EnvVars s"

definition addServerEnvs :: "EnvVar list \<Rightarrow> EnvVar list" where
  "addServerEnvs built = built @ [env ''CONTAINER_NAME'' ''base'']"

definition server_envs :: "ServerSpec \<Rightarrow> EnvVar list" where
  "server_envs s = addServerEnvs (addCommonEnvs s [])"

section \<open>The configuration that the server reads from its environment\<close>

text \<open>
  Of several variables with one name the container gets the last; a reference is resolved by the kubelet.  With
  AutomaticEnv and the key replacer of initConfig, viper reads each field of ServerConfig from the variable that has the
  path of its tags in upper case, and the region also from AWS_REGION; a missing variable leaves the zero value.
\<close>

definition container_env :: "(env_source \<Rightarrow> string) \<Rightarrow> EnvVar list \<Rightarrow> string \<Rightarrow> string" where
  "container_env res envs n =
     (case List.find (\<lambda>e. evName e = n) (rev envs) of
        None \<Rightarrow> []
      | Some e \<Rightarrow> (case evFrom e of None \<Rightarrow> evValue e | Some src \<Rightarrow> res src))"

definition compression_of_env :: "(string \<Rightarrow> int) \<Rightarrow> (string \<Rightarrow> string) \<Rightarrow> string \<Rightarrow> CompressionPolicy" where
  "compression_of_env num v pre =
     \<lparr>Algorithm = v (pre @ ''_COMPRESSION_ALGORITHM''), MinSize = num (v (pre @ ''_COMPRESSION_MIN_SIZE'')),
      MaxSize = num (v (pre @ ''_COMPRESSION_MAX_SIZE''))\<rparr>"

definition server_config_of_env :: "(string \<Rightarrow> int) \<Rightarrow> (string \<Rightarrow> bool) \<Rightarrow> (string \<Rightarrow> string) \<Rightarrow> ServerConfig" where
  "server_config_of_env num flag v =
     \<lparr>svTLS = \<lparr>TLSCert = v ''TLS_CERT'', TLSKey = v ''TLS_KEY'', ClientCACertFile = v ''TLS_CLIENT_CA_CERT''\<rparr>,
      svTier1 = \<lparr>t1EncryptionKeyFile = v ''TIER1_ENCRYPTION_KEY_FILE'', t1IdentityFile = v ''TIER1_IDENTITY_FILE'', t1EncryptionKey = [],
        t1Base = \<lparr>bsCacheDirectory = v ''TIER1_BASE_CACHE'', bsRepositoryDirectory = v ''TIER1_BASE_REPOSITORY'',
          bsListenAddress = v ''TIER1_BASE_LISTEN_ADDRESS''\<rparr>,
        t1Wal = \<lparr>wsListenAddress = v ''TIER1_WAL_LISTEN_ADDRESS'', wsWALPath = v ''TIER1_WAL_PATH''\<rparr>,
        t1Compression = compression_of_env num v ''TIER1''\<rparr>,
      svTier2 = \<lparr>t2EncryptionKeyFile = v ''TIER2_ENCRYPTION_KEY_FILE'', t2IdentityFile = v ''TIER2_IDENTITY_FILE'', t2EncryptionKey = [],
        t2BaseListenAddress = v ''TIER2_BASE_LISTEN_ADDRESS'', t2WALListenAddress = v ''TIER2_WAL_LISTEN_ADDRESS'',
        t2CacheDirectory = v ''TIER2_CACHE'', t2Compression = compression_of_env num v ''TIER2'',
        t2S3 = \<lparr>s3cEnabled = flag (v ''TIER2_S3_ENABLED''), s3cBucketName = v ''TIER2_S3_BUCKET_NAME'',
          s3cEndpoint = v ''TIER2_S3_ENDPOINT'',
          s3cRegion = (if v ''TIER2_S3_REGION'' \<noteq> [] then v ''TIER2_S3_REGION'' else v ''AWS_REGION''),
          s3cPrefix = v ''TIER2_S3_PREFIX'', s3cAccessKeyID = v ''TIER2_S3_ACCESS_KEY_ID'',
          s3cSecretAccessKey = v ''TIER2_S3_SECRET_ACCESS_KEY'', s3cSessionToken = v ''TIER2_S3_SESSION_TOKEN'',
          s3cCustomCABundleFile = v ''TIER2_S3_CUSTOM_CA_BUNDLE_FILE''\<rparr>\<rparr>,
      svQueueDirectory = v ''QUEUE_DIRECTORY''\<rparr>"

section \<open>operator/internal/podtemplate/podtemplate.go\<close>

definition blank_server_container :: "string \<Rightarrow> ServerContainer" where
  "blank_server_container n = \<lparr>cName = n, cImage = [], cArgs = [], cEnv = [], cVolumeMounts = [], cImagePullPolicy = [],
     cRestartPolicy = None, cSecurityContext = None, cRest = [], cPorts = []\<rparr>"

text \<open>Every container of the base is also named in the over; what is missing is added in the order of the names.\<close>

definition missing_names :: "ServerContainer list \<Rightarrow> ServerContainer list \<Rightarrow> string list" where
  "missing_names base over = sort (remdups (filter (\<lambda>n. n \<notin> cName ` set over) (map cName base)))"

definition augment_overlay :: "PodTemplateSpec \<Rightarrow> PodTemplateSpec \<Rightarrow> PodTemplateSpec" where
  "augment_overlay base over =
     over\<lparr>tpSpec := (tpSpec over)\<lparr>
       spContainers := spContainers (tpSpec over) @
         map blank_server_container (missing_names (spContainers (tpSpec base)) (spContainers (tpSpec over))),
       spInitContainers := spInitContainers (tpSpec over) @
         map blank_server_container (missing_names (spInitContainers (tpSpec base)) (spInitContainers (tpSpec over)))\<rparr>\<rparr>"

definition Merge ::
  "(PodTemplateSpec \<Rightarrow> PodTemplateSpec \<Rightarrow> go_error + PodTemplateSpec) \<Rightarrow> PodTemplateSpec \<Rightarrow> PodTemplateSpec \<Rightarrow> go_error + PodTemplateSpec" where
  "Merge smp base over = smp base (augment_overlay base over)"

section \<open>operator/internal/controller/server_reconciler.go\<close>

record StatefulSetSpec =
  stServiceName :: string
  stReplicas :: int
  stRetainWhenDeleted :: bool
  stRetainWhenScaled :: bool
  stSelector :: "(string \<times> string) list"
  stTemplate :: PodTemplateSpec
  stVolumeClaimTemplates :: "(string \<times> (string \<times> string) list \<times> PvcSpec) list"

record StatefulSet =
  ssCreated :: bool
  ssController :: "string option"
  ssLabels :: "(string \<times> string) list"
  ssAnnotations :: "(string \<times> string) list"
  ssSpec :: StatefulSetSpec

record Service =
  svCreated :: bool
  svController :: "string option"
  svLabels :: "(string \<times> string) list"
  svSessionAffinity :: string
  svSelector :: "(string \<times> string) list"
  svPorts :: "(string \<times> int) list"
  svClusterIP :: string

datatype ctrl_result = CtrlDone | CtrlRequeueAfter int

record 'k srv_env =
  seGet :: "string \<times> string \<Rightarrow> 'k \<Rightarrow> api_error + Server"
  seServices :: "(Service, 'k) kube_resource"
  seStatefulSets :: "(StatefulSet, 'k) kube_resource"
  seDelete :: "string \<times> string \<Rightarrow> 'k \<Rightarrow> go_error option \<times> 'k"
  seGetPVC :: "string \<times> string \<Rightarrow> 'k \<Rightarrow> api_error + PvcSpec"
  sePatchPVC :: "string \<times> string \<Rightarrow> PvcSpec \<Rightarrow> 'k \<Rightarrow> go_error option \<times> 'k"
  seIsInvalid :: "go_error \<Rightarrow> bool"
  seMergePatch :: "PodTemplateSpec \<Rightarrow> PodTemplateSpec \<Rightarrow> go_error + PodTemplateSpec"
  seSpew :: "StatefulSet \<Rightarrow> int \<Rightarrow> go_error + bytes"
  seSafeEncode :: "string \<Rightarrow> string"
  seHaveSCC :: bool

definition incorrectOwnershipError :: go_error where
  "incorrectOwnershipError = Sentinel ''expected the object to be owned by the server''"

definition errEmptyPath :: go_error where "errEmptyPath = Sentinel ''path must not be empty''"

definition validateTLSIdentity :: "TLSIdentity \<Rightarrow> go_error option" where
  "validateTLSIdentity i =
     (if tiCertPath i = [] then Some (Wrap ''tls.serverIdentity certPath'' errEmptyPath)
      else if tiKeyPath i = [] then Some (Wrap ''tls.serverIdentity keyPath'' errEmptyPath)
      else None)"

subsection \<open>Volumes and mounts\<close>

definition buildFileVolMount :: "string \<Rightarrow> VolumeFileReference \<Rightarrow> Volume \<times> VolumeMount" where
  "buildFileVolMount n src =
     (\<lparr>volName = n, volSource = ToCoreV1 (vfVolume src)\<rparr>,
      \<lparr>vmName = n, vmMountPath = path_Join [fileBasePath, n], vmReadOnly = True\<rparr>)"

definition restricted_mode :: "int option \<Rightarrow> int option" where
  "restricted_mode m = (case m of None \<Rightarrow> Some 256 | Some x \<Rightarrow> Some x)"

definition applyRestrictedVolumeDefaultMode :: "Volume \<Rightarrow> Volume" where
  "applyRestrictedVolumeDefaultMode vol =
     (let s = volSource vol in
      case vsSecret s of
        Some f \<Rightarrow> vol\<lparr>volSource := s\<lparr>vsSecret := Some (f\<lparr>fsDefaultMode := restricted_mode (fsDefaultMode f)\<rparr>)\<rparr>\<rparr>
      | None \<Rightarrow>
          (case vsConfigMap s of
             Some f \<Rightarrow> vol\<lparr>volSource := s\<lparr>vsConfigMap := Some (f\<lparr>fsDefaultMode := restricted_mode (fsDefaultMode f)\<rparr>)\<rparr>\<rparr>
           | None \<Rightarrow>
               (case vsProjected s of
                  Some p \<Rightarrow> vol\<lparr>volSource := s\<lparr>vsProjected := Some (p\<lparr>pjDefaultMode := restricted_mode (pjDefaultMode p)\<rparr>)\<rparr>\<rparr>
                | None \<Rightarrow> vol)))"

definition buildRestrictedVolMount :: "string \<Rightarrow> VolumeFileReference \<Rightarrow> Volume \<times> VolumeMount" where
  "buildRestrictedVolMount n src =
     (applyRestrictedVolumeDefaultMode (fst (buildFileVolMount n src)), snd (buildFileVolMount n src))"

definition restricted_volume :: "string \<Rightarrow> VolumeSource \<Rightarrow> Volume" where
  "restricted_volume n src = applyRestrictedVolumeDefaultMode \<lparr>volName = n, volSource = ToCoreV1 src\<rparr>"

definition s3_credentials :: "Tier2Configuration \<Rightarrow> VolumeFileReference option" where
  "s3_credentials t = Option.bind (o2S3 t) o3CredentialsFile"

definition s3_ca_bundle :: "Tier2Configuration \<Rightarrow> VolumeFileReference option" where
  "s3_ca_bundle t = Option.bind (o2S3 t) o3CustomCABundle"

definition buildVolumes :: "ServerSpec \<Rightarrow> Volume list" where
  "buildVolumes s =
     [restricted_volume serverIdentityVolName (tiVolume (tlServerIdentity (srTLS s))),
      fst (buildFileVolMount clientCAVolName (tlClientCA (srTLS s))),
      \<lparr>volName = ''tmp'', volSource = no_volume_source\<lparr>vsEmptyDir := True\<rparr>\<rparr>] @
     (case srTier1 s of None \<Rightarrow> [] | Some t \<Rightarrow> [restricted_volume tier1EncryptionVolName (efVolume (o1Encryption t))]) @
     (case srTier2 s of None \<Rightarrow> []
      | Some t \<Rightarrow> [restricted_volume tier2EncryptionVolName (efVolume (o2Encryption t))] @
          (case s3_credentials t of None \<Rightarrow> [] | Some f \<Rightarrow> [fst (buildRestrictedVolMount tier2S3CredentialsVolName f)]) @
          (case s3_ca_bundle t of None \<Rightarrow> [] | Some f \<Rightarrow> [fst (buildFileVolMount tier2S3CABundleVolName f)]))"

definition file_mount :: "string \<Rightarrow> VolumeMount" where
  "file_mount n = \<lparr>vmName = n, vmMountPath = path_Join [fileBasePath, n], vmReadOnly = True\<rparr>"

definition buildVolumeMounts :: "ServerSpec \<Rightarrow> VolumeMount list" where
  "buildVolumeMounts s =
     [file_mount serverIdentityVolName, snd (buildFileVolMount clientCAVolName (tlClientCA (srTLS s))),
      \<lparr>vmName = ''tmp'', vmMountPath = ''/tmp'', vmReadOnly = False\<rparr>,
      \<lparr>vmName = pvcTypeKlio, vmMountPath = klioMountPath, vmReadOnly = False\<rparr>] @
     (case srTier1 s of None \<Rightarrow> [] | Some t \<Rightarrow> [file_mount tier1EncryptionVolName]) @
     (case srTier2 s of None \<Rightarrow> []
      | Some t \<Rightarrow> [file_mount tier2EncryptionVolName] @
          (case s3_credentials t of None \<Rightarrow> [] | Some f \<Rightarrow> [snd (buildFileVolMount tier2S3CredentialsVolName f)]) @
          (case s3_ca_bundle t of None \<Rightarrow> [] | Some f \<Rightarrow> [snd (buildFileVolMount tier2S3CABundleVolName f)]))"

subsection \<open>The StatefulSet\<close>

definition FormatBool :: "bool \<Rightarrow> string" where "FormatBool b = (if b then ''true'' else ''false'')"

text \<open>strconv.ParseBool, with its error read as false.\<close>

definition ParseBool :: "string \<Rightarrow> bool" where
  "ParseBool s \<longleftrightarrow> s \<in> {''1'', ''t'', ''T'', ''TRUE'', ''true'', ''True''}"

definition serverPodSecurityContext :: "bool \<Rightarrow> PodSecurityContext option" where
  "serverPodSecurityContext scc =
     (if scc then None
      else Some \<lparr>pxFSGroup = 1000, pxRunAsGroup = 1000, pxRunAsNonRoot = True, pxRunAsUser = 1000, pxSeccompProfile = ''RuntimeDefault''\<rparr>)"

definition server_ports :: "ServerSpec \<Rightarrow> (string \<times> int) list" where
  "server_ports s = [(''base'', 11515), (''wal'', 12000)] @
     (if srTier2 s \<noteq> None then [(''tier2-base'', 11516), (''tier2-wal'', 12001)] else [])"

definition server_labels :: "Server \<Rightarrow> (string \<times> string) list" where
  "server_labels server = [(klioServerLabel, sName server)]"

definition server_container :: "ServerSpec \<Rightarrow> ServerContainer" where
  "server_container s =
     (blank_server_container serverContainerName)\<lparr>
       cArgs := [''server'', ''start'', ''--tier1='' @ FormatBool (srTier1 s \<noteq> None), ''--tier2='' @ FormatBool (srTier2 s \<noteq> None)],
       cImage := srImage s, cImagePullPolicy := srImagePullPolicy s, cVolumeMounts := buildVolumeMounts s,
       cPorts := server_ports s, cEnv := server_envs s\<rparr>"

definition base_template :: "bool \<Rightarrow> Server \<Rightarrow> PodTemplateSpec" where
  "base_template scc server =
     \<lparr>tpLabels = server_labels server, tpAnnotations = [],
      tpSpec = \<lparr>spImagePullSecrets = srImagePullSecrets (sSpec server), spSecurityContext = serverPodSecurityContext scc,
        spContainers = [server_container (sSpec server)], spInitContainers = [], spVolumes = buildVolumes (sSpec server)\<rparr>\<rparr>"

definition enablePProf :: "ServerContainer list \<Rightarrow> ServerContainer list" where
  "enablePProf containers =
     map (\<lambda>c. if cName c = serverContainerName then c\<lparr>cArgs := cArgs c @ [''--pprof-server=:6060'']\<rparr> else c) containers"

definition injectVolumeClaimTemplate :: "Server \<Rightarrow> StatefulSetSpec \<Rightarrow> StatefulSetSpec" where
  "injectVolumeClaimTemplate server st =
     st\<lparr>stVolumeClaimTemplates := stVolumeClaimTemplates st @ [(pvcTypeKlio, server_labels server, srStorage (sSpec server))]\<rparr>"

definition merged_template :: "'k srv_env \<Rightarrow> Server \<Rightarrow> go_error + PodTemplateSpec" where
  "merged_template E server =
     (case srTemplate (sSpec server) of
        None \<Rightarrow> Inr (base_template (seHaveSCC E) server)
      | Some over \<Rightarrow>
          (case Merge (seMergePatch E) (base_template (seHaveSCC E) server) over of
             Inl e \<Rightarrow> Inl (Wrap ''failed to merge pod templates'' e)
           | Inr t \<Rightarrow> Inr (t\<lparr>tpLabels := AList.update klioServerLabel (sName server) (tpLabels t)\<rparr>)))"

definition pprof_template :: "Server \<Rightarrow> PodTemplateSpec \<Rightarrow> PodTemplateSpec" where
  "pprof_template server t =
     (if ParseBool (case map_of (sAnnotations server) ''klio.cnpg.io/pprof'' of None \<Rightarrow> [] | Some v \<Rightarrow> v)
      then t\<lparr>tpSpec := (tpSpec t)\<lparr>spContainers := enablePProf (spContainers (tpSpec t))\<rparr>\<rparr> else t)"

definition expected_statefulset :: "'k srv_env \<Rightarrow> Server \<Rightarrow> go_error + StatefulSet" where
  "expected_statefulset E server =
     (case merged_template E server of
        Inl e \<Rightarrow> Inl e
      | Inr t \<Rightarrow> Inr \<lparr>ssCreated = False, ssController = None, ssLabels = server_labels server, ssAnnotations = [],
          ssSpec = injectVolumeClaimTemplate server
            \<lparr>stServiceName = GetServiceName server, stReplicas = 1, stRetainWhenDeleted = True, stRetainWhenScaled = True,
             stSelector = server_labels server, stTemplate = pprof_template server t, stVolumeClaimTemplates = []\<rparr>\<rparr>)"

text \<open>hash.go: the 32-bit FNV-1a hash of the printed object.\<close>

definition fnv32a :: "bytes \<Rightarrow> 32 word" where
  "fnv32a bs = foldl (\<lambda>h b. xor h (ucast b) * 16777619) 2166136261 bs"

definition ComputeHash :: "'k srv_env \<Rightarrow> StatefulSet \<Rightarrow> int \<Rightarrow> go_error + string" where
  "ComputeHash E sts version =
     (case seSpew E sts version of
        Inl e \<Rightarrow> Inl (Wrap ''failed to hash object'' e)
      | Inr bs \<Rightarrow> Inr (seSafeEncode E (FormatNat (unat (fnv32a bs)))))"

definition maps_Copy :: "('a \<times> 'b) list \<Rightarrow> ('a \<times> 'b) list \<Rightarrow> ('a \<times> 'b) list" where
  "maps_Copy dst src = foldl (\<lambda>m (k, v). AList.update k v m) dst src"

definition mutate_statefulset :: "Server \<Rightarrow> string \<Rightarrow> StatefulSet \<Rightarrow> StatefulSet \<Rightarrow> go_error + StatefulSet" where
  "mutate_statefulset server hash expected sts =
     (if ssCreated sts \<and> ssController sts \<noteq> Some (sUID server) then Inl incorrectOwnershipError
      else if map_of (ssAnnotations sts) hashAnnotation = Some hash then Inr sts
      else case SetControllerReference (sUID server) (ssController sts) of
             Inl e \<Rightarrow> Inl (Wrap ''failed to set controller reference'' e)
           | Inr c \<Rightarrow> Inr (sts\<lparr>ssController := c, ssLabels := maps_Copy (ssLabels sts) (ssLabels expected),
               ssAnnotations := maps_Copy (ssAnnotations sts) [(hashAnnotation, hash)], ssSpec := ssSpec expected\<rparr>))"

definition blank_template :: PodTemplateSpec where
  "blank_template = \<lparr>tpLabels = [], tpAnnotations = [], tpSpec = \<lparr>spImagePullSecrets = [], spSecurityContext = None,
     spContainers = [], spInitContainers = [], spVolumes = []\<rparr>\<rparr>"

definition blank_statefulset :: StatefulSet where
  "blank_statefulset = \<lparr>ssCreated = False, ssController = None, ssLabels = [], ssAnnotations = [],
     ssSpec = \<lparr>stServiceName = [], stReplicas = 0, stRetainWhenDeleted = False, stRetainWhenScaled = False, stSelector = [],
       stTemplate = blank_template, stVolumeClaimTemplates = []\<rparr>\<rparr>"

definition reconcileStatefulSet :: "'k srv_env \<Rightarrow> Server \<Rightarrow> 'k \<Rightarrow> (go_error + ctrl_result) \<times> 'k" where
  "reconcileStatefulSet E server k =
     (let key = (sNamespace server, GetStatefulSetName server)
      in case validateTLSIdentity (tlServerIdentity (srTLS (sSpec server))) of
           Some e \<Rightarrow> (Inl (Wrap ''invalid server spec'' e), k)
         | None \<Rightarrow>
             (case expected_statefulset E server of
                Inl e \<Rightarrow> (Inl e, k)
              | Inr expected \<Rightarrow>
                  (case ComputeHash E expected 1 of
                     Inl e \<Rightarrow> (Inl (Wrap ''failed to compute hash for Kopia configuration'' e), k)
                   | Inr hash \<Rightarrow>
                       (case krCreateOrUpdate (seStatefulSets E) key blank_statefulset (mutate_statefulset server hash expected) k of
                          (Inr _, _, k1) \<Rightarrow> (Inr CtrlDone, k1)
                        | (Inl e, sts, k1) \<Rightarrow>
                            if seIsInvalid E e then
                              if \<not> ssCreated sts then (Inl e, k1)
                              else (case seDelete E key k1 of
                                      (Some de, k2) \<Rightarrow> (Inl (Wrap ''failed to delete StatefulSet for recreation'' de), k2)
                                    | (None, k2) \<Rightarrow> (Inr (CtrlRequeueAfter 1), k2))
                            else (Inl (Wrap ''failed to reconcile statefulset'' e), k1)))))"

subsection \<open>The Service\<close>

definition blank_service :: Service where
  "blank_service = \<lparr>svCreated = False, svController = None, svLabels = [], svSessionAffinity = [], svSelector = [],
     svPorts = [], svClusterIP = []\<rparr>"

definition mutate_service :: "Server \<Rightarrow> Service \<Rightarrow> go_error + Service" where
  "mutate_service server svc =
     (if svCreated svc \<and> svController svc \<noteq> Some (sUID server) then Inl incorrectOwnershipError
      else case SetControllerReference (sUID server) (svController svc) of
             Inl e \<Rightarrow> Inl (Wrap ''failed to set controller reference'' e)
           | Inr c \<Rightarrow> Inr (svc\<lparr>svLabels := maps_Copy (svLabels svc) (server_labels server), svSessionAffinity := ''None'',
               svSelector := server_labels server, svPorts := server_ports (sSpec server), svClusterIP := ''None'', svController := c\<rparr>))"

definition reconcileService :: "'k srv_env \<Rightarrow> Server \<Rightarrow> 'k \<Rightarrow> go_error option \<times> 'k" where
  "reconcileService E server k =
     (case krCreateOrUpdate (seServices E) (sNamespace server, GetServiceName server) blank_service (mutate_service server) k of
        (Inl e, _, k1) \<Rightarrow> (Some (Wrap ''failed to reconcile service'' e), k1)
      | (Inr _, _, k1) \<Rightarrow> (None, k1))"

section \<open>operator/internal/controller/server_pvc_resize.go\<close>

definition klioPVCName :: "Server \<Rightarrow> string" where
  "klioPVCName server = pvcTypeKlio @ ''-'' @ GetStatefulSetName server @ ''-0''"

definition expandPVC :: "'k srv_env \<Rightarrow> string \<times> string \<Rightarrow> PvcSpec \<Rightarrow> int \<Rightarrow> 'k \<Rightarrow> go_error option \<times> 'k" where
  "expandPVC E key pvc desiredSize k =
     (case sePatchPVC E key (pvc\<lparr>pvStorage := Some desiredSize\<rparr>) k of
        (Some e, k1) \<Rightarrow> (Some (Wrap ''failed to expand PVC'' e), k1)
      | (None, k1) \<Rightarrow> (None, k1))"

definition storage_size :: "PvcSpec \<Rightarrow> int" where
  "storage_size p = (case pvStorage p of None \<Rightarrow> 0 | Some q \<Rightarrow> q)"

definition reconcilePVCResize :: "'k srv_env \<Rightarrow> Server \<Rightarrow> 'k \<Rightarrow> go_error option \<times> 'k" where
  "reconcilePVCResize E server k =
     (let key = (sNamespace server, klioPVCName server)
      in case pvStorage (srStorage (sSpec server)) of
           None \<Rightarrow> (None, k)
         | Some desiredSize \<Rightarrow>
             (case seGetPVC E key k of
                Inl ApiNotFound \<Rightarrow> (None, k)
              | Inl (ApiError e) \<Rightarrow> (Some (Wrap ''failed to get PVC'' e), k)
              | Inr pvc \<Rightarrow>
                  if desiredSize < storage_size pvc then (None, k)
                  else if desiredSize = storage_size pvc then (None, k)
                  else expandPVC E key pvc desiredSize k))"

definition findServerForPVC :: "string \<Rightarrow> (string \<times> string) list \<Rightarrow> (string \<times> string) list" where
  "findServerForPVC namespace labels =
     (case map_of labels klioServerLabel of None \<Rightarrow> [] | Some serverName \<Rightarrow> [(namespace, serverName)])"

section \<open>operator/internal/controller/server_controller.go\<close>

definition server_reconcile :: "'k srv_env \<Rightarrow> Server \<Rightarrow> 'k \<Rightarrow> (go_error + ctrl_result) \<times> 'k" where
  "server_reconcile E server k =
     (case reconcileService E server k of
        (Some e, k1) \<Rightarrow> (Inl (Wrap ''failed to reconcile Service'' e), k1)
      | (None, k1) \<Rightarrow>
          (case reconcilePVCResize E server k1 of
             (Some e, k2) \<Rightarrow> (Inl (Wrap ''failed to reconcile PVC resize'' e), k2)
           | (None, k2) \<Rightarrow> reconcileStatefulSet E server k2))"

definition server_Reconcile :: "'k srv_env \<Rightarrow> string \<times> string \<Rightarrow> 'k \<Rightarrow> (go_error + ctrl_result) \<times> 'k" where
  "server_Reconcile E req k =
     (case seGet E req k of
        Inl ApiNotFound \<Rightarrow> (Inr CtrlDone, k)
      | Inl (ApiError e) \<Rightarrow> (Inl (Wrap ''failed to get Klio Server'' e), k)
      | Inr server \<Rightarrow> if sDeleting server then (Inr CtrlDone, k) else server_reconcile E server k)"

section \<open>Lemmas: the environment of the server\<close>

definition env_names :: "EnvVar list \<Rightarrow> string set" where
  "env_names envs = evName ` set envs"

lemma env_names_simps [simp]:
  "env_names [] = {}" "env_names (e # xs) = insert (evName e) (env_names xs)" "env_names (xs @ ys) = env_names xs \<union> env_names ys"
  "env_names (secret_env n sel) = (if sel = None then {} else {n})"
  "env_names (case x of None \<Rightarrow> [] | Some f \<Rightarrow> [env n (g f)]) = (if x = None then {} else {n})"
  by (auto simp: env_names_def secret_env_def env_def split: option.splits)

lemma env_sel [simp]: "evName (env n v) = n" "evValue (env n v) = v" "evFrom (env n v) = None"
  by (simp_all add: env_def)

lemma find_append: "List.find P (xs @ ys) = (case List.find P xs of None \<Rightarrow> List.find P ys | Some x \<Rightarrow> Some x)"
  by (induction xs) auto

lemma find_name: "List.find (\<lambda>e. evName e = n) (rev xs) = None \<longleftrightarrow> n \<notin> env_names xs"
  by (auto simp: find_None_iff env_names_def)

lemma ce_append: "container_env r (xs @ ys) n = (if n \<in> env_names ys then container_env r ys n else container_env r xs n)"
  using find_name [of n ys] by (auto simp: container_env_def find_append split: option.splits)

lemma ce_Nil [simp]: "container_env r [] n = []"
  by (simp add: container_env_def)

lemma ce_single [simp]: "container_env r [e] n = (if evName e = n then (case evFrom e of None \<Rightarrow> evValue e | Some src \<Rightarrow> r src) else [])"
  by (simp add: container_env_def)

lemma ce_Cons:
  "container_env r (e # e' # xs) n = (if n \<in> env_names (e' # xs) then container_env r (e' # xs) n else container_env r [e] n)"
  using ce_append [of r "[e]" "e' # xs" n] by simp

lemma ce_Cons_append:
  "container_env r (e # xs @ ys) n = (if n \<in> env_names xs \<union> env_names ys then container_env r (xs @ ys) n else container_env r [e] n)"
  using ce_append [of r "[e]" "xs @ ys" n] by simp

lemma in_optional [simp]: "x \<in> (if b then {} else {m}) \<longleftrightarrow> \<not> b \<and> x = m"
  by simp

lemma ce_absent: "n \<notin> env_names xs \<Longrightarrow> container_env r xs n = []"
  by (simp add: container_env_def find_name [THEN iffD2])

lemma ce_IfNotEmpty [simp]:
  "container_env r (appendEnvIfNotEmpty xs m v) n = (if n = m \<and> v \<noteq> [] then v else container_env r xs n)"
  "env_names (appendEnvIfNotEmpty xs m v) = env_names xs \<union> (if v = [] then {} else {m})"
  by (auto simp: appendEnvIfNotEmpty_def ce_append)

lemma ce_Compression:
  "container_env r (appendCompressionEnvs xs pre c) n =
     (case c of None \<Rightarrow> container_env r xs n
      | Some p \<Rightarrow>
          if n = pre @ ''_COMPRESSION_MAX_SIZE'' \<and> 0 < MaxSize p then FormatNat (nat (MaxSize p))
          else if n = pre @ ''_COMPRESSION_MIN_SIZE'' \<and> 0 < MinSize p then FormatNat (nat (MinSize p))
          else if n = pre @ ''_COMPRESSION_ALGORITHM'' \<and> Algorithm p \<noteq> [] then Algorithm p
          else container_env r xs n)"
  by (cases c) (auto simp: appendCompressionEnvs_def Let_def ce_append ce_Cons)

lemma names_Compression:
  "env_names (appendCompressionEnvs xs pre c) \<subseteq> env_names xs \<union>
     {pre @ ''_COMPRESSION_MAX_SIZE'', pre @ ''_COMPRESSION_MIN_SIZE'', pre @ ''_COMPRESSION_ALGORITHM''}"
  by (cases c) (auto simp: appendCompressionEnvs_def Let_def)

lemma tier1_names: "n \<in> env_names (tier1_env t) \<Longrightarrow> take 6 n = ''TIER1_'' \<or> n = ''QUEUE_DIRECTORY''"
proof -
  assume "n \<in> env_names (tier1_env t)"
  from this [unfolded tier1_env_def, THEN subsetD [OF names_Compression]] show ?thesis
    by (simp only: env_names_simps(1,2) Un_iff insert_iff empty_iff env_sel) (elim disjE; simp)
qed

lemma tier2_names: "n \<in> env_names (getTier2EnvVars s) \<Longrightarrow> take 6 n = ''TIER2_'' \<or> take 4 n = ''AWS_''"
proof (cases "Option.bind (srTier2 s) o2S3")
  case (Some s3)
  then obtain t where "srTier2 s = Some t" "o2S3 t = Some s3" by (auto simp: bind_eq_Some_conv)
  moreover assume "n \<in> env_names (getTier2EnvVars s)"
  ultimately show ?thesis
    unfolding getTier2EnvVars_def Let_def by simp (drule subsetD [OF names_Compression], simp del: if_split, elim disjE conjE; simp)
qed (auto simp: getTier2EnvVars_def split: option.splits)

lemma tier_prefixes: "take 6 n = ''TIER1_'' \<Longrightarrow> take 4 n = ''TIER''" "take 6 n = ''TIER2_'' \<Longrightarrow> take 4 n = ''TIER''"
  using take_take [of 4 6 n] by auto

definition common_names :: "string set" where
  "common_names = {''TLS_CERT'', ''TLS_KEY'', ''TLS_CLIENT_CA_CERT'', ''POD_NAME'', ''NAMESPACE_NAME'', ''CONTAINER_NAME''}"

lemma ce_parts:
  assumes "n \<notin> common_names"
  shows "container_env r (server_envs s) n =
    (if n \<in> env_names (getTier2EnvVars s) then container_env r (getTier2EnvVars s) n
     else container_env r (case srTier1 s of None \<Rightarrow> [] | Some t \<Rightarrow> tier1_env t) n)"
proof -
  have "container_env r [env ''TLS_CERT'' a, env ''TLS_KEY'' b, env ''TLS_CLIENT_CA_CERT'' c] n = []" for a b c
    using assms by (intro ce_absent) (simp add: common_names_def)
  moreover have "n \<notin> env_names getKubernetesDownwardAPIEnvVars" "n \<noteq> ''CONTAINER_NAME''"
    using assms by (simp_all add: common_names_def getKubernetesDownwardAPIEnvVars_def)
  ultimately show ?thesis
    by (simp add: server_envs_def addServerEnvs_def addCommonEnvs_def getCoreEnvVars_def ce_append ce_absent
      del: append_Cons ce_single env_names_simps(2)) (simp add: ce_append ce_absent)
qed

lemma env_of_tier1:
  assumes "take 6 n = ''TIER1_'' \<or> n = ''QUEUE_DIRECTORY''"
  shows "container_env r (server_envs s) n = container_env r (case srTier1 s of None \<Rightarrow> [] | Some t \<Rightarrow> tier1_env t) n"
proof -
  have "n \<notin> env_names (getTier2EnvVars s)" using assms tier2_names [of n s] tier_prefixes(1) [of n] by auto
  moreover have "n \<notin> common_names" using assms by (auto simp: common_names_def)
  ultimately show ?thesis by (simp add: ce_parts)
qed

lemma env_of_tier2:
  assumes "take 6 n = ''TIER2_''"
  shows "container_env r (server_envs s) n = container_env r (getTier2EnvVars s) n"
proof -
  have "n \<notin> env_names (case srTier1 s of None \<Rightarrow> [] | Some t \<Rightarrow> tier1_env t)"
    using assms by (auto split: option.splits dest!: tier1_names)
  moreover have "n \<notin> common_names" using assms by (auto simp: common_names_def)
  ultimately show ?thesis by (simp add: ce_parts ce_absent)
qed

lemma env_of_tls:
  "container_env r (server_envs s) ''TLS_CERT'' = path_Join [fileBasePath, serverIdentityVolName, tiCertPath (tlServerIdentity (srTLS s))]"
  "container_env r (server_envs s) ''TLS_KEY'' = path_Join [fileBasePath, serverIdentityVolName, tiKeyPath (tlServerIdentity (srTLS s))]"
  "container_env r (server_envs s) ''TLS_CLIENT_CA_CERT'' = fileRefPath clientCAVolName (tlClientCA (srTLS s))"
proof -
  let ?tls = "[env ''TLS_CERT'' (path_Join [fileBasePath, serverIdentityVolName, tiCertPath (tlServerIdentity (srTLS s))]),
    env ''TLS_KEY'' (path_Join [fileBasePath, serverIdentityVolName, tiKeyPath (tlServerIdentity (srTLS s))]),
    env ''TLS_CLIENT_CA_CERT'' (fileRefPath clientCAVolName (tlClientCA (srTLS s)))]"
  define rest where "rest = (case srTier1 s of None \<Rightarrow> [] | Some t \<Rightarrow> tier1_env t) @ getKubernetesDownwardAPIEnvVars @
    getTier2EnvVars s @ [env ''CONTAINER_NAME'' ''base'']"
  have split: "server_envs s = ?tls @ rest"
    by (simp add: rest_def server_envs_def addServerEnvs_def addCommonEnvs_def getCoreEnvVars_def)
  have rest: "n \<notin> env_names rest" if "n \<in> {''TLS_CERT'', ''TLS_KEY'', ''TLS_CLIENT_CA_CERT''}" for n
    using that by (auto simp: rest_def getKubernetesDownwardAPIEnvVars_def split: option.splits dest!: tier1_names tier2_names)
  have "container_env r (server_envs s) n = container_env r ?tls n" if "n \<in> {''TLS_CERT'', ''TLS_KEY'', ''TLS_CLIENT_CA_CERT''}" for n
    unfolding split ce_append using rest [OF that] by (rule if_not_P)
  then show
    "container_env r (server_envs s) ''TLS_CERT'' = path_Join [fileBasePath, serverIdentityVolName, tiCertPath (tlServerIdentity (srTLS s))]"
    "container_env r (server_envs s) ''TLS_KEY'' = path_Join [fileBasePath, serverIdentityVolName, tiKeyPath (tlServerIdentity (srTLS s))]"
    "container_env r (server_envs s) ''TLS_CLIENT_CA_CERT'' = fileRefPath clientCAVolName (tlClientCA (srTLS s))"
    by (simp_all add: ce_Cons)
qed

text \<open>What the decoding of numbers and flags promises on the values that the operator writes.\<close>

definition decode_laws :: "(string \<Rightarrow> int) \<Rightarrow> (string \<Rightarrow> bool) \<Rightarrow> bool" where
  "decode_laws num flag \<longleftrightarrow> num [] = 0 \<and> (\<forall>n < 2 ^ 63. num (FormatNat n) = int n) \<and> flag ''true'' \<and> \<not> flag []"

lemma crd_algorithm_valid: "a \<in> set crdCompressionAlgorithms \<Longrightarrow> IsValidCompressionAlgorithm a"
  by (simp add: crdCompressionAlgorithms_def IsValidCompressionAlgorithm_def)

lemma compression_of_env_ok:
  assumes laws: "decode_laws num flag" and c: "compression_admitted c"
    and v: "\<And>k. v (pre @ ''_COMPRESSION_'' @ k) = container_env r (appendCompressionEnvs xs pre c) (pre @ ''_COMPRESSION_'' @ k)"
    and none: "\<And>k. pre @ ''_COMPRESSION_'' @ k \<notin> env_names xs"
  shows "compression_ok (compression_of_env num v pre)"
proof -
  have absent: "container_env r xs (pre @ ''_COMPRESSION_'' @ k) = []" for k by (rule ce_absent [OF none])
  note at = v [of "''ALGORITHM''"] v [of "''MIN_SIZE''"] v [of "''MAX_SIZE''"]
    absent [of "''ALGORITHM''"] absent [of "''MIN_SIZE''"] absent [of "''MAX_SIZE''"]
  have num: "num [] = 0" "\<And>n. n < 2 ^ 63 \<Longrightarrow> num (FormatNat n) = int n" using laws by (auto simp: decode_laws_def)
  show ?thesis
  proof (cases c)
    case None
    with at num show ?thesis by (simp add: compression_of_env_def ce_Compression compression_ok_def)
  next
    case (Some p)
    with c have p: "IsValidCompressionAlgorithm (Algorithm p)" "0 \<le> MinSize p" "0 \<le> MaxSize p" "nat (MinSize p) < 2 ^ 63"
      "nat (MaxSize p) < 2 ^ 63" "MaxSize p = 0 \<or> MinSize p \<le> MaxSize p"
      by (auto simp: compression_admitted_def dest: crd_algorithm_valid)
    have "compression_of_env num v pre = \<lparr>Algorithm = Algorithm p, MinSize = MinSize p, MaxSize = MaxSize p\<rparr>"
      using Some at num(1) num(2) [OF p(4)] num(2) [OF p(5)] p(2,3) by (simp add: compression_of_env_def ce_Compression)
    with p show ?thesis by (auto simp: compression_ok_def)
  qed
qed

lemma ce_secret: "container_env r (secret_env m sel) n = (if n = m then (case sel of None \<Rightarrow> [] | Some (a, b) \<Rightarrow> r (SecretKeyRef a b)) else [])"
  by (cases sel) (auto simp: secret_env_def secretKeySelectorToEnvVarSource_def)

lemma tier1_values:
  fixes r s t
  defines "v \<equiv> container_env r (server_envs s)"
  assumes "srTier1 s = Some t"
  shows "v ''TIER1_BASE_CACHE'' = ''/klio/cache_tier1/kopia-cache''" "v ''TIER1_BASE_REPOSITORY'' = ''/klio/data/base''"
    "v ''TIER1_BASE_LISTEN_ADDRESS'' = ''0.0.0.0:11515''" "v ''TIER1_WAL_LISTEN_ADDRESS'' = ''0.0.0.0:12000''"
    "v ''TIER1_WAL_PATH'' = ''/klio/data/wal''"
    "v ''TIER1_ENCRYPTION_KEY_FILE'' = path_Join [fileBasePath, tier1EncryptionVolName, efKeyPath (o1Encryption t)]"
    "v ''TIER1_IDENTITY_FILE'' = path_Join [fileBasePath, tier1EncryptionVolName, efIdentityPath (o1Encryption t)]"
    "v ''QUEUE_DIRECTORY'' = ''/klio/queue''"
proof -
  have paths: "path_Join [klioMountPath, ''cache_tier1'', kopiaCacheSubdirectory] = ''/klio/cache_tier1/kopia-cache''"
    "path_Join [klioMountPath, ''data'', ''base''] = ''/klio/data/base''" "path_Join [klioMountPath, ''data'', ''wal''] = ''/klio/data/wal''"
    "path_Join [klioMountPath, ''queue''] = ''/klio/queue''"
    by code_simp+
  have tier1: "v n = container_env r (tier1_env t) n" if "take 6 n = ''TIER1_'' \<or> n = ''QUEUE_DIRECTORY''" for n
    unfolding v_def using env_of_tier1 [OF that] assms(2) by simp
  show "v ''TIER1_BASE_CACHE'' = ''/klio/cache_tier1/kopia-cache''" "v ''TIER1_BASE_REPOSITORY'' = ''/klio/data/base''"
    "v ''TIER1_BASE_LISTEN_ADDRESS'' = ''0.0.0.0:11515''" "v ''TIER1_WAL_LISTEN_ADDRESS'' = ''0.0.0.0:12000''"
    "v ''TIER1_WAL_PATH'' = ''/klio/data/wal''"
    "v ''TIER1_ENCRYPTION_KEY_FILE'' = path_Join [fileBasePath, tier1EncryptionVolName, efKeyPath (o1Encryption t)]"
    "v ''TIER1_IDENTITY_FILE'' = path_Join [fileBasePath, tier1EncryptionVolName, efIdentityPath (o1Encryption t)]"
    "v ''QUEUE_DIRECTORY'' = ''/klio/queue''"
    by (simp_all add: tier1 tier1_env_def ce_Compression ce_Cons paths split: option.split)
qed

definition optional_env :: "string \<Rightarrow> string \<Rightarrow> EnvVar list" where
  "optional_env n v = (if v \<noteq> [] then [env n v] else [])"

lemma optional_env_simps [simp]:
  "container_env r (optional_env m v) n = (if n = m then v else [])" "env_names (optional_env m v) = (if v = [] then {} else {m})"
  by (auto simp: optional_env_def)

lemma append_optional: "appendEnvIfNotEmpty xs n v = xs @ optional_env n v"
  by (simp add: appendEnvIfNotEmpty_def optional_env_def)

lemma append_compression: "appendCompressionEnvs xs pre c = xs @ appendCompressionEnvs [] pre c"
  by (simp add: appendCompressionEnvs_def Let_def appendEnvIfNotEmpty_def split: option.splits)

definition s3_base :: "Tier2Configuration \<Rightarrow> op_S3Configuration \<Rightarrow> EnvVar list" where
  "s3_base t s3 =
     [env ''TIER2_S3_ENABLED'' ''true'', env ''TIER2_S3_BUCKET_NAME'' (o3BucketName s3),
      env ''TIER2_CACHE'' (path_Join [klioMountPath, ''cache_tier2'', kopiaCacheSubdirectory]),
      env ''TIER2_BASE_LISTEN_ADDRESS'' ''0.0.0.0:11516'', env ''TIER2_WAL_LISTEN_ADDRESS'' ''0.0.0.0:12001'',
      env ''TIER2_ENCRYPTION_KEY_FILE'' (path_Join [fileBasePath, tier2EncryptionVolName, efKeyPath (o2Encryption t)]),
      env ''TIER2_IDENTITY_FILE'' (path_Join [fileBasePath, tier2EncryptionVolName, efIdentityPath (o2Encryption t)])]"

definition s3_keys :: "op_S3Configuration \<Rightarrow> EnvVar list" where
  "s3_keys s3 = secret_env ''TIER2_S3_ACCESS_KEY_ID'' (o3AccessKeyID s3) @ secret_env ''TIER2_S3_SECRET_ACCESS_KEY'' (o3SecretAccessKey s3)"

definition s3_rest :: "op_S3Configuration \<Rightarrow> EnvVar list" where
  "s3_rest s3 = secret_env ''TIER2_S3_SESSION_TOKEN'' (o3SessionToken s3) @
     (case o3CredentialsFile s3 of None \<Rightarrow> [] | Some f \<Rightarrow> [env ''AWS_SHARED_CREDENTIALS_FILE'' (fileRefPath tier2S3CredentialsVolName f)]) @
     (case o3CustomCABundle s3 of None \<Rightarrow> [] | Some f \<Rightarrow> [env ''TIER2_S3_CUSTOM_CA_BUNDLE_FILE'' (fileRefPath tier2S3CABundleVolName f)]) @
     optional_env ''TIER2_S3_ENDPOINT'' (o3Endpoint s3) @ optional_env ''TIER2_S3_PREFIX'' (o3Prefix s3)"

definition s3_last :: "op_S3Configuration \<Rightarrow> EnvVar list" where
  "s3_last s3 = optional_env ''TIER2_S3_REGION'' (o3Region s3) @ optional_env ''AWS_PROFILE'' (o3Profile s3)"

lemma tier2_env_split:
  assumes "srTier2 s = Some t" and "o2S3 t = Some s3"
  shows "getTier2EnvVars s = s3_base t s3 @ s3_keys s3 @ s3_rest s3 @ s3_last s3 @ appendCompressionEnvs [] ''TIER2'' (o2Compression t)"
  by (simp add: assms getTier2EnvVars_def Let_def append_optional s3_base_def s3_keys_def s3_rest_def s3_last_def)
    (subst append_compression, simp)

definition rest_names :: "string set" where
  "rest_names = {''TIER2_S3_SESSION_TOKEN'', ''AWS_SHARED_CREDENTIALS_FILE'', ''TIER2_S3_CUSTOM_CA_BUNDLE_FILE'', ''TIER2_S3_ENDPOINT'',
     ''TIER2_S3_PREFIX'', ''TIER2_COMPRESSION_MAX_SIZE'', ''TIER2_COMPRESSION_MIN_SIZE'', ''TIER2_COMPRESSION_ALGORITHM''}"

lemma rest_names_sub: "env_names (s3_rest s3) \<subseteq> rest_names" "env_names (appendCompressionEnvs [] ''TIER2'' c) \<subseteq> rest_names"
proof -
  show "env_names (s3_rest s3) \<subseteq> rest_names" by (simp add: s3_rest_def rest_names_def)
  have "{''TIER2'' @ ''_COMPRESSION_MAX_SIZE'', ''TIER2'' @ ''_COMPRESSION_MIN_SIZE'', ''TIER2'' @ ''_COMPRESSION_ALGORITHM''} \<subseteq> rest_names"
    by (simp add: rest_names_def)
  with names_Compression [of "[]" "''TIER2''" c] show "env_names (appendCompressionEnvs [] ''TIER2'' c) \<subseteq> rest_names"
    unfolding env_names_simps(1) Un_empty_left by (rule order_trans)
qed

lemma tier2_env_known:
  assumes "srTier2 s = Some t" and "o2S3 t = Some s3" and "take 6 n = ''TIER2_''" and "n \<notin> rest_names"
  shows "container_env r (server_envs s) n =
    (if n \<in> env_names (s3_last s3) then container_env r (s3_last s3) n
     else if n \<in> env_names (s3_keys s3) then container_env r (s3_keys s3) n else container_env r (s3_base t s3) n)"
proof -
  have "n \<notin> env_names (s3_rest s3)" "n \<notin> env_names (appendCompressionEnvs [] ''TIER2'' (o2Compression t))"
    using assms(4) rest_names_sub by blast+
  then show ?thesis unfolding env_of_tier2 [OF assms(3)] tier2_env_split [OF assms(1,2)] ce_append env_names_simps(3) by simp
qed

lemma tier2_values:
  fixes r s t s3
  defines "v \<equiv> container_env r (server_envs s)"
  assumes "srTier2 s = Some t" and "o2S3 t = Some s3"
  shows "v ''TIER2_S3_ENABLED'' = ''true''" "v ''TIER2_S3_BUCKET_NAME'' = o3BucketName s3"
    "v ''TIER2_CACHE'' = ''/klio/cache_tier2/kopia-cache''"
    "v ''TIER2_BASE_LISTEN_ADDRESS'' = ''0.0.0.0:11516''" "v ''TIER2_WAL_LISTEN_ADDRESS'' = ''0.0.0.0:12001''"
    "v ''TIER2_ENCRYPTION_KEY_FILE'' = path_Join [fileBasePath, tier2EncryptionVolName, efKeyPath (o2Encryption t)]"
    "v ''TIER2_IDENTITY_FILE'' = path_Join [fileBasePath, tier2EncryptionVolName, efIdentityPath (o2Encryption t)]"
    "v ''TIER2_S3_REGION'' = o3Region s3"
    "v ''TIER2_S3_ACCESS_KEY_ID'' = (case o3AccessKeyID s3 of None \<Rightarrow> [] | Some (a, b) \<Rightarrow> r (SecretKeyRef a b))"
    "v ''TIER2_S3_SECRET_ACCESS_KEY'' = (case o3SecretAccessKey s3 of None \<Rightarrow> [] | Some (a, b) \<Rightarrow> r (SecretKeyRef a b))"
proof -
  have path: "path_Join [klioMountPath, ''cache_tier2'', kopiaCacheSubdirectory] = ''/klio/cache_tier2/kopia-cache''" by code_simp
  note known = tier2_env_known [OF assms(2,3), of _ r, folded v_def]
  show "v ''TIER2_S3_ENABLED'' = ''true''" "v ''TIER2_S3_BUCKET_NAME'' = o3BucketName s3"
    "v ''TIER2_CACHE'' = ''/klio/cache_tier2/kopia-cache''"
    "v ''TIER2_BASE_LISTEN_ADDRESS'' = ''0.0.0.0:11516''" "v ''TIER2_WAL_LISTEN_ADDRESS'' = ''0.0.0.0:12001''"
    "v ''TIER2_ENCRYPTION_KEY_FILE'' = path_Join [fileBasePath, tier2EncryptionVolName, efKeyPath (o2Encryption t)]"
    "v ''TIER2_IDENTITY_FILE'' = path_Join [fileBasePath, tier2EncryptionVolName, efIdentityPath (o2Encryption t)]"
    by (subst known; simp add: rest_names_def s3_last_def s3_keys_def s3_base_def ce_Cons path)+
  show "v ''TIER2_S3_REGION'' = o3Region s3"
    "v ''TIER2_S3_ACCESS_KEY_ID'' = (case o3AccessKeyID s3 of None \<Rightarrow> [] | Some (a, b) \<Rightarrow> r (SecretKeyRef a b))"
    "v ''TIER2_S3_SECRET_ACCESS_KEY'' = (case o3SecretAccessKey s3 of None \<Rightarrow> [] | Some (a, b) \<Rightarrow> r (SecretKeyRef a b))"
    by (subst known; simp add: rest_names_def s3_last_def s3_keys_def s3_base_def ce_append ce_secret ce_absent split: option.split)+
qed

lemma tier_compression_ok:
  assumes "decode_laws num flag"
  shows "srTier1 s = Some t \<Longrightarrow> compression_admitted (o1Compression t) \<Longrightarrow>
      compression_ok (compression_of_env num (container_env r (server_envs s)) ''TIER1'')"
    and "srTier2 s = Some u \<Longrightarrow> o2S3 u = Some s3 \<Longrightarrow> compression_admitted (o2Compression u) \<Longrightarrow>
      compression_ok (compression_of_env num (container_env r (server_envs s)) ''TIER2'')"
proof -
  assume t: "srTier1 s = Some t" "compression_admitted (o1Compression t)"
  show "compression_ok (compression_of_env num (container_env r (server_envs s)) ''TIER1'')"
    by (rule compression_of_env_ok [OF assms t(2)]) (simp add: env_of_tier1 t(1) tier1_env_def, simp)
next
  assume u: "srTier2 s = Some u" "o2S3 u = Some s3" "compression_admitted (o2Compression u)"
  let ?xs = "s3_base u s3 @ s3_keys s3 @ s3_rest s3 @ s3_last s3"
  have "getTier2EnvVars s = appendCompressionEnvs ?xs ''TIER2'' (o2Compression u)"
    using tier2_env_split [OF u(1,2)] append_compression [of ?xs] by simp
  then show "compression_ok (compression_of_env num (container_env r (server_envs s)) ''TIER2'')"
    by (intro compression_of_env_ok [OF assms u(3)])
      (simp add: env_of_tier2, simp add: s3_base_def s3_keys_def s3_rest_def s3_last_def)
qed

lemma file_path_within:
  assumes "relative_path p" and "plain_elem n"
  shows "within (path_Join [fileBasePath, n]) (path_Join [fileBasePath, n, p])" and "path_Join [fileBasePath, n, p] \<noteq> []"
proof -
  have n: "n \<noteq> []" "p \<noteq> []" using assms by (auto simp: plain_elem_def relative_path_def)
  have "path_Join [fileBasePath, n] = CHR ''/'' # ''files'' @ CHR ''/'' # n"
    using abs_path_Join1 [of "''/files''" n] assms(2) by (simp add: fileBasePath_def abs_path_def path_Clean_def)
  moreover have "path_Join [fileBasePath, n, p] = path_Join [CHR ''/'' # ''files'' @ CHR ''/'' # n, p]"
    using n by (simp add: path_Join_def fileBasePath_def)
  ultimately show "within (path_Join [fileBasePath, n]) (path_Join [fileBasePath, n, p])"
    using relative_path_within [OF assms(1) _ assms(2), of "''files''"] by (simp add: plain_elem_def)
  then show "path_Join [fileBasePath, n, p] \<noteq> []"
    unfolding \<open>path_Join [fileBasePath, n] = _\<close> by (auto simp: within_def)
qed

text \<open>A file of the server container: it lies below a mount whose volume is in the pod.\<close>

definition server_file :: "ServerSpec \<Rightarrow> string \<Rightarrow> bool" where
  "server_file s p \<longleftrightarrow> (\<exists>m\<in>set (buildVolumeMounts s). \<exists>v\<in>set (buildVolumes s). volName v = vmName m \<and> within (vmMountPath m) p)"

lemma server_fileI:
  "m \<in> set (buildVolumeMounts s) \<Longrightarrow> v \<in> set (buildVolumes s) \<Longrightarrow> volName v = vmName m \<Longrightarrow> within (vmMountPath m) p \<Longrightarrow> server_file s p"
  unfolding server_file_def by blast

lemma restricted_volume_name [simp]: "volName (restricted_volume n src) = n"
  by (simp add: restricted_volume_def applyRestrictedVolumeDefaultMode_def Let_def split: option.splits)

lemma server_files:
  assumes "relative_path p"
  shows "server_file s (path_Join [fileBasePath, serverIdentityVolName, p])" "server_file s (path_Join [fileBasePath, clientCAVolName, p])"
    and "srTier1 s \<noteq> None \<Longrightarrow> server_file s (path_Join [fileBasePath, tier1EncryptionVolName, p])"
    and "srTier2 s \<noteq> None \<Longrightarrow> server_file s (path_Join [fileBasePath, tier2EncryptionVolName, p])"
proof -
  have names: "plain_elem serverIdentityVolName" "plain_elem clientCAVolName" "plain_elem tier1EncryptionVolName" "plain_elem tier2EncryptionVolName"
    by code_simp+
  note w = file_path_within(1) [OF assms]
  show "server_file s (path_Join [fileBasePath, serverIdentityVolName, p])"
    using w [OF names(1)] by (simp add: server_file_def buildVolumes_def buildVolumeMounts_def file_mount_def)
  show "server_file s (path_Join [fileBasePath, clientCAVolName, p])"
    using w [OF names(2)] by (simp add: server_file_def buildVolumes_def buildVolumeMounts_def buildFileVolMount_def)
  show "srTier1 s \<noteq> None \<Longrightarrow> server_file s (path_Join [fileBasePath, tier1EncryptionVolName, p])"
    using w [OF names(3)]
    by (intro server_fileI [of "file_mount tier1EncryptionVolName" s
        "restricted_volume tier1EncryptionVolName (efVolume (o1Encryption (the (srTier1 s))))"])
      (auto simp: buildVolumes_def buildVolumeMounts_def file_mount_def)
  show "srTier2 s \<noteq> None \<Longrightarrow> server_file s (path_Join [fileBasePath, tier2EncryptionVolName, p])"
    using w [OF names(4)]
    by (intro server_fileI [of "file_mount tier2EncryptionVolName" s
        "restricted_volume tier2EncryptionVolName (efVolume (o2Encryption (the (srTier2 s))))"])
      (auto simp: buildVolumes_def buildVolumeMounts_def file_mount_def)
qed

lemma tier2_cache_differs:
  assumes "filepath_Abs cwd ''.'' = Inr d" and "d \<noteq> ''/klio/cache_tier2/kopia-cache''"
    and "v ''TIER1_BASE_CACHE'' = [] \<or> v ''TIER1_BASE_CACHE'' = ''/klio/cache_tier1/kopia-cache''"
    and "v ''TIER2_CACHE'' = ''/klio/cache_tier2/kopia-cache''"
  shows "\<exists>d1. filepath_Abs cwd (path_Clean (v ''TIER1_BASE_CACHE'')) = Inr d1 \<and> d1 \<noteq> ''/klio/cache_tier2/kopia-cache''"
    and "filepath_Abs cwd (path_Clean (v ''TIER2_CACHE'')) = Inr ''/klio/cache_tier2/kopia-cache''"
proof -
  have abs: "filepath_Abs cwd (path_Clean ''/klio/cache_tier1/kopia-cache'') = Inr ''/klio/cache_tier1/kopia-cache''"
    "filepath_Abs cwd (path_Clean ''/klio/cache_tier2/kopia-cache'') = Inr ''/klio/cache_tier2/kopia-cache''" "path_Clean [] = ''.''"
    by (simp_all add: filepath_Abs_def path_Clean_def)
  show "\<exists>d1. filepath_Abs cwd (path_Clean (v ''TIER1_BASE_CACHE'')) = Inr d1 \<and> d1 \<noteq> ''/klio/cache_tier2/kopia-cache''"
    using assms(1,2,3) abs(1,3) by auto
  show "filepath_Abs cwd (path_Clean (v ''TIER2_CACHE'')) = Inr ''/klio/cache_tier2/kopia-cache''" using assms(4) abs(2) by simp
qed


text \<open>The resource does not ask for a region, the server does: without one, and without AWS_REGION, it does not start.\<close>

lemma no_aws_region: "container_env r (server_envs s) ''AWS_REGION'' = []"
proof -
  have "''AWS_REGION'' \<notin> env_names (getTier2EnvVars s)"
  proof (cases "Option.bind (srTier2 s) o2S3")
    case (Some s3)
    then obtain t where t: "srTier2 s = Some t" "o2S3 t = Some s3" by (auto simp: bind_eq_Some_conv)
    have "''AWS_REGION'' \<notin> rest_names" by (simp add: rest_names_def)
    with rest_names_sub have "''AWS_REGION'' \<notin> env_names (s3_rest s3)" "''AWS_REGION'' \<notin> env_names (appendCompressionEnvs [] ''TIER2'' (o2Compression t))"
      by blast+
    then show ?thesis unfolding tier2_env_split [OF t] by (simp add: s3_base_def s3_keys_def s3_last_def)
  qed (auto simp: getTier2EnvVars_def split: option.splits)
  moreover have "''AWS_REGION'' \<notin> env_names (case srTier1 s of None \<Rightarrow> [] | Some t \<Rightarrow> tier1_env t)"
    by (auto split: option.splits dest!: tier1_names)
  ultimately show ?thesis by (simp add: ce_parts common_names_def ce_absent)
qed

lemma regionless_server_is_rejected:
  assumes "srTier2 s = Some t" and "o2S3 t = Some s3" and "o3Region s3 = []" and "flag ''true''"
  shows "RequireTier2 cwd (server_config_of_env num flag (container_env res (cEnv (server_container s)))) \<noteq> None"
  using assms(3,4)
  by (simp add: server_container_def RequireTier2_def Tier2Config_Validate_def server_config_of_env_def Let_def
    tier2_values(1,8) [OF assms(1,2)] no_aws_region)

section \<open>Lemmas: reconciliation\<close>

text \<open>
  The documented behaviour of CreateOrUpdate: a mutation that fails changes nothing; otherwise only the object of the
  key changes, and it takes the mutated form (\<open>stored\<close>: with the fields that the API server adds).
\<close>

definition kube_laws :: "('o, 'k) kube_resource \<Rightarrow> ('o \<Rightarrow> 'o \<Rightarrow> bool) \<Rightarrow> bool" where
  "kube_laws K stored \<longleftrightarrow>
     (\<forall>key blank f k r x k'. krCreateOrUpdate K key blank f k = (r, x, k') \<longrightarrow>
        (case f (case krGet K key k of None \<Rightarrow> blank | Some cur \<Rightarrow> cur) of
           Inl e \<Rightarrow> r = Inl e \<and> k' = k
         | Inr new \<Rightarrow>
             (\<forall>n. n \<noteq> key \<longrightarrow> krGet K n k' = krGet K n k) \<and>
             (case r of
                Inl e \<Rightarrow> x = new \<and> (krGet K key k' = krGet K key k \<or> (\<exists>y. krGet K key k' = Some y \<and> stored new y))
              | Inr ResultNone \<Rightarrow> krGet K key k = Some new \<and> krGet K key k' = Some new
              | Inr _ \<Rightarrow> (\<exists>y. krGet K key k' = Some y \<and> stored new y))))"

definition stored_service :: "Service \<Rightarrow> Service \<Rightarrow> bool" where
  "stored_service new y \<longleftrightarrow> svCreated y \<and> svController y = svController new \<and> svSelector y = svSelector new \<and> svPorts y = svPorts new"

definition stored_statefulset :: "StatefulSet \<Rightarrow> StatefulSet \<Rightarrow> bool" where
  "stored_statefulset new y \<longleftrightarrow> ssCreated y \<and> ssController y = ssController new \<and> ssAnnotations y = ssAnnotations new"

abbreviation get_service :: "'k srv_env \<Rightarrow> string \<times> string \<Rightarrow> 'k \<Rightarrow> Service option" where
  "get_service E \<equiv> krGet (seServices E)"

abbreviation get_statefulset :: "'k srv_env \<Rightarrow> string \<times> string \<Rightarrow> 'k \<Rightarrow> StatefulSet option" where
  "get_statefulset E \<equiv> krGet (seStatefulSets E)"

definition get_claim :: "'k srv_env \<Rightarrow> string \<times> string \<Rightarrow> 'k \<Rightarrow> PvcSpec option" where
  "get_claim E n k = (case seGetPVC E n k of Inr p \<Rightarrow> Some p | Inl _ \<Rightarrow> None)"

text \<open>The requests on one kind of object leave the others alone; deleting a StatefulSet keeps the claims.\<close>

definition srv_laws :: "'k srv_env \<Rightarrow> bool" where
  "srv_laws E \<longleftrightarrow>
     kube_laws (seServices E) stored_service \<and> kube_laws (seStatefulSets E) stored_statefulset \<and>
     (\<forall>key b f k r x k'. krCreateOrUpdate (seServices E) key b f k = (r, x, k') \<longrightarrow>
        (\<forall>n. get_statefulset E n k' = get_statefulset E n k \<and> get_claim E n k' = get_claim E n k)) \<and>
     (\<forall>key b f k r x k'. krCreateOrUpdate (seStatefulSets E) key b f k = (r, x, k') \<longrightarrow>
        (\<forall>n. get_service E n k' = get_service E n k \<and> get_claim E n k' = get_claim E n k)) \<and>
     (\<forall>key k r k'. seDelete E key k = (r, k') \<longrightarrow>
        (\<forall>n. get_service E n k' = get_service E n k \<and> get_claim E n k' = get_claim E n k \<and>
             (n \<noteq> key \<longrightarrow> get_statefulset E n k' = get_statefulset E n k))) \<and>
     (\<forall>key p k r k'. sePatchPVC E key p k = (r, k') \<longrightarrow>
        (\<forall>n. get_service E n k' = get_service E n k \<and> get_statefulset E n k' = get_statefulset E n k \<and>
             (n \<noteq> key \<longrightarrow> get_claim E n k' = get_claim E n k)) \<and>
        (get_claim E key k' = get_claim E key k \<or> get_claim E key k' = Some p) \<and> (r = None \<longrightarrow> get_claim E key k' = Some p)) \<and>
     (\<forall>n k x. get_service E n k = Some x \<longrightarrow> svCreated x) \<and> (\<forall>n k x. get_statefulset E n k = Some x \<longrightarrow> ssCreated x) \<and>
     \<not> seIsInvalid E incorrectOwnershipError \<and> (\<forall>e. \<not> seIsInvalid E (Wrap ''failed to set controller reference'' e))"

text \<open>What no step of the reconciliation of a server may do: \<open>kept\<close> from one state of the cluster to another.\<close>

definition kept :: "'k srv_env \<Rightarrow> string \<Rightarrow> 'k \<Rightarrow> 'k \<Rightarrow> bool" where
  "kept E uid k k' \<longleftrightarrow>
     (\<forall>n x. get_service E n k = Some x \<longrightarrow> svController x \<noteq> Some uid \<longrightarrow> get_service E n k' = Some x) \<and>
     (\<forall>n x. get_statefulset E n k = Some x \<longrightarrow> ssController x \<noteq> Some uid \<longrightarrow> get_statefulset E n k' = Some x) \<and>
     (\<forall>n p. get_claim E n k = Some p \<longrightarrow> (\<exists>p'. get_claim E n k' = Some p' \<and> storage_size p \<le> storage_size p' \<and> pvRest p' = pvRest p))"

lemma kept_refl: "kept E u k k"
  by (auto simp: kept_def)

lemma kept_trans:
  assumes "kept E u a b" and "kept E u b c"
  shows "kept E u a c"
  unfolding kept_def
proof (intro conjI allI impI)
  fix n p assume "get_claim E n a = Some p"
  then obtain q where "get_claim E n b = Some q" "storage_size p \<le> storage_size q" "pvRest q = pvRest p"
    using assms(1) unfolding kept_def by blast
  moreover then obtain z where "get_claim E n c = Some z" "storage_size q \<le> storage_size z" "pvRest z = pvRest q"
    using assms(2) unfolding kept_def by blast
  ultimately show "\<exists>p'. get_claim E n c = Some p' \<and> storage_size p \<le> storage_size p' \<and> pvRest p' = pvRest p" by auto
qed (use assms in \<open>auto simp: kept_def\<close>)

lemmas kube_lawsD = kube_laws_def [THEN iffD1, rule_format]

lemmas srv_lawsD =
  srv_laws_def [THEN iffD1, THEN conjunct1]
  srv_laws_def [THEN iffD1, THEN conjunct2, THEN conjunct1]
  srv_laws_def [THEN iffD1, THEN conjunct2, THEN conjunct2, THEN conjunct1, rule_format]
  srv_laws_def [THEN iffD1, THEN conjunct2, THEN conjunct2, THEN conjunct2, THEN conjunct1, rule_format]
  srv_laws_def [THEN iffD1, THEN conjunct2, THEN conjunct2, THEN conjunct2, THEN conjunct2, THEN conjunct1, rule_format]
  srv_laws_def [THEN iffD1, THEN conjunct2, THEN conjunct2, THEN conjunct2, THEN conjunct2, THEN conjunct2, THEN conjunct1, rule_format]
  srv_laws_def [THEN iffD1, THEN conjunct2, THEN conjunct2, THEN conjunct2, THEN conjunct2, THEN conjunct2, THEN conjunct2, THEN conjunct1, rule_format]
  srv_laws_def [THEN iffD1, THEN conjunct2, THEN conjunct2, THEN conjunct2, THEN conjunct2, THEN conjunct2, THEN conjunct2, THEN conjunct2, THEN conjunct1, rule_format]
  srv_laws_def [THEN iffD1, THEN conjunct2, THEN conjunct2, THEN conjunct2, THEN conjunct2, THEN conjunct2, THEN conjunct2, THEN conjunct2, THEN conjunct2, THEN conjunct1]
  srv_laws_def [THEN iffD1, THEN conjunct2, THEN conjunct2, THEN conjunct2, THEN conjunct2, THEN conjunct2, THEN conjunct2, THEN conjunct2, THEN conjunct2, THEN conjunct2, rule_format]

lemma mutate_service_Inr:
  "mutate_service server x = Inr y \<Longrightarrow>
     \<not> (svCreated x \<and> svController x \<noteq> Some (sUID server)) \<and> svController y = Some (sUID server) \<and>
     svSelector y = server_labels server \<and> svPorts y = server_ports (sSpec server)"
  by (auto simp: mutate_service_def SetControllerReference_def split: if_splits option.splits sum.splits)

lemma mutate_service_Inl:
  "mutate_service server x = Inl e \<Longrightarrow> e = incorrectOwnershipError \<or> (\<exists>e'. e = Wrap ''failed to set controller reference'' e')"
  by (auto simp: mutate_service_def split: if_splits sum.splits)

lemma mutate_statefulset_Inr:
  "mutate_statefulset server h ex x = Inr y \<Longrightarrow>
     \<not> (ssCreated x \<and> ssController x \<noteq> Some (sUID server)) \<and> map_of (ssAnnotations y) hashAnnotation = Some h \<and>
     (ssController y = Some (sUID server) \<or> y = x) \<and> ssCreated y = ssCreated x"
  by (auto simp: mutate_statefulset_def SetControllerReference_def maps_Copy_def update_conv split: if_splits option.splits sum.splits)

lemma mutate_statefulset_Inl:
  "mutate_statefulset server h ex x = Inl e \<Longrightarrow> e = incorrectOwnershipError \<or> (\<exists>e'. e = Wrap ''failed to set controller reference'' e')"
  by (auto simp: mutate_statefulset_def split: if_splits sum.splits)

lemma service_step:
  assumes laws: "srv_laws E" and run: "krCreateOrUpdate (seServices E) key blank_service (mutate_service server) k = (r, x, k')"
  shows "kept E (sUID server) k k'"
    and "r = Inr res \<Longrightarrow> \<exists>y. get_service E key k' = Some y \<and> svController y = Some (sUID server) \<and>
      svSelector y = server_labels server \<and> svPorts y = server_ports (sSpec server)"
proof -
  let ?cur = "case get_service E key k of None \<Rightarrow> blank_service | Some cur \<Rightarrow> cur"
  have kl: "kube_laws (seServices E) stored_service"
    and fr: "\<And>n. get_statefulset E n k' = get_statefulset E n k" "\<And>n. get_claim E n k' = get_claim E n k"
    and cr: "\<And>n z. get_service E n k = Some z \<Longrightarrow> svCreated z"
    using srv_lawsD(1,3,7) [OF laws] run by auto
  note l = kube_lawsD [OF kl run]
  show "kept E (sUID server) k k'"
  proof (cases "mutate_service server ?cur")
    case (Inl e)
    with l show ?thesis by (simp add: kept_refl)
  next
    case (Inr new)
    then have "\<And>n. n \<noteq> key \<Longrightarrow> get_service E n k' = get_service E n k" using l by (simp del: split_paired_All)
    moreover have "svController z = Some (sUID server)" if "get_service E key k = Some z" for z
      using mutate_service_Inr [OF Inr] that cr by auto
    ultimately show ?thesis unfolding kept_def using fr by (metis order_refl)
  qed
  show "\<exists>y. get_service E key k' = Some y \<and> svController y = Some (sUID server) \<and>
      svSelector y = server_labels server \<and> svPorts y = server_ports (sSpec server)" if "r = Inr res"
  proof (cases "mutate_service server ?cur")
    case (Inl e)
    with l that show ?thesis by simp
  next
    case (Inr new)
    with l that have "\<exists>y. get_service E key k' = Some y \<and> (y = new \<or> stored_service new y)" by (cases res) auto
    with mutate_service_Inr [OF Inr] show ?thesis by (auto simp: stored_service_def)
  qed
qed

lemma statefulset_step:
  assumes laws: "srv_laws E" and run: "krCreateOrUpdate (seStatefulSets E) key blank_statefulset (mutate_statefulset server h ex) k = (r, x, k')"
  shows "kept E (sUID server) k k'"
    and "r = Inr res \<Longrightarrow> \<exists>y. get_statefulset E key k' = Some y \<and> ssController y = Some (sUID server) \<and> map_of (ssAnnotations y) hashAnnotation = Some h"
    and "r = Inl e \<Longrightarrow> seIsInvalid E e \<Longrightarrow> ssCreated x \<Longrightarrow>
      (\<exists>y. get_statefulset E key k = Some y \<and> ssController y = Some (sUID server)) \<and>
      (\<exists>y. get_statefulset E key k' = Some y \<and> ssController y = Some (sUID server))"
proof -
  let ?cur = "case get_statefulset E key k of None \<Rightarrow> blank_statefulset | Some cur \<Rightarrow> cur"
  have kl: "kube_laws (seStatefulSets E) stored_statefulset"
    and fr: "\<And>n. get_service E n k' = get_service E n k" "\<And>n. get_claim E n k' = get_claim E n k"
    and cr: "\<And>n z. get_statefulset E n k = Some z \<Longrightarrow> ssCreated z"
    and inv: "\<not> seIsInvalid E incorrectOwnershipError" "\<And>e. \<not> seIsInvalid E (Wrap ''failed to set controller reference'' e)"
    using srv_lawsD(2,4,8,9,10) [OF laws] run by auto
  note l = kube_lawsD [OF kl run]
  show "kept E (sUID server) k k'"
  proof (cases "mutate_statefulset server h ex ?cur")
    case (Inl e)
    with l show ?thesis by (simp add: kept_refl)
  next
    case (Inr new)
    then have "\<And>n. n \<noteq> key \<Longrightarrow> get_statefulset E n k' = get_statefulset E n k" using l by (simp del: split_paired_All)
    moreover have "ssController z = Some (sUID server)" if "get_statefulset E key k = Some z" for z
      using mutate_statefulset_Inr [OF Inr] that cr by auto
    ultimately show ?thesis unfolding kept_def using fr by (metis order_refl)
  qed
  have owner: "ssController new = Some (sUID server)" if "mutate_statefulset server h ex ?cur = Inr new" for new
  proof (cases "get_statefulset E key k")
    case None
    with mutate_statefulset_Inr [OF that] show ?thesis by (auto simp: blank_statefulset_def)
  next
    case (Some z)
    with mutate_statefulset_Inr [OF that] cr [OF Some] show ?thesis by auto
  qed
  show "\<exists>y. get_statefulset E key k' = Some y \<and> ssController y = Some (sUID server) \<and> map_of (ssAnnotations y) hashAnnotation = Some h"
    if "r = Inr res"
  proof (cases "mutate_statefulset server h ex ?cur")
    case (Inl e)
    with l that show ?thesis by simp
  next
    case (Inr new)
    with l that have "\<exists>y. get_statefulset E key k' = Some y \<and> (y = new \<or> stored_statefulset new y)" by (cases res) auto
    with mutate_statefulset_Inr [OF Inr] owner [OF Inr] show ?thesis by (auto simp: stored_statefulset_def)
  qed
  show "(\<exists>y. get_statefulset E key k = Some y \<and> ssController y = Some (sUID server)) \<and>
      (\<exists>y. get_statefulset E key k' = Some y \<and> ssController y = Some (sUID server))"
    if "r = Inl e" "seIsInvalid E e" "ssCreated x"
  proof (cases "mutate_statefulset server h ex ?cur")
    case (Inl e')
    with l that mutate_statefulset_Inl [OF Inl] inv show ?thesis by auto
  next
    case (Inr new)
    then have x: "x = new" and k': "get_statefulset E key k' = get_statefulset E key k \<or> (\<exists>y. get_statefulset E key k' = Some y \<and> stored_statefulset new y)"
      using l that(1) by simp_all
    with that(3) mutate_statefulset_Inr [OF Inr] have "ssCreated ?cur" "ssController ?cur = Some (sUID server)" by auto
    then obtain y where y: "get_statefulset E key k = Some y" "ssController y = Some (sUID server)"
      by (auto simp: blank_statefulset_def split: option.splits)
    then show ?thesis using k' owner [OF Inr] by (auto simp: stored_statefulset_def)
  qed
qed

lemma delete_step:
  assumes laws: "srv_laws E" and "seDelete E key k = (r, k')" and "get_statefulset E key k = Some y" "ssController y = Some uid"
  shows "kept E uid k k'"
proof -
  have "\<And>n. get_service E n k' = get_service E n k" "\<And>n. get_claim E n k' = get_claim E n k"
    "\<And>n. n \<noteq> key \<Longrightarrow> get_statefulset E n k' = get_statefulset E n k"
    using srv_lawsD(5) [OF laws assms(2)] by auto
  then show ?thesis unfolding kept_def using assms(3,4) by (metis option.inject order_refl)
qed

lemma claim_step:
  assumes laws: "srv_laws E" and run: "reconcilePVCResize E server k = (r, k')"
  shows "kept E u k k'"
    and "r = None \<Longrightarrow> pvStorage (srStorage (sSpec server)) = Some q \<Longrightarrow> get_claim E (sNamespace server, klioPVCName server) k = Some p \<Longrightarrow>
      \<exists>p'. get_claim E (sNamespace server, klioPVCName server) k' = Some p' \<and> storage_size p' = max (storage_size p) q"
proof -
  let ?key = "(sNamespace server, klioPVCName server)"
  note patch = srv_lawsD(6) [OF laws]
  have idle: "k' = k \<or> (\<exists>p q r'. pvStorage (srStorage (sSpec server)) = Some q \<and> seGetPVC E ?key k = Inr p \<and> storage_size p < q \<and>
      sePatchPVC E ?key (p\<lparr>pvStorage := Some q\<rparr>) k = (r', k'))"
    using run by (auto simp: reconcilePVCResize_def expandPVC_def Let_def split: option.splits sum.splits api_error.splits if_splits prod.splits)
  show "kept E u k k'"
    using idle
  proof (elim disjE exE conjE)
    fix p q r' assume q: "seGetPVC E ?key k = Inr p" "storage_size p < q" and pt: "sePatchPVC E ?key (p\<lparr>pvStorage := Some q\<rparr>) k = (r', k')"
    have p: "get_claim E ?key k = Some p" using q(1) by (simp add: get_claim_def)
    show ?thesis
      unfolding kept_def
    proof (intro conjI allI impI)
      fix n p0 assume "get_claim E n k = Some p0"
      then show "\<exists>p'. get_claim E n k' = Some p' \<and> storage_size p0 \<le> storage_size p' \<and> pvRest p' = pvRest p0"
        using patch [OF pt] p q(2) by (cases "n = ?key") (auto simp: storage_size_def simp del: split_paired_All)
    qed (use patch [OF pt] in \<open>auto simp del: split_paired_All\<close>)
  qed (simp add: kept_refl)
  show "\<exists>p'. get_claim E ?key k' = Some p' \<and> storage_size p' = max (storage_size p) q"
    if "r = None" "pvStorage (srStorage (sSpec server)) = Some q" "get_claim E ?key k = Some p"
  proof -
    have "seGetPVC E ?key k = Inr p" using that(3) by (auto simp: get_claim_def split: sum.splits)
    with run that(1,2) have "if storage_size p < q then sePatchPVC E ?key (p\<lparr>pvStorage := Some q\<rparr>) k = (None, k') else k' = k"
      by (auto simp: reconcilePVCResize_def expandPVC_def Let_def split: if_splits option.splits prod.splits)
    then show ?thesis using that(3) patch [of ?key "p\<lparr>pvStorage := Some q\<rparr>" k None k']
      by (auto simp: storage_size_def max_def split: if_splits)
  qed
qed

lemma claim_frame:
  assumes "srv_laws E" and "reconcilePVCResize E server k = (r, k')"
  shows "get_service E n k' = get_service E n k"
  using assms(2) srv_lawsD(6) [OF assms(1)]
  by (auto simp: reconcilePVCResize_def expandPVC_def Let_def simp del: split_paired_All
    split: option.splits sum.splits api_error.splits if_splits prod.splits)

lemma reconcileStatefulSet_step:
  assumes laws: "srv_laws E" and run: "reconcileStatefulSet E server k = (r, k')"
  shows "kept E (sUID server) k k'"
    and "r = Inr CtrlDone \<Longrightarrow> \<exists>ex h y. expected_statefulset E server = Inr ex \<and> ComputeHash E ex 1 = Inr h \<and>
      get_statefulset E (sNamespace server, GetStatefulSetName server) k' = Some y \<and> ssController y = Some (sUID server) \<and>
      map_of (ssAnnotations y) hashAnnotation = Some h \<and> (\<forall>n. get_service E n k' = get_service E n k \<and> get_claim E n k' = get_claim E n k)"
proof -
  let ?key = "(sNamespace server, GetStatefulSetName server)"
  consider (idle) "k' = k" "\<forall>x. r \<noteq> Inr x"
    | (call) ex h q x k1 where "expected_statefulset E server = Inr ex" "ComputeHash E ex 1 = Inr h"
        "krCreateOrUpdate (seStatefulSets E) ?key blank_statefulset (mutate_statefulset server h ex) k = (q, x, k1)"
        "k' = k1 \<and> (r = Inr CtrlDone \<longrightarrow> (\<exists>res. q = Inr res)) \<or>
         (\<exists>e d. q = Inl e \<and> seIsInvalid E e \<and> ssCreated x \<and> seDelete E ?key k1 = (d, k') \<and> r \<noteq> Inr CtrlDone)"
    using run unfolding reconcileStatefulSet_def Let_def
    by (auto split: option.splits sum.splits prod.splits if_splits)
  then have "kept E (sUID server) k k' \<and> (r = Inr CtrlDone \<longrightarrow> (\<exists>ex h y. expected_statefulset E server = Inr ex \<and> ComputeHash E ex 1 = Inr h \<and>
      get_statefulset E ?key k' = Some y \<and> ssController y = Some (sUID server) \<and>
      map_of (ssAnnotations y) hashAnnotation = Some h \<and> (\<forall>n. get_service E n k' = get_service E n k \<and> get_claim E n k' = get_claim E n k)))"
  proof cases
    case call
    note step = statefulset_step [OF laws call(3)] and frame = srv_lawsD(4) [OF laws call(3)]
    from call(4) show ?thesis
    proof (elim disjE exE conjE)
      assume k': "k' = k1" "r = Inr CtrlDone \<longrightarrow> (\<exists>res. q = Inr res)"
      then show ?thesis using step(1,2) frame call(1,2) by blast
    next
      fix e d assume d: "q = Inl e" "seIsInvalid E e" "ssCreated x" "seDelete E ?key k1 = (d, k')" "r \<noteq> Inr CtrlDone"
      from step(3) [OF d(1,2,3)] obtain y where "get_statefulset E ?key k1 = Some y" "ssController y = Some (sUID server)" by blast
      from delete_step [OF laws d(4) this] step(1) d(5) show ?thesis by (auto intro: kept_trans)
    qed
  qed (simp add: kept_refl)
  then show "kept E (sUID server) k k'"
    and "r = Inr CtrlDone \<Longrightarrow> \<exists>ex h y. expected_statefulset E server = Inr ex \<and> ComputeHash E ex 1 = Inr h \<and>
      get_statefulset E ?key k' = Some y \<and> ssController y = Some (sUID server) \<and>
      map_of (ssAnnotations y) hashAnnotation = Some h \<and> (\<forall>n. get_service E n k' = get_service E n k \<and> get_claim E n k' = get_claim E n k)"
    by blast+
qed


section \<open>Witnesses\<close>

definition demo_files :: "string \<Rightarrow> string \<Rightarrow> EncryptionFiles" where
  "demo_files a b = \<lparr>efVolume = demo_volume, efKeyPath = a, efIdentityPath = b\<rparr>"

definition demo_server_spec :: ServerSpec where
  "demo_server_spec =
     \<lparr>srImage = ''klio:latest'', srImagePullPolicy = [], srImagePullSecrets = [],
      srTLS = \<lparr>tlServerIdentity = \<lparr>tiVolume = demo_volume, tiCertPath = ''tls.crt'', tiKeyPath = ''tls.key''\<rparr>,
        tlClientCA = \<lparr>vfVolume = demo_volume, vfPath = ''ca.crt''\<rparr>\<rparr>,
      srMode = ModeStandard,
      srTier1 = Some \<lparr>o1Encryption = demo_files ''key.age'' ''identity'', o1Compression = Some \<lparr>Algorithm = ''zstd'', MinSize = 0, MaxSize = 0\<rparr>\<rparr>,
      srTier2 = Some \<lparr>o2S3 = Some \<lparr>o3BucketName = ''bucket'', o3Prefix = [], o3Endpoint = [], o3Region = ''eu'',
          o3AccessKeyID = Some (''s3'', ''id''), o3SecretAccessKey = Some (''s3'', ''secret''), o3SessionToken = None,
          o3CredentialsFile = None, o3Profile = [], o3CustomCABundle = None\<rparr>,
        o2Encryption = demo_files ''key2.age'' ''identity2'', o2Compression = None\<rparr>,
      srStorage = \<lparr>pvStorage = Some 20, pvRest = []\<rparr>, srTemplate = None\<rparr>"

definition demo_server :: Server where
  "demo_server = \<lparr>sName = ''main'', sNamespace = ''db'', sUID = ''uid'', sAnnotations = [], sDeleting = False, sSpec = demo_server_spec\<rparr>"

record mem_kube =
  mkServices :: "string \<times> string \<Rightarrow> Service option"
  mkStatefulSets :: "string \<times> string \<Rightarrow> StatefulSet option"
  mkClaims :: "string \<times> string \<Rightarrow> PvcSpec option"

definition mem_createOrUpdate ::
  "(string \<times> string \<Rightarrow> 'k \<Rightarrow> 'o option) \<Rightarrow> (string \<times> string \<Rightarrow> 'o \<Rightarrow> 'k \<Rightarrow> 'k) \<Rightarrow>
   string \<times> string \<Rightarrow> 'o \<Rightarrow> ('o \<Rightarrow> go_error + 'o) \<Rightarrow> 'k \<Rightarrow> (go_error + op_result) \<times> 'o \<times> 'k" where
  "mem_createOrUpdate get put key blank f k =
     (case f (case get key k of None \<Rightarrow> blank | Some cur \<Rightarrow> cur) of
        Inl e \<Rightarrow> (Inl e, blank, k)
      | Inr new \<Rightarrow> if get key k = Some new then (Inr ResultNone, new, k)
                   else (Inr (if get key k = None then ResultCreated else ResultUpdated), new, put key new k))"

definition mem_services :: "(Service, mem_kube) kube_resource" where
  "mem_services = (let get = \<lambda>n k. map_option (\<lambda>x. x\<lparr>svCreated := True\<rparr>) (mkServices k n) in
     \<lparr>krGet = get, krCreateOrUpdate = mem_createOrUpdate get (\<lambda>n x k. k\<lparr>mkServices := (mkServices k)(n \<mapsto> x)\<rparr>)\<rparr>)"

definition mem_statefulsets :: "(StatefulSet, mem_kube) kube_resource" where
  "mem_statefulsets = (let get = \<lambda>n k. map_option (\<lambda>x. x\<lparr>ssCreated := True\<rparr>) (mkStatefulSets k n) in
     \<lparr>krGet = get, krCreateOrUpdate = mem_createOrUpdate get (\<lambda>n x k. k\<lparr>mkStatefulSets := (mkStatefulSets k)(n \<mapsto> x)\<rparr>)\<rparr>)"

definition demo_srv :: "mem_kube srv_env" where
  "demo_srv =
     \<lparr>seGet = (\<lambda>req k. if req = (''db'', ''main'') then Inr demo_server else Inl ApiNotFound),
      seServices = mem_services, seStatefulSets = mem_statefulsets,
      seDelete = (\<lambda>n k. (None, k\<lparr>mkStatefulSets := (mkStatefulSets k)(n := None)\<rparr>)),
      seGetPVC = (\<lambda>n k. case mkClaims k n of None \<Rightarrow> Inl ApiNotFound | Some p \<Rightarrow> Inr p),
      sePatchPVC = (\<lambda>n p k. (None, k\<lparr>mkClaims := (mkClaims k)(n \<mapsto> p)\<rparr>)),
      seIsInvalid = (\<lambda>e. e = Sentinel ''invalid''), seMergePatch = (\<lambda>base over. Inr base),
      seSpew = (\<lambda>sts v. Inr []), seSafeEncode = (\<lambda>h. h), seHaveSCC = False\<rparr>"

definition foreign_service :: Service where
  "foreign_service = blank_service\<lparr>svCreated := True, svController := Some ''someone''\<rparr>"

definition demo_kube :: mem_kube where
  "demo_kube = \<lparr>mkServices = [(''db'', ''other'') \<mapsto> foreign_service], mkStatefulSets = Map.empty,
     mkClaims = [(''db'', ''klio-main-klio-0'') \<mapsto> \<lparr>pvStorage = Some 10, pvRest = []\<rparr>]\<rparr>"

lemma mem_kube_laws: "kube_laws mem_services stored_service" "kube_laws mem_statefulsets stored_statefulset"
  by (auto simp: kube_laws_def mem_services_def mem_statefulsets_def mem_createOrUpdate_def Let_def stored_service_def
    stored_statefulset_def split: sum.splits if_splits option.splits)

lemma demo_srv_laws: "srv_laws demo_srv"
proof -
  have svc: "mem_createOrUpdate get put key b f k = (r, x, k') \<Longrightarrow> k' = k \<or> (\<exists>y. k' = put key y k)" for get put key b f k r x k'
    by (auto simp: mem_createOrUpdate_def split: sum.splits if_splits)
  show ?thesis
    unfolding srv_laws_def
    using mem_kube_laws
    by (auto simp: demo_srv_def mem_services_def mem_statefulsets_def Let_def get_claim_def incorrectOwnershipError_def
      dest!: svc split: sum.splits option.splits)
qed

lemma demo_reconciled: "fst (server_Reconcile demo_srv (''db'', ''main'') demo_kube) = Inr CtrlDone"
  by (simp add: server_Reconcile_def server_reconcile_def reconcileService_def demo_srv_def mem_services_def mem_statefulsets_def
    mem_createOrUpdate_def Let_def demo_kube_def demo_server_def demo_server_spec_def GetServiceName_def GetStatefulSetName_def
    mutate_service_def mutate_statefulset_def blank_service_def blank_statefulset_def SetControllerReference_def reconcilePVCResize_def
    klioPVCName_def pvcTypeKlio_def storage_size_def expandPVC_def reconcileStatefulSet_def validateTLSIdentity_def
    expected_statefulset_def merged_template_def ComputeHash_def hashAnnotation_def)


fun decimal :: "string \<Rightarrow> int" where
  "decimal [] = 0"
| "decimal (c # cs) = (int (of_char c) - 48) * 10 ^ length cs + decimal cs"

lemma decimal_append: "decimal (xs @ ys) = decimal xs * 10 ^ length ys + decimal ys"
  by (induction xs) (simp_all add: power_add algebra_simps)

lemma decimal_FormatNat: "decimal (FormatNat n) = int n"
proof (induction n rule: FormatNat.induct)
  case (1 n)
  have digit: "int (of_char (char_of (48 + d) :: char)) = 48 + int d" if "d < 10" for d :: nat
    using that by simp
  show ?case
  proof (cases "n < 10")
    case True
    then show ?thesis by (simp add: FormatNat.simps digit)
  next
    case False
    then have "decimal (FormatNat n) = decimal (FormatNat (n div 10)) * 10 + int (n mod 10)"
      by (subst FormatNat.simps) (simp add: decimal_append digit)
    also have "\<dots> = int (n div 10 * 10 + n mod 10)" using 1 False by (simp only: of_nat_add of_nat_mult) simp
    finally show ?thesis by (simp only: div_mult_mod_eq)
  qed
qed


end
