(* ===== verification/Message_Receiver.thy ===== *)
theory Message_Receiver
  imports Send_Wal Put_Streams
begin

text \<open>
  The two goroutines of the WAL sender (core/internal/client/sendwal): the background receiver, which reads protocol
  messages from PostgreSQL and hands them out in batches (nonblocking_receive.go), and the sender of status updates
  (feedback_sender.go).  Both are step relations over all interleavings with their callers.

  pgproto3 hands out messages that point into a buffer which the next read overwrites.  The model keeps that buffer: a
  raw message holds only the length of its payload, and a queued one is either a reference to the buffer or a copy.
\<close>

section \<open>nonblocking_receive.go\<close>

datatype raw_message = RawCopyData nat | RawOther BackendMessage

datatype queued_message = Owned BackendMessage | Aliased raw_message

text \<open>What conn.ReceiveMessage leaves in the buffer, and what it returns.\<close>

fun receive_raw :: "BackendMessage \<Rightarrow> bytes \<Rightarrow> raw_message \<times> bytes" where
  "receive_raw (CopyData b) buf = (RawCopyData (length b), b @ drop (length b) buf)"
| "receive_raw m buf = (RawOther m, buf)"

fun raw_value :: "bytes \<Rightarrow> raw_message \<Rightarrow> BackendMessage" where
  "raw_value buf (RawCopyData n) = CopyData (take n buf)"
| "raw_value buf (RawOther m) = m"

fun queued_value :: "bytes \<Rightarrow> queued_message \<Rightarrow> BackendMessage" where
  "queued_value buf (Owned m) = m"
| "queued_value buf (Aliased r) = raw_value buf r"

fun cloneMessage :: "bytes \<Rightarrow> raw_message \<Rightarrow> queued_message" where
  "cloneMessage buf (RawCopyData n) = Owned (CopyData (take n buf))"
| "cloneMessage buf (RawOther m) = Aliased (RawOther m)"

definition ErrMessageReceiverClosed :: go_error where
  "ErrMessageReceiverClosed = Sentinel ''message receiver closed''"

definition receiver_capacity :: nat where "receiver_capacity = 500"

text \<open>
  The receiver with its caller: what is still on the wire, the buffer, the message that was read and not queued yet, the
  channel, whether the goroutine has ended, its error, whether its context is cancelled; the messages that a running
  ReceiveAvailable has collected, the batches that it has returned, and the error that it returned last.
\<close>

record messageReceiver =
  mrWire :: "BackendMessage list"
  mrBuffer :: bytes
  mrPending :: "raw_message option"
  mrCh :: "queued_message list"
  mrDone :: bool
  mrErr :: "go_error option"
  mrCancelled :: bool
  mrCollecting :: "BackendMessage list option"
  mrBatches :: "BackendMessage list list"
  mrReturned :: "go_error option"

definition newMessageReceiver :: "BackendMessage list \<Rightarrow> bytes \<Rightarrow> messageReceiver" where
  "newMessageReceiver ms buf = \<lparr>mrWire = ms, mrBuffer = buf, mrPending = None, mrCh = [], mrDone = False, mrErr = None,
     mrCancelled = False, mrCollecting = None, mrBatches = [], mrReturned = None\<rparr>"

definition closedErr :: "messageReceiver \<Rightarrow> go_error" where
  "closedErr r = (case mrErr r of Some e \<Rightarrow> e | None \<Rightarrow> ErrMessageReceiverClosed)"

inductive mr_step :: "messageReceiver \<Rightarrow> messageReceiver \<Rightarrow> bool" where
  receive: "\<lbrakk>\<not> mrDone r; mrPending r = None; mrWire r = m # ms; receive_raw m (mrBuffer r) = (raw, buf)\<rbrakk> \<Longrightarrow>
     mr_step r (r\<lparr>mrWire := ms, mrBuffer := buf, mrPending := Some raw\<rparr>)"
| receive_error: "\<lbrakk>\<not> mrDone r; mrPending r = None\<rbrakk> \<Longrightarrow> mr_step r (r\<lparr>mrErr := Some e, mrDone := True\<rparr>)"
| publish: "\<lbrakk>\<not> mrDone r; mrPending r = Some raw; length (mrCh r) < receiver_capacity\<rbrakk> \<Longrightarrow>
     mr_step r (r\<lparr>mrPending := None, mrCh := mrCh r @ [cloneMessage (mrBuffer r) raw]\<rparr>)"
| publish_cancelled: "\<lbrakk>\<not> mrDone r; mrPending r = Some raw; mrCancelled r\<rbrakk> \<Longrightarrow>
     mr_step r (r\<lparr>mrErr := Some Canceled, mrDone := True\<rparr>)"
| cancel: "mr_step r (r\<lparr>mrCancelled := True\<rparr>)"
| first_message: "\<lbrakk>mrCollecting r = None; mrCh r = q # qs\<rbrakk> \<Longrightarrow>
     mr_step r (r\<lparr>mrCh := qs, mrCollecting := Some [queued_value (mrBuffer r) q]\<rparr>)"
| next_message: "\<lbrakk>mrCollecting r = Some ms; mrCh r = q # qs\<rbrakk> \<Longrightarrow>
     mr_step r (r\<lparr>mrCh := qs, mrCollecting := Some (ms @ [queued_value (mrBuffer r) q])\<rparr>)"
| return_batch: "\<lbrakk>mrCollecting r = Some ms; mrCh r = []\<rbrakk> \<Longrightarrow>
     mr_step r (r\<lparr>mrCollecting := None, mrBatches := mrBatches r @ [ms]\<rparr>)"
| return_closed: "\<lbrakk>mrCollecting r = None; mrCh r = []; mrDone r\<rbrakk> \<Longrightarrow> mr_step r (r\<lparr>mrReturned := Some (closedErr r)\<rparr>)"
| return_cancelled: "mrCollecting r = None \<Longrightarrow> mr_step r (r\<lparr>mrReturned := Some Canceled\<rparr>)"

inductive_cases mr_stepE: "mr_step r r'"

section \<open>feedback_sender.go\<close>

text \<open>
  The channel of feedback, whether its producer has closed it, the latest value, the wake-up channel of one place,
  whether the goroutine has ended, and the status updates that were sent.
\<close>

record feedback_goroutine =
  fgChannel :: "Feedback list"
  fgClosed :: bool
  fgLatest :: Feedback
  fgWake :: bool
  fgDone :: bool
  fgSent :: "Feedback list"

definition no_feedback :: Feedback where
  "no_feedback = \<lparr>FlushLSN = 0, WriteLSN = 0, ReplayLSN = 0\<rparr>"

definition newFeedbackSender :: feedback_goroutine where
  "newFeedbackSender = \<lparr>fgChannel = [], fgClosed = False, fgLatest = no_feedback, fgWake = False, fgDone = False, fgSent = []\<rparr>"

definition sendLatest :: "feedback_goroutine \<Rightarrow> feedback_goroutine" where
  "sendLatest s = s\<lparr>fgSent := fgSent s @ [fgLatest s]\<rparr>"

definition fg_Send :: "feedback_goroutine \<Rightarrow> feedback_goroutine" where
  "fg_Send s = (if fgWake s then s else s\<lparr>fgWake := True\<rparr>)"

text \<open>The label is the feedback that the producer puts into the channel.\<close>

inductive fg_step :: "Feedback option \<Rightarrow> feedback_goroutine \<Rightarrow> feedback_goroutine \<Rightarrow> bool" where
  produce: "\<not> fgClosed s \<Longrightarrow> fg_step (Some f) s (s\<lparr>fgChannel := fgChannel s @ [f]\<rparr>)"
| close_channel: "fg_step None s (s\<lparr>fgClosed := True\<rparr>)"
| ask: "fg_step None s (fg_Send s)"
| feedback: "\<lbrakk>\<not> fgDone s; fgChannel s = f # fs\<rbrakk> \<Longrightarrow> fg_step None s (sendLatest (s\<lparr>fgChannel := fs, fgLatest := f\<rparr>))"
| woken: "\<lbrakk>\<not> fgDone s; fgWake s\<rbrakk> \<Longrightarrow> fg_step None s (sendLatest (s\<lparr>fgWake := False\<rparr>))"
| ended: "\<lbrakk>\<not> fgDone s; fgChannel s = []; fgClosed s\<rbrakk> \<Longrightarrow> fg_step None s (s\<lparr>fgDone := True\<rparr>)"

inductive fg_run :: "Feedback list \<Rightarrow> feedback_goroutine \<Rightarrow> bool" where
  start: "fg_run [] newFeedbackSender"
| step: "fg_run fs s \<Longrightarrow> fg_step l s s' \<Longrightarrow> fg_run (case l of None \<Rightarrow> fs | Some f \<Rightarrow> fs @ [f]) s'"

section \<open>The receiver keeps the stream\<close>

definition collected :: "messageReceiver \<Rightarrow> BackendMessage list" where
  "collected r = (case mrCollecting r of None \<Rightarrow> [] | Some ms \<Rightarrow> ms)"

definition unpublished :: "messageReceiver \<Rightarrow> BackendMessage list" where
  "unpublished r = (case mrPending r of None \<Rightarrow> [] | Some raw \<Rightarrow> [raw_value (mrBuffer r) raw])"

fun owned :: "queued_message \<Rightarrow> bool" where
  "owned (Owned m) = True"
| "owned (Aliased (RawCopyData n)) = False"
| "owned (Aliased (RawOther m)) = True"

lemma owned_value: "owned q \<Longrightarrow> queued_value b q = queued_value b' q"
  by (cases q rule: owned.cases) simp_all

lemma owned_values: "list_all owned qs \<Longrightarrow> map (queued_value b) qs = map (queued_value b') qs"
  by (induction qs) (simp_all add: owned_value [of _ b b'])

lemma cloneMessage_owned [simp]: "owned (cloneMessage buf raw)"
  by (cases raw) simp_all

lemma cloneMessage_value [simp]: "queued_value b (cloneMessage buf raw) = raw_value buf raw"
  by (cases raw) simp_all

lemma receive_raw_value: "receive_raw m buf = (raw, buf') \<Longrightarrow> raw_value buf' raw = m"
  by (cases m) auto

definition mr_inv :: "BackendMessage list \<Rightarrow> messageReceiver \<Rightarrow> bool" where
  "mr_inv ms r \<longleftrightarrow>
     ms = concat (mrBatches r) @ collected r @ map (queued_value (mrBuffer r)) (mrCh r) @ unpublished r @ mrWire r \<and>
     list_all owned (mrCh r) \<and> [] \<notin> set (mrBatches r) \<and> mrCollecting r \<noteq> Some [] \<and>
     length (mrCh r) \<le> receiver_capacity \<and> (mrDone r \<longleftrightarrow> mrErr r \<noteq> None) \<and>
     (\<forall>e. mrReturned r = Some e \<longrightarrow> e = Canceled \<or> (mrErr r = Some e \<and> mrCh r = [] \<and> mrCollecting r = None))"

lemmas mr_simps = mr_inv_def collected_def unpublished_def closedErr_def receiver_capacity_def

lemma mr_inv_start: "mr_inv ms (newMessageReceiver ms buf)"
  by (simp add: mr_simps newMessageReceiver_def)

lemma mr_inv_step: "mr_step r r' \<Longrightarrow> mr_inv ms r \<Longrightarrow> mr_inv ms r'"
proof (induction rule: mr_step.induct)
  case (receive r m ms' raw buf)
  then show ?case
    using owned_values [of "mrCh r" "mrBuffer r" buf] receive_raw_value [OF receive(4)] by (auto simp: mr_simps)
qed (auto simp: mr_simps split: option.splits)

lemma mr_inv_reachable: "mr_step\<^sup>*\<^sup>* (newMessageReceiver ms buf) r \<Longrightarrow> mr_inv ms r"
  by (induction rule: rtranclp_induct) (auto intro: mr_inv_start mr_inv_step)

lemma stream_data_prefix: "\<exists>more. stream_data L (xs @ ys) = stream_data L xs @ more"
  by (induction L xs rule: stream_data.induct) auto

section \<open>Status updates never go back\<close>

definition fg_seen :: "Feedback list \<Rightarrow> Feedback list \<Rightarrow> feedback_goroutine \<Rightarrow> bool" where
  "fg_seen seen fs s \<longleftrightarrow> fs = seen @ fgChannel s \<and> fgLatest s = last (no_feedback # seen) \<and>
     set (fgSent s) \<subseteq> insert no_feedback (set seen) \<and>
     (seen \<noteq> [] \<longrightarrow> fgSent s \<noteq> [] \<and> last (fgSent s) = last seen) \<and>
     (sorted (map FlushLSN fs) \<longrightarrow> sorted (map FlushLSN (fgSent s))) \<and>
     (fgDone s \<longrightarrow> fgClosed s \<and> fgChannel s = [])"

lemma sorted_map_snoc: "sorted (map f (xs @ [x])) \<longleftrightarrow> sorted (map f xs) \<and> (\<forall>y \<in> set xs. f y \<le> f x)"
  by (auto simp: sorted_append)

lemma no_feedback_least [simp]: "FlushLSN no_feedback \<le> p"
  by (simp add: no_feedback_def)

lemma sorted_map_last: "sorted (map FlushLSN seen) \<Longrightarrow> y \<in> set seen \<Longrightarrow> FlushLSN y \<le> FlushLSN (last (no_feedback # seen))"
  by (cases seen rule: rev_cases) (auto simp: sorted_append)

lemma fg_sent_sorted:
  assumes "fg_seen seen fs s" and "sorted (map FlushLSN fs)" and "f = last (no_feedback # seen) \<or> fs = seen @ f # rest"
  shows "sorted (map FlushLSN (fgSent s @ [f]))"
  unfolding sorted_map_snoc
proof (intro conjI ballI)
  show "sorted (map FlushLSN (fgSent s))" using assms(1,2) by (simp add: fg_seen_def)
  fix y assume "y \<in> set (fgSent s)"
  then have y: "y = no_feedback \<or> y \<in> set seen" using assms(1) by (auto simp: fg_seen_def)
  have "sorted (map FlushLSN seen)" using assms(1,2) by (simp add: fg_seen_def sorted_append)
  from sorted_map_last [OF this] y assms(2,3) show "FlushLSN y \<le> FlushLSN f"
    by (auto simp: sorted_append simp del: last.simps)
qed

lemma fg_seen_step:
  assumes "fg_step l s s'" and "fg_seen seen fs s"
  shows "\<exists>seen'. fg_seen seen' (case l of None \<Rightarrow> fs | Some f \<Rightarrow> fs @ [f]) s'"
  using assms
proof (induction rule: fg_step.induct)
  case (produce s f)
  then have "fg_seen seen (fs @ [f]) (s\<lparr>fgChannel := fgChannel s @ [f]\<rparr>)" by (auto simp: fg_seen_def sorted_append)
  then show ?case by auto
next
  case (feedback s f rest)
  then have "fs = seen @ f # rest" by (simp add: fg_seen_def)
  with fg_sent_sorted [OF feedback(3)] feedback
  have "fg_seen (seen @ [f]) fs (sendLatest (s\<lparr>fgChannel := rest, fgLatest := f\<rparr>))" by (auto simp: fg_seen_def sendLatest_def)
  then show ?case by auto
next
  case (woken s)
  then have "fgLatest s = last (no_feedback # seen)" by (simp add: fg_seen_def)
  with fg_sent_sorted [OF woken(3), of "fgLatest s"] woken
  have "fg_seen seen fs (sendLatest (s\<lparr>fgWake := False\<rparr>))" by (auto simp: fg_seen_def sendLatest_def)
  then show ?case by auto
next
  case (ask s)
  then have "fg_seen seen fs (fg_Send s)" by (simp add: fg_seen_def fg_Send_def)
  then show ?case by auto
next
  case (close_channel s)
  then have "fg_seen seen fs (s\<lparr>fgClosed := True\<rparr>)" by (simp add: fg_seen_def)
  then show ?case by auto
next
  case (ended s)
  then have "fg_seen seen fs (s\<lparr>fgDone := True\<rparr>)" by (simp add: fg_seen_def)
  then show ?case by auto
qed

lemma fg_seen_run: "fg_run fs s \<Longrightarrow> \<exists>seen. fg_seen seen fs s"
proof (induction rule: fg_run.induct)
  case start
  have "fg_seen [] [] newFeedbackSender" by (simp add: fg_seen_def newFeedbackSender_def)
  then show ?case by blast
qed (blast dest: fg_seen_step)

section \<open>Properties\<close>

text \<open>
  C31: the background receiver of the sender neither loses, repeats, reorders nor garbles messages.  In every interleaving of
  the receiving goroutine, which reads into one reused buffer, with ReceiveAvailable and cancellation: the batches that were
  returned, then what the running call has collected, then the queue, then the message that is read and not queued, then what
  is still on the wire are the stream of PostgreSQL, and the value of the queue does not depend on what the
  buffer holds now; no batch is empty; the WAL in the batches is an initial part of the WAL in the stream.  An error other than a
  cancellation is returned only when the goroutine has ended with that error and every message it had queued was handed
  out, so the fallback error is never used.
\<close>

theorem receiver_keeps_the_stream:
  assumes "mr_step\<^sup>*\<^sup>* (newMessageReceiver ms buf) r"
  shows "ms = concat (mrBatches r) @ collected r @ map (queued_value b) (mrCh r) @ unpublished r @ mrWire r \<and>
    [] \<notin> set (mrBatches r) \<and> length (mrCh r) \<le> 500 \<and>
    (\<exists>more. stream_data L ms = stream_data L (concat (mrBatches r)) @ more) \<and>
    (\<forall>e. mrReturned r = Some e \<longrightarrow> e \<noteq> Canceled \<longrightarrow>
      mrDone r \<and> mrErr r = Some e \<and> ms = concat (mrBatches r) @ unpublished r @ mrWire r)"
proof (intro conjI allI impI)
  note inv = mr_inv_reachable [OF assms, unfolded mr_inv_def]
  show eq: "ms = concat (mrBatches r) @ collected r @ map (queued_value b) (mrCh r) @ unpublished r @ mrWire r"
    using inv owned_values [of "mrCh r" b "mrBuffer r"] by simp
  show "[] \<notin> set (mrBatches r)" using inv by simp
  show "length (mrCh r) \<le> 500" using inv by (simp add: receiver_capacity_def)
  show "\<exists>more. stream_data L ms = stream_data L (concat (mrBatches r)) @ more"
    using stream_data_prefix [of L "concat (mrBatches r)"] eq by metis
  fix e assume e: "mrReturned r = Some e" "e \<noteq> Canceled"
  then show err: "mrErr r = Some e" and "mrDone r" using inv by auto
  show "ms = concat (mrBatches r) @ unpublished r @ mrWire r" using inv e by (auto simp: collected_def)
qed

text \<open>Two messages are read into the same buffer before the first one is taken, and then the connection breaks.\<close>

lemma receiver_example:
  "mr_step\<^sup>*\<^sup>* (newMessageReceiver [CopyData [1, 2], CopyData [7, 8]] [])
     \<lparr>mrWire = [], mrBuffer = [7, 8], mrPending = None, mrCh = [], mrDone = True, mrErr = Some EOF, mrCancelled = False,
       mrCollecting = None, mrBatches = [[CopyData [1, 2], CopyData [7, 8]]], mrReturned = Some EOF\<rparr>"
  apply (simp add: newMessageReceiver_def)
  apply (rule converse_rtranclp_into_rtranclp, rule mr_step.receive, simp, simp, simp, simp, simp)
  apply (rule converse_rtranclp_into_rtranclp, rule mr_step.publish, simp, simp, simp add: receiver_capacity_def, simp)
  apply (rule converse_rtranclp_into_rtranclp, rule mr_step.receive, simp, simp, simp, simp, simp)
  apply (rule converse_rtranclp_into_rtranclp, rule mr_step.publish, simp, simp, simp add: receiver_capacity_def, simp)
  apply (rule converse_rtranclp_into_rtranclp, rule mr_step.first_message, simp, simp, simp)
  apply (rule converse_rtranclp_into_rtranclp, rule mr_step.next_message, simp, simp, simp)
  apply (rule converse_rtranclp_into_rtranclp, rule mr_step.return_batch, simp, simp, simp)
  apply (rule converse_rtranclp_into_rtranclp, rule mr_step.receive_error [where e = EOF], simp, simp, simp)
  apply (rule converse_rtranclp_into_rtranclp, rule mr_step.return_closed, simp, simp, simp, simp add: closedErr_def)
  done

theorem receiver_keeps_the_stream_witness:
  "\<exists>r. mr_step\<^sup>*\<^sup>* (newMessageReceiver [CopyData [1, 2], CopyData [7, 8]] []) r \<and> mrReturned r = Some EOF \<and>
     EOF \<noteq> Canceled \<and> [CopyData [1, 2], CopyData [7, 8]] = concat (mrBatches r) @ unpublished r @ mrWire r"
proof (intro exI conjI)
  show ne: "EOF \<noteq> Canceled" by (simp add: Canceled_def)
  show "mr_step\<^sup>*\<^sup>* (newMessageReceiver [CopyData [1, 2], CopyData [7, 8]] [])
     \<lparr>mrWire = [], mrBuffer = [7, 8], mrPending = None, mrCh = [], mrDone = True, mrErr = Some EOF, mrCancelled = False,
       mrCollecting = None, mrBatches = [[CopyData [1, 2], CopyData [7, 8]]], mrReturned = Some EOF\<rparr>" (is "mr_step\<^sup>*\<^sup>* _ ?r")
    by (rule receiver_example)
  show "mrReturned ?r = Some EOF" by simp
  from receiver_keeps_the_stream [OF receiver_example] ne
  show "[CopyData [1, 2], CopyData [7, 8]] = concat (mrBatches ?r) @ unpublished ?r @ mrWire ?r" by simp
qed


definition example_feedback :: Feedback where
  "example_feedback = \<lparr>FlushLSN = 5, WriteLSN = 5, ReplayLSN = 5\<rparr>"

lemma feedback_example:
  "fg_run [example_feedback] \<lparr>fgChannel = [], fgClosed = True, fgLatest = example_feedback, fgWake = False, fgDone = True,
     fgSent = [no_feedback, example_feedback]\<rparr>"
proof -
  note run = fg_run.step [where l = None, simplified]
  note defs = newFeedbackSender_def fg_Send_def sendLatest_def
  from run [OF run [OF fg_run.start fg_step.ask] fg_step.woken]
  have "fg_run [] (newFeedbackSender\<lparr>fgSent := [no_feedback]\<rparr>)" by (simp add: defs)
  from fg_run.step [OF this fg_step.produce [of _ example_feedback]]
  have "fg_run [example_feedback] (newFeedbackSender\<lparr>fgSent := [no_feedback], fgChannel := [example_feedback]\<rparr>)" by (simp add: defs)
  from run [OF run [OF this fg_step.feedback] fg_step.close_channel]
  have "fg_run [example_feedback] (newFeedbackSender\<lparr>fgLatest := example_feedback, fgClosed := True, fgSent := [no_feedback, example_feedback]\<rparr>)"
    by (simp add: defs)
  from run [OF this fg_step.ended] show ?thesis by (simp add: defs)
qed


end
