(* ===== verification/Snapshot_Metrics.thy ===== *)
theory Snapshot_Metrics
  imports Backup_Retention "HOL-Library.AList"
begin

text \<open>
  The collector of snapshot metrics that runs beside the Kopia server of a tier (core/internal/server/kopiaserver/metrics.go):
  statistics per source of snapshots, the retention window per cluster, the cache that the gauges read, and the loop that refreshes
  it.  The Kopia command line is the record \<open>kopia_client\<close> of \<open>Backup_Retention\<close>; the directory summary in the root entry of a
  manifest, which that theory leaves out, is the argument \<open>dirSummary\<close>.  A Go map is an association list, and the order in which it
  is traversed an argument with the contract \<open>map_order\<close>.  Logging is not modelled.
\<close>

section \<open>Statistics per source\<close>

record DirectorySummary =
  TotalFileSize :: int
  TotalFileCount :: int
  TotalDirCount :: int

record snapshotStats =
  oldestSnapshotTimestamp :: int
  latestSnapshotTimestamp :: int
  snapshotCount :: int
  snapshotSize :: int
  latestSnapshotFilesCount :: int
  latestSnapshotDirCount :: int

definition no_stats :: snapshotStats where
  "no_stats = \<lparr>oldestSnapshotTimestamp = 0, latestSnapshotTimestamp = 0, snapshotCount = 0, snapshotSize = 0,
     latestSnapshotFilesCount = 0, latestSnapshotDirCount = 0\<rparr>"

definition ss_latest :: "int \<Rightarrow> DirectorySummary \<Rightarrow> snapshotStats \<Rightarrow> snapshotStats" where
  "ss_latest timestamp ds s = s\<lparr>latestSnapshotTimestamp := timestamp, snapshotSize := TotalFileSize ds,
     latestSnapshotFilesCount := TotalFileCount ds, latestSnapshotDirCount := TotalDirCount ds\<rparr>"

definition ss_update :: "int \<Rightarrow> DirectorySummary \<Rightarrow> snapshotStats \<Rightarrow> snapshotStats" where
  "ss_update timestamp ds s =
     (let s' = (if snapshotCount s = 0 then ss_latest timestamp ds (s\<lparr>oldestSnapshotTimestamp := timestamp\<rparr>)
                else let s1 = (if timestamp < oldestSnapshotTimestamp s then s\<lparr>oldestSnapshotTimestamp := timestamp\<rparr> else s)
                  in if timestamp > latestSnapshotTimestamp s1 then ss_latest timestamp ds s1 else s1)
      in s'\<lparr>snapshotCount := snapshotCount s' + 1\<rparr>)"

text \<open>UTCTimestamp.ToTime().Unix(): nanoseconds to whole seconds.\<close>

definition unix_seconds :: "int \<Rightarrow> int" where
  "unix_seconds t = t div 1000000000"

fun snapshot_loop ::
  "(Manifest \<Rightarrow> DirectorySummary option) \<Rightarrow> Manifest list \<Rightarrow> (SourceInfo \<times> snapshotStats) list \<Rightarrow> go_error + (SourceInfo \<times> snapshotStats) list" where
  "snapshot_loop dirSummary [] stats = Inr stats"
| "snapshot_loop dirSummary (s # snapshots) stats =
     (if RootEntry s = None then snapshot_loop dirSummary snapshots stats
      else (case dirSummary s of
              None \<Rightarrow> Inl (Panic ''nil pointer dereference'')
            | Some ds \<Rightarrow>
                let v = (case map_of stats (Source s) of None \<Rightarrow> no_stats | Some v \<Rightarrow> v)
                in snapshot_loop dirSummary snapshots (AList.update (Source s) (ss_update (unix_seconds (EndTime s)) ds v) stats)))"

record snapshotCacheEntry =
  seSource :: string
  seStats :: snapshotStats

definition collectSnapshotMetrics ::
  "((SourceInfo \<times> snapshotStats) list \<Rightarrow> (SourceInfo \<times> snapshotStats) list) \<Rightarrow> (Manifest \<Rightarrow> DirectorySummary option) \<Rightarrow>
   Manifest list \<Rightarrow> go_error + snapshotCacheEntry list" where
  "collectSnapshotMetrics order dirSummary snapshots =
     (case snapshot_loop dirSummary snapshots [] of
        Inl e \<Rightarrow> Inl e
      | Inr stats \<Rightarrow> Inr (map (\<lambda>(origin, stat). \<lparr>seSource = SourceInfo_String origin, seStats = stat\<rparr>) (order stats)))"

section \<open>The retention window per cluster\<close>

record backupGroup =
  bgCount :: int
  bgLatestID :: string
  bgLatest :: int
  bgOldestID :: string
  bgOldest :: int

definition new_group :: "Manifest \<Rightarrow> backupGroup" where
  "new_group s = \<lparr>bgCount = 1, bgLatestID = ID s, bgLatest = EndTime s, bgOldestID = ID s, bgOldest = EndTime s\<rparr>"

definition grow_group :: "Manifest \<Rightarrow> backupGroup \<Rightarrow> backupGroup" where
  "grow_group s g =
     (let g1 = g\<lparr>bgCount := bgCount g + 1\<rparr>;
          g2 = (if EndTime s > bgLatest g1 then g1\<lparr>bgLatest := EndTime s, bgLatestID := ID s\<rparr> else g1)
      in if EndTime s < bgOldest g2 then g2\<lparr>bgOldest := EndTime s, bgOldestID := ID s\<rparr> else g2)"

fun buildBackupGroups :: "Manifest list \<Rightarrow> (SourceInfo \<times> backupGroup) list \<Rightarrow> (SourceInfo \<times> backupGroup) list" where
  "buildBackupGroups [] groups = groups"
| "buildBackupGroups (s # snapshots) groups =
     buildBackupGroups snapshots (AList.update (Source s)
       (case map_of groups (Source s) of None \<Rightarrow> new_group s | Some g \<Rightarrow> grow_group s g) groups)"

record backupCacheEntry =
  beClusterName :: string
  beCount :: int
  beLatest :: BackupMetadata
  beOldest :: BackupMetadata

definition readBackupMetadata :: "'k kopia_client \<Rightarrow> string \<Rightarrow> 'k \<Rightarrow> (go_error + BackupMetadata) \<times> 'k" where
  "readBackupMetadata K snapshotID k =
     (case RestoreSingleFile K snapshotID ''metadata.json'' k of
        (Inl e, k1) \<Rightarrow> (Inl (Wrap ''restoring backup metadata'' e), k1)
      | (Inr content, k1) \<Rightarrow>
          (case UnmarshalBackup K content of
             Inl e \<Rightarrow> (Inl (Wrap ''decoding backup metadata'' e), k1)
           | Inr m \<Rightarrow> (Inr m, k1)))"

definition buildBackupEntry :: "'k kopia_client \<Rightarrow> backupGroup \<Rightarrow> 'k \<Rightarrow> backupCacheEntry option \<times> 'k" where
  "buildBackupEntry K g k =
     (case readBackupMetadata K (bgLatestID g) k of
        (Inl e, k1) \<Rightarrow> (None, k1)
      | (Inr latest, k1) \<Rightarrow>
          (case (if bgOldestID g \<noteq> bgLatestID g then readBackupMetadata K (bgOldestID g) k1 else (Inr latest, k1)) of
             (Inl e, k2) \<Rightarrow> (None, k2)
           | (Inr oldest, k2) \<Rightarrow>
               (Some \<lparr>beClusterName = bkClusterName latest, beCount = bgCount g, beLatest = latest, beOldest = oldest\<rparr>, k2)))"

fun entry_loop :: "'k kopia_client \<Rightarrow> backupGroup list \<Rightarrow> backupCacheEntry list \<Rightarrow> 'k \<Rightarrow> backupCacheEntry list \<times> 'k" where
  "entry_loop K [] entries k = (entries, k)"
| "entry_loop K (g # gs) entries k =
     (case buildBackupEntry K g k of
        (None, k1) \<Rightarrow> entry_loop K gs entries k1
      | (Some entry, k1) \<Rightarrow> entry_loop K gs (entries @ [entry]) k1)"

definition collectBackupMetrics ::
  "((SourceInfo \<times> backupGroup) list \<Rightarrow> (SourceInfo \<times> backupGroup) list) \<Rightarrow> 'k kopia_client \<Rightarrow> 'k \<Rightarrow> backupCacheEntry list option \<times> 'k" where
  "collectBackupMetrics order K k =
     (case ListSnapshots K [(BackupContentTagName, ''metadata'')] k of
        (Inl e, k1) \<Rightarrow> (None, k1)
      | (Inr snapshots, k1) \<Rightarrow>
          let (entries, k2) = entry_loop K (map snd (order (buildBackupGroups snapshots []))) [] k1 in (Some entries, k2))"

section \<open>The cache, the gauges and the loop\<close>

record metricsCache =
  mcSnapshots :: "snapshotCacheEntry list"
  mcBackups :: "backupCacheEntry list"

record orders =
  oStats :: "(SourceInfo \<times> snapshotStats) list \<Rightarrow> (SourceInfo \<times> snapshotStats) list"
  oGroups :: "(SourceInfo \<times> backupGroup) list \<Rightarrow> (SourceInfo \<times> backupGroup) list"

definition collectMetrics ::
  "orders \<Rightarrow> (Manifest \<Rightarrow> DirectorySummary option) \<Rightarrow> 'k kopia_client \<Rightarrow> metricsCache \<Rightarrow> 'k \<Rightarrow> go_error option \<times> metricsCache \<times> 'k" where
  "collectMetrics ord dirSummary K cache k =
     (case ListSnapshots K [] k of
        (Inl e, k1) \<Rightarrow> (None, cache, k1)
      | (Inr snapshots, k1) \<Rightarrow>
          (case collectSnapshotMetrics (oStats ord) dirSummary snapshots of
             Inl p \<Rightarrow> (Some p, cache, k1)
           | Inr snapshotEntries \<Rightarrow>
               (case collectBackupMetrics (oGroups ord) K k1 of
                  (None, k2) \<Rightarrow> (None, cache\<lparr>mcSnapshots := snapshotEntries\<rparr>, k2)
                | (Some backupEntries, k2) \<Rightarrow> (None, \<lparr>mcSnapshots = snapshotEntries, mcBackups = backupEntries\<rparr>, k2))))"

text \<open>An observation: the instrument, its value and the attributes other than the tier.\<close>

definition observe_snapshot :: "snapshotCacheEntry \<Rightarrow> (string \<times> int \<times> string) list" where
  "observe_snapshot e = (let s = seStats e; src = seSource e in
     [(''TotalSnapshots'', snapshotCount s, src), (''OldestSnapshotTimestamp'', oldestSnapshotTimestamp s, src),
      (''LatestSnapshotTimestamp'', latestSnapshotTimestamp s, src), (''LatestSnapshotSize'', snapshotSize s, src),
      (''LatestSnapshotDirCount'', latestSnapshotDirCount s, src), (''LatestSnapshotFileCount'', latestSnapshotFilesCount s, src)])"

definition observe_backup :: "backupCacheEntry \<Rightarrow> (string \<times> int \<times> string) list" where
  "observe_backup e = (let l = beLatest e; o' = beOldest e; c = beClusterName e in
     [(''Backups'', beCount e, c),
      (''LatestBackupStartTime'', StartedAt l, c), (''LatestBackupEndTime'', StoppedAt l, c),
      (''LatestBackupStartLSN'', sint (StartLSN l), c), (''LatestBackupEndLSN'', sint (EndLSN l), c), (''LatestBackupTimeline'', bkTimeline l, c),
      (''OldestBackupStartTime'', StartedAt o', c), (''OldestBackupEndTime'', StoppedAt o', c),
      (''OldestBackupStartLSN'', sint (StartLSN o'), c), (''OldestBackupEndLSN'', sint (EndLSN o'), c), (''OldestBackupTimeline'', bkTimeline o', c)])"

definition sm_observe :: "metricsCache \<Rightarrow> (string \<times> int \<times> string) list" where
  "sm_observe cache = concat (map observe_snapshot (mcSnapshots cache)) @ concat (map observe_backup (mcBackups cache))"

text \<open>
  What wakes the loop of Start; a finite list of it is a run so far.  \<open>registered\<close> tells whether the callback could be registered: if
  not, the function that Start calls when it ends is nil.
\<close>

datatype collector_event = TickerFired | StopRequested | ContextDone

fun sm_loop ::
  "orders \<Rightarrow> (Manifest \<Rightarrow> DirectorySummary option) \<Rightarrow> 'k kopia_client \<Rightarrow> bool \<Rightarrow> collector_event list \<Rightarrow> metricsCache \<Rightarrow> 'k \<Rightarrow>
   go_error option \<times> metricsCache \<times> 'k" where
  "sm_loop ord dirSummary K registered [] cache k = (None, cache, k)"
| "sm_loop ord dirSummary K registered (TickerFired # events) cache k =
     (case collectMetrics ord dirSummary K cache k of
        (Some p, cache', k') \<Rightarrow> (Some p, cache', k')
      | (None, cache', k') \<Rightarrow> sm_loop ord dirSummary K registered events cache' k')"
| "sm_loop ord dirSummary K registered (_ # events) cache k =
     (if registered then None else Some (Panic ''nil function call''), cache, k)"

definition sm_Start ::
  "orders \<Rightarrow> (Manifest \<Rightarrow> DirectorySummary option) \<Rightarrow> 'k kopia_client \<Rightarrow> bool \<Rightarrow> collector_event list \<Rightarrow> 'k \<Rightarrow>
   go_error option \<times> metricsCache \<times> 'k" where
  "sm_Start ord dirSummary K registered events k =
     (case collectMetrics ord dirSummary K \<lparr>mcSnapshots = [], mcBackups = []\<rparr> k of
        (Some p, cache, k') \<Rightarrow> (Some p, cache, k')
      | (None, cache, k') \<Rightarrow> sm_loop ord dirSummary K registered events cache k')"

section \<open>The statistics of a source\<close>

fun stats_of :: "(int \<times> DirectorySummary) list \<Rightarrow> snapshotStats \<Rightarrow> snapshotStats" where
  "stats_of [] s = s"
| "stats_of ((t, ds) # xs) s = stats_of xs (ss_update t ds s)"

text \<open>The reference: the number of snapshots, the first and the last time, and the first snapshot of the listing with the last time.\<close>

definition stats_spec :: "(int \<times> DirectorySummary) list \<Rightarrow> snapshotStats \<Rightarrow> bool" where
  "stats_spec xs s \<longleftrightarrow> snapshotCount s = int (length xs) \<and> oldestSnapshotTimestamp s = Min (fst ` set xs) \<and>
     latestSnapshotTimestamp s = Max (fst ` set xs) \<and>
     (\<exists>ds. (latestSnapshotTimestamp s, ds) \<in> set xs \<and> snapshotSize s = TotalFileSize ds \<and>
        latestSnapshotFilesCount s = TotalFileCount ds \<and> latestSnapshotDirCount s = TotalDirCount ds)"

lemmas ss_simps = ss_update_def ss_latest_def no_stats_def Let_def

lemma stats_spec_first: "stats_spec [(t, ds)] (ss_update t ds no_stats)"
  by (simp add: stats_spec_def ss_simps)

lemma stats_spec_step:
  assumes "stats_spec xs s" and "xs \<noteq> []"
  shows "stats_spec (xs @ [(t, ds)]) (ss_update t ds s)"
proof -
  define lo hi where "lo = Min (fst ` set xs)" and "hi = Max (fst ` set xs)"
  have new: "Min (fst ` set (xs @ [(t, ds)])) = min t lo" "Max (fst ` set (xs @ [(t, ds)])) = max t hi"
    using assms(2) by (simp_all add: lo_def hi_def)
  have "snapshotCount s \<noteq> 0" using assms by (simp add: stats_spec_def)
  with assms(1) show ?thesis
    unfolding stats_spec_def new unfolding lo_def [symmetric] hi_def [symmetric] by (auto simp: ss_simps min_def max_def)
qed

lemma stats_of_snoc: "stats_of (xs @ [(t, ds)]) s = ss_update t ds (stats_of xs s)"
  by (induction xs s rule: stats_of.induct) simp_all

lemma stats_of_spec: "xs \<noteq> [] \<Longrightarrow> stats_spec xs (stats_of xs no_stats)"
proof (induction xs rule: rev_induct)
  case (snoc x xs)
  obtain t ds where x: "x = (t, ds)" by force
  show ?case
  proof (cases "xs = []")
    case True
    with x stats_spec_first show ?thesis by simp
  next
    case False
    with snoc.IH stats_spec_step show ?thesis by (simp add: x stats_of_snoc)
  qed
qed simp

text \<open>The snapshots of one source that have a root entry, as the collector sees them.\<close>

definition measured :: "(Manifest \<Rightarrow> DirectorySummary option) \<Rightarrow> SourceInfo \<Rightarrow> Manifest list \<Rightarrow> (int \<times> DirectorySummary) list" where
  "measured dirSummary src snapshots = map (\<lambda>s. (unix_seconds (EndTime s), the (dirSummary s)))
     (filter (\<lambda>s. Source s = src \<and> RootEntry s \<noteq> None) snapshots)"

lemma snapshot_loop_stats:
  "snapshot_loop dirSummary snapshots stats = Inr stats' \<Longrightarrow>
   map_of stats' src = (if measured dirSummary src snapshots = [] then map_of stats src
     else Some (stats_of (measured dirSummary src snapshots) (case map_of stats src of None \<Rightarrow> no_stats | Some v \<Rightarrow> v))) \<and>
   (distinct (map fst stats) \<longrightarrow> distinct (map fst stats'))"
proof (induction dirSummary snapshots stats rule: snapshot_loop.induct)
  case (2 dirSummary s snapshots stats)
  then show ?case
    by (auto simp: measured_def update_conv distinct_update Let_def split: if_splits option.splits)
qed (simp add: measured_def)

section \<open>The groups of backups\<close>

definition group_spec :: "Manifest list \<Rightarrow> backupGroup \<Rightarrow> bool" where
  "group_spec ms g \<longleftrightarrow> bgCount g = int (length ms) \<and>
     (\<exists>m \<in> set ms. bgLatestID g = ID m \<and> bgLatest g = EndTime m) \<and> (\<forall>m \<in> set ms. EndTime m \<le> bgLatest g) \<and>
     (\<exists>m \<in> set ms. bgOldestID g = ID m \<and> bgOldest g = EndTime m) \<and> (\<forall>m \<in> set ms. bgOldest g \<le> EndTime m)"

lemma group_spec_first: "group_spec [m] (new_group m)"
  by (simp add: group_spec_def new_group_def)

lemma group_spec_grow: "group_spec ms g \<Longrightarrow> group_spec (ms @ [m]) (grow_group m g)"
  by (auto simp: group_spec_def grow_group_def Let_def)

definition of_source :: "SourceInfo \<Rightarrow> Manifest list \<Rightarrow> Manifest list" where
  "of_source src ms = filter (\<lambda>m. Source m = src) ms"

definition groups_inv :: "Manifest list \<Rightarrow> (SourceInfo \<times> backupGroup) list \<Rightarrow> bool" where
  "groups_inv ms groups \<longleftrightarrow> distinct (map fst groups) \<and>
     (\<forall>src. case map_of groups src of None \<Rightarrow> of_source src ms = [] | Some g \<Rightarrow> group_spec (of_source src ms) g)"

lemma groups_inv_step:
  assumes "groups_inv ms groups"
  shows "groups_inv (ms @ [m]) (AList.update (Source m)
    (case map_of groups (Source m) of None \<Rightarrow> new_group m | Some g \<Rightarrow> grow_group m g) groups)"
proof -
  have "case map_of groups (Source m) of None \<Rightarrow> of_source (Source m) ms = [] | Some g \<Rightarrow> group_spec (of_source (Source m) ms) g"
    using assms unfolding groups_inv_def by blast
  then have "group_spec (of_source (Source m) (ms @ [m])) (case map_of groups (Source m) of None \<Rightarrow> new_group m | Some g \<Rightarrow> grow_group m g)"
    using group_spec_first [of m] group_spec_grow [of "of_source (Source m) ms" _ m] by (auto simp: of_source_def split: option.splits)
  moreover have "of_source src (ms @ [m]) = of_source src ms" if "src \<noteq> Source m" for src using that by (simp add: of_source_def)
  ultimately show ?thesis using assms by (simp add: groups_inv_def update_conv distinct_update cong: option.case_cong)
qed

lemma buildBackupGroups_inv: "groups_inv ms groups \<Longrightarrow> groups_inv (ms @ snapshots) (buildBackupGroups snapshots groups)"
  by (induction snapshots groups arbitrary: ms rule: buildBackupGroups.induct) (use groups_inv_step in fastforce)+

lemma groups_of_snapshots: "groups_inv snapshots (buildBackupGroups snapshots [])"
  using buildBackupGroups_inv [of "[]" "[]" snapshots] by (simp add: groups_inv_def of_source_def)

section \<open>What the gauges show\<close>

lemma snapshot_entries_exact:
  assumes "map_order order" and "collectSnapshotMetrics order dirSummary snapshots = Inr entries"
  shows "(\<forall>e \<in> set entries. \<exists>src. seSource e = SourceInfo_String src \<and> measured dirSummary src snapshots \<noteq> [] \<and>
      stats_spec (measured dirSummary src snapshots) (seStats e)) \<and>
    (\<forall>src. measured dirSummary src snapshots \<noteq> [] \<longrightarrow> (\<exists>e \<in> set entries. seSource e = SourceInfo_String src \<and>
      stats_spec (measured dirSummary src snapshots) (seStats e))) \<and>
    length entries = card {src. measured dirSummary src snapshots \<noteq> []}"
proof -
  obtain stats where stats: "snapshot_loop dirSummary snapshots [] = Inr stats"
    and entries: "entries = map (\<lambda>(origin, stat). \<lparr>seSource = SourceInfo_String origin, seStats = stat\<rparr>) (order stats)"
    using assms(2) by (auto simp: collectSnapshotMetrics_def split: sum.splits)
  have loop: "map_of stats src = (if measured dirSummary src snapshots = [] then None else Some (stats_of (measured dirSummary src snapshots) no_stats))"
    and dist: "distinct (map fst stats)" for src using snapshot_loop_stats [OF stats] by simp_all
  have same: "set (order stats) = set stats" "length (order stats) = length stats"
    using assms(1) by (metis map_order_def mset_eq_setD) (metis assms(1) map_order_def mset_eq_length)
  have in_stats: "(src, v) \<in> set stats \<longleftrightarrow> measured dirSummary src snapshots \<noteq> [] \<and> v = stats_of (measured dirSummary src snapshots) no_stats" for src v
    using loop [of src] map_of_eq_Some_iff [OF dist, of src v] by (auto split: if_splits)
  have "fst ` set stats = {src. measured dirSummary src snapshots \<noteq> []}" using in_stats by force
  then have "length stats = card {src. measured dirSummary src snapshots \<noteq> []}" using dist by (metis distinct_card length_map set_map)
  then have "length entries = card {src. measured dirSummary src snapshots \<noteq> []}" by (simp add: entries same)
  moreover have "e \<in> set entries \<longleftrightarrow> (\<exists>src. measured dirSummary src snapshots \<noteq> [] \<and>
      e = \<lparr>seSource = SourceInfo_String src, seStats = stats_of (measured dirSummary src snapshots) no_stats\<rparr>)" for e
    unfolding entries set_map same using in_stats by force
  ultimately show ?thesis using stats_of_spec by (metis snapshotCacheEntry.select_convs)
qed

definition reads_metadata :: "'k kopia_client \<Rightarrow> string \<Rightarrow> BackupMetadata \<Rightarrow> bool" where
  "reads_metadata K snapshotID m \<longleftrightarrow> (\<exists>k k'. readBackupMetadata K snapshotID k = (Inr m, k'))"

lemma reads_metadataI: "readBackupMetadata K snapshotID k = (Inr m, k') \<Longrightarrow> reads_metadata K snapshotID m"
  unfolding reads_metadata_def by blast

lemma entry_loop_groups:
  "entry_loop K gs acc k = (entries, k') \<Longrightarrow> e \<in> set entries \<Longrightarrow> e \<in> set acc \<or>
   (\<exists>g \<in> set gs. beCount e = bgCount g \<and> reads_metadata K (bgLatestID g) (beLatest e) \<and>
     reads_metadata K (bgOldestID g) (beOldest e) \<and> beClusterName e = bkClusterName (beLatest e))"
proof (induction K gs acc k rule: entry_loop.induct)
  case (2 K g gs acc k)
  show ?case
  proof (cases "buildBackupEntry K g k")
    case (Pair r k1)
    show ?thesis
    proof (cases r)
      case None
      with 2 Pair show ?thesis by auto
    next
      case (Some entry)
      have "beCount entry = bgCount g \<and> reads_metadata K (bgLatestID g) (beLatest entry) \<and>
          reads_metadata K (bgOldestID g) (beOldest entry) \<and> beClusterName entry = bkClusterName (beLatest entry)"
        using Pair Some by (auto simp: buildBackupEntry_def intro: reads_metadataI split: prod.splits sum.splits if_splits)
      then show ?thesis using 2(2) [OF Pair [symmetric] Some] 2(3,4) Pair Some by auto
    qed
  qed
qed auto

text \<open>
  The gauges are exact.  When the listing succeeded and the collector did not panic, the cache has one entry for each source with a measured snapshot
  and no other, so that series of removed snapshots disappear, and its numbers are the count, the first and the last time and the
  sizes of a last snapshot.  Each backup entry counts the metadata snapshots of one source and shows a latest and an oldest one, or, when their
  listing failed, is the one from before.  When the first listing fails, the cache stays as it is.
\<close>

lemma cached_metrics_are_exact:
  assumes "kopia_laws K snaps" and "map_order (oStats ord)" and "map_order (oGroups ord)"
    and "collectMetrics ord dirSummary K cache k = (None, cache', k')"
  shows "cache' = cache \<or>
    (\<forall>e \<in> set (mcSnapshots cache'). \<exists>src. seSource e = SourceInfo_String src \<and> measured dirSummary src (snaps k) \<noteq> [] \<and>
      stats_spec (measured dirSummary src (snaps k)) (seStats e)) \<and>
    (\<forall>src. measured dirSummary src (snaps k) \<noteq> [] \<longrightarrow> (\<exists>e \<in> set (mcSnapshots cache'). seSource e = SourceInfo_String src \<and>
      stats_spec (measured dirSummary src (snaps k)) (seStats e))) \<and>
    length (mcSnapshots cache') = card {src. measured dirSummary src (snaps k) \<noteq> []} \<and>
    (mcBackups cache' = mcBackups cache \<or> (\<forall>e \<in> set (mcBackups cache'). \<exists>src g.
      group_spec (of_source src (filter (has_tags [(BackupContentTagName, ''metadata'')]) (snaps k))) g \<and> beCount e = bgCount g \<and>
      reads_metadata K (bgLatestID g) (beLatest e) \<and>
      reads_metadata K (bgOldestID g) (beOldest e)))"
proof (cases "ListSnapshots K [] k")
  case (Pair r k1)
  show ?thesis
  proof (cases r)
    case (Inl e)
    with Pair assms(4) show ?thesis by (simp add: collectMetrics_def)
  next
    case (Inr ss)
    have ss: "ss = snaps k" "snaps k1 = snaps k"
      using kopia_lawsD(1,2) [OF assms(1), of "[]" k] Pair Inr by (simp_all add: tag_names_def has_tags_def)
    obtain es where es: "collectSnapshotMetrics (oStats ord) dirSummary (snaps k) = Inr es"
      using assms(4) Pair Inr ss(1) by (auto simp: collectMetrics_def split: sum.splits)
    obtain b k2 where b: "collectBackupMetrics (oGroups ord) K k1 = (b, k2)" by force
    have cache': "cache' = (case b of None \<Rightarrow> cache\<lparr>mcSnapshots := es\<rparr> | Some bs \<Rightarrow> \<lparr>mcSnapshots = es, mcBackups = bs\<rparr>)"
      using assms(4) Pair Inr ss(1) es b by (auto simp: collectMetrics_def split: option.splits)
    have "\<exists>src g. group_spec (of_source src (filter (has_tags [(BackupContentTagName, ''metadata'')]) (snaps k))) g \<and> beCount e = bgCount g \<and>
        reads_metadata K (bgLatestID g) (beLatest e) \<and>
        reads_metadata K (bgOldestID g) (beOldest e)" if bs: "b = Some bs" "e \<in> set bs" for bs e
    proof -
      obtain ms k3 where ms: "ListSnapshots K [(BackupContentTagName, ''metadata'')] k1 = (Inr ms, k3)"
        and loop: "entry_loop K (map snd (oGroups ord (buildBackupGroups ms []))) [] k3 = (bs, k2)"
        using b bs(1) by (auto simp: collectBackupMetrics_def split: prod.splits sum.splits)
      have "ms = filter (has_tags [(BackupContentTagName, ''metadata'')]) (snaps k)"
        using kopia_lawsD(2) [OF assms(1) ms] ss(2) by (simp add: tag_names_def BackupContentTagName_def)
      moreover obtain src g where "(src, g) \<in> set (oGroups ord (buildBackupGroups ms []))" and e: "beCount e = bgCount g"
          "reads_metadata K (bgLatestID g) (beLatest e)"
          "reads_metadata K (bgOldestID g) (beOldest e)"
        using entry_loop_groups [OF loop bs(2)] by auto
      moreover from this have "(src, g) \<in> set (buildBackupGroups ms [])" using assms(3) by (metis map_order_def mset_eq_setD)
      with groups_of_snapshots [of ms] have "group_spec (of_source src ms) g"
        unfolding groups_inv_def by (metis (mono_tags, lifting) map_of_eq_Some_iff option.simps(5))
      ultimately show ?thesis by metis
    qed
    then show ?thesis using snapshot_entries_exact [OF assms(2) es] cache' by (cases b) auto
  qed
qed

text \<open>When the callback could not be registered, the end of the collector is a panic.\<close>

lemma unregistered_collector_panics:
  "sm_loop ord dirSummary K False (ContextDone # events) cache k = (Some (Panic ''nil function call''), cache, k)"
  by simp

end
