(* ===== verification/Plugin_Service.thy ===== *)
theory Plugin_Service
  imports Wal_Restore Klio_Config Repo_Keys
begin

text \<open>
  Three services that run around the core: the Restore call of the plugin (core/internal/cnpgi/restore.go), the watcher of
  the configuration files of the sidecar (core/internal/cnpgi/configwatcher.go), and the service of the server that sweeps
  by retention once a minute (core/internal/server/retentionsweeper.go).  Processes, tickers and SHA-256 are arguments; the sweep itself is the one of
  \<open>Backup_Retention\<close>, and repositories are opened as in \<open>Repo_Keys\<close>.
\<close>

section \<open>core/internal/cnpgi/restore.go\<close>

text \<open>
  The part of the Cluster resource that the call reads: the bootstrap section, the recovery section in it, and the
  recovery target in that.
\<close>

record RecoveryTarget =
  rtBackupID :: string
  rtTargetTime :: string

record BootstrapRecovery =
  brSource :: string
  brRecoveryTarget :: "RecoveryTarget option"

type_synonym cluster_bootstrap = "BootstrapRecovery option option"

record 'w restore_env =
  reUnmarshalCluster :: "bytes \<Rightarrow> go_error + cluster_bootstrap"
  reExecutable :: "go_error + string"
  reRun :: "string \<Rightarrow> string list \<Rightarrow> 'w \<Rightarrow> go_error option \<times> 'w"
  reLogPath :: string
  reLogFileName :: string

definition newline :: string where "newline = [CHR 10]"

definition getRestoreWalConfig :: "'w restore_env \<Rightarrow> string" where
  "getRestoreWalConfig R =
     (let restoreCmd = ''/controller/manager wal-restore --log-destination '' @ reLogPath R @ ''/'' @ reLogFileName R @ ''.json %f %p''
      in ''recovery_target_action = promote'' @ newline @ ''restore_command = '' @ [CHR 39] @ restoreCmd @ [CHR 39] @ newline)"

definition restore_arguments :: "string \<Rightarrow> string \<Rightarrow> string \<Rightarrow> string \<Rightarrow> string list" where
  "restore_arguments cfgFile backupID targetTime pgDataPath =
     [''restore'', ''--config'', cfgFile] @
     (if backupID \<noteq> '''' then [''--backup-id'', backupID] else []) @
     (if targetTime \<noteq> '''' then [''--target-time'', targetTime] else []) @ [pgDataPath]"

definition plugin_Restore :: "'w restore_env \<Rightarrow> string \<Rightarrow> bytes \<Rightarrow> 'w \<Rightarrow> (go_error + string) \<times> 'w" where
  "plugin_Restore R pgDataPath clusterDefinition w =
     (case reUnmarshalCluster R clusterDefinition of
        Inl e \<Rightarrow> (Inl (Wrap ''failed to unmarshal cluster definition'' e), w)
      | Inr None \<Rightarrow> (Inl (Panic ''nil pointer dereference''), w)
      | Inr (Some None) \<Rightarrow> (Inl (Panic ''nil pointer dereference''), w)
      | Inr (Some (Some recovery)) \<Rightarrow>
          let cfgFile = path_Join [KlioConfigDir, brSource recovery];
              backupID = (case brRecoveryTarget recovery of None \<Rightarrow> '''' | Some t \<Rightarrow> rtBackupID t);
              targetTime = (case brRecoveryTarget recovery of None \<Rightarrow> '''' | Some t \<Rightarrow> rtTargetTime t)
          in (case reExecutable R of
                Inl e \<Rightarrow> (Inl (Wrap ''failed to determine klio path'' e), w)
              | Inr klioPath \<Rightarrow>
                  (case reRun R klioPath (restore_arguments cfgFile backupID targetTime pgDataPath) w of
                     (Some e, w') \<Rightarrow> (Inl (Wrap ''failed to execute klio restore command'' e), w')
                   | (None, w') \<Rightarrow> (Inr (getRestoreWalConfig R), w'))))"

text \<open>The call succeeds only after the command did, for the backup and the time that the cluster asks for.\<close>

lemma restored_by_the_command:
  assumes "plugin_Restore R pgDataPath clusterDefinition w = (Inr config, w')"
  shows "\<exists>recovery klioPath backupID targetTime. reUnmarshalCluster R clusterDefinition = Inr (Some (Some recovery)) \<and>
    reRun R klioPath (restore_arguments (path_Join [KlioConfigDir, brSource recovery]) backupID targetTime pgDataPath) w = (None, w') \<and>
    (\<forall>t. brRecoveryTarget recovery = Some t \<longrightarrow> backupID = rtBackupID t \<and> targetTime = rtTargetTime t) \<and>
    (brRecoveryTarget recovery = None \<longrightarrow> backupID = '''' \<and> targetTime = '''')"
proof -
  obtain recovery where r: "reUnmarshalCluster R clusterDefinition = Inr (Some (Some recovery))"
    using assms by (auto simp: plugin_Restore_def split: sum.splits option.splits)
  show ?thesis
    using assms unfolding plugin_Restore_def r
    by (cases "brRecoveryTarget recovery") (auto simp: Let_def r split: sum.splits prod.splits option.splits)
qed

text \<open>A cluster without a recovery section is a panic: the fields are read before they are tested.\<close>

lemma restore_without_recovery_panics:
  assumes "reUnmarshalCluster R clusterDefinition \<in> {Inr None, Inr (Some None)}"
  shows "plugin_Restore R pgDataPath clusterDefinition w = (Inl (Panic ''nil pointer dereference''), w)"
  using assms by (auto simp: plugin_Restore_def)

section \<open>core/internal/cnpgi/configwatcher.go\<close>

definition ErrConfigFileChanged :: go_error where
  "ErrConfigFileChanged = Sentinel ''config file changed, restarting''"

text \<open>
  What the watcher sees at one moment: os.Stat tells whether a path is a directory, following links; os.ReadDir gives names in
  order, and os.ReadFile a content.
\<close>

record watched_files =
  wfStat :: "string \<Rightarrow> go_error + bool"
  wfReadDir :: "string \<Rightarrow> go_error + string list"
  wfReadFile :: "string \<Rightarrow> go_error + bytes"

definition hashFile :: "(bytes \<Rightarrow> string) \<Rightarrow> watched_files \<Rightarrow> string \<Rightarrow> go_error + string" where
  "hashFile sha256hex F path =
     (case wfReadFile F path of
        Inl e \<Rightarrow> Inl (Wrap ''while reading file'' e)
      | Inr data \<Rightarrow> Inr (sha256hex data))"

definition str_bytes :: "string \<Rightarrow> bytes" where "str_bytes s = map (\<lambda>c. of_nat (of_char c)) s"

fun hash_entries :: "(bytes \<Rightarrow> string) \<Rightarrow> watched_files \<Rightarrow> string \<Rightarrow> string list \<Rightarrow> bytes \<Rightarrow> go_error + bytes" where
  "hash_entries sha256hex F path [] hashed = Inr hashed"
| "hash_entries sha256hex F path (name # names) hashed =
     (let entryPath = path_Join [path, name] in
      case wfStat F entryPath of
        Inl e \<Rightarrow> Inl (Wrap ''while reading path'' e)
      | Inr True \<Rightarrow> hash_entries sha256hex F path names hashed
      | Inr False \<Rightarrow>
          (case hashFile sha256hex F entryPath of
             Inl e \<Rightarrow> Inl e
           | Inr fileHash \<Rightarrow> hash_entries sha256hex F path names (hashed @ str_bytes name @ str_bytes fileHash)))"

definition hashPath :: "(bytes \<Rightarrow> string) \<Rightarrow> watched_files \<Rightarrow> string \<Rightarrow> go_error + string" where
  "hashPath sha256hex F path =
     (case wfStat F path of
        Inl e \<Rightarrow> Inl (Wrap ''while reading path'' e)
      | Inr False \<Rightarrow> hashFile sha256hex F path
      | Inr True \<Rightarrow>
          (case wfReadDir F path of
             Inl e \<Rightarrow> Inl (Wrap ''while reading directory'' e)
           | Inr names \<Rightarrow>
               (case hash_entries sha256hex F path names [] of
                  Inl e \<Rightarrow> Inl e
                | Inr hashed \<Rightarrow> Inr (sha256hex hashed))))"

text \<open>The files at each tick of the watcher; \<open>None\<close> is the end of the context, and the end of the list a watcher that still runs.\<close>

datatype watch_result = WatcherRuns | WatcherEnds "go_error option"

fun watch_loop :: "(bytes \<Rightarrow> string) \<Rightarrow> string \<Rightarrow> string \<Rightarrow> watched_files option list \<Rightarrow> watch_result" where
  "watch_loop sha256hex path initialHash [] = WatcherRuns"
| "watch_loop sha256hex path initialHash (None # ticks) = WatcherEnds None"
| "watch_loop sha256hex path initialHash (Some F # ticks) =
     (case hashPath sha256hex F path of
        Inl e \<Rightarrow> watch_loop sha256hex path initialHash ticks
      | Inr currentHash \<Rightarrow>
          if currentHash \<noteq> initialHash then WatcherEnds (Some ErrConfigFileChanged)
          else watch_loop sha256hex path initialHash ticks)"

definition NewConfigFileWatcher :: "(bytes \<Rightarrow> string) \<Rightarrow> string \<Rightarrow> watched_files \<Rightarrow> watched_files option list \<Rightarrow> watch_result" where
  "NewConfigFileWatcher sha256hex configPath F ticks =
     (case hashPath sha256hex F configPath of
        Inl e \<Rightarrow> WatcherEnds (Some (Wrap ''while reading initial config'' e))
      | Inr initialHash \<Rightarrow> watch_loop sha256hex configPath initialHash ticks)"

lemma watch_loop_result:
  "watch_loop sha256hex path h ticks =
     (case find (\<lambda>t. case t of None \<Rightarrow> True | Some F \<Rightarrow> (case hashPath sha256hex F path of Inl e \<Rightarrow> False | Inr h' \<Rightarrow> h' \<noteq> h)) ticks of
        None \<Rightarrow> WatcherRuns
      | Some None \<Rightarrow> WatcherEnds None
      | Some (Some F) \<Rightarrow> WatcherEnds (Some ErrConfigFileChanged))"
proof (induction ticks)
  case (Cons t ticks)
  then show ?case by (cases t) (auto split: sum.splits)
qed simp

text \<open>
  The watcher of a file restarts the sidecar at the first tick at which the file can be read and has another content, and at no other
  moment, as long as SHA-256 has no collision between the two.
\<close>

lemma watcher_restarts_on_change:
  assumes "inj sha256hex" and "\<forall>F \<in> set (F0 # ticks). wfStat F path = Inr False" and "wfReadFile F0 path = Inr content"
  shows "NewConfigFileWatcher sha256hex path F0 (map Some ticks) =
    (if \<exists>F \<in> set ticks. \<exists>data. wfReadFile F path = Inr data \<and> data \<noteq> content then WatcherEnds (Some ErrConfigFileChanged) else WatcherRuns)"
  using assms(2)
proof (induction ticks)
  case Nil
  then show ?case using assms(3) by (simp add: NewConfigFileWatcher_def hashPath_def hashFile_def)
next
  case (Cons F ticks)
  then show ?case using assms(3) injD [OF assms(1)]
    by (auto simp: NewConfigFileWatcher_def hashPath_def hashFile_def split: sum.splits)
qed

section \<open>core/internal/server/retentionsweeper.go and core/internal/retention/sweeper.go\<close>

record retentionOptions =
  roTier1KopiaConfig :: string
  roTier1ServerAddress :: string
  roTier2KopiaConfig :: string
  roTier2ServerAddress :: string
  roServerTLSCertFile :: string

text \<open>
  What the service needs: the WAL file system of tier 1 below a path and of tier 2 (tier2.ConnectWAL), and the Kopia client for a configuration
  file and a server address (FromKopiaConfig).
\<close>

record ('k, 'fs) sweeper_env =
  sweTier1WalFS :: "string \<Rightarrow> 'fs afero"
  sweConnectWAL :: "Tier2Config \<Rightarrow> go_error + 'fs afero"
  sweFromKopiaConfig :: "string \<Rightarrow> string \<Rightarrow> string \<Rightarrow> go_error + 'k kopia_client"

definition buildSweeperOptions ::
  "crypto \<Rightarrow> codec \<Rightarrow> ('k, 'fs) sweeper_env \<Rightarrow> ServerConfig \<Rightarrow> string \<Rightarrow> string \<Rightarrow> 'fs \<Rightarrow> 'fs \<Rightarrow>
   go_error + retentionOptions \<times> 'fs connection \<times> 'fs connection option" where
  "buildSweeperOptions cr cd E cfg file1 file2 s1 s2 =
     (case Open cr cd \<lparr>optFS = sweTier1WalFS E (wsWALPath (t1Wal (svTier1 cfg))), optPassword = t1EncryptionKey (svTier1 cfg)\<rparr> s1 of
        Inl e \<Rightarrow> Inl (Wrap ''failed to open tier1 WAL repository'' e)
      | Inr wal1 \<Rightarrow>
          let opts = \<lparr>roTier1KopiaConfig = file1, roTier1ServerAddress = ''https://'' @ bsListenAddress (t1Base (svTier1 cfg)),
                roTier2KopiaConfig = '''', roTier2ServerAddress = '''', roServerTLSCertFile = TLSCert (svTLS cfg)\<rparr>
          in if file2 = '''' then Inr (opts, wal1, None)
             else (case sweConnectWAL E (svTier2 cfg) of
                     Inl e \<Rightarrow> Inl (Wrap ''error while connecting to tier2 WAL storage'' e)
                   | Inr fs2 \<Rightarrow>
                       (case Open cr cd \<lparr>optFS = fs2, optPassword = t2EncryptionKey (svTier2 cfg)\<rparr> s2 of
                          Inl e \<Rightarrow> Inl (Wrap ''failed to open tier2 WAL repository'' e)
                        | Inr wal2 \<Rightarrow>
                            Inr (opts\<lparr>roTier2KopiaConfig := file2,
                                   roTier2ServerAddress := ''https://'' @ t2BaseListenAddress (svTier2 cfg)\<rparr>, wal1, Some wal2))))"

definition NewSweeper ::
  "('k, 'fs) sweeper_env \<Rightarrow> retentionOptions \<times> 'fs connection \<times> 'fs connection option \<Rightarrow> go_error + ('k, 'fs) Sweeper" where
  "NewSweeper E o' =
     (case o' of (opts, wal1, wal2) \<Rightarrow>
        (case sweFromKopiaConfig E (roTier1KopiaConfig opts) (roTier1ServerAddress opts) (roServerTLSCertFile opts) of
           Inl e \<Rightarrow> Inl (Wrap ''while creating tier1 client'' e)
         | Inr c1 \<Rightarrow>
             if roTier2KopiaConfig opts \<noteq> ''''
             then (case sweFromKopiaConfig E (roTier2KopiaConfig opts) (roTier2ServerAddress opts) (roServerTLSCertFile opts) of
                     Inl e \<Rightarrow> Inl (Wrap ''while creating tier2 client'' e)
                   | Inr c2 \<Rightarrow> Inr \<lparr>swTier1 = c1, swTier2 = Some c2, swWal1 = wal1, swWal2 = wal2\<rparr>)
             else Inr \<lparr>swTier1 = c1, swTier2 = None, swWal1 = wal1, swWal2 = wal2\<rparr>))"

text \<open>The sweeps of a service that has seen \<open>n\<close> ticks so far: one at once, and one for each; their errors are only logged.\<close>

fun sweeps :: "sweep_env \<Rightarrow> ('k, 'fs) Sweeper \<Rightarrow> nat \<Rightarrow> ('k, 'fs) sweep_state \<Rightarrow> ('k, 'fs) sweep_state" where
  "sweeps env sw 0 st = snd (Sweep env sw st)"
| "sweeps env sw (Suc n) st = sweeps env sw n (snd (Sweep env sw st))"

definition RetentionSweeper_Serve ::
  "crypto \<Rightarrow> codec \<Rightarrow> ('k, 'fs) sweeper_env \<Rightarrow> sweep_env \<Rightarrow> ServerConfig \<Rightarrow> string \<Rightarrow> string \<Rightarrow> nat \<Rightarrow> ('k, 'fs) sweep_state \<Rightarrow>
   go_error option \<times> ('k, 'fs) sweep_state" where
  "RetentionSweeper_Serve cr cd E env cfg file1 file2 ticks st =
     (case buildSweeperOptions cr cd E cfg file1 file2 (ssWal1 st) (ssWal2 st) of
        Inl e \<Rightarrow> (Some e, st)
      | Inr o' \<Rightarrow>
          (case NewSweeper E o' of
             Inl e \<Rightarrow> (Some (Wrap ''error while creating retention sweeper'' e), st)
           | Inr sw \<Rightarrow> (None, sweeps env sw ticks st)))"

text \<open>The service guards tier 1 with tier 2, and sweeps tier 2, exactly when the server gave it a configuration of tier 2.\<close>

lemma sweeper_tier2:
  assumes "buildSweeperOptions cr cd E cfg file1 file2 s1 s2 = Inr o'" and "NewSweeper E o' = Inr sw"
  shows "(swTier2 sw \<noteq> None \<longleftrightarrow> file2 \<noteq> '''') \<and> (swWal2 sw \<noteq> None \<longleftrightarrow> file2 \<noteq> '''')"
  using assms by (auto simp: buildSweeperOptions_def NewSweeper_def Let_def split: sum.splits if_splits)

lemma sweeper_fails_without_changes:
  "RetentionSweeper_Serve cr cd E env cfg file1 file2 ticks st = (Some e, st') \<Longrightarrow> st' = st"
  by (auto simp: RetentionSweeper_Serve_def split: sum.splits)

end
