(* ===== verification/Wal_Player.thy ===== *)
theory Wal_Player
  imports Wal_Restore "HOL-Library.Multiset"
begin

text \<open>
  The WAL player (core/internal/walplayer and core/cmd/walplayer): it generates a directory of WAL files by repeating a
  template, and sends a directory of WAL files to a Klio server with concurrent workers.  Sending one file is a
  function over the transport of \<open>Send_Wal\<close>; the manager, the workers and the collector of Play are a step relation over
  all interleavings.

  Files are read and written through the record \<open>afero\<close>, which here stands for package os, and \<open>player_os\<close> has what that record
  lacks: the size of a file, the error that ends the reading of a file (EOF when the whole file can be read), and the reader of
  package gzip.  Times in the reports, logging and closing of files that were read are not modelled.
\<close>

section \<open>loopreader.go\<close>

record LoopReader =
  lrBuf :: bytes
  lrPos :: nat

definition NewLoopReader :: "bytes \<Rightarrow> LoopReader" where
  "NewLoopReader template = \<lparr>lrBuf = template, lrPos = 0\<rparr>"

text \<open>The loop of Read: \<open>k\<close> bytes of the destination are still to be filled, \<open>acc\<close> is what was copied into it.  The position is
  always inside the buffer; the guard on it only makes the function total.\<close>

function lr_loop :: "nat \<Rightarrow> LoopReader \<Rightarrow> bytes \<Rightarrow> bytes \<times> LoopReader" where
  "lr_loop k r acc =
     (if k = 0 \<or> length (lrBuf r) \<le> lrPos r then (acc, r)
      else let toCopy = min k (length (lrBuf r) - lrPos r)
        in lr_loop (k - toCopy) (r\<lparr>lrPos := (lrPos r + toCopy) mod length (lrBuf r)\<rparr>) (acc @ take toCopy (drop (lrPos r) (lrBuf r))))"
  by pat_completeness auto
termination
  by (relation "measure fst") auto

declare lr_loop.simps [simp del]

definition lr_Read :: "nat \<Rightarrow> LoopReader \<Rightarrow> (bytes \<times> go_error option) \<times> LoopReader" where
  "lr_Read k r = (if lrBuf r = [] then (([], Some EOF), r) else let (b, r') = lr_loop k r [] in ((b, None), r'))"

section \<open>write.go\<close>

record WALWriter =
  wwReader :: LoopReader
  wwSegmentSize :: uint64
  wwPosition :: uint64

definition safecast_error :: go_error where
  "safecast_error = Sentinel ''conversion issue''"

definition NewWALWriter :: "bytes \<Rightarrow> int \<Rightarrow> go_error + WALWriter" where
  "NewWALWriter template sizeMB =
     (if sizeMB < 0 then Inl (Wrap ''while converting size to uint64'' safecast_error)
      else Inr \<lparr>wwReader = NewLoopReader template, wwSegmentSize = word_of_int sizeMB * 1024 * 1024, wwPosition = 0\<rparr>)"

text \<open>io.CopyN: io.Copy through a limited reader, with a buffer of at most 32 KiB.\<close>

definition copy_buffer :: nat where "copy_buffer = 32 * 1024"

function io_CopyN :: "'fs afero \<Rightarrow> string \<Rightarrow> nat \<Rightarrow> LoopReader \<Rightarrow> 'fs \<Rightarrow> go_error option \<times> LoopReader \<times> 'fs" where
  "io_CopyN A name n r s =
     (if n = 0 then (None, r, s)
      else (case lr_Read (min n copy_buffer) r of
              ((b, Some e), r') \<Rightarrow> (Some e, r', s)
            | ((b, None), r') \<Rightarrow>
                (case FWrite A name b s of
                   (Some e, s') \<Rightarrow> (Some e, r', s')
                 | (None, s') \<Rightarrow> io_CopyN A name (n - min n copy_buffer) r' s')))"
  by pat_completeness auto
termination
  by (relation "measure (\<lambda>(A, name, n, r, s). n)") (auto simp: copy_buffer_def)

declare io_CopyN.simps [simp del]

definition writeWAL :: "'fs afero \<Rightarrow> string \<Rightarrow> WALWriter \<Rightarrow> 'fs \<Rightarrow> go_error option \<times> WALWriter \<times> 'fs" where
  "writeWAL A fileName w s =
     (case OpenTrunc A fileName s of
        (Some e, s1) \<Rightarrow> (Some (Wrap ''error opening file'' e), w, s1)
      | (None, s1) \<Rightarrow>
          if 2 ^ 63 \<le> unat (wwSegmentSize w)
          then (Some (Wrap ''while converting segment size to int64'' safecast_error), w, snd (FClose A fileName s1))
          else (case io_CopyN A fileName (unat (wwSegmentSize w)) (wwReader w) s1 of
                  (e, r, s2) \<Rightarrow> (map_option (Wrap ''error writing to file'') e, w\<lparr>wwReader := r\<rparr>, snd (FClose A fileName s2))))"

fun ToDirectory :: "lsn_math \<Rightarrow> 'fs afero \<Rightarrow> string \<Rightarrow> nat \<Rightarrow> WALWriter \<Rightarrow> 'fs \<Rightarrow> go_error option \<times> WALWriter \<times> 'fs" where
  "ToDirectory lm A dirname 0 w s = (None, w, s)"
| "ToDirectory lm A dirname (Suc k) w s =
     (case WALFileNameAt lm (wwPosition w) 1 (wwSegmentSize w) of
        Inl e \<Rightarrow> (Some (Wrap ''while formatting WAL file name'' e), w, s)
      | Inr name \<Rightarrow>
          (case writeWAL A (path_Join [dirname, name]) w s of
             (Some e, w', s') \<Rightarrow> (Some e, w', s')
           | (None, w', s') \<Rightarrow> ToDirectory lm A dirname k (w'\<lparr>wwPosition := wwPosition w' + wwSegmentSize w'\<rparr>) s'))"

text \<open>The command generate, without the parsing of its flags.\<close>

definition generateCmd :: "lsn_math \<Rightarrow> 'fs afero \<Rightarrow> bytes \<Rightarrow> string list \<Rightarrow> int \<Rightarrow> int \<Rightarrow> 'fs \<Rightarrow> go_error option \<times> 'fs" where
  "generateCmd lm A template args walSizeMB len s =
     (let targetDirectory = (case args of [] \<Rightarrow> ''.'' | d # _ \<Rightarrow> d) in
      case NewWALWriter template walSizeMB of
        Inl e \<Rightarrow> (Some (Wrap ''while creating WAL writer'' e), s)
      | Inr w \<Rightarrow> (case ToDirectory lm A targetDirectory (nat len) w s of
                    (Some e, w', s') \<Rightarrow> (Some (Wrap ''writing to'' e), s')
                  | (None, w', s') \<Rightarrow> (None, s')))"

section \<open>read.go\<close>

record 'fs player_os =
  FileSize :: "string \<Rightarrow> 'fs \<Rightarrow> go_error + int"
  ReadEnd :: "string \<Rightarrow> 'fs \<Rightarrow> go_error"
  Gunzip :: "bytes \<times> go_error \<Rightarrow> go_error + bytes \<times> go_error"

text \<open>A reader is what can still be read from it and the error that comes then; io.ReadFull on it.\<close>

definition stream_ReadFull :: "nat \<Rightarrow> bytes \<times> go_error \<Rightarrow> (bytes \<times> go_error option) \<times> (bytes \<times> go_error)" where
  "stream_ReadFull n src =
     (case src of (rest, e) \<Rightarrow>
        if n \<le> length rest then ((take n rest, None), (drop n rest, e))
        else ((rest, Some (if e = EOF \<and> rest \<noteq> [] then ErrUnexpectedEOF else e)), ([], e)))"

record ReaderSizer =
  rsSize :: int
  rsSource :: "bytes \<times> go_error"

definition NewUncompressedFileReader :: "'fs afero \<Rightarrow> 'fs player_os \<Rightarrow> string \<Rightarrow> 'fs \<Rightarrow> go_error + ReaderSizer" where
  "NewUncompressedFileReader A Os fileName s =
     (case FileSize Os fileName s of
        Inl e \<Rightarrow> Inl (Wrap ''while getting file size'' e)
      | Inr n \<Rightarrow> (case OpenRead A fileName s of
                    Inl e \<Rightarrow> Inl (Wrap ''while opening file'' e)
                  | Inr b \<Rightarrow> Inr \<lparr>rsSize = n, rsSource = (b, ReadEnd Os fileName s)\<rparr>))"

text \<open>binary.LittleEndian.Uint32 on four bytes.\<close>

fun little_endian :: "bytes \<Rightarrow> int" where
  "little_endian [] = 0"
| "little_endian (b # bs) = uint b + 256 * little_endian bs"

text \<open>f.Seek(-4, io.SeekEnd): the offset where the reading goes on.\<close>

definition seek_trailer :: "'fs player_os \<Rightarrow> string \<Rightarrow> 'fs \<Rightarrow> go_error + nat" where
  "seek_trailer Os fileName s =
     (case FileSize Os fileName s of
        Inl e \<Rightarrow> Inl e
      | Inr n \<Rightarrow> if n < 4 then Inl (Sentinel ''invalid argument'') else Inr (nat n - 4))"

definition NewGZIPReaderSizer :: "'fs afero \<Rightarrow> 'fs player_os \<Rightarrow> string \<Rightarrow> 'fs \<Rightarrow> go_error + ReaderSizer" where
  "NewGZIPReaderSizer A Os fileName s =
     (case OpenRead A fileName s of
        Inl e \<Rightarrow> Inl (Wrap ''while opening file'' e)
      | Inr b \<Rightarrow>
          (case seek_trailer Os fileName s of
             Inl e \<Rightarrow> Inl (Wrap ''while seeking file (going to the end)'' e)
           | Inr off \<Rightarrow>
               (case stream_ReadFull 4 (drop off b, ReadEnd Os fileName s) of
                  ((bsize, Some e), _) \<Rightarrow> Inl (Wrap ''while reading size of uncompressed file'' e)
                | ((bsize, None), _) \<Rightarrow>
                    (case Gunzip Os (b, ReadEnd Os fileName s) of
                       Inl e \<Rightarrow> Inl (Wrap ''while reading GZIP stream'' e)
                     | Inr src \<Rightarrow> Inr \<lparr>rsSize = little_endian bsize, rsSource = src\<rparr>))))"

section \<open>player.go\<close>

text \<open>A report; an empty text of the error is \<open>None\<close>.\<close>

record WALUploadReport =
  wrWALFullPath :: string
  wrError :: "go_error option"

record Player =
  plWorkers :: int
  plDirName :: string
  plBlockSize :: int
  plClusterName :: string

text \<open>
  The loop of sendWAL.  With a block of no bytes it would not end: io.ReadFull then reads nothing and returns no error.
\<close>

partial_function (option) send_blocks ::
  "'net grpc_net \<Rightarrow> nat \<Rightarrow> bytes \<times> go_error \<Rightarrow> grpcWALStream \<Rightarrow> 'net \<Rightarrow> (go_error option \<times> 'net) option" where
  "send_blocks N blockSize src g net =
     (case stream_ReadFull blockSize src of
        ((block, rerr), src') \<Rightarrow>
          if rerr \<noteq> None \<and> errors_Is (the rerr) EOF then Some (None, net)
          else if rerr \<noteq> None \<and> \<not> errors_Is (the rerr) ErrUnexpectedEOF
          then Some (map_option (Wrap ''while reading WAL file'') rerr, net)
          else (case SendBlock N block g net of
                  (Some e, g', net') \<Rightarrow> Some (Some (Wrap ''while sending WAL file block'' e), net')
                | (None, g', net') \<Rightarrow> send_blocks N blockSize src' g' net'))"

definition open_wal :: "'fs afero \<Rightarrow> 'fs player_os \<Rightarrow> string \<Rightarrow> 'fs \<Rightarrow> (go_error + ReaderSizer) \<times> string" where
  "open_wal A Os fileName s =
     (if HasSuffix fileName ''.gz''
      then (NewGZIPReaderSizer A Os fileName s, TrimSuffix fileName (path_Ext fileName))
      else (NewUncompressedFileReader A Os fileName s, fileName))"

definition pl_sendWAL ::
  "'net grpc_net \<Rightarrow> 'fs afero \<Rightarrow> 'fs player_os \<Rightarrow> Player \<Rightarrow> string \<Rightarrow> 'fs \<Rightarrow> 'net \<Rightarrow> (WALUploadReport \<times> 'net) option" where
  "pl_sendWAL N A Os p fileName s net =
     (let report = (\<lambda>e. \<lparr>wrWALFullPath = fileName, wrError = e\<rparr>) in
      case open_wal A Os fileName s of
        (Inl e, _) \<Rightarrow> Some (report (Some e), net)
      | (Inr f, name) \<Rightarrow>
          if rsSize f < 0 then Some (report (Some (Wrap ''while converting file size'' safecast_error)), net)
          else (case StoreWALStreaming N (plClusterName p) (path_Base name) (word_of_int (rsSize f)) False 0 net of
                  (Inl e, net1) \<Rightarrow> Some (report (Some (Wrap ''while starting WAL file streaming'' e)), net1)
                | (Inr g, net1) \<Rightarrow>
                    if plBlockSize p < 0 then Some (report (Some (Panic ''makeslice: len out of range'')), net1)
                    else (case send_blocks N (nat (plBlockSize p)) (rsSource f) g net1 of
                            None \<Rightarrow> None
                          | Some (err, net2) \<Rightarrow>
                              (case gs_Close N net2 of
                                 ((Some e, _), net3) \<Rightarrow> Some (report (Some (Wrap ''while closing WAL stream'' e)), net3)
                               | ((None, _), net3) \<Rightarrow> Some (report err, net3)))))"

text \<open>
  Play.  The queue and the channel of results have no buffer: a task goes from the manager to a worker in one step, and a
  report from a worker to the collector.  The queue is closed when the manager is gone.  A worker that is gone remembers
  whether it could not connect.
\<close>

datatype manager_state = Choosing | Handing string | ManagerGone

datatype worker_state = Connecting | Idle | Working string | Reporting WALUploadReport | WorkerGone bool

record play_state =
  psTodo :: "string list"
  psManager :: manager_state
  psWorkers :: "worker_state list"
  psClosed :: bool
  psCollecting :: bool
  psResults :: "WALUploadReport list"
  psCancelled :: bool

definition play_start :: "'fs afero \<Rightarrow> Player \<Rightarrow> 'fs \<Rightarrow> play_state" where
  "play_start A p s =
     (let initial = \<lparr>psTodo = [], psManager = ManagerGone, psWorkers = replicate (nat (plWorkers p)) Connecting, psClosed = False,
            psCollecting = True, psResults = [], psCancelled = False\<rparr> in
      case ReadDir A (plDirName p) s of
        Inl e \<Rightarrow> initial
      | Inr entries \<Rightarrow> initial\<lparr>psTodo := map (\<lambda>(n, isDir). path_Join [plDirName p, n]) entries, psManager := Choosing\<rparr>)"

inductive play_step :: "play_state \<Rightarrow> play_state \<Rightarrow> bool" where
  choose: "\<lbrakk>psManager s = Choosing; psTodo s = t # ts; \<not> psCancelled s\<rbrakk> \<Longrightarrow>
     play_step s (s\<lparr>psManager := Handing t, psTodo := ts\<rparr>)"
| manager_cancelled: "\<lbrakk>psManager s = Choosing; psTodo s \<noteq> []; psCancelled s\<rbrakk> \<Longrightarrow> play_step s (s\<lparr>psManager := ManagerGone\<rparr>)"
| manager_end: "\<lbrakk>psManager s = Choosing; psTodo s = []\<rbrakk> \<Longrightarrow> play_step s (s\<lparr>psManager := ManagerGone\<rparr>)"
| connect: "\<lbrakk>i < length (psWorkers s); psWorkers s ! i = Connecting\<rbrakk> \<Longrightarrow> play_step s (s\<lparr>psWorkers := (psWorkers s)[i := Idle]\<rparr>)"
| connect_failed: "\<lbrakk>i < length (psWorkers s); psWorkers s ! i = Connecting\<rbrakk> \<Longrightarrow>
     play_step s (s\<lparr>psWorkers := (psWorkers s)[i := WorkerGone True]\<rparr>)"
| take_task: "\<lbrakk>i < length (psWorkers s); psWorkers s ! i = Idle; psManager s = Handing t\<rbrakk> \<Longrightarrow>
     play_step s (s\<lparr>psWorkers := (psWorkers s)[i := Working t], psManager := Choosing\<rparr>)"
| queue_closed: "\<lbrakk>i < length (psWorkers s); psWorkers s ! i = Idle; psManager s = ManagerGone\<rbrakk> \<Longrightarrow>
     play_step s (s\<lparr>psWorkers := (psWorkers s)[i := WorkerGone False]\<rparr>)"
| worker_cancelled: "\<lbrakk>i < length (psWorkers s); psWorkers s ! i = Idle; psCancelled s\<rbrakk> \<Longrightarrow>
     play_step s (s\<lparr>psWorkers := (psWorkers s)[i := WorkerGone False]\<rparr>)"
| send_wal: "\<lbrakk>i < length (psWorkers s); psWorkers s ! i = Working t; wrWALFullPath r = t\<rbrakk> \<Longrightarrow>
     play_step s (s\<lparr>psWorkers := (psWorkers s)[i := Reporting r]\<rparr>)"
| report: "\<lbrakk>i < length (psWorkers s); psWorkers s ! i = Reporting r; psCollecting s\<rbrakk> \<Longrightarrow>
     play_step s (s\<lparr>psWorkers := (psWorkers s)[i := Idle], psResults := psResults s @ [r]\<rparr>)"
| collector_cancelled: "\<lbrakk>psCollecting s; psCancelled s\<rbrakk> \<Longrightarrow> play_step s (s\<lparr>psCollecting := False\<rparr>)"
| close_results: "\<lbrakk>\<forall>w \<in> set (psWorkers s). \<exists>b. w = WorkerGone b; \<not> psClosed s\<rbrakk> \<Longrightarrow> play_step s (s\<lparr>psClosed := True\<rparr>)"
| collector_end: "\<lbrakk>psCollecting s; psClosed s\<rbrakk> \<Longrightarrow> play_step s (s\<lparr>psCollecting := False\<rparr>)"

text \<open>What may happen at any moment besides: the context is cancelled.\<close>

definition play_any :: "play_state \<Rightarrow> play_state \<Rightarrow> bool" where
  "play_any s s' \<longleftrightarrow> play_step s s' \<or> s' = s\<lparr>psCancelled := True\<rparr>"

definition play_returned :: "play_state \<Rightarrow> bool" where
  "play_returned s \<longleftrightarrow> psClosed s \<and> psManager s = ManagerGone \<and> \<not> psCollecting s"

text \<open>The block size and the workers that the command play passes on; the size is given in KiB.\<close>

definition MaxBlockSizeKB :: int where "MaxBlockSizeKB = 8192"

definition playCmd_player :: "string \<Rightarrow> int \<Rightarrow> int \<Rightarrow> string \<Rightarrow> go_error + Player" where
  "playCmd_player targetDirectory workers blockSize cluster =
     (if MaxBlockSizeKB < blockSize then Inl (Sentinel ''block size too large'')
      else Inr \<lparr>plWorkers = workers, plDirName = targetDirectory, plBlockSize = blockSize * 1024, plClusterName = cluster\<rparr>)"

section \<open>What the loop reader reads\<close>

text \<open>The reference: byte \<open>i\<close> of a repeated template.\<close>

definition repeated :: "bytes \<Rightarrow> nat \<Rightarrow> nat \<Rightarrow> bytes" where
  "repeated template pos n = map (\<lambda>i. template ! (i mod length template)) [pos..<pos + n]"

lemma repeated_append: "repeated t p (a + b) = repeated t p a @ repeated t (p + a) b"
  using upt_add_eq_append [of p "p + a" b] by (simp add: repeated_def add.assoc)

lemma mod_shift: "c \<le> k \<Longrightarrow> ((p + c) mod l + k - c) mod l = (p + k) mod (l :: nat)"
proof -
  assume "c \<le> k"
  then have "((p + c) mod l + k - c) mod l = ((p + c) mod l + (k - c)) mod l" "p + c + (k - c) = p + k" by simp_all
  then show ?thesis by (metis mod_add_left_eq)
qed

lemma repeated_mod: "t \<noteq> [] \<Longrightarrow> repeated t (p mod length t) n = repeated t p n"
  unfolding repeated_def by (rule nth_equalityI) (simp_all add: mod_add_left_eq)

lemma repeated_inside: "p + n \<le> length t \<Longrightarrow> repeated t p n = take n (drop p t)"
  by (rule nth_equalityI) (auto simp: repeated_def)

lemma repeated_length [simp]: "length (repeated t p n) = n"
  by (simp add: repeated_def)

lemma lr_loop_repeated:
  assumes "lrPos r < length (lrBuf r)"
  shows "lr_loop k r acc = (acc @ repeated (lrBuf r) (lrPos r) k, r\<lparr>lrPos := (lrPos r + k) mod length (lrBuf r)\<rparr>)"
  using assms
proof (induction k r acc rule: lr_loop.induct)
  case (1 k r acc)
  show ?case
  proof (cases "k = 0")
    case True
    with 1(2) show ?thesis by (simp add: lr_loop.simps [of 0] repeated_def)
  next
    case False
    define c where "c = min k (length (lrBuf r) - lrPos r)"
    let ?r = "r\<lparr>lrPos := (lrPos r + c) mod length (lrBuf r)\<rparr>"
    have ne: "lrBuf r \<noteq> []" and go: "\<not> (k = 0 \<or> length (lrBuf r) \<le> lrPos r)" using 1(2) False by auto
    have c: "take c (drop (lrPos r) (lrBuf r)) = repeated (lrBuf r) (lrPos r) c" "c + (k - c) = k" "c \<le> k"
      using 1(2) by (auto simp: c_def repeated_inside)
    have "lr_loop (k - c) ?r (acc @ take c (drop (lrPos r) (lrBuf r))) =
        ((acc @ take c (drop (lrPos r) (lrBuf r))) @ repeated (lrBuf ?r) (lrPos ?r) (k - c), ?r\<lparr>lrPos := (lrPos ?r + (k - c)) mod length (lrBuf ?r)\<rparr>)"
      using 1(1) [OF go c_def] ne by simp
    moreover have "lr_loop k r acc = lr_loop (k - c) ?r (acc @ take c (drop (lrPos r) (lrBuf r)))"
      using go by (subst lr_loop.simps) (simp add: c_def Let_def)
    ultimately show ?thesis
      using c repeated_mod [OF ne, of "lrPos r + c" "k - c"] repeated_append [of "lrBuf r" "lrPos r" c "k - c"]
      by (simp add: mod_shift)
  qed
qed

lemma lr_Read_repeated:
  assumes "lrPos r < length (lrBuf r)"
  shows "lr_Read k r = ((repeated (lrBuf r) (lrPos r) k, None), r\<lparr>lrPos := (lrPos r + k) mod length (lrBuf r)\<rparr>)"
  using assms by (auto simp: lr_Read_def lr_loop_repeated)

lemma fs_writes:
  assumes "fs_laws A files"
  shows "OpenTrunc A p s = (None, s') \<Longrightarrow> files s' p = Some [] \<and> (\<forall>q. q \<noteq> p \<longrightarrow> files s' q = files s q)"
    and "FWrite A p b s = (None, s') \<Longrightarrow> files s p = Some old \<Longrightarrow> files s' p = Some (old @ b) \<and> (\<forall>q. q \<noteq> p \<longrightarrow> files s' q = files s q)"
    and "files (snd (FClose A p s)) = files s"
proof -
  show "files s' p = Some [] \<and> (\<forall>q. q \<noteq> p \<longrightarrow> files s' q = files s q)" if "OpenTrunc A p s = (None, s')"
    using assms that unfolding fs_laws_def fs_frame_def by (metis fst_conv snd_conv singletonD)
  show "files s' p = Some (old @ b) \<and> (\<forall>q. q \<noteq> p \<longrightarrow> files s' q = files s q)" if "FWrite A p b s = (None, s')" "files s p = Some old"
    using assms that unfolding fs_laws_def fs_frame_def by (metis fst_conv snd_conv singletonD)
  show "files (snd (FClose A p s)) = files s"
    using assms unfolding fs_laws_def fs_frame_def by (intro ext) (metis empty_iff)
qed

lemma io_CopyN_repeated:
  assumes "fs_laws A files" and "lrPos r < length (lrBuf r)" and "files s name = Some old"
    and "io_CopyN A name n r s = (None, r', s')"
  shows "files s' name = Some (old @ repeated (lrBuf r) (lrPos r) n) \<and> (\<forall>q. q \<noteq> name \<longrightarrow> files s' q = files s q) \<and>
    r' = r\<lparr>lrPos := (lrPos r + n) mod length (lrBuf r)\<rparr>"
  using assms(2-4)
proof (induction n arbitrary: r s old rule: less_induct)
  case (less n)
  show ?case
  proof (cases "n = 0")
    case True
    with less.prems show ?thesis by (simp add: io_CopyN.simps [of A name 0] repeated_def)
  next
    case False
    define c where "c = min n copy_buffer"
    let ?r = "r\<lparr>lrPos := (lrPos r + c) mod length (lrBuf r)\<rparr>"
    have c: "0 < c" "c \<le> n" using False by (auto simp: c_def copy_buffer_def)
    obtain s1 where w: "FWrite A name (repeated (lrBuf r) (lrPos r) c) s = (None, s1)"
      and rec: "io_CopyN A name (n - c) ?r s1 = (None, r', s')"
      using less.prems(3) False lr_Read_repeated [OF less.prems(1), of c]
      by (subst (asm) io_CopyN.simps) (auto simp: c_def [symmetric] split: prod.splits option.splits)
    note f = fs_writes(2) [OF assms(1) w less.prems(2)]
    have ne: "lrBuf r \<noteq> []" using less.prems(1) by auto
    then have "lrPos ?r < length (lrBuf ?r)" by simp
    from less.IH [OF _ this conjunct1 [OF f] rec] c have
      IH: "files s' name = Some ((old @ repeated (lrBuf r) (lrPos r) c) @ repeated (lrBuf r) ((lrPos r + c) mod length (lrBuf r)) (n - c))"
        "\<forall>q. q \<noteq> name \<longrightarrow> files s' q = files s1 q" "r' = ?r\<lparr>lrPos := (lrPos ?r + (n - c)) mod length (lrBuf r)\<rparr>" by auto
    show ?thesis
      using IH f c repeated_mod [OF ne, of "lrPos r + c" "n - c"] repeated_append [of "lrBuf r" "lrPos r" c "n - c"]
      by (simp add: mod_shift)
  qed
qed

text \<open>The writer after \<open>i\<close> segments of \<open>m\<close> bytes.\<close>

definition ww_at :: "bytes \<Rightarrow> nat \<Rightarrow> nat \<Rightarrow> WALWriter \<Rightarrow> bool" where
  "ww_at t m i w \<longleftrightarrow> wwSegmentSize w = of_nat m \<and> wwPosition w = of_nat (i * m) \<and> lrBuf (wwReader w) = t \<and>
     lrPos (wwReader w) = i * m mod length t"

lemma writeWAL_repeated:
  assumes "fs_laws A files" and "t \<noteq> []" and "ww_at t m i w" and "m < 2 ^ 64" and "writeWAL A name w s = (None, w', s')"
  shows "files s' name = Some (repeated t (i * m) m) \<and> (\<forall>q. q \<noteq> name \<longrightarrow> files s' q = files s q) \<and>
    ww_at t m (Suc i) (w'\<lparr>wwPosition := wwPosition w' + wwSegmentSize w'\<rparr>)"
proof -
  have seg: "unat (wwSegmentSize w) = m" using assms(3,4) by (simp add: ww_at_def unat_of_nat take_bit_eq_mod)
  obtain s1 r s2 where run: "OpenTrunc A name s = (None, s1)" "io_CopyN A name m (wwReader w) s1 = (None, r, s2)"
    "s' = snd (FClose A name s2)" "w' = w\<lparr>wwReader := r\<rparr>"
    using assms(5) by (auto simp: writeWAL_def seg split: prod.splits option.splits if_splits)
  note f = fs_writes(1) [OF assms(1) run(1)]
  have pos: "lrPos (wwReader w) < length (lrBuf (wwReader w))" using assms(2,3) by (simp add: ww_at_def)
  from io_CopyN_repeated [OF assms(1) pos conjunct1 [OF f] run(2)] f fs_writes(3) [OF assms(1), of name s2]
  show ?thesis using assms(2,3) run(3,4) repeated_mod [OF assms(2), of "i * m" m]
    by (simp add: ww_at_def mod_add_right_eq algebra_simps)
qed

lemma unat_of_nat_64: "n < 2 ^ 64 \<Longrightarrow> unat (of_nat n :: uint64) = n"
  by (simp add: unat_of_nat)

lemma ToDirectory_repeated:
  assumes "fs_laws A files" and "t \<noteq> []" and "0 < m" and "wal_name_laws lm 1 (of_nat m)"
  shows "ww_at t m i w \<Longrightarrow> (i + k) * m < 2 ^ 64 \<Longrightarrow> ToDirectory lm A dir k w s = (None, w', s') \<Longrightarrow>
    (\<forall>q. (\<forall>j n. i \<le> j \<longrightarrow> WALFileNameAt lm (of_nat (j * m)) 1 (of_nat m) = Inr n \<longrightarrow> j < i + k \<longrightarrow> q \<noteq> path_Join [dir, n]) \<longrightarrow> files s' q = files s q) \<and>
    (\<forall>j. i \<le> j \<longrightarrow> j < i + k \<longrightarrow> (\<exists>name. WALFileNameAt lm (of_nat (j * m)) 1 (of_nat m) = Inr name \<and>
       files s' (path_Join [dir, name]) = Some (repeated t (j * m) m)))"
proof (induction k arbitrary: i w s)
  case 0
  then show ?case by simp
next
  case (Suc k)
  have lt: "j * m < 2 ^ 64" if "j < i + Suc k" for j
    using Suc.prems(2) that by (meson le_less_trans less_imp_le mult_le_mono1)
  have m: "m < 2 ^ 64" using Suc.prems(2) assms(3) by (metis add_Suc_right le_add1 le_less_trans mult_Suc)
  have at: "wwSegmentSize w = of_nat m" "wwPosition w = of_nat (i * m)" using Suc.prems(1) by (simp_all add: ww_at_def)
  obtain name w1 s1 where step: "WALFileNameAt lm (of_nat (i * m)) 1 (of_nat m) = Inr name" "writeWAL A (path_Join [dir, name]) w s = (None, w1, s1)"
    and rest: "ToDirectory lm A dir k (w1\<lparr>wwPosition := wwPosition w1 + wwSegmentSize w1\<rparr>) s1 = (None, w', s')"
    using Suc.prems(3) at by (auto split: sum.splits prod.splits option.splits)
  note w = writeWAL_repeated [OF assms(1,2) Suc.prems(1) m step(2)]
  have "(Suc i + k) * m < 2 ^ 64" using Suc.prems(2) by simp
  note IH = Suc.IH [OF conjunct2 [OF conjunct2 [OF w]] this rest]
  have hex: "plain_elem n" if "WALFileNameAt lm p 1 (of_nat m) = Inr n" for p n
  proof -
    have "length n = 24" "list_all is_hex n" using assms(4) that by (auto simp: wal_name_laws_def)
    then show ?thesis using hex_name_plain [of n] by fastforce
  qed
  have other: "path_Join [dir, name] \<noteq> path_Join [dir, n]"
    if j: "Suc i \<le> j" "j < Suc i + k" "WALFileNameAt lm (of_nat (j * m)) 1 (of_nat m) = Inr n" for j n
  proof
    assume "path_Join [dir, name] = path_Join [dir, n]"
    then have "name = n" using path_Join_base [of _ dir] hex j(3) step(1) by metis
    moreover have "of_nat (a * m) mod (of_nat m :: uint64) = 0" if "a * m < 2 ^ 64" for a
      using that m by (simp add: word_arith_nat_mod unat_of_nat del: of_nat_mult)
    ultimately have "(of_nat (i * m) :: uint64) = of_nat (j * m)"
      using assms(4) step(1) j(3) lt [of i] lt [of j] j(2) unfolding wal_name_laws_def by (simp del: of_nat_mult)
    then have "i * m = j * m" using lt [of i] lt [of j] j(2) unat_of_nat_64 by (metis add_Suc_right add_Suc less_add_Suc1)
    then show False using assms(3) j(1) by simp
  qed
  show ?case
  proof (intro conjI allI impI)
    fix q
    assume q: "\<forall>j n. i \<le> j \<longrightarrow> WALFileNameAt lm (of_nat (j * m)) 1 (of_nat m) = Inr n \<longrightarrow> j < i + Suc k \<longrightarrow> q \<noteq> path_Join [dir, n]"
    then have "q \<noteq> path_Join [dir, name]" using step(1) by auto
    then have "files s1 q = files s q" using w by simp
    moreover have "files s' q = files s1 q"
    proof (rule conjunct1 [OF IH, rule_format])
      fix j n
      assume "Suc i \<le> j" "WALFileNameAt lm (of_nat (j * m)) 1 (of_nat m) = Inr n" "j < Suc i + k"
      then show "q \<noteq> path_Join [dir, n]" using q [rule_format, of j n] by linarith
    qed
    ultimately show "files s' q = files s q" by simp
  next
    fix j
    assume j: "i \<le> j" "j < i + Suc k"
    show "\<exists>name. WALFileNameAt lm (of_nat (j * m)) 1 (of_nat m) = Inr name \<and> files s' (path_Join [dir, name]) = Some (repeated t (j * m) m)"
    proof (cases "j = i")
      case True
      have "files s' (path_Join [dir, name]) = files s1 (path_Join [dir, name])" using IH other by simp
      with True step(1) w show ?thesis by auto
    next
      case False
      with j IH show ?thesis by simp
    qed
  qed
qed

text \<open>
  The command generate writes the repeated template: file number \<open>i\<close> has the name of the segment at that position and the bytes
  that the endless repetition of the template has there.
\<close>

lemma generated_wals_repeat_the_template:
  assumes "fs_laws A files" and "t \<noteq> []" and "0 < mb" and "wal_name_laws lm 1 (of_nat (nat mb * 1024 * 1024))"
    and "nat len * (nat mb * 1024 * 1024) < 2 ^ 64" and "generateCmd lm A t [dir] mb len s = (None, s')" and "i < nat len"
  shows "\<exists>name. WALFileNameAt lm (of_nat (i * (nat mb * 1024 * 1024))) 1 (of_nat (nat mb * 1024 * 1024)) = Inr name \<and>
    files s' (path_Join [dir, name]) = Some (repeated t (i * (nat mb * 1024 * 1024)) (nat mb * 1024 * 1024))"
proof -
  define w where "w = \<lparr>wwReader = NewLoopReader t, wwSegmentSize = word_of_int mb * 1024 * 1024, wwPosition = 0\<rparr>"
  have "word_of_int mb = (of_nat (nat mb) :: uint64)" using assms(3) by (metis int_nat_eq less_imp_le of_int_of_nat_eq)
  then have at: "ww_at t (nat mb * 1024 * 1024) 0 w" using assms(3) by (simp add: ww_at_def w_def NewLoopReader_def)
  obtain w' where "ToDirectory lm A dir (nat len) w s = (None, w', s')"
    using assms(3,6) by (auto simp: generateCmd_def NewWALWriter_def w_def split: prod.splits option.splits)
  from ToDirectory_repeated [OF assms(1,2) _ assms(4) at _ this] assms(3,5,7) show ?thesis by auto
qed

section \<open>What a worker sends\<close>

lemma stream_ReadFull_cases:
  "n \<le> length b \<Longrightarrow> stream_ReadFull n (b, e) = ((take n b, None), (drop n b, e))"
  "length b < n \<Longrightarrow> b \<noteq> [] \<Longrightarrow> stream_ReadFull n (b, EOF) = ((b, Some ErrUnexpectedEOF), ([], EOF))"
  "0 < n \<Longrightarrow> stream_ReadFull n ([], EOF) = (([], Some EOF), ([], EOF))"
  by (auto simp: stream_ReadFull_def)

lemma send_blocks_end: "0 < n \<Longrightarrow> send_blocks N n ([], EOF) g net = Some (None, net)"
  by (subst send_blocks.simps) (simp add: stream_ReadFull_cases)

lemma send_blocks_step:
  assumes "0 < n" and "b \<noteq> []"
  shows "send_blocks N n (b, EOF) g net =
    (case SendBlock N (take n b) g net of
       (Some e, g', net') \<Rightarrow> Some (Some (Wrap ''while sending WAL file block'' e), net')
     | (None, g', net') \<Rightarrow> send_blocks N n (drop n b, EOF) g' net')"
  using assms by (subst send_blocks.simps) (cases "n \<le> length b"; simp add: stream_ReadFull_cases cong: prod.case_cong option.case_cong)

text \<open>With a block size that is not zero the loop ends, and when nothing failed it has sent the whole content.\<close>

lemma send_blocks_returns:
  assumes "0 < n"
  shows "\<exists>err net'. send_blocks N n (b, EOF) g net = Some (err, net')"
proof (induction b arbitrary: g net rule: measure_induct_rule [of length])
  case (less b)
  show ?case
  proof (cases "b = []")
    case False
    then have "length (drop n b) < length b" using assms by simp
    from less.IH [OF this] show ?thesis
      by (simp add: send_blocks_step [OF assms False] split: prod.splits option.splits)
  qed (simp add: send_blocks_end [OF assms])
qed

lemma send_blocks_ok:
  assumes "0 < n" and "put_transport N impl ctx inflight served netFs"
  shows "send_blocks N n (b, EOF) g net = Some (None, net') \<Longrightarrow>
    \<exists>bs. concat bs = b \<and> inflight net' = inflight net @ map (block_request g) bs \<and> netFs net' = netFs net"
proof (induction b arbitrary: g net rule: measure_induct_rule [of length])
  case (less b)
  show ?case
  proof (cases "b = []")
    case True
    with less.prems have "net' = net" by (simp add: send_blocks_end [OF assms(1)])
    with True show ?thesis by (intro exI [of _ "[]"]) simp
  next
    case False
    then obtain net1 where send: "net_Send N (block_request g (take n b)) net = (None, net1)"
      and rec: "send_blocks N n (drop n b, EOF) (g\<lparr>sentBytes := sentBytes g + of_nat (length (take n b))\<rparr>) net1 = Some (None, net')"
      using less.prems by (auto simp: send_blocks_step [OF assms(1) False] SendBlock_def split: option.splits prod.splits)
    have "length (drop n b) < length b" using False assms(1) by simp
    from less.IH [OF this rec] obtain bs where "concat bs = drop n b" "inflight net' = inflight net1 @ map (block_request g) bs" "netFs net' = netFs net1"
      by auto
    with transportD(2) [OF assms(2) send] show ?thesis by (intro exI [of _ "take n b # bs"]) simp
  qed
qed

lemma sent_wal_is_served:
  assumes laws: "fs_laws (connFs (implConn impl)) files" "codec_laws (connCodec (implConn impl)) (masterKey (implConn impl))"
    and tr: "put_transport N impl ctx inflight served netFs"
    and opened: "open_wal A Os fileName s = (Inr f, name)" "rsSource f = (b, EOF)" "rsSize f = int (length b)" "b \<noteq> []"
    and cl: "plain_elem (plClusterName p)" "\<not> HasSuffix (path_Base name) PartialSuffix" and bs: "0 < plBlockSize p"
    and run: "pl_sendWAL N A Os p fileName s net = Some (\<lparr>wrWALFullPath = fileName, wrError = None\<rparr>, net')"
  shows "\<exists>ds. getWAL impl ctx (\<lambda>_. None) \<lparr>getClusterName = plClusterName p, getWalName = path_Base name\<rparr> (netFs net') =
      (None, map (\<lambda>d. (d, of_nat (length b))) ds @ [([], of_nat (length b))]) \<and> concat ds = b"
proof -
  define g where "g = \<lparr>gsSegmentSize = of_nat (length b), gsClusterName = plClusterName p, sentBytes = 0, gsWalName = path_Base name,
    gsWalStartLSN = 0, gsSendToTier2 = False\<rparr>"
  obtain net1 net2 net3 where steps: "net_Put N net = (None, net1)" "send_blocks N (nat (plBlockSize p)) (b, EOF) g net1 = Some (None, net2)"
    "net_CloseSend N net2 = (None, net3)" "errors_Is (snd (net_Results N net3)) EOF" "net' = net_End N net3"
    using run opened(2,3) bs
    by (auto simp: pl_sendWAL_def opened(1) Let_def StoreWALStreaming_def gs_Close_def feedbackReader_def g_def
        split: prod.splits option.splits if_splits)
  have n: "0 < nat (plBlockSize p)" using bs by simp
  note t = transportD [OF tr]
  from send_blocks_ok [OF n tr steps(2)] t(1) [OF steps(1)] t(3) [OF steps(3)] obtain bs where
    bs: "concat bs = b" "inflight net3 = map (block_request g) bs" by auto
  from t(4) [OF steps(4)] obtain batches q h where put: "concat batches = inflight net3"
    "Put impl ctx batches None (netFs net3) q = (None, h)" "netFs net' = phFs h" using steps(5) by blast
  obtain c where c: "c \<in> set bs" using bs(1) opened(4) by (cases bs) auto
  then have req: "block_request g c \<in> set (concat batches)" using bs(2) put(1) by simp
  have bytes: "concat (map reqWalBlock (concat batches)) = b" using bs put(1) by (simp add: block_request_def comp_def)
  from put_then_get [OF laws put(2) req] bytes cl put(3) show ?thesis by (simp add: block_request_def g_def)
qed

lemma sendWAL_returns:
  assumes "open_wal A Os fileName s = (Inr f, name)" and "rsSource f = (b, EOF)" and "0 < plBlockSize p"
  shows "\<exists>e net'. pl_sendWAL N A Os p fileName s net = Some (\<lparr>wrWALFullPath = fileName, wrError = e\<rparr>, net')"
proof -
  have n: "0 < nat (plBlockSize p)" using assms(3) by simp
  show ?thesis
  proof (cases "StoreWALStreaming N (plClusterName p) (path_Base name) (word_of_int (rsSize f)) False 0 net")
    case (Pair st net1)
    show ?thesis
    proof (cases st)
      case (Inl e)
      with Pair assms show ?thesis by (simp add: pl_sendWAL_def Let_def)
    next
      case (Inr g)
      obtain err net2 where "send_blocks N (nat (plBlockSize p)) (b, EOF) g net1 = Some (err, net2)"
        using send_blocks_returns [OF n, of N b g net1] by auto
      moreover obtain ce fb net3 where "gs_Close N net2 = ((ce, fb), net3)" by (metis surj_pair)
      ultimately show ?thesis using Pair Inr assms by (cases ce) (simp_all add: pl_sendWAL_def Let_def)
    qed
  qed
qed

text \<open>
  A block size of zero, which the flag of the command allows, does not end: each round reads nothing, and sends an empty
  block for as long as the server takes them.
\<close>


lemma zero_block_size_returns_only_errors:
  assumes "send_blocks N k src g net = Some r" and "k = 0"
  shows "\<exists>g net e g' net'. SendBlock N [] g net = (Some e, g', net')"
  using assms
proof (induction N k src g net r rule: send_blocks.raw_induct [rotated, consumes 1, case_names step])
  case (step send_blocks N k src g net r)
  show ?case
  proof (cases "SendBlock N [] g net")
    case (fields err g' net')
    show ?thesis
    proof (cases err)
      case None
      then have "send_blocks N 0 src g' net' = Some r"
        using step(2,3) fields by (cases src) (simp add: stream_ReadFull_def)
      from step(1) [OF this] show ?thesis by simp
    next
      case (Some e)
      with fields show ?thesis by blast
    qed
  qed
qed

section \<open>What Play reports\<close>

definition manager_tasks :: "manager_state \<Rightarrow> string list" where
  "manager_tasks m = (case m of Handing t \<Rightarrow> [t] | _ \<Rightarrow> [])"

definition worker_tasks :: "worker_state \<Rightarrow> string list" where
  "worker_tasks w = (case w of Working t \<Rightarrow> [t] | Reporting r \<Rightarrow> [wrWALFullPath r] | _ \<Rightarrow> [])"

definition play_tasks :: "play_state \<Rightarrow> string multiset" where
  "play_tasks s = mset (psTodo s) + mset (manager_tasks (psManager s)) + (\<Sum>w \<in># mset (psWorkers s). mset (worker_tasks w)) +
     mset (map wrWALFullPath (psResults s))"

lemma sum_mset_update:
  assumes "i < length ws"
  shows "(\<Sum>w \<in># mset (ws[i := w']). f w) + f (ws ! i) = (\<Sum>w \<in># mset ws. f w) + (f w' :: 'a :: comm_monoid_add)"
proof -
  have "mset ws = add_mset (ws ! i) (mset ws - {#ws ! i#})" using assms by simp
  then have "(\<Sum>w \<in># mset ws. f w) = f (ws ! i) + (\<Sum>w \<in># mset ws - {#ws ! i#}. f w)" by (metis image_mset_add_mset sum_mset.add_mset)
  then show ?thesis using assms by (simp add: mset_update ac_simps)
qed

lemmas play_simps = play_tasks_def manager_tasks_def worker_tasks_def

lemma play_step_tasks: "play_step s s' \<Longrightarrow> play_tasks s' = play_tasks s"
proof (induction rule: play_step.induct)
  case (take_task i s t)
  then show ?case using sum_mset_update [of i "psWorkers s" "\<lambda>w. mset (worker_tasks w)" "Working t"] by (simp add: play_simps)
next
  case (send_wal i s t r)
  then show ?case using sum_mset_update [of i "psWorkers s" "\<lambda>w. mset (worker_tasks w)" "Reporting r"] by (simp add: play_simps)
next
  case (report i s r)
  then show ?case using sum_mset_update [of i "psWorkers s" "\<lambda>w. mset (worker_tasks w)" Idle] by (simp add: play_simps)
next
  case (connect i s)
  then show ?case using sum_mset_update [of i "psWorkers s" "\<lambda>w. mset (worker_tasks w)" Idle] by (simp add: play_simps)
next
  case (connect_failed i s)
  then show ?case using sum_mset_update [of i "psWorkers s" "\<lambda>w. mset (worker_tasks w)" "WorkerGone True"] by (simp add: play_simps)
next
  case (queue_closed i s)
  then show ?case using sum_mset_update [of i "psWorkers s" "\<lambda>w. mset (worker_tasks w)" "WorkerGone False"] by (simp add: play_simps)
next
  case (worker_cancelled i s)
  then show ?case using sum_mset_update [of i "psWorkers s" "\<lambda>w. mset (worker_tasks w)" "WorkerGone False"] by (simp add: play_simps)
qed (simp_all add: play_simps)

text \<open>As long as nothing is cancelled, nobody leaves before the work is done.\<close>

definition play_inv :: "play_state \<Rightarrow> bool" where
  "play_inv s \<longleftrightarrow> (psClosed s \<longrightarrow> (\<forall>w \<in> set (psWorkers s). \<exists>b. w = WorkerGone b)) \<and>
     (\<not> psCancelled s \<longrightarrow>
       (psManager s = ManagerGone \<longrightarrow> psTodo s = []) \<and> (\<not> psCollecting s \<longrightarrow> psClosed s) \<and>
       (WorkerGone False \<in> set (psWorkers s) \<longrightarrow> psManager s = ManagerGone))"

lemma update_gone: "\<forall>w \<in> set ws. \<exists>b. w = WorkerGone b \<Longrightarrow> i < length ws \<Longrightarrow> \<exists>b. ws ! i = WorkerGone b"
  by simp

lemma play_inv_start: "play_inv (play_start A p s)"
  by (auto simp: play_inv_def play_start_def Let_def split: sum.splits)

lemma play_inv_step: "play_step s s' \<Longrightarrow> play_inv s \<Longrightarrow> play_inv s'"
  by (induction rule: play_step.induct) (auto simp: play_inv_def dest!: set_update_subset_insert [THEN subsetD] update_gone)

lemma play_reachable:
  assumes "play_any\<^sup>*\<^sup>* (play_start A p fs) s"
  shows "play_inv s" and "play_tasks s = play_tasks (play_start A p fs)"
proof -
  have "play_inv s \<and> play_tasks s = play_tasks (play_start A p fs)"
    using assms
  proof (induction rule: rtranclp_induct)
    case (step s s')
    then show ?case using play_inv_step play_step_tasks by (auto simp: play_any_def) (auto simp: play_inv_def play_simps)
  qed (simp add: play_inv_start)
  then show "play_inv s" and "play_tasks s = play_tasks (play_start A p fs)" by simp_all
qed

lemma gone_workers_idle: "\<forall>w \<in> set ws. \<exists>b. w = WorkerGone b \<Longrightarrow> (\<Sum>w \<in># mset ws. mset (worker_tasks w)) = {#}"
  by (induction ws) (auto simp: worker_tasks_def)

text \<open>When Play returns and nothing was cancelled, every file of the directory has been reported exactly once.\<close>

lemma play_reports_each_file_once:
  assumes "play_any\<^sup>*\<^sup>* (play_start A p fs) s" and "play_returned s" and "\<not> psCancelled s" and "ReadDir A (plDirName p) fs = Inr entries"
  shows "mset (map wrWALFullPath (psResults s)) = mset (map (\<lambda>(n, isDir). path_Join [plDirName p, n]) entries)"
proof -
  note inv = play_reachable [OF assms(1)]
  have start: "play_tasks (play_start A p fs) = mset (map (\<lambda>(n, isDir). path_Join [plDirName p, n]) entries)"
    by (simp add: play_simps play_start_def assms(4) Let_def)
  have "psTodo s = []" "psManager s = ManagerGone" "\<forall>w \<in> set (psWorkers s). \<exists>b. w = WorkerGone b"
    using inv(1) assms(2,3) by (auto simp: play_inv_def play_returned_def)
  then have "play_tasks s = mset (map wrWALFullPath (psResults s))" using gone_workers_idle by (simp add: play_tasks_def manager_tasks_def)
  then show ?thesis using inv(2) start by simp
qed

lemma collects_while_busy:
  assumes "play_inv s" and "\<not> psCancelled s" and "i < length (psWorkers s)" and "psWorkers s ! i = Idle \<or> (\<exists>r. psWorkers s ! i = Reporting r)"
  shows "psCollecting s"
proof (rule ccontr)
  assume "\<not> psCollecting s"
  then have "\<forall>w \<in> set (psWorkers s). \<exists>b. w = WorkerGone b" using assms(1,2) by (simp add: play_inv_def)
  from update_gone [OF this assms(3)] assms(4) show False by auto
qed

text \<open>And Play does get there: without a cancellation, as long as some worker could connect, it is never stuck; every step brings it closer.\<close>

lemma play_progress:
  assumes "play_any\<^sup>*\<^sup>* (play_start A p fs) s" and "\<not> psCancelled s" and "\<exists>w \<in> set (psWorkers s). w \<noteq> WorkerGone True" and "\<not> play_returned s"
  shows "\<exists>s'. play_step s s'"
proof -
  have inv: "play_inv s" using play_reachable(1) [OF assms(1)] .
  show ?thesis
  proof (cases "\<exists>i < length (psWorkers s). \<exists>x. psWorkers s ! i \<in> {Connecting, Working x}")
    case True
    then show ?thesis using play_step.connect play_step.send_wal [where r = "\<lparr>wrWALFullPath = t, wrError = None\<rparr>" for t] by fastforce
  next
    case False
    show ?thesis
    proof (cases "psManager s")
      case Choosing
      then show ?thesis using play_step.choose play_step.manager_end assms(2) by (cases "psTodo s") blast+
    next
      case (Handing t)
      have "WorkerGone False \<notin> set (psWorkers s)" using inv assms(2) Handing by (auto simp: play_inv_def)
      then obtain i where i: "i < length (psWorkers s)" "psWorkers s ! i = Idle \<or> (\<exists>r. psWorkers s ! i = Reporting r)"
        using assms(3) False by (metis (full_types) in_set_conv_nth insertCI worker_state.exhaust)
      then have "psCollecting s" by (rule collects_while_busy [OF inv assms(2)])
      with i Handing show ?thesis using play_step.take_task play_step.report by blast
    next
      case ManagerGone
      show ?thesis
      proof (cases "\<forall>w \<in> set (psWorkers s). \<exists>b. w = WorkerGone b")
        case True
        then show ?thesis using ManagerGone assms(4) play_step.close_results [of s] play_step.collector_end [of s]
          by (cases "psClosed s") (auto simp: play_returned_def)
      next
        case False': False
        then obtain i where i: "i < length (psWorkers s)" "psWorkers s ! i = Idle \<or> (\<exists>r. psWorkers s ! i = Reporting r)"
          using False by (metis (full_types) in_set_conv_nth insertCI worker_state.exhaust)
        then have "psCollecting s" by (rule collects_while_busy [OF inv assms(2)])
        with i ManagerGone show ?thesis using play_step.queue_closed play_step.report by blast
      qed
    qed
  qed
qed

definition manager_left :: "manager_state \<Rightarrow> nat" where
  "manager_left m = (case m of Choosing \<Rightarrow> 1 | Handing t \<Rightarrow> 5 | ManagerGone \<Rightarrow> 0)"

definition worker_left :: "worker_state \<Rightarrow> nat" where
  "worker_left w = (case w of Connecting \<Rightarrow> 2 | Idle \<Rightarrow> 1 | Working t \<Rightarrow> 3 | Reporting r \<Rightarrow> 2 | WorkerGone b \<Rightarrow> 0)"

definition play_left :: "play_state \<Rightarrow> nat" where
  "play_left s = 5 * length (psTodo s) + manager_left (psManager s) + (\<Sum>w \<in># mset (psWorkers s). worker_left w) +
     (if psCollecting s then 1 else 0) + (if psClosed s then 0 else 1)"

lemma worker_left_update:
  "i < length ws \<Longrightarrow> (\<Sum>w \<in># mset (ws[i := w']). worker_left w) + worker_left (ws ! i) = (\<Sum>w \<in># mset ws. worker_left w) + worker_left w'"
  by (rule sum_mset_update)

lemma worker_left_simps [simp]: "worker_left Connecting = 2" "worker_left Idle = 1" "worker_left (Working t) = 3"
  "worker_left (Reporting r) = 2" "worker_left (WorkerGone b) = 0"
  by (simp_all add: worker_left_def)

lemmas left_simps = play_left_def manager_left_def

lemma play_step_left: "play_step s s' \<Longrightarrow> play_left s' < play_left s"
proof (induction rule: play_step.induct)
  case (connect i s)
  then show ?case using worker_left_update [of i "psWorkers s" Idle] by (simp add: left_simps)
next
  case (connect_failed i s)
  then show ?case using worker_left_update [of i "psWorkers s" "WorkerGone True"] by (simp add: left_simps)
next
  case (take_task i s t)
  then show ?case using worker_left_update [of i "psWorkers s" "Working t"] by (simp add: left_simps)
next
  case (queue_closed i s)
  then show ?case using worker_left_update [of i "psWorkers s" "WorkerGone False"] by (simp add: left_simps)
next
  case (worker_cancelled i s)
  then show ?case using worker_left_update [of i "psWorkers s" "WorkerGone False"] by (simp add: left_simps)
next
  case (send_wal i s t r)
  then show ?case using worker_left_update [of i "psWorkers s" "Reporting r"] by (simp add: left_simps)
next
  case (report i s r)
  then show ?case using worker_left_update [of i "psWorkers s" Idle] by (simp add: left_simps)
qed (simp_all add: left_simps)

text \<open>
  Two ways in which Play never returns.  No worker can connect: the manager waits for ever to hand out its first task.  Or the
  context is cancelled while a worker sends a WAL: the collector leaves, and the worker waits for ever to deliver its report.
\<close>

lemma play_hangs_without_workers:
  assumes "psManager s = Handing t" and "\<forall>w \<in> set (psWorkers s). \<exists>b. w = WorkerGone b" and "play_any\<^sup>*\<^sup>* s s'"
  shows "\<not> play_returned s'"
proof -
  have "psManager s' = Handing t \<and> (\<forall>w \<in> set (psWorkers s'). \<exists>b. w = WorkerGone b)"
    using assms(3,1,2)
  proof (induction rule: rtranclp_induct)
    case (step s1 s2)
    from step.IH [OF step.prems] step.hyps(2) show ?case unfolding play_any_def by (auto elim!: play_step.cases dest: update_gone)
  qed simp
  then show ?thesis by (simp add: play_returned_def)
qed

lemma play_hangs_after_cancellation:
  assumes "\<not> psCollecting s" and "i < length (psWorkers s)" and "psWorkers s ! i = Reporting r" and "\<not> psClosed s" and "play_any\<^sup>*\<^sup>* s s'"
  shows "\<not> play_returned s'"
proof -
  have "\<not> psCollecting s' \<and> i < length (psWorkers s') \<and> psWorkers s' ! i = Reporting r \<and> \<not> psClosed s'"
    using assms(5,1-4)
  proof (induction rule: rtranclp_induct)
    case (step s1 s2)
    from step.IH [OF step.prems] step.hyps(2) show ?case unfolding play_any_def
      by (auto elim!: play_step.cases simp: nth_list_update) (metis nth_mem worker_state.distinct(19))
  qed simp
  then show ?thesis by (simp add: play_returned_def)
qed

end
