(* ===== verification/Spec2Isabelle.thy ===== *)
theory Spec2Isabelle
  imports Klio_Prelude Wal_Names Wal_Repository Repo_Keys Task_Queue Wal_Auth Wal_Put Wal_Calls Backup_Retention Tier_Consumers Put_Streams Send_Wal Wal_Restore Kopia_Cli Base_Backup Supervisor Klio_Config Server_Start Admin_Server Backup_Run Operator_Plugin Operator_Server Message_Receiver Snapshot_Metrics Plugin_Service Wal_Player
begin

text \<open>
  A verification development of Klio, which archives the WAL of PostgreSQL clusters and their base
  backups: the Go modules under src/core (client, server and plugin) and src/operator (the operator).

  \<^bold>\<open>The program.\<close>  Beside each PostgreSQL instance runs a client: the WAL sender receives the replication
  stream and uploads each segment to a Klio server over gRPC, and during recovery a plugin downloads WALs
  again, from tier 1 or tier 2, with a prefetcher.  The WAL server stores the blocks of a WAL in a
  repository, a directory per cluster, encrypted and compressed, and answers downloads, metadata, retention
  policies and the closing of backups.  Work for tier 2 goes through a durable task queue (NATS JetStream):
  consumers copy WALs to the object store and relay base backups, which are Kopia snapshots.  A sweeper applies the
  retention policies to backups and WALs of both tiers.  On Kubernetes the operator writes the configuration of the plugin,
  injects it as a sidecar into the pods of a cluster, and runs the server as a StatefulSet.

  \<^bold>\<open>Theories\<close>, in the order they build on each other, with the code they translate (under src/core/internal
  unless another path is given).  Each definition has the name of the function it translates where HOL
  allows it; a prefix tells methods of the same name apart.

  \<^item> \<open>Klio_Prelude\<close>: machine types, Go errors (errors.Is, errors.Join, panics), packages strings and path, and the
    lemmas on them that all components share.
  \<^item> \<open>Wal_Names\<close>: wal/filename.go, repository/validate.go, the layout of repository/wals.go.  Valid names are safe path
    components; distinct WALs have distinct paths.
  \<^item> \<open>Wal_Repository\<close>: repository/streams.go, wals.go, reader.go, retention.go.  Writer and reader of block files as state
    passing over a file system; round trip, the rename to the final name as the only commit, detection of
    truncation, and which WALs the retention of a cluster removes and keeps.
  \<^item> \<open>Repo_Keys\<close>: repository/encryption.go, config.go, initialize.go, repository.go.  An initialised repository opens with its
    password, and initialising again keeps the keys.
  \<^item> \<open>Task_Queue\<close>: queue/*.go.  Streams, consumers, publishing, the dead-letter queue with retry, discard and purge, and the
    migration of the legacy stream, over an abstract JetStream; the locale \<open>failed_task_queue\<close> is the contract that the
    queues of failed WAL and backup tasks share.
  \<^item> \<open>Wal_Auth\<close>, \<open>Wal_Put\<close>, \<open>Wal_Calls\<close>, \<open>Put_Streams\<close>: server/walserver/*.go.  Authorisation by certificate; the Put handler with its
    invariant, durability of what it acknowledges and confinement to the cluster of the certificate; Get, metadata,
    start and reset of a stream, policies, closing a backup; and the two goroutines of a Put as step relations over
    all interleavings.
  \<^item> \<open>Send_Wal\<close>: client/sendwal and the uploading half of client/klioclient/grpcclient.  The stream of PostgreSQL is cut
    at segment boundaries (\<open>cut_segments\<close> is the reference) and uploaded; the locale \<open>wal_handler\<close> is the interface
    WALHandler, interpreted on the handler that uploads to the server.
  \<^item> \<open>Wal_Restore\<close>: cnpgi/prefetcher.go, cnpgi/wal.go, grpcclient/waldownloader.go.  Downloads, the prefetcher as a step relation
    with an invariant on its spool, tiers and repository of a cluster.
  \<^item> \<open>Backup_Retention\<close>: kopia/data.go, client/klioclient, policy, retention.  Which backups and WALs the sweep of both tiers deletes;
    locales \<open>retention_policy\<close> and \<open>backup_deleter\<close>, interpreted on the latest-N policy and on the Kopia connection.
  \<^item> \<open>Tier_Consumers\<close>: consumer/*.go, klioclient/kopia/verify.go.  A task is acknowledged only when tier 2 has the WAL, or every
    backup of the cluster that tier 1 has; locale \<open>backup_steps\<close>, interpreted on the relay.
  \<^item> \<open>Kopia_Cli\<close>: kopia/*.go.  The wrapper that runs the Kopia command line: arguments, environment, snapshots, policies, restoring; over a
    Kopia that behaves as documented it is a client in the sense of \<open>Backup_Retention\<close>, which is a refinement.
  \<^item> \<open>Base_Backup\<close>: client/klioclient and its package kopia, src/core/cmd/restore.go.  Taking and restoring a base backup with its tablespaces,
    and both tiers as one client; what was backed up is what is restored.
  \<^item> \<open>Supervisor\<close>: supervisor/*.go and cnpgi/send-wal.go.  The supervisor of the WAL sender process as a step relation: manual stops are final,
    automatic restarts are spaced.
  \<^item> \<open>Klio_Config\<close>: src/core/pkg/config.  Defaults, validation and keys of the configuration; which configurations are accepted.
  \<^item> \<open>Server_Start\<close>: src/core/cmd/server, src/core/cmd/initialize, server/kopiaconfig.  A server starts over repositories whose own retention is
    off, and never damages repositories it finds.
  \<^item> \<open>Admin_Server\<close>: server/admin.  Listing and deleting backups and failed tasks; a deletion is exact.
  \<^item> \<open>Backup_Run\<close>: src/core/cmd/backup, cnpgi/backup.go, backupfailure.  A backup that the plugin reports is complete, and a failure is counted
    under its cause.
  \<^item> \<open>Operator_Plugin\<close>, \<open>Operator_Server\<close>: src/operator.  The PluginConfiguration and Server resources, the configuration and environment generated
    from them, the lifecycle hooks and the controllers; what is generated is what \<open>Klio_Config\<close> accepts, hooks are idempotent and a
    reconciliation stays within what the Server owns.
  \<^item> \<open>Message_Receiver\<close>: the two goroutines of client/sendwal that \<open>Send_Wal\<close> leaves out, as step relations; the receiver keeps the stream although
    it reads into one buffer, and status updates are confirmed positions.
  \<^item> \<open>Snapshot_Metrics\<close>, \<open>Plugin_Service\<close>: server/kopiaserver/metrics.go; cnpgi/restore.go, cnpgi/configwatcher.go, server/retentionsweeper.go.
    What the gauges show, and the services around the core.
  \<^item> \<open>Wal_Player\<close>: walplayer/*.go.  Generating WAL files and sending a directory of them; Play as a step relation, with what it reports
    and the two ways in which it hangs.

  \<^bold>\<open>How state and effects are modelled.\<close>  Every handler is a function that takes and returns the state it changes
  (the file system, the queue, the record of the call); an error is a value of \<open>go_error\<close>, a run-time panic its value
  \<open>Panic\<close>, and every early return is a branch.  Machine integers are 64-bit words, so that positions wrap.
  Goroutines that interleave with their handler are \<open>inductive\<close> step relations (\<open>br_step\<close>, \<open>fb_step\<close>, \<open>pf_step\<close>, \<open>sv_step\<close>, \<open>mr_step\<close>, \<open>fg_step\<close>, \<open>play_step\<close>); the
  theorems hold for every reachable state.  Loops that need not end are \<open>partial_function\<close>s, where \<open>None\<close> is a call
  that does not return: \<open>check_loop\<close>, \<open>process_loop\<close>, \<open>startReplication\<close>, \<open>close_loop\<close> and \<open>send_blocks\<close>; that they do return is
  proved, under the conditions stated.  No definition has fuel; all other recursion is shown to terminate.

  \<^bold>\<open>What the code relies on\<close> is an argument with a named hypothesis: the file system (\<open>fs_laws\<close>, \<open>fs_reliable\<close>, \<open>os_errors\<close>),
  encryption, compression and framing (\<open>codec_laws\<close>), protobuf (\<open>proto_laws\<close>), JetStream (the laws in \<open>Task_Queue\<close>), gRPC
  (\<open>put_transport\<close>), WAL name arithmetic (\<open>lsn_math\<close>, \<open>wal_name_laws\<close>), PostgreSQL (\<open>contiguous\<close>), Kopia (\<open>kopia_laws\<close>,
  \<open>relay_laws\<close>, \<open>kopia_cli_laws\<close>, \<open>foreign_errors\<close>), the host of PostgreSQL (\<open>host_laws\<close>, \<open>json_round_trip\<close>), the processes that the plugin starts
  (\<open>run_laws\<close>, \<open>runs_klio\<close>, \<open>backoff_laws\<close>), the start of a server (\<open>server_laws\<close>, \<open>empty_root\<close>), and the API server of Kubernetes (\<open>decode_laws\<close>,
  \<open>kube_laws\<close>, \<open>srv_laws\<close>).  Each is shown satisfiable by a concrete instance in memory, on which the witnesses run.

  \<^bold>\<open>Properties across components.\<close>  Below: a WAL goes from PostgreSQL through the sender, the server and the restoring
  plugin unchanged.  In \<open>Wal_Calls\<close>: what was put is what a client gets.  In \<open>Tier_Consumers\<close>: what a consumer
  acknowledges is on tier 2.  In \<open>Backup_Retention\<close>: WAL retention keeps what the listed backups need.  In \<open>Backup_Run\<close>: a reported backup has
  every part in the repository and every WAL it needs in the archive.  In \<open>Operator_Plugin\<close> and \<open>Operator_Server\<close>: what the operator generates passes
  the validation of the core, and the injected sidecar finds its files.

  \<^bold>\<open>Not modelled\<close>: logging, spans and the instruments of OpenTelemetry; the parsing of command-line flags and the entry points of the
  processes (src/core/cmd, src/operator/cmd), which call operations that are modelled; TLS credentials and their reloading, the embedded NATS server and the
  AWS client, whose results are the transport, JetStream and file system that the models take as arguments; generated code (*.pb.go,
  zz_generated.deepcopy.go); the operator's own copy of the configuration types; the dashboards under src/observability; and tests.
\<close>

section \<open>Properties\<close>

text \<open>
  C1: a WAL survives the whole way from PostgreSQL to the archive and back.  PostgreSQL sends WAL without gaps
  from the start of a segment, the sender cuts it and uploads each segment with a Put, the server stores the
  blocks encrypted and compressed, and later the plugin beside a recovering PostgreSQL asks the server for a
  segment: when the session and the request succeed, the file that PostgreSQL reads has exactly the bytes that
  PostgreSQL had sent for that segment, whatever the messages, batches, blocks and chunks in between.
\<close>

theorem streamed_wal_is_restored:
  assumes "fs_laws (connFs (implConn impl)) files" and "codec_laws (connCodec (implConn impl)) (masterKey (implConn impl))"
    and "put_transport N impl ctx inflight served netFs" and "served net = []"
    and "wal_name_laws lm tli (of_nat m)" and "plain_elem cluster"
    and "0 < m" and "m < 2 ^ 63" and "m dvd unat P"
    and "contiguous P (stream_data L (concat batches))"
    and "unat P + length (wal_bytes (stream_data L (concat batches))) < 2 ^ 64"
    and "\<forall>(p, b) \<in> set (stream_data L (concat batches)). length b < 2 ^ 63"
    and "receive_loop L (klio_handler lm N) batches (new_Data tli (of_nat m))
           (new_KlioClientTimelineHandler tli (of_nat m) cluster relayed net) = Some (exit, d, h)"
    and "exit \<in> {ReceiveFailed, StreamEnded}" and "CloseCurrentWAL (klio_handler lm N) d h = (None, d', h')"
    and "(p, b) \<in> set (cut_segments P m (wal_bytes (stream_data L (concat batches))))"
    and "WALFileNameAt lm p tli (of_nat m) = Inr name"
    and "fs_laws A nodeFiles" and "os_errors A" and "\<forall>n. plain_elem n \<longrightarrow> target \<noteq> path_Join [dir, n]"
    and "pf_Request A (server_get impl ctx cluster (netFs (khNet h'))) cancelled name target (newWALPrefetcher dir k) s = (Inr hit, pf, s')"
  shows "nodeFiles s' target = Some b"
proof -
  from session_archived [OF assms(1-16)] assms(17) obtain ds where
    get: "getWAL impl ctx (\<lambda>_. None) \<lparr>getClusterName = cluster, getWalName = name\<rparr> (netFs (khNet h')) =
      (None, map (\<lambda>d. (d, of_nat m)) ds @ [([], of_nat m)])" and ds: "concat ds = b" by auto
  have hex: "length name = 24" "list_all is_hex name" using assms(5,17) by (auto simp: wal_name_laws_def)
  have "name \<noteq> []" using hex(1) by auto
  note name = hex_name_plain [OF hex(2) this]
  have "server_get impl ctx cluster (netFs (khNet h')) name = Inr (map (\<lambda>d. (d, of_nat m)) ds @ [([], of_nat m)], EOF)"
    by (simp add: server_get_def get)
  from fresh_request [where srv = "server_get impl ctx cluster (netFs (khNet h'))" and n = name, OF assms(18,19) this name assms(20,21)]
  show ?thesis by (simp add: ds comp_def)
qed

theorem streamed_wal_is_restored_witness:
  "\<exists>d h pf s. receive_loop sender_messages (klio_handler sender_lsn (server_net example_impl example_ctx))
       [[CopyData [107]], [CopyData [119, 1, 2, 3]]] (new_Data 1 3) sender_start = Some (ReceiveFailed, d, h) \<and>
     pf_Request (connFs mem_connection) (server_get example_impl example_ctx ''pg'' (wireFs (khNet h))) False
       ''00000001000000000000000A'' ''target'' (newWALPrefetcher ''spool'' 0) [] = (Inr False, pf, s) \<and>
     mem_files s ''target'' = Some [1, 2, 3]"
proof -
  let ?batches = "[[CopyData [107]], [CopyData [119, 1, 2, 3]]] :: BackendMessage list list"
  let ?N = "server_net example_impl example_ctx"
  let ?name = "''00000001000000000000000A''"
  have data: "stream_data sender_messages (concat ?batches) = [(0, [1, 2, 3])]" by (simp add: sender_messages_def)
  obtain d h where run: "receive_loop sender_messages (klio_handler sender_lsn ?N) ?batches (new_Data 1 3) sender_start = Some (ReceiveFailed, d, h)"
    and cl: "CloseCurrentWAL (klio_handler sender_lsn ?N) d h = (None, d, h)"
    using sender_session by blast
  have plain: "plain_elem ''pg''" and part: "\<not> HasSuffix ?name ''.partial''" by code_simp+
  have lsn: "WALFileNameAt sender_lsn 0 1 3 = Inr ?name" by (simp add: sender_lsn_def)
  have base: "path_Base ''target'' = ''target''" "path_Join [''spool'', ''target''] \<noteq> ''target''" by code_simp+
  have spool: "\<forall>n. plain_elem n \<longrightarrow> ''target'' \<noteq> path_Join [''spool'', n]"
    using path_Join_base base by metis
  from session_archived [where impl = example_impl and files = mem_files and N = ?N and ctx = example_ctx
      and net = sender_wire and m = 3 and P = 0 and L = sender_messages and batches = ?batches and lm = sender_lsn and tli = 1
      and cluster = "''pg''" and ?h1.0 = h and ?d1.0 = d and relayed = True and p = 0 and b = "[1, 2, 3]",
      OF _ _ server_net_transport _ _ plain _ _ _ _ _ _ _ _ cl] run sender_names lsn
  obtain ds where "getWAL example_impl example_ctx (\<lambda>_. None) \<lparr>getClusterName = ''pg'', getWalName = ?name\<rparr> (wireFs (khNet h)) =
      (None, map (\<lambda>d. (d, 3)) ds @ [([], 3)])"
    unfolding data by (auto simp: sender_wire_def sender_start_def cut_segments_def)
  then have "server_get example_impl example_ctx ''pg'' (wireFs (khNet h)) ?name = Inr (map (\<lambda>d. (d, 3)) ds @ [([], 3)], EOF)"
    by (simp add: server_get_def)
  from mem_request [where srv = "server_get example_impl example_ctx ''pg'' (wireFs (khNet h))" and n = ?name, OF this _ part, of "''target''" "''spool''" 0] obtain pf s where
    req: "pf_Request (connFs mem_connection) (server_get example_impl example_ctx ''pg'' (wireFs (khNet h))) False ?name ''target''
      (newWALPrefetcher ''spool'' 0) [] = (Inr False, pf, s)" by auto
  from streamed_wal_is_restored [where impl = example_impl and files = mem_files and N = ?N and ctx = example_ctx
      and net = sender_wire and m = 3 and P = 0 and L = sender_messages and batches = ?batches and lm = sender_lsn and tli = 1
      and cluster = "''pg''" and h = h and d = d and relayed = True and p = 0 and b = "[1, 2, 3]" and name = ?name and nodeFiles = mem_files,
      OF _ _ server_net_transport _ _ plain _ _ _ _ _ _ _ _ cl _ _ _ mem_os_errors spool req] run sender_names lsn
  have "mem_files s ''target'' = Some [1, 2, 3]"
    unfolding data by (auto simp: sender_wire_def sender_start_def cut_segments_def)
  with run req show ?thesis by blast
qed

end
